(* ===== verification/Prelude.thy ===== *)
theory Prelude
  imports Main "HOL-Library.Product_Lexorder"
begin

text \<open>
  The vocabulary the component theories share.

  \<^item> Scalar types. An \<open>instant\<close> is a timezone-aware UTC datetime, counted in microseconds since
    the epoch (the resolution of Python's datetime and of TIMESTAMPTZ); a \<open>date\<close> is a calendar
    day by its proleptic ordinal (Python's \<open>date.toordinal\<close>); a \<open>wall\<close> time is the number of
    microseconds since local midnight. A \<open>uuid\<close> is a number, handed out by a counter of the
    store. A \<open>utext\<close> is a Python string as the list of its code points.
  \<^item> Errors as values: \<open>'e + 'a\<close> with \<open>andthen\<close>, \<open>need\<close> (raise when absent) and \<open>ensure\<close>
    (raise when a guard fails), so that a handler reads like the source's early returns.
  \<^item> Tables as lists of rows: \<open>update_where\<close> is UPDATE .. WHERE .., \<open>unique_on\<close> a partial
    unique index, \<open>lowest_free\<close> the seat arithmetic that booking and payments share.
\<close>

section \<open>Scalars\<close>

type_synonym uuid = nat
type_synonym instant = int
type_synonym date = int
type_synonym wall = int
type_synonym utext = "nat list"

definition seconds :: "int \<Rightarrow> int" where
  "seconds n = n * 1000000"

definition minutes :: "int \<Rightarrow> int" where
  "minutes n = seconds (n * 60)"

definition hours :: "int \<Rightarrow> int" where
  "hours n = minutes (n * 60)"

definition days :: "int \<Rightarrow> int" where
  "days n = hours (n * 24)"

named_theorems duration_defs "unfold durations to microseconds"
declare seconds_def [duration_defs] minutes_def [duration_defs]
  hours_def [duration_defs] days_def [duration_defs]

named_theorems row_simps "how a table reads after a guarded UPDATE"

section \<open>Errors as values\<close>

definition andthen :: "'e + 'a \<Rightarrow> ('a \<Rightarrow> 'e + 'b) \<Rightarrow> 'e + 'b" where
  "andthen m f = (case m of Inl e \<Rightarrow> Inl e | Inr x \<Rightarrow> f x)"

definition need :: "'e \<Rightarrow> 'a option \<Rightarrow> 'e + 'a" where
  "need e x = (case x of None \<Rightarrow> Inl e | Some y \<Rightarrow> Inr y)"

definition ensure :: "'e \<Rightarrow> bool \<Rightarrow> 'e + unit" where
  "ensure e ok = (if ok then Inr () else Inl e)"

lemma andthen_simps [simp]:
  "andthen (Inl e) f = Inl e"
  "andthen (Inr x) f = f x"
  by (simp_all add: andthen_def)

lemma andthen_eq_Inr: "andthen m f = Inr y \<longleftrightarrow> (\<exists>x. m = Inr x \<and> f x = Inr y)"
  by (cases m) auto

lemma andthen_eq_Inl:
  "andthen m f = Inl e \<longleftrightarrow> m = Inl e \<or> (\<exists>x. m = Inr x \<and> f x = Inl e)"
  by (cases m) auto

lemma need_simps [simp]:
  "need e None = Inl e"
  "need e (Some y) = Inr y"
  by (simp_all add: need_def)

lemma need_eq_Inr [simp]: "need e x = Inr y \<longleftrightarrow> x = Some y"
  by (cases x) auto

lemma need_eq_Inl [simp]: "need e x = Inl e' \<longleftrightarrow> x = None \<and> e' = e"
  by (cases x) auto

lemma ensure_simps [simp]:
  "ensure e True = Inr ()"
  "ensure e False = Inl e"
  by (simp_all add: ensure_def)

lemma ensure_eq_Inr [simp]: "ensure e ok = Inr u \<longleftrightarrow> ok"
  by (cases ok) auto

lemma ensure_eq_Inl [simp]: "ensure e ok = Inl e' \<longleftrightarrow> \<not> ok \<and> e' = e"
  by (cases ok) auto

lemmas handler_simps = andthen_eq_Inr andthen_eq_Inl

section \<open>What a run leaves behind\<close>

text \<open>\<open>leaves I r\<close> says that a handler's run, if it commits, commits a state with \<open>I\<close>; its rules
  follow the handlers' combinators.\<close>

definition leaves :: "('s \<Rightarrow> bool) \<Rightarrow> 'e + 's \<times> 'a \<Rightarrow> bool" where
  "leaves I r \<longleftrightarrow> (\<forall>s x. r = Inr (s, x) \<longrightarrow> I s)"

named_theorems keep_rules "a run that commits keeps an invariant"

lemma leavesD: "leaves I r \<Longrightarrow> r = Inr (s, x) \<Longrightarrow> I s"
  by (simp add: leaves_def)

lemma leavesI: "(\<And>s x. r = Inr (s, x) \<Longrightarrow> I s) \<Longrightarrow> leaves I r"
  by (simp add: leaves_def)

lemma leaves_Inr [keep_rules]: "I s \<Longrightarrow> leaves I (Inr (s, x))"
  by (simp add: leaves_def)

lemma leaves_Inl [keep_rules]: "leaves I (Inl err)"
  by (simp add: leaves_def)

lemma leaves_then:
  assumes "leaves I m" "\<And>s x. m = Inr (s, x) \<Longrightarrow> I s \<Longrightarrow> leaves J (f (s, x))"
  shows "leaves J (andthen m f)"
  using assms by (cases m) (auto simp: leaves_def)

lemma leaves_need [keep_rules]: "(\<And>y. x = Some y \<Longrightarrow> leaves I (f y)) \<Longrightarrow> leaves I (andthen (need err x) f)"
  by (cases x) (auto simp: leaves_def)

lemma leaves_ensure [keep_rules]: "(ok \<Longrightarrow> leaves I (f ())) \<Longrightarrow> leaves I (andthen (ensure err ok) f)"
  by (cases ok) (auto simp: leaves_def)

lemma leaves_pure: "(\<And>y. m = Inr y \<Longrightarrow> leaves I (f y)) \<Longrightarrow> leaves I (andthen m f)"
  by (cases m) (auto simp: leaves_def)

lemma leaves_let [keep_rules]: "leaves I (f x) \<Longrightarrow> leaves I (Let x f)"
  by simp

lemma leaves_if [keep_rules]:
  "(c \<Longrightarrow> leaves I a) \<Longrightarrow> (\<not> c \<Longrightarrow> leaves I b) \<Longrightarrow> leaves I (if c then a else b)"
  by simp

lemma leaves_option [keep_rules]:
  "(x = None \<Longrightarrow> leaves I a) \<Longrightarrow> (\<And>y. x = Some y \<Longrightarrow> leaves I (f y)) \<Longrightarrow>
   leaves I (case x of None \<Rightarrow> a | Some y \<Rightarrow> f y)"
  by (cases x) simp_all

lemma leaves_pair [keep_rules]: "leaves I (f a b) \<Longrightarrow> leaves I (case (a, b) of (x, y) \<Rightarrow> f x y)"
  by simp

text \<open>\<open>try: .. except\<close> around one statement.\<close>

lemma leaves_try:
  assumes "leaves I m" "\<And>s x. m = Inr (s, x) \<Longrightarrow> I s \<Longrightarrow> leaves J (f (s, x))" "\<And>err. m = Inl err \<Longrightarrow> leaves J (g err)"
  shows "leaves J (case m of Inl err \<Rightarrow> g err | Inr p \<Rightarrow> f p)"
  using assms by (cases m) (auto simp: leaves_def)

section \<open>Tables\<close>

definition update_where :: "('r \<Rightarrow> bool) \<Rightarrow> ('r \<Rightarrow> 'r) \<Rightarrow> 'r list \<Rightarrow> 'r list" where
  "update_where P f rows = map (\<lambda>r. if P r then f r else r) rows"

definition unique_on :: "('r \<Rightarrow> bool) \<Rightarrow> ('r \<Rightarrow> 'k) \<Rightarrow> 'r list \<Rightarrow> bool" where
  "unique_on P key rows = distinct (map key (filter P rows))"

lemma update_where_simps [simp]:
  "update_where P f [] = []"
  "update_where P f (r # rows) = (if P r then f r else r) # update_where P f rows"
  by (simp_all add: update_where_def)

lemma length_update_where [simp]: "length (update_where P f rows) = length rows"
  by (simp add: update_where_def)

lemma set_update_where:
  "set (update_where P f rows) = (\<lambda>r. if P r then f r else r) ` set rows"
  by (simp add: update_where_def)

lemma map_update_where [row_simps]:
  "(\<And>r. key (f r) = key r) \<Longrightarrow> map key (update_where P f rows) = map key rows"
  by (induction rows) auto

lemma update_where_none: "\<not> list_ex P rows \<Longrightarrow> update_where P f rows = rows"
  by (induction rows) auto

lemma find_update_where_other:
  "(\<And>r. P r \<Longrightarrow> \<not> Q r) \<Longrightarrow> (\<And>r. P r \<Longrightarrow> \<not> Q (f r)) \<Longrightarrow>
   find Q (update_where P f rows) = find Q rows"
  by (induction rows) auto

lemma find_update_where_stable:
  "(\<And>r. Q (f r) = Q r) \<Longrightarrow>
   find Q (update_where P f rows) = map_option (\<lambda>r. if P r then f r else r) (find Q rows)"
  by (induction rows) auto

lemma find_map_stable: "(\<And>r. Q (f r) = Q r) \<Longrightarrow> find Q (map f rows) = map_option f (find Q rows)"
  by (induction rows) auto

lemma find_SomeD: "find P xs = Some x \<Longrightarrow> P x \<and> x \<in> set xs"
  by (auto simp: find_Some_iff)

lemma find_None_Ball: "find P xs = None \<longleftrightarrow> (\<forall>x\<in>set xs. \<not> P x)"
  by (auto simp: find_None_iff)

lemma find_append:
  "find P (xs @ ys) = (case find P xs of None \<Rightarrow> find P ys | Some x \<Rightarrow> Some x)"
  by (induction xs) auto

lemma unique_on_simps [simp]:
  "unique_on P key []"
  "unique_on P key (r # rows) \<longleftrightarrow>
     unique_on P key rows \<and> (P r \<longrightarrow> (\<forall>s\<in>set rows. P s \<longrightarrow> key s \<noteq> key r))"
  by (auto simp: unique_on_def image_iff eq_commute)

lemma unique_on_append1 [simp]:
  "unique_on P key (rows @ [r]) \<longleftrightarrow>
     unique_on P key rows \<and> (P r \<longrightarrow> (\<forall>s\<in>set rows. P s \<longrightarrow> key s \<noteq> key r))"
  by (auto simp: unique_on_def image_iff eq_commute)

text \<open>An UPDATE that moves no row into the index keeps it.\<close>

lemma unique_on_update_shrink:
  assumes "unique_on P key rows"
    and "\<And>r. Q r \<Longrightarrow> P (f r) \<Longrightarrow> P r" and "\<And>r. key (f r) = key r"
  shows "unique_on P key (update_where Q f rows)"
  using assms by (induction rows) (auto simp: set_update_where)

lemma unique_onD:
  assumes "unique_on P key rows" "r \<in> set rows" "s \<in> set rows" "P r" "P s" "key r = key s"
  shows "r = s"
  using assms by (induction rows) auto

section \<open>The lowest free seat\<close>

definition lowest_free :: "int \<Rightarrow> int list \<Rightarrow> int option" where
  "lowest_free capacity taken = find (\<lambda>i. i \<notin> set taken) [1..capacity]"

lemma lowest_free_Some:
  assumes "lowest_free capacity taken = Some s"
  shows "1 \<le> s" "s \<le> capacity" "s \<notin> set taken"
    and "\<And>j. 1 \<le> j \<Longrightarrow> j < s \<Longrightarrow> j \<in> set taken"
proof -
  from assms obtain i where i: "i < length [1..capacity]" "s = [1..capacity] ! i"
    and free: "s \<notin> set taken"
    and before: "\<And>k. k < i \<Longrightarrow> [1..capacity] ! k \<in> set taken"
    unfolding lowest_free_def find_Some_iff by auto
  from i have s: "s = 1 + int i" "s \<le> capacity" by auto
  then show "1 \<le> s" "s \<le> capacity" by simp_all
  show "s \<notin> set taken" by (rule free)
  fix j assume j: "1 \<le> j" "j < s"
  then have "[1..capacity] ! nat (j - 1) = j" and "nat (j - 1) < i" using s by auto
  then show "j \<in> set taken" using before [of "nat (j - 1)"] by simp
qed

lemma lowest_free_None:
  "lowest_free capacity taken = None \<longleftrightarrow> (\<forall>i. 1 \<le> i \<and> i \<le> capacity \<longrightarrow> i \<in> set taken)"
  by (auto simp: lowest_free_def find_None_iff)

text \<open>Pigeonhole: fewer rows than seats leave a seat free.\<close>

lemma lowest_free_exists:
  assumes "int (length taken) < capacity"
  shows "\<exists>s. lowest_free capacity taken = Some s"
proof (rule ccontr)
  assume "\<not> ?thesis"
  then have "lowest_free capacity taken = None" by auto
  then have "set [1..capacity] \<subseteq> set taken" by (auto simp: lowest_free_None)
  then have "card (set [1..capacity]) \<le> card (set taken)" by (intro card_mono) auto
  moreover have "card (set taken) \<le> length taken" by (rule card_length)
  ultimately show False using assms by simp
qed

end
