(* ===== verification/Tenancy.thy ===== *)
theory Tenancy
  imports Prelude
begin

text \<open>
  Tenant resolution: \<open>app/tenancy/slugs.py\<close>, \<open>app/tenancy/middleware.py\<close>, the resolver over
  \<open>TenantsRepository.by_slug\<close> and \<open>app/auth/client_ip.py\<close>.

  A request header reaches the handlers latin-1 decoded, so a header value is a \<open>string\<close>: one
  \<open>char\<close> per code point below 256. The database of tenants is a list of rows; what the
  middleware does with a request is the datatype \<open>routed\<close>.
\<close>

section \<open>Slugs\<close>

definition RESERVED_SLUGS :: "string list" where
  "RESERVED_SLUGS =
     [''admin'', ''api'', ''app'', ''assets'', ''cdn'', ''docs'', ''mail'', ''staging'',
      ''static'', ''status'', ''support'', ''www'']"

definition char_code :: "char \<Rightarrow> nat" where
  "char_code c = of_char c"

definition is_ascii :: "char \<Rightarrow> bool" where
  "is_ascii c \<longleftrightarrow> char_code c < 128"

text \<open>Python's \<open>str.lower\<close> on code points below 256: A-Z and the latin-1 capitals.\<close>

definition lower_char :: "char \<Rightarrow> char" where
  "lower_char c =
     (let n = char_code c in
      if (65 \<le> n \<and> n \<le> 90) \<or> (192 \<le> n \<and> n \<le> 222 \<and> n \<noteq> 215) then char_of (n + 32) else c)"

definition lower :: "string \<Rightarrow> string" where
  "lower s = map lower_char s"

definition slug_edge :: "char \<Rightarrow> bool" where
  "slug_edge c \<longleftrightarrow> (let n = char_code c in (97 \<le> n \<and> n \<le> 122) \<or> (48 \<le> n \<and> n \<le> 57))"

definition slug_inner :: "char \<Rightarrow> bool" where
  "slug_inner c \<longleftrightarrow> slug_edge c \<or> c = CHR ''-''"

text \<open>\<open>_SLUG_RE.fullmatch\<close>: one edge character, or two with at most 61 inner ones between.\<close>

definition slug_shape :: "string \<Rightarrow> bool" where
  "slug_shape s \<longleftrightarrow>
     s \<noteq> [] \<and> length s \<le> 63 \<and> slug_edge (hd s) \<and> slug_edge (last s) \<and> list_all slug_inner s"

definition is_valid_slug :: "string \<Rightarrow> bool" where
  "is_valid_slug s \<longleftrightarrow> slug_shape s \<and> s \<notin> set RESERVED_SLUGS"

text \<open>\<open>host.rsplit(":", 1)[0] if ":" in host else host\<close>: what stands before the last colon.\<close>

definition before_port :: "string \<Rightarrow> string" where
  "before_port h =
     (if CHR '':'' \<in> set h then rev (tl (dropWhile (\<lambda>c. c \<noteq> CHR '':'') (rev h))) else h)"

definition rstrip_dots :: "string \<Rightarrow> string" where
  "rstrip_dots h = rev (dropWhile (\<lambda>c. c = CHR ''.'') (rev h))"

definition ends_with :: "string \<Rightarrow> string \<Rightarrow> bool" where
  "ends_with s suffix \<longleftrightarrow>
     length suffix \<le> length s \<and> drop (length s - length suffix) s = suffix"

definition extract_slug :: "string option \<Rightarrow> string \<Rightarrow> string option" where
  "extract_slug host base_domain =
     (case host of
        None \<Rightarrow> None
      | Some h \<Rightarrow>
          if h = [] \<or> CHR '']'' \<in> set h \<or> \<not> list_all is_ascii h then None
          else
            let hostname = rstrip_dots (lower (before_port h));
                suffix = CHR ''.'' # lower base_domain
            in if \<not> ends_with hostname suffix then None
               else let label = take (length hostname - length suffix) hostname
                    in if label = [] \<or> CHR ''.'' \<in> set label then None else Some label)"

section \<open>The resolver\<close>

datatype tenant_status = T_Active | T_Suspended

text \<open>The settings document is handed on unread; its type is a parameter.\<close>

record 'j tenant_row =
  tn_id :: uuid
  tn_slug :: string
  tn_name :: string
  tn_settings :: 'j
  tn_status :: tenant_status
  tn_deleted :: bool

definition by_slug :: "'j tenant_row list \<Rightarrow> string \<Rightarrow> 'j tenant_row option" where
  "by_slug rows slug =
     find (\<lambda>r. tn_slug r = slug \<and> \<not> tn_deleted r \<and> tn_status r = T_Active) rows"

record 'j tenant_context =
  tc_id :: uuid
  tc_slug :: string
  tc_name :: string
  tc_settings :: 'j

definition resolve :: "'j tenant_row list \<Rightarrow> string \<Rightarrow> 'j tenant_context option" where
  "resolve rows slug =
     (case by_slug rows slug of
        None \<Rightarrow> None
      | Some r \<Rightarrow> Some \<lparr>tc_id = tn_id r, tc_slug = tn_slug r, tc_name = tn_name r,
           tc_settings = tn_settings r\<rparr>)"

section \<open>The middleware\<close>

definition EXEMPT_PATHS :: "string list" where
  "EXEMPT_PATHS = [''/health'', ''/openapi.json'', ''/docs'', ''/docs/oauth2-redirect'', ''/redoc'']"

definition PLATFORM_PREFIX :: string where
  "PLATFORM_PREFIX = ''/platform''"

definition is_platform_path :: "string \<Rightarrow> bool" where
  "is_platform_path path \<longleftrightarrow>
     path = PLATFORM_PREFIX \<or>
     take (length PLATFORM_PREFIX + 1) path = PLATFORM_PREFIX @ ''/''"

datatype 'j routed = Exempt | Tenant_not_found | Platform_host | For_tenant "'j tenant_context"

definition dispatch ::
  "'j tenant_row list \<Rightarrow> string \<Rightarrow> string \<Rightarrow> string \<Rightarrow> string option \<Rightarrow> 'j routed" where
  "dispatch rows base_domain platform_label path host =
     (if path \<in> set EXEMPT_PATHS then Exempt
      else
        let slug = extract_slug host base_domain in
        if slug = Some platform_label then
          (if is_platform_path path then Platform_host else Tenant_not_found)
        else if is_platform_path path then Tenant_not_found
        else
          case slug of
            None \<Rightarrow> Tenant_not_found
          | Some s \<Rightarrow>
              if \<not> is_valid_slug s then Tenant_not_found
              else case resolve rows s of
                     None \<Rightarrow> Tenant_not_found
                   | Some t \<Rightarrow> For_tenant t)"

section \<open>The client address\<close>

definition is_space :: "char \<Rightarrow> bool" where
  "is_space c \<longleftrightarrow> (let n = char_code c in
     (9 \<le> n \<and> n \<le> 13) \<or> (28 \<le> n \<and> n \<le> 32) \<or> n = 133 \<or> n = 160)"

definition strip :: "string \<Rightarrow> string" where
  "strip s = rev (dropWhile is_space (rev (dropWhile is_space s)))"

text \<open>The last element of \<open>forwarded.split(",")\<close>.\<close>

definition after_last_comma :: "string \<Rightarrow> string" where
  "after_last_comma s = rev (takeWhile (\<lambda>c. c \<noteq> CHR '','') (rev s))"

definition client_ip :: "string option \<Rightarrow> bool \<Rightarrow> string option" where
  "client_ip forwarded trust_forwarded_for =
     (if \<not> trust_forwarded_for then None
      else case forwarded of
             None \<Rightarrow> None
           | Some h \<Rightarrow> if h = [] then None else Some (strip (after_last_comma h)))"

section \<open>Lemmas\<close>

lemma by_slug_SomeD:
  "by_slug rows s = Some r \<Longrightarrow>
   r \<in> set rows \<and> tn_slug r = s \<and> \<not> tn_deleted r \<and> tn_status r = T_Active"
  unfolding by_slug_def by (auto dest: find_SomeD)

lemma rstrip_dots_append: "rstrip_dots (s @ [c]) = (if c = CHR ''.'' then rstrip_dots s else s @ [c])"
  by (simp add: rstrip_dots_def)

lemma rstrip_dots_id: "last s \<noteq> CHR ''.'' \<Longrightarrow> rstrip_dots s = s"
  by (cases s rule: rev_cases) (simp_all add: rstrip_dots_append rstrip_dots_def)

lemma rstrip_dots_decomp: "\<exists>ds. s = rstrip_dots s @ ds \<and> list_all (\<lambda>c. c = CHR ''.'') ds"
proof (induction s rule: rev_induct)
  case Nil
  show ?case by (simp add: rstrip_dots_def)
next
  case (snoc c s)
  then obtain ds where "s = rstrip_dots s @ ds" "list_all (\<lambda>c. c = CHR ''.'') ds" by blast
  then show ?case
    by (cases "c = CHR ''.''")
      (auto simp: rstrip_dots_append intro!: exI [of _ "ds @ [c]"])
qed

lemma before_port_id: "CHR '':'' \<notin> set h \<Longrightarrow> before_port h = h"
  by (simp add: before_port_def)

lemma before_port_port:
  assumes "CHR '':'' \<notin> set port"
  shows "before_port (h @ CHR '':'' # port) = h"
proof -
  have "dropWhile (\<lambda>c. c \<noteq> CHR '':'') (rev port @ CHR '':'' # rev h) = CHR '':'' # rev h"
    using assms by (subst dropWhile_append2) auto
  then show ?thesis by (simp add: before_port_def)
qed

lemma ends_with_append: "ends_with (s @ t) t"
  by (simp add: ends_with_def)

lemma ends_with_decomp: "ends_with s t \<Longrightarrow> s = take (length s - length t) s @ t"
  unfolding ends_with_def by (metis append_take_drop_id)

lemma slug_edge_not_dot: "slug_inner c \<Longrightarrow> c \<noteq> CHR ''.''"
  by (auto simp: slug_inner_def slug_edge_def char_code_def Let_def)

lemma slug_shape_no_dot: "slug_shape s \<Longrightarrow> s \<noteq> [] \<and> CHR ''.'' \<notin> set s"
  by (auto simp: slug_shape_def list_all_iff dest: slug_edge_not_dot)

text \<open>What \<open>extract_slug\<close> accepts, and what it refuses.\<close>

lemma extract_slug_SomeD:
  assumes "extract_slug (Some h) base = Some l"
  shows "l \<noteq> []" "CHR ''.'' \<notin> set l" "list_all is_ascii h" "CHR '']'' \<notin> set h"
    "rstrip_dots (lower (before_port h)) = l @ CHR ''.'' # lower base"
proof -
  let ?n = "rstrip_dots (lower (before_port h))" and ?s = "CHR ''.'' # lower base"
  from assms have e: "ends_with ?n ?s" and l: "l = take (length ?n - length ?s) ?n"
    and rest: "l \<noteq> []" "CHR ''.'' \<notin> set l" "list_all is_ascii h" "CHR '']'' \<notin> set h"
    unfolding extract_slug_def option.case Let_def
    by (auto split: if_splits)
  from ends_with_decomp [OF e] l show "?n = l @ ?s" by simp
  from rest show "l \<noteq> []" "CHR ''.'' \<notin> set l" "list_all is_ascii h" "CHR '']'' \<notin> set h"
    by simp_all
qed

lemma extract_slug_hit:
  assumes "list_all is_ascii h" "CHR '']'' \<notin> set h"
    and "rstrip_dots (lower (before_port h)) = l @ CHR ''.'' # lower base"
    and "l \<noteq> []" "CHR ''.'' \<notin> set l"
  shows "extract_slug (Some h) base = Some l"
proof -
  have "h \<noteq> []"
    using assms(3,4) by (auto simp: before_port_def lower_def rstrip_dots_def)
  moreover have "ends_with (l @ CHR ''.'' # lower base) (CHR ''.'' # lower base)"
    by (rule ends_with_append)
  ultimately show ?thesis using assms by (simp add: extract_slug_def)
qed

lemma by_slug_SomeI:
  assumes "r \<in> set rows" "\<not> tn_deleted r" "tn_status r = T_Active"
    and "distinct (map tn_slug (filter (\<lambda>r. \<not> tn_deleted r) rows))"
  shows "by_slug rows (tn_slug r) = Some r"
  using assms unfolding by_slug_def
  by (induction rows) (auto simp: rev_image_eqI split: if_splits)

text \<open>Live slugs being unique (\<open>idx_tenants_slug_unique\<close>), the resolver finds exactly the active
  boutique of the slug.\<close>

definition context_of :: "'j tenant_row \<Rightarrow> 'j tenant_context" where
  "context_of r = \<lparr>tc_id = tn_id r, tc_slug = tn_slug r, tc_name = tn_name r,
     tc_settings = tn_settings r\<rparr>"

lemma resolve_iff:
  assumes "distinct (map tn_slug (filter (\<lambda>r. \<not> tn_deleted r) rows))"
  shows "resolve rows s = Some t \<longleftrightarrow>
    (\<exists>r\<in>set rows. tn_slug r = s \<and> \<not> tn_deleted r \<and> tn_status r = T_Active \<and> t = context_of r)"
proof
  assume "resolve rows s = Some t"
  then show "\<exists>r\<in>set rows. tn_slug r = s \<and> \<not> tn_deleted r \<and> tn_status r = T_Active \<and> t = context_of r"
    by (auto simp: resolve_def context_of_def split: option.splits dest!: by_slug_SomeD)
qed (auto simp: resolve_def context_of_def by_slug_SomeI [OF _ _ _ assms])

lemma exempt_not_platform: "path \<in> set EXEMPT_PATHS \<Longrightarrow> \<not> is_platform_path path"
  by (auto simp: EXEMPT_PATHS_def is_platform_path_def PLATFORM_PREFIX_def)

section \<open>Properties\<close>

text \<open>The host header round trip: a request for a well-formed boutique label under the
  platform's domain, in any letter case, with or without a port and a trailing dot, resolves to
  exactly that label.\<close>

theorem extract_slug_roundtrip:
  assumes "slug_shape s" and "list_all is_ascii h" and "lower h = s @ CHR ''.'' # lower base"
    and "CHR '':'' \<notin> set h" "CHR '']'' \<notin> set h" "base \<noteq> []" "last (lower base) \<noteq> CHR ''.''"
    and "list_all is_ascii port" "CHR '':'' \<notin> set port" "CHR '']'' \<notin> set port"
  shows "extract_slug (Some h) base = Some s
    \<and> extract_slug (Some (h @ CHR '':'' # port)) base = Some s
    \<and> extract_slug (Some (h @ ''.'')) base = Some s"
proof -
  note s = slug_shape_no_dot [OF assms(1)]
  have dot: "lower ''.'' = ''.''" "is_ascii (CHR ''.'')" "is_ascii (CHR '':'')"
    by (simp_all add: lower_def lower_char_def char_code_def is_ascii_def)
  have last: "last (lower h) \<noteq> CHR ''.''"
    using assms(3,6,7) by (simp add: lower_def)
  then have strip: "rstrip_dots (lower h) = s @ CHR ''.'' # lower base"
    by (simp add: rstrip_dots_id assms(3))
  have strip': "rstrip_dots (lower (h @ ''.'')) = s @ CHR ''.'' # lower base"
    using strip dot(1) rstrip_dots_append [of "lower h" "CHR ''.''"] by (simp add: lower_def)
  show ?thesis
    using assms s strip strip' dot
    by (intro conjI extract_slug_hit) (simp_all add: before_port_id before_port_port)
qed

theorem extract_slug_roundtrip_witness:
  "extract_slug (Some ''Bella.Modryn.co.il'') ''modryn.co.il'' = Some ''bella''
   \<and> extract_slug (Some ''Bella.Modryn.co.il:443'') ''modryn.co.il'' = Some ''bella''"
proof -
  have "extract_slug (Some ''Bella.Modryn.co.il'') ''modryn.co.il'' = Some ''bella''
    \<and> extract_slug (Some (''Bella.Modryn.co.il'' @ CHR '':'' # ''443'')) ''modryn.co.il'' = Some ''bella''
    \<and> extract_slug (Some (''Bella.Modryn.co.il'' @ ''.'')) ''modryn.co.il'' = Some ''bella''"
    by (rule extract_slug_roundtrip) code_simp+
  then show ?thesis by simp
qed

text \<open>C19. The platform fence: every request has exactly the outcome its path and host give it. An
  exempt path is host-agnostic; the console's paths answer on the console's host and nowhere else,
  and nothing else answers there; every other request is bound to the one active, undeleted boutique
  whose well-formed, unreserved slug its host names (its id, slug, name and settings); and whatever
  is left, an unknown, suspended, deleted, reserved or malformed host included, gets the same
  not-found answer, so that no request reaches a boutique's handler unbound.\<close>

theorem dispatch_fence:
  assumes "distinct (map tn_slug (filter (\<lambda>r. \<not> tn_deleted r) rows))"
  shows "let out = dispatch rows base label path host;
        bound_to = (\<lambda>r. \<not> tn_deleted r \<and> tn_status r = T_Active
          \<and> extract_slug host base = Some (tn_slug r) \<and> slug_shape (tn_slug r)
          \<and> tn_slug r \<notin> set RESERVED_SLUGS \<and> tn_slug r \<noteq> label)
    in (out = Exempt \<longleftrightarrow> path \<in> set EXEMPT_PATHS)
    \<and> (out = Platform_host \<longleftrightarrow> extract_slug host base = Some label \<and> is_platform_path path)
    \<and> (\<forall>t. out = For_tenant t \<longleftrightarrow> path \<notin> set EXEMPT_PATHS \<and> \<not> is_platform_path path
         \<and> (\<exists>r\<in>set rows. bound_to r \<and> t = \<lparr>tc_id = tn_id r, tc_slug = tn_slug r, tc_name = tn_name r,
              tc_settings = tn_settings r\<rparr>))
    \<and> (out = Tenant_not_found \<longleftrightarrow> path \<notin> set EXEMPT_PATHS
         \<and> (if is_platform_path path then extract_slug host base \<noteq> Some label
            else \<not> (\<exists>r\<in>set rows. bound_to r)))"
proof -
  define out where "out = dispatch rows base label path host"
  define bound_to where "bound_to = (\<lambda>r :: 'a tenant_row. \<not> tn_deleted r \<and> tn_status r = T_Active
     \<and> extract_slug host base = Some (tn_slug r) \<and> slug_shape (tn_slug r)
     \<and> tn_slug r \<notin> set RESERVED_SLUGS \<and> tn_slug r \<noteq> label)"
  note r = resolve_iff [OF assms(1)]
  have none: "resolve rows s = None \<longleftrightarrow>
      \<not> (\<exists>r\<in>set rows. tn_slug r = s \<and> \<not> tn_deleted r \<and> tn_status r = T_Active)" for s
    using r [of s] by (cases "resolve rows s") auto
  have E: "out = Exempt \<longleftrightarrow> path \<in> set EXEMPT_PATHS"
    and P: "out = Platform_host \<longleftrightarrow> extract_slug host base = Some label \<and> is_platform_path path"
    using exempt_not_platform [of path]
    by (auto simp: out_def dispatch_def Let_def split: if_splits option.splits)
  have T: "out = For_tenant t \<longleftrightarrow> path \<notin> set EXEMPT_PATHS \<and> \<not> is_platform_path path
      \<and> (\<exists>r\<in>set rows. bound_to r \<and> t = context_of r)" for t
  proof
    assume "out = For_tenant t"
    then show "path \<notin> set EXEMPT_PATHS \<and> \<not> is_platform_path path
      \<and> (\<exists>r\<in>set rows. bound_to r \<and> t = context_of r)"
      by (auto simp: out_def dispatch_def Let_def bound_to_def is_valid_slug_def r
          split: if_splits option.splits)
  next
    assume "path \<notin> set EXEMPT_PATHS \<and> \<not> is_platform_path path
      \<and> (\<exists>r\<in>set rows. bound_to r \<and> t = context_of r)"
    then obtain x where x: "x \<in> set rows" "bound_to x" "t = context_of x"
      "path \<notin> set EXEMPT_PATHS" "\<not> is_platform_path path" by blast
    then have "resolve rows (tn_slug x) = Some t" using r [of "tn_slug x" t]
      by (auto simp: bound_to_def)
    with x show "out = For_tenant t"
      by (simp add: out_def dispatch_def bound_to_def is_valid_slug_def)
  qed
  have N: "out = Tenant_not_found \<longleftrightarrow> path \<notin> set EXEMPT_PATHS
      \<and> (if is_platform_path path then extract_slug host base \<noteq> Some label
         else \<not> (\<exists>r\<in>set rows. bound_to r))"
    by (auto simp: out_def dispatch_def Let_def bound_to_def is_valid_slug_def none r
        split: if_splits option.splits)
  from E P T N show ?thesis
    unfolding Let_def context_of_def out_def [symmetric] bound_to_def [symmetric] by blast
qed

theorem dispatch_fence_witness:
  "dispatch [\<lparr>tn_id = 7, tn_slug = ''bella'', tn_name = ''Bella'', tn_settings = (),
       tn_status = T_Active, tn_deleted = False\<rparr>]
     ''m.il'' ''admin'' ''/slots'' (Some ''bella.m.il'')
     = For_tenant \<lparr>tc_id = 7, tc_slug = ''bella'', tc_name = ''Bella'', tc_settings = ()\<rparr>"
proof -
  let ?r = "\<lparr>tn_id = 7, tn_slug = ''bella'', tn_name = ''Bella'', tn_settings = (),
       tn_status = T_Active, tn_deleted = False\<rparr>"
  have d: "distinct (map tn_slug (filter (\<lambda>r. \<not> tn_deleted r) [?r]))" by simp
  have "extract_slug (Some ''bella.m.il'') ''m.il'' = Some ''bella''" "slug_shape ''bella''"
    "''bella'' \<notin> set RESERVED_SLUGS" "''bella'' \<noteq> ''admin''"
    "\<not> is_platform_path ''/slots''" "''/slots'' \<notin> set EXEMPT_PATHS"
    by code_simp+
  then show ?thesis
    using dispatch_fence [OF d, of "''m.il''" "''admin''" "''/slots''" "Some ''bella.m.il''"]
    by (simp add: Let_def)
qed

end
