(* ===== verification/Calendar.thy ===== *)
theory Calendar
  imports Prelude
begin

text \<open>
  Clock and calendar arithmetic: the boutique's wall clock (\<open>app/storefront/validation.py\<close>), the
  Israeli week (\<open>app/booking/validation.py\<close>), the reminder bands (\<open>app/booking/comms.py\<close>) and the
  offer clock (\<open>app/waitlist/schedule.py\<close>, \<open>app/waitlist/validation.py\<close>).

  The timezone database is not part of the repository. It enters as a \<open>zone\<close>: \<open>to_utc_raw\<close> is
  \<open>datetime.combine(date, wall, tzinfo=tz).astimezone(UTC)\<close> (with \<open>fold=0\<close>), \<open>to_local\<close> is
  \<open>instant.astimezone(tz)\<close> as its calendar day and wall time. Nothing here assumes a law of it;
  \<open>fixed_offset\<close> is one zone to evaluate examples with (719163 is the ordinal of 1 January 1970).
\<close>

record zone =
  to_utc_raw :: "date \<Rightarrow> wall \<Rightarrow> instant"
  to_local :: "instant \<Rightarrow> date \<times> wall"

definition fixed_offset :: "int \<Rightarrow> zone" where
  "fixed_offset h =
     \<lparr>to_utc_raw = (\<lambda>d w. days (d - 719163) + w - hours h),
      to_local = (\<lambda>t. ((t + hours h) div days 1 + 719163, (t + hours h) mod days 1))\<rparr>"

section \<open>Days\<close>

definition weekday :: "date \<Rightarrow> int" where
  "weekday d = (d + 6) mod 7"

definition jerusalem_day_index :: "date \<Rightarrow> int" where
  "jerusalem_day_index d = (weekday d + 1) mod 7"

definition today_jerusalem :: "zone \<Rightarrow> instant \<Rightarrow> date" where
  "today_jerusalem z now = fst (to_local z now)"

text \<open>Boutique midnight of a calendar day, as the instant the repositories compare with.\<close>

definition midnight :: "zone \<Rightarrow> date \<Rightarrow> instant" where
  "midnight z d = to_utc_raw z d 0"

definition SLOT_INTERVAL_MINUTES :: int where "SLOT_INTERVAL_MINUTES = 30"
definition DEFAULT_SLOT_CAPACITY :: int where "DEFAULT_SLOT_CAPACITY = 1"
definition SLOT_WINDOW_MAX_DAYS :: int where "SLOT_WINDOW_MAX_DAYS = 60"

definition BOOKABLE_HORIZON :: int where
  "BOOKABLE_HORIZON = days (SLOT_WINDOW_MAX_DAYS + 2)"

section \<open>The reminder bands\<close>

definition REMINDER_LEAD_SECONDS :: int where "REMINDER_LEAD_SECONDS = 86400"
definition REMINDER_SUPPRESS_UNDER_SECONDS :: int where "REMINDER_SUPPRESS_UNDER_SECONDS = 7200"

definition reminder_send_after :: "instant \<Rightarrow> instant \<Rightarrow> instant option" where
  "reminder_send_after starts_at now =
     (let lead = starts_at - now in
      if lead < seconds REMINDER_SUPPRESS_UNDER_SECONDS then None
      else if lead \<ge> seconds REMINDER_LEAD_SECONDS
      then Some (starts_at - seconds REMINDER_LEAD_SECONDS)
      else Some now)"

section \<open>The offer clock\<close>

definition in_quiet_hours :: "zone \<Rightarrow> instant \<Rightarrow> int \<Rightarrow> int \<Rightarrow> bool" where
  "in_quiet_hours z now start_hour end_hour \<longleftrightarrow>
     (let hour = snd (to_local z now) div hours 1 in
      if start_hour = end_hour then False
      else if start_hour < end_hour then start_hour \<le> hour \<and> hour < end_hour
      else hour \<ge> start_hour \<or> hour < end_hour)"

definition offer_expiry :: "instant \<Rightarrow> instant \<Rightarrow> int \<Rightarrow> int \<Rightarrow> instant option" where
  "offer_expiry now slot_starts_at window min_lead =
     (let expires_at = min (now + window) (slot_starts_at - min_lead) in
      if expires_at > now then Some expires_at else None)"

datatype waitlist_day_error = Day_outside_window

definition validate_waitlist_day :: "zone \<Rightarrow> instant \<Rightarrow> date \<Rightarrow> waitlist_day_error + unit" where
  "validate_waitlist_day z now day =
     (let today = today_jerusalem z now in
      ensure Day_outside_window (today \<le> day \<and> day \<le> today + SLOT_WINDOW_MAX_DAYS))"

section \<open>Lemmas\<close>

lemma weekday_range: "0 \<le> weekday d" "weekday d < 7"
  by (simp_all add: weekday_def)

lemma jerusalem_day_index_alt: "jerusalem_day_index d = d mod 7"
proof -
  have "((d + 6) mod 7 + 1) mod 7 = (d + 7) mod 7" by presburger
  then show ?thesis by (simp add: jerusalem_day_index_def weekday_def)
qed

lemma reminder_bounds:
  "reminder_send_after s n = Some t \<Longrightarrow> n \<le> t \<and> t \<le> s - seconds REMINDER_SUPPRESS_UNDER_SECONDS"
  by (auto simp: reminder_send_after_def Let_def duration_defs REMINDER_LEAD_SECONDS_def
      REMINDER_SUPPRESS_UNDER_SECONDS_def split: if_splits)

lemma offer_expiry_SomeD:
  "offer_expiry n s w l = Some e \<Longrightarrow> n < e \<and> e \<le> n + w \<and> e \<le> s - l"
  by (auto simp: offer_expiry_def Let_def split: if_splits)

section \<open>Properties\<close>

text \<open>The reminder bands: none within two hours of the appointment, otherwise at the later of
  now and twenty-four hours before it; a scheduled reminder is never in the past and always at
  least two hours ahead of the appointment.\<close>

theorem reminder_bands:
  "reminder_send_after s n =
     (if s - n < hours 2 then None else Some (max n (s - hours 24)))
   \<and> (case reminder_send_after s n of None \<Rightarrow> s < n + hours 2
      | Some t \<Rightarrow> n \<le> t \<and> t + hours 2 \<le> s)"
  by (auto simp: reminder_send_after_def Let_def duration_defs REMINDER_LEAD_SECONDS_def
      REMINDER_SUPPRESS_UNDER_SECONDS_def split: if_splits)

text \<open>The offer clock: a deadline is the earlier of the window's end and the slot's start less
  the lead, it is refused exactly when that is not in the future, and quiet hours partition the
  clock: swapping the bounds of a non-degenerate block gives exactly the complement, so the
  midnight-wrapping block is not inverted.\<close>

theorem offer_clock:
  "(offer_expiry n s w l = None \<longleftrightarrow> w \<le> 0 \<or> s - l \<le> n)
   \<and> (\<forall>e. offer_expiry n s w l = Some e \<longleftrightarrow> e = min (n + w) (s - l) \<and> n < e)
   \<and> (in_quiet_hours z n a b \<longleftrightarrow> (a \<noteq> b \<and> \<not> in_quiet_hours z n b a))"
  by (auto simp: offer_expiry_def in_quiet_hours_def Let_def min_def)

end
