(* ===== verification/Slots.thy ===== *)
theory Slots
  imports Calendar "HOL-Library.AList"
begin

text \<open>
  The slot grid, \<open>app/booking/slots.py\<close>, and the grid arithmetic of \<open>app/booking/slots_io.py\<close>.

  A slot is a start time: \<open>materialize_slots\<close> walks the days of a window, the opening windows of
  each day (\<open>windows_for\<close>: an exception beats the weekly rules) and the half-hour wall times of
  each window, converts each to an instant (\<open>to_utc\<close>, which drops a wall time that does not
  exist), keeps the future ones with the largest capacity that offers them, and drops the full
  ones. \<open>booked\<close> is the mapping \<open>count_by_start\<close> answers, 0 where it has no key.
\<close>

record availability_rule =
  r_tenant :: uuid
  r_day_of_week :: int
  r_open :: wall
  r_close :: wall
  r_capacity :: int
  r_deleted :: bool

record availability_exception =
  x_id :: uuid
  x_tenant :: uuid
  x_date :: date
  x_open :: "wall option"
  x_close :: "wall option"
  x_note :: "utext option"
  x_deleted :: bool

record slot =
  s_starts_at :: instant
  s_capacity :: int
  s_booked :: int

definition remaining :: "slot \<Rightarrow> int" where
  "remaining s = max (s_capacity s - s_booked s) 0"

record open_window =
  w_open :: wall
  w_close :: wall
  w_capacity :: int

definition rules_by_day :: "availability_rule list \<Rightarrow> int \<Rightarrow> availability_rule list" where
  "rules_by_day rules day = filter (\<lambda>r. r_day_of_week r = day) rules"

text \<open>\<open>{row.date: row for row in exceptions}\<close>: the last row of a date wins.\<close>

definition exceptions_by_date ::
  "availability_exception list \<Rightarrow> date \<Rightarrow> availability_exception option" where
  "exceptions_by_date exceptions d = find (\<lambda>x. x_date x = d) (rev exceptions)"

definition least_capacity :: "availability_rule list \<Rightarrow> int" where
  "least_capacity rules =
     (case map r_capacity rules of [] \<Rightarrow> DEFAULT_SLOT_CAPACITY | c # cs \<Rightarrow> fold min cs c)"

definition windows_for ::
  "date \<Rightarrow> availability_rule list \<Rightarrow> availability_exception list \<Rightarrow> open_window list" where
  "windows_for d rules exceptions =
     (let day_rules = rules_by_day rules (jerusalem_day_index d) in
      case exceptions_by_date exceptions d of
        None \<Rightarrow>
          map (\<lambda>r. \<lparr>w_open = r_open r, w_close = r_close r, w_capacity = r_capacity r\<rparr>) day_rules
      | Some x \<Rightarrow>
          (case (x_open x, x_close x) of
             (Some opens, Some closes) \<Rightarrow>
               [\<lparr>w_open = opens, w_close = closes, w_capacity = least_capacity day_rules\<rparr>]
           | _ \<Rightarrow> []))"

definition to_utc :: "zone \<Rightarrow> date \<Rightarrow> wall \<Rightarrow> instant option" where
  "to_utc z d w =
     (let i = to_utc_raw z d w in if to_local z i \<noteq> (d, w) then None else Some i)"

text \<open>\<open>while cursor < end: ...; cursor += step\<close>.\<close>

function wall_steps :: "wall \<Rightarrow> wall \<Rightarrow> wall list" where
  "wall_steps cursor closes =
     (if cursor < closes
      then cursor # wall_steps (cursor + minutes SLOT_INTERVAL_MINUTES) closes else [])"
  by pat_completeness auto
termination
  by (relation "measure (\<lambda>(c, e). nat (e - c))")
    (auto simp: duration_defs SLOT_INTERVAL_MINUTES_def)

declare wall_steps.simps [simp del]

text \<open>The starts of one day, in the order the loop meets them, each with its window's capacity.\<close>

definition day_candidates ::
  "zone \<Rightarrow> availability_rule list \<Rightarrow> availability_exception list \<Rightarrow> instant \<Rightarrow> date
   \<Rightarrow> (instant \<times> int) list" where
  "day_candidates z rules exceptions now d =
     concat (map (\<lambda>w. List.map_filter
         (\<lambda>c. case to_utc z d c of
                None \<Rightarrow> None
              | Some i \<Rightarrow> if i > now then Some (i, w_capacity w) else None)
         (wall_steps (w_open w) (w_close w)))
       (windows_for d rules exceptions))"

text \<open>\<open>found[instant] = max(found.get(instant, 0), window.capacity)\<close>.\<close>

definition note_start :: "(instant \<times> int) list \<Rightarrow> instant \<times> int \<Rightarrow> (instant \<times> int) list" where
  "note_start found ic =
     AList.update (fst ic)
       (max (case map_of found (fst ic) of None \<Rightarrow> 0 | Some c \<Rightarrow> c) (snd ic)) found"

definition found_starts ::
  "zone \<Rightarrow> availability_rule list \<Rightarrow> availability_exception list \<Rightarrow> instant \<Rightarrow> date \<Rightarrow> date
   \<Rightarrow> (instant \<times> int) list" where
  "found_starts z rules exceptions now window_start window_end =
     foldl note_start []
       (concat (map (day_candidates z rules exceptions now) [window_start..window_end]))"

definition materialize_slots ::
  "zone \<Rightarrow> availability_rule list \<Rightarrow> availability_exception list \<Rightarrow> (instant \<Rightarrow> int)
   \<Rightarrow> date \<Rightarrow> date \<Rightarrow> instant \<Rightarrow> slot list" where
  "materialize_slots z rules exceptions booked window_start window_end now =
     (let found = found_starts z rules exceptions now window_start window_end in
      List.map_filter
        (\<lambda>i. let capacity = the (map_of found i); taken = booked i in
             if taken < capacity
             then Some \<lparr>s_starts_at = i, s_capacity = capacity, s_booked = taken\<rparr> else None)
        (sort (map fst found)))"

section \<open>Grid totals\<close>

record forward_capacity =
  fc_capacity :: int
  fc_booked :: int

definition grid_totals :: "slot list \<Rightarrow> (instant \<Rightarrow> int) \<Rightarrow> forward_capacity" where
  "grid_totals grid booked =
     \<lparr>fc_capacity = sum_list (map s_capacity grid),
      fc_booked = sum_list (map (\<lambda>s. min (booked (s_starts_at s)) (s_capacity s)) grid)\<rparr>"

text \<open>\<open>booked / capacity if capacity else None\<close>, the quotient as its two terms.\<close>

definition utilization :: "forward_capacity \<Rightarrow> (int \<times> int) option" where
  "utilization f = (if fc_capacity f \<noteq> 0 then Some (fc_booked f, fc_capacity f) else None)"

section \<open>Lemmas: the wall-clock loop\<close>

lemma wall_steps_mem:
  "t \<in> set (wall_steps c e) \<longleftrightarrow>
     (\<exists>k::nat. t = c + int k * minutes SLOT_INTERVAL_MINUTES \<and> t < e)"
proof (induction c e rule: wall_steps.induct)
  case (1 c e)
  let ?step = "minutes SLOT_INTERVAL_MINUTES"
  have pos: "0 < ?step" by (simp add: duration_defs SLOT_INTERVAL_MINUTES_def)
  show ?case
  proof (cases "c < e")
    case True
    have "t \<in> set (wall_steps c e) \<longleftrightarrow>
        t = c \<or> (\<exists>k::nat. t = c + int (Suc k) * ?step \<and> t < e)"
      using "1.IH" [OF True] True by (subst wall_steps.simps) (simp add: algebra_simps)
    also have "\<dots> \<longleftrightarrow> (\<exists>k::nat. t = c + int k * ?step \<and> t < e)" (is "?l = ?r")
    proof
      assume ?l then show ?r using True
        by (auto intro: exI [of _ "0::nat"] simp del: of_nat_Suc)
    next
      assume ?r
      then obtain k :: nat where "t = c + int k * ?step" "t < e" by blast
      then show ?l by (cases k) auto
    qed
    finally show ?thesis .
  next
    case False
    then have "\<not> (\<exists>k::nat. t = c + int k * ?step \<and> t < e)"
      using pos by (auto simp: not_less) (smt (verit) mult_nonneg_nonneg of_nat_0_le_iff)
    with False show ?thesis by (subst wall_steps.simps) simp
  qed
qed

lemma to_utc_SomeD: "to_utc z d w = Some i \<Longrightarrow> to_local z i = (d, w) \<and> i = to_utc_raw z d w"
  by (auto simp: to_utc_def Let_def split: if_splits)

section \<open>Lemmas: the candidates of a day\<close>

definition starts_in :: "open_window \<Rightarrow> wall \<Rightarrow> bool" where
  "starts_in w t \<longleftrightarrow> t \<in> set (wall_steps (w_open w) (w_close w))"

lemma map_filter_mem: "y \<in> set (List.map_filter f xs) \<longleftrightarrow> (\<exists>x\<in>set xs. f x = Some y)"
  by (induction xs) (auto simp: List.map_filter_def split: option.splits)

lemma map_filter_simps2 [simp]:
  "List.map_filter f [] = []"
  "List.map_filter f (x # xs) =
     (case f x of None \<Rightarrow> List.map_filter f xs | Some y \<Rightarrow> y # List.map_filter f xs)"
  by (simp_all add: List.map_filter_def split: option.split)

lemma day_candidates_mem:
  "(i, c) \<in> set (day_candidates z rules exs now d) \<longleftrightarrow>
     (\<exists>w\<in>set (windows_for d rules exs). \<exists>t. starts_in w t \<and> to_utc z d t = Some i
        \<and> now < i \<and> c = w_capacity w)"
  unfolding day_candidates_def starts_in_def
  by (auto simp: map_filter_mem split: option.splits if_splits) fastforce

lemma day_candidates_date:
  "(i, c) \<in> set (day_candidates z rules exs now d) \<Longrightarrow> fst (to_local z i) = d"
  by (auto simp: day_candidates_mem dest: to_utc_SomeD)

section \<open>Lemmas: the dict of found starts\<close>

lemma distinct_note_start: "distinct (map fst f) \<Longrightarrow> distinct (map fst (note_start f ic))"
  by (simp add: note_start_def distinct_update)

lemma distinct_foldl_note: "distinct (map fst f) \<Longrightarrow> distinct (map fst (foldl note_start f xs))"
  by (induction xs arbitrary: f) (simp_all add: distinct_note_start)

lemma distinct_found_starts: "distinct (map fst (found_starts z rules exs now a b))"
  by (simp add: found_starts_def distinct_foldl_note)

definition best :: "int option \<Rightarrow> int list \<Rightarrow> int option" where
  "best old cs = (case cs of [] \<Rightarrow> old
     | _ \<Rightarrow> Some (fold max cs (case old of None \<Rightarrow> 0 | Some c \<Rightarrow> c)))"

lemma best_nonempty: "cs \<noteq> [] \<Longrightarrow> best None cs = Some (fold max cs 0)"
  by (cases cs) (simp_all add: best_def)

lemma map_of_foldl_note:
  "map_of (foldl note_start f xs) i =
     best (map_of f i) (map snd (filter (\<lambda>ic. fst ic = i) xs))"
proof (induction xs arbitrary: f)
  case Nil
  then show ?case by (simp add: best_def)
next
  case (Cons ic xs)
  then show ?case
    by (cases ic) (auto simp: best_def note_start_def update_conv max.commute split: list.splits option.splits)
qed

lemma fold_max_ge: "(c::int) \<le> fold max cs c" "x \<in> set cs \<Longrightarrow> x \<le> fold max cs c"
proof (induction cs arbitrary: c)
  case (Cons y ys)
  { case 1 show ?case using Cons.IH(1) [of "max y c"] by simp }
  { case 2 then show ?case using Cons.IH(1) [of "max y c"] Cons.IH(2) [of "max y c"] by auto }
qed simp_all

lemma fold_max_mem: "fold max cs (c::int) = c \<or> fold max cs c \<in> set cs"
proof (induction cs arbitrary: c)
  case (Cons y ys)
  then show ?case using Cons [of "max y c"] by (auto simp: max_def split: if_splits)
qed simp

text \<open>The capacity a start ends up with: the largest of the windows that offer it (and 0).\<close>

lemma found_starts_lookup:
  "map_of (found_starts z rules exs now a b) i =
     best None (map snd (filter (\<lambda>ic. fst ic = i)
       (concat (map (day_candidates z rules exs now) [a..b]))))"
  by (simp add: found_starts_def map_of_foldl_note)

lemma filter_concat_map_day:
  "filter (\<lambda>ic. fst ic = i) (concat (map (day_candidates z rules exs now) ds)) =
   filter (\<lambda>ic. fst ic = i)
     (concat (map (day_candidates z rules exs now) (filter (\<lambda>d. d = fst (to_local z i)) ds)))"
proof (induction ds)
  case (Cons d ds)
  then show ?case
    by (auto simp: filter_empty_conv dest: day_candidates_date)
qed simp

lemma filter_eq_upto:
  "filter (\<lambda>d. d = k) [a..b] = (if a \<le> k \<and> k \<le> b then [k] else [])" for a b k :: int
proof (induction a b rule: upto.induct)
  case (1 i j)
  then show ?case by (subst upto.simps) auto
qed

text \<open>Locality: only the start's own local day can produce it.\<close>

lemma found_starts_local:
  "map_of (found_starts z rules exs now a b) i =
     (let d = fst (to_local z i) in
      if a \<le> d \<and> d \<le> b then map_of (found_starts z rules exs now d d) i else None)"
  using filter_concat_map_day [of i z rules exs now "[a..b]"]
  by (cases "a \<le> fst (to_local z i) \<and> fst (to_local z i) \<le> b")
    (auto simp: found_starts_lookup Let_def filter_eq_upto best_def)

section \<open>Lemmas: the grid\<close>

lemma materialize_mem:
  "s \<in> set (materialize_slots z rules exs booked a b now) \<longleftrightarrow>
     map_of (found_starts z rules exs now a b) (s_starts_at s) = Some (s_capacity s)
     \<and> s_booked s = booked (s_starts_at s) \<and> s_booked s < s_capacity s"
proof -
  let ?f = "found_starts z rules exs now a b"
  have k: "i \<in> set (map fst ?f) \<longleftrightarrow> (\<exists>c. map_of ?f i = Some c)" for i
    using map_of_eq_None_iff [of ?f i] by (cases "map_of ?f i") simp_all
  show ?thesis
    unfolding materialize_slots_def Let_def map_filter_mem set_sort
    by (cases s) (auto simp: k simp del: set_map)
qed

lemma map_filter_starts:
  assumes "\<And>i s. f i = Some s \<Longrightarrow> s_starts_at s = (i::instant)"
  shows "map s_starts_at (List.map_filter f is) = filter (\<lambda>i. f i \<noteq> None) is"
  by (induction "is") (auto split: option.splits dest: assms)

lemma materialize_starts:
  "map s_starts_at (materialize_slots z rules exs booked a b now) =
   filter (\<lambda>i. booked i < the (map_of (found_starts z rules exs now a b) i))
     (sort (map fst (found_starts z rules exs now a b)))"
  unfolding materialize_slots_def Let_def
  by (subst map_filter_starts) (auto split: if_splits intro!: filter_cong)

lemma materialize_strict:
  "sorted_wrt (<) (map s_starts_at (materialize_slots z rules exs booked a b now))"
  unfolding strict_sorted_iff materialize_starts
  using distinct_found_starts by (simp add: sorted_wrt_filter sorted_filter)

lemma materialize_future:
  assumes "s \<in> set (materialize_slots z rules exs booked a b now)"
  shows "now < s_starts_at s"
proof -
  let ?cs = "map snd (filter (\<lambda>ic. fst ic = s_starts_at s)
       (concat (map (day_candidates z rules exs now) [a..b])))"
  from assms have "best None ?cs = Some (s_capacity s)"
    by (simp add: materialize_mem found_starts_lookup)
  then have "?cs \<noteq> []" by (auto simp: best_def)
  then obtain d c where "(s_starts_at s, c) \<in> set (day_candidates z rules exs now d)"
    by (auto simp: filter_empty_conv)
  then show ?thesis by (auto simp: day_candidates_mem)
qed

lemma materialize_local:
  "s \<in> set (materialize_slots z rules exs booked a b now) \<longleftrightarrow>
     (let d = fst (to_local z (s_starts_at s)) in
      a \<le> d \<and> d \<le> b \<and> s \<in> set (materialize_slots z rules exs booked d d now))"
  unfolding materialize_mem by (subst found_starts_local) (auto simp: Let_def)

text \<open>With positive capacities the largest offering window decides, so a start is in the grid
  exactly when some window of its local day offers it.\<close>

definition offers :: "zone \<Rightarrow> availability_rule list \<Rightarrow> availability_exception list
    \<Rightarrow> instant \<Rightarrow> open_window \<Rightarrow> bool" where
  "offers z rules exs i w \<longleftrightarrow>
     (let (d, t) = to_local z i in
      w \<in> set (windows_for d rules exs) \<and> starts_in w t \<and> to_utc z d t = Some i)"

lemma day_candidates_offers:
  "(i, c) \<in> set (day_candidates z rules exs now (fst (to_local z i))) \<longleftrightarrow>
     now < i \<and> (\<exists>w. offers z rules exs i w \<and> c = w_capacity w)"
proof
  assume "(i, c) \<in> set (day_candidates z rules exs now (fst (to_local z i)))"
  then show "now < i \<and> (\<exists>w. offers z rules exs i w \<and> c = w_capacity w)"
    unfolding day_candidates_mem offers_def
    by (auto simp: case_prod_unfold Let_def dest: to_utc_SomeD)
      (metis prod.collapse to_utc_SomeD snd_conv)
next
  assume "now < i \<and> (\<exists>w. offers z rules exs i w \<and> c = w_capacity w)"
  then show "(i, c) \<in> set (day_candidates z rules exs now (fst (to_local z i)))"
    unfolding day_candidates_mem offers_def by (auto simp: Let_def case_prod_unfold)
qed

lemma found_starts_day:
  assumes "\<And>w. offers z rules exs i w \<Longrightarrow> 0 < w_capacity w"
  shows "map_of (found_starts z rules exs now (fst (to_local z i)) (fst (to_local z i))) i = Some c
    \<longleftrightarrow> now < i \<and> (\<exists>w. offers z rules exs i w \<and> w_capacity w = c)
       \<and> (\<forall>w. offers z rules exs i w \<longrightarrow> w_capacity w \<le> c)"
proof -
  let ?d = "fst (to_local z i)"
  define cs where "cs = map snd (filter (\<lambda>ic. fst ic = i) (day_candidates z rules exs now ?d))"
  have cs: "x \<in> set cs \<longleftrightarrow> now < i \<and> (\<exists>w. offers z rules exs i w \<and> x = w_capacity w)" for x
    using day_candidates_offers [of i x z rules exs now] unfolding cs_def by force
  have m: "map_of (found_starts z rules exs now ?d ?d) i = best None cs"
    by (simp add: found_starts_lookup cs_def)
  show ?thesis
  proof (cases "cs = []")
    case True
    then have "\<not> (now < i \<and> (\<exists>w. offers z rules exs i w))" using cs by fastforce
    with True show ?thesis unfolding m by (auto simp: best_def)
  next
    case False
    define M where "M = fold max cs 0"
    have b: "best None cs = Some M" unfolding M_def using False by (rule best_nonempty)
    have top: "x \<in> set cs \<Longrightarrow> x \<le> M" for x unfolding M_def by (rule fold_max_ge(2))
    have pos: "x \<in> set cs \<Longrightarrow> 0 < x" for x using assms cs [of x] by auto
    have "M \<in> set cs"
      using False fold_max_mem [of cs 0] top [of "hd cs"] pos [of "hd cs"] hd_in_set [of cs]
      unfolding M_def by auto
    then have M: "now < i" "\<exists>w. offers z rules exs i w \<and> w_capacity w = M"
      using cs [of M] by auto
    have "offers z rules exs i w \<Longrightarrow> w_capacity w \<le> M" for w
      using cs [of "w_capacity w"] M(1) by (blast intro: top)
    then show ?thesis unfolding m b option.inject using M by (metis order_antisym)
  qed
qed

lemma sum_list_min_le:
  "sum_list (map (\<lambda>s. min (booked (s_starts_at s)) (s_capacity s)) grid) \<le> sum_list (map s_capacity grid)"
  by (induction grid) (auto simp: min_def)

lemma sum_list_min_nonneg:
  "(\<And>i. 0 \<le> booked i) \<Longrightarrow> (\<forall>s\<in>set grid. 0 \<le> s_capacity s) \<Longrightarrow>
   0 \<le> sum_list (map (\<lambda>s. min (booked (s_starts_at s)) (s_capacity s)) grid)"
  by (induction grid) auto

lemma least_capacity_pos: "(\<forall>r\<in>set rs. 0 < r_capacity r) \<Longrightarrow> 0 < least_capacity rs"
proof -
  have "0 < (m::int) \<Longrightarrow> \<forall>c\<in>set cs. 0 < c \<Longrightarrow> 0 < fold min cs m" for cs m
    by (induction cs arbitrary: m) auto
  then show "(\<forall>r\<in>set rs. 0 < r_capacity r) \<Longrightarrow> 0 < least_capacity rs"
    by (auto simp: least_capacity_def DEFAULT_SLOT_CAPACITY_def split: list.splits)
qed

lemma offers_capacity_pos:
  "(\<forall>r\<in>set rules. 0 < r_capacity r) \<Longrightarrow> offers z rules exs i w \<Longrightarrow> 0 < w_capacity w"
  by (auto simp: offers_def windows_for_def rules_by_day_def Let_def
      intro!: least_capacity_pos split: option.splits prod.splits)

lemma strict_key_list_unique:
  fixes key :: "'a \<Rightarrow> 'k::linorder"
  assumes "sorted_wrt (<) (map key xs)" "sorted_wrt (<) (map key ys)" "set xs = set ys"
  shows "xs = ys"
proof -
  have "map key xs = map key ys"
    using assms by (intro strict_sorted_equal) (simp_all flip: image_set)
  moreover have "inj_on key (set xs \<union> set ys)"
    using assms(1,3) by (simp add: strict_sorted_iff distinct_map)
  ultimately show ?thesis by (rule map_inj_on)
qed

lemma sorted_filter_key:
  "sorted_wrt (<) (map key xs) \<Longrightarrow> sorted_wrt (<) (map key (filter P xs))"
  by (induction xs) auto

section \<open>Properties\<close>

definition shop_rules :: "availability_rule list" where
  "shop_rules =
     [\<lparr>r_tenant = 4, r_day_of_week = 4, r_open = hours 9, r_close = hours 10, r_capacity = 2,
       r_deleted = False\<rparr>]"

text \<open>C15. The slot grid, sound and complete. When the weekly rules carry positive capacities, a
  slot is offered by the grid exactly when its local day lies in the window, it is in the future,
  some opening window of that day offers its wall time (and that wall time exists), its capacity
  is the largest any offering window has, its count is the booked count and it is not full; and
  the grid is strictly sorted, so no start is offered twice.\<close>

theorem slot_grid_correct:
  assumes "\<forall>r\<in>set rules. 0 < r_capacity r"
  shows "(s \<in> set (materialize_slots z rules exs booked a b now) \<longleftrightarrow>
      a \<le> fst (to_local z (s_starts_at s)) \<and> fst (to_local z (s_starts_at s)) \<le> b
      \<and> now < s_starts_at s
      \<and> (\<exists>w. offers z rules exs (s_starts_at s) w \<and> w_capacity w = s_capacity s)
      \<and> (\<forall>w. offers z rules exs (s_starts_at s) w \<longrightarrow> w_capacity w \<le> s_capacity s)
      \<and> s_booked s = booked (s_starts_at s) \<and> s_booked s < s_capacity s)
    \<and> sorted_wrt (<) (map s_starts_at (materialize_slots z rules exs booked a b now))"
proof -
  have "map_of (found_starts z rules exs now (fst (to_local z (s_starts_at s)))
        (fst (to_local z (s_starts_at s)))) (s_starts_at s) = Some (s_capacity s) \<longleftrightarrow>
      now < s_starts_at s \<and> (\<exists>w. offers z rules exs (s_starts_at s) w \<and> w_capacity w = s_capacity s)
      \<and> (\<forall>w. offers z rules exs (s_starts_at s) w \<longrightarrow> w_capacity w \<le> s_capacity s)"
    using offers_capacity_pos [OF assms] by (intro found_starts_day)
  then show ?thesis
    by (subst materialize_local) (auto simp: Let_def materialize_mem intro: materialize_strict)
qed

theorem slot_grid_correct_witness:
  "\<lparr>s_starts_at = hours 9, s_capacity = 2, s_booked = 1\<rparr>
     \<in> set (materialize_slots (fixed_offset 0) shop_rules [] (\<lambda>_. 1) 719163 719163 0)"
proof -
  have r: "\<forall>r\<in>set shop_rules. 0 < r_capacity r" by code_simp
  have ws: "windows_for 719163 shop_rules [] = [\<lparr>w_open = hours 9, w_close = hours 10, w_capacity = 2\<rparr>]"
    by code_simp
  have st: "hours 9 \<in> set (wall_steps (hours 9) (hours 10))" by code_simp
  have o9: "offers (fixed_offset 0) shop_rules [] (hours 9) w \<longleftrightarrow>
      w = \<lparr>w_open = hours 9, w_close = hours 10, w_capacity = 2\<rparr>" for w
    using st by (auto simp: offers_def fixed_offset_def ws to_utc_def starts_in_def duration_defs)
  show ?thesis
    by (rule slot_grid_correct [OF r, THEN conjunct1, THEN iffD2])
      (simp add: o9, simp add: fixed_offset_def duration_defs)
qed

text \<open>Picker and claim agree. The slots a multi-day grid shows on a day are exactly the grid
  computed for that day alone, in the same order: the availability a claim re-checks is the one
  the visitor was shown, for the same rows, counts and clock.\<close>

theorem slot_grid_local:
  assumes "a \<le> d" "d \<le> b"
  shows "filter (\<lambda>s. fst (to_local z (s_starts_at s)) = d)
           (materialize_slots z rules exs booked a b now)
         = materialize_slots z rules exs booked d d now"
proof (rule strict_key_list_unique [where key = s_starts_at])
  show "set (filter (\<lambda>s. fst (to_local z (s_starts_at s)) = d)
           (materialize_slots z rules exs booked a b now))
         = set (materialize_slots z rules exs booked d d now)"
  proof (rule set_eqI)
    fix s
    show "s \<in> set (filter (\<lambda>s. fst (to_local z (s_starts_at s)) = d)
           (materialize_slots z rules exs booked a b now)) \<longleftrightarrow>
        s \<in> set (materialize_slots z rules exs booked d d now)"
      using assms materialize_local [of s z rules exs booked a b now]
        materialize_local [of s z rules exs booked d d now] by (auto simp: Let_def)
  qed
qed (simp_all add: sorted_filter_key materialize_strict)

theorem slot_grid_local_witness:
  "map s_starts_at (filter (\<lambda>s. fst (to_local (fixed_offset 0) (s_starts_at s)) = 719163)
      (materialize_slots (fixed_offset 0) shop_rules [] (\<lambda>_. 0) 719160 719170 0))
   = [hours 9, hours 9 + minutes 30]"
proof -
  have "map s_starts_at (materialize_slots (fixed_offset 0) shop_rules [] (\<lambda>_. 0) 719163 719163 0)
      = [hours 9, hours 9 + minutes 30]"
    by code_simp
  then show ?thesis by (subst slot_grid_local) simp_all
qed

end
