(* ===== verification/Rate_Limit.thy ===== *)
theory Rate_Limit
  imports Prelude "HOL-Library.AList"
begin

text \<open>
  The fixed-window limiter, \<open>app/auth/rate_limit.py\<close>.

  \<open>limiter_cfg\<close> holds what \<open>__init__\<close> fixes (the budget and the window, in microseconds of the
  monotonic clock), \<open>limiter\<close> what the methods change: the dict of buckets, one
  \<open>(window_start, count)\<close> per key in insertion order, and the sweep's high-water mark. A method
  that reads the clock takes the reading as an argument; \<open>record_failure\<close> reads it twice when it
  sweeps, so it takes two.

  The interface a caller relies on is the locale \<open>fixed_window\<close>: a key has at most one live
  bucket (\<open>view\<close>), time only lets it expire, recording bumps it or opens a new one, and nothing
  else is visible. It is interpreted on the limiter below, which is where the amortised sweep is
  shown to be unobservable. Clients (booking, OTP, waitlist) use the interpretation's facts.
\<close>

section \<open>The limiter\<close>

record limiter_cfg =
  max_attempts :: nat
  window_length :: int

record 'k limiter =
  buckets :: "('k \<times> (int \<times> nat)) list"
  sweep_at :: nat

definition SWEEP_FLOOR :: nat where "SWEEP_FLOOR = 1024"

definition new_limiter :: "'k limiter" where
  "new_limiter = \<lparr>buckets = [], sweep_at = SWEEP_FLOOR\<rparr>"

definition current_count :: "limiter_cfg \<Rightarrow> 'k limiter \<Rightarrow> int \<Rightarrow> 'k \<Rightarrow> int \<times> nat" where
  "current_count cfg l now key =
     (let (window_start, count) =
        (case map_of (buckets l) key of None \<Rightarrow> (now, 0) | Some b \<Rightarrow> b) in
      if now - window_start \<ge> window_length cfg then (now, 0) else (window_start, count))"

definition is_blocked :: "limiter_cfg \<Rightarrow> 'k limiter \<Rightarrow> int \<Rightarrow> 'k \<Rightarrow> bool" where
  "is_blocked cfg l now key \<longleftrightarrow> snd (current_count cfg l now key) \<ge> max_attempts cfg"

definition sweep :: "limiter_cfg \<Rightarrow> 'k limiter \<Rightarrow> int \<Rightarrow> 'k limiter" where
  "sweep cfg l now =
     (let kept = filter (\<lambda>(key, bucket). now - fst bucket < window_length cfg) (buckets l) in
      l\<lparr>buckets := kept, sweep_at := max SWEEP_FLOOR (length kept * 2)\<rparr>)"

definition record_failure :: "limiter_cfg \<Rightarrow> 'k limiter \<Rightarrow> int \<Rightarrow> int \<Rightarrow> 'k \<Rightarrow> 'k limiter" where
  "record_failure cfg l now later key =
     (let (window_start, count) = current_count cfg l now key;
          l' = l\<lparr>buckets := AList.update key (window_start, count + 1) (buckets l)\<rparr> in
      if length (buckets l') > sweep_at l' then sweep cfg l' later else l')"

definition reset :: "'k limiter \<Rightarrow> 'k \<Rightarrow> 'k limiter" where
  "reset l key = l\<lparr>buckets := AList.delete key (buckets l)\<rparr>"

section \<open>The interface\<close>

type_synonym 'k window_view = "'k \<Rightarrow> int \<Rightarrow> (int \<times> nat) option"

locale fixed_window =
  fixes ok :: "'s \<Rightarrow> bool"
    and view :: "'s \<Rightarrow> 'k window_view"
    and blocked :: "'s \<Rightarrow> int \<Rightarrow> 'k \<Rightarrow> bool"
    and record_hit :: "'s \<Rightarrow> int \<Rightarrow> int \<Rightarrow> 'k \<Rightarrow> 's"
    and span :: int
    and budget :: nat
  assumes ok_record: "ok s \<Longrightarrow> ok (record_hit s now later k)"
    and view_later:
      "t \<le> t' \<Longrightarrow> view s k t' =
         (case view s k t of None \<Rightarrow> None
          | Some b \<Rightarrow> if t' - fst b < span then Some b else None)"
    and view_live: "view s k t = Some b \<Longrightarrow> t - fst b < span"
    and view_record:
      "ok s \<Longrightarrow> now \<le> later \<Longrightarrow> later \<le> t \<Longrightarrow> view (record_hit s now later k) k' t =
         (if k' = k then
            (let b = (case view s k now of None \<Rightarrow> (now, 0) | Some b \<Rightarrow> b) in
             if t - fst b < span then Some (fst b, snd b + 1) else None)
          else view s k' t)"
    and blocked_view:
      "blocked s t k \<longleftrightarrow> budget \<le> (case view s k t of None \<Rightarrow> 0 | Some b \<Rightarrow> snd b)"
begin

text \<open>Check, then spend: what every caller of the limiter does with one request.\<close>

definition hit :: "'s \<Rightarrow> int \<Rightarrow> 'k \<Rightarrow> 's \<times> bool" where
  "hit s now k = (if blocked s now k then (s, False) else (record_hit s now now k, True))"

fun admitted :: "'s \<Rightarrow> 'k \<Rightarrow> (int \<times> 'k) list \<Rightarrow> nat" where
  "admitted s k [] = 0"
| "admitted s k ((t, k') # reqs) =
     (case hit s t k' of (s', ok) \<Rightarrow> (if ok \<and> k' = k then 1 else 0) + admitted s' k reqs)"

definition used :: "'s \<Rightarrow> 'k \<Rightarrow> int \<Rightarrow> nat" where
  "used s k t = (case view s k t of None \<Rightarrow> 0 | Some b \<Rightarrow> snd b)"

definition asked :: "'k \<Rightarrow> (int \<times> 'k) list \<Rightarrow> nat" where
  "asked k reqs = length (filter (\<lambda>r. snd r = k) reqs)"

lemma asked_Cons [simp]: "asked k (r # reqs) = (if snd r = k then 1 else 0) + asked k reqs"
  by (simp add: asked_def)

lemma asked_Nil [simp]: "asked k [] = 0"
  by (simp add: asked_def)

text \<open>While a bucket is live exactly what is left of its budget is admitted, first come first
  served.\<close>

lemma admitted_one_bucket:
  assumes "sorted (map fst reqs)" "\<forall>r\<in>set reqs. lo \<le> fst r \<and> fst r < a + span"
    and "view s k lo = Some (a, c)" "ok s"
  shows "admitted s k reqs = min (budget - c) (asked k reqs)"
  using assms
proof (induction reqs arbitrary: s lo c)
  case (Cons r reqs)
  obtain t k' where r: "r = (t, k')" by (cases r)
  from Cons.prems r have t: "lo \<le> t" "t < a + span" by auto
  have v: "view s k t = Some (a, c)"
    using Cons.prems(3) t by (subst view_later [OF t(1)]) simp
  have rest: "sorted (map fst reqs)" "\<forall>r\<in>set reqs. t \<le> fst r \<and> fst r < a + span"
    using Cons.prems(1,2) r by auto
  note IH = Cons.IH [OF rest]
  have bk: "blocked s t k \<longleftrightarrow> budget \<le> c" using v by (simp add: blocked_view)
  show ?case
  proof (cases "blocked s t k'")
    case True
    with r IH [OF v Cons.prems(4)] bk show ?thesis by (auto simp: hit_def)
  next
    case nb: False
    have "view (record_hit s t t k') k t = Some (a, if k' = k then c + 1 else c)"
      using v t Cons.prems(4) by (subst view_record) auto
    from IH [OF this ok_record [OF Cons.prems(4)]] nb bk r show ?thesis
      by (auto simp: hit_def)
  qed
qed simp

lemma admitted_fresh:
  assumes "sorted (map fst reqs)" "\<forall>r\<in>set reqs. lo \<le> fst r \<and> fst r < a + span" "a \<le> lo"
    and "view s k lo = None" "ok s"
  shows "admitted s k reqs = min budget (asked k reqs)"
  using assms
proof (induction reqs arbitrary: s lo)
  case (Cons r reqs)
  obtain t k' where r: "r = (t, k')" by (cases r)
  from Cons.prems r have t: "lo \<le> t" "t < a + span" "a \<le> t" by auto
  have v: "view s k t = None" using Cons.prems(4) by (subst view_later [OF t(1)]) simp
  have rest: "sorted (map fst reqs)" "\<forall>r\<in>set reqs. t \<le> fst r \<and> fst r < a + span"
    using Cons.prems(1,2) r by auto
  show ?case
  proof (cases "blocked s t k' \<or> k' \<noteq> k")
    case True
    then have "view (fst (hit s t k')) k t = None" "ok (fst (hit s t k'))"
      using Cons.prems(5) by (auto simp: hit_def view_record v intro: ok_record)
    moreover have "blocked s t k \<longleftrightarrow> budget = 0" using v by (simp add: blocked_view)
    ultimately show ?thesis using Cons.IH [OF rest t(3)] True r by (auto simp: hit_def)
  next
    case False
    then have "0 < budget" using v by (simp add: blocked_view)
    have "view (record_hit s t t k) k t = Some (t, 1)"
      using v t Cons.prems(5) by (subst view_record) simp_all
    with rest t have "admitted (record_hit s t t k) k reqs = min (budget - 1) (asked k reqs)"
      using Cons.prems(5) by (intro ok_record admitted_one_bucket [where a = t and lo = t]) auto
    with False r \<open>0 < budget\<close> show ?thesis by (auto simp: hit_def)
  qed
qed simp

text \<open>Any stretch no longer than the window meets at most two buckets of a key.\<close>

lemma admitted_two_buckets:
  assumes "sorted (map fst reqs)" "\<forall>r\<in>set reqs. lo \<le> fst r \<and> fst r < a + span" "a \<le> lo"
    and "ok s"
  shows "admitted s k reqs \<le> budget + (budget - used s k lo)"
  using assms
proof (induction reqs arbitrary: s lo)
  case (Cons r reqs)
  obtain t k' where r: "r = (t, k')" by (cases r)
  from Cons.prems r have t: "lo \<le> t" "t < a + span" "a \<le> t" by auto
  have rest: "sorted (map fst reqs)" "\<forall>r\<in>set reqs. t \<le> fst r \<and> fst r < a + span"
    using Cons.prems(1,2) r by auto
  show ?case
  proof (cases "view s k t")
    case None
    have "admitted s k (r # reqs) = min budget (asked k (r # reqs))"
      using Cons.prems(1,2,4) r t None by (intro admitted_fresh [where lo = t and a = a]) auto
    then show ?thesis by linarith
  next
    case (Some b)
    then have u: "used s k t = snd b" "used s k lo = snd b"
      using view_later [OF t(1), of s k] by (auto simp: used_def split: option.splits if_splits)
    have live: "t - fst b < span" using Some by (rule view_live)
    define s' where "s' = fst (hit s t k')"
    have ok': "ok s'" using Cons.prems(4) by (simp add: s'_def hit_def ok_record)
    show ?thesis
    proof (cases "blocked s t k' \<or> k' \<noteq> k")
      case True
      then have u': "used s' k t = snd b"
        using Some Cons.prems(4) live by (auto simp: s'_def used_def hit_def view_record)
      then have "admitted s' k reqs \<le> budget + (budget - snd b)"
        using Cons.IH [OF rest t(3) ok'] by simp
      with True r u show ?thesis by (auto simp: s'_def hit_def)
    next
      case False
      then have "snd b < budget" using Some by (auto simp: blocked_view)
      moreover have "used s' k t = snd b + 1"
        using Some False live Cons.prems(4) by (auto simp: s'_def used_def hit_def view_record)
      ultimately have "admitted s' k reqs \<le> budget + (budget - (snd b + 1))"
        using Cons.IH [OF rest t(3) ok'] by simp
      with False r u \<open>snd b < budget\<close> show ?thesis by (auto simp: s'_def hit_def)
    qed
  qed
qed simp

end

section \<open>The limiter provides the interface\<close>

definition limiter_view :: "limiter_cfg \<Rightarrow> 'k limiter \<Rightarrow> 'k window_view" where
  "limiter_view cfg l key t =
     (case map_of (buckets l) key of None \<Rightarrow> None
      | Some b \<Rightarrow> if t - fst b < window_length cfg then Some b else None)"

lemma current_count_view:
  "current_count cfg l now key =
     (case limiter_view cfg l key now of None \<Rightarrow> (now, 0) | Some b \<Rightarrow> b)"
  by (auto simp: current_count_def limiter_view_def split: option.splits)

lemma map_of_filter_bucket:
  assumes "distinct (map fst bs)"
  shows "map_of (filter (\<lambda>(key, bucket). P bucket) bs) k =
    (case map_of bs k of None \<Rightarrow> None | Some b \<Rightarrow> if P b then Some b else None)"
  using assms by (induction bs) (auto split: option.splits simp: map_of_eq_None_iff rev_image_eqI
      dest: map_of_SomeD)

definition buckets_ok :: "'k limiter \<Rightarrow> bool" where
  "buckets_ok l \<longleftrightarrow> distinct (map fst (buckets l)) \<and> length (buckets l) \<le> sweep_at l
     \<and> SWEEP_FLOOR \<le> sweep_at l"

lemma length_AList_update: "length (AList.update k v xs) \<le> length xs + 1"
  by (induction xs) auto

lemma length_AList_delete: "length (AList.delete k xs) \<le> length xs"
  by (simp add: AList.delete_eq)

lemma distinct_filter_keys:
  "distinct (map fst xs) \<Longrightarrow> distinct (map fst (filter P xs))"
  by (simp add: distinct_map_filter)

lemma new_limiter_ok: "buckets_ok new_limiter"
  by (simp add: buckets_ok_def new_limiter_def)

lemma record_failure_ok: "buckets_ok l \<Longrightarrow> buckets_ok (record_failure cfg l now later key)"
  by (auto simp: buckets_ok_def record_failure_def sweep_def Let_def distinct_update
      distinct_filter_keys split: prod.splits)

lemma reset_ok: "buckets_ok l \<Longrightarrow> buckets_ok (reset l key)"
  using length_AList_delete [of key "buckets l"]
  by (auto simp: buckets_ok_def reset_def distinct_delete)

text \<open>The sweep never hides a live bucket, from the moment it runs on.\<close>

lemma limiter_view_sweep:
  assumes "distinct (map fst (buckets l))" "later \<le> t"
  shows "limiter_view cfg (sweep cfg l later) k t = limiter_view cfg l k t"
  using assms by (auto simp: limiter_view_def sweep_def Let_def map_of_filter_bucket split: option.splits)

lemma limiter_view_record:
  assumes "distinct (map fst (buckets l))" "now \<le> later" "later \<le> t"
  shows "limiter_view cfg (record_failure cfg l now later k) k' t =
    (if k' = k then
       (let b = (case limiter_view cfg l k now of None \<Rightarrow> (now, 0) | Some b \<Rightarrow> b) in
        if t - fst b < window_length cfg then Some (fst b, snd b + 1) else None)
     else limiter_view cfg l k' t)"
proof -
  obtain st c where b: "current_count cfg l now k = (st, c)" by fastforce
  let ?l = "l\<lparr>buckets := AList.update k (st, c + 1) (buckets l)\<rparr>"
  have "limiter_view cfg (record_failure cfg l now later k) k' t = limiter_view cfg ?l k' t"
    using assms by (simp add: record_failure_def b limiter_view_sweep distinct_update Let_def)
  also have "\<dots> = (if k' = k then (if t - st < window_length cfg then Some (st, c + 1) else None)
       else limiter_view cfg l k' t)"
    by (auto simp: limiter_view_def update_conv split: option.splits)
  finally show ?thesis using b by (simp add: current_count_view Let_def)
qed


interpretation fw: fixed_window buckets_ok "limiter_view cfg" "is_blocked cfg"
    "record_failure cfg" "window_length cfg" "max_attempts cfg" for cfg
proof
  fix s :: "'k limiter" and now later :: int and k :: 'k
  show "buckets_ok s \<Longrightarrow> buckets_ok (record_failure cfg s now later k)"
    by (rule record_failure_ok)
next
  fix s :: "'k limiter" and now later t :: int and k k' :: 'k
  assume "buckets_ok s" "now \<le> later" "later \<le> t"
  then show "limiter_view cfg (record_failure cfg s now later k) k' t =
      (if k' = k then
         (let b = (case limiter_view cfg s k now of None \<Rightarrow> (now, 0) | Some b \<Rightarrow> b) in
          if t - fst b < window_length cfg then Some (fst b, snd b + 1) else None)
       else limiter_view cfg s k' t)"
    by (intro limiter_view_record) (simp_all add: buckets_ok_def)
next
  fix s :: "'k limiter" and t :: int and k :: 'k
  show "is_blocked cfg s t k \<longleftrightarrow>
      max_attempts cfg \<le> (case limiter_view cfg s k t of None \<Rightarrow> 0 | Some b \<Rightarrow> snd b)"
    by (simp add: is_blocked_def current_count_view split: option.split)
qed (auto simp: limiter_view_def split: option.splits if_splits)

lemma fresh_view [simp]: "limiter_view cfg new_limiter k t = None"
  by (simp add: limiter_view_def new_limiter_def)

section \<open>Properties\<close>

text \<open>What a client of the limiter lets through for a key: the requests that passed the check and
  were then recorded, over a run of \<open>(reading, key)\<close> requests.\<close>

fun let_through :: "limiter_cfg \<Rightarrow> 'k limiter \<Rightarrow> 'k \<Rightarrow> (int \<times> 'k) list \<Rightarrow> nat" where
  "let_through cfg l key [] = 0"
| "let_through cfg l key ((now, k) # reqs) =
     (if is_blocked cfg l now k then let_through cfg l key reqs
      else (if k = key then 1 else 0)
             + let_through cfg (record_failure cfg l now now k) key reqs)"

lemma let_through_admitted: "let_through cfg l key reqs = fw.admitted cfg l key reqs"
  by (induction cfg l key reqs rule: let_through.induct) (simp_all add: fw.hit_def)

fun asked_for :: "'k \<Rightarrow> (int \<times> 'k) list \<Rightarrow> nat" where
  "asked_for key [] = 0"
| "asked_for key ((now, k) # reqs) = (if k = key then 1 else 0) + asked_for key reqs"

lemma asked_for_asked: "asked_for key reqs = fw.asked key reqs"
  by (induction key reqs rule: asked_for.induct) (simp_all add: fw.asked_def)

text \<open>C18. Rate limiting, exactly. In a window that opens fresh (the key has no bucket, or one whose
  window has passed) the first \<open>max_attempts\<close> requests of the key are let through and no other; in
  the rest of a window that is open with \<open>c\<close> of them spent, exactly the next \<open>max_attempts - c\<close>. A
  stretch of one window's length laid across the end of a window can meet two of them, so it lets
  at most \<open>2 * max_attempts\<close> through. Other keys and the amortised sweep never change any of it.\<close>

theorem limiter_admits_at_most:
  assumes "buckets_ok l" and "sorted (map fst reqs)" and "\<forall>r\<in>set reqs. lo \<le> fst r"
  shows "((\<forall>a c. map_of (buckets l) key = Some (a, c) \<longrightarrow> a + window_length cfg \<le> lo) \<longrightarrow>
      (\<forall>r\<in>set reqs. fst r < lo + window_length cfg) \<longrightarrow>
        let_through cfg l key reqs = min (max_attempts cfg) (asked_for key reqs))
    \<and> (\<forall>a c. map_of (buckets l) key = Some (a, c) \<longrightarrow> lo < a + window_length cfg \<longrightarrow>
      (\<forall>r\<in>set reqs. fst r < a + window_length cfg) \<longrightarrow>
        let_through cfg l key reqs = min (max_attempts cfg - c) (asked_for key reqs))
    \<and> ((\<forall>r\<in>set reqs. fst r < lo + window_length cfg) \<longrightarrow>
        let_through cfg l key reqs \<le> 2 * max_attempts cfg)"
proof (intro conjI allI impI)
  assume "\<forall>a c. map_of (buckets l) key = Some (a, c) \<longrightarrow> a + window_length cfg \<le> lo"
  then have "limiter_view cfg l key lo = None"
    by (auto simp: limiter_view_def split: option.splits)
  moreover assume "\<forall>r\<in>set reqs. fst r < lo + window_length cfg"
  ultimately show "let_through cfg l key reqs = min (max_attempts cfg) (asked_for key reqs)"
    using assms unfolding let_through_admitted asked_for_asked by (intro fw.admitted_fresh) auto
next
  fix a c assume "map_of (buckets l) key = Some (a, c)" "lo < a + window_length cfg"
  then have "limiter_view cfg l key lo = Some (a, c)" by (simp add: limiter_view_def)
  moreover assume "\<forall>r\<in>set reqs. fst r < a + window_length cfg"
  ultimately show "let_through cfg l key reqs = min (max_attempts cfg - c) (asked_for key reqs)"
    using assms unfolding let_through_admitted asked_for_asked
    by (intro fw.admitted_one_bucket) auto
next
  assume "\<forall>r\<in>set reqs. fst r < lo + window_length cfg"
  then have "\<forall>r\<in>set reqs. lo \<le> fst r \<and> fst r < lo + window_length cfg" using assms(3) by blast
  from fw.admitted_two_buckets [OF assms(2) this order_refl assms(1), of key]
  show "let_through cfg l key reqs \<le> 2 * max_attempts cfg"
    by (simp add: let_through_admitted)
qed

theorem limiter_admits_at_most_witness:
  "let_through \<lparr>max_attempts = 1, window_length = 10\<rparr> new_limiter (0::nat)
     [(0, 0), (3, 0), (5, 1), (9, 0)] = 1"
  using limiter_admits_at_most [where cfg = "\<lparr>max_attempts = 1, window_length = 10\<rparr>"
      and l = new_limiter and lo = 0 and key = "0::nat" and reqs = "[(0, 0), (3, 0), (5, 1), (9, 0)]",
      OF new_limiter_ok]
  by (simp add: new_limiter_def del: let_through.simps)

text \<open>The sweep refines the plain per-key limiter: whatever the dict's size made
  \<open>record_failure\<close> drop, every count read from then on is the count of the limiter that never
  sweeps; and the dict never outgrows its mark.\<close>

theorem sweep_unobservable:
  assumes "buckets_ok l" "now \<le> later" "later \<le> t"
  shows "current_count cfg (record_failure cfg l now later key) t key' =
      current_count cfg
        (l\<lparr>buckets := AList.update key
            (fst (current_count cfg l now key), snd (current_count cfg l now key) + 1) (buckets l)\<rparr>) t key'
    \<and> length (buckets (record_failure cfg l now later key))
        \<le> sweep_at (record_failure cfg l now later key)"
proof (rule conjI)
  let ?b = "current_count cfg l now key"
  have "distinct (map fst (buckets l))" using assms(1) by (simp add: buckets_ok_def)
  from limiter_view_record [OF this assms(2,3), of cfg key key']
  have "limiter_view cfg (record_failure cfg l now later key) key' t =
     limiter_view cfg (l\<lparr>buckets := AList.update key (fst ?b, snd ?b + 1) (buckets l)\<rparr>) key' t"
    by (cases "limiter_view cfg l key now")
      (simp_all add: limiter_view_def update_conv current_count_view Let_def)
  then show "current_count cfg (record_failure cfg l now later key) t key' =
      current_count cfg (l\<lparr>buckets := AList.update key (fst ?b, snd ?b + 1) (buckets l)\<rparr>) t key'"
    by (simp add: current_count_view)
  show "length (buckets (record_failure cfg l now later key))
        \<le> sweep_at (record_failure cfg l now later key)"
    using record_failure_ok [OF assms(1)] by (simp add: buckets_ok_def)
qed

theorem sweep_unobservable_witness:
  "current_count \<lparr>max_attempts = 1, window_length = 10\<rparr>
     (record_failure \<lparr>max_attempts = 1, window_length = 10\<rparr> new_limiter 0 0 (7::nat)) 3 7 = (0, 1)"
  using sweep_unobservable [where l = new_limiter and now = 0 and later = 0 and t = 3
      and cfg = "\<lparr>max_attempts = 1, window_length = 10\<rparr>" and key = "7::nat" and key' = 7]
  by (simp add: new_limiter_ok) (simp add: current_count_def new_limiter_def)

end
