(* ===== verification/Store.thy ===== *)
theory Store
  imports Slots
begin

text \<open>
  The database: \<open>app/models\<close> as records, the constraints of \<open>migrations/versions\<close> as boolean
  checks, and the two statements every repository is built from.

  A table is the list of its rows in insertion order, deleted ones included (\<open>deleted_at\<close> is only
  ever tested for NULL, so it is a flag). \<open>db\<close> holds every tenant's rows; the repositories carry
  the \<open>tenant_id\<close> predicate the source writes beside row-level security. \<open>d_now\<close> is \<open>now()\<close> of the
  running transaction, \<open>d_next\<close> the source of fresh identifiers (\<open>uuid_generate_v4()\<close>, of which only
  freshness matters).

  \<open>insert_row\<close> and \<open>update_rows\<close> check a table's constraints on the rows they would leave and
  answer \<open>Integrity_error\<close> where Postgres raises. A transaction that raises leaves the database it
  started from, so a handler answers \<open>Inl\<close> of its error and its caller keeps the old state.
\<close>

section \<open>The outside world\<close>

text \<open>What the handlers use of the outside: the timezone database, \<open>sha256(..).hexdigest()\<close> of a
  token, and Python's Unicode \<open>str.lower\<close>. Only \<open>token_hash\<close> is ever assumed to satisfy anything
  (that it has no collision), and only where a theorem says so.\<close>

record env =
  e_zone :: zone
  e_hash :: "utext \<Rightarrow> utext"
  e_lower :: "utext \<Rightarrow> utext"

text \<open>The exceptions of the back office, one type per package of the source.\<close>

datatype staff_error =
    Invalid_credentials
  | Rate_limited
  | Not_authenticated
  | Not_authorized
  | Duplicate_email
  | Last_owner_required
  | Staff_self_manage
  | Staff_not_found

datatype media_error =
    Media_not_configured
  | Media_unavailable
  | Media_presign_throttled
  | Media_not_uploaded
  | Media_mismatch
  | Media_limit_reached
  | Media_order_mismatch

datatype queue_status = Q_waiting | Q_in_service | Q_done | Q_removed

datatype floor_error =
    Checkin_throttled
  | Queue_ticket_not_found
  | Queue_empty
  | Queue_ticket_not_waiting queue_status
  | Queue_ticket_changed int
  | Room_occupied "utext option"
  | Staff_occupied "utext option"
  | Sos_already_accepted "utext option"
  | Sos_closed
  | Ticket_stage_conflict
  | Ticket_already_assigned

datatype shift_error =
    Shift_not_found
  | Coverage_target_invalid
  | No_opening_hours
  | Availability_conflict
  | Not_shift_manager_eligible
  | Shift_manager_slot_taken
  | Submission_closed
  | Template_limit_reached
  | Templates_already_seeded
  | Week_out_of_range

datatype catalog_error =
    Catalog_not_found
  | Duplicate_size
  | Reservation_overlap date date

datatype client_error =
    Subject_not_found
  | Subject_has_active_booking
  | Privacy_throttled
  | Customer_not_found
  | Portal_no_bookings
  | Portal_throttled

datatype boutique_error =
    Boutique_not_found
  | Duplicate_name
  | Duplicate_date
  | Terms_version_conflict
  | Terms_throttled
  | Slot_window_error

datatype error =
    Integrity_error
  | Unique_violation string
  | Runtime_error string
  | Domain_not_found string
  | Staff_error staff_error
  | Media_error media_error
  | Floor_error floor_error
  | Shift_error shift_error
  | Catalog_error catalog_error
  | Client_error client_error
  | Boutique_error boutique_error
  | Booking_validation string
  | Booking_not_found
  | Phone_invalid
  | Phone_not_verified
  | Slot_unavailable
  | Dress_unavailable
  | Terms_stale
  | Booking_throttled
  | Multiple_results
  | Assertion_failed | Key_error | Unicode_encode_error
  | Domain_validation string
  | Transition_invalid
  | Customer_already_booked
  | Resend_throttled
  | Link_invalid
  | Already_started
  | Booking_is_cancelled
  | Awaiting_payment
  | Lookup_throttled
  | Gateway_not_configured
  | Gateway_not_connected
  | Gateway_unavailable
  | Secret_box_not_configured
  | Secret_decrypt_failed
  | Webhook_invalid
  | Payment_already_held
  | Payment_not_found
  | Otp_invalid
  | Otp_expired
  | Sms_not_configured
  | Otp_throttled
  | Waitlist_throttled
  | Waitlist_not_found
  | Offer_not_found
  | Offer_not_claimable string

section \<open>Bookings\<close>

datatype booking_status = Confirmed | Cancelled | No_show | Completed | Pending_payment

datatype booking_source = Storefront | Walk_in

datatype cancelled_by = By_customer | By_owner | By_expired

record booking =
  b_id :: uuid
  b_tenant :: uuid
  b_customer :: uuid
  b_type :: uuid
  b_starts_at :: instant
  b_seat :: int
  b_status :: booking_status
  b_attendance_at :: "instant option"
  b_checked_in_at :: "instant option"
  b_source :: booking_source
  b_terms_version :: "int option"
  b_terms_at :: "instant option"
  b_type_name :: utext
  b_dress :: "uuid option"
  b_dress_name :: "utext option"
  b_dress_size :: "utext option"
  b_notes :: "utext option"
  b_token_hash :: "utext option"
  b_cancelled_at :: "instant option"
  b_cancelled_by :: "cancelled_by option"
  b_created_at :: instant
  b_deleted :: bool

definition MAX_SEAT_INDEX :: int where "MAX_SEAT_INDEX = 1000"

text \<open>The predicate of both partial unique indexes: only a cancellation frees a seat.\<close>

definition occupies :: "booking \<Rightarrow> bool" where
  "occupies b \<longleftrightarrow> \<not> b_deleted b \<and> b_status b \<noteq> Cancelled"

definition seat_key :: "booking \<Rightarrow> uuid \<times> instant \<times> int" where
  "seat_key b = (b_tenant b, b_starts_at b, b_seat b)"

definition visit_key :: "booking \<Rightarrow> uuid \<times> uuid \<times> instant" where
  "visit_key b = (b_tenant b, b_customer b, b_starts_at b)"

definition booking_row_ok :: "booking \<Rightarrow> bool" where
  "booking_row_ok b \<longleftrightarrow>
     1 \<le> b_seat b \<and> b_seat b \<le> MAX_SEAT_INDEX
     \<and> (case b_terms_version b of None \<Rightarrow> True | Some v \<Rightarrow> v > 0)
     \<and> (b_source b = Walk_in \<or> (b_terms_version b \<noteq> None \<and> b_terms_at b \<noteq> None))"

definition bookings_ok :: "booking list \<Rightarrow> bool" where
  "bookings_ok rows \<longleftrightarrow>
     distinct (map b_id rows) \<and> list_all booking_row_ok rows
     \<and> unique_on occupies seat_key rows \<and> unique_on occupies visit_key rows"

section \<open>Payments\<close>

datatype payment_status = Pay_pending | Paid | Pay_failed | Pay_expired | Refund_due | Refunded | Forfeited

record payment =
  p_id :: uuid
  p_tenant :: uuid
  p_booking :: uuid
  p_provider :: string
  p_amount :: int
  p_status :: payment_status
  p_session :: "utext option"
  p_redirect_url :: "utext option"
  p_txn :: "utext option"
  p_hold_expires_at :: "instant option"
  p_paid_at :: "instant option"
  p_error :: "utext option"
  p_created_at :: instant
  p_deleted :: bool

definition pending_hold :: "payment \<Rightarrow> bool" where
  "pending_hold p \<longleftrightarrow> \<not> p_deleted p \<and> p_status p = Pay_pending"

definition settled_txn :: "payment \<Rightarrow> bool" where
  "settled_txn p \<longleftrightarrow> \<not> p_deleted p \<and> p_txn p \<noteq> None"

definition hold_key :: "payment \<Rightarrow> uuid \<times> uuid" where
  "hold_key p = (p_tenant p, p_booking p)"

definition txn_key :: "payment \<Rightarrow> uuid \<times> string \<times> utext option" where
  "txn_key p = (p_tenant p, p_provider p, p_txn p)"

definition payments_ok :: "payment list \<Rightarrow> bool" where
  "payments_ok rows \<longleftrightarrow>
     distinct (map p_id rows) \<and> list_all (\<lambda>p. p_amount p > 0) rows
     \<and> unique_on pending_hold hold_key rows \<and> unique_on settled_txn txn_key rows"

section \<open>Scheduled messages\<close>

datatype message_kind = Reminder | Waitlist_offer

datatype message_status = Msg_pending | Msg_sent | Msg_cancelled | Msg_failed

record message =
  m_id :: uuid
  m_tenant :: uuid
  m_booking :: "uuid option"
  m_entry :: "uuid option"
  m_kind :: message_kind
  m_send_after :: instant
  m_status :: message_status
  m_token :: "utext option"
  m_created_at :: instant
  m_deleted :: bool

definition pending_message :: "message \<Rightarrow> bool" where
  "pending_message m \<longleftrightarrow> \<not> m_deleted m \<and> m_status m = Msg_pending"

text \<open>NULLs are distinct in a unique index, so each index holds the rows whose subject is set.\<close>

definition messages_ok :: "message list \<Rightarrow> bool" where
  "messages_ok rows \<longleftrightarrow>
     distinct (map m_id rows)
     \<and> list_all (\<lambda>m. (m_booking m = None) \<noteq> (m_entry m = None)) rows
     \<and> unique_on (\<lambda>m. pending_message m \<and> m_booking m \<noteq> None)
         (\<lambda>m. (m_tenant m, m_booking m, m_kind m)) rows
     \<and> unique_on (\<lambda>m. pending_message m \<and> m_entry m \<noteq> None)
         (\<lambda>m. (m_tenant m, m_entry m, m_kind m)) rows"

section \<open>Waitlist entries\<close>

datatype entry_status = Waiting | Offered | Claimed | Expired | Withdrawn

record entry =
  w_id :: uuid
  w_tenant :: uuid
  w_day :: date
  w_type :: uuid
  w_phone :: utext
  w_status :: entry_status
  w_offered_at :: "instant option"
  w_offer_expires_at :: "instant option"
  w_offer_starts_at :: "instant option"
  w_token_hash :: "utext option"
  w_created_at :: instant
  w_deleted :: bool

definition active_entry :: "entry \<Rightarrow> bool" where
  "active_entry w \<longleftrightarrow> \<not> w_deleted w \<and> w_status w \<in> {Waiting, Offered}"

definition entry_key :: "entry \<Rightarrow> uuid \<times> utext \<times> date \<times> uuid" where
  "entry_key w = (w_tenant w, w_phone w, w_day w, w_type w)"

definition entries_ok :: "entry list \<Rightarrow> bool" where
  "entries_ok rows \<longleftrightarrow>
     distinct (map w_id rows) \<and> unique_on active_entry entry_key rows
     \<and> unique_on (\<lambda>w. \<not> w_deleted w \<and> w_token_hash w \<noteq> None) w_token_hash rows"

section \<open>Customers, settings and the rest\<close>

record customer =
  c_id :: uuid
  c_tenant :: uuid
  c_phone :: utext
  c_name :: utext
  c_consent_at :: "instant option"
  c_withdrawn_at :: "instant option"
  c_erased_at :: "instant option"
  c_deleted :: bool

definition customers_ok :: "customer list \<Rightarrow> bool" where
  "customers_ok rows \<longleftrightarrow>
     distinct (map c_id rows)
     \<and> unique_on (\<lambda>c. \<not> c_deleted c) (\<lambda>c. (c_tenant c, c_phone c)) rows
     \<and> list_all (\<lambda>c. c_withdrawn_at c = None \<or> c_consent_at c \<noteq> None) rows"

record appointment_type =
  t_id :: uuid
  t_tenant :: uuid
  t_name :: utext
  t_duration :: int
  t_deposit_required :: bool
  t_deposit_amount :: "int option"
  t_audience :: string
  t_sort_order :: int
  t_created_at :: instant
  t_deleted :: bool

record terms_version =
  v_tenant :: uuid
  v_version :: int
  v_refundable_until_hours :: int
  v_forfeit_percent :: int
  v_text :: utext
  v_created_by :: uuid
  v_deleted :: bool

record dress =
  g_id :: uuid
  g_tenant :: uuid
  g_name :: utext
  g_description :: "utext option"
  g_price :: "int option"
  g_price_visible :: bool
  g_reserved :: bool
  g_order :: int
  g_created_at :: instant
  g_deleted_at :: "instant option"

definition g_deleted :: "dress \<Rightarrow> bool" where
  "g_deleted r \<longleftrightarrow> g_deleted_at r \<noteq> None"

record dress_variant =
  gv_id :: uuid
  gv_tenant :: uuid
  gv_dress :: uuid
  gv_size_label :: utext
  gv_quantity :: int
  gv_sort_order :: int
  gv_deleted_at :: "instant option"

definition gv_deleted :: "dress_variant \<Rightarrow> bool" where
  "gv_deleted r \<longleftrightarrow> gv_deleted_at r \<noteq> None"

record dress_reservation =
  gr_id :: uuid
  gr_tenant :: uuid
  gr_dress :: uuid
  gr_starts_on :: date
  gr_ends_on :: date
  gr_customer :: "uuid option"
  gr_notes :: "utext option"
  gr_deleted :: bool

record otp_code =
  o_id :: uuid
  o_tenant :: uuid
  o_phone :: utext
  o_code_hash :: utext
  o_expires_at :: instant
  o_attempts :: int
  o_consumed_at :: "instant option"
  o_token_hash :: "utext option"
  o_token_expires_at :: "instant option"
  o_token_consumed_at :: "instant option"
  o_created_at :: instant
  o_deleted :: bool

datatype staff_action =
    Login | Login_failed | Logout | Staff_created | Staff_updated | Staff_role_changed
  | Staff_password_reset | Staff_deactivated | Staff_photo_presigned | Staff_photo_confirmed
  | Staff_photo_deleted

datatype floor_action =
    Break_started | Break_ended | Room_claimed | Room_released | Room_handed_over | Room_deleted
  | Ticket_dispatched | Ticket_called | Ticket_skipped | Ticket_removed
  | Shift_override_set | Shift_override_cleared
  | Sos_was_raised | Sos_was_accepted | Sos_was_resolved | Sos_was_cancelled

datatype atelier_action =
    Customer_renamed | Alteration_created | Alteration_updated | Alteration_assigned
  | Stage_advanced | Stage_undone | Alteration_deleted | Capacity_set

datatype shift_action =
    Template_created | Template_updated | Template_deleted | Templates_seeded
  | Availability_submitted | Roster_assigned | Roster_unassigned | Roster_published
  | Scheduling_settings_updated

datatype catalog_action =
    Dress_created | Dress_updated | Dress_archived | Dress_restored | Dress_variants_replaced
  | Dress_media_presigned | Dress_media_confirmed | Dress_media_deleted | Dress_media_reordered
  | Dress_reservation_created | Dress_reservation_deleted

text \<open>The eight classes of rows the retention policies reach; the action is \<open>retention_\<close> and the class.\<close>

datatype row_class =
    Otp_codes | Staff_sessions | Queue_tickets | Waitlist_entries | Message_log | Old_bookings
  | Orphan_customers | Left_staff

datatype privacy_action =
    Subject_exported | Subject_erased | Marketing_withdrawn | Retention row_class

datatype settings_action =
    Atelier_settings_updated | Toggles_updated | Scheduling_settings_updated

datatype audit_action =
    Booking_confirmed | Booking_cancelled | Booking_no_show | Booking_completed
  | Booking_rescheduled | Booking_phone_corrected | Booking_link_resent
  | Booking_checked_in | Booking_check_in_undone | Booking_walk_in_created
  | Gateway_webhook_rejected | Gateway_amount_mismatch | Gateway_payment_declined
  | Gateway_duplicate_transaction | Gateway_late_settlement | Gateway_webhook_unmatched
  | Gateway_unavailable_at_checkout | Deposit_hold_expired | Deposit_late_honoured
  | Deposit_late_unresolved | Waitlist_entry_cancelled
  | Staff_action staff_action | Floor_action floor_action | Atelier_action atelier_action
  | Shift_action shift_action | Catalog_action catalog_action | Privacy_action privacy_action
  | Customer_updated | Settings_action settings_action

record audit =
  au_tenant :: uuid
  au_action :: audit_action
  au_subject :: "uuid option"

section \<open>The database\<close>

record db =
  d_now :: instant
  d_next :: uuid
  d_bookings :: "booking list"
  d_payments :: "payment list"
  d_messages :: "message list"
  d_entries :: "entry list"
  d_customers :: "customer list"
  d_types :: "appointment_type list"
  d_terms :: "terms_version list"
  d_dresses :: "dress list"
  d_variants :: "dress_variant list"
  d_reservations :: "dress_reservation list"
  d_rules :: "availability_rule list"
  d_exceptions :: "availability_exception list"
  d_otps :: "otp_code list"
  d_audit :: "audit list"

definition empty_db :: db where
  "empty_db =
     \<lparr>d_now = 0, d_next = 100, d_bookings = [], d_payments = [], d_messages = [], d_entries = [],
      d_customers = [], d_types = [], d_terms = [], d_dresses = [], d_variants = [],
      d_reservations = [], d_rules = [], d_exceptions = [], d_otps = [], d_audit = []\<rparr>"

definition ids_below :: "uuid \<Rightarrow> uuid list \<Rightarrow> bool" where
  "ids_below n ids \<longleftrightarrow> list_all (\<lambda>i. i < n) ids"

text \<open>What the database holds at every commit: the constraints, and that an identifier in use, or
  referred to by a message, is one that was handed out.\<close>

definition subjects_below :: "uuid \<Rightarrow> message list \<Rightarrow> bool" where
  "subjects_below n rows \<longleftrightarrow>
     list_all (\<lambda>m. (case m_booking m of None \<Rightarrow> True | Some i \<Rightarrow> i < n)
                 \<and> (case m_entry m of None \<Rightarrow> True | Some i \<Rightarrow> i < n)) rows"

definition db_ok :: "db \<Rightarrow> bool" where
  "db_ok s \<longleftrightarrow>
     bookings_ok (d_bookings s) \<and> payments_ok (d_payments s) \<and> messages_ok (d_messages s)
     \<and> entries_ok (d_entries s) \<and> customers_ok (d_customers s)
     \<and> ids_below (d_next s) (map b_id (d_bookings s)) \<and> ids_below (d_next s) (map p_id (d_payments s))
     \<and> ids_below (d_next s) (map m_id (d_messages s)) \<and> ids_below (d_next s) (map w_id (d_entries s))
     \<and> ids_below (d_next s) (map c_id (d_customers s)) \<and> subjects_below (d_next s) (d_messages s)"

section \<open>The two statements\<close>

text \<open>INSERT: the row is appended when the table with it satisfies its constraints.\<close>

definition insert_row :: "('r list \<Rightarrow> bool) \<Rightarrow> 'r \<Rightarrow> 'r list \<Rightarrow> error + 'r list" where
  "insert_row ok row rows =
     (if ok (rows @ [row]) then Inr (rows @ [row]) else Inl Integrity_error)"

text \<open>UPDATE .. SET f WHERE P RETURNING id: the new rows and whether any matched.\<close>

definition update_rows ::
  "('r list \<Rightarrow> bool) \<Rightarrow> ('r \<Rightarrow> bool) \<Rightarrow> ('r \<Rightarrow> 'r) \<Rightarrow> 'r list \<Rightarrow> error + 'r list \<times> bool" where
  "update_rows ok P f rows =
     (let rows' = update_where P f rows in
      if \<not> list_ex P rows then Inr (rows, False)
      else if ok rows' then Inr (rows', True) else Inl Integrity_error)"

text \<open>\<open>scalar_one_or_none\<close>: two rows are an error.\<close>

definition one_or_none :: "('r \<Rightarrow> bool) \<Rightarrow> 'r list \<Rightarrow> error + 'r option" where
  "one_or_none P rows =
     (case filter P rows of [] \<Rightarrow> Inr None | [r] \<Rightarrow> Inr (Some r) | _ \<Rightarrow> Inl Multiple_results)"

definition record_audit :: "uuid \<Rightarrow> audit_action \<Rightarrow> uuid option \<Rightarrow> db \<Rightarrow> db" where
  "record_audit tn act subj s =
     s\<lparr>d_audit := d_audit s @ [\<lparr>au_tenant = tn, au_action = act, au_subject = subj\<rparr>]\<rparr>"

section \<open>Lemmas\<close>

lemma insert_row_Inr [simp]:
  "insert_row ok row rows = Inr rows' \<longleftrightarrow> ok (rows @ [row]) \<and> rows' = rows @ [row]"
  by (auto simp: insert_row_def)

lemma insert_row_Inl [simp]:
  "insert_row ok row rows = Inl e \<longleftrightarrow> \<not> ok (rows @ [row]) \<and> e = Integrity_error"
  by (auto simp: insert_row_def)

lemma update_rows_Inr:
  "update_rows ok P f rows = Inr (rows', hit) \<longleftrightarrow>
     rows' = update_where P f rows \<and> hit = list_ex P rows \<and> (hit \<longrightarrow> ok rows')"
  by (auto simp: update_rows_def Let_def update_where_none)

lemma update_rows_Inl:
  "update_rows ok P f rows = Inl e \<longleftrightarrow>
     list_ex P rows \<and> \<not> ok (update_where P f rows) \<and> e = Integrity_error"
  by (auto simp: update_rows_def Let_def)

lemma one_or_none_Inr:
  "one_or_none P rows = Inr r \<longleftrightarrow>
     (case r of None \<Rightarrow> filter P rows = [] | Some x \<Rightarrow> filter P rows = [x])"
  by (auto simp: one_or_none_def split: list.splits option.splits)

lemma one_or_none_SomeD: "one_or_none P rows = Inr (Some r) \<Longrightarrow> r \<in> set rows \<and> P r"
proof -
  assume "one_or_none P rows = Inr (Some r)"
  then have "r \<in> set (filter P rows)" by (simp add: one_or_none_Inr)
  then show ?thesis by simp
qed

lemma record_audit_sel [simp]:
  "d_bookings (record_audit tn a i s) = d_bookings s" "d_payments (record_audit tn a i s) = d_payments s"
  "d_messages (record_audit tn a i s) = d_messages s" "d_entries (record_audit tn a i s) = d_entries s"
  "d_customers (record_audit tn a i s) = d_customers s" "d_next (record_audit tn a i s) = d_next s"
  "d_now (record_audit tn a i s) = d_now s" "d_rules (record_audit tn a i s) = d_rules s"
  "d_exceptions (record_audit tn a i s) = d_exceptions s" "d_types (record_audit tn a i s) = d_types s"
  "d_terms (record_audit tn a i s) = d_terms s" "d_otps (record_audit tn a i s) = d_otps s"
  "d_audit (record_audit tn a i s) = d_audit s @ [\<lparr>au_tenant = tn, au_action = a, au_subject = i\<rparr>]"
  by (simp_all add: record_audit_def)

lemma db_ok_audit [simp]: "db_ok (record_audit tn a i s) \<longleftrightarrow> db_ok s"
  by (simp add: db_ok_def)

lemma ids_below_simps [simp]:
  "ids_below n []"
  "ids_below n (i # is) \<longleftrightarrow> i < n \<and> ids_below n is"
  "ids_below n (is @ js) \<longleftrightarrow> ids_below n is \<and> ids_below n js"
  by (auto simp: ids_below_def)

lemma ids_below_mono: "ids_below n is \<Longrightarrow> n \<le> m \<Longrightarrow> ids_below m is"
  by (auto simp: ids_below_def list_all_iff)

lemma subjects_below_simps [simp]:
  "subjects_below n []"
  "subjects_below n (ms @ [m]) \<longleftrightarrow> subjects_below n ms
     \<and> (case m_booking m of None \<Rightarrow> True | Some i \<Rightarrow> i < n)
     \<and> (case m_entry m of None \<Rightarrow> True | Some i \<Rightarrow> i < n)"
  by (auto simp: subjects_below_def)

lemma subjects_below_mono: "subjects_below n ms \<Longrightarrow> n \<le> k \<Longrightarrow> subjects_below k ms"
  by (fastforce simp: subjects_below_def list_all_iff split: option.splits)

lemma db_okD:
  assumes "db_ok s"
  shows "bookings_ok (d_bookings s)" "payments_ok (d_payments s)" "messages_ok (d_messages s)"
    "entries_ok (d_entries s)" "customers_ok (d_customers s)"
    "ids_below (d_next s) (map b_id (d_bookings s))" "ids_below (d_next s) (map p_id (d_payments s))"
    "ids_below (d_next s) (map m_id (d_messages s))" "ids_below (d_next s) (map w_id (d_entries s))"
    "ids_below (d_next s) (map c_id (d_customers s))" "subjects_below (d_next s) (d_messages s)"
  using assms by (simp_all add: db_ok_def)

lemma ids_below_notin: "ids_below n is \<Longrightarrow> n \<notin> set is"
  by (auto simp: ids_below_def list_all_iff)

lemma unique_on_append:
  "unique_on P key (xs @ ys) \<longleftrightarrow>
     unique_on P key xs \<and> unique_on P key ys
     \<and> (\<forall>x\<in>set xs. \<forall>y\<in>set ys. P x \<longrightarrow> P y \<longrightarrow> key x \<noteq> key y)"
  by (induction xs) (auto dest: sym)

text \<open>Replacing one row by another that holds the same place in the index, or leaves it.\<close>

lemma unique_on_replace:
  assumes "unique_on P key (pre @ r # post)" "P r' \<longrightarrow> P r \<and> key r' = key r"
  shows "unique_on P key (pre @ r' # post)"
  using assms by (auto simp: unique_on_append)

text \<open>Replacing one row by another whose place is free among the others.\<close>

lemma unique_on_move:
  assumes "unique_on P key (pre @ r # post)"
    and "P r' \<longrightarrow> (\<forall>x\<in>set (pre @ post). P x \<longrightarrow> key x \<noteq> key r')"
  shows "unique_on P key (pre @ r' # post)"
  using assms by (auto simp: unique_on_append)

section \<open>The interface of a guarded table\<close>

text \<open>What every repository relies on: rows are named by tenant and identifier among the live
  ones, identifiers are unique, and an UPDATE keeps the three columns that name a row.\<close>

locale guarded_table =
  fixes ident :: "'r \<Rightarrow> uuid"
    and owner :: "'r \<Rightarrow> uuid"
    and gone :: "'r \<Rightarrow> bool"
    and checks :: "'r list \<Rightarrow> bool"
  assumes checks_distinct: "checks rows \<Longrightarrow> distinct (map ident rows)"
begin

definition named :: "uuid \<Rightarrow> uuid \<Rightarrow> 'r \<Rightarrow> bool" where
  "named tn i r \<longleftrightarrow> owner r = tn \<and> ident r = i \<and> \<not> gone r"

definition fetch :: "uuid \<Rightarrow> uuid \<Rightarrow> 'r list \<Rightarrow> 'r option" where
  "fetch tn i rows = find (named tn i) rows"

definition keeps_name :: "('r \<Rightarrow> 'r) \<Rightarrow> bool" where
  "keeps_name f \<longleftrightarrow> (\<forall>r. ident (f r) = ident r \<and> owner (f r) = owner r \<and> gone (f r) = gone r)"

lemma fetch_SomeD:
  "fetch tn i rows = Some r \<Longrightarrow> r \<in> set rows \<and> owner r = tn \<and> ident r = i \<and> \<not> gone r"
  unfolding fetch_def by (auto simp: named_def dest: find_SomeD)

lemma same_row:
  assumes "checks rows" "r \<in> set rows" "r' \<in> set rows" "ident r = ident r'"
  shows "r = r'"
  using assms(2-4) checks_distinct [OF assms(1)] by (auto simp: distinct_map dest: inj_onD)

lemma fetch_mem:
  assumes "checks rows" "r \<in> set rows" "\<not> gone r"
  shows "fetch (owner r) (ident r) rows = Some r"
proof (cases "fetch (owner r) (ident r) rows")
  case None
  with assms show ?thesis by (auto simp: fetch_def find_None_iff named_def)
next
  case (Some r')
  with same_row [OF assms(1,2), of r'] show ?thesis by (auto dest: fetch_SomeD)
qed

lemma fetch_update:
  assumes "keeps_name f"
  shows "fetch tn i (update_where P f rows) =
     map_option (\<lambda>r. if P r then f r else r) (fetch tn i rows)"
  unfolding fetch_def using assms
  by (intro find_update_where_stable) (simp add: keeps_name_def named_def)

lemma fetch_append:
  "fetch tn i (rows @ [r]) =
     (case fetch tn i rows of None \<Rightarrow> if named tn i r then Some r else None | Some x \<Rightarrow> Some x)"
  by (auto simp: fetch_def find_append split: option.split)

lemma guard_hit:
  assumes "checks rows"
  shows "list_ex (\<lambda>r. named tn i r \<and> g r) rows \<longleftrightarrow> (\<exists>r. fetch tn i rows = Some r \<and> g r)"
proof
  assume "list_ex (\<lambda>r. named tn i r \<and> g r) rows"
  then obtain r where "r \<in> set rows" "named tn i r" "g r" by (auto simp: list_ex_iff)
  with fetch_mem [OF assms, of r] show "\<exists>r. fetch tn i rows = Some r \<and> g r"
    by (auto simp: named_def)
qed (auto simp: list_ex_iff named_def dest: fetch_SomeD)

text \<open>A guarded UPDATE rewrites exactly one row.\<close>

lemma only_row:
  assumes "checks rows" "fetch tn i rows = Some r" "g r"
  shows "update_where (\<lambda>x. named tn i x \<and> g x) f rows = update_where (named tn i) f rows"
  unfolding update_where_def
proof (rule map_cong [OF refl])
  fix x assume x: "x \<in> set rows"
  have "g x" if "named tn i x"
  proof -
    have "fetch tn i rows = Some x"
      using fetch_mem [OF assms(1) x] that by (auto simp: named_def)
    with assms(2,3) show ?thesis by simp
  qed
  then show "(if named tn i x \<and> g x then f x else x) = (if named tn i x then f x else x)" by auto
qed

lemma one_row_all:
  assumes "checks rows" "fetch tn i rows = Some r"
  obtains pre post where "rows = pre @ r # post"
    "\<And>f. update_where (named tn i) f rows = pre @ f r # post"
    "\<forall>x\<in>set (pre @ post). ident x \<noteq> i"
proof -
  from assms(2) have r: "r \<in> set rows" "named tn i r" "ident r = i"
    by (auto dest: fetch_SomeD simp: named_def)
  then obtain pre post where rows: "rows = pre @ r # post" by (meson split_list)
  with checks_distinct [OF assms(1)] r(3) have others: "\<forall>x\<in>set (pre @ post). ident x \<noteq> i"
    by (auto simp: image_iff)
  have keep: "update_where (named tn i) f xs = xs" if "\<forall>x\<in>set xs. ident x \<noteq> i" for f xs
    using that by (intro update_where_none) (auto simp: list_ex_iff named_def)
  have "update_where (named tn i) f rows = pre @ f r # post" for f
  proof -
    have "update_where (named tn i) f (pre @ r # post) =
        update_where (named tn i) f pre @ f r # update_where (named tn i) f post"
      using r by (simp add: update_where_def)
    with keep [of pre f] keep [of post f] others show ?thesis by (simp add: rows)
  qed
  from that [OF rows this others] show ?thesis .
qed

lemma one_row:
  assumes "checks rows" "fetch tn i rows = Some r"
  obtains pre post where "rows = pre @ r # post"
    "update_where (named tn i) f rows = pre @ f r # post"
    "\<forall>x\<in>set (pre @ post). ident x \<noteq> i"
  by (rule one_row_all [OF assms]) (rule that)

lemma run_update:
  assumes "checks rows"
  shows "update_rows checks (\<lambda>r. named tn i r \<and> g r) f rows =
    (case fetch tn i rows of
       None \<Rightarrow> Inr (rows, False)
     | Some r \<Rightarrow>
         if \<not> g r then Inr (rows, False)
         else if checks (update_where (named tn i) f rows)
         then Inr (update_where (named tn i) f rows, True) else Inl Integrity_error)"
proof (cases "fetch tn i rows")
  case None
  with guard_hit [OF assms, of tn i g] show ?thesis by (simp add: update_rows_def)
next
  case (Some r)
  then show ?thesis
    using guard_hit [OF assms, of tn i g] only_row [where g = g and f = f, OF assms Some]
    by (cases "g r") (simp_all add: update_rows_def Let_def)
qed

text \<open>Reading a row back after a write to one row.\<close>

lemma fetch_write:
  assumes "keeps_name f"
  shows "fetch tn' i' (update_where (named tn i) f rows) =
    (if tn' = tn \<and> i' = i then map_option f (fetch tn i rows) else fetch tn' i' rows)"
proof (cases "fetch tn' i' rows")
  case None
  with fetch_update [OF assms, of tn' i' "named tn i" rows] show ?thesis by auto
next
  case (Some r)
  then have "named tn i r \<longleftrightarrow> tn' = tn \<and> i' = i" by (auto simp: named_def dest: fetch_SomeD)
  with fetch_update [OF assms, of tn' i' "named tn i" rows] Some show ?thesis by auto
qed

end

end
