(* ===== verification/Bookings_Repo.thy ===== *)
theory Bookings_Repo
  imports Store
begin

text \<open>
  \<open>BookingsRepository\<close>, \<open>app/db/repositories/bookings.py\<close>: one definition per method. A guarded
  UPDATE answers the refreshed row, or \<open>None\<close> when its predicate matched nothing; the argument a
  Python call leaves out is \<open>None\<close>.

  The lemmas say what each statement does to the row it names and to every other row, which of
  them can violate an index (only those that move a row back into it, \<open>rebind\<close>, or move it along
  it, \<open>reschedule\<close> and \<open>set_customer_id\<close>), and what the occupancy reads answer afterwards.
\<close>

section \<open>Reads\<close>

definition names_booking :: "uuid \<Rightarrow> uuid \<Rightarrow> booking \<Rightarrow> bool" where
  "names_booking tn bid b \<longleftrightarrow> b_tenant b = tn \<and> b_id b = bid \<and> \<not> b_deleted b"

definition booking_by_id :: "uuid \<Rightarrow> uuid \<Rightarrow> db \<Rightarrow> booking option" where
  "booking_by_id tn bid s = find (names_booking tn bid) (d_bookings s)"

definition active_at :: "uuid \<Rightarrow> uuid \<Rightarrow> instant \<Rightarrow> db \<Rightarrow> booking option" where
  "active_at tn cid at s =
     find (\<lambda>b. b_tenant b = tn \<and> b_customer b = cid \<and> b_starts_at b = at
             \<and> b_status b \<noteq> Cancelled \<and> \<not> b_deleted b) (d_bookings s)"

definition seated_at :: "uuid \<Rightarrow> instant \<Rightarrow> booking \<Rightarrow> bool" where
  "seated_at tn at b \<longleftrightarrow>
     b_tenant b = tn \<and> b_starts_at b = at \<and> b_status b \<noteq> Cancelled \<and> \<not> b_deleted b"

definition active_seats_at :: "uuid \<Rightarrow> instant \<Rightarrow> db \<Rightarrow> int list" where
  "active_seats_at tn at s = map b_seat (filter (seated_at tn at) (d_bookings s))"

definition by_manage_token_hash :: "uuid \<Rightarrow> utext \<Rightarrow> db \<Rightarrow> error + booking option" where
  "by_manage_token_hash tn h s =
     one_or_none (\<lambda>b. b_tenant b = tn \<and> b_token_hash b = Some h \<and> \<not> b_deleted b) (d_bookings s)"

definition in_window :: "uuid \<Rightarrow> instant \<Rightarrow> instant \<Rightarrow> booking \<Rightarrow> bool" where
  "in_window tn from_i until_i b \<longleftrightarrow>
     b_tenant b = tn \<and> from_i \<le> b_starts_at b \<and> b_starts_at b < until_i \<and> \<not> b_deleted b"

text \<open>The dict of GROUP BY starts_at, read with \<open>.get(instant, 0)\<close>.\<close>

definition count_by_start :: "uuid \<Rightarrow> instant \<Rightarrow> instant \<Rightarrow> db \<Rightarrow> instant \<Rightarrow> int" where
  "count_by_start tn from_i until_i s at =
     int (length (filter (\<lambda>b. in_window tn from_i until_i b \<and> b_status b \<noteq> Cancelled
                            \<and> b_starts_at b = at) (d_bookings s)))"

definition list_day :: "uuid \<Rightarrow> instant \<Rightarrow> instant \<Rightarrow> nat \<Rightarrow> nat \<Rightarrow> db \<Rightarrow> booking list \<times> nat" where
  "list_day tn from_i until_i off lim s =
     (let rows = filter (in_window tn from_i until_i) (d_bookings s) in
      (take lim (drop off (sort_key (\<lambda>b. (b_starts_at b, b_seat b)) rows)), length rows))"

definition list_live_for_customer :: "uuid \<Rightarrow> uuid \<Rightarrow> instant \<Rightarrow> db \<Rightarrow> booking list" where
  "list_live_for_customer tn cid aft s =
     sort_key b_starts_at
       (filter (\<lambda>b. b_tenant b = tn \<and> b_customer b = cid \<and> b_status b = Confirmed
                  \<and> b_starts_at b > aft \<and> \<not> b_deleted b) (d_bookings s))"

definition list_confirmed_without_manage_token :: "uuid \<Rightarrow> instant \<Rightarrow> nat \<Rightarrow> db \<Rightarrow> booking list" where
  "list_confirmed_without_manage_token tn aft lim s =
     take lim (sort_key b_starts_at
       (filter (\<lambda>b. b_tenant b = tn \<and> b_status b = Confirmed \<and> b_source b = Storefront
                  \<and> b_starts_at b > aft \<and> b_token_hash b = None \<and> \<not> b_deleted b) (d_bookings s)))"

definition list_checked_in_between :: "uuid \<Rightarrow> instant \<Rightarrow> instant \<Rightarrow> nat \<Rightarrow> db \<Rightarrow> booking list" where
  "list_checked_in_between tn from_i until_i lim s =
     take lim (sort_key (\<lambda>b. (b_starts_at b, b_seat b, b_id b))
       (filter (\<lambda>b. in_window tn from_i until_i b \<and> b_checked_in_at b \<noteq> None
                  \<and> b_status b \<noteq> Cancelled) (d_bookings s)))"

section \<open>Inserts\<close>

definition put_booking :: "booking \<Rightarrow> db \<Rightarrow> error + db \<times> booking" where
  "put_booking row s =
     andthen (insert_row bookings_ok row (d_bookings s))
       (\<lambda>rows. Inr (s\<lparr>d_bookings := rows, d_next := d_next s + 1\<rparr>, row))"

definition insert_booking ::
  "uuid \<Rightarrow> uuid \<Rightarrow> uuid \<Rightarrow> instant \<Rightarrow> int \<Rightarrow> int \<Rightarrow> instant \<Rightarrow> utext \<Rightarrow> booking_status
   \<Rightarrow> uuid option \<Rightarrow> utext option \<Rightarrow> utext option \<Rightarrow> utext option \<Rightarrow> utext option
   \<Rightarrow> db \<Rightarrow> error + db \<times> booking" where
  "insert_booking tn cid tid at seat terms terms_at type_name status dress dname dsize notes h s =
     put_booking
       \<lparr>b_id = d_next s, b_tenant = tn, b_customer = cid, b_type = tid, b_starts_at = at,
        b_seat = seat, b_status = status, b_attendance_at = None, b_checked_in_at = None,
        b_source = Storefront, b_terms_version = Some terms, b_terms_at = Some terms_at,
        b_type_name = type_name, b_dress = dress, b_dress_name = dname, b_dress_size = dsize,
        b_notes = notes, b_token_hash = h, b_cancelled_at = None, b_cancelled_by = None,
        b_created_at = d_now s, b_deleted = False\<rparr> s"

definition WALK_IN_SEAT_INDEX :: int where "WALK_IN_SEAT_INDEX = 1"

definition insert_walk_in ::
  "uuid \<Rightarrow> uuid \<Rightarrow> uuid \<Rightarrow> utext \<Rightarrow> instant \<Rightarrow> db \<Rightarrow> error + db \<times> booking" where
  "insert_walk_in tn cid tid type_name at s =
     put_booking
       \<lparr>b_id = d_next s, b_tenant = tn, b_customer = cid, b_type = tid, b_starts_at = at,
        b_seat = WALK_IN_SEAT_INDEX, b_status = Confirmed, b_attendance_at = None,
        b_checked_in_at = Some at, b_source = Walk_in, b_terms_version = None, b_terms_at = None,
        b_type_name = type_name, b_dress = None, b_dress_name = None, b_dress_size = None,
        b_notes = None, b_token_hash = None, b_cancelled_at = None, b_cancelled_by = None,
        b_created_at = d_now s, b_deleted = False\<rparr> s"

section \<open>Guarded updates\<close>

definition update_booking ::
  "uuid \<Rightarrow> uuid \<Rightarrow> (booking \<Rightarrow> bool) \<Rightarrow> (booking \<Rightarrow> booking) \<Rightarrow> db
   \<Rightarrow> error + db \<times> booking option" where
  "update_booking tn bid guard f s =
     andthen (update_rows bookings_ok (\<lambda>b. names_booking tn bid b \<and> guard b) f (d_bookings s))
       (\<lambda>(rows, hit).
          let s' = s\<lparr>d_bookings := rows\<rparr> in
          Inr (s', if hit then booking_by_id tn bid s' else None))"

text \<open>The optional clauses: a predicate appended only when the argument is given.\<close>

definition when_given :: "'a option \<Rightarrow> ('a \<Rightarrow> bool) \<Rightarrow> bool" where
  "when_given arg clause = (case arg of None \<Rightarrow> True | Some x \<Rightarrow> clause x)"

definition set_manage_token_hash ::
  "uuid \<Rightarrow> uuid \<Rightarrow> utext \<Rightarrow> booking_status list option \<Rightarrow> instant option \<Rightarrow> db
   \<Rightarrow> error + db \<times> booking option" where
  "set_manage_token_hash tn bid h allowed_from not_before =
     update_booking tn bid
       (\<lambda>b. when_given allowed_from (\<lambda>st. b_status b \<in> set st)
          \<and> when_given not_before (\<lambda>t. b_starts_at b > t))
       (\<lambda>b. b\<lparr>b_token_hash := Some h\<rparr>)"

definition set_customer_id ::
  "uuid \<Rightarrow> uuid \<Rightarrow> uuid \<Rightarrow> booking_status list \<Rightarrow> instant \<Rightarrow> db
   \<Rightarrow> error + db \<times> booking option" where
  "set_customer_id tn bid cid allowed_from not_before =
     update_booking tn bid (\<lambda>b. b_status b \<in> set allowed_from \<and> b_starts_at b > not_before)
       (\<lambda>b. b\<lparr>b_customer := cid\<rparr>)"

definition confirm_attendance :: "uuid \<Rightarrow> uuid \<Rightarrow> instant \<Rightarrow> db \<Rightarrow> error + db \<times> booking option" where
  "confirm_attendance tn bid at s =
     andthen (update_booking tn bid (\<lambda>b. b_attendance_at b = None \<and> b_status b = Confirmed)
         (\<lambda>b. b\<lparr>b_attendance_at := Some at\<rparr>) s)
       (\<lambda>(s', _). Inr (s', booking_by_id tn bid s'))"

datatype check_in_outcome = Wrote | Already_checked_in | Not_confirmed | Missing

definition check_in ::
  "uuid \<Rightarrow> uuid \<Rightarrow> instant \<Rightarrow> db \<Rightarrow> error + db \<times> check_in_outcome \<times> booking option" where
  "check_in tn bid at s =
     andthen (update_booking tn bid (\<lambda>b. b_checked_in_at b = None \<and> b_status b = Confirmed)
         (\<lambda>b. b\<lparr>b_checked_in_at := Some at\<rparr>) s)
       (\<lambda>(s', wrote).
          let refreshed = booking_by_id tn bid s' in
          Inr (s',
            if wrote \<noteq> None then (Wrote, refreshed)
            else case refreshed of
                   None \<Rightarrow> (Missing, None)
                 | Some b \<Rightarrow>
                     if b_checked_in_at b \<noteq> None then (Already_checked_in, refreshed)
                     else (Not_confirmed, refreshed)))"

definition undo_check_in ::
  "uuid \<Rightarrow> uuid \<Rightarrow> db \<Rightarrow> error + db \<times> check_in_outcome \<times> booking option" where
  "undo_check_in tn bid s =
     andthen (update_booking tn bid (\<lambda>b. b_checked_in_at b \<noteq> None)
         (\<lambda>b. b\<lparr>b_checked_in_at := None\<rparr>) s)
       (\<lambda>(s', wrote).
          let refreshed = booking_by_id tn bid s' in
          Inr (s',
            if wrote \<noteq> None then (Wrote, refreshed)
            else if refreshed = None then (Missing, None) else (Already_checked_in, refreshed)))"

definition set_status ::
  "uuid \<Rightarrow> uuid \<Rightarrow> booking_status \<Rightarrow> booking_status list \<Rightarrow> instant option \<Rightarrow> instant option \<Rightarrow> db
   \<Rightarrow> error + db \<times> booking option" where
  "set_status tn bid to allowed_from not_before not_after =
     update_booking tn bid
       (\<lambda>b. b_status b \<in> set allowed_from \<and> when_given not_before (\<lambda>t. b_starts_at b > t)
          \<and> when_given not_after (\<lambda>t. b_starts_at b \<le> t))
       (\<lambda>b. b\<lparr>b_status := to\<rparr>)"

definition cancel_booking ::
  "uuid \<Rightarrow> uuid \<Rightarrow> instant \<Rightarrow> cancelled_by \<Rightarrow> booking_status list \<Rightarrow> instant option \<Rightarrow> db
   \<Rightarrow> error + db \<times> booking option" where
  "cancel_booking tn bid at by_whom allowed_from not_before =
     update_booking tn bid
       (\<lambda>b. b_status b \<in> set allowed_from \<and> when_given not_before (\<lambda>t. b_starts_at b > t))
       (\<lambda>b. b\<lparr>b_status := Cancelled, b_cancelled_at := Some at, b_cancelled_by := Some by_whom\<rparr>)"

definition rebind ::
  "uuid \<Rightarrow> uuid \<Rightarrow> int \<Rightarrow> booking_status list \<Rightarrow> instant \<Rightarrow> db
   \<Rightarrow> error + db \<times> booking option" where
  "rebind tn bid seat allowed_from not_before =
     update_booking tn bid (\<lambda>b. b_status b \<in> set allowed_from \<and> b_starts_at b > not_before)
       (\<lambda>b. b\<lparr>b_status := Confirmed, b_seat := seat, b_cancelled_at := None, b_cancelled_by := None\<rparr>)"

definition reschedule ::
  "uuid \<Rightarrow> uuid \<Rightarrow> instant \<Rightarrow> int \<Rightarrow> instant \<Rightarrow> db \<Rightarrow> error + db \<times> booking option" where
  "reschedule tn bid at seat not_before =
     update_booking tn bid (\<lambda>b. b_status b = Confirmed \<and> b_starts_at b > not_before)
       (\<lambda>b. b\<lparr>b_starts_at := at, b_seat := seat\<rparr>)"

section \<open>The repository is a guarded table\<close>

interpretation bk: guarded_table b_id b_tenant b_deleted bookings_ok
  by unfold_locales (simp add: bookings_ok_def)

lemma names_booking_named: "names_booking = bk.named"
  by (auto simp: names_booking_def bk.named_def fun_eq_iff)

lemma booking_by_id_fetch: "booking_by_id tn i s = bk.fetch tn i (d_bookings s)"
  by (simp add: booking_by_id_def bk.fetch_def names_booking_named)

lemma booking_by_id_SomeD:
  "booking_by_id tn i s = Some b \<Longrightarrow>
   b \<in> set (d_bookings s) \<and> b_tenant b = tn \<and> b_id b = i \<and> \<not> b_deleted b"
  by (auto simp: booking_by_id_fetch dest: bk.fetch_SomeD)

text \<open>The state after a write to one booking.\<close>

definition write_booking :: "uuid \<Rightarrow> uuid \<Rightarrow> (booking \<Rightarrow> booking) \<Rightarrow> db \<Rightarrow> db" where
  "write_booking tn bid f s = s\<lparr>d_bookings := update_where (names_booking tn bid) f (d_bookings s)\<rparr>"

lemma write_booking_sel [simp]:
  "d_bookings (write_booking tn bid f s) = update_where (names_booking tn bid) f (d_bookings s)"
  "d_next (write_booking tn bid f s) = d_next s" "d_now (write_booking tn bid f s) = d_now s"
  "d_payments (write_booking tn bid f s) = d_payments s"
  "d_messages (write_booking tn bid f s) = d_messages s"
  "d_entries (write_booking tn bid f s) = d_entries s"
  "d_customers (write_booking tn bid f s) = d_customers s"
  "d_types (write_booking tn bid f s) = d_types s" "d_terms (write_booking tn bid f s) = d_terms s"
  "d_rules (write_booking tn bid f s) = d_rules s"
  "d_exceptions (write_booking tn bid f s) = d_exceptions s"
  "d_audit (write_booking tn bid f s) = d_audit s"
  by (simp_all add: write_booking_def)

text \<open>A change that leaves the row's place in the indexes, or takes it out of them.\<close>

definition holds_place :: "(booking \<Rightarrow> bool) \<Rightarrow> (booking \<Rightarrow> booking) \<Rightarrow> bool" where
  "holds_place g f \<longleftrightarrow> (\<forall>b. g b \<longrightarrow>
     (booking_row_ok b \<longrightarrow> booking_row_ok (f b))
     \<and> (occupies (f b) \<longrightarrow> occupies b \<and> seat_key (f b) = seat_key b \<and> visit_key (f b) = visit_key b))"

lemma bookings_ok_replace:
  assumes "bookings_ok (pre @ b # post)" "b_id b' = b_id b" "booking_row_ok b \<longrightarrow> booking_row_ok b'"
    and "occupies b' \<longrightarrow> occupies b \<and> seat_key b' = seat_key b \<and> visit_key b' = visit_key b"
  shows "bookings_ok (pre @ b' # post)"
  using assms by (auto simp: bookings_ok_def intro: unique_on_replace)

lemma bookings_ok_move:
  assumes "bookings_ok (pre @ b # post)" "b_id b' = b_id b" "booking_row_ok b'"
    and "occupies b' \<longrightarrow> (\<forall>x\<in>set (pre @ post). occupies x \<longrightarrow>
           seat_key x \<noteq> seat_key b' \<and> visit_key x \<noteq> visit_key b')"
  shows "bookings_ok (pre @ b' # post)"
  using assms unfolding bookings_ok_def by (auto intro!: unique_on_move [of _ _ pre b post])

lemma bookings_ok_write:
  assumes ok: "bookings_ok (d_bookings s)" and b: "booking_by_id tn bid s = Some b"
    and f: "bk.keeps_name f" and g: "g b" and place: "holds_place g f"
  shows "bookings_ok (update_where (names_booking tn bid) f (d_bookings s))"
proof -
  obtain pre post where rows: "d_bookings s = pre @ b # post"
    and w: "update_where (bk.named tn bid) f (d_bookings s) = pre @ f b # post"
    using bk.one_row [OF ok b [unfolded booking_by_id_fetch]] by blast
  have "bookings_ok (pre @ f b # post)"
  proof (rule bookings_ok_replace)
    show "bookings_ok (pre @ b # post)" using ok by (simp add: rows)
    show "b_id (f b) = b_id b" using f unfolding bk.keeps_name_def by blast
    show "booking_row_ok b \<longrightarrow> booking_row_ok (f b)" using place g unfolding holds_place_def by blast
    show "occupies (f b) \<longrightarrow> occupies b \<and> seat_key (f b) = seat_key b \<and> visit_key (f b) = visit_key b"
      using place g unfolding holds_place_def by blast
  qed
  with w show ?thesis by (simp add: names_booking_named)
qed

lemma booking_by_id_write:
  assumes "bk.keeps_name f"
  shows "booking_by_id tn' bid' (write_booking tn bid f s) =
    (if tn' = tn \<and> bid' = bid then map_option f (booking_by_id tn bid s)
     else booking_by_id tn' bid' s)"
  using bk.fetch_write [OF assms] by (simp add: booking_by_id_fetch names_booking_named)

lemma update_booking_run:
  assumes "bookings_ok (d_bookings s)" "bk.keeps_name f"
  shows "update_booking tn bid g f s =
    (case booking_by_id tn bid s of
       None \<Rightarrow> Inr (s, None)
     | Some b \<Rightarrow>
         if \<not> g b then Inr (s, None)
         else if bookings_ok (d_bookings (write_booking tn bid f s))
         then Inr (write_booking tn bid f s, Some (f b)) else Inl Integrity_error)"
proof -
  have r: "booking_by_id tn bid (write_booking tn bid f s) = map_option f (booking_by_id tn bid s)"
    by (simp add: booking_by_id_write [OF assms(2)])
  show ?thesis
    using bk.run_update [OF assms(1), of tn bid g f] r
    by (auto simp: update_booking_def names_booking_named write_booking_def Let_def
        booking_by_id_fetch split: option.split)
qed

text \<open>A guarded UPDATE that holds its place never raises.\<close>

lemma update_booking_holds:
  assumes "bookings_ok (d_bookings s)" "bk.keeps_name f" "holds_place g f"
  shows "update_booking tn bid g f s =
    (case booking_by_id tn bid s of
       None \<Rightarrow> Inr (s, None)
     | Some b \<Rightarrow> if g b then Inr (write_booking tn bid f s, Some (f b)) else Inr (s, None))"
  using bookings_ok_write [OF assms(1) _ assms(2) _ assms(3)]
  by (auto simp: update_booking_run [OF assms(1,2)] split: option.splits)

text \<open>A write to a live row of its guard leaves every constraint in place.\<close>

lemma update_booking_ok:
  assumes "update_booking tn bid g f s = Inr (s', r)" "bookings_ok (d_bookings s)"
  shows "bookings_ok (d_bookings s')"
  using assms by (auto simp: update_booking_def handler_simps update_rows_Inr Let_def
      update_where_none split: prod.splits if_splits)

section \<open>What each statement does\<close>

text \<open>\<open>op_runs\<close> collects the normal form of every guarded UPDATE: nothing when the row is missing
  or the guard fails, otherwise one rewritten row, handed back.\<close>

named_theorems op_runs "normal forms of the guarded updates"

lemma keeps_name_upd [simp]:
  "bk.keeps_name (\<lambda>b. b\<lparr>b_token_hash := x1\<rparr>)" "bk.keeps_name (\<lambda>b. b\<lparr>b_customer := x2\<rparr>)"
  "bk.keeps_name (\<lambda>b. b\<lparr>b_attendance_at := x3\<rparr>)" "bk.keeps_name (\<lambda>b. b\<lparr>b_checked_in_at := x4\<rparr>)"
  "bk.keeps_name (\<lambda>b. b\<lparr>b_status := x5\<rparr>)"
  "bk.keeps_name (\<lambda>b. b\<lparr>b_status := x5, b_cancelled_at := x6, b_cancelled_by := x7\<rparr>)"
  "bk.keeps_name (\<lambda>b. b\<lparr>b_status := x5, b_seat := x8, b_cancelled_at := x6, b_cancelled_by := x7\<rparr>)"
  "bk.keeps_name (\<lambda>b. b\<lparr>b_starts_at := x9, b_seat := x8\<rparr>)"
  by (simp_all add: bk.keeps_name_def)

lemmas place_defs = holds_place_def occupies_def seat_key_def visit_key_def booking_row_ok_def

lemma set_status_run [op_runs]:
  assumes "bookings_ok (d_bookings s)" "Cancelled \<notin> set from \<or> to = Cancelled"
  shows "set_status tn bid to from nb na s =
    (case booking_by_id tn bid s of
       None \<Rightarrow> Inr (s, None)
     | Some b \<Rightarrow>
         if b_status b \<in> set from \<and> when_given nb (\<lambda>t. b_starts_at b > t)
            \<and> when_given na (\<lambda>t. b_starts_at b \<le> t)
         then Inr (write_booking tn bid (\<lambda>b. b\<lparr>b_status := to\<rparr>) s, Some (b\<lparr>b_status := to\<rparr>))
         else Inr (s, None))"
  unfolding set_status_def
  by (rule update_booking_holds [OF assms(1)]) (use assms(2) in \<open>auto simp: place_defs\<close>)

lemma cancel_booking_run [op_runs]:
  assumes "bookings_ok (d_bookings s)"
  shows "cancel_booking tn bid at w from nb s =
    (case booking_by_id tn bid s of
       None \<Rightarrow> Inr (s, None)
     | Some b \<Rightarrow>
         if b_status b \<in> set from \<and> when_given nb (\<lambda>t. b_starts_at b > t)
         then Inr (write_booking tn bid
                (\<lambda>b. b\<lparr>b_status := Cancelled, b_cancelled_at := Some at, b_cancelled_by := Some w\<rparr>) s,
              Some (b\<lparr>b_status := Cancelled, b_cancelled_at := Some at, b_cancelled_by := Some w\<rparr>))
         else Inr (s, None))"
  unfolding cancel_booking_def
  by (rule update_booking_holds [OF assms]) (auto simp: place_defs)

lemma set_manage_token_hash_run [op_runs]:
  assumes "bookings_ok (d_bookings s)"
  shows "set_manage_token_hash tn bid h from nb s =
    (case booking_by_id tn bid s of
       None \<Rightarrow> Inr (s, None)
     | Some b \<Rightarrow>
         if when_given from (\<lambda>st. b_status b \<in> set st) \<and> when_given nb (\<lambda>t. b_starts_at b > t)
         then Inr (write_booking tn bid (\<lambda>b. b\<lparr>b_token_hash := Some h\<rparr>) s,
                Some (b\<lparr>b_token_hash := Some h\<rparr>))
         else Inr (s, None))"
  unfolding set_manage_token_hash_def
  by (rule update_booking_holds [OF assms]) (auto simp: place_defs)

lemma confirm_attendance_run [op_runs]:
  assumes "bookings_ok (d_bookings s)"
  shows "confirm_attendance tn bid at s =
    (case booking_by_id tn bid s of
       None \<Rightarrow> Inr (s, None)
     | Some b \<Rightarrow>
         if b_attendance_at b = None \<and> b_status b = Confirmed
         then Inr (write_booking tn bid (\<lambda>b. b\<lparr>b_attendance_at := Some at\<rparr>) s,
                Some (b\<lparr>b_attendance_at := Some at\<rparr>))
         else Inr (s, Some b))"
  unfolding confirm_attendance_def
  by (subst update_booking_holds [OF assms])
    (auto simp: place_defs booking_by_id_write split: option.split)

lemma check_in_run [op_runs]:
  assumes "bookings_ok (d_bookings s)"
  shows "check_in tn bid at s =
    (case booking_by_id tn bid s of
       None \<Rightarrow> Inr (s, Missing, None)
     | Some b \<Rightarrow>
         if b_checked_in_at b \<noteq> None then Inr (s, Already_checked_in, Some b)
         else if b_status b \<noteq> Confirmed then Inr (s, Not_confirmed, Some b)
         else Inr (write_booking tn bid (\<lambda>b. b\<lparr>b_checked_in_at := Some at\<rparr>) s, Wrote,
                Some (b\<lparr>b_checked_in_at := Some at\<rparr>)))"
  unfolding check_in_def
  by (subst update_booking_holds [OF assms])
    (auto simp: place_defs booking_by_id_write Let_def split: option.split)

lemma undo_check_in_run [op_runs]:
  assumes "bookings_ok (d_bookings s)"
  shows "undo_check_in tn bid s =
    (case booking_by_id tn bid s of
       None \<Rightarrow> Inr (s, Missing, None)
     | Some b \<Rightarrow>
         if b_checked_in_at b = None then Inr (s, Already_checked_in, Some b)
         else Inr (write_booking tn bid (\<lambda>b. b\<lparr>b_checked_in_at := None\<rparr>) s, Wrote,
                Some (b\<lparr>b_checked_in_at := None\<rparr>)))"
  unfolding undo_check_in_def
  by (subst update_booking_holds [OF assms])
    (auto simp: place_defs booking_by_id_write Let_def split: option.split)

text \<open>The three that may lose a race to an index.\<close>

lemma rebind_run [op_runs]:
  assumes "bookings_ok (d_bookings s)"
  shows "rebind tn bid seat from nb s =
    (let f = (\<lambda>b. b\<lparr>b_status := Confirmed, b_seat := seat, b_cancelled_at := None, b_cancelled_by := None\<rparr>) in
     case booking_by_id tn bid s of
       None \<Rightarrow> Inr (s, None)
     | Some b \<Rightarrow>
         if \<not> (b_status b \<in> set from \<and> b_starts_at b > nb) then Inr (s, None)
         else if bookings_ok (d_bookings (write_booking tn bid f s))
         then Inr (write_booking tn bid f s, Some (f b)) else Inl Integrity_error)"
  unfolding rebind_def Let_def by (rule update_booking_run [OF assms]) simp

lemma reschedule_run [op_runs]:
  assumes "bookings_ok (d_bookings s)"
  shows "reschedule tn bid at seat nb s =
    (let f = (\<lambda>b. b\<lparr>b_starts_at := at, b_seat := seat\<rparr>) in
     case booking_by_id tn bid s of
       None \<Rightarrow> Inr (s, None)
     | Some b \<Rightarrow>
         if \<not> (b_status b = Confirmed \<and> b_starts_at b > nb) then Inr (s, None)
         else if bookings_ok (d_bookings (write_booking tn bid f s))
         then Inr (write_booking tn bid f s, Some (f b)) else Inl Integrity_error)"
  unfolding reschedule_def Let_def by (rule update_booking_run [OF assms]) simp

lemma set_customer_id_run [op_runs]:
  assumes "bookings_ok (d_bookings s)"
  shows "set_customer_id tn bid cid from nb s =
    (let f = (\<lambda>b. b\<lparr>b_customer := cid\<rparr>) in
     case booking_by_id tn bid s of
       None \<Rightarrow> Inr (s, None)
     | Some b \<Rightarrow>
         if \<not> (b_status b \<in> set from \<and> b_starts_at b > nb) then Inr (s, None)
         else if bookings_ok (d_bookings (write_booking tn bid f s))
         then Inr (write_booking tn bid f s, Some (f b)) else Inl Integrity_error)"
  unfolding set_customer_id_def Let_def by (rule update_booking_run [OF assms]) simp

section \<open>Occupancy\<close>

lemma active_seats_distinct:
  assumes "bookings_ok (d_bookings s)"
  shows "distinct (active_seats_at tn at s)"
proof -
  have "distinct (map b_seat (filter (seated_at tn at) rows))"
    if "unique_on occupies seat_key rows" for rows
    using that by (induction rows) (auto simp: seated_at_def occupies_def seat_key_def)
  then show ?thesis using assms by (simp add: active_seats_at_def bookings_ok_def)
qed

lemma count_by_start_active:
  assumes "from_i \<le> at" "at < until_i"
  shows "count_by_start tn from_i until_i s at = int (length (active_seats_at tn at s))"
proof -
  have "(in_window tn from_i until_i b \<and> b_status b \<noteq> Cancelled \<and> b_starts_at b = at)
      = seated_at tn at b" for b
    using assms by (auto simp: in_window_def seated_at_def)
  then show ?thesis by (simp add: count_by_start_def active_seats_at_def)
qed

lemma active_at_None:
  "active_at tn cid at s = None \<longleftrightarrow>
     (\<forall>b\<in>set (d_bookings s). occupies b \<longrightarrow> visit_key b \<noteq> (tn, cid, at))"
  by (auto simp: active_at_def find_None_iff occupies_def visit_key_def)

lemma active_at_SomeD:
  "active_at tn cid at s = Some b \<Longrightarrow>
   b \<in> set (d_bookings s) \<and> b_tenant b = tn \<and> b_customer b = cid \<and> b_starts_at b = at \<and> occupies b"
  unfolding active_at_def by (drule find_SomeD) (auto simp: occupies_def)

lemma seat_free_iff:
  "seat \<notin> set (active_seats_at tn at s) \<longleftrightarrow>
     (\<forall>b\<in>set (d_bookings s). occupies b \<longrightarrow> seat_key b \<noteq> (tn, at, seat))"
  by (auto simp: active_seats_at_def seated_at_def occupies_def seat_key_def image_iff)

lemma put_booking_free:
  assumes "bookings_ok (d_bookings s)" "ids_below (d_next s) (map b_id (d_bookings s))"
    and "b_id row = d_next s" "booking_row_ok row"
    and "b_seat row \<notin> set (active_seats_at (b_tenant row) (b_starts_at row) s)"
    and "active_at (b_tenant row) (b_customer row) (b_starts_at row) s = None"
  shows "put_booking row s =
    Inr (s\<lparr>d_bookings := d_bookings s @ [row], d_next := d_next s + 1\<rparr>, row)"
proof -
  have "bookings_ok (d_bookings s @ [row])"
    using assms ids_below_notin [OF assms(2)]
    by (auto simp: bookings_ok_def seat_free_iff active_at_None seat_key_def [of row] visit_key_def [of row])
  then show ?thesis by (simp add: put_booking_def insert_row_def)
qed

lemma active_seats_put:
  "active_seats_at tn at (s\<lparr>d_bookings := d_bookings s @ [row], d_next := n\<rparr>) =
     active_seats_at tn at s @ (if seated_at tn at row then [b_seat row] else [])"
  by (simp add: active_seats_at_def)

lemma active_seats_split:
  assumes "bookings_ok (d_bookings s)" "booking_by_id tn bid s = Some b"
  obtains xs ys where
    "\<And>t at. active_seats_at t at s =
        xs t at @ (if seated_at t at b then [b_seat b] else []) @ ys t at"
    "\<And>t at. active_seats_at t at (write_booking tn bid f s) =
        xs t at @ (if seated_at t at (f b) then [b_seat (f b)] else []) @ ys t at"
proof -
  obtain pre post where "d_bookings s = pre @ b # post"
    "update_where (bk.named tn bid) f (d_bookings s) = pre @ f b # post"
    using bk.one_row [OF assms(1) assms(2) [unfolded booking_by_id_fetch]] by blast
  then show ?thesis
    by (intro that [of "\<lambda>t at. map b_seat (filter (seated_at t at) pre)"
          "\<lambda>t at. map b_seat (filter (seated_at t at) post)"])
      (simp_all add: active_seats_at_def names_booking_named)
qed

text \<open>Cancelling gives back exactly the seat the booking held.\<close>

lemma cancel_frees:
  assumes "bookings_ok (d_bookings s)" "booking_by_id tn bid s = Some b" "\<And>b. b_status (f b) = Cancelled"
  shows "set (active_seats_at t at (write_booking tn bid f s)) =
    (if seated_at t at b then set (active_seats_at t at s) - {b_seat b}
     else set (active_seats_at t at s))"
proof -
  obtain xs ys where x: "\<And>t at. active_seats_at t at s =
        xs t at @ (if seated_at t at b then [b_seat b] else []) @ ys t at"
    and y: "\<And>t at. active_seats_at t at (write_booking tn bid f s) =
        xs t at @ (if seated_at t at (f b) then [b_seat (f b)] else []) @ ys t at"
    using active_seats_split [OF assms(1,2)] by blast
  have n: "\<not> seated_at t at (f b)" using assms(3) by (simp add: seated_at_def)
  show ?thesis
    using active_seats_distinct [OF assms(1), of t at] n unfolding y unfolding x by auto
qed

end
