(* ===== verification/Waitlist_Repo.thy ===== *)
theory Waitlist_Repo
  imports Store
begin

text \<open>
  \<open>WaitlistEntriesRepository\<close>, \<open>app/db/repositories/waitlist_entries.py\<close>: one definition per
  method. ORDER BY is a stable sort of the insertion order, LIMIT a \<open>take\<close>, and the
  \<open>NOT EXISTS\<close> over live offers of \<open>waiting_pairs\<close> is written out.
\<close>

definition EXPIRY_BATCH_SIZE :: nat where "EXPIRY_BATCH_SIZE = 200"
definition ISSUE_BATCH_SIZE :: nat where "ISSUE_BATCH_SIZE = 50"

definition names_entry :: "uuid \<Rightarrow> uuid \<Rightarrow> entry \<Rightarrow> bool" where
  "names_entry tn wid w \<longleftrightarrow> w_tenant w = tn \<and> w_id w = wid \<and> \<not> w_deleted w"

definition entry_by_id :: "uuid \<Rightarrow> uuid \<Rightarrow> db \<Rightarrow> entry option" where
  "entry_by_id tn wid s = find (names_entry tn wid) (d_entries s)"

definition insert_entry :: "uuid \<Rightarrow> date \<Rightarrow> uuid \<Rightarrow> utext \<Rightarrow> db \<Rightarrow> error + db \<times> entry" where
  "insert_entry tn day tid phone s =
     (let row = \<lparr>w_id = d_next s, w_tenant = tn, w_day = day, w_type = tid, w_phone = phone,
                 w_status = Waiting, w_offered_at = None, w_offer_expires_at = None,
                 w_offer_starts_at = None, w_token_hash = None, w_created_at = d_now s,
                 w_deleted = False\<rparr> in
      andthen (insert_row entries_ok row (d_entries s))
        (\<lambda>rows. Inr (s\<lparr>d_entries := rows, d_next := d_next s + 1\<rparr>, row)))"

definition by_active_tuple :: "uuid \<Rightarrow> utext \<Rightarrow> date \<Rightarrow> uuid \<Rightarrow> db \<Rightarrow> entry option" where
  "by_active_tuple tn phone day tid s =
     find (\<lambda>w. w_tenant w = tn \<and> w_phone w = phone \<and> w_day w = day \<and> w_type w = tid
             \<and> w_status w \<in> {Waiting, Offered} \<and> \<not> w_deleted w) (d_entries s)"

definition list_active_entries :: "uuid \<Rightarrow> date option \<Rightarrow> date option \<Rightarrow> db \<Rightarrow> entry list" where
  "list_active_entries tn day from_day s =
     sort_key (\<lambda>w. (w_day w, w_created_at w, w_id w))
       (filter (\<lambda>w. w_tenant w = tn \<and> w_status w \<in> {Waiting, Offered} \<and> \<not> w_deleted w
                  \<and> (case day of Some d \<Rightarrow> w_day w = d
                     | None \<Rightarrow> (case from_day of Some d \<Rightarrow> w_day w \<ge> d | None \<Rightarrow> True)))
         (d_entries s))"

definition update_entry ::
  "uuid \<Rightarrow> uuid \<Rightarrow> (entry \<Rightarrow> bool) \<Rightarrow> (entry \<Rightarrow> entry) \<Rightarrow> db \<Rightarrow> error + db \<times> bool" where
  "update_entry tn wid guard f s =
     andthen (update_rows entries_ok (\<lambda>w. names_entry tn wid w \<and> guard w) f (d_entries s))
       (\<lambda>(rows, hit). Inr (s\<lparr>d_entries := rows\<rparr>, hit))"

definition cancel_entry :: "uuid \<Rightarrow> uuid \<Rightarrow> db \<Rightarrow> error + db \<times> entry option" where
  "cancel_entry tn wid s =
     andthen (update_entry tn wid (\<lambda>w. w_status w \<in> {Waiting, Offered})
         (\<lambda>w. w\<lparr>w_status := Withdrawn, w_offer_expires_at := None\<rparr>) s)
       (\<lambda>(s', hit). Inr (s', if hit then entry_by_id tn wid s' else None))"

definition offer_entry ::
  "uuid \<Rightarrow> uuid \<Rightarrow> instant \<Rightarrow> instant \<Rightarrow> instant \<Rightarrow> utext \<Rightarrow> db \<Rightarrow> error + db \<times> bool" where
  "offer_entry tn wid now starts_at expires_at h =
     update_entry tn wid (\<lambda>w. w_status w = Waiting)
       (\<lambda>w. w\<lparr>w_status := Offered, w_offered_at := Some now, w_offer_starts_at := Some starts_at,
             w_offer_expires_at := Some expires_at, w_token_hash := Some h\<rparr>)"

definition due_offers :: "uuid \<Rightarrow> instant \<Rightarrow> db \<Rightarrow> entry list" where
  "due_offers tn now s =
     take EXPIRY_BATCH_SIZE (sort_key (\<lambda>w. the (w_offer_expires_at w))
       (filter (\<lambda>w. w_tenant w = tn \<and> w_status w = Offered
                  \<and> (case w_offer_expires_at w of None \<Rightarrow> False | Some t \<Rightarrow> t \<le> now)
                  \<and> \<not> w_deleted w) (d_entries s)))"

definition close_offer ::
  "uuid \<Rightarrow> uuid list \<Rightarrow> entry_status \<Rightarrow> db \<Rightarrow> error + db \<times> uuid list" where
  "close_offer tn ids status s =
     (if ids = [] then Inr (s, [])
      else
        let P = (\<lambda>w. w_tenant w = tn \<and> w_id w \<in> set ids \<and> w_status w = Offered \<and> \<not> w_deleted w);
            f = (\<lambda>w. let w' = w\<lparr>w_status := status, w_offer_expires_at := None\<rparr> in
                  if status = Waiting then w'\<lparr>w_token_hash := None, w_offer_starts_at := None\<rparr> else w') in
        andthen (update_rows entries_ok P f (d_entries s))
          (\<lambda>(rows, hit). Inr (s\<lparr>d_entries := rows\<rparr>, map w_id (filter P (d_entries s)))))"

definition by_offer_token_hash :: "utext \<Rightarrow> db \<Rightarrow> entry option" where
  "by_offer_token_hash h s = find (\<lambda>w. w_token_hash w = Some h \<and> \<not> w_deleted w) (d_entries s)"

definition claim_entry :: "uuid \<Rightarrow> uuid \<Rightarrow> instant \<Rightarrow> db \<Rightarrow> error + db \<times> bool" where
  "claim_entry tn wid now =
     update_entry tn wid
       (\<lambda>w. w_status w = Offered
          \<and> (case w_offer_expires_at w of None \<Rightarrow> False | Some t \<Rightarrow> t > now))
       (\<lambda>w. w\<lparr>w_status := Claimed\<rparr>)"

definition live_offer_for :: "uuid \<Rightarrow> date \<Rightarrow> uuid \<Rightarrow> db \<Rightarrow> bool" where
  "live_offer_for tn day tid s \<longleftrightarrow>
     list_ex (\<lambda>w. w_tenant w = tn \<and> w_day w = day \<and> w_type w = tid \<and> w_status w = Offered
                \<and> \<not> w_deleted w) (d_entries s)"

definition waiting_pairs ::
  "uuid \<Rightarrow> date \<Rightarrow> (date \<times> uuid) option \<Rightarrow> db \<Rightarrow> (date \<times> uuid) list" where
  "waiting_pairs tn from_day aft s =
     take ISSUE_BATCH_SIZE (sort (remdups (map (\<lambda>w. (w_day w, w_type w))
       (filter (\<lambda>w. w_tenant w = tn \<and> w_day w \<ge> from_day \<and> w_status w = Waiting \<and> \<not> w_deleted w
                  \<and> \<not> live_offer_for tn (w_day w) (w_type w) s
                  \<and> (case aft of None \<Rightarrow> True
                     | Some (d, t) \<Rightarrow> w_day w > d \<or> (w_day w = d \<and> w_type w > t)))
         (d_entries s)))))"

definition offered_instants :: "uuid \<Rightarrow> date \<Rightarrow> db \<Rightarrow> instant \<Rightarrow> int" where
  "offered_instants tn day s at =
     int (length (filter (\<lambda>w. w_tenant w = tn \<and> w_day w = day \<and> w_status w = Offered
                            \<and> w_offer_starts_at w = Some at \<and> \<not> w_deleted w) (d_entries s)))"

definition oldest_waiting :: "uuid \<Rightarrow> date \<Rightarrow> uuid \<Rightarrow> db \<Rightarrow> entry option" where
  "oldest_waiting tn day tid s =
     (case sort_key (\<lambda>w. (w_created_at w, w_id w))
        (filter (\<lambda>w. w_tenant w = tn \<and> w_day w = day \<and> w_type w = tid \<and> w_status w = Waiting
                   \<and> \<not> w_deleted w) (d_entries s)) of
        [] \<Rightarrow> None | w # _ \<Rightarrow> Some w)"

section \<open>The repository is a guarded table\<close>

interpretation wt: guarded_table w_id w_tenant w_deleted entries_ok
  by unfold_locales (simp add: entries_ok_def)

lemma names_entry_named: "names_entry = wt.named"
  by (auto simp: names_entry_def wt.named_def fun_eq_iff)

lemma entry_by_id_fetch: "entry_by_id tn i s = wt.fetch tn i (d_entries s)"
  by (simp add: entry_by_id_def wt.fetch_def names_entry_named)

lemma entry_by_id_SomeD:
  "entry_by_id tn i s = Some w \<Longrightarrow>
   w \<in> set (d_entries s) \<and> w_tenant w = tn \<and> w_id w = i \<and> \<not> w_deleted w"
  by (auto simp: entry_by_id_fetch dest: wt.fetch_SomeD)

lemma oldest_waiting_SomeD:
  assumes "oldest_waiting tn day tid s = Some w"
  shows "w \<in> set (d_entries s)" "w_tenant w = tn" "w_day w = day" "w_type w = tid"
    "w_status w = Waiting" "\<not> w_deleted w"
    "\<And>v. v \<in> set (d_entries s) \<Longrightarrow> w_tenant v = tn \<Longrightarrow> w_day v = day \<Longrightarrow> w_type v = tid \<Longrightarrow>
       w_status v = Waiting \<Longrightarrow> \<not> w_deleted v \<Longrightarrow>
       (w_created_at w, w_id w) \<le> (w_created_at v, w_id v)"
proof -
  let ?key = "\<lambda>w. (w_created_at w, w_id w)"
  let ?P = "\<lambda>w. w_tenant w = tn \<and> w_day w = day \<and> w_type w = tid \<and> w_status w = Waiting
                   \<and> \<not> w_deleted w"
  obtain ws where ws: "sort_key ?key (filter ?P (d_entries s)) = w # ws"
    using assms by (auto simp: oldest_waiting_def split: list.splits)
  have "w \<in> set (sort_key ?key (filter ?P (d_entries s)))" unfolding ws by simp
  then show "w \<in> set (d_entries s)" "w_tenant w = tn" "w_day w = day" "w_type w = tid"
    "w_status w = Waiting" "\<not> w_deleted w" by simp_all
  fix v assume "v \<in> set (d_entries s)" "w_tenant v = tn" "w_day v = day" "w_type v = tid"
    "w_status v = Waiting" "\<not> w_deleted v"
  then have "v \<in> set (w # ws)" by (simp flip: ws)
  moreover have "sorted (map ?key (w # ws))" unfolding ws [symmetric] by (rule sorted_sort_key)
  ultimately show "?key w \<le> ?key v" by auto
qed

text \<open>The state after a write to one entry.\<close>

definition write_entry :: "uuid \<Rightarrow> uuid \<Rightarrow> (entry \<Rightarrow> entry) \<Rightarrow> db \<Rightarrow> db" where
  "write_entry tn wid f s = s\<lparr>d_entries := update_where (names_entry tn wid) f (d_entries s)\<rparr>"

lemma write_entry_sel [simp]:
  "d_entries (write_entry tn wid f s) = update_where (names_entry tn wid) f (d_entries s)"
  "d_bookings (write_entry tn wid f s) = d_bookings s"
  "d_messages (write_entry tn wid f s) = d_messages s"
  "d_payments (write_entry tn wid f s) = d_payments s"
  "d_customers (write_entry tn wid f s) = d_customers s"
  "d_next (write_entry tn wid f s) = d_next s" "d_now (write_entry tn wid f s) = d_now s"
  by (simp_all add: write_entry_def)

lemma entry_by_id_write:
  assumes "wt.keeps_name f"
  shows "entry_by_id tn' wid' (write_entry tn wid f s) =
    (if tn' = tn \<and> wid' = wid then map_option f (entry_by_id tn wid s)
     else entry_by_id tn' wid' s)"
  using wt.fetch_write [OF assms] by (simp add: entry_by_id_fetch names_entry_named)

lemma update_entry_run:
  assumes "entries_ok (d_entries s)"
  shows "update_entry tn wid g f s =
    (case entry_by_id tn wid s of
       None \<Rightarrow> Inr (s, False)
     | Some w \<Rightarrow>
         if \<not> g w then Inr (s, False)
         else if entries_ok (d_entries (write_entry tn wid f s))
         then Inr (write_entry tn wid f s, True) else Inl Integrity_error)"
  using wt.run_update [OF assms, of tn wid g f]
  by (auto simp: update_entry_def names_entry_named write_entry_def entry_by_id_fetch
      split: option.split)

lemma entries_ok_write:
  assumes ok: "entries_ok (d_entries s)" and w: "entry_by_id tn wid s = Some w"
    and keep: "w_id (f w) = w_id w"
    and act: "active_entry (f w) \<longrightarrow> active_entry w \<and> entry_key (f w) = entry_key w"
    and tok: "w_token_hash (f w) = None \<or> (w_token_hash (f w) = w_token_hash w \<and> \<not> w_deleted w)
      \<or> (\<forall>x\<in>set (d_entries s). w_token_hash x \<noteq> w_token_hash (f w))"
  shows "entries_ok (d_entries (write_entry tn wid f s))"
proof -
  obtain pre post where rows: "d_entries s = pre @ w # post"
    and w': "update_where (wt.named tn wid) f (d_entries s) = pre @ f w # post"
    using wt.one_row [OF ok w [unfolded entry_by_id_fetch]] by blast
  from ok have o: "distinct (map w_id (pre @ w # post))" "unique_on active_entry entry_key (pre @ w # post)"
    "unique_on (\<lambda>w. \<not> w_deleted w \<and> w_token_hash w \<noteq> None) w_token_hash (pre @ w # post)"
    by (simp_all add: entries_ok_def rows)
  have "unique_on active_entry entry_key (pre @ f w # post)"
    by (rule unique_on_replace [OF o(2) act])
  moreover have "unique_on (\<lambda>w. \<not> w_deleted w \<and> w_token_hash w \<noteq> None) w_token_hash (pre @ f w # post)"
    by (rule unique_on_move [OF o(3)]) (use o(3) tok in \<open>auto simp: unique_on_append rows\<close>)
  moreover have "distinct (map w_id (pre @ f w # post))" using o(1) keep by simp
  ultimately show ?thesis using w' by (simp add: entries_ok_def names_entry_named)
qed

lemma update_entry_ok:
  assumes "update_entry tn wid g f s = Inr (s', r)" "entries_ok (d_entries s)"
  shows "entries_ok (d_entries s')"
  using assms by (auto simp: update_entry_def handler_simps update_rows_Inr update_where_none)

lemma claim_entry_run:
  assumes "entries_ok (d_entries s)"
  shows "claim_entry tn wid now s =
    (case entry_by_id tn wid s of
       None \<Rightarrow> Inr (s, False)
     | Some w \<Rightarrow>
         if w_status w = Offered
            \<and> (case w_offer_expires_at w of None \<Rightarrow> False | Some t \<Rightarrow> t > now)
         then Inr (write_entry tn wid (\<lambda>w. w\<lparr>w_status := Claimed\<rparr>) s, True)
         else Inr (s, False))"
proof (cases "entry_by_id tn wid s")
  case (Some w)
  have "entries_ok (d_entries (write_entry tn wid (\<lambda>w. w\<lparr>w_status := Claimed\<rparr>) s))"
    by (rule entries_ok_write [OF assms Some]) (use Some in \<open>auto simp: active_entry_def dest: entry_by_id_SomeD\<close>)
  with Some show ?thesis unfolding claim_entry_def by (simp add: update_entry_run [OF assms])
qed (simp add: claim_entry_def update_entry_run [OF assms])

lemma cancel_entry_run:
  assumes "entries_ok (d_entries s)"
  shows "cancel_entry tn wid s =
    (let f = (\<lambda>w. w\<lparr>w_status := Withdrawn, w_offer_expires_at := None\<rparr>) in
     case entry_by_id tn wid s of
       None \<Rightarrow> Inr (s, None)
     | Some w \<Rightarrow>
         if w_status w \<in> {Waiting, Offered} then Inr (write_entry tn wid f s, Some (f w))
         else Inr (s, None))"
proof (cases "entry_by_id tn wid s")
  case (Some w)
  let ?f = "\<lambda>w. w\<lparr>w_status := Withdrawn, w_offer_expires_at := None\<rparr>"
  have "entries_ok (d_entries (write_entry tn wid ?f s))"
    by (rule entries_ok_write [OF assms Some]) (use Some in \<open>auto simp: active_entry_def dest: entry_by_id_SomeD\<close>)
  moreover have "wt.keeps_name ?f" by (simp add: wt.keeps_name_def)
  ultimately show ?thesis using Some entry_by_id_write [of ?f tn wid tn wid s]
    unfolding cancel_entry_def by (simp add: update_entry_run [OF assms] Let_def)
qed (simp add: cancel_entry_def update_entry_run [OF assms] Let_def)

end
