(* ===== verification/Customers_Repo.thy ===== *)
theory Customers_Repo
  imports Store
begin

text \<open>
  \<open>CustomersRepository\<close> as bookings use it, and the appointment-type, terms, dress and
  availability reads of \<open>app/db/repositories\<close>. A consent is stamped with the transaction's clock
  (\<open>func.now()\<close>), once, and only an undeleted row is ever written.
\<close>

section \<open>Customers\<close>

definition names_customer :: "uuid \<Rightarrow> uuid \<Rightarrow> customer \<Rightarrow> bool" where
  "names_customer tn cid c \<longleftrightarrow> c_tenant c = tn \<and> c_id c = cid \<and> \<not> c_deleted c"

definition customer_by_id :: "uuid \<Rightarrow> uuid \<Rightarrow> db \<Rightarrow> customer option" where
  "customer_by_id tn cid s = find (names_customer tn cid) (d_customers s)"

definition customer_by_phone :: "uuid \<Rightarrow> utext \<Rightarrow> db \<Rightarrow> customer option" where
  "customer_by_phone tn phone s =
     find (\<lambda>c. c_tenant c = tn \<and> c_phone c = phone \<and> \<not> c_deleted c) (d_customers s)"

definition update_customer ::
  "uuid \<Rightarrow> uuid \<Rightarrow> (customer \<Rightarrow> bool) \<Rightarrow> (customer \<Rightarrow> customer) \<Rightarrow> db \<Rightarrow> error + db \<times> bool" where
  "update_customer tn cid guard f s =
     andthen (update_rows customers_ok (\<lambda>c. names_customer tn cid c \<and> guard c) f (d_customers s))
       (\<lambda>(rows, hit). Inr (s\<lparr>d_customers := rows\<rparr>, hit))"

definition set_phone :: "uuid \<Rightarrow> uuid \<Rightarrow> utext \<Rightarrow> db \<Rightarrow> error + db \<times> customer option" where
  "set_phone tn cid phone s =
     andthen (update_customer tn cid (\<lambda>_. True) (\<lambda>c. c\<lparr>c_phone := phone\<rparr>) s)
       (\<lambda>(s', hit). Inr (s', if hit then customer_by_id tn cid s' else None))"

definition record_marketing_consent :: "uuid \<Rightarrow> uuid \<Rightarrow> db \<Rightarrow> error + db \<times> bool" where
  "record_marketing_consent tn cid s =
     update_customer tn cid (\<lambda>c. c_consent_at c = None)
       (\<lambda>c. c\<lparr>c_consent_at := Some (d_now s)\<rparr>) s"

definition withdraw_marketing_consent :: "uuid \<Rightarrow> uuid \<Rightarrow> db \<Rightarrow> error + db \<times> bool" where
  "withdraw_marketing_consent tn cid s =
     update_customer tn cid (\<lambda>c. c_consent_at c \<noteq> None \<and> c_withdrawn_at c = None)
       (\<lambda>c. c\<lparr>c_withdrawn_at := Some (d_now s)\<rparr>) s"

definition upsert_customer :: "uuid \<Rightarrow> utext \<Rightarrow> utext \<Rightarrow> db \<Rightarrow> error + db \<times> customer" where
  "upsert_customer tn phone name s =
     (case customer_by_phone tn phone s of
        Some c \<Rightarrow>
          andthen (update_customer tn (c_id c) (\<lambda>_. True) (\<lambda>c. c\<lparr>c_name := name\<rparr>) s)
            (\<lambda>(s', _). Inr (s', c\<lparr>c_name := name\<rparr>))
      | None \<Rightarrow>
          let row = \<lparr>c_id = d_next s, c_tenant = tn, c_phone = phone, c_name = name,
                     c_consent_at = None, c_withdrawn_at = None, c_erased_at = None, c_deleted = False\<rparr> in
          andthen (insert_row customers_ok row (d_customers s))
            (\<lambda>rows. Inr (s\<lparr>d_customers := rows, d_next := d_next s + 1\<rparr>, row)))"

section \<open>Settings\<close>

definition type_by_id :: "uuid \<Rightarrow> uuid \<Rightarrow> db \<Rightarrow> appointment_type option" where
  "type_by_id tn tid s =
     find (\<lambda>t. t_tenant t = tn \<and> t_id t = tid \<and> \<not> t_deleted t) (d_types s)"

text \<open>ORDER BY version DESC LIMIT 1; a version is unique per tenant.\<close>

definition current_terms :: "uuid \<Rightarrow> db \<Rightarrow> terms_version option" where
  "current_terms tn s =
     (case rev (sort_key v_version (filter (\<lambda>v. v_tenant v = tn \<and> \<not> v_deleted v) (d_terms s))) of
        [] \<Rightarrow> None | v # _ \<Rightarrow> Some v)"

definition terms_by_version :: "uuid \<Rightarrow> int \<Rightarrow> db \<Rightarrow> terms_version option" where
  "terms_by_version tn n s =
     find (\<lambda>v. v_tenant v = tn \<and> v_version v = n \<and> \<not> v_deleted v) (d_terms s)"

definition dress_by_id :: "uuid \<Rightarrow> uuid \<Rightarrow> db \<Rightarrow> dress option" where
  "dress_by_id tn gid s = find (\<lambda>g. g_tenant g = tn \<and> g_id g = gid \<and> \<not> g_deleted g) (d_dresses s)"

definition list_variants :: "uuid \<Rightarrow> uuid \<Rightarrow> db \<Rightarrow> dress_variant list" where
  "list_variants tn gid s =
     sort_key (\<lambda>v. (gv_sort_order v, gv_id v))
       (filter (\<lambda>v. gv_tenant v = tn \<and> gv_dress v = gid \<and> \<not> gv_deleted v) (d_variants s))"

definition reservation_containing :: "uuid \<Rightarrow> uuid \<Rightarrow> date \<Rightarrow> db \<Rightarrow> dress_reservation option" where
  "reservation_containing tn gid day s =
     find (\<lambda>r. gr_tenant r = tn \<and> gr_dress r = gid \<and> \<not> gr_deleted r
             \<and> gr_starts_on r \<le> day \<and> gr_ends_on r \<ge> day) (d_reservations s)"

definition list_active_rules :: "uuid \<Rightarrow> db \<Rightarrow> availability_rule list" where
  "list_active_rules tn s =
     sort_key (\<lambda>r. (r_day_of_week r, r_open r))
       (filter (\<lambda>r. r_tenant r = tn \<and> \<not> r_deleted r) (d_rules s))"

definition list_active_exceptions :: "uuid \<Rightarrow> date \<Rightarrow> date \<Rightarrow> db \<Rightarrow> availability_exception list" where
  "list_active_exceptions tn on_or_after on_or_before s =
     sort_key x_date
       (filter (\<lambda>x. x_tenant x = tn \<and> \<not> x_deleted x \<and> on_or_after \<le> x_date x
                  \<and> x_date x \<le> on_or_before) (d_exceptions s))"

section \<open>Lemmas\<close>

interpretation cu: guarded_table c_id c_tenant c_deleted customers_ok
  by unfold_locales (simp add: customers_ok_def)

lemma names_customer_named: "names_customer = cu.named"
  by (auto simp: names_customer_def cu.named_def fun_eq_iff)

lemma customer_by_id_fetch: "customer_by_id tn i s = cu.fetch tn i (d_customers s)"
  by (simp add: customer_by_id_def cu.fetch_def names_customer_named)

lemma customer_by_phone_SomeD:
  "customer_by_phone tn phone s = Some c \<Longrightarrow>
   c \<in> set (d_customers s) \<and> c_tenant c = tn \<and> c_phone c = phone \<and> \<not> c_deleted c"
  unfolding customer_by_phone_def by (drule find_SomeD) auto

lemma update_customer_frame:
  "update_customer tn cid g f s = Inr (s', hit) \<Longrightarrow>
   \<exists>rows. s' = s\<lparr>d_customers := rows\<rparr> \<and> (customers_ok (d_customers s) \<longrightarrow> customers_ok rows)
     \<and> ((\<forall>c. c_id (f c) = c_id c) \<longrightarrow> map c_id rows = map c_id (d_customers s))"
  by (auto simp: update_customer_def handler_simps update_rows_Inr map_update_where update_where_none)

lemma type_by_id_SomeD:
  "type_by_id tn tid s = Some t \<Longrightarrow> t \<in> set (d_types s) \<and> t_tenant t = tn \<and> t_id t = tid \<and> \<not> t_deleted t"
  unfolding type_by_id_def by (drule find_SomeD) auto

text \<open>A customer keeps her identifier through an upsert, and the phone leads back to her.\<close>

lemma upsert_customer_id:
  assumes "upsert_customer tn phone name s = Inr (s', c)"
  shows "c_tenant c = tn \<and> c_phone c = phone \<and> c_name c = name
    \<and> (\<forall>old. customer_by_phone tn phone s = Some old \<longrightarrow> c_id c = c_id old)
    \<and> (customer_by_phone tn phone s = None \<longrightarrow> c_id c = d_next s)"
  using assms by (auto simp: upsert_customer_def handler_simps Let_def dest: customer_by_phone_SomeD
      split: option.splits)

text \<open>Writes to customers touch nothing else, and keep the database's constraints.\<close>

lemma db_ok_customers:
  assumes "db_ok s" "customers_ok rows" "ids_below (d_next s) (map c_id rows)"
  shows "db_ok (s\<lparr>d_customers := rows\<rparr>)"
  using assms by (simp add: db_ok_def)

lemma update_customer_spec:
  assumes "update_customer tn cid g f s = Inr (s', hit)" "\<forall>c. c_id (f c) = c_id c"
  obtains rows where "s' = s\<lparr>d_customers := rows\<rparr>" "map c_id rows = map c_id (d_customers s)"
    "rows = update_where (\<lambda>c. names_customer tn cid c \<and> g c) f (d_customers s)"
    "customers_ok (d_customers s) \<longrightarrow> customers_ok rows"
proof -
  let ?rows = "update_where (\<lambda>c. names_customer tn cid c \<and> g c) f (d_customers s)"
  have "s' = s\<lparr>d_customers := ?rows\<rparr>" "customers_ok (d_customers s) \<longrightarrow> customers_ok ?rows"
    using assms(1) by (auto simp: update_customer_def handler_simps update_rows_Inr update_where_none)
  moreover have "map c_id ?rows = map c_id (d_customers s)" using assms(2) by (simp add: map_update_where)
  ultimately show ?thesis using that by blast
qed

lemma customer_by_phone_update:
  assumes "\<And>c. c_tenant (f c) = c_tenant c \<and> c_phone (f c) = c_phone c \<and> c_deleted (f c) = c_deleted c"
  shows "customer_by_phone tn phone (s\<lparr>d_customers := update_where P f (d_customers s)\<rparr>) =
    map_option (\<lambda>c. if P c then f c else c) (customer_by_phone tn phone s)"
  unfolding customer_by_phone_def using assms by (simp add: find_update_where_stable)

lemma upsert_customer_spec:
  assumes "upsert_customer tn phone name s = Inr (s', c)"
  obtains rows n where "s' = s\<lparr>d_customers := rows, d_next := n\<rparr>" "d_next s \<le> n"
    "customers_ok (d_customers s) \<longrightarrow> customers_ok rows"
    "ids_below (d_next s) (map c_id (d_customers s)) \<longrightarrow> ids_below n (map c_id rows)"
    "\<exists>c'. customer_by_phone tn phone s' = Some c' \<and> c_id c' = c_id c"
proof (cases "customer_by_phone tn phone s")
  case None
  let ?row = "\<lparr>c_id = d_next s, c_tenant = tn, c_phone = phone, c_name = name,
     c_consent_at = None, c_withdrawn_at = None, c_erased_at = None, c_deleted = False\<rparr>"
  have s': "customers_ok (d_customers s @ [?row])" "c = ?row"
    "s' = s\<lparr>d_customers := d_customers s @ [?row], d_next := d_next s + 1\<rparr>"
    using assms None by (auto simp: upsert_customer_def handler_simps Let_def)
  have "customer_by_phone tn phone s' = Some ?row"
    using None by (simp add: customer_by_phone_def s' find_append)
  with s' show ?thesis
    by (intro that [OF s'(3)]) (auto intro: ids_below_mono)
next
  case (Some old)
  then obtain hit where u: "update_customer tn (c_id old) (\<lambda>_. True) (\<lambda>c. c\<lparr>c_name := name\<rparr>) s = Inr (s', hit)"
    and c: "c = old\<lparr>c_name := name\<rparr>"
    using assms by (auto simp: upsert_customer_def handler_simps)
  obtain rows where r: "s' = s\<lparr>d_customers := rows\<rparr>" "map c_id rows = map c_id (d_customers s)"
    "rows = update_where (\<lambda>c. names_customer tn (c_id old) c \<and> True) (\<lambda>c. c\<lparr>c_name := name\<rparr>) (d_customers s)"
    "customers_ok (d_customers s) \<longrightarrow> customers_ok rows"
    by (rule update_customer_spec [OF u]) simp_all
  have "\<exists>c'. customer_by_phone tn phone s' = Some c' \<and> c_id c' = c_id c"
    using Some by (simp add: r(1,3) customer_by_phone_update c)
  with r show ?thesis by (intro that [of "d_next s" rows]) auto
qed

end
