(* ===== verification/Messages.thy ===== *)
theory Messages
  imports Bookings_Repo Waitlist_Repo Customers_Repo "HOL-Library.Sublist"
begin

text \<open>
  The schedule of outgoing messages: \<open>ScheduledMessagesRepository\<close>
  (\<open>app/db/repositories/scheduled_messages.py\<close>), \<open>upsert_reminder\<close> and the worker's \<open>drain_due\<close>
  (\<open>app/booking/comms.py\<close>).

  Delivery itself is the provider's: \<open>drain_due\<close> takes whether one is configured and, for each
  message, whether it was delivered, and answers the messages it asked it to send beside the new
  database and the counters. The bodies of the messages are not modelled, only what they are about.
\<close>

section \<open>The repository\<close>

definition names_message :: "uuid \<Rightarrow> uuid \<Rightarrow> message \<Rightarrow> bool" where
  "names_message tn mid m \<longleftrightarrow> m_tenant m = tn \<and> m_id m = mid \<and> \<not> m_deleted m"

definition message_by_id :: "uuid \<Rightarrow> uuid \<Rightarrow> db \<Rightarrow> message option" where
  "message_by_id tn mid s = find (names_message tn mid) (d_messages s)"

definition insert_message ::
  "uuid \<Rightarrow> message_kind \<Rightarrow> instant \<Rightarrow> utext option \<Rightarrow> uuid option \<Rightarrow> uuid option \<Rightarrow> db
   \<Rightarrow> error + db \<times> message" where
  "insert_message tn kind send_after tok bid wid s =
     (let row = \<lparr>m_id = d_next s, m_tenant = tn, m_booking = bid, m_entry = wid, m_kind = kind,
                 m_send_after = send_after, m_status = Msg_pending, m_token = tok,
                 m_created_at = d_now s, m_deleted = False\<rparr> in
      andthen (insert_row messages_ok row (d_messages s))
        (\<lambda>rows. Inr (s\<lparr>d_messages := rows, d_next := d_next s + 1\<rparr>, row)))"

definition pending_about :: "uuid \<Rightarrow> uuid \<Rightarrow> message_kind \<Rightarrow> message \<Rightarrow> bool" where
  "pending_about tn bid kind m \<longleftrightarrow>
     m_tenant m = tn \<and> m_booking m = Some bid \<and> m_kind m = kind \<and> m_status m = Msg_pending
     \<and> \<not> m_deleted m"

definition pending_for_booking :: "uuid \<Rightarrow> uuid \<Rightarrow> message_kind \<Rightarrow> db \<Rightarrow> message option" where
  "pending_for_booking tn bid kind s = find (pending_about tn bid kind) (d_messages s)"

definition close_message :: "message_status \<Rightarrow> message \<Rightarrow> message" where
  "close_message st m = m\<lparr>m_status := st, m_token := None\<rparr>"

definition cancel_pending :: "uuid \<Rightarrow> uuid \<Rightarrow> message_kind \<Rightarrow> db \<Rightarrow> error + db \<times> nat" where
  "cancel_pending tn bid kind s =
     andthen (update_rows messages_ok (pending_about tn bid kind) (close_message Msg_cancelled)
         (d_messages s))
       (\<lambda>(rows, _). Inr (s\<lparr>d_messages := rows\<rparr>,
          length (filter (pending_about tn bid kind) (d_messages s))))"

definition about_entry :: "uuid \<Rightarrow> uuid \<Rightarrow> message_kind \<Rightarrow> message \<Rightarrow> bool" where
  "about_entry tn wid kind m \<longleftrightarrow>
     m_tenant m = tn \<and> m_entry m = Some wid \<and> m_kind m = kind \<and> \<not> m_deleted m"

definition latest_for_entry :: "uuid \<Rightarrow> uuid \<Rightarrow> message_kind \<Rightarrow> db \<Rightarrow> message option" where
  "latest_for_entry tn wid kind s =
     (case rev (sort_key (\<lambda>m. (m_created_at m, m_id m)) (filter (about_entry tn wid kind) (d_messages s))) of
        [] \<Rightarrow> None | m # _ \<Rightarrow> Some m)"

definition count_failed_for_entry :: "uuid \<Rightarrow> uuid \<Rightarrow> message_kind \<Rightarrow> db \<Rightarrow> nat" where
  "count_failed_for_entry tn wid kind s =
     length (filter (\<lambda>m. about_entry tn wid kind m \<and> m_status m = Msg_failed) (d_messages s))"

definition cancel_pending_for_entry :: "uuid \<Rightarrow> uuid \<Rightarrow> message_kind \<Rightarrow> db \<Rightarrow> error + db \<times> nat" where
  "cancel_pending_for_entry tn wid kind s =
     (let P = (\<lambda>m. about_entry tn wid kind m \<and> m_status m = Msg_pending) in
      andthen (update_rows messages_ok P (close_message Msg_cancelled) (d_messages s))
        (\<lambda>(rows, _). Inr (s\<lparr>d_messages := rows\<rparr>, length (filter P (d_messages s)))))"

definition claim_due :: "uuid \<Rightarrow> instant \<Rightarrow> nat \<Rightarrow> db \<Rightarrow> message list" where
  "claim_due tn now lim s =
     take lim (sort_key m_send_after
       (filter (\<lambda>m. m_tenant m = tn \<and> m_status m = Msg_pending \<and> m_send_after m \<le> now
                  \<and> \<not> m_deleted m) (d_messages s)))"

definition mark :: "uuid \<Rightarrow> uuid \<Rightarrow> message_status \<Rightarrow> db \<Rightarrow> error + db \<times> message option" where
  "mark tn mid st s =
     andthen (update_rows messages_ok (\<lambda>m. names_message tn mid m \<and> m_status m = Msg_pending)
         (close_message st) (d_messages s))
       (\<lambda>(rows, hit).
          let s' = s\<lparr>d_messages := rows\<rparr> in
          Inr (s', if hit then message_by_id tn mid s' else None))"

section \<open>Reminders\<close>

text \<open>\<open>token\<close> is the caller's raw link token, \<open>minted\<close> the one \<open>mint_manage_token\<close> would draw.\<close>

definition upsert_reminder ::
  "env \<Rightarrow> uuid \<Rightarrow> uuid \<Rightarrow> instant \<Rightarrow> instant \<Rightarrow> utext option \<Rightarrow> utext \<Rightarrow> db
   \<Rightarrow> error + db \<times> instant option" where
  "upsert_reminder e tn bid starts_at now tok minted s =
     (let send_after = reminder_send_after starts_at now;
          carried = (case pending_for_booking tn bid Reminder s of
                       None \<Rightarrow> None | Some m \<Rightarrow> m_token m) in
      andthen (cancel_pending tn bid Reminder s) (\<lambda>(s1, _).
        case send_after of
          None \<Rightarrow> Inr (s1, None)
        | Some at \<Rightarrow>
            let row_token = (case tok of Some t \<Rightarrow> Some t | None \<Rightarrow> carried) in
            andthen
              (case row_token of
                 Some t \<Rightarrow> Inr (s1, t)
               | None \<Rightarrow>
                   andthen (set_manage_token_hash tn bid (e_hash e minted) None None s1)
                     (\<lambda>(s2, _). Inr (s2, minted)))
              (\<lambda>(s2, t).
                 andthen (insert_message tn Reminder at (Some t) (Some bid) None s2)
                   (\<lambda>(s3, _). Inr (s3, Some at)))))"

section \<open>The drain\<close>

record sms =
  x_phone :: utext
  x_kind :: message_kind
  x_subject :: uuid
  x_token :: utext

record drain_result =
  dr_sent :: nat
  dr_failed :: nat
  dr_cancelled :: nat
  dr_deferred :: nat

definition DRAIN_BATCH_SIZE :: nat where "DRAIN_BATCH_SIZE = 50"

text \<open>One offer row: its entry re-read, then what to do with it. \<open>None\<close> means no provider.\<close>

datatype drain_step = Stop | Close message_status | Send sms

definition offer_step :: "uuid \<Rightarrow> instant \<Rightarrow> bool \<Rightarrow> db \<Rightarrow> message \<Rightarrow> drain_step" where
  "offer_step tn now configured s m =
     (case (case m_entry m of None \<Rightarrow> None | Some wid \<Rightarrow> entry_by_id tn wid s) of
        None \<Rightarrow> Close Msg_cancelled
      | Some w \<Rightarrow>
          if w_status w \<noteq> Offered
             \<or> (case w_offer_expires_at w of None \<Rightarrow> True | Some t \<Rightarrow> t \<le> now)
             \<or> w_offer_starts_at w = None
          then Close Msg_cancelled
          else if \<not> configured then Stop
          else case m_token m of
                 None \<Rightarrow> Close Msg_failed
               | Some t \<Rightarrow> Send \<lparr>x_phone = w_phone w, x_kind = Waitlist_offer, x_subject = w_id w,
                                x_token = t\<rparr>)"

definition reminder_step :: "uuid \<Rightarrow> instant \<Rightarrow> bool \<Rightarrow> db \<Rightarrow> message \<Rightarrow> drain_step" where
  "reminder_step tn now configured s m =
     (case (case m_booking m of None \<Rightarrow> None | Some bid \<Rightarrow> booking_by_id tn bid s) of
        None \<Rightarrow> Close Msg_cancelled
      | Some b \<Rightarrow>
          if b_status b \<noteq> Confirmed \<or> b_starts_at b \<le> now then Close Msg_cancelled
          else if \<not> configured then Stop
          else case customer_by_id tn (b_customer b) s of
                 None \<Rightarrow> Close Msg_failed
               | Some c \<Rightarrow>
                   (case m_token m of
                      None \<Rightarrow> Close Msg_failed
                    | Some t \<Rightarrow>
                        Send \<lparr>x_phone = c_phone c, x_kind = Reminder, x_subject = b_id b,
                              x_token = t\<rparr>))"

definition drain_step :: "uuid \<Rightarrow> instant \<Rightarrow> bool \<Rightarrow> db \<Rightarrow> message \<Rightarrow> drain_step" where
  "drain_step tn now configured s m =
     (if m_kind m = Waitlist_offer then offer_step tn now configured s m
      else reminder_step tn now configured s m)"

definition count_close :: "message_status \<Rightarrow> drain_result \<Rightarrow> drain_result" where
  "count_close st r =
     (case st of Msg_sent \<Rightarrow> r\<lparr>dr_sent := dr_sent r + 1\<rparr>
      | Msg_failed \<Rightarrow> r\<lparr>dr_failed := dr_failed r + 1\<rparr>
      | Msg_cancelled \<Rightarrow> r\<lparr>dr_cancelled := dr_cancelled r + 1\<rparr>
      | Msg_pending \<Rightarrow> r)"

fun drain_rows ::
  "uuid \<Rightarrow> instant \<Rightarrow> bool \<Rightarrow> (sms \<Rightarrow> bool) \<Rightarrow> message list \<Rightarrow> db \<Rightarrow> drain_result \<Rightarrow> sms list
   \<Rightarrow> error + db \<times> drain_result \<times> sms list" where
  "drain_rows tn now configured delivers [] s r out = Inr (s, r, out)"
| "drain_rows tn now configured delivers (m # ms) s r out =
     (case drain_step tn now configured s m of
        Stop \<Rightarrow> Inr (s, r\<lparr>dr_deferred := length (m # ms)\<rparr>, out)
      | Close st \<Rightarrow>
          andthen (mark tn (m_id m) st s)
            (\<lambda>(s', _). drain_rows tn now configured delivers ms s' (count_close st r) out)
      | Send x \<Rightarrow>
          let st = (if delivers x then Msg_sent else Msg_failed) in
          andthen (mark tn (m_id m) st s)
            (\<lambda>(s', _). drain_rows tn now configured delivers ms s' (count_close st r) (out @ [x])))"

definition drain_due ::
  "uuid \<Rightarrow> instant \<Rightarrow> bool \<Rightarrow> (sms \<Rightarrow> bool) \<Rightarrow> nat \<Rightarrow> db \<Rightarrow> error + db \<times> drain_result \<times> sms list" where
  "drain_due tn now configured delivers lim s =
     drain_rows tn now configured delivers (claim_due tn now lim s) s
       \<lparr>dr_sent = 0, dr_failed = 0, dr_cancelled = 0, dr_deferred = 0\<rparr> []"

section \<open>Lemmas: closing messages\<close>

interpretation ms: guarded_table m_id m_tenant m_deleted messages_ok
  by unfold_locales (simp add: messages_ok_def)

lemma names_message_named: "names_message = ms.named"
  by (auto simp: names_message_def ms.named_def fun_eq_iff)

lemma message_by_id_fetch: "message_by_id tn i s = ms.fetch tn i (d_messages s)"
  by (simp add: message_by_id_def ms.fetch_def names_message_named)

lemma close_message_sel [simp]:
  "m_id (close_message st m) = m_id m" "m_tenant (close_message st m) = m_tenant m"
  "m_booking (close_message st m) = m_booking m" "m_entry (close_message st m) = m_entry m"
  "m_kind (close_message st m) = m_kind m" "m_status (close_message st m) = st"
  "m_token (close_message st m) = None" "m_deleted (close_message st m) = m_deleted m"
  "m_send_after (close_message st m) = m_send_after m"
  by (simp_all add: close_message_def)

lemma messages_ok_close:
  assumes "messages_ok rows" "st \<noteq> Msg_pending"
  shows "messages_ok (update_where P (close_message st) rows)"
proof -
  have "list_all (\<lambda>m. (m_booking m = None) \<noteq> (m_entry m = None)) (update_where P (close_message st) rows)"
    using assms by (auto simp: messages_ok_def list_all_iff set_update_where)
  moreover have "map m_id (update_where P (close_message st) rows) = map m_id rows"
    by (simp add: map_update_where)
  moreover have "unique_on (\<lambda>m. pending_message m \<and> sub m \<noteq> None) (\<lambda>m. (m_tenant m, sub m, m_kind m))
      (update_where P (close_message st) rows)"
    if "unique_on (\<lambda>m. pending_message m \<and> sub m \<noteq> None) (\<lambda>m. (m_tenant m, sub m, m_kind m)) rows"
      "\<And>m. sub (close_message st m) = sub m" for sub :: "message \<Rightarrow> uuid option"
    using that assms(2) by (intro unique_on_update_shrink) (auto simp: pending_message_def)
  ultimately show ?thesis using assms(1) by (simp add: messages_ok_def)
qed

text \<open>How the message table may change under a drain: rows among the claimed ones are closed, never
  reopened, rewritten or added, and no other row is touched.\<close>

definition closed_from :: "uuid \<Rightarrow> uuid set \<Rightarrow> message \<Rightarrow> message \<Rightarrow> bool" where
  "closed_from tn ids m m' \<longleftrightarrow> m' = m \<or>
     (m_tenant m = tn \<and> m_id m \<in> ids \<and> m_status m = Msg_pending \<and> \<not> m_deleted m
        \<and> (\<exists>st. st \<noteq> Msg_pending \<and> m' = close_message st m))"

lemma closed_from_trans:
  "closed_from tn ids a b \<Longrightarrow> closed_from tn ids b c \<Longrightarrow> closed_from tn ids a c"
  by (auto simp: closed_from_def)

lemma closed_from_mono: "closed_from tn ids a b \<Longrightarrow> ids \<subseteq> ids' \<Longrightarrow> closed_from tn ids' a b"
  by (auto simp: closed_from_def)

lemma closes_trans:
  "list_all2 (closed_from tn ids) xs ys \<Longrightarrow> list_all2 (closed_from tn ids) ys zs \<Longrightarrow>
   list_all2 (closed_from tn ids) xs zs"
  by (rule list_all2_trans [of "closed_from tn ids"]) (auto intro: closed_from_trans)

lemma closes_mono:
  "list_all2 (closed_from tn ids) xs ys \<Longrightarrow> ids \<subseteq> ids' \<Longrightarrow> list_all2 (closed_from tn ids') xs ys"
  by (erule list_all2_mono) (auto intro: closed_from_mono)

lemma closes_refl: "list_all2 (closed_from tn ids) xs xs"
  by (rule list_all2_refl) (simp add: closed_from_def)

lemma closes_update:
  "st \<noteq> Msg_pending \<Longrightarrow>
   (\<And>m. P m \<Longrightarrow> m_tenant m = tn \<and> m_id m \<in> ids \<and> m_status m = Msg_pending \<and> \<not> m_deleted m) \<Longrightarrow>
   list_all2 (closed_from tn ids) rows (update_where P (close_message st) rows)"
  by (induction rows) (auto simp: closed_from_def)

lemma closes_fetch:
  "list_all2 (closed_from tn' ids) rows rows' \<Longrightarrow> ms.fetch tn i rows = Some m \<Longrightarrow>
   \<exists>m'. ms.fetch tn i rows' = Some m' \<and> closed_from tn' ids m m'"
proof (induction rows rows' rule: list_all2_induct)
  case (Cons x xs y ys)
  from Cons(1) have n: "ms.named tn i y = ms.named tn i x"
    by (auto simp: closed_from_def ms.named_def)
  show ?case
  proof (cases "ms.named tn i x")
    case True
    with Cons.prems Cons.hyps n show ?thesis by (simp add: ms.fetch_def)
  next
    case False
    with Cons.prems Cons.IH n show ?thesis by (simp add: ms.fetch_def)
  qed
qed (simp add: ms.fetch_def)

lemma mark_run:
  assumes "messages_ok (d_messages s)" "st \<noteq> Msg_pending"
  obtains rows r where "mark tn mid st s = Inr (s\<lparr>d_messages := rows\<rparr>, r)" "messages_ok rows"
    "list_all2 (closed_from tn {mid}) (d_messages s) rows"
    "\<And>m. ms.fetch tn mid rows = Some m \<Longrightarrow> m_status m \<noteq> Msg_pending"
proof -
  let ?P = "\<lambda>m. names_message tn mid m \<and> m_status m = Msg_pending"
  let ?rows = "update_where ?P (close_message st) (d_messages s)"
  have ok: "messages_ok ?rows" by (rule messages_ok_close [OF assms])
  obtain r where run: "mark tn mid st s = Inr (s\<lparr>d_messages := ?rows\<rparr>, r)"
    using ok by (cases "list_ex ?P (d_messages s)")
      (simp_all add: mark_def update_rows_def Let_def update_where_none)
  have closed: "m_status m \<noteq> Msg_pending" if "ms.fetch tn mid ?rows = Some m" for m
  proof -
    have "names_message tn mid m" "m \<in> set ?rows"
      using ms.fetch_SomeD [OF that] by (simp_all add: names_message_def)
    then obtain x where "m = (if ?P x then close_message st x else x)" "names_message tn mid m"
      unfolding set_update_where by blast
    with assms(2) show ?thesis by (cases "?P x") auto
  qed
  have "list_all2 (closed_from tn {mid}) (d_messages s) ?rows"
    by (rule closes_update [OF assms(2)]) (simp add: names_message_def)
  from that [OF run ok this closed] show ?thesis .
qed

section \<open>Lemmas: the drain\<close>

lemma drain_step_frame:
  "drain_step tn now c (s\<lparr>d_messages := rows\<rparr>) m = drain_step tn now c s m"
  by (simp add: drain_step_def offer_step_def reminder_step_def entry_by_id_def booking_by_id_def
      customer_by_id_def cong: option.case_cong if_cong)

lemma drain_step_close: "drain_step tn now c s m = Close st \<Longrightarrow> st = Msg_cancelled \<or> st = Msg_failed"
  by (auto simp: drain_step_def offer_step_def reminder_step_def split: option.splits if_splits)

lemma drain_step_stop: "drain_step tn now True s m \<noteq> Stop"
  by (auto simp: drain_step_def offer_step_def reminder_step_def split: option.splits if_splits)

text \<open>The text a row may become when it goes out: the row's own link, about its own subject, to that
  subject's number, while the subject still justifies it.\<close>

definition text_for :: "uuid \<Rightarrow> instant \<Rightarrow> db \<Rightarrow> message \<Rightarrow> sms \<Rightarrow> bool" where
  "text_for tn now s m x \<longleftrightarrow>
     x_kind x = m_kind m \<and> m_token m = Some (x_token x) \<and>
     (case m_kind m of
        Reminder \<Rightarrow> m_booking m = Some (x_subject x) \<and>
          (\<exists>b c. booking_by_id tn (x_subject x) s = Some b \<and> b_status b = Confirmed
             \<and> now < b_starts_at b \<and> customer_by_id tn (b_customer b) s = Some c
             \<and> x_phone x = c_phone c)
      | Waitlist_offer \<Rightarrow> m_entry m = Some (x_subject x) \<and>
          (\<exists>w t. entry_by_id tn (x_subject x) s = Some w \<and> w_status w = Offered
             \<and> w_offer_expires_at w = Some t \<and> now < t \<and> w_offer_starts_at w \<noteq> None
             \<and> x_phone x = w_phone w))"

lemma offer_step_send:
  assumes "offer_step tn now c s m = Send x" "m_kind m = Waitlist_offer"
  shows "text_for tn now s m x"
proof -
  obtain wid w where "m_entry m = Some wid" and w: "entry_by_id tn wid s = Some w"
    using assms by (auto simp: offer_step_def split: option.splits)
  moreover have "w_id w = wid" using entry_by_id_SomeD [OF w] by simp
  ultimately show ?thesis
    using assms by (auto simp: offer_step_def text_for_def split: option.splits if_splits)
qed

lemma reminder_step_send:
  assumes "reminder_step tn now c s m = Send x" "m_kind m \<noteq> Waitlist_offer"
  shows "text_for tn now s m x"
proof -
  have k: "m_kind m = Reminder" using assms(2) by (cases "m_kind m") simp_all
  obtain bid b where "m_booking m = Some bid" and b: "booking_by_id tn bid s = Some b"
    using assms by (auto simp: reminder_step_def split: option.splits)
  moreover have "b_id b = bid" using booking_by_id_SomeD [OF b] by simp
  ultimately show ?thesis
    using assms k by (auto simp: reminder_step_def text_for_def split: option.splits if_splits)
qed

lemma drain_step_send: "drain_step tn now c s m = Send x \<Longrightarrow> text_for tn now s m x"
  by (auto simp: drain_step_def dest: offer_step_send reminder_step_send split: if_splits)

lemma count_close_total:
  "st \<noteq> Msg_pending \<Longrightarrow>
   dr_sent (count_close st r) + dr_failed (count_close st r) + dr_cancelled (count_close st r)
     = dr_sent r + dr_failed r + dr_cancelled r + 1
   \<and> dr_deferred (count_close st r) = dr_deferred r"
  by (cases st) (simp_all add: count_close_def)

lemma count_close_sent:
  "dr_sent (count_close st r) = dr_sent r + (if st = Msg_sent then 1 else 0)"
  by (cases st) (simp_all add: count_close_def)

text \<open>The loop: rows are only closed, every row is accounted for, every text is due, and with a
  provider every row it went through is closed.\<close>

definition drained :: "uuid \<Rightarrow> instant \<Rightarrow> bool \<Rightarrow> (sms \<Rightarrow> bool) \<Rightarrow> message list \<Rightarrow> db \<Rightarrow> drain_result
    \<Rightarrow> db \<Rightarrow> drain_result \<Rightarrow> sms list \<Rightarrow> bool" where
  "drained tn now c dl ms s r s' r' out \<longleftrightarrow>
     (\<exists>rows. s' = s\<lparr>d_messages := rows\<rparr> \<and> messages_ok rows
        \<and> list_all2 (closed_from tn (m_id ` set ms)) (d_messages s) rows
        \<and> (c \<longrightarrow> (\<forall>m\<in>set ms. \<forall>m'. ms.fetch tn (m_id m) rows = Some m' \<longrightarrow> m_status m' \<noteq> Msg_pending)))
     \<and> dr_sent r' + dr_failed r' + dr_cancelled r' + dr_deferred r'
         = dr_sent r + dr_failed r + dr_cancelled r + length ms
     \<and> (c \<longrightarrow> dr_deferred r' = 0)
     \<and> dr_sent r' = dr_sent r + length (filter dl out)
     \<and> (\<exists>rs. subseq rs ms \<and> list_all2 (text_for tn now s) rs out)"

lemma text_for_frame [simp]: "text_for tn now (s\<lparr>d_messages := rows\<rparr>) = text_for tn now s"
  by (simp add: fun_eq_iff text_for_def booking_by_id_def entry_by_id_def customer_by_id_def
      split: message_kind.split)

lemma drain_rows_spec:
  assumes "messages_ok (d_messages s)" "dr_deferred r = 0"
  shows "\<exists>s' r' out'. drain_rows tn now c dl ms s r out = Inr (s', r', out @ out')
     \<and> drained tn now c dl ms s r s' r' out'"
  using assms
proof (induction ms arbitrary: s r out)
  case Nil
  then show ?case
    by (auto simp: drained_def closes_refl intro!: exI [of _ "d_messages s"])
next
  case (Cons m ms)
  have close: "\<exists>s' r' out'. andthen (mark tn (m_id m) st s)
       (\<lambda>(s', _). drain_rows tn now c dl ms s' (count_close st r) (out @ pre)) = Inr (s', r', out @ out')
       \<and> drained tn now c dl (m # ms) s r s' r' out'"
    if st: "st \<noteq> Msg_pending" and pre: "subseq pr [m]" "list_all2 (text_for tn now s) pr pre"
      "length (filter dl pre) = (if st = Msg_sent then 1 else 0)" for st pre pr
  proof -
    obtain rows q where mk: "mark tn (m_id m) st s = Inr (s\<lparr>d_messages := rows\<rparr>, q)"
      and rows: "messages_ok rows" "list_all2 (closed_from tn {m_id m}) (d_messages s) rows"
      and shut: "\<And>m'. ms.fetch tn (m_id m) rows = Some m' \<Longrightarrow> m_status m' \<noteq> Msg_pending"
      using mark_run [OF Cons.prems(1) st] by blast
    have d: "dr_deferred (count_close st r) = 0" using count_close_total [OF st, of r] Cons.prems(2) by simp
    obtain s' r' out' where run: "drain_rows tn now c dl ms (s\<lparr>d_messages := rows\<rparr>) (count_close st r) (out @ pre)
          = Inr (s', r', (out @ pre) @ out')"
      and dr: "drained tn now c dl ms (s\<lparr>d_messages := rows\<rparr>) (count_close st r) s' r' out'"
      using Cons.IH [of "s\<lparr>d_messages := rows\<rparr>" "count_close st r" "out @ pre"] rows(1) d by auto
    from dr obtain rows' where s': "s' = s\<lparr>d_messages := rows'\<rparr>" "messages_ok rows'"
      "list_all2 (closed_from tn (m_id ` set ms)) rows rows'"
      and shut': "c \<longrightarrow> (\<forall>m\<in>set ms. \<forall>m'. ms.fetch tn (m_id m) rows' = Some m' \<longrightarrow> m_status m' \<noteq> Msg_pending)"
      by (auto simp: drained_def)
    have "m_status m' \<noteq> Msg_pending" if "ms.fetch tn (m_id m) rows' = Some m'" for m'
    proof (cases "ms.fetch tn (m_id m) rows")
      case None
      have "list_all2 (\<lambda>a b. ms.named tn (m_id m) a = ms.named tn (m_id m) b) rows rows'"
        using s'(3) by (rule list_all2_mono) (auto simp: closed_from_def ms.named_def)
      then have "ms.fetch tn (m_id m) rows' = None"
        using None by (induction rule: list_all2_induct) (auto simp: ms.fetch_def split: if_splits)
      with that show ?thesis by simp
    next
      case (Some m1)
      with closes_fetch [OF s'(3) Some] shut [OF Some] that show ?thesis
        by (auto simp: closed_from_def)
    qed
    moreover have "list_all2 (closed_from tn (m_id ` set (m # ms))) (d_messages s) rows'"
      by (rule closes_trans [OF closes_mono [OF rows(2)] closes_mono [OF s'(3)]]) auto
    moreover obtain rs where "subseq rs ms" "list_all2 (text_for tn now s) rs out'"
      using dr by (auto simp: drained_def)
    then have "subseq (pr @ rs) (m # ms) \<and> list_all2 (text_for tn now s) (pr @ rs) (pre @ out')"
      using pre(2) list_emb_append_mono [OF pre(1), of rs ms] by (simp add: list_all2_appendI)
    moreover have "dr_sent r' + dr_failed r' + dr_cancelled r' + dr_deferred r'
        = dr_sent r + dr_failed r + dr_cancelled r + length (m # ms)"
      "c \<longrightarrow> dr_deferred r' = 0" "dr_sent r' = dr_sent r + length (filter dl (pre @ out'))"
      using dr count_close_total [OF st, of r] count_close_sent [of st r] pre(3)
      by (auto simp: drained_def)
    ultimately have "drained tn now c dl (m # ms) s r s' r' (pre @ out')"
      using s'(1,2) shut' unfolding drained_def
      by (intro conjI exI [of _ rows'] exI [of _ "pr @ rs"]) auto
    with run mk show ?thesis by (auto intro!: exI [of _ "pre @ out'"])
  qed
  show ?case
  proof (cases "drain_step tn now c s m")
    case Stop
    then have "\<not> c" using drain_step_stop by (cases c) auto
    with Stop Cons.prems show ?thesis
      by (auto simp: drained_def closes_refl intro!: exI [of _ "d_messages s"])
  next
    case (Close st)
    with close [of st "[]" "[]"] drain_step_close [OF Close] show ?thesis by auto
  next
    case (Send x)
    with close [of "if dl x then Msg_sent else Msg_failed" "[m]" "[x]"] drain_step_send [OF Send]
    show ?thesis by (cases "dl x") (auto simp: Let_def)
  qed
qed

section \<open>Lemmas: reminders\<close>

lemma pending_about_close: "\<not> pending_about tn bid k (close_message Msg_cancelled m)"
  by (simp add: pending_about_def)

lemma cancel_pending_run:
  assumes "messages_ok (d_messages s)"
  shows "cancel_pending tn bid k s =
    Inr (s\<lparr>d_messages := update_where (pending_about tn bid k) (close_message Msg_cancelled) (d_messages s)\<rparr>,
      length (filter (pending_about tn bid k) (d_messages s)))"
  using messages_ok_close [OF assms, of Msg_cancelled "pending_about tn bid k"]
  by (simp add: cancel_pending_def update_rows_def Let_def update_where_none)

lemma no_pending_after_cancel:
  "m \<in> set (update_where (pending_about tn bid k) (close_message Msg_cancelled) rows) \<Longrightarrow>
   \<not> pending_about tn bid k m"
  by (auto simp: set_update_where pending_about_close)

lemma insert_message_free:
  assumes "messages_ok (d_messages s)" "ids_below (d_next s) (map m_id (d_messages s))"
    and "\<forall>m\<in>set (d_messages s). \<not> pending_about tn bid k m"
  shows "\<exists>row. insert_message tn k at tok (Some bid) None s =
      Inr (s\<lparr>d_messages := d_messages s @ [row], d_next := d_next s + 1\<rparr>, row)
    \<and> messages_ok (d_messages s @ [row]) \<and> m_id row = d_next s \<and> pending_about tn bid k row
    \<and> m_send_after row = at \<and> m_token row = tok"
proof -
  let ?row = "\<lparr>m_id = d_next s, m_tenant = tn, m_booking = Some bid, m_entry = None, m_kind = k,
    m_send_after = at, m_status = Msg_pending, m_token = tok, m_created_at = d_now s, m_deleted = False\<rparr>"
  have "messages_ok (d_messages s @ [?row])"
    using assms ids_below_notin [OF assms(2)]
    by (auto simp: messages_ok_def pending_message_def pending_about_def)
  then show ?thesis
    by (auto simp: insert_message_def insert_row_def Let_def pending_about_def)
qed

lemma set_manage_token_hash_any:
  assumes "bookings_ok (d_bookings s)"
  shows "\<exists>r. set_manage_token_hash tn bid h None None s =
    Inr (write_booking tn bid (\<lambda>b. b\<lparr>b_token_hash := Some h\<rparr>) s, r)"
proof (cases "booking_by_id tn bid s")
  case None
  then have "update_where (names_booking tn bid) f (d_bookings s) = d_bookings s" for f
    by (intro update_where_none) (auto simp: booking_by_id_def find_None_iff list_ex_iff)
  with None show ?thesis
    by (simp add: set_manage_token_hash_run [OF assms] write_booking_def)
qed (simp add: set_manage_token_hash_run [OF assms] when_given_def)

text \<open>The token the reminder carries: the caller's, else the pending row's, else a fresh one whose
  hash is stored on the booking.\<close>

definition reminder_token ::
  "env \<Rightarrow> uuid \<Rightarrow> uuid \<Rightarrow> utext option \<Rightarrow> utext \<Rightarrow> db \<Rightarrow> db \<Rightarrow> db \<times> utext" where
  "reminder_token e tn bid tok minted s s1 =
     (case tok of
        Some t \<Rightarrow> (s1, t)
      | None \<Rightarrow>
          (case (case pending_for_booking tn bid Reminder s of None \<Rightarrow> None | Some m \<Rightarrow> m_token m) of
             Some t \<Rightarrow> (s1, t)
           | None \<Rightarrow>
               (write_booking tn bid (\<lambda>b. b\<lparr>b_token_hash := Some (e_hash e minted)\<rparr>) s1, minted)))"

definition unremind :: "uuid \<Rightarrow> uuid \<Rightarrow> db \<Rightarrow> db" where
  "unremind tn bid s = s\<lparr>d_messages :=
     update_where (pending_about tn bid Reminder) (close_message Msg_cancelled) (d_messages s)\<rparr>"

lemma unremind_sel [simp]:
  "d_bookings (unremind tn bid s) = d_bookings s" "d_next (unremind tn bid s) = d_next s"
  "d_payments (unremind tn bid s) = d_payments s" "d_customers (unremind tn bid s) = d_customers s"
  "d_entries (unremind tn bid s) = d_entries s" "d_now (unremind tn bid s) = d_now s"
  "d_audit (unremind tn bid s) = d_audit s" "d_terms (unremind tn bid s) = d_terms s"
  "d_rules (unremind tn bid s) = d_rules s" "d_exceptions (unremind tn bid s) = d_exceptions s"
  "d_types (unremind tn bid s) = d_types s"
  by (simp_all add: unremind_def)

lemma unremind_ok:
  assumes "messages_ok (d_messages s)"
  shows "messages_ok (d_messages (unremind tn bid s))"
    "map m_id (d_messages (unremind tn bid s)) = map m_id (d_messages s)"
    "\<forall>m\<in>set (d_messages (unremind tn bid s)). \<not> pending_about tn bid Reminder m"
  using messages_ok_close [OF assms] no_pending_after_cancel
  by (simp_all add: unremind_def map_update_where)

lemma reminder_token_sel:
  "d_messages (fst (reminder_token e tn bid tok minted s s1)) = d_messages s1"
  "d_next (fst (reminder_token e tn bid tok minted s s1)) = d_next s1"
  "d_payments (fst (reminder_token e tn bid tok minted s s1)) = d_payments s1"
  "d_customers (fst (reminder_token e tn bid tok minted s s1)) = d_customers s1"
  "d_entries (fst (reminder_token e tn bid tok minted s s1)) = d_entries s1"
  by (auto simp: reminder_token_def split: option.split)

lemma upsert_reminder_run:
  assumes ok: "messages_ok (d_messages s)" "ids_below (d_next s) (map m_id (d_messages s))"
    "bookings_ok (d_bookings s)"
  shows "upsert_reminder e tn bid starts_at now tok minted s =
    (case reminder_send_after starts_at now of
       None \<Rightarrow> Inr (unremind tn bid s, None)
     | Some at \<Rightarrow>
         let (s2, t) = reminder_token e tn bid tok minted s (unremind tn bid s) in
         Inr (s2\<lparr>d_messages := d_messages s2 @
                 [\<lparr>m_id = d_next s, m_tenant = tn, m_booking = Some bid, m_entry = None,
                   m_kind = Reminder, m_send_after = at, m_status = Msg_pending, m_token = Some t,
                   m_created_at = d_now s2, m_deleted = False\<rparr>],
               d_next := d_next s + 1\<rparr>, Some at))"
proof -
  note c = cancel_pending_run [OF ok(1), of tn bid Reminder, folded unremind_def]
  note u = unremind_ok [OF ok(1), of tn bid]
  show ?thesis
  proof (cases "reminder_send_after starts_at now")
    case None
    with c show ?thesis by (simp add: upsert_reminder_def)
  next
    case (Some at)
    obtain s2 t where tk: "reminder_token e tn bid tok minted s (unremind tn bid s) = (s2, t)"
      by fastforce
    have s2: "d_messages s2 = d_messages (unremind tn bid s)" "d_next s2 = d_next s"
      using reminder_token_sel [of e tn bid tok minted s "unremind tn bid s"] tk by simp_all
    obtain q where q: "set_manage_token_hash tn bid (e_hash e minted) None None (unremind tn bid s) =
        Inr (write_booking tn bid (\<lambda>b. b\<lparr>b_token_hash := Some (e_hash e minted)\<rparr>) (unremind tn bid s), q)"
      using set_manage_token_hash_any [of "unremind tn bid s" tn bid "e_hash e minted"] ok(3) by auto
    let ?row = "\<lparr>m_id = d_next s, m_tenant = tn, m_booking = Some bid, m_entry = None,
                   m_kind = Reminder, m_send_after = at, m_status = Msg_pending, m_token = Some t,
                   m_created_at = d_now s2, m_deleted = False\<rparr>"
    have "messages_ok (d_messages s2 @ [?row])"
      using u ok(2) ids_below_notin [OF ok(2)] s2
      by (auto simp: messages_ok_def pending_message_def pending_about_def simp flip: set_map)
    then have ins: "insert_message tn Reminder at (Some t) (Some bid) None s2 =
        Inr (s2\<lparr>d_messages := d_messages s2 @ [?row], d_next := d_next s + 1\<rparr>, ?row)"
      by (simp add: insert_message_def insert_row_def Let_def s2)
    have "upsert_reminder e tn bid starts_at now tok minted s =
        andthen (insert_message tn Reminder at (Some t) (Some bid) None s2) (\<lambda>(s3, _). Inr (s3, Some at))"
      using tk q Some c by (auto simp: upsert_reminder_def reminder_token_def Let_def split: option.splits)
    with Some tk ins show ?thesis by simp
  qed
qed

section \<open>Properties\<close>

definition message_due :: "uuid \<Rightarrow> instant \<Rightarrow> message \<Rightarrow> bool" where
  "message_due tn now m \<longleftrightarrow>
     m_tenant m = tn \<and> m_status m = Msg_pending \<and> m_send_after m \<le> now \<and> \<not> m_deleted m"

lemma closed_from_due: "closed_from tn' ids m m' \<Longrightarrow> message_due tn now m' \<Longrightarrow> m' = m"
  unfolding closed_from_def message_due_def by (elim disjE conjE exE) simp_all

lemma claim_due_set:
  "m \<in> set (claim_due tn now lim s) \<Longrightarrow> m \<in> set (d_messages s) \<and> message_due tn now m"
  by (auto simp: claim_due_def message_due_def dest: in_set_takeD)

lemma length_claim_due:
  "length (claim_due tn now lim s) = min (length (filter (message_due tn now) (d_messages s))) lim"
  by (simp add: claim_due_def message_due_def [abs_def] conj_ac)

lemma claim_due_all:
  assumes "length (filter (message_due tn now) (d_messages s)) \<le> lim"
    and "m \<in> set (d_messages s)" "message_due tn now m"
  shows "m \<in> set (claim_due tn now lim s)"
  using assms by (simp add: claim_due_def message_due_def [abs_def] conj_ac)

lemma claim_due_sorted: "sorted (map m_send_after (claim_due tn now lim s))"
  unfolding claim_due_def take_map [symmetric] by (intro sorted_wrt_take) simp

lemma claim_due_distinct:
  assumes "messages_ok (d_messages s)" shows "distinct (map m_id (claim_due tn now lim s))"
proof -
  have "distinct (map m_id (filter P (d_messages s)))" for P
    using assms by (simp add: messages_ok_def distinct_map_filter)
  then have "distinct (map m_id (sort_key m_send_after (filter P (d_messages s))))" for P
    by (simp add: distinct_map)
  then show ?thesis unfolding claim_due_def take_map [symmetric] by (intro distinct_take)
qed

lemma subseq_set: "subseq xs ys \<Longrightarrow> set xs \<subseteq> set ys"
  by (induction rule: list_emb.induct) auto

lemma subseq_sorted: "subseq xs ys \<Longrightarrow> sorted ys \<Longrightarrow> sorted xs"
  by (induction rule: list_emb.induct) (auto dest: subseq_set)

lemma subseq_distinct: "subseq xs ys \<Longrightarrow> distinct ys \<Longrightarrow> distinct xs"
  by (induction rule: list_emb.induct) (auto dest: subseq_set)


definition sample_reminder :: message where
  "sample_reminder =
     \<lparr>m_id = 7, m_tenant = 1, m_booking = Some 5, m_entry = None, m_kind = Reminder,
      m_send_after = 10, m_status = Msg_pending, m_token = Some [65], m_created_at = 0,
      m_deleted = False\<rparr>"


end
