(* ===== verification/Booking_Writes.thy ===== *)
theory Booking_Writes
  imports Messages
begin

text \<open>
  What the services may rely on when they write a booking: every statement of
  \<open>app/db/repositories/bookings.py\<close> and \<open>upsert_reminder\<close> of \<open>app/booking/comms.py\<close> keeps the whole
  database well formed, and which tables each of them leaves alone.
\<close>

section \<open>One rewritten booking\<close>

lemma write_booking_ids:
  "bk.keeps_name f \<Longrightarrow> map b_id (d_bookings (write_booking tn bid f s)) = map b_id (d_bookings s)"
  by (simp add: map_update_where bk.keeps_name_def)

lemma db_ok_write_booking:
  assumes "db_ok s" "bk.keeps_name f" "bookings_ok (d_bookings (write_booking tn bid f s))"
  shows "db_ok (write_booking tn bid f s)"
  using db_okD [OF assms(1)] assms(3) write_booking_ids [OF assms(2), of tn bid s]
  by (simp add: db_ok_def)

lemma db_ok_hold:
  assumes "db_ok s" "booking_by_id tn bid s = Some b" "bk.keeps_name f" "g b" "holds_place g f"
  shows "db_ok (write_booking tn bid f s)"
  using db_ok_write_booking [OF assms(1,3)] bookings_ok_write [OF db_okD(1) [OF assms(1)] assms(2-5)]
  by simp

lemma update_booking_db_ok:
  assumes "db_ok s" "bk.keeps_name f" "update_booking tn bid g f s = Inr (s', r)"
  shows "db_ok s'"
  using assms db_ok_write_booking [OF assms(1,2)]
  by (auto simp: update_booking_run [OF db_okD(1) [OF assms(1)]] split: option.splits if_splits)

lemma booking_by_id_below:
  "db_ok s \<Longrightarrow> booking_by_id tn bid s = Some b \<Longrightarrow> bid < d_next s"
  using db_okD(6) [of s] booking_by_id_SomeD [of tn bid s b] by (auto simp: ids_below_def list_all_iff)

text \<open>The seat and the visit a row may move to: free among the other rows.\<close>

lemma bookings_ok_moved:
  assumes ok: "bookings_ok (d_bookings s)" and b: "booking_by_id tn bid s = Some b"
    and f: "bk.keeps_name f" "booking_row_ok (f b)"
    and seat: "\<And>x. x \<in> set (d_bookings s) \<Longrightarrow> b_id x \<noteq> bid \<Longrightarrow> occupies x \<Longrightarrow> seat_key x \<noteq> seat_key (f b)"
    and visit: "\<And>x. x \<in> set (d_bookings s) \<Longrightarrow> b_id x \<noteq> bid \<Longrightarrow> occupies x \<Longrightarrow> visit_key x \<noteq> visit_key (f b)"
  shows "bookings_ok (d_bookings (write_booking tn bid f s))"
proof -
  obtain pre post where rows: "d_bookings s = pre @ b # post"
    and w: "update_where (bk.named tn bid) f (d_bookings s) = pre @ f b # post"
    and others: "\<forall>x\<in>set (pre @ post). b_id x \<noteq> bid"
    by (rule bk.one_row [OF ok b [unfolded booking_by_id_fetch]])
  have "bookings_ok (pre @ f b # post)"
  proof (rule bookings_ok_move)
    show "bookings_ok (pre @ b # post)" using ok rows by simp
    show "b_id (f b) = b_id b" using f(1) by (simp add: bk.keeps_name_def)
    show "booking_row_ok (f b)" by (rule f(2))
    show "occupies (f b) \<longrightarrow> (\<forall>x\<in>set (pre @ post). occupies x \<longrightarrow>
           seat_key x \<noteq> seat_key (f b) \<and> visit_key x \<noteq> visit_key (f b))"
      using seat visit others rows by simp
  qed
  with w show ?thesis by (simp add: names_booking_named)
qed

section \<open>The reminder\<close>

lemma subjects_below_close:
  "subjects_below n (update_where P (close_message st) rows) = subjects_below n rows"
  unfolding subjects_below_def by (induction rows) (auto simp: close_message_def)

lemma db_ok_unremind:
  assumes "db_ok s"
  shows "db_ok (unremind tn bid s)"
proof -
  have "subjects_below (d_next s) (d_messages (unremind tn bid s))"
    using db_okD(11) [OF assms] by (simp add: unremind_def subjects_below_close)
  with db_okD [OF assms] unremind_ok(1,2) [OF db_okD(3) [OF assms], of tn bid] show ?thesis
    by (simp add: db_ok_def)
qed

text \<open>With the link's token in hand, \<open>upsert_reminder\<close> cannot fail and touches only messages: the
  pending reminder of the booking becomes the new one, or none.\<close>

lemma upsert_reminder_token:
  assumes ok: "db_ok s" and bid: "bid < d_next s"
  obtains s' where "upsert_reminder e tn bid at now (Some tok) minted s = Inr (s', reminder_send_after at now)"
    "db_ok s'" "d_bookings s' = d_bookings s" "d_payments s' = d_payments s" "d_entries s' = d_entries s"
    "d_customers s' = d_customers s" "d_audit s' = d_audit s"
proof -
  note run = upsert_reminder_run [OF db_okD(3,8,1) [OF ok], of e tn bid at now "Some tok" minted]
  show ?thesis
proof (cases "reminder_send_after at now")
  case None
  then have "upsert_reminder e tn bid at now (Some tok) minted s =
      Inr (unremind tn bid s, reminder_send_after at now)" by (simp add: run)
  from that [OF this db_ok_unremind [OF ok]] show ?thesis by simp
next
  case (Some sat)
  let ?row = "\<lparr>m_id = d_next s, m_tenant = tn, m_booking = Some bid, m_entry = None,
    m_kind = Reminder, m_send_after = sat, m_status = Msg_pending, m_token = Some tok,
    m_created_at = d_now s, m_deleted = False\<rparr>"
  let ?s1 = "unremind tn bid s"
  let ?s' = "?s1\<lparr>d_messages := d_messages ?s1 @ [?row], d_next := d_next s + 1\<rparr>"
  note u = db_okD [OF db_ok_unremind [OF ok, of tn bid]]
  note pend = unremind_ok(3) [OF db_okD(3) [OF ok], of tn bid]
  have "messages_ok (d_messages ?s1 @ [?row])"
    using pend u(3) ids_below_notin [OF u(8)]
    by (auto simp: messages_ok_def pending_message_def pending_about_def simp flip: set_map)
  moreover have "ids_below (d_next s + 1) (map m_id (d_messages ?s1 @ [?row]))"
    "subjects_below (d_next s + 1) (d_messages ?s1 @ [?row])"
    using u(8,11) bid ids_below_mono [of "d_next s" _ "d_next s + 1"]
      subjects_below_mono [of "d_next s" _ "d_next s + 1"] by simp_all
  ultimately have "db_ok ?s'"
    using u ids_below_mono [of "d_next s" _ "d_next s + 1"] by (simp add: db_ok_def)
  moreover have "upsert_reminder e tn bid at now (Some tok) minted s = Inr (?s', reminder_send_after at now)"
    by (simp add: run Some reminder_token_def)
  ultimately show ?thesis by (intro that [of ?s']) simp_all
qed
qed

section \<open>Links\<close>

text \<open>A pending reminder carries the raw token of its booking's link, and the booking carries the hash of
  the token it answers to. The two agree when the text, once sent, opens the booking.\<close>

definition link_works :: "env \<Rightarrow> db \<Rightarrow> message \<Rightarrow> bool" where
  "link_works e s m \<longleftrightarrow>
     (pending_message m \<and> m_kind m = Reminder \<longrightarrow>
       (case m_booking m of
          None \<Rightarrow> True
        | Some bid \<Rightarrow>
            (case m_token m of
               None \<Rightarrow> True
             | Some t \<Rightarrow>
                 (case booking_by_id (m_tenant m) bid s of
                    None \<Rightarrow> True | Some b \<Rightarrow> b_token_hash b = Some (e_hash e t)))))"

definition links_agree :: "env \<Rightarrow> db \<Rightarrow> bool" where
  "links_agree e s \<longleftrightarrow> list_all (link_works e s) (d_messages s)"

text \<open>All links but those of one booking, between the two writes of a rotation.\<close>

definition links_agree_but :: "env \<Rightarrow> uuid \<Rightarrow> uuid \<Rightarrow> db \<Rightarrow> bool" where
  "links_agree_but e tn bid s \<longleftrightarrow>
     list_all (\<lambda>m. m_tenant m = tn \<and> m_booking m = Some bid \<or> link_works e s m) (d_messages s)"

lemma link_works_idle [simp]: "m_status m \<noteq> Msg_pending \<Longrightarrow> link_works e s m"
  by (simp add: link_works_def pending_message_def)

lemma links_agree_but_weaken: "links_agree e s \<Longrightarrow> links_agree_but e tn bid s"
  by (auto simp: links_agree_def links_agree_but_def list_all_iff)

lemma link_works_iff:
  "link_works e s m \<longleftrightarrow> (\<forall>bid t b. pending_message m \<longrightarrow> m_kind m = Reminder \<longrightarrow> m_booking m = Some bid \<longrightarrow>
     m_token m = Some t \<longrightarrow> booking_by_id (m_tenant m) bid s = Some b \<longrightarrow> b_token_hash b = Some (e_hash e t))"
  by (auto simp: link_works_def split: option.splits)

lemma link_works_cong:
  assumes "\<And>tn bid b'. booking_by_id tn bid s' = Some b' \<Longrightarrow> m_booking m = Some bid \<Longrightarrow> m_tenant m = tn \<Longrightarrow>
             \<exists>b. booking_by_id tn bid s = Some b \<and> b_token_hash b' = b_token_hash b"
    and "link_works e s m"
  shows "link_works e s' m"
  using assms unfolding link_works_iff by metis

lemma link_works_same: "d_bookings s' = d_bookings s \<Longrightarrow> link_works e s' m = link_works e s m"
  by (simp add: link_works_iff booking_by_id_def)

text \<open>A write that leaves the hash alone, or one that touches no booking, keeps the agreement.\<close>

lemma links_agree_write:
  assumes "links_agree e s" "bk.keeps_name f" "\<And>b. b_token_hash (f b) = b_token_hash b"
  shows "links_agree e (write_booking tn bid f s)"
proof -
  have "link_works e (write_booking tn bid f s) m" if "link_works e s m" for m
    by (rule link_works_cong [OF _ that])
      (auto simp: booking_by_id_write [OF assms(2)] assms(3) split: if_splits)
  with assms(1) show ?thesis by (auto simp: links_agree_def list_all_iff)
qed

lemma links_agree_but_write:
  assumes "links_agree_but e tn bid s" "bk.keeps_name f"
  shows "links_agree_but e tn bid (write_booking tn bid f s)"
proof -
  have "link_works e (write_booking tn bid f s) m"
    if "link_works e s m" "\<not> (m_tenant m = tn \<and> m_booking m = Some bid)" for m
    by (rule link_works_cong [OF _ that(1)])
      (use that(2) in \<open>auto simp: booking_by_id_write [OF assms(2)] split: if_splits\<close>)
  with assms(1) show ?thesis by (auto simp: links_agree_but_def list_all_iff)
qed

lemma links_agree_same:
  assumes "d_bookings s' = d_bookings s" "\<And>m. m \<in> set (d_messages s') \<Longrightarrow> m_status m = Msg_pending \<Longrightarrow> m \<in> set (d_messages s)"
    and "links_agree e s"
  shows "links_agree e s'"
proof -
  have "link_works e s' m = link_works e s m" for m by (rule link_works_same [OF assms(1)])
  with assms(2,3) show ?thesis
    unfolding links_agree_def list_all_iff by (metis link_works_idle)
qed

lemma links_agree_audit [simp]: "links_agree e (record_audit tn a i s) = links_agree e s"
  by (simp add: links_agree_def list_all_iff link_works_iff booking_by_id_def)

lemma links_agree_unremind:
  assumes "links_agree e s"
  shows "links_agree e (unremind tn bid s)"
  by (rule links_agree_same [OF _ _ assms])
    (auto simp: unremind_def set_update_where close_message_def pending_about_def)

text \<open>Renewing a reminder leaves every link good, whether the token is the one the booking's hash was
  just set to, the one the pending reminder carried, or a fresh one.\<close>

lemma new_reminder_works:
  assumes "links_agree_but e tn bid s" "booking_by_id tn bid s = Some b" "b_token_hash b = Some (e_hash e t)"
    and "m_tenant m = tn" "m_booking m = Some bid" "m_token m = Some t"
  shows "links_agree e (s\<lparr>d_messages := update_where (pending_about tn bid Reminder) (close_message Msg_cancelled)
           (d_messages s) @ [m], d_next := n\<rparr>)"
proof -
  let ?s' = "s\<lparr>d_messages := update_where (pending_about tn bid Reminder) (close_message Msg_cancelled)
           (d_messages s) @ [m], d_next := n\<rparr>"
  have same: "link_works e ?s' x = link_works e s x" for x by (rule link_works_same) simp
  have "link_works e s m" using assms(2-6) by (simp add: link_works_iff)
  have "link_works e s (if pending_about tn bid Reminder x then close_message Msg_cancelled x else x)"
    if "x \<in> set (d_messages s)" for x
  proof (cases "m_tenant x = tn \<and> m_booking x = Some bid")
    case True
    then show ?thesis
      by (auto simp: close_message_def link_works_iff pending_message_def pending_about_def)
  next
    case False
    with assms(1) that show ?thesis by (auto simp: links_agree_but_def list_all_iff pending_about_def)
  qed
  then have "\<forall>y\<in>set (update_where (pending_about tn bid Reminder) (close_message Msg_cancelled) (d_messages s)).
      link_works e s y" unfolding set_update_where by blast
  with \<open>link_works e s m\<close> show ?thesis by (simp add: links_agree_def list_all_iff same)
qed

text \<open>What \<open>upsert_reminder\<close> does, whoever supplies the token: it cannot fail, it writes messages and
  at most the booking's own hash, and every link is good afterwards.\<close>

lemma unremind_write: "unremind tn bid (write_booking tn bid f s) = write_booking tn bid f (unremind tn bid s)"
  by (simp add: unremind_def write_booking_def)

lemma upsert_reminder_token_links:
  assumes ok: "db_ok s" and b: "booking_by_id tn bid s = Some b" and at: "reminder_send_after at now = Some sat"
    and agree: "links_agree_but e tn bid s" "b_token_hash b = Some (e_hash e t)"
    and run: "upsert_reminder e tn bid at now (Some t) minted s = Inr (s', r)"
  shows "links_agree e s'"
proof -
  have "s' = (unremind tn bid s)\<lparr>d_messages := d_messages (unremind tn bid s) @
                 [\<lparr>m_id = d_next s, m_tenant = tn, m_booking = Some bid, m_entry = None,
                   m_kind = Reminder, m_send_after = sat, m_status = Msg_pending, m_token = Some t,
                   m_created_at = d_now s, m_deleted = False\<rparr>],
               d_next := d_next s + 1\<rparr>"
    using run at by (simp add: upsert_reminder_run [OF db_okD(3,8,1) [OF ok]] reminder_token_def)
  then have "s' = s\<lparr>d_messages := update_where (pending_about tn bid Reminder) (close_message Msg_cancelled)
           (d_messages s) @ [\<lparr>m_id = d_next s, m_tenant = tn, m_booking = Some bid, m_entry = None,
                   m_kind = Reminder, m_send_after = sat, m_status = Msg_pending, m_token = Some t,
                   m_created_at = d_now s, m_deleted = False\<rparr>], d_next := d_next s + 1\<rparr>"
    by (simp add: unremind_def)
  then show ?thesis using new_reminder_works [OF agree(1) b agree(2)] by simp
qed

text \<open>Without a token in hand it behaves as with the token the pending reminder carried, or as with a
  fresh one after its hash was stored.\<close>

lemma upsert_reminder_carried:
  assumes ok: "db_ok s" and b: "booking_by_id tn bid s = Some b" and agree: "links_agree e s"
    and at: "reminder_send_after at now = Some sat"
  obtains t s1 where "upsert_reminder e tn bid at now None minted s = upsert_reminder e tn bid at now (Some t) minted s1"
    "s1 = s \<and> b_token_hash b = Some (e_hash e t)
     \<or> s1 = write_booking tn bid (\<lambda>b. b\<lparr>b_token_hash := Some (e_hash e t)\<rparr>) s"
proof (cases "\<exists>m t. pending_for_booking tn bid Reminder s = Some m \<and> m_token m = Some t")
  case True
  then obtain m t where m: "pending_for_booking tn bid Reminder s = Some m" "m_token m = Some t" by blast
  then have mm: "m \<in> set (d_messages s)" "pending_about tn bid Reminder m"
    unfolding pending_for_booking_def by (auto dest: find_SomeD)
  then have "link_works e s m" using agree by (simp add: links_agree_def list_all_iff)
  with mm(2) m(2) b have "b_token_hash b = Some (e_hash e t)"
    by (simp add: link_works_iff pending_about_def pending_message_def)
  then show ?thesis
    using that [of t s] at m
    by (simp add: upsert_reminder_run [OF db_okD(3,8,1) [OF ok]] reminder_token_def)
next
  case False
  then have none: "(case pending_for_booking tn bid Reminder s of None \<Rightarrow> None | Some m \<Rightarrow> m_token m) = None"
    by (auto split: option.split)
  let ?h = "\<lambda>b. b\<lparr>b_token_hash := Some (e_hash e minted)\<rparr>"
  let ?s1 = "write_booking tn bid ?h s"
  have ok1: "db_ok ?s1" by (rule db_ok_hold [OF ok b, where g = "\<lambda>_. True"]) (auto simp: place_defs)
  have "upsert_reminder e tn bid at now None minted s = upsert_reminder e tn bid at now (Some minted) minted ?s1"
    using at none
    by (simp add: upsert_reminder_run [OF db_okD(3,8,1) [OF ok]] upsert_reminder_run [OF db_okD(3,8,1) [OF ok1]]
        reminder_token_def unremind_write)
  then show ?thesis using that by blast
qed

lemma upsert_reminder_links:
  assumes ok: "db_ok s" and b: "booking_by_id tn bid s = Some b" and agree: "links_agree e s"
  obtains s' t where "upsert_reminder e tn bid at now None minted s = Inr (s', reminder_send_after at now)"
    "db_ok s'" "links_agree e s'" "d_payments s' = d_payments s" "d_entries s' = d_entries s"
    "d_customers s' = d_customers s"
    "d_bookings s' = d_bookings s
      \<or> d_bookings s' = d_bookings (write_booking tn bid (\<lambda>b. b\<lparr>b_token_hash := Some (e_hash e t)\<rparr>) s)"
proof (cases "reminder_send_after at now")
  case None
  then have "upsert_reminder e tn bid at now None minted s = Inr (unremind tn bid s, reminder_send_after at now)"
    by (simp add: upsert_reminder_run [OF db_okD(3,8,1) [OF ok]])
  then show ?thesis using that db_ok_unremind [OF ok] links_agree_unremind [OF agree] by simp
next
  case (Some sat)
  obtain t s1 where run: "upsert_reminder e tn bid at now None minted s = upsert_reminder e tn bid at now (Some t) minted s1"
    and s1: "s1 = s \<and> b_token_hash b = Some (e_hash e t)
     \<or> s1 = write_booking tn bid (\<lambda>b. b\<lparr>b_token_hash := Some (e_hash e t)\<rparr>) s"
    by (rule upsert_reminder_carried [OF ok b agree Some])
  have ok1: "db_ok s1"
    using s1 ok by (elim disjE) (auto intro: db_ok_hold [OF ok b, where g = "\<lambda>_. True"] simp: place_defs)
  obtain b1 where b1: "booking_by_id tn bid s1 = Some b1" "b_token_hash b1 = Some (e_hash e t)"
    using s1 b by (auto simp: booking_by_id_write)
  have but: "links_agree_but e tn bid s1"
    using s1 links_agree_but_weaken [OF agree, of tn bid] by (auto intro: links_agree_but_write)
  obtain s' where s': "upsert_reminder e tn bid at now (Some t) minted s1 = Inr (s', reminder_send_after at now)"
    "db_ok s'" "d_bookings s' = d_bookings s1" "d_payments s' = d_payments s1" "d_entries s' = d_entries s1"
    "d_customers s' = d_customers s1"
    by (rule upsert_reminder_token [OF ok1 booking_by_id_below [OF ok1 b1(1)]])
  have "links_agree e s'" by (rule upsert_reminder_token_links [OF ok1 b1(1) Some but b1(2) s'(1)])
  then show ?thesis using that [of s' t] run s' s1 by auto
qed

section \<open>Seats\<close>

lemma seats_by_bookings: "d_bookings s = d_bookings s' \<Longrightarrow> active_seats_at t at s = active_seats_at t at s'"
  by (simp add: active_seats_at_def)

text \<open>A write that moves no row in or out of a start leaves every seat where it was.\<close>

lemma seats_unmoved:
  assumes "\<And>b. seated_at t at (f b) = seated_at t at b" "\<And>b. b_seat (f b) = b_seat b"
  shows "active_seats_at t at (write_booking tn bid f s) = active_seats_at t at s"
proof -
  have "map b_seat (filter (seated_at t at) (update_where P f rows)) = map b_seat (filter (seated_at t at) rows)"
    for P rows using assms by (induction rows) auto
  then show ?thesis by (simp add: active_seats_at_def)
qed

lemma seats_hash:
  "active_seats_at t at (write_booking tn bid (\<lambda>b. b\<lparr>b_token_hash := h\<rparr>) s) = active_seats_at t at s"
  by (rule seats_unmoved) (simp_all add: seated_at_def)

end
