(* ===== verification/Text.thy ===== *)
theory Text
  imports Prelude
begin

text \<open>
  Python strings as lists of code points: \<open>str.strip\<close> and \<open>str.split\<close> over Unicode whitespace,
  the Israeli mobile normalisation of \<open>app/notifications/validation.py\<close> and
  \<open>normalize_size_label\<close> of \<open>app/catalog/validation.py\<close>.
\<close>

definition u :: "string \<Rightarrow> utext" where
  "u s = map of_char s"

definition is_uspace :: "nat \<Rightarrow> bool" where
  "is_uspace c \<longleftrightarrow>
     (9 \<le> c \<and> c \<le> 13) \<or> (28 \<le> c \<and> c \<le> 32) \<or> c = 133 \<or> c = 160 \<or> c = 5760
     \<or> (8192 \<le> c \<and> c \<le> 8202) \<or> c = 8232 \<or> c = 8233 \<or> c = 8239 \<or> c = 8287 \<or> c = 12288"

definition ustrip :: "utext \<Rightarrow> utext" where
  "ustrip s = rev (dropWhile is_uspace (rev (dropWhile is_uspace s)))"

text \<open>\<open>s.split()\<close>: the maximal runs of characters that are not whitespace.\<close>

function usplit :: "utext \<Rightarrow> utext list" where
  "usplit s =
     (let t = dropWhile is_uspace s in
      if t = [] then []
      else takeWhile (\<lambda>c. \<not> is_uspace c) t # usplit (dropWhile (\<lambda>c. \<not> is_uspace c) t))"
  by pat_completeness auto
termination
proof (relation "measure length")
  fix s t :: utext assume t: "t = dropWhile is_uspace s" "t \<noteq> []"
  then have "\<not> is_uspace (hd t)" by (metis hd_dropWhile)
  with t(2) have "length (dropWhile (\<lambda>c. \<not> is_uspace c) t) < length t"
    by (cases t) (auto simp: le_imp_less_Suc length_dropWhile_le)
  also have "length t \<le> length s" using t(1) length_dropWhile_le by simp
  finally show "(dropWhile (\<lambda>c. \<not> is_uspace c) t, s) \<in> measure length" by simp
qed simp

declare usplit.simps [simp del]

fun ujoin :: "utext list \<Rightarrow> utext" where
  "ujoin [] = []"
| "ujoin [w] = w"
| "ujoin (w # ws) = w @ 32 # ujoin ws"

definition normalize_size_label :: "utext \<Rightarrow> utext" where
  "normalize_size_label label = ujoin (usplit label)"

section \<open>Israeli mobiles\<close>

definition is_digit :: "nat \<Rightarrow> bool" where
  "is_digit c \<longleftrightarrow> 48 \<le> c \<and> c \<le> 57"

text \<open>\<open>^\+?[0-9 ()\-]+$\<close>\<close>

definition allowed_charset :: "utext \<Rightarrow> bool" where
  "allowed_charset s \<longleftrightarrow>
     (let t = (case s of c # cs \<Rightarrow> if c = 43 then cs else s | [] \<Rightarrow> []) in
      t \<noteq> [] \<and> list_all (\<lambda>c. is_digit c \<or> c = 32 \<or> c = 40 \<or> c = 41 \<or> c = 45) t)"

text \<open>\<open>^\+9725\d{8}$\<close>\<close>

definition normalized_mobile :: "utext \<Rightarrow> bool" where
  "normalized_mobile s \<longleftrightarrow>
     length s = 13 \<and> take 5 s = [43, 57, 55, 50, 53] \<and> list_all is_digit (drop 5 s)"

definition normalize_israeli_mobile :: "utext \<Rightarrow> utext option" where
  "normalize_israeli_mobile raw =
     (let candidate = ustrip raw in
      if candidate = [] \<or> \<not> allowed_charset candidate then None
      else
        let digits = filter is_digit candidate;
            digits' = (if take 2 digits = [48, 53] then [57, 55, 50] @ drop 1 digits else digits);
            normalized = 43 # digits'
        in if normalized_mobile normalized then Some normalized else None)"

section \<open>Lemmas\<close>

lemma digit_not_space: "is_digit c \<Longrightarrow> \<not> is_uspace c"
  by (auto simp: is_digit_def is_uspace_def)

lemma ustrip_id: "s \<noteq> [] \<Longrightarrow> \<not> is_uspace (hd s) \<Longrightarrow> \<not> is_uspace (last s) \<Longrightarrow> ustrip s = s"
proof -
  assume s: "s \<noteq> []" "\<not> is_uspace (hd s)" "\<not> is_uspace (last s)"
  then have "dropWhile is_uspace s = s" by (cases s) auto
  moreover have "dropWhile is_uspace (rev s) = rev s" using s(1,3) by (cases s rule: rev_cases) auto
  ultimately show "ustrip s = s" by (simp add: ustrip_def)
qed

lemma normalize_mobile_shape: "normalize_israeli_mobile raw = Some p \<Longrightarrow> normalized_mobile p"
  by (auto simp: normalize_israeli_mobile_def Let_def split: if_splits)

lemma normalized_mobile_fixed:
  assumes "normalized_mobile p"
  shows "normalize_israeli_mobile p = Some p"
proof -
  define ds where "ds = drop 5 p"
  have p: "p = 43 # 57 # 55 # 50 # 53 # ds" and ds: "list_all is_digit ds" "length ds = 8"
    using assms append_take_drop_id [of 5 p] unfolding normalized_mobile_def ds_def by auto
  have "last p = last ds" "ds \<noteq> []" using p ds(2) by auto
  then have "is_digit (last p)" using ds(1) by (simp add: list_all_iff)
  then have "ustrip p = p" using p by (intro ustrip_id) (auto simp: is_uspace_def is_digit_def)
  moreover have "allowed_charset p" using ds(1) by (auto simp: p allowed_charset_def is_digit_def list_all_iff)
  moreover have "filter is_digit p = 57 # 55 # 50 # 53 # ds"
    using ds(1) by (simp add: p is_digit_def list_all_iff filter_id_conv)
  ultimately show ?thesis using assms by (simp add: normalize_israeli_mobile_def p)
qed

definition uword :: "utext \<Rightarrow> bool" where
  "uword w \<longleftrightarrow> w \<noteq> [] \<and> list_all (\<lambda>c. \<not> is_uspace c) w"

lemma usplit_words: "w \<in> set (usplit s) \<Longrightarrow> uword w"
proof (induction s rule: usplit.induct)
  case (1 s)
  let ?t = "dropWhile is_uspace s"
  show ?case
  proof (cases "?t = []")
    case True
    with 1 show ?thesis by (simp add: usplit.simps [of s])
  next
    case False
    then have "\<not> is_uspace (hd ?t)" by (metis hd_dropWhile)
    with False have "takeWhile (\<lambda>c. \<not> is_uspace c) ?t \<noteq> []" by (cases ?t) auto
    then have "uword (takeWhile (\<lambda>c. \<not> is_uspace c) ?t)"
      by (auto simp: uword_def list_all_iff dest: set_takeWhileD)
    moreover have "usplit s = takeWhile (\<lambda>c. \<not> is_uspace c) ?t # usplit (dropWhile (\<lambda>c. \<not> is_uspace c) ?t)"
      using False by (subst usplit.simps) (simp add: Let_def)
    ultimately show ?thesis using 1 False by auto
  qed
qed

lemma usplit_word_rest:
  assumes "uword w"
  shows "usplit w = [w]" "usplit (w @ 32 # s) = w # usplit s"
proof -
  have sp: "is_uspace 32" by (simp add: is_uspace_def)
  have w: "w \<noteq> []" "\<forall>c\<in>set w. \<not> is_uspace c" using assms by (auto simp: uword_def list_all_iff)
  have d: "dropWhile is_uspace (w @ t) = w @ t" for t using w by (cases w) auto
  have "usplit [] = []" by (simp add: usplit.simps)
  then show "usplit w = [w]"
    using w d [of "[]"] by (subst usplit.simps) (simp add: takeWhile_eq_all_conv [THEN iffD2] dropWhile_eq_Nil_conv [THEN iffD2])
  have "usplit (32 # s) = usplit s" by (simp add: usplit.simps [of "32 # s"] usplit.simps [of s] sp)
  then show "usplit (w @ 32 # s) = w # usplit s"
    using w d [of "32 # s"] sp by (subst usplit.simps) (simp add: takeWhile_append dropWhile_append)
qed

lemma usplit_ujoin: "\<forall>w\<in>set ws. uword w \<Longrightarrow> usplit (ujoin ws) = ws"
proof (induction ws rule: ujoin.induct)
  case 1
  show ?case by (simp add: usplit.simps)
qed (simp_all add: usplit_word_rest)

section \<open>Properties\<close>

text \<open>Phone numbers have one spelling: whatever a customer types, what is accepted normalises
  to \<open>+9725\<close> and eight digits, and normalising that again changes nothing, so the phone that
  keys customers, codes and waitlist entries is canonical.\<close>

theorem phone_canonical:
  assumes "normalize_israeli_mobile raw = Some p"
  shows "normalized_mobile p \<and> normalize_israeli_mobile p = Some p"
  using normalize_mobile_shape [OF assms] normalized_mobile_fixed by blast

theorem phone_canonical_witness:
  "normalize_israeli_mobile [43, 57, 55, 50, 53, 48, 49, 50, 51, 52, 53, 54, 55]
     = Some [43, 57, 55, 50, 53, 48, 49, 50, 51, 52, 53, 54, 55]"
proof -
  have "normalize_israeli_mobile [32, 48, 53, 48, 45, 49, 50, 51, 32, 52, 53, 54, 55]
     = Some [43, 57, 55, 50, 53, 48, 49, 50, 51, 52, 53, 54, 55]"
    by (simp add: normalize_israeli_mobile_def ustrip_def is_uspace_def allowed_charset_def
        is_digit_def normalized_mobile_def)
  then show ?thesis by (rule phone_canonical [THEN conjunct2])
qed

text \<open>Size labels are canonical: normalising strips and collapses whitespace once and for
  all, and the words of the label survive.\<close>

theorem size_label_canonical:
  "normalize_size_label (normalize_size_label s) = normalize_size_label s
   \<and> usplit (normalize_size_label s) = usplit s"
  by (simp add: normalize_size_label_def usplit_ujoin usplit_words)

end
