(* ===== verification/Otp.thy ===== *)
theory Otp
  imports Store Rate_Limit Text
begin

text \<open>
  One-time codes: \<open>OtpCodesRepository\<close> (\<open>app/db/repositories/otp_codes.py\<close>) and \<open>OtpService\<close>
  (\<open>app/notifications/service.py\<close>).

  A limiter key is a constructor instead of the formatted string, one per prefix. The service
  answers the new database, its new limiters and a result, because \<open>verify\<close> commits the attempt it
  counted before it raises. Codes and tokens that Python draws at random are arguments; \<open>matches\<close>
  compares hashes, through \<open>e_hash\<close>. The log row and the provider call of \<open>send_sms\<close> are outside:
  \<open>send\<close> answers whether a code is to be sent.
\<close>

section \<open>The repository\<close>

datatype limiter_key =
    Otp_phone_key uuid utext
  | Otp_tenant_key uuid
  | Otp_ip_key utext
  | Otp_verify_key uuid utext
  | Booking_tenant_key uuid
  | Booking_phone_key uuid utext
  | Waitlist_tenant_key uuid
  | Waitlist_phone_key uuid utext
  | Owner_sms_key uuid
  | Manage_lookup_key uuid
  | Offer_lookup_key uuid

definition OTP_TTL_SECONDS :: int where "OTP_TTL_SECONDS = 300"
definition OTP_MAX_VERIFY_ATTEMPTS :: int where "OTP_MAX_VERIFY_ATTEMPTS = 5"
definition VERIFICATION_TOKEN_TTL_SECONDS :: int where "VERIFICATION_TOKEN_TTL_SECONDS = 600"

text \<open>The table's CHECK on attempts.\<close>

definition otps_ok :: "otp_code list \<Rightarrow> bool" where
  "otps_ok rows \<longleftrightarrow> distinct (map o_id rows) \<and> list_all (\<lambda>r. 0 \<le> o_attempts r \<and> o_attempts r \<le> 50) rows"

definition active_code :: "uuid \<Rightarrow> utext \<Rightarrow> otp_code \<Rightarrow> bool" where
  "active_code tn phone r \<longleftrightarrow>
     o_tenant r = tn \<and> o_phone r = phone \<and> o_consumed_at r = None \<and> \<not> o_deleted r"

definition insert_code :: "uuid \<Rightarrow> utext \<Rightarrow> utext \<Rightarrow> instant \<Rightarrow> db \<Rightarrow> error + db \<times> otp_code" where
  "insert_code tn phone h expires s =
     (let row = \<lparr>o_id = d_next s, o_tenant = tn, o_phone = phone, o_code_hash = h,
                 o_expires_at = expires, o_attempts = 0, o_consumed_at = None, o_token_hash = None,
                 o_token_expires_at = None, o_token_consumed_at = None, o_created_at = d_now s,
                 o_deleted = False\<rparr> in
      andthen (insert_row otps_ok row (d_otps s))
        (\<lambda>rows. Inr (s\<lparr>d_otps := rows, d_next := d_next s + 1\<rparr>, row)))"

definition latest_active_by_phone :: "uuid \<Rightarrow> utext \<Rightarrow> db \<Rightarrow> otp_code option" where
  "latest_active_by_phone tn phone s =
     (case rev (sort_key o_created_at (filter (active_code tn phone) (d_otps s))) of
        [] \<Rightarrow> None | r # _ \<Rightarrow> Some r)"

definition soft_delete_active_for_phone :: "uuid \<Rightarrow> utext \<Rightarrow> db \<Rightarrow> db" where
  "soft_delete_active_for_phone tn phone s =
     s\<lparr>d_otps := update_where (active_code tn phone) (\<lambda>r. r\<lparr>o_deleted := True\<rparr>) (d_otps s)\<rparr>"

definition names_code :: "uuid \<Rightarrow> uuid \<Rightarrow> otp_code \<Rightarrow> bool" where
  "names_code tn oid r \<longleftrightarrow> o_tenant r = tn \<and> o_id r = oid \<and> \<not> o_deleted r"

text \<open>RETURNING attempts: the value after the increment, 0 when the row is gone.\<close>

definition increment_attempts :: "uuid \<Rightarrow> uuid \<Rightarrow> db \<Rightarrow> error + db \<times> int" where
  "increment_attempts tn oid s =
     andthen (update_rows otps_ok (names_code tn oid) (\<lambda>r. r\<lparr>o_attempts := o_attempts r + 1\<rparr>) (d_otps s))
       (\<lambda>(rows, hit). Inr (s\<lparr>d_otps := rows\<rparr>,
          case find (names_code tn oid) rows of None \<Rightarrow> 0 | Some r \<Rightarrow> o_attempts r))"

definition mark_consumed :: "uuid \<Rightarrow> uuid \<Rightarrow> utext \<Rightarrow> instant \<Rightarrow> db \<Rightarrow> error + db \<times> bool" where
  "mark_consumed tn oid h expires s =
     andthen (update_rows otps_ok (\<lambda>r. names_code tn oid r \<and> o_consumed_at r = None)
         (\<lambda>r. r\<lparr>o_consumed_at := Some (d_now s), o_token_hash := Some h,
               o_token_expires_at := Some expires\<rparr>) (d_otps s))
       (\<lambda>(rows, hit). Inr (s\<lparr>d_otps := rows\<rparr>, hit))"

definition spendable :: "uuid \<Rightarrow> utext \<Rightarrow> utext \<Rightarrow> instant \<Rightarrow> otp_code \<Rightarrow> bool" where
  "spendable tn phone h now r \<longleftrightarrow>
     o_tenant r = tn \<and> o_phone r = phone \<and> o_token_hash r = Some h \<and> o_token_consumed_at r = None
     \<and> (case o_token_expires_at r of None \<Rightarrow> False | Some t \<Rightarrow> t > now) \<and> \<not> o_deleted r"

definition consume_token :: "uuid \<Rightarrow> utext \<Rightarrow> utext \<Rightarrow> instant \<Rightarrow> db \<Rightarrow> error + db \<times> bool" where
  "consume_token tn phone h now s =
     andthen (update_rows otps_ok (spendable tn phone h now)
         (\<lambda>r. r\<lparr>o_token_consumed_at := Some (d_now s)\<rparr>) (d_otps s))
       (\<lambda>(rows, hit). Inr (s\<lparr>d_otps := rows\<rparr>, hit))"

section \<open>The service\<close>

record otp_limits =
  ol_phone :: "limiter_key limiter"
  ol_tenant :: "limiter_key limiter"
  ol_verify :: "limiter_key limiter"
  ol_ip :: "limiter_key limiter"

record otp_config =
  oc_phone :: limiter_cfg
  oc_tenant :: limiter_cfg
  oc_verify :: limiter_cfg
  oc_ip :: limiter_cfg
  oc_dev_code :: "utext option"
  oc_configured :: bool

text \<open>\<open>tick\<close> is the limiters' clock, \<open>now\<close> the wall clock. The answer's last part is the code to
  send, \<open>None\<close> for the silent return of a blocked phone or address.\<close>

definition send_code ::
  "env \<Rightarrow> otp_config \<Rightarrow> uuid \<Rightarrow> utext \<Rightarrow> utext option \<Rightarrow> utext \<Rightarrow> int \<Rightarrow> instant \<Rightarrow> db \<times> otp_limits
   \<Rightarrow> (db \<times> otp_limits) \<times> (error + (utext \<times> utext) option)" where
  "send_code e cfg tn raw ip code tick now st =
     (let (s, l) = st in
      case normalize_israeli_mobile raw of
        None \<Rightarrow> (st, Inl Phone_invalid)
      | Some phone \<Rightarrow>
          if \<not> oc_configured cfg then (st, Inl Sms_not_configured)
          else if is_blocked (oc_tenant cfg) (ol_tenant l) tick (Otp_tenant_key tn)
          then (st, Inl Otp_throttled)
          else if is_blocked (oc_phone cfg) (ol_phone l) tick (Otp_phone_key tn phone) then (st, Inr None)
          else if (case ip of None \<Rightarrow> False
                   | Some a \<Rightarrow> is_blocked (oc_ip cfg) (ol_ip l) tick (Otp_ip_key a)) then (st, Inr None)
          else
            let l1 = l\<lparr>ol_phone := record_failure (oc_phone cfg) (ol_phone l) tick tick (Otp_phone_key tn phone),
                       ol_tenant := record_failure (oc_tenant cfg) (ol_tenant l) tick tick (Otp_tenant_key tn),
                       ol_ip := (case ip of None \<Rightarrow> ol_ip l
                                 | Some a \<Rightarrow> record_failure (oc_ip cfg) (ol_ip l) tick tick (Otp_ip_key a))\<rparr>
            in case insert_code tn phone (e_hash e code) (now + seconds OTP_TTL_SECONDS)
                      (soft_delete_active_for_phone tn phone s) of
                 Inl err \<Rightarrow> ((s, l1), Inl err)
               | Inr (s', _) \<Rightarrow> ((s', l1), Inr (Some (phone, code))))"

definition matches :: "env \<Rightarrow> otp_config \<Rightarrow> utext \<Rightarrow> utext \<Rightarrow> bool" where
  "matches e cfg code stored \<longleftrightarrow>
     e_hash e code = stored
     \<or> (case oc_dev_code cfg of None \<Rightarrow> False | Some d \<Rightarrow> e_hash e code = e_hash e d)"

definition verify_code ::
  "env \<Rightarrow> otp_config \<Rightarrow> uuid \<Rightarrow> utext \<Rightarrow> utext \<Rightarrow> utext \<Rightarrow> int \<Rightarrow> instant \<Rightarrow> db \<times> otp_limits
   \<Rightarrow> (db \<times> otp_limits) \<times> (error + utext \<times> instant)" where
  "verify_code e cfg tn raw code minted tick now st =
     (let (s, l) = st in
      case normalize_israeli_mobile raw of
        None \<Rightarrow> (st, Inl Phone_invalid)
      | Some phone \<Rightarrow>
          if is_blocked (oc_verify cfg) (ol_verify l) tick (Otp_verify_key tn phone)
          then (st, Inl Otp_throttled)
          else
            let l1 = l\<lparr>ol_verify := record_failure (oc_verify cfg) (ol_verify l) tick tick
                         (Otp_verify_key tn phone)\<rparr>
            in case latest_active_by_phone tn phone s of
                 None \<Rightarrow> ((s, l1), Inl Otp_invalid)
               | Some row \<Rightarrow>
                   if o_attempts row \<ge> OTP_MAX_VERIFY_ATTEMPTS then ((s, l1), Inl Otp_invalid)
                   else case increment_attempts tn (o_id row) s of
                          Inl err \<Rightarrow> ((s, l1), Inl err)
                        | Inr (s1, attempts) \<Rightarrow>
                            if attempts > OTP_MAX_VERIFY_ATTEMPTS then ((s1, l1), Inl Otp_invalid)
                            else if o_expires_at row \<le> now then ((s1, l1), Inl Otp_expired)
                            else if \<not> matches e cfg code (o_code_hash row)
                            then ((s1, l1), Inl Otp_invalid)
                            else
                              let expires = now + seconds VERIFICATION_TOKEN_TTL_SECONDS in
                              case mark_consumed tn (o_id row) (e_hash e minted) expires s1 of
                                Inl err \<Rightarrow> ((s, l1), Inl err)
                              | Inr (s2, consumed) \<Rightarrow>
                                  if \<not> consumed then ((s2, l1), Inl Otp_invalid)
                                  else ((s2, l1), Inr (minted, expires)))"

definition consume_verification ::
  "env \<Rightarrow> uuid \<Rightarrow> utext \<Rightarrow> utext \<Rightarrow> instant \<Rightarrow> db \<Rightarrow> error + db \<times> bool" where
  "consume_verification e tn raw token now s =
     andthen (need Phone_invalid (normalize_israeli_mobile raw))
       (\<lambda>phone. consume_token tn phone (e_hash e token) now s)"

section \<open>Lemmas\<close>

interpretation ot: guarded_table o_id o_tenant o_deleted otps_ok
  by unfold_locales (simp add: otps_ok_def)

lemma names_code_named: "names_code = ot.named"
  by (auto simp: names_code_def ot.named_def fun_eq_iff)

lemma latest_active_SomeD:
  assumes "latest_active_by_phone tn phone s = Some row"
  shows "row \<in> set (d_otps s)" "active_code tn phone row"
proof -
  have "row \<in> set (rev (sort_key o_created_at (filter (active_code tn phone) (d_otps s))))"
    using assms unfolding latest_active_by_phone_def by (metis (no_types, lifting) list.case_eq_if
      list.set_sel(1) option.discI option.inject)
  then show "row \<in> set (d_otps s)" "active_code tn phone row" by simp_all
qed

lemma latest_active_split:
  assumes ok: "otps_ok (d_otps s)" and row: "latest_active_by_phone tn phone s = Some row"
  obtains pre post where "d_otps s = pre @ row # post"
    "\<And>f. update_where (ot.named tn (o_id row)) f (d_otps s) = pre @ f row # post"
    "ot.fetch tn (o_id row) (d_otps s) = Some row"
proof -
  have r: "row \<in> set (d_otps s)" "o_tenant row = tn" "\<not> o_deleted row"
    using latest_active_SomeD [OF row] by (auto simp: active_code_def)
  have f: "ot.fetch tn (o_id row) (d_otps s) = Some row"
    using ot.fetch_mem [OF ok r(1,3)] r(2) by simp
  show ?thesis by (rule ot.one_row_all [OF ok f]) (rule that [OF _ _ f])
qed

lemma increment_run:
  assumes ok: "otps_ok (d_otps s)" and row: "latest_active_by_phone tn phone s = Some row"
    and few: "o_attempts row < OTP_MAX_VERIFY_ATTEMPTS"
  obtains pre post where "d_otps s = pre @ row # post"
    "increment_attempts tn (o_id row) s =
       Inr (s\<lparr>d_otps := pre @ row\<lparr>o_attempts := o_attempts row + 1\<rparr> # post\<rparr>, o_attempts row + 1)"
    "otps_ok (pre @ row\<lparr>o_attempts := o_attempts row + 1\<rparr> # post)"
proof -
  let ?f = "\<lambda>r. r\<lparr>o_attempts := o_attempts r + 1\<rparr>"
  obtain pre post where sp: "d_otps s = pre @ row # post"
    and up: "\<And>f. update_where (ot.named tn (o_id row)) f (d_otps s) = pre @ f row # post"
    and f: "ot.fetch tn (o_id row) (d_otps s) = Some row"
    by (rule latest_active_split [OF ok row]) blast
  have ok': "otps_ok (pre @ ?f row # post)"
    using ok few by (auto simp: sp otps_ok_def OTP_MAX_VERIFY_ATTEMPTS_def)
  have "list_ex (ot.named tn (o_id row)) (d_otps s)"
    using ot.guard_hit [OF ok, of tn "o_id row" "\<lambda>_. True"] f by simp
  moreover have "ot.fetch tn (o_id row) (pre @ ?f row # post) = Some (?f row)"
    using ot.fetch_write [of ?f tn "o_id row" tn "o_id row" "d_otps s"] f up [of ?f]
    by (simp add: ot.keeps_name_def)
  ultimately have "increment_attempts tn (o_id row) s =
       Inr (s\<lparr>d_otps := pre @ ?f row # post\<rparr>, o_attempts row + 1)"
    using ok' up [of ?f]
    by (simp add: increment_attempts_def update_rows_def Let_def names_code_named flip: ot.fetch_def)
  from that [OF sp this ok'] show ?thesis .
qed

text \<open>Whether a verify gets as far as looking at the code, and what one phone's codes still allow.\<close>

definition examines :: "otp_config \<Rightarrow> uuid \<Rightarrow> utext \<Rightarrow> int \<Rightarrow> db \<times> otp_limits \<Rightarrow> bool" where
  "examines cfg tn phone tick st \<longleftrightarrow>
     \<not> is_blocked (oc_verify cfg) (ol_verify (snd st)) tick (Otp_verify_key tn phone)
     \<and> (case latest_active_by_phone tn phone (fst st) of
          None \<Rightarrow> False | Some row \<Rightarrow> o_attempts row < OTP_MAX_VERIFY_ATTEMPTS)"

definition guesses_left :: "uuid \<Rightarrow> utext \<Rightarrow> db \<Rightarrow> nat" where
  "guesses_left tn phone s =
     sum_list (map (\<lambda>r. nat (OTP_MAX_VERIFY_ATTEMPTS - o_attempts r)) (filter (active_code tn phone) (d_otps s)))"

definition counted :: "otp_code \<Rightarrow> otp_code" where
  "counted r = r\<lparr>o_attempts := o_attempts r + 1\<rparr>"

definition consumed :: "instant \<Rightarrow> utext \<Rightarrow> instant \<Rightarrow> otp_code \<Rightarrow> otp_code" where
  "consumed at h expires r =
     (counted r)\<lparr>o_consumed_at := Some at, o_token_hash := Some h, o_token_expires_at := Some expires\<rparr>"

lemma mark_consumed_run:
  assumes ok: "otps_ok (pre @ counted row # post)" and act: "active_code tn phone row"
  shows "mark_consumed tn (o_id row) h expires (s\<lparr>d_otps := pre @ counted row # post\<rparr>) =
    Inr (s\<lparr>d_otps := pre @ consumed (d_now s) h expires row # post\<rparr>, True)"
proof -
  let ?rows = "pre @ counted row # post"
  let ?g = "\<lambda>r. o_consumed_at r = None"
  let ?f = "\<lambda>r. r\<lparr>o_consumed_at := Some (d_now s), o_token_hash := Some h, o_token_expires_at := Some expires\<rparr>"
  have c: "counted row \<in> set ?rows" "\<not> o_deleted (counted row)" "o_tenant (counted row) = tn"
    "o_id (counted row) = o_id row" "o_consumed_at (counted row) = None"
    using act by (auto simp: counted_def active_code_def)
  have f: "ot.fetch tn (o_id row) ?rows = Some (counted row)"
    using ot.fetch_mem [OF ok c(1,2)] c(3,4) by simp
  obtain pre' post' where sp: "?rows = pre' @ counted row # post'"
    and up: "update_where (ot.named tn (o_id row)) ?f ?rows = pre' @ ?f (counted row) # post'"
    and others: "\<forall>x\<in>set (pre' @ post'). o_id x \<noteq> o_id row"
    by (rule ot.one_row [OF ok f, where f = ?f])
  have "counted row \<notin> set pre" "counted row \<notin> set post"
    using ok by (auto simp: otps_ok_def)
  with sp have "pre' = pre \<and> post' = post" by (simp add: append_Cons_eq_iff)
  then have "update_where (ot.named tn (o_id row)) ?f ?rows = pre @ consumed (d_now s) h expires row # post"
    using up by (simp add: consumed_def)
  moreover have "otps_ok (pre @ consumed (d_now s) h expires row # post)"
    using ok by (simp add: otps_ok_def consumed_def counted_def)
  ultimately show ?thesis
    using ot.run_update [OF ok, of tn "o_id row" ?g ?f] f c(5)
    by (simp add: mark_consumed_def names_code_named)
qed

lemma verify_blind:
  assumes "normalize_israeli_mobile raw = Some phone" "\<not> examines cfg tn phone tick (s, l)"
  shows "\<exists>l' err. verify_code e cfg tn raw code minted tick now (s, l) = ((s, l'), Inl err)"
  using assms by (auto simp: verify_code_def examines_def Let_def not_less split: option.splits)

lemma verify_examined:
  assumes ok: "otps_ok (d_otps s)" and ph: "normalize_israeli_mobile raw = Some phone"
    and ex: "examines cfg tn phone tick (s, l)"
  obtains pre row post l' where "d_otps s = pre @ row # post" "active_code tn phone row"
    "o_attempts row < OTP_MAX_VERIFY_ATTEMPTS"
    "latest_active_by_phone tn phone s = Some row"
    "verify_code e cfg tn raw code minted tick now (s, l) =
       (if now < o_expires_at row \<and> matches e cfg code (o_code_hash row)
        then ((s\<lparr>d_otps := pre @ consumed (d_now s) (e_hash e minted)
                  (now + seconds VERIFICATION_TOKEN_TTL_SECONDS) row # post\<rparr>, l'),
              Inr (minted, now + seconds VERIFICATION_TOKEN_TTL_SECONDS))
        else ((s\<lparr>d_otps := pre @ counted row # post\<rparr>, l'),
              Inl (if now < o_expires_at row then Otp_invalid else Otp_expired)))"
    "otps_ok (pre @ counted row # post)"
proof -
  from ex obtain row where row: "latest_active_by_phone tn phone s = Some row"
    and few: "o_attempts row < OTP_MAX_VERIFY_ATTEMPTS"
    and nb: "\<not> is_blocked (oc_verify cfg) (ol_verify l) tick (Otp_verify_key tn phone)"
    by (auto simp: examines_def split: option.splits)
  have act: "active_code tn phone row" by (rule latest_active_SomeD [OF row])
  obtain pre post where sp: "d_otps s = pre @ row # post"
    and inc: "increment_attempts tn (o_id row) s =
       Inr (s\<lparr>d_otps := pre @ counted row # post\<rparr>, o_attempts row + 1)"
    and ok': "otps_ok (pre @ counted row # post)"
    by (rule increment_run [OF ok row few]) (simp add: counted_def)
  have "o_attempts row + 1 \<le> OTP_MAX_VERIFY_ATTEMPTS" using few by simp
  then show ?thesis
    using that [OF sp act few row _ ok', where l' = "l\<lparr>ol_verify := record_failure (oc_verify cfg)
        (ol_verify l) tick tick (Otp_verify_key tn phone)\<rparr>"]
      nb few inc mark_consumed_run [OF ok' act, of "e_hash e minted" _ s]
    by (simp add: verify_code_def ph row Let_def not_le not_less)
qed

lemma guesses_left_split:
  "d_otps s = pre @ row # post \<Longrightarrow> guesses_left tn phone (s\<lparr>d_otps := pre @ r # post\<rparr>) +
     (if active_code tn phone row then nat (OTP_MAX_VERIFY_ATTEMPTS - o_attempts row) else 0)
   = guesses_left tn phone s +
     (if active_code tn phone r then nat (OTP_MAX_VERIFY_ATTEMPTS - o_attempts r) else 0)"
  by (simp add: guesses_left_def)

lemma consume_token_run:
  assumes "otps_ok (d_otps s)"
  shows "consume_token tn phone h now s =
    Inr (s\<lparr>d_otps := update_where (spendable tn phone h now)
               (\<lambda>r. r\<lparr>o_token_consumed_at := Some (d_now s)\<rparr>) (d_otps s)\<rparr>,
      list_ex (spendable tn phone h now) (d_otps s))"
proof -
  have "otps_ok (update_where (spendable tn phone h now) (\<lambda>r. r\<lparr>o_token_consumed_at := Some (d_now s)\<rparr>) (d_otps s))"
    using assms by (auto simp: otps_ok_def map_update_where list_all_iff set_update_where)
  then show ?thesis by (simp add: consume_token_def update_rows_def Let_def update_where_none)
qed

lemma spent_not_spendable:
  assumes "now \<le> t"
    and "rows' = update_where (spendable tn phone h now) (\<lambda>r. r\<lparr>o_token_consumed_at := Some at\<rparr>) rows"
  shows "\<not> list_ex (spendable tn phone h t) rows'"
proof
  let ?f = "\<lambda>x. if spendable tn phone h now x then x\<lparr>o_token_consumed_at := Some at\<rparr> else x"
  assume "list_ex (spendable tn phone h t) rows'"
  then obtain r where "r \<in> set rows'" "spendable tn phone h t r" unfolding list_ex_iff by blast
  then obtain x where "r = ?f x" "spendable tn phone h t r"
    by (auto simp: assms(2) update_where_def simp del: if_image_distrib)
  with assms(1) show False
    by (cases "spendable tn phone h now x") (auto simp: spendable_def split: option.splits)
qed

section \<open>Properties\<close>

text \<open>A run of verify requests for one phone, each with its own code, token and clocks, and how many
  of them had their code looked at.\<close>

type_synonym verify_request = "utext \<times> utext \<times> int \<times> instant"

fun examined ::
  "env \<Rightarrow> otp_config \<Rightarrow> uuid \<Rightarrow> utext \<Rightarrow> verify_request list \<Rightarrow> db \<times> otp_limits \<Rightarrow> nat" where
  "examined e cfg tn phone [] st = 0"
| "examined e cfg tn phone ((code, minted, tick, now) # reqs) st =
     (if examines cfg tn phone tick st then 1 else 0)
     + examined e cfg tn phone reqs (fst (verify_code e cfg tn phone code minted tick now st))"

text \<open>Guessing a code is bounded. Whatever codes are submitted for a phone, in whatever
  order and at whatever times, and whatever the limiter lets through, the service looks at no more
  of them than the phone's unused codes have attempts left: five per code sent.\<close>

theorem otp_guesses_bounded:
  assumes "otps_ok (d_otps (fst st))" "normalized_mobile phone"
  shows "examined e cfg tn phone reqs st \<le> guesses_left tn phone (fst st)"
  using assms(1)
proof (induction reqs arbitrary: st)
  case (Cons q reqs)
  obtain code minted tick now where q: "q = (code, minted, tick, now)" by (metis prod_cases4)
  obtain s l where st: "st = (s, l)" by fastforce
  have ph: "normalize_israeli_mobile phone = Some phone" by (rule normalized_mobile_fixed [OF assms(2)])
  show ?case
  proof (cases "examines cfg tn phone tick (s, l)")
    case False
    obtain l' err where "verify_code e cfg tn phone code minted tick now (s, l) = ((s, l'), Inl err)"
      using verify_blind [OF ph False] by blast
    with False Cons.IH [of "(s, l')"] Cons.prems st q show ?thesis by simp
  next
    case True
    have ok: "otps_ok (d_otps s)" using Cons.prems st by simp
    obtain pre row post l' where sp: "d_otps s = pre @ row # post" and act: "active_code tn phone row"
      and few: "o_attempts row < OTP_MAX_VERIFY_ATTEMPTS"
      and run: "verify_code e cfg tn phone code minted tick now (s, l) =
       (if now < o_expires_at row \<and> matches e cfg code (o_code_hash row)
        then ((s\<lparr>d_otps := pre @ consumed (d_now s) (e_hash e minted)
                  (now + seconds VERIFICATION_TOKEN_TTL_SECONDS) row # post\<rparr>, l'),
              Inr (minted, now + seconds VERIFICATION_TOKEN_TTL_SECONDS))
        else ((s\<lparr>d_otps := pre @ counted row # post\<rparr>, l'),
              Inl (if now < o_expires_at row then Otp_invalid else Otp_expired)))"
      and ok': "otps_ok (pre @ counted row # post)"
      by (rule verify_examined [OF ok ph True])
    define r where "r = (if now < o_expires_at row \<and> matches e cfg code (o_code_hash row)
        then consumed (d_now s) (e_hash e minted) (now + seconds VERIFICATION_TOKEN_TTL_SECONDS) row
        else counted row)"
    have next_st: "fst (verify_code e cfg tn phone code minted tick now (s, l)) =
        (s\<lparr>d_otps := pre @ r # post\<rparr>, l')"
      by (simp add: run r_def)
    have okr: "otps_ok (pre @ r # post)" using ok' by (auto simp: r_def otps_ok_def consumed_def counted_def)
    have "guesses_left tn phone (s\<lparr>d_otps := pre @ r # post\<rparr>) + 1 \<le> guesses_left tn phone s"
      using guesses_left_split [OF sp, of tn phone r] act few
      by (auto simp: r_def active_code_def consumed_def counted_def split: if_splits)
    with True Cons.IH [of "(s\<lparr>d_otps := pre @ r # post\<rparr>, l')"] okr next_st st q show ?thesis by simp
  qed
qed simp

definition sample_code :: otp_code where
  "sample_code =
     \<lparr>o_id = 3, o_tenant = 4, o_phone = [43, 57, 55, 50, 53, 48, 49, 50, 51, 52, 53, 54, 55],
      o_code_hash = [2], o_expires_at = 100, o_attempts = 4, o_consumed_at = None,
      o_token_hash = None, o_token_expires_at = None, o_token_consumed_at = None,
      o_created_at = 0, o_deleted = False\<rparr>"

definition sample_otp_config :: otp_config where
  "sample_otp_config =
     \<lparr>oc_phone = \<lparr>max_attempts = 3, window_length = 900\<rparr>, oc_tenant = \<lparr>max_attempts = 100, window_length = 900\<rparr>,
      oc_verify = \<lparr>max_attempts = 10, window_length = 900\<rparr>, oc_ip = \<lparr>max_attempts = 10, window_length = 900\<rparr>,
      oc_dev_code = None, oc_configured = True\<rparr>"

definition sample_env :: env where
  "sample_env = \<lparr>e_zone = fixed_offset 2, e_hash = (\<lambda>t. t), e_lower = (\<lambda>t. t)\<rparr>"

definition fresh_otp_limits :: otp_limits where
  "fresh_otp_limits = \<lparr>ol_phone = new_limiter, ol_tenant = new_limiter, ol_verify = new_limiter, ol_ip = new_limiter\<rparr>"

theorem otp_guesses_bounded_witness:
  "examined sample_env sample_otp_config 4 [43, 57, 55, 50, 53, 48, 49, 50, 51, 52, 53, 54, 55]
     [([5], [9], 0, 1), ([3], [9], 0, 2), ([2], [9], 0, 3)] (empty_db\<lparr>d_otps := [sample_code]\<rparr>, fresh_otp_limits) \<le> 1"
proof -
  let ?p = "[43, 57, 55, 50, 53, 48, 49, 50, 51, 52, 53, 54, 55] :: utext"
  have "otps_ok (d_otps (fst (empty_db\<lparr>d_otps := [sample_code]\<rparr>, fresh_otp_limits)))"
    by (simp add: otps_ok_def sample_code_def)
  moreover have "normalized_mobile ?p" by (simp add: normalized_mobile_def is_digit_def)
  moreover have "guesses_left 4 ?p (fst (empty_db\<lparr>d_otps := [sample_code]\<rparr>, fresh_otp_limits)) = 1"
    by (simp add: guesses_left_def sample_code_def active_code_def OTP_MAX_VERIFY_ATTEMPTS_def)
  ultimately show ?thesis using otp_guesses_bounded by metis
qed

text \<open>A token belongs to a code that was consumed; every operation keeps it so.\<close>

definition codes_wf :: "otp_code list \<Rightarrow> bool" where
  "codes_wf rows \<longleftrightarrow>
     list_all (\<lambda>r. o_consumed_at r = None \<longrightarrow> o_token_hash r = None \<and> o_token_consumed_at r = None) rows"

lemma codes_wf_ops:
  assumes "codes_wf (d_otps s)"
  shows "insert_code tn phone h expires s = Inr (s', row) \<Longrightarrow> codes_wf (d_otps s')"
    and "codes_wf (d_otps (soft_delete_active_for_phone tn phone s))"
    and "increment_attempts tn oid s = Inr (s', n) \<Longrightarrow> codes_wf (d_otps s')"
    and "mark_consumed tn oid h expires s = Inr (s', ok) \<Longrightarrow> codes_wf (d_otps s')"
    and "consume_token tn phone h now s = Inr (s', ok) \<Longrightarrow> codes_wf (d_otps s')"
  using assms
  by (auto simp: codes_wf_def list_all_iff insert_code_def soft_delete_active_for_phone_def
      increment_attempts_def mark_consumed_def consume_token_def handler_simps update_rows_Inr
      set_update_where spendable_def Let_def)

text \<open>C17. A verification is earned and spent once. \<open>verify\<close> succeeds only for the phone's latest
  live code, before its fifth attempt was used up, before it expires, and on a matching code (or
  the development one); the token it hands out is accepted for that phone until it expires, and
  once accepted never again.\<close>

theorem verification_earned_and_spent_once:
  assumes "otps_ok (d_otps s)" "codes_wf (d_otps s)"
    and "verify_code e cfg tn raw code minted tick now (s, l) = ((s', l'), Inr (token, expires))"
    and "t < expires" "t \<le> t'"
  shows "\<exists>phone row s1 s2. normalize_israeli_mobile raw = Some phone
     \<and> latest_active_by_phone tn phone s = Some row
     \<and> o_attempts row < OTP_MAX_VERIFY_ATTEMPTS \<and> now < o_expires_at row
     \<and> matches e cfg code (o_code_hash row) \<and> token = minted
     \<and> consume_verification e tn raw token t s' = Inr (s1, True)
     \<and> consume_verification e tn raw token t' s1 = Inr (s2, False)"
proof -
  obtain phone where ph: "normalize_israeli_mobile raw = Some phone"
    using assms(3) by (auto simp: verify_code_def split: option.splits)
  have ex: "examines cfg tn phone tick (s, l)"
  proof (rule ccontr)
    assume "\<not> examines cfg tn phone tick (s, l)"
    from verify_blind [OF ph this, of e code minted now] assms(3) show False by auto
  qed
  obtain pre row post l'' where sp: "d_otps s = pre @ row # post" and act: "active_code tn phone row"
    and few: "o_attempts row < OTP_MAX_VERIFY_ATTEMPTS"
    and latest: "latest_active_by_phone tn phone s = Some row"
    and run: "verify_code e cfg tn raw code minted tick now (s, l) =
     (if now < o_expires_at row \<and> matches e cfg code (o_code_hash row)
      then ((s\<lparr>d_otps := pre @ consumed (d_now s) (e_hash e minted)
                (now + seconds VERIFICATION_TOKEN_TTL_SECONDS) row # post\<rparr>, l''),
            Inr (minted, now + seconds VERIFICATION_TOKEN_TTL_SECONDS))
      else ((s\<lparr>d_otps := pre @ counted row # post\<rparr>, l''),
            Inl (if now < o_expires_at row then Otp_invalid else Otp_expired)))"
    and ok': "otps_ok (pre @ counted row # post)"
    by (rule verify_examined [OF assms(1) ph ex])
  have good: "now < o_expires_at row \<and> matches e cfg code (o_code_hash row)"
    using run assms(3) by (auto split: if_splits)
  with run assms(3) have s': "s' = s\<lparr>d_otps := pre @ consumed (d_now s) (e_hash e minted) expires row # post\<rparr>"
    and tk: "token = minted" by auto
  let ?h = "e_hash e minted"
  have oks': "otps_ok (d_otps s')" using ok' by (simp add: s' otps_ok_def consumed_def counted_def)
  define s1 where "s1 = s'\<lparr>d_otps := update_where (spendable tn phone ?h t)
               (\<lambda>r. r\<lparr>o_token_consumed_at := Some (d_now s')\<rparr>) (d_otps s')\<rparr>"
  have "o_token_consumed_at row = None"
    using assms(2) act by (auto simp: codes_wf_def sp active_code_def)
  then have "list_ex (spendable tn phone ?h t) (d_otps s')"
    using assms(4) act by (simp add: s' spendable_def consumed_def counted_def active_code_def)
  then have c1: "consume_verification e tn raw token t s' = Inr (s1, True)"
    by (simp add: consume_verification_def ph tk consume_token_run [OF oks'] s1_def)
  have oks1: "otps_ok (d_otps s1)"
    using oks' by (auto simp: s1_def otps_ok_def map_update_where list_all_iff set_update_where)
  have "\<not> list_ex (spendable tn phone ?h t') (d_otps s1)"
    by (rule spent_not_spendable [OF assms(5)]) (simp add: s1_def)
  then obtain s2 where "consume_verification e tn raw token t' s1 = Inr (s2, False)"
    by (simp add: consume_verification_def ph tk consume_token_run [OF oks1])
  with ph latest few good tk c1 show ?thesis by blast
qed

theorem verification_earned_and_spent_once_witness:
  "\<exists>s' s1 s2. consume_verification sample_env 4 (o_phone sample_code) [9] 50 s' = Inr (s1, True)
     \<and> consume_verification sample_env 4 (o_phone sample_code) [9] 60 s1 = Inr (s2, False)"
proof -
  let ?s = "empty_db\<lparr>d_otps := [sample_code]\<rparr>"
  let ?p = "[43, 57, 55, 50, 53, 48, 49, 50, 51, 52, 53, 54, 55] :: utext"
  have ok: "otps_ok (d_otps ?s)" "codes_wf (d_otps ?s)"
    by (simp_all add: otps_ok_def codes_wf_def sample_code_def)
  have n: "normalize_israeli_mobile ?p = Some ?p"
    by (rule normalized_mobile_fixed) (simp add: normalized_mobile_def is_digit_def)
  have l: "latest_active_by_phone 4 ?p ?s = Some sample_code"
    by (simp add: latest_active_by_phone_def active_code_def sample_code_def)
  have "examines sample_otp_config 4 ?p 0 (?s, fresh_otp_limits)"
    using l by (simp add: examines_def is_blocked_def current_count_view sample_otp_config_def
        fresh_otp_limits_def) (simp add: sample_code_def OTP_MAX_VERIFY_ATTEMPTS_def)
  from verify_examined [OF ok(1) n this, of sample_env "[2]" "[9]" 5]
  obtain s' l' where "verify_code sample_env sample_otp_config 4 ?p [2] [9] 0 5 (?s, fresh_otp_limits)
      = ((s', l'), Inr ([9], 5 + seconds VERIFICATION_TOKEN_TTL_SECONDS))"
    using l by (fastforce simp: matches_def sample_env_def sample_code_def)
  from verification_earned_and_spent_once [OF ok this, of 50 60]
  show ?thesis
    by (auto simp: sample_code_def VERIFICATION_TOKEN_TTL_SECONDS_def seconds_def)
qed

end
