(* ===== verification/Booking_Service.thy ===== *)
theory Booking_Service
  imports Messages Otp
begin

text \<open>
  Booking creation: \<open>app/booking/service.py\<close> up to the deposit, the request validation of
  \<open>app/booking/validation.py\<close> and the database half of \<open>app/booking/slots_io.py\<close>.

  \<open>claim_seat\<close> is the locked section; \<open>create_in_session\<close> the rest of the transaction after the
  verification was consumed; \<open>create_booking\<close> the whole method, with its two limiters. A request
  runs as one step on the database: the advisory lock orders the claims of a tenant, and a raised
  error rolls the transaction back, so on an error the caller keeps the database it had, and only
  the limiters keep what they counted.
\<close>

section \<open>Settings\<close>

text \<open>\<open>tenants.settings\<close> is a JSON object; a float is its mantissa and exponent.\<close>

datatype json =
    J_null
  | J_bool bool
  | J_int int
  | J_float int int
  | J_text utext
  | J_list "json list"
  | J_object "(string \<times> json) list"

definition truthy :: "json \<Rightarrow> bool" where
  "truthy j = (case j of J_null \<Rightarrow> False | J_bool b \<Rightarrow> b | J_int n \<Rightarrow> n \<noteq> 0 | J_float m _ \<Rightarrow> m \<noteq> 0
     | J_text t \<Rightarrow> t \<noteq> [] | J_list js \<Rightarrow> js \<noteq> [] | J_object kvs \<Rightarrow> kvs \<noteq> [])"

definition deposits_enabled :: "(string \<times> json) list option \<Rightarrow> bool" where
  "deposits_enabled settings =
     (case (case settings of None \<Rightarrow> None | Some kvs \<Rightarrow> map_of kvs ''toggles'') of
        Some (J_object toggles) \<Rightarrow>
          (case map_of toggles ''deposits_enabled'' of None \<Rightarrow> False | Some j \<Rightarrow> truthy j)
      | _ \<Rightarrow> False)"

definition deposit_due :: "(string \<times> json) list option \<Rightarrow> appointment_type \<Rightarrow> bool \<Rightarrow> bool" where
  "deposit_due settings t gateway_connected \<longleftrightarrow>
     deposits_enabled settings \<and> t_deposit_required t
     \<and> (case t_deposit_amount t of None \<Rightarrow> 0 | Some a \<Rightarrow> a) > 0 \<and> gateway_connected"

section \<open>Validation\<close>

definition MAX_CUSTOMER_NAME_LENGTH :: nat where "MAX_CUSTOMER_NAME_LENGTH = 80"
definition MAX_BOOKING_NOTES_LENGTH :: nat where "MAX_BOOKING_NOTES_LENGTH = 500"

definition control_char :: "nat \<Rightarrow> bool" where
  "control_char c \<longleftrightarrow> c \<le> 31 \<or> c = 127"

definition control_char_except_ws :: "nat \<Rightarrow> bool" where
  "control_char_except_ws c \<longleftrightarrow> c \<le> 8 \<or> c = 11 \<or> c = 12 \<or> (14 \<le> c \<and> c \<le> 31) \<or> c = 127"

definition validate_customer_name :: "utext \<Rightarrow> error + unit" where
  "validate_customer_name name =
     andthen (ensure (Booking_validation ''name must not be blank'') (ustrip name \<noteq> [])) (\<lambda>_.
     andthen (ensure (Booking_validation ''name is too long'') (length name \<le> MAX_CUSTOMER_NAME_LENGTH)) (\<lambda>_.
     ensure (Booking_validation ''name contains invalid characters'') (\<not> list_ex control_char name)))"

definition validate_booking_request ::
  "utext \<Rightarrow> utext option \<Rightarrow> uuid option \<Rightarrow> utext option \<Rightarrow> error + unit" where
  "validate_booking_request name notes dress_id dress_size =
     andthen (validate_customer_name name) (\<lambda>_.
     andthen (case notes of
                None \<Rightarrow> Inr ()
              | Some n \<Rightarrow>
                  andthen (ensure (Booking_validation ''notes is too long'')
                             (length n \<le> MAX_BOOKING_NOTES_LENGTH)) (\<lambda>_.
                  ensure (Booking_validation ''notes contains invalid characters'')
                    (\<not> list_ex control_char_except_ws n))) (\<lambda>_.
     andthen (ensure (Booking_validation ''dress_size is required when dress_id is given'')
                (dress_id = None \<or> (case dress_size of None \<Rightarrow> False | Some z \<Rightarrow> ustrip z \<noteq> []))) (\<lambda>_.
     ensure (Booking_validation ''dress_size requires dress_id'')
       (\<not> (dress_id = None \<and> dress_size \<noteq> None)))))"

section \<open>Availability, read from the database\<close>

definition day_slots :: "env \<Rightarrow> uuid \<Rightarrow> date \<Rightarrow> instant \<Rightarrow> db \<Rightarrow> slot list" where
  "day_slots e tn day now s =
     materialize_slots (e_zone e) (list_active_rules tn s) (list_active_exceptions tn day day s)
       (count_by_start tn (midnight (e_zone e) day) (midnight (e_zone e) (day + 1)) s)
       day day now"

definition offered_slot :: "env \<Rightarrow> uuid \<Rightarrow> instant \<Rightarrow> instant \<Rightarrow> db \<Rightarrow> slot option" where
  "offered_slot e tn starts_at now s =
     find (\<lambda>sl. s_starts_at sl = starts_at)
       (day_slots e tn (fst (to_local (e_zone e) starts_at)) now s)"

definition forward_capacity_of :: "env \<Rightarrow> uuid \<Rightarrow> date \<Rightarrow> date \<Rightarrow> instant \<Rightarrow> db \<Rightarrow> forward_capacity" where
  "forward_capacity_of e tn window_start window_end now s =
     grid_totals
       (materialize_slots (e_zone e) (list_active_rules tn s)
          (list_active_exceptions tn window_start window_end s) (\<lambda>_. 0) window_start window_end now)
       (count_by_start tn (midnight (e_zone e) window_start) (midnight (e_zone e) (window_end + 1)) s)"

section \<open>The locked claim\<close>

record claim_details =
  k_dress :: "uuid option"
  k_dress_name :: "utext option"
  k_dress_size :: "utext option"
  k_notes :: "utext option"

definition no_details :: claim_details where
  "no_details = \<lparr>k_dress = None, k_dress_name = None, k_dress_size = None, k_notes = None\<rparr>"

definition claim_seat ::
  "env \<Rightarrow> uuid \<Rightarrow> instant \<Rightarrow> instant \<Rightarrow> uuid \<Rightarrow> appointment_type \<Rightarrow> int \<Rightarrow> utext \<Rightarrow> bool
   \<Rightarrow> claim_details \<Rightarrow> db \<Rightarrow> error + db \<times> booking" where
  "claim_seat e tn starts_at now cid t terms token due k s =
     andthen (need Slot_unavailable (offered_slot e tn starts_at now s)) (\<lambda>slot.
     andthen (need Slot_unavailable
                (lowest_free (s_capacity slot) (active_seats_at tn (s_starts_at slot) s))) (\<lambda>seat.
     case insert_booking tn cid (t_id t) (s_starts_at slot) seat terms now (t_name t)
            (if due then Pending_payment else Confirmed)
            (k_dress k) (k_dress_name k) (k_dress_size k) (k_notes k) (Some (e_hash e token)) s of
       Inl _ \<Rightarrow> Inl Slot_unavailable
     | Inr (s1, b) \<Rightarrow>
         (case reminder_send_after (b_starts_at b) now of
            None \<Rightarrow> Inr (s1, b)
          | Some at \<Rightarrow>
              andthen (insert_message tn Reminder at (Some token) (Some (b_id b)) None s1)
                (\<lambda>(s2, _). Inr (s2, b)))))"

section \<open>Creating a booking\<close>

record booking_request =
  q_raw_phone :: utext
  q_token :: utext
  q_name :: utext
  q_type :: uuid
  q_starts_at :: instant
  q_terms_version :: int
  q_dress :: "uuid option"
  q_dress_size :: "utext option"
  q_notes :: "utext option"
  q_marketing_consent :: bool

record booking_claim =
  bc_booking :: booking
  bc_created :: bool
  bc_manage_token :: "utext option"
  bc_deposit_due :: bool
  bc_deposit_amount :: int

definition deposit_amount :: "appointment_type \<Rightarrow> int" where
  "deposit_amount t = (case t_deposit_amount t of None \<Rightarrow> 0 | Some a \<Rightarrow> a)"

text \<open>The dress the customer named, with the size label as the boutique spells it.\<close>

definition match_dress ::
  "env \<Rightarrow> uuid \<Rightarrow> booking_request \<Rightarrow> db \<Rightarrow> error + utext option \<times> utext option" where
  "match_dress e tn q s =
     (case q_dress q of
        None \<Rightarrow> Inr (None, None)
      | Some gid \<Rightarrow>
          andthen (need (Booking_validation ''dress_size is required when dress_id is given'')
                     (q_dress_size q)) (\<lambda>size.
          andthen (need Booking_not_found (dress_by_id tn gid s)) (\<lambda>g.
          let snapshot = normalize_size_label size in
          andthen (need Booking_not_found
              (find (\<lambda>label. e_lower e label = e_lower e snapshot)
                 (map gv_size_label (list_variants tn gid s)))) (\<lambda>label.
          Inr (Some (g_name g), Some label)))))"

definition consent_if :: "bool \<Rightarrow> uuid \<Rightarrow> uuid \<Rightarrow> db \<Rightarrow> error + db" where
  "consent_if given tn cid s =
     (if given then andthen (record_marketing_consent tn cid s) (\<lambda>(s', _). Inr s') else Inr s)"

definition create_in_session ::
  "env \<Rightarrow> uuid \<Rightarrow> utext \<Rightarrow> booking_request \<Rightarrow> (string \<times> json) list option \<Rightarrow> bool \<Rightarrow> utext \<Rightarrow> instant
   \<Rightarrow> db \<Rightarrow> error + db \<times> booking_claim" where
  "create_in_session e tn phone q settings connected minted now s =
     andthen (need Booking_not_found (type_by_id tn (q_type q) s)) (\<lambda>t.
     andthen (ensure Terms_stale
                (case current_terms tn s of None \<Rightarrow> False | Some v \<Rightarrow> q_terms_version q = v_version v)) (\<lambda>_.
     let due = deposit_due settings t connected in
     andthen (match_dress e tn q s) (\<lambda>(dress_name, dress_size).
     case (case customer_by_phone tn phone s of
             None \<Rightarrow> None | Some c \<Rightarrow> active_at tn (c_id c) (q_starts_at q) s) of
       Some replayed \<Rightarrow>
         andthen (consent_if (q_marketing_consent q) tn (b_customer replayed) s) (\<lambda>s1.
         Inr (s1, \<lparr>bc_booking = replayed, bc_created = False, bc_manage_token = None,
                  bc_deposit_due = due, bc_deposit_amount = deposit_amount t\<rparr>))
     | None \<Rightarrow>
         andthen (ensure Dress_unavailable
                    (case q_dress q of
                       None \<Rightarrow> True
                     | Some gid \<Rightarrow> reservation_containing tn gid
                         (fst (to_local (e_zone e) (q_starts_at q))) s = None)) (\<lambda>_.
         andthen (upsert_customer tn phone (ustrip (q_name q)) s) (\<lambda>(s1, c).
         andthen (consent_if (q_marketing_consent q) tn (c_id c) s1) (\<lambda>s2.
         andthen (claim_seat e tn (q_starts_at q) now (c_id c) t (q_terms_version q) minted due
                    \<lparr>k_dress = q_dress q, k_dress_name = dress_name, k_dress_size = dress_size,
                     k_notes = q_notes q\<rparr> s2) (\<lambda>(s3, b).
         Inr (s3, \<lparr>bc_booking = b, bc_created = True, bc_manage_token = Some minted,
                  bc_deposit_due = due, bc_deposit_amount = deposit_amount t\<rparr>))))))))"

record booking_limits =
  bl_create :: "limiter_key limiter"
  bl_phone :: "limiter_key limiter"

record booking_config =
  bf_create :: limiter_cfg
  bf_phone :: limiter_cfg

definition create_booking ::
  "env \<Rightarrow> booking_config \<Rightarrow> uuid \<Rightarrow> booking_request \<Rightarrow> (string \<times> json) list option \<Rightarrow> bool \<Rightarrow> utext
   \<Rightarrow> int \<Rightarrow> instant \<Rightarrow> instant \<Rightarrow> db \<times> booking_limits
   \<Rightarrow> (db \<times> booking_limits) \<times> (error + booking_claim)" where
  "create_booking e cfg tn q settings connected minted tick now otp_now st =
     (let (s, l) = st in
      case validate_booking_request (q_name q) (q_notes q) (q_dress q) (q_dress_size q) of
        Inl err \<Rightarrow> (st, Inl err)
      | Inr _ \<Rightarrow>
      case normalize_israeli_mobile (q_raw_phone q) of
        None \<Rightarrow> (st, Inl Phone_invalid)
      | Some phone \<Rightarrow>
      if \<not> (now < q_starts_at q \<and> q_starts_at q \<le> now + BOOKABLE_HORIZON)
      then (st, Inl Slot_unavailable)
      else if is_blocked (bf_create cfg) (bl_create l) tick (Booking_tenant_key tn)
           \<or> is_blocked (bf_phone cfg) (bl_phone l) tick (Booking_phone_key tn phone)
      then (st, Inl Booking_throttled)
      else
      case consume_verification e tn (q_raw_phone q) (q_token q) otp_now s of
        Inl err \<Rightarrow> (st, Inl err)
      | Inr (s1, verified) \<Rightarrow>
          if \<not> verified then (st, Inl Phone_not_verified)
          else
            let l1 = \<lparr>bl_create = record_failure (bf_create cfg) (bl_create l) tick tick (Booking_tenant_key tn),
                      bl_phone = record_failure (bf_phone cfg) (bl_phone l) tick tick
                        (Booking_phone_key tn phone)\<rparr> in
            case create_in_session e tn phone q settings connected minted now s1 of
              Inl err \<Rightarrow> ((s, l1), Inl err)
            | Inr (s2, claim) \<Rightarrow> ((s2, l1), Inr claim))"

section \<open>Lemmas: the claim\<close>

text \<open>A timezone whose calendar days are the intervals between its midnights.\<close>

definition days_between_midnights :: "zone \<Rightarrow> bool" where
  "days_between_midnights z \<longleftrightarrow>
     (\<forall>t. midnight z (fst (to_local z t)) \<le> t \<and> t < midnight z (fst (to_local z t) + 1))"

lemma fixed_offset_days: "days_between_midnights (fixed_offset h)"
proof -
  have "days ((t + hours h) div days 1) - hours h \<le> t \<and> t < days ((t + hours h) div days 1 + 1) - hours h"
    for t :: int
  proof -
    define d q where "d = days 1" and "q = (t + hours h) div d"
    have p: "days n = n * d" "0 < d" for n by (simp_all add: duration_defs d_def)
    have "q * d + (t + hours h) mod d = t + hours h" by (simp add: q_def)
    moreover have "0 \<le> (t + hours h) mod d" "(t + hours h) mod d < d" using p(2) by simp_all
    ultimately have "q * d \<le> t + hours h \<and> t + hours h < q * d + d" by linarith
    then show ?thesis
      unfolding d_def [symmetric] q_def [symmetric] by (simp add: p(1) algebra_simps)
  qed
  then show ?thesis
    by (simp add: days_between_midnights_def midnight_def fixed_offset_def add.commute [of 1])
qed

lemma offered_slot_SomeD:
  assumes "offered_slot e tn at now s = Some sl"
  shows "s_starts_at sl = at" "now < at" "s_booked sl < s_capacity sl"
    "days_between_midnights (e_zone e) \<Longrightarrow> s_booked sl = int (length (active_seats_at tn at s))"
proof -
  have m: "sl \<in> set (day_slots e tn (fst (to_local (e_zone e) at)) now s)" "s_starts_at sl = at"
    using assms unfolding offered_slot_def by (auto dest: find_SomeD)
  then show "s_starts_at sl = at" "s_booked sl < s_capacity sl"
    by (auto simp: day_slots_def materialize_mem)
  show "now < at" using materialize_future [OF m(1) [unfolded day_slots_def]] m(2) by simp
  assume "days_between_midnights (e_zone e)"
  then have "midnight (e_zone e) (fst (to_local (e_zone e) at)) \<le> at"
    "at < midnight (e_zone e) (fst (to_local (e_zone e) at) + 1)"
    by (simp_all add: days_between_midnights_def)
  with m show "s_booked sl = int (length (active_seats_at tn at s))"
    by (simp add: day_slots_def materialize_mem count_by_start_active)
qed

lemma insert_booking_Inr:
  "insert_booking tn cid tid at seat v v_at n st g gn gz nt h s = Inr (s', b) \<Longrightarrow>
   s' = s\<lparr>d_bookings := d_bookings s @ [b], d_next := d_next s + 1\<rparr>
   \<and> bookings_ok (d_bookings s @ [b]) \<and> b_id b = d_next s \<and> b_tenant b = tn \<and> b_customer b = cid
   \<and> b_starts_at b = at \<and> b_seat b = seat \<and> b_status b = st \<and> b_token_hash b = h \<and> \<not> b_deleted b
   \<and> b_terms_version b = Some v \<and> b_terms_at b = Some v_at \<and> b_source b = Storefront
   \<and> b_type b = tid \<and> b_dress b = g \<and> b_cancelled_by b = None"
  by (auto simp: insert_booking_def put_booking_def handler_simps)

lemma insert_message_Inr:
  "insert_message tn k at tok bid wid s = Inr (s', m) \<Longrightarrow>
   s' = s\<lparr>d_messages := d_messages s @ [m], d_next := d_next s + 1\<rparr> \<and> messages_ok (d_messages s @ [m])
   \<and> m_id m = d_next s \<and> m_tenant m = tn \<and> m_booking m = bid \<and> m_entry m = wid \<and> m_kind m = k
   \<and> m_send_after m = at \<and> m_token m = tok \<and> m_status m = Msg_pending \<and> \<not> m_deleted m"
  by (auto simp: insert_message_def handler_simps Let_def)

lemma claim_seat_Inr:
  assumes "claim_seat e tn at now cid t v tok due k s = Inr (s', b)"
  obtains sl ms where "offered_slot e tn at now s = Some sl"
    "lowest_free (s_capacity sl) (active_seats_at tn at s) = Some (b_seat b)"
    "d_bookings s' = d_bookings s @ [b]" "bookings_ok (d_bookings s @ [b])"
    "b_id b = d_next s" "b_tenant b = tn" "b_customer b = cid" "b_starts_at b = at"
    "b_status b = (if due then Pending_payment else Confirmed)" "b_token_hash b = Some (e_hash e tok)"
    "\<not> b_deleted b" "b_terms_version b = Some v" "b_type b = t_id t"
    "s' = s\<lparr>d_bookings := d_bookings s @ [b], d_messages := d_messages s @ ms,
            d_next := d_next s + 1 + length ms\<rparr>"
    "case reminder_send_after at now of None \<Rightarrow> ms = []
     | Some sat \<Rightarrow> \<exists>m. ms = [m] \<and> m_id m = d_next s + 1 \<and> m_tenant m = tn \<and> m_booking m = Some (b_id b)
         \<and> m_entry m = None \<and> m_kind m = Reminder \<and> m_send_after m = sat \<and> m_token m = Some tok
         \<and> m_status m = Msg_pending \<and> \<not> m_deleted m \<and> messages_ok (d_messages s @ [m])"
proof -
  from assms obtain sl where sl: "offered_slot e tn at now s = Some sl"
    unfolding claim_seat_def by (auto simp: handler_simps)
  from assms sl obtain seat
    where seat: "lowest_free (s_capacity sl) (active_seats_at tn (s_starts_at sl) s) = Some seat"
    unfolding claim_seat_def by (auto simp: andthen_eq_Inr)
  let ?ins = "insert_booking tn cid (t_id t) (s_starts_at sl) seat v now (t_name t)
            (if due then Pending_payment else Confirmed)
            (k_dress k) (k_dress_name k) (k_dress_size k) (k_notes k) (Some (e_hash e tok)) s"
  from assms sl seat obtain s1 b' where ins': "?ins = Inr (s1, b')"
    and rem': "(case reminder_send_after (b_starts_at b') now of
            None \<Rightarrow> Inr (s1, b')
          | Some at \<Rightarrow>
              andthen (insert_message tn Reminder at (Some tok) (Some (b_id b')) None s1)
                (\<lambda>(s2, _). Inr (s2, b'))) = Inr (s', b)"
    unfolding claim_seat_def by (cases ?ins) auto
  then have "b' = b" by (auto simp: andthen_eq_Inr split: option.splits prod.splits)
  note ins = ins' [unfolded \<open>b' = b\<close>]
  have rem: "(case reminder_send_after (b_starts_at b) now of
            None \<Rightarrow> Inr (s1, b)
          | Some at \<Rightarrow>
              andthen (insert_message tn Reminder at (Some tok) (Some (b_id b)) None s1)
                (\<lambda>(s2, _). Inr (s2, b))) = Inr (s', b)" by (rule rem' [unfolded \<open>b' = b\<close>])
  note i = insert_booking_Inr [OF ins]
  have at: "s_starts_at sl = at" by (rule offered_slot_SomeD [OF sl])
  show ?thesis
  proof (cases "reminder_send_after at now")
    case None
    with rem i at sl seat show ?thesis by (intro that [of sl "[]"]) auto
  next
    case (Some sat)
    then obtain s2 m where "insert_message tn Reminder sat (Some tok) (Some (b_id b)) None s1 = Inr (s2, m)"
      "s' = s2"
      using rem i at by (auto simp: handler_simps)
    note m = insert_message_Inr [OF this(1)] this(2)
    with i at sl seat Some show ?thesis by (intro that [of sl "[m]"]) auto
  qed
qed

lemma messages_ok_append:
  assumes "messages_ok rows" "m_id m \<notin> set (map m_id rows)" "(m_booking m = None) \<noteq> (m_entry m = None)"
    and "\<forall>x\<in>set rows. pending_message x \<longrightarrow> m_booking m \<noteq> None \<longrightarrow> m_booking x \<noteq> m_booking m"
    and "\<forall>x\<in>set rows. pending_message x \<longrightarrow> m_entry m \<noteq> None \<longrightarrow> m_entry x \<noteq> m_entry m"
  shows "messages_ok (rows @ [m])"
  using assms by (auto simp: messages_ok_def simp flip: set_map)

lemma db_ok_claim:
  assumes ok: "db_ok s" and c: "claim_seat e tn at now cid t v tok due k s = Inr (s', b)"
  shows "db_ok s'"
proof -
  obtain sl ms where b: "bookings_ok (d_bookings s @ [b])" "b_id b = d_next s"
    and s': "s' = s\<lparr>d_bookings := d_bookings s @ [b], d_messages := d_messages s @ ms,
            d_next := d_next s + 1 + length ms\<rparr>"
    and ms: "case reminder_send_after at now of None \<Rightarrow> ms = []
     | Some sat \<Rightarrow> \<exists>m. ms = [m] \<and> m_id m = d_next s + 1 \<and> m_tenant m = tn \<and> m_booking m = Some (b_id b)
         \<and> m_entry m = None \<and> m_kind m = Reminder \<and> m_send_after m = sat \<and> m_token m = Some tok
         \<and> m_status m = Msg_pending \<and> \<not> m_deleted m \<and> messages_ok (d_messages s @ [m])"
    by (rule claim_seat_Inr [OF c]) blast
  have "messages_ok (d_messages s @ ms) \<and> ids_below (d_next s + 1 + length ms) (map m_id (d_messages s @ ms))
      \<and> subjects_below (d_next s + 1 + length ms) (d_messages s @ ms)"
    using ms b(2) db_okD(3) [OF ok] ids_below_mono [OF db_okD(8) [OF ok], of "d_next s + 1 + length ms"]
      subjects_below_mono [OF db_okD(11) [OF ok], of "d_next s + 1 + length ms"]
    by (auto split: option.splits)
  then show ?thesis
    using db_okD [OF ok] b by (auto simp: db_ok_def s' intro: ids_below_mono)
qed

lemma claim_seat_free:
  assumes ok: "db_ok s" and sl: "offered_slot e tn at now s = Some sl"
    and seat: "lowest_free (s_capacity sl) (active_seats_at tn at s) = Some seat"
    and cap: "s_capacity sl \<le> MAX_SEAT_INDEX" and new: "active_at tn cid at s = None" and v: "0 < v"
  shows "\<exists>s' b. claim_seat e tn at now cid t v tok due k s = Inr (s', b)"
proof -
  have at: "s_starts_at sl = at" by (rule offered_slot_SomeD [OF sl])
  note lf = lowest_free_Some [OF seat]
  obtain b where ins: "insert_booking tn cid (t_id t) at seat v now (t_name t)
            (if due then Pending_payment else Confirmed)
            (k_dress k) (k_dress_name k) (k_dress_size k) (k_notes k) (Some (e_hash e tok)) s
      = Inr (s\<lparr>d_bookings := d_bookings s @ [b], d_next := d_next s + 1\<rparr>, b)"
    and b: "b_id b = d_next s" "b_starts_at b = at"
    unfolding insert_booking_def
    using put_booking_free [OF db_okD(1,6) [OF ok]] lf(1-3) cap new v
    by (auto simp: booking_row_ok_def)
  let ?s1 = "s\<lparr>d_bookings := d_bookings s @ [b], d_next := d_next s + 1\<rparr>"
  have msg: "\<exists>s2 m. insert_message tn Reminder sat (Some tok) (Some (b_id b)) None ?s1 = Inr (s2, m)" for sat
  proof -
    let ?m = "\<lparr>m_id = d_next s + 1, m_tenant = tn, m_booking = Some (b_id b), m_entry = None,
      m_kind = Reminder, m_send_after = sat, m_status = Msg_pending, m_token = Some tok,
      m_created_at = d_now s, m_deleted = False\<rparr>"
    have "messages_ok (d_messages s @ [?m])"
    proof (rule messages_ok_append [OF db_okD(3) [OF ok]])
      show "m_id ?m \<notin> set (map m_id (d_messages s))"
        using db_okD(8) [OF ok] by (auto simp: ids_below_def list_all_iff)
      show "\<forall>x\<in>set (d_messages s). pending_message x \<longrightarrow> m_booking ?m \<noteq> None \<longrightarrow> m_booking x \<noteq> m_booking ?m"
        using db_okD(11) [OF ok] b(1) by (auto simp: subjects_below_def list_all_iff)
    qed simp_all
    then show ?thesis by (simp add: insert_message_def insert_row_def Let_def)
  qed
  show ?thesis
  proof (cases "reminder_send_after at now")
    case None
    with sl seat ins b at show ?thesis unfolding claim_seat_def by simp
  next
    case (Some sat)
    obtain s2 m where "insert_message tn Reminder sat (Some tok) (Some (b_id b)) None ?s1 = Inr (s2, m)"
      using msg [of sat] by blast
    with Some sl seat ins b at show ?thesis unfolding claim_seat_def by simp
  qed
qed

text \<open>What a claim does to the occupancy of every instant.\<close>

lemma claim_seat_seats:
  assumes "claim_seat e tn at now cid t v tok due k s = Inr (s', b)"
  shows "active_seats_at tn' at' s' =
    active_seats_at tn' at' s @ (if tn' = tn \<and> at' = at then [b_seat b] else [])"
  by (rule claim_seat_Inr [OF assms]) (auto simp: active_seats_at_def seated_at_def)

section \<open>Properties of the claim\<close>

text \<open>A shop to try the properties on: open on Thursdays from nine to ten for two at a time.\<close>

definition shop_db :: db where
  "shop_db = empty_db\<lparr>d_rules := shop_rules\<rparr>"

definition shop_type :: appointment_type where
  "shop_type = \<lparr>t_id = 8, t_tenant = 4, t_name = [70], t_duration = 45, t_deposit_required = False,
     t_deposit_amount = None, t_audience = ''all'', t_sort_order = 0, t_created_at = 0, t_deleted = False\<rparr>"

definition shop_slot :: slot where
  "shop_slot = \<lparr>s_starts_at = hours 7, s_capacity = 2, s_booked = 0\<rparr>"

lemma shop_offered: "offered_slot sample_env 4 (hours 7) 0 shop_db = Some shop_slot"
  by code_simp

lemma shop_ok: "db_ok shop_db"
  by code_simp

lemma shop_claim:
  "\<exists>s' b. claim_seat sample_env 4 (hours 7) 0 6 shop_type 3 [9] False no_details shop_db = Inr (s', b)"
  by (rule claim_seat_free [OF shop_ok shop_offered]) code_simp+

text \<open>C13. No oversell. A claim that succeeds takes the lowest seat nobody holds at that instant, and
  that seat is one of the slot's; the slot is in the future and was not full; nobody else's
  occupancy changes; the new row is the customer's, with the token's hash and the terms she
  accepted; and every constraint of the database still holds.\<close>

theorem claim_takes_lowest_free_seat:
  assumes "db_ok s" and "claim_seat e tn at now cid t v tok due k s = Inr (s', b)"
  shows "\<exists>sl. offered_slot e tn at now s = Some sl \<and> now < at
     \<and> 1 \<le> b_seat b \<and> b_seat b \<le> s_capacity sl
     \<and> b_seat b \<notin> set (active_seats_at tn at s)
     \<and> (\<forall>j. 1 \<le> j \<and> j < b_seat b \<longrightarrow> j \<in> set (active_seats_at tn at s))
     \<and> (\<forall>tn' at'. set (active_seats_at tn' at' s') =
          set (active_seats_at tn' at' s) \<union> (if tn' = tn \<and> at' = at then {b_seat b} else {}))
     \<and> b_customer b = cid \<and> b_starts_at b = at \<and> b_terms_version b = Some v
     \<and> b_token_hash b = Some (e_hash e tok)
     \<and> b_status b = (if due then Pending_payment else Confirmed) \<and> db_ok s'"
proof -
  obtain sl where sl: "offered_slot e tn at now s = Some sl"
    and lf: "lowest_free (s_capacity sl) (active_seats_at tn at s) = Some (b_seat b)"
    and b: "b_customer b = cid" "b_starts_at b = at" "b_terms_version b = Some v"
      "b_token_hash b = Some (e_hash e tok)" "b_status b = (if due then Pending_payment else Confirmed)"
    by (rule claim_seat_Inr [OF assms(2)]) blast
  show ?thesis
    using sl b lowest_free_Some [OF lf] offered_slot_SomeD [OF sl] db_ok_claim [OF assms]
      claim_seat_seats [OF assms(2)] by auto
qed

theorem claim_takes_lowest_free_seat_witness:
  "\<exists>s' b. claim_seat sample_env 4 (hours 7) 0 6 shop_type 3 [9] False no_details shop_db = Inr (s', b)
     \<and> 1 \<le> b_seat b \<and> b_customer b = 6 \<and> db_ok s'"
proof -
  obtain s' b where c: "claim_seat sample_env 4 (hours 7) 0 6 shop_type 3 [9] False no_details shop_db
      = Inr (s', b)"
    using shop_claim by blast
  from claim_takes_lowest_free_seat [OF shop_ok c] c show ?thesis by blast
qed

text \<open>C14. No spurious refusal. Whoever is shown a slot with room can have it: when the grid offers
  the start, its capacity is one the table admits and the customer has no live booking there, the
  claim succeeds and leaves one more booking there, still within the slot's capacity.\<close>

theorem claim_of_offered_slot_succeeds:
  assumes "db_ok s" "days_between_midnights (e_zone e)"
    and "offered_slot e tn at now s = Some sl" "s_capacity sl \<le> MAX_SEAT_INDEX"
    and "active_at tn cid at s = None" "0 < v"
  shows "\<exists>s' b. claim_seat e tn at now cid t v tok due k s = Inr (s', b)
     \<and> length (active_seats_at tn at s') = length (active_seats_at tn at s) + 1
     \<and> int (length (active_seats_at tn at s')) \<le> s_capacity sl"
proof -
  note sl = offered_slot_SomeD [OF assms(3)]
  from sl(3) sl(4) [OF assms(2)] have room: "int (length (active_seats_at tn at s)) < s_capacity sl" by simp
  then obtain seat where "lowest_free (s_capacity sl) (active_seats_at tn at s) = Some seat"
    using lowest_free_exists by blast
  from claim_seat_free [OF assms(1,3) this assms(4-6)]
  obtain s' b where c: "claim_seat e tn at now cid t v tok due k s = Inr (s', b)" by blast
  with claim_seat_seats [OF c, of tn at] room show ?thesis by auto
qed

theorem claim_of_offered_slot_succeeds_witness:
  "\<exists>s' b. claim_seat sample_env 4 (hours 7) 0 6 shop_type 3 [9] True no_details shop_db = Inr (s', b)
     \<and> int (length (active_seats_at 4 (hours 7) s')) \<le> 2"
proof -
  have "days_between_midnights (e_zone sample_env)" by (simp add: sample_env_def fixed_offset_days)
  moreover have "s_capacity shop_slot \<le> MAX_SEAT_INDEX" "active_at 4 6 (hours 7) shop_db = None"
    "s_capacity shop_slot = 2" by code_simp+
  ultimately show ?thesis
    using claim_of_offered_slot_succeeds [OF shop_ok _ shop_offered, where cid = 6 and t = shop_type
        and v = 3 and tok = "[9]" and due = True and k = no_details] by fastforce
qed

section \<open>Lemmas: the whole creation\<close>

lemma consent_if_spec:
  assumes "consent_if given tn cid s = Inr s'"
  obtains rows where "s' = s\<lparr>d_customers := rows\<rparr>" "map c_id rows = map c_id (d_customers s)"
    "customers_ok (d_customers s) \<longrightarrow> customers_ok rows"
    "\<And>phone. map_option c_id (customer_by_phone tn' phone s') = map_option c_id (customer_by_phone tn' phone s)"
proof (cases given)
  case False
  with assms show ?thesis by (intro that [of "d_customers s"]) (simp_all add: consent_if_def)
next
  case True
  then obtain hit where u: "update_customer tn cid (\<lambda>c. c_consent_at c = None)
       (\<lambda>c. c\<lparr>c_consent_at := Some (d_now s)\<rparr>) s = Inr (s', hit)"
    using assms by (auto simp: consent_if_def record_marketing_consent_def handler_simps)
  obtain rows where r: "s' = s\<lparr>d_customers := rows\<rparr>" "map c_id rows = map c_id (d_customers s)"
    "rows = update_where (\<lambda>c. names_customer tn cid c \<and> c_consent_at c = None)
       (\<lambda>c. c\<lparr>c_consent_at := Some (d_now s)\<rparr>) (d_customers s)"
    "customers_ok (d_customers s) \<longrightarrow> customers_ok rows"
    by (rule update_customer_spec [OF u]) simp_all
  have "map_option c_id (customer_by_phone tn' phone s') = map_option c_id (customer_by_phone tn' phone s)"
    for phone
    by (cases "customer_by_phone tn' phone s") (simp_all add: r(1,3) customer_by_phone_update)
  with r show ?thesis by (intro that [of rows])
qed

text \<open>Where a session ends: the replayed booking and nothing else written, or a fresh claim for the
  customer of this phone.\<close>

lemma create_in_session_Inr:
  assumes "create_in_session e tn phone q settings connected minted now s = Inr (s', claim)"
  obtains (replay) t c rows where "type_by_id tn (q_type q) s = Some t"
      "customer_by_phone tn phone s = Some c"
      "active_at tn (c_id c) (q_starts_at q) s = Some (bc_booking claim)"
      "\<not> bc_created claim" "bc_manage_token claim = None"
      "s' = s\<lparr>d_customers := rows\<rparr>" "map c_id rows = map c_id (d_customers s)"
      "customers_ok (d_customers s) \<longrightarrow> customers_ok rows"
      "\<exists>c'. customer_by_phone tn phone s' = Some c' \<and> c_id c' = c_id c"
  | (fresh) t k s1 rows n cid where "type_by_id tn (q_type q) s = Some t"
      "\<exists>v. current_terms tn s = Some v \<and> v_version v = q_terms_version q"
      "\<forall>gid. q_dress q = Some gid \<longrightarrow>
         reservation_containing tn gid (fst (to_local (e_zone e) (q_starts_at q))) s = None"
      "\<forall>c. customer_by_phone tn phone s = Some c \<longrightarrow> active_at tn (c_id c) (q_starts_at q) s = None"
      "s1 = s\<lparr>d_customers := rows, d_next := n\<rparr>" "d_next s \<le> n"
      "customers_ok (d_customers s) \<longrightarrow> customers_ok rows"
      "ids_below (d_next s) (map c_id (d_customers s)) \<longrightarrow> ids_below n (map c_id rows)"
      "\<exists>c'. customer_by_phone tn phone s1 = Some c' \<and> c_id c' = cid"
      "claim_seat e tn (q_starts_at q) now cid t (q_terms_version q) minted
         (deposit_due settings t connected) k s1 = Inr (s', bc_booking claim)"
      "bc_created claim" "bc_manage_token claim = Some minted"
      "bc_deposit_due claim = deposit_due settings t connected"
      "bc_deposit_amount claim = deposit_amount t"
proof -
  from assms obtain t dn ds where t: "type_by_id tn (q_type q) s = Some t"
    and terms: "case current_terms tn s of None \<Rightarrow> False | Some v \<Rightarrow> q_terms_version q = v_version v"
    and md: "match_dress e tn q s = Inr (dn, ds)"
    unfolding create_in_session_def Let_def by (auto simp: andthen_eq_Inr)
  let ?rep = "case customer_by_phone tn phone s of None \<Rightarrow> None | Some c \<Rightarrow> active_at tn (c_id c) (q_starts_at q) s"
  show ?thesis
  proof (cases ?rep)
    case (Some b)
    then obtain c where c: "customer_by_phone tn phone s = Some c"
      "active_at tn (c_id c) (q_starts_at q) s = Some b"
      by (auto split: option.splits)
    with assms t terms md obtain s1 where s1: "consent_if (q_marketing_consent q) tn (b_customer b) s = Inr s1"
      and cl: "s' = s1" "claim = \<lparr>bc_booking = b, bc_created = False, bc_manage_token = None,
                  bc_deposit_due = deposit_due settings t connected, bc_deposit_amount = deposit_amount t\<rparr>"
      unfolding create_in_session_def Let_def by (auto simp: andthen_eq_Inr)
    obtain rows where r: "s1 = s\<lparr>d_customers := rows\<rparr>" "map c_id rows = map c_id (d_customers s)"
      "customers_ok (d_customers s) \<longrightarrow> customers_ok rows"
      "\<And>ph. map_option c_id (customer_by_phone tn ph s1) = map_option c_id (customer_by_phone tn ph s)"
      by (rule consent_if_spec [OF s1, of tn]) blast
    have "\<exists>c'. customer_by_phone tn phone s' = Some c' \<and> c_id c' = c_id c"
      using r(4) [of phone] c(1) cl(1) by simp
    with r c cl show ?thesis by (intro replay [OF t c(1), of rows]) simp_all
  next
    case None
    then have none: "\<forall>c. customer_by_phone tn phone s = Some c \<longrightarrow> active_at tn (c_id c) (q_starts_at q) s = None"
      by auto
    let ?k = "\<lparr>k_dress = q_dress q, k_dress_name = dn, k_dress_size = ds, k_notes = q_notes q\<rparr>"
    from None assms t terms md obtain s1 c s2 b
      where res: "case q_dress q of None \<Rightarrow> True
                     | Some gid \<Rightarrow> reservation_containing tn gid (fst (to_local (e_zone e) (q_starts_at q))) s = None"
      and up: "upsert_customer tn phone (ustrip (q_name q)) s = Inr (s1, c)"
      and con: "consent_if (q_marketing_consent q) tn (c_id c) s1 = Inr s2"
      and clm: "claim_seat e tn (q_starts_at q) now (c_id c) t (q_terms_version q) minted
           (deposit_due settings t connected) ?k s2 = Inr (s', b)"
      and cl: "claim = \<lparr>bc_booking = b, bc_created = True, bc_manage_token = Some minted,
                  bc_deposit_due = deposit_due settings t connected, bc_deposit_amount = deposit_amount t\<rparr>"
      unfolding create_in_session_def Let_def by (auto simp: andthen_eq_Inr)
    obtain rows n where u: "s1 = s\<lparr>d_customers := rows, d_next := n\<rparr>" "d_next s \<le> n"
      "customers_ok (d_customers s) \<longrightarrow> customers_ok rows"
      "ids_below (d_next s) (map c_id (d_customers s)) \<longrightarrow> ids_below n (map c_id rows)"
      "\<exists>c'. customer_by_phone tn phone s1 = Some c' \<and> c_id c' = c_id c"
      by (rule upsert_customer_spec [OF up])
    obtain rows' where r: "s2 = s1\<lparr>d_customers := rows'\<rparr>" "map c_id rows' = map c_id (d_customers s1)"
      "customers_ok (d_customers s1) \<longrightarrow> customers_ok rows'"
      "\<And>ph. map_option c_id (customer_by_phone tn ph s2) = map_option c_id (customer_by_phone tn ph s1)"
      by (rule consent_if_spec [OF con, of tn]) blast
    show ?thesis
    proof (rule fresh)
      show "s2 = s\<lparr>d_customers := rows', d_next := n\<rparr>" using r(1) u(1) by simp
      show "\<exists>c'. customer_by_phone tn phone s2 = Some c' \<and> c_id c' = c_id c"
        using u(5) r(4) [of phone] by auto
      show "\<forall>gid. q_dress q = Some gid \<longrightarrow>
         reservation_containing tn gid (fst (to_local (e_zone e) (q_starts_at q))) s = None"
        using res by auto
      show "\<exists>v. current_terms tn s = Some v \<and> v_version v = q_terms_version q"
        using terms by (auto split: option.splits)
      show "claim_seat e tn (q_starts_at q) now (c_id c) t (q_terms_version q) minted
         (deposit_due settings t connected) ?k s2 = Inr (s', bc_booking claim)" using clm cl by simp
    qed (use t none u r cl in auto)
  qed
qed

lemma create_in_session_ok:
  assumes ok: "db_ok s" and c: "create_in_session e tn phone q settings connected minted now s = Inr (s', claim)"
  shows "db_ok s'"
  using c
proof (cases rule: create_in_session_Inr)
  case (replay t c rows)
  then show ?thesis using ok db_okD(5,10) [OF ok] by (auto intro!: db_ok_customers)
next
  case (fresh t k s1 rows n cid)
  have "db_ok s1"
    using db_okD [OF ok] fresh(5-8) by (auto simp: db_ok_def intro: ids_below_mono subjects_below_mono)
  then show ?thesis using fresh(10) by (rule db_ok_claim)
qed

lemma record_consent_total:
  assumes "customers_ok (d_customers s)"
  shows "\<exists>s'. consent_if given tn cid s = Inr s'"
proof -
  let ?f = "\<lambda>c. c\<lparr>c_consent_at := Some (d_now s)\<rparr>"
  have "customers_ok (update_where P ?f (d_customers s))" for P
    using assms unfolding customers_ok_def
    by (auto simp: map_update_where list_all_iff set_update_where intro!: unique_on_update_shrink)
  then show ?thesis
    by (auto simp: consent_if_def record_marketing_consent_def update_customer_def update_rows_def Let_def)
qed

lemma match_dress_frame:
  "d_dresses s' = d_dresses s \<Longrightarrow> d_variants s' = d_variants s \<Longrightarrow>
   match_dress e tn q s' = match_dress e tn q s"
  by (simp add: match_dress_def dress_by_id_def list_variants_def cong: option.case_cong)

lemma create_in_session_replays:
  assumes "customers_ok (d_customers s)"
    and "type_by_id tn (q_type q) s = Some t" "current_terms tn s = Some v" "v_version v = q_terms_version q"
    and "match_dress e tn q s = Inr d"
    and "customer_by_phone tn phone s = Some c" "active_at tn (c_id c) (q_starts_at q) s = Some b"
  shows "\<exists>rows claim. create_in_session e tn phone q settings connected minted now s
       = Inr (s\<lparr>d_customers := rows\<rparr>, claim)
     \<and> bc_booking claim = b \<and> \<not> bc_created claim \<and> bc_manage_token claim = None"
proof -
  obtain s1 where s1: "consent_if (q_marketing_consent q) tn (b_customer b) s = Inr s1"
    using record_consent_total [OF assms(1)] by blast
  obtain rows where "s1 = s\<lparr>d_customers := rows\<rparr>" by (rule consent_if_spec [OF s1])
  with s1 assms(2-) have "create_in_session e tn phone q settings connected minted now s
      = Inr (s\<lparr>d_customers := rows\<rparr>, \<lparr>bc_booking = b, bc_created = False, bc_manage_token = None,
          bc_deposit_due = deposit_due settings t connected, bc_deposit_amount = deposit_amount t\<rparr>)"
    by (cases d) (simp add: create_in_session_def Let_def)
  then show ?thesis by auto
qed

section \<open>Properties of the creation\<close>


definition shop_full :: db where
  "shop_full = shop_db\<lparr>d_types := [shop_type],
     d_terms := [\<lparr>v_tenant = 4, v_version = 3, v_refundable_until_hours = 48, v_forfeit_percent = 50, v_text = [70], v_created_by = 1,
       v_deleted = False\<rparr>]\<rparr>"

definition shop_request :: booking_request where
  "shop_request = \<lparr>q_raw_phone = o_phone sample_code, q_token = [9], q_name = [65], q_type = 8,
     q_starts_at = hours 7, q_terms_version = 3, q_dress = None, q_dress_size = None, q_notes = None,
     q_marketing_consent = False\<rparr>"

lemma shop_full_ok: "db_ok shop_full"
  using shop_ok by (simp add: shop_full_def db_ok_def)

lemma shop_create:
  "\<exists>s' claim. create_in_session sample_env 4 (o_phone sample_code) shop_request None False [9] 0 shop_full
     = Inr (s', claim)"
proof -
  have "\<not> isl (create_in_session sample_env 4 (o_phone sample_code) shop_request None False [9] 0 shop_full)"
    by code_simp
  then show ?thesis
    by (cases "create_in_session sample_env 4 (o_phone sample_code) shop_request None False [9] 0 shop_full") auto
qed


lemma consume_verification_Inr:
  assumes "consume_verification e tn raw tok now s = Inr (s1, True)"
  obtains phone where "normalize_israeli_mobile raw = Some phone"
    "s1 = s\<lparr>d_otps := update_where (spendable tn phone (e_hash e tok) now)
                        (\<lambda>r. r\<lparr>o_token_consumed_at := Some (d_now s)\<rparr>) (d_otps s)\<rparr>"
    "list_ex (spendable tn phone (e_hash e tok) now) (d_otps s)"
  using assms by (auto simp: consume_verification_def consume_token_def handler_simps update_rows_Inr)

lemma db_ok_otps: "db_ok (s\<lparr>d_otps := rows\<rparr>) = db_ok s"
  by (simp add: db_ok_def)

text \<open>What a create answers: a live booking of the verified customer at the asked start, in the
  database; the one row it added, on a seat of an offered slot, when it is new, and nothing of the
  bookings and messages changed when it is a replay.\<close>

definition answers ::
  "env \<Rightarrow> uuid \<Rightarrow> utext \<Rightarrow> booking_request \<Rightarrow> utext \<Rightarrow> instant \<Rightarrow> db \<Rightarrow> db \<Rightarrow> booking_claim \<Rightarrow> bool" where
  "answers e tn phone q minted now s s' claim \<longleftrightarrow>
     (let b = bc_booking claim in
      b \<in> set (d_bookings s') \<and> occupies b \<and> b_tenant b = tn \<and> b_starts_at b = q_starts_at q
      \<and> (\<exists>c. customer_by_phone tn phone s' = Some c \<and> b_customer b = c_id c)
      \<and> (if bc_created claim
         then d_bookings s' = d_bookings s @ [b] \<and> bc_manage_token claim = Some minted
            \<and> b_token_hash b = Some (e_hash e minted) \<and> b_terms_version b = Some (q_terms_version q)
            \<and> (\<exists>v. current_terms tn s = Some v \<and> v_version v = q_terms_version q)
            \<and> b_status b = (if bc_deposit_due claim then Pending_payment else Confirmed)
            \<and> (\<exists>sl. offered_slot e tn (q_starts_at q) now s = Some sl
                 \<and> 1 \<le> b_seat b \<and> b_seat b \<le> s_capacity sl
                 \<and> b_seat b \<notin> set (active_seats_at tn (q_starts_at q) s))
            \<and> (\<forall>gid. q_dress q = Some gid \<longrightarrow>
                 reservation_containing tn gid (fst (to_local (e_zone e) (q_starts_at q))) s = None)
         else d_bookings s' = d_bookings s \<and> d_messages s' = d_messages s
            \<and> bc_manage_token claim = None))"

lemma offered_slot_cong:
  assumes "d_rules s' = d_rules s" "d_exceptions s' = d_exceptions s" "d_bookings s' = d_bookings s"
  shows "offered_slot e tn at now s' = offered_slot e tn at now s"
proof -
  have "count_by_start t f u s' = count_by_start t f u s" for t f u
    by (simp add: count_by_start_def assms(3) fun_eq_iff)
  then show ?thesis
    by (simp add: offered_slot_def day_slots_def list_active_rules_def list_active_exceptions_def assms)
qed

lemma answers_cong:
  assumes "d_rules s2 = d_rules s1" "d_exceptions s2 = d_exceptions s1" "d_bookings s2 = d_bookings s1"
    "d_messages s2 = d_messages s1" "d_terms s2 = d_terms s1" "d_reservations s2 = d_reservations s1"
  shows "answers e tn phone q minted now s2 s' claim = answers e tn phone q minted now s1 s' claim"
proof -
  have "current_terms tn s2 = current_terms tn s1"
    "reservation_containing tn g d s2 = reservation_containing tn g d s1"
    "active_seats_at tn at s2 = active_seats_at tn at s1" for g d at
    by (simp_all add: current_terms_def reservation_containing_def active_seats_at_def assms)
  then show ?thesis by (simp add: answers_def offered_slot_cong [OF assms(1-3)] assms)
qed

lemma create_in_session_answers:
  assumes "create_in_session e tn phone q settings connected minted now s = Inr (s', claim)"
  shows "answers e tn phone q minted now s s' claim \<and> d_otps s' = d_otps s"
  using assms
proof (cases rule: create_in_session_Inr)
  case (replay t c rows)
  then show ?thesis using active_at_SomeD [OF replay(3)] by (auto simp: answers_def Let_def)
next
  case (fresh t k s1 rows n cid)
  let ?b = "bc_booking claim"
  obtain sl ms where sl: "offered_slot e tn (q_starts_at q) now s1 = Some sl"
    "lowest_free (s_capacity sl) (active_seats_at tn (q_starts_at q) s1) = Some (b_seat ?b)"
    and b: "b_tenant ?b = tn" "b_customer ?b = cid" "b_starts_at ?b = q_starts_at q" "\<not> b_deleted ?b"
      "b_status ?b = (if deposit_due settings t connected then Pending_payment else Confirmed)"
      "b_token_hash ?b = Some (e_hash e minted)" "b_terms_version ?b = Some (q_terms_version q)"
    and s': "s' = s1\<lparr>d_bookings := d_bookings s1 @ [?b], d_messages := d_messages s1 @ ms,
            d_next := d_next s1 + 1 + length ms\<rparr>"
    by (rule claim_seat_Inr [OF fresh(10)]) blast
  obtain c where c: "customer_by_phone tn phone s' = Some c" "cid = c_id c"
    using fresh(9) by (auto simp: s' customer_by_phone_def)
  have "\<exists>sl. offered_slot e tn (q_starts_at q) now s = Some sl
     \<and> 1 \<le> b_seat ?b \<and> b_seat ?b \<le> s_capacity sl
     \<and> b_seat ?b \<notin> set (active_seats_at tn (q_starts_at q) s)"
  proof -
    have "offered_slot e tn (q_starts_at q) now s1 = offered_slot e tn (q_starts_at q) now s"
      by (rule offered_slot_cong) (simp_all add: fresh(5))
    moreover have "active_seats_at tn (q_starts_at q) s1 = active_seats_at tn (q_starts_at q) s"
      by (simp add: active_seats_at_def fresh(5))
    ultimately show ?thesis using sl(1) lowest_free_Some [OF sl(2)] by (intro exI [of _ sl]) simp
  qed
  with b c fresh(2,3,11-13) show ?thesis
    unfolding answers_def Let_def by (simp add: s' fresh(5) occupies_def)
qed

text \<open>C11. A create is all or nothing, and what it gives is what was asked. On any error the database
  is exactly what it was, so the verification can be used again; until the verification is consumed
  the limiters are untouched and the answer is an error. A success spends one verification of the
  phone (a live, unexpired, unspent token before; no such token of that value ever after) and one
  hit of each budget, and answers with a live booking of the customer of that phone at the asked
  start, inside the bookable horizon: the one row it added, on a free seat of an offered slot, under
  the terms in force and a dress not reserved that day; or, replayed, the booking she already had,
  with nothing written for it.\<close>

theorem create_booking_atomic:
  assumes "db_ok s"
    and "create_booking e cfg tn q settings connected minted tick now otp_now (s, l) = ((s', l'), r)"
  shows "(\<forall>err. r = Inl err \<longrightarrow> s' = s)
     \<and> ((\<nexists>s1. consume_verification e tn (q_raw_phone q) (q_token q) otp_now s = Inr (s1, True))
          \<longrightarrow> l' = l \<and> (\<exists>err. r = Inl err))
     \<and> (\<forall>claim. r = Inr claim \<longrightarrow> db_ok s' \<and> now < q_starts_at q
          \<and> q_starts_at q \<le> now + BOOKABLE_HORIZON
          \<and> (\<exists>phone. normalize_israeli_mobile (q_raw_phone q) = Some phone
               \<and> list_ex (spendable tn phone (e_hash e (q_token q)) otp_now) (d_otps s)
               \<and> (\<forall>t\<ge>otp_now. \<not> list_ex (spendable tn phone (e_hash e (q_token q)) t) (d_otps s'))
               \<and> bl_create l' = record_failure (bf_create cfg) (bl_create l) tick tick (Booking_tenant_key tn)
               \<and> bl_phone l' = record_failure (bf_phone cfg) (bl_phone l) tick tick (Booking_phone_key tn phone)
               \<and> answers e tn phone q minted now s s' claim))"
proof -
  let ?v = "consume_verification e tn (q_raw_phone q) (q_token q) otp_now s"
  let ?c = "\<lambda>phone. create_in_session e tn phone q settings connected minted now"
  let ?hits = "\<lambda>phone. \<lparr>bl_create = record_failure (bf_create cfg) (bl_create l) tick tick (Booking_tenant_key tn),
      bl_phone = record_failure (bf_phone cfg) (bl_phone l) tick tick (Booking_phone_key tn phone)\<rparr>"
  let ?gate = "\<exists>u phone. validate_booking_request (q_name q) (q_notes q) (q_dress q) (q_dress_size q) = Inr u
      \<and> normalize_israeli_mobile (q_raw_phone q) = Some phone
      \<and> (now < q_starts_at q \<and> q_starts_at q \<le> now + BOOKABLE_HORIZON)
      \<and> \<not> (is_blocked (bf_create cfg) (bl_create l) tick (Booking_tenant_key tn)
           \<or> is_blocked (bf_phone cfg) (bl_phone l) tick (Booking_phone_key tn phone))
      \<and> (\<exists>s1. ?v = Inr (s1, True))"
  have gated: "s' = s \<and> l' = l \<and> (\<exists>err. r = Inl err)" if "\<not> ?gate"
    using assms(2) that unfolding create_booking_def
    by (cases "validate_booking_request (q_name q) (q_notes q) (q_dress q) (q_dress_size q)";
        cases "normalize_israeli_mobile (q_raw_phone q)"; cases ?v)
      (auto split: if_splits)
  consider (early) err where "r = Inl err" "s' = s" "l' = l"
    | (late) s1 phone where "?v = Inr (s1, True)" "now < q_starts_at q" "q_starts_at q \<le> now + BOOKABLE_HORIZON"
        "normalize_israeli_mobile (q_raw_phone q) = Some phone"
        "(\<exists>err. s' = s \<and> r = Inl err) \<or> (\<exists>claim. ?c phone s1 = Inr (s', claim) \<and> r = Inr claim \<and> l' = ?hits phone)"
  proof (cases ?gate)
    case True
    then obtain u phone s1 where gate:
      "validate_booking_request (q_name q) (q_notes q) (q_dress q) (q_dress_size q) = Inr u"
      "normalize_israeli_mobile (q_raw_phone q) = Some phone" "now < q_starts_at q"
      "q_starts_at q \<le> now + BOOKABLE_HORIZON" "?v = Inr (s1, True)"
      "\<not> (is_blocked (bf_create cfg) (bl_create l) tick (Booking_tenant_key tn)
           \<or> is_blocked (bf_phone cfg) (bl_phone l) tick (Booking_phone_key tn phone))" by blast
    show ?thesis
    proof (rule late [OF gate(5,3,4,2)])
      show "(\<exists>err. s' = s \<and> r = Inl err) \<or> (\<exists>claim. ?c phone s1 = Inr (s', claim) \<and> r = Inr claim \<and> l' = ?hits phone)"
        using assms(2) gate by (cases "?c phone s1") (auto simp: create_booking_def Let_def)
    qed
  qed (use gated early in blast)
  then show ?thesis
  proof cases
    case (late s1 phone)
    let ?h = "e_hash e (q_token q)"
    have s1: "s1 = s\<lparr>d_otps := update_where (spendable tn phone ?h otp_now)
                        (\<lambda>r. r\<lparr>o_token_consumed_at := Some (d_now s)\<rparr>) (d_otps s)\<rparr>"
      "list_ex (spendable tn phone ?h otp_now) (d_otps s)"
      by (rule consume_verification_Inr [OF late(1)], use late(4) in simp)+
    have "db_ok s1" using s1(1) assms(1) by (simp add: db_ok_otps)
    show ?thesis using late(5)
    proof (elim disjE exE conjE)
      fix claim assume c: "?c phone s1 = Inr (s', claim)" "r = Inr claim" "l' = ?hits phone"
      note a = create_in_session_answers [OF c(1)]
      have "answers e tn phone q minted now s s' claim"
        using a answers_cong [of s1 s e tn phone q minted now s' claim] s1(1) by simp
      moreover have "\<not> list_ex (spendable tn phone ?h t) (d_otps s')" if "otp_now \<le> t" for t
        using a spent_not_spendable [OF that, of _ tn phone ?h "d_now s" "d_otps s"] by (simp add: s1(1))
      ultimately show ?thesis
        using c late s1(2) create_in_session_ok [OF \<open>db_ok s1\<close> c(1)] by simp
    qed (use late(1) in auto)
  qed auto
qed

text \<open>The sample shop with a verified phone, and the booking it then takes.\<close>

definition verified_shop :: db where
  "verified_shop = shop_full\<lparr>d_otps := [sample_code\<lparr>o_consumed_at := Some 0, o_token_hash := Some [9],
     o_token_expires_at := Some 600\<rparr>]\<rparr>"

definition sample_booking_config :: booking_config where
  "sample_booking_config = \<lparr>bf_create = \<lparr>max_attempts = 5, window_length = 10\<rparr>,
     bf_phone = \<lparr>max_attempts = 5, window_length = 10\<rparr>\<rparr>"

definition fresh_booking_limits :: booking_limits where
  "fresh_booking_limits = \<lparr>bl_create = new_limiter, bl_phone = new_limiter\<rparr>"

lemma verified_shop_ok: "db_ok verified_shop"
  using shop_full_ok by (simp add: verified_shop_def db_ok_otps)

lemma shop_books:
  "\<exists>s' l' claim. create_booking sample_env sample_booking_config 4 shop_request None False [9] 0 0 0
     (verified_shop, fresh_booking_limits) = ((s', l'), Inr claim)
   \<and> b_status (bc_booking claim) = Confirmed \<and> length (d_bookings s') = 1 \<and> length (d_messages s') = 1"
proof -
  let ?spent = "shop_full\<lparr>d_otps := [sample_code\<lparr>o_consumed_at := Some 0, o_token_hash := Some [9],
     o_token_expires_at := Some 600, o_token_consumed_at := Some 0\<rparr>]\<rparr>"
  have v: "validate_booking_request (q_name shop_request) (q_notes shop_request) (q_dress shop_request)
      (q_dress_size shop_request) = Inr ()" by code_simp
  have n: "normalize_israeli_mobile (q_raw_phone shop_request) = Some (o_phone sample_code)"
    unfolding shop_request_def booking_request.simps
    by (rule normalized_mobile_fixed) (simp add: sample_code_def normalized_mobile_def is_digit_def)
  have start: "0 < q_starts_at shop_request \<and> q_starts_at shop_request \<le> 0 + BOOKABLE_HORIZON" by code_simp
  have c: "consume_verification sample_env 4 (q_raw_phone shop_request) (q_token shop_request) 0 verified_shop
      = Inr (?spent, True)"
    unfolding consume_verification_def n by code_simp
  have m: "\<not> is_blocked (bf_create sample_booking_config) (bl_create fresh_booking_limits) 0 (Booking_tenant_key 4)"
    "\<not> is_blocked (bf_phone sample_booking_config) (bl_phone fresh_booking_limits) 0
        (Booking_phone_key 4 (o_phone sample_code))" by code_simp+
  have "(case create_in_session sample_env 4 (o_phone sample_code) shop_request None False [9] 0 ?spent of
      Inl _ \<Rightarrow> False | Inr (s', claim) \<Rightarrow> b_status (bc_booking claim) = Confirmed
        \<and> length (d_bookings s') = 1 \<and> length (d_messages s') = 1)" by code_simp
  then obtain s' claim where r: "create_in_session sample_env 4 (o_phone sample_code) shop_request None False [9] 0 ?spent
      = Inr (s', claim)" "b_status (bc_booking claim) = Confirmed \<and> length (d_bookings s') = 1 \<and> length (d_messages s') = 1"
    by (cases "create_in_session sample_env 4 (o_phone sample_code) shop_request None False [9] 0 ?spent")
      (auto split: prod.splits)
  show ?thesis using v n start c m r by (simp add: create_booking_def Let_def)
qed

theorem create_booking_atomic_witness:
  "\<exists>s' l' claim. create_booking sample_env sample_booking_config 4 shop_request None False [9] 0 0 0
     (verified_shop, fresh_booking_limits) = ((s', l'), Inr claim)
   \<and> db_ok s' \<and> bc_booking claim \<in> set (d_bookings s') \<and> b_starts_at (bc_booking claim) = hours 7"
proof -
  obtain s' l' claim where run: "create_booking sample_env sample_booking_config 4 shop_request None False [9] 0 0 0
     (verified_shop, fresh_booking_limits) = ((s', l'), Inr claim)" using shop_books by blast
  from create_booking_atomic [OF verified_shop_ok run]
  have "db_ok s'" and "\<exists>phone. answers sample_env 4 phone shop_request [9] 0 verified_shop s' claim"
    by blast+
  with run show ?thesis by (auto simp: answers_def Let_def shop_request_def)
qed

text \<open>A visit of the sample shop whose deposit is still owed.\<close>

definition waiting_booking :: booking where
  "waiting_booking = \<lparr>b_id = 6, b_tenant = 4, b_customer = 5, b_type = 8, b_starts_at = hours 7,
     b_seat = 2, b_status = Pending_payment, b_attendance_at = None, b_checked_in_at = None,
     b_source = Storefront, b_terms_version = Some 3, b_terms_at = Some 0, b_type_name = [70],
     b_dress = None, b_dress_name = None, b_dress_size = None, b_notes = None, b_token_hash = Some [1],
     b_cancelled_at = None, b_cancelled_by = None, b_created_at = 0, b_deleted = False\<rparr>"

lemma waiting_ok: "db_ok (shop_db\<lparr>d_bookings := [waiting_booking]\<rparr>)"
  by code_simp

lemma waiting_found: "booking_by_id 4 6 (shop_db\<lparr>d_bookings := [waiting_booking]\<rparr>) = Some waiting_booking"
  by code_simp

end
