(* ===== verification/Payments_Repo.thy ===== *)
theory Payments_Repo
  imports Bookings_Repo Text
begin

text \<open>
  The payments table: \<open>app/db/repositories/payments.py\<close>. A hold is a pending payment with a deadline; every
  way out of it is one guarded UPDATE.
\<close>

definition GATEWAY_UNAVAILABLE_ERROR :: utext where
  "GATEWAY_UNAVAILABLE_ERROR = u ''gateway unavailable at checkout''"

section \<open>Reads\<close>

definition names_payment :: "uuid \<Rightarrow> uuid \<Rightarrow> payment \<Rightarrow> bool" where
  "names_payment tn pid p \<longleftrightarrow> p_tenant p = tn \<and> p_id p = pid \<and> \<not> p_deleted p"

definition payment_by_id :: "uuid \<Rightarrow> uuid \<Rightarrow> db \<Rightarrow> payment option" where
  "payment_by_id tn pid s = find (names_payment tn pid) (d_payments s)"

definition live_pending_for_booking :: "uuid \<Rightarrow> uuid \<Rightarrow> db \<Rightarrow> payment option" where
  "live_pending_for_booking tn bid s =
     find (\<lambda>p. p_tenant p = tn \<and> p_booking p = bid \<and> p_status p = Pay_pending \<and> \<not> p_deleted p)
       (d_payments s)"

definition by_provider_transaction_id :: "uuid \<Rightarrow> string \<Rightarrow> utext \<Rightarrow> db \<Rightarrow> payment option" where
  "by_provider_transaction_id tn prov txn s =
     find (\<lambda>p. p_tenant p = tn \<and> p_provider p = prov \<and> p_txn p = Some txn \<and> \<not> p_deleted p)
       (d_payments s)"

text \<open>No index makes the session of a payment unique, so the read itself may refuse.\<close>

definition by_provider_session_id :: "uuid \<Rightarrow> string \<Rightarrow> utext \<Rightarrow> db \<Rightarrow> error + payment option" where
  "by_provider_session_id tn prov sess s =
     one_or_none (\<lambda>p. p_tenant p = tn \<and> p_provider p = prov \<and> p_session p = Some sess \<and> \<not> p_deleted p)
       (d_payments s)"

text \<open>The newest payment of each booking, \<open>dict.setdefault\<close> over ORDER BY created_at DESC.\<close>

definition by_booking_ids :: "uuid \<Rightarrow> uuid list \<Rightarrow> db \<Rightarrow> uuid \<Rightarrow> payment option" where
  "by_booking_ids tn bids s bid =
     find (\<lambda>p. p_booking p = bid)
       (sort_key (\<lambda>p. - p_created_at p)
         (filter (\<lambda>p. p_tenant p = tn \<and> p_booking p \<in> set bids \<and> \<not> p_deleted p) (d_payments s)))"

section \<open>Inserts\<close>

definition put_payment :: "payment \<Rightarrow> db \<Rightarrow> error + db \<times> payment" where
  "put_payment row s =
     andthen (insert_row payments_ok row (d_payments s))
       (\<lambda>rows. Inr (s\<lparr>d_payments := rows, d_next := d_next s + 1\<rparr>, row))"

definition insert_payment ::
  "uuid \<Rightarrow> uuid \<Rightarrow> string \<Rightarrow> int \<Rightarrow> utext \<Rightarrow> utext \<Rightarrow> instant \<Rightarrow> db \<Rightarrow> error + db \<times> payment" where
  "insert_payment tn bid prov amount sess url hold s =
     put_payment
       \<lparr>p_id = d_next s, p_tenant = tn, p_booking = bid, p_provider = prov, p_amount = amount,
        p_status = Pay_pending, p_session = Some sess, p_redirect_url = Some url, p_txn = None,
        p_hold_expires_at = Some hold, p_paid_at = None, p_error = None, p_created_at = d_now s,
        p_deleted = False\<rparr> s"

definition record_unavailable ::
  "uuid \<Rightarrow> uuid \<Rightarrow> string \<Rightarrow> int \<Rightarrow> db \<Rightarrow> error + db \<times> payment" where
  "record_unavailable tn bid prov amount s =
     put_payment
       \<lparr>p_id = d_next s, p_tenant = tn, p_booking = bid, p_provider = prov, p_amount = amount,
        p_status = Pay_failed, p_session = None, p_redirect_url = None, p_txn = None,
        p_hold_expires_at = None, p_paid_at = None, p_error = Some GATEWAY_UNAVAILABLE_ERROR,
        p_created_at = d_now s, p_deleted = False\<rparr> s"

section \<open>Guarded updates\<close>

definition update_payment ::
  "uuid \<Rightarrow> uuid \<Rightarrow> (payment \<Rightarrow> bool) \<Rightarrow> (payment \<Rightarrow> payment) \<Rightarrow> db
   \<Rightarrow> error + db \<times> payment option" where
  "update_payment tn pid guard f s =
     andthen (update_rows payments_ok (\<lambda>p. names_payment tn pid p \<and> guard p) f (d_payments s))
       (\<lambda>(rows, hit).
          let s' = s\<lparr>d_payments := rows\<rparr> in
          Inr (s', if hit then payment_by_id tn pid s' else None))"

definition settle :: "uuid \<Rightarrow> uuid \<Rightarrow> utext \<Rightarrow> instant \<Rightarrow> db \<Rightarrow> error + db \<times> payment option" where
  "settle tn pid txn at =
     update_payment tn pid (\<lambda>p. p_status p = Pay_pending)
       (\<lambda>p. p\<lparr>p_status := Paid, p_paid_at := Some at, p_txn := Some txn, p_redirect_url := None\<rparr>)"

definition settle_late :: "uuid \<Rightarrow> uuid \<Rightarrow> utext \<Rightarrow> instant \<Rightarrow> db \<Rightarrow> error + db \<times> payment option" where
  "settle_late tn pid txn at =
     update_payment tn pid (\<lambda>p. p_status p = Pay_expired)
       (\<lambda>p. p\<lparr>p_status := Paid, p_paid_at := Some at, p_txn := Some txn, p_redirect_url := None\<rparr>)"

definition record_error :: "uuid \<Rightarrow> uuid \<Rightarrow> utext \<Rightarrow> db \<Rightarrow> error + db \<times> payment option" where
  "record_error tn pid err =
     update_payment tn pid (\<lambda>_. True) (\<lambda>p. p\<lparr>p_error := Some err\<rparr>)"

section \<open>The repository is a guarded table\<close>

interpretation pt: guarded_table p_id p_tenant p_deleted payments_ok
  by unfold_locales (simp add: payments_ok_def)

lemma names_payment_named: "names_payment = pt.named"
  by (auto simp: names_payment_def pt.named_def fun_eq_iff)

lemma payment_by_id_fetch: "payment_by_id tn i s = pt.fetch tn i (d_payments s)"
  by (simp add: payment_by_id_def pt.fetch_def names_payment_named)

lemma payment_by_id_SomeD:
  "payment_by_id tn i s = Some p \<Longrightarrow>
   p \<in> set (d_payments s) \<and> p_tenant p = tn \<and> p_id p = i \<and> \<not> p_deleted p"
  by (auto simp: payment_by_id_fetch dest: pt.fetch_SomeD)

definition write_payment :: "uuid \<Rightarrow> uuid \<Rightarrow> (payment \<Rightarrow> payment) \<Rightarrow> db \<Rightarrow> db" where
  "write_payment tn pid f s = s\<lparr>d_payments := update_where (names_payment tn pid) f (d_payments s)\<rparr>"

lemma write_payment_sel [simp]:
  "d_payments (write_payment tn pid f s) = update_where (names_payment tn pid) f (d_payments s)"
  "d_bookings (write_payment tn pid f s) = d_bookings s"
  "d_messages (write_payment tn pid f s) = d_messages s"
  "d_entries (write_payment tn pid f s) = d_entries s"
  "d_customers (write_payment tn pid f s) = d_customers s"
  "d_next (write_payment tn pid f s) = d_next s" "d_now (write_payment tn pid f s) = d_now s"
  "d_rules (write_payment tn pid f s) = d_rules s"
  "d_exceptions (write_payment tn pid f s) = d_exceptions s"
  "d_audit (write_payment tn pid f s) = d_audit s"
  by (simp_all add: write_payment_def)

lemma keeps_payment_name [simp]:
  "pt.keeps_name (\<lambda>p. p\<lparr>p_error := x1\<rparr>)"
  "pt.keeps_name (\<lambda>p. p\<lparr>p_status := x2, p_paid_at := x3, p_txn := x4, p_redirect_url := x5\<rparr>)"
  by (simp_all add: pt.keeps_name_def)

lemma payment_by_id_write:
  assumes "pt.keeps_name f"
  shows "payment_by_id tn' pid' (write_payment tn pid f s) =
    (if tn' = tn \<and> pid' = pid then map_option f (payment_by_id tn pid s)
     else payment_by_id tn' pid' s)"
  using pt.fetch_write [OF assms] by (simp add: payment_by_id_fetch names_payment_named)

lemma update_payment_run:
  assumes "payments_ok (d_payments s)" "pt.keeps_name f"
  shows "update_payment tn pid g f s =
    (case payment_by_id tn pid s of
       None \<Rightarrow> Inr (s, None)
     | Some p \<Rightarrow>
         if \<not> g p then Inr (s, None)
         else if payments_ok (d_payments (write_payment tn pid f s))
         then Inr (write_payment tn pid f s, Some (f p)) else Inl Integrity_error)"
proof -
  have r: "payment_by_id tn pid (write_payment tn pid f s) = map_option f (payment_by_id tn pid s)"
    by (simp add: payment_by_id_write [OF assms(2)])
  show ?thesis
    using pt.run_update [OF assms(1), of tn pid g f] r
    by (auto simp: update_payment_def names_payment_named write_payment_def Let_def
        payment_by_id_fetch split: option.split)
qed

lemma update_payment_ok:
  assumes "update_payment tn pid g f s = Inr (s', r)" "payments_ok (d_payments s)"
  shows "payments_ok (d_payments s')"
  using assms by (auto simp: update_payment_def handler_simps update_rows_Inr Let_def
      update_where_none split: prod.splits if_splits)

text \<open>Rewriting one row keeps the constraints when it enters an index only on a free place.\<close>

lemma payments_ok_write:
  assumes ok: "payments_ok (d_payments s)" and p: "payment_by_id tn pid s = Some p"
    and f: "p_id (f p) = p_id p" "p_amount (f p) = p_amount p"
    and hold: "pending_hold (f p) \<longrightarrow> pending_hold p \<and> hold_key (f p) = hold_key p"
    and txn: "settled_txn (f p) \<longrightarrow>
      (settled_txn p \<and> txn_key (f p) = txn_key p)
      \<or> (\<forall>x\<in>set (d_payments s). settled_txn x \<longrightarrow> txn_key x \<noteq> txn_key (f p))"
  shows "payments_ok (d_payments (write_payment tn pid f s))"
proof -
  obtain pre post where rows: "d_payments s = pre @ p # post"
    and w: "update_where (pt.named tn pid) f (d_payments s) = pre @ f p # post"
    using pt.one_row [OF ok p [unfolded payment_by_id_fetch]] by blast
  have ok': "payments_ok (pre @ p # post)" using ok rows by simp
  have "unique_on settled_txn txn_key (pre @ f p # post)"
  proof (cases "settled_txn (f p) \<longrightarrow> settled_txn p \<and> txn_key (f p) = txn_key p")
    case True
    with ok' show ?thesis unfolding payments_ok_def by (blast intro: unique_on_replace)
  next
    case False
    with txn have "\<forall>x\<in>set (pre @ post). settled_txn x \<longrightarrow> txn_key x \<noteq> txn_key (f p)"
      unfolding rows by auto
    moreover have "unique_on settled_txn txn_key (pre @ p # post)" using ok' by (simp add: payments_ok_def)
    ultimately show ?thesis using unique_on_move by metis
  qed
  moreover have "unique_on pending_hold hold_key (pre @ f p # post)"
    using ok' hold unfolding payments_ok_def by (blast intro: unique_on_replace)
  ultimately have "payments_ok (pre @ f p # post)" using ok' f by (auto simp: payments_ok_def)
  with w show ?thesis by (simp add: names_payment_named)
qed

lemma txn_free:
  "by_provider_transaction_id tn prov txn s = None \<longleftrightarrow>
     (\<forall>x\<in>set (d_payments s). settled_txn x \<longrightarrow> txn_key x \<noteq> (tn, prov, Some txn))"
  by (auto simp: by_provider_transaction_id_def find_None_iff settled_txn_def txn_key_def)

lemmas payment_place_defs = pending_hold_def hold_key_def settled_txn_def txn_key_def

text \<open>The two settlements succeed whenever their transaction is new.\<close>

lemma settle_run:
  assumes "payments_ok (d_payments s)"
    and "\<And>p. payment_by_id tn pid s = Some p \<Longrightarrow> p_status p = Pay_pending \<Longrightarrow>
           by_provider_transaction_id tn (p_provider p) txn s = None"
  shows "settle tn pid txn at s =
    (let f = (\<lambda>p. p\<lparr>p_status := Paid, p_paid_at := Some at, p_txn := Some txn, p_redirect_url := None\<rparr>) in
     case payment_by_id tn pid s of
       None \<Rightarrow> Inr (s, None)
     | Some p \<Rightarrow> if p_status p = Pay_pending then Inr (write_payment tn pid f s, Some (f p))
                 else Inr (s, None))"
proof (cases "payment_by_id tn pid s")
  case (Some p)
  let ?f = "\<lambda>p. p\<lparr>p_status := Paid, p_paid_at := Some at, p_txn := Some txn, p_redirect_url := None\<rparr>"
  have "payments_ok (d_payments (write_payment tn pid ?f s))" if "p_status p = Pay_pending"
  proof (rule payments_ok_write [OF assms(1) Some])
    have "txn_key (?f p) = (tn, p_provider p, Some txn)"
      using payment_by_id_SomeD [OF Some] by (simp add: txn_key_def)
    with assms(2) [OF Some that, unfolded txn_free]
    show "settled_txn (?f p) \<longrightarrow> (settled_txn p \<and> txn_key (?f p) = txn_key p)
      \<or> (\<forall>x\<in>set (d_payments s). settled_txn x \<longrightarrow> txn_key x \<noteq> txn_key (?f p))" by presburger
  qed (simp_all add: pending_hold_def)
  with Some show ?thesis by (simp add: settle_def update_payment_run [OF assms(1)] Let_def)
qed (simp add: settle_def update_payment_run [OF assms(1)] Let_def)

lemma settle_late_run:
  assumes "payments_ok (d_payments s)"
  shows "settle_late tn pid txn at s =
    (let f = (\<lambda>p. p\<lparr>p_status := Paid, p_paid_at := Some at, p_txn := Some txn, p_redirect_url := None\<rparr>) in
     case payment_by_id tn pid s of
       None \<Rightarrow> Inr (s, None)
     | Some p \<Rightarrow>
         if p_status p \<noteq> Pay_expired then Inr (s, None)
         else if payments_ok (d_payments (write_payment tn pid f s))
         then Inr (write_payment tn pid f s, Some (f p)) else Inl Integrity_error)"
  unfolding settle_late_def Let_def by (simp add: update_payment_run [OF assms])

lemma record_error_run:
  assumes "payments_ok (d_payments s)"
  shows "record_error tn pid err s =
    (case payment_by_id tn pid s of
       None \<Rightarrow> Inr (s, None)
     | Some p \<Rightarrow> Inr (write_payment tn pid (\<lambda>p. p\<lparr>p_error := Some err\<rparr>) s, Some (p\<lparr>p_error := Some err\<rparr>)))"
proof (cases "payment_by_id tn pid s")
  case (Some p)
  have "payments_ok (d_payments (write_payment tn pid (\<lambda>p. p\<lparr>p_error := Some err\<rparr>) s))"
    by (rule payments_ok_write [OF assms Some]) (simp_all add: payment_place_defs)
  with Some show ?thesis by (simp add: record_error_def update_payment_run [OF assms])
qed (simp add: record_error_def update_payment_run [OF assms])

lemma write_payment_ids:
  "pt.keeps_name f \<Longrightarrow> map p_id (d_payments (write_payment tn pid f s)) = map p_id (d_payments s)"
  by (simp add: map_update_where pt.keeps_name_def)

lemma db_ok_write_payment:
  assumes "db_ok s" "pt.keeps_name f" "payments_ok (d_payments (write_payment tn pid f s))"
  shows "db_ok (write_payment tn pid f s)"
  using db_okD [OF assms(1)] assms(3) write_payment_ids [OF assms(2), of tn pid s]
  by (simp add: db_ok_def)

lemma put_payment_Inr:
  "put_payment row s = Inr (s', p) \<Longrightarrow>
   p = row \<and> s' = s\<lparr>d_payments := d_payments s @ [row], d_next := d_next s + 1\<rparr>
   \<and> payments_ok (d_payments s @ [row])"
  by (auto simp: put_payment_def handler_simps)

lemma db_ok_put_payment:
  assumes "db_ok s" "put_payment row s = Inr (s', p)" "p_id row = d_next s"
  shows "db_ok s'"
  using db_okD [OF assms(1)] put_payment_Inr [OF assms(2)] assms(3)
    ids_below_mono [of "d_next s" _ "d_next s + 1"] subjects_below_mono [of "d_next s" _ "d_next s + 1"]
  by (auto simp: db_ok_def)

lemma live_pending_None:
  "live_pending_for_booking tn bid s = None \<longleftrightarrow>
     (\<forall>p\<in>set (d_payments s). pending_hold p \<longrightarrow> hold_key p \<noteq> (tn, bid))"
  by (auto simp: live_pending_for_booking_def find_None_iff pending_hold_def hold_key_def)

lemma put_hold_free:
  assumes "db_ok s" "live_pending_for_booking tn bid s = None" "0 < amount"
  shows "\<exists>s' p. insert_payment tn bid prov amount sess url hold s = Inr (s', p)
     \<and> p_status p = Pay_pending \<and> p_booking p = bid \<and> p_tenant p = tn \<and> p_amount p = amount
     \<and> p_session p = Some sess \<and> p_redirect_url p = Some url \<and> p_hold_expires_at p = Some hold
     \<and> s' = s\<lparr>d_payments := d_payments s @ [p], d_next := d_next s + 1\<rparr> \<and> db_ok s'"
proof -
  let ?p = "\<lparr>p_id = d_next s, p_tenant = tn, p_booking = bid, p_provider = prov, p_amount = amount,
        p_status = Pay_pending, p_session = Some sess, p_redirect_url = Some url, p_txn = None,
        p_hold_expires_at = Some hold, p_paid_at = None, p_error = None, p_created_at = d_now s,
        p_deleted = False\<rparr>"
  have "payments_ok (d_payments s @ [?p])"
    using db_okD(2,7) [OF assms(1)] assms(2,3) ids_below_notin [OF db_okD(7) [OF assms(1)]]
    by (auto simp: payments_ok_def live_pending_None hold_key_def [of ?p] settled_txn_def [of ?p]
        simp del: set_map simp flip: image_set)
  then have "put_payment ?p s = Inr (s\<lparr>d_payments := d_payments s @ [?p], d_next := d_next s + 1\<rparr>, ?p)"
    by (simp add: put_payment_def insert_row_def)
  with db_ok_put_payment [OF assms(1) this] show ?thesis by (simp add: insert_payment_def)
qed

end
