(* ===== verification/Sweeper.thy ===== *)
theory Sweeper
  imports Payments_Repo Booking_Writes
begin

text \<open>
  The deposit sweeper, \<open>app/payments/sweeper.py\<close>: expire the holds whose deadline has passed, give
  back the seats of the bookings they held, and cancel the bookings that wait for a payment nobody
  opened. One transaction per tenant.
\<close>

section \<open>The sweeper's statements\<close>

definition SWEEP_BATCH_SIZE :: nat where "SWEEP_BATCH_SIZE = 500"

definition hold_due :: "uuid \<Rightarrow> instant \<Rightarrow> payment \<Rightarrow> bool" where
  "hold_due tn now p \<longleftrightarrow>
     p_tenant p = tn \<and> p_status p = Pay_pending
     \<and> (case p_hold_expires_at p of None \<Rightarrow> False | Some t \<Rightarrow> t \<le> now) \<and> \<not> p_deleted p"

definition expire_holds :: "uuid \<Rightarrow> instant \<Rightarrow> db \<Rightarrow> error + db \<times> (uuid \<times> uuid) list" where
  "expire_holds tn now s =
     (let batch = take SWEEP_BATCH_SIZE (filter (hold_due tn now) (d_payments s)) in
      andthen (update_rows payments_ok (\<lambda>p. hold_due tn now p \<and> p_id p \<in> p_id ` set batch)
                 (\<lambda>p. p\<lparr>p_status := Pay_expired, p_redirect_url := None\<rparr>) (d_payments s))
        (\<lambda>(rows, _). Inr (s\<lparr>d_payments := rows\<rparr>, map (\<lambda>p. (p_id p, p_booking p)) batch)))"

text \<open>A hold that is still open, or money taken, keeps a booking from being an orphan.\<close>

definition live_hold :: "db \<Rightarrow> uuid \<Rightarrow> bool" where
  "live_hold s bid \<longleftrightarrow>
     list_ex (\<lambda>p. p_booking p = bid \<and> \<not> p_deleted p \<and> p_status p \<in> {Pay_pending, Paid}) (d_payments s)"

definition orphan :: "uuid \<Rightarrow> instant \<Rightarrow> int \<Rightarrow> db \<Rightarrow> booking \<Rightarrow> bool" where
  "orphan tn now grace s b \<longleftrightarrow>
     b_tenant b = tn \<and> b_status b = Pending_payment \<and> \<not> b_deleted b
     \<and> b_created_at b \<le> now - grace \<and> \<not> live_hold s (b_id b)"

definition cancel_orphans :: "uuid \<Rightarrow> instant \<Rightarrow> int \<Rightarrow> int \<Rightarrow> db \<Rightarrow> error + db \<times> uuid list" where
  "cancel_orphans tn now hold poll s =
     (let grace = seconds (hold + poll);
          batch = map b_id (take SWEEP_BATCH_SIZE (filter (orphan tn now grace s) (d_bookings s))) in
      andthen (update_rows bookings_ok (\<lambda>b. orphan tn now grace s b \<and> b_id b \<in> set batch)
                 (\<lambda>b. b\<lparr>b_status := Cancelled, b_cancelled_at := Some now,
                        b_cancelled_by := Some By_expired\<rparr>) (d_bookings s))
        (\<lambda>(rows, _). Inr (s\<lparr>d_bookings := rows\<rparr>, batch)))"

section \<open>One sweep of one tenant\<close>

record sweep_result =
  sw_expired :: nat
  sw_released :: nat
  sw_orphaned :: nat

fun release_expired ::
  "uuid \<Rightarrow> instant \<Rightarrow> (uuid \<times> uuid) list \<Rightarrow> nat \<Rightarrow> db \<Rightarrow> error + db \<times> nat" where
  "release_expired tn now [] n s = Inr (s, n)"
| "release_expired tn now ((pid, bid) # claimed) n s =
     andthen (cancel_booking tn bid now By_expired [Pending_payment] None s) (\<lambda>(s1, b).
     release_expired tn now claimed (if b \<noteq> None then n + 1 else n)
       (record_audit tn Deposit_hold_expired (Some pid) s1))"

fun audit_orphans :: "uuid \<Rightarrow> uuid list \<Rightarrow> db \<Rightarrow> db" where
  "audit_orphans tn [] s = s"
| "audit_orphans tn (bid # bids) s = audit_orphans tn bids (record_audit tn Deposit_hold_expired (Some bid) s)"

definition sweep_deposits :: "uuid \<Rightarrow> instant \<Rightarrow> int \<Rightarrow> int \<Rightarrow> db \<Rightarrow> error + db \<times> sweep_result" where
  "sweep_deposits tn now hold poll s =
     andthen (expire_holds tn now s) (\<lambda>(s1, claimed).
     andthen (release_expired tn now claimed 0 s1) (\<lambda>(s2, released).
     andthen (cancel_orphans tn now hold poll s2) (\<lambda>(s3, orphans).
     Inr (audit_orphans tn orphans s3,
       \<lparr>sw_expired = length claimed, sw_released = released, sw_orphaned = length orphans\<rparr>))))"


section \<open>Lemmas\<close>

lemma list_all2_update_where:
  assumes "\<And>r. r \<in> set rows \<Longrightarrow> P r \<Longrightarrow> R r (f r)" "\<And>r. R r r"
  shows "list_all2 R rows (update_where P f rows)"
  using assms by (induction rows) auto

lemma list_all2_memD: "list_all2 R xs ys \<Longrightarrow> x \<in> set xs \<Longrightarrow> \<exists>y\<in>set ys. R x y"
  by (induction rule: list_all2_induct) auto

definition expired_row :: "payment \<Rightarrow> payment" where
  "expired_row p = p\<lparr>p_status := Pay_expired, p_redirect_url := None\<rparr>"

definition released_row :: "instant \<Rightarrow> booking \<Rightarrow> booking" where
  "released_row now b = b\<lparr>b_status := Cancelled, b_cancelled_at := Some now, b_cancelled_by := Some By_expired\<rparr>"

lemma released_row_sel [simp]:
  "b_id (released_row now b) = b_id b" "b_tenant (released_row now b) = b_tenant b"
  "b_status (released_row now b) = Cancelled" "b_created_at (released_row now b) = b_created_at b"
  "b_deleted (released_row now b) = b_deleted b"
  by (simp_all add: released_row_def)

lemma payments_ok_expire:
  assumes "payments_ok rows"
  shows "payments_ok (update_where P expired_row rows)"
proof -
  have "map p_id (update_where P expired_row rows) = map p_id rows"
    by (rule map_update_where) (simp add: expired_row_def)
  moreover have "list_all (\<lambda>p. p_amount p > 0) (update_where P expired_row rows)"
    using assms by (auto simp: payments_ok_def list_all_iff set_update_where expired_row_def)
  moreover have "unique_on pending_hold hold_key (update_where P expired_row rows)"
    using assms unfolding payments_ok_def
    by (intro unique_on_update_shrink) (auto simp: pending_hold_def hold_key_def expired_row_def)
  moreover have "unique_on settled_txn txn_key (update_where P expired_row rows)"
    using assms unfolding payments_ok_def
    by (intro unique_on_update_shrink) (auto simp: settled_txn_def txn_key_def expired_row_def)
  ultimately show ?thesis using assms by (simp add: payments_ok_def)
qed

lemma bookings_ok_release:
  assumes "bookings_ok rows"
  shows "bookings_ok (update_where P (released_row now) rows)"
proof -
  have "map b_id (update_where P (released_row now) rows) = map b_id rows"
    by (rule map_update_where) simp
  moreover have "list_all booking_row_ok (update_where P (released_row now) rows)"
    using assms by (auto simp: bookings_ok_def list_all_iff set_update_where released_row_def booking_row_ok_def)
  moreover have "unique_on occupies seat_key (update_where P (released_row now) rows)"
    using assms unfolding bookings_ok_def
    by (intro unique_on_update_shrink) (auto simp: occupies_def seat_key_def released_row_def)
  moreover have "unique_on occupies visit_key (update_where P (released_row now) rows)"
    using assms unfolding bookings_ok_def
    by (intro unique_on_update_shrink) (auto simp: occupies_def visit_key_def released_row_def)
  ultimately show ?thesis using assms by (simp add: bookings_ok_def)
qed

lemma update_rows_total:
  assumes "ok (update_where P f rows)"
  shows "\<exists>hit. update_rows ok P f rows = Inr (update_where P f rows, hit)"
  using assms by (auto simp: update_rows_def Let_def update_where_none)

text \<open>What each of the three steps leaves behind.\<close>

lemma expire_holds_run:
  assumes "db_ok s"
  obtains rows where "expire_holds tn now s = Inr (s\<lparr>d_payments := rows\<rparr>,
      map (\<lambda>p. (p_id p, p_booking p)) (take SWEEP_BATCH_SIZE (filter (hold_due tn now) (d_payments s))))"
    "db_ok (s\<lparr>d_payments := rows\<rparr>)"
    "list_all2 (\<lambda>p q. q = p \<or> hold_due tn now p \<and> q = expired_row p) (d_payments s) rows"
    "length (filter (hold_due tn now) (d_payments s)) \<le> SWEEP_BATCH_SIZE \<longrightarrow> (\<forall>q\<in>set rows. \<not> hold_due tn now q)"
proof -
  let ?due = "filter (hold_due tn now) (d_payments s)"
  let ?batch = "take SWEEP_BATCH_SIZE ?due"
  let ?P = "\<lambda>p. hold_due tn now p \<and> p_id p \<in> p_id ` set ?batch"
  let ?rows = "update_where ?P expired_row (d_payments s)"
  have ok: "payments_ok ?rows" by (rule payments_ok_expire [OF db_okD(2) [OF assms]])
  then obtain hit where "update_rows payments_ok ?P expired_row (d_payments s) = Inr (?rows, hit)"
    using update_rows_total by blast
  then have run: "expire_holds tn now s = Inr (s\<lparr>d_payments := ?rows\<rparr>, map (\<lambda>p. (p_id p, p_booking p)) ?batch)"
    by (simp add: expire_holds_def Let_def expired_row_def [abs_def])
  have "map p_id ?rows = map p_id (d_payments s)"
    by (rule map_update_where) (simp add: expired_row_def)
  then have "db_ok (s\<lparr>d_payments := ?rows\<rparr>)" using db_okD [OF assms] ok by (simp add: db_ok_def)
  moreover have "list_all2 (\<lambda>p q. q = p \<or> hold_due tn now p \<and> q = expired_row p) (d_payments s) ?rows"
    by (rule list_all2_update_where) auto
  moreover have "\<forall>q\<in>set ?rows. \<not> hold_due tn now q" if "length ?due \<le> SWEEP_BATCH_SIZE"
  proof
    fix q assume "q \<in> set ?rows"
    then obtain p where p: "p \<in> set (d_payments s)" "q = (if ?P p then expired_row p else p)"
      by (auto simp: set_update_where)
    then show "\<not> hold_due tn now q"
      using that by (auto simp: hold_due_def expired_row_def)
  qed
  ultimately show ?thesis using run that by blast
qed

definition freed :: "(booking \<Rightarrow> bool) \<Rightarrow> instant \<Rightarrow> booking \<Rightarrow> booking \<Rightarrow> bool" where
  "freed why now b c \<longleftrightarrow> c = b \<or> (b_status b = Pending_payment \<and> why b \<and> c = released_row now b)"

lemma freed_refl: "list_all2 (freed why now) bs bs"
  by (rule list.rel_refl) (simp add: freed_def)

lemma freed_trans:
  assumes "freed why now a b" "freed why' now b c"
    and "\<And>x. why x \<Longrightarrow> because x" "\<And>x. why' x \<Longrightarrow> because x"
  shows "freed because now a c"
  using assms by (auto simp: freed_def released_row_def)

lemma freed_trans_all:
  assumes "list_all2 (freed why now) as bs" "list_all2 (freed why' now) bs cs"
    and "\<And>x. why x \<Longrightarrow> because x" "\<And>x. why' x \<Longrightarrow> because x"
  shows "list_all2 (freed because now) as cs"
proof (rule list_all2_trans [OF _ assms(1,2)])
  fix a b c assume "freed why now a b" "freed why' now b c"
  then show "freed because now a c" using assms(3,4) by (rule freed_trans)
qed

lemma cancel_expired_run:
  assumes ok: "db_ok s"
  obtains s' r where "cancel_booking tn bid now By_expired [Pending_payment] None s = Inr (s', r)"
    "db_ok s'" "d_payments s' = d_payments s"
    "list_all2 (freed (\<lambda>b. b_tenant b = tn \<and> b_id b = bid) now) (d_bookings s) (d_bookings s')"
proof (cases "booking_by_id tn bid s")
  case None
  then show ?thesis
    using that [of s None] ok freed_refl by (simp add: cancel_booking_run [OF db_okD(1) [OF ok]])
next
  case (Some b)
  note bb = booking_by_id_SomeD [OF Some]
  show ?thesis
  proof (cases "b_status b = Pending_payment")
    case False
    with Some show ?thesis
      using that [of s None] ok freed_refl by (simp add: cancel_booking_run [OF db_okD(1) [OF ok]])
  next
    case True
    let ?s1 = "write_booking tn bid (released_row now) s"
    have run: "cancel_booking tn bid now By_expired [Pending_payment] None s = Inr (?s1, Some (released_row now b))"
      using Some True by (simp add: cancel_booking_run [OF db_okD(1) [OF ok]] when_given_def released_row_def [abs_def])
    have "db_ok ?s1"
      by (rule db_ok_hold [OF ok Some, where g = "\<lambda>_. True"])
        (auto simp: bk.keeps_name_def place_defs released_row_def)
    moreover have "list_all2 (freed (\<lambda>b. b_tenant b = tn \<and> b_id b = bid) now) (d_bookings s) (d_bookings ?s1)"
    proof -
      obtain pre post where "d_bookings s = pre @ b # post"
        "update_where (bk.named tn bid) (released_row now) (d_bookings s) = pre @ released_row now b # post"
        using bk.one_row [OF db_okD(1) [OF ok] Some [unfolded booking_by_id_fetch]] by blast
      then show ?thesis
        using bb True freed_refl by (simp add: names_booking_named list_all2_appendI freed_def)
    qed
    ultimately show ?thesis using that [OF run] by simp
  qed
qed

lemma release_expired_run:
  assumes "db_ok s"
  obtains s' k where "release_expired tn now claimed n s = Inr (s', k)" "db_ok s'"
    "d_payments s' = d_payments s"
    "list_all2 (freed (\<lambda>b. b_tenant b = tn \<and> b_id b \<in> snd ` set claimed) now) (d_bookings s) (d_bookings s')"
proof -
  have "\<exists>s' k. release_expired tn now claimed n s = Inr (s', k) \<and> db_ok s' \<and> d_payments s' = d_payments s
    \<and> list_all2 (freed (\<lambda>b. b_tenant b = tn \<and> b_id b \<in> snd ` set claimed) now) (d_bookings s) (d_bookings s')"
    using assms
  proof (induction claimed arbitrary: n s)
    case Nil
    then show ?case using freed_refl by simp
  next
    case (Cons c claimed)
    obtain pid bid where c: "c = (pid, bid)" by fastforce
    obtain s1 r where run: "cancel_booking tn bid now By_expired [Pending_payment] None s = Inr (s1, r)"
      and ok1: "db_ok s1" "d_payments s1 = d_payments s"
      and b1: "list_all2 (freed (\<lambda>b. b_tenant b = tn \<and> b_id b = bid) now) (d_bookings s) (d_bookings s1)"
      by (rule cancel_expired_run [OF Cons.prems])
    let ?s1 = "record_audit tn Deposit_hold_expired (Some pid) s1" and ?n = "if r \<noteq> None then n + 1 else n"
    have "db_ok ?s1" using ok1 by simp
    from Cons.IH [OF this, of ?n] obtain s' k
      where rest: "release_expired tn now claimed ?n ?s1 = Inr (s', k)" "db_ok s'" "d_payments s' = d_payments ?s1"
        and b': "list_all2 (freed (\<lambda>b. b_tenant b = tn \<and> b_id b \<in> snd ` set claimed) now)
               (d_bookings ?s1) (d_bookings s')" by blast
    have "list_all2 (freed (\<lambda>b. b_tenant b = tn \<and> b_id b \<in> snd ` set (c # claimed)) now) (d_bookings s) (d_bookings s')"
      by (rule freed_trans_all [OF b1 b' [simplified]]) (auto simp: c)
    moreover have "release_expired tn now (c # claimed) n s = Inr (s', k)" using run rest(1) by (simp add: c)
    ultimately show ?case using rest(2,3) ok1(2) by simp
  qed
  then show ?thesis using that by blast
qed

lemma cancel_orphans_run:
  assumes "db_ok s"
  obtains rows ids where "cancel_orphans tn now hold poll s = Inr (s\<lparr>d_bookings := rows\<rparr>, ids)"
    "db_ok (s\<lparr>d_bookings := rows\<rparr>)"
    "list_all2 (freed (orphan tn now (seconds (hold + poll)) s) now) (d_bookings s) rows"
proof -
  let ?orph = "orphan tn now (seconds (hold + poll)) s"
  let ?batch = "map b_id (take SWEEP_BATCH_SIZE (filter ?orph (d_bookings s)))"
  let ?P = "\<lambda>b. ?orph b \<and> b_id b \<in> set ?batch"
  let ?rows = "update_where ?P (released_row now) (d_bookings s)"
  have ok: "bookings_ok ?rows" by (rule bookings_ok_release [OF db_okD(1) [OF assms]])
  then obtain hit where "update_rows bookings_ok ?P (released_row now) (d_bookings s) = Inr (?rows, hit)"
    using update_rows_total by blast
  then have run: "cancel_orphans tn now hold poll s = Inr (s\<lparr>d_bookings := ?rows\<rparr>, ?batch)"
    by (simp add: cancel_orphans_def Let_def released_row_def [abs_def])
  have "map b_id ?rows = map b_id (d_bookings s)" by (rule map_update_where) simp
  then have "db_ok (s\<lparr>d_bookings := ?rows\<rparr>)" using db_okD [OF assms] ok by (simp add: db_ok_def)
  moreover have "list_all2 (freed ?orph now) (d_bookings s) ?rows"
    by (rule list_all2_update_where) (auto simp: freed_def orphan_def)
  ultimately show ?thesis using run that by blast
qed

lemma audit_orphans_sel [simp]:
  "d_bookings (audit_orphans tn ids s) = d_bookings s" "d_payments (audit_orphans tn ids s) = d_payments s"
  "db_ok (audit_orphans tn ids s) = db_ok s"
  by (induction ids arbitrary: s) simp_all

lemma sweep_payments:
  assumes "db_ok s"
  shows "\<exists>s' res. sweep_deposits tn now hold poll s = Inr (s', res) \<and> db_ok s'
     \<and> list_all2 (\<lambda>p q. q = p \<or> hold_due tn now p \<and> q = expired_row p) (d_payments s) (d_payments s')"
proof -
  let ?claimed = "map (\<lambda>p. (p_id p, p_booking p)) (take SWEEP_BATCH_SIZE (filter (hold_due tn now) (d_payments s)))"
  obtain rows where e: "expire_holds tn now s = Inr (s\<lparr>d_payments := rows\<rparr>, ?claimed)"
    and ok1: "db_ok (s\<lparr>d_payments := rows\<rparr>)"
    and p1: "list_all2 (\<lambda>p q. q = p \<or> hold_due tn now p \<and> q = expired_row p) (d_payments s) rows"
    by (rule expire_holds_run [OF assms, of tn now])
  obtain s2 k where r: "release_expired tn now ?claimed 0 (s\<lparr>d_payments := rows\<rparr>) = Inr (s2, k)" "db_ok s2"
      "d_payments s2 = d_payments (s\<lparr>d_payments := rows\<rparr>)"
    by (rule release_expired_run [OF ok1, of tn now ?claimed 0])
  obtain rows3 ids where o: "cancel_orphans tn now hold poll s2 = Inr (s2\<lparr>d_bookings := rows3\<rparr>, ids)"
      "db_ok (s2\<lparr>d_bookings := rows3\<rparr>)"
    by (rule cancel_orphans_run [OF r(2), of tn now hold poll])
  show ?thesis using e r o p1 by (simp add: sweep_deposits_def)
qed

section \<open>Property\<close>

definition held_by_due :: "uuid \<Rightarrow> instant \<Rightarrow> db \<Rightarrow> booking \<Rightarrow> bool" where
  "held_by_due tn now s b \<longleftrightarrow>
     b_tenant b = tn \<and> list_ex (\<lambda>p. hold_due tn now p \<and> p_booking p = b_id b) (d_payments s)"

definition abandoned :: "uuid \<Rightarrow> instant \<Rightarrow> int \<Rightarrow> db \<Rightarrow> booking \<Rightarrow> bool" where
  "abandoned tn now grace s b \<longleftrightarrow> b_tenant b = tn \<and> b_created_at b \<le> now - grace
     \<and> \<not> list_ex (\<lambda>p. p_booking p = b_id b \<and> \<not> p_deleted p \<and> p_status p = Paid) (d_payments s)"

text \<open>C23. The sweeper frees exactly what is overdue. It never fails on the database and leaves it well
  formed; only pending holds whose deadline has passed are expired, and none of those is left when a
  batch holds them all; only a booking that still waits for its payment loses its seat, and only
  because its own hold was overdue or because it is older than the grace period with no payment taken
  for it; no other booking and no other payment changes.\<close>

theorem sweep_frees_only_overdue:
  assumes "db_ok s"
  shows "\<exists>s' res. sweep_deposits tn now hold poll s = Inr (s', res) \<and> db_ok s'
     \<and> list_all2 (\<lambda>p q. q = p \<or> hold_due tn now p \<and> q = expired_row p) (d_payments s) (d_payments s')
     \<and> (length (filter (hold_due tn now) (d_payments s)) \<le> SWEEP_BATCH_SIZE
          \<longrightarrow> (\<forall>q\<in>set (d_payments s'). \<not> hold_due tn now q))
     \<and> list_all2 (freed (\<lambda>b. held_by_due tn now s b \<or> abandoned tn now (seconds (hold + poll)) s b) now)
         (d_bookings s) (d_bookings s')"
proof -
  let ?claimed = "map (\<lambda>p. (p_id p, p_booking p)) (take SWEEP_BATCH_SIZE (filter (hold_due tn now) (d_payments s)))"
  let ?why = "\<lambda>b. held_by_due tn now s b \<or> abandoned tn now (seconds (hold + poll)) s b"
  obtain rows where e: "expire_holds tn now s = Inr (s\<lparr>d_payments := rows\<rparr>, ?claimed)"
    and ok1: "db_ok (s\<lparr>d_payments := rows\<rparr>)"
    and p1: "list_all2 (\<lambda>p q. q = p \<or> hold_due tn now p \<and> q = expired_row p) (d_payments s) rows"
    and all: "length (filter (hold_due tn now) (d_payments s)) \<le> SWEEP_BATCH_SIZE \<longrightarrow> (\<forall>q\<in>set rows. \<not> hold_due tn now q)"
    by (rule expire_holds_run [OF assms, of tn now])
  obtain s2 k where r: "release_expired tn now ?claimed 0 (s\<lparr>d_payments := rows\<rparr>) = Inr (s2, k)" "db_ok s2"
      "d_payments s2 = d_payments (s\<lparr>d_payments := rows\<rparr>)"
    and b2: "list_all2 (freed (\<lambda>b. b_tenant b = tn \<and> b_id b \<in> snd ` set ?claimed) now)
        (d_bookings (s\<lparr>d_payments := rows\<rparr>)) (d_bookings s2)"
    by (rule release_expired_run [OF ok1, of tn now ?claimed 0])
  obtain rows3 ids where o: "cancel_orphans tn now hold poll s2 = Inr (s2\<lparr>d_bookings := rows3\<rparr>, ids)"
      "db_ok (s2\<lparr>d_bookings := rows3\<rparr>)"
    and b3: "list_all2 (freed (orphan tn now (seconds (hold + poll)) s2) now) (d_bookings s2) rows3"
    by (rule cancel_orphans_run [OF r(2), of tn now hold poll])
  let ?s' = "audit_orphans tn ids (s2\<lparr>d_bookings := rows3\<rparr>)"
  have due: "?why b" if "b_tenant b = tn" "b_id b \<in> snd ` set ?claimed" for b
    using that by (auto simp: held_by_due_def list_ex_iff dest!: in_set_takeD)
  have orph: "?why b" if "orphan tn now (seconds (hold + poll)) s2 b" for b
  proof -
    have "p_status p \<noteq> Paid" if p: "p \<in> set (d_payments s)" "p_booking p = b_id b" "\<not> p_deleted p" for p
    proof
      assume paid: "p_status p = Paid"
      obtain q where "q \<in> set rows" "q = p \<or> hold_due tn now p \<and> q = expired_row p"
        using list_all2_memD [OF p1 p(1)] by blast
      with paid have "p \<in> set rows" by (auto simp: hold_due_def)
      with \<open>orphan tn now (seconds (hold + poll)) s2 b\<close> p(2,3) paid r(3) show False
        by (auto simp: orphan_def live_hold_def list_ex_iff)
    qed
    with that show ?thesis by (auto simp: abandoned_def orphan_def list_ex_iff)
  qed
  have b: "list_all2 (freed ?why now) (d_bookings s) rows3"
    by (rule freed_trans_all [OF b2 [simplified] b3]) (use due orph in auto)
  have run: "sweep_deposits tn now hold poll s =
      Inr (?s', \<lparr>sw_expired = length ?claimed, sw_released = k, sw_orphaned = length ids\<rparr>)"
    using e r(1) o(1) by (simp add: sweep_deposits_def)
  have ok': "db_ok ?s'" using o(2) by simp
  have pay: "d_payments ?s' = rows" "d_bookings ?s' = rows3" using r(3) by simp_all
  show ?thesis
    by (rule exI, rule exI, rule conjI, rule run, unfold pay) (intro conjI ok' p1 all b)
qed

definition overdue_db :: db where
  "overdue_db = empty_db\<lparr>d_payments := [\<lparr>p_id = 7, p_tenant = 4, p_booking = 6, p_provider = [], p_amount = 300,
     p_status = Pay_pending, p_session = Some [1], p_redirect_url = Some [2], p_txn = None,
     p_hold_expires_at = Some 50, p_paid_at = None, p_error = None, p_created_at = 0, p_deleted = False\<rparr>]\<rparr>"

theorem sweep_frees_only_overdue_witness:
  "\<exists>s' res. sweep_deposits 4 60 900 60 overdue_db = Inr (s', res) \<and> db_ok s'
     \<and> (\<forall>q\<in>set (d_payments s'). \<not> hold_due 4 60 q)"
proof -
  have "db_ok overdue_db" by code_simp
  moreover have "length (filter (hold_due 4 60) (d_payments overdue_db)) \<le> SWEEP_BATCH_SIZE" by code_simp
  ultimately show ?thesis
    using sweep_frees_only_overdue [of overdue_db 4 60 900 60] by blast
qed

end
