(* ===== verification/Payments.thy ===== *)
theory Payments
  imports Payments_Repo Booking_Service Booking_Writes Sweeper
begin

text \<open>
  Deposits: \<open>PaymentService\<close> (\<open>app/payments/service.py\<close>), the booking reaction to a settlement
  (\<open>DepositBookingService\<close> of \<open>app/payments/webhook_router.py\<close>) and the checkout half of \<open>BookingService\<close>. The payment provider is a
  parameter: what it answers to a session request, and the event its signature check yields.
\<close>

section \<open>The gateway\<close>

record webhook_event =
  ev_session :: utext
  ev_txn :: utext
  ev_amount :: int
  ev_paid :: bool

text \<open>\<open>gw_row\<close> is the tenant's active credential row (whether it is valid), \<open>gw_kept\<close> whether it ever
  had one, \<open>gw_decrypt\<close> what opening it gives; \<open>gw_session\<close> and \<open>gw_verify\<close> are the adapter.\<close>

record gateway =
  gw_provider :: "string option"
  gw_configured :: bool
  gw_box :: bool
  gw_row :: "bool option"
  gw_kept :: bool
  gw_decrypt :: "error + unit"
  gw_session :: "uuid \<Rightarrow> int \<Rightarrow> int \<Rightarrow> error + utext \<times> utext"
  gw_verify :: "utext \<Rightarrow> utext \<Rightarrow> webhook_event option"

definition require_provider :: "gateway \<Rightarrow> error + string" where
  "require_provider g =
     (case gw_provider g of
        None \<Rightarrow> Inl Gateway_not_configured
      | Some p \<Rightarrow> if gw_configured g then Inr p else Inl Gateway_not_configured)"

definition require_box :: "gateway \<Rightarrow> error + string" where
  "require_box g =
     andthen (require_provider g) (\<lambda>p. andthen (ensure Secret_box_not_configured (gw_box g)) (\<lambda>_. Inr p))"

definition credentials_for :: "gateway \<Rightarrow> error + unit" where
  "credentials_for g =
     andthen (require_box g) (\<lambda>_.
     andthen (ensure Gateway_not_connected (gw_row g = Some True)) (\<lambda>_. gw_decrypt g))"

definition is_connected :: "gateway \<Rightarrow> bool" where
  "is_connected g = (case require_box g of Inl _ \<Rightarrow> False | Inr _ \<Rightarrow> gw_row g = Some True)"

definition verification_credentials_for :: "gateway \<Rightarrow> error + unit" where
  "verification_credentials_for g =
     andthen (require_box g) (\<lambda>_.
     andthen (ensure Gateway_not_connected (gw_kept g)) (\<lambda>_. gw_decrypt g))"

section \<open>Opening a hold\<close>

record deposit_hold =
  dh_payment :: payment
  dh_redirect_url :: "utext option"
  dh_created :: bool

definition open_hold ::
  "gateway \<Rightarrow> uuid \<Rightarrow> uuid \<Rightarrow> int \<Rightarrow> int \<Rightarrow> instant \<Rightarrow> db \<Rightarrow> error + db \<times> deposit_hold" where
  "open_hold g tn bid amount hold_seconds now s =
     andthen (require_provider g) (\<lambda>prov.
     andthen (credentials_for g) (\<lambda>_.
     case live_pending_for_booking tn bid s of
       Some p \<Rightarrow>
         Inr (s, \<lparr>dh_payment = p, dh_redirect_url = p_redirect_url p, dh_created = False\<rparr>)
     | None \<Rightarrow>
         andthen (gw_session g bid amount hold_seconds) (\<lambda>(sess, url).
         case insert_payment tn bid prov amount sess url (now + seconds hold_seconds) s of
           Inl _ \<Rightarrow> Inl Payment_already_held
         | Inr (s', p) \<Rightarrow>
             Inr (s', \<lparr>dh_payment = p, dh_redirect_url = Some url, dh_created = True\<rparr>))))"

definition DEPOSIT_COMPENSATED_ERRORS :: "error set" where
  "DEPOSIT_COMPENSATED_ERRORS =
     {Gateway_unavailable, Gateway_not_connected, Secret_decrypt_failed, Secret_box_not_configured}"

record deposit_outcome =
  do_status :: booking_status
  do_due :: bool
  do_redirect_url :: "utext option"
  do_session :: "utext option"

text \<open>\<open>creds\<close> is the gateway behind the credential service, when one is wired.\<close>

definition book_without_deposit ::
  "gateway option \<Rightarrow> uuid \<Rightarrow> booking_claim \<Rightarrow> db \<Rightarrow> error + db \<times> deposit_outcome" where
  "book_without_deposit creds tn claim s =
     andthen (set_status tn (b_id (bc_booking claim)) Confirmed [Pending_payment] None None s) (\<lambda>(s1, b).
     andthen
       (case (case creds of None \<Rightarrow> None | Some g \<Rightarrow> gw_provider g) of
          None \<Rightarrow> Inr s1
        | Some prov \<Rightarrow>
            andthen (record_unavailable tn (b_id (bc_booking claim)) prov (bc_deposit_amount claim) s1)
              (\<lambda>(s2, _). Inr s2)) (\<lambda>s2.
     Inr (record_audit tn Gateway_unavailable_at_checkout (Some (b_id (bc_booking claim))) s2,
       \<lparr>do_status = (case b of Some b' \<Rightarrow> b_status b' | None \<Rightarrow> b_status (bc_booking claim)),
        do_due = False, do_redirect_url = None, do_session = None\<rparr>)))"

definition open_deposit ::
  "gateway option \<Rightarrow> gateway option \<Rightarrow> int \<Rightarrow> uuid \<Rightarrow> booking_claim \<Rightarrow> instant \<Rightarrow> db
   \<Rightarrow> error + db \<times> deposit_outcome" where
  "open_deposit pay creds hold_seconds tn claim now s =
     (if \<not> bc_deposit_due claim \<or> b_status (bc_booking claim) \<noteq> Pending_payment
      then Inr (s, \<lparr>do_status = b_status (bc_booking claim), do_due = False, do_redirect_url = None,
                   do_session = None\<rparr>)
      else case pay of
        None \<Rightarrow> book_without_deposit creds tn claim s
      | Some g \<Rightarrow>
          (case open_hold g tn (b_id (bc_booking claim)) (bc_deposit_amount claim) hold_seconds now s of
             Inl err \<Rightarrow>
               if err \<in> DEPOSIT_COMPENSATED_ERRORS then book_without_deposit creds tn claim s
               else Inl err
           | Inr (s', hold) \<Rightarrow>
               Inr (s', \<lparr>do_status = b_status (bc_booking claim), do_due = True,
                        do_redirect_url = dh_redirect_url hold,
                        do_session = p_session (dh_payment hold)\<rparr>)))"

section \<open>Settling from a webhook\<close>

record settlement =
  st_payment :: payment
  st_new :: bool

text \<open>The texts left on a payment's \<open>error\<close> column.\<close>

definition DECLINE_ERROR :: utext where
  "DECLINE_ERROR = u ''declined: webhook reported the charge was not paid''"

fun decimal_nat :: "nat \<Rightarrow> utext" where
  "decimal_nat n = (if n < 10 then [48 + n] else decimal_nat (n div 10) @ [48 + n mod 10])"

declare decimal_nat.simps [simp del]

definition decimal :: "int \<Rightarrow> utext" where
  "decimal n = (if n < 0 then 45 # decimal_nat (nat (- n)) else decimal_nat (nat n))"

definition status_text :: "payment_status \<Rightarrow> utext" where
  "status_text st = u (case st of Pay_pending \<Rightarrow> ''pending'' | Paid \<Rightarrow> ''paid'' | Pay_failed \<Rightarrow> ''failed''
     | Pay_expired \<Rightarrow> ''expired'' | Refund_due \<Rightarrow> ''refund_due'' | Refunded \<Rightarrow> ''refunded''
     | Forfeited \<Rightarrow> ''forfeited'')"

definition mismatch_error :: "int \<Rightarrow> utext" where
  "mismatch_error amount = u ''amount mismatch: webhook claimed '' @ decimal amount"

definition late_error :: "payment_status \<Rightarrow> utext" where
  "late_error st = u ''late settlement: hold was '' @ status_text st"

definition duplicate_error :: "utext \<Rightarrow> utext option \<Rightarrow> utext" where
  "duplicate_error txn settled =
     u ''duplicate transaction: '' @ txn @ u '' arrived for a row already settled by ''
       @ (case settled of None \<Rightarrow> u ''None'' | Some t \<Rightarrow> t)"

definition note_on :: "uuid \<Rightarrow> payment \<Rightarrow> utext \<Rightarrow> audit_action \<Rightarrow> db \<Rightarrow> error + db \<times> settlement" where
  "note_on tn p err act s =
     andthen (record_error tn (p_id p) err s) (\<lambda>(s1, marked).
     Inr (record_audit tn act (Some (p_id p)) s1,
       \<lparr>st_payment = (case marked of Some q \<Rightarrow> q | None \<Rightarrow> p), st_new = False\<rparr>))"

definition record_decline :: "uuid \<Rightarrow> payment \<Rightarrow> db \<Rightarrow> error + db \<times> settlement" where
  "record_decline tn p = note_on tn p DECLINE_ERROR Gateway_payment_declined"

definition explain_missed_settlement :: "uuid \<Rightarrow> uuid \<Rightarrow> utext \<Rightarrow> db \<Rightarrow> error + db \<times> settlement" where
  "explain_missed_settlement tn pid txn s =
     (case payment_by_id tn pid s of
        None \<Rightarrow> Inl Webhook_invalid
      | Some p \<Rightarrow>
          if p_status p = Paid then
            (if p_txn p = Some txn then Inr (s, \<lparr>st_payment = p, st_new = False\<rparr>)
             else note_on tn p (duplicate_error txn (p_txn p)) Gateway_duplicate_transaction s)
          else note_on tn p (late_error (p_status p)) Gateway_late_settlement s)"

text \<open>A transaction that is rolled back when its body raises.\<close>

definition commits :: "db \<Rightarrow> error + db \<times> 'a \<Rightarrow> db \<times> (error + 'a)" where
  "commits s r = (case r of Inl err \<Rightarrow> (s, Inl err) | Inr (s', x) \<Rightarrow> (s', Inr x))"

text \<open>The refusal of an amount commits its evidence in a transaction of its own, then raises.\<close>

definition refuse_amount :: "uuid \<Rightarrow> uuid \<Rightarrow> int \<Rightarrow> db \<Rightarrow> db \<times> (error + settlement)" where
  "refuse_amount tn pid amount s =
     (case record_error tn pid (mismatch_error amount) s of
        Inl err \<Rightarrow> (s, Inl err)
      | Inr (s1, _) \<Rightarrow> (record_audit tn Gateway_amount_mismatch (Some pid) s1, Inl Webhook_invalid))"

definition settle_event ::
  "string \<Rightarrow> uuid \<Rightarrow> webhook_event \<Rightarrow> instant \<Rightarrow> db \<Rightarrow> db \<times> (error + settlement)" where
  "settle_event prov tn ev now s =
     (case by_provider_transaction_id tn prov (ev_txn ev) s of
        Some already \<Rightarrow> (s, Inr \<lparr>st_payment = already, st_new = False\<rparr>)
      | None \<Rightarrow>
      case by_provider_session_id tn prov (ev_session ev) s of
        Inl err \<Rightarrow> (s, Inl err)
      | Inr None \<Rightarrow> (record_audit tn Gateway_webhook_unmatched None s, Inl Webhook_invalid)
      | Inr (Some p) \<Rightarrow>
          if \<not> ev_paid ev then commits s (record_decline tn p s)
          else if ev_amount ev = p_amount p then
            commits s
              (andthen (settle tn (p_id p) (ev_txn ev) now s) (\<lambda>(s1, settled).
                 case settled of
                   Some q \<Rightarrow> Inr (s1, \<lparr>st_payment = q, st_new = True\<rparr>)
                 | None \<Rightarrow> explain_missed_settlement tn (p_id p) (ev_txn ev) s1))
          else refuse_amount tn (p_id p) (ev_amount ev) s)"

definition settle_from_webhook ::
  "gateway \<Rightarrow> uuid \<Rightarrow> utext \<Rightarrow> utext \<Rightarrow> instant \<Rightarrow> db \<Rightarrow> db \<times> (error + settlement)" where
  "settle_from_webhook g tn body sig now s =
     (case andthen (require_provider g) (\<lambda>prov. andthen (verification_credentials_for g) (\<lambda>_. Inr prov)) of
        Inl err \<Rightarrow> (s, Inl err)
      | Inr prov \<Rightarrow>
          (case gw_verify g body sig of
             None \<Rightarrow> (record_audit tn Gateway_webhook_rejected None s, Inl Webhook_invalid)
           | Some ev \<Rightarrow> settle_event prov tn ev now s))"

definition honour_late_settlement ::
  "uuid \<Rightarrow> uuid \<Rightarrow> utext \<Rightarrow> instant \<Rightarrow> db \<Rightarrow> error + db \<times> payment option" where
  "honour_late_settlement = settle_late"

section \<open>What the booking does about it\<close>

datatype deposit_reaction = Confirm | Honour | Ignore

definition deposit_reaction :: "settlement \<Rightarrow> deposit_reaction" where
  "deposit_reaction st =
     (if p_status (st_payment st) = Paid then Confirm
      else if p_status (st_payment st) = Pay_expired then Honour
      else Ignore)"

definition is_declined :: "payment \<Rightarrow> bool" where
  "is_declined p \<longleftrightarrow> p_status p = Pay_pending \<and> p_error p = Some DECLINE_ERROR"

record payment_facts =
  pf_booking_status :: booking_status
  pf_payment_status :: payment_status
  pf_paid_at :: "instant option"
  pf_declined :: bool

definition payment_status_of :: "gateway \<Rightarrow> uuid \<Rightarrow> utext \<Rightarrow> db \<Rightarrow> error + payment_facts" where
  "payment_status_of g tn sess s =
     andthen (need Gateway_not_configured (gw_provider g)) (\<lambda>prov.
     andthen (by_provider_session_id tn prov sess s) (\<lambda>row.
     andthen (need Payment_not_found row) (\<lambda>p.
     andthen (need Payment_not_found (booking_by_id tn (p_booking p) s)) (\<lambda>b.
     Inr \<lparr>pf_booking_status = b_status b, pf_payment_status = p_status p, pf_paid_at = p_paid_at p,
          pf_declined = is_declined p\<rparr>))))"

text \<open>The text sent once the transaction is closed.\<close>

datatype notice = Confirmation booking utext | No_slot booking

definition confirm_deposit ::
  "env \<Rightarrow> uuid \<Rightarrow> uuid \<Rightarrow> instant \<Rightarrow> utext \<Rightarrow> db \<Rightarrow> error + db \<times> notice option" where
  "confirm_deposit e tn bid now token s =
     andthen (set_status tn bid Confirmed [Pending_payment] None None s) (\<lambda>(s1, booking).
     case booking of
       None \<Rightarrow> Inr (s1, None)
     | Some b \<Rightarrow>
         andthen (set_manage_token_hash tn bid (e_hash e token) None None s1) (\<lambda>(s2, _).
         andthen (upsert_reminder e tn bid (b_starts_at b) now (Some token) token s2) (\<lambda>(s3, _).
         Inr (record_audit tn Booking_confirmed (Some bid) s3, Some (Confirmation b token)))))"

definition free_seat :: "env \<Rightarrow> uuid \<Rightarrow> booking \<Rightarrow> instant \<Rightarrow> db \<Rightarrow> int option" where
  "free_seat e tn b now s =
     (let day = fst (to_local (e_zone e) (b_starts_at b));
          slots = materialize_slots (e_zone e) (list_active_rules tn s)
                    (list_active_exceptions tn day day s) (\<lambda>_. 0) day day now in
      case find (\<lambda>sl. s_starts_at sl = b_starts_at b) slots of
        None \<Rightarrow> None
      | Some sl \<Rightarrow>
          let occupied = active_seats_at tn (b_starts_at b) s;
              others = (if b_status b \<noteq> Cancelled then removeAll (b_seat b) occupied else occupied)
          in lowest_free (s_capacity sl) others)"

definition rebind_late ::
  "env \<Rightarrow> uuid \<Rightarrow> booking \<Rightarrow> instant \<Rightarrow> utext \<Rightarrow> db \<Rightarrow> error + db \<times> booking option" where
  "rebind_late e tn b now token s =
     (case free_seat e tn b now s of
        None \<Rightarrow> Inr (s, None)
      | Some seat \<Rightarrow>
          if (case active_at tn (b_customer b) (b_starts_at b) s of
                None \<Rightarrow> False | Some other \<Rightarrow> b_id other \<noteq> b_id b)
          then Inr (s, None)
          else
            andthen (rebind tn (b_id b) seat [Cancelled, Pending_payment] now s) (\<lambda>(s1, rebound).
            case rebound of
              None \<Rightarrow> Inr (s1, None)
            | Some b' \<Rightarrow>
                andthen (set_manage_token_hash tn (b_id b) (e_hash e token) None None s1) (\<lambda>(s2, _).
                andthen (upsert_reminder e tn (b_id b) (b_starts_at b') now (Some token) token s2)
                  (\<lambda>(s3, _).
                Inr (record_audit tn Deposit_late_honoured (Some (b_id b)) s3, Some b')))))"

definition honour ::
  "env \<Rightarrow> uuid \<Rightarrow> payment \<Rightarrow> utext \<Rightarrow> instant \<Rightarrow> instant \<Rightarrow> utext \<Rightarrow> db \<Rightarrow> db \<times> (error + notice option)" where
  "honour e tn p txn paid_at now token s =
     (case honour_late_settlement tn (p_id p) txn paid_at s of
        Inl err \<Rightarrow> (s, Inl err)
      | Inr (s1, None) \<Rightarrow> (s1, Inr None)
      | Inr (s1, Some paid) \<Rightarrow>
          (case booking_by_id tn (p_booking paid) s1 of
             None \<Rightarrow> (s1, Inr None)
           | Some b \<Rightarrow>
               let unresolved = (record_audit tn Deposit_late_unresolved (Some (b_id b)) s1,
                                 Inr (Some (No_slot b))) in
               (case rebind_late e tn b now token s1 of
                  Inl Integrity_error \<Rightarrow> unresolved
                | Inl err \<Rightarrow> (s1, Inl err)
                | Inr (_, None) \<Rightarrow> unresolved
                | Inr (s2, Some b') \<Rightarrow> (s2, Inr (Some (Confirmation b' token))))))"

text \<open>The second transaction of a delivery: what the booking does about the settlement the first one
  answered. The late branch verifies the same bytes again, which the adapter answers as before.\<close>

definition react ::
  "env \<Rightarrow> gateway \<Rightarrow> uuid \<Rightarrow> utext \<Rightarrow> utext \<Rightarrow> settlement \<Rightarrow> instant \<Rightarrow> instant \<Rightarrow> utext \<Rightarrow> db
   \<Rightarrow> db \<times> (error + notice option)" where
  "react e g tn body sig st paid_at now token s =
     (case deposit_reaction st of
        Confirm \<Rightarrow> commits s (confirm_deposit e tn (p_booking (st_payment st)) now token s)
      | Honour \<Rightarrow>
          (case andthen (verification_credentials_for g) (\<lambda>_. need Webhook_invalid (gw_verify g body sig)) of
             Inl err \<Rightarrow> (s, Inl err)
           | Inr ev \<Rightarrow> honour e tn (st_payment st) (ev_txn ev) paid_at now token s)
      | Ignore \<Rightarrow> (s, Inr None))"

text \<open>\<open>at\<close>, \<open>paid_at\<close> and \<open>now\<close> are the three readings of the clock along the way; the two transactions
  run back to back here, and apart in \<open>money_step\<close> below.\<close>

definition settle_deposit ::
  "env \<Rightarrow> gateway \<Rightarrow> uuid \<Rightarrow> utext \<Rightarrow> utext \<Rightarrow> instant \<Rightarrow> instant \<Rightarrow> instant \<Rightarrow> utext \<Rightarrow> db
   \<Rightarrow> db \<times> (error + notice option)" where
  "settle_deposit e g tn body sig at paid_at now token s =
     (case settle_from_webhook g tn body sig at s of
        (s1, Inl err) \<Rightarrow> (s1, Inl err)
      | (s1, Inr st) \<Rightarrow> react e g tn body sig st paid_at now token s1)"

section \<open>Lemmas: settling\<close>

lemma by_session_fetch:
  assumes "db_ok s" "by_provider_session_id tn prov sess s = Inr (Some p)"
  shows "payment_by_id tn (p_id p) s = Some p" "p_provider p = prov" "p_session p = Some sess"
    "p_tenant p = tn" "\<not> p_deleted p" "p \<in> set (d_payments s)"
proof -
  have p: "p \<in> set (d_payments s)" "p_tenant p = tn" "p_provider p = prov" "p_session p = Some sess"
    "\<not> p_deleted p"
    using one_or_none_SomeD [OF assms(2) [unfolded by_provider_session_id_def]] by simp_all
  then show "p_provider p = prov" "p_session p = Some sess" "p_tenant p = tn" "\<not> p_deleted p"
    "p \<in> set (d_payments s)" by simp_all
  show "payment_by_id tn (p_id p) s = Some p"
    using pt.fetch_mem [OF db_okD(2) [OF assms(1)] p(1)] p(2,5) by (simp add: payment_by_id_fetch)
qed

text \<open>The two writes a delivery can make to the row it found.\<close>

definition settled_row :: "utext \<Rightarrow> instant \<Rightarrow> payment \<Rightarrow> payment" where
  "settled_row txn at p = p\<lparr>p_status := Paid, p_paid_at := Some at, p_txn := Some txn, p_redirect_url := None\<rparr>"

definition noted_row :: "utext \<Rightarrow> payment \<Rightarrow> payment" where
  "noted_row err p = p\<lparr>p_error := Some err\<rparr>"

lemma row_keeps [simp]: "pt.keeps_name (settled_row txn at)" "pt.keeps_name (noted_row err)"
  by (simp_all add: pt.keeps_name_def settled_row_def noted_row_def)

definition noted :: "uuid \<Rightarrow> payment \<Rightarrow> utext \<Rightarrow> audit_action \<Rightarrow> db \<Rightarrow> db" where
  "noted tn p err act s =
     record_audit tn act (Some (p_id p)) (write_payment tn (p_id p) (noted_row err) s)"

lemma note_on_run:
  assumes "db_ok s" "payment_by_id tn (p_id p) s = Some p"
  shows "note_on tn p err act s = Inr (noted tn p err act s, \<lparr>st_payment = noted_row err p, st_new = False\<rparr>)"
  using record_error_run [OF db_okD(2) [OF assms(1)], of tn "p_id p" err] assms(2)
  by (simp add: note_on_def noted_def noted_row_def [abs_def])

lemma refuse_amount_run:
  assumes "db_ok s" "payment_by_id tn (p_id p) s = Some p"
  shows "refuse_amount tn (p_id p) amount s =
    (noted tn p (mismatch_error amount) Gateway_amount_mismatch s, Inl Webhook_invalid)"
  using record_error_run [OF db_okD(2) [OF assms(1)], of tn "p_id p" "mismatch_error amount"] assms(2)
  by (simp add: refuse_amount_def noted_def noted_row_def [abs_def])

lemma db_ok_noted:
  assumes "db_ok s" "payment_by_id tn (p_id p) s = Some p"
  shows "db_ok (noted tn p err act s)"
proof -
  have "payments_ok (d_payments (write_payment tn (p_id p) (noted_row err) s))"
    by (rule payments_ok_write [OF db_okD(2) [OF assms(1)] assms(2)])
      (simp_all add: noted_row_def payment_place_defs)
  from db_ok_write_payment [OF assms(1) _ this] show ?thesis by (simp add: noted_def)
qed

lemma db_ok_settled:
  assumes ok: "db_ok s" and p: "payment_by_id tn (p_id p) s = Some p"
    and new: "by_provider_transaction_id tn (p_provider p) txn s = None"
  shows "db_ok (write_payment tn (p_id p) (settled_row txn at) s)"
proof (rule db_ok_write_payment [OF ok])
  have key: "txn_key (settled_row txn at p) = (tn, p_provider p, Some txn)"
    using payment_by_id_SomeD [OF p] by (simp add: txn_key_def settled_row_def)
  show "payments_ok (d_payments (write_payment tn (p_id p) (settled_row txn at) s))"
  proof (rule payments_ok_write [OF db_okD(2) [OF ok] p])
    show "settled_txn (settled_row txn at p) \<longrightarrow>
      (settled_txn p \<and> txn_key (settled_row txn at p) = txn_key p)
      \<or> (\<forall>x\<in>set (d_payments s). settled_txn x \<longrightarrow> txn_key x \<noteq> txn_key (settled_row txn at p))"
      using new [unfolded txn_free] unfolding key by blast
  qed (simp_all add: pending_hold_def settled_row_def)
qed simp

text \<open>What one delivery does, branch by branch.\<close>

lemma settle_event_run:
  assumes ok: "db_ok s"
  shows "settle_event prov tn ev now s =
     (case by_provider_transaction_id tn prov (ev_txn ev) s of
        Some already \<Rightarrow> (s, Inr \<lparr>st_payment = already, st_new = False\<rparr>)
      | None \<Rightarrow>
      case by_provider_session_id tn prov (ev_session ev) s of
        Inl err \<Rightarrow> (s, Inl err)
      | Inr None \<Rightarrow> (record_audit tn Gateway_webhook_unmatched None s, Inl Webhook_invalid)
      | Inr (Some p) \<Rightarrow>
          if \<not> ev_paid ev then
            (noted tn p DECLINE_ERROR Gateway_payment_declined s,
             Inr \<lparr>st_payment = noted_row DECLINE_ERROR p, st_new = False\<rparr>)
          else if ev_amount ev \<noteq> p_amount p then
            (noted tn p (mismatch_error (ev_amount ev)) Gateway_amount_mismatch s, Inl Webhook_invalid)
          else if p_status p = Pay_pending then
            (write_payment tn (p_id p) (settled_row (ev_txn ev) now) s,
             Inr \<lparr>st_payment = settled_row (ev_txn ev) now p, st_new = True\<rparr>)
          else if p_status p = Paid then
            (noted tn p (duplicate_error (ev_txn ev) (p_txn p)) Gateway_duplicate_transaction s,
             Inr \<lparr>st_payment = noted_row (duplicate_error (ev_txn ev) (p_txn p)) p, st_new = False\<rparr>)
          else
            (noted tn p (late_error (p_status p)) Gateway_late_settlement s,
             Inr \<lparr>st_payment = noted_row (late_error (p_status p)) p, st_new = False\<rparr>))"
proof (cases "by_provider_transaction_id tn prov (ev_txn ev) s")
  case None
  show ?thesis
  proof (cases "by_provider_session_id tn prov (ev_session ev) s")
    case (Inr row)
    show ?thesis
    proof (cases row)
      case (Some p)
      note sess = Inr [unfolded Some]
      note p = by_session_fetch [OF ok sess]
      have new: "by_provider_transaction_id tn (p_provider p) (ev_txn ev) s = None" using None p(2) by simp
      then have other: "p_txn p \<noteq> Some (ev_txn ev)"
        using p(4-6) by (auto simp: by_provider_transaction_id_def find_None_iff)
      note run = settle_run [OF db_okD(2) [OF ok], of tn "p_id p" "ev_txn ev" now]
      have run': "settle tn (p_id p) (ev_txn ev) now s =
        (if p_status p = Pay_pending
         then Inr (write_payment tn (p_id p) (settled_row (ev_txn ev) now) s, Some (settled_row (ev_txn ev) now p))
         else Inr (s, None))"
        using run new p(1) by (simp add: settled_row_def [abs_def] Let_def)
      show ?thesis
        using None sess run' p(1) other note_on_run [OF ok p(1)] refuse_amount_run [OF ok p(1)]
        by (simp add: settle_event_def record_decline_def explain_missed_settlement_def commits_def)
    qed (simp add: settle_event_def None Inr)
  qed (simp add: settle_event_def None)
qed (simp add: settle_event_def)

section \<open>How money moves\<close>

text \<open>A later version of a payment is the same hold with the same money, or with its hold expired by a
  sweep that found it overdue, or paid by an event that was heard: on time, from pending, by an event
  that reports the charge as paid for the exact amount; or late, from an expired hold.\<close>

definition same_hold :: "payment \<Rightarrow> payment \<Rightarrow> bool" where
  "same_hold p q \<longleftrightarrow> p_id q = p_id p \<and> p_tenant q = p_tenant p \<and> p_booking q = p_booking p
     \<and> p_provider q = p_provider p \<and> p_amount q = p_amount p \<and> p_session q = p_session p
     \<and> p_hold_expires_at q = p_hold_expires_at p \<and> p_deleted q = p_deleted p"

definition same_money :: "payment \<Rightarrow> payment \<Rightarrow> bool" where
  "same_money p q \<longleftrightarrow> p_status q = p_status p \<and> p_txn q = p_txn p \<and> p_paid_at q = p_paid_at p"

definition lapses :: "uuid \<Rightarrow> instant set \<Rightarrow> payment \<Rightarrow> bool" where
  "lapses tn swept p \<longleftrightarrow> (\<exists>now\<in>swept. hold_due tn now p)"

definition paid_by ::
  "uuid \<Rightarrow> instant set \<Rightarrow> instant set \<Rightarrow> webhook_event \<Rightarrow> instant \<Rightarrow> payment \<Rightarrow> payment \<Rightarrow> bool" where
  "paid_by tn late swept ev at p q \<longleftrightarrow>
     p_session p = Some (ev_session ev) \<and> (ev_paid ev \<longrightarrow> ev_amount ev = p_amount p)
     \<and> p_status q = Paid \<and> p_txn q = Some (ev_txn ev)
     \<and> (ev_paid ev \<and> p_status p = Pay_pending \<and> p_paid_at q = Some at
        \<or> (p_status p = Pay_expired \<or> lapses tn swept p) \<and> p_paid_at q \<in> Some ` late)"

definition evolved ::
  "uuid \<Rightarrow> (webhook_event \<times> instant) set \<Rightarrow> instant set \<Rightarrow> instant set \<Rightarrow> payment \<Rightarrow> payment \<Rightarrow> bool" where
  "evolved tn heard late swept p q \<longleftrightarrow> same_hold p q \<and>
     (same_money p q
      \<or> lapses tn swept p \<and> p_status q = Pay_expired \<and> p_txn q = p_txn p \<and> p_paid_at q = p_paid_at p
      \<or> (\<exists>(ev, at)\<in>heard. paid_by tn late swept ev at p q))"

lemma evolved_refl: "list_all2 (evolved tn heard late swept) ps ps"
  by (rule list.rel_refl) (simp add: evolved_def same_hold_def same_money_def)

lemma evolved_mono:
  assumes "evolved tn heard late swept p q" "heard \<subseteq> heard'" "late \<subseteq> late'" "swept \<subseteq> swept'"
  shows "evolved tn heard' late' swept' p q"
  using assms unfolding evolved_def paid_by_def lapses_def by blast

lemma lapses_pending: "lapses tn swept p \<Longrightarrow> p_status p = Pay_pending"
  by (auto simp: lapses_def hold_due_def)

lemma lapses_same: "same_hold p q \<Longrightarrow> same_money p q \<Longrightarrow> lapses tn swept q = lapses tn swept p"
  by (simp add: lapses_def hold_due_def same_hold_def same_money_def)

lemma evolved_trans:
  assumes "evolved tn heard late swept p q" "evolved tn heard late swept q r"
  shows "evolved tn heard late swept p r"
proof -
  have h: "same_hold p r" "same_hold p q" using assms by (auto simp: evolved_def same_hold_def)
  from assms(1) consider (same) "same_money p q"
    | (lapsed) "lapses tn swept p" "p_status q = Pay_expired" "p_txn q = p_txn p" "p_paid_at q = p_paid_at p"
    | (paid) ev at where "(ev, at) \<in> heard" "paid_by tn late swept ev at p q"
    unfolding evolved_def by blast
  then show ?thesis
  proof cases
    case same
    from assms(2) lapses_same [OF h(2) same, of tn swept] same h show ?thesis
      by (auto simp: evolved_def paid_by_def same_money_def same_hold_def)
  next
    case lapsed
    have "\<not> lapses tn swept q" using lapsed(2) lapses_pending [of tn swept q] by auto
    with assms(2) lapsed h show ?thesis
      by (auto simp: evolved_def paid_by_def same_money_def same_hold_def)
  next
    case (paid ev at)
    have "\<not> lapses tn swept q" "p_status q = Paid"
      using paid(2) lapses_pending [of tn swept q] by (auto simp: paid_by_def)
    with assms(2) have "same_money q r" by (auto simp: evolved_def paid_by_def)
    with paid have "paid_by tn late swept ev at p r" by (simp add: paid_by_def same_money_def)
    with paid(1) h(1) show ?thesis by (auto simp: evolved_def)
  qed
qed

lemma evolved_all_trans:
  assumes "list_all2 (evolved tn H L W) xs ys" "list_all2 (evolved tn H' L' W') ys zs"
    and "H \<subseteq> H''" "L \<subseteq> L''" "W \<subseteq> W''" "H' \<subseteq> H''" "L' \<subseteq> L''" "W' \<subseteq> W''"
  shows "list_all2 (evolved tn H'' L'' W'') xs zs"
  by (rule list_all2_trans [of "evolved tn H L W" "evolved tn H' L' W'"])
    (use assms in \<open>blast intro: evolved_trans evolved_mono\<close>)+

lemma evolved_write:
  assumes ok: "db_ok s" and p: "payment_by_id tn (p_id p) s = Some p" and f: "evolved tn H L W p (f p)"
  shows "list_all2 (evolved tn H L W) (d_payments s) (d_payments (write_payment tn (p_id p) f s))"
proof -
  obtain pre post where "d_payments s = pre @ p # post"
    "update_where (pt.named tn (p_id p)) f (d_payments s) = pre @ f p # post"
    using pt.one_row [OF db_okD(2) [OF ok] p [unfolded payment_by_id_fetch]] by blast
  then show ?thesis
    using f evolved_refl by (simp add: names_payment_named list_all2_appendI)
qed

lemma evolved_fetch:
  "list_all2 (evolved tn' H L W) rows rows' \<Longrightarrow> pt.fetch tn i rows = Some p \<Longrightarrow>
   \<exists>q. pt.fetch tn i rows' = Some q \<and> same_hold p q"
proof (induction rows rows' rule: list_all2_induct)
  case (Cons x xs y ys)
  then have h: "same_hold x y" by (simp add: evolved_def)
  then have n: "pt.named tn i y = pt.named tn i x" by (simp add: pt.named_def same_hold_def)
  with Cons h show ?case by (cases "pt.named tn i x") (simp_all add: pt.fetch_def)
qed (simp add: pt.fetch_def)

text \<open>Only a payment that was settled carries a transaction.\<close>

definition money_ok :: "db \<Rightarrow> bool" where
  "money_ok s \<longleftrightarrow> (\<forall>p\<in>set (d_payments s). p_txn p \<noteq> None \<longrightarrow> p_status p \<notin> {Pay_pending, Pay_expired})"

lemma money_ok_evolved:
  assumes "money_ok s" "list_all2 (evolved tn H L W) (d_payments s) (d_payments s')"
  shows "money_ok s'"
  unfolding money_ok_def
proof
  fix q assume "q \<in> set (d_payments s')"
  then obtain p where "p \<in> set (d_payments s)" "evolved tn H L W p q"
    using assms(2) unfolding list_all2_conv_all_nth by (metis in_set_conv_nth)
  with assms(1) lapses_pending [of tn W p] show "p_txn q \<noteq> None \<longrightarrow> p_status q \<notin> {Pay_pending, Pay_expired}"
    by (auto simp: money_ok_def evolved_def same_money_def paid_by_def)
qed

lemma settle_event_safe:
  assumes ok: "db_ok s" and run: "settle_event prov tn ev at s = (s', r)"
  shows "db_ok s' \<and> list_all2 (evolved tn {(ev, at)} {} {}) (d_payments s) (d_payments s')
    \<and> d_bookings s' = d_bookings s \<and> d_messages s' = d_messages s \<and> r \<noteq> Inl Integrity_error"
proof -
  note r = settle_event_run [OF ok, of prov tn ev at, unfolded run]
  have err: "by_provider_session_id tn prov sess s = Inl e \<Longrightarrow> e = Multiple_results" for sess e
    by (auto simp: by_provider_session_id_def one_or_none_def split: list.splits)
  consider (same) "d_payments s' = d_payments s" "db_ok s'" "d_bookings s' = d_bookings s"
      "d_messages s' = d_messages s" "r \<noteq> Inl Integrity_error"
    | (noting) p err act where "payment_by_id tn (p_id p) s = Some p" "s' = noted tn p err act s"
        "r \<noteq> Inl Integrity_error"
    | (settle) p where "payment_by_id tn (p_id p) s = Some p" "p_provider p = prov"
        "by_provider_transaction_id tn prov (ev_txn ev) s = None" "p_session p = Some (ev_session ev)"
        "ev_paid ev" "p_amount p = ev_amount ev" "p_status p = Pay_pending" "r \<noteq> Inl Integrity_error"
        "s' = write_payment tn (p_id p) (settled_row (ev_txn ev) at) s"
  proof (cases "by_provider_transaction_id tn prov (ev_txn ev) s")
    case None
    show ?thesis
    proof (cases "by_provider_session_id tn prov (ev_session ev) s")
      case (Inl e)
      with r None err [OF Inl] show ?thesis using ok by (intro same) auto
    next
      case (Inr row)
      show ?thesis
      proof (cases row)
        case None': None
        with r None Inr show ?thesis using ok by (intro same) auto
      next
        case (Some p)
        note p = by_session_fetch [OF ok Inr [unfolded Some]]
        show ?thesis
        proof (cases "ev_paid ev \<and> ev_amount ev = p_amount p \<and> p_status p = Pay_pending")
          case True
          with r None Inr Some p show ?thesis by (intro settle [of p]) auto
        next
          case False
          with r None Inr Some p(1) show ?thesis by (auto split: if_splits intro: noting)
        qed
      qed
    qed
  next
    case (Some a)
    with r ok show ?thesis by (intro same) auto
  qed
  then show ?thesis
  proof cases
    case same
    then show ?thesis using evolved_refl by simp
  next
    case (noting p err act)
    have "evolved tn {(ev, at)} {} {} p (noted_row err p)"
      by (simp add: evolved_def same_hold_def same_money_def noted_row_def)
    from evolved_write [OF ok noting(1), where f = "noted_row err", OF this] db_ok_noted [OF ok noting(1)] noting(2,3)
    show ?thesis by (simp add: noted_def)
  next
    case (settle p)
    have "evolved tn {(ev, at)} {} {} p (settled_row (ev_txn ev) at p)"
      using settle by (simp add: evolved_def same_hold_def paid_by_def settled_row_def)
    from evolved_write [OF ok settle(1), where f = "settled_row (ev_txn ev) at", OF this]
      db_ok_settled [OF ok settle(1), of "ev_txn ev" at] settle
    show ?thesis by simp
  qed
qed

lemma txn_once:
  assumes "payments_ok rows"
  shows "length (filter (\<lambda>p. p_tenant p = tn \<and> p_provider p = prov \<and> p_txn p = Some txn \<and> \<not> p_deleted p) rows) \<le> 1"
proof -
  have "length (filter (\<lambda>p. p_tenant p = tn \<and> p_provider p = prov \<and> p_txn p = Some txn \<and> \<not> p_deleted p) rows) \<le> 1"
    if "unique_on settled_txn txn_key rows" for rows
    using that
  proof (induction rows)
    case (Cons r rows)
    let ?P = "\<lambda>p. p_tenant p = tn \<and> p_provider p = prov \<and> p_txn p = Some txn \<and> \<not> p_deleted p"
    have "filter ?P rows = []" if "?P r"
      using Cons.prems that by (auto simp: filter_empty_conv settled_txn_def txn_key_def)
    with Cons show ?case by auto
  qed simp
  with assms show ?thesis by (simp add: payments_ok_def)
qed

definition sample_hold :: payment where
  "sample_hold = \<lparr>p_id = 7, p_tenant = 4, p_booking = 6, p_provider = [], p_amount = 300,
     p_status = Pay_pending, p_session = Some [1], p_redirect_url = Some [2], p_txn = None,
     p_hold_expires_at = Some 50, p_paid_at = None, p_error = None, p_created_at = 0, p_deleted = False\<rparr>"

definition sample_event :: webhook_event where
  "sample_event = \<lparr>ev_session = [1], ev_txn = [8], ev_amount = 300, ev_paid = True\<rparr>"

lemma sample_hold_ok: "db_ok (empty_db\<lparr>d_payments := [sample_hold]\<rparr>)"
  by code_simp

text \<open>A redelivery is a no-op. Once a delivery has settled a payment, the same event, at any later
  time and as long as the row it paid is there, changes nothing and answers with that row.\<close>

theorem redelivery_changes_nothing:
  assumes "db_ok s" "settle_event prov tn ev at s = (s1, Inr st)" "st_new st"
  shows "p_status (st_payment st) = Paid \<and> p_txn (st_payment st) = Some (ev_txn ev)
     \<and> settle_event prov tn ev later s1 = (s1, Inr \<lparr>st_payment = st_payment st, st_new = False\<rparr>)"
proof -
  note run = settle_event_run [OF assms(1), of prov tn ev at, unfolded assms(2)]
  obtain p where sess: "by_provider_session_id tn prov (ev_session ev) s = Inr (Some p)"
    and new: "by_provider_transaction_id tn prov (ev_txn ev) s = None"
    and s1: "s1 = write_payment tn (p_id p) (settled_row (ev_txn ev) at) s"
    and st: "st_payment st = settled_row (ev_txn ev) at p"
    using run assms(3) by (auto split: option.splits sum.splits if_splits)
  note p = by_session_fetch [OF assms(1) sess]
  have q: "p_status (st_payment st) = Paid" "p_txn (st_payment st) = Some (ev_txn ev)"
    "p_provider (st_payment st) = prov" "p_tenant (st_payment st) = tn" "\<not> p_deleted (st_payment st)"
    using p by (simp_all add: st settled_row_def)
  have "payment_by_id tn (p_id p) s1 = Some (st_payment st)"
    using p(1) by (simp add: s1 st payment_by_id_write)
  then have mem: "st_payment st \<in> set (d_payments s1)" by (auto dest: payment_by_id_SomeD)
  have ok: "db_ok s1" using settle_event_safe [OF assms(1,2)] by blast
  have "by_provider_transaction_id tn prov (ev_txn ev) s1 = Some (st_payment st)"
  proof (cases "by_provider_transaction_id tn prov (ev_txn ev) s1")
    case None
    with mem q show ?thesis by (auto simp: by_provider_transaction_id_def find_None_iff)
  next
    case (Some x)
    then have x: "x \<in> set (d_payments s1)" "p_tenant x = tn" "p_provider x = prov"
      "p_txn x = Some (ev_txn ev)" "\<not> p_deleted x"
      unfolding by_provider_transaction_id_def by (auto dest: find_SomeD)
    have "unique_on settled_txn txn_key (d_payments s1)" using db_okD(2) [OF ok] by (simp add: payments_ok_def)
    from unique_onD [OF this x(1) mem] x q have "x = st_payment st"
      by (simp add: settled_txn_def txn_key_def)
    with Some show ?thesis by simp
  qed
  then have "settle_event prov tn ev later s1 = (s1, Inr \<lparr>st_payment = st_payment st, st_new = False\<rparr>)"
    by (simp add: settle_event_def)
  with q show ?thesis by blast
qed

theorem redelivery_changes_nothing_witness:
  "\<exists>s1 st. settle_event [] 4 sample_event 20 (empty_db\<lparr>d_payments := [sample_hold]\<rparr>) = (s1, Inr st)
     \<and> settle_event [] 4 sample_event 30 s1 = (s1, Inr \<lparr>st_payment = st_payment st, st_new = False\<rparr>)"
proof -
  let ?run = "settle_event [] 4 sample_event 20 (empty_db\<lparr>d_payments := [sample_hold]\<rparr>)"
  have "(case snd ?run of Inl _ \<Rightarrow> False | Inr st \<Rightarrow> st_new st)" by code_simp
  then obtain s1 st where run: "?run = (s1, Inr st)" "st_new st"
    by (cases ?run) (auto split: sum.splits)
  from redelivery_changes_nothing [OF sample_hold_ok run, of 30] run(1) show ?thesis by blast
qed

section \<open>Confirming and rebinding\<close>

text \<open>Both end alike: the fresh link's hash on the booking, then its reminder.\<close>

lemma relink:
  assumes ok: "db_ok s" and b: "booking_by_id tn bid s = Some b"
  obtains s' where
    "andthen (set_manage_token_hash tn bid (e_hash e tok) None None s) (\<lambda>(s2, _).
     andthen (upsert_reminder e tn bid at now (Some tok) tok s2) (\<lambda>(s3, _).
     Inr (record_audit tn act (Some bid) s3, x))) = Inr (s', x)"
    "db_ok s'" "d_payments s' = d_payments s" "d_entries s' = d_entries s"
    "d_bookings s' = d_bookings (write_booking tn bid (\<lambda>b. b\<lparr>b_token_hash := Some (e_hash e tok)\<rparr>) s)"
proof -
  let ?s2 = "write_booking tn bid (\<lambda>b. b\<lparr>b_token_hash := Some (e_hash e tok)\<rparr>) s"
  have set: "set_manage_token_hash tn bid (e_hash e tok) None None s =
      Inr (?s2, Some (b\<lparr>b_token_hash := Some (e_hash e tok)\<rparr>))"
    using b by (simp add: set_manage_token_hash_run [OF db_okD(1) [OF ok]] when_given_def)
  have ok2: "db_ok ?s2"
    by (rule db_ok_hold [OF ok b, where g = "\<lambda>_. True"]) (auto simp: place_defs)
  have below: "bid < d_next ?s2" using booking_by_id_below [OF ok b] by simp
  obtain s3 where s3: "upsert_reminder e tn bid at now (Some tok) tok ?s2 = Inr (s3, reminder_send_after at now)"
    "db_ok s3" "d_bookings s3 = d_bookings ?s2" "d_payments s3 = d_payments ?s2" "d_entries s3 = d_entries ?s2"
    by (rule upsert_reminder_token [OF ok2 below])
  show ?thesis
    by (rule that [of "record_audit tn act (Some bid) s3"]) (simp_all add: set s3)
qed

lemma seats_same_write:
  assumes "bookings_ok (d_bookings s)" "booking_by_id tn bid s = Some b"
    and "\<And>t at. seated_at t at (f b) = seated_at t at b" "b_seat (f b) = b_seat b"
  shows "active_seats_at t at (write_booking tn bid f s) = active_seats_at t at s"
proof -
  obtain xs ys where
    "\<And>t at. active_seats_at t at s =
        xs t at @ (if seated_at t at b then [b_seat b] else []) @ ys t at"
    "\<And>t at. active_seats_at t at (write_booking tn bid f s) =
        xs t at @ (if seated_at t at (f b) then [b_seat (f b)] else []) @ ys t at"
    using active_seats_split [OF assms(1,2)] by blast
  with assms(3,4) show ?thesis by simp
qed

text \<open>A settled deposit confirms its booking exactly once. Confirming never fails on the database;
  a booking that waits for its payment becomes confirmed on the seat it held, answers the new link,
  and yields one confirmation text; any other booking is left as it was and nothing is sent; and
  confirming again does nothing.\<close>

theorem deposit_confirms_once:
  assumes "db_ok s" "booking_by_id tn bid s = Some b"
  shows "\<exists>s' n. confirm_deposit e tn bid now tok s = Inr (s', n) \<and> db_ok s' \<and> d_payments s' = d_payments s
     \<and> (if b_status b = Pending_payment
        then n = Some (Confirmation (b\<lparr>b_status := Confirmed\<rparr>) tok)
           \<and> booking_by_id tn bid s' = Some (b\<lparr>b_status := Confirmed, b_token_hash := Some (e_hash e tok)\<rparr>)
           \<and> (\<forall>t at. active_seats_at t at s' = active_seats_at t at s)
           \<and> (\<forall>now' tok'. confirm_deposit e tn bid now' tok' s' = Inr (s', None))
        else s' = s \<and> n = None)"
proof (cases "b_status b = Pending_payment")
  case False
  with assms show ?thesis
    by (simp add: confirm_deposit_def set_status_run [OF db_okD(1)])
next
  case True
  let ?f = "\<lambda>b. b\<lparr>b_status := Confirmed\<rparr>" and ?h = "\<lambda>b. b\<lparr>b_token_hash := Some (e_hash e tok)\<rparr>"
  let ?s1 = "write_booking tn bid ?f s"
  have run: "set_status tn bid Confirmed [Pending_payment] None None s = Inr (?s1, Some (?f b))"
    using True assms(2) by (simp add: set_status_run [OF db_okD(1) [OF assms(1)]] when_given_def)
  have ok1: "db_ok ?s1"
    by (rule db_ok_hold [OF assms, where g = "\<lambda>b. b_status b = Pending_payment"])
      (use True in \<open>auto simp: place_defs\<close>)
  have b1: "booking_by_id tn bid ?s1 = Some (?f b)" using assms(2) by (simp add: booking_by_id_write)
  obtain s' where s': "andthen (set_manage_token_hash tn bid (e_hash e tok) None None ?s1) (\<lambda>(s2, _).
     andthen (upsert_reminder e tn bid (b_starts_at (?f b)) now (Some tok) tok s2) (\<lambda>(s3, _).
     Inr (record_audit tn Booking_confirmed (Some bid) s3, Some (Confirmation (?f b) tok))))
       = Inr (s', Some (Confirmation (?f b) tok))"
    "db_ok s'" "d_payments s' = d_payments ?s1" "d_bookings s' = d_bookings (write_booking tn bid ?h ?s1)"
    by (rule relink [OF ok1 b1])
  have b': "booking_by_id tn bid s' = Some (?h (?f b))"
  proof -
    have "booking_by_id tn bid s' = booking_by_id tn bid (write_booking tn bid ?h ?s1)"
      by (simp only: booking_by_id_def s'(4))
    then show ?thesis by (simp add: booking_by_id_write b1)
  qed
  have seats: "active_seats_at t at s' = active_seats_at t at s" for t at
  proof -
    have "active_seats_at t at s' = active_seats_at t at (write_booking tn bid ?h ?s1)"
      by (simp only: active_seats_at_def s'(4))
    also have "\<dots> = active_seats_at t at ?s1"
      by (rule seats_same_write [OF db_okD(1) [OF ok1] b1]) (simp_all add: seated_at_def)
    also have "\<dots> = active_seats_at t at s"
      by (rule seats_same_write [OF db_okD(1) [OF assms(1)] assms(2)]) (use True in \<open>simp_all add: seated_at_def\<close>)
    finally show ?thesis .
  qed
  have again: "confirm_deposit e tn bid now' tok' s' = Inr (s', None)" for now' tok'
    using b' by (simp add: confirm_deposit_def set_status_run [OF db_okD(1) [OF s'(2)]])
  show ?thesis
    using run s' b' seats again True by (simp add: confirm_deposit_def)
qed

theorem deposit_confirms_once_witness:
  "\<exists>s'. confirm_deposit sample_env 4 6 3 [9] (shop_db\<lparr>d_bookings := [waiting_booking]\<rparr>)
      = Inr (s', Some (Confirmation (waiting_booking\<lparr>b_status := Confirmed\<rparr>) [9]))
     \<and> confirm_deposit sample_env 4 6 5 [7] s' = Inr (s', None)"
proof -
  have "b_status waiting_booking = Pending_payment" by (simp add: waiting_booking_def)
  with deposit_confirms_once [OF waiting_ok waiting_found, of sample_env 3 "[9]"] show ?thesis by auto
qed

lemma case_Some: "(case x of None \<Rightarrow> None | Some y \<Rightarrow> f y) = Some z \<Longrightarrow> \<exists>y. x = Some y \<and> f y = Some z"
  by (cases x) auto

text \<open>The grid of the start's day as the opening hours alone give it, and the other live bookings at the
  start: \<open>free_seat\<close> is the lowest seat of the former that none of the latter holds.\<close>

definition open_grid :: "env \<Rightarrow> uuid \<Rightarrow> booking \<Rightarrow> instant \<Rightarrow> db \<Rightarrow> slot list" where
  "open_grid e tn b now s =
     (let day = fst (to_local (e_zone e) (b_starts_at b)) in
      materialize_slots (e_zone e) (list_active_rules tn s) (list_active_exceptions tn day day s)
        (\<lambda>_. 0) day day now)"

definition rivals :: "uuid \<Rightarrow> booking \<Rightarrow> db \<Rightarrow> booking set" where
  "rivals tn b s = {x \<in> set (d_bookings s). b_id x \<noteq> b_id b \<and> occupies x \<and> b_tenant x = tn
     \<and> b_starts_at x = b_starts_at b}"

lemma rival_seats:
  assumes ok: "db_ok s" and b: "booking_by_id tn bid s = Some b"
  defines "occ \<equiv> active_seats_at tn (b_starts_at b) s"
  shows "set (if b_status b \<noteq> Cancelled then removeAll (b_seat b) occ else occ) = b_seat ` rivals tn b s"
proof -
  have bb: "b \<in> set (d_bookings s)" "b_tenant b = tn" "\<not> b_deleted b"
    using booking_by_id_SomeD [OF b] by simp_all
  have same: "x = b" if "x \<in> set (d_bookings s)" "b_id x = b_id b" for x
    using bk.same_row [OF db_okD(1) [OF ok] that(1) bb(1) that(2)] .
  have occ: "set occ = b_seat ` {x \<in> set (d_bookings s). occupies x \<and> b_tenant x = tn \<and> b_starts_at x = b_starts_at b}"
    by (auto simp: occ_def active_seats_at_def seated_at_def occupies_def)
  show ?thesis
  proof (cases "b_status b = Cancelled")
    case True
    then have "\<not> occupies b" by (simp add: occupies_def)
    then have "{x \<in> set (d_bookings s). occupies x \<and> b_tenant x = tn \<and> b_starts_at x = b_starts_at b} = rivals tn b s"
      using same by (auto simp: rivals_def)
    with occ True show ?thesis by simp
  next
    case False
    have live: "occupies b" using False bb by (simp add: occupies_def)
    have "unique_on occupies seat_key (d_bookings s)"
      using db_okD(1) [OF ok] by (simp add: bookings_ok_def)
    then have seat: "x = b" if "x \<in> set (d_bookings s)" "occupies x" "b_tenant x = tn"
        "b_starts_at x = b_starts_at b" "b_seat x = b_seat b" for x
      using that bb live by (auto simp: seat_key_def dest: unique_onD [of _ _ _ x b])
    have "{x \<in> set (d_bookings s). occupies x \<and> b_tenant x = tn \<and> b_starts_at x = b_starts_at b}
        = insert b (rivals tn b s)"
      using same bb live by (auto simp: rivals_def)
    moreover have "b_seat b \<notin> b_seat ` rivals tn b s"
    proof
      assume "b_seat b \<in> b_seat ` rivals tn b s"
      then obtain x where "x \<in> rivals tn b s" "b_seat x = b_seat b" by force
      with seat [of x] show False by (simp add: rivals_def)
    qed
    ultimately have "set occ - {b_seat b} = b_seat ` rivals tn b s" by (simp add: occ)
    with False show ?thesis by simp
  qed
qed

lemma lowest_free_set: "set xs = A \<Longrightarrow> lowest_free c xs = find (\<lambda>i. i \<notin> A) [1..c]"
  by (simp add: lowest_free_def)

text \<open>What \<open>free_seat\<close> answers, over the start's windows and rivals.\<close>

lemma free_seat_cases:
  assumes ok: "db_ok s" and b: "booking_by_id tn bid s = Some b"
  obtains (full) "free_seat e tn b now s = None"
      "\<forall>sl\<in>set (open_grid e tn b now s). s_starts_at sl = b_starts_at b \<longrightarrow>
         (\<forall>seat. 1 \<le> seat \<and> seat \<le> s_capacity sl \<longrightarrow> (\<exists>x\<in>rivals tn b s. b_seat x = seat))"
  | (free) seat sl where "free_seat e tn b now s = Some seat"
      "sl \<in> set (open_grid e tn b now s)" "s_starts_at sl = b_starts_at b" "now < b_starts_at b"
      "1 \<le> seat" "seat \<le> s_capacity sl" "\<forall>x\<in>rivals tn b s. b_seat x \<noteq> seat"
      "\<forall>j. 1 \<le> j \<and> j < seat \<longrightarrow> (\<exists>x\<in>rivals tn b s. b_seat x = j)"
proof -
  let ?occ = "active_seats_at tn (b_starts_at b) s"
  let ?others = "if b_status b \<noteq> Cancelled then removeAll (b_seat b) ?occ else ?occ"
  note rv = rival_seats [OF ok b]
  have fs: "free_seat e tn b now s =
      (case find (\<lambda>sl. s_starts_at sl = b_starts_at b) (open_grid e tn b now s) of
         None \<Rightarrow> None | Some sl \<Rightarrow> lowest_free (s_capacity sl) ?others)"
    by (simp add: free_seat_def open_grid_def Let_def cong: option.case_cong)
  show ?thesis
  proof (cases "find (\<lambda>sl. s_starts_at sl = b_starts_at b) (open_grid e tn b now s)")
    case None
    with fs show ?thesis by (intro full) (auto simp: find_None_iff)
  next
    case (Some sl)
    from find_SomeD [OF Some] have sl: "sl \<in> set (open_grid e tn b now s)" "s_starts_at sl = b_starts_at b"
      by auto
    show ?thesis
    proof (cases "lowest_free (s_capacity sl) ?others")
      case None
      have "s_capacity sl' = s_capacity sl"
        if "sl' \<in> set (open_grid e tn b now s)" "s_starts_at sl' = b_starts_at b" for sl'
        using that sl by (simp add: open_grid_def Let_def materialize_mem)
      moreover have "\<exists>x\<in>rivals tn b s. b_seat x = seat" if "1 \<le> seat" "seat \<le> s_capacity sl" for seat
      proof -
        have "seat \<in> b_seat ` rivals tn b s"
          using None [unfolded lowest_free_None] that unfolding rv [symmetric] by blast
        then show ?thesis by blast
      qed
      ultimately show ?thesis using fs Some None by (intro full) simp_all
    next
      case seat: (Some seat)
      note lf = lowest_free_Some [OF seat, unfolded rv]
      have "now < b_starts_at b"
        using materialize_future [OF sl(1) [unfolded open_grid_def Let_def]] sl(2) by simp
      then show ?thesis
        using fs Some seat sl lf by (intro free [of seat sl]) fastforce+
    qed
  qed
qed

text \<open>C21. Money that comes late never oversells, and is honoured whenever there is room. With the tenant's
  lock held, rebinding a booking whose hold had expired cannot fail on an index. Either it puts the booking
  back, confirmed and its cancellation erased, on the lowest seat no other live booking holds at that start,
  a seat within the capacity of the windows open then, the start still ahead, and the customer with no other
  live booking there; or nothing changes, and then one of these is the reason: the booking is neither
  cancelled nor waiting, no window offers that start any more, every seat of it is taken by somebody else, or
  the customer holds another booking there.\<close>

theorem late_rebind_safe:
  assumes "db_ok s" "booking_by_id tn bid s = Some b"
    and "\<forall>sl\<in>set (open_grid e tn b now s). s_capacity sl \<le> MAX_SEAT_INDEX"
  shows "\<exists>s' r. rebind_late e tn b now tok s = Inr (s', r) \<and> db_ok s' \<and> d_payments s' = d_payments s
     \<and> (case r of
          None \<Rightarrow> s' = s \<and> (b_status b \<notin> {Cancelled, Pending_payment}
            \<or> (\<forall>sl\<in>set (open_grid e tn b now s). s_starts_at sl = b_starts_at b \<longrightarrow>
                 (\<forall>seat. 1 \<le> seat \<and> seat \<le> s_capacity sl \<longrightarrow> (\<exists>x\<in>rivals tn b s. b_seat x = seat)))
            \<or> (\<exists>x\<in>rivals tn b s. b_customer x = b_customer b))
        | Some b' \<Rightarrow> now < b_starts_at b \<and> b_status b \<in> {Cancelled, Pending_payment}
            \<and> b' = b\<lparr>b_status := Confirmed, b_seat := b_seat b', b_cancelled_at := None, b_cancelled_by := None\<rparr>
            \<and> booking_by_id tn bid s' = Some (b'\<lparr>b_token_hash := Some (e_hash e tok)\<rparr>)
            \<and> (\<exists>sl\<in>set (open_grid e tn b now s). s_starts_at sl = b_starts_at b
                 \<and> 1 \<le> b_seat b' \<and> b_seat b' \<le> s_capacity sl)
            \<and> (\<forall>x\<in>rivals tn b s. b_seat x \<noteq> b_seat b' \<and> b_customer x \<noteq> b_customer b)
            \<and> (\<forall>seat. 1 \<le> seat \<and> seat < b_seat b' \<longrightarrow> (\<exists>x\<in>rivals tn b s. b_seat x = seat)))"
  using assms(1,2)
proof (cases rule: free_seat_cases [where e = e and now = now])
  case full
  with assms(1) show ?thesis by (auto simp: rebind_late_def)
next
  case (free seat sl)
  have bb: "b \<in> set (d_bookings s)" "b_tenant b = tn" "b_id b = bid" "\<not> b_deleted b"
    using booking_by_id_SomeD [OF assms(2)] by simp_all
  let ?other = "case active_at tn (b_customer b) (b_starts_at b) s of
                None \<Rightarrow> False | Some other \<Rightarrow> b_id other \<noteq> b_id b"
  consider (other) "?other" | (status) "\<not> ?other" "b_status b \<notin> {Cancelled, Pending_payment}"
    | (go) "\<not> ?other" "b_status b \<in> {Cancelled, Pending_payment}" by blast
  then show ?thesis
  proof cases
    case other
    then obtain x where "active_at tn (b_customer b) (b_starts_at b) s = Some x" "b_id x \<noteq> b_id b"
      by (auto split: option.splits)
    then have "\<exists>x\<in>rivals tn b s. b_customer x = b_customer b"
      using active_at_SomeD [of tn "b_customer b" "b_starts_at b" s x] by (auto simp: rivals_def)
    then show ?thesis using other free(1) assms(1) by (simp add: rebind_late_def)
  next
    case status
    then have "rebind_late e tn b now tok s = Inr (s, None)"
      using assms(2) free(1) bb(3)
      by (auto simp: rebind_late_def rebind_run [OF db_okD(1) [OF assms(1)]] Let_def)
    with status assms(1) show ?thesis by auto
  next
    case go
    let ?f = "\<lambda>b. b\<lparr>b_status := Confirmed, b_seat := seat, b_cancelled_at := None, b_cancelled_by := None\<rparr>"
    let ?h = "\<lambda>b. b\<lparr>b_token_hash := Some (e_hash e tok)\<rparr>"
    let ?s1 = "write_booking tn bid ?f s"
    have visit_free: "b_customer x \<noteq> b_customer b" if x: "x \<in> rivals tn b s" for x
    proof (cases "active_at tn (b_customer b) (b_starts_at b) s")
      case None
      with x show ?thesis by (auto simp: active_at_None visit_key_def rivals_def)
    next
      case (Some y)
      with go(1) have y: "b_id y = bid" using bb by auto
      have yy: "y \<in> set (d_bookings s)" "visit_key y = (tn, b_customer b, b_starts_at b)" "occupies y"
        using active_at_SomeD [OF Some] by (simp_all add: visit_key_def)
      have "unique_on occupies visit_key (d_bookings s)"
        using db_okD(1) [OF assms(1)] by (simp add: bookings_ok_def)
      from unique_onD [OF this _ yy(1) _ yy(3), of x] x y yy(2) bb(3) show ?thesis
        by (auto simp: visit_key_def rivals_def)
    qed
    have row: "booking_row_ok (?f b)"
    proof -
      have "booking_row_ok b" using db_okD(1) [OF assms(1)] bb(1) by (simp add: bookings_ok_def list_all_iff)
      moreover have "seat \<le> MAX_SEAT_INDEX" using assms(3) free(2,6) by fastforce
      ultimately show ?thesis using free(5) by (simp add: booking_row_ok_def)
    qed
    have ok1': "bookings_ok (d_bookings ?s1)"
    proof (rule bookings_ok_moved [where f = ?f, OF db_okD(1) [OF assms(1)] assms(2) _ row])
      fix x assume x: "x \<in> set (d_bookings s)" "b_id x \<noteq> bid" "occupies x"
      show "seat_key x \<noteq> seat_key (?f b)"
        using x free(7) bb by (auto simp: seat_key_def rivals_def)
      show "visit_key x \<noteq> visit_key (?f b)"
        using x visit_free [of x] bb by (auto simp: visit_key_def rivals_def)
    qed simp
    then have run: "rebind tn (b_id b) seat [Cancelled, Pending_payment] now s = Inr (?s1, Some (?f b))"
      using go(2) free(4) assms(2) bb(3) by (simp add: rebind_run [OF db_okD(1) [OF assms(1)]] Let_def)
    have ok1: "db_ok ?s1" by (rule db_ok_write_booking [OF assms(1) _ ok1']) simp
    have b1: "booking_by_id tn bid ?s1 = Some (?f b)" using assms(2) by (simp add: booking_by_id_write)
    obtain s' where s': "andthen (set_manage_token_hash tn bid (e_hash e tok) None None ?s1) (\<lambda>(s2, _).
       andthen (upsert_reminder e tn bid (b_starts_at (?f b)) now (Some tok) tok s2) (\<lambda>(s3, _).
       Inr (record_audit tn Deposit_late_honoured (Some bid) s3, Some (?f b)))) = Inr (s', Some (?f b))"
      "db_ok s'" "d_payments s' = d_payments ?s1" "d_bookings s' = d_bookings (write_booking tn bid ?h ?s1)"
      by (rule relink [OF ok1 b1])
    have "booking_by_id tn bid s' = booking_by_id tn bid (write_booking tn bid ?h ?s1)"
      by (simp only: booking_by_id_def s'(4))
    then have "booking_by_id tn bid s' = Some (?h (?f b))" by (simp add: booking_by_id_write b1)
    moreover have "rebind_late e tn b now tok s = Inr (s', Some (?f b))"
      using go(1) free(1) run s'(1) bb(3) by (simp add: rebind_late_def)
    moreover have "\<exists>sl\<in>set (open_grid e tn b now s). s_starts_at sl = b_starts_at b
        \<and> 1 \<le> seat \<and> seat \<le> s_capacity sl" using free by blast
    ultimately show ?thesis using s'(2,3) go(2) free(4,7,8) visit_free by simp
  qed
qed

definition late_booking :: booking where
  "late_booking = waiting_booking\<lparr>b_status := Cancelled, b_cancelled_at := Some 0,
     b_cancelled_by := Some By_expired\<rparr>"

definition rival_booking :: booking where
  "rival_booking = waiting_booking\<lparr>b_id := 9, b_customer := 11, b_seat := 1, b_status := Confirmed\<rparr>"

definition shop_late :: db where
  "shop_late = shop_db\<lparr>d_bookings := [late_booking, rival_booking]\<rparr>"

theorem late_rebind_safe_witness:
  "\<exists>s' b'. rebind_late sample_env 4 late_booking 0 [9] shop_late = Inr (s', Some b') \<and> b_seat b' \<noteq> 1
     \<and> b_status b' = Confirmed \<and> db_ok s'"
proof -
  have ok: "db_ok shop_late" by code_simp
  have b: "booking_by_id 4 6 shop_late = Some late_booking" by code_simp
  have "list_all (\<lambda>sl. s_capacity sl \<le> MAX_SEAT_INDEX) (open_grid sample_env 4 late_booking 0 shop_late)"
    by code_simp
  then have cap: "\<forall>sl\<in>set (open_grid sample_env 4 late_booking 0 shop_late). s_capacity sl \<le> MAX_SEAT_INDEX"
    by (simp add: list_all_iff)
  note safe = late_rebind_safe [OF ok b cap, of "[9]"]
  then obtain s' r where run: "rebind_late sample_env 4 late_booking 0 [9] shop_late = Inr (s', r)"
    and ok': "db_ok s'" by blast
  have "(case rebind_late sample_env 4 late_booking 0 [9] shop_late of
       Inl _ \<Rightarrow> False | Inr (_, r) \<Rightarrow> r \<noteq> None)" by code_simp
  with run obtain b' where r: "r = Some b'" by auto
  have "rival_booking \<in> rivals 4 late_booking shop_late" by code_simp
  with safe run r have "b' = late_booking\<lparr>b_status := Confirmed, b_seat := b_seat b',
      b_cancelled_at := None, b_cancelled_by := None\<rparr>" "b_seat rival_booking \<noteq> b_seat b'"
    by fastforce+
  moreover from this(1) have "b_status b' = Confirmed"
    by (rule ssubst [where P = "\<lambda>b. b_status b = Confirmed"]) simp
  moreover have "b_seat rival_booking = 1" by (simp add: rival_booking_def)
  ultimately show ?thesis using run r ok' by auto
qed

section \<open>A decline that comes late\<close>

lemma update_booking_frame:
  "update_booking tn bid g f s = Inr (s', r) \<Longrightarrow> d_payments s' = d_payments s"
  by (auto simp: update_booking_def handler_simps Let_def)

lemma insert_message_frame: "insert_message tn k at tok bid wid s = Inr (s', m) \<Longrightarrow> d_payments s' = d_payments s"
  by (auto simp: insert_message_def handler_simps Let_def)

lemma cancel_pending_frame: "cancel_pending tn bid k s = Inr (s', n) \<Longrightarrow> d_payments s' = d_payments s"
  by (auto simp: cancel_pending_def handler_simps Let_def)

lemma upsert_reminder_frame:
  assumes "upsert_reminder e tn bid at now (Some tok) minted s = Inr (s', r)"
  shows "d_payments s' = d_payments s"
  using assms
  by (auto simp: upsert_reminder_def handler_simps Let_def split: option.splits
      dest!: cancel_pending_frame insert_message_frame)

lemma rebind_late_frame:
  assumes "rebind_late e tn b now tok s = Inr (s', r)"
  shows "d_payments s' = d_payments s"
proof (cases "d_payments s' = d_payments s")
  case False
  with assms obtain seat s1 b' where "rebind tn (b_id b) seat [Cancelled, Pending_payment] now s = Inr (s1, Some b')"
    and run: "andthen (set_manage_token_hash tn (b_id b) (e_hash e tok) None None s1) (\<lambda>(s2, _).
                andthen (upsert_reminder e tn (b_id b) (b_starts_at b') now (Some tok) tok s2)
                  (\<lambda>(s3, _). Inr (record_audit tn Deposit_late_honoured (Some (b_id b)) s3, Some b')))
          = Inr (s', r)"
    unfolding rebind_late_def
    by (simp add: andthen_eq_Inr split: option.splits if_splits prod.splits)
      (auto simp: rebind_def dest: update_booking_frame)
  then have "d_payments s1 = d_payments s" unfolding rebind_def by (blast dest: update_booking_frame)
  moreover obtain s2 x where "set_manage_token_hash tn (b_id b) (e_hash e tok) None None s1 = Inr (s2, x)"
    "andthen (upsert_reminder e tn (b_id b) (b_starts_at b') now (Some tok) tok s2)
       (\<lambda>(s3, _). Inr (record_audit tn Deposit_late_honoured (Some (b_id b)) s3, Some b')) = Inr (s', r)"
    using run by (auto simp: andthen_eq_Inr)
  then have "d_payments s2 = d_payments s1" "d_payments s' = d_payments s2"
    unfolding set_manage_token_hash_def
    by (auto simp: andthen_eq_Inr dest: update_booking_frame upsert_reminder_frame)
  ultimately show ?thesis by simp
qed

text \<open>C22. What the code does with a declined charge whose hold has already expired. The provider
  reports that the charge was not paid; the delivery is recorded as a decline, the expired status is
  then read as money that came late, and the payment ends as paid, with the transaction of the
  declined charge, though nothing was paid.\<close>

theorem late_decline_is_honoured:
  assumes "db_ok s" "require_box g = Inr prov" "verification_credentials_for g = Inr ()"
    and "gw_verify g body sig = Some ev" "\<not> ev_paid ev"
    and "by_provider_transaction_id tn prov (ev_txn ev) s = None"
    and "by_provider_session_id tn prov (ev_session ev) s = Inr (Some p)" "p_status p = Pay_expired"
  shows "\<exists>q. payment_by_id tn (p_id p) (fst (settle_deposit e g tn body sig at paid_at now tok s)) = Some q
     \<and> p_status q = Paid \<and> p_txn q = Some (ev_txn ev) \<and> p_paid_at q = Some paid_at"
proof -
  have prov: "require_provider g = Inr prov" using assms(2) by (auto simp: require_box_def handler_simps)
  note p = by_session_fetch [OF assms(1,7)]
  let ?s1 = "noted tn p DECLINE_ERROR Gateway_payment_declined s" and ?p1 = "noted_row DECLINE_ERROR p"
  have run: "settle_from_webhook g tn body sig at s = (?s1, Inr \<lparr>st_payment = ?p1, st_new = False\<rparr>)"
    using assms prov by (simp add: settle_from_webhook_def settle_event_run)
  have ok1: "db_ok ?s1" by (rule db_ok_noted [OF assms(1) p(1)])
  have id: "p_id ?p1 = p_id p" "p_status ?p1 = Pay_expired" "p_provider ?p1 = prov"
    using assms(8) p(2) by (simp_all add: noted_row_def)
  have p1: "payment_by_id tn (p_id p) ?s1 = Some ?p1"
    using payment_by_id_write [of "noted_row DECLINE_ERROR" tn "p_id p" tn "p_id p" s] p(1)
    by (simp add: noted_def payment_by_id_def)
  have new: "by_provider_transaction_id tn prov (ev_txn ev) ?s1 = None"
    using assms(6) by (auto simp: by_provider_transaction_id_def find_None_iff noted_def noted_row_def set_update_where)
  let ?s2 = "write_payment tn (p_id p) (settled_row (ev_txn ev) paid_at) ?s1"
  let ?q = "settled_row (ev_txn ev) paid_at ?p1"
  have "db_ok ?s2" using db_ok_settled [OF ok1, of tn ?p1 "ev_txn ev" paid_at] p1 id new by simp
  then have ok2: "payments_ok (d_payments ?s2)" by (rule db_okD)
  have late: "honour_late_settlement tn (p_id ?p1) (ev_txn ev) paid_at ?s1 = Inr (?s2, Some ?q)"
    using p1 id ok2 settle_late_run [OF db_okD(2) [OF ok1], of tn "p_id p" "ev_txn ev" paid_at]
    by (simp add: honour_late_settlement_def settled_row_def [abs_def] Let_def)
  have q: "payment_by_id tn (p_id p) ?s2 = Some ?q" using p1 by (simp add: payment_by_id_write)
  have "d_payments (fst (honour e tn ?p1 (ev_txn ev) paid_at now tok ?s1)) = d_payments ?s2"
    unfolding honour_def late
    by (auto simp: Let_def split: option.splits sum.splits error.splits dest: rebind_late_frame)
  then have "payment_by_id tn (p_id p) (fst (honour e tn ?p1 (ev_txn ev) paid_at now tok ?s1)) = Some ?q"
    using q by (simp add: payment_by_id_def)
  moreover have "settle_deposit e g tn body sig at paid_at now tok s = honour e tn ?p1 (ev_txn ev) paid_at now tok ?s1"
    using assms(3,4) id(2) by (simp add: settle_deposit_def react_def run deposit_reaction_def)
  ultimately show ?thesis by (simp add: settled_row_def)
qed

definition sample_gateway :: gateway where
  "sample_gateway = \<lparr>gw_provider = Some [], gw_configured = True, gw_box = True, gw_row = Some True,
     gw_kept = True, gw_decrypt = Inr (), gw_session = (\<lambda>_ _ _. Inr ([1], [2])),
     gw_verify = (\<lambda>_ _. Some (sample_event\<lparr>ev_paid := False\<rparr>))\<rparr>"

theorem late_decline_is_honoured_witness:
  "\<exists>q. payment_by_id 4 7 (fst (settle_deposit sample_env sample_gateway 4 [] [] 60 61 62 [9]
      (empty_db\<lparr>d_payments := [sample_hold\<lparr>p_status := Pay_expired\<rparr>]\<rparr>))) = Some q \<and> p_status q = Paid"
proof -
  let ?p = "sample_hold\<lparr>p_status := Pay_expired\<rparr>" and ?s = "empty_db\<lparr>d_payments := [sample_hold\<lparr>p_status := Pay_expired\<rparr>]\<rparr>"
  have "db_ok ?s" by code_simp
  moreover have "require_box sample_gateway = Inr []" "verification_credentials_for sample_gateway = Inr ()"
    "gw_verify sample_gateway [] [] = Some (sample_event\<lparr>ev_paid := False\<rparr>)"
    by (simp_all add: sample_gateway_def require_box_def require_provider_def verification_credentials_for_def)
  moreover have "by_provider_transaction_id 4 [] (ev_txn (sample_event\<lparr>ev_paid := False\<rparr>)) ?s = None"
    "by_provider_session_id 4 [] (ev_session (sample_event\<lparr>ev_paid := False\<rparr>)) ?s = Inr (Some ?p)"
    by (simp_all add: by_provider_transaction_id_def by_provider_session_id_def one_or_none_def
        sample_hold_def sample_event_def)
  moreover have "p_status ?p = Pay_expired" "p_id ?p = 7" by (simp_all add: sample_hold_def)
  ultimately show ?thesis
    using late_decline_is_honoured [of ?s sample_gateway "[]" "[]" "[]" "sample_event\<lparr>ev_paid := False\<rparr>" 4 ?p]
    by fastforce
qed

section \<open>Money is recorded once\<close>

text \<open>The webhook and the sweeper at work on one shop's payments, a transaction at a time: \<open>Received\<close> is the
  first transaction of a delivery, which leaves its answer to be reacted to; \<open>Reacted\<close> the second one, of any
  delivery answered before, at any later time; \<open>Swept\<close> a run of the deposit sweeper in between.\<close>

datatype money_act =
    Received utext utext instant
  | Reacted nat instant instant utext
  | Swept instant int int

fun money_step ::
  "env \<Rightarrow> gateway \<Rightarrow> uuid \<Rightarrow> money_act \<Rightarrow> db \<times> (utext \<times> utext \<times> settlement) list
   \<Rightarrow> db \<times> (utext \<times> utext \<times> settlement) list" where
  "money_step e g tn (Received body sig at) (s, told) =
     (case settle_from_webhook g tn body sig at s of
        (s1, Inl err) \<Rightarrow> (s1, told)
      | (s1, Inr st) \<Rightarrow> (s1, told @ [(body, sig, st)]))"
| "money_step e g tn (Reacted k paid_at now token) (s, told) =
     (if k < length told
      then (case told ! k of (body, sig, st) \<Rightarrow> (fst (react e g tn body sig st paid_at now token s), told))
      else (s, told))"
| "money_step e g tn (Swept now hold poll) (s, told) =
     ((case sweep_deposits tn now hold poll s of Inl err \<Rightarrow> s | Inr (s1, res) \<Rightarrow> s1), told)"

definition money_run :: "env \<Rightarrow> gateway \<Rightarrow> uuid \<Rightarrow> money_act list \<Rightarrow> db \<Rightarrow> db" where
  "money_run e g tn acts s = fst (fold (money_step e g tn) acts (s, []))"

text \<open>A delivery handled in one go is its two acts in a row.\<close>

lemma money_run_delivery:
  "money_run e g tn [Received body sig at, Reacted 0 paid_at now token] s
     = fst (settle_deposit e g tn body sig at paid_at now token s)"
  by (simp add: money_run_def settle_deposit_def split: prod.split sum.split)

definition heard :: "gateway \<Rightarrow> money_act list \<Rightarrow> (webhook_event \<times> instant) set" where
  "heard g acts = {(ev, at). \<exists>body sig. Received body sig at \<in> set acts \<and> gw_verify g body sig = Some ev}"

definition reacted_at :: "money_act list \<Rightarrow> instant set" where
  "reacted_at acts = {t. \<exists>k now tok. Reacted k t now tok \<in> set acts}"

definition swept_at :: "money_act list \<Rightarrow> instant set" where
  "swept_at acts = {t. \<exists>hold poll. Swept t hold poll \<in> set acts}"

text \<open>An answer that will be honoured late names a row of the event's own session, and its amount when the
  event reports a charge.\<close>

definition answered ::
  "gateway \<Rightarrow> uuid \<Rightarrow> (webhook_event \<times> instant) set \<Rightarrow> db \<Rightarrow> utext \<times> utext \<times> settlement \<Rightarrow> bool" where
  "answered g tn H s = (\<lambda>(body, sig, st). p_status (st_payment st) = Pay_expired \<longrightarrow>
     (\<exists>ev at q. gw_verify g body sig = Some ev \<and> (ev, at) \<in> H
        \<and> payment_by_id tn (p_id (st_payment st)) s = Some q \<and> p_session q = Some (ev_session ev)
        \<and> (ev_paid ev \<longrightarrow> ev_amount ev = p_amount q)))"

lemma answered_later:
  assumes "answered g tn H s a" "list_all2 (evolved tn' H' L W) (d_payments s) (d_payments s')" "H \<subseteq> H''"
  shows "answered g tn H'' s' a"
proof -
  obtain body sig st where a: "a = (body, sig, st)" by (cases a)
  show ?thesis unfolding a answered_def split
  proof
    assume "p_status (st_payment st) = Pay_expired"
    then obtain ev at q where q: "gw_verify g body sig = Some ev" "(ev, at) \<in> H"
      "payment_by_id tn (p_id (st_payment st)) s = Some q" "p_session q = Some (ev_session ev)"
      "ev_paid ev \<longrightarrow> ev_amount ev = p_amount q"
      using assms(1) by (auto simp: a answered_def)
    obtain r where r: "payment_by_id tn (p_id (st_payment st)) s' = Some r" "same_hold q r"
      using evolved_fetch [OF assms(2) q(3) [unfolded payment_by_id_fetch]]
      unfolding payment_by_id_fetch by blast
    then show "\<exists>ev at q. gw_verify g body sig = Some ev \<and> (ev, at) \<in> H''
        \<and> payment_by_id tn (p_id (st_payment st)) s' = Some q \<and> p_session q = Some (ev_session ev)
        \<and> (ev_paid ev \<longrightarrow> ev_amount ev = p_amount q)"
      using q assms(3) by (auto simp: same_hold_def)
  qed
qed

lemma settle_event_answer:
  assumes ok: "db_ok s" and m: "money_ok s" and run: "settle_event prov tn ev at s = (s', Inr st)"
    and x: "p_status (st_payment st) = Pay_expired"
  shows "\<exists>q. payment_by_id tn (p_id (st_payment st)) s' = Some q \<and> p_session q = Some (ev_session ev)
    \<and> (ev_paid ev \<longrightarrow> ev_amount ev = p_amount q)"
proof -
  note r = settle_event_run [OF ok, of prov tn ev at, unfolded run]
  have "by_provider_transaction_id tn prov (ev_txn ev) s = None"
  proof (rule ccontr)
    assume "by_provider_transaction_id tn prov (ev_txn ev) s \<noteq> None"
    then obtain p where p: "by_provider_transaction_id tn prov (ev_txn ev) s = Some p" by auto
    with r have "st_payment st = p" by simp
    moreover have "p \<in> set (d_payments s)" "p_txn p \<noteq> None"
      using p by (auto simp: by_provider_transaction_id_def dest: find_SomeD)
    ultimately show False using m x by (auto simp: money_ok_def)
  qed
  with r x obtain p err act where p: "by_provider_session_id tn prov (ev_session ev) s = Inr (Some p)"
    and n: "s' = noted tn p err act s" "st_payment st = noted_row err p" "ev_paid ev \<longrightarrow> ev_amount ev = p_amount p"
    by (auto split: sum.splits option.splits if_splits simp: settled_row_def)
  note f = by_session_fetch [OF ok p]
  have "payment_by_id tn (p_id p) s' = Some (noted_row err p)"
    using payment_by_id_write [of "noted_row err" tn "p_id p" tn "p_id p" s] f(1)
    by (simp add: n(1) noted_def payment_by_id_def)
  with n(2,3) f(3) show ?thesis by (simp add: noted_row_def)
qed

lemma settle_from_webhook_safe:
  assumes ok: "db_ok s" and m: "money_ok s" and run: "settle_from_webhook g tn body sig at s = (s', r)"
    and H: "\<And>ev. gw_verify g body sig = Some ev \<Longrightarrow> (ev, at) \<in> H"
  shows "db_ok s'" "list_all2 (evolved tn H L W) (d_payments s) (d_payments s')"
    "r = Inr st \<Longrightarrow> answered g tn H s' (body, sig, st)"
proof -
  have "db_ok s' \<and> list_all2 (evolved tn H L W) (d_payments s) (d_payments s')
    \<and> (\<forall>st. r = Inr st \<longrightarrow> answered g tn H s' (body, sig, st))"
  proof (cases "gw_verify g body sig")
    case None
    with run ok evolved_refl show ?thesis
      by (auto simp: settle_from_webhook_def split: sum.splits)
  next
    case (Some ev)
    then consider (early) err where "s' = s" "r = Inl err" | (event) prov where "settle_event prov tn ev at s = (s', r)"
      using run by (auto simp: settle_from_webhook_def split: sum.splits)
    then show ?thesis
    proof cases
      case early
      with ok evolved_refl show ?thesis by simp
    next
      case (event prov)
      note safe = settle_event_safe [OF ok event]
      have "list_all2 (evolved tn H L W) (d_payments s) (d_payments s')"
        by (rule list_all2_mono [of "evolved tn {(ev, at)} {} {}"])
          (use safe H [OF Some] in \<open>auto intro: evolved_mono\<close>)
      moreover have "answered g tn H s' (body, sig, st)" if "r = Inr st" for st
        using settle_event_answer [OF ok m event [unfolded that]] Some H [OF Some]
        by (auto simp: answered_def)
      ultimately show ?thesis using safe by blast
    qed
  qed
  then show "db_ok s'" "list_all2 (evolved tn H L W) (d_payments s) (d_payments s')"
    "r = Inr st \<Longrightarrow> answered g tn H s' (body, sig, st)" by blast+
qed

lemma rebind_late_ok:
  assumes ok: "db_ok s" and run: "rebind_late e tn b now tok s = Inr (s', r)"
  shows "db_ok s'"
proof (cases "s' = s")
  case False
  then obtain seat s1 x where rb: "rebind tn (b_id b) seat [Cancelled, Pending_payment] now s = Inr (s1, x)"
    and rest: "(case x of None \<Rightarrow> Inr (s1, None)
          | Some b' \<Rightarrow>
              andthen (set_manage_token_hash tn (b_id b) (e_hash e tok) None None s1) (\<lambda>(s2, _).
              andthen (upsert_reminder e tn (b_id b) (b_starts_at b') now (Some tok) tok s2)
                (\<lambda>(s3, _). Inr (record_audit tn Deposit_late_honoured (Some (b_id b)) s3, Some b')))) = Inr (s', r)"
    using run by (auto simp: rebind_late_def andthen_eq_Inr split: option.splits if_splits)
  have ok1: "db_ok s1"
    using update_booking_db_ok [OF ok _ rb [unfolded rebind_def]] by (simp add: bk.keeps_name_def)
  show ?thesis
  proof (cases x)
    case None
    with rest ok1 show ?thesis by simp
  next
    case (Some b')
    have "booking_by_id tn (b_id b) s1 = Some b'"
      using rb Some by (auto simp: rebind_def update_booking_def andthen_eq_Inr Let_def split: prod.splits if_splits)
    then obtain s3 where "andthen (set_manage_token_hash tn (b_id b) (e_hash e tok) None None s1) (\<lambda>(s2, _).
              andthen (upsert_reminder e tn (b_id b) (b_starts_at b') now (Some tok) tok s2)
                (\<lambda>(s3, _). Inr (record_audit tn Deposit_late_honoured (Some (b_id b)) s3, Some b'))) = Inr (s3, Some b')"
      "db_ok s3"
      by (rule relink [OF ok1])
    with rest Some show ?thesis by simp
  qed
qed (use ok in simp)

lemma confirm_deposit_money:
  assumes ok: "db_ok s" and run: "confirm_deposit e tn bid now tok s = Inr (s', n)"
  shows "db_ok s' \<and> d_payments s' = d_payments s"
proof (cases "booking_by_id tn bid s")
  case None
  with run ok show ?thesis
    by (auto simp: confirm_deposit_def set_status_run [OF db_okD(1) [OF ok]])
next
  case (Some b)
  from deposit_confirms_once [OF ok Some, of e now tok] run show ?thesis by auto
qed

lemma honour_money:
  assumes ok: "db_ok s" and a: "payment_by_id tn (p_id p) s = Some q" "p_session q = Some (ev_session ev)"
      "ev_paid ev \<longrightarrow> ev_amount ev = p_amount q"
    and run: "honour e tn p (ev_txn ev) paid_at now tok s = (s', r)"
  shows "db_ok s' \<and> list_all2 (evolved tn {(ev, at)} {paid_at} {}) (d_payments s) (d_payments s')"
proof -
  let ?s1 = "write_payment tn (p_id p) (settled_row (ev_txn ev) paid_at) s"
  have late: "honour_late_settlement tn (p_id p) (ev_txn ev) paid_at s =
      (if p_status q \<noteq> Pay_expired then Inr (s, None)
       else if payments_ok (d_payments ?s1) then Inr (?s1, Some (settled_row (ev_txn ev) paid_at q))
       else Inl Integrity_error)"
    using settle_late_run [OF db_okD(2) [OF ok], of tn "p_id p" "ev_txn ev" paid_at] a(1)
    by (simp add: honour_late_settlement_def settled_row_def [abs_def] Let_def)
  show ?thesis
  proof (cases "p_status q = Pay_expired \<and> payments_ok (d_payments ?s1)")
    case False
    with run late ok evolved_refl show ?thesis by (auto simp: honour_def split: if_splits)
  next
    case True
    have ok1: "db_ok ?s1" by (rule db_ok_write_payment [OF ok]) (use True in simp_all)
    have q: "p_id q = p_id p" using payment_by_id_SomeD [OF a(1)] by simp
    have "evolved tn {(ev, at)} {paid_at} {} q (settled_row (ev_txn ev) paid_at q)"
      using a(2,3) True by (auto simp: evolved_def same_hold_def paid_by_def settled_row_def)
    from evolved_write [OF ok, of tn q, unfolded q, OF a(1), where f = "settled_row (ev_txn ev) paid_at", OF this]
    have ev: "list_all2 (evolved tn {(ev, at)} {paid_at} {}) (d_payments s) (d_payments ?s1)" .
    define s1 where "s1 = ?s1"
    have "db_ok s' \<and> d_payments s' = d_payments s1"
      using run True ok1 unfolding honour_def late s1_def [symmetric]
      by (auto simp: Let_def split: option.splits sum.splits error.splits if_splits
          dest: rebind_late_frame rebind_late_ok)
    with ev show ?thesis by (simp add: s1_def)
  qed
qed

lemma react_money:
  assumes ok: "db_ok s" and a: "answered g tn H s (body, sig, st)" and t: "paid_at \<in> L"
    and run: "react e g tn body sig st paid_at now tok s = (s', r)"
  shows "db_ok s' \<and> list_all2 (evolved tn H L W) (d_payments s) (d_payments s')"
proof (cases "deposit_reaction st")
  case Confirm
  with run ok evolved_refl show ?thesis
    by (auto simp: react_def commits_def split: sum.splits dest: confirm_deposit_money [OF ok])
next
  case Honour
  then have "p_status (st_payment st) = Pay_expired" by (simp add: deposit_reaction_def split: if_splits)
  with a obtain ev at q where q: "gw_verify g body sig = Some ev" "(ev, at) \<in> H"
      "payment_by_id tn (p_id (st_payment st)) s = Some q" "p_session q = Some (ev_session ev)"
      "ev_paid ev \<longrightarrow> ev_amount ev = p_amount q"
    by (auto simp: answered_def)
  show ?thesis
  proof (cases "verification_credentials_for g")
    case (Inl err)
    with run Honour ok evolved_refl show ?thesis by (simp add: react_def)
  next
    case (Inr u)
    with run Honour q(1) have "honour e tn (st_payment st) (ev_txn ev) paid_at now tok s = (s', r)"
      by (simp add: react_def need_def)
    from honour_money [OF ok q(3-5) this, of at] have "db_ok s'"
      "list_all2 (evolved tn {(ev, at)} {paid_at} {}) (d_payments s) (d_payments s')" by auto
    moreover from this(2) have "list_all2 (evolved tn H L W) (d_payments s) (d_payments s')"
      by (rule list_all2_mono) (use q(2) t in \<open>auto intro: evolved_mono\<close>)
    ultimately show ?thesis by simp
  qed
next
  case Ignore
  with run ok evolved_refl show ?thesis by (simp add: react_def)
qed

lemma swept_money:
  assumes ok: "db_ok s" and run: "sweep_deposits tn now hold poll s = Inr (s', res)" and t: "now \<in> W"
  shows "db_ok s' \<and> list_all2 (evolved tn H L W) (d_payments s) (d_payments s')"
proof -
  have step: "db_ok s' \<and> list_all2 (\<lambda>p q. q = p \<or> hold_due tn now p \<and> q = Sweeper.expired_row p) (d_payments s) (d_payments s')"
    using sweep_payments [OF ok, of tn now hold poll] run by auto
  moreover from step have "list_all2 (\<lambda>p q. q = p \<or> hold_due tn now p \<and> q = Sweeper.expired_row p) (d_payments s) (d_payments s')"
    by blast
  then have "list_all2 (evolved tn H L W) (d_payments s) (d_payments s')"
    by (rule list_all2_mono)
      (use t in \<open>auto simp: evolved_def same_hold_def same_money_def lapses_def Sweeper.expired_row_def\<close>)
  ultimately show ?thesis by blast
qed

lemma acts_snoc:
  "heard g acts \<subseteq> heard g (acts @ [x])" "reacted_at acts \<subseteq> reacted_at (acts @ [x])"
  "swept_at acts \<subseteq> swept_at (acts @ [x])"
  by (auto simp: heard_def reacted_at_def swept_at_def)

lemma money_run_safe:
  assumes "db_ok s" "money_ok s" "fold (money_step e g tn) acts (s, []) = (s', told)"
  shows "db_ok s' \<and> money_ok s'
    \<and> list_all2 (evolved tn (heard g acts) (reacted_at acts) (swept_at acts)) (d_payments s) (d_payments s')
    \<and> (\<forall>a\<in>set told. answered g tn (heard g acts) s' a)"
  using assms(3)
proof (induction acts arbitrary: s' told rule: rev_induct)
  case Nil
  with assms(1,2) evolved_refl show ?case by auto
next
  case (snoc x acts)
  let ?acts = "acts @ [x]"
  let ?H = "heard g ?acts" and ?L = "reacted_at ?acts" and ?W = "swept_at ?acts"
  obtain s1 told1 where run: "fold (money_step e g tn) acts (s, []) = (s1, told1)" by fastforce
  with snoc.prems have x: "money_step e g tn x (s1, told1) = (s', told)" by simp
  from snoc.IH [OF run] have ok1: "db_ok s1" and m1: "money_ok s1"
    and ev1: "list_all2 (evolved tn (heard g acts) (reacted_at acts) (swept_at acts)) (d_payments s) (d_payments s1)"
    and an1: "\<forall>a\<in>set told1. answered g tn (heard g acts) s1 a" by blast+
  have step: "db_ok s' \<and> list_all2 (evolved tn ?H ?L ?W) (d_payments s1) (d_payments s')
     \<and> (\<forall>a\<in>set told. a \<in> set told1 \<or> answered g tn ?H s' a)"
  proof (cases x)
    case (Received body sig at)
    have H: "\<And>ev. gw_verify g body sig = Some ev \<Longrightarrow> (ev, at) \<in> ?H" by (auto simp: heard_def Received)
    obtain r where r: "settle_from_webhook g tn body sig at s1 = (s', r)"
      using x Received by (auto split: prod.splits sum.splits)
    have "told = (case r of Inl _ \<Rightarrow> told1 | Inr st \<Rightarrow> told1 @ [(body, sig, st)])"
      using x Received r by (auto split: sum.splits)
    with settle_from_webhook_safe [OF ok1 m1 r H] show ?thesis by (auto split: sum.splits)
  next
    case (Reacted k paid_at now tok)
    have t: "paid_at \<in> ?L" by (auto simp: reacted_at_def Reacted)
    show ?thesis
    proof (cases "k < length told1")
      case False
      with x Reacted ok1 evolved_refl show ?thesis by auto
    next
      case True
      obtain body sig st where k: "told1 ! k = (body, sig, st)" by (cases "told1 ! k")
      have "answered g tn (heard g acts) s1 (body, sig, st)" using an1 nth_mem [OF True] k by metis
      then have "answered g tn ?H s1 (body, sig, st)"
        by (rule answered_later [OF _ evolved_refl acts_snoc(1)])
      moreover have "react e g tn body sig st paid_at now tok s1 = (s', snd (react e g tn body sig st paid_at now tok s1))"
        "told = told1"
        using x Reacted True k by (auto simp: prod_eq_iff)
      ultimately show ?thesis using react_money [OF ok1 _ t] by blast
    qed
  next
    case (Swept now hold poll)
    have t: "now \<in> ?W" by (auto simp: swept_at_def Swept)
    show ?thesis
    proof (cases "sweep_deposits tn now hold poll s1")
      case (Inl err)
      with x Swept ok1 evolved_refl show ?thesis by auto
    next
      case (Inr y)
      with x Swept have "sweep_deposits tn now hold poll s1 = Inr (s', snd y)" "told = told1"
        by (auto split: prod.splits)
      with swept_money [OF ok1 _ t] show ?thesis by blast
    qed
  qed
  then have ev2: "list_all2 (evolved tn ?H ?L ?W) (d_payments s1) (d_payments s')" by blast
  have "answered g tn ?H s' a" if "a \<in> set told1" for a
    using answered_later [OF _ ev2 acts_snoc(1)] an1 that by blast
  moreover have "list_all2 (evolved tn ?H ?L ?W) (d_payments s) (d_payments s')"
    by (rule evolved_all_trans [OF ev1 ev2]) (rule acts_snoc order_refl)+
  ultimately show ?case using step money_ok_evolved [OF m1 ev2] by blast
qed

text \<open>C20. Money is recorded once and for good. Take any interleaving of the transactions of the shop's
  webhook deliveries (each receipt, and each reaction to an answer given before), redelivered, reordered,
  forged in amount or held up, with runs of the deposit sweeper. Every payment keeps its hold: booking,
  provider, session and amount. One that was already settled keeps its status, transaction and time of
  payment for good. An open one is otherwise only expired by a sweep that found it overdue, or paid, with the
  transaction of an event that was received for its own session and, where the event reports a charge, for its
  exact amount: on time, from pending, only by an event that reports the charge as paid; late, in a reaction,
  only once its hold has expired. One provider transaction never pays two rows.\<close>

theorem money_recorded_once:
  assumes "db_ok s" "money_ok s"
  shows "list_all2 (evolved tn (heard g acts) (reacted_at acts) (swept_at acts))
       (d_payments s) (d_payments (money_run e g tn acts s))
     \<and> (\<forall>prov txn. length (filter (\<lambda>p. p_tenant p = tn \<and> p_provider p = prov \<and> p_txn p = Some txn
              \<and> \<not> p_deleted p) (d_payments (money_run e g tn acts s))) \<le> 1)
     \<and> db_ok (money_run e g tn acts s) \<and> money_ok (money_run e g tn acts s)"
proof -
  obtain s' told where run: "fold (money_step e g tn) acts (s, []) = (s', told)" by fastforce
  then have "money_run e g tn acts s = s'" by (simp add: money_run_def)
  with money_run_safe [OF assms run] txn_once db_okD(2) show ?thesis by blast
qed

text \<open>A charge reported as paid, received, swept past and received again.\<close>

definition paying_gateway :: gateway where
  "paying_gateway = sample_gateway\<lparr>gw_verify := (\<lambda>_ _. Some sample_event)\<rparr>"

theorem money_recorded_once_witness:
  "map (\<lambda>p. (p_status p, p_txn p)) (d_payments (money_run sample_env paying_gateway 4
     [Received [] [] 20, Swept 60 900 60, Reacted 0 61 62 [9], Received [] [] 70]
     (empty_db\<lparr>d_payments := [sample_hold]\<rparr>))) = [(Paid, Some [8])]
   \<and> db_ok (money_run sample_env paying_gateway 4
     [Received [] [] 20, Swept 60 900 60, Reacted 0 61 62 [9], Received [] [] 70]
     (empty_db\<lparr>d_payments := [sample_hold]\<rparr>))"
proof -
  have "map (\<lambda>p. (p_status p, p_txn p)) (d_payments (money_run sample_env paying_gateway 4
     [Received [] [] 20, Swept 60 900 60, Reacted 0 61 62 [9], Received [] [] 70]
     (empty_db\<lparr>d_payments := [sample_hold]\<rparr>))) = [(Paid, Some [8])]"
    by code_simp
  moreover have "money_ok (empty_db\<lparr>d_payments := [sample_hold]\<rparr>)"
    by (simp add: money_ok_def sample_hold_def)
  ultimately show ?thesis
    using money_recorded_once [OF sample_hold_ok, of 4 paying_gateway
        "[Received [] [] 20, Swept 60 900 60, Reacted 0 61 62 [9], Received [] [] 70]" sample_env] by blast
qed

section \<open>Properties of the checkout\<close>

lemma open_hold_run:
  assumes ok: "db_ok s" and prov: "require_provider g = Inr prov" and cred: "credentials_for g = Inr ()"
    and amount: "0 < amount"
  shows "(\<exists>err. gw_session g bid amount hs = Inl err \<and> live_pending_for_booking tn bid s = None
            \<and> open_hold g tn bid amount hs now s = Inl err)
    \<or> (\<exists>s1 h. open_hold g tn bid amount hs now s = Inr (s1, h) \<and> db_ok s1
            \<and> live_pending_for_booking tn bid s1 = Some (dh_payment h)
            \<and> dh_redirect_url h = p_redirect_url (dh_payment h) \<and> d_bookings s1 = d_bookings s)"
proof (cases "live_pending_for_booking tn bid s")
  case (Some p)
  then show ?thesis using prov cred ok by (simp add: open_hold_def)
next
  case None
  show ?thesis
  proof (cases "gw_session g bid amount hs")
    case (Inl err)
    with None prov cred show ?thesis by (simp add: open_hold_def)
  next
    case (Inr r)
    obtain sess url where r: "r = (sess, url)" by fastforce
    obtain s1 p where ins: "insert_payment tn bid prov amount sess url (now + seconds hs) s = Inr (s1, p)"
      and p: "p_status p = Pay_pending" "p_booking p = bid" "p_tenant p = tn" "p_redirect_url p = Some url"
      and s1: "s1 = s\<lparr>d_payments := d_payments s @ [p], d_next := d_next s + 1\<rparr>" "db_ok s1"
      using put_hold_free [OF ok None amount, of prov sess url "now + seconds hs"] by blast
    have "\<not> p_deleted p" using ins by (auto simp: insert_payment_def dest: put_payment_Inr)
    then have "live_pending_for_booking tn bid s1 = Some p"
      using None p by (simp add: live_pending_for_booking_def s1(1) find_append)
    then show ?thesis using None Inr prov cred ins p s1 by (simp add: open_hold_def r)
  qed
qed

text \<open>A checkout can be repeated. Opening the hold again, whatever amount or deadline is asked for
  and whatever the provider would answer, gives the same payment and the same page and writes
  nothing.\<close>

theorem checkout_converges:
  assumes "db_ok s" "require_provider g = Inr prov" "credentials_for g = Inr ()" "0 < amount"
    and "open_hold g tn bid amount hs now s = Inr (s1, h)"
  shows "db_ok s1 \<and> live_pending_for_booking tn bid s1 = Some (dh_payment h)
     \<and> (\<forall>session amount' hs' now'.
          open_hold (g\<lparr>gw_session := session\<rparr>) tn bid amount' hs' now' s1 = Inr (s1, h\<lparr>dh_created := False\<rparr>))"
proof -
  from open_hold_run [OF assms(1-4), of bid hs tn now] assms(5)
  have one: "db_ok s1" "live_pending_for_booking tn bid s1 = Some (dh_payment h)"
    "dh_redirect_url h = p_redirect_url (dh_payment h)" by auto
  moreover have "require_provider (g\<lparr>gw_session := session\<rparr>) = Inr prov"
    "credentials_for (g\<lparr>gw_session := session\<rparr>) = Inr ()" for session
    using assms(2,3)
    by (simp_all add: require_provider_def credentials_for_def require_box_def cong: option.case_cong)
  ultimately show ?thesis by (cases h) (simp add: open_hold_def)
qed

theorem checkout_converges_witness:
  "\<exists>s1 h. open_hold sample_gateway 4 6 300 900 0 (empty_db :: db) = Inr (s1, h)
     \<and> open_hold sample_gateway 4 6 500 20 9 s1 = Inr (s1, h\<lparr>dh_created := False\<rparr>)"
proof -
  have ok: "db_ok empty_db" by code_simp
  have g: "require_provider sample_gateway = Inr []" "credentials_for sample_gateway = Inr ()"
    by (simp_all add: sample_gateway_def require_box_def require_provider_def credentials_for_def)
  obtain s1 h where run: "open_hold sample_gateway 4 6 300 900 0 empty_db = Inr (s1, h)"
    using open_hold_run [OF ok g, of 300 6 900 4 0] by (auto simp: sample_gateway_def)
  have "sample_gateway\<lparr>gw_session := gw_session sample_gateway\<rparr> = sample_gateway" by simp
  with checkout_converges [OF ok g _ run] run show ?thesis by (metis zero_less_numeral)
qed

text \<open>C24. No booking is stranded by the checkout. When a deposit is due and the provider or the
  credentials fail in a way the code compensates, the waiting booking ends confirmed without a
  deposit; otherwise it keeps waiting under a live hold whose page is the answer. Either way the
  handler answers, and nothing else about the booking changes.\<close>

theorem checkout_never_strands:
  assumes "db_ok s" "booking_by_id tn (b_id (bc_booking claim)) s = Some (bc_booking claim)"
    and "b_status (bc_booking claim) = Pending_payment" "bc_deposit_due claim" "0 < bc_deposit_amount claim"
    and "require_provider g = Inr prov"
    and "\<And>err. credentials_for g = Inl err \<Longrightarrow> err \<in> DEPOSIT_COMPENSATED_ERRORS"
    and "\<And>amount err. gw_session g (b_id (bc_booking claim)) amount hs = Inl err \<Longrightarrow> err \<in> DEPOSIT_COMPENSATED_ERRORS"
  shows "\<exists>s' out. open_deposit (Some g) (Some g) hs tn claim now s = Inr (s', out) \<and> db_ok s'
     \<and> (if do_due out
        then do_status out = Pending_payment \<and> booking_by_id tn (b_id (bc_booking claim)) s' = Some (bc_booking claim)
          \<and> (\<exists>p. live_pending_for_booking tn (b_id (bc_booking claim)) s' = Some p
                \<and> do_session out = p_session p \<and> do_redirect_url out = p_redirect_url p)
        else do_status out = Confirmed
          \<and> booking_by_id tn (b_id (bc_booking claim)) s' = Some ((bc_booking claim)\<lparr>b_status := Confirmed\<rparr>))"
proof -
  let ?b = "bc_booking claim" and ?bid = "b_id (bc_booking claim)"
  let ?s1 = "write_booking tn ?bid (\<lambda>b. b\<lparr>b_status := Confirmed\<rparr>) s"
  have prov: "gw_provider g = Some prov"
    using assms(6) by (auto simp: require_provider_def split: option.splits if_splits)
  have set: "set_status tn ?bid Confirmed [Pending_payment] None None s = Inr (?s1, Some (?b\<lparr>b_status := Confirmed\<rparr>))"
    using assms(2,3) by (simp add: set_status_run [OF db_okD(1) [OF assms(1)]] when_given_def)
  have ok1: "db_ok ?s1"
    by (rule db_ok_hold [OF assms(1,2), where g = "\<lambda>b. b_status b = Pending_payment"])
      (use assms(3) in \<open>auto simp: place_defs\<close>)
  let ?row = "\<lparr>p_id = d_next ?s1, p_tenant = tn, p_booking = ?bid, p_provider = prov,
    p_amount = bc_deposit_amount claim, p_status = Pay_failed, p_session = None, p_redirect_url = None,
    p_txn = None, p_hold_expires_at = None, p_paid_at = None, p_error = Some GATEWAY_UNAVAILABLE_ERROR,
    p_created_at = d_now ?s1, p_deleted = False\<rparr>"
  have "payments_ok (d_payments ?s1 @ [?row])"
    using db_okD(2,7) [OF ok1] assms(5) ids_below_notin [OF db_okD(7) [OF ok1]]
    by (auto simp: payments_ok_def pending_hold_def settled_txn_def simp del: set_map simp flip: image_set)
  then have put: "put_payment ?row ?s1 = Inr (?s1\<lparr>d_payments := d_payments ?s1 @ [?row], d_next := d_next ?s1 + 1\<rparr>, ?row)"
    by (simp add: put_payment_def insert_row_def)
  obtain s2 where rec: "record_unavailable tn ?bid prov (bc_deposit_amount claim) ?s1 = Inr (s2, ?row)"
    and s2: "d_bookings s2 = d_bookings ?s1" "db_ok s2"
    using put db_ok_put_payment [OF ok1 put] by (simp add: record_unavailable_def)
  have "booking_by_id tn ?bid s2 = booking_by_id tn ?bid ?s1" by (simp only: booking_by_id_def s2(1))
  then have b2: "booking_by_id tn ?bid s2 = Some (?b\<lparr>b_status := Confirmed\<rparr>)"
    using assms(2) by (simp add: booking_by_id_write)
  have without: "book_without_deposit (Some g) tn claim s =
      Inr (record_audit tn Gateway_unavailable_at_checkout (Some ?bid) s2,
        \<lparr>do_status = Confirmed, do_due = False, do_redirect_url = None, do_session = None\<rparr>)"
    using set rec prov by (simp add: book_without_deposit_def)
  have b3: "booking_by_id tn ?bid (record_audit tn Gateway_unavailable_at_checkout (Some ?bid) s2)
      = Some (?b\<lparr>b_status := Confirmed\<rparr>)"
    using b2 by (simp add: booking_by_id_def)
  have compensated: ?thesis if "open_hold g tn ?bid (bc_deposit_amount claim) hs now s = Inl err"
    "err \<in> DEPOSIT_COMPENSATED_ERRORS" for err
    using that assms(3,4) without b3 s2(2) by (simp add: open_deposit_def)
  show ?thesis
  proof (cases "credentials_for g")
    case (Inl err)
    with assms(6) have "open_hold g tn ?bid (bc_deposit_amount claim) hs now s = Inl err"
      by (simp add: open_hold_def)
    then show ?thesis using compensated assms(7) [OF Inl] by blast
  next
    case (Inr x)
    then have "credentials_for g = Inr ()" by simp
    from open_hold_run [OF assms(1,6) this assms(5), of ?bid hs tn now] show ?thesis
    proof (elim disjE exE conjE)
      fix err assume "gw_session g ?bid (bc_deposit_amount claim) hs = Inl err"
        "open_hold g tn ?bid (bc_deposit_amount claim) hs now s = Inl err"
      then show ?thesis using compensated assms(8) by blast
    next
      fix s1 h assume h: "open_hold g tn ?bid (bc_deposit_amount claim) hs now s = Inr (s1, h)" "db_ok s1"
        "live_pending_for_booking tn ?bid s1 = Some (dh_payment h)"
        "dh_redirect_url h = p_redirect_url (dh_payment h)" "d_bookings s1 = d_bookings s"
      have "booking_by_id tn ?bid s1 = Some ?b" using assms(2) by (simp add: booking_by_id_def h(5))
      with h assms(3,4) show ?thesis by (simp add: open_deposit_def)
    qed
  qed
qed

definition waiting_claim :: booking_claim where
  "waiting_claim = \<lparr>bc_booking = waiting_booking, bc_created = True, bc_manage_token = None,
     bc_deposit_due = True, bc_deposit_amount = 300\<rparr>"

theorem checkout_never_strands_witness:
  "\<exists>s' out. open_deposit (Some (sample_gateway\<lparr>gw_session := \<lambda>_ _ _. Inl Gateway_unavailable\<rparr>))
       (Some (sample_gateway\<lparr>gw_session := \<lambda>_ _ _. Inl Gateway_unavailable\<rparr>)) 900 4 waiting_claim 0
       (shop_db\<lparr>d_bookings := [waiting_booking]\<rparr>) = Inr (s', out) \<and> db_ok s'"
proof -
  let ?g = "sample_gateway\<lparr>gw_session := \<lambda>_ _ _. Inl Gateway_unavailable\<rparr>"
  have "b_status (bc_booking waiting_claim) = Pending_payment" "bc_deposit_due waiting_claim"
    "0 < bc_deposit_amount waiting_claim" "b_id (bc_booking waiting_claim) = 6"
    "bc_booking waiting_claim = waiting_booking"
    by (simp_all add: waiting_claim_def waiting_booking_def)
  moreover have "require_provider ?g = Inr []" "credentials_for ?g = Inr ()"
    by (simp_all add: sample_gateway_def require_box_def require_provider_def credentials_for_def)
  ultimately show ?thesis
    using checkout_never_strands [of "shop_db\<lparr>d_bookings := [waiting_booking]\<rparr>" 4 waiting_claim ?g "[]" 900 0]
      waiting_ok waiting_found by (auto simp: DEPOSIT_COMPENSATED_ERRORS_def)
qed

end
