(* ===== verification/Booking_Owner.thy ===== *)
theory Booking_Owner
  imports Payments_Repo Booking_Writes Booking_Service
begin

text \<open>
  The owner's console, \<open>OwnerBookingService\<close> of \<open>app/booking/owner.py\<close>: the status transitions, the
  arrival stamp, cancelling, moving and restoring an appointment, walk-ins, correcting a phone and
  resending a link. Every handler runs in one transaction; \<open>Inl\<close> rolls it back.
\<close>

section \<open>Reading a day\<close>

definition MAX_LIST_OFFSET :: int where "MAX_LIST_OFFSET = 1000000"
definition BOOKING_LIST_MAX_LIMIT :: int where "BOOKING_LIST_MAX_LIMIT = 200"

text \<open>The ordinals of \<open>date.min\<close> and \<open>date.max\<close>.\<close>

definition DATE_MIN :: date where "DATE_MIN = 1"
definition DATE_MAX :: date where "DATE_MAX = 3652059"

definition owner_list_day :: "env \<Rightarrow> uuid \<Rightarrow> date \<Rightarrow> int \<Rightarrow> int \<Rightarrow> db \<Rightarrow> error + booking list \<times> nat" where
  "owner_list_day e tn day offset limit s =
     (if \<not> (DATE_MIN < day \<and> day < DATE_MAX) then Inl (Domain_validation ''date is out of range'')
      else
        let safe_offset = min (max offset 0) MAX_LIST_OFFSET;
            safe_limit = min (max limit 1) BOOKING_LIST_MAX_LIMIT in
        Inr (list_day tn (midnight (e_zone e) day) (midnight (e_zone e) (day + 1))
               (nat safe_offset) (nat safe_limit) s))"

definition owner_detail :: "uuid \<Rightarrow> uuid \<Rightarrow> db \<Rightarrow> error + booking" where
  "owner_detail tn bid s = need Booking_not_found (booking_by_id tn bid s)"

definition refund_due_agorot :: "int \<Rightarrow> instant \<Rightarrow> instant \<Rightarrow> int \<Rightarrow> int \<Rightarrow> int" where
  "refund_due_agorot amount starts_at at refundable_hours forfeit_percent =
     (if at \<le> starts_at - hours refundable_hours then amount
      else amount - amount * forfeit_percent div 100)"

record booking_payment =
  bp_status :: payment_status
  bp_refund_due :: "int option"

definition payment_fact :: "uuid \<Rightarrow> instant \<Rightarrow> db \<Rightarrow> booking \<Rightarrow> payment \<Rightarrow> booking_payment" where
  "payment_fact tn now s b p =
     \<lparr>bp_status = p_status p,
      bp_refund_due =
        (case b_terms_version b of
           None \<Rightarrow> None
         | Some version \<Rightarrow>
             if p_status p \<noteq> Paid then None
             else
               (case terms_by_version tn version s of
                  None \<Rightarrow> None
                | Some v \<Rightarrow>
                    Some (refund_due_agorot (p_amount p) (b_starts_at b)
                      (case b_cancelled_at b of None \<Rightarrow> now | Some t \<Rightarrow> t)
                      (v_refundable_until_hours v) (v_forfeit_percent v))))\<rparr>"

definition payments_for :: "uuid \<Rightarrow> instant \<Rightarrow> booking list \<Rightarrow> db \<Rightarrow> (uuid \<times> booking_payment) list" where
  "payments_for tn now bookings s =
     concat (map (\<lambda>b. case by_booking_ids tn (map b_id bookings) s (b_id b) of
                        None \<Rightarrow> [] | Some p \<Rightarrow> [(b_id b, payment_fact tn now s b p)]) bookings)"

section \<open>Mutations\<close>

record owner_mutation =
  om_booking :: booking
  om_changed :: bool
  om_token :: "utext option"

definition create_walk_in :: "uuid \<Rightarrow> uuid \<Rightarrow> uuid \<Rightarrow> instant \<Rightarrow> db \<Rightarrow> error + db \<times> owner_mutation" where
  "create_walk_in tn cid tid now s =
     andthen (need Booking_not_found (customer_by_id tn cid s)) (\<lambda>c.
     andthen (ensure Booking_not_found (c_erased_at c = None)) (\<lambda>_.
     andthen (need Booking_not_found (type_by_id tn tid s)) (\<lambda>t.
     case insert_walk_in tn cid tid (t_name t) now s of
       Inl _ \<Rightarrow> Inl Slot_unavailable
     | Inr (s1, b) \<Rightarrow>
         Inr (record_audit tn Booking_walk_in_created (Some (b_id b)) s1,
           \<lparr>om_booking = b, om_changed = True, om_token = None\<rparr>))))"

definition owner_transition ::
  "uuid \<Rightarrow> uuid \<Rightarrow> booking_status \<Rightarrow> booking_status list \<Rightarrow> audit_action \<Rightarrow> bool \<Rightarrow> instant \<Rightarrow> db
   \<Rightarrow> error + db \<times> owner_mutation" where
  "owner_transition tn bid to allowed_from act past_only now s =
     andthen (need Booking_not_found (booking_by_id tn bid s)) (\<lambda>b.
     if b_status b = to then Inr (s, \<lparr>om_booking = b, om_changed = False, om_token = None\<rparr>)
     else
       andthen (ensure Transition_invalid (b_status b \<in> set allowed_from)) (\<lambda>_.
       andthen (ensure Transition_invalid (\<not> (past_only \<and> b_starts_at b > now))) (\<lambda>_.
       andthen (set_status tn bid to allowed_from None (if past_only then Some now else None) s)
         (\<lambda>(s1, updated).
       andthen (need Transition_invalid updated) (\<lambda>b'.
       Inr (record_audit tn act (Some bid) s1,
         \<lparr>om_booking = b', om_changed = True, om_token = None\<rparr>))))))"

definition owner_confirm :: "uuid \<Rightarrow> uuid \<Rightarrow> instant \<Rightarrow> db \<Rightarrow> error + db \<times> owner_mutation" where
  "owner_confirm tn bid = owner_transition tn bid Confirmed [No_show, Completed] Booking_confirmed False"

definition owner_no_show :: "uuid \<Rightarrow> uuid \<Rightarrow> instant \<Rightarrow> db \<Rightarrow> error + db \<times> owner_mutation" where
  "owner_no_show tn bid = owner_transition tn bid No_show [Confirmed, Completed] Booking_no_show True"

definition owner_complete :: "uuid \<Rightarrow> uuid \<Rightarrow> instant \<Rightarrow> db \<Rightarrow> error + db \<times> owner_mutation" where
  "owner_complete tn bid = owner_transition tn bid Completed [Confirmed, No_show] Booking_completed True"

text \<open>\<open>assert refreshed is not None\<close> is a branch of its own.\<close>

definition owner_check_in :: "uuid \<Rightarrow> uuid \<Rightarrow> instant \<Rightarrow> db \<Rightarrow> error + db \<times> owner_mutation" where
  "owner_check_in tn bid now s =
     andthen (need Booking_not_found (booking_by_id tn bid s)) (\<lambda>b.
     if b_checked_in_at b \<noteq> None then Inr (s, \<lparr>om_booking = b, om_changed = False, om_token = None\<rparr>)
     else
       andthen (ensure Transition_invalid (b_status b = Confirmed)) (\<lambda>_.
       andthen (check_in tn bid now s) (\<lambda>(s1, outcome, refreshed).
       case outcome of
         Missing \<Rightarrow> Inl Booking_not_found
       | Not_confirmed \<Rightarrow> Inl Transition_invalid
       | Already_checked_in \<Rightarrow>
           andthen (need Assertion_failed refreshed) (\<lambda>r.
           Inr (s1, \<lparr>om_booking = r, om_changed = False, om_token = None\<rparr>))
       | Wrote \<Rightarrow>
           andthen (need Assertion_failed refreshed) (\<lambda>r.
           Inr (record_audit tn Booking_checked_in (Some bid) s1,
             \<lparr>om_booking = r, om_changed = True, om_token = None\<rparr>)))))"

definition owner_undo_check_in :: "uuid \<Rightarrow> uuid \<Rightarrow> db \<Rightarrow> error + db \<times> owner_mutation" where
  "owner_undo_check_in tn bid s =
     andthen (need Booking_not_found (booking_by_id tn bid s)) (\<lambda>b.
     if b_checked_in_at b = None then Inr (s, \<lparr>om_booking = b, om_changed = False, om_token = None\<rparr>)
     else
       andthen (undo_check_in tn bid s) (\<lambda>(s1, outcome, refreshed).
       case refreshed of
         None \<Rightarrow> Inl Booking_not_found
       | Some r \<Rightarrow>
           if outcome = Missing then Inl Booking_not_found
           else if outcome \<noteq> Wrote then
             Inr (s1, \<lparr>om_booking = r, om_changed = False, om_token = None\<rparr>)
           else
             Inr (record_audit tn Booking_check_in_undone (Some bid) s1,
               \<lparr>om_booking = r, om_changed = True, om_token = None\<rparr>)))"

definition owner_cancel :: "uuid \<Rightarrow> uuid \<Rightarrow> instant \<Rightarrow> db \<Rightarrow> error + db \<times> owner_mutation" where
  "owner_cancel tn bid now s =
     andthen (need Booking_not_found (booking_by_id tn bid s)) (\<lambda>b.
     if b_status b = Cancelled then Inr (s, \<lparr>om_booking = b, om_changed = False, om_token = None\<rparr>)
     else
       andthen (ensure Transition_invalid (b_status b = Confirmed)) (\<lambda>_.
       andthen (ensure Transition_invalid (b_starts_at b > now)) (\<lambda>_.
       andthen (cancel_booking tn bid now By_owner [Confirmed] (Some now) s) (\<lambda>(s1, updated).
       andthen (need Transition_invalid updated) (\<lambda>b'.
       andthen (ensure Transition_invalid (b_status b' = Cancelled)) (\<lambda>_.
       andthen (cancel_pending tn bid Reminder s1) (\<lambda>(s2, _).
       Inr (record_audit tn Booking_cancelled (Some bid) s2,
         \<lparr>om_booking = b', om_changed = True, om_token = None\<rparr>))))))))"

section \<open>Moving an appointment\<close>

text \<open>\<open>max(occupied, default=0) + 1\<close>\<close>

definition seat_above :: "int list \<Rightarrow> int" where
  "seat_above occupied = (case occupied of [] \<Rightarrow> 0 | x # xs \<Rightarrow> fold max xs x) + 1"

definition holds_a_paid_deposit :: "uuid \<Rightarrow> uuid \<Rightarrow> db \<Rightarrow> bool" where
  "holds_a_paid_deposit tn bid s =
     (case by_booking_ids tn [bid] s bid of None \<Rightarrow> False | Some p \<Rightarrow> p_status p = Paid)"

definition restore :: "uuid \<Rightarrow> uuid \<Rightarrow> instant \<Rightarrow> instant \<Rightarrow> db \<Rightarrow> error + db" where
  "restore tn bid starts_at now s =
     andthen (rebind tn bid (seat_above (active_seats_at tn starts_at s)) [Cancelled] now s)
       (\<lambda>(s1, restored). andthen (need Transition_invalid restored) (\<lambda>_. Inr s1))"

text \<open>An IntegrityError becomes \<open>SlotUnavailableError\<close>; anything else passes.\<close>

definition as_slot_unavailable :: "error + 'a \<Rightarrow> error + 'a" where
  "as_slot_unavailable r = (case r of Inl Integrity_error \<Rightarrow> Inl Slot_unavailable | _ \<Rightarrow> r)"

definition reschedule_in_session ::
  "env \<Rightarrow> uuid \<Rightarrow> uuid \<Rightarrow> instant \<Rightarrow> utext \<Rightarrow> instant \<Rightarrow> db \<Rightarrow> error + db \<times> owner_mutation" where
  "reschedule_in_session e tn bid new_starts_at minted now s =
     andthen (need Booking_not_found (booking_by_id tn bid s)) (\<lambda>b.
     andthen (ensure Transition_invalid (b_status b \<in> {Confirmed, Cancelled})) (\<lambda>_.
     andthen (ensure Transition_invalid (b_starts_at b > now)) (\<lambda>_.
     let restoring = (b_status b = Cancelled) in
     andthen (ensure Transition_invalid (\<not> (restoring \<and> \<not> holds_a_paid_deposit tn bid s))) (\<lambda>_.
     if new_starts_at = b_starts_at b \<and> \<not> restoring
     then Inr (s, \<lparr>om_booking = b, om_changed = False, om_token = None\<rparr>)
     else
       andthen (need Slot_unavailable (offered_slot e tn new_starts_at now s)) (\<lambda>slot.
       andthen (ensure Customer_already_booked (active_at tn (b_customer b) (s_starts_at slot) s = None)) (\<lambda>_.
       andthen (need Slot_unavailable
                  (lowest_free (s_capacity slot) (active_seats_at tn (s_starts_at slot) s))) (\<lambda>seat.
       andthen (as_slot_unavailable
         (andthen (if restoring then restore tn bid (b_starts_at b) now s else Inr s) (\<lambda>s1.
          reschedule tn bid (s_starts_at slot) seat now s1))) (\<lambda>(s2, updated).
       andthen (need Transition_invalid updated) (\<lambda>b'.
       andthen (upsert_reminder e tn bid (s_starts_at slot) now None minted s2) (\<lambda>(s3, _).
       Inr (record_audit tn Booking_rescheduled (Some bid) s3,
         \<lparr>om_booking = b', om_changed = True, om_token = None\<rparr>)))))))))))"

text \<open>The texts of the console share one budget, spent only on a success that sends.\<close>

definition owner_reschedule ::
  "env \<Rightarrow> limiter_cfg \<Rightarrow> uuid \<Rightarrow> uuid \<Rightarrow> instant \<Rightarrow> utext \<Rightarrow> int \<Rightarrow> instant \<Rightarrow> db \<times> limiter_key limiter
   \<Rightarrow> (db \<times> limiter_key limiter) \<times> (error + owner_mutation)" where
  "owner_reschedule e cfg tn bid new_starts_at minted tick now st =
     (let (s, l) = st in
      if \<not> (now < new_starts_at \<and> new_starts_at \<le> now + BOOKABLE_HORIZON) then (st, Inl Slot_unavailable)
      else if is_blocked cfg l tick (Owner_sms_key tn) then (st, Inl Resend_throttled)
      else
        case reschedule_in_session e tn bid new_starts_at minted now s of
          Inl err \<Rightarrow> (st, Inl err)
        | Inr (s', m) \<Rightarrow>
            if om_changed m then ((s', record_failure cfg l tick tick (Owner_sms_key tn)), Inr m)
            else ((s', l), Inr m))"

section \<open>Links\<close>

definition guard_live :: "uuid \<Rightarrow> uuid \<Rightarrow> instant \<Rightarrow> db \<Rightarrow> error + booking" where
  "guard_live tn bid now s =
     andthen (need Booking_not_found (booking_by_id tn bid s)) (\<lambda>b.
     andthen (ensure Transition_invalid (b_status b = Confirmed)) (\<lambda>_.
     andthen (ensure Transition_invalid (b_starts_at b > now)) (\<lambda>_. Inr b)))"

text \<open>\<open>pending.manage_token = token\<close> on the pending reminder, when there is one.\<close>

definition retoken_pending :: "uuid \<Rightarrow> uuid \<Rightarrow> utext \<Rightarrow> db \<Rightarrow> db" where
  "retoken_pending tn bid token s =
     (case pending_for_booking tn bid Reminder s of
        None \<Rightarrow> s
      | Some _ \<Rightarrow>
          s\<lparr>d_messages := update_where (pending_about tn bid Reminder) (\<lambda>m. m\<lparr>m_token := Some token\<rparr>)
              (d_messages s)\<rparr>)"

text \<open>\<open>mint\<close> gives the token drawn for each booking.\<close>

fun rotate_links ::
  "env \<Rightarrow> uuid \<Rightarrow> (uuid \<Rightarrow> utext) \<Rightarrow> instant \<Rightarrow> booking list \<Rightarrow> db \<Rightarrow> error + db" where
  "rotate_links e tn mint now [] s = Inr s"
| "rotate_links e tn mint now (b # bs) s =
     andthen (set_manage_token_hash tn (b_id b) (e_hash e (mint (b_id b))) (Some [Confirmed]) (Some now) s)
       (\<lambda>(s1, rotated).
     andthen (need Transition_invalid rotated) (\<lambda>_.
     rotate_links e tn mint now bs (retoken_pending tn (b_id b) (mint (b_id b)) s1)))"

text \<open>The loaded row after the statements of its session: an ORM update stamps it.\<close>

definition synced :: "uuid \<Rightarrow> booking \<Rightarrow> db \<Rightarrow> booking" where
  "synced tn b s = (case booking_by_id tn (b_id b) s of None \<Rightarrow> b | Some b' \<Rightarrow> b')"

text \<open>The two branches of a correction: the booking moves to the customer who holds the number, or the
  number is written over her own. Both answer the rows whose links must be rotated.\<close>

definition rewrite_number :: "uuid \<Rightarrow> booking \<Rightarrow> utext \<Rightarrow> instant \<Rightarrow> db \<Rightarrow> error + db \<times> booking list" where
  "rewrite_number tn b phone now s =
     (case set_phone tn (b_customer b) phone s of
        Inl _ \<Rightarrow> Inl Transition_invalid
      | Inr (s1, written) \<Rightarrow>
          andthen (need Booking_not_found written) (\<lambda>_.
          Inr (s1, list_live_for_customer tn (b_customer b) now s1)))"

definition repoint :: "uuid \<Rightarrow> booking \<Rightarrow> customer \<Rightarrow> instant \<Rightarrow> db \<Rightarrow> error + db \<times> booking list" where
  "repoint tn b target now s =
     andthen (ensure Customer_already_booked (active_at tn (c_id target) (b_starts_at b) s = None)) (\<lambda>_.
     case set_customer_id tn (b_id b) (c_id target) [Confirmed] now s of
       Inl _ \<Rightarrow> Inl Customer_already_booked
     | Inr (s1, moved) \<Rightarrow> andthen (need Transition_invalid moved) (\<lambda>_. Inr (s1, [b])))"

definition correct_number :: "uuid \<Rightarrow> booking \<Rightarrow> utext \<Rightarrow> instant \<Rightarrow> db \<Rightarrow> error + db \<times> booking list" where
  "correct_number tn b phone now s =
     (case customer_by_phone tn phone s of
        None \<Rightarrow> rewrite_number tn b phone now s
      | Some target \<Rightarrow>
          if c_id target \<noteq> b_customer b then repoint tn b target now s
          else rewrite_number tn b phone now s)"

definition correct_phone_in_session ::
  "env \<Rightarrow> uuid \<Rightarrow> uuid \<Rightarrow> utext \<Rightarrow> (uuid \<Rightarrow> utext) \<Rightarrow> instant \<Rightarrow> db \<Rightarrow> error + db \<times> owner_mutation" where
  "correct_phone_in_session e tn bid phone mint now s =
     andthen (guard_live tn bid now s) (\<lambda>b.
     andthen (correct_number tn b phone now s) (\<lambda>(s1, rotate).
     andthen (rotate_links e tn mint now rotate s1) (\<lambda>s2.
     andthen (ensure Key_error (bid \<in> set (map b_id rotate))) (\<lambda>_.
     Inr (record_audit tn Booking_phone_corrected (Some bid) s2,
       \<lparr>om_booking = synced tn b s2, om_changed = True, om_token = Some (mint bid)\<rparr>)))))"

definition correct_phone ::
  "env \<Rightarrow> limiter_cfg \<Rightarrow> uuid \<Rightarrow> uuid \<Rightarrow> utext \<Rightarrow> (uuid \<Rightarrow> utext) \<Rightarrow> int \<Rightarrow> instant \<Rightarrow> db \<times> limiter_key limiter
   \<Rightarrow> (db \<times> limiter_key limiter) \<times> (error + owner_mutation)" where
  "correct_phone e cfg tn bid raw mint tick now st =
     (let (s, l) = st in
      case normalize_israeli_mobile raw of
        None \<Rightarrow> (st, Inl Phone_invalid)
      | Some phone \<Rightarrow>
          if is_blocked cfg l tick (Owner_sms_key tn) then (st, Inl Resend_throttled)
          else
            (case correct_phone_in_session e tn bid phone mint now s of
               Inl err \<Rightarrow> (st, Inl err)
             | Inr (s', m) \<Rightarrow> ((s', record_failure cfg l tick tick (Owner_sms_key tn)), Inr m)))"

definition resend_link_in_session ::
  "env \<Rightarrow> uuid \<Rightarrow> uuid \<Rightarrow> (uuid \<Rightarrow> utext) \<Rightarrow> instant \<Rightarrow> db \<Rightarrow> error + db \<times> owner_mutation" where
  "resend_link_in_session e tn bid mint now s =
     andthen (guard_live tn bid now s) (\<lambda>b.
     andthen (rotate_links e tn mint now [b] s) (\<lambda>s1.
     Inr (record_audit tn Booking_link_resent (Some bid) s1,
       \<lparr>om_booking = synced tn b s1, om_changed = True, om_token = Some (mint bid)\<rparr>)))"

definition resend_link ::
  "env \<Rightarrow> limiter_cfg \<Rightarrow> uuid \<Rightarrow> uuid \<Rightarrow> (uuid \<Rightarrow> utext) \<Rightarrow> int \<Rightarrow> instant \<Rightarrow> db \<times> limiter_key limiter
   \<Rightarrow> (db \<times> limiter_key limiter) \<times> (error + owner_mutation)" where
  "resend_link e cfg tn bid mint tick now st =
     (let (s, l) = st in
      if is_blocked cfg l tick (Owner_sms_key tn) then (st, Inl Resend_throttled)
      else
        (case resend_link_in_session e tn bid mint now s of
           Inl err \<Rightarrow> (st, Inl err)
         | Inr (s', m) \<Rightarrow> ((s', record_failure cfg l tick tick (Owner_sms_key tn)), Inr m)))"

section \<open>Status transitions\<close>

lemma booking_by_id_audit [simp]: "booking_by_id tn bid (record_audit tn' act i s) = booking_by_id tn bid s"
  by (simp add: booking_by_id_def)

lemma active_seats_same [simp]:
  "active_seats_at t at (record_audit tn act i s) = active_seats_at t at s"
  "active_seats_at t at (unremind tn bid s) = active_seats_at t at s"
  by (simp_all add: active_seats_at_def)

text \<open>The three transitions as one function of the row: what it may become, and from where.\<close>

lemma owner_transition_run:
  assumes "db_ok s" "to \<noteq> Cancelled" "Cancelled \<notin> set frm"
  shows "owner_transition tn bid to frm act past_only now s =
    (case booking_by_id tn bid s of
       None \<Rightarrow> Inl Booking_not_found
     | Some b \<Rightarrow>
         if b_status b = to then Inr (s, \<lparr>om_booking = b, om_changed = False, om_token = None\<rparr>)
         else if b_status b \<in> set frm \<and> (past_only \<longrightarrow> b_starts_at b \<le> now)
         then Inr (record_audit tn act (Some bid) (write_booking tn bid (\<lambda>b. b\<lparr>b_status := to\<rparr>) s),
                \<lparr>om_booking = b\<lparr>b_status := to\<rparr>, om_changed = True, om_token = None\<rparr>)
         else Inl Transition_invalid)"
proof (cases "booking_by_id tn bid s")
  case None
  then show ?thesis by (simp add: owner_transition_def)
next
  case (Some b)
  then show ?thesis
    using set_status_run [OF db_okD(1) [OF assms(1)], of frm to tn bid None "if past_only then Some now else None"]
      assms(2,3)
    by (auto simp: owner_transition_def when_given_def ensure_def not_less)
qed

lemma status_write_safe:
  assumes "db_ok s" "booking_by_id tn bid s = Some b" "b_status b \<noteq> Cancelled" "to \<noteq> Cancelled"
  defines "s' \<equiv> write_booking tn bid (\<lambda>b. b\<lparr>b_status := to\<rparr>) s"
  shows "db_ok s'" "active_seats_at t at s' = active_seats_at t at s"
    "booking_by_id tn bid s' = Some (b\<lparr>b_status := to\<rparr>)"
proof -
  obtain pre post where rows: "d_bookings s = pre @ b # post"
    "update_where (bk.named tn bid) (\<lambda>b. b\<lparr>b_status := to\<rparr>) (d_bookings s) = pre @ b\<lparr>b_status := to\<rparr> # post"
    using bk.one_row [OF db_okD(1) [OF assms(1)] assms(2) [unfolded booking_by_id_fetch]] by blast
  show "db_ok s'"
    unfolding s'_def
    by (rule db_ok_hold [OF assms(1,2), where g = "\<lambda>b. b_status b \<noteq> Cancelled"])
      (use assms(3) in \<open>auto simp: place_defs\<close>)
  show "active_seats_at t at s' = active_seats_at t at s"
    using rows assms(3,4) by (simp add: s'_def active_seats_at_def names_booking_named seated_at_def)
  show "booking_by_id tn bid s' = Some (b\<lparr>b_status := to\<rparr>)"
    using assms(2) by (simp add: s'_def booking_by_id_write)
qed

text \<open>The console's status matrix. Confirming, marking a no-show and completing move a booking
  among Confirmed, No_show and Completed only: a deposit still owed or a cancellation is refused, and so
  is the outcome of a visit that has not started. Repeating one changes nothing, and none of the three
  gives away or takes a seat.\<close>

theorem owner_status_matrix:
  assumes "db_ok s" "booking_by_id tn bid s = Some b"
    and "(op, to, past) \<in> {(owner_confirm, Confirmed, False), (owner_no_show, No_show, True),
           (owner_complete, Completed, True)}"
  shows "if b_status b = to then op tn bid now s = Inr (s, \<lparr>om_booking = b, om_changed = False, om_token = None\<rparr>)
     else if b_status b \<in> {Pending_payment, Cancelled} \<or> (past \<and> now < b_starts_at b)
     then op tn bid now s = Inl Transition_invalid
     else \<exists>s'. op tn bid now s = Inr (s', \<lparr>om_booking = b\<lparr>b_status := to\<rparr>, om_changed = True, om_token = None\<rparr>)
       \<and> booking_by_id tn bid s' = Some (b\<lparr>b_status := to\<rparr>) \<and> db_ok s'
       \<and> (\<forall>t at. active_seats_at t at s' = active_seats_at t at s)"
proof -
  define frm where "frm = (if to = Confirmed then [No_show, Completed]
    else if to = No_show then [Confirmed, Completed] else [Confirmed, No_show])"
  have to: "to \<noteq> Cancelled" "Cancelled \<notin> set frm" and past: "past \<longleftrightarrow> to \<noteq> Confirmed"
    using assms(3) by (auto simp: frm_def)
  obtain act where run: "op tn bid now s = owner_transition tn bid to frm act past now s"
    using assms(3) by (auto simp: frm_def owner_confirm_def owner_no_show_def owner_complete_def)
  have frm_iff: "b_status b \<in> set frm \<longleftrightarrow> b_status b \<notin> {Pending_payment, Cancelled} \<and> b_status b \<noteq> to"
    using assms(3) by (cases "b_status b") (auto simp: frm_def)
  note t = owner_transition_run [OF assms(1) to, of tn bid act past now]
  show ?thesis
  proof (cases "b_status b \<in> set frm \<and> (past \<longrightarrow> b_starts_at b \<le> now)")
    case True
    then have "b_status b \<noteq> Cancelled" using frm_iff by simp
    note w = status_write_safe [OF assms(1,2) this to(1)]
    show ?thesis using True frm_iff w t assms(2) by (auto simp: run)
  next
    case False
    then show ?thesis using frm_iff t assms(2) by (auto simp: run)
  qed
qed

theorem owner_status_matrix_witness:
  "owner_no_show 4 6 (hours 8) (shop_db\<lparr>d_bookings := [waiting_booking]\<rparr>) = Inl Transition_invalid
   \<and> (\<exists>s'. owner_complete 4 6 (hours 8) (shop_db\<lparr>d_bookings := [waiting_booking\<lparr>b_status := Confirmed\<rparr>]\<rparr>)
        = Inr (s', \<lparr>om_booking = waiting_booking\<lparr>b_status := Completed\<rparr>, om_changed = True, om_token = None\<rparr>))"
proof -
  let ?s1 = "shop_db\<lparr>d_bookings := [waiting_booking]\<rparr>"
  let ?s2 = "shop_db\<lparr>d_bookings := [waiting_booking\<lparr>b_status := Confirmed\<rparr>]\<rparr>"
  have ok: "db_ok ?s2" by code_simp
  have b: "booking_by_id 4 6 ?s2 = Some (waiting_booking\<lparr>b_status := Confirmed\<rparr>)" by code_simp
  have v: "b_status waiting_booking = Pending_payment" "b_starts_at waiting_booking = hours 7" "hours 7 < hours 8"
    by (simp_all add: waiting_booking_def duration_defs)
  note no_show = owner_status_matrix [OF waiting_ok waiting_found, of owner_no_show No_show True "hours 8"]
  note complete = owner_status_matrix [OF ok b, of owner_complete Completed True "hours 8"]
  show ?thesis using no_show complete v by auto
qed

section \<open>Arrivals\<close>

text \<open>Checking a bride in is stamped once. Whoever checks her in, a second check-in answers the
  first stamp and writes nothing, only a confirmed booking is stamped, and undoing takes exactly the
  stamp away.\<close>

theorem first_arrival_kept:
  assumes "db_ok s" "owner_check_in tn bid now s = Inr (s1, m)"
  shows "\<exists>b at. booking_by_id tn bid s1 = Some b \<and> om_booking m = b \<and> b_checked_in_at b = Some at \<and> db_ok s1
     \<and> (om_changed m \<longrightarrow> at = now \<and> b_status b = Confirmed)
     \<and> (\<not> om_changed m \<longrightarrow> s1 = s)
     \<and> (\<forall>later. owner_check_in tn bid later s1 = Inr (s1, \<lparr>om_booking = b, om_changed = False, om_token = None\<rparr>))
     \<and> (\<exists>s2. owner_undo_check_in tn bid s1
           = Inr (s2, \<lparr>om_booking = b\<lparr>b_checked_in_at := None\<rparr>, om_changed = True, om_token = None\<rparr>)
          \<and> booking_by_id tn bid s2 = Some (b\<lparr>b_checked_in_at := None\<rparr>) \<and> db_ok s2)"
proof -
  obtain b0 where b0: "booking_by_id tn bid s = Some b0"
    using assms(2) by (auto simp: owner_check_in_def handler_simps)
  have "\<exists>b at. booking_by_id tn bid s1 = Some b \<and> om_booking m = b \<and> b_checked_in_at b = Some at \<and> db_ok s1
     \<and> (om_changed m \<longrightarrow> at = now \<and> b_status b = Confirmed) \<and> (\<not> om_changed m \<longrightarrow> s1 = s)"
  proof (cases "b_checked_in_at b0")
    case (Some t)
    with assms b0 show ?thesis by (auto simp: owner_check_in_def)
  next
    case None
    with assms(2) b0 have c: "b_status b0 = Confirmed" by (auto simp: owner_check_in_def handler_simps)
    let ?f = "\<lambda>b. b\<lparr>b_checked_in_at := Some now\<rparr>"
    have "db_ok (write_booking tn bid ?f s)"
      by (rule db_ok_hold [OF assms(1) b0, where g = "\<lambda>_. True"]) (auto simp: place_defs)
    moreover have "s1 = record_audit tn Booking_checked_in (Some bid) (write_booking tn bid ?f s)"
      "m = \<lparr>om_booking = ?f b0, om_changed = True, om_token = None\<rparr>"
      using assms(2) b0 None c check_in_run [OF db_okD(1) [OF assms(1)], of tn bid now]
      by (simp_all add: owner_check_in_def)
    ultimately show ?thesis using b0 c by (simp add: booking_by_id_audit booking_by_id_write)
  qed
  then obtain b at where b: "booking_by_id tn bid s1 = Some b" "om_booking m = b" "b_checked_in_at b = Some at"
    "db_ok s1" "om_changed m \<longrightarrow> at = now \<and> b_status b = Confirmed" "\<not> om_changed m \<longrightarrow> s1 = s" by blast
  let ?g = "\<lambda>b. b\<lparr>b_checked_in_at := None\<rparr>"
  have "db_ok (write_booking tn bid ?g s1)"
    by (rule db_ok_hold [OF b(4,1), where g = "\<lambda>_. True"]) (auto simp: place_defs)
  then have undo: "\<exists>s2. owner_undo_check_in tn bid s1
           = Inr (s2, \<lparr>om_booking = ?g b, om_changed = True, om_token = None\<rparr>)
          \<and> booking_by_id tn bid s2 = Some (?g b) \<and> db_ok s2"
    using b(1,3) undo_check_in_run [OF db_okD(1) [OF b(4)], of tn bid]
    by (simp add: owner_undo_check_in_def booking_by_id_audit booking_by_id_write)
  have "owner_check_in tn bid later s1 = Inr (s1, \<lparr>om_booking = b, om_changed = False, om_token = None\<rparr>)" for later
    using b by (simp add: owner_check_in_def)
  with b undo show ?thesis by blast
qed

theorem first_arrival_kept_witness:
  "\<exists>s1 m. owner_check_in 4 6 5 (shop_db\<lparr>d_bookings := [waiting_booking\<lparr>b_status := Confirmed\<rparr>]\<rparr>) = Inr (s1, m)
     \<and> om_changed m
     \<and> (\<exists>b. owner_check_in 4 6 9 s1 = Inr (s1, \<lparr>om_booking = b, om_changed = False, om_token = None\<rparr>)
          \<and> b_checked_in_at b = Some 5)"
proof -
  let ?s = "shop_db\<lparr>d_bookings := [waiting_booking\<lparr>b_status := Confirmed\<rparr>]\<rparr>"
  let ?run = "owner_check_in 4 6 5 ?s"
  have ok: "db_ok ?s" by code_simp
  have "(case ?run of Inl _ \<Rightarrow> False | Inr r \<Rightarrow> om_changed (snd r))" by code_simp
  then obtain s1 m where run: "?run = Inr (s1, m)" "om_changed m" by (auto split: sum.splits)
  from first_arrival_kept [OF ok run(1)] run show ?thesis by blast
qed

section \<open>Cancelling\<close>

lemma owner_cancel_run:
  assumes "db_ok s" "booking_by_id tn bid s = Some b" "b_status b = Confirmed" "now < b_starts_at b"
  defines "f \<equiv> \<lambda>b. b\<lparr>b_status := Cancelled, b_cancelled_at := Some now, b_cancelled_by := Some By_owner\<rparr>"
  shows "owner_cancel tn bid now s =
      Inr (record_audit tn Booking_cancelled (Some bid) (unremind tn bid (write_booking tn bid f s)),
        \<lparr>om_booking = f b, om_changed = True, om_token = None\<rparr>)"
    and "db_ok (write_booking tn bid f s)"
proof -
  show ok: "db_ok (write_booking tn bid f s)"
    by (rule db_ok_hold [OF assms(1,2), where g = "\<lambda>_. True"]) (auto simp: place_defs f_def bk.keeps_name_def)
  show "owner_cancel tn bid now s =
      Inr (record_audit tn Booking_cancelled (Some bid) (unremind tn bid (write_booking tn bid f s)),
        \<lparr>om_booking = f b, om_changed = True, om_token = None\<rparr>)"
    using cancel_booking_run [OF db_okD(1) [OF assms(1)], of tn bid now By_owner "[Confirmed]" "Some now"]
      cancel_pending_run [OF db_okD(3) [OF ok], of tn bid Reminder] assms(2-4)
    by (simp add: owner_cancel_def f_def when_given_def unremind_def)
qed

text \<open>C25. The owner's cancellation frees exactly the seat it cancels and silences the booking: the
  reminder that was waiting is gone, every other seat of every shop is as it was, and cancelling again
  changes nothing. It is refused for a booking that has started or is in any other status.\<close>

theorem owner_cancel_frees_seat:
  assumes "db_ok s" "booking_by_id tn bid s = Some b"
  shows "if b_status b = Cancelled
     then owner_cancel tn bid now s = Inr (s, \<lparr>om_booking = b, om_changed = False, om_token = None\<rparr>)
     else if b_status b \<noteq> Confirmed \<or> b_starts_at b \<le> now then owner_cancel tn bid now s = Inl Transition_invalid
     else \<exists>s' b'. owner_cancel tn bid now s = Inr (s', \<lparr>om_booking = b', om_changed = True, om_token = None\<rparr>)
       \<and> b_status b' = Cancelled \<and> b_cancelled_by b' = Some By_owner \<and> db_ok s'
       \<and> booking_by_id tn bid s' = Some b' \<and> pending_for_booking tn bid Reminder s' = None
       \<and> (\<forall>t at. set (active_seats_at t at s') =
            set (active_seats_at t at s) - (if t = tn \<and> at = b_starts_at b then {b_seat b} else {}))
       \<and> (\<forall>now'. owner_cancel tn bid now' s' = Inr (s', \<lparr>om_booking = b', om_changed = False, om_token = None\<rparr>))"
proof (cases "b_status b = Confirmed \<and> now < b_starts_at b")
  case False
  then show ?thesis using assms(2) by (auto simp: owner_cancel_def ensure_def not_less)
next
  case True
  let ?f = "\<lambda>b. b\<lparr>b_status := Cancelled, b_cancelled_at := Some now, b_cancelled_by := Some By_owner\<rparr>"
  let ?w = "write_booking tn bid ?f s"
  let ?s' = "record_audit tn Booking_cancelled (Some bid) (unremind tn bid ?w)"
  note run = owner_cancel_run [OF assms(1,2) True [THEN conjunct1] True [THEN conjunct2]]
  note u = unremind_ok(3) [OF db_okD(3) [OF run(2)], of tn bid]
  have seated: "seated_at t at b \<longleftrightarrow> t = tn \<and> at = b_starts_at b" for t at
    using booking_by_id_SomeD [OF assms(2)] True by (auto simp: seated_at_def)
  have seats: "set (active_seats_at t at ?s') =
      set (active_seats_at t at s) - (if t = tn \<and> at = b_starts_at b then {b_seat b} else {})" for t at
    using cancel_frees [OF db_okD(1) [OF assms(1)] assms(2), of ?f t at] by (simp add: seated)
  have by_id: "booking_by_id tn bid ?s' = Some (?f b)"
    using booking_by_id_write [of ?f tn bid tn bid s] assms(2) by (simp add: booking_by_id_def)
  have pend: "pending_for_booking tn bid Reminder ?s' = None"
    using u by (simp add: pending_for_booking_def find_None_iff)
  have idem: "owner_cancel tn bid now' ?s' = Inr (?s', \<lparr>om_booking = ?f b, om_changed = False, om_token = None\<rparr>)" for now'
    unfolding owner_cancel_def by_id by simp
  have "db_ok ?s'" using db_ok_unremind [OF run(2)] by simp
  moreover have "\<not> (b_status b \<noteq> Confirmed \<or> b_starts_at b \<le> now)" "b_status b \<noteq> Cancelled" using True by auto
  ultimately show ?thesis
    using run(1) seats by_id pend idem by (auto intro!: exI [of _ ?s'] exI [of _ "?f b"])
qed

theorem owner_cancel_frees_seat_witness:
  "\<exists>s'. owner_cancel 4 6 5 (shop_db\<lparr>d_bookings := [waiting_booking\<lparr>b_status := Confirmed\<rparr>]\<rparr>)
       = Inr (s', \<lparr>om_booking = waiting_booking\<lparr>b_status := Cancelled, b_cancelled_at := Some 5,
           b_cancelled_by := Some By_owner\<rparr>, om_changed = True, om_token = None\<rparr>)
     \<and> db_ok s'"
proof -
  let ?s = "shop_db\<lparr>d_bookings := [waiting_booking\<lparr>b_status := Confirmed\<rparr>]\<rparr>"
  have ok: "db_ok ?s" and b: "booking_by_id 4 6 ?s = Some (waiting_booking\<lparr>b_status := Confirmed\<rparr>)" by code_simp+
  have v: "5 < b_starts_at waiting_booking" by (simp add: waiting_booking_def duration_defs)
  show ?thesis using owner_cancel_frees_seat [OF ok b, of 5] owner_cancel_run(1) [OF ok b, of 5] v by auto
qed

text \<open>What a cancelled deposit owes back is never negative and never more than was paid, is all of
  it until the policy's deadline, and never grows as the visit gets closer.\<close>

theorem refund_bounds:
  assumes "0 \<le> amount" "0 \<le> percent" "percent \<le> 100"
  shows "0 \<le> refund_due_agorot amount starts at until percent
     \<and> refund_due_agorot amount starts at until percent \<le> amount
     \<and> (at \<le> starts - hours until \<longrightarrow> refund_due_agorot amount starts at until percent = amount)
     \<and> (\<forall>later \<ge> at. refund_due_agorot amount starts later until percent
          \<le> refund_due_agorot amount starts at until percent)"
proof -
  have "0 \<le> amount * percent div 100" "amount * percent div 100 \<le> amount"
    using assms mult_left_mono [OF assms(3,1)] by (simp_all add: pos_imp_zdiv_nonneg_iff)
  then show ?thesis by (auto simp: refund_due_agorot_def)
qed

theorem refund_bounds_witness:
  "refund_due_agorot 301 (hours 50) 0 48 50 = 301 \<and> refund_due_agorot 301 (hours 50) (hours 3) 48 50 = 151
   \<and> refund_due_agorot 301 (hours 50) (hours 3) 48 50 \<le> 301"
  using refund_bounds [of 301 50 "hours 50" "hours 3" 48] by (simp add: refund_due_agorot_def duration_defs)

section \<open>Moving an appointment\<close>

lemma as_slot_unavailable_Inr [simp]: "as_slot_unavailable r = Inr x \<longleftrightarrow> r = Inr x"
  by (auto simp: as_slot_unavailable_def split: sum.splits error.splits)

lemma restore_Inr:
  assumes "db_ok s" "restore tn bid starts_at now s = Inr s1" "booking_by_id tn bid s = Some b"
  obtains seat where
    "s1 = write_booking tn bid (\<lambda>b. b\<lparr>b_status := Confirmed, b_seat := seat, b_cancelled_at := None,
       b_cancelled_by := None\<rparr>) s" "db_ok s1"
proof -
  let ?f = "\<lambda>b. b\<lparr>b_status := Confirmed, b_seat := seat_above (active_seats_at tn starts_at s),
      b_cancelled_at := None, b_cancelled_by := None\<rparr>"
  have "s1 = write_booking tn bid ?f s \<and> bookings_ok (d_bookings (write_booking tn bid ?f s))"
    using assms(2,3)
    by (auto simp: restore_def rebind_run [OF db_okD(1) [OF assms(1)]] Let_def split: if_splits)
  with db_ok_write_booking [OF assms(1), of ?f tn bid] that show ?thesis
    by (auto simp: bk.keeps_name_def)
qed

lemma write_write:
  assumes "bk.keeps_name f"
  shows "write_booking tn bid g (write_booking tn bid f s) = write_booking tn bid (\<lambda>b. g (f b)) s"
proof -
  have "names_booking tn bid (f x) = names_booking tn bid x" for x
    using assms by (simp add: names_booking_def bk.keeps_name_def)
  then show ?thesis by (simp add: write_booking_def update_where_def comp_def cong: if_cong)
qed

text \<open>What a move writes: one row, whether or not it was cancelled.\<close>

definition moved_row :: "instant \<Rightarrow> int \<Rightarrow> bool \<Rightarrow> booking \<Rightarrow> booking" where
  "moved_row at seat restoring b =
     (if restoring
      then b\<lparr>b_status := Confirmed, b_cancelled_at := None, b_cancelled_by := None, b_starts_at := at, b_seat := seat\<rparr>
      else b\<lparr>b_starts_at := at, b_seat := seat\<rparr>)"

lemma moved_row_keeps [simp]: "bk.keeps_name (moved_row at seat r)"
  by (simp add: bk.keeps_name_def moved_row_def)

lemma move_written:
  assumes ok: "db_ok s" and b: "booking_by_id tn bid s = Some b"
    and restored: "(if b_status b = Cancelled then restore tn bid (b_starts_at b) now s else Inr s) = Inr s1"
    and moved: "reschedule tn bid at seat now s1 = Inr (s2, Some b')"
  shows "s2 = write_booking tn bid (moved_row at seat (b_status b = Cancelled)) s"
    "b' = moved_row at seat (b_status b = Cancelled) b" "db_ok s2"
proof -
  let ?m = "moved_row at seat (b_status b = Cancelled)"
  have *: "s2 = write_booking tn bid ?m s \<and> b' = ?m b \<and> db_ok s2"
  proof (cases "b_status b = Cancelled")
    case False
    with restored have "s1 = s" by simp
    with moved b False show ?thesis
      using db_ok_write_booking [OF ok, of "?m" tn bid]
      by (auto simp: reschedule_run [OF db_okD(1) [OF ok]] Let_def moved_row_def [abs_def] bk.keeps_name_def
          split: if_splits)
  next
    case True
    with restored have "restore tn bid (b_starts_at b) now s = Inr s1" by simp
    then obtain st where s1: "s1 = write_booking tn bid (\<lambda>b. b\<lparr>b_status := Confirmed, b_seat := st,
        b_cancelled_at := None, b_cancelled_by := None\<rparr>) s" and ok1: "db_ok s1"
      using restore_Inr [OF ok _ b] by blast
    let ?g = "\<lambda>b. b\<lparr>b_status := Confirmed, b_seat := st, b_cancelled_at := None, b_cancelled_by := None\<rparr>"
    have b1: "booking_by_id tn bid s1 = Some (?g b)" by (simp add: s1 booking_by_id_write b bk.keeps_name_def)
    have "s2 = write_booking tn bid (\<lambda>b. b\<lparr>b_starts_at := at, b_seat := seat\<rparr>) s1"
      "b' = (?g b)\<lparr>b_starts_at := at, b_seat := seat\<rparr>"
      "bookings_ok (d_bookings (write_booking tn bid (\<lambda>b. b\<lparr>b_starts_at := at, b_seat := seat\<rparr>) s1))"
      using moved b1 by (auto simp: reschedule_run [OF db_okD(1) [OF ok1]] Let_def split: if_splits)
    moreover from this have "db_ok s2"
      using db_ok_write_booking [OF ok1, of "\<lambda>b. b\<lparr>b_starts_at := at, b_seat := seat\<rparr>" tn bid] by simp
    moreover have "write_booking tn bid (\<lambda>b. b\<lparr>b_starts_at := at, b_seat := seat\<rparr>) s1 = write_booking tn bid ?m s"
      unfolding s1 using True by (subst write_write) (simp_all add: bk.keeps_name_def moved_row_def [abs_def])
    ultimately show ?thesis using True by (simp add: moved_row_def)
  qed
  from * show "s2 = write_booking tn bid ?m s" "b' = ?m b" "db_ok s2" by blast+
qed

lemma reschedule_in_session_Inr:
  assumes ok: "db_ok s" and run: "reschedule_in_session e tn bid at minted now s = Inr (s', m)" and ch: "om_changed m"
  obtains b sl seat s3 r where "booking_by_id tn bid s = Some b" "b_status b \<in> {Confirmed, Cancelled}"
    "now < b_starts_at b" "b_status b = Cancelled \<longrightarrow> holds_a_paid_deposit tn bid s"
    "b_status b = Confirmed \<longrightarrow> at \<noteq> b_starts_at b"
    "offered_slot e tn at now s = Some sl" "active_at tn (b_customer b) at s = None"
    "lowest_free (s_capacity sl) (active_seats_at tn at s) = Some seat"
    "db_ok (write_booking tn bid (moved_row at seat (b_status b = Cancelled)) s)"
    "upsert_reminder e tn bid at now None minted (write_booking tn bid (moved_row at seat (b_status b = Cancelled)) s)
       = Inr (s3, r)"
    "s' = record_audit tn Booking_rescheduled (Some bid) s3"
    "om_booking m = moved_row at seat (b_status b = Cancelled) b"
proof -
  obtain b where b: "booking_by_id tn bid s = Some b"
    and st: "b_status b \<in> {Confirmed, Cancelled}" and fut: "now < b_starts_at b"
    and paid: "b_status b = Cancelled \<longrightarrow> holds_a_paid_deposit tn bid s"
    and rest: "(if at = b_starts_at b \<and> \<not> b_status b = Cancelled
     then Inr (s, \<lparr>om_booking = b, om_changed = False, om_token = None\<rparr>)
     else
       andthen (need Slot_unavailable (offered_slot e tn at now s)) (\<lambda>slot.
       andthen (ensure Customer_already_booked (active_at tn (b_customer b) (s_starts_at slot) s = None)) (\<lambda>_.
       andthen (need Slot_unavailable
                  (lowest_free (s_capacity slot) (active_seats_at tn (s_starts_at slot) s))) (\<lambda>seat.
       andthen (as_slot_unavailable
         (andthen (if b_status b = Cancelled then restore tn bid (b_starts_at b) now s else Inr s) (\<lambda>s1.
          reschedule tn bid (s_starts_at slot) seat now s1))) (\<lambda>(s2, updated).
       andthen (need Transition_invalid updated) (\<lambda>b'.
       andthen (upsert_reminder e tn bid (s_starts_at slot) now None minted s2) (\<lambda>(s3, _).
       Inr (record_audit tn Booking_rescheduled (Some bid) s3,
         \<lparr>om_booking = b', om_changed = True, om_token = None\<rparr>)))))))) = Inr (s', m)"
    using run unfolding reschedule_in_session_def Let_def by (auto simp only: andthen_eq_Inr need_eq_Inr ensure_eq_Inr)
  have go: "\<not> (at = b_starts_at b \<and> \<not> b_status b = Cancelled)"
  proof
    assume "at = b_starts_at b \<and> \<not> b_status b = Cancelled"
    from rest [unfolded if_P [OF this]] ch show False by auto
  qed
  obtain sl where sl: "offered_slot e tn at now s = Some sl"
    using rest go by (auto simp: andthen_eq_Inr simp del: split_paired_Ex)
  have at: "s_starts_at sl = at" by (rule offered_slot_SomeD [OF sl])
  from rest [unfolded if_not_P [OF go] sl need_simps andthen_simps at]
  obtain seat s1 s2 b' s3 r where free: "active_at tn (b_customer b) at s = None"
    and seat: "lowest_free (s_capacity sl) (active_seats_at tn at s) = Some seat"
    and s1: "(if b_status b = Cancelled then restore tn bid (b_starts_at b) now s else Inr s) = Inr s1"
    and s2: "reschedule tn bid at seat now s1 = Inr (s2, Some b')"
    and s3: "upsert_reminder e tn bid at now None minted s2 = Inr (s3, r)"
      "s' = record_audit tn Booking_rescheduled (Some bid) s3" "om_booking m = b'"
    by (auto simp: andthen_eq_Inr)
  note w = move_written [OF ok b s1 s2]
  have "b_status b = Confirmed \<longrightarrow> at \<noteq> b_starts_at b" using go by auto
  from that [OF b st fut paid this sl free seat _ _ s3(2)] w s3 show ?thesis by auto
qed

text \<open>Where a seat is after one row was rewritten.\<close>

lemma seats_moved:
  assumes "db_ok s" "booking_by_id tn bid s = Some b"
  shows "set (active_seats_at t at (write_booking tn bid f s)) =
    (if seated_at t at b then set (active_seats_at t at s) - {b_seat b} else set (active_seats_at t at s))
    \<union> (if seated_at t at (f b) then {b_seat (f b)} else {})"
proof -
  obtain xs ys where x: "\<And>t at. active_seats_at t at s =
        xs t at @ (if seated_at t at b then [b_seat b] else []) @ ys t at"
    and y: "\<And>t at. active_seats_at t at (write_booking tn bid f s) =
        xs t at @ (if seated_at t at (f b) then [b_seat (f b)] else []) @ ys t at"
    using active_seats_split [OF db_okD(1) [OF assms(1)] assms(2), of f] by blast
  show ?thesis
    using active_seats_distinct [OF db_okD(1) [OF assms(1)], of t at] unfolding y unfolding x by auto
qed

lemma seated_hash [simp]: "seated_at t at (b\<lparr>b_token_hash := h\<rparr>) = seated_at t at b"
  by (simp add: seated_at_def)

text \<open>C26. Moving an appointment never doubles a seat. A move that writes takes the lowest seat free at
  an offered start, gives back exactly the seat it held (a cancelled booking, which is restored by the
  move, held none), and happens only before the old start, only for a confirmed booking or for a
  cancelled one whose deposit was paid; every constraint holds afterwards and every waiting reminder
  still opens its booking.\<close>

theorem reschedule_moves_one_seat:
  assumes "db_ok s" "links_agree e s"
    and "reschedule_in_session e tn bid at minted now s = Inr (s', m)" "om_changed m"
  shows "\<exists>b sl. booking_by_id tn bid s = Some b \<and> offered_slot e tn at now s = Some sl
     \<and> now < b_starts_at b \<and> (b_status b = Confirmed \<or> b_status b = Cancelled \<and> holds_a_paid_deposit tn bid s)
     \<and> b_status (om_booking m) = Confirmed \<and> b_starts_at (om_booking m) = at
     \<and> lowest_free (s_capacity sl) (active_seats_at tn at s) = Some (b_seat (om_booking m))
     \<and> (\<forall>t x. set (active_seats_at t x s') =
          set (active_seats_at t x s)
          - (if t = tn \<and> x = b_starts_at b \<and> b_status b = Confirmed then {b_seat b} else {})
          \<union> (if t = tn \<and> x = at then {b_seat (om_booking m)} else {}))
     \<and> db_ok s' \<and> links_agree e s'"
proof -
  obtain b sl seat s3 r where b: "booking_by_id tn bid s = Some b" "b_status b \<in> {Confirmed, Cancelled}"
    "now < b_starts_at b" "b_status b = Cancelled \<longrightarrow> holds_a_paid_deposit tn bid s"
    and sl: "offered_slot e tn at now s = Some sl"
    and seat: "lowest_free (s_capacity sl) (active_seats_at tn at s) = Some seat"
    and okw: "db_ok (write_booking tn bid (moved_row at seat (b_status b = Cancelled)) s)"
    and ups: "upsert_reminder e tn bid at now None minted (write_booking tn bid (moved_row at seat (b_status b = Cancelled)) s)
       = Inr (s3, r)"
    and s': "s' = record_audit tn Booking_rescheduled (Some bid) s3"
    and m: "om_booking m = moved_row at seat (b_status b = Cancelled) b"
    by (rule reschedule_in_session_Inr [OF assms(1,3,4)])
  let ?m = "moved_row at seat (b_status b = Cancelled)"
  let ?w = "write_booking tn bid ?m s"
  have bw: "booking_by_id tn bid ?w = Some (?m b)" by (simp add: booking_by_id_write b)
  have lw: "links_agree e ?w"
    by (rule links_agree_write [OF assms(2)]) (simp_all add: moved_row_def)
  obtain s3' tk where u: "upsert_reminder e tn bid at now None minted ?w = Inr (s3', reminder_send_after at now)"
    "db_ok s3'" "links_agree e s3'"
    "d_bookings s3' = d_bookings ?w
      \<or> d_bookings s3' = d_bookings (write_booking tn bid (\<lambda>b. b\<lparr>b_token_hash := Some (e_hash e tk)\<rparr>) ?w)"
    by (rule upsert_reminder_links [OF okw bw lw, of at now minted])
  have s3: "s3' = s3" using u(1) ups by simp
  have bid: "b_tenant b = tn" "\<not> b_deleted b" using booking_by_id_SomeD [OF b(1)] by simp_all
  have old: "seated_at t x b \<longleftrightarrow> t = tn \<and> x = b_starts_at b \<and> b_status b = Confirmed" for t x
    using bid b(2) by (auto simp: seated_at_def)
  have new: "seated_at t x (?m b) \<longleftrightarrow> t = tn \<and> x = at" "b_seat (?m b) = seat" for t x
    using bid b(2) by (auto simp: seated_at_def moved_row_def)
  have hash: "active_seats_at t x s3 = active_seats_at t x ?w" for t x
  proof (cases "d_bookings s3 = d_bookings ?w")
    case True
    then show ?thesis by (rule seats_by_bookings)
  next
    case False
    with u(4) s3 have "d_bookings s3 = d_bookings (write_booking tn bid (\<lambda>b. b\<lparr>b_token_hash := Some (e_hash e tk)\<rparr>) ?w)"
      by blast
    from seats_by_bookings [OF this] show ?thesis by (simp only: seats_hash)
  qed
  have seats: "set (active_seats_at t x s') =
          set (active_seats_at t x s)
          - (if t = tn \<and> x = b_starts_at b \<and> b_status b = Confirmed then {b_seat b} else {})
          \<union> (if t = tn \<and> x = at then {b_seat (om_booking m)} else {})" for t x
    using seats_moved [OF assms(1) b(1), of t x ?m] by (auto simp: s' hash old new m)
  show ?thesis
    using b sl seat seats u(2,3) s3 s' by (auto simp: m moved_row_def)
qed

theorem reschedule_moves_one_seat_witness:
  "\<exists>s' m. reschedule_in_session sample_env 4 6 (hours 7 + minutes 30) [9] 0
       (shop_db\<lparr>d_bookings := [waiting_booking\<lparr>b_status := Confirmed\<rparr>]\<rparr>) = Inr (s', m)
     \<and> b_starts_at (om_booking m) = (hours 7 + minutes 30) \<and> db_ok s'
     \<and> set (active_seats_at 4 (hours 7) s') \<subseteq> set (active_seats_at 4 (hours 7)
          (shop_db\<lparr>d_bookings := [waiting_booking\<lparr>b_status := Confirmed\<rparr>]\<rparr>)) - {2}"
proof -
  let ?s = "shop_db\<lparr>d_bookings := [waiting_booking\<lparr>b_status := Confirmed\<rparr>]\<rparr>"
  let ?run = "reschedule_in_session sample_env 4 6 (hours 7 + minutes 30) [9] 0 ?s"
  have ok: "db_ok ?s" and b: "booking_by_id 4 6 ?s = Some (waiting_booking\<lparr>b_status := Confirmed\<rparr>)" by code_simp+
  have l: "links_agree sample_env ?s" by (simp add: links_agree_def shop_db_def empty_db_def)
  have "(case ?run of Inl _ \<Rightarrow> False | Inr r \<Rightarrow> om_changed (snd r))" by code_simp
  then obtain s' m where run: "?run = Inr (s', m)" "om_changed m" by (auto split: sum.splits)
  have v: "b_starts_at waiting_booking = hours 7" "b_seat waiting_booking = 2" "hours 7 \<noteq> hours 7 + minutes 30"
    by (simp_all add: waiting_booking_def duration_defs)
  from reschedule_moves_one_seat [OF ok l run] b v run(1) show ?thesis by auto
qed

section \<open>Rotated links\<close>

lemma retoken_frame [simp]:
  "d_bookings (retoken_pending tn bid tok s) = d_bookings s" "d_next (retoken_pending tn bid tok s) = d_next s"
  "d_customers (retoken_pending tn bid tok s) = d_customers s" "d_payments (retoken_pending tn bid tok s) = d_payments s"
  "d_entries (retoken_pending tn bid tok s) = d_entries s"
  by (simp_all add: retoken_pending_def split: option.split)

lemma retoken_messages:
  "d_messages (retoken_pending tn bid tok s) =
     update_where (pending_about tn bid Reminder) (\<lambda>m. m\<lparr>m_token := Some tok\<rparr>) (d_messages s)"
proof (cases "pending_for_booking tn bid Reminder s")
  case None
  then have "\<not> list_ex (pending_about tn bid Reminder) (d_messages s)"
    by (simp add: pending_for_booking_def find_None_iff list_ex_iff)
  with None show ?thesis by (simp add: retoken_pending_def update_where_none)
qed (simp add: retoken_pending_def)

lemma messages_ok_retoken:
  "messages_ok (update_where P (\<lambda>m. m\<lparr>m_token := x\<rparr>) rows) = messages_ok rows"
  "subjects_below n (update_where P (\<lambda>m. m\<lparr>m_token := x\<rparr>) rows) = subjects_below n rows"
proof -
  have keys: "map g (filter Q (update_where P (\<lambda>m. m\<lparr>m_token := x\<rparr>) rows)) = map g (filter Q rows)"
    if "\<And>m. Q (m\<lparr>m_token := x\<rparr>) = Q m" "\<And>m. g (m\<lparr>m_token := x\<rparr>) = g m" for Q and g :: "message \<Rightarrow> 'b"
    using that by (induction rows) auto
  have all: "list_all Q (update_where P (\<lambda>m. m\<lparr>m_token := x\<rparr>) rows) = list_all Q rows"
    if "\<And>m. Q (m\<lparr>m_token := x\<rparr>) = Q m" for Q
    using that by (induction rows) auto
  show "messages_ok (update_where P (\<lambda>m. m\<lparr>m_token := x\<rparr>) rows) = messages_ok rows"
    unfolding messages_ok_def unique_on_def by (simp add: keys all map_update_where pending_message_def)
  show "subjects_below n (update_where P (\<lambda>m. m\<lparr>m_token := x\<rparr>) rows) = subjects_below n rows"
    unfolding subjects_below_def by (simp add: all)
qed

lemma db_ok_retoken: "db_ok s \<Longrightarrow> db_ok (retoken_pending tn bid tok s)"
  by (simp add: db_ok_def retoken_messages messages_ok_retoken map_update_where)

text \<open>One step of a rotation: the hash, then the waiting reminder.\<close>

lemma rotated_links:
  assumes "db_ok s" "links_agree e s" "booking_by_id tn bid s = Some b"
    and s'_def: "s' = retoken_pending tn bid tok (write_booking tn bid (\<lambda>b. b\<lparr>b_token_hash := Some (e_hash e tok)\<rparr>) s)"
  shows "db_ok s'" "links_agree e s'"
    "booking_by_id tn i s' = (if i = bid then Some (b\<lparr>b_token_hash := Some (e_hash e tok)\<rparr>) else booking_by_id tn i s)"
    "active_seats_at t at s' = active_seats_at t at s"
proof -
  let ?h = "\<lambda>b. b\<lparr>b_token_hash := Some (e_hash e tok)\<rparr>"
  let ?w = "write_booking tn bid ?h s"
  have okw: "db_ok ?w"
    by (rule db_ok_hold [OF assms(1,3), where g = "\<lambda>_. True"]) (auto simp: place_defs)
  show "db_ok s'" unfolding s'_def by (rule db_ok_retoken [OF okw])
  have same: "booking_by_id t' i s' = booking_by_id t' i ?w" for t' i
    by (simp add: booking_by_id_def s'_def)
  show "booking_by_id tn i s' = (if i = bid then Some (?h b) else booking_by_id tn i s)"
    by (simp add: same booking_by_id_write assms(3))
  have lw: "links_agree_but e tn bid ?w"
    by (rule links_agree_but_write [OF links_agree_but_weaken [OF assms(2)]]) simp
  have "link_works e s' (if pending_about tn bid Reminder m then m\<lparr>m_token := Some tok\<rparr> else m)"
    if "m \<in> set (d_messages s)" for m
  proof (cases "pending_about tn bid Reminder m")
    case True
    then show ?thesis by (auto simp: link_works_iff pending_about_def same booking_by_id_write assms(3))
  next
    case False
    then have "link_works e ?w m"
      using lw that by (auto simp: links_agree_but_def list_all_iff link_works_iff pending_about_def pending_message_def)
    then show ?thesis using False by (simp add: link_works_iff same)
  qed
  moreover have rows: "d_messages s' =
      update_where (pending_about tn bid Reminder) (\<lambda>m. m\<lparr>m_token := Some tok\<rparr>) (d_messages s)"
    by (simp add: s'_def retoken_messages)
  ultimately show "links_agree e s'"
    unfolding links_agree_def list_all_iff rows set_update_where by blast
  have "active_seats_at t at s' = active_seats_at t at ?w" by (rule seats_by_bookings) (simp add: s'_def)
  then show "active_seats_at t at s' = active_seats_at t at s" by (simp only: seats_hash)
qed

lemma rotate_links_ok:
  assumes "db_ok s" "links_agree e s" "rotate_links e tn mint now bs s = Inr s'"
  shows "db_ok s' \<and> links_agree e s' \<and> (\<forall>t at. active_seats_at t at s' = active_seats_at t at s)
    \<and> d_customers s' = d_customers s
    \<and> (\<forall>i. booking_by_id tn i s' =
         map_option (\<lambda>b. if i \<in> b_id ` set bs then b\<lparr>b_token_hash := Some (e_hash e (mint i))\<rparr> else b)
           (booking_by_id tn i s))
    \<and> (\<forall>b\<in>set bs. booking_by_id tn (b_id b) s \<noteq> None)"
  using assms
proof (induction bs arbitrary: s)
  case Nil
  then show ?case by (simp add: option.map_ident)
next
  case (Cons b bs)
  let ?h = "\<lambda>x. x\<lparr>b_token_hash := Some (e_hash e (mint (b_id b)))\<rparr>"
  obtain b0 where b0: "booking_by_id tn (b_id b) s = Some b0"
    and run: "rotate_links e tn mint now bs (retoken_pending tn (b_id b) (mint (b_id b)) (write_booking tn (b_id b) ?h s)) = Inr s'"
    using Cons.prems(3)
    by (auto simp: set_manage_token_hash_run [OF db_okD(1) [OF Cons.prems(1)]] split: option.splits if_splits)
  note r = rotated_links [OF Cons.prems(1,2) b0 refl, where tok = "mint (b_id b)"]
  show ?case
    using Cons.IH [OF r(1,2) run] b0
    by (auto simp: r(3,4) map_option_case split: option.split if_splits)
qed

text \<open>Where a corrected phone leads: the rows whose links are rotated are those that were live for the
  customer, or the booking alone when it moved to another customer.\<close>

lemma guard_live_Inr:
  assumes "guard_live tn bid now s = Inr b"
  shows "booking_by_id tn bid s = Some b" "b_status b = Confirmed" "now < b_starts_at b"
  using assms by (auto simp: guard_live_def handler_simps)

text \<open>Resending a link revokes the old one. Afterwards the booking answers to the new token and to
  no other, the reminder that was waiting carries it, and no other booking, seat or reminder is
  touched; it is refused for a booking that is not confirmed or has started.\<close>

theorem resend_revokes_old_link:
  assumes "db_ok s" "links_agree e s" "resend_link_in_session e tn bid mint now s = Inr (s', m)"
  shows "om_token m = Some (mint bid) \<and> b_token_hash (om_booking m) = Some (e_hash e (mint bid))
     \<and> booking_by_id tn bid s' = Some (om_booking m)
     \<and> b_status (om_booking m) = Confirmed \<and> now < b_starts_at (om_booking m)
     \<and> (\<forall>i. i \<noteq> bid \<longrightarrow> booking_by_id tn i s' = booking_by_id tn i s)
     \<and> (\<forall>t at. active_seats_at t at s' = active_seats_at t at s)
     \<and> db_ok s' \<and> links_agree e s'"
proof -
  obtain b s1 where live: "guard_live tn bid now s = Inr b" and rot: "rotate_links e tn mint now [b] s = Inr s1"
    and s': "s' = record_audit tn Booking_link_resent (Some bid) s1"
    and m: "m = \<lparr>om_booking = synced tn b s1, om_changed = True, om_token = Some (mint bid)\<rparr>"
    using assms(3) unfolding resend_link_in_session_def by (auto simp only: andthen_eq_Inr prod.inject sum.inject)
  note b = guard_live_Inr [OF live]
  have id: "b_id b = bid" using booking_by_id_SomeD [OF b(1)] by simp
  show ?thesis
    using rotate_links_ok [OF assms(1,2) rot] b id by (auto simp: s' m synced_def option.map_ident)
qed

definition linked_shop :: db where
  "linked_shop = shop_db\<lparr>d_bookings := [waiting_booking\<lparr>b_status := Confirmed\<rparr>],
     d_customers := [\<lparr>c_id = 5, c_tenant = 4, c_phone = [48], c_name = [65], c_consent_at = None,
       c_withdrawn_at = None, c_erased_at = None, c_deleted = False\<rparr>],
     d_messages := [\<lparr>m_id = 9, m_tenant = 4, m_booking = Some 6, m_entry = None, m_kind = Reminder, m_send_after = 0,
       m_status = Msg_pending, m_token = Some [1], m_created_at = 0, m_deleted = False\<rparr>]\<rparr>"

lemma linked_shop_ok: "db_ok linked_shop" "links_agree sample_env linked_shop"
  by code_simp+

theorem resend_revokes_old_link_witness:
  "\<exists>s' m. resend_link_in_session sample_env 4 6 (\<lambda>_. [7]) 0 linked_shop = Inr (s', m)
     \<and> b_token_hash (om_booking m) = Some [7] \<and> links_agree sample_env s'"
proof -
  let ?run = "resend_link_in_session sample_env 4 6 (\<lambda>_. [7]) 0 linked_shop"
  have "(case ?run of Inl _ \<Rightarrow> False | Inr r \<Rightarrow> True)" by code_simp
  then obtain s' m where run: "?run = Inr (s', m)" by (auto split: sum.splits)
  have "e_hash sample_env [7] = [7]" by (simp add: sample_env_def)
  with resend_revokes_old_link [OF linked_shop_ok run] run show ?thesis by auto
qed

lemma rotate_links_Inl:
  "db_ok s \<Longrightarrow> rotate_links e tn mint now bs s = Inl err \<Longrightarrow> err = Transition_invalid"
proof (induction bs arbitrary: s)
  case (Cons b bs)
  show ?case
  proof (cases "booking_by_id tn (b_id b) s")
    case None
    with Cons.prems show ?thesis by (simp add: set_manage_token_hash_run [OF db_okD(1) [OF Cons.prems(1)]])
  next
    case (Some b0)
    let ?w = "write_booking tn (b_id b) (\<lambda>x. x\<lparr>b_token_hash := Some (e_hash e (mint (b_id b)))\<rparr>) s"
    have "db_ok ?w" by (rule db_ok_hold [OF Cons.prems(1) Some, where g = "\<lambda>_. True"]) (auto simp: place_defs)
    then show ?thesis
      using Cons.prems(2) Cons.IH [OF db_ok_retoken] Some
      by (auto simp: set_manage_token_hash_run [OF db_okD(1) [OF Cons.prems(1)]] split: if_splits)
  qed
qed simp

lemma live_rows:
  "x \<in> set (list_live_for_customer tn cid now s) \<longleftrightarrow>
     x \<in> set (d_bookings s) \<and> b_tenant x = tn \<and> b_customer x = cid \<and> b_status x = Confirmed
     \<and> now < b_starts_at x \<and> \<not> b_deleted x"
  by (auto simp: list_live_for_customer_def)

lemma rewrite_number_Inr:
  assumes ok: "db_ok s" and b: "booking_by_id tn bid s = Some b" "b_status b = Confirmed" "now < b_starts_at b"
    and run: "rewrite_number tn b phone now s = Inr (s1, stale)"
  shows "db_ok s1 \<and> d_bookings s1 = d_bookings s \<and> d_messages s1 = d_messages s \<and> b \<in> set stale
     \<and> stale = list_live_for_customer tn (b_customer b) now s
     \<and> (\<exists>c. customer_by_id tn (b_customer b) s1 = Some c \<and> c_phone c = phone)"
proof -
  obtain u c where set: "set_phone tn (b_customer b) phone s = Inr (s1, Some c)"
    and rot: "stale = list_live_for_customer tn (b_customer b) now s1"
    using run by (auto simp: rewrite_number_def handler_simps split: sum.splits)
  have up: "update_customer tn (b_customer b) (\<lambda>_. True) (\<lambda>c. c\<lparr>c_phone := phone\<rparr>) s = Inr (s1, True)"
    and c: "customer_by_id tn (b_customer b) s1 = Some c"
    using set by (auto simp: set_phone_def handler_simps split: if_splits)
  obtain rows where r: "s1 = s\<lparr>d_customers := rows\<rparr>" "map c_id rows = map c_id (d_customers s)"
    "rows = update_where (\<lambda>x. names_customer tn (b_customer b) x \<and> True) (\<lambda>c. c\<lparr>c_phone := phone\<rparr>) (d_customers s)"
    "customers_ok (d_customers s) \<longrightarrow> customers_ok rows"
    by (rule update_customer_spec [OF up]) simp
  have "db_ok s1" using db_ok_customers [OF ok, of rows] r db_okD(5,10) [OF ok] by simp
  moreover have "c_phone c = phone"
  proof -
    have "c \<in> set rows" "names_customer tn (b_customer b) c"
      using c r(1) by (auto simp: customer_by_id_def dest: find_SomeD)
    then obtain c0 where "names_customer tn (b_customer b) c"
      "c = (if names_customer tn (b_customer b) c0 \<and> True then c0\<lparr>c_phone := phone\<rparr> else c0)"
      unfolding r(3) set_update_where by blast
    then show ?thesis by (cases "names_customer tn (b_customer b) c0") simp_all
  qed
  moreover have "b \<in> set stale"
    using booking_by_id_SomeD [OF b(1)] b r(1) by (simp add: rot live_rows)
  ultimately show ?thesis using c r(1) by (simp add: rot list_live_for_customer_def)
qed

lemma repoint_Inr:
  assumes ok: "db_ok s" "links_agree e s" and b: "booking_by_id tn bid s = Some b"
    and run: "repoint tn b target now s = Inr (s1, stale)"
  shows "db_ok s1 \<and> links_agree e s1 \<and> stale = [b] \<and> d_customers s1 = d_customers s
     \<and> booking_by_id tn bid s1 = Some (b\<lparr>b_customer := c_id target\<rparr>)
     \<and> (\<forall>t at. active_seats_at t at s1 = active_seats_at t at s)"
proof -
  let ?f = "\<lambda>b. b\<lparr>b_customer := c_id target\<rparr>"
  have id: "b_id b = bid" using booking_by_id_SomeD [OF b] by simp
  have w: "s1 = write_booking tn bid ?f s" "stale = [b]" "bookings_ok (d_bookings (write_booking tn bid ?f s))"
    using run b id
    by (auto simp: repoint_def handler_simps set_customer_id_run [OF db_okD(1) [OF ok(1)]] Let_def
        split: sum.splits if_splits)
  have "db_ok s1" unfolding w(1) by (rule db_ok_write_booking [OF ok(1) _ w(3)]) simp
  moreover have "links_agree e s1" unfolding w(1) by (rule links_agree_write [OF ok(2)]) simp_all
  moreover have "active_seats_at t at s1 = active_seats_at t at s" for t at
    unfolding w(1) by (rule seats_unmoved) (simp_all add: seated_at_def)
  ultimately show ?thesis using w(2) b by (simp add: w(1) booking_by_id_write)
qed

text \<open>C27. Correcting a phone revokes every link that went to the wrong number. When the number is
  rewritten, each upcoming confirmed booking of the customer answers to a new token; when another
  customer holds the number, this booking moves to her and only it is rotated, and no customer row
  changes. The edited booking is always among the rotated rows (its token lookup cannot fail), every
  waiting reminder still opens its booking, and no seat moves.\<close>

theorem phone_correction_revokes_links:
  assumes "db_ok s" "links_agree e s"
  shows "correct_phone_in_session e tn bid phone mint now s \<noteq> Inl Key_error
    \<and> (\<forall>s' m. correct_phone_in_session e tn bid phone mint now s = Inr (s', m) \<longrightarrow>
        (\<exists>b b'. booking_by_id tn bid s = Some b \<and> booking_by_id tn bid s' = Some b' \<and> om_booking m = b'
          \<and> om_token m = Some (mint bid) \<and> b_token_hash b' = Some (e_hash e (mint bid))
          \<and> (if \<exists>c. customer_by_phone tn phone s = Some c \<and> c_id c \<noteq> b_customer b
             then customer_by_phone tn phone s' \<noteq> None \<and> d_customers s' = d_customers s
               \<and> (\<forall>c. customer_by_phone tn phone s = Some c \<longrightarrow> b_customer b' = c_id c)
             else b_customer b' = b_customer b
               \<and> (\<exists>c. customer_by_id tn (b_customer b) s' = Some c \<and> c_phone c = phone)
               \<and> (\<forall>x. x \<in> set (d_bookings s) \<and> b_tenant x = tn \<and> b_customer x = b_customer b \<and> \<not> b_deleted x
                      \<and> b_status x = Confirmed \<and> now < b_starts_at x \<longrightarrow>
                    (\<exists>x'. booking_by_id tn (b_id x) s' = Some x'
                       \<and> b_token_hash x' = Some (e_hash e (mint (b_id x)))))))
        \<and> (\<forall>t at. active_seats_at t at s' = active_seats_at t at s)
        \<and> db_ok s' \<and> links_agree e s')"
proof (cases "guard_live tn bid now s")
  case (Inl err)
  then have "err \<noteq> Key_error" by (auto simp: guard_live_def handler_simps)
  with Inl show ?thesis by (simp add: correct_phone_in_session_def)
next
  case (Inr b)
  note b = guard_live_Inr [OF Inr]
  have id: "b_id b = bid" using booking_by_id_SomeD [OF b(1)] by simp
  let ?other = "\<exists>c. customer_by_phone tn phone s = Some c \<and> c_id c \<noteq> b_customer b"
  show ?thesis
  proof (cases "correct_number tn b phone now s")
    case (Inl err)
    then have "err \<noteq> Key_error"
      by (auto simp: correct_number_def repoint_def rewrite_number_def handler_simps
          split: option.splits if_splits sum.splits)
    with Inr Inl show ?thesis by (simp add: correct_phone_in_session_def)
  next
    case run: (Inr r)
    obtain s1 stale where r: "r = (s1, stale)" by (cases r)
    have mid: "db_ok s1 \<and> links_agree e s1 \<and> b \<in> set stale
        \<and> (\<forall>t at. active_seats_at t at s1 = active_seats_at t at s)
        \<and> (if ?other then d_customers s1 = d_customers s
             \<and> (\<forall>c. customer_by_phone tn phone s = Some c \<longrightarrow>
                  booking_by_id tn bid s1 = Some (b\<lparr>b_customer := c_id c\<rparr>))
           else d_bookings s1 = d_bookings s \<and> stale = list_live_for_customer tn (b_customer b) now s
             \<and> (\<exists>c. customer_by_id tn (b_customer b) s1 = Some c \<and> c_phone c = phone))"
    proof (cases ?other)
      case True
      then obtain c where c: "customer_by_phone tn phone s = Some c" "c_id c \<noteq> b_customer b" by blast
      with run r have "repoint tn b c now s = Inr (s1, stale)" by (simp add: correct_number_def)
      from repoint_Inr [OF assms b(1) this] c True show ?thesis by simp
    next
      case False
      with run r have "rewrite_number tn b phone now s = Inr (s1, stale)"
        by (auto simp: correct_number_def split: option.splits)
      note w = rewrite_number_Inr [OF assms(1) b this]
      have "links_agree e s1" by (rule links_agree_same [OF _ _ assms(2)]) (simp_all add: w)
      with w False seats_by_bookings [of s1 s] show ?thesis by auto
    qed
    show ?thesis
    proof (cases "rotate_links e tn mint now stale s1")
      case (Inl err)
      then have "err = Transition_invalid" using rotate_links_Inl mid by blast
      with Inr Inl run r show ?thesis by (simp add: correct_phone_in_session_def)
    next
      case rot: (Inr s2)
      have bin: "bid \<in> set (map b_id stale)" using mid id by auto
      let ?s' = "record_audit tn Booking_phone_corrected (Some bid) s2"
      have out: "correct_phone_in_session e tn bid phone mint now s =
          Inr (?s', \<lparr>om_booking = synced tn b s2, om_changed = True, om_token = Some (mint bid)\<rparr>)"
        using Inr run r rot bin by (simp add: correct_phone_in_session_def)
      note rl = rotate_links_ok [OF mid [THEN conjunct1] mid [THEN conjunct2, THEN conjunct1] rot]
      show ?thesis
      proof (cases ?other)
        case True
        then obtain c where c: "customer_by_phone tn phone s = Some c" "c_id c \<noteq> b_customer b" by blast
        with mid True have b1: "booking_by_id tn bid s1 = Some (b\<lparr>b_customer := c_id c\<rparr>)"
          "d_customers s1 = d_customers s" by auto
        show ?thesis
          using rl b1 mid bin b(1) id c
          by (simp add: out synced_def customer_by_phone_def)
      next
        case False
        have b1: "booking_by_id tn bid s1 = Some b" using mid False b(1) by (simp add: booking_by_id_def)
        have sib: "\<exists>x'. booking_by_id tn (b_id x) s2 = Some x' \<and> b_token_hash x' = Some (e_hash e (mint (b_id x)))"
          if "x \<in> set stale" for x
          using rl that by fastforce
        show ?thesis
          using rl b1 mid bin b(1) id False sib
          by (auto simp: out synced_def live_rows customer_by_id_def)
      qed
    qed
  qed
qed

theorem phone_correction_revokes_links_witness:
  "\<exists>s' m c. correct_phone_in_session sample_env 4 6 [49] (\<lambda>_. [7]) 0 linked_shop = Inr (s', m)
     \<and> b_token_hash (om_booking m) = Some [7] \<and> links_agree sample_env s'
     \<and> customer_by_id 4 5 s' = Some c \<and> c_phone c = [49]"
proof -
  let ?run = "correct_phone_in_session sample_env 4 6 [49] (\<lambda>_. [7]) 0 linked_shop"
  have "(case ?run of Inl _ \<Rightarrow> False | Inr r \<Rightarrow> True)" by code_simp
  then obtain s' m where run: "?run = Inr (s', m)" by (auto split: sum.splits)
  have h: "e_hash sample_env [7] = [7]" by (simp add: sample_env_def)
  have new: "customer_by_phone 4 [49] linked_shop = None" by code_simp
  have "map_option b_customer (booking_by_id 4 6 linked_shop) = Some 5" by code_simp
  then have b: "\<exists>b. booking_by_id 4 6 linked_shop = Some b \<and> b_customer b = 5" by auto
  from phone_correction_revokes_links [OF linked_shop_ok, of 4 6 "[49]" "\<lambda>_. [7]" 0] run h new b
  show ?thesis by auto
qed

end
