(* ===== verification/Ics.thy ===== *)
theory Ics
  imports Store Text
begin

text \<open>
  The calendar file of a booking, \<open>app/booking/ics.py\<close>: text escaping, line folding at 75 octets and
  the one-event document. A string is a list of code points; \<open>ends\<close> and \<open>stamp\<close> work on UTC instants,
  with the proleptic Gregorian calendar of Python's \<open>datetime\<close> written out.
\<close>

definition CRLF :: utext where "CRLF = [13, 10]"
definition ICS_MAX_OCTETS :: nat where "ICS_MAX_OCTETS = 75"
definition PRODID :: utext where "PRODID = u ''-//MODRYN//Boutique//HE''"

text \<open>\<open>s.replace(c, r)\<close> for a single character \<open>c\<close>\<close>

definition replace_char :: "nat \<Rightarrow> utext \<Rightarrow> utext \<Rightarrow> utext" where
  "replace_char c r s = concat (map (\<lambda>x. if x = c then r else [x]) s)"

definition escape :: "utext \<Rightarrow> utext" where
  "escape value =
     replace_char 13 []
       (replace_char 10 [92, 110]
         (replace_char 44 [92, 44]
           (replace_char 59 [92, 59]
             (replace_char 92 [92, 92] value))))"

text \<open>\<open>len(char.encode("utf-8"))\<close>: a lone surrogate cannot be encoded.\<close>

definition utf8_size :: "nat \<Rightarrow> error + nat" where
  "utf8_size c =
     (if c < 128 then Inr 1 else if c < 2048 then Inr 2
      else if 55296 \<le> c \<and> c \<le> 57343 then Inl Unicode_encode_error
      else if c < 65536 then Inr 3 else Inr 4)"

fun fold_chars :: "utext list \<Rightarrow> utext \<Rightarrow> nat \<Rightarrow> nat \<Rightarrow> utext \<Rightarrow> error + utext list" where
  "fold_chars segments current used budget [] = Inr (segments @ [current])"
| "fold_chars segments current used budget (c # cs) =
     andthen (utf8_size c) (\<lambda>size.
       if used + size > budget then fold_chars (segments @ [current]) [c] size (ICS_MAX_OCTETS - 1) cs
       else fold_chars segments (current @ [c]) (used + size) budget cs)"

fun join_with :: "utext \<Rightarrow> utext list \<Rightarrow> utext" where
  "join_with sep [] = []"
| "join_with sep [x] = x"
| "join_with sep (x # xs) = x @ sep @ join_with sep xs"

definition fold_line :: "utext \<Rightarrow> error + utext" where
  "fold_line line =
     andthen (fold_chars [] [] 0 ICS_MAX_OCTETS line) (\<lambda>segments. Inr (join_with (CRLF @ [32]) segments))"

text \<open>\<open>strftime("%Y%m%dT%H%M%SZ")\<close> of a UTC instant; \<open>ord2ymd\<close> is the standard library's.\<close>

definition days_before_month :: "int list" where
  "days_before_month = [0, 0, 31, 59, 90, 120, 151, 181, 212, 243, 273, 304, 334]"

definition ord2ymd :: "date \<Rightarrow> int \<times> int \<times> int" where
  "ord2ymd ordinal =
     (let n = ordinal - 1; n400 = n div 146097; n = n mod 146097; n100 = n div 36524; n = n mod 36524;
          n4 = n div 1461; n = n mod 1461; n1 = n div 365; n = n mod 365;
          year = n400 * 400 + 1 + n100 * 100 + n4 * 4 + n1 in
      if n1 = 4 \<or> n100 = 4 then (year - 1, 12, 31)
      else
        let leap = (n1 = 3 \<and> (n4 \<noteq> 24 \<or> n100 = 3));
            before = (\<lambda>m. days_before_month ! nat m + (if m > 2 \<and> leap then 1 else 0));
            guess = (n + 50) div 32;
            month = (if before guess > n then guess - 1 else guess) in
        (year, month, n - before month + 1))"

fun decimal :: "nat \<Rightarrow> utext" where
  "decimal n = (if n < 10 then [48 + n] else decimal (n div 10) @ [48 + n mod 10])"

declare decimal.simps [simp del]

definition two_digits :: "int \<Rightarrow> utext" where
  "two_digits n = [48 + nat n div 10, 48 + nat n mod 10]"

definition EPOCH_ORDINAL :: date where "EPOCH_ORDINAL = 719163"

definition ics_instant :: "instant \<Rightarrow> utext" where
  "ics_instant t =
     (let (year, month, day) = ord2ymd (EPOCH_ORDINAL + t div days 1);
          second = t mod days 1 div seconds 1 in
      decimal (nat year) @ two_digits month @ two_digits day @ [84]
      @ two_digits (second div 3600) @ two_digits (second div 60 mod 60) @ two_digits (second mod 60) @ [90])"

fun fold_all :: "utext list \<Rightarrow> error + utext list" where
  "fold_all [] = Inr []"
| "fold_all (l # ls) = andthen (fold_line l) (\<lambda>f. andthen (fold_all ls) (\<lambda>fs. Inr (f # fs)))"

text \<open>\<open>show_id\<close> is \<open>str\<close> of a UUID.\<close>

definition build_ics ::
  "(uuid \<Rightarrow> utext) \<Rightarrow> booking \<Rightarrow> int \<Rightarrow> utext \<Rightarrow> utext option \<Rightarrow> utext \<Rightarrow> utext \<Rightarrow> instant \<Rightarrow> error + utext" where
  "build_ics show_id b duration_minutes boutique_name address slug base_domain now =
     (let ends_at = b_starts_at b + minutes duration_minutes;
          lines =
            [u ''BEGIN:VCALENDAR'', u ''VERSION:2.0'', u ''PRODID:'' @ PRODID, u ''CALSCALE:GREGORIAN'',
             u ''METHOD:PUBLISH'', u ''BEGIN:VEVENT'',
             u ''UID:'' @ show_id (b_id b) @ [64] @ slug @ [46] @ base_domain,
             u ''DTSTAMP:'' @ ics_instant now, u ''DTSTART:'' @ ics_instant (b_starts_at b),
             u ''DTEND:'' @ ics_instant ends_at,
             u ''SUMMARY:'' @ escape (b_type_name b @ [32, 8212, 32] @ boutique_name)]
            @ (case address of None \<Rightarrow> [] | Some a \<Rightarrow> if a = [] then [] else [u ''LOCATION:'' @ escape a])
            @ [u ''STATUS:CONFIRMED'', u ''END:VEVENT'', u ''END:VCALENDAR''] in
      andthen (fold_all lines) (\<lambda>folded. Inr (join_with CRLF folded @ CRLF)))"

section \<open>Escaping\<close>

text \<open>The chain of replacements character by character.\<close>

definition escape_char :: "nat \<Rightarrow> utext" where
  "escape_char c =
     (if c = 92 then [92, 92] else if c = 59 then [92, 59] else if c = 44 then [92, 44]
      else if c = 10 then [92, 110] else if c = 13 then [] else [c])"

lemma replace_concat:
  "replace_char c r (concat (map f s)) = concat (map (\<lambda>x. replace_char c r (f x)) s)"
  by (induction s) (auto simp: replace_char_def)

lemma escape_by_char: "escape s = concat (map escape_char s)"
proof -
  have one: "replace_char 13 [] (replace_char 10 [92, 110] (replace_char 44 [92, 44]
      (replace_char 59 [92, 59] (if x = 92 then [92, 92] else [x])))) = escape_char x" for x
    by (simp add: escape_char_def replace_char_def)
  have "replace_char 92 [92, 92] s = concat (map (\<lambda>x. if x = 92 then [92, 92] else [x]) s)"
    by (simp add: replace_char_def)
  then show ?thesis unfolding escape_def by (simp only: replace_concat one)
qed

text \<open>What a calendar client reads back: the inverse of the escapes of RFC 5545.\<close>

fun unescape :: "utext \<Rightarrow> utext" where
  "unescape (c # d # s) = (if c = 92 then (if d = 110 then 10 else d) # unescape s else c # unescape (d # s))"
| "unescape s = s"

lemma escape_cr: "escape_char 13 = []"
  by (simp add: escape_char_def)

lemma unescape_char:
  "c \<noteq> 13 \<Longrightarrow> unescape (escape_char c @ s) = c # unescape s"
  by (cases s) (auto simp: escape_char_def)

text \<open>A text put in the calendar file comes back as it was, except that carriage returns are gone,
  and the escaped text holds no line break of its own, so no field can start a new line of the file.\<close>

theorem escape_roundtrip:
  "unescape (escape s) = filter (\<lambda>c. c \<noteq> 13) s \<and> 10 \<notin> set (escape s) \<and> 13 \<notin> set (escape s)"
proof -
  have "unescape (concat (map escape_char s)) = filter (\<lambda>c. c \<noteq> 13) s"
  proof (induction s)
    case (Cons c s)
    then show ?case by (cases "c = 13") (simp_all add: unescape_char escape_cr)
  qed simp
  moreover have "10 \<notin> set (escape_char c) \<and> 13 \<notin> set (escape_char c)" for c by (simp add: escape_char_def)
  ultimately show ?thesis by (auto simp: escape_by_char)
qed

section \<open>Folding\<close>

definition octets :: "utext \<Rightarrow> nat" where
  "octets s = sum_list (map (\<lambda>c. case utf8_size c of Inl _ \<Rightarrow> 0 | Inr n \<Rightarrow> n) s)"

lemma octets_simps [simp]:
  "octets [] = 0" "octets (c # s) = (case utf8_size c of Inl _ \<Rightarrow> 0 | Inr n \<Rightarrow> n) + octets s"
  "octets (s @ s') = octets s + octets s'"
  by (simp_all add: octets_def)

lemma utf8_size_bounds: "utf8_size c = Inr n \<Longrightarrow> 1 \<le> n \<and> n \<le> 4"
  by (auto simp: utf8_size_def split: if_splits)

text \<open>What the loop answers, from any point of it: the characters in order, every closed segment inside
  its budget, one octet less after the first.\<close>

lemma fold_chars_correct:
  assumes "fold_chars segs cur used budget cs = Inr out" "used = octets cur" "used \<le> budget"
    and "budget = (if segs = [] then 75 else 74)"
  shows "\<exists>more. out = segs @ more \<and> more \<noteq> [] \<and> concat more = cur @ cs
     \<and> (\<forall>i < length more. octets (more ! i) \<le> (if segs = [] \<and> i = 0 then 75 else 74))"
  using assms
proof (induction cs arbitrary: segs cur used budget)
  case Nil
  then show ?case by (intro exI [of _ "[cur]"]) auto
next
  case (Cons c cs)
  then obtain size where size: "utf8_size c = Inr size" by (auto simp: andthen_eq_Inr)
  show ?case
  proof (cases "used + size > budget")
    case True
    have go: "fold_chars (segs @ [cur]) [c] size (ICS_MAX_OCTETS - 1) cs = Inr out"
      using Cons.prems(1) size True by simp
    have small: "size = octets [c]" "size \<le> ICS_MAX_OCTETS - 1"
      "ICS_MAX_OCTETS - 1 = (if segs @ [cur] = [] then 75 else 74)"
      using size utf8_size_bounds [OF size] by (simp_all add: ICS_MAX_OCTETS_def)
    obtain more' where "out = (segs @ [cur]) @ more'" "concat more' = [c] @ cs"
      "\<forall>i < length more'. octets (more' ! i) \<le> (if segs @ [cur] = [] \<and> i = 0 then 75 else 74)"
      using Cons.IH [OF go small] by blast
    then obtain more where more: "out = (segs @ [cur]) @ more" "concat more = [c] @ cs"
      "\<forall>i < length more. octets (more ! i) \<le> 74"
      by simp
    have "\<forall>i < length (cur # more). octets ((cur # more) ! i) \<le> (if segs = [] \<and> i = 0 then 75 else 74)"
      using more(3) Cons.prems(2-4) by (auto simp: nth_Cons' split: if_splits)
    with more(1,2) show ?thesis by (intro exI [of _ "cur # more"]) auto
  next
    case False
    then have "fold_chars segs (cur @ [c]) (used + size) budget cs = Inr out"
      using Cons.prems(1) size by simp
    from Cons.IH [OF this] Cons.prems(2-4) size False show ?thesis by auto
  qed
qed

lemma fold_chars_total:
  assumes "\<forall>c\<in>set cs. \<exists>n. utf8_size c = Inr n"
  shows "\<exists>out. fold_chars segs cur used budget cs = Inr out"
  using assms
proof (induction cs arbitrary: segs cur used budget)
  case (Cons c cs)
  then obtain n where "utf8_size c = Inr n" by auto
  with Cons show ?case by (cases "used + n > budget") simp_all
qed simp

text \<open>Unfolding removes every line break that is followed by a space.\<close>

fun unfold_lines :: "utext \<Rightarrow> utext" where
  "unfold_lines (a # b # c # s) =
     (if a = 13 \<and> b = 10 \<and> c = 32 then unfold_lines s else a # unfold_lines (b # c # s))"
| "unfold_lines s = s"

lemma unfold_plain: "13 \<notin> set x \<Longrightarrow> unfold_lines (x @ s) = x @ unfold_lines s"
proof (induction x)
  case (Cons a x)
  have "unfold_lines (a # t) = a # unfold_lines t" if "a \<noteq> 13" for t
    using that by (cases t rule: unfold_lines.cases) auto
  with Cons show ?case by auto
qed simp

lemma unfold_join:
  "\<forall>x\<in>set xs. 13 \<notin> set x \<Longrightarrow> unfold_lines (join_with (CRLF @ [32]) xs) = concat xs"
proof (induction "CRLF @ [32]" xs rule: join_with.induct)
  case (2 x)
  then show ?case using unfold_plain [of x "[]"] by simp
next
  case (3 x y ys)
  then have "unfold_lines (join_with (CRLF @ [32]) (x # y # ys)) =
      x @ unfold_lines (13 # 10 # 32 # join_with (CRLF @ [32]) (y # ys))"
    using unfold_plain [of x "13 # 10 # 32 # join_with (CRLF @ [32]) (y # ys)"] by (simp add: CRLF_def)
  with 3 show ?case by simp
qed simp

text \<open>Folding a line loses nothing and respects the limit of RFC 5545. Every line without a carriage
  return whose characters can be encoded is folded into physical lines of at most 75 octets, a
  continuation counting the space it starts with; never inside a character; and unfolding gives the line
  back.\<close>

theorem fold_line_correct:
  assumes "13 \<notin> set line" "\<forall>c\<in>set line. \<not> (55296 \<le> c \<and> c \<le> 57343)"
  shows "\<exists>first rest. fold_line line = Inr (join_with CRLF (first # map (\<lambda>s. 32 # s) rest))
     \<and> octets first \<le> 75 \<and> (\<forall>s\<in>set rest. octets (32 # s) \<le> 75)
     \<and> first @ concat rest = line
     \<and> unfold_lines (join_with CRLF (first # map (\<lambda>s. 32 # s) rest)) = line"
proof -
  have "\<forall>c\<in>set line. \<exists>n. utf8_size c = Inr n" using assms(2) by (auto simp: utf8_size_def)
  then obtain out where out: "fold_chars [] [] 0 ICS_MAX_OCTETS line = Inr out"
    using fold_chars_total by blast
  have more: "out \<noteq> [] \<and> concat out = line
      \<and> (\<forall>i < length out. octets (out ! i) \<le> (if i = 0 then 75 else 74))"
    using fold_chars_correct [OF out] by (auto simp: ICS_MAX_OCTETS_def)
  then obtain first rest where cons: "out = first # rest" by (cases out) auto
  have join: "join_with (CRLF @ [32]) (x # xs) = join_with CRLF (x # map (\<lambda>s. 32 # s) xs)" for x xs
  proof (induction xs arbitrary: x)
    case (Cons y ys)
    have "join_with CRLF ((32 # y) # zs) = 32 # join_with CRLF (y # zs)" for zs by (cases zs) simp_all
    with Cons [of y] show ?case by simp
  qed simp
  have "octets s \<le> 74" if "s \<in> set rest" for s
  proof -
    obtain i where "i < length rest" "rest ! i = s" using \<open>s \<in> set rest\<close> by (auto simp: in_set_conv_nth)
    then have "Suc i < length out" "out ! Suc i = s" by (simp_all add: cons)
    with more show ?thesis by fastforce
  qed
  then have small: "\<forall>s\<in>set rest. octets (32 # s) \<le> 75" by (auto simp: utf8_size_def)
  have "octets first \<le> 75" using more by (fastforce simp: cons)
  moreover have "fold_line line = Inr (join_with CRLF (first # map (\<lambda>s. 32 # s) rest))"
    by (simp add: fold_line_def out cons join)
  moreover have "\<forall>x\<in>set out. 13 \<notin> set x" using more assms(1) by auto
  then have "unfold_lines (join_with CRLF (first # map (\<lambda>s. 32 # s) rest)) = line"
    using unfold_join [of out] more by (simp add: cons join)
  ultimately show ?thesis using more small by (auto simp: cons)
qed

theorem fold_line_correct_witness:
  "\<exists>first rest. fold_line (replicate 40 1488) = Inr (join_with CRLF (first # map (\<lambda>s. 32 # s) rest))
     \<and> octets first \<le> 75 \<and> unfold_lines (join_with CRLF (first # map (\<lambda>s. 32 # s) rest)) = replicate 40 1488"
  using fold_line_correct [of "replicate 40 1488"] by auto

end
