(* ===== verification/Booking_Manage.thy ===== *)
theory Booking_Manage
  imports Ics Booking_Writes Booking_Service Payments_Repo
begin

text \<open>
  The bride's link, \<open>ManageBookingService\<close> and \<open>ManageBookingTransitions\<close> of \<open>app/booking/manage.py\<close>:
  looking a booking up by its token, confirming attendance, cancelling and the calendar file. The link
  is the only credential, so the theorems say what it opens and that two taps count once.
\<close>

section \<open>Tokens\<close>

definition manage_token_hash :: "env \<Rightarrow> utext \<Rightarrow> utext" where
  "manage_token_hash e raw = e_hash e raw"

definition manage_token_matches :: "env \<Rightarrow> utext \<Rightarrow> utext option \<Rightarrow> bool" where
  "manage_token_matches e raw stored_hash =
     (case stored_hash of None \<Rightarrow> False | Some h \<Rightarrow> manage_token_hash e raw = h)"

section \<open>The page\<close>

definition profile_text :: "(string \<times> json) list \<Rightarrow> string \<Rightarrow> utext option" where
  "profile_text profile key =
     (case map_of profile key of
        Some (J_text t) \<Rightarrow> (let stripped = ustrip t in if stripped = [] then None else Some stripped)
      | _ \<Rightarrow> None)"

record manage_tenant =
  mt_id :: uuid
  mt_name :: utext
  mt_settings :: "(string \<times> json) list"

definition profile_of :: "manage_tenant \<Rightarrow> (string \<times> json) list" where
  "profile_of tenant = (case map_of (mt_settings tenant) ''profile'' of Some (J_object p) \<Rightarrow> p | _ \<Rightarrow> [])"

record manage_facts =
  mf_starts_at :: instant
  mf_status :: booking_status
  mf_attendance_at :: "instant option"
  mf_type_name :: utext
  mf_dress_name :: "utext option"
  mf_dress_size :: "utext option"
  mf_deposit_taken :: bool

record manage_boutique =
  mb_name :: utext
  mb_phone :: "utext option"
  mb_address :: "utext option"
  mb_maps_url :: "utext option"

record manage_response =
  mr_booking :: manage_facts
  mr_policy :: "(int \<times> int) option"
  mr_boutique :: manage_boutique

definition manage_render :: "manage_tenant \<Rightarrow> booking \<Rightarrow> db \<Rightarrow> manage_response" where
  "manage_render tenant b s =
     (let accepted = (case b_terms_version b of None \<Rightarrow> None | Some v \<Rightarrow> terms_by_version (mt_id tenant) v s);
          payment = by_booking_ids (mt_id tenant) [b_id b] s (b_id b);
          profile = profile_of tenant in
      \<lparr>mr_booking =
         \<lparr>mf_starts_at = b_starts_at b, mf_status = b_status b, mf_attendance_at = b_attendance_at b,
          mf_type_name = b_type_name b, mf_dress_name = b_dress_name b, mf_dress_size = b_dress_size b,
          mf_deposit_taken = (case payment of None \<Rightarrow> False | Some p \<Rightarrow> p_status p = Paid)\<rparr>,
       mr_policy = map_option (\<lambda>v. (v_refundable_until_hours v, v_forfeit_percent v)) accepted,
       mr_boutique =
         \<lparr>mb_name = mt_name tenant, mb_phone = profile_text profile ''phone'',
          mb_address = profile_text profile ''address'', mb_maps_url = profile_text profile ''maps_url''\<rparr>\<rparr>)"

section \<open>Transitions\<close>

definition manage_confirm :: "manage_tenant \<Rightarrow> booking \<Rightarrow> instant \<Rightarrow> db \<Rightarrow> error + db \<times> manage_response" where
  "manage_confirm tenant b now s =
     andthen (ensure Booking_is_cancelled (b_status b \<noteq> Cancelled)) (\<lambda>_.
     andthen (ensure Awaiting_payment (b_status b \<noteq> Pending_payment)) (\<lambda>_.
     andthen (ensure Already_started (b_starts_at b > now)) (\<lambda>_.
     andthen (confirm_attendance (mt_id tenant) (b_id b) now s) (\<lambda>(s1, updated).
     Inr (s1, manage_render tenant (case updated of None \<Rightarrow> b | Some b' \<Rightarrow> b') s1)))))"

definition manage_cancel :: "manage_tenant \<Rightarrow> booking \<Rightarrow> instant \<Rightarrow> db \<Rightarrow> error + db \<times> manage_response" where
  "manage_cancel tenant b now s =
     (if b_status b = Cancelled then Inr (s, manage_render tenant b s)
      else
        andthen (ensure Awaiting_payment (b_status b \<noteq> Pending_payment)) (\<lambda>_.
        andthen (ensure Already_started (b_starts_at b > now)) (\<lambda>_.
        andthen (cancel_booking (mt_id tenant) (b_id b) now By_customer [Confirmed] None s) (\<lambda>(s1, updated).
        andthen (cancel_pending (mt_id tenant) (b_id b) Reminder s1) (\<lambda>(s2, _).
        Inr (s2, manage_render tenant (case updated of None \<Rightarrow> b | Some b' \<Rightarrow> b') s2))))))"

definition duration_by_id :: "uuid \<Rightarrow> uuid \<Rightarrow> db \<Rightarrow> error + int option" where
  "duration_by_id tn tid s =
     andthen (one_or_none (\<lambda>t. t_tenant t = tn \<and> t_id t = tid) (d_types s)) (\<lambda>t.
     Inr (map_option t_duration t))"

definition manage_ics ::
  "(uuid \<Rightarrow> utext) \<Rightarrow> manage_tenant \<Rightarrow> booking \<Rightarrow> utext \<Rightarrow> utext \<Rightarrow> instant \<Rightarrow> db \<Rightarrow> error + utext" where
  "manage_ics show_id tenant b slug base_domain now s =
     andthen (ensure Booking_is_cancelled (b_status b \<noteq> Cancelled)) (\<lambda>_.
     andthen (ensure Awaiting_payment (b_status b \<noteq> Pending_payment)) (\<lambda>_.
     andthen (duration_by_id (mt_id tenant) (b_type b) s) (\<lambda>duration.
     andthen (need Booking_not_found duration) (\<lambda>minutes.
     build_ics show_id b minutes (mt_name tenant) (profile_text (profile_of tenant) ''address'')
       slug base_domain now))))"

section \<open>The service\<close>

definition meter_lookup ::
  "limiter_cfg \<Rightarrow> uuid \<Rightarrow> int \<Rightarrow> limiter_key limiter \<Rightarrow> limiter_key limiter \<times> (error + unit)" where
  "meter_lookup cfg tn tick l =
     (if is_blocked cfg l tick (Manage_lookup_key tn) then (l, Inl Lookup_throttled)
      else (record_failure cfg l tick tick (Manage_lookup_key tn), Inr ()))"

definition resolve_token :: "env \<Rightarrow> uuid \<Rightarrow> utext \<Rightarrow> db \<Rightarrow> error + booking" where
  "resolve_token e tn token s =
     andthen (by_manage_token_hash tn (manage_token_hash e token) s) (\<lambda>found.
     case found of
       None \<Rightarrow> Inl Link_invalid
     | Some b \<Rightarrow> if manage_token_matches e token (b_token_hash b) then Inr b else Inl Link_invalid)"

definition link_lookup ::
  "env \<Rightarrow> limiter_cfg \<Rightarrow> manage_tenant \<Rightarrow> utext \<Rightarrow> int \<Rightarrow> db \<Rightarrow> limiter_key limiter
   \<Rightarrow> limiter_key limiter \<times> (error + manage_response)" where
  "link_lookup e cfg tenant token tick s l =
     (let (l', metered) = meter_lookup cfg (mt_id tenant) tick l in
      (l', andthen metered (\<lambda>_.
           andthen (resolve_token e (mt_id tenant) token s) (\<lambda>b. Inr (manage_render tenant b s)))))"

definition link_confirm_attendance ::
  "env \<Rightarrow> manage_tenant \<Rightarrow> utext \<Rightarrow> instant \<Rightarrow> db \<Rightarrow> error + db \<times> manage_response" where
  "link_confirm_attendance e tenant token now s =
     andthen (resolve_token e (mt_id tenant) token s) (\<lambda>b. manage_confirm tenant b now s)"

definition link_cancel ::
  "env \<Rightarrow> manage_tenant \<Rightarrow> utext \<Rightarrow> instant \<Rightarrow> db \<Rightarrow> error + db \<times> manage_response" where
  "link_cancel e tenant token now s =
     andthen (resolve_token e (mt_id tenant) token s) (\<lambda>b. manage_cancel tenant b now s)"

definition link_ics ::
  "env \<Rightarrow> (uuid \<Rightarrow> utext) \<Rightarrow> limiter_cfg \<Rightarrow> manage_tenant \<Rightarrow> utext \<Rightarrow> utext \<Rightarrow> utext \<Rightarrow> int \<Rightarrow> instant \<Rightarrow> db
   \<Rightarrow> limiter_key limiter \<Rightarrow> limiter_key limiter \<times> (error + utext)" where
  "link_ics e show_id cfg tenant token slug base_domain tick now s l =
     (let (l', metered) = meter_lookup cfg (mt_id tenant) tick l in
      (l', andthen metered (\<lambda>_.
           andthen (resolve_token e (mt_id tenant) token s) (\<lambda>b.
           manage_ics show_id tenant b slug base_domain now s))))"

section \<open>What a link opens\<close>

lemma resolve_token_Inr:
  assumes "db_ok s" "resolve_token e tn token s = Inr b"
  shows "booking_by_id tn (b_id b) s = Some b" "b_token_hash b = Some (e_hash e token)" "b_tenant b = tn"
proof -
  have found: "by_manage_token_hash tn (manage_token_hash e token) s = Inr (Some b)"
    using assms(2) by (auto simp: resolve_token_def handler_simps split: option.splits if_splits)
  have b: "b \<in> set (d_bookings s)" "b_tenant b = tn" "b_token_hash b = Some (e_hash e token)" "\<not> b_deleted b"
    using one_or_none_SomeD [OF found [unfolded by_manage_token_hash_def]] by (simp_all add: manage_token_hash_def)
  then show "b_token_hash b = Some (e_hash e token)" "b_tenant b = tn" by simp_all
  show "booking_by_id tn (b_id b) s = Some b"
    using bk.fetch_mem [OF db_okD(1) [OF assms(1)] b(1,4)] b(2) by (simp add: booking_by_id_fetch)
qed

text \<open>The second gate of \<open>_resolve\<close> never fires: the row the index answers already matches.\<close>

lemma resolve_token_unique:
  assumes "\<And>x. x \<in> set (d_bookings s) \<Longrightarrow> b_tenant x = tn \<Longrightarrow> b_token_hash x = Some (e_hash e token) \<Longrightarrow>
             \<not> b_deleted x \<Longrightarrow> b_id x = bid"
    and "db_ok s" "booking_by_id tn bid s = Some b" "b_token_hash b = Some (e_hash e token)"
  shows "resolve_token e tn token s = Inr b"
proof -
  let ?P = "\<lambda>x. b_tenant x = tn \<and> b_token_hash x = Some (e_hash e token) \<and> \<not> b_deleted x"
  obtain pre post where rows: "d_bookings s = pre @ b # post" "\<forall>x\<in>set (pre @ post). b_id x \<noteq> bid"
    by (rule bk.one_row [OF db_okD(1) [OF assms(2)] assms(3) [unfolded booking_by_id_fetch], of id])
  have "filter ?P (d_bookings s) = [b]"
  proof -
    have none: "\<not> ?P x" if "x \<in> set (pre @ post)" for x
      using assms(1) [of x] rows that by auto
    have "?P b" using assms(4) booking_by_id_SomeD [OF assms(3)] by simp
    with none show ?thesis unfolding rows(1) by (simp add: filter_False)
  qed
  then show ?thesis
    using assms(4)
    by (simp add: resolve_token_def by_manage_token_hash_def manage_token_hash_def one_or_none_def
        manage_token_matches_def)
qed

lemma manage_cancel_run:
  assumes ok: "db_ok s" and b: "booking_by_id (mt_id tenant) (b_id b) s = Some b"
    and st: "b_status b = Confirmed" "now < b_starts_at b"
  defines "f \<equiv> \<lambda>b. b\<lparr>b_status := Cancelled, b_cancelled_at := Some now, b_cancelled_by := Some By_customer\<rparr>"
  defines "s' \<equiv> unremind (mt_id tenant) (b_id b) (write_booking (mt_id tenant) (b_id b) f s)"
  shows "manage_cancel tenant b now s = Inr (s', manage_render tenant (f b) s')"
    and "db_ok s'" "booking_by_id (mt_id tenant) (b_id b) s' = Some (f b)"
    and "set (active_seats_at t at s') =
      set (active_seats_at t at s) - (if t = mt_id tenant \<and> at = b_starts_at b then {b_seat b} else {})"
    and "pending_for_booking (mt_id tenant) (b_id b) Reminder s' = None"
proof -
  let ?w = "write_booking (mt_id tenant) (b_id b) f s"
  have okw: "db_ok ?w"
    by (rule db_ok_hold [OF ok b, where g = "\<lambda>_. True"]) (auto simp: place_defs f_def bk.keeps_name_def)
  then show "db_ok s'" unfolding s'_def by (rule db_ok_unremind)
  show "manage_cancel tenant b now s = Inr (s', manage_render tenant (f b) s')"
    using cancel_booking_run [OF db_okD(1) [OF ok], of "mt_id tenant" "b_id b" now By_customer "[Confirmed]" None]
      cancel_pending_run [OF db_okD(3) [OF okw], of "mt_id tenant" "b_id b" Reminder] b st
    by (simp add: manage_cancel_def f_def s'_def when_given_def unremind_def)
  have "booking_by_id (mt_id tenant) (b_id b) ?w = Some (f b)"
    using b by (subst booking_by_id_write) (simp_all add: f_def bk.keeps_name_def)
  then show "booking_by_id (mt_id tenant) (b_id b) s' = Some (f b)"
    by (simp add: booking_by_id_def s'_def)
  have "seated_at t at b \<longleftrightarrow> t = mt_id tenant \<and> at = b_starts_at b"
    using booking_by_id_SomeD [OF b] st by (auto simp: seated_at_def)
  then show "set (active_seats_at t at s') =
      set (active_seats_at t at s) - (if t = mt_id tenant \<and> at = b_starts_at b then {b_seat b} else {})"
    using cancel_frees [OF db_okD(1) [OF ok] b, of f t at] by (simp add: s'_def f_def active_seats_at_def)
  show "pending_for_booking (mt_id tenant) (b_id b) Reminder s' = None"
    using unremind_ok(3) [OF db_okD(3) [OF okw], of "mt_id tenant" "b_id b"]
    by (simp add: pending_for_booking_def find_None_iff s'_def)
qed

text \<open>A claim mints the link it sends: the new booking's hash and its first reminder agree.\<close>

lemma claim_seat_links:
  assumes ok: "db_ok s" and agree: "links_agree e s"
    and c: "claim_seat e tn at now cid t v tok due k s = Inr (s', b)"
  shows "links_agree e s'"
proof -
  obtain sl ms where s': "s' = s\<lparr>d_bookings := d_bookings s @ [b], d_messages := d_messages s @ ms,
            d_next := d_next s + 1 + length ms\<rparr>"
    and b: "b_id b = d_next s" "b_token_hash b = Some (e_hash e tok)"
    and ms: "case reminder_send_after at now of None \<Rightarrow> ms = []
     | Some sat \<Rightarrow> \<exists>m. ms = [m] \<and> m_id m = d_next s + 1 \<and> m_tenant m = tn \<and> m_booking m = Some (b_id b)
         \<and> m_entry m = None \<and> m_kind m = Reminder \<and> m_send_after m = sat \<and> m_token m = Some tok
         \<and> m_status m = Msg_pending \<and> \<not> m_deleted m \<and> messages_ok (d_messages s @ [m])"
    by (rule claim_seat_Inr [OF c])
  have by_id: "booking_by_id tn' i s' = (case booking_by_id tn' i s of
      Some x \<Rightarrow> Some x | None \<Rightarrow> if names_booking tn' i b then Some b else None)" for tn' i
    by (simp add: booking_by_id_def s' find_append split: option.split)
  have new_id: "booking_by_id tn' i s' = Some b" if "booking_by_id tn' i s' = Some x" "i = d_next s" for tn' i x
  proof -
    have "booking_by_id tn' i s = None"
      using booking_by_id_below [OF ok] that(2) by (cases "booking_by_id tn' i s") auto
    with that(1) show ?thesis by (simp add: by_id split: if_splits)
  qed
  have old: "link_works e s' m" if "m \<in> set (d_messages s)" for m
  proof (rule link_works_cong)
    show "link_works e s m" using agree that by (simp add: links_agree_def list_all_iff)
    fix tn' i b' assume m: "booking_by_id tn' i s' = Some b'" "m_booking m = Some i" "m_tenant m = tn'"
    have "i < d_next s" using db_okD(11) [OF ok] that m(2) by (auto simp: subjects_below_def list_all_iff)
    then have "\<not> names_booking tn' i b" using b(1) by (simp add: names_booking_def)
    with m(1) show "\<exists>b. booking_by_id tn' i s = Some b \<and> b_token_hash b' = b_token_hash b"
      by (auto simp: by_id split: option.splits)
  qed
  have "link_works e s' m" if "m \<in> set ms" for m
  proof -
    have m: "m_booking m = Some (d_next s)" "m_token m = Some tok"
      using ms that b(1) by (auto split: option.splits)
    show ?thesis unfolding link_works_iff using new_id m b by fastforce
  qed
  with old show ?thesis by (auto simp: links_agree_def list_all_iff s')
qed

text \<open>What the bride's cancellation does. A link that resolves opens a booking of its own shop that
  carries the link's hash; cancelling by it before the start frees exactly that booking's seat and
  silences its reminder, and tapping again answers the same cancelled booking and changes nothing more;
  a booking whose deposit is owed, or that has started, is refused with nothing written.\<close>

theorem link_cancel_once:
  assumes "db_ok s" "resolve_token e (mt_id tenant) token s = Inr b"
    and "\<And>x. x \<in> set (d_bookings s) \<Longrightarrow> b_tenant x = mt_id tenant \<Longrightarrow>
           b_token_hash x = Some (e_hash e token) \<Longrightarrow> \<not> b_deleted x \<Longrightarrow> b_id x = b_id b"
  shows "case b_status b of
      Cancelled \<Rightarrow> link_cancel e tenant token now s = Inr (s, manage_render tenant b s)
    | Pending_payment \<Rightarrow> link_cancel e tenant token now s = Inl Awaiting_payment
    | Confirmed \<Rightarrow>
        if b_starts_at b \<le> now then link_cancel e tenant token now s = Inl Already_started
        else \<exists>s' r. link_cancel e tenant token now s = Inr (s', r) \<and> db_ok s'
          \<and> mf_status (mr_booking r) = Cancelled
          \<and> (\<forall>t at. set (active_seats_at t at s') = set (active_seats_at t at s)
               - (if t = mt_id tenant \<and> at = b_starts_at b then {b_seat b} else {}))
          \<and> pending_for_booking (mt_id tenant) (b_id b) Reminder s' = None
          \<and> (\<forall>later. link_cancel e tenant token later s' = Inr (s', r))
    | _ \<Rightarrow> b_starts_at b \<le> now \<longrightarrow> link_cancel e tenant token now s = Inl Already_started"
proof -
  note r = resolve_token_Inr [OF assms(1,2)]
  let ?f = "\<lambda>b. b\<lparr>b_status := Cancelled, b_cancelled_at := Some now, b_cancelled_by := Some By_customer\<rparr>"
  let ?s' = "unremind (mt_id tenant) (b_id b) (write_booking (mt_id tenant) (b_id b) ?f s)"
  have fresh: ?thesis if "\<not> (b_status b = Confirmed \<and> now < b_starts_at b)"
    using that assms(2) by (cases "b_status b") (auto simp: link_cancel_def manage_cancel_def not_less)
  show ?thesis
  proof (cases "b_status b = Confirmed \<and> now < b_starts_at b")
    case True
    then have st: "b_status b = Confirmed" "now < b_starts_at b" by simp_all
    note run = manage_cancel_run [OF assms(1) r(1) st]
    have "x = ?f b \<or> x \<in> set (d_bookings s)" if "x \<in> set (d_bookings ?s')" for x
    proof -
      obtain pre post where "d_bookings s = pre @ b # post"
        "update_where (bk.named (mt_id tenant) (b_id b)) ?f (d_bookings s) = pre @ ?f b # post"
        using bk.one_row [OF db_okD(1) [OF assms(1)] r(1) [unfolded booking_by_id_fetch]] by blast
      with that show ?thesis by (auto simp: names_booking_named)
    qed
    then have "b_id x = b_id b" if "x \<in> set (d_bookings ?s')" "b_tenant x = mt_id tenant"
      "b_token_hash x = Some (e_hash e token)" "\<not> b_deleted x" for x
      using that assms(3) by fastforce
    then have "resolve_token e (mt_id tenant) token ?s' = Inr (?f b)"
      by (rule resolve_token_unique) (use run(2,3) r(2) in simp_all)
    then have "link_cancel e tenant token later ?s' = Inr (?s', manage_render tenant (?f b) ?s')" for later
      by (simp add: link_cancel_def manage_cancel_def)
    moreover have "mf_status (mr_booking (manage_render tenant (?f b) ?s')) = Cancelled"
      by (simp add: manage_render_def Let_def)
    ultimately have "\<exists>s' r. link_cancel e tenant token now s = Inr (s', r) \<and> db_ok s'
          \<and> mf_status (mr_booking r) = Cancelled
          \<and> (\<forall>t at. set (active_seats_at t at s') = set (active_seats_at t at s)
               - (if t = mt_id tenant \<and> at = b_starts_at b then {b_seat b} else {}))
          \<and> pending_for_booking (mt_id tenant) (b_id b) Reminder s' = None
          \<and> (\<forall>later. link_cancel e tenant token later s' = Inr (s', r))"
      using run assms(2) by (intro exI [of _ ?s'] exI [of _ "manage_render tenant (?f b) ?s'"]) (simp add: link_cancel_def)
    with st show ?thesis by simp
  qed (rule fresh)
qed

text \<open>A shop with one confirmed visit whose link is the token 1.\<close>

definition linked_visit :: booking where "linked_visit = waiting_booking\<lparr>b_status := Confirmed\<rparr>"

definition link_shop :: db where
  "link_shop = shop_db\<lparr>d_bookings := [linked_visit],
     d_messages := [\<lparr>m_id = 9, m_tenant = 4, m_booking = Some 6, m_entry = None, m_kind = Reminder, m_send_after = 0,
       m_status = Msg_pending, m_token = Some [1], m_created_at = 0, m_deleted = False\<rparr>]\<rparr>"

definition link_tenant :: manage_tenant where
  "link_tenant = \<lparr>mt_id = 4, mt_name = [65], mt_settings = []\<rparr>"

lemma link_shop_facts:
  "db_ok link_shop" "links_agree sample_env link_shop" "resolve_token sample_env 4 [1] link_shop = Inr linked_visit"
  "booking_by_id 4 6 link_shop = Some linked_visit"
  by code_simp+

lemma linked_visit_sel:
  "b_status linked_visit = Confirmed" "b_starts_at linked_visit = hours 7" "b_id linked_visit = 6"
  "b_attendance_at linked_visit = None"
  "d_bookings link_shop = [linked_visit]"
  by (simp_all add: linked_visit_def waiting_booking_def link_shop_def)

theorem link_cancel_once_witness:
  "\<exists>s' r. link_cancel sample_env link_tenant [1] 5 link_shop = Inr (s', r) \<and> mf_status (mr_booking r) = Cancelled
     \<and> link_cancel sample_env link_tenant [1] 9 s' = Inr (s', r)"
proof -
  have t: "mt_id link_tenant = 4" by (simp add: link_tenant_def)
  have "(5 :: int) < hours 7" by (simp add: duration_defs)
  with link_cancel_once [of link_shop sample_env link_tenant "[1]" linked_visit 5] link_shop_facts(1,3)
  show ?thesis by (auto simp: t linked_visit_sel)
qed

text \<open>Attendance is confirmed once. Confirming by the link before the start stamps the booking with
  the first tap's time; a second tap, at any later time before the start, answers the first stamp and
  writes nothing; a cancelled booking, one whose deposit is owed, and one that has started are refused;
  and no seat or reminder is touched.\<close>

theorem attendance_confirmed_once:
  assumes "db_ok s" "resolve_token e (mt_id tenant) token s = Inr b"
  shows "if b_status b = Cancelled then link_confirm_attendance e tenant token now s = Inl Booking_is_cancelled
     else if b_status b = Pending_payment then link_confirm_attendance e tenant token now s = Inl Awaiting_payment
     else if b_starts_at b \<le> now then link_confirm_attendance e tenant token now s = Inl Already_started
     else \<exists>s' r. link_confirm_attendance e tenant token now s = Inr (s', r) \<and> db_ok s'
       \<and> d_messages s' = d_messages s
       \<and> (\<forall>t at. active_seats_at t at s' = active_seats_at t at s)
       \<and> mf_attendance_at (mr_booking r) =
            (if b_attendance_at b = None \<and> b_status b = Confirmed then Some now else b_attendance_at b)
       \<and> (\<exists>b'. booking_by_id (mt_id tenant) (b_id b) s' = Some b'
            \<and> b' = (if b_attendance_at b = None \<and> b_status b = Confirmed then b\<lparr>b_attendance_at := Some now\<rparr> else b)
            \<and> (\<forall>later < b_starts_at b. manage_confirm tenant b' later s' = Inr (s', r)))"
proof -
  note r = resolve_token_Inr [OF assms]
  let ?f = "\<lambda>b. b\<lparr>b_attendance_at := Some now\<rparr>"
  let ?first = "b_attendance_at b = None \<and> b_status b = Confirmed"
  define s' where "s' = (if ?first then write_booking (mt_id tenant) (b_id b) ?f s else s)"
  define b' where "b' = (if ?first then ?f b else b)"
  have ok: "db_ok s'"
    using assms(1) db_ok_hold [OF assms(1) r(1), where g = "\<lambda>_. True" and f = ?f] by (simp add: place_defs s'_def)
  have by_id: "booking_by_id (mt_id tenant) (b_id b) s' = Some b'"
    using r(1) by (simp add: booking_by_id_write s'_def b'_def)
  have seats: "active_seats_at t at s' = active_seats_at t at s" for t at
    by (simp add: seats_unmoved seated_at_def s'_def)
  show ?thesis
  proof (cases "b_status b \<in> {Cancelled, Pending_payment} \<or> b_starts_at b \<le> now")
    case True
    then show ?thesis using assms(2) by (auto simp: link_confirm_attendance_def manage_confirm_def ensure_def not_less)
  next
    case False
    then have run: "link_confirm_attendance e tenant token now s = Inr (s', manage_render tenant b' s')"
      using assms(2) r(1) confirm_attendance_run [OF db_okD(1) [OF assms(1)], of "mt_id tenant" "b_id b" now]
      by (auto simp: link_confirm_attendance_def manage_confirm_def s'_def b'_def)
    have again: "manage_confirm tenant b' later s' = Inr (s', manage_render tenant b' s')"
      if "later < b_starts_at b" for later
    proof -
      have keys: "b_status b' = b_status b" "b_starts_at b' = b_starts_at b" "b_id b' = b_id b"
        "\<not> (b_attendance_at b' = None \<and> b_status b' = Confirmed)"
        by (auto simp: b'_def)
      then have "confirm_attendance (mt_id tenant) (b_id b) later s' = Inr (s', Some b')"
        using confirm_attendance_run [OF db_okD(1) [OF ok], of "mt_id tenant" "b_id b" later]
        unfolding by_id option.case if_not_P [OF keys(4)] by blast
      with that False keys(1-3) show ?thesis by (simp add: manage_confirm_def)
    qed
    have "mf_attendance_at (mr_booking (manage_render tenant b' s')) = b_attendance_at b'"
      by (simp add: manage_render_def Let_def)
    then show ?thesis
      using False run ok by_id seats again
      by (auto simp: s'_def b'_def)
  qed
qed

theorem attendance_confirmed_once_witness:
  "\<exists>s' r. link_confirm_attendance sample_env link_tenant [1] 5 link_shop = Inr (s', r)
     \<and> mf_attendance_at (mr_booking r) = Some 5
     \<and> (\<exists>b'. booking_by_id 4 6 s' = Some b' \<and> manage_confirm link_tenant b' 9 s' = Inr (s', r))"
proof -
  have t: "mt_id link_tenant = 4" by (simp add: link_tenant_def)
  have "(5 :: int) < hours 7" "(9 :: int) < hours 7" by (simp_all add: duration_defs)
  with attendance_confirmed_once [of link_shop sample_env link_tenant "[1]" linked_visit 5] link_shop_facts(1,3)
  show ?thesis by (auto simp: t linked_visit_sel)
qed

text \<open>The reminder opens its booking. When every waiting reminder agrees with its booking's hash and
  no other booking of the shop has that hash, the token in a reminder resolves to exactly the booking it
  reminds of, so the text the bride receives lets her confirm or cancel that visit and no other.\<close>

theorem reminder_opens_its_booking:
  assumes "db_ok s" "links_agree e s" "m \<in> set (d_messages s)" "pending_message m" "m_kind m = Reminder"
    and "m_booking m = Some bid" "m_token m = Some t" "booking_by_id (m_tenant m) bid s = Some b"
    and "\<And>x. x \<in> set (d_bookings s) \<Longrightarrow> b_tenant x = m_tenant m \<Longrightarrow> b_token_hash x = Some (e_hash e t) \<Longrightarrow>
           \<not> b_deleted x \<Longrightarrow> b_id x = bid"
  shows "resolve_token e (m_tenant m) t s = Inr b"
proof -
  have "b_token_hash b = Some (e_hash e t)"
    using assms(2-8) by (auto simp: links_agree_def list_all_iff link_works_iff)
  show ?thesis
    by (rule resolve_token_unique [OF _ assms(1,8) \<open>b_token_hash b = Some (e_hash e t)\<close>]) (rule assms(9))
qed

theorem reminder_opens_its_booking_witness:
  "\<exists>m\<in>set (d_messages link_shop). m_token m = Some [1]
     \<and> resolve_token sample_env (m_tenant m) [1] link_shop = Inr linked_visit"
proof -
  define m where "m = hd (d_messages link_shop)"
  have m: "m \<in> set (d_messages link_shop)" "pending_message m" "m_kind m = Reminder" "m_booking m = Some 6"
    "m_token m = Some [1]" "m_tenant m = 4"
    by (simp_all add: m_def link_shop_def pending_message_def)
  have "resolve_token sample_env (m_tenant m) [1] link_shop = Inr linked_visit"
    by (rule reminder_opens_its_booking [OF link_shop_facts(1,2) m(1-5)])
      (use link_shop_facts(4) in \<open>auto simp: m(6) linked_visit_sel\<close>)
  with m show ?thesis by blast
qed

end
