(* ===== verification/Waitlist_Service.thy ===== *)
theory Waitlist_Service
  imports Booking_Manage Otp
begin

text \<open>
  The waitlist around a full day: joining it and the console's list (\<open>WaitlistService\<close>,
  \<open>app/waitlist/service.py\<close>) and what a bride may do with an offered place (\<open>WaitlistOfferService\<close>,
  \<open>app/waitlist/offer_service.py\<close>). Each handler runs in one transaction; the limiters are in memory
  and keep what they counted when it rolls back.
\<close>

section \<open>Joining\<close>

record waitlist_limits =
  wl_tenant :: "limiter_key limiter"
  wl_phone :: "limiter_key limiter"

record waitlist_config =
  wf_tenant :: limiter_cfg
  wf_phone :: limiter_cfg

record join_response =
  wj_day :: date
  wj_type :: uuid
  wj_status :: entry_status

text \<open>The INSERT runs in a savepoint: losing to the active index, it reads the row that won.\<close>

definition join_in_session :: "uuid \<Rightarrow> date \<Rightarrow> uuid \<Rightarrow> utext \<Rightarrow> db \<Rightarrow> error + db \<times> join_response" where
  "join_in_session tn day tid phone s =
     andthen (need Booking_not_found (type_by_id tn tid s)) (\<lambda>_.
     let (s1, row) = (case insert_entry tn day tid phone s of
                        Inl _ \<Rightarrow> (s, by_active_tuple tn phone day tid s)
                      | Inr (s', w) \<Rightarrow> (s', Some w)) in
     andthen (need Booking_not_found row) (\<lambda>w.
     Inr (s1, \<lparr>wj_day = w_day w, wj_type = w_type w, wj_status = w_status w\<rparr>)))"

definition join_waitlist ::
  "env \<Rightarrow> waitlist_config \<Rightarrow> uuid \<Rightarrow> utext \<Rightarrow> utext \<Rightarrow> date \<Rightarrow> uuid \<Rightarrow> int \<Rightarrow> instant \<Rightarrow> instant
   \<Rightarrow> db \<times> waitlist_limits \<Rightarrow> (db \<times> waitlist_limits) \<times> (error + join_response)" where
  "join_waitlist e cfg tn raw token day tid tick now otp_now st =
     (let (s, l) = st in
      case normalize_israeli_mobile raw of
        None \<Rightarrow> (st, Inl Phone_invalid)
      | Some phone \<Rightarrow>
          (case validate_waitlist_day (e_zone e) now day of
             Inl _ \<Rightarrow> (st, Inl (Domain_validation ''day is outside the joinable window''))
           | Inr _ \<Rightarrow>
               if is_blocked (wf_tenant cfg) (wl_tenant l) tick (Waitlist_tenant_key tn)
                  \<or> is_blocked (wf_phone cfg) (wl_phone l) tick (Waitlist_phone_key tn phone)
               then (st, Inl Waitlist_throttled)
               else
                 (case consume_verification e tn raw token otp_now s of
                    Inl err \<Rightarrow> (st, Inl err)
                  | Inr (s1, verified) \<Rightarrow>
                      if \<not> verified then (st, Inl Phone_not_verified)
                      else
                        let l1 = \<lparr>wl_tenant = record_failure (wf_tenant cfg) (wl_tenant l) tick tick
                                    (Waitlist_tenant_key tn),
                                  wl_phone = record_failure (wf_phone cfg) (wl_phone l) tick tick
                                    (Waitlist_phone_key tn phone)\<rparr> in
                        (case join_in_session tn day tid phone s1 of
                           Inl err \<Rightarrow> ((s, l1), Inl err)
                         | Inr (s2, r) \<Rightarrow> ((s2, l1), Inr r)))))"

section \<open>The console's list\<close>

record waitlist_row =
  wr_id :: uuid
  wr_day :: date
  wr_type :: uuid
  wr_type_name :: "utext option"
  wr_phone :: utext
  wr_customer_name :: "utext option"
  wr_status :: entry_status
  wr_created_at :: instant
  wr_offer_starts_at :: "instant option"
  wr_offer_expires_at :: "instant option"

text \<open>The two dicts, built row by row: the last row of a key stays.\<close>

definition customer_names :: "uuid \<Rightarrow> utext set \<Rightarrow> db \<Rightarrow> utext \<Rightarrow> utext option" where
  "customer_names tn phones s phone =
     map_option c_name (find (\<lambda>c. c_tenant c = tn \<and> c_phone c = phone \<and> c_phone c \<in> phones \<and> \<not> c_deleted c)
       (rev (d_customers s)))"

definition type_names :: "uuid \<Rightarrow> uuid set \<Rightarrow> db \<Rightarrow> uuid \<Rightarrow> utext option" where
  "type_names tn ids s tid =
     map_option t_name (find (\<lambda>t. t_tenant t = tn \<and> t_id t = tid \<and> t_id t \<in> ids) (rev (d_types s)))"

definition decorate :: "uuid \<Rightarrow> entry list \<Rightarrow> db \<Rightarrow> waitlist_row list" where
  "decorate tn entries s =
     map (\<lambda>w. \<lparr>wr_id = w_id w, wr_day = w_day w, wr_type = w_type w,
               wr_type_name = type_names tn (set (map w_type entries)) s (w_type w),
               wr_phone = w_phone w,
               wr_customer_name = customer_names tn (set (map w_phone entries)) s (w_phone w),
               wr_status = w_status w, wr_created_at = w_created_at w,
               wr_offer_starts_at = w_offer_starts_at w, wr_offer_expires_at = w_offer_expires_at w\<rparr>) entries"

definition list_entries :: "env \<Rightarrow> uuid \<Rightarrow> date option \<Rightarrow> instant \<Rightarrow> db \<Rightarrow> waitlist_row list" where
  "list_entries e tn day now s =
     decorate tn (list_active_entries tn day
       (if day \<noteq> None then None else Some (today_jerusalem (e_zone e) now)) s) s"

definition cancel_waitlist_entry :: "uuid \<Rightarrow> uuid \<Rightarrow> db \<Rightarrow> error + db \<times> waitlist_row" where
  "cancel_waitlist_entry tn wid s =
     andthen (cancel_entry tn wid s) (\<lambda>(s1, cancelled).
     case cancelled of
       None \<Rightarrow>
         andthen (need Booking_not_found (entry_by_id tn wid s1)) (\<lambda>existing.
         Inr (s1, hd (decorate tn [existing] s1)))
     | Some w \<Rightarrow>
         andthen (cancel_pending_for_entry tn (w_id w) Waitlist_offer s1) (\<lambda>(s2, _).
         let s3 = record_audit tn Waitlist_entry_cancelled (Some (w_id w)) s2 in
         Inr (s3, hd (decorate tn [w] s3))))"

section \<open>An offered place\<close>

definition entry_status_value :: "entry_status \<Rightarrow> string" where
  "entry_status_value st =
     (case st of Waiting \<Rightarrow> ''waiting'' | Offered \<Rightarrow> ''offered'' | Claimed \<Rightarrow> ''claimed''
      | Expired \<Rightarrow> ''expired'' | Withdrawn \<Rightarrow> ''cancelled'')"

definition meter_offer ::
  "limiter_cfg \<Rightarrow> uuid \<Rightarrow> int \<Rightarrow> limiter_key limiter \<Rightarrow> limiter_key limiter \<times> (error + unit)" where
  "meter_offer cfg tn tick l =
     (if is_blocked cfg l tick (Offer_lookup_key tn) then (l, Inl Waitlist_throttled)
      else (record_failure cfg l tick tick (Offer_lookup_key tn), Inr ()))"

definition resolve_offer :: "env \<Rightarrow> utext \<Rightarrow> uuid \<Rightarrow> db \<Rightarrow> error + entry" where
  "resolve_offer e token tn s =
     (case by_offer_token_hash (manage_token_hash e token) s of
        None \<Rightarrow> Inl Offer_not_found
      | Some w \<Rightarrow>
          if w_token_hash w = None then Inl Offer_not_found
          else if \<not> manage_token_matches e token (w_token_hash w) then Inl Offer_not_found
          else if w_tenant w \<noteq> tn then Inl Offer_not_found
          else Inr w)"

record offer_response =
  of_status :: entry_status
  of_starts_at :: "instant option"
  of_expires_at :: "instant option"
  of_type_name :: "utext option"

definition offer_view :: "entry \<Rightarrow> instant \<Rightarrow> db \<Rightarrow> offer_response" where
  "offer_view w now s =
     \<lparr>of_status =
        (if w_status w = Offered \<and> (case w_offer_expires_at w of None \<Rightarrow> False | Some t \<Rightarrow> t \<le> now)
         then Expired else w_status w),
      of_starts_at = w_offer_starts_at w, of_expires_at = w_offer_expires_at w,
      of_type_name = map_option t_name (type_by_id (w_tenant w) (w_type w) s)\<rparr>"

definition lookup_offer ::
  "env \<Rightarrow> limiter_cfg \<Rightarrow> uuid \<Rightarrow> utext \<Rightarrow> int \<Rightarrow> instant \<Rightarrow> db \<Rightarrow> limiter_key limiter
   \<Rightarrow> limiter_key limiter \<times> (error + offer_response)" where
  "lookup_offer e cfg tn token tick now s l =
     (let (l', metered) = meter_offer cfg tn tick l in
      (l', andthen metered (\<lambda>_. andthen (resolve_offer e token tn s) (\<lambda>w. Inr (offer_view w now s)))))"

definition claim_offer ::
  "env \<Rightarrow> uuid \<Rightarrow> utext \<Rightarrow> utext \<Rightarrow> int \<Rightarrow> (string \<times> json) list option \<Rightarrow> bool \<Rightarrow> utext \<Rightarrow> instant \<Rightarrow> db
   \<Rightarrow> error + db \<times> booking_claim" where
  "claim_offer e tn token name terms settings connected minted now s =
     andthen (validate_booking_request name None None None) (\<lambda>_.
     andthen (resolve_offer e token tn s) (\<lambda>w.
     andthen (need Terms_stale (current_terms tn s)) (\<lambda>current.
     andthen (ensure Terms_stale (terms = v_version current)) (\<lambda>_.
     andthen (need Offer_not_found (type_by_id tn (w_type w) s)) (\<lambda>t.
     andthen (need Offer_not_found (w_offer_starts_at w)) (\<lambda>starts_at.
     andthen (claim_entry tn (w_id w) now s) (\<lambda>(s1, won).
     if \<not> won then
       Inl (Offer_not_claimable
         (entry_status_value (case entry_by_id tn (w_id w) s1 of None \<Rightarrow> Expired | Some w' \<Rightarrow> w_status w')))
     else
       andthen (cancel_pending_for_entry tn (w_id w) Waitlist_offer s1) (\<lambda>(s2, _).
       let due = deposit_due settings t connected in
       andthen (upsert_customer tn (w_phone w) (ustrip name) s2) (\<lambda>(s3, c).
       andthen (claim_seat e tn starts_at now (c_id c) t terms minted due no_details s3) (\<lambda>(s4, b).
       Inr (s4, \<lparr>bc_booking = b, bc_created = True, bc_manage_token = Some minted, bc_deposit_due = due,
                 bc_deposit_amount = deposit_amount t\<rparr>)))))))))))"

definition decline_offer ::
  "env \<Rightarrow> uuid \<Rightarrow> utext \<Rightarrow> instant \<Rightarrow> db \<Rightarrow> error + db \<times> offer_response" where
  "decline_offer e tn token now s =
     andthen (resolve_offer e token tn s) (\<lambda>w.
     andthen (cancel_entry tn (w_id w) s) (\<lambda>(s1, cancelled).
     case cancelled of
       None \<Rightarrow> Inr (s1, offer_view w now s1)
     | Some w' \<Rightarrow>
         andthen (cancel_pending_for_entry tn (w_id w) Waitlist_offer s1) (\<lambda>(s2, _).
         Inr (s2, offer_view w' now s2))))"

section \<open>Joining is idempotent\<close>

lemma by_active_tuple_SomeD:
  "by_active_tuple tn phone day tid s = Some w \<Longrightarrow>
   w \<in> set (d_entries s) \<and> entry_key w = (tn, phone, day, tid) \<and> active_entry w"
  unfolding by_active_tuple_def by (drule find_SomeD) (auto simp: entry_key_def active_entry_def)

lemma by_active_tuple_None:
  "by_active_tuple tn phone day tid s = None \<longleftrightarrow>
   (\<forall>w\<in>set (d_entries s). active_entry w \<longrightarrow> entry_key w \<noteq> (tn, phone, day, tid))"
  by (auto simp: by_active_tuple_def find_None_iff entry_key_def active_entry_def)

text \<open>The INSERT fails exactly when the queue already holds this bride.\<close>

lemma insert_entry_run:
  assumes "db_ok s"
  shows "insert_entry tn day tid phone s =
    (let row = \<lparr>w_id = d_next s, w_tenant = tn, w_day = day, w_type = tid, w_phone = phone,
                 w_status = Waiting, w_offered_at = None, w_offer_expires_at = None,
                 w_offer_starts_at = None, w_token_hash = None, w_created_at = d_now s,
                 w_deleted = False\<rparr> in
     if by_active_tuple tn phone day tid s = None
     then Inr (s\<lparr>d_entries := d_entries s @ [row], d_next := d_next s + 1\<rparr>, row) else Inl Integrity_error)"
proof -
  let ?row = "\<lparr>w_id = d_next s, w_tenant = tn, w_day = day, w_type = tid, w_phone = phone,
                 w_status = Waiting, w_offered_at = None, w_offer_expires_at = None,
                 w_offer_starts_at = None, w_token_hash = None, w_created_at = d_now s,
                 w_deleted = False\<rparr>"
  have "entries_ok (d_entries s @ [?row]) \<longleftrightarrow> by_active_tuple tn phone day tid s = None"
    using db_okD(4) [OF assms] ids_below_notin [OF db_okD(9) [OF assms]]
    unfolding by_active_tuple_None
    by (auto simp: entries_ok_def active_entry_def [of ?row] entry_key_def [of ?row])
  then show ?thesis by (simp add: insert_entry_def insert_row_def Let_def)
qed

lemma db_ok_new_entry:
  assumes "db_ok s" "insert_entry tn day tid phone s = Inr (s', w)"
  shows "db_ok s'" "d_messages s' = d_messages s" "d_bookings s' = d_bookings s"
    "d_entries s' = d_entries s @ [w]" "w_id w = d_next s" "w_status w = Waiting"
    "by_active_tuple tn phone day tid s' = Some w" "d_types s' = d_types s"
proof -
  have none: "by_active_tuple tn phone day tid s = None"
    and w: "w = \<lparr>w_id = d_next s, w_tenant = tn, w_day = day, w_type = tid, w_phone = phone,
                 w_status = Waiting, w_offered_at = None, w_offer_expires_at = None,
                 w_offer_starts_at = None, w_token_hash = None, w_created_at = d_now s,
                 w_deleted = False\<rparr>"
    and s': "s' = s\<lparr>d_entries := d_entries s @ [w], d_next := d_next s + 1\<rparr>"
    using assms(2) by (auto simp: insert_entry_run [OF assms(1)] Let_def split: if_splits)
  have "entries_ok (d_entries s @ [w])"
    using assms(2) by (auto simp: insert_entry_def Let_def handler_simps w)
  then show "db_ok s'"
    using db_okD [OF assms(1)] w by (auto simp: db_ok_def s' intro: ids_below_mono subjects_below_mono)
  show "d_messages s' = d_messages s" "d_bookings s' = d_bookings s" "d_entries s' = d_entries s @ [w]"
    "w_id w = d_next s" "w_status w = Waiting" "d_types s' = d_types s"
    by (simp_all add: s' w)
  show "by_active_tuple tn phone day tid s' = Some w"
    using none by (simp add: by_active_tuple_def s' find_append w)
qed

text \<open>Joining twice is joining once. A join of an offered appointment type always succeeds, leaves
  exactly one active entry for the phone, day and type, at the end of the queue when it is new, and
  joining again answers the entry that is there, whatever its state, and adds no row.\<close>

theorem join_waitlist_idempotent:
  assumes "db_ok s" "type_by_id tn tid s = Some t"
  shows "\<exists>s' r w. join_in_session tn day tid phone s = Inr (s', r) \<and> db_ok s'
     \<and> by_active_tuple tn phone day tid s' = Some w
     \<and> r = \<lparr>wj_day = day, wj_type = tid, wj_status = w_status w\<rparr>
     \<and> d_entries s' = (if by_active_tuple tn phone day tid s = None then d_entries s @ [w] else d_entries s)
     \<and> (\<forall>x\<in>set (d_entries s'). active_entry x \<longrightarrow> entry_key x = (tn, phone, day, tid) \<longrightarrow> x = w)
     \<and> join_in_session tn day tid phone s' = Inr (s', r)"
proof (cases "by_active_tuple tn phone day tid s")
  case None
  obtain s' w where run: "insert_entry tn day tid phone s = Inr (s', w)"
    using None by (auto simp: insert_entry_run [OF assms(1)] Let_def)
  note new = db_ok_new_entry [OF assms(1) run]
  have t: "type_by_id tn tid s' = Some t" using assms(2) new(8) by (simp add: type_by_id_def)
  have key: "entry_key w = (tn, phone, day, tid)" using by_active_tuple_SomeD [OF new(7)] by simp
  have one: "\<forall>x\<in>set (d_entries s'). active_entry x \<longrightarrow> entry_key x = (tn, phone, day, tid) \<longrightarrow> x = w"
    using None new(4) by (auto simp: by_active_tuple_None)
  define r where "r = \<lparr>wj_day = day, wj_type = tid, wj_status = w_status w\<rparr>"
  have first: "join_in_session tn day tid phone s = Inr (s', r)"
    using assms(2) run key by (simp add: join_in_session_def entry_key_def r_def)
  have again: "join_in_session tn day tid phone s' = Inr (s', r)"
    using t new(7) key by (simp add: join_in_session_def insert_entry_run [OF new(1)] Let_def entry_key_def r_def)
  have grown: "d_entries s' = (if by_active_tuple tn phone day tid s = None then d_entries s @ [w] else d_entries s)"
    unfolding if_P [OF None] by (rule new(4))
  from first new(1,7) r_def grown one again show ?thesis by blast
next
  case (Some w)
  note w = by_active_tuple_SomeD [OF Some]
  have "x = w" if "x \<in> set (d_entries s)" "active_entry x" "entry_key x = (tn, phone, day, tid)" for x
    using unique_onD [of active_entry entry_key "d_entries s" x w] db_okD(4) [OF assms(1)] that w
    by (simp add: entries_ok_def)
  moreover have "join_in_session tn day tid phone s = Inr (s, \<lparr>wj_day = day, wj_type = tid, wj_status = w_status w\<rparr>)"
    using assms(2) Some w by (simp add: join_in_session_def insert_entry_run [OF assms(1)] Let_def entry_key_def)
  ultimately show ?thesis using Some assms(1) by auto
qed

theorem join_waitlist_idempotent_witness:
  "\<exists>s' r. join_in_session 4 10 8 [48] shop_full = Inr (s', r) \<and> wj_status r = Waiting
     \<and> length (d_entries s') = 1 \<and> join_in_session 4 10 8 [48] s' = Inr (s', r)"
proof -
  have t: "type_by_id 4 8 shop_full = Some shop_type" by code_simp
  have n: "d_entries shop_full = []" by (simp add: shop_full_def shop_db_def empty_db_def)
  have none: "by_active_tuple 4 [48] 10 8 shop_full = None" by (simp add: by_active_tuple_def n)
  from join_waitlist_idempotent [OF shop_full_ok t, of 10 "[48]"]
  obtain s' r w where j: "join_in_session 4 10 8 [48] shop_full = Inr (s', r)"
    "by_active_tuple 4 [48] 10 8 s' = Some w" "r = \<lparr>wj_day = 10, wj_type = 8, wj_status = w_status w\<rparr>"
    "d_entries s' = [w]" "join_in_session 4 10 8 [48] s' = Inr (s', r)"
    by (auto simp: none n)
  have "w_status w = Waiting"
    using j(1,4) t n none by (auto simp: join_in_session_def insert_entry_run [OF shop_full_ok] Let_def)
  with j show ?thesis by auto
qed

section \<open>Offers and the texts that carry them\<close>

text \<open>A waiting offer text belongs to a live offer and carries the token the entry answers to.\<close>

definition offer_works :: "env \<Rightarrow> db \<Rightarrow> message \<Rightarrow> bool" where
  "offer_works e s m \<longleftrightarrow>
     (pending_message m \<and> m_kind m = Waitlist_offer \<longrightarrow>
       (case m_entry m of
          None \<Rightarrow> False
        | Some wid \<Rightarrow>
            (case m_token m of
               None \<Rightarrow> False
             | Some t \<Rightarrow>
                 (case entry_by_id (m_tenant m) wid s of
                    None \<Rightarrow> False
                  | Some w \<Rightarrow> w_status w = Offered \<and> w_token_hash w = Some (e_hash e t)))))"

definition offers_agree :: "env \<Rightarrow> db \<Rightarrow> bool" where
  "offers_agree e s \<longleftrightarrow> list_all (offer_works e s) (d_messages s)"

lemma offer_works_iff:
  "offer_works e s m \<longleftrightarrow> (pending_message m \<longrightarrow> m_kind m = Waitlist_offer \<longrightarrow>
     (\<exists>wid t w. m_entry m = Some wid \<and> m_token m = Some t \<and> entry_by_id (m_tenant m) wid s = Some w
        \<and> w_status w = Offered \<and> w_token_hash w = Some (e_hash e t)))"
  by (auto simp: offer_works_def split: option.splits)

lemma offer_works_entries: "d_entries s' = d_entries s \<Longrightarrow> offer_works e s' m = offer_works e s m"
  by (simp add: offer_works_iff entry_by_id_def)

lemma offers_agreeD:
  assumes "offers_agree e s" "m \<in> set (d_messages s)" "pending_message m" "m_kind m = Waitlist_offer"
  obtains wid t w where "m_entry m = Some wid" "m_token m = Some t" "entry_by_id (m_tenant m) wid s = Some w"
    "w_status w = Offered" "w_token_hash w = Some (e_hash e t)"
  using assms unfolding offers_agree_def list_all_iff offer_works_iff by blast

text \<open>Whatever leaves the entries alone and adds no offer text keeps the agreement.\<close>

lemma offers_agree_same:
  assumes "d_entries s' = d_entries s"
    and "\<And>m. m \<in> set (d_messages s') \<Longrightarrow> pending_message m \<Longrightarrow> m_kind m = Waitlist_offer \<Longrightarrow> m \<in> set (d_messages s)"
    and "offers_agree e s"
  shows "offers_agree e s'"
proof -
  have same: "offer_works e s' m = offer_works e s m" for m
    by (rule offer_works_entries [OF assms(1)])
  have "offer_works e s' m" if "m \<in> set (d_messages s')" for m
  proof (cases "pending_message m \<and> m_kind m = Waitlist_offer")
    case True
    then show ?thesis using assms(2,3) that by (simp add: same offers_agree_def list_all_iff)
  qed (auto simp: offer_works_iff)
  then show ?thesis by (simp add: offers_agree_def list_all_iff)
qed

lemma offers_agree_audit [simp]: "offers_agree e (record_audit tn a i s) = offers_agree e s"
proof -
  have "offer_works e (record_audit tn a i s) = offer_works e s"
    by (rule ext, rule offer_works_entries) simp
  then show ?thesis by (simp add: offers_agree_def)
qed

text \<open>Closing an entry's offer texts.\<close>

definition hush :: "uuid \<Rightarrow> uuid \<Rightarrow> db \<Rightarrow> db" where
  "hush tn wid s = s\<lparr>d_messages := update_where (\<lambda>m. about_entry tn wid Waitlist_offer m \<and> m_status m = Msg_pending)
     (close_message Msg_cancelled) (d_messages s)\<rparr>"

lemma hush_quiet:
  assumes "m \<in> set (d_messages (hush tn wid s))" "about_entry tn wid Waitlist_offer m"
  shows "m_status m \<noteq> Msg_pending"
proof -
  let ?P = "\<lambda>m. about_entry tn wid Waitlist_offer m \<and> m_status m = Msg_pending"
  have "m \<in> set (update_where ?P (close_message Msg_cancelled) (d_messages s))"
    using assms(1) by (simp add: hush_def)
  then obtain x where x: "m = (if ?P x then close_message Msg_cancelled x else x)"
    unfolding set_update_where by blast
  show ?thesis
  proof (cases "?P x")
    case True
    with x show ?thesis by (simp add: close_message_def)
  next
    case False
    with x assms(2) show ?thesis by auto
  qed
qed

lemma hush_sel [simp]:
  "d_bookings (hush tn wid s) = d_bookings s" "d_next (hush tn wid s) = d_next s"
  "d_payments (hush tn wid s) = d_payments s" "d_customers (hush tn wid s) = d_customers s"
  "d_entries (hush tn wid s) = d_entries s" "d_now (hush tn wid s) = d_now s"
  "d_terms (hush tn wid s) = d_terms s" "d_types (hush tn wid s) = d_types s"
  "d_rules (hush tn wid s) = d_rules s" "d_exceptions (hush tn wid s) = d_exceptions s"
  by (simp_all add: hush_def)

lemma cancel_pending_for_entry_run:
  assumes "messages_ok (d_messages s)"
  shows "cancel_pending_for_entry tn wid Waitlist_offer s = Inr (hush tn wid s,
    length (filter (\<lambda>m. about_entry tn wid Waitlist_offer m \<and> m_status m = Msg_pending) (d_messages s)))"
  using messages_ok_close [OF assms, of Msg_cancelled "\<lambda>m. about_entry tn wid Waitlist_offer m \<and> m_status m = Msg_pending"]
  by (simp add: cancel_pending_for_entry_def update_rows_def Let_def update_where_none hush_def)

lemma db_ok_hush: "db_ok s \<Longrightarrow> db_ok (hush tn wid s)"
  using messages_ok_close [of "d_messages s" Msg_cancelled "\<lambda>m. about_entry tn wid Waitlist_offer m \<and> m_status m = Msg_pending"]
  by (auto simp: db_ok_def hush_def subjects_below_close map_update_where close_message_def)

lemma links_agree_hush: "links_agree e s \<Longrightarrow> links_agree e (hush tn wid s)"
  by (rule links_agree_same) (auto simp: hush_def set_update_where close_message_def)

lemma db_ok_write_entry:
  assumes "db_ok s" "entries_ok (d_entries (write_entry tn wid f s))" "wt.keeps_name f"
  shows "db_ok (write_entry tn wid f s)"
  using db_okD [OF assms(1)] assms(2,3)
  by (simp add: db_ok_def map_update_where wt.keeps_name_def)

text \<open>Rewriting one entry and closing its texts, in either order, keeps the agreement.\<close>

lemma offers_agree_close:
  assumes "offers_agree e s" "wt.keeps_name f"
  shows "offers_agree e (hush tn wid (write_entry tn wid f s))"
proof -
  let ?s' = "hush tn wid (write_entry tn wid f s)"
  let ?P = "\<lambda>m. about_entry tn wid Waitlist_offer m \<and> m_status m = Msg_pending"
  have "offer_works e ?s' (if ?P m then close_message Msg_cancelled m else m)" if "m \<in> set (d_messages s)" for m
  proof (cases "?P m")
    case True
    then show ?thesis by (simp add: offer_works_def pending_message_def close_message_def)
  next
    case False
    show ?thesis
    proof (cases "pending_message m \<and> m_kind m = Waitlist_offer")
      case True
      from True obtain wid' t w where m: "m_entry m = Some wid'" "m_token m = Some t"
        "entry_by_id (m_tenant m) wid' s = Some w" "w_status w = Offered" "w_token_hash w = Some (e_hash e t)"
        using assms(1) \<open>m \<in> set (d_messages s)\<close> unfolding offers_agree_def list_all_iff offer_works_iff by blast
      have "\<not> (m_tenant m = tn \<and> wid' = wid)"
        using False True m(1) by (auto simp: about_entry_def pending_message_def)
      then have "entry_by_id (m_tenant m) wid' (write_entry tn wid f s) = Some w"
        using m(3) by (auto simp: entry_by_id_write [OF assms(2)])
      moreover have "entry_by_id (m_tenant m) wid' ?s' = entry_by_id (m_tenant m) wid' (write_entry tn wid f s)"
        by (simp add: entry_by_id_def)
      ultimately have "entry_by_id (m_tenant m) wid' ?s' = Some w" by simp
      with m show ?thesis unfolding if_not_P [OF False] by (simp add: offer_works_iff)
    qed (use False in \<open>auto simp: offer_works_iff\<close>)
  qed
  then have "\<forall>m\<in>set (update_where ?P (close_message Msg_cancelled) (d_messages s)). offer_works e ?s' m"
    unfolding set_update_where by blast
  moreover have "d_messages ?s' = update_where ?P (close_message Msg_cancelled) (d_messages s)"
    by (simp add: hush_def)
  ultimately show ?thesis by (simp add: offers_agree_def list_all_iff)
qed

lemma links_agree_entries [simp]: "links_agree e (write_entry tn wid f s) = links_agree e s"
  by (simp add: links_agree_def list_all_iff link_works_iff booking_by_id_def)

section \<open>Claiming\<close>

lemma offers_agree_claim_seat:
  assumes "offers_agree e s" "claim_seat e tn at now cid t v tok due k s = Inr (s', b)"
  shows "offers_agree e s'" "d_entries s' = d_entries s" "d_terms s' = d_terms s" "d_types s' = d_types s"
    "d_customers s' = d_customers s"
proof -
  obtain ms where s': "s' = s\<lparr>d_bookings := d_bookings s @ [b], d_messages := d_messages s @ ms,
            d_next := d_next s + 1 + length ms\<rparr>"
    and ms: "case reminder_send_after at now of None \<Rightarrow> ms = []
     | Some sat \<Rightarrow> \<exists>m. ms = [m] \<and> m_id m = d_next s + 1 \<and> m_tenant m = tn \<and> m_booking m = Some (b_id b)
         \<and> m_entry m = None \<and> m_kind m = Reminder \<and> m_send_after m = sat \<and> m_token m = Some tok
         \<and> m_status m = Msg_pending \<and> \<not> m_deleted m \<and> messages_ok (d_messages s @ [m])"
    by (rule claim_seat_Inr [OF assms(2)])
  have "\<forall>m\<in>set ms. m_kind m = Reminder" using ms by (auto split: option.splits)
  then show "offers_agree e s'" by (intro offers_agree_same [OF _ _ assms(1)]) (auto simp: s')
  show "d_entries s' = d_entries s" "d_terms s' = d_terms s" "d_types s' = d_types s" "d_customers s' = d_customers s"
    by (simp_all add: s')
qed

lemma resolve_offer_Inr:
  assumes "db_ok s" "resolve_offer e token tn s = Inr w"
  shows "entry_by_id tn (w_id w) s = Some w" "w_token_hash w = Some (e_hash e token)"
    "by_offer_token_hash (e_hash e token) s = Some w"
proof -
  have f: "by_offer_token_hash (e_hash e token) s = Some w" "w_tenant w = tn"
    using assms(2) by (auto simp: resolve_offer_def manage_token_hash_def split: option.splits if_splits)
  then show "by_offer_token_hash (e_hash e token) s = Some w" by simp
  have w: "w \<in> set (d_entries s)" "w_token_hash w = Some (e_hash e token)" "\<not> w_deleted w"
    using f(1) unfolding by_offer_token_hash_def by (auto dest: find_SomeD)
  then show "w_token_hash w = Some (e_hash e token)" by simp
  show "entry_by_id tn (w_id w) s = Some w"
    using wt.fetch_mem [OF db_okD(4) [OF assms(1)] w(1,3)] f(2) by (simp add: entry_by_id_fetch)
qed

text \<open>The same token resolves to the same entry after a write that keeps hash and deletion.\<close>

lemma resolve_offer_write:
  assumes "db_ok s" "resolve_offer e token tn s = Inr w" "wt.keeps_name f"
    and "\<And>x. w_token_hash (f x) = w_token_hash x" "d_entries s' = d_entries (write_entry tn (w_id w) f s)"
  shows "resolve_offer e token tn s' = Inr (f w)"
proof -
  note r = resolve_offer_Inr [OF assms(1,2)]
  have f: "w_tenant (f x) = w_tenant x" "w_deleted (f x) = w_deleted x" for x
    using assms(3) by (simp_all add: wt.keeps_name_def)
  have w: "names_entry tn (w_id w) w" using entry_by_id_SomeD [OF r(1)] by (simp add: names_entry_def)
  have "by_offer_token_hash (e_hash e token) s' =
      map_option (\<lambda>x. if names_entry tn (w_id w) x then f x else x) (by_offer_token_hash (e_hash e token) s)"
    unfolding by_offer_token_hash_def assms(5) write_entry_sel
    by (rule find_update_where_stable) (simp add: assms(4) f)
  with r w show ?thesis
    using entry_by_id_SomeD [OF r(1)]
    by (simp add: resolve_offer_def manage_token_hash_def manage_token_matches_def assms(4) f)
qed

lemma claim_offer_Inr:
  assumes "claim_offer e tn token name terms settings connected minted now s = Inr (s', claim)" "db_ok s"
  obtains w t at c s3 where "validate_booking_request name None None None = Inr ()"
    "resolve_offer e token tn s = Inr w" "w_status w = Offered"
    "\<exists>till. w_offer_expires_at w = Some till \<and> now < till" "w_offer_starts_at w = Some at"
    "current_terms tn s \<noteq> None" "terms = v_version (the (current_terms tn s))"
    "type_by_id tn (w_type w) s = Some t"
    "upsert_customer tn (w_phone w) (ustrip name) (hush tn (w_id w) (write_entry tn (w_id w) (\<lambda>w. w\<lparr>w_status := Claimed\<rparr>) s))
      = Inr (s3, c)"
    "claim_seat e tn at now (c_id c) t terms minted (deposit_due settings t connected) no_details s3
      = Inr (s', bc_booking claim)"
    "db_ok (hush tn (w_id w) (write_entry tn (w_id w) (\<lambda>w. w\<lparr>w_status := Claimed\<rparr>) s))"
proof -
  obtain u w current t at s1 won where *: "validate_booking_request name None None None = Inr u"
    "resolve_offer e token tn s = Inr w" "current_terms tn s = Some current" "terms = v_version current"
    "type_by_id tn (w_type w) s = Some t" "w_offer_starts_at w = Some at"
    "claim_entry tn (w_id w) now s = Inr (s1, won)"
    and rest: "(if \<not> won then
       Inl (Offer_not_claimable
         (entry_status_value (case entry_by_id tn (w_id w) s1 of None \<Rightarrow> Expired | Some w' \<Rightarrow> w_status w')))
     else
       andthen (cancel_pending_for_entry tn (w_id w) Waitlist_offer s1) (\<lambda>(s2, _).
       andthen (upsert_customer tn (w_phone w) (ustrip name) s2) (\<lambda>(s3, c).
       andthen (claim_seat e tn at now (c_id c) t terms minted (deposit_due settings t connected) no_details s3) (\<lambda>(s4, b).
       Inr (s4, \<lparr>bc_booking = b, bc_created = True, bc_manage_token = Some minted,
                 bc_deposit_due = deposit_due settings t connected,
                 bc_deposit_amount = deposit_amount t\<rparr>))))) = Inr (s', claim)"
    using assms(1) unfolding claim_offer_def Let_def
    by (clarsimp simp only: andthen_eq_Inr need_eq_Inr ensure_eq_Inr split_paired_Ex prod.case)
  let ?f = "\<lambda>w. w\<lparr>w_status := Claimed\<rparr>"
  note r = resolve_offer_Inr [OF assms(2) *(2)]
  have won: "won" using rest by (cases won) auto
  have live: "w_status w = Offered" "\<exists>till. w_offer_expires_at w = Some till \<and> now < till"
    "s1 = write_entry tn (w_id w) ?f s"
    using *(7) r(1) won
    by (auto simp: claim_entry_run [OF db_okD(4) [OF assms(2)]] split: if_splits option.splits)
  have "db_ok s1"
  proof -
    have "entries_ok (d_entries s1)"
      using update_entry_ok [OF *(7) [unfolded claim_entry_def won]] db_okD(4) [OF assms(2)] by blast
    then show ?thesis unfolding live(3) by (intro db_ok_write_entry [OF assms(2)]) (simp_all add: wt.keeps_name_def)
  qed
  then have ok: "db_ok (hush tn (w_id w) s1)" by (rule db_ok_hush)
  from rest won cancel_pending_for_entry_run [OF db_okD(3) [OF \<open>db_ok s1\<close>], of tn "w_id w"]
  obtain s3 c where "upsert_customer tn (w_phone w) (ustrip name) (hush tn (w_id w) s1) = Inr (s3, c)"
    "claim_seat e tn at now (c_id c) t terms minted (deposit_due settings t connected) no_details s3
      = Inr (s', bc_booking claim)"
    by (auto simp: andthen_eq_Inr)
  with that * live ok show ?thesis by simp
qed

lemma upsert_customer_frame:
  assumes "db_ok s" "upsert_customer tn phone name s = Inr (s', c)"
  shows "db_ok s'" "d_bookings s' = d_bookings s" "d_messages s' = d_messages s" "d_entries s' = d_entries s"
    "d_types s' = d_types s" "d_terms s' = d_terms s" "d_rules s' = d_rules s"
    "d_exceptions s' = d_exceptions s" "d_payments s' = d_payments s"
proof -
  obtain rows n where s': "s' = s\<lparr>d_customers := rows, d_next := n\<rparr>" "d_next s \<le> n"
    "customers_ok (d_customers s) \<longrightarrow> customers_ok rows"
    "ids_below (d_next s) (map c_id (d_customers s)) \<longrightarrow> ids_below n (map c_id rows)"
    by (rule upsert_customer_spec [OF assms(2)])
  with db_okD [OF assms(1)] show "db_ok s'"
    by (auto simp: db_ok_def intro: ids_below_mono subjects_below_mono)
  from s' show "d_bookings s' = d_bookings s" "d_messages s' = d_messages s" "d_entries s' = d_entries s"
    "d_types s' = d_types s" "d_terms s' = d_terms s" "d_rules s' = d_rules s"
    "d_exceptions s' = d_exceptions s" "d_payments s' = d_payments s" by simp_all
qed

text \<open>C28. A live offer is worth one seat, once. A claim succeeds only for the entry its token names, while
  it is offered and strictly before its deadline; it then takes the lowest free seat of the offered
  start, within its capacity, marks the entry claimed and silences its text. The same token can never
  claim again, the database stays well formed, and every waiting link still opens what it says.\<close>

theorem claim_offer_takes_one_seat:
  assumes "db_ok s" "links_agree e s" "offers_agree e s"
    and "claim_offer e tn token name terms settings connected minted now s = Inr (s', claim)"
  shows "\<exists>w at sl. resolve_offer e token tn s = Inr w \<and> w_status w = Offered
     \<and> (\<exists>till. w_offer_expires_at w = Some till \<and> now < till) \<and> w_offer_starts_at w = Some at
     \<and> offered_slot e tn at now s = Some sl
     \<and> lowest_free (s_capacity sl) (active_seats_at tn at s) = Some (b_seat (bc_booking claim))
     \<and> (\<forall>t x. active_seats_at t x s' = active_seats_at t x s
          @ (if t = tn \<and> x = at then [b_seat (bc_booking claim)] else []))
     \<and> entry_by_id tn (w_id w) s' = Some (w\<lparr>w_status := Claimed\<rparr>)
     \<and> claim_offer e tn token name terms settings' connected' minted' later s'
         = Inl (Offer_not_claimable ''claimed'')
     \<and> db_ok s' \<and> links_agree e s' \<and> offers_agree e s'"
proof -
  obtain w t at c s3 where valid: "validate_booking_request name None None None = Inr ()"
    and w: "resolve_offer e token tn s = Inr w" "w_status w = Offered"
      "\<exists>till. w_offer_expires_at w = Some till \<and> now < till" "w_offer_starts_at w = Some at"
    and terms: "current_terms tn s \<noteq> None" "terms = v_version (the (current_terms tn s))"
    and t: "type_by_id tn (w_type w) s = Some t"
    and up: "upsert_customer tn (w_phone w) (ustrip name)
        (hush tn (w_id w) (write_entry tn (w_id w) (\<lambda>w. w\<lparr>w_status := Claimed\<rparr>) s)) = Inr (s3, c)"
    and seat: "claim_seat e tn at now (c_id c) t terms minted (deposit_due settings t connected) no_details s3
      = Inr (s', bc_booking claim)"
    and ok2: "db_ok (hush tn (w_id w) (write_entry tn (w_id w) (\<lambda>w. w\<lparr>w_status := Claimed\<rparr>) s))"
    by (rule claim_offer_Inr [OF assms(4,1)])
  let ?f = "\<lambda>w. w\<lparr>w_status := Claimed\<rparr>"
  let ?s2 = "hush tn (w_id w) (write_entry tn (w_id w) ?f s)"
  note f3 = upsert_customer_frame [OF ok2 up]
  note r = resolve_offer_Inr [OF assms(1) w(1)]
  have keeps: "wt.keeps_name ?f" by (simp add: wt.keeps_name_def)
  have "links_agree e ?s2" using links_agree_hush assms(2) by simp
  then have l3: "links_agree e s3" by (rule links_agree_same [rotated -1]) (simp_all add: f3)
  have "offers_agree e ?s2" by (rule offers_agree_close [OF assms(3) keeps])
  then have o3: "offers_agree e s3" by (rule offers_agree_same [rotated -1]) (simp_all add: f3)
  note c = offers_agree_claim_seat [OF o3 seat]
  have ent: "d_entries s' = d_entries (write_entry tn (w_id w) ?f s)" by (simp add: c f3)
  have by_id: "entry_by_id tn (w_id w) s' = Some (w\<lparr>w_status := Claimed\<rparr>)"
    using entry_by_id_write [OF keeps, of tn "w_id w" tn "w_id w" s] r(1) ent by (simp add: entry_by_id_def)
  obtain sl where sl: "offered_slot e tn at now s3 = Some sl"
    "lowest_free (s_capacity sl) (active_seats_at tn at s3) = Some (b_seat (bc_booking claim))"
    by (rule claim_seat_Inr [OF seat])
  have same: "offered_slot e tn at now s3 = offered_slot e tn at now s"
    by (rule offered_slot_cong) (simp_all add: f3 write_entry_def)
  have seats3: "active_seats_at x y s3 = active_seats_at x y s" for x y
    by (rule seats_by_bookings) (simp add: f3)
  have ok': "db_ok s'" by (rule db_ok_claim [OF f3(1) seat])
  have again: "claim_offer e tn token name terms settings' connected' minted' later s' = Inl (Offer_not_claimable ''claimed'')"
  proof -
    have res: "resolve_offer e token tn s' = Inr (?f w)"
      by (rule resolve_offer_write [OF assms(1) w(1) keeps _ ent]) simp
    have lost: "claim_entry tn (w_id w) later s' = Inr (s', False)"
      using by_id by (simp add: claim_entry_run [OF db_okD(4) [OF ok']])
    have "current_terms tn s' = current_terms tn s" by (simp add: current_terms_def c f3 write_entry_def)
    moreover have "type_by_id tn (w_type w) s' = Some t" using t by (simp add: type_by_id_def c f3 write_entry_def)
    ultimately show ?thesis
      using valid terms w(4) res lost by_id by (auto simp: claim_offer_def entry_status_value_def)
  qed
  show ?thesis
    using w sl claim_seat_seats [OF seat] by_id again ok' claim_seat_links [OF f3(1) l3 seat] c(1)
    unfolding same seats3 by blast
qed

text \<open>A shop with one live offer, until 100, for the seven o'clock start.\<close>

definition offered_entry :: entry where
  "offered_entry = \<lparr>w_id = 7, w_tenant = 4, w_day = 10, w_type = 8, w_phone = [48], w_status = Offered,
     w_offered_at = Some 0, w_offer_expires_at = Some 100, w_offer_starts_at = Some (hours 7),
     w_token_hash = Some [5], w_created_at = 0, w_deleted = False\<rparr>"

definition offer_shop :: db where
  "offer_shop = shop_full\<lparr>d_entries := [offered_entry],
     d_messages := [\<lparr>m_id = 11, m_tenant = 4, m_booking = None, m_entry = Some 7, m_kind = Waitlist_offer,
       m_send_after = 0, m_status = Msg_pending, m_token = Some [5], m_created_at = 0, m_deleted = False\<rparr>]\<rparr>"

lemma offer_shop_facts:
  "db_ok offer_shop" "links_agree sample_env offer_shop" "offers_agree sample_env offer_shop"
  "resolve_offer sample_env [5] 4 offer_shop = Inr offered_entry"
  by code_simp+

lemma upsert_customer_total:
  assumes "db_ok s"
  shows "\<exists>s' c. upsert_customer tn phone name s = Inr (s', c)"
proof (cases "customer_by_phone tn phone s")
  case None
  let ?row = "\<lparr>c_id = d_next s, c_tenant = tn, c_phone = phone, c_name = name,
     c_consent_at = None, c_withdrawn_at = None, c_erased_at = None, c_deleted = False\<rparr>"
  have "customers_ok (d_customers s @ [?row])"
    using db_okD(5) [OF assms] ids_below_notin [OF db_okD(10) [OF assms]] None
    by (auto simp: customers_ok_def customer_by_phone_def find_None_iff)
  with None show ?thesis by (simp add: upsert_customer_def insert_row_def Let_def)
next
  case (Some old)
  have "customers_ok (update_where P (\<lambda>c. c\<lparr>c_name := name\<rparr>) (d_customers s))" for P
    using db_okD(5) [OF assms] unfolding customers_ok_def
    by (auto simp: map_update_where list_all_iff set_update_where intro!: unique_on_update_shrink)
  with Some show ?thesis by (auto simp: upsert_customer_def update_customer_def update_rows_def Let_def andthen_eq_Inr)
qed

text \<open>A live offer with a seat left is claimed.\<close>

lemma claim_offer_succeeds:
  assumes ok: "db_ok s" and valid: "validate_booking_request name None None None = Inr ()"
    and w: "resolve_offer e token tn s = Inr w" "w_status w = Offered" "w_offer_expires_at w = Some till" "now < till"
      "w_offer_starts_at w = Some at"
    and terms: "current_terms tn s = Some v" "0 < v_version v" and t: "type_by_id tn (w_type w) s = Some t"
    and sl: "offered_slot e tn at now s = Some sl" "s_capacity sl \<le> MAX_SEAT_INDEX"
      "lowest_free (s_capacity sl) (active_seats_at tn at s) = Some seat"
    and new: "\<And>cid. active_at tn cid at s = None"
  shows "\<exists>s' claim. claim_offer e tn token name (v_version v) settings connected minted now s = Inr (s', claim)"
proof -
  let ?f = "\<lambda>w. w\<lparr>w_status := Claimed\<rparr>"
  let ?s1 = "write_entry tn (w_id w) ?f s"
  let ?s2 = "hush tn (w_id w) ?s1"
  note r = resolve_offer_Inr [OF ok w(1)]
  have c: "claim_entry tn (w_id w) now s = Inr (?s1, True)"
    using r(1) w(2-4) by (simp add: claim_entry_run [OF db_okD(4) [OF ok]])
  have ok1: "db_ok ?s1"
    by (rule db_ok_write_entry [OF ok]) (use update_entry_ok [OF c [unfolded claim_entry_def] db_okD(4) [OF ok]]
        in \<open>simp_all add: wt.keeps_name_def\<close>)
  obtain s3 cust where up: "upsert_customer tn (w_phone w) (ustrip name) ?s2 = Inr (s3, cust)"
    using upsert_customer_total [OF db_ok_hush [OF ok1]] by blast
  note f3 = upsert_customer_frame [OF db_ok_hush [OF ok1] up]
  have "offered_slot e tn at now s3 = Some sl"
    unfolding sl(1) [symmetric] by (rule offered_slot_cong) (simp_all add: f3 write_entry_def)
  moreover have "active_seats_at tn at s3 = active_seats_at tn at s"
    by (rule seats_by_bookings) (simp add: f3)
  moreover have "active_at tn (c_id cust) at s3 = None"
    using new [of "c_id cust"] by (simp add: active_at_def f3)
  ultimately obtain s' b where "claim_seat e tn at now (c_id cust) t (v_version v) minted (deposit_due settings t connected) no_details s3
      = Inr (s', b)"
    using claim_seat_free [OF f3(1) _ _ sl(2) _ terms(2)] sl(3) by metis
  then show ?thesis
    using valid w terms t c up cancel_pending_for_entry_run [OF db_okD(3) [OF ok1], of tn "w_id w"]
    by (simp add: claim_offer_def)
qed

theorem claim_offer_takes_one_seat_witness:
  "\<exists>s' claim. claim_offer sample_env 4 [5] [65] 3 None False [9] 0 offer_shop = Inr (s', claim)
     \<and> b_starts_at (bc_booking claim) = hours 7
     \<and> claim_offer sample_env 4 [5] [65] 3 None False [2] 60 s' = Inl (Offer_not_claimable ''claimed'')"
proof -
  have none: "d_bookings offer_shop = []" by (simp add: offer_shop_def shop_full_def shop_db_def empty_db_def)
  have sl: "offered_slot sample_env 4 (hours 7) 0 offer_shop = Some shop_slot"
    unfolding shop_offered [symmetric]
    by (rule offered_slot_cong) (simp_all add: offer_shop_def shop_full_def)
  have free: "lowest_free (s_capacity shop_slot) (active_seats_at 4 (hours 7) offer_shop) = Some 1"
    by (simp add: none active_seats_at_def shop_slot_def lowest_free_def upto_rec1)
  have terms: "current_terms 4 offer_shop = Some (hd (d_terms offer_shop))" by code_simp
  have v: "v_version (hd (d_terms offer_shop)) = 3" by (simp add: offer_shop_def shop_full_def)
  have t: "type_by_id 4 (w_type offered_entry) offer_shop = Some shop_type" by code_simp
  have valid: "validate_booking_request [65] None None None = Inr ()"
    by (simp add: validate_booking_request_def validate_customer_name_def ustrip_def is_uspace_def
        control_char_def MAX_CUSTOMER_NAME_LENGTH_def)
  have new: "active_at 4 cid (hours 7) offer_shop = None" for cid by (simp add: active_at_def none)
  have w: "w_status offered_entry = Offered" "w_offer_expires_at offered_entry = Some 100"
    "w_offer_starts_at offered_entry = Some (hours 7)" by (simp_all add: offered_entry_def)
  have cap: "s_capacity shop_slot \<le> MAX_SEAT_INDEX" by (simp add: shop_slot_def MAX_SEAT_INDEX_def)
  have "(0 :: int) < 100" "0 < v_version (hd (d_terms offer_shop))" by (simp_all add: v)
  then obtain s' claim where run:
    "claim_offer sample_env 4 [5] [65] 3 None False [9] 0 offer_shop = Inr (s', claim)"
    using claim_offer_succeeds [OF offer_shop_facts(1) valid offer_shop_facts(4) w(1,2) _ w(3) terms _ t sl cap free new,
        of None False "[9]"] unfolding v by blast
  from claim_offer_takes_one_seat [OF offer_shop_facts(1-3) run, of None False "[2]" 60]
  obtain w at sl where w: "resolve_offer sample_env [5] 4 offer_shop = Inr w" "w_offer_starts_at w = Some at"
    "\<forall>t x. active_seats_at t x s' = active_seats_at t x offer_shop
          @ (if t = 4 \<and> x = at then [b_seat (bc_booking claim)] else [])"
    "claim_offer sample_env 4 [5] [65] 3 None False [2] 60 s' = Inl (Offer_not_claimable ''claimed'')" by blast
  have "b_starts_at (bc_booking claim) = hours 7"
    by (rule claim_offer_Inr [OF run offer_shop_facts(1)])
      (use offer_shop_facts(4) in \<open>auto simp: offered_entry_def elim: claim_seat_Inr\<close>)
  with run w(4) show ?thesis by blast
qed

section \<open>Leaving the queue\<close>

lemma cancel_hushes:
  assumes "db_ok s" "offers_agree e s" "entry_by_id tn wid s = Some w" "w_status w \<in> {Waiting, Offered}"
  defines "f \<equiv> \<lambda>w. w\<lparr>w_status := Withdrawn, w_offer_expires_at := None\<rparr>"
  defines "s' \<equiv> hush tn wid (write_entry tn wid f s)"
  shows "cancel_entry tn wid s = Inr (write_entry tn wid f s, Some (f w))"
    and "\<exists>n. cancel_pending_for_entry tn wid Waitlist_offer (write_entry tn wid f s) = Inr (s', n)"
    and "db_ok s'" "offers_agree e s'" "entry_by_id tn wid s' = Some (f w)"
proof -
  have keeps: "wt.keeps_name f" by (simp add: wt.keeps_name_def f_def)
  show run: "cancel_entry tn wid s = Inr (write_entry tn wid f s, Some (f w))"
    using assms(3,4) by (simp add: cancel_entry_run [OF db_okD(4) [OF assms(1)]] Let_def f_def)
  have "entries_ok (d_entries (write_entry tn wid f s))"
    by (rule entries_ok_write [OF db_okD(4) [OF assms(1)] assms(3)])
      (use assms(3) in \<open>auto simp: active_entry_def f_def dest: entry_by_id_SomeD\<close>)
  then have okw: "db_ok (write_entry tn wid f s)" by (rule db_ok_write_entry [OF assms(1) _ keeps])
  show "db_ok s'" unfolding s'_def by (rule db_ok_hush [OF okw])
  show "\<exists>n. cancel_pending_for_entry tn wid Waitlist_offer (write_entry tn wid f s) = Inr (s', n)"
    using cancel_pending_for_entry_run [OF db_okD(3) [OF okw], of tn wid] by (auto simp: s'_def)
  show "offers_agree e s'" unfolding s'_def by (rule offers_agree_close [OF assms(2) keeps])
  show "entry_by_id tn wid s' = Some (f w)"
    using entry_by_id_write [OF keeps, of tn wid tn wid s] assms(3) by (simp add: s'_def entry_by_id_def)
qed

text \<open>Leaving is final. Declining an offer, or being removed by the staff, withdraws the entry and
  silences its text, no booking or seat is touched, a second decline changes nothing, and the token can
  no longer claim; a claim that was first wins over the decline, which then changes nothing.\<close>

theorem decline_is_final:
  assumes "db_ok s" "offers_agree e s" "resolve_offer e token tn s = Inr w"
  shows "\<exists>s' r. decline_offer e tn token now s = Inr (s', r) \<and> db_ok s' \<and> offers_agree e s'
     \<and> d_bookings s' = d_bookings s \<and> d_payments s' = d_payments s
     \<and> (if w_status w \<in> {Waiting, Offered}
        then of_status r = Withdrawn
          \<and> entry_by_id tn (w_id w) s' = Some (w\<lparr>w_status := Withdrawn, w_offer_expires_at := None\<rparr>)
          \<and> (\<forall>m\<in>set (d_messages s'). about_entry tn (w_id w) Waitlist_offer m \<longrightarrow> m_status m \<noteq> Msg_pending)
          \<and> (\<forall>later. decline_offer e tn token later s' = Inr (s', r))
        else s' = s)
     \<and> (\<forall>later. claim_entry tn (w_id w) later s' = Inr (s', False))"
proof (cases "w_status w \<in> {Waiting, Offered}")
  case True
  note r = resolve_offer_Inr [OF assms(1,3)]
  let ?f = "\<lambda>w. w\<lparr>w_status := Withdrawn, w_offer_expires_at := None\<rparr>"
  let ?s' = "hush tn (w_id w) (write_entry tn (w_id w) ?f s)"
  note c = cancel_hushes [OF assms(1,2) r(1) True]
  have run: "decline_offer e tn token now s = Inr (?s', offer_view (?f w) now ?s')"
    using assms(3) c(1,2) by (auto simp: decline_offer_def)
  have res: "resolve_offer e token tn ?s' = Inr (?f w)"
    by (rule resolve_offer_write [OF assms(1,3)]) (simp_all add: wt.keeps_name_def)
  have view: "offer_view (?f w) later ?s' = offer_view (?f w) now ?s'" for later
    by (simp add: offer_view_def)
  have again: "decline_offer e tn token later ?s' = Inr (?s', offer_view (?f w) now ?s')" for later
    using res c(5) view [of later]
    by (simp add: decline_offer_def cancel_entry_run [OF db_okD(4) [OF c(3)]] Let_def)
  have quiet: "\<forall>m\<in>set (d_messages ?s'). about_entry tn (w_id w) Waitlist_offer m \<longrightarrow> m_status m \<noteq> Msg_pending"
    using hush_quiet by blast
  have lost: "claim_entry tn (w_id w) later ?s' = Inr (?s', False)" for later
    using c(5) by (simp add: claim_entry_run [OF db_okD(4) [OF c(3)]])
  have "of_status (offer_view (?f w) now ?s') = Withdrawn" by (simp add: offer_view_def)
  moreover have "d_bookings ?s' = d_bookings s" "d_payments ?s' = d_payments s" by simp_all
  ultimately show ?thesis unfolding if_P [OF True] using run c(3-5) again quiet lost by blast
next
  case False
  note r = resolve_offer_Inr [OF assms(1,3)]
  have "decline_offer e tn token now s = Inr (s, offer_view w now s)"
    using assms(3) r(1) False
    by (simp add: decline_offer_def cancel_entry_run [OF db_okD(4) [OF assms(1)]] Let_def)
  moreover have "claim_entry tn (w_id w) later s = Inr (s, False)" for later
    using r(1) False by (simp add: claim_entry_run [OF db_okD(4) [OF assms(1)]])
  ultimately show ?thesis using assms(1,2) False by auto
qed

theorem decline_is_final_witness:
  "\<exists>s' r. decline_offer sample_env 4 [5] 50 offer_shop = Inr (s', r) \<and> of_status r = Withdrawn
     \<and> claim_entry 4 7 60 s' = Inr (s', False)"
proof -
  have "w_status offered_entry = Offered" "w_id offered_entry = 7" by (simp_all add: offered_entry_def)
  with decline_is_final [OF offer_shop_facts(1,3,4), of 50] show ?thesis by fastforce
qed

end
