(* ===== verification/Waitlist_Cascade.thy ===== *)
theory Waitlist_Cascade
  imports Waitlist_Service
begin

text \<open>
  The worker that turns freed seats into offers, \<open>WaitlistCascade\<close> of \<open>app/waitlist/cascade.py\<close>: it
  closes the offers whose deadline passed, then offers each queue's oldest bride the first seat of her day
  nobody else was offered. The cursor of the issuing half is in memory and moves even when the transaction
  fails; \<open>mint\<close> gives the token drawn for each entry.
\<close>

section \<open>The worker\<close>

definition MAX_OFFER_SEND_FAILURES :: nat where "MAX_OFFER_SEND_FAILURES = 3"

record cascade_config =
  cc_window :: int
  cc_min_lead :: int
  cc_quiet_start :: int
  cc_quiet_end :: int

record cascade_result =
  cr_expired :: nat
  cr_returned :: nat
  cr_offered :: nat

definition no_result :: cascade_result where
  "no_result = \<lparr>cr_expired = 0, cr_returned = 0, cr_offered = 0\<rparr>"

definition add_result :: "cascade_result \<Rightarrow> cascade_result \<Rightarrow> cascade_result" where
  "add_result a b =
     \<lparr>cr_expired = cr_expired a + cr_expired b, cr_returned = cr_returned a + cr_returned b,
      cr_offered = cr_offered a + cr_offered b\<rparr>"

datatype offer_fate = Fate_sent | Fate_undeliverable | Fate_unsent

definition fate_of :: "uuid \<Rightarrow> db \<Rightarrow> entry \<Rightarrow> offer_fate" where
  "fate_of tn s w =
     (if (case latest_for_entry tn (w_id w) Waitlist_offer s of None \<Rightarrow> False | Some m \<Rightarrow> m_status m = Msg_sent)
      then Fate_sent
      else if count_failed_for_entry tn (w_id w) Waitlist_offer s \<ge> MAX_OFFER_SEND_FAILURES
      then Fate_undeliverable else Fate_unsent)"

fun cancel_texts :: "uuid \<Rightarrow> uuid list \<Rightarrow> db \<Rightarrow> error + db" where
  "cancel_texts tn [] s = Inr s"
| "cancel_texts tn (wid # wids) s =
     andthen (cancel_pending_for_entry tn wid Waitlist_offer s) (\<lambda>(s', _). cancel_texts tn wids s')"

definition expire_offers :: "uuid \<Rightarrow> instant \<Rightarrow> db \<Rightarrow> error + db \<times> cascade_result" where
  "expire_offers tn now s =
     (let due = due_offers tn now s in
      if due = [] then Inr (s, no_result)
      else
        let with_fate = (\<lambda>fate. map w_id (filter (\<lambda>w. fate_of tn s w = fate) due)) in
        andthen (close_offer tn (with_fate Fate_sent @ with_fate Fate_undeliverable) Expired s) (\<lambda>(s1, expired).
        andthen (close_offer tn (with_fate Fate_unsent) Waiting s1) (\<lambda>(s2, returned).
        andthen (cancel_texts tn (expired @ returned) s2) (\<lambda>s3.
        Inr (s3, \<lparr>cr_expired = length expired, cr_returned = length returned, cr_offered = 0\<rparr>)))))"

text \<open>The loop over the day's slots, with its \<open>continue\<close>, \<open>break\<close> and \<open>else\<close>.\<close>

fun pick_slot :: "cascade_config \<Rightarrow> instant \<Rightarrow> (instant \<Rightarrow> int) \<Rightarrow> slot list \<Rightarrow> (slot \<times> instant) option" where
  "pick_slot cfg now held [] = None"
| "pick_slot cfg now held (slot # slots) =
     (if remaining slot \<le> held (s_starts_at slot) then pick_slot cfg now held slots
      else
        case offer_expiry now (s_starts_at slot) (cc_window cfg) (cc_min_lead cfg) of
          None \<Rightarrow> pick_slot cfg now held slots
        | Some expires_at \<Rightarrow> Some (slot, expires_at))"

definition offer_one ::
  "env \<Rightarrow> cascade_config \<Rightarrow> uuid \<Rightarrow> (uuid \<Rightarrow> utext) \<Rightarrow> instant \<Rightarrow> date \<Rightarrow> uuid \<Rightarrow> db \<Rightarrow> error + db \<times> bool" where
  "offer_one e cfg tn mint now day tid s =
     (case oldest_waiting tn day tid s of
        None \<Rightarrow> Inr (s, False)
      | Some w \<Rightarrow>
          (case pick_slot cfg now (offered_instants tn day s) (day_slots e tn day now s) of
             None \<Rightarrow> Inr (s, False)
           | Some (slot, expires_at) \<Rightarrow>
               andthen (offer_entry tn (w_id w) now (s_starts_at slot) expires_at
                          (manage_token_hash e (mint (w_id w))) s) (\<lambda>(s1, moved).
               if \<not> moved then Inr (s1, False)
               else
                 (case insert_message tn Waitlist_offer now (Some (mint (w_id w))) None (Some (w_id w)) s1 of
                    Inl _ \<Rightarrow> Inr (s1, False)
                  | Inr (s2, _) \<Rightarrow> Inr (s2, True)))))"

fun issue_pairs ::
  "env \<Rightarrow> cascade_config \<Rightarrow> uuid \<Rightarrow> (uuid \<Rightarrow> utext) \<Rightarrow> instant \<Rightarrow> (date \<times> uuid) list \<Rightarrow> db \<Rightarrow> error + db \<times> nat" where
  "issue_pairs e cfg tn mint now [] s = Inr (s, 0)"
| "issue_pairs e cfg tn mint now ((day, tid) # pairs) s =
     andthen (offer_one e cfg tn mint now day tid s) (\<lambda>(s1, made).
     andthen (issue_pairs e cfg tn mint now pairs s1) (\<lambda>(s2, n).
     Inr (s2, if made then n + 1 else n)))"

type_synonym cursor = "(date \<times> uuid) option"

definition issue_offers ::
  "env \<Rightarrow> cascade_config \<Rightarrow> uuid \<Rightarrow> (uuid \<Rightarrow> utext) \<Rightarrow> instant \<Rightarrow> cursor \<Rightarrow> db
   \<Rightarrow> cursor \<times> (error + db \<times> cascade_result)" where
  "issue_offers e cfg tn mint now cur s =
     (let pairs = waiting_pairs tn (today_jerusalem (e_zone e) now) cur s in
      (if length pairs < ISSUE_BATCH_SIZE then None else Some (last pairs),
       andthen (issue_pairs e cfg tn mint now pairs s) (\<lambda>(s', n).
       Inr (s', \<lparr>cr_expired = 0, cr_returned = 0, cr_offered = n\<rparr>))))"

definition run_cascade ::
  "env \<Rightarrow> cascade_config \<Rightarrow> uuid \<Rightarrow> (uuid \<Rightarrow> utext) \<Rightarrow> instant \<Rightarrow> cursor \<Rightarrow> db
   \<Rightarrow> cursor \<times> (error + db \<times> cascade_result)" where
  "run_cascade e cfg tn mint now cur s =
     (case expire_offers tn now s of
        Inl err \<Rightarrow> (cur, Inl err)
      | Inr (s1, result) \<Rightarrow>
          if in_quiet_hours (e_zone e) now (cc_quiet_start cfg) (cc_quiet_end cfg) then (cur, Inr (s1, result))
          else
            (let (cur', issued) = issue_offers e cfg tn mint now cur s1 in
             (cur', andthen issued (\<lambda>(s2, r). Inr (s2, add_result result r)))))"

section \<open>Closing offers\<close>

lemma unique_on_update_drop:
  assumes "unique_on P key rows" and "\<And>r. Q r \<Longrightarrow> P (f r) \<Longrightarrow> P r \<and> key (f r) = key r"
  shows "unique_on P key (update_where Q f rows)"
  using assms by (induction rows) (auto simp: set_update_where)

definition closed_row :: "entry_status \<Rightarrow> entry \<Rightarrow> entry" where
  "closed_row status w =
     (let w' = w\<lparr>w_status := status, w_offer_expires_at := None\<rparr> in
      if status = Waiting then w'\<lparr>w_token_hash := None, w_offer_starts_at := None\<rparr> else w')"

lemma closed_row_sel [simp]:
  "w_id (closed_row st w) = w_id w" "w_tenant (closed_row st w) = w_tenant w" "w_day (closed_row st w) = w_day w"
  "w_type (closed_row st w) = w_type w" "w_phone (closed_row st w) = w_phone w"
  "w_status (closed_row st w) = st" "w_deleted (closed_row st w) = w_deleted w"
  "w_created_at (closed_row st w) = w_created_at w" "w_offer_expires_at (closed_row st w) = None"
  by (simp_all add: closed_row_def Let_def)

definition live_offer_among :: "uuid \<Rightarrow> uuid list \<Rightarrow> entry \<Rightarrow> bool" where
  "live_offer_among tn ids w \<longleftrightarrow> w_tenant w = tn \<and> w_id w \<in> set ids \<and> w_status w = Offered \<and> \<not> w_deleted w"

definition close_among :: "uuid \<Rightarrow> uuid list \<Rightarrow> entry_status \<Rightarrow> db \<Rightarrow> db" where
  "close_among tn ids st s =
     s\<lparr>d_entries := update_where (live_offer_among tn ids) (closed_row st) (d_entries s)\<rparr>"

lemma close_among_sel [simp]:
  "d_entries (close_among tn ids st s) = update_where (live_offer_among tn ids) (closed_row st) (d_entries s)"
  "d_messages (close_among tn ids st s) = d_messages s" "d_bookings (close_among tn ids st s) = d_bookings s"
  "d_next (close_among tn ids st s) = d_next s" "d_payments (close_among tn ids st s) = d_payments s"
  "d_customers (close_among tn ids st s) = d_customers s"
  by (simp_all add: close_among_def)

lemma entries_ok_close:
  assumes "entries_ok rows"
  shows "entries_ok (update_where (live_offer_among tn ids) (closed_row st) rows)"
  unfolding entries_ok_def
proof (intro conjI)
  show "distinct (map w_id (update_where (live_offer_among tn ids) (closed_row st) rows))"
    using assms by (simp add: entries_ok_def map_update_where)
  show "unique_on active_entry entry_key (update_where (live_offer_among tn ids) (closed_row st) rows)"
    by (rule unique_on_update_drop)
      (use assms in \<open>auto simp: entries_ok_def live_offer_among_def active_entry_def entry_key_def\<close>)
  show "unique_on (\<lambda>w. \<not> w_deleted w \<and> w_token_hash w \<noteq> None) w_token_hash
      (update_where (live_offer_among tn ids) (closed_row st) rows)"
    by (rule unique_on_update_drop)
      (use assms in \<open>auto simp: entries_ok_def live_offer_among_def closed_row_def Let_def split: if_splits\<close>)
qed

lemma close_offer_run:
  assumes "entries_ok (d_entries s)"
  shows "close_offer tn ids st s =
    Inr (close_among tn ids st s, map w_id (filter (live_offer_among tn ids) (d_entries s)))"
proof (cases "ids = []")
  case True
  have "update_where (live_offer_among tn []) f rows = rows" for f rows
    by (rule update_where_none) (simp add: live_offer_among_def list_ex_iff)
  with True show ?thesis by (simp add: close_offer_def close_among_def live_offer_among_def)
next
  case False
  have P: "(\<lambda>w. w_tenant w = tn \<and> w_id w \<in> set ids \<and> w_status w = Offered \<and> \<not> w_deleted w) = live_offer_among tn ids"
    by (simp add: fun_eq_iff live_offer_among_def)
  have f: "(\<lambda>w. let w' = w\<lparr>w_status := st, w_offer_expires_at := None\<rparr> in
                  if st = Waiting then w'\<lparr>w_token_hash := None, w_offer_starts_at := None\<rparr> else w') = closed_row st"
    by (simp add: fun_eq_iff closed_row_def)
  show ?thesis
    unfolding close_offer_def if_not_P [OF False] Let_def P f [unfolded Let_def]
    using entries_ok_close [OF assms, of tn ids st]
    by (simp add: update_rows_def Let_def update_where_none close_among_def)
qed

lemma db_ok_close: "db_ok s \<Longrightarrow> db_ok (close_among tn ids st s)"
  using entries_ok_close [of "d_entries s" tn ids st] by (simp add: db_ok_def map_update_where)

lemma entry_by_id_close:
  "entry_by_id tn' wid (close_among tn ids st s) =
     map_option (\<lambda>w. if live_offer_among tn ids w then closed_row st w else w) (entry_by_id tn' wid s)"
  unfolding entry_by_id_def by (simp add: find_update_where_stable names_entry_def)

text \<open>Closing the texts of many entries at once.\<close>

definition hush_all :: "uuid \<Rightarrow> uuid list \<Rightarrow> db \<Rightarrow> db" where
  "hush_all tn wids s = fold (hush tn) wids s"

lemma hush_all_simps [simp]: "hush_all tn [] s = s" "hush_all tn (w # ws) s = hush_all tn ws (hush tn w s)"
  by (simp_all add: hush_all_def)

lemma hush_all_sel [simp]:
  "d_entries (hush_all tn wids s) = d_entries s" "d_bookings (hush_all tn wids s) = d_bookings s"
  "d_payments (hush_all tn wids s) = d_payments s" "d_customers (hush_all tn wids s) = d_customers s"
  by (induction wids arbitrary: s) simp_all

lemma cancel_texts_run: "db_ok s \<Longrightarrow> cancel_texts tn wids s = Inr (hush_all tn wids s) \<and> db_ok (hush_all tn wids s)"
proof (induction wids arbitrary: s)
  case (Cons w ws)
  with db_ok_hush [OF Cons.prems, of tn w] show ?case
    by (simp add: cancel_pending_for_entry_run [OF db_okD(3) [OF Cons.prems]])
qed simp

text \<open>What is left pending was pending before, and is about none of the hushed entries.\<close>

lemma hush_pending:
  assumes "m \<in> set (d_messages (hush tn wid s))" "m_status m = Msg_pending"
  shows "m \<in> set (d_messages s)" "\<not> about_entry tn wid Waitlist_offer m"
proof -
  let ?P = "\<lambda>m. about_entry tn wid Waitlist_offer m \<and> m_status m = Msg_pending"
  have "m \<in> set (update_where ?P (close_message Msg_cancelled) (d_messages s))"
    using assms(1) by (simp add: hush_def)
  then obtain x where x: "x \<in> set (d_messages s)" "m = (if ?P x then close_message Msg_cancelled x else x)"
    unfolding set_update_where by blast
  have "\<not> ?P x" using x(2) assms(2) by (auto simp: close_message_def split: if_splits)
  with x show "m \<in> set (d_messages s)" by simp
  show "\<not> about_entry tn wid Waitlist_offer m" using hush_quiet [OF assms(1)] assms(2) by blast
qed

lemma hush_all_pending:
  assumes "m \<in> set (d_messages (hush_all tn wids s))" "m_status m = Msg_pending"
  shows "m \<in> set (d_messages s) \<and> (\<forall>w\<in>set wids. \<not> about_entry tn w Waitlist_offer m)"
  using assms
proof (induction wids arbitrary: s)
  case (Cons w ws)
  then have "m \<in> set (d_messages (hush tn w s)) \<and> (\<forall>w\<in>set ws. \<not> about_entry tn w Waitlist_offer m)" by simp
  with hush_pending [of m tn w s] Cons.prems(2) show ?case by auto
qed simp

text \<open>Entries change only among the hushed ones: the waiting texts still carry live offers.\<close>

lemma offers_agree_hushed:
  assumes "offers_agree e s"
    and "\<And>tn' wid. \<not> (tn' = tn \<and> wid \<in> set ids) \<Longrightarrow> entry_by_id tn' wid s' = entry_by_id tn' wid s"
    and "d_messages s' = d_messages (hush_all tn ids s1)" "d_messages s1 = d_messages s"
  shows "offers_agree e s'"
  unfolding offers_agree_def list_all_iff
proof
  fix m assume m: "m \<in> set (d_messages s')"
  show "offer_works e s' m"
  proof (cases "pending_message m \<and> m_kind m = Waitlist_offer")
    case True
    then have "m \<in> set (d_messages s)" and quiet: "\<forall>w\<in>set ids. \<not> about_entry tn w Waitlist_offer m"
      using hush_all_pending [of m tn ids s1] m assms(3,4) by (auto simp: pending_message_def)
    then have works: "offer_works e s m" using assms(1) by (simp add: offers_agree_def list_all_iff)
    from works True obtain wid where "m_entry m = Some wid" by (auto simp: offer_works_iff)
    moreover from this have "\<not> (m_tenant m = tn \<and> wid \<in> set ids)"
      using quiet True by (auto simp: about_entry_def pending_message_def)
    ultimately show ?thesis using works True assms(2) by (simp add: offer_works_iff)
  qed (auto simp: offer_works_iff)
qed

lemma due_offers_mem:
  assumes "w \<in> set (due_offers tn now s)"
  shows "w \<in> set (d_entries s)" "w_tenant w = tn" "w_status w = Offered" "\<not> w_deleted w"
    "\<exists>till. w_offer_expires_at w = Some till \<and> till \<le> now"
  using set_take_subset [of EXPIRY_BATCH_SIZE "sort_key (\<lambda>w. the (w_offer_expires_at w))
       (filter (\<lambda>w. w_tenant w = tn \<and> w_status w = Offered
                  \<and> (case w_offer_expires_at w of None \<Rightarrow> False | Some t \<Rightarrow> t \<le> now)
                  \<and> \<not> w_deleted w) (d_entries s))"] assms
  by (auto simp: due_offers_def split: option.splits)

text \<open>What \<open>_expire\<close> writes, row by row.\<close>

definition expired_row :: "uuid \<Rightarrow> instant \<Rightarrow> db \<Rightarrow> entry \<Rightarrow> entry" where
  "expired_row tn now s w =
     (if w \<in> set (due_offers tn now s)
      then closed_row (if fate_of tn s w = Fate_unsent then Waiting else Expired) w else w)"

lemma expired_row_sel [simp]:
  "w_id (expired_row tn now s w) = w_id w" "w_tenant (expired_row tn now s w) = w_tenant w"
  "w_day (expired_row tn now s w) = w_day w" "w_type (expired_row tn now s w) = w_type w"
  "w_deleted (expired_row tn now s w) = w_deleted w" "w_created_at (expired_row tn now s w) = w_created_at w"
  by (simp_all add: expired_row_def)

lemma expire_offers_run:
  assumes ok: "db_ok s" and agree: "offers_agree e s"
  obtains s' r where "expire_offers tn now s = Inr (s', r)" "db_ok s'" "offers_agree e s'"
    "d_entries s' = map (expired_row tn now s) (d_entries s)" "d_bookings s' = d_bookings s"
    "d_payments s' = d_payments s" "d_rules s' = d_rules s" "d_exceptions s' = d_exceptions s"
proof (cases "due_offers tn now s = []")
  case True
  then have "map (expired_row tn now s) (d_entries s) = d_entries s"
    by (simp add: expired_row_def map_idI)
  with True that [of s no_result] ok agree show ?thesis by (simp add: expire_offers_def)
next
  case False
  let ?due = "due_offers tn now s"
  define ids where "ids = (\<lambda>fate. map w_id (filter (\<lambda>w. fate_of tn s w = fate) ?due))"
  define gone where "gone = ids Fate_sent @ ids Fate_undeliverable"
  define undone where "undone = ids Fate_unsent"
  define s1 where "s1 = close_among tn gone Expired s"
  define s2 where "s2 = close_among tn undone Waiting s1"
  define shut where "shut = map w_id (filter (live_offer_among tn gone) (d_entries s))
      @ map w_id (filter (live_offer_among tn undone) (d_entries s1))"
  have ok1: "db_ok s1" and ok2: "db_ok s2" unfolding s1_def s2_def by (simp_all add: ok db_ok_close)
  have run: "\<exists>r. expire_offers tn now s = Inr (hush_all tn shut s2, r)"
    using close_offer_run [OF db_okD(4) [OF ok], of tn gone Expired]
      close_offer_run [OF db_okD(4) [OF ok1], of tn undone Waiting] cancel_texts_run [OF ok2, of tn shut] False
    by (simp add: expire_offers_def Let_def gone_def undone_def ids_def s1_def s2_def shut_def)
  have same: "x = w" if "x \<in> set (d_entries s)" "w \<in> set (d_entries s)" "w_id x = w_id w" for x w
    using wt.same_row [OF db_okD(4) [OF ok] that] .
  have due: "w_id w \<in> set (ids fate) \<longleftrightarrow> w \<in> set ?due \<and> fate_of tn s w = fate" if "w \<in> set (d_entries s)" for w fate
    using same [OF _ that] due_offers_mem(1) [of _ tn now s] by (force simp: ids_def)
  have live: "w_tenant w = tn" "w_status w = Offered" "\<not> w_deleted w" if "w \<in> set ?due" for w
    using due_offers_mem [OF that] by simp_all
  have row: "(let w1 = if live_offer_among tn gone w then closed_row Expired w else w in
       if live_offer_among tn undone w1 then closed_row Waiting w1 else w1) = expired_row tn now s w"
    if w: "w \<in> set (d_entries s)" for w
  proof (cases "w \<in> set ?due")
    case True
    then show ?thesis
      using live [OF True] due [OF w]
      by (cases "fate_of tn s w") (simp_all add: live_offer_among_def gone_def undone_def expired_row_def)
  next
    case False
    then show ?thesis
      using due [OF w] by (simp add: live_offer_among_def gone_def undone_def expired_row_def)
  qed
  have entries: "d_entries (hush_all tn shut s2) = map (expired_row tn now s) (d_entries s)"
    unfolding s2_def s1_def using row by (simp add: update_where_def Let_def)
  have by_id: "entry_by_id tn' wid (hush_all tn shut s2) = entry_by_id tn' wid s"
    if "\<not> (tn' = tn \<and> wid \<in> set shut)" for tn' wid
  proof -
    have "entry_by_id tn' wid (hush_all tn shut s2) = map_option (expired_row tn now s) (entry_by_id tn' wid s)"
      unfolding entry_by_id_def entries by (simp add: find_map_stable names_entry_def)
    moreover have "expired_row tn now s w = w" if "entry_by_id tn' wid s = Some w" for w
    proof (rule ccontr)
      note w = entry_by_id_SomeD [OF that]
      assume "expired_row tn now s w \<noteq> w"
      then have d: "w \<in> set ?due" by (auto simp: expired_row_def split: if_splits)
      have idw: "wid \<in> set (ids fate) \<longleftrightarrow> fate_of tn s w = fate" for fate
        using due [of w fate] w d by auto
      have "wid \<in> set shut"
      proof (cases "fate_of tn s w = Fate_unsent")
        case True
        then have "live_offer_among tn undone w" "\<not> live_offer_among tn gone w"
          using live [OF d] idw w by (simp_all add: live_offer_among_def undone_def gone_def)
        then show ?thesis using w by (force simp: shut_def s1_def set_update_where)
      next
        case False
        then have "live_offer_among tn gone w"
          using live [OF d] idw w by (cases "fate_of tn s w") (simp_all add: live_offer_among_def gone_def)
        then show ?thesis using w by (force simp: shut_def)
      qed
      with \<open>\<not> (tn' = tn \<and> wid \<in> set shut)\<close> w live [OF d] show False by simp
    qed
    ultimately show ?thesis by (cases "entry_by_id tn' wid s") simp_all
  qed
  have "offers_agree e (hush_all tn shut s2)"
    by (rule offers_agree_hushed [OF agree by_id refl]) (simp_all add: s2_def s1_def)
  moreover have "d_rules (hush_all tn wids x) = d_rules x" "d_exceptions (hush_all tn wids x) = d_exceptions x" for wids x
    by (induction wids arbitrary: x) (simp_all add: hush_def)
  ultimately show ?thesis
    using run that cancel_texts_run [OF ok2, of tn shut] entries by (auto simp: s2_def s1_def close_among_def)
qed

text \<open>An offer past its deadline is closed exactly once and by what happened to its text. Closing
  never fails; each due entry whose text was sent, or whose text was refused three times, expires; one
  whose text never went out returns to the queue with its place (its creation time) and without a token;
  every other entry is left as it was, no booking or payment is touched, and no text of a closed offer
  is left to be sent.\<close>

theorem due_offers_closed:
  assumes "db_ok s" "offers_agree e s"
  shows "\<exists>s' r. expire_offers tn now s = Inr (s', r) \<and> db_ok s' \<and> offers_agree e s'
     \<and> d_bookings s' = d_bookings s \<and> d_payments s' = d_payments s
     \<and> (\<forall>tn' wid w. entry_by_id tn' wid s = Some w \<longrightarrow>
          entry_by_id tn' wid s' = Some
            (if w \<notin> set (due_offers tn now s) then w
             else if fate_of tn s w = Fate_unsent
             then w\<lparr>w_status := Waiting, w_offer_expires_at := None, w_token_hash := None, w_offer_starts_at := None\<rparr>
             else w\<lparr>w_status := Expired, w_offer_expires_at := None\<rparr>))
     \<and> (\<forall>m\<in>set (d_messages s'). \<forall>w\<in>set (due_offers tn now s).
          about_entry tn (w_id w) Waitlist_offer m \<longrightarrow> m_status m \<noteq> Msg_pending)"
proof -
  obtain s' r where s': "expire_offers tn now s = Inr (s', r)" "db_ok s'" "offers_agree e s'"
    "d_entries s' = map (expired_row tn now s) (d_entries s)" "d_bookings s' = d_bookings s"
    "d_payments s' = d_payments s"
    by (rule expire_offers_run [OF assms])
  have by_id: "entry_by_id tn' wid s' = map_option (expired_row tn now s) (entry_by_id tn' wid s)" for tn' wid
    unfolding entry_by_id_def s'(4) by (simp add: find_map_stable names_entry_def)
  have quiet: "m_status m \<noteq> Msg_pending"
    if m: "m \<in> set (d_messages s')" and w: "w \<in> set (due_offers tn now s)"
      and a: "about_entry tn (w_id w) Waitlist_offer m" for m w
  proof
    assume "m_status m = Msg_pending"
    then have "pending_message m" "m_kind m = Waitlist_offer" "m_entry m = Some (w_id w)" "m_tenant m = tn"
      using a by (simp_all add: pending_message_def about_entry_def)
    then have "\<exists>x. entry_by_id tn (w_id w) s' = Some x \<and> w_status x = Offered"
      using s'(3) m by (force simp: offers_agree_def list_all_iff offer_works_iff)
    moreover have "entry_by_id tn (w_id w) s = Some w"
      using wt.fetch_mem [OF db_okD(4) [OF assms(1)] due_offers_mem(1) [OF w] due_offers_mem(4) [OF w]]
        due_offers_mem(2) [OF w] by (simp add: entry_by_id_fetch)
    ultimately show False using by_id [of tn "w_id w"] w by (auto simp: expired_row_def split: if_splits)
  qed
  have row: "expired_row tn now s w = (if w \<notin> set (due_offers tn now s) then w
             else if fate_of tn s w = Fate_unsent
             then w\<lparr>w_status := Waiting, w_offer_expires_at := None, w_token_hash := None, w_offer_starts_at := None\<rparr>
             else w\<lparr>w_status := Expired, w_offer_expires_at := None\<rparr>)" for w
    by (simp add: expired_row_def closed_row_def)
  show ?thesis using s' by_id quiet unfolding row by (intro exI [of _ s'] exI [of _ r]) auto
qed

theorem due_offers_closed_witness:
  "\<exists>s' r. expire_offers 4 100 offer_shop = Inr (s', r)
     \<and> entry_by_id 4 7 s' = Some (offered_entry\<lparr>w_status := Waiting, w_offer_expires_at := None,
         w_token_hash := None, w_offer_starts_at := None\<rparr>)"
proof -
  have w: "entry_by_id 4 7 offer_shop = Some offered_entry" by code_simp
  have "offered_entry \<in> set (due_offers 4 100 offer_shop)"
    by (simp add: due_offers_def EXPIRY_BATCH_SIZE_def offer_shop_def offered_entry_def)
  moreover have "fate_of 4 offer_shop offered_entry = Fate_unsent" by code_simp
  ultimately show ?thesis using due_offers_closed [OF offer_shop_facts(1,3), of 4 100] w by fastforce
qed

section \<open>Making an offer\<close>

lemma pick_slot_SomeD:
  "pick_slot cfg now held slots = Some (slot, till) \<Longrightarrow>
   slot \<in> set slots \<and> held (s_starts_at slot) < remaining slot
   \<and> offer_expiry now (s_starts_at slot) (cc_window cfg) (cc_min_lead cfg) = Some till"
  by (induction slots) (auto split: if_splits option.splits)

definition offered_row :: "instant \<Rightarrow> instant \<Rightarrow> instant \<Rightarrow> utext \<Rightarrow> entry \<Rightarrow> entry" where
  "offered_row now at till h w =
     w\<lparr>w_status := Offered, w_offered_at := Some now, w_offer_starts_at := Some at,
       w_offer_expires_at := Some till, w_token_hash := Some h\<rparr>"

lemma offered_row_keeps [simp]: "wt.keeps_name (offered_row now at till h)"
  by (simp add: wt.keeps_name_def offered_row_def)

lemma oldest_by_id:
  assumes "db_ok s" "oldest_waiting tn day tid s = Some w"
  shows "entry_by_id tn (w_id w) s = Some w"
  using wt.fetch_mem [OF db_okD(4) [OF assms(1)] oldest_waiting_SomeD(1,6) [OF assms(2)]]
    oldest_waiting_SomeD(2) [OF assms(2)] by (simp add: entry_by_id_fetch)

text \<open>A waiting entry has no text to send, so the savepoint of \<open>_offer_one\<close> never rolls back.\<close>

lemma offer_one_run:
  assumes ok: "db_ok s" and agree: "offers_agree e s" and run: "offer_one e cfg tn mint now day tid s = Inr (s', made)"
  shows "(\<not> made \<and> s' = s) \<or> (\<exists>w slot till.
     made \<and> oldest_waiting tn day tid s = Some w
     \<and> pick_slot cfg now (offered_instants tn day s) (day_slots e tn day now s) = Some (slot, till)
     \<and> db_ok s' \<and> offers_agree e s'
     \<and> d_entries s' = d_entries (write_entry tn (w_id w) (offered_row now (s_starts_at slot) till (e_hash e (mint (w_id w)))) s)
     \<and> d_bookings s' = d_bookings s \<and> d_rules s' = d_rules s \<and> d_exceptions s' = d_exceptions s
     \<and> d_payments s' = d_payments s)"
proof (cases "oldest_waiting tn day tid s")
  case None
  with run show ?thesis by (simp add: offer_one_def)
next
  case (Some w)
  show ?thesis
  proof (cases "pick_slot cfg now (offered_instants tn day s) (day_slots e tn day now s)")
    case None
    with run Some show ?thesis by (simp add: offer_one_def)
  next
    case pick: (Some p)
    obtain slot till where p: "p = (slot, till)" by (cases p)
    note w = oldest_waiting_SomeD [OF Some]
    note by_id = oldest_by_id [OF ok Some]
    let ?h = "e_hash e (mint (w_id w))"
    let ?f = "offered_row now (s_starts_at slot) till ?h"
    let ?s1 = "write_entry tn (w_id w) ?f s"
    let ?m = "\<lparr>m_id = d_next s, m_tenant = tn, m_booking = None, m_entry = Some (w_id w), m_kind = Waitlist_offer,
                 m_send_after = now, m_status = Msg_pending, m_token = Some (mint (w_id w)),
                 m_created_at = d_now s, m_deleted = False\<rparr>"
    obtain s1 moved where u: "offer_entry tn (w_id w) now (s_starts_at slot) till ?h s = Inr (s1, moved)"
      using run Some pick p by (auto simp: offer_one_def manage_token_hash_def handler_simps)
    have s1: "s1 = ?s1" "moved" "entries_ok (d_entries ?s1)"
      using u by_id w(5) unfolding offer_entry_def offered_row_def [abs_def]
      by (auto simp: update_entry_run [OF db_okD(4) [OF ok]] split: if_splits)
    have ok1: "db_ok ?s1" by (rule db_ok_write_entry [OF ok s1(3)]) simp
    have quiet: "\<not> (pending_message m \<and> m_kind m = Waitlist_offer \<and> m_tenant m = tn \<and> m_entry m = Some (w_id w))"
      if "m \<in> set (d_messages s)" for m
    proof
      assume "pending_message m \<and> m_kind m = Waitlist_offer \<and> m_tenant m = tn \<and> m_entry m = Some (w_id w)"
      moreover have "offer_works e s m" using agree that by (simp add: offers_agree_def list_all_iff)
      ultimately show False using by_id w(5) by (auto simp: offer_works_iff)
    qed
    have "messages_ok (d_messages s @ [?m])"
      using db_okD(3) [OF ok] ids_below_notin [OF db_okD(8) [OF ok]] quiet
      by (auto simp: messages_ok_def pending_message_def [of ?m])
    then have ins: "insert_message tn Waitlist_offer now (Some (mint (w_id w))) None (Some (w_id w)) ?s1 =
        Inr (?s1\<lparr>d_messages := d_messages s @ [?m], d_next := d_next s + 1\<rparr>, ?m)"
      by (simp add: insert_message_def insert_row_def Let_def)
    let ?s2 = "?s1\<lparr>d_messages := d_messages s @ [?m], d_next := d_next s + 1\<rparr>"
    have out: "made" "s' = ?s2"
      using run Some pick p u s1(1,2) ins by (simp_all add: offer_one_def manage_token_hash_def)
    have below: "w_id w < d_next s"
      using db_okD(9) [OF ok] w(1) by (auto simp: ids_below_def list_all_iff)
    have "db_ok ?s2"
      using db_okD [OF ok1] \<open>messages_ok (d_messages s @ [?m])\<close> below
      by (auto simp: db_ok_def intro: ids_below_mono subjects_below_mono)
    moreover have "offers_agree e ?s2"
      unfolding offers_agree_def list_all_iff
    proof
      fix m assume "m \<in> set (d_messages ?s2)"
      then consider "m \<in> set (d_messages s)" | "m = ?m" by auto
      then show "offer_works e ?s2 m"
      proof cases
        case 1
        have e2: "offer_works e ?s2 m = offer_works e ?s1 m" by (rule offer_works_entries) simp
        have "offer_works e s m" using agree 1 by (simp add: offers_agree_def list_all_iff)
        then show ?thesis
          using quiet [OF 1] unfolding e2 unfolding offer_works_iff
          by (auto simp: entry_by_id_write)
      next
        case 2
        have e2: "offer_works e ?s2 m = offer_works e ?s1 m" by (rule offer_works_entries) simp
        show ?thesis
          using by_id unfolding 2 unfolding e2 [unfolded 2] by (simp add: offer_works_iff entry_by_id_write offered_row_def)
      qed
    qed
    ultimately show ?thesis using out Some pick p by (auto simp: write_entry_def)
  qed
qed

lemma offered_instants_offer:
  assumes ok: "db_ok s" and w: "entry_by_id tn wid s = Some w" "w_status w = Waiting"
    and s': "d_entries s' = d_entries (write_entry tn wid (offered_row now at till h) s)"
  shows "offered_instants tn day s' x = offered_instants tn day s x + (if day = w_day w \<and> x = at then 1 else 0)"
proof -
  let ?f = "offered_row now at till h"
  obtain pre post where rows: "d_entries s = pre @ w # post"
    and u: "update_where (wt.named tn wid) ?f (d_entries s) = pre @ ?f w # post"
    using wt.one_row [OF db_okD(4) [OF ok] w(1) [unfolded entry_by_id_fetch]] by blast
  have "d_entries s' = pre @ ?f w # post" using s' u by (simp add: names_entry_named)
  then show ?thesis
    using rows w(2) entry_by_id_SomeD [OF w(1)] by (auto simp: offered_instants_def offered_row_def)
qed

text \<open>C29. An offer goes to the bride who waited longest, for a seat nobody else was offered. Whenever one
  is made, the entry is the oldest waiting of its day and type, the start is one the day's grid shows with
  more seats left than offers already naming it, the deadline is after now, within the window and early
  enough before the start, and the entry answers to the token of the one text that will be sent; when
  none is made nothing is written. In particular the savepoint around the text's INSERT never loses.\<close>

theorem offer_goes_to_oldest:
  assumes "db_ok s" "offers_agree e s" "offer_one e cfg tn mint now day tid s = Inr (s', made)"
  shows "if \<not> made then s' = s
     else \<exists>w slot till. oldest_waiting tn day tid s = Some w
       \<and> (\<forall>v\<in>set (d_entries s). w_tenant v = tn \<and> w_day v = day \<and> w_type v = tid \<and> w_status v = Waiting
            \<and> \<not> w_deleted v \<longrightarrow> (w_created_at w, w_id w) \<le> (w_created_at v, w_id v))
       \<and> slot \<in> set (day_slots e tn day now s)
       \<and> now < till \<and> till \<le> now + cc_window cfg \<and> till \<le> s_starts_at slot - cc_min_lead cfg
       \<and> offered_instants tn day s' (s_starts_at slot) = offered_instants tn day s (s_starts_at slot) + 1
       \<and> offered_instants tn day s' (s_starts_at slot) \<le> remaining slot
       \<and> (\<exists>w'. entry_by_id tn (w_id w) s' = Some w' \<and> w_status w' = Offered
            \<and> w_offer_starts_at w' = Some (s_starts_at slot) \<and> w_offer_expires_at w' = Some till
            \<and> w_token_hash w' = Some (e_hash e (mint (w_id w))))
       \<and> d_bookings s' = d_bookings s \<and> db_ok s' \<and> offers_agree e s'"
proof (cases made)
  case False
  with offer_one_run [OF assms] show ?thesis by simp
next
  case True
  obtain w slot till where w: "oldest_waiting tn day tid s = Some w"
    and pick: "pick_slot cfg now (offered_instants tn day s) (day_slots e tn day now s) = Some (slot, till)"
    and s': "db_ok s'" "offers_agree e s'" "d_bookings s' = d_bookings s"
      "d_entries s' = d_entries (write_entry tn (w_id w) (offered_row now (s_starts_at slot) till (e_hash e (mint (w_id w)))) s)"
    using offer_one_run [OF assms] True by blast
  note old = oldest_waiting_SomeD [OF w]
  note by_id = oldest_by_id [OF assms(1) w]
  note p = pick_slot_SomeD [OF pick]
  have "offer_expiry now (s_starts_at slot) (cc_window cfg) (cc_min_lead cfg) = Some till" using p by simp
  note till = offer_expiry_SomeD [OF this]
  have held: "offered_instants tn day s' (s_starts_at slot) = offered_instants tn day s (s_starts_at slot) + 1"
    using offered_instants_offer [OF assms(1) by_id old(5) s'(4), of day "s_starts_at slot"] old(3) by simp
  have "entry_by_id tn (w_id w) s' =
      entry_by_id tn (w_id w) (write_entry tn (w_id w) (offered_row now (s_starts_at slot) till (e_hash e (mint (w_id w)))) s)"
    unfolding entry_by_id_def s'(4) ..
  then have new: "entry_by_id tn (w_id w) s' = Some (offered_row now (s_starts_at slot) till (e_hash e (mint (w_id w))) w)"
    by (simp add: entry_by_id_write by_id)
  have fifo: "\<forall>v\<in>set (d_entries s). w_tenant v = tn \<and> w_day v = day \<and> w_type v = tid \<and> w_status v = Waiting
            \<and> \<not> w_deleted v \<longrightarrow> (w_created_at w, w_id w) \<le> (w_created_at v, w_id v)"
    using old(7) by blast
  have row: "w_status (offered_row now at till h w) = Offered" "w_offer_starts_at (offered_row now at till h w) = Some at"
    "w_offer_expires_at (offered_row now at till h w) = Some till" "w_token_hash (offered_row now at till h w) = Some h"
    for at h by (simp_all add: offered_row_def)
  have room: "offered_instants tn day s' (s_starts_at slot) \<le> remaining slot" using held p by simp
  have named: "\<exists>w'. entry_by_id tn (w_id w) s' = Some w' \<and> w_status w' = Offered
      \<and> w_offer_starts_at w' = Some (s_starts_at slot) \<and> w_offer_expires_at w' = Some till
      \<and> w_token_hash w' = Some (e_hash e (mint (w_id w)))"
    using new row by blast
  have m: "\<not> \<not> made" using True by simp
  show ?thesis unfolding if_not_P [OF m] using w fifo p till held room named s'(1-3) by blast
qed

definition queue_shop :: db where
  "queue_shop = shop_full\<lparr>d_entries := [\<lparr>w_id = 7, w_tenant = 4, w_day = EPOCH_ORDINAL, w_type = 8, w_phone = [48],
     w_status = Waiting, w_offered_at = None, w_offer_expires_at = None, w_offer_starts_at = None,
     w_token_hash = None, w_created_at = 0, w_deleted = False\<rparr>]\<rparr>"

definition sample_cascade :: cascade_config where
  "sample_cascade = \<lparr>cc_window = hours 1, cc_min_lead = 0, cc_quiet_start = 0, cc_quiet_end = 0\<rparr>"

lemma queue_shop_facts: "db_ok queue_shop" "offers_agree sample_env queue_shop"
  by code_simp+

theorem offer_goes_to_oldest_witness:
  "\<exists>s'. offer_one sample_env sample_cascade 4 (\<lambda>i. [i]) 0 EPOCH_ORDINAL 8 queue_shop = Inr (s', True)
     \<and> (\<exists>w'. entry_by_id 4 7 s' = Some w' \<and> w_status w' = Offered) \<and> offers_agree sample_env s'"
proof -
  let ?run = "offer_one sample_env sample_cascade 4 (\<lambda>i. [i]) 0 EPOCH_ORDINAL 8 queue_shop"
  have "(case ?run of Inl _ \<Rightarrow> False | Inr r \<Rightarrow> snd r)" by code_simp
  then obtain s' where run: "?run = Inr (s', True)" by (auto split: sum.splits)
  have "map_option w_id (oldest_waiting 4 EPOCH_ORDINAL 8 queue_shop) = Some 7" by code_simp
  with offer_goes_to_oldest [OF queue_shop_facts run] run show ?thesis by auto
qed

section \<open>A whole run\<close>

text \<open>At most one live offer in each queue.\<close>

definition queue_key :: "entry \<Rightarrow> uuid \<times> date \<times> uuid" where
  "queue_key w = (w_tenant w, w_day w, w_type w)"

definition live_offer :: "entry \<Rightarrow> bool" where
  "live_offer w \<longleftrightarrow> \<not> w_deleted w \<and> w_status w = Offered"

definition one_offer_per_queue :: "db \<Rightarrow> bool" where
  "one_offer_per_queue s \<longleftrightarrow> unique_on live_offer queue_key (d_entries s)"

lemma live_offer_for_iff:
  "live_offer_for tn day tid s \<longleftrightarrow> (\<exists>w\<in>set (d_entries s). live_offer w \<and> queue_key w = (tn, day, tid))"
  by (auto simp: live_offer_for_def list_ex_iff live_offer_def queue_key_def)

lemma one_offer_expired:
  assumes "one_offer_per_queue s" "d_entries s' = map (expired_row tn now s) (d_entries s)"
  shows "one_offer_per_queue s'"
proof -
  have rows: "map (expired_row tn now s) (d_entries s) =
      update_where (\<lambda>w. w \<in> set (due_offers tn now s)) (expired_row tn now s) (d_entries s)"
    by (simp add: update_where_def expired_row_def)
  have "live_offer w \<and> queue_key (expired_row tn now s w) = queue_key w"
    if "w \<in> set (due_offers tn now s)" for w
    using due_offers_mem [OF that] by (simp add: live_offer_def queue_key_def)
  then show ?thesis
    using assms(1) unfolding one_offer_per_queue_def assms(2) rows by (intro unique_on_update_drop) auto
qed

text \<open>What one offer does to its queue, and to no other.\<close>

lemma offer_one_queue:
  assumes ok: "db_ok s" and agree: "offers_agree e s" and one: "one_offer_per_queue s"
    and free: "\<not> live_offer_for tn day tid s"
    and run: "offer_one e cfg tn mint now day tid s = Inr (s', made)"
  shows "one_offer_per_queue s'" "(d, t) \<noteq> (day, tid) \<Longrightarrow> live_offer_for tn d t s' = live_offer_for tn d t s"
proof -
  have *: "one_offer_per_queue s' \<and> ((d, t) \<noteq> (day, tid) \<longrightarrow> live_offer_for tn d t s' = live_offer_for tn d t s)" for d t
  proof (cases made)
    case False
    with offer_one_run [OF ok agree run] one show ?thesis by simp
  next
    case True
    obtain w and slot :: slot and till where w: "oldest_waiting tn day tid s = Some w"
      and s': "d_entries s' = d_entries (write_entry tn (w_id w) (offered_row now (s_starts_at slot) till (e_hash e (mint (w_id w)))) s)"
      using offer_one_run [OF ok agree run] True by blast
    let ?f = "offered_row now (s_starts_at slot) till (e_hash e (mint (w_id w)))"
    obtain pre post where rows: "d_entries s = pre @ w # post"
      and u: "update_where (wt.named tn (w_id w)) ?f (d_entries s) = pre @ ?f w # post"
      using wt.one_row [OF db_okD(4) [OF ok] oldest_by_id [OF ok w, unfolded entry_by_id_fetch]] by blast
    have new: "d_entries s' = pre @ ?f w # post" using s' u by (simp add: names_entry_named)
    have key: "queue_key (?f w) = (tn, day, tid)" "live_offer (?f w)" "\<not> live_offer w"
      using oldest_waiting_SomeD [OF w] by (simp_all add: queue_key_def live_offer_def offered_row_def)
    have "one_offer_per_queue s'"
      unfolding one_offer_per_queue_def new
      by (rule unique_on_move) (use one free key in \<open>auto simp: one_offer_per_queue_def rows live_offer_for_iff\<close>)
    moreover have "live_offer_for tn d t s' = live_offer_for tn d t s" if "(d, t) \<noteq> (day, tid)"
      using that key unfolding live_offer_for_iff new rows by auto
    ultimately show ?thesis by blast
  qed
  then show "one_offer_per_queue s'" "(d, t) \<noteq> (day, tid) \<Longrightarrow> live_offer_for tn d t s' = live_offer_for tn d t s"
    by blast+
qed

text \<open>Which starts gained an offer, and that there was a seat for each.\<close>

definition covered :: "env \<Rightarrow> uuid \<Rightarrow> instant \<Rightarrow> db \<Rightarrow> db \<Rightarrow> bool" where
  "covered e tn now s s' \<longleftrightarrow>
     (\<forall>day at. offered_instants tn day s at \<le> offered_instants tn day s' at
        \<and> (offered_instants tn day s at < offered_instants tn day s' at \<longrightarrow>
            (\<exists>slot\<in>set (day_slots e tn day now s). s_starts_at slot = at
               \<and> offered_instants tn day s' at \<le> remaining slot)))"

lemma day_slots_cong:
  assumes "d_rules s' = d_rules s" "d_exceptions s' = d_exceptions s" "d_bookings s' = d_bookings s"
  shows "day_slots e tn day now s' = day_slots e tn day now s"
proof -
  have "count_by_start t f u s' = count_by_start t f u s" for t f u
    by (simp add: count_by_start_def assms(3) fun_eq_iff)
  then show ?thesis by (simp add: day_slots_def list_active_rules_def list_active_exceptions_def assms)
qed

lemma offer_one_covered:
  assumes "db_ok s" "offers_agree e s" "offer_one e cfg tn mint now day tid s = Inr (s', made)"
  shows "covered e tn now s s'" "d_rules s' = d_rules s" "d_exceptions s' = d_exceptions s"
    "d_bookings s' = d_bookings s" "d_payments s' = d_payments s" "db_ok s'" "offers_agree e s'"
proof -
  have *: "covered e tn now s s' \<and> d_rules s' = d_rules s \<and> d_exceptions s' = d_exceptions s
    \<and> d_bookings s' = d_bookings s \<and> d_payments s' = d_payments s \<and> db_ok s' \<and> offers_agree e s'"
  proof (cases made)
    case False
    with offer_one_run [OF assms] assms(1,2) show ?thesis by (simp add: covered_def)
  next
    case True
    obtain w slot till where w: "oldest_waiting tn day tid s = Some w"
      and pick: "pick_slot cfg now (offered_instants tn day s) (day_slots e tn day now s) = Some (slot, till)"
      and s': "d_entries s' = d_entries (write_entry tn (w_id w) (offered_row now (s_starts_at slot) till (e_hash e (mint (w_id w)))) s)"
      and rest: "db_ok s'" "offers_agree e s'" "d_bookings s' = d_bookings s" "d_rules s' = d_rules s"
        "d_exceptions s' = d_exceptions s" "d_payments s' = d_payments s"
      using offer_one_run [OF assms] True by blast
    note old = oldest_waiting_SomeD [OF w]
    have inst: "offered_instants tn d s' x = offered_instants tn d s x + (if d = day \<and> x = s_starts_at slot then 1 else 0)" for d x
      using offered_instants_offer [OF assms(1) oldest_by_id [OF assms(1) w] old(5) s'] old(3) by simp
    have "covered e tn now s s'"
      unfolding covered_def inst using pick_slot_SomeD [OF pick] by auto
    with rest show ?thesis by blast
  qed
  then show "covered e tn now s s'" "d_rules s' = d_rules s" "d_exceptions s' = d_exceptions s"
    "d_bookings s' = d_bookings s" "d_payments s' = d_payments s" "db_ok s'" "offers_agree e s'" by blast+
qed

lemma covered_trans:
  assumes "covered e tn now s s1" "covered e tn now s1 s2" "\<And>day. day_slots e tn day now s1 = day_slots e tn day now s"
  shows "covered e tn now s s2"
  unfolding covered_def
proof (intro allI conjI impI)
  fix day at
  show "offered_instants tn day s at \<le> offered_instants tn day s2 at"
    using assms(1,2) unfolding covered_def by (meson order_trans)
  assume lt: "offered_instants tn day s at < offered_instants tn day s2 at"
  show "\<exists>slot\<in>set (day_slots e tn day now s). s_starts_at slot = at \<and> offered_instants tn day s2 at \<le> remaining slot"
  proof (cases "offered_instants tn day s1 at < offered_instants tn day s2 at")
    case True
    with assms(2,3) show ?thesis unfolding covered_def by metis
  next
    case False
    with assms(2) have "offered_instants tn day s1 at = offered_instants tn day s2 at"
      unfolding covered_def by (meson order_antisym not_less)
    with lt assms(1) show ?thesis unfolding covered_def by metis
  qed
qed

lemma issue_pairs_safe:
  assumes "db_ok s" "offers_agree e s" "one_offer_per_queue s" "distinct pairs"
    and "\<forall>(d, t)\<in>set pairs. \<not> live_offer_for tn d t s"
    and "issue_pairs e cfg tn mint now pairs s = Inr (s', n)"
  shows "db_ok s' \<and> offers_agree e s' \<and> one_offer_per_queue s' \<and> covered e tn now s s'
    \<and> d_bookings s' = d_bookings s \<and> d_payments s' = d_payments s"
  using assms
proof (induction pairs arbitrary: s s' n)
  case Nil
  then show ?case by (simp add: covered_def)
next
  case (Cons p pairs)
  obtain day tid where p: "p = (day, tid)" by (cases p)
  obtain s1 made n' where first: "offer_one e cfg tn mint now day tid s = Inr (s1, made)"
    and rest: "issue_pairs e cfg tn mint now pairs s1 = Inr (s', n')"
    using Cons.prems(6) by (auto simp: p andthen_eq_Inr)
  have free: "\<not> live_offer_for tn day tid s" using Cons.prems(5) by (simp add: p)
  note q = offer_one_queue [OF Cons.prems(1-3) free first]
  note c = offer_one_covered [OF Cons.prems(1,2) first]
  have "\<forall>(d, t)\<in>set pairs. \<not> live_offer_for tn d t s1"
    using Cons.prems(4,5) q(2) by (fastforce simp: p)
  then have ih: "db_ok s' \<and> offers_agree e s' \<and> one_offer_per_queue s' \<and> covered e tn now s1 s'
    \<and> d_bookings s' = d_bookings s1 \<and> d_payments s' = d_payments s1"
    using Cons.IH [OF c(6,7) q(1) _ _ rest] Cons.prems(4) by simp
  have "covered e tn now s s'"
    using covered_trans [OF c(1)] ih day_slots_cong [OF c(2,3,4)] by blast
  with ih c(4,5) show ?case by simp
qed

lemma waiting_pairs_free:
  "distinct (waiting_pairs tn from_day cur s) \<and> (\<forall>(d, t)\<in>set (waiting_pairs tn from_day cur s). \<not> live_offer_for tn d t s)"
proof -
  define ps where "ps = remdups (map (\<lambda>w. (w_day w, w_type w))
       (filter (\<lambda>w. w_tenant w = tn \<and> w_day w \<ge> from_day \<and> w_status w = Waiting \<and> \<not> w_deleted w
                  \<and> \<not> live_offer_for tn (w_day w) (w_type w) s
                  \<and> (case cur of None \<Rightarrow> True
                     | Some (d, t) \<Rightarrow> w_day w > d \<or> (w_day w = d \<and> w_type w > t)))
         (d_entries s)))"
  have "waiting_pairs tn from_day cur s = take ISSUE_BATCH_SIZE (sort ps)" by (simp add: waiting_pairs_def ps_def)
  moreover have "distinct (sort ps)" by (simp add: ps_def)
  moreover have "\<forall>(d, t)\<in>set ps. \<not> live_offer_for tn d t s" by (auto simp: ps_def)
  moreover have "set (take ISSUE_BATCH_SIZE (sort ps)) \<subseteq> set ps" using set_take_subset [of _ "sort ps"] by simp
  ultimately show ?thesis by (metis distinct_take subsetD)
qed

text \<open>C30. The cascade over-promises nothing. From a well formed database with at most one live offer per
  queue, a run that commits leaves it so; every start that gained an offer in the run is on the day's grid
  with at least as many seats left as there are live offers naming it; waiting texts still match the
  entries they speak of; and no booking or payment is touched.\<close>

theorem cascade_overpromises_nothing:
  assumes "db_ok s" "offers_agree e s" "one_offer_per_queue s"
    and "run_cascade e cfg tn mint now cur s = (cur', Inr (s', r))"
  shows "db_ok s' \<and> offers_agree e s' \<and> one_offer_per_queue s'
     \<and> d_bookings s' = d_bookings s \<and> d_payments s' = d_payments s
     \<and> (\<exists>s1 r1. expire_offers tn now s = Inr (s1, r1)
          \<and> (\<forall>day at. offered_instants tn day s1 at < offered_instants tn day s' at \<longrightarrow>
               (\<exists>slot\<in>set (day_slots e tn day now s). s_starts_at slot = at
                  \<and> offered_instants tn day s' at \<le> remaining slot)))"
proof -
  obtain s1 r1 where s1: "expire_offers tn now s = Inr (s1, r1)" "db_ok s1" "offers_agree e s1"
    "d_entries s1 = map (expired_row tn now s) (d_entries s)" "d_bookings s1 = d_bookings s"
    "d_payments s1 = d_payments s" "d_rules s1 = d_rules s" "d_exceptions s1 = d_exceptions s"
    by (rule expire_offers_run [OF assms(1,2)])
  note one = one_offer_expired [OF assms(3) s1(4)]
  have slots: "day_slots e tn day now s1 = day_slots e tn day now s" for day
    by (rule day_slots_cong) (simp_all add: s1)
  show ?thesis
  proof (cases "in_quiet_hours (e_zone e) now (cc_quiet_start cfg) (cc_quiet_end cfg)")
    case True
    with assms(4) s1(1) have "s' = s1" by (simp add: run_cascade_def)
    with s1 one show ?thesis by auto
  next
    case False
    let ?pairs = "waiting_pairs tn (today_jerusalem (e_zone e) now) cur s1"
    obtain n where "issue_pairs e cfg tn mint now ?pairs s1 = Inr (s', n)"
      using assms(4) s1(1) False
      by (auto simp: run_cascade_def issue_offers_def Let_def andthen_eq_Inr)
    from issue_pairs_safe [OF s1(2,3) one _ _ this] waiting_pairs_free
    have "db_ok s' \<and> offers_agree e s' \<and> one_offer_per_queue s' \<and> covered e tn now s1 s'
      \<and> d_bookings s' = d_bookings s1 \<and> d_payments s' = d_payments s1" by blast
    then show ?thesis using s1(1,5,6) slots unfolding covered_def by auto
  qed
qed

theorem cascade_overpromises_nothing_witness:
  "\<exists>cur' s' r. run_cascade sample_env sample_cascade 4 (\<lambda>i. [i]) 0 None queue_shop = (cur', Inr (s', r))
     \<and> cr_offered r = 1 \<and> one_offer_per_queue s' \<and> offers_agree sample_env s'"
proof -
  let ?run = "run_cascade sample_env sample_cascade 4 (\<lambda>i. [i]) 0 None queue_shop"
  have "(case snd ?run of Inl _ \<Rightarrow> False | Inr r \<Rightarrow> cr_offered (snd r) = 1)" by code_simp
  then obtain cur' s' r where run: "?run = (cur', Inr (s', r))" "cr_offered r = 1"
    by (cases ?run) (auto split: sum.splits)
  have "one_offer_per_queue queue_shop" by code_simp
  with cascade_overpromises_nothing [OF queue_shop_facts _ run(1)] run show ?thesis by blast
qed

end
