(* ===== verification/Safety.thy ===== *)
theory Safety
  imports Payments Sweeper Booking_Owner Booking_Manage Waitlist_Cascade
begin

text \<open>
  What every handler keeps. A database is \<open>healthy\<close> when its constraints hold, every waiting reminder
  carries the token its booking answers to, every waiting offer text carries the token its offered
  entry answers to, and no queue has two live offers. One lemma per repository statement and one
  per handler, by the rules of \<open>leaves\<close>.
\<close>

definition healthy :: "env \<Rightarrow> db \<Rightarrow> bool" where
  "healthy e s \<longleftrightarrow> db_ok s \<and> links_agree e s \<and> offers_agree e s \<and> one_offer_per_queue s"

lemma healthyD: "healthy e s \<Longrightarrow> db_ok s" "healthy e s \<Longrightarrow> links_agree e s" "healthy e s \<Longrightarrow> offers_agree e s"
  "healthy e s \<Longrightarrow> one_offer_per_queue s"
  by (simp_all add: healthy_def)

section \<open>What keeps a database healthy\<close>

text \<open>A write outside bookings, messages and entries; new rows only have to be well formed.\<close>

lemma healthy_frame:
  assumes "healthy e s" "db_ok s'" "d_bookings s' = d_bookings s" "d_messages s' = d_messages s"
    "d_entries s' = d_entries s"
  shows "healthy e s'"
proof -
  have "links_agree e s'" by (rule links_agree_same [OF assms(3) _ healthyD(2) [OF assms(1)]]) (simp add: assms(4))
  moreover have "offers_agree e s'"
    by (rule offers_agree_same [OF assms(5) _ healthyD(3) [OF assms(1)]]) (simp add: assms(4))
  moreover have "one_offer_per_queue s'"
    using healthyD(4) [OF assms(1)] by (simp add: one_offer_per_queue_def assms(5))
  ultimately show ?thesis using assms(2) by (simp add: healthy_def)
qed

lemma one_offer_same: "d_entries s' = d_entries s \<Longrightarrow> one_offer_per_queue s' = one_offer_per_queue s"
  by (simp add: one_offer_per_queue_def)

lemma healthy_audit [simp]: "healthy e (record_audit tn a i s) = healthy e s"
  by (simp add: healthy_def one_offer_per_queue_def)

text \<open>A write to bookings that keeps their hashes.\<close>

lemma healthy_bookings:
  assumes "healthy e s" "db_ok s'" "d_messages s' = d_messages s" "d_entries s' = d_entries s"
    and "\<And>tn bid b'. bid < d_next s \<Longrightarrow> booking_by_id tn bid s' = Some b' \<Longrightarrow>
           \<exists>b. booking_by_id tn bid s = Some b \<and> b_token_hash b' = b_token_hash b"
  shows "healthy e s'"
proof -
  have "link_works e s' m" if m: "m \<in> set (d_messages s)" for m
  proof (rule link_works_cong)
    show "link_works e s m" using healthyD(2) [OF assms(1)] m by (simp add: links_agree_def list_all_iff)
    fix tn bid b' assume b': "booking_by_id tn bid s' = Some b'" "m_booking m = Some bid"
    have "bid < d_next s"
      using db_okD(11) [OF healthyD(1) [OF assms(1)]] m b'(2) by (auto simp: subjects_below_def list_all_iff)
    from assms(5) [OF this b'(1)]
    show "\<exists>b. booking_by_id tn bid s = Some b \<and> b_token_hash b' = b_token_hash b" .
  qed
  moreover have "offers_agree e s'"
    by (rule offers_agree_same [OF assms(4) _ healthyD(3) [OF assms(1)]]) (simp add: assms(3))
  moreover have "one_offer_per_queue s'"
    using healthyD(4) [OF assms(1)] by (simp add: one_offer_per_queue_def assms(4))
  ultimately show ?thesis using assms(2,3) by (simp add: healthy_def links_agree_def list_all_iff)
qed

lemma update_booking_keeps:
  assumes "healthy e s" "bk.keeps_name f" "\<And>b. b_token_hash (f b) = b_token_hash b"
  shows "leaves (healthy e) (update_booking tn bid g f s)"
proof (rule leavesI)
  fix s' r assume run: "update_booking tn bid g f s = Inr (s', r)"
  note ok = healthyD(1) [OF assms(1)]
  have "db_ok s'" by (rule update_booking_db_ok [OF ok assms(2) run])
  moreover have "s' = s \<or> s' = write_booking tn bid f s"
    using run by (auto simp: update_booking_run [OF db_okD(1) [OF ok] assms(2)] split: option.splits if_splits)
  moreover have "healthy e (write_booking tn bid f s)" if "db_ok (write_booking tn bid f s)"
    by (rule healthy_bookings [OF assms(1) that])
      (auto simp: booking_by_id_write [OF assms(2)] assms(3) split: if_splits)
  ultimately show "healthy e s'" using assms(1) by blast
qed

lemma set_status_keeps [keep_rules]: "healthy e s \<Longrightarrow> leaves (healthy e) (set_status tn bid to fs nb na s)"
  unfolding set_status_def by (rule update_booking_keeps) simp_all

lemma cancel_booking_keeps [keep_rules]: "healthy e s \<Longrightarrow> leaves (healthy e) (cancel_booking tn bid at w fs nb s)"
  unfolding cancel_booking_def by (rule update_booking_keeps) simp_all

lemma rebind_keeps [keep_rules]: "healthy e s \<Longrightarrow> leaves (healthy e) (rebind tn bid seat fs nb s)"
  unfolding rebind_def by (rule update_booking_keeps) simp_all

lemma reschedule_keeps [keep_rules]: "healthy e s \<Longrightarrow> leaves (healthy e) (reschedule tn bid at seat nb s)"
  unfolding reschedule_def by (rule update_booking_keeps) simp_all

lemma set_customer_id_keeps [keep_rules]: "healthy e s \<Longrightarrow> leaves (healthy e) (set_customer_id tn bid cid fs nb s)"
  unfolding set_customer_id_def by (rule update_booking_keeps) simp_all

lemma confirm_attendance_keeps [keep_rules]: "healthy e s \<Longrightarrow> leaves (healthy e) (confirm_attendance tn bid at s)"
  unfolding confirm_attendance_def
  by (rule leaves_then [OF update_booking_keeps]) (auto intro: leaves_Inr)

lemma check_in_keeps [keep_rules]: "healthy e s \<Longrightarrow> leaves (healthy e) (check_in tn bid at s)"
  unfolding check_in_def
  by (rule leaves_then [OF update_booking_keeps]) (auto simp: Let_def intro: leaves_Inr)

lemma undo_check_in_keeps [keep_rules]: "healthy e s \<Longrightarrow> leaves (healthy e) (undo_check_in tn bid s)"
  unfolding undo_check_in_def
  by (rule leaves_then [OF update_booking_keeps]) (auto simp: Let_def intro: leaves_Inr)

text \<open>Closing messages.\<close>

lemma healthy_close:
  assumes "healthy e s" "st \<noteq> Msg_pending"
  shows "healthy e (s\<lparr>d_messages := update_where P (close_message st) (d_messages s)\<rparr>)"
proof -
  let ?s' = "s\<lparr>d_messages := update_where P (close_message st) (d_messages s)\<rparr>"
  have "db_ok ?s'"
    using healthyD(1) [OF assms(1)] messages_ok_close [OF db_okD(3) [OF healthyD(1) [OF assms(1)]] assms(2), of P]
    by (simp add: db_ok_def subjects_below_close map_update_where close_message_def)
  moreover have old: "m \<in> set (d_messages s)" if "m \<in> set (d_messages ?s')" "m_status m = Msg_pending" for m
    using that assms(2) by (auto simp: set_update_where close_message_def split: if_splits)
  moreover have "links_agree e ?s'" by (rule links_agree_same [OF _ old healthyD(2) [OF assms(1)]]) simp_all
  moreover have "offers_agree e ?s'"
    by (rule offers_agree_same [OF _ old healthyD(3) [OF assms(1)]]) (simp_all add: pending_message_def)
  moreover have "one_offer_per_queue ?s'"
    using healthyD(4) [OF assms(1)] by (simp add: one_offer_per_queue_def)
  ultimately show ?thesis by (simp add: healthy_def)
qed

lemma cancel_pending_keeps [keep_rules]: "healthy e s \<Longrightarrow> leaves (healthy e) (cancel_pending tn bid kind s)"
  using healthy_close [of e s Msg_cancelled]
  by (auto simp: cancel_pending_def leaves_def handler_simps update_rows_Inr)

lemma cancel_pending_for_entry_keeps [keep_rules]:
  "healthy e s \<Longrightarrow> leaves (healthy e) (cancel_pending_for_entry tn wid kind s)"
  using healthy_close [of e s Msg_cancelled]
  by (auto simp: cancel_pending_for_entry_def leaves_def handler_simps update_rows_Inr Let_def)

lemma mark_keeps: "healthy e s \<Longrightarrow> st \<noteq> Msg_pending \<Longrightarrow> leaves (healthy e) (mark tn mid st s)"
  using healthy_close [of e s st]
  by (auto simp: mark_def leaves_def handler_simps update_rows_Inr Let_def)

section \<open>Links and their reminders\<close>

lemma unremind_mem:
  "m \<in> set (d_messages (unremind tn bid s)) \<Longrightarrow> m_status m = Msg_pending \<Longrightarrow> m \<in> set (d_messages s)"
  by (auto simp: unremind_def set_update_where close_message_def)

lemma upsert_reminder_quiet:
  assumes "db_ok s" "upsert_reminder e tn bid at now tok minted s = Inr (s', r)"
  shows "d_entries s' = d_entries s"
    and "m \<in> set (d_messages s') \<Longrightarrow> pending_message m \<Longrightarrow> m_kind m = Waitlist_offer \<Longrightarrow> m \<in> set (d_messages s)"
  using assms(2) unremind_mem [of m tn bid s]
  by (auto simp: upsert_reminder_run [OF db_okD(3,8,1) [OF assms(1)]] reminder_token_def pending_message_def
      split: option.splits)

lemma upsert_reminder_offers:
  assumes "db_ok s" "offers_agree e s" "upsert_reminder e tn bid at now tok minted s = Inr (s', r)"
  shows "offers_agree e s'"
  by (rule offers_agree_same [OF upsert_reminder_quiet(1) [OF assms(1,3)] upsert_reminder_quiet(2) [OF assms(1,3)] assms(2)])

lemma upsert_reminder_keeps:
  assumes "healthy e s" "booking_by_id tn bid s = Some b"
  shows "leaves (healthy e) (upsert_reminder e tn bid at now None minted s)"
proof (rule leavesI)
  fix s' r assume run: "upsert_reminder e tn bid at now None minted s = Inr (s', r)"
  have "offers_agree e s'" by (rule upsert_reminder_offers [OF healthyD(1,3) [OF assms(1)] run])
  moreover have "db_ok s' \<and> links_agree e s'"
    by (rule upsert_reminder_links [OF healthyD(1) [OF assms(1)] assms(2) healthyD(2) [OF assms(1)], of at now minted])
      (use run in simp)
  moreover have "one_offer_per_queue s'"
    using healthyD(4) [OF assms(1)] one_offer_same [OF upsert_reminder_quiet(1) [OF healthyD(1) [OF assms(1)] run]]
    by simp
  ultimately show "healthy e s'" by (simp add: healthy_def)
qed

text \<open>A new hash and the reminder that carries its token, in one breath: between the two writes only the
  texts of this booking are out of step.\<close>

lemma links_agree_unreminded:
  assumes "links_agree_but e tn bid s"
  shows "links_agree e (unremind tn bid s)"
proof -
  have "link_works e (unremind tn bid s) (if pending_about tn bid Reminder x then close_message Msg_cancelled x else x)"
    if "x \<in> set (d_messages s)" for x
  proof (cases "pending_about tn bid Reminder x")
    case False
    have "m_tenant x = tn \<and> m_booking x = Some bid \<or> link_works e s x"
      using assms that by (simp add: links_agree_but_def list_all_iff)
    with False show ?thesis
      by (auto simp: link_works_iff pending_about_def pending_message_def booking_by_id_def)
  qed (simp add: close_message_def)
  then have "\<forall>m\<in>set (update_where (pending_about tn bid Reminder) (close_message Msg_cancelled) (d_messages s)).
      link_works e (unremind tn bid s) m"
    unfolding set_update_where by blast
  moreover have "d_messages (unremind tn bid s) =
      update_where (pending_about tn bid Reminder) (close_message Msg_cancelled) (d_messages s)"
    by (simp add: unremind_def)
  ultimately show ?thesis by (simp add: links_agree_def list_all_iff)
qed

lemma new_link_keeps:
  assumes "healthy e s" "booking_by_id tn bid s = Some b"
    and run: "set_manage_token_hash tn bid (e_hash e tok) None None s = Inr (s1, x)"
      "upsert_reminder e tn bid at now (Some tok) minted s1 = Inr (s2, r)"
  shows "healthy e s2"
proof -
  note ok = healthyD(1) [OF assms(1)]
  let ?h = "\<lambda>b. b\<lparr>b_token_hash := Some (e_hash e tok)\<rparr>"
  have s1: "s1 = write_booking tn bid ?h s"
    using run(1) assms(2) by (simp add: set_manage_token_hash_run [OF db_okD(1) [OF ok]] when_given_def)
  have ok1: "db_ok s1"
    unfolding s1 by (rule db_ok_hold [OF ok assms(2), where g = "\<lambda>_. True"]) (auto simp: place_defs)
  have b1: "booking_by_id tn bid s1 = Some (?h b)" by (simp add: s1 booking_by_id_write assms(2))
  have but: "links_agree_but e tn bid s1"
    unfolding s1 by (rule links_agree_but_write [OF links_agree_but_weaken [OF healthyD(2) [OF assms(1)]]]) simp
  have off: "offers_agree e s1"
    by (rule offers_agree_same [OF _ _ healthyD(3) [OF assms(1)]]) (simp_all add: s1)
  obtain t where t: "upsert_reminder e tn bid at now (Some tok) minted s1 = Inr (t, reminder_send_after at now)" "db_ok t"
    by (rule upsert_reminder_token [OF ok1 booking_by_id_below [OF ok1 b1], where e = e and at = at and now = now and tok = tok and minted = minted])
  have "links_agree e s2"
  proof (cases "reminder_send_after at now")
    case None
    then have "s2 = unremind tn bid s1"
      using run(2) by (simp add: upsert_reminder_run [OF db_okD(3,8,1) [OF ok1]])
    then show ?thesis using links_agree_unreminded [OF but] by simp
  next
    case (Some sat)
    show ?thesis by (rule upsert_reminder_token_links [OF ok1 b1 Some but _ run(2)]) simp
  qed
  moreover have "offers_agree e s2" by (rule upsert_reminder_offers [OF ok1 off run(2)])
  moreover have "one_offer_per_queue s2"
    using healthyD(4) [OF assms(1)] upsert_reminder_quiet(1) [OF ok1 run(2)] by (simp add: one_offer_per_queue_def s1)
  ultimately show ?thesis using t run(2) by (simp add: healthy_def)
qed

lemma update_booking_found:
  "update_booking tn bid g f s = Inr (s', Some b) \<Longrightarrow> booking_by_id tn bid s' = Some b"
  by (auto simp: update_booking_def andthen_eq_Inr Let_def split: prod.splits if_splits)

lemma confirm_deposit_keeps [keep_rules]:
  assumes "healthy e s"
  shows "leaves (healthy e) (confirm_deposit e tn bid now token s)"
proof (rule leavesI)
  fix s' r assume run: "confirm_deposit e tn bid now token s = Inr (s', r)"
  obtain s1 x where st: "set_status tn bid Confirmed [Pending_payment] None None s = Inr (s1, x)"
    using run by (auto simp: confirm_deposit_def andthen_eq_Inr)
  have h1: "healthy e s1" by (rule leavesD [OF set_status_keeps [OF assms] st])
  show "healthy e s'"
  proof (cases x)
    case None
    with run st h1 show ?thesis by (simp add: confirm_deposit_def)
  next
    case (Some b)
    have "booking_by_id tn bid s1 = Some b"
      by (rule update_booking_found [OF st [unfolded set_status_def Some]])
    moreover obtain s2 y s3 z where "set_manage_token_hash tn bid (e_hash e token) None None s1 = Inr (s2, y)"
      "upsert_reminder e tn bid (b_starts_at b) now (Some token) token s2 = Inr (s3, z)"
      "s' = record_audit tn Booking_confirmed (Some bid) s3"
      using run st Some by (auto simp: confirm_deposit_def andthen_eq_Inr)
    ultimately show ?thesis using new_link_keeps [OF h1] by simp
  qed
qed

lemma rebind_late_keeps:
  assumes "healthy e s"
  shows "leaves (healthy e) (rebind_late e tn b now token s)"
proof (rule leavesI)
  fix s' r assume run: "rebind_late e tn b now token s = Inr (s', r)"
  show "healthy e s'"
  proof (cases "s' = s")
    case False
    then obtain seat s1 x where rb: "rebind tn (b_id b) seat [Cancelled, Pending_payment] now s = Inr (s1, x)"
      and rest: "(case x of None \<Rightarrow> Inr (s1, None)
            | Some b' \<Rightarrow>
                andthen (set_manage_token_hash tn (b_id b) (e_hash e token) None None s1) (\<lambda>(s2, _).
                andthen (upsert_reminder e tn (b_id b) (b_starts_at b') now (Some token) token s2)
                  (\<lambda>(s3, _).
                Inr (record_audit tn Deposit_late_honoured (Some (b_id b)) s3, Some b')))) = Inr (s', r)"
      using run by (auto simp: rebind_late_def andthen_eq_Inr split: option.splits if_splits)
    have h1: "healthy e s1" by (rule leavesD [OF rebind_keeps [OF assms] rb])
    show ?thesis
    proof (cases x)
      case None
      with rest h1 show ?thesis by simp
    next
      case (Some b')
      have "booking_by_id tn (b_id b) s1 = Some b'"
        by (rule update_booking_found [OF rb [unfolded rebind_def Some]])
      moreover obtain s2 y s3 z where "set_manage_token_hash tn (b_id b) (e_hash e token) None None s1 = Inr (s2, y)"
        "upsert_reminder e tn (b_id b) (b_starts_at b') now (Some token) token s2 = Inr (s3, z)"
        "s' = record_audit tn Deposit_late_honoured (Some (b_id b)) s3"
        using rest Some by (auto simp: andthen_eq_Inr)
      ultimately show ?thesis using new_link_keeps [OF h1] by simp
    qed
  qed (use assms in simp)
qed

section \<open>Bookings made and moved\<close>

lemma claim_seat_keeps [keep_rules]:
  assumes "healthy e s"
  shows "leaves (healthy e) (claim_seat e tn at now cid t v tok due k s)"
proof (rule leavesI)
  fix s' b assume run: "claim_seat e tn at now cid t v tok due k s = Inr (s', b)"
  note f = offers_agree_claim_seat [OF healthyD(3) [OF assms] run]
  show "healthy e s'"
    using db_ok_claim [OF healthyD(1) [OF assms] run] claim_seat_links [OF healthyD(1,2) [OF assms] run] f(1)
      healthyD(4) [OF assms] by (simp add: healthy_def one_offer_same [OF f(2)])
qed

lemma healthy_consent:
  assumes "healthy e s" "consent_if given tn cid s = Inr s'"
  shows "healthy e s'"
proof -
  obtain rows where s': "s' = s\<lparr>d_customers := rows\<rparr>" "map c_id rows = map c_id (d_customers s)"
    "customers_ok (d_customers s) \<longrightarrow> customers_ok rows"
    using consent_if_spec [OF assms(2)] by metis
  then have "db_ok s'"
    using db_ok_customers [OF healthyD(1) [OF assms(1)], of rows] db_okD(5,10) [OF healthyD(1) [OF assms(1)]] by simp
  from healthy_frame [OF assms(1) this] s'(1) show ?thesis by simp
qed

lemma consent_then:
  assumes "healthy e s" "\<And>s'. healthy e s' \<Longrightarrow> leaves (healthy e) (f s')"
  shows "leaves (healthy e) (andthen (consent_if given tn cid s) f)"
  using assms healthy_consent by (intro leaves_pure) blast

lemma upsert_customer_keeps [keep_rules]: "healthy e s \<Longrightarrow> leaves (healthy e) (upsert_customer tn phone name s)"
proof (rule leavesI)
  fix s' c assume h: "healthy e s" and run: "upsert_customer tn phone name s = Inr (s', c)"
  show "healthy e s'" by (rule healthy_frame [OF h]) (rule upsert_customer_frame [OF healthyD(1) [OF h] run])+
qed

lemma create_in_session_keeps [keep_rules]:
  assumes "healthy e s"
  shows "leaves (healthy e) (create_in_session e tn phone q settings connected minted now s)"
  unfolding create_in_session_def
proof (intro leaves_need leaves_ensure leaves_let leaves_pure leaves_option)
  fix t m assume "match_dress e tn q s = Inr m"
  obtain n z where m: "m = (n, z)" by (cases m)
  show "leaves (healthy e) (case m of (dress_name, dress_size) \<Rightarrow>
     case (case customer_by_phone tn phone s of
             None \<Rightarrow> None | Some c \<Rightarrow> active_at tn (c_id c) (q_starts_at q) s) of
       Some replayed \<Rightarrow>
         andthen (consent_if (q_marketing_consent q) tn (b_customer replayed) s) (\<lambda>s1.
         Inr (s1, \<lparr>bc_booking = replayed, bc_created = False, bc_manage_token = None,
                  bc_deposit_due = deposit_due settings t connected, bc_deposit_amount = deposit_amount t\<rparr>))
     | None \<Rightarrow>
         andthen (ensure Dress_unavailable
                    (case q_dress q of
                       None \<Rightarrow> True
                     | Some gid \<Rightarrow> reservation_containing tn gid
                         (fst (to_local (e_zone e) (q_starts_at q))) s = None)) (\<lambda>_.
         andthen (upsert_customer tn phone (ustrip (q_name q)) s) (\<lambda>(s1, c).
         andthen (consent_if (q_marketing_consent q) tn (c_id c) s1) (\<lambda>s2.
         andthen (claim_seat e tn (q_starts_at q) now (c_id c) t (q_terms_version q) minted
                    (deposit_due settings t connected)
                    \<lparr>k_dress = q_dress q, k_dress_name = dress_name, k_dress_size = dress_size,
                     k_notes = q_notes q\<rparr> s2) (\<lambda>(s3, b).
         Inr (s3, \<lparr>bc_booking = b, bc_created = True, bc_manage_token = Some minted,
                  bc_deposit_due = deposit_due settings t connected, bc_deposit_amount = deposit_amount t\<rparr>))))))"
    unfolding m
    by (intro leaves_pair leaves_option leaves_ensure leaves_then [OF upsert_customer_keeps]
        consent_then leaves_then [OF claim_seat_keeps] leaves_Inr)
      (simp_all add: assms)
qed

lemma put_booking_keeps:
  assumes "healthy e s" "b_id row = d_next s"
  shows "leaves (healthy e) (put_booking row s)"
proof (rule leavesI)
  fix s' b assume "put_booking row s = Inr (s', b)"
  then have s': "s' = s\<lparr>d_bookings := d_bookings s @ [row], d_next := d_next s + 1\<rparr>" "bookings_ok (d_bookings s @ [row])"
    by (auto simp: put_booking_def andthen_eq_Inr)
  note d = db_okD [OF healthyD(1) [OF assms(1)]]
  have "db_ok s'"
    using d s' assms(2) ids_below_mono [of "d_next s" _ "d_next s + 1"]
      subjects_below_mono [of "d_next s" _ "d_next s + 1"]
    by (simp add: db_ok_def)
  moreover have "\<exists>x. booking_by_id tn bid s = Some x \<and> b_token_hash y = b_token_hash x"
    if "bid < d_next s" "booking_by_id tn bid s' = Some y" for tn bid y
  proof -
    have "\<not> names_booking tn bid row" using that(1) assms(2) by (simp add: names_booking_def)
    then show ?thesis
      using that(2) by (auto simp: booking_by_id_def s'(1) find_append split: option.splits)
  qed
  ultimately show "healthy e s'" by (intro healthy_bookings [OF assms(1)]) (auto simp: s'(1))
qed

lemma create_walk_in_keeps [keep_rules]:
  assumes "healthy e s"
  shows "leaves (healthy e) (create_walk_in tn cid tid now s)"
proof -
  have "leaves (healthy e) (insert_walk_in tn cid tid n now s)" for n
    unfolding insert_walk_in_def by (rule put_booking_keeps [OF assms]) simp
  then show ?thesis
    unfolding create_walk_in_def by (intro keep_rules leaves_try) auto
qed

section \<open>The owner's operations\<close>

lemma owner_transition_keeps:
  assumes "healthy e s"
  shows "leaves (healthy e) (owner_transition tn bid to fs act past now s)"
  unfolding owner_transition_def
  by (intro keep_rules leaves_then [OF set_status_keeps] assms) (auto intro!: keep_rules assms)

lemma owner_check_in_keeps:
  assumes "healthy e s"
  shows "leaves (healthy e) (owner_check_in tn bid now s)"
  unfolding owner_check_in_def
  by (intro keep_rules leaves_then [OF check_in_keeps] assms)
    (auto intro!: keep_rules simp: assms split: check_in_outcome.split)

lemma owner_undo_check_in_keeps:
  assumes "healthy e s"
  shows "leaves (healthy e) (owner_undo_check_in tn bid s)"
  unfolding owner_undo_check_in_def
  by (intro keep_rules leaves_then [OF undo_check_in_keeps] assms) (auto intro!: keep_rules simp: assms split: option.split)

lemma owner_cancel_keeps:
  assumes "healthy e s"
  shows "leaves (healthy e) (owner_cancel tn bid now s)"
  unfolding owner_cancel_def
  by (intro keep_rules leaves_then [OF cancel_booking_keeps] assms)
    (auto intro!: keep_rules leaves_then [OF cancel_pending_keeps] simp: assms)

lemma healthy_restore:
  assumes "healthy e s" "restore tn bid at now s = Inr s'"
  shows "healthy e s'"
proof -
  obtain seat x where "rebind tn bid seat [Cancelled] now s = Inr (s', x)"
    using assms(2) by (auto simp: restore_def andthen_eq_Inr)
  then show ?thesis by (rule leavesD [OF rebind_keeps [OF assms(1)]])
qed

lemma reschedule_in_session_keeps:
  assumes "healthy e s"
  shows "leaves (healthy e) (reschedule_in_session e tn bid at minted now s)"
proof -
  have move: "leaves (healthy e) (as_slot_unavailable
         (andthen (if c then restore tn bid t now s else Inr s) (\<lambda>s1. reschedule tn bid start seat now s1)))"
    (is "leaves _ (as_slot_unavailable ?r)") for c t start seat
  proof -
    have "leaves (healthy e) ?r"
      by (rule leaves_pure) (auto intro: reschedule_keeps healthy_restore [OF assms] assms split: if_splits)
    then show ?thesis by (auto simp: as_slot_unavailable_def leaves_def split: sum.splits error.splits)
  qed
  have found: "booking_by_id tn bid s2 = Some b'"
    if "as_slot_unavailable (andthen (if c then restore tn bid t now s else Inr s)
          (\<lambda>s1. reschedule tn bid start seat now s1)) = Inr (s2, Some b')" for c t start seat s2 b'
    using that update_booking_found
    by (fastforce simp: as_slot_unavailable_def andthen_eq_Inr reschedule_def split: sum.splits error.splits)
  show ?thesis
    unfolding reschedule_in_session_def
    by (intro leaves_need leaves_ensure leaves_let leaves_if leaves_pair leaves_then [OF move]
        leaves_then [OF upsert_reminder_keeps] leaves_Inr assms found) auto
qed

end
