(* ===== verification/Handlers.thy ===== *)
theory Handlers
  imports Safety
begin

text \<open>
  The remaining handlers keep a database healthy: the deposit's life (hold, settlement, late money,
  sweeping), the bride's link, the owner's link rotation, the waitlist and its cascade, verification
  codes and the drain.
\<close>

section \<open>Deposits\<close>

lemma put_payment_keeps:
  assumes "healthy e s" "p_id row = d_next s"
  shows "leaves (healthy e) (put_payment row s)"
proof (rule leavesI)
  fix s' p assume run: "put_payment row s = Inr (s', p)"
  then have "db_ok s'" by (rule db_ok_put_payment [OF healthyD(1) [OF assms(1)] _ assms(2)])
  then show "healthy e s'"
    by (rule healthy_frame [OF assms(1)]) (use run in \<open>auto simp: put_payment_def andthen_eq_Inr\<close>)
qed

lemma insert_payment_keeps: "healthy e s \<Longrightarrow> leaves (healthy e) (insert_payment tn bid prov amount sess url hold s)"
  unfolding insert_payment_def by (rule put_payment_keeps) simp_all

lemma record_unavailable_keeps: "healthy e s \<Longrightarrow> leaves (healthy e) (record_unavailable tn bid prov amount s)"
  unfolding record_unavailable_def by (rule put_payment_keeps) simp_all

lemma open_hold_keeps:
  assumes "healthy e s"
  shows "leaves (healthy e) (open_hold g tn bid amount hold now s)"
proof -
  have "leaves (healthy e) (andthen (gw_session g bid amount hold) (\<lambda>(sess, url).
         case insert_payment tn bid prov amount sess url (now + seconds hold) s of
           Inl _ \<Rightarrow> Inl Payment_already_held
         | Inr (s', p) \<Rightarrow> Inr (s', \<lparr>dh_payment = p, dh_redirect_url = Some url, dh_created = True\<rparr>)))" for prov
    using leavesD [OF insert_payment_keeps [OF assms]]
    by (intro leaves_pure) (auto simp: leaves_def split: sum.splits prod.splits)
  then show ?thesis
    unfolding open_hold_def
    by (intro leaves_pure leaves_option) (auto intro: leaves_Inr assms)
qed

lemma book_without_deposit_keeps:
  assumes "healthy e s"
  shows "leaves (healthy e) (book_without_deposit creds tn claim s)"
  unfolding book_without_deposit_def
proof (intro leaves_then [OF set_status_keeps [OF assms]] leaves_pair leaves_pure leaves_Inr)
  fix s1 b s2 assume h: "healthy e s1"
    and run: "(case (case creds of None \<Rightarrow> None | Some g \<Rightarrow> gw_provider g) of
          None \<Rightarrow> Inr s1
        | Some prov \<Rightarrow>
            andthen (record_unavailable tn (b_id (bc_booking claim)) prov (bc_deposit_amount claim) s1)
              (\<lambda>(s2, _). Inr s2)) = Inr s2"
  then have "healthy e s2"
    using leavesD [OF record_unavailable_keeps [OF h]]
    by (auto simp: andthen_eq_Inr split: option.splits)
  then show "healthy e (record_audit tn Gateway_unavailable_at_checkout (Some (b_id (bc_booking claim))) s2)" by simp
qed

lemma open_deposit_keeps:
  assumes "healthy e s"
  shows "leaves (healthy e) (open_deposit pay creds hold tn claim now s)"
  unfolding open_deposit_def
  by (intro leaves_if leaves_option leaves_try [OF open_hold_keeps] leaves_pair leaves_Inr leaves_Inl
      book_without_deposit_keeps)
    (simp_all add: assms)

lemma settle_event_entries:
  assumes "db_ok s"
  shows "d_entries (fst (settle_event prov tn ev now s)) = d_entries s"
  unfolding settle_event_run [OF assms]
  by (simp add: noted_def split: option.split sum.split)

lemma settle_event_keeps:
  assumes "healthy e s" "settle_event prov tn ev now s = (s', r)"
  shows "healthy e s'"
  using settle_event_safe [OF healthyD(1) [OF assms(1)] assms(2)] settle_event_entries [OF healthyD(1) [OF assms(1)], of prov tn ev now] assms
  by (auto intro: healthy_frame)

lemma settle_from_webhook_keeps:
  assumes "healthy e s" "settle_from_webhook g tn body sig now s = (s', r)"
  shows "healthy e s'"
  using assms settle_event_keeps [OF assms(1)]
  by (fastforce simp: settle_from_webhook_def split: sum.splits option.splits)

lemma settle_late_keeps:
  assumes "healthy e s"
  shows "leaves (healthy e) (settle_late tn pid txn at s)"
proof (rule leavesI)
  fix s' r assume run: "settle_late tn pid txn at s = Inr (s', r)"
  note ok = healthyD(1) [OF assms]
  obtain rows hit where u: "update_rows payments_ok (\<lambda>p. names_payment tn pid p \<and> p_status p = Pay_expired)
       (\<lambda>p. p\<lparr>p_status := Paid, p_paid_at := Some at, p_txn := Some txn, p_redirect_url := None\<rparr>) (d_payments s)
      = Inr (rows, hit)" and s': "s' = s\<lparr>d_payments := rows\<rparr>"
    using run by (auto simp: settle_late_def update_payment_def andthen_eq_Inr Let_def split: prod.splits)
  then have rows: "rows = update_where (\<lambda>p. names_payment tn pid p \<and> p_status p = Pay_expired)
       (\<lambda>p. p\<lparr>p_status := Paid, p_paid_at := Some at, p_txn := Some txn, p_redirect_url := None\<rparr>) (d_payments s)"
    and pay: "payments_ok rows"
    using u db_okD(2) [OF ok] by (cases hit; simp add: update_rows_Inr update_where_none)+
  have "map p_id rows = map p_id (d_payments s)" unfolding rows by (rule map_update_where) simp
  with pay db_okD [OF ok] have "db_ok s'" by (simp add: db_ok_def s')
  from healthy_frame [OF assms this] show "healthy e s'" by (simp add: s')
qed

lemma honour_keeps:
  assumes "healthy e s" "honour e tn p txn paid_at now token s = (s', r)"
  shows "healthy e s'"
proof (cases "settle_late tn (p_id p) txn paid_at s")
  case (Inr q)
  obtain s1 x where q: "q = (s1, x)" by (cases q)
  have h1: "healthy e s1" by (rule leavesD [OF settle_late_keeps [OF assms(1)] Inr [unfolded q]])
  then show ?thesis
    using assms(2) leavesD [OF rebind_late_keeps [OF h1]]
    by (auto simp: honour_def honour_late_settlement_def Inr q Let_def
        split: option.splits sum.splits error.splits)
qed (use assms in \<open>auto simp: honour_def honour_late_settlement_def\<close>)

lemma react_keeps:
  assumes "healthy e s" "react e g tn body sig st paid_at now token s = (s', r)"
  shows "healthy e s'"
  using assms honour_keeps [OF assms(1)] leavesD [OF confirm_deposit_keeps [OF assms(1)]]
  by (fastforce simp: react_def commits_def split: sum.splits deposit_reaction.splits)

section \<open>The sweeper\<close>

lemma expire_holds_keeps:
  assumes "healthy e s"
  shows "leaves (healthy e) (expire_holds tn now s)"
proof -
  obtain rows ids where run: "expire_holds tn now s = Inr (s\<lparr>d_payments := rows\<rparr>, ids)"
    "db_ok (s\<lparr>d_payments := rows\<rparr>)"
    by (rule expire_holds_run [OF healthyD(1) [OF assms], of tn now])
  have "healthy e (s\<lparr>d_payments := rows\<rparr>)" by (rule healthy_frame [OF assms run(2)]) simp_all
  then show ?thesis by (simp add: run(1) leaves_Inr)
qed

lemma release_expired_keeps: "healthy e s \<Longrightarrow> leaves (healthy e) (release_expired tn now claimed n s)"
proof (induction claimed arbitrary: n s)
  case (Cons c claimed)
  obtain pid bid where c: "c = (pid, bid)" by (cases c)
  show ?case
    unfolding c release_expired.simps
    by (rule leaves_then [OF cancel_booking_keeps [OF Cons.prems]]) (simp add: Cons.IH)
qed (simp add: leaves_Inr)

lemma cancel_orphans_keeps:
  assumes "healthy e s"
  shows "leaves (healthy e) (cancel_orphans tn now hold poll s)"
proof (rule leavesI)
  fix s' ids assume run: "cancel_orphans tn now hold poll s = Inr (s', ids)"
  obtain rows ids' where r: "cancel_orphans tn now hold poll s = Inr (s\<lparr>d_bookings := rows\<rparr>, ids')"
    "db_ok (s\<lparr>d_bookings := rows\<rparr>)"
    by (rule cancel_orphans_run [OF healthyD(1) [OF assms]])
  then have s': "s' = s\<lparr>d_bookings := rows\<rparr>" "db_ok s'" using run by simp_all
  obtain P where rows: "d_bookings s' = update_where P (\<lambda>b. b\<lparr>b_status := Cancelled, b_cancelled_at := Some now,
                        b_cancelled_by := Some By_expired\<rparr>) (d_bookings s)"
    using run unfolding cancel_orphans_def Let_def by (auto simp: andthen_eq_Inr update_rows_Inr)
  show "healthy e s'"
  proof (rule healthy_bookings [OF assms s'(2)])
    fix t i b' assume "booking_by_id t i s' = Some b'"
    then show "\<exists>b. booking_by_id t i s = Some b \<and> b_token_hash b' = b_token_hash b"
      by (auto simp: booking_by_id_fetch rows bk.fetch_update)
  qed (simp_all add: s'(1))
qed

lemma healthy_audit_orphans: "healthy e (audit_orphans tn ids s) = healthy e s"
  by (induction ids arbitrary: s) simp_all

lemma sweep_deposits_keeps:
  assumes "healthy e s"
  shows "leaves (healthy e) (sweep_deposits tn now hold poll s)"
  unfolding sweep_deposits_def
  by (intro leaves_then [OF expire_holds_keeps] leaves_then [OF release_expired_keeps]
      leaves_then [OF cancel_orphans_keeps] leaves_pair leaves_Inr)
    (simp_all add: assms healthy_audit_orphans)

section \<open>The bride's link and the owner's rotation of it\<close>

lemma link_confirm_attendance_keeps:
  assumes "healthy e s"
  shows "leaves (healthy e) (link_confirm_attendance e tenant token now s)"
  unfolding link_confirm_attendance_def manage_confirm_def
  by (intro leaves_pure [where m = "resolve_token _ _ _ _"] leaves_ensure
      leaves_then [OF confirm_attendance_keeps] leaves_pair leaves_Inr)
    (simp_all add: assms)

lemma link_cancel_keeps:
  assumes "healthy e s"
  shows "leaves (healthy e) (link_cancel e tenant token now s)"
  unfolding link_cancel_def manage_cancel_def
  by (intro leaves_pure [where m = "resolve_token _ _ _ _"] leaves_if leaves_ensure
      leaves_then [OF cancel_booking_keeps] leaves_then [OF cancel_pending_keeps] leaves_pair leaves_Inr)
    (simp_all add: assms)

lemma rotate_links_frame:
  "rotate_links e tn mint now bs s = Inr s' \<Longrightarrow> db_ok s \<Longrightarrow> links_agree e s \<Longrightarrow>
   d_entries s' = d_entries s \<and> (offers_agree e s \<longrightarrow> offers_agree e s')"
proof (induction bs arbitrary: s)
  case (Cons b bs)
  let ?h = "\<lambda>x. x\<lparr>b_token_hash := Some (e_hash e (mint (b_id b)))\<rparr>"
  let ?s1 = "retoken_pending tn (b_id b) (mint (b_id b)) (write_booking tn (b_id b) ?h s)"
  obtain x where x: "booking_by_id tn (b_id b) s = Some x" and rest: "rotate_links e tn mint now bs ?s1 = Inr s'"
    using Cons.prems(1) set_manage_token_hash_run [OF db_okD(1) [OF Cons.prems(2)]]
    by (auto simp: andthen_eq_Inr split: option.splits if_splits)
  note r = rotated_links [OF Cons.prems(2,3) x, where tok = "mint (b_id b)", OF refl]
  have e1: "d_entries ?s1 = d_entries s" by (simp add: retoken_pending_def write_booking_def split: option.split)
  have "offers_agree e ?s1" if "offers_agree e s"
    by (rule offers_agree_same [OF e1 _ that])
      (auto simp: retoken_messages set_update_where pending_about_def split: if_splits)
  with Cons.IH [OF rest r(1,2)] e1 show ?case by simp
qed simp

lemma healthy_rotate:
  assumes "healthy e s" "rotate_links e tn mint now bs s = Inr s'"
  shows "healthy e s'"
  using rotate_links_ok [OF healthyD(1,2) [OF assms(1)] assms(2)]
    rotate_links_frame [OF assms(2) healthyD(1,2) [OF assms(1)]] assms(1)
  by (simp add: healthy_def one_offer_per_queue_def)

lemma resend_link_in_session_keeps:
  assumes "healthy e s"
  shows "leaves (healthy e) (resend_link_in_session e tn bid mint now s)"
  unfolding resend_link_in_session_def
  by (intro leaves_pure leaves_Inr) (simp only: healthy_audit, rule healthy_rotate [OF assms])

lemma set_phone_keeps:
  assumes "healthy e s"
  shows "leaves (healthy e) (set_phone tn cid phone s)"
proof (rule leavesI)
  fix s' r assume "set_phone tn cid phone s = Inr (s', r)"
  then obtain hit where u: "update_customer tn cid (\<lambda>_. True) (\<lambda>c. c\<lparr>c_phone := phone\<rparr>) s = Inr (s', hit)"
    by (auto simp: set_phone_def andthen_eq_Inr)
  obtain rows where s': "s' = s\<lparr>d_customers := rows\<rparr>" "map c_id rows = map c_id (d_customers s)"
    "customers_ok (d_customers s) \<longrightarrow> customers_ok rows"
    by (rule update_customer_spec [OF u]) simp_all
  then have "db_ok s'"
    using db_ok_customers [OF healthyD(1) [OF assms], of rows] db_okD(5,10) [OF healthyD(1) [OF assms]] by simp
  from healthy_frame [OF assms this] s'(1) show "healthy e s'" by simp
qed

lemma correct_number_keeps:
  assumes "healthy e s"
  shows "leaves (healthy e) (correct_number tn b phone now s)"
proof -
  have "leaves (healthy e) (rewrite_number tn b phone now s)"
    unfolding rewrite_number_def
    by (intro leaves_try [OF set_phone_keeps [OF assms]] leaves_pair leaves_need leaves_Inr leaves_Inl)
  moreover have "leaves (healthy e) (repoint tn b target now s)" for target
    unfolding repoint_def
    by (intro leaves_ensure leaves_try [OF set_customer_id_keeps [OF assms]] leaves_pair leaves_need leaves_Inr leaves_Inl)
  ultimately show ?thesis unfolding correct_number_def by (intro leaves_option leaves_if)
qed

lemma correct_phone_in_session_keeps:
  assumes "healthy e s"
  shows "leaves (healthy e) (correct_phone_in_session e tn bid phone mint now s)"
  unfolding correct_phone_in_session_def
  by (intro leaves_pure [where m = "guard_live _ _ _ _"] leaves_then [OF correct_number_keeps [OF assms]] leaves_pair
      leaves_pure [where m = "rotate_links _ _ _ _ _ _"] leaves_ensure leaves_Inr)
    (simp add: healthy_rotate)

section \<open>The waitlist\<close>

text \<open>Giving up or claiming an entry, then closing its texts.\<close>

lemma healthy_close_entry:
  assumes "healthy e s" "wt.keeps_name f" "entries_ok (d_entries (write_entry tn wid f s))"
    and "\<And>w. queue_key (f w) = queue_key w" "\<And>w. w_status (f w) \<noteq> Offered"
  shows "healthy e (hush tn wid (write_entry tn wid f s))"
proof -
  have "one_offer_per_queue (hush tn wid (write_entry tn wid f s))"
    using healthyD(4) [OF assms(1)] assms(4,5)
    unfolding one_offer_per_queue_def write_entry_def
    by (simp, intro unique_on_update_drop) (auto simp: live_offer_def)
  then show ?thesis
    using db_ok_hush [OF db_ok_write_entry [OF healthyD(1) [OF assms(1)] assms(3,2)]]
      links_agree_hush [of e "write_entry tn wid f s" tn wid] offers_agree_close [OF healthyD(3) [OF assms(1)] assms(2), of tn wid]
      healthyD(2) [OF assms(1)]
    by (simp add: healthy_def)
qed

lemma cancel_entry_hushed:
  assumes "healthy e s" "cancel_entry tn wid s = Inr (s1, c)"
  shows "c = None \<and> s1 = s \<or> (\<exists>w. c = Some w \<and> w_id w = wid \<and> healthy e (hush tn wid s1) \<and> messages_ok (d_messages s1))"
proof (cases c)
  case None
  with assms show ?thesis
    by (auto simp: cancel_entry_run [OF db_okD(4) [OF healthyD(1) [OF assms(1)]]] Let_def split: option.splits if_splits)
next
  case (Some w)
  let ?f = "\<lambda>w. w\<lparr>w_status := Withdrawn, w_offer_expires_at := None\<rparr>"
  obtain w0 where w0: "entry_by_id tn wid s = Some w0" "w = ?f w0" "s1 = write_entry tn wid ?f s"
    using assms Some
    by (auto simp: cancel_entry_run [OF db_okD(4) [OF healthyD(1) [OF assms(1)]]] Let_def split: option.splits if_splits)
  have "entries_ok (d_entries (write_entry tn wid ?f s))"
    by (rule entries_ok_write [OF db_okD(4) [OF healthyD(1) [OF assms(1)]] w0(1)])
      (use w0(1) in \<open>auto simp: active_entry_def dest: entry_by_id_SomeD\<close>)
  then have "healthy e (hush tn wid s1)"
    unfolding w0(3) by (intro healthy_close_entry [OF assms(1)]) (simp_all add: wt.keeps_name_def queue_key_def)
  then show ?thesis
    using Some w0 entry_by_id_SomeD [OF w0(1)] db_okD(3) [OF healthyD(1) [OF assms(1)]] by simp
qed

lemma cancel_waitlist_entry_keeps:
  assumes "healthy e s"
  shows "leaves (healthy e) (cancel_waitlist_entry tn wid s)"
proof (rule leavesI)
  fix s' r assume run: "cancel_waitlist_entry tn wid s = Inr (s', r)"
  then obtain s1 c where c: "cancel_entry tn wid s = Inr (s1, c)" by (auto simp: cancel_waitlist_entry_def andthen_eq_Inr)
  from cancel_entry_hushed [OF assms c] run c assms show "healthy e s'"
    by (auto simp: cancel_waitlist_entry_def andthen_eq_Inr Let_def cancel_pending_for_entry_run)
qed

lemma decline_offer_keeps:
  assumes "healthy e s"
  shows "leaves (healthy e) (decline_offer e tn token now s)"
proof (rule leavesI)
  fix s' r assume run: "decline_offer e tn token now s = Inr (s', r)"
  then obtain w s1 c where c: "resolve_offer e token tn s = Inr w" "cancel_entry tn (w_id w) s = Inr (s1, c)"
    by (auto simp: decline_offer_def andthen_eq_Inr)
  from cancel_entry_hushed [OF assms c(2)] run c assms show "healthy e s'"
    by (auto simp: decline_offer_def andthen_eq_Inr Let_def cancel_pending_for_entry_run)
qed

lemma claim_offer_keeps:
  assumes "healthy e s"
  shows "leaves (healthy e) (claim_offer e tn token name terms settings connected minted now s)"
proof (rule leavesI)
  fix s' claim assume run: "claim_offer e tn token name terms settings connected minted now s = Inr (s', claim)"
  let ?f = "\<lambda>w. w\<lparr>w_status := Claimed\<rparr>"
  obtain w t at c s3 where w: "resolve_offer e token tn s = Inr w"
    and up: "upsert_customer tn (w_phone w) (ustrip name) (hush tn (w_id w) (write_entry tn (w_id w) ?f s)) = Inr (s3, c)"
    and seat: "claim_seat e tn at now (c_id c) t terms minted (deposit_due settings t connected) no_details s3
      = Inr (s', bc_booking claim)"
    by (rule claim_offer_Inr [OF run healthyD(1) [OF assms]])
  have by_id: "entry_by_id tn (w_id w) s = Some w" by (rule resolve_offer_Inr(1) [OF healthyD(1) [OF assms] w])
  have "entries_ok (d_entries (write_entry tn (w_id w) ?f s))"
    by (rule entries_ok_write [OF db_okD(4) [OF healthyD(1) [OF assms]] by_id])
      (use by_id in \<open>auto simp: active_entry_def dest: entry_by_id_SomeD\<close>)
  then have "healthy e (hush tn (w_id w) (write_entry tn (w_id w) ?f s))"
    by (intro healthy_close_entry [OF assms]) (simp_all add: wt.keeps_name_def queue_key_def)
  from leavesD [OF claim_seat_keeps [OF leavesD [OF upsert_customer_keeps [OF this] up]] seat]
  show "healthy e s'" .
qed

lemma insert_entry_keeps:
  assumes "healthy e s" "insert_entry tn day tid phone s = Inr (s', w)"
  shows "healthy e s'"
proof -
  note n = db_ok_new_entry [OF healthyD(1) [OF assms(1)] assms(2)]
  have l: "links_agree e s'" by (rule links_agree_same [OF n(3) _ healthyD(2) [OF assms(1)]]) (simp add: n)
  have "offer_works e s' m" if "m \<in> set (d_messages s)" for m
  proof -
    have "offer_works e s m" using healthyD(3) [OF assms(1)] that by (simp add: offers_agree_def list_all_iff)
    then show ?thesis
      unfolding offer_works_iff by (auto simp: entry_by_id_def n(4) find_append)
  qed
  then have "offers_agree e s'" by (simp add: offers_agree_def list_all_iff n(2))
  moreover have "one_offer_per_queue s'"
    using healthyD(4) [OF assms(1)] n(6) by (simp add: one_offer_per_queue_def n(4) live_offer_def)
  ultimately show ?thesis using n(1) l by (simp add: healthy_def)
qed

lemma join_in_session_keeps:
  assumes "healthy e s"
  shows "leaves (healthy e) (join_in_session tn day tid phone s)"
  unfolding join_in_session_def Let_def
  by (intro leaves_need)
    (auto simp: andthen_eq_Inr leaves_def assms dest: insert_entry_keeps [OF assms] split: sum.splits)

section \<open>The cascade\<close>

text \<open>The cascade writes offer texts only, so the waiting reminders are the ones there were.\<close>

definition reminders_within :: "db \<Rightarrow> db \<Rightarrow> bool" where
  "reminders_within s s' \<longleftrightarrow> d_bookings s' = d_bookings s \<and>
     (\<forall>m\<in>set (d_messages s'). pending_message m \<and> m_kind m = Reminder \<longrightarrow> m \<in> set (d_messages s))"

lemma reminders_within_refl: "reminders_within s s"
  by (simp add: reminders_within_def)

lemma reminders_within_trans: "reminders_within s s1 \<Longrightarrow> reminders_within s1 s2 \<Longrightarrow> reminders_within s s2"
  by (auto simp: reminders_within_def)

lemma links_agree_within:
  assumes "reminders_within s s'" "links_agree e s"
  shows "links_agree e s'"
proof -
  have b: "d_bookings s' = d_bookings s" using assms(1) by (simp add: reminders_within_def)
  have "link_works e s' m" if "m \<in> set (d_messages s')" for m
  proof (cases "pending_message m \<and> m_kind m = Reminder")
    case True
    with assms that show ?thesis
      by (auto simp: link_works_same [OF b] reminders_within_def links_agree_def list_all_iff)
  qed (auto simp: link_works_iff)
  then show ?thesis by (simp add: links_agree_def list_all_iff)
qed

lemma close_offer_frame:
  "close_offer tn ids st s = Inr (s', out) \<Longrightarrow>
   d_messages s' = d_messages s \<and> d_bookings s' = d_bookings s"
  by (auto simp: close_offer_def andthen_eq_Inr Let_def split: if_splits)

lemma cancel_texts_within:
  "messages_ok (d_messages s) \<Longrightarrow> cancel_texts tn wids s = Inr s' \<Longrightarrow> reminders_within s s'"
proof (induction wids arbitrary: s)
  case (Cons wid wids)
  have "reminders_within s (hush tn wid s)"
    by (auto simp: reminders_within_def hush_def set_update_where close_message_def pending_message_def)
  moreover have "messages_ok (d_messages (hush tn wid s))"
    using messages_ok_close [OF Cons.prems(1), of Msg_cancelled] by (simp add: hush_def)
  then have "reminders_within (hush tn wid s) s'"
    by (rule Cons.IH) (use Cons.prems(2) in \<open>simp add: cancel_pending_for_entry_run [OF Cons.prems(1)]\<close>)
  ultimately show ?case by (rule reminders_within_trans)
qed (simp add: reminders_within_refl)

lemma expire_offers_within:
  assumes "db_ok s" "expire_offers tn now s = Inr (s', r)"
  shows "reminders_within s s'"
proof (cases "due_offers tn now s = []")
  case True
  with assms(2) show ?thesis by (simp add: expire_offers_def reminders_within_refl)
next
  case False
  then obtain ids ids' s1 x s2 y where c: "close_offer tn ids Expired s = Inr (s1, x)"
    "close_offer tn ids' Waiting s1 = Inr (s2, y)" "cancel_texts tn (x @ y) s2 = Inr s'"
    using assms(2) by (auto simp: expire_offers_def andthen_eq_Inr Let_def)
  note f = close_offer_frame [OF c(1)] close_offer_frame [OF c(2)]
  have "reminders_within s2 s'" by (rule cancel_texts_within [OF _ c(3)]) (simp add: f db_okD(3) [OF assms(1)])
  then show ?thesis using f by (simp add: reminders_within_def)
qed

lemma offer_one_within:
  assumes "offer_one e cfg tn mint now day tid s = Inr (s', made)"
  shows "reminders_within s s'"
  using assms
  by (auto simp: offer_one_def andthen_eq_Inr offer_entry_def update_entry_def insert_message_def Let_def
      reminders_within_def split: option.splits prod.splits if_splits sum.splits)

lemma issue_pairs_within:
  "issue_pairs e cfg tn mint now pairs s = Inr (s', n) \<Longrightarrow> reminders_within s s'"
proof (induction pairs arbitrary: s n)
  case (Cons p pairs)
  obtain day tid where p: "p = (day, tid)" by (cases p)
  then obtain s1 made n' where "offer_one e cfg tn mint now day tid s = Inr (s1, made)"
    "issue_pairs e cfg tn mint now pairs s1 = Inr (s', n')"
    using Cons.prems by (auto simp: andthen_eq_Inr)
  then show ?case using offer_one_within Cons.IH reminders_within_trans by blast
qed (simp add: reminders_within_refl)

lemma run_cascade_keeps:
  assumes h: "healthy e s" and run: "run_cascade e cfg tn mint now cur s = (cur', Inr (s', r))"
  shows "healthy e s'"
proof -
  note ok = healthyD(1,3) [OF h]
  obtain s1 r1 where s1: "expire_offers tn now s = Inr (s1, r1)" "db_ok s1" "offers_agree e s1"
    "d_entries s1 = map (expired_row tn now s) (d_entries s)"
    by (rule expire_offers_run [OF ok])
  note one = one_offer_expired [OF healthyD(4) [OF h] s1(4)]
  have l1: "links_agree e s1" by (rule links_agree_within [OF expire_offers_within [OF ok(1) s1(1)] healthyD(2) [OF h]])
  show ?thesis
  proof (cases "in_quiet_hours (e_zone e) now (cc_quiet_start cfg) (cc_quiet_end cfg)")
    case True
    with run s1(1) have "s' = s1" by (simp add: run_cascade_def)
    with s1 one l1 show ?thesis by (simp add: healthy_def)
  next
    case False
    let ?pairs = "waiting_pairs tn (today_jerusalem (e_zone e) now) cur s1"
    obtain n where iss: "issue_pairs e cfg tn mint now ?pairs s1 = Inr (s', n)"
      using run s1(1) False by (auto simp: run_cascade_def issue_offers_def Let_def andthen_eq_Inr)
    have "links_agree e s'" by (rule links_agree_within [OF issue_pairs_within [OF iss] l1])
    moreover have "db_ok s' \<and> offers_agree e s' \<and> one_offer_per_queue s'"
      using issue_pairs_safe [OF s1(2,3) one _ _ iss] waiting_pairs_free by blast
    ultimately show ?thesis by (simp add: healthy_def)
  qed
qed

section \<open>Codes and the drain\<close>

text \<open>A write to the verification codes alone.\<close>

lemma healthy_codes: "healthy e s \<Longrightarrow> healthy e (s\<lparr>d_otps := rows\<rparr>)"
  by (rule healthy_frame) (simp_all add: healthy_def db_ok_otps)

lemma healthy_fresh: "healthy e s \<Longrightarrow> n \<ge> d_next s \<Longrightarrow> healthy e (s\<lparr>d_next := n\<rparr>)"
  by (rule healthy_frame)
    (auto simp: healthy_def db_ok_def intro: ids_below_mono subjects_below_mono)

lemma consume_verification_keeps: "healthy e s \<Longrightarrow> leaves (healthy e) (consume_verification e' tn raw token now s)"
  by (auto simp: consume_verification_def consume_token_def leaves_def andthen_eq_Inr healthy_codes)

lemma send_code_keeps:
  assumes "healthy e s" "send_code e' cfg tn raw ip code tick now (s, l) = ((s', l'), r)"
  shows "healthy e s'"
  using assms(2) healthy_fresh [OF healthy_codes [OF assms(1)]] assms(1)
  by (auto simp: send_code_def insert_code_def soft_delete_active_for_phone_def Let_def andthen_def
      split: option.splits if_splits sum.splits prod.splits)

lemma verify_code_keeps:
  assumes "healthy e s" "verify_code e' cfg tn raw code minted tick now (s, l) = ((s', l'), r)"
  shows "healthy e s'"
proof -
  have "\<exists>rows. s' = s\<lparr>d_otps := rows\<rparr>"
    using assms(2)
    by (auto simp: verify_code_def increment_attempts_def mark_consumed_def Let_def andthen_def
        split: option.splits if_splits sum.splits prod.splits intro: exI [of _ "d_otps s"])
  with healthy_codes [OF assms(1)] show ?thesis by auto
qed

lemma drain_rows_keeps:
  "healthy e s \<Longrightarrow> leaves (healthy e) (drain_rows tn now c dl ms s r out)"
proof (induction ms arbitrary: s r out)
  case (Cons m ms)
  have close: "leaves (healthy e) (andthen (mark tn (m_id m) st s)
      (\<lambda>(s', _). drain_rows tn now c dl ms s' r' out'))" if "st \<noteq> Msg_pending" for st r' out'
    by (rule leaves_then [OF mark_keeps [OF Cons.prems that]]) (simp add: Cons.IH)
  show ?case
  proof (cases "drain_step tn now c s m")
    case (Close st)
    then have "st \<noteq> Msg_pending" using drain_step_close by fastforce
    with Close close show ?thesis by simp
  qed (use Cons.prems close in \<open>simp_all add: leaves_Inr Let_def\<close>)
qed (simp add: leaves_Inr)

lemma drain_due_keeps: "healthy e s \<Longrightarrow> leaves (healthy e) (drain_due tn now c dl lim s)"
  unfolding drain_due_def by (rule drain_rows_keeps)

end
