(* ===== verification/Protocol.thy ===== *)
theory Protocol
  imports Handlers Transitions
begin

text \<open>
  The booking side at work. Requests, provider callbacks and the periodic jobs run one transaction at a time
  over the same database (\<open>app.main\<close> serves the first two, \<open>app.worker\<close> the last); \<open>shop_step\<close> has one rule per
  handler modelled in the theories below, with its own arguments free: any token, any clock reading, any limiter
  state, any provider answer. \<open>configured\<close> stands for every write the booking core only reads the result of
  (opening hours, catalogue, terms, the passing of time). A transaction that fails commits nothing, so a step
  is a commit; a provider's delivery is two of them, and anything may happen between.

  Not every writer of these tables has a rule. Left out are the writers of \<open>booking/comms.py\<close> that run in a
  session of their own (\<open>notify_owner_reschedule\<close>, which rotates a link by \<open>_rotate\<close> when it saw no waiting
  reminder, \<open>reissue_manage_token\<close>, which nothing calls, and \<open>reschedule_reminder\<close>), the backfill of links, the
  erasure of a customer and the retention purge. The reachable states are those of the shop without them.
\<close>

section \<open>The shop\<close>

text \<open>A shop that has just opened: no booking, payment, message or waitlist entry yet.\<close>

definition opened :: "db \<Rightarrow> bool" where
  "opened s \<longleftrightarrow> db_ok s \<and> d_bookings s = [] \<and> d_payments s = [] \<and> d_messages s = [] \<and> d_entries s = []"

inductive shop_step :: "env \<Rightarrow> db \<Rightarrow> db \<Rightarrow> bool" for e where
  code_sent: "send_code e cfg tn raw ip code tick now (s, l) = ((s', l'), r) \<Longrightarrow> shop_step e s s'"
| code_verified: "verify_code e cfg tn raw code minted tick now (s, l) = ((s', l'), r) \<Longrightarrow> shop_step e s s'"
| booked: "create_booking e bcfg tn q settings connected minted tick now otp_now (s, bl) = ((s', bl'), br)
    \<Longrightarrow> shop_step e s s'"
| deposit_opened: "open_deposit pay creds hold tn claim now s = Inr (s', out) \<Longrightarrow> shop_step e s s'"
| delivery_recorded: "settle_from_webhook g tn body sig at s = (s', sr) \<Longrightarrow> shop_step e s s'"
| delivery_answered: "react e g tn body sig st paid_at now token s = (s', res) \<Longrightarrow> shop_step e s s'"
| swept: "sweep_deposits tn now hold poll s = Inr (s', sw) \<Longrightarrow> shop_step e s s'"
| walked_in: "create_walk_in tn cid tid now s = Inr (s', m) \<Longrightarrow> shop_step e s s'"
| owner_confirmed: "owner_confirm tn bid now s = Inr (s', m) \<Longrightarrow> shop_step e s s'"
| owner_marked_no_show: "owner_no_show tn bid now s = Inr (s', m) \<Longrightarrow> shop_step e s s'"
| owner_completed: "owner_complete tn bid now s = Inr (s', m) \<Longrightarrow> shop_step e s s'"
| checked_in: "owner_check_in tn bid now s = Inr (s', m) \<Longrightarrow> shop_step e s s'"
| check_in_undone: "owner_undo_check_in tn bid s = Inr (s', m) \<Longrightarrow> shop_step e s s'"
| owner_cancelled: "owner_cancel tn bid now s = Inr (s', m) \<Longrightarrow> shop_step e s s'"
| rescheduled: "owner_reschedule e lcfg tn bid start minted tick now (s, ol) = ((s', ol'), om) \<Longrightarrow> shop_step e s s'"
| phone_corrected: "correct_phone e lcfg tn bid raw mint tick now (s, ol) = ((s', ol'), om) \<Longrightarrow> shop_step e s s'"
| link_resent: "resend_link e lcfg tn bid mint tick now (s, ol) = ((s', ol'), om) \<Longrightarrow> shop_step e s s'"
| link_confirmed: "link_confirm_attendance e tenant token now s = Inr (s', mr) \<Longrightarrow> shop_step e s s'"
| link_cancelled: "link_cancel e tenant token now s = Inr (s', mr) \<Longrightarrow> shop_step e s s'"
| queue_joined: "join_waitlist e wcfg tn raw token day tid tick now otp_now (s, wl) = ((s', wl'), jr) \<Longrightarrow> shop_step e s s'"
| entry_removed: "cancel_waitlist_entry tn wid s = Inr (s', row) \<Longrightarrow> shop_step e s s'"
| offer_claimed: "claim_offer e tn token name terms settings connected minted now s = Inr (s', bc) \<Longrightarrow> shop_step e s s'"
| offer_declined: "decline_offer e tn token now s = Inr (s', ov) \<Longrightarrow> shop_step e s s'"
| cascaded: "run_cascade e ccfg tn mint now cur s = (cur', Inr (s', cr)) \<Longrightarrow> shop_step e s s'"
| drained: "drain_due tn now configured delivers lim s = Inr (s', dr) \<Longrightarrow> shop_step e s s'"
| configured: "db_ok s' \<Longrightarrow> d_bookings s' = d_bookings s \<Longrightarrow> d_messages s' = d_messages s \<Longrightarrow> d_entries s' = d_entries s
    \<Longrightarrow> d_payments s' = d_payments s \<Longrightarrow> shop_step e s s'"

section \<open>Every commit keeps the shop healthy\<close>

lemma create_booking_keeps:
  assumes "healthy e s" "create_booking e cfg tn q settings connected minted tick now otp_now (s, l) = ((s', l'), r)"
  shows "healthy e s'"
proof -
  have "healthy e s2" if "consume_verification e tn (q_raw_phone q) (q_token q) otp_now s = Inr (s1, v)"
    "create_in_session e tn phone q settings connected minted now s1 = Inr (s2, claim)" for s1 v phone s2 claim
    by (rule leavesD [OF create_in_session_keeps [OF leavesD [OF consume_verification_keeps [OF assms(1)] that(1)]] that(2)])
  with assms show ?thesis
    by (auto simp: create_booking_def Let_def split: option.splits sum.splits prod.splits if_splits)
qed

lemma join_waitlist_keeps:
  assumes "healthy e s" "join_waitlist e cfg tn raw token day tid tick now otp_now (s, l) = ((s', l'), r)"
  shows "healthy e s'"
proof -
  have "healthy e s2" if "consume_verification e tn raw token otp_now s = Inr (s1, v)"
    "join_in_session tn day tid phone s1 = Inr (s2, jr)" for s1 v phone s2 jr
    by (rule leavesD [OF join_in_session_keeps [OF leavesD [OF consume_verification_keeps [OF assms(1)] that(1)]] that(2)])
  with assms show ?thesis
    by (auto simp: join_waitlist_def Let_def split: option.splits sum.splits prod.splits if_splits)
qed

lemma owner_metered_keeps:
  assumes "healthy e s"
  shows "owner_reschedule e cfg tn bid start minted tick now (s, l) = ((s', l'), r) \<Longrightarrow> healthy e s'"
    and "correct_phone e cfg tn bid raw mint tick now (s, l) = ((s', l'), r) \<Longrightarrow> healthy e s'"
    and "resend_link e cfg tn bid mint tick now (s, l) = ((s', l'), r) \<Longrightarrow> healthy e s'"
  using assms leavesD [OF reschedule_in_session_keeps [OF assms]] leavesD [OF correct_phone_in_session_keeps [OF assms]]
    leavesD [OF resend_link_in_session_keeps [OF assms]]
  by (auto simp: owner_reschedule_def correct_phone_def resend_link_def Let_def
      split: option.splits sum.splits prod.splits if_splits)

lemma shop_step_keeps: "healthy e s \<Longrightarrow> shop_step e s s' \<Longrightarrow> healthy e s'"
proof (erule shop_step.cases, goal_cases)
  case (26 t s)
  then show ?case by (auto intro: healthy_frame)
qed (auto simp: owner_confirm_def owner_no_show_def owner_complete_def
    intro: send_code_keeps verify_code_keeps create_booking_keeps settle_from_webhook_keeps react_keeps join_waitlist_keeps
      owner_metered_keeps run_cascade_keeps
      leavesD [OF open_deposit_keeps] leavesD [OF sweep_deposits_keeps] leavesD [OF create_walk_in_keeps]
      leavesD [OF owner_transition_keeps] leavesD [OF owner_check_in_keeps] leavesD [OF owner_undo_check_in_keeps]
      leavesD [OF owner_cancel_keeps] leavesD [OF link_confirm_attendance_keeps] leavesD [OF link_cancel_keeps]
      leavesD [OF cancel_waitlist_entry_keeps] leavesD [OF claim_offer_keeps] leavesD [OF decline_offer_keeps]
      leavesD [OF drain_due_keeps])

interpretation shop: invariant_system opened "shop_step e" "healthy e" for e
proof
  show "healthy e s" if "opened s" for s
    using that by (simp add: opened_def healthy_def links_agree_def offers_agree_def one_offer_per_queue_def)
  show "healthy e s'" if "healthy e s" "shop_step e s s'" for s s' by (rule shop_step_keeps [OF that])
qed

section \<open>Properties\<close>

text \<open>What the commits above keep: a waiting reminder with a token carries the very token its booking answers to,
  a waiting offer text carries the token of an entry that is still offered, a booking has at most one waiting
  reminder, and a queue has at most one live offer. It is a statement about those commits only: the first clause
  does not survive \<open>_rotate\<close> when a reminder was queued after the notice looked for one, nor the second an
  erasure.\<close>

lemma texts_agree:
  assumes "reach opened (shop_step e) s"
  shows "(\<forall>m\<in>set (d_messages s). \<forall>bid t b. pending_message m \<and> m_kind m = Reminder \<and> m_booking m = Some bid
       \<and> m_token m = Some t \<and> booking_by_id (m_tenant m) bid s = Some b \<longrightarrow> b_token_hash b = Some (e_hash e t))
   \<and> (\<forall>m\<in>set (d_messages s). pending_message m \<and> m_kind m = Waitlist_offer \<longrightarrow>
       (\<exists>wid t w. m_entry m = Some wid \<and> m_token m = Some t \<and> entry_by_id (m_tenant m) wid s = Some w
          \<and> w_status w = Offered \<and> w_token_hash w = Some (e_hash e t)))
   \<and> (\<forall>m\<in>set (d_messages s). \<forall>n\<in>set (d_messages s). \<forall>tn bid.
       pending_about tn bid Reminder m \<and> pending_about tn bid Reminder n \<longrightarrow> m = n)
   \<and> (\<forall>v\<in>set (d_entries s). \<forall>w\<in>set (d_entries s).
       live_offer v \<and> live_offer w \<and> queue_key v = queue_key w \<longrightarrow> v = w)"
proof -
  note h = shop.reach_inv [OF assms]
  have links: "\<forall>m\<in>set (d_messages s). link_works e s m" and offers: "\<forall>m\<in>set (d_messages s). offer_works e s m"
    using healthyD(2,3) [OF h] by (simp_all add: links_agree_def offers_agree_def list_all_iff)
  have one: "unique_on live_offer queue_key (d_entries s)"
    using healthyD(4) [OF h] by (simp add: one_offer_per_queue_def)
  have about: "unique_on (\<lambda>m. pending_message m \<and> m_booking m \<noteq> None) (\<lambda>m. (m_tenant m, m_booking m, m_kind m)) (d_messages s)"
    using db_okD(3) [OF healthyD(1) [OF h]] by (simp add: messages_ok_def)
  show ?thesis
  proof (intro conjI)
    show "\<forall>m\<in>set (d_messages s). \<forall>bid t b. pending_message m \<and> m_kind m = Reminder \<and> m_booking m = Some bid
       \<and> m_token m = Some t \<and> booking_by_id (m_tenant m) bid s = Some b \<longrightarrow> b_token_hash b = Some (e_hash e t)"
      using links unfolding link_works_iff by simp
    show "\<forall>m\<in>set (d_messages s). pending_message m \<and> m_kind m = Waitlist_offer \<longrightarrow>
       (\<exists>wid t w. m_entry m = Some wid \<and> m_token m = Some t \<and> entry_by_id (m_tenant m) wid s = Some w
          \<and> w_status w = Offered \<and> w_token_hash w = Some (e_hash e t))"
      using offers unfolding offer_works_iff by simp
    show "\<forall>m\<in>set (d_messages s). \<forall>n\<in>set (d_messages s). \<forall>tn bid.
       pending_about tn bid Reminder m \<and> pending_about tn bid Reminder n \<longrightarrow> m = n"
    proof (intro ballI allI impI, rule unique_onD [OF about])
    qed (auto simp: pending_about_def pending_message_def)
    show "\<forall>v\<in>set (d_entries s). \<forall>w\<in>set (d_entries s).
       live_offer v \<and> live_offer w \<and> queue_key v = queue_key w \<longrightarrow> v = w"
      by (intro ballI impI, rule unique_onD [OF one]) simp_all
  qed
qed

end
