(* ===== verification/House.thy ===== *)
theory House
  imports Customers_Repo
begin

text \<open>
  The back office's tables: staff and their sessions, the atelier's tickets, the walk-in queue, the
  fitting rooms, alerts and notifications, shifts and rosters (\<open>app/models\<close>, with the constraints
  of \<open>migrations/versions\<close> 0003, 0015, 0018 to 0023, 0030, 0032, 0035 and 0036; photographs 0006). A \<open>house\<close> is these
  tables beside the booking database, whose clock, identifiers and audit trail it shares.
  \<open>add_row\<close> is INSERT .. RETURNING with a fresh identifier and \<open>change_rows\<close> is UPDATE .. RETURNING;
  both answer the constraint's error where Postgres raises.
\<close>

section \<open>Staff\<close>

datatype staff_role = Owner | Shift_manager | Reception | Sales_assistant | Seamstress

definition ELEVATED_ROLES :: "staff_role list" where
  "ELEVATED_ROLES = [Owner, Shift_manager]"

text \<open>A photo's storage key names its tenant, member, upload and extension.\<close>

type_synonym photo_key = "uuid \<times> uuid \<times> uuid \<times> string"

record staff_user =
  su_id :: uuid
  su_tenant :: uuid
  su_email :: utext
  su_password_hash :: utext
  su_name :: utext
  su_role :: staff_role
  su_break_at :: "instant option"
  su_capacity :: "int option"
  su_phone :: "utext option"
  su_start :: "date option"
  su_last_day :: "date option"
  su_eligible :: bool
  su_shift_on :: "date option"
  su_shift_override :: "bool option"
  su_photo :: "photo_key option"
  su_photo_type :: "string option"
  su_photo_at :: "instant option"
  su_pending :: "photo_key option"
  su_pending_type :: "string option"
  su_pending_at :: "instant option"
  su_created_at :: instant
  su_deleted :: bool

definition photo_types :: "string list" where
  "photo_types = [''image/jpeg'', ''image/png'', ''image/webp'']"

definition photo_type_ok :: "string option \<Rightarrow> bool" where
  "photo_type_ok t \<longleftrightarrow> (case t of None \<Rightarrow> True | Some c \<Rightarrow> c \<in> set photo_types)"

definition staff_row_ok :: "staff_user \<Rightarrow> bool" where
  "staff_row_ok r \<longleftrightarrow>
     (case su_capacity r of None \<Rightarrow> True | Some c \<Rightarrow> 0 \<le> c \<and> c \<le> 168)
     \<and> photo_type_ok (su_photo_type r) \<and> photo_type_ok (su_pending_type r)
     \<and> (su_shift_on r = None) = (su_shift_override r = None)"

definition staff_ok :: "staff_user list \<Rightarrow> bool" where
  "staff_ok rows \<longleftrightarrow>
     distinct (map su_id rows) \<and> list_all staff_row_ok rows
     \<and> unique_on (\<lambda>r. \<not> su_deleted r) (\<lambda>r. (su_tenant r, su_email r)) rows"

record session =
  ss_id :: uuid
  ss_tenant :: uuid
  ss_staff :: uuid
  ss_token_hash :: utext
  ss_expires_at :: instant
  ss_deleted :: bool

definition sessions_ok :: "session list \<Rightarrow> bool" where
  "sessions_ok rows \<longleftrightarrow> distinct (map ss_id rows)"

section \<open>The atelier\<close>

record alteration =
  al_id :: uuid
  al_tenant :: uuid
  al_customer :: uuid
  al_due :: date
  al_effort :: int
  al_assignee :: "uuid option"
  al_dress :: "uuid option"
  al_dress_name :: "utext option"
  al_dress_size :: "utext option"
  al_notes :: "utext option"
  al_intake_at :: "instant option"
  al_in_progress_at :: "instant option"
  al_qc_at :: "instant option"
  al_ready_at :: "instant option"
  al_delivered_at :: "instant option"
  al_created_at :: instant
  al_deleted :: bool

definition alterations_ok :: "alteration list \<Rightarrow> bool" where
  "alterations_ok rows \<longleftrightarrow>
     distinct (map al_id rows) \<and> list_all (\<lambda>r. 0 < al_effort r \<and> al_effort r \<le> 1440) rows"

section \<open>The queue and the fitting rooms\<close>

datatype visit_type = Bride | Evening

record ticket =
  tk_id :: uuid
  tk_tenant :: uuid
  tk_day :: date
  tk_name :: utext
  tk_phone :: utext
  tk_visit :: visit_type
  tk_status :: queue_status
  tk_called_at :: "instant option"
  tk_requeued_at :: "instant option"
  tk_skips :: int
  tk_opt_in_at :: "instant option"
  tk_created_at :: instant
  tk_deleted :: bool

definition tickets_ok :: "ticket list \<Rightarrow> bool" where
  "tickets_ok rows \<longleftrightarrow> distinct (map tk_id rows) \<and> list_all (\<lambda>r. tk_skips r \<ge> 0) rows"

record room =
  rm_id :: uuid
  rm_tenant :: uuid
  rm_label :: utext
  rm_order :: int
  rm_active :: bool
  rm_created_at :: instant
  rm_deleted :: bool

definition rooms_ok :: "room list \<Rightarrow> bool" where
  "rooms_ok rows \<longleftrightarrow> distinct (map rm_id rows)"

record fitting =
  f_id :: uuid
  f_tenant :: uuid
  f_room :: uuid
  f_staff :: uuid
  f_booking :: "uuid option"
  f_ticket :: "uuid option"
  f_released_at :: "instant option"
  f_created_at :: instant
  f_deleted :: bool

text \<open>The predicate of both partial unique indexes on the assignments.\<close>

definition running :: "fitting \<Rightarrow> bool" where
  "running r \<longleftrightarrow> f_released_at r = None \<and> \<not> f_deleted r"

definition room_key :: "fitting \<Rightarrow> uuid \<times> uuid" where
  "room_key r = (f_tenant r, f_room r)"

definition holder_key :: "fitting \<Rightarrow> uuid \<times> uuid" where
  "holder_key r = (f_tenant r, f_staff r)"

definition fittings_ok :: "fitting list \<Rightarrow> bool" where
  "fittings_ok rows \<longleftrightarrow>
     distinct (map f_id rows) \<and> unique_on running room_key rows \<and> unique_on running holder_key rows"

record binding =
  bd_id :: uuid
  bd_tenant :: uuid
  bd_fitting :: uuid
  bd_dress :: uuid
  bd_dress_name :: utext
  bd_dress_size :: "utext option"
  bd_removed_by :: "uuid option"
  bd_created_at :: instant
  bd_deleted :: bool

definition binding_key :: "binding \<Rightarrow> uuid \<times> uuid \<times> uuid" where
  "binding_key r = (bd_tenant r, bd_fitting r, bd_dress r)"

definition bindings_ok :: "binding list \<Rightarrow> bool" where
  "bindings_ok rows \<longleftrightarrow>
     distinct (map bd_id rows) \<and> unique_on (\<lambda>r. \<not> bd_deleted r) binding_key rows"

datatype sos_status = Sos_open | Sos_accepted | Sos_resolved | Sos_cancelled

record alert =
  sa_id :: uuid
  sa_tenant :: uuid
  sa_raised_by :: uuid
  sa_target :: "uuid option"
  sa_fitting :: "uuid option"
  sa_note :: "utext option"
  sa_status :: sos_status
  sa_accepted_by :: "uuid option"
  sa_acknowledged_at :: "instant option"
  sa_created_at :: instant
  sa_deleted :: bool

definition alerts_ok :: "alert list \<Rightarrow> bool" where
  "alerts_ok rows \<longleftrightarrow> distinct (map sa_id rows)"

datatype notice_kind = Dispatch_assigned | Room_was_handed_over | Sos_targeted

record notice =
  sn_id :: uuid
  sn_tenant :: uuid
  sn_staff :: uuid
  sn_actor :: uuid
  sn_kind :: notice_kind
  sn_entity :: uuid
  sn_read_at :: "instant option"
  sn_created_at :: instant
  sn_deleted :: bool

definition notices_ok :: "notice list \<Rightarrow> bool" where
  "notices_ok rows \<longleftrightarrow> distinct (map sn_id rows)"

section \<open>Shifts\<close>

record shift_template =
  st_id :: uuid
  st_tenant :: uuid
  st_day :: int
  st_label :: utext
  st_starts :: wall
  st_ends :: wall
  st_order :: int
  st_targets :: "(staff_role \<times> int) list"
  st_deleted :: bool

definition templates_ok :: "shift_template list \<Rightarrow> bool" where
  "templates_ok rows \<longleftrightarrow>
     distinct (map st_id rows)
     \<and> list_all (\<lambda>r. 0 \<le> st_day r \<and> st_day r \<le> 6 \<and> st_ends r > st_starts r) rows"

record roster =
  ro_id :: uuid
  ro_tenant :: uuid
  ro_week :: date
  ro_published_at :: "instant option"
  ro_published_by :: "uuid option"
  ro_deleted :: bool

definition rosters_ok :: "roster list \<Rightarrow> bool" where
  "rosters_ok rows \<longleftrightarrow>
     distinct (map ro_id rows)
     \<and> list_all (\<lambda>r. jerusalem_day_index (ro_week r) = 0
                   \<and> (ro_published_at r = None) = (ro_published_by r = None)) rows
     \<and> unique_on (\<lambda>r. \<not> ro_deleted r) (\<lambda>r. (ro_tenant r, ro_week r)) rows"

datatype availability_state = Available | Unavailable | Preferred

record roster_row =
  ra_id :: uuid
  ra_tenant :: uuid
  ra_roster :: uuid
  ra_template :: uuid
  ra_staff :: uuid
  ra_manager :: bool
  ra_assigned_by :: uuid
  ra_override :: "availability_state option"
  ra_created_at :: instant
  ra_updated_at :: "instant option"
  ra_deleted :: bool

definition roster_rows_ok :: "roster_row list \<Rightarrow> bool" where
  "roster_rows_ok rows \<longleftrightarrow>
     distinct (map ra_id rows)
     \<and> unique_on (\<lambda>r. \<not> ra_deleted r) (\<lambda>r. (ra_tenant r, ra_roster r, ra_template r, ra_staff r)) rows
     \<and> unique_on (\<lambda>r. \<not> ra_deleted r \<and> ra_manager r) (\<lambda>r. (ra_tenant r, ra_roster r, ra_template r)) rows"

record availability =
  av_id :: uuid
  av_tenant :: uuid
  av_staff :: uuid
  av_template :: uuid
  av_week :: date
  av_state :: availability_state
  av_recorded_by :: "uuid option"
  av_deleted :: bool

definition availabilities_ok :: "availability list \<Rightarrow> bool" where
  "availabilities_ok rows \<longleftrightarrow>
     distinct (map av_id rows) \<and> list_all (\<lambda>r. jerusalem_day_index (av_week r) = 0) rows
     \<and> unique_on (\<lambda>r. \<not> av_deleted r) (\<lambda>r. (av_tenant r, av_staff r, av_template r, av_week r)) rows"

section \<open>Dress photographs\<close>

record media =
  dm_id :: uuid
  dm_tenant :: uuid
  dm_dress :: uuid
  dm_key :: photo_key
  dm_type :: string
  dm_bytes :: int
  dm_ready :: bool
  dm_order :: int
  dm_created_at :: instant
  dm_deleted_at :: "instant option"

definition media_row_ok :: "media \<Rightarrow> bool" where
  "media_row_ok r \<longleftrightarrow> dm_type r \<in> set photo_types \<and> 0 < dm_bytes r \<and> dm_bytes r \<le> 20971520"

definition media_ok :: "media list \<Rightarrow> bool" where
  "media_ok rows \<longleftrightarrow>
     distinct (map dm_id rows) \<and> list_all media_row_ok rows
     \<and> unique_on (\<lambda>_. True) (\<lambda>r. (dm_tenant r, dm_key r)) rows"

section \<open>The house\<close>

record house =
  h_db :: db
  h_staff :: "staff_user list"
  h_sessions :: "session list"
  h_alterations :: "alteration list"
  h_tickets :: "ticket list"
  h_rooms :: "room list"
  h_fittings :: "fitting list"
  h_bindings :: "binding list"
  h_alerts :: "alert list"
  h_notices :: "notice list"
  h_templates :: "shift_template list"
  h_rosters :: "roster list"
  h_roster_rows :: "roster_row list"
  h_availabilities :: "availability list"
  h_media :: "media list"

definition empty_house :: house where
  "empty_house =
     \<lparr>h_db = empty_db, h_staff = [], h_sessions = [], h_alterations = [], h_tickets = [], h_rooms = [],
      h_fittings = [], h_bindings = [], h_alerts = [], h_notices = [], h_templates = [], h_rosters = [],
      h_roster_rows = [], h_availabilities = [], h_media = []\<rparr>"

definition h_now :: "house \<Rightarrow> instant" where
  "h_now h = d_now (h_db h)"

definition h_next :: "house \<Rightarrow> uuid" where
  "h_next h = d_next (h_db h)"

definition bump :: "house \<Rightarrow> house" where
  "bump h = h\<lparr>h_db := (h_db h)\<lparr>d_next := d_next (h_db h) + 1\<rparr>\<rparr>"

definition log :: "uuid \<Rightarrow> audit_action \<Rightarrow> uuid option \<Rightarrow> house \<Rightarrow> house" where
  "log tn act subj h = h\<lparr>h_db := record_audit tn act subj (h_db h)\<rparr>"

section \<open>The two statements\<close>

definition add_row ::
  "(house \<Rightarrow> 'r list) \<Rightarrow> (('r list \<Rightarrow> 'r list) \<Rightarrow> house \<Rightarrow> house) \<Rightarrow> ('r list \<Rightarrow> bool)
   \<Rightarrow> (uuid \<Rightarrow> 'r) \<Rightarrow> house \<Rightarrow> error + house \<times> 'r" where
  "add_row get upd ok mk h =
     (let row = mk (h_next h) in
      andthen (insert_row ok row (get h)) (\<lambda>rows. Inr (bump (upd (\<lambda>_. rows) h), row)))"

definition change_rows ::
  "(house \<Rightarrow> 'r list) \<Rightarrow> (('r list \<Rightarrow> 'r list) \<Rightarrow> house \<Rightarrow> house) \<Rightarrow> ('r list \<Rightarrow> bool)
   \<Rightarrow> ('r \<Rightarrow> bool) \<Rightarrow> ('r \<Rightarrow> 'r) \<Rightarrow> house \<Rightarrow> error + house \<times> bool" where
  "change_rows get upd ok P f h =
     andthen (update_rows ok P f (get h)) (\<lambda>(rows, hit). Inr (upd (\<lambda>_. rows) h, hit))"

text \<open>Which unique index an INSERT or UPDATE broke: the first, in the order they were created, that
  the rows it would leave do not satisfy.\<close>

definition violation :: "(string \<times> ('r list \<Rightarrow> bool)) list \<Rightarrow> 'r list \<Rightarrow> error" where
  "violation indexes rows =
     (case find (\<lambda>c. \<not> snd c rows) indexes of None \<Rightarrow> Integrity_error | Some c \<Rightarrow> Unique_violation (fst c))"

definition blame :: "(string \<times> ('r list \<Rightarrow> bool)) list \<Rightarrow> 'r list \<Rightarrow> error + 'a \<Rightarrow> error + 'a" where
  "blame indexes rows r = (case r of Inl _ \<Rightarrow> Inl (violation indexes rows) | Inr x \<Rightarrow> Inr x)"

fun is_integrity :: "error \<Rightarrow> bool" where
  "is_integrity Integrity_error = True"
| "is_integrity (Unique_violation _) = True"
| "is_integrity _ = False"

section \<open>What the house holds at every commit\<close>

definition house_ok :: "house \<Rightarrow> bool" where
  "house_ok h \<longleftrightarrow>
     staff_ok (h_staff h) \<and> sessions_ok (h_sessions h) \<and> alterations_ok (h_alterations h)
     \<and> tickets_ok (h_tickets h) \<and> rooms_ok (h_rooms h) \<and> fittings_ok (h_fittings h)
     \<and> bindings_ok (h_bindings h) \<and> alerts_ok (h_alerts h) \<and> notices_ok (h_notices h)
     \<and> templates_ok (h_templates h) \<and> rosters_ok (h_rosters h) \<and> roster_rows_ok (h_roster_rows h)
     \<and> availabilities_ok (h_availabilities h) \<and> media_ok (h_media h)"

lemma house_okD:
  assumes "house_ok h"
  shows "staff_ok (h_staff h)" "sessions_ok (h_sessions h)" "alterations_ok (h_alterations h)"
    "tickets_ok (h_tickets h)" "rooms_ok (h_rooms h)" "fittings_ok (h_fittings h)"
    "bindings_ok (h_bindings h)" "alerts_ok (h_alerts h)" "notices_ok (h_notices h)"
    "templates_ok (h_templates h)" "rosters_ok (h_rosters h)" "roster_rows_ok (h_roster_rows h)"
    "availabilities_ok (h_availabilities h)" "media_ok (h_media h)"
  using assms by (simp_all add: house_ok_def)

lemma bump_sel [simp]:
  "h_db (bump h) = (h_db h)\<lparr>d_next := d_next (h_db h) + 1\<rparr>"
  "h_staff (bump h) = h_staff h" "h_sessions (bump h) = h_sessions h"
  "h_alterations (bump h) = h_alterations h" "h_tickets (bump h) = h_tickets h"
  "h_rooms (bump h) = h_rooms h" "h_fittings (bump h) = h_fittings h"
  "h_bindings (bump h) = h_bindings h" "h_alerts (bump h) = h_alerts h"
  "h_notices (bump h) = h_notices h" "h_templates (bump h) = h_templates h"
  "h_rosters (bump h) = h_rosters h" "h_roster_rows (bump h) = h_roster_rows h"
  "h_availabilities (bump h) = h_availabilities h" "h_media (bump h) = h_media h"
  "h_now (bump h) = h_now h" "h_next (bump h) = h_next h + 1" "house_ok (bump h) = house_ok h"
  by (simp_all add: bump_def house_ok_def h_now_def h_next_def)

lemma log_sel [simp]:
  "h_db (log tn a i h) = record_audit tn a i (h_db h)"
  "h_staff (log tn a i h) = h_staff h" "h_sessions (log tn a i h) = h_sessions h"
  "h_alterations (log tn a i h) = h_alterations h" "h_tickets (log tn a i h) = h_tickets h"
  "h_rooms (log tn a i h) = h_rooms h" "h_fittings (log tn a i h) = h_fittings h"
  "h_bindings (log tn a i h) = h_bindings h" "h_alerts (log tn a i h) = h_alerts h"
  "h_notices (log tn a i h) = h_notices h" "h_templates (log tn a i h) = h_templates h"
  "h_rosters (log tn a i h) = h_rosters h" "h_roster_rows (log tn a i h) = h_roster_rows h"
  "h_availabilities (log tn a i h) = h_availabilities h" "h_media (log tn a i h) = h_media h"
  "h_now (log tn a i h) = h_now h" "h_next (log tn a i h) = h_next h" "house_ok (log tn a i h) = house_ok h"
  by (simp_all add: log_def house_ok_def h_now_def h_next_def)

lemma add_row_Inr:
  "add_row get upd ok mk h = Inr (h', row) \<longleftrightarrow>
     row = mk (h_next h) \<and> ok (get h @ [row]) \<and> h' = bump (upd (\<lambda>_. get h @ [row]) h)"
  by (auto simp: add_row_def Let_def andthen_eq_Inr)

lemma add_row_Inl:
  "add_row get upd ok mk h = Inl err \<longleftrightarrow> err = Integrity_error \<and> \<not> ok (get h @ [mk (h_next h)])"
  by (auto simp: add_row_def Let_def andthen_eq_Inl)

lemma change_rows_Inr:
  "change_rows get upd ok P f h = Inr (h', hit) \<longleftrightarrow>
     h' = upd (\<lambda>_. update_where P f (get h)) h \<and> hit = list_ex P (get h)
     \<and> (hit \<longrightarrow> ok (update_where P f (get h)))"
  by (auto simp: change_rows_def andthen_eq_Inr update_rows_Inr)

lemma change_rows_Inl:
  "change_rows get upd ok P f h = Inl err \<longleftrightarrow>
     err = Integrity_error \<and> list_ex P (get h) \<and> \<not> ok (update_where P f (get h))"
  by (auto simp: change_rows_def andthen_eq_Inl update_rows_Inl)

lemma blame_Inr [simp]: "blame indexes rows r = Inr x \<longleftrightarrow> r = Inr x"
  by (cases r) (simp_all add: blame_def)

lemma blame_simps [simp]: "blame indexes rows (Inr x) = Inr x"
  "blame indexes rows (Inl err) = Inl (violation indexes rows)"
  by (simp_all add: blame_def)

lemma leaves_blame: "leaves I r \<Longrightarrow> leaves I (blame indexes rows r)"
  by (auto simp: leaves_def)

text \<open>A statement on one table keeps an invariant that holds of the new rows.\<close>

lemma add_row_leaves:
  assumes "ok (get h @ [mk (h_next h)]) \<Longrightarrow> I (bump (upd (\<lambda>_. get h @ [mk (h_next h)]) h))"
  shows "leaves I (add_row get upd ok mk h)"
  using assms by (auto simp: leaves_def add_row_Inr)

lemma change_rows_leaves:
  assumes "list_ex P (get h) \<Longrightarrow> ok (update_where P f (get h)) \<Longrightarrow> I (upd (\<lambda>_. update_where P f (get h)) h)"
    and "\<not> list_ex P (get h) \<Longrightarrow> I (upd (\<lambda>_. get h) h)"
  shows "leaves I (change_rows get upd ok P f h)"
  using assms by (cases "list_ex P (get h)") (auto simp: leaves_def change_rows_Inr update_where_none)

text \<open>An UPDATE that changes no column a constraint reads needs no check.\<close>

lemma change_rows_free:
  assumes "ok (update_where P f (get h))"
  shows "change_rows get upd ok P f h = Inr (upd (\<lambda>_. update_where P f (get h)) h, list_ex P (get h))"
  using assms by (simp add: change_rows_Inr)

section \<open>The interface of a house table\<close>

text \<open>A table of the house is a guarded table with a place in the record: reading back what was put
  there, and putting back what was read. The guarded UPDATE is then a case distinction on the one row
  it names.\<close>

locale house_table = guarded_table ident owner gone checks
  for ident :: "'r \<Rightarrow> uuid" and owner :: "'r \<Rightarrow> uuid" and gone :: "'r \<Rightarrow> bool"
    and checks :: "'r list \<Rightarrow> bool" +
  fixes get :: "house \<Rightarrow> 'r list"
    and upd :: "('r list \<Rightarrow> 'r list) \<Rightarrow> house \<Rightarrow> house"
  assumes get_upd: "get (upd f h) = f (get h)"
    and upd_get: "upd (\<lambda>_. get h) h = h"
begin

definition row :: "uuid \<Rightarrow> uuid \<Rightarrow> house \<Rightarrow> 'r option" where
  "row tn i h = fetch tn i (get h)"

definition put :: "uuid \<Rightarrow> uuid \<Rightarrow> ('r \<Rightarrow> 'r) \<Rightarrow> house \<Rightarrow> house" where
  "put tn i f h = upd (\<lambda>_. update_where (named tn i) f (get h)) h"

lemma row_SomeD: "row tn i h = Some r \<Longrightarrow> r \<in> set (get h) \<and> owner r = tn \<and> ident r = i \<and> \<not> gone r"
  unfolding row_def by (rule fetch_SomeD)

lemma get_put: "get (put tn i f h) = update_where (named tn i) f (get h)"
  by (simp add: put_def get_upd)

lemma row_put:
  "keeps_name f \<Longrightarrow> row tn' i' (put tn i f h) =
     (if tn' = tn \<and> i' = i then map_option f (row tn i h) else row tn' i' h)"
  by (simp add: row_def get_put fetch_write)

lemma change_run:
  assumes "checks (get h)"
  shows "change_rows get upd checks (\<lambda>r. named tn i r \<and> g r) f h =
    (case row tn i h of
       None \<Rightarrow> Inr (h, False)
     | Some r \<Rightarrow>
         if \<not> g r then Inr (h, False)
         else if checks (get (put tn i f h)) then Inr (put tn i f h, True) else Inl Integrity_error)"
  unfolding change_rows_def row_def run_update [OF assms]
  by (auto simp: upd_get put_def get_upd split: option.split)

end

end
