(* ===== verification/Staff.thy ===== *)
theory Staff
  imports House Text Rate_Limit
begin

text \<open>
  Staff accounts: \<open>StaffUsersRepository\<close> and \<open>SessionsRepository\<close> (\<open>app/db/repositories\<close>), sign-in and
  sessions (\<open>app/auth/service.py\<close>, \<open>router.py\<close>, \<open>dependencies.py\<close>), and the owner's staff directory
  with its photos (\<open>app/auth/staff.py\<close>, \<open>photo.py\<close>).

  Argon2 and the object store are not part of the repository: \<open>passwords\<close> and \<open>storage\<close> are what the
  code sees of them. A handler that commits before it raises answers the state beside the error;
  the others answer \<open>Inl\<close> and leave their caller the state they found. Keys the code asks the
  object store to delete are listed in the answer.
\<close>

record staff_context =
  sc_id :: uuid
  sc_tenant :: uuid
  sc_email :: utext
  sc_name :: utext
  sc_role :: staff_role

record passwords =
  pw_hash :: "utext \<Rightarrow> utext"
  pw_verify :: "utext \<Rightarrow> utext \<Rightarrow> bool"

record storage =
  so_configured :: bool
  so_head :: "photo_key \<Rightarrow> error + string option"
  so_prefix :: "photo_key \<Rightarrow> error + nat list"
  so_presign :: "photo_key \<Rightarrow> error + unit"

section \<open>The staff repository\<close>

definition staff_named :: "uuid \<Rightarrow> uuid \<Rightarrow> staff_user \<Rightarrow> bool" where
  "staff_named tn i r \<longleftrightarrow> su_tenant r = tn \<and> su_id r = i \<and> \<not> su_deleted r"

definition staff_by_id :: "uuid \<Rightarrow> uuid \<Rightarrow> house \<Rightarrow> staff_user option" where
  "staff_by_id tn i h = find (staff_named tn i) (h_staff h)"

definition staff_by_email :: "uuid \<Rightarrow> utext \<Rightarrow> house \<Rightarrow> staff_user option" where
  "staff_by_email tn email h =
     find (\<lambda>r. su_tenant r = tn \<and> su_email r = email \<and> \<not> su_deleted r) (h_staff h)"

definition list_live_staff :: "uuid \<Rightarrow> house \<Rightarrow> staff_user list" where
  "list_live_staff tn h =
     sort_key su_created_at (filter (\<lambda>r. su_tenant r = tn \<and> \<not> su_deleted r) (h_staff h))"

definition live_owner :: "uuid \<Rightarrow> staff_user \<Rightarrow> bool" where
  "live_owner tn r \<longleftrightarrow> su_tenant r = tn \<and> su_role r = Owner \<and> \<not> su_deleted r"

definition count_live_owners :: "uuid \<Rightarrow> house \<Rightarrow> nat" where
  "count_live_owners tn h = length (filter (live_owner tn) (h_staff h))"

definition insert_staff ::
  "uuid \<Rightarrow> utext \<Rightarrow> utext \<Rightarrow> utext \<Rightarrow> staff_role \<Rightarrow> utext option \<Rightarrow> date option \<Rightarrow> bool
   \<Rightarrow> house \<Rightarrow> error + house \<times> staff_user" where
  "insert_staff tn email pw_h name role phone start eligible h =
     add_row h_staff h_staff_update staff_ok
       (\<lambda>i. \<lparr>su_id = i, su_tenant = tn, su_email = email, su_password_hash = pw_h, su_name = name,
             su_role = role, su_break_at = None, su_capacity = None, su_phone = phone,
             su_start = start, su_last_day = None, su_eligible = eligible, su_shift_on = None,
             su_shift_override = None, su_photo = None, su_photo_type = None, su_photo_at = None,
             su_pending = None, su_pending_type = None, su_pending_at = None,
             su_created_at = h_now h, su_deleted = False\<rparr>) h"

definition change_staff ::
  "uuid \<Rightarrow> uuid \<Rightarrow> (staff_user \<Rightarrow> bool) \<Rightarrow> (staff_user \<Rightarrow> staff_user) \<Rightarrow> house \<Rightarrow> error + house \<times> bool" where
  "change_staff tn i guard f h =
     change_rows h_staff h_staff_update staff_ok (\<lambda>r. staff_named tn i r \<and> guard r) f h"

text \<open>UPDATE .. RETURNING id, then the row read again when a row was hit.\<close>

definition change_staff_read ::
  "uuid \<Rightarrow> uuid \<Rightarrow> (staff_user \<Rightarrow> bool) \<Rightarrow> (staff_user \<Rightarrow> staff_user) \<Rightarrow> house
   \<Rightarrow> error + house \<times> staff_user option" where
  "change_staff_read tn i guard f h =
     andthen (change_staff tn i guard f h)
       (\<lambda>(h', hit). Inr (h', if hit then staff_by_id tn i h' else None))"

definition given :: "'a option \<Rightarrow> 'a \<Rightarrow> 'a" where
  "given x old = (case x of None \<Rightarrow> old | Some v \<Rightarrow> v)"

definition patched ::
  "utext option \<Rightarrow> staff_role option \<Rightarrow> utext option \<Rightarrow> utext option \<Rightarrow> date option \<Rightarrow> bool option
   \<Rightarrow> staff_user \<Rightarrow> staff_user" where
  "patched name role pw_h phone start eligible r =
     r\<lparr>su_name := given name (su_name r), su_role := given role (su_role r),
       su_password_hash := given pw_h (su_password_hash r),
       su_phone := (case phone of None \<Rightarrow> su_phone r | Some p \<Rightarrow> if p = [] then None else Some p),
       su_start := (case start of None \<Rightarrow> su_start r | Some d \<Rightarrow> Some d),
       su_eligible := given eligible (su_eligible r)\<rparr>"

definition update_staff ::
  "uuid \<Rightarrow> uuid \<Rightarrow> utext option \<Rightarrow> staff_role option \<Rightarrow> utext option \<Rightarrow> utext option
   \<Rightarrow> date option \<Rightarrow> bool option \<Rightarrow> house \<Rightarrow> error + house \<times> staff_user option" where
  "update_staff tn i name role pw_h phone start eligible h =
     (case staff_by_id tn i h of
        None \<Rightarrow> Inr (h, None)
      | Some row \<Rightarrow>
          if name = None \<and> role = None \<and> pw_h = None \<and> phone = None \<and> start = None \<and> eligible = None
          then Inr (h, Some row)
          else change_staff_read tn i (\<lambda>_. True)
                 (patched name role pw_h phone start eligible) h)"

definition start_break :: "uuid \<Rightarrow> uuid \<Rightarrow> instant \<Rightarrow> house \<Rightarrow> error + house \<times> bool \<times> staff_user option" where
  "start_break tn i at h =
     andthen (change_staff tn i (\<lambda>r. su_break_at r = None) (\<lambda>r. r\<lparr>su_break_at := Some at\<rparr>) h)
       (\<lambda>(h', wrote). Inr (h', wrote, staff_by_id tn i h'))"

definition end_break :: "uuid \<Rightarrow> uuid \<Rightarrow> house \<Rightarrow> error + house \<times> bool \<times> staff_user option" where
  "end_break tn i h =
     andthen (change_staff tn i (\<lambda>r. su_break_at r \<noteq> None) (\<lambda>r. r\<lparr>su_break_at := None\<rparr>) h)
       (\<lambda>(h', wrote). Inr (h', wrote, staff_by_id tn i h'))"

definition set_weekly_capacity ::
  "uuid \<Rightarrow> uuid \<Rightarrow> int option \<Rightarrow> house \<Rightarrow> error + house \<times> staff_user option" where
  "set_weekly_capacity tn i hrs =
     change_staff_read tn i (\<lambda>_. True) (\<lambda>r. r\<lparr>su_capacity := hrs\<rparr>)"

definition set_on_shift_override ::
  "uuid \<Rightarrow> uuid \<Rightarrow> date option \<Rightarrow> bool option \<Rightarrow> house \<Rightarrow> error + house \<times> staff_user option" where
  "set_on_shift_override tn i on_day val =
     change_staff_read tn i (\<lambda>_. True) (\<lambda>r. r\<lparr>su_shift_on := on_day, su_shift_override := val\<rparr>)"

definition set_pending_photo ::
  "uuid \<Rightarrow> uuid \<Rightarrow> photo_key option \<Rightarrow> string option \<Rightarrow> instant option \<Rightarrow> house \<Rightarrow> error + house \<times> bool" where
  "set_pending_photo tn i key ctype at =
     change_staff tn i (\<lambda>_. True)
       (\<lambda>r. r\<lparr>su_pending := key, su_pending_type := ctype, su_pending_at := at\<rparr>)"

definition promote_pending_photo ::
  "uuid \<Rightarrow> uuid \<Rightarrow> instant \<Rightarrow> house \<Rightarrow> error + house \<times> staff_user option" where
  "promote_pending_photo tn i at =
     change_staff_read tn i (\<lambda>r. su_pending r \<noteq> None)
       (\<lambda>r. r\<lparr>su_photo := su_pending r, su_photo_type := su_pending_type r, su_photo_at := Some at,
             su_pending := None, su_pending_type := None, su_pending_at := None\<rparr>)"

definition no_photo :: "staff_user \<Rightarrow> staff_user" where
  "no_photo r = r\<lparr>su_photo := None, su_photo_type := None, su_photo_at := None,
                 su_pending := None, su_pending_type := None, su_pending_at := None\<rparr>"

definition clear_photo :: "uuid \<Rightarrow> uuid \<Rightarrow> house \<Rightarrow> error + house \<times> staff_user option" where
  "clear_photo tn i = change_staff_read tn i (\<lambda>_. True) no_photo"

definition soft_delete_staff :: "uuid \<Rightarrow> uuid \<Rightarrow> date \<Rightarrow> house \<Rightarrow> error + house \<times> bool" where
  "soft_delete_staff tn i last_day =
     change_staff tn i (\<lambda>_. True)
       (\<lambda>r. (no_photo r)\<lparr>su_deleted := True, su_last_day := Some last_day\<rparr>)"

section \<open>Sessions\<close>

definition insert_session :: "uuid \<Rightarrow> uuid \<Rightarrow> utext \<Rightarrow> instant \<Rightarrow> house \<Rightarrow> error + house \<times> session" where
  "insert_session tn staff hash expires h =
     add_row h_sessions h_sessions_update sessions_ok
       (\<lambda>i. \<lparr>ss_id = i, ss_tenant = tn, ss_staff = staff, ss_token_hash = hash,
             ss_expires_at = expires, ss_deleted = False\<rparr>) h"

definition answers_to :: "uuid \<Rightarrow> utext \<Rightarrow> instant \<Rightarrow> session \<Rightarrow> bool" where
  "answers_to tn hash now r \<longleftrightarrow>
     ss_tenant r = tn \<and> ss_token_hash r = hash \<and> \<not> ss_deleted r \<and> ss_expires_at r > now"

definition active_by_token_hash :: "uuid \<Rightarrow> utext \<Rightarrow> instant \<Rightarrow> house \<Rightarrow> error + session option" where
  "active_by_token_hash tn hash now h = one_or_none (answers_to tn hash now) (h_sessions h)"

definition has_live_session :: "uuid \<Rightarrow> uuid \<Rightarrow> instant \<Rightarrow> house \<Rightarrow> bool" where
  "has_live_session tn staff now h \<longleftrightarrow>
     list_ex (\<lambda>r. ss_tenant r = tn \<and> ss_staff r = staff \<and> \<not> ss_deleted r \<and> ss_expires_at r > now)
       (h_sessions h)"

definition revoke_for_staff :: "uuid \<Rightarrow> uuid \<Rightarrow> utext option \<Rightarrow> house \<Rightarrow> error + house \<times> bool" where
  "revoke_for_staff tn staff keep =
     change_rows h_sessions h_sessions_update sessions_ok
       (\<lambda>r. ss_tenant r = tn \<and> ss_staff r = staff \<and> \<not> ss_deleted r
          \<and> (case keep of None \<Rightarrow> True | Some t \<Rightarrow> ss_token_hash r \<noteq> t))
       (\<lambda>r. r\<lparr>ss_deleted := True\<rparr>)"

text \<open>\<open>scalar_one_or_none\<close> over the revoked rows; the tenant is row-level security's.\<close>

definition revoke_by_token_hash :: "uuid \<Rightarrow> utext \<Rightarrow> house \<Rightarrow> error + house \<times> bool" where
  "revoke_by_token_hash tn hash h =
     (let P = (\<lambda>r. ss_tenant r = tn \<and> ss_token_hash r = hash \<and> \<not> ss_deleted r) in
      andthen (one_or_none P (h_sessions h)) (\<lambda>_.
      change_rows h_sessions h_sessions_update sessions_ok P (\<lambda>r. r\<lparr>ss_deleted := True\<rparr>) h))"

section \<open>Signing in\<close>

definition to_context :: "staff_user \<Rightarrow> staff_context" where
  "to_context r =
     \<lparr>sc_id = su_id r, sc_tenant = su_tenant r, sc_email = su_email r, sc_name = su_name r,
      sc_role = su_role r\<rparr>"

text \<open>The failed attempt's audit row is committed before \<open>Invalid_credentials\<close> is raised.\<close>

definition login ::
  "env \<Rightarrow> passwords \<Rightarrow> int \<Rightarrow> uuid \<Rightarrow> utext \<Rightarrow> utext \<Rightarrow> instant \<Rightarrow> utext \<Rightarrow> house
   \<Rightarrow> house \<times> (error + staff_context \<times> utext)" where
  "login e pw ttl tn email password now token h =
     (case staff_by_email tn email h of
        None \<Rightarrow> (log tn (Staff_action Login_failed) None h, Inl (Staff_error Invalid_credentials))
      | Some staff \<Rightarrow>
          if \<not> pw_verify pw password (su_password_hash staff)
          then (log tn (Staff_action Login_failed) (Some (su_id staff)) h,
                Inl (Staff_error Invalid_credentials))
          else (case insert_session tn (su_id staff) (e_hash e token) (now + seconds ttl) h of
                  Inl err \<Rightarrow> (h, Inl err)
                | Inr (h', _) \<Rightarrow>
                    (log tn (Staff_action Login) (Some (su_id staff)) h', Inr (to_context staff, token))))"

definition resolve_session :: "env \<Rightarrow> uuid \<Rightarrow> utext \<Rightarrow> instant \<Rightarrow> house \<Rightarrow> error + staff_context option" where
  "resolve_session e tn token now h =
     andthen (active_by_token_hash tn (e_hash e token) now h)
       (\<lambda>row. Inr (case row of
                     None \<Rightarrow> None
                   | Some r \<Rightarrow> map_option to_context (staff_by_id tn (ss_staff r) h)))"

definition logout :: "env \<Rightarrow> uuid \<Rightarrow> utext \<Rightarrow> house \<Rightarrow> error + house \<times> bool" where
  "logout e tn token h =
     andthen (revoke_by_token_hash tn (e_hash e token) h)
       (\<lambda>(h', revoked). Inr (if revoked then log tn (Staff_action Logout) None h' else h', revoked))"

definition current_staff :: "env \<Rightarrow> uuid \<Rightarrow> utext option \<Rightarrow> instant \<Rightarrow> house \<Rightarrow> error + staff_context" where
  "current_staff e tn cookie now h =
     (case cookie of
        None \<Rightarrow> Inl (Staff_error Not_authenticated)
      | Some token \<Rightarrow>
          if token = [] then Inl (Staff_error Not_authenticated)
          else andthen (resolve_session e tn token now h)
                 (\<lambda>who. need (Staff_error Not_authenticated) who))"

definition role_gate ::
  "staff_role list \<Rightarrow> env \<Rightarrow> uuid \<Rightarrow> utext option \<Rightarrow> instant \<Rightarrow> house \<Rightarrow> error + staff_context" where
  "role_gate allowed e tn cookie now h =
     andthen (current_staff e tn cookie now h) (\<lambda>staff.
     andthen (ensure (Staff_error Not_authorized) (sc_role staff \<in> set allowed)) (\<lambda>_.
     Inr staff))"

text \<open>The router: one counter per account and one per address, both blocked before the password is
  looked at; a failure counts on each, a success clears the account's.\<close>

datatype login_key = By_account uuid utext | By_address string

definition login_keys :: "uuid \<Rightarrow> utext \<Rightarrow> string option \<Rightarrow> login_key list" where
  "login_keys tn email ip =
     By_account tn email # (case ip of None \<Rightarrow> [] | Some a \<Rightarrow> [By_address a])"

definition login_request ::
  "env \<Rightarrow> passwords \<Rightarrow> limiter_cfg \<Rightarrow> int \<Rightarrow> uuid \<Rightarrow> utext \<Rightarrow> utext \<Rightarrow> string option \<Rightarrow> int \<Rightarrow> instant \<Rightarrow> utext
   \<Rightarrow> login_key limiter \<times> house \<Rightarrow> (login_key limiter \<times> house) \<times> (error + staff_context \<times> utext)" where
  "login_request e pw cfg ttl tn raw_email password ip tick now token lh =
     (let email = e_lower e raw_email; keys = login_keys tn email ip in
      if list_ex (is_blocked cfg (fst lh) tick) keys then (lh, Inl (Staff_error Rate_limited))
      else (case login e pw ttl tn email password now token (snd lh) of
              (h', Inl err) \<Rightarrow>
                ((if err = Staff_error Invalid_credentials
                  then foldl (\<lambda>l key. record_failure cfg l tick tick key) (fst lh) keys else fst lh, h'), Inl err)
            | (h', Inr ok) \<Rightarrow> ((reset (fst lh) (hd keys), h'), Inr ok)))"

section \<open>The directory\<close>

definition MAX_PROFILE_PHONE_LENGTH :: nat where "MAX_PROFILE_PHONE_LENGTH = 32"
definition MAX_LAST_DAY_LOOKAHEAD_DAYS :: int where "MAX_LAST_DAY_LOOKAHEAD_DAYS = 365"
definition MAX_LAST_DAY_BACKDATE_DAYS :: int where "MAX_LAST_DAY_BACKDATE_DAYS = 365"

definition validate_phone :: "utext \<Rightarrow> error + unit" where
  "validate_phone phone =
     andthen (ensure (Domain_validation ''phone is too long'') (length phone \<le> MAX_PROFILE_PHONE_LENGTH)) (\<lambda>_.
     let digits = (case phone of c # cs \<Rightarrow> if c = 43 then cs else phone | [] \<Rightarrow> []) in
     ensure (Domain_validation ''phone contains invalid characters'')
       (43 \<notin> set digits \<and> list_all (\<lambda>c. is_digit c \<or> c = 32 \<or> c = 40 \<or> c = 41 \<or> c = 45) digits
        \<and> list_ex is_digit digits))"

definition normalize_phone :: "utext option \<Rightarrow> error + utext option" where
  "normalize_phone phone =
     (case phone of
        None \<Rightarrow> Inr None
      | Some p \<Rightarrow>
          if ustrip p = [] then Inr None
          else andthen (validate_phone (ustrip p)) (\<lambda>_. Inr (Some (ustrip p))))"

definition resolve_last_day :: "env \<Rightarrow> instant \<Rightarrow> date option \<Rightarrow> date option \<Rightarrow> error + date" where
  "resolve_last_day e now last_day start =
     (let today = today_jerusalem (e_zone e) now; resolved = given last_day today in
      andthen (ensure (Domain_validation ''last_day must not be more than 365 days from today'')
                 (\<not> resolved > today + MAX_LAST_DAY_LOOKAHEAD_DAYS)) (\<lambda>_.
      andthen (ensure (Domain_validation ''last_day must not be more than 365 days in the past'')
                 (\<not> resolved < today - MAX_LAST_DAY_BACKDATE_DAYS)) (\<lambda>_.
      andthen (ensure (Domain_validation ''last_day must not be before start_date'')
                 (case start of None \<Rightarrow> True | Some d \<Rightarrow> \<not> resolved < d)) (\<lambda>_.
      Inr resolved))))"

definition create_staff ::
  "env \<Rightarrow> passwords \<Rightarrow> uuid \<Rightarrow> utext \<Rightarrow> utext \<Rightarrow> staff_role \<Rightarrow> utext \<Rightarrow> utext option \<Rightarrow> date option
   \<Rightarrow> bool \<Rightarrow> house \<Rightarrow> error + house \<times> staff_user" where
  "create_staff e pw tn email name role password phone start eligible h =
     (let address = e_lower e email in
      andthen (normalize_phone phone) (\<lambda>stored_phone.
      andthen (ensure (Staff_error Duplicate_email) (staff_by_email tn address h = None)) (\<lambda>_.
      (case insert_staff tn address (pw_hash pw password) name role stored_phone start eligible h of
         Inl _ \<Rightarrow> Inl (Staff_error Duplicate_email)
       | Inr (h', created) \<Rightarrow>
           Inr (log tn (Staff_action Staff_created) (Some (su_id created)) h', created)))))"

record member_patch =
  mp_name :: "utext option"
  mp_role :: "staff_role option"
  mp_password :: "utext option"
  mp_current :: "utext option"
  mp_phone :: "utext option"
  mp_start :: "date option"
  mp_eligible :: "bool option"

definition log_when :: "bool \<Rightarrow> uuid \<Rightarrow> audit_action \<Rightarrow> uuid option \<Rightarrow> house \<Rightarrow> house" where
  "log_when c tn act subj h = (if c then log tn act subj h else h)"

definition changed_to :: "'a option \<Rightarrow> 'a \<Rightarrow> 'a option" where
  "changed_to new old = (case new of None \<Rightarrow> None | Some v \<Rightarrow> if v \<noteq> old then Some v else None)"

text \<open>The write, one audit row per kind of change, and for a new password the end of every other
  session of the member.\<close>

definition write_member ::
  "uuid \<Rightarrow> uuid \<Rightarrow> utext option \<Rightarrow> staff_role option \<Rightarrow> utext option \<Rightarrow> utext option \<Rightarrow> date option
   \<Rightarrow> bool option \<Rightarrow> utext option \<Rightarrow> house \<Rightarrow> error + house \<times> staff_user" where
  "write_member tn sid name role hash phone start eligible acting h =
     andthen (update_staff tn sid name role hash phone start eligible h) (\<lambda>(h1, updated).
     andthen (need (Staff_error Staff_not_found) updated) (\<lambda>row.
     let h2 = log_when (role \<noteq> None) tn (Staff_action Staff_role_changed) (Some sid)
                (log_when (eligible \<noteq> None) tn (Staff_action Staff_updated) (Some sid)
                  (log_when (start \<noteq> None) tn (Staff_action Staff_updated) (Some sid)
                    (log_when (phone \<noteq> None) tn (Staff_action Staff_updated) (Some sid)
                      (log_when (name \<noteq> None) tn (Staff_action Staff_updated) (Some sid) h1)))) in
     if hash = None then Inr (h2, row)
     else andthen (revoke_for_staff tn sid acting h2) (\<lambda>(h3, _).
          Inr (log tn (Staff_action Staff_password_reset) (Some sid) h3, row))))"

definition update_member ::
  "passwords \<Rightarrow> uuid \<Rightarrow> uuid \<Rightarrow> member_patch \<Rightarrow> utext option \<Rightarrow> staff_context \<Rightarrow> house
   \<Rightarrow> error + house \<times> staff_user" where
  "update_member pw tn sid p acting actor h =
     andthen (normalize_phone (mp_phone p)) (\<lambda>stored_phone.
     andthen (need (Staff_error Staff_not_found) (staff_by_id tn sid h)) (\<lambda>target.
     let is_self = (su_id target = sc_id actor);
         new_role = changed_to (mp_role p) (su_role target);
         new_name = changed_to (mp_name p) (su_name target);
         new_hash = map_option (pw_hash pw) (mp_password p);
         phone_moves = (mp_phone p \<noteq> None \<and> stored_phone \<noteq> su_phone target);
         start_moves = (mp_start p \<noteq> None \<and> mp_start p \<noteq> su_start target);
         new_eligible = changed_to (mp_eligible p) (su_eligible target) in
     andthen (ensure (Staff_error Staff_self_manage) (\<not> (new_role \<noteq> None \<and> is_self))) (\<lambda>_.
     andthen (ensure (Staff_error Last_owner_required)
                (\<not> (new_role \<noteq> None \<and> su_role target = Owner \<and> count_live_owners tn h \<le> 1))) (\<lambda>_.
     andthen (ensure (Domain_validation ''current_password is required and must match to change your own password'')
                (\<not> (mp_password p \<noteq> None \<and> is_self
                    \<and> \<not> (case mp_current p of None \<Rightarrow> False
                         | Some c \<Rightarrow> pw_verify pw c (su_password_hash target))))) (\<lambda>_.
     if new_name = None \<and> new_role = None \<and> new_hash = None \<and> \<not> phone_moves \<and> \<not> start_moves
        \<and> new_eligible = None
     then Inr (h, target)
     else
       write_member tn sid new_name new_role new_hash
         (if phone_moves then Some (given stored_phone []) else None)
         (if start_moves then mp_start p else None) new_eligible acting h)))))"

text \<open>The keys a row names: \<open>[key for key in (photo_key, photo_pending_key) if key]\<close>.\<close>

definition photo_keys :: "staff_user \<Rightarrow> photo_key list" where
  "photo_keys r = (case su_photo r of None \<Rightarrow> [] | Some k \<Rightarrow> [k])
                  @ (case su_pending r of None \<Rightarrow> [] | Some k \<Rightarrow> [k])"

definition deactivate ::
  "env \<Rightarrow> uuid \<Rightarrow> uuid \<Rightarrow> date option \<Rightarrow> staff_context \<Rightarrow> instant \<Rightarrow> house \<Rightarrow> error + house \<times> photo_key list" where
  "deactivate e tn sid last_day actor now h =
     andthen (need (Staff_error Staff_not_found) (staff_by_id tn sid h)) (\<lambda>target.
     andthen (ensure (Staff_error Staff_self_manage) (su_id target \<noteq> sc_id actor)) (\<lambda>_.
     andthen (ensure (Staff_error Last_owner_required)
                (\<not> (su_role target = Owner \<and> count_live_owners tn h \<le> 1))) (\<lambda>_.
     andthen (resolve_last_day e now last_day (su_start target)) (\<lambda>leaving.
     andthen (soft_delete_staff tn sid leaving h) (\<lambda>(h', _).
     Inr (log tn (Staff_action Staff_deactivated) (Some sid) h', photo_keys target))))))"

section \<open>Photos\<close>

definition MIN_UPLOAD_BYTES :: int where "MIN_UPLOAD_BYTES = 1024"
definition MAX_STAFF_PHOTO_BYTES :: int where "MAX_STAFF_PHOTO_BYTES = 2097152"
definition MAGIC_PREFIX_LENGTH :: nat where "MAGIC_PREFIX_LENGTH = 16"

definition accepted_content_types :: "(string \<times> string) list" where
  "accepted_content_types =
     [(''image/jpeg'', ''.jpg''), (''image/png'', ''.png''), (''image/webp'', ''.webp'')]"

definition magic_prefixes :: "(string \<times> (nat \<times> nat list) list) list" where
  "magic_prefixes =
     [(''image/jpeg'', [(0, [255, 216, 255])]),
      (''image/png'', [(0, [137, 80, 78, 71, 13, 10, 26, 10])]),
      (''image/webp'', [(0, [82, 73, 70, 70]), (8, [87, 69, 66, 80])])]"

definition matches_magic_prefix :: "string \<Rightarrow> nat list \<Rightarrow> bool" where
  "matches_magic_prefix ctype bytes =
     (case map_of magic_prefixes ctype of
        None \<Rightarrow> False
      | Some segments \<Rightarrow>
          list_all (\<lambda>(offset, magic). take (length magic) (drop offset bytes) = magic) segments)"

definition validate_staff_photo :: "string \<Rightarrow> int \<Rightarrow> error + string" where
  "validate_staff_photo ctype nbytes =
     andthen (need (Domain_validation ''content_type must be one of the accepted types'')
                (map_of accepted_content_types ctype)) (\<lambda>ext.
     andthen (ensure (Domain_validation ''byte_size is out of bounds'')
                (MIN_UPLOAD_BYTES \<le> nbytes \<and> nbytes \<le> MAX_STAFF_PHOTO_BYTES)) (\<lambda>_.
     Inr ext))"

text \<open>The key is minted and recorded as pending, and the throttle charged, before the object store
  is asked for a form; if it cannot give one, the pending columns are cleared in a transaction of
  their own (\<open>between\<close> is what other requests committed in the meantime).\<close>

definition presign_photo ::
  "limiter_cfg \<Rightarrow> storage \<Rightarrow> uuid \<Rightarrow> uuid \<Rightarrow> string \<Rightarrow> int \<Rightarrow> uuid \<Rightarrow> int \<Rightarrow> instant \<Rightarrow> (house \<Rightarrow> house)
   \<Rightarrow> uuid limiter \<times> house \<Rightarrow> (uuid limiter \<times> house) \<times> (error + photo_key \<times> photo_key list)" where
  "presign_photo cfg so tn sid ctype nbytes photo tick now between lh =
     (if is_blocked cfg (fst lh) tick tn then (lh, Inl (Media_error Media_presign_throttled))
      else
        (case andthen (validate_staff_photo ctype nbytes) (\<lambda>ext.
              andthen (ensure (Media_error Media_not_configured) (so_configured so)) (\<lambda>_.
              andthen (need (Staff_error Staff_not_found) (staff_by_id tn sid (snd lh))) (\<lambda>target.
              let key = (tn, sid, photo, ext) in
              andthen (set_pending_photo tn sid (Some key) (Some ctype) (Some now) (snd lh)) (\<lambda>(h', _).
              Inr (log tn (Staff_action Staff_photo_presigned) (Some sid) h', key, su_pending target))))) of
           Inl err \<Rightarrow> (lh, Inl err)
         | Inr (h1, key, superseded) \<Rightarrow>
             let l1 = record_failure cfg (fst lh) tick tick tn;
                 dropped = (case superseded of None \<Rightarrow> [] | Some k \<Rightarrow> [k]) in
             (case so_presign so key of
                Inr _ \<Rightarrow> ((l1, h1), Inr (key, dropped))
              | Inl err \<Rightarrow>
                  (case set_pending_photo tn sid None None None (between h1) of
                     Inl err' \<Rightarrow> ((l1, between h1), Inl err')
                   | Inr (h2, _) \<Rightarrow> ((l1, h2), Inl err)))))"

text \<open>\<open>_reject_photo\<close>: the pending columns are cleared only while they still name the key that was
  refused; the object goes either way.\<close>

definition reject_photo ::
  "uuid \<Rightarrow> uuid \<Rightarrow> photo_key \<Rightarrow> house \<Rightarrow> house \<times> (error + 'a)" where
  "reject_photo tn sid key h =
     (case staff_by_id tn sid h of
        None \<Rightarrow> (h, Inl (Media_error Media_mismatch))
      | Some current \<Rightarrow>
          if su_pending current \<noteq> Some key then (h, Inl (Media_error Media_mismatch))
          else (case set_pending_photo tn sid None None None h of
                  Inl err \<Rightarrow> (h, Inl err)
                | Inr (h', _) \<Rightarrow> (h', Inl (Media_error Media_mismatch))))"

definition finish_confirm ::
  "uuid \<Rightarrow> uuid \<Rightarrow> photo_key \<Rightarrow> instant \<Rightarrow> house \<Rightarrow> house \<times> (error + staff_user \<times> photo_key list)" where
  "finish_confirm tn sid key now h =
     (case staff_by_id tn sid h of
        None \<Rightarrow> (h, Inl (Staff_error Staff_not_found))
      | Some current \<Rightarrow>
          if su_pending current \<noteq> Some key then (h, Inr (current, []))
          else (case promote_pending_photo tn sid now h of
                  Inl err \<Rightarrow> (h, Inl err)
                | Inr (h', None) \<Rightarrow> (h', Inr (current, []))
                | Inr (h', Some promoted) \<Rightarrow>
                    (log tn (Staff_action Staff_photo_confirmed) (Some sid) h',
                     Inr (promoted, case su_photo current of
                            None \<Rightarrow> [] | Some old \<Rightarrow> if old \<noteq> key then [old] else []))))"

definition confirm_photo ::
  "storage \<Rightarrow> uuid \<Rightarrow> uuid \<Rightarrow> instant \<Rightarrow> (house \<Rightarrow> house) \<Rightarrow> house
   \<Rightarrow> house \<times> (error + staff_user \<times> photo_key list)" where
  "confirm_photo so tn sid now between h =
     (if \<not> so_configured so then (h, Inl (Media_error Media_not_configured))
      else
        (case staff_by_id tn sid h of
           None \<Rightarrow> (h, Inl (Staff_error Staff_not_found))
         | Some target \<Rightarrow>
             (case (su_pending target, su_pending_type target) of
                (Some key, Some ctype) \<Rightarrow>
                  (case so_head so key of
                     Inl err \<Rightarrow> (between h, Inl err)
                   | Inr None \<Rightarrow> (between h, Inl (Media_error Media_not_uploaded))
                   | Inr (Some actual) \<Rightarrow>
                       if actual \<noteq> ctype then reject_photo tn sid key (between h)
                       else (case so_prefix so key of
                               Inl err \<Rightarrow> (between h, Inl err)
                             | Inr bytes \<Rightarrow>
                                 if \<not> matches_magic_prefix ctype bytes
                                 then reject_photo tn sid key (between h)
                                 else finish_confirm tn sid key now (between h)))
              | _ \<Rightarrow> (h, Inr (target, [])))))"

definition delete_photo ::
  "storage \<Rightarrow> uuid \<Rightarrow> uuid \<Rightarrow> house \<Rightarrow> error + house \<times> staff_user \<times> photo_key list" where
  "delete_photo so tn sid h =
     andthen (ensure (Media_error Media_not_configured) (so_configured so)) (\<lambda>_.
     andthen (need (Staff_error Staff_not_found) (staff_by_id tn sid h)) (\<lambda>target.
     andthen (clear_photo tn sid h) (\<lambda>(h', cleared).
     andthen (need (Staff_error Staff_not_found) cleared) (\<lambda>row.
     Inr (log tn (Staff_action Staff_photo_deleted) (Some sid) h', row, photo_keys target)))))"

section \<open>The table\<close>

interpretation st: house_table su_id su_tenant su_deleted staff_ok h_staff h_staff_update
  by unfold_locales (simp_all add: staff_ok_def)

lemma staff_named_named: "staff_named = st.named"
  by (auto simp: staff_named_def st.named_def fun_eq_iff)

lemma staff_by_id_row: "staff_by_id = st.row"
  by (simp add: staff_by_id_def st.row_def st.fetch_def staff_named_named fun_eq_iff)

lemma staff_by_id_SomeD:
  "staff_by_id tn i h = Some r \<Longrightarrow> r \<in> set (h_staff h) \<and> su_tenant r = tn \<and> su_id r = i \<and> \<not> su_deleted r"
  unfolding staff_by_id_row by (rule st.row_SomeD)

definition write_staff :: "uuid \<Rightarrow> uuid \<Rightarrow> (staff_user \<Rightarrow> staff_user) \<Rightarrow> house \<Rightarrow> house" where
  "write_staff tn i f h = h\<lparr>h_staff := update_where (staff_named tn i) f (h_staff h)\<rparr>"

lemma write_staff_sel [simp]:
  "h_staff (write_staff tn i f h) = update_where (staff_named tn i) f (h_staff h)"
  "h_db (write_staff tn i f h) = h_db h" "h_sessions (write_staff tn i f h) = h_sessions h"
  by (simp_all add: write_staff_def)

lemma write_staff_put: "write_staff = st.put"
  by (simp add: fun_eq_iff write_staff_def st.put_def staff_named_named)

lemma change_staff_run:
  assumes "staff_ok (h_staff h)"
  shows "change_staff tn i g f h =
    (case staff_by_id tn i h of
       None \<Rightarrow> Inr (h, False)
     | Some r \<Rightarrow>
         if \<not> g r then Inr (h, False)
         else if staff_ok (h_staff (write_staff tn i f h)) then Inr (write_staff tn i f h, True)
         else Inl Integrity_error)"
  unfolding change_staff_def staff_named_named staff_by_id_row write_staff_put
  by (rule st.change_run [OF assms])

lemma staff_by_id_write:
  "st.keeps_name f \<Longrightarrow> staff_by_id tn' i' (write_staff tn i f h) =
     (if tn' = tn \<and> i' = i then map_option f (staff_by_id tn i h) else staff_by_id tn' i' h)"
  unfolding staff_by_id_row write_staff_put by (rule st.row_put)

text \<open>A change to columns no constraint reads never raises.\<close>

definition keeps_staff :: "(staff_user \<Rightarrow> staff_user) \<Rightarrow> bool" where
  "keeps_staff f \<longleftrightarrow> (\<forall>r. su_id (f r) = su_id r \<and> su_tenant (f r) = su_tenant r
     \<and> su_email (f r) = su_email r \<and> (\<not> su_deleted (f r) \<longrightarrow> \<not> su_deleted r)
     \<and> (staff_row_ok r \<longrightarrow> staff_row_ok (f r)))"

lemma staff_ok_write:
  assumes "staff_ok rows" "keeps_staff f"
  shows "staff_ok (update_where P f rows)"
  using assms
  by (auto simp: staff_ok_def keeps_staff_def map_update_where list_all_iff set_update_where
      intro!: unique_on_update_shrink)

lemma change_staff_holds:
  assumes "staff_ok (h_staff h)" "keeps_staff f"
  shows "change_staff tn i g f h =
    (case staff_by_id tn i h of
       None \<Rightarrow> Inr (h, False)
     | Some r \<Rightarrow> if g r then Inr (write_staff tn i f h, True) else Inr (h, False))"
  using staff_ok_write [OF assms] by (simp add: change_staff_run [OF assms(1)] split: option.split)

lemma keeps_name_staff [simp]: "st.keeps_name (patched n ro pw ph sd el)"
  "st.keeps_name (\<lambda>r. r\<lparr>su_break_at := x1\<rparr>)" "st.keeps_name (\<lambda>r. r\<lparr>su_capacity := x2\<rparr>)"
  "st.keeps_name (\<lambda>r. r\<lparr>su_shift_on := x3, su_shift_override := x4\<rparr>)"
  "st.keeps_name (\<lambda>r. r\<lparr>su_pending := x5, su_pending_type := x6, su_pending_at := x7\<rparr>)"
  "st.keeps_name no_photo"
  by (simp_all add: st.keeps_name_def patched_def no_photo_def)

lemma keeps_patched: "keeps_staff (patched n ro pw ph sd el)"
  by (simp add: keeps_staff_def patched_def staff_row_ok_def)

lemma update_staff_Inr:
  assumes "update_staff tn i n ro pw ph sd el h = Inr (h', res)" "staff_ok (h_staff h)"
  shows "(staff_by_id tn i h = None \<and> h' = h \<and> res = None)
    \<or> (\<exists>r. staff_by_id tn i h = Some r \<and> res = Some (patched n ro pw ph sd el r)
          \<and> (h' = h \<and> ro = None \<and> pw = None \<or> h' = write_staff tn i (patched n ro pw ph sd el) h))"
proof (cases "staff_by_id tn i h")
  case None
  with assms(1) show ?thesis by (simp add: update_staff_def)
next
  case (Some r)
  show ?thesis
  proof (cases "n = None \<and> ro = None \<and> pw = None \<and> ph = None \<and> sd = None \<and> el = None")
    case True
    with assms(1) Some show ?thesis by (auto simp: update_staff_def patched_def given_def)
  next
    case False
    with assms(1) Some
    have "h' = write_staff tn i (patched n ro pw ph sd el) h"
      "res = staff_by_id tn i (write_staff tn i (patched n ro pw ph sd el) h)"
      by (auto simp: update_staff_def change_staff_read_def change_staff_holds [OF assms(2) keeps_patched])
    with Some show ?thesis by (simp add: staff_by_id_write)
  qed
qed

section \<open>A shop keeps an owner\<close>

definition owned :: "uuid \<Rightarrow> house \<Rightarrow> bool" where
  "owned tn h \<longleftrightarrow> list_ex (live_owner tn) (h_staff h)"

lemma another_owner:
  assumes "staff_ok (h_staff h)" "\<not> count_live_owners tn h \<le> 1"
  shows "\<exists>r\<in>set (h_staff h). live_owner tn r \<and> su_id r \<noteq> i"
proof (rule ccontr)
  assume "\<not> ?thesis"
  then have all: "\<forall>r\<in>set (filter (live_owner tn) (h_staff h)). su_id r = i" by auto
  have "distinct (map su_id (filter (live_owner tn) (h_staff h)))"
    using assms(1) by (simp add: staff_ok_def distinct_map_filter)
  moreover have "set (map su_id (filter (live_owner tn) (h_staff h))) \<subseteq> {i}" using all by auto
  ultimately have "length (map su_id (filter (live_owner tn) (h_staff h))) \<le> card {i}"
    by (metis card_mono distinct_card finite.emptyI finite.insertI)
  with assms(2) show False by (simp add: count_live_owners_def)
qed

lemma owned_write:
  assumes ok: "staff_ok (h_staff h)" and own: "owned to h"
    and f: "\<And>r. staff_by_id tn i h = Some r \<Longrightarrow> su_role r = Owner \<Longrightarrow>
      live_owner tn (f r) \<or> \<not> count_live_owners tn h \<le> 1"
  shows "owned to (write_staff tn i f h)"
proof -
  have kept: "owned to (write_staff tn i f h)" if "r \<in> set (h_staff h)" "live_owner to r" "\<not> staff_named tn i r" for r
    using that by (force simp: owned_def list_ex_iff set_update_where)
  obtain r where r: "r \<in> set (h_staff h)" "live_owner to r" using own by (auto simp: owned_def list_ex_iff)
  show ?thesis
  proof (cases "staff_named tn i r")
    case False
    with kept r show ?thesis by blast
  next
    case True
    then have t: "to = tn" "su_role r = Owner" using r(2) by (auto simp: staff_named_def live_owner_def)
    have "staff_by_id tn i h = Some r"
      using st.fetch_mem [OF ok r(1)] True by (auto simp: staff_by_id_row st.row_def staff_named_def)
    from f [OF this t(2)] show ?thesis
    proof
      assume "live_owner tn (f r)"
      with r(1) True t show ?thesis by (force simp: owned_def list_ex_iff set_update_where)
    next
      assume "\<not> count_live_owners tn h \<le> 1"
      from another_owner [OF ok this, of i] obtain x
        where "x \<in> set (h_staff h)" "live_owner tn x" "su_id x \<noteq> i" by blast
      with kept [of x] t show ?thesis by (simp add: staff_named_def)
    qed
  qed
qed

lemma owned_same: "h_staff h' = h_staff h \<Longrightarrow> owned tn h' = owned tn h"
  by (simp add: owned_def)

section \<open>Sessions\<close>

lemma revoke_for_staff_Inr:
  "revoke_for_staff tn sid keep h = Inr (h', hit) \<Longrightarrow>
   h_staff h' = h_staff h
   \<and> h_sessions h' = update_where (\<lambda>r. ss_tenant r = tn \<and> ss_staff r = sid \<and> \<not> ss_deleted r
        \<and> (case keep of None \<Rightarrow> True | Some t \<Rightarrow> ss_token_hash r \<noteq> t)) (\<lambda>r. r\<lparr>ss_deleted := True\<rparr>) (h_sessions h)"
  by (auto simp: revoke_for_staff_def change_rows_Inr)

lemma log_when_sel [simp]:
  "h_staff (log_when c tn a i h) = h_staff h" "h_sessions (log_when c tn a i h) = h_sessions h"
  "house_ok (log_when c tn a i h) = house_ok h"
  by (simp_all add: log_when_def)

lemma staff_by_id_same: "h_staff h' = h_staff h \<Longrightarrow> staff_by_id tn i h' = staff_by_id tn i h"
  by (simp add: staff_by_id_def)

lemma resolve_session_Some:
  assumes "resolve_session e tn token now h = Inr (Some c)"
  obtains s r where "s \<in> set (h_sessions h)" "answers_to tn (e_hash e token) now s"
    "staff_by_id tn (ss_staff s) h = Some r" "c = to_context r"
  using assms
  by (auto simp: resolve_session_def active_by_token_hash_def andthen_eq_Inr
      split: option.splits dest!: one_or_none_SomeD)

text \<open>C. A cookie names a member only while she may sign in: resolving a session answers the context of
  an undeleted member of that tenant, through a session of that tenant that was neither revoked nor
  expired and whose stored hash is the token's.\<close>

theorem session_names_live_member:
  assumes "resolve_session e tn token now h = Inr (Some c)"
  shows "\<exists>s\<in>set (h_sessions h). \<exists>r\<in>set (h_staff h). answers_to tn (e_hash e token) now s
    \<and> staff_named tn (ss_staff s) r \<and> c = to_context r"
  by (rule resolve_session_Some [OF assms]) (auto dest!: staff_by_id_SomeD simp: staff_named_def)

definition front_desk :: house where
  "front_desk = empty_house\<lparr>h_staff :=
     [\<lparr>su_id = 1, su_tenant = 7, su_email = [97], su_password_hash = [1], su_name = [65], su_role = Owner,
       su_break_at = None, su_capacity = None, su_phone = None, su_start = None, su_last_day = None,
       su_eligible = False, su_shift_on = None, su_shift_override = None, su_photo = None,
       su_photo_type = None, su_photo_at = None, su_pending = None, su_pending_type = None,
       su_pending_at = None, su_created_at = 0, su_deleted = False\<rparr>,
      \<lparr>su_id = 2, su_tenant = 7, su_email = [98], su_password_hash = [2], su_name = [66],
       su_role = Seamstress, su_break_at = None, su_capacity = None, su_phone = None, su_start = None,
       su_last_day = None, su_eligible = False, su_shift_on = None, su_shift_override = None,
       su_photo = None, su_photo_type = None, su_photo_at = None,
       su_pending = Some (7, 2, 9, ''.jpg''), su_pending_type = Some ''image/jpeg'',
       su_pending_at = Some 0, su_created_at = 1, su_deleted = False\<rparr>],
     h_sessions := [\<lparr>ss_id = 3, ss_tenant = 7, ss_staff = 2, ss_token_hash = [5], ss_expires_at = 100,
       ss_deleted = False\<rparr>,
      \<lparr>ss_id = 4, ss_tenant = 7, ss_staff = 1, ss_token_hash = [6], ss_expires_at = 100,
       ss_deleted = False\<rparr>]\<rparr>"

definition plain_env :: env where
  "plain_env = \<lparr>e_zone = fixed_offset 2, e_hash = (\<lambda>t. t), e_lower = (\<lambda>t. t)\<rparr>"

definition plain_passwords :: passwords where
  "plain_passwords = \<lparr>pw_hash = (\<lambda>p. p), pw_verify = (\<lambda>p stored. p = stored)\<rparr>"

theorem session_names_live_member_witness:
  "\<exists>s\<in>set (h_sessions front_desk). \<exists>r\<in>set (h_staff front_desk).
     answers_to 7 (e_hash plain_env [5]) 50 s \<and> staff_named 7 (ss_staff s) r
     \<and> to_context (h_staff front_desk ! 1) = to_context r"
  by (rule session_names_live_member [where e = plain_env and now = 50 and token = "[5]"]) code_simp

text \<open>C. Whoever is offboarded is out at once, although her sessions are not revoked one by one: after
  \<open>deactivate\<close> no token of the tenant, at any later time, resolves to her.\<close>

theorem deactivated_is_signed_out:
  assumes "deactivate e tn sid last_day actor at h = Inr (h', keys)"
    and "resolve_session e tn token now h' = Inr (Some c)"
  shows "sc_id c \<noteq> sid"
proof -
  obtain leaving where "h_staff h' = update_where (staff_named tn sid)
      (\<lambda>r. (no_photo r)\<lparr>su_deleted := True, su_last_day := Some leaving\<rparr>) (h_staff h)"
    using assms(1) by (auto simp: deactivate_def soft_delete_staff_def change_staff_def handler_simps change_rows_Inr)
  then have gone: "staff_by_id tn sid h' = None"
    by (auto simp: staff_by_id_def find_None_Ball set_update_where staff_named_def)
  show ?thesis
  proof (rule resolve_session_Some [OF assms(2)])
    fix s r assume r: "staff_by_id tn (ss_staff s) h' = Some r" "c = to_context r"
    then have "su_id r = ss_staff s" by (blast dest: staff_by_id_SomeD)
    with r gone show "sc_id c \<noteq> sid" by (auto simp: to_context_def)
  qed
qed

definition boss :: staff_context where
  "boss = \<lparr>sc_id = 1, sc_tenant = 7, sc_email = [97], sc_name = [65], sc_role = Owner\<rparr>"

theorem deactivated_is_signed_out_witness:
  "sc_id (to_context (hd (h_staff front_desk))) \<noteq> 2"
proof (rule deactivated_is_signed_out)
  let ?run = "deactivate plain_env 7 2 None boss 0 front_desk"
  show "?run = Inr (fst (projr ?run), snd (projr ?run))" by code_simp
  show "resolve_session plain_env 7 [6] 50 (fst (projr ?run)) = Inr (Some (to_context (hd (h_staff front_desk))))"
    by code_simp
qed

lemma andthen_ensure_Inr: "andthen (ensure e ok) f = Inr y \<longleftrightarrow> ok \<and> f () = Inr y"
  by (cases ok) simp_all

lemma if_InrE: "(if c then Inr x else m) = Inr y \<Longrightarrow> (c \<Longrightarrow> x = y \<Longrightarrow> P) \<Longrightarrow> (\<not> c \<Longrightarrow> m = Inr y \<Longrightarrow> P) \<Longrightarrow> P"
  by (cases c) simp_all

lemma write_member_Inr:
  assumes "write_member tn sid n ro pw ph sd el acting h = Inr (h', row)" "staff_ok (h_staff h)"
    "staff_by_id tn sid h = Some target"
  shows "row = patched n ro pw ph sd el target
    \<and> (h_staff h' = update_where (staff_named tn sid) (patched n ro pw ph sd el) (h_staff h)
       \<or> h_staff h' = h_staff h \<and> ro = None \<and> pw = None)
    \<and> h_sessions h' = (if pw = None then h_sessions h else
       update_where (\<lambda>r. ss_tenant r = tn \<and> ss_staff r = sid \<and> \<not> ss_deleted r
         \<and> (case acting of None \<Rightarrow> True | Some t \<Rightarrow> ss_token_hash r \<noteq> t)) (\<lambda>r. r\<lparr>ss_deleted := True\<rparr>) (h_sessions h))"
proof -
  from assms(1) obtain h1 where u: "update_staff tn sid n ro pw ph sd el h = Inr (h1, Some row)"
    by (auto simp: write_member_def andthen_eq_Inr Let_def split: if_splits prod.splits)
  from update_staff_Inr [OF this assms(2)] assms(3)
  have r: "row = patched n ro pw ph sd el target"
    and h1: "h1 = h \<and> ro = None \<and> pw = None \<or> h1 = write_staff tn sid (patched n ro pw ph sd el) h" by auto
  then have "h_sessions h1 = h_sessions h" by auto
  note run = assms(1) [unfolded write_member_def u Let_def, simplified]
  show ?thesis
  proof (cases "pw = None")
    case True
    with run have "h_staff h' = h_staff h1" "h_sessions h' = h_sessions h1" by auto
    with True h1 r show ?thesis by auto
  next
    case False
    with run obtain h2 h3 hit where k: "revoke_for_staff tn sid acting h2 = Inr (h3, hit)"
      "h_staff h2 = h_staff h1" "h_sessions h2 = h_sessions h1"
      "h_staff h' = h_staff h3" "h_sessions h' = h_sessions h3"
      by (auto simp: andthen_eq_Inr)
    from revoke_for_staff_Inr [OF k(1)] k(2-5) False h1 r show ?thesis by auto
  qed
qed

lemma update_member_Inr:
  assumes "update_member pw tn sid p acting actor h = Inr (h', row)" "staff_ok (h_staff h)"
  obtains target n ph sd el where "staff_by_id tn sid h = Some target"
    "row = patched n (changed_to (mp_role p) (su_role target)) (map_option (pw_hash pw) (mp_password p)) ph sd el target"
    "h_staff h' = update_where (staff_named tn sid)
       (patched n (changed_to (mp_role p) (su_role target)) (map_option (pw_hash pw) (mp_password p)) ph sd el) (h_staff h)
     \<or> h_staff h' = h_staff h \<and> changed_to (mp_role p) (su_role target) = None \<and> mp_password p = None"
    "changed_to (mp_role p) (su_role target) \<noteq> None \<longrightarrow> su_id target \<noteq> sc_id actor
       \<and> \<not> (su_role target = Owner \<and> count_live_owners tn h \<le> 1)"
    "mp_password p \<noteq> None \<longrightarrow> su_id target = sc_id actor \<longrightarrow>
       (\<exists>c. mp_current p = Some c \<and> pw_verify pw c (su_password_hash target))"
    "h_sessions h' = (if mp_password p = None then h_sessions h else
       update_where (\<lambda>r. ss_tenant r = tn \<and> ss_staff r = sid \<and> \<not> ss_deleted r
         \<and> (case acting of None \<Rightarrow> True | Some t \<Rightarrow> ss_token_hash r \<noteq> t)) (\<lambda>r. r\<lparr>ss_deleted := True\<rparr>) (h_sessions h))"
proof -
  from assms(1) obtain stored target where t: "normalize_phone (mp_phone p) = Inr stored"
    "staff_by_id tn sid h = Some target" by (auto simp: update_member_def andthen_eq_Inr)
  let ?ro = "changed_to (mp_role p) (su_role target)" and ?pw = "map_option (pw_hash pw) (mp_password p)"
  note run = assms(1) [unfolded update_member_def t Let_def, simplified andthen_simps need_simps andthen_ensure_Inr]
  have guards: "?ro \<noteq> None \<longrightarrow> su_id target \<noteq> sc_id actor \<and> \<not> (su_role target = Owner \<and> count_live_owners tn h \<le> 1)"
    "mp_password p \<noteq> None \<longrightarrow> su_id target = sc_id actor \<longrightarrow>
       (\<exists>c. mp_current p = Some c \<and> pw_verify pw c (su_password_hash target))"
    using run [THEN conjunct1] run [THEN conjunct2, THEN conjunct1]
      run [THEN conjunct2, THEN conjunct2, THEN conjunct1] by (auto split: option.splits)
  have "?ro = None \<and> mp_password p = None \<and> h' = h \<and> row = target
      \<or> (\<exists>n ph sd el. write_member tn sid n ?ro ?pw ph sd el acting h = Inr (h', row))"
    apply (rule if_InrE [OF run [THEN conjunct2, THEN conjunct2, THEN conjunct2]])
    subgoal by simp
    subgoal by (intro disjI2 exI)
    done
  then show thesis
  proof
    assume same: "?ro = None \<and> mp_password p = None \<and> h' = h \<and> row = target"
    show thesis by (rule that [OF t(2) _ _ guards, of None None None None])
        (use same in \<open>simp_all add: patched_def given_def\<close>)
  next
    assume "\<exists>n ph sd el. write_member tn sid n ?ro ?pw ph sd el acting h = Inr (h', row)"
    then obtain n ph sd el where "write_member tn sid n ?ro ?pw ph sd el acting h = Inr (h', row)" by blast
    from write_member_Inr [OF this assms(2) t(2)]
    have w: "row = patched n ?ro ?pw ph sd el target"
      "h_staff h' = update_where (staff_named tn sid) (patched n ?ro ?pw ph sd el) (h_staff h)
       \<or> h_staff h' = h_staff h \<and> ?ro = None \<and> mp_password p = None"
      "h_sessions h' = (if mp_password p = None then h_sessions h else
       update_where (\<lambda>r. ss_tenant r = tn \<and> ss_staff r = sid \<and> \<not> ss_deleted r
         \<and> (case acting of None \<Rightarrow> True | Some t \<Rightarrow> ss_token_hash r \<noteq> t)) (\<lambda>r. r\<lparr>ss_deleted := True\<rparr>) (h_sessions h))"
      by (simp_all only: map_option_is_None)
    show thesis by (rule that [OF t(2) w(1,2) guards w(3)])
  qed
qed

lemma unspared:
  "s \<in> set (update_where P (\<lambda>r. r\<lparr>ss_deleted := True\<rparr>) rows) \<Longrightarrow> \<not> ss_deleted s \<Longrightarrow> s \<in> set rows \<and> \<not> P s"
  by (auto simp: update_where_def split: if_splits)

text \<open>C. A password reset signs every other session out: when an update carries a new password,
  the only session of that member left alive in the tenant is the one the request came on, whoever asked, and the
  old password no longer opens the account.\<close>

theorem password_reset_signs_out:
  assumes "update_member pw tn sid p acting actor h = Inr (h', row)" "mp_password p = Some password"
    and "staff_ok (h_staff h)"
  shows "su_password_hash row = pw_hash pw password
    \<and> (\<forall>s\<in>set (h_sessions h'). ss_tenant s = tn \<and> ss_staff s = sid \<and> \<not> ss_deleted s
         \<longrightarrow> Some (ss_token_hash s) = acting)"
proof (rule update_member_Inr [OF assms(1,3)])
  fix target n ph sd el
  assume row: "row = patched n (changed_to (mp_role p) (su_role target)) (map_option (pw_hash pw) (mp_password p)) ph sd el target"
    and ss: "h_sessions h' = (if mp_password p = None then h_sessions h else
       update_where (\<lambda>r. ss_tenant r = tn \<and> ss_staff r = sid \<and> \<not> ss_deleted r
         \<and> (case acting of None \<Rightarrow> True | Some t \<Rightarrow> ss_token_hash r \<noteq> t)) (\<lambda>r. r\<lparr>ss_deleted := True\<rparr>) (h_sessions h))"
  have "su_password_hash row = pw_hash pw password" by (simp add: row patched_def given_def assms(2))
  moreover have "Some (ss_token_hash s) = acting"
    if "s \<in> set (h_sessions h')" "ss_tenant s = tn \<and> ss_staff s = sid \<and> \<not> ss_deleted s" for s
    using that unspared [of s _ "h_sessions h"] by (cases acting) (auto simp: ss assms(2))
  ultimately show ?thesis by blast
qed

definition new_password :: member_patch where
  "new_password = \<lparr>mp_name = None, mp_role = None, mp_password = Some [3], mp_current = None,
     mp_phone = None, mp_start = None, mp_eligible = None\<rparr>"

theorem password_reset_signs_out_witness:
  "\<exists>h' row. update_member plain_passwords 7 2 new_password None boss front_desk = Inr (h', row)
     \<and> su_password_hash row = [3] \<and> (\<forall>s\<in>set (h_sessions h'). ss_staff s = 2 \<longrightarrow> ss_deleted s)"
proof -
  let ?run = "update_member plain_passwords 7 2 new_password None boss front_desk"
  have r: "?run = Inr (fst (projr ?run), snd (projr ?run))" by code_simp
  have p: "mp_password new_password = Some [3]" by code_simp
  have t: "list_all (\<lambda>s. ss_tenant s = 7) (h_sessions (fst (projr ?run)))" by code_simp
  have ok: "staff_ok (h_staff front_desk)" by code_simp
  have out: "su_password_hash row = [3] \<and> (\<forall>s\<in>set (h_sessions h'). ss_staff s = 2 \<longrightarrow> ss_deleted s)"
    if "?run = Inr (h', row)" "list_all (\<lambda>s. ss_tenant s = 7) (h_sessions h')" for h' row
    using password_reset_signs_out [OF that(1) p ok] that(2)
    by (auto simp: list_all_iff plain_passwords_def)
  from r out [OF r t] show ?thesis by blast
qed

text \<open>C. Signing in round trips: the cookie a successful login hands out resolves to the member it was
  issued to, until its time to live has passed, when the new token's hash is not already in use.\<close>

theorem login_resolves:
  assumes "login e pw ttl tn email password now token h = (h', Inr (who, cookie))"
    and "\<forall>s\<in>set (h_sessions h). ss_token_hash s \<noteq> e_hash e token"
    and "later < now + seconds ttl" and "staff_ok (h_staff h)"
  shows "cookie = token \<and> sc_email who = email \<and> resolve_session e tn cookie later h' = Inr (Some who)"
proof -
  obtain staff where st: "staff_by_email tn email h = Some staff"
    using assms(1) by (auto simp: login_def split: option.splits)
  then have row: "staff \<in> set (h_staff h)" "su_tenant staff = tn" "su_email staff = email" "\<not> su_deleted staff"
    by (auto simp: staff_by_email_def dest: find_SomeD)
  let ?s = "\<lparr>ss_id = h_next h, ss_tenant = tn, ss_staff = su_id staff, ss_token_hash = e_hash e token,
      ss_expires_at = now + seconds ttl, ss_deleted = False\<rparr>"
  have res: "who = to_context staff" "cookie = token" "h_sessions h' = h_sessions h @ [?s]" "h_staff h' = h_staff h"
    using assms(1) st
    by (auto simp: login_def insert_session_def add_row_Inr split: if_splits sum.splits prod.splits)
  have "filter (answers_to tn (e_hash e token) later) (h_sessions h) = []"
    using assms(2) by (auto simp: filter_empty_conv answers_to_def)
  then have "active_by_token_hash tn (e_hash e token) later h' = Inr (Some ?s)"
    using assms(3) by (simp add: active_by_token_hash_def one_or_none_def res answers_to_def)
  moreover have "staff_by_id tn (su_id staff) h' = Some staff"
    using st.fetch_mem [OF assms(4) row(1)] row
    by (simp add: staff_by_id_row st.row_def res)
  ultimately show ?thesis by (simp add: resolve_session_def res row to_context_def)
qed

theorem login_resolves_witness:
  "\<exists>h'. login plain_env plain_passwords 60 7 [97] [1] 0 [9] front_desk = (h', Inr (boss, [9]))
     \<and> resolve_session plain_env 7 [9] 59999999 h' = Inr (Some boss)"
proof -
  let ?run = "login plain_env plain_passwords 60 7 [97] [1] 0 [9] front_desk"
  have r: "?run = (fst ?run, Inr (boss, [9]))" by code_simp
  have "resolve_session plain_env 7 [9] 59999999 (fst ?run) = Inr (Some boss)"
    by (rule login_resolves [OF r, THEN conjunct2, THEN conjunct2]) code_simp+
  with r show ?thesis by metis
qed

section \<open>Photos\<close>

text \<open>What the object store knows of an upload: it is the image it was declared to be, or it is not. When
  the store cannot be read, or holds nothing yet, neither is known.\<close>

definition image_bytes :: "string \<Rightarrow> nat list \<Rightarrow> bool" where
  "image_bytes ctype bytes \<longleftrightarrow>
     ctype = ''image/jpeg'' \<and> take 3 bytes = [255, 216, 255]
     \<or> ctype = ''image/png'' \<and> take 8 bytes = [137, 80, 78, 71, 13, 10, 26, 10]
     \<or> ctype = ''image/webp'' \<and> take 4 bytes = [82, 73, 70, 70] \<and> take 4 (drop 8 bytes) = [87, 69, 66, 80]"

definition genuine :: "storage \<Rightarrow> photo_key \<Rightarrow> string \<Rightarrow> bool" where
  "genuine so key ctype \<longleftrightarrow> so_head so key = Inr (Some ctype)
     \<and> (\<exists>bytes. so_prefix so key = Inr bytes \<and> image_bytes ctype bytes)"

definition refuted :: "storage \<Rightarrow> photo_key \<Rightarrow> string \<Rightarrow> bool" where
  "refuted so key ctype \<longleftrightarrow> (\<exists>actual. so_head so key = Inr (Some actual) \<and> actual \<noteq> ctype)
     \<or> so_head so key = Inr (Some ctype) \<and> (\<exists>bytes. so_prefix so key = Inr bytes \<and> \<not> image_bytes ctype bytes)"

lemma matches_magic_prefix_iff: "matches_magic_prefix ctype bytes = image_bytes ctype bytes"
  unfolding matches_magic_prefix_def magic_prefixes_def image_bytes_def
  by (cases "ctype = ''image/jpeg''"; cases "ctype = ''image/png''"; cases "ctype = ''image/webp''")
    (simp_all add: numeral_eq_Suc)

definition promoted :: "instant \<Rightarrow> staff_user \<Rightarrow> staff_user" where
  "promoted now r = r\<lparr>su_photo := su_pending r, su_photo_type := su_pending_type r, su_photo_at := Some now,
     su_pending := None, su_pending_type := None, su_pending_at := None\<rparr>"

definition unpended :: "staff_user \<Rightarrow> staff_user" where
  "unpended r = r\<lparr>su_pending := None, su_pending_type := None, su_pending_at := None\<rparr>"

lemma photo_writes [simp]: "st.keeps_name (promoted now)" "st.keeps_name unpended"
  "keeps_staff (promoted now)" "keeps_staff unpended"
  by (auto simp: st.keeps_name_def promoted_def unpended_def keeps_staff_def staff_row_ok_def photo_type_ok_def)

lemma staff_by_id_log [simp]: "staff_by_id tn i (log tn' a o' h) = staff_by_id tn i h"
  by (simp add: staff_by_id_def log_def)

lemma promote_pending_photo_run:
  assumes "staff_ok (h_staff h)" "staff_by_id tn sid h = Some r" "su_pending r \<noteq> None"
  shows "promote_pending_photo tn sid now h = Inr (write_staff tn sid (promoted now) h, Some (promoted now r))"
proof -
  have "change_staff tn sid (\<lambda>r. su_pending r \<noteq> None) (promoted now) h = Inr (write_staff tn sid (promoted now) h, True)"
    using assms by (simp add: change_staff_holds)
  moreover have "staff_by_id tn sid (write_staff tn sid (promoted now) h) = Some (promoted now r)"
    using assms(2) by (simp add: staff_by_id_write)
  moreover have "promote_pending_photo tn sid now = change_staff_read tn sid (\<lambda>r. su_pending r \<noteq> None) (promoted now)"
    by (simp add: promote_pending_photo_def promoted_def [abs_def])
  ultimately show ?thesis by (simp add: change_staff_read_def)
qed

lemma drop_pending_photo_run:
  assumes "staff_ok (h_staff h)" "staff_by_id tn sid h = Some r"
  shows "set_pending_photo tn sid None None None h = Inr (write_staff tn sid unpended h, True)"
proof -
  have "set_pending_photo tn sid None None None = change_staff tn sid (\<lambda>_. True) unpended"
    by (simp add: set_pending_photo_def unpended_def [abs_def] fun_eq_iff)
  with assms show ?thesis by (simp add: change_staff_holds)
qed

text \<open>C31. Only the image that was declared goes live. Whatever other requests committed while the object
  store was asked: if the object has the declared content type and its first bytes carry that type's
  signature (JPEG, PNG or WebP), and the upload is still the pending one, it becomes the photo shown and the
  one it replaces is handed back for deletion; if the store shows another type or other bytes, the answer is
  the mismatch, and the upload, when still pending, is forgotten; in every other case the answer is an error
  or the row as it stands. No photo is shown or dropped but so, and nobody else's row changes.\<close>

theorem confirm_shows_verified_bytes:
  assumes "so_configured so" "staff_by_id tn sid h = Some target"
    and "su_pending target = Some key" "su_pending_type target = Some ctype"
    and "staff_ok (h_staff (between h))" "staff_by_id tn sid (between h) = Some current"
    and "confirm_photo so tn sid now between h = (h', r)"
  shows "(if genuine so key ctype \<and> su_pending current = Some key then
            r = Inr (promoted now current,
                     case su_photo current of None \<Rightarrow> [] | Some old \<Rightarrow> if old \<noteq> key then [old] else [])
            \<and> staff_by_id tn sid h' = Some (promoted now current)
          else if refuted so key ctype \<and> su_pending current = Some key then
            r = Inl (Media_error Media_mismatch) \<and> staff_by_id tn sid h' = Some (unpended current)
          else h' = between h \<and>
            (if genuine so key ctype then r = Inr (current, [])
             else if refuted so key ctype then r = Inl (Media_error Media_mismatch)
             else \<exists>err. r = Inl err))
    \<and> (\<forall>i. i \<noteq> sid \<longrightarrow> staff_by_id tn i h' = staff_by_id tn i (between h))"
proof -
  consider (gen) bytes where "so_head so key = Inr (Some ctype)" "so_prefix so key = Inr bytes" "image_bytes ctype bytes"
    | (type) actual where "so_head so key = Inr (Some actual)" "actual \<noteq> ctype"
    | (bytes) bytes where "so_head so key = Inr (Some ctype)" "so_prefix so key = Inr bytes" "\<not> image_bytes ctype bytes"
    | (head) "so_head so key = Inr None" | (head_err) err where "so_head so key = Inl err"
    | (prefix_err) err where "so_head so key = Inr (Some ctype)" "so_prefix so key = Inl err"
    by (cases "so_head so key"; cases "so_prefix so key") (auto simp: not_None_eq [symmetric])
  then show ?thesis
  proof cases
    case (gen bytes)
    then have g: "genuine so key ctype" by (auto simp: genuine_def)
    have run: "finish_confirm tn sid key now (between h) = (h', r)"
      using assms(1-4,7) gen by (simp add: confirm_photo_def matches_magic_prefix_iff)
    show ?thesis
    proof (cases "su_pending current = Some key")
      case True
      with run assms(6) promote_pending_photo_run [OF assms(5,6), of now] g show ?thesis
        by (auto simp: finish_confirm_def staff_by_id_write)
    next
      case False
      with run assms(6) g show ?thesis by (simp add: finish_confirm_def)
    qed
  next
    case (type actual)
    then have "refuted so key ctype" "\<not> genuine so key ctype" by (auto simp: refuted_def genuine_def)
    moreover have "reject_photo tn sid key (between h) = (h', r)"
      using assms(1-4,7) type by (simp add: confirm_photo_def)
    ultimately show ?thesis
      using assms(6) drop_pending_photo_run [OF assms(5,6)]
      by (cases "su_pending current = Some key") (auto simp: reject_photo_def staff_by_id_write)
  next
    case (bytes bytes)
    then have "refuted so key ctype" "\<not> genuine so key ctype" by (auto simp: refuted_def genuine_def)
    moreover have "reject_photo tn sid key (between h) = (h', r)"
      using assms(1-4,7) bytes by (simp add: confirm_photo_def matches_magic_prefix_iff)
    ultimately show ?thesis
      using assms(6) drop_pending_photo_run [OF assms(5,6)]
      by (cases "su_pending current = Some key") (auto simp: reject_photo_def staff_by_id_write)
  next
    case head
    then have "\<not> refuted so key ctype" "\<not> genuine so key ctype" by (auto simp: refuted_def genuine_def)
    with head assms(1-4,7) show ?thesis by (auto simp: confirm_photo_def)
  next
    case (head_err err)
    then have "\<not> refuted so key ctype" "\<not> genuine so key ctype" by (auto simp: refuted_def genuine_def)
    with head_err assms(1-4,7) show ?thesis by (auto simp: confirm_photo_def)
  next
    case (prefix_err err)
    then have "\<not> refuted so key ctype" "\<not> genuine so key ctype" by (auto simp: refuted_def genuine_def)
    with prefix_err assms(1-4,7) show ?thesis by (auto simp: confirm_photo_def)
  qed
qed

definition jpeg_store :: storage where
  "jpeg_store = \<lparr>so_configured = True, so_head = (\<lambda>_. Inr (Some ''image/jpeg'')),
     so_prefix = (\<lambda>_. Inr [255, 216, 255, 224]), so_presign = (\<lambda>_. Inr ())\<rparr>"

theorem confirm_shows_verified_bytes_witness:
  "\<exists>h' shown. confirm_photo jpeg_store 7 2 5 (\<lambda>h. h) front_desk = (h', Inr (shown, []))
     \<and> staff_by_id 7 2 h' = Some shown \<and> su_photo shown = Some (7, 2, 9, ''.jpg'')"
proof -
  let ?key = "(7, 2, 9, ''.jpg'') :: photo_key" and ?row = "h_staff front_desk ! 1"
  have r: "so_configured jpeg_store" "staff_by_id 7 2 front_desk = Some ?row" "su_pending ?row = Some ?key"
    "su_pending_type ?row = Some ''image/jpeg''" "staff_ok (h_staff front_desk)" "su_photo ?row = None"
    by code_simp+
  have g: "genuine jpeg_store ?key ''image/jpeg''"
    by (simp add: genuine_def jpeg_store_def image_bytes_def)
  obtain h' x where run: "confirm_photo jpeg_store 7 2 5 (\<lambda>h. h) front_desk = (h', x)" by fastforce
  from confirm_shows_verified_bytes [OF r(1-5) r(2) run] g r(3,6)
  have "x = Inr (promoted 5 ?row, [])" "staff_by_id 7 2 h' = Some (promoted 5 ?row)" by simp_all
  with run r(3) show ?thesis by (simp add: promoted_def)
qed

end
