(* ===== verification/Json.thy ===== *)
theory Json
  imports Prelude
begin

text \<open>
  Tenant settings are a JSON object the code only reads by key and by type: a value is one of these
  forms, and a block is an object stored under a key of the settings.
\<close>

datatype json = J_null | J_bool bool | J_int int | J_float | J_string string | J_object "(string \<times> json) list"

definition block_of :: "string \<Rightarrow> (string \<times> json) list \<Rightarrow> (string \<times> json) list" where
  "block_of name settings = (case map_of settings name of Some (J_object xs) \<Rightarrow> xs | _ \<Rightarrow> [])"

definition block :: "string \<Rightarrow> string \<Rightarrow> (string \<times> json) list \<Rightarrow> json option" where
  "block name key settings = map_of (block_of name settings) key"

end
