(* ===== verification/Atelier.thy ===== *)
theory Atelier
  imports Staff Booking_Service Json "HOL-Library.List_Lexorder"
begin

text \<open>
  The alterations workshop (\<open>app/atelier/service.py\<close>, \<open>stages.py\<close>, \<open>validation.py\<close>, \<open>schemas.py\<close> and
  \<open>app/db/repositories/alteration_tickets.py\<close>). A ticket has one timestamp column per stage; its
  stage is the last column that is set. Advancing sets a column nothing later is set beside, undoing clears
  the last one: the columns are a stack, which is what \<open>stamped\<close> and the refinement below say.
\<close>

section \<open>Stages\<close>

datatype stage = Intake | In_progress | Quality_check | Ready | Delivered

definition stages :: "stage list" where
  "stages = [Intake, In_progress, Quality_check, Ready, Delivered]"

fun stage_at :: "stage \<Rightarrow> alteration \<Rightarrow> instant option" where
  "stage_at Intake r = al_intake_at r"
| "stage_at In_progress r = al_in_progress_at r"
| "stage_at Quality_check r = al_qc_at r"
| "stage_at Ready r = al_ready_at r"
| "stage_at Delivered r = al_delivered_at r"

fun set_stage :: "stage \<Rightarrow> instant option \<Rightarrow> alteration \<Rightarrow> alteration" where
  "set_stage Intake at r = r\<lparr>al_intake_at := at\<rparr>"
| "set_stage In_progress at r = r\<lparr>al_in_progress_at := at\<rparr>"
| "set_stage Quality_check at r = r\<lparr>al_qc_at := at\<rparr>"
| "set_stage Ready at r = r\<lparr>al_ready_at := at\<rparr>"
| "set_stage Delivered at r = r\<lparr>al_delivered_at := at\<rparr>"

definition stage_of :: "alteration \<Rightarrow> stage" where
  "stage_of r = foldl (\<lambda>current st. if stage_at st r \<noteq> None then st else current) Intake stages"

fun index_of :: "stage \<Rightarrow> stage list \<Rightarrow> nat" where
  "index_of st [] = 0"
| "index_of st (x # xs) = (if x = st then 0 else index_of st xs + 1)"

definition later_stages :: "stage \<Rightarrow> stage list" where
  "later_stages target = drop (index_of target stages + 1) stages"

definition nothing_after :: "stage \<Rightarrow> alteration \<Rightarrow> bool" where
  "nothing_after st r \<longleftrightarrow> list_all (\<lambda>x. stage_at x r = None) (later_stages st)"

definition cleared_through :: "alteration \<Rightarrow> stage \<Rightarrow> bool" where
  "cleared_through r st \<longleftrightarrow> stage_at st r = None \<and> nothing_after st r"

section \<open>Effort and capacity settings\<close>

datatype effort_band = Thirty_min | One_hour | Two_hours | Half_day | Full_day

definition MAX_BAND_MINUTES :: int where "MAX_BAND_MINUTES = 1440"
definition MAX_WEEKLY_CAPACITY_HOURS :: int where "MAX_WEEKLY_CAPACITY_HOURS = 168"

fun default_minutes :: "effort_band \<Rightarrow> int" where
  "default_minutes Thirty_min = 30"
| "default_minutes One_hour = 60"
| "default_minutes Two_hours = 120"
| "default_minutes Half_day = 240"
| "default_minutes Full_day = 480"

fun band_name :: "effort_band \<Rightarrow> string" where
  "band_name Thirty_min = ''thirty_min''"
| "band_name One_hour = ''one_hour''"
| "band_name Two_hours = ''two_hours''"
| "band_name Half_day = ''half_day''"
| "band_name Full_day = ''full_day''"

definition positive_int :: "json option \<Rightarrow> int \<Rightarrow> int" where
  "positive_int v d =
     (case v of
        Some (J_int n) \<Rightarrow> if n \<le> 0 \<or> n > MAX_BAND_MINUTES then d else n
      | _ \<Rightarrow> d)"

definition effort_bands :: "(string \<times> json) list \<Rightarrow> effort_band \<Rightarrow> int" where
  "effort_bands settings band =
     (let stored = (case block ''atelier'' ''effort_bands'' settings of Some (J_object xs) \<Rightarrow> xs | _ \<Rightarrow> []) in
      positive_int (map_of stored (band_name band)) (default_minutes band))"

definition default_capacity_hours :: "(string \<times> json) list \<Rightarrow> int option" where
  "default_capacity_hours settings =
     (case block ''atelier'' ''default_weekly_capacity_hours'' settings of
        Some (J_int n) \<Rightarrow> if 0 \<le> n \<and> n \<le> MAX_WEEKLY_CAPACITY_HOURS then Some n else None
      | _ \<Rightarrow> None)"

definition resolve_capacity :: "staff_user \<Rightarrow> int option \<Rightarrow> int option \<times> bool" where
  "resolve_capacity r tenant_default =
     (case su_capacity r of
        Some n \<Rightarrow> (Some n, False)
      | None \<Rightarrow> (tenant_default, tenant_default \<noteq> None))"

section \<open>The repository\<close>

definition alteration_named :: "uuid \<Rightarrow> uuid \<Rightarrow> alteration \<Rightarrow> bool" where
  "alteration_named tn i r \<longleftrightarrow> al_tenant r = tn \<and> al_id r = i \<and> \<not> al_deleted r"

definition alteration_by_id :: "uuid \<Rightarrow> uuid \<Rightarrow> house \<Rightarrow> alteration option" where
  "alteration_by_id tn i h = find (alteration_named tn i) (h_alterations h)"

definition insert_alteration ::
  "uuid \<Rightarrow> uuid \<Rightarrow> date \<Rightarrow> int \<Rightarrow> instant \<Rightarrow> uuid option \<Rightarrow> uuid option \<Rightarrow> utext option \<Rightarrow> utext option
   \<Rightarrow> utext option \<Rightarrow> house \<Rightarrow> error + house \<times> alteration" where
  "insert_alteration tn cust due effort at assignee dress_id dname dsize notes h =
     add_row h_alterations h_alterations_update alterations_ok
       (\<lambda>i. \<lparr>al_id = i, al_tenant = tn, al_customer = cust, al_due = due, al_effort = effort,
             al_assignee = assignee, al_dress = dress_id, al_dress_name = dname, al_dress_size = dsize,
             al_notes = notes, al_intake_at = Some at, al_in_progress_at = None, al_qc_at = None,
             al_ready_at = None, al_delivered_at = None, al_created_at = h_now h, al_deleted = False\<rparr>) h"

text \<open>UPDATE .. RETURNING id, then the row read again whether or not it was hit.\<close>

definition change_alteration ::
  "uuid \<Rightarrow> uuid \<Rightarrow> (alteration \<Rightarrow> bool) \<Rightarrow> (alteration \<Rightarrow> alteration) \<Rightarrow> house
   \<Rightarrow> error + house \<times> bool \<times> alteration option" where
  "change_alteration tn i guard f h =
     andthen (change_rows h_alterations h_alterations_update alterations_ok
                (\<lambda>r. alteration_named tn i r \<and> guard r) f h)
       (\<lambda>(h', wrote). Inr (h', wrote, alteration_by_id tn i h'))"

definition advance_stage ::
  "uuid \<Rightarrow> uuid \<Rightarrow> stage \<Rightarrow> instant \<Rightarrow> house \<Rightarrow> error + house \<times> bool \<times> alteration option" where
  "advance_stage tn i target at =
     change_alteration tn i (\<lambda>r. stage_at target r = None \<and> nothing_after target r) (set_stage target (Some at))"

definition undo_stage ::
  "uuid \<Rightarrow> uuid \<Rightarrow> stage \<Rightarrow> house \<Rightarrow> error + house \<times> bool \<times> alteration option" where
  "undo_stage tn i st =
     change_alteration tn i (\<lambda>r. stage_at st r \<noteq> None \<and> nothing_after st r) (set_stage st None)"

definition claim_alteration ::
  "uuid \<Rightarrow> uuid \<Rightarrow> uuid \<Rightarrow> house \<Rightarrow> error + house \<times> bool \<times> alteration option" where
  "claim_alteration tn i who =
     change_alteration tn i (\<lambda>r. al_assignee r = None) (\<lambda>r. r\<lparr>al_assignee := Some who\<rparr>)"

definition release_alteration ::
  "uuid \<Rightarrow> uuid \<Rightarrow> uuid \<Rightarrow> house \<Rightarrow> error + house \<times> bool \<times> alteration option" where
  "release_alteration tn i who =
     change_alteration tn i (\<lambda>r. al_assignee r = Some who) (\<lambda>r. r\<lparr>al_assignee := None\<rparr>)"

definition assign_alteration ::
  "uuid \<Rightarrow> uuid \<Rightarrow> uuid option \<Rightarrow> house \<Rightarrow> error + house \<times> bool \<times> alteration option" where
  "assign_alteration tn i who =
     change_alteration tn i (\<lambda>_. True) (\<lambda>r. r\<lparr>al_assignee := who\<rparr>)"

definition edited ::
  "date \<Rightarrow> int \<Rightarrow> uuid option \<Rightarrow> utext option \<Rightarrow> utext option \<Rightarrow> utext option \<Rightarrow> alteration \<Rightarrow> alteration" where
  "edited due effort dress_id dname dsize notes r =
     r\<lparr>al_due := due, al_effort := effort, al_dress := dress_id, al_dress_name := dname,
       al_dress_size := dsize, al_notes := notes\<rparr>"

definition update_alteration ::
  "uuid \<Rightarrow> uuid \<Rightarrow> date \<Rightarrow> int \<Rightarrow> uuid option \<Rightarrow> utext option \<Rightarrow> utext option \<Rightarrow> utext option \<Rightarrow> house
   \<Rightarrow> error + house \<times> alteration option" where
  "update_alteration tn i due effort dress_id dname dsize notes h =
     andthen (change_alteration tn i (\<lambda>_. True) (edited due effort dress_id dname dsize notes) h)
       (\<lambda>(h', wrote, r). Inr (h', if wrote then r else None))"

definition delete_alteration_row :: "uuid \<Rightarrow> uuid \<Rightarrow> house \<Rightarrow> error + house \<times> bool" where
  "delete_alteration_row tn i =
     change_rows h_alterations h_alterations_update alterations_ok (alteration_named tn i)
       (\<lambda>r. r\<lparr>al_deleted := True\<rparr>)"

definition DELIVERED_WINDOW_DAYS :: int where "DELIVERED_WINDOW_DAYS = 7"
definition BOARD_TICKET_LIMIT :: nat where "BOARD_TICKET_LIMIT = 500"

definition board_rows :: "zone \<Rightarrow> uuid \<Rightarrow> date \<Rightarrow> house \<Rightarrow> alteration list \<times> bool" where
  "board_rows z tn today h =
     (let cutoff = midnight z (today - DELIVERED_WINDOW_DAYS);
          rows = take (BOARD_TICKET_LIMIT + 1)
                   (sort_key (\<lambda>r. (al_due r, al_created_at r, al_id r))
                     (filter (\<lambda>r. al_tenant r = tn \<and> \<not> al_deleted r
                        \<and> (case al_delivered_at r of None \<Rightarrow> True | Some t \<Rightarrow> t \<ge> cutoff)) (h_alterations h))) in
      (take BOARD_TICKET_LIMIT rows, length rows > BOARD_TICKET_LIMIT))"

definition on_bench :: "uuid \<Rightarrow> alteration \<Rightarrow> bool" where
  "on_bench tn r \<longleftrightarrow> al_tenant r = tn \<and> \<not> al_deleted r \<and> al_delivered_at r = None"

text \<open>\<open>GROUP BY assignee\<close>: minutes due by the horizon, minutes in all; a missing group reads as zeros.\<close>

definition load_of :: "uuid \<Rightarrow> date \<Rightarrow> house \<Rightarrow> uuid option \<Rightarrow> int \<times> int" where
  "load_of tn horizon h who =
     (let rows = filter (\<lambda>r. on_bench tn r \<and> al_assignee r = who) (h_alterations h) in
      (sum_list (map al_effort (filter (\<lambda>r. al_due r \<le> horizon) rows)), sum_list (map al_effort rows)))"

text \<open>Names sort by code point, the database's C collation.\<close>

definition bench_assignees :: "uuid \<Rightarrow> house \<Rightarrow> staff_user list" where
  "bench_assignees tn h =
     sort_key (\<lambda>s. (su_name s, su_id s)) (filter (\<lambda>s. su_tenant s = tn
        \<and> (list_ex (\<lambda>r. on_bench tn r \<and> al_assignee r = Some (su_id s)) (h_alterations h)
           \<or> (\<not> su_deleted s \<and> su_role s = Seamstress))) (h_staff h))"

section \<open>The service\<close>

definition MAX_DRESS_LABEL_LENGTH :: nat where "MAX_DRESS_LABEL_LENGTH = 200"
definition MAX_DRESS_SIZE_LENGTH :: nat where "MAX_DRESS_SIZE_LENGTH = 40"
definition MAX_DUE_DATE_HORIZON_DAYS :: int where "MAX_DUE_DATE_HORIZON_DAYS = 730"
definition LOAD_HORIZON_DAYS :: int where "LOAD_HORIZON_DAYS = 7"

definition elevated :: "staff_context \<Rightarrow> bool" where
  "elevated actor \<longleftrightarrow> sc_role actor \<in> set ELEVATED_ROLES"

definition bounded :: "utext option \<Rightarrow> nat \<Rightarrow> string \<Rightarrow> error + unit" where
  "bounded val limit field =
     (case val of
        None \<Rightarrow> Inr ()
      | Some v \<Rightarrow>
          andthen (ensure (Domain_validation (field @ '' is too long'')) (length v \<le> limit)) (\<lambda>_.
          ensure (Domain_validation (field @ '' contains invalid characters'')) (\<not> list_ex control_char v)))"

definition validate_ticket_fields ::
  "date \<Rightarrow> uuid option \<Rightarrow> utext option \<Rightarrow> utext option \<Rightarrow> utext option \<Rightarrow> date \<Rightarrow> error + unit" where
  "validate_ticket_fields due dress_id dname dsize notes today =
     andthen (ensure (Domain_validation ''due_date is too far in the future'')
                (\<not> due > today + MAX_DUE_DATE_HORIZON_DAYS)) (\<lambda>_.
     andthen (ensure (Domain_validation ''dress_name is not allowed with dress_id'')
                (\<not> (dress_id \<noteq> None \<and> dname \<noteq> None))) (\<lambda>_.
     andthen (bounded dname MAX_DRESS_LABEL_LENGTH ''dress_name'') (\<lambda>_.
     andthen (bounded dsize MAX_DRESS_SIZE_LENGTH ''dress_size'') (\<lambda>_.
     (case notes of
        None \<Rightarrow> Inr ()
      | Some n \<Rightarrow>
          andthen (ensure (Domain_validation ''notes is too long'') (length n \<le> MAX_BOOKING_NOTES_LENGTH)) (\<lambda>_.
          ensure (Domain_validation ''notes contains invalid characters'') (\<not> list_ex control_char_except_ws n)))))))"

definition require_seamstress :: "uuid \<Rightarrow> uuid \<Rightarrow> house \<Rightarrow> error + staff_user" where
  "require_seamstress tn sid h =
     (case staff_by_id tn sid h of
        None \<Rightarrow> Inl (Domain_validation ''staff_user_id must be a live seamstress'')
      | Some s \<Rightarrow>
          if su_role s \<noteq> Seamstress then Inl (Domain_validation ''staff_user_id must be a live seamstress'')
          else Inr s)"

definition resolve_dress_name :: "uuid \<Rightarrow> uuid option \<Rightarrow> utext option \<Rightarrow> house \<Rightarrow> error + utext option" where
  "resolve_dress_name tn dress_id dname h =
     (case dress_id of
        None \<Rightarrow> Inr dname
      | Some i \<Rightarrow>
          (case dress_by_id tn i (h_db h) of
             None \<Rightarrow> Inl (Domain_not_found ''dress'')
           | Some g \<Rightarrow> Inr (Some (g_name g))))"

text \<open>The upsert runs in a savepoint; if it loses a race, the customer that won is used as she is.\<close>

definition resolve_customer :: "uuid \<Rightarrow> utext \<Rightarrow> utext \<Rightarrow> house \<Rightarrow> error + house \<times> customer \<times> bool" where
  "resolve_customer tn phone name h =
     (let existing = customer_by_phone tn phone (h_db h);
          renamed = (case existing of None \<Rightarrow> False | Some c \<Rightarrow> c_name c \<noteq> name) in
      case upsert_customer tn phone name (h_db h) of
        Inr (s', c) \<Rightarrow> Inr (h\<lparr>h_db := s'\<rparr>, c, renamed)
      | Inl err \<Rightarrow>
          if err \<noteq> Integrity_error then Inl err
          else (case customer_by_phone tn phone (h_db h) of
                  None \<Rightarrow> Inl err
                | Some c \<Rightarrow> Inr (h, c, False)))"

text \<open>What a response shows of a ticket beside its columns.\<close>

record ticket_view =
  tv_row :: alteration
  tv_customer :: utext
  tv_overdue :: bool
  tv_stage :: stage

definition from_row :: "alteration \<Rightarrow> utext \<Rightarrow> date \<Rightarrow> ticket_view" where
  "from_row r customer_name today =
     \<lparr>tv_row = r, tv_customer = customer_name,
      tv_overdue = (al_delivered_at r = None \<and> al_due r < today), tv_stage = stage_of r\<rparr>"

definition customer_name_of :: "uuid \<Rightarrow> alteration \<Rightarrow> house \<Rightarrow> utext" where
  "customer_name_of tn r h =
     (case customer_by_id tn (al_customer r) (h_db h) of None \<Rightarrow> [] | Some c \<Rightarrow> c_name c)"

record ticket_request =
  tr_name :: utext
  tr_phone :: utext
  tr_due :: date
  tr_band :: effort_band
  tr_assignee :: "uuid option"
  tr_dress :: "uuid option"
  tr_dress_name :: "utext option"
  tr_dress_size :: "utext option"
  tr_notes :: "utext option"

definition create_alteration ::
  "env \<Rightarrow> uuid \<Rightarrow> ticket_request \<Rightarrow> (effort_band \<Rightarrow> int) \<Rightarrow> instant \<Rightarrow> house \<Rightarrow> error + house \<times> ticket_view" where
  "create_alteration e tn q bands now h =
     (let today = today_jerusalem (e_zone e) now in
      andthen (validate_customer_name (tr_name q)) (\<lambda>_.
      andthen (need Phone_invalid (normalize_israeli_mobile (tr_phone q))) (\<lambda>phone.
      andthen (validate_ticket_fields (tr_due q) (tr_dress q) (tr_dress_name q) (tr_dress_size q)
                 (tr_notes q) today) (\<lambda>_.
      andthen (resolve_dress_name tn (tr_dress q) (tr_dress_name q) h) (\<lambda>dname.
      andthen (case tr_assignee q of
                 None \<Rightarrow> Inr ()
               | Some sid \<Rightarrow> andthen (require_seamstress tn sid h) (\<lambda>_. Inr ())) (\<lambda>_.
      andthen (resolve_customer tn phone (tr_name q) h) (\<lambda>(h1, cust, renamed).
      let h2 = log_when renamed tn (Atelier_action Customer_renamed) (Some (c_id cust)) h1 in
      andthen (insert_alteration tn (c_id cust) (tr_due q) (bands (tr_band q)) now (tr_assignee q)
                 (tr_dress q) dname (tr_dress_size q) (tr_notes q) h2) (\<lambda>(h3, r).
      Inr (log tn (Atelier_action Alteration_created) (Some (al_id r)) h3,
           from_row r (c_name cust) today)))))))))"

definition edit_alteration ::
  "env \<Rightarrow> uuid \<Rightarrow> uuid \<Rightarrow> ticket_request \<Rightarrow> (effort_band \<Rightarrow> int) \<Rightarrow> staff_context \<Rightarrow> instant \<Rightarrow> house
   \<Rightarrow> error + house \<times> ticket_view" where
  "edit_alteration e tn i q bands actor now h =
     (let today = today_jerusalem (e_zone e) now in
      andthen (validate_ticket_fields (tr_due q) (tr_dress q) (tr_dress_name q) (tr_dress_size q)
                 (tr_notes q) today) (\<lambda>_.
      andthen (need (Domain_not_found ''alteration_ticket'') (alteration_by_id tn i h)) (\<lambda>r.
      andthen (ensure (Staff_error Not_authorized)
                 (elevated actor \<or> al_assignee r = Some (sc_id actor))) (\<lambda>_.
      andthen (resolve_dress_name tn (tr_dress q) (tr_dress_name q) h) (\<lambda>dname.
      let changed = (r \<noteq> edited (tr_due q) (bands (tr_band q)) (tr_dress q) dname (tr_dress_size q) (tr_notes q) r) in
      andthen (update_alteration tn i (tr_due q) (bands (tr_band q)) (tr_dress q) dname
                 (tr_dress_size q) (tr_notes q) h) (\<lambda>(h', refreshed).
      andthen (need (Domain_not_found ''alteration_ticket'') refreshed) (\<lambda>r'.
      let h2 = log_when changed tn (Atelier_action Alteration_updated) (Some i) h' in
      Inr (h2, from_row r' (customer_name_of tn r' h2) today))))))))"

definition authorize_work :: "alteration \<Rightarrow> staff_context \<Rightarrow> error + unit" where
  "authorize_work r actor =
     ensure (Staff_error Not_authorized)
       (elevated actor \<or> al_assignee r = None \<or> al_assignee r = Some (sc_id actor))"

definition advance ::
  "env \<Rightarrow> uuid \<Rightarrow> uuid \<Rightarrow> stage \<Rightarrow> staff_context \<Rightarrow> instant \<Rightarrow> house \<Rightarrow> error + house \<times> ticket_view" where
  "advance e tn i target actor now h =
     andthen (need (Domain_not_found ''alteration_ticket'') (alteration_by_id tn i h)) (\<lambda>r.
     andthen (authorize_work r actor) (\<lambda>_.
     andthen (advance_stage tn i target now h) (\<lambda>(h', wrote, refreshed).
     andthen (need (Domain_not_found ''alteration_ticket'') refreshed) (\<lambda>r'.
     andthen (ensure (Floor_error Ticket_stage_conflict) (wrote \<or> stage_of r' = target)) (\<lambda>_.
     let h2 = log_when wrote tn (Atelier_action Stage_advanced) (Some i) h' in
     Inr (h2, from_row r' (customer_name_of tn r' h2) (today_jerusalem (e_zone e) now)))))))"

definition undo ::
  "env \<Rightarrow> uuid \<Rightarrow> uuid \<Rightarrow> stage \<Rightarrow> staff_context \<Rightarrow> instant \<Rightarrow> house \<Rightarrow> error + house \<times> ticket_view" where
  "undo e tn i st actor now h =
     andthen (ensure (Domain_validation ''intake cannot be undone'') (st \<noteq> Intake)) (\<lambda>_.
     andthen (need (Domain_not_found ''alteration_ticket'') (alteration_by_id tn i h)) (\<lambda>r.
     andthen (authorize_work r actor) (\<lambda>_.
     andthen (undo_stage tn i st h) (\<lambda>(h', wrote, refreshed).
     andthen (need (Domain_not_found ''alteration_ticket'') refreshed) (\<lambda>r'.
     andthen (ensure (Floor_error Ticket_stage_conflict) (wrote \<or> cleared_through r' st)) (\<lambda>_.
     let h2 = log_when wrote tn (Atelier_action Stage_undone) (Some i) h' in
     Inr (h2, from_row r' (customer_name_of tn r' h2) (today_jerusalem (e_zone e) now))))))))"

definition assign_work ::
  "env \<Rightarrow> uuid \<Rightarrow> uuid \<Rightarrow> uuid option \<Rightarrow> staff_context \<Rightarrow> instant \<Rightarrow> house \<Rightarrow> error + house \<times> ticket_view" where
  "assign_work e tn i target actor now h =
     andthen (ensure (Staff_error Not_authorized)
                (elevated actor \<or> target = None \<or> target = Some (sc_id actor))) (\<lambda>_.
     andthen (case target of
                None \<Rightarrow> Inr ()
              | Some sid \<Rightarrow> andthen (require_seamstress tn sid h) (\<lambda>_. Inr ())) (\<lambda>_.
     andthen (need (Domain_not_found ''alteration_ticket'') (alteration_by_id tn i h)) (\<lambda>r.
     andthen (if elevated actor then assign_alteration tn i target h
              else if target = None then release_alteration tn i (sc_id actor) h
              else claim_alteration tn i (sc_id actor) h) (\<lambda>(h', wrote, refreshed).
     andthen (need (Domain_not_found ''alteration_ticket'') refreshed) (\<lambda>r'.
     andthen (ensure (Floor_error Ticket_already_assigned)
                (elevated actor \<or> wrote
                 \<or> (if target = None then al_assignee r' = None else al_assignee r' = Some (sc_id actor)))) (\<lambda>_.
     let h2 = log_when (al_assignee r' \<noteq> al_assignee r) tn (Atelier_action Alteration_assigned) (Some i) h' in
     Inr (h2, from_row r' (customer_name_of tn r' h2) (today_jerusalem (e_zone e) now))))))))"

definition delete_alteration :: "uuid \<Rightarrow> uuid \<Rightarrow> house \<Rightarrow> error + house \<times> unit" where
  "delete_alteration tn i h =
     andthen (need (Domain_not_found ''alteration_ticket'') (alteration_by_id tn i h)) (\<lambda>r.
     andthen (delete_alteration_row tn i h) (\<lambda>(h', hit).
     andthen (ensure (Domain_not_found ''alteration_ticket'') hit) (\<lambda>_.
     Inr (log tn (Atelier_action Alteration_deleted) (Some i) h', ()))))"

record capacity_view =
  cv_id :: uuid
  cv_name :: utext
  cv_assignable :: bool
  cv_hours :: "int option"
  cv_is_default :: bool

definition capacity_from_row :: "staff_user \<Rightarrow> int option \<Rightarrow> capacity_view" where
  "capacity_from_row r tenant_default =
     \<lparr>cv_id = su_id r, cv_name = su_name r,
      cv_assignable = (\<not> su_deleted r \<and> su_role r = Seamstress),
      cv_hours = fst (resolve_capacity r tenant_default),
      cv_is_default = snd (resolve_capacity r tenant_default)\<rparr>"

definition set_capacity ::
  "uuid \<Rightarrow> uuid \<Rightarrow> int option \<Rightarrow> int option \<Rightarrow> house \<Rightarrow> error + house \<times> capacity_view" where
  "set_capacity tn sid hrs tenant_default h =
     andthen (require_seamstress tn sid h) (\<lambda>r.
     andthen (set_weekly_capacity tn sid hrs h) (\<lambda>(h', refreshed).
     andthen (need (Domain_not_found ''staff_user'') refreshed) (\<lambda>r'.
     Inr (log_when (su_capacity r' \<noteq> su_capacity r) tn (Atelier_action Capacity_set) (Some sid) h',
          capacity_from_row r' tenant_default))))"

section \<open>The board\<close>

record board_view =
  bv_tickets :: "ticket_view list"
  bv_bench :: "(capacity_view \<times> int \<times> int) list"
  bv_truncated :: bool
  bv_unassigned :: int
  bv_due_soon_through :: date

definition atelier_board :: "env \<Rightarrow> uuid \<Rightarrow> int option \<Rightarrow> instant \<Rightarrow> house \<Rightarrow> board_view" where
  "atelier_board e tn tenant_default now h =
     (let today = today_jerusalem (e_zone e) now; horizon = today + LOAD_HORIZON_DAYS;
          (rows, truncated) = board_rows (e_zone e) tn today h in
      \<lparr>bv_tickets = map (\<lambda>r. from_row r (customer_name_of tn r h) today) rows,
       bv_bench = map (\<lambda>s. let (due_soon, assigned) = load_of tn horizon h (Some (su_id s)) in
                            (capacity_from_row s tenant_default, assigned, due_soon)) (bench_assignees tn h),
       bv_truncated = truncated,
       bv_unassigned = snd (load_of tn horizon h None),
       bv_due_soon_through = horizon\<rparr>)"

section \<open>The table\<close>

interpretation al: house_table al_id al_tenant al_deleted alterations_ok h_alterations h_alterations_update
  by unfold_locales (simp_all add: alterations_ok_def)

lemma alteration_named_named: "alteration_named = al.named"
  by (auto simp: alteration_named_def al.named_def fun_eq_iff)

lemma alteration_by_id_row: "alteration_by_id = al.row"
  by (simp add: alteration_by_id_def al.row_def al.fetch_def alteration_named_named fun_eq_iff)

definition write_alteration :: "uuid \<Rightarrow> uuid \<Rightarrow> (alteration \<Rightarrow> alteration) \<Rightarrow> house \<Rightarrow> house" where
  "write_alteration tn i f h = h\<lparr>h_alterations := update_where (alteration_named tn i) f (h_alterations h)\<rparr>"

lemma write_alteration_put: "write_alteration = al.put"
  by (simp add: fun_eq_iff write_alteration_def al.put_def alteration_named_named)

definition keeps_effort :: "(alteration \<Rightarrow> alteration) \<Rightarrow> bool" where
  "keeps_effort f \<longleftrightarrow> (\<forall>r. al_effort (f r) = al_effort r)"

lemma change_alteration_run:
  assumes "alterations_ok (h_alterations h)" "al.keeps_name f" "keeps_effort f"
  shows "change_alteration tn i g f h =
    (case alteration_by_id tn i h of
       None \<Rightarrow> Inr (h, False, None)
     | Some r \<Rightarrow> if g r then Inr (write_alteration tn i f h, True, Some (f r)) else Inr (h, False, Some r))"
proof -
  have ok: "alterations_ok (h_alterations (al.put tn i f h))"
    using assms(1,3) unfolding al.get_put alterations_ok_def keeps_effort_def
    by (auto simp: list_all_iff set_update_where map_update_where assms(2) [unfolded al.keeps_name_def])
  show ?thesis
    unfolding change_alteration_def alteration_named_named al.change_run [OF assms(1)]
      alteration_by_id_row write_alteration_put
    using ok by (auto simp: al.row_put [OF assms(2)] split: option.splits)
qed

section \<open>Stages as a stack\<close>

definition rank :: "stage \<Rightarrow> nat" where
  "rank st = index_of st stages"

lemma rank_simps [simp]:
  "rank Intake = 0" "rank In_progress = 1" "rank Quality_check = 2" "rank Ready = 3" "rank Delivered = 4"
  by (simp_all add: rank_def stages_def)

lemma rank_inj: "rank a = rank b \<longleftrightarrow> a = b"
  by (cases a; cases b) simp_all

instantiation stage :: linorder
begin

definition less_eq_stage :: "stage \<Rightarrow> stage \<Rightarrow> bool" where
  "less_eq_stage a b \<longleftrightarrow> rank a \<le> rank b"

definition less_stage :: "stage \<Rightarrow> stage \<Rightarrow> bool" where
  "less_stage a b \<longleftrightarrow> rank a < rank b"

instance
  by standard (auto simp: less_eq_stage_def less_stage_def rank_inj)

end

text \<open>The stack a ticket stands for: the stages stamped, the last one on top.\<close>

definition stamped :: "alteration \<Rightarrow> stage list" where
  "stamped r = filter (\<lambda>st. stage_at st r \<noteq> None) (rev stages)"

definition push :: "stage \<Rightarrow> stage list \<Rightarrow> stage list option" where
  "push st xs = (if \<forall>x\<in>set xs. x < st then Some (st # xs) else None)"

fun pop :: "stage \<Rightarrow> stage list \<Rightarrow> stage list option" where
  "pop st [] = None"
| "pop st (x # xs) = (if x = st then Some xs else None)"

fun top :: "stage list \<Rightarrow> stage" where
  "top [] = Intake"
| "top (x # xs) = x"

lemma later_stages_simps [simp]:
  "later_stages Intake = [In_progress, Quality_check, Ready, Delivered]"
  "later_stages In_progress = [Quality_check, Ready, Delivered]"
  "later_stages Quality_check = [Ready, Delivered]" "later_stages Ready = [Delivered]"
  "later_stages Delivered = []"
  by (simp_all add: later_stages_def stages_def)

lemma stage_at_set [simp]: "stage_at a (set_stage b at r) = (if a = b then at else stage_at a r)"
  by (cases a; cases b) simp_all

lemma set_stage_simps [simp]: "al.keeps_name (set_stage st at)" "keeps_effort (set_stage st at)"
  by (cases st; simp add: al.keeps_name_def keeps_effort_def)+

lemma set_stage_back: "stage_at st r = at \<Longrightarrow> set_stage st at (set_stage st at' r) = r"
  by (cases st) simp_all

lemma stage_of_top: "stage_of r = top (stamped r)"
  by (simp add: stage_of_def stamped_def stages_def)

lemma stamped_decreasing: "sorted_wrt (>) (stamped r)"
  by (auto simp: stamped_def stages_def less_stage_def)

lemma advance_guard: "stage_at st r = None \<and> nothing_after st r \<longleftrightarrow> (\<forall>x\<in>set (stamped r). x < st)"
  by (cases st) (auto simp: stamped_def stages_def nothing_after_def less_stage_def)

lemma undo_guard: "stage_at st r \<noteq> None \<and> nothing_after st r \<longleftrightarrow> pop st (stamped r) \<noteq> None"
  by (cases st) (auto simp: stamped_def stages_def nothing_after_def)

lemma stamped_push: "push st (stamped r) = Some xs \<Longrightarrow> stamped (set_stage st (Some at) r) = xs"
  by (cases st) (auto simp: push_def stamped_def stages_def less_stage_def split: if_splits)

lemma stamped_pop: "pop st (stamped r) = Some xs \<Longrightarrow> stamped (set_stage st None r) = xs"
  by (cases st) (auto simp: stamped_def stages_def split: if_splits)

text \<open>C32. The stage columns implement a stack: on a live ticket, advancing is pushing the stage
  (possible exactly when every stamped stage lies before it) and undoing is popping it (possible
  exactly when it is on top); a statement that cannot push or pop changes nothing and says so; and
  the stage shown is the top of the stack.\<close>

theorem stages_refine_stack:
  assumes "alterations_ok (h_alterations h)" "alteration_by_id tn i h = Some r"
  shows "stage_of r = top (stamped r)
    \<and> (case push st (stamped r) of
         None \<Rightarrow> advance_stage tn i st at h = Inr (h, False, Some r)
       | Some xs \<Rightarrow> \<exists>h' r'. advance_stage tn i st at h = Inr (h', True, Some r') \<and> stamped r' = xs
                    \<and> alteration_by_id tn i h' = Some r')
    \<and> (case pop st (stamped r) of
         None \<Rightarrow> undo_stage tn i st h = Inr (h, False, Some r)
       | Some xs \<Rightarrow> \<exists>h' r'. undo_stage tn i st h = Inr (h', True, Some r') \<and> stamped r' = xs
                    \<and> alteration_by_id tn i h' = Some r')"
proof (intro conjI)
  have reread: "alteration_by_id tn i (write_alteration tn i (set_stage st v) h) = Some (set_stage st v r)" for v
    using assms(2) by (simp add: alteration_by_id_row write_alteration_put al.row_put)
  show "case push st (stamped r) of
         None \<Rightarrow> advance_stage tn i st at h = Inr (h, False, Some r)
       | Some xs \<Rightarrow> \<exists>h' r'. advance_stage tn i st at h = Inr (h', True, Some r') \<and> stamped r' = xs
                    \<and> alteration_by_id tn i h' = Some r'"
    unfolding advance_stage_def change_alteration_run [OF assms(1) set_stage_simps] assms(2) option.case advance_guard
    by (auto simp: reread push_def stamped_push [unfolded push_def] split: option.split)
  show "case pop st (stamped r) of
         None \<Rightarrow> undo_stage tn i st h = Inr (h, False, Some r)
       | Some xs \<Rightarrow> \<exists>h' r'. undo_stage tn i st h = Inr (h', True, Some r') \<and> stamped r' = xs
                    \<and> alteration_by_id tn i h' = Some r'"
    unfolding undo_stage_def change_alteration_run [OF assms(1) set_stage_simps] assms(2) option.case undo_guard
    by (auto simp: reread stamped_pop split: option.split)
qed (rule stage_of_top)

definition sample_alteration :: alteration where
  "sample_alteration =
     \<lparr>al_id = 5, al_tenant = 7, al_customer = 3, al_due = 739000, al_effort = 60, al_assignee = None,
      al_dress = None, al_dress_name = None, al_dress_size = None, al_notes = None,
      al_intake_at = Some 1, al_in_progress_at = None, al_qc_at = Some 2, al_ready_at = None,
      al_delivered_at = None, al_created_at = 0, al_deleted = False\<rparr>"

definition workshop :: house where
  "workshop = front_desk\<lparr>h_alterations := [sample_alteration]\<rparr>"

theorem stages_refine_stack_witness:
  "push Ready (stamped sample_alteration) = Some [Ready, Quality_check, Intake]
   \<and> (\<exists>h' r'. advance_stage 7 5 Ready 9 workshop = Inr (h', True, Some r')
        \<and> stamped r' = [Ready, Quality_check, Intake])
   \<and> undo_stage 7 5 Ready workshop = Inr (workshop, False, Some sample_alteration)"
proof -
  have a: "alterations_ok (h_alterations workshop)" by code_simp
  have r: "alteration_by_id 7 5 workshop = Some sample_alteration" by code_simp
  have p: "push Ready (stamped sample_alteration) = Some [Ready, Quality_check, Intake]"
    "pop Ready (stamped sample_alteration) = None" by code_simp+
  from stages_refine_stack [OF a r, of Ready 9] show ?thesis by (auto simp: p)
qed

lemma update_where_twice:
  assumes "\<And>r. r \<in> set rows \<Longrightarrow> P r \<Longrightarrow> P (f r) \<and> g (f r) = r"
  shows "update_where P g (update_where P f rows) = rows"
  using assms by (induction rows) auto

text \<open>C. A mistaken tap is undone without a trace: when a colleague with the same rights undoes the stage a ticket
  was just moved to, the undo succeeds and the workshop's tickets are exactly what they were, wherever
  the ticket stood before.\<close>

theorem undo_reverts_advance:
  assumes "alterations_ok (h_alterations h)" "alteration_by_id tn i h = Some r"
    and "advance e tn i st actor at h = Inr (h1, v)" "stage_of r \<noteq> st" "st \<noteq> Intake"
  shows "\<exists>h2 w. undo e tn i st actor later h1 = Inr (h2, w) \<and> h_alterations h2 = h_alterations h \<and> tv_row w = r"
proof -
  let ?on = "set_stage st (Some at)" and ?off = "set_stage st None"
  have auth: "authorize_work r actor = Inr ()"
    using assms(2,3) by (auto simp: advance_def andthen_eq_Inr)
  have g: "stage_at st r = None \<and> nothing_after st r"
    using assms(2-4)
    by (auto simp: advance_def andthen_eq_Inr advance_stage_def change_alteration_run [OF assms(1) set_stage_simps]
        split: if_splits)
  then have h1: "h_alterations h1 = h_alterations (write_alteration tn i ?on h)"
    using assms(2,3)
    by (auto simp: advance_def andthen_eq_Inr Let_def advance_stage_def log_when_def
        change_alteration_run [OF assms(1) set_stage_simps])
  have read1: "alteration_by_id tn i h1 = Some (?on r)"
    using assms(2) h1 al.row_put [OF set_stage_simps(1), of tn i tn i st "Some at" h]
    by (simp add: alteration_by_id_row write_alteration_put al.row_def)
  have ok1: "alterations_ok (h_alterations h1)"
    using assms(1) set_stage_simps [of st "Some at"] unfolding h1 alterations_ok_def
    by (auto simp: write_alteration_def list_all_iff set_update_where map_update_where al.keeps_name_def keeps_effort_def)
  have "authorize_work (?on r) actor = Inr ()" using auth by (cases st) (simp_all add: authorize_work_def)
  moreover have "stage_at st (?on r) \<noteq> None \<and> nothing_after st (?on r)"
    using g by (cases st) (auto simp: nothing_after_def)
  moreover have "?off (?on r) = r" using g by (simp add: set_stage_back)
  ultimately obtain h2 w where u: "undo e tn i st actor later h1 = Inr (h2, w)" "tv_row w = r"
    "h_alterations h2 = update_where (alteration_named tn i) ?off (h_alterations h1)"
    using read1 assms(5)
    by (simp add: undo_def undo_stage_def change_alteration_run [OF ok1 set_stage_simps] Let_def
        log_when_def from_row_def write_alteration_def)
  have "h_alterations h2 = update_where (alteration_named tn i) ?off (update_where (alteration_named tn i) ?on (h_alterations h))"
    by (simp add: u(3) h1 write_alteration_def)
  also have "\<dots> = h_alterations h"
  proof (rule update_where_twice)
    fix x assume x: "x \<in> set (h_alterations h)" "alteration_named tn i x"
    then have "x = r"
      using al.fetch_mem [OF assms(1) x(1)] assms(2)
      by (auto simp: alteration_by_id_row al.row_def alteration_named_def)
    with g x(2) set_stage_simps [of st "Some at"] show "alteration_named tn i (?on x) \<and> ?off (?on x) = x"
      by (auto simp: set_stage_back alteration_named_def al.keeps_name_def)
  qed
  finally show ?thesis using u(1,2) by blast
qed

theorem undo_reverts_advance_witness:
  "\<exists>h1 v h2 w. advance plain_env 7 5 Delivered boss 9 workshop = Inr (h1, v)
     \<and> h_alterations h1 \<noteq> h_alterations workshop
     \<and> undo plain_env 7 5 Delivered boss 20 h1 = Inr (h2, w) \<and> h_alterations h2 = h_alterations workshop"
proof -
  let ?run = "advance plain_env 7 5 Delivered boss 9 workshop"
  have r: "?run = Inr (fst (projr ?run), snd (projr ?run))"
    "h_alterations (fst (projr ?run)) \<noteq> h_alterations workshop" by code_simp+
  have a: "alterations_ok (h_alterations workshop)"
    and l: "alteration_by_id 7 5 workshop = Some sample_alteration"
    and st: "stage_of sample_alteration \<noteq> Delivered" by code_simp+
  have ne: "Delivered \<noteq> Intake" by simp
  from undo_reverts_advance [OF a l r(1) st ne, of 20] r show ?thesis by blast
qed

text \<open>C. Nobody below a manager takes work off a colleague: an assignment that succeeds leaves the ticket with exactly
  the person asked for, a live seamstress of the tenant or nobody, and unless the actor is an
  owner or shift manager it was unassigned or her own before, and is unassigned or her own after.\<close>

theorem assign_respects_ownership:
  assumes "alterations_ok (h_alterations h)" "alteration_by_id tn i h = Some r"
    and "assign_work e tn i target actor now h = Inr (h', v)"
  shows "al_assignee (tv_row v) = target
    \<and> (\<forall>sid. target = Some sid \<longrightarrow> (\<exists>s. staff_by_id tn sid h = Some s \<and> su_role s = Seamstress))
    \<and> (elevated actor \<or> {al_assignee r, target} \<subseteq> {None, Some (sc_id actor)})"
proof -
  have k: "al.keeps_name (\<lambda>r. r\<lparr>al_assignee := x\<rparr>)" "keeps_effort (\<lambda>r. r\<lparr>al_assignee := x\<rparr>)" for x
    by (simp_all add: al.keeps_name_def keeps_effort_def)
  have seam: "\<forall>sid. target = Some sid \<longrightarrow> (\<exists>s. staff_by_id tn sid h = Some s \<and> su_role s = Seamstress)"
    using assms(3) by (auto simp: assign_work_def andthen_eq_Inr require_seamstress_def split: option.splits if_splits)
  have allowed: "elevated actor \<or> target = None \<or> target = Some (sc_id actor)"
    using assms(3) by (auto simp: assign_work_def andthen_eq_Inr)
  from assms(2,3) obtain hx wrote r' where w: "(if elevated actor then assign_alteration tn i target h
      else if target = None then release_alteration tn i (sc_id actor) h
      else claim_alteration tn i (sc_id actor) h) = Inr (hx, wrote, Some r')"
    and c: "elevated actor \<or> wrote \<or> (if target = None then al_assignee r' = None else al_assignee r' = Some (sc_id actor))"
    and v: "tv_row v = r'"
    by (auto simp: assign_work_def andthen_ensure_Inr andthen_eq_Inr Let_def from_row_def)
  note runs = assign_alteration_def release_alteration_def claim_alteration_def
    change_alteration_run [OF assms(1) k] assms(2)
  show ?thesis
  proof (cases "elevated actor")
    case True
    with w have "r' = r\<lparr>al_assignee := target\<rparr>" by (auto simp: runs)
    with True v seam show ?thesis by simp
  next
    case False
    with w c allowed have "al_assignee r' = target \<and> {al_assignee r, target} \<subseteq> {None, Some (sc_id actor)}"
      by (cases "target = None") (auto simp: runs split: if_splits)
    with v seam show ?thesis by simp
  qed
qed

definition seamstress_ctx :: staff_context where
  "seamstress_ctx = \<lparr>sc_id = 2, sc_tenant = 7, sc_email = [98], sc_name = [66], sc_role = Seamstress\<rparr>"

theorem assign_respects_ownership_witness:
  "\<exists>h' v. assign_work plain_env 7 5 (Some 2) seamstress_ctx 0 workshop = Inr (h', v) \<and> al_assignee (tv_row v) = Some 2"
proof -
  let ?run = "assign_work plain_env 7 5 (Some 2) seamstress_ctx 0 workshop"
  have r: "?run = Inr (fst (projr ?run), snd (projr ?run))" by code_simp
  have a: "alterations_ok (h_alterations workshop)"
    and l: "alteration_by_id 7 5 workshop = Some sample_alteration" by code_simp+
  from assign_respects_ownership [OF a l r] r show ?thesis by blast
qed

section \<open>Every minute is on somebody's list\<close>

lemma partition_by_assignee:
  fixes g :: "alteration \<Rightarrow> int"
  assumes "distinct ids"
  shows "sum_list (map (\<lambda>i. sum_list (map g (filter (\<lambda>r. al_assignee r = Some i) rows))) ids)
    + sum_list (map g (filter (\<lambda>r. al_assignee r = None) rows))
    = sum_list (map g (filter (\<lambda>r. case al_assignee r of None \<Rightarrow> True | Some i \<Rightarrow> i \<in> set ids) rows))"
proof (induction rows)
  case (Cons r rows)
  have one: "sum_list (map (\<lambda>i. if al_assignee r = Some i then a else 0) ids)
      = (case al_assignee r of None \<Rightarrow> 0 | Some i \<Rightarrow> if i \<in> set ids then a else 0)" for a :: int
    using assms by (induction ids) (auto split: option.splits)
  have "sum_list (map (\<lambda>i. sum_list (map g (filter (\<lambda>r. al_assignee r = Some i) (r # rows)))) ids)
      = sum_list (map (\<lambda>i. (if al_assignee r = Some i then g r else 0)
          + sum_list (map g (filter (\<lambda>r. al_assignee r = Some i) rows))) ids)"
    by (intro arg_cong [where f = sum_list] map_cong) auto
  also have "\<dots> = (case al_assignee r of None \<Rightarrow> 0 | Some i \<Rightarrow> if i \<in> set ids then g r else 0)
      + sum_list (map (\<lambda>i. sum_list (map g (filter (\<lambda>r. al_assignee r = Some i) rows))) ids)"
    by (simp add: sum_list_addf one)
  finally show ?case using Cons by (simp split: option.splits)
qed simp

text \<open>C. The load panel accounts for every minute of undelivered work: what it shows on the members it
  lists and in its unassigned pool adds up to the effort of all live, undelivered tickets, when every
  assignee is a row of the staff table (rows are never hard deleted, so a leaver is still listed).\<close>

theorem load_adds_up:
  assumes "staff_ok (h_staff h)"
    and "\<forall>r\<in>set (h_alterations h). on_bench tn r \<longrightarrow> al_assignee r \<noteq> None \<longrightarrow>
           (\<exists>s\<in>set (h_staff h). su_tenant s = tn \<and> al_assignee r = Some (su_id s))"
  shows "sum_list (map (\<lambda>s. snd (load_of tn horizon h (Some (su_id s)))) (bench_assignees tn h))
    + snd (load_of tn horizon h None) = sum_list (map al_effort (filter (on_bench tn) (h_alterations h)))"
proof -
  let ?ids = "map su_id (bench_assignees tn h)" and ?rows = "filter (on_bench tn) (h_alterations h)"
  have "distinct (h_staff h)" "inj_on su_id (set (h_staff h))"
    using assms(1) by (simp_all add: staff_ok_def distinct_map)
  then have d: "distinct ?ids"
    by (auto simp: bench_assignees_def distinct_map intro: inj_on_subset)
  have "filter (\<lambda>r. case al_assignee r of None \<Rightarrow> True | Some i \<Rightarrow> i \<in> set ?ids) ?rows = ?rows"
  proof (rule filter_True)
    show "\<forall>r\<in>set ?rows. case al_assignee r of None \<Rightarrow> True | Some i \<Rightarrow> i \<in> set ?ids"
    proof
      fix r assume r: "r \<in> set ?rows"
      show "case al_assignee r of None \<Rightarrow> True | Some i \<Rightarrow> i \<in> set ?ids"
      proof (cases "al_assignee r")
        case (Some i)
        with r assms(2) obtain s where "s \<in> set (h_staff h)" "su_tenant s = tn" "i = su_id s" by force
        with r Some have "s \<in> set (bench_assignees tn h)" by (auto simp: bench_assignees_def list_ex_iff)
        with Some \<open>i = su_id s\<close> show ?thesis by auto
      qed simp
    qed
  qed
  with partition_by_assignee [OF d, of al_effort ?rows] show ?thesis
    by (simp add: load_of_def Let_def comp_def conj_commute)
qed

theorem load_adds_up_witness:
  "sum_list (map (\<lambda>s. snd (load_of 7 739001 workshop (Some (su_id s)))) (bench_assignees 7 workshop))
    + snd (load_of 7 739001 workshop None) = sum_list (map al_effort (filter (on_bench 7) (h_alterations workshop)))
   \<and> sum_list (map al_effort (filter (on_bench 7) (h_alterations workshop))) = 60"
  by (rule conjI, rule load_adds_up) code_simp+

end
