(* ===== verification/Walk_Ins.thy ===== *)
theory Walk_Ins
  imports Staff Booking_Service
begin

text \<open>
  The walk-in queue: \<open>app/db/repositories/queue_tickets.py\<close> and the customers' side of it,
  \<open>app/queue/service.py\<close> and \<open>validation.py\<close>. A ticket waits at its sort key, the time it was last
  put back or else the time it arrived; the floor takes the least key, identifiers breaking ties.
  Each request of the service charges its counters before it reads the database, so the counters
  it leaves come with the answer whether or not it is an error.
\<close>

definition WAITLIST_LIMIT :: nat where "WAITLIST_LIMIT = 100"
definition SKIP_LIMIT :: int where "SKIP_LIMIT = 2"
definition BOARD_ROW_LIMIT :: nat where "BOARD_ROW_LIMIT = 5"
definition BOARD_NAME_MAX :: nat where "BOARD_NAME_MAX = 12"

section \<open>The repository\<close>

definition live_waiting :: "uuid \<Rightarrow> date \<Rightarrow> ticket \<Rightarrow> bool" where
  "live_waiting tn day r \<longleftrightarrow>
     tk_tenant r = tn \<and> tk_day r = day \<and> tk_status r = Q_waiting \<and> \<not> tk_deleted r"

definition queue_key :: "ticket \<Rightarrow> instant" where
  "queue_key r = given (tk_requeued_at r) (tk_created_at r)"

definition queue_of :: "uuid \<Rightarrow> date \<Rightarrow> house \<Rightarrow> ticket list" where
  "queue_of tn day h = sort_key (\<lambda>r. (queue_key r, tk_id r)) (filter (live_waiting tn day) (h_tickets h))"

definition insert_ticket ::
  "uuid \<Rightarrow> date \<Rightarrow> utext \<Rightarrow> utext \<Rightarrow> visit_type \<Rightarrow> instant option \<Rightarrow> house \<Rightarrow> error + house \<times> ticket" where
  "insert_ticket tn day name phone visit opt_in h =
     add_row h_tickets h_tickets_update tickets_ok
       (\<lambda>i. \<lparr>tk_id = i, tk_tenant = tn, tk_day = day, tk_name = name, tk_phone = phone, tk_visit = visit,
             tk_status = Q_waiting, tk_called_at = None, tk_requeued_at = None, tk_skips = 0,
             tk_opt_in_at = opt_in, tk_created_at = h_now h, tk_deleted = False\<rparr>) h"

definition withdraw_opt_in :: "uuid \<Rightarrow> utext \<Rightarrow> house \<Rightarrow> error + house \<times> nat" where
  "withdraw_opt_in tn phone h =
     (let P = (\<lambda>r. tk_tenant r = tn \<and> tk_phone r = phone \<and> \<not> tk_deleted r \<and> tk_opt_in_at r \<noteq> None) in
      andthen (change_rows h_tickets h_tickets_update tickets_ok P (\<lambda>r. r\<lparr>tk_opt_in_at := None\<rparr>) h)
        (\<lambda>(h', _). Inr (h', length (filter P (h_tickets h)))))"

definition ticket_named :: "uuid \<Rightarrow> uuid \<Rightarrow> ticket \<Rightarrow> bool" where
  "ticket_named tn i r \<longleftrightarrow> tk_tenant r = tn \<and> tk_id r = i \<and> \<not> tk_deleted r"

definition ticket_by_id :: "uuid \<Rightarrow> uuid \<Rightarrow> house \<Rightarrow> ticket option" where
  "ticket_by_id tn i h = find (ticket_named tn i) (h_tickets h)"

text \<open>UPDATE .. RETURNING columns: the new row when one was hit.\<close>

definition change_ticket ::
  "uuid \<Rightarrow> uuid \<Rightarrow> (ticket \<Rightarrow> bool) \<Rightarrow> (ticket \<Rightarrow> ticket) \<Rightarrow> house \<Rightarrow> error + house \<times> ticket option" where
  "change_ticket tn i guard f h =
     andthen (change_rows h_tickets h_tickets_update tickets_ok (\<lambda>r. ticket_named tn i r \<and> guard r) f h)
       (\<lambda>(h', hit). Inr (h', if hit then ticket_by_id tn i h' else None))"

definition waiting :: "ticket \<Rightarrow> bool" where
  "waiting r \<longleftrightarrow> tk_status r = Q_waiting"

definition claim_by_id :: "uuid \<Rightarrow> uuid \<Rightarrow> house \<Rightarrow> error + house \<times> ticket option" where
  "claim_by_id tn i = change_ticket tn i waiting (\<lambda>r. r\<lparr>tk_status := Q_in_service\<rparr>)"

text \<open>The head is read under a row lock that skips rows other transactions hold, so the UPDATE
  finds it as it was read.\<close>

definition claim_next :: "uuid \<Rightarrow> date \<Rightarrow> house \<Rightarrow> error + house \<times> ticket option" where
  "claim_next tn day h =
     (case queue_of tn day h of
        [] \<Rightarrow> Inr (h, None)
      | r # _ \<Rightarrow> claim_by_id tn (tk_id r) h)"

definition close_ticket :: "uuid \<Rightarrow> uuid \<Rightarrow> house \<Rightarrow> error + house \<times> ticket option" where
  "close_ticket tn i = change_ticket tn i (\<lambda>r. tk_status r = Q_in_service) (\<lambda>r. r\<lparr>tk_status := Q_done\<rparr>)"

definition skipped :: "instant \<Rightarrow> ticket \<Rightarrow> ticket" where
  "skipped now r =
     r\<lparr>tk_requeued_at := Some now, tk_called_at := None, tk_skips := tk_skips r + 1,
       tk_status := (if tk_skips r + 1 \<ge> SKIP_LIMIT then Q_removed else Q_waiting)\<rparr>"

definition skip_ticket :: "uuid \<Rightarrow> uuid \<Rightarrow> instant \<Rightarrow> int \<Rightarrow> house \<Rightarrow> error + house \<times> ticket option" where
  "skip_ticket tn i now seen = change_ticket tn i (\<lambda>r. waiting r \<and> tk_skips r = seen) (skipped now)"

definition call_ticket :: "uuid \<Rightarrow> uuid \<Rightarrow> instant \<Rightarrow> house \<Rightarrow> error + house \<times> ticket option" where
  "call_ticket tn i now =
     change_ticket tn i (\<lambda>r. waiting r \<and> tk_called_at r = None) (\<lambda>r. r\<lparr>tk_called_at := Some now\<rparr>)"

definition remove_ticket :: "uuid \<Rightarrow> uuid \<Rightarrow> house \<Rightarrow> error + house \<times> ticket option" where
  "remove_ticket tn i = change_ticket tn i waiting (\<lambda>r. r\<lparr>tk_status := Q_removed\<rparr>)"

definition status_of :: "uuid \<Rightarrow> uuid \<Rightarrow> house \<Rightarrow> (queue_status \<times> int) option" where
  "status_of tn i h = map_option (\<lambda>r. (tk_status r, tk_skips r)) (ticket_by_id tn i h)"

definition waiting_for_panel :: "uuid \<Rightarrow> date \<Rightarrow> nat \<Rightarrow> house \<Rightarrow> ticket list" where
  "waiting_for_panel tn day limit h = take limit (queue_of tn day h)"

definition in_service_phones :: "uuid \<Rightarrow> date \<Rightarrow> house \<Rightarrow> utext list" where
  "in_service_phones tn day h =
     map tk_phone (filter (\<lambda>r. tk_tenant r = tn \<and> tk_day r = day \<and> tk_status r = Q_in_service
       \<and> \<not> tk_deleted r) (h_tickets h))"

definition position_of :: "uuid \<Rightarrow> ticket \<Rightarrow> house \<Rightarrow> nat option" where
  "position_of tn t h =
     (if \<not> waiting t then None
      else Some (length (filter (\<lambda>r. live_waiting tn (tk_day t) r \<and> queue_key r < queue_key t)
                   (h_tickets h)) + 1))"

definition queue_board_rows :: "uuid \<Rightarrow> date \<Rightarrow> nat \<Rightarrow> house \<Rightarrow> ticket list \<times> nat" where
  "queue_board_rows tn day limit h =
     (take limit (queue_of tn day h), length (filter (live_waiting tn day) (h_tickets h)))"

section \<open>The service\<close>

record queue_view =
  qv_id :: uuid
  qv_status :: queue_status
  qv_position :: "nat option"
  qv_called_at :: "instant option"

definition ticket_view_of :: "ticket \<Rightarrow> nat option \<Rightarrow> queue_view" where
  "ticket_view_of r pos =
     \<lparr>qv_id = tk_id r, qv_status = tk_status r, qv_position = pos, qv_called_at = tk_called_at r\<rparr>"

definition visit_types :: "(string \<times> visit_type) list" where
  "visit_types = [(''bride'', Bride), (''evening'', Evening)]"

definition validate_checkin :: "utext \<Rightarrow> string \<Rightarrow> error + visit_type" where
  "validate_checkin name visit =
     andthen (validate_customer_name name) (\<lambda>_.
     need (Domain_validation ''visit_type is not one of the accepted values'') (map_of visit_types visit))"

text \<open>\<open>name.split()[0]\<close>, cut to the board's width; an empty split is an IndexError.\<close>

definition board_display_name :: "utext \<Rightarrow> error + utext" where
  "board_display_name name =
     (case usplit name of
        [] \<Rightarrow> Inl (Runtime_error ''list index out of range'')
      | first # _ \<Rightarrow>
          Inr (if length first \<le> BOARD_NAME_MAX then first else take (BOARD_NAME_MAX - 1) first @ [8230]))"

definition check_in_walk_in ::
  "env \<Rightarrow> limiter_cfg \<Rightarrow> uuid \<Rightarrow> utext \<Rightarrow> utext \<Rightarrow> string \<Rightarrow> bool \<Rightarrow> int \<Rightarrow> instant
   \<Rightarrow> uuid limiter \<times> house \<Rightarrow> uuid limiter \<times> (error + house \<times> queue_view)" where
  "check_in_walk_in e cfg tn name raw_phone visit opt_in tick now lh =
     (case andthen (validate_checkin name visit) (\<lambda>v.
           andthen (need Phone_invalid (normalize_israeli_mobile raw_phone)) (\<lambda>phone. Inr (v, phone))) of
        Inl err \<Rightarrow> (fst lh, Inl err)
      | Inr (v, phone) \<Rightarrow>
          if is_blocked cfg (fst lh) tick tn then (fst lh, Inl (Floor_error Checkin_throttled))
          else (record_failure cfg (fst lh) tick tick tn,
                andthen (insert_ticket tn (today_jerusalem (e_zone e) now) name phone v
                           (if opt_in then Some now else None) (snd lh)) (\<lambda>(h', t).
                Inr (h', ticket_view_of t (position_of tn t h')))))"

text \<open>The counter of a ticket is charged per poll; the tenant's counter of misses only when the
  ticket is not there.\<close>

definition poll_position ::
  "limiter_cfg \<Rightarrow> limiter_cfg \<Rightarrow> uuid \<Rightarrow> uuid \<Rightarrow> int \<Rightarrow> (uuid \<times> uuid) limiter \<times> uuid limiter \<Rightarrow> house
   \<Rightarrow> ((uuid \<times> uuid) limiter \<times> uuid limiter) \<times> (error + queue_view)" where
  "poll_position tcfg mcfg tn i tick ls h =
     (let (tl, ml) = ls in
      if is_blocked tcfg tl tick (tn, i) then (ls, Inl (Floor_error Checkin_throttled))
      else
        let tl' = record_failure tcfg tl tick tick (tn, i) in
        case ticket_by_id tn i h of
          Some t \<Rightarrow> ((tl', ml), Inr (ticket_view_of t (position_of tn t h)))
        | None \<Rightarrow>
            if is_blocked mcfg ml tick tn then ((tl', ml), Inl (Floor_error Checkin_throttled))
            else ((tl', record_failure mcfg ml tick tick tn), Inl (Floor_error Queue_ticket_not_found)))"

fun board_entries :: "nat \<Rightarrow> ticket list \<Rightarrow> error + (nat \<times> utext \<times> bool) list" where
  "board_entries n [] = Inr []"
| "board_entries n (r # rs) =
     andthen (board_display_name (tk_name r)) (\<lambda>shown.
     andthen (board_entries (n + 1) rs) (\<lambda>rest. Inr ((n, shown, tk_called_at r \<noteq> None) # rest)))"

definition queue_board ::
  "env \<Rightarrow> limiter_cfg \<Rightarrow> uuid \<Rightarrow> int \<Rightarrow> instant \<Rightarrow> uuid limiter \<Rightarrow> house
   \<Rightarrow> uuid limiter \<times> (error + (nat \<times> utext \<times> bool) list \<times> nat)" where
  "queue_board e cfg tn tick now bl h =
     (if is_blocked cfg bl tick tn then (bl, Inl (Floor_error Checkin_throttled))
      else (record_failure cfg bl tick tick tn,
            let (rows, total) = queue_board_rows tn (today_jerusalem (e_zone e) now) BOARD_ROW_LIMIT h in
            andthen (board_entries 1 rows) (\<lambda>entries. Inr (entries, total))))"

section \<open>The table\<close>

interpretation qt: house_table tk_id tk_tenant tk_deleted tickets_ok h_tickets h_tickets_update
  by unfold_locales (simp_all add: tickets_ok_def)

lemma ticket_named_named: "ticket_named = qt.named"
  by (auto simp: ticket_named_def qt.named_def fun_eq_iff)

lemma ticket_by_id_row: "ticket_by_id = qt.row"
  by (simp add: ticket_by_id_def qt.row_def qt.fetch_def ticket_named_named fun_eq_iff)

definition write_ticket :: "uuid \<Rightarrow> uuid \<Rightarrow> (ticket \<Rightarrow> ticket) \<Rightarrow> house \<Rightarrow> house" where
  "write_ticket tn i f h = h\<lparr>h_tickets := update_where (ticket_named tn i) f (h_tickets h)\<rparr>"

lemma write_ticket_put: "write_ticket = qt.put"
  by (simp add: fun_eq_iff write_ticket_def qt.put_def ticket_named_named)

lemma write_ticket_sel [simp]:
  "h_tickets (write_ticket tn i f h) = update_where (ticket_named tn i) f (h_tickets h)"
  "h_fittings (write_ticket tn i f h) = h_fittings h" "h_db (write_ticket tn i f h) = h_db h"
  "h_staff (write_ticket tn i f h) = h_staff h" "h_rooms (write_ticket tn i f h) = h_rooms h"
  by (simp_all add: write_ticket_def)

text \<open>\<open>waits_on\<close>: the change leaves the name of the row and a skip count that is not negative.\<close>

definition waits_on :: "(ticket \<Rightarrow> ticket) \<Rightarrow> bool" where
  "waits_on f \<longleftrightarrow> qt.keeps_name f \<and> (\<forall>r. tk_skips r \<ge> 0 \<longrightarrow> tk_skips (f r) \<ge> 0)"

lemma waits_on_simps [simp]:
  "waits_on (\<lambda>r. r\<lparr>tk_status := st\<rparr>)" "waits_on (skipped now)" "waits_on (\<lambda>r. r\<lparr>tk_called_at := at\<rparr>)"
  "waits_on (\<lambda>r. r\<lparr>tk_opt_in_at := at\<rparr>)"
  by (simp_all add: waits_on_def qt.keeps_name_def skipped_def)

lemma tickets_ok_write: "tickets_ok rows \<Longrightarrow> waits_on f \<Longrightarrow> tickets_ok (update_where P f rows)"
  by (auto simp: tickets_ok_def waits_on_def qt.keeps_name_def map_update_where list_all_iff set_update_where)

lemma ticket_by_id_write:
  "waits_on f \<Longrightarrow> ticket_by_id tn' i' (write_ticket tn i f h) =
     (if tn' = tn \<and> i' = i then map_option f (ticket_by_id tn i h) else ticket_by_id tn' i' h)"
  unfolding ticket_by_id_row write_ticket_put waits_on_def by (blast intro: qt.row_put)

lemma change_ticket_run:
  assumes "tickets_ok (h_tickets h)" "waits_on f"
  shows "change_ticket tn i g f h =
    (case ticket_by_id tn i h of
       None \<Rightarrow> Inr (h, None)
     | Some r \<Rightarrow> if g r then Inr (write_ticket tn i f h, Some (f r)) else Inr (h, None))"
proof -
  have ok: "tickets_ok (h_tickets (qt.put tn i f h))"
    using tickets_ok_write [OF assms] unfolding qt.get_put by blast
  have again: "qt.row tn i (qt.put tn i f h) = map_option f (qt.row tn i h)"
    using ticket_by_id_write [OF assms(2), of tn i tn i h] by (simp add: ticket_by_id_row write_ticket_put)
  show ?thesis
    unfolding change_ticket_def ticket_named_named qt.change_run [OF assms(1)] ticket_by_id_row write_ticket_put
    using ok again by (auto split: option.splits)
qed

section \<open>Who is next\<close>

lemma queue_of_set [simp]: "set (queue_of tn day h) = {r \<in> set (h_tickets h). live_waiting tn day r}"
  by (auto simp: queue_of_def)

lemma queue_of_sorted: "sorted (map (\<lambda>r. (queue_key r, tk_id r)) (queue_of tn day h))"
  by (simp add: queue_of_def)

lemma live_waiting_row:
  "tickets_ok (h_tickets h) \<Longrightarrow> r \<in> set (h_tickets h) \<Longrightarrow> live_waiting tn day r \<Longrightarrow> ticket_by_id tn (tk_id r) h = Some r"
  using qt.fetch_mem [of "h_tickets h" r] by (auto simp: ticket_by_id_row qt.row_def live_waiting_def)


definition walk_in :: "uuid \<Rightarrow> instant \<Rightarrow> ticket" where
  "walk_in i arrived =
     \<lparr>tk_id = i, tk_tenant = 7, tk_day = 719163, tk_name = [65], tk_phone = [48], tk_visit = Bride,
      tk_status = Q_waiting, tk_called_at = None, tk_requeued_at = None, tk_skips = 0,
      tk_opt_in_at = None, tk_created_at = arrived, tk_deleted = False\<rparr>"

definition lobby :: house where
  "lobby = front_desk\<lparr>h_tickets := [walk_in 21 30, walk_in 22 10, walk_in 23 20]\<rparr>"


text \<open>C. The number a customer polls is her place in the line the staff see: it never exceeds her row
  on the board, and equals it when no two waiting tickets carry the same time.\<close>

theorem position_is_place:
  assumes "k < length (queue_of tn day h)" "t = queue_of tn day h ! k"
  shows "\<exists>n. position_of tn t h = Some n \<and> n \<le> k + 1
    \<and> (distinct (map queue_key (queue_of tn day h)) \<longrightarrow> n = k + 1)"
proof -
  let ?q = "queue_of tn day h"
  have "t \<in> set ?q" unfolding assms(2) by (rule nth_mem [OF assms(1)])
  then have t: "live_waiting tn day t" by simp
  then have day: "tk_day t = day" "waiting t" by (simp_all add: live_waiting_def waiting_def)
  let ?ahead = "{j. j < length ?q \<and> queue_key (?q ! j) < queue_key t}"
  have "length (filter (\<lambda>r. live_waiting tn (tk_day t) r \<and> queue_key r < queue_key t) (h_tickets h))
      = length (filter (\<lambda>r. queue_key r < queue_key t) ?q)"
    by (simp add: queue_of_def filter_sort day conj_commute)
  also have "\<dots> = card ?ahead" by (rule length_filter_conv_card)
  finally have pos: "position_of tn t h = Some (card ?ahead + 1)" using day by (simp add: position_of_def)
  have le: "queue_key (?q ! i) \<le> queue_key (?q ! j)" if "i \<le> j" "j < length ?q" for i j
    using sorted_nth_mono [OF queue_of_sorted [of tn day h], of i j] that by (auto simp: less_eq_prod_def)
  have sub: "?ahead \<subseteq> {..<k}"
  proof
    fix j assume j: "j \<in> ?ahead"
    have "\<not> k \<le> j"
    proof
      assume "k \<le> j"
      from le [OF this] j assms(2) show False by auto
    qed
    then show "j \<in> {..<k}" by simp
  qed
  then have "card ?ahead \<le> k" using card_mono [OF _ sub] by simp
  moreover have "card ?ahead = k" if "distinct (map queue_key ?q)"
  proof -
    have "j \<in> ?ahead" if j: "j < k" for j
    proof -
      have "queue_key (?q ! j) \<noteq> queue_key (?q ! k)"
        using \<open>distinct (map queue_key ?q)\<close> j assms(1) nth_eq_iff_index_eq [of "map queue_key ?q" j k] by auto
      with le [of j k] j assms show ?thesis by force
    qed
    with sub have "?ahead = {..<k}" by blast
    then show ?thesis by simp
  qed
  ultimately show ?thesis using pos by auto
qed

theorem position_is_place_witness:
  "\<exists>n. position_of 7 (walk_in 23 20) lobby = Some n \<and> n \<le> 1 + 1"
proof -
  have q: "queue_of 7 719163 lobby = [walk_in 22 10, walk_in 23 20, walk_in 21 30]"
    by (simp add: queue_of_def lobby_def walk_in_def live_waiting_def queue_key_def given_def less_eq_prod_def)
  have "1 < length (queue_of 7 719163 lobby)" "walk_in 23 20 = queue_of 7 719163 lobby ! 1" by (simp_all add: q)
  from position_is_place [OF this] show ?thesis by blast
qed

section \<open>Skipping\<close>

text \<open>C. Two strikes, and a double tap counts once: a skip that is accepted was made by somebody who saw
  the current count; it puts the ticket behind everyone who was waiting with an earlier time, or
  removes it when it was the second; and repeating the same request changes nothing.\<close>

theorem skip_counts_once:
  assumes "tickets_ok (h_tickets h)" "skip_ticket tn i now seen h = Inr (h', Some t')"
  shows "\<exists>t. ticket_by_id tn i h = Some t \<and> waiting t \<and> tk_skips t = seen
    \<and> ticket_by_id tn i h' = Some t' \<and> tk_skips t' = seen + 1
    \<and> (tk_status t' = Q_removed \<longleftrightarrow> seen \<ge> 1)
    \<and> (waiting t' \<longrightarrow> (\<forall>r\<in>set (h_tickets h). queue_key r < now \<longrightarrow> queue_key r < queue_key t'))
    \<and> skip_ticket tn i later seen h' = Inr (h', None)"
proof -
  from assms obtain t where t: "ticket_by_id tn i h = Some t" "waiting t" "tk_skips t = seen" "t' = skipped now t"
    and h': "h' = write_ticket tn i (skipped now) h"
    by (auto simp: skip_ticket_def change_ticket_run split: option.splits if_splits)
  have read': "ticket_by_id tn i h' = Some t'" using t by (simp add: h' ticket_by_id_write)
  have ok': "tickets_ok (h_tickets h')" using assms(1) by (simp add: h' tickets_ok_write)
  have "skip_ticket tn i later seen h' = Inr (h', None)"
    using t by (simp add: skip_ticket_def change_ticket_run [OF ok'] read' skipped_def)
  with t read' show ?thesis
    by (auto simp: skipped_def waiting_def SKIP_LIMIT_def queue_key_def given_def)
qed

theorem skip_counts_once_witness:
  "\<exists>h' t'. skip_ticket 7 22 40 0 lobby = Inr (h', Some t') \<and> tk_skips t' = 1 \<and> waiting t'
     \<and> skip_ticket 7 22 41 0 h' = Inr (h', None)"
proof -
  let ?run = "skip_ticket 7 22 40 0 lobby"
  have r: "?run = Inr (fst (projr ?run), Some (skipped 40 (walk_in 22 10)))" "waiting (skipped 40 (walk_in 22 10))"
    by code_simp+
  have ok: "tickets_ok (h_tickets lobby)" by code_simp
  from skip_counts_once [OF ok r(1), of 41] r show ?thesis by auto
qed

definition life :: "ticket \<Rightarrow> nat" where
  "life r = (case tk_status r of
       Q_waiting \<Rightarrow> 3 * nat (SKIP_LIMIT - tk_skips r) + (if tk_called_at r = None then 2 else 1)
     | Q_in_service \<Rightarrow> 0 + 1 | _ \<Rightarrow> 0)"

text \<open>C35. No ticket lives for ever: every accepted write to it, call, skip, dispatch, removal or close, moves it strictly
  down a natural number that starts at eight, so after at most eight of them nothing can be done to it.\<close>

theorem ticket_life_is_finite:
  assumes "tickets_ok (h_tickets h)" "ticket_by_id tn i h = Some t"
    and "waiting t \<longrightarrow> tk_skips t < SKIP_LIMIT"
    and "call_ticket tn i now h = Inr (h', Some t') \<or> skip_ticket tn i now seen h = Inr (h', Some t')
      \<or> claim_by_id tn i h = Inr (h', Some t') \<or> remove_ticket tn i h = Inr (h', Some t')
      \<or> close_ticket tn i h = Inr (h', Some t')"
  shows "(t', t) \<in> measure life \<and> life t \<le> 8 \<and> (waiting t' \<longrightarrow> tk_skips t' < SKIP_LIMIT)"
proof -
  have "t \<in> set (h_tickets h)" using assms(2) by (auto simp: ticket_by_id_row dest: qt.row_SomeD)
  then have "tk_skips t \<ge> 0" using assms(1) by (auto simp: tickets_ok_def list_all_iff)
  with assms(2-4) show ?thesis
    by (auto simp: call_ticket_def skip_ticket_def claim_by_id_def remove_ticket_def close_ticket_def
        change_ticket_run [OF assms(1)] life_def waiting_def skipped_def SKIP_LIMIT_def split: if_splits queue_status.splits)
qed

theorem ticket_life_is_finite_witness:
  "(skipped 40 (walk_in 22 10), walk_in 22 10) \<in> measure life \<and> life (walk_in 22 10) \<le> 8"
proof -
  have "skip_ticket 7 22 40 0 lobby = Inr (fst (projr (skip_ticket 7 22 40 0 lobby)), Some (skipped 40 (walk_in 22 10)))"
    "tickets_ok (h_tickets lobby)" "ticket_by_id 7 22 lobby = Some (walk_in 22 10)"
    "waiting (walk_in 22 10) \<longrightarrow> tk_skips (walk_in 22 10) < SKIP_LIMIT" by code_simp+
  from ticket_life_is_finite [OF this(2,3,4), of 40 _ _ 0] this(1) show ?thesis by blast
qed

end
