(* ===== verification/Shifts.thy ===== *)
theory Shifts
  imports Atelier "HOL-Library.AList"
begin

text \<open>
  Shift templates, weekly availability and rosters: \<open>app/shifts/service.py\<close>, \<open>validation.py\<close> and the
  repositories \<open>shift_templates\<close>, \<open>staff_availability\<close>, \<open>rosters\<close> and \<open>roster_assignments\<close>.
  A week is named by its Sunday. Parsing a wall-clock time out of the settings is the standard
  library's (\<open>time.fromisoformat\<close>) and enters as \<open>parse\<close>.
\<close>

definition SUBMISSION_WEEK_WINDOW_WEEKS :: int where "SUBMISSION_WEEK_WINDOW_WEEKS = 4"
definition MAX_TEMPLATES_PER_DAY :: nat where "MAX_TEMPLATES_PER_DAY = 6"
definition MAX_TEMPLATES :: nat where "MAX_TEMPLATES = MAX_TEMPLATES_PER_DAY * 7"
definition MAX_SHIFT_LABEL_LENGTH :: nat where "MAX_SHIFT_LABEL_LENGTH = 60"
definition MAX_COVERAGE_TARGET :: int where "MAX_COVERAGE_TARGET = 20"

section \<open>Weeks\<close>

definition current_week_start :: "date \<Rightarrow> date" where
  "current_week_start today = today - jerusalem_day_index today"

definition week_end :: "date \<Rightarrow> date" where
  "week_end week = week + 6"

definition default_week_start :: "date \<Rightarrow> date" where
  "default_week_start today = current_week_start today + 7"

definition validate_week_start :: "date \<Rightarrow> error + date" where
  "validate_week_start d =
     andthen (ensure (Domain_validation ''week_start must be a Sunday'') (jerusalem_day_index d = 0)) (\<lambda>_. Inr d)"

definition assert_readable_week :: "date \<Rightarrow> date \<Rightarrow> error + unit" where
  "assert_readable_week week current =
     andthen (validate_week_start week) (\<lambda>_.
     andthen (validate_week_start current) (\<lambda>_.
     ensure (Shift_error Week_out_of_range) (\<not> \<bar>(week - current) div 7\<bar> > SUBMISSION_WEEK_WINDOW_WEEKS)))"

definition assert_writable_week :: "date \<Rightarrow> date \<Rightarrow> error + unit" where
  "assert_writable_week week current =
     andthen (assert_readable_week week current) (\<lambda>_.
     ensure (Shift_error Week_out_of_range) (\<not> week \<le> current))"

definition target_week :: "date option \<Rightarrow> date \<Rightarrow> error + date" where
  "target_week week today =
     andthen (case week of None \<Rightarrow> Inr (default_week_start today) | Some w \<Rightarrow> validate_week_start w) (\<lambda>target.
     andthen (assert_readable_week target (current_week_start today)) (\<lambda>_. Inr target))"

definition deadline_at :: "zone \<Rightarrow> date \<Rightarrow> int \<Rightarrow> wall \<Rightarrow> error + instant" where
  "deadline_at z week day at =
     andthen (validate_week_start week) (\<lambda>_.
     andthen (ensure (Domain_validation ''submission_deadline_day_of_week must be between 0 and 6'')
                (0 \<le> day \<and> day \<le> 6)) (\<lambda>_.
     Inr (to_utc_raw z (week - (7 - day)) at)))"

definition scheduling_pair :: "(json \<Rightarrow> wall option) \<Rightarrow> (string \<times> json) list \<Rightarrow> error + int \<times> wall" where
  "scheduling_pair parse settings =
     (let get = (\<lambda>key d. case block ''scheduling'' key settings of None \<Rightarrow> d | Some v \<Rightarrow> v) in
      case get ''submission_deadline_day_of_week'' (J_int 3) of
        J_int day \<Rightarrow>
          andthen (need (Domain_validation ''submission_deadline_time must be HH:MM'')
                     (parse (get ''submission_deadline_time'' (J_string ''18:00'')))) (\<lambda>at.
          Inr (day, at))
      | _ \<Rightarrow> Inl (Domain_validation ''submission_deadline_day_of_week must be an integer''))"

definition deadline ::
  "zone \<Rightarrow> (json \<Rightarrow> wall option) \<Rightarrow> (string \<times> json) list \<Rightarrow> date \<Rightarrow> error + instant" where
  "deadline z parse settings week =
     andthen (scheduling_pair parse settings) (\<lambda>(day, at). deadline_at z week day at)"

definition jerusalem_moment :: "zone \<Rightarrow> instant \<Rightarrow> date \<times> wall \<times> int" where
  "jerusalem_moment z at =
     (let (local_date, local_time) = to_local z at in (local_date, local_time, jerusalem_day_index local_date))"

section \<open>Validation\<close>

definition validate_template :: "int \<Rightarrow> utext \<Rightarrow> wall \<Rightarrow> wall \<Rightarrow> error + utext" where
  "validate_template day label starts ends =
     andthen (ensure (Domain_validation ''day_of_week must be between 0 and 6'') (0 \<le> day \<and> day \<le> 6)) (\<lambda>_.
     andthen (ensure (Domain_validation ''label must not be blank'') (ustrip label \<noteq> [])) (\<lambda>_.
     andthen (ensure (Domain_validation ''label is too long'')
                (length (ustrip label) \<le> MAX_SHIFT_LABEL_LENGTH)) (\<lambda>_.
     andthen (ensure (Domain_validation ''ends_at_time must be after starts_at_time'') (\<not> ends \<le> starts)) (\<lambda>_.
     Inr (ustrip label)))))"

definition assert_template_capacity :: "nat \<Rightarrow> nat \<Rightarrow> error + unit" where
  "assert_template_capacity day_count total_count =
     ensure (Shift_error Template_limit_reached)
       (\<not> (day_count \<ge> MAX_TEMPLATES_PER_DAY \<or> total_count \<ge> MAX_TEMPLATES))"

definition role_names :: "(string \<times> staff_role) list" where
  "role_names =
     [(''owner'', Owner), (''shift_manager'', Shift_manager), (''reception'', Reception),
      (''sales_assistant'', Sales_assistant), (''seamstress'', Seamstress)]"

fun coverage_items :: "(string \<times> json) list \<Rightarrow> error + (staff_role \<times> int) list" where
  "coverage_items [] = Inr []"
| "coverage_items ((key, v) # rest) =
     andthen (need (Shift_error Coverage_target_invalid) (map_of role_names key)) (\<lambda>role.
     andthen (case v of
                J_int n \<Rightarrow> andthen (ensure (Shift_error Coverage_target_invalid) (0 \<le> n \<and> n \<le> MAX_COVERAGE_TARGET)) (\<lambda>_. Inr n)
              | _ \<Rightarrow> Inl (Shift_error Coverage_target_invalid)) (\<lambda>n.
     andthen (coverage_items rest) (\<lambda>items. Inr ((role, n) # items))))"

definition validate_coverage_targets :: "json \<Rightarrow> error + (staff_role \<times> int) list" where
  "validate_coverage_targets v =
     (case v of J_object xs \<Rightarrow> coverage_items xs | _ \<Rightarrow> Inl (Shift_error Coverage_target_invalid))"

section \<open>Templates\<close>

definition template_named :: "uuid \<Rightarrow> uuid \<Rightarrow> shift_template \<Rightarrow> bool" where
  "template_named tn i r \<longleftrightarrow> st_tenant r = tn \<and> st_id r = i \<and> \<not> st_deleted r"

definition template_by_id :: "uuid \<Rightarrow> uuid \<Rightarrow> house \<Rightarrow> shift_template option" where
  "template_by_id tn i h = find (template_named tn i) (h_templates h)"

definition list_templates :: "uuid \<Rightarrow> house \<Rightarrow> shift_template list" where
  "list_templates tn h =
     sort_key (\<lambda>r. (st_day r, st_order r, st_starts r))
       (filter (\<lambda>r. st_tenant r = tn \<and> \<not> st_deleted r) (h_templates h))"

definition count_on_day :: "uuid \<Rightarrow> int \<Rightarrow> house \<Rightarrow> nat" where
  "count_on_day tn day h =
     length (filter (\<lambda>r. st_tenant r = tn \<and> \<not> st_deleted r \<and> st_day r = day) (h_templates h))"

definition count_templates :: "uuid \<Rightarrow> house \<Rightarrow> nat" where
  "count_templates tn h = length (filter (\<lambda>r. st_tenant r = tn \<and> \<not> st_deleted r) (h_templates h))"

record template_input =
  ti_day :: int
  ti_label :: utext
  ti_starts :: wall
  ti_ends :: wall
  ti_order :: int
  ti_targets :: json

definition insert_template ::
  "uuid \<Rightarrow> int \<Rightarrow> utext \<Rightarrow> wall \<Rightarrow> wall \<Rightarrow> int \<Rightarrow> (staff_role \<times> int) list \<Rightarrow> house
   \<Rightarrow> error + house \<times> shift_template" where
  "insert_template tn day label starts ends order targets =
     add_row h_templates h_templates_update templates_ok
       (\<lambda>i. \<lparr>st_id = i, st_tenant = tn, st_day = day, st_label = label, st_starts = starts,
             st_ends = ends, st_order = order, st_targets = targets, st_deleted = False\<rparr>)"

definition replace_template ::
  "uuid \<Rightarrow> uuid \<Rightarrow> int \<Rightarrow> utext \<Rightarrow> wall \<Rightarrow> wall \<Rightarrow> int \<Rightarrow> (staff_role \<times> int) list \<Rightarrow> house
   \<Rightarrow> error + house \<times> shift_template option" where
  "replace_template tn i day label starts ends order targets h =
     andthen (change_rows h_templates h_templates_update templates_ok (template_named tn i)
                (\<lambda>r. r\<lparr>st_day := day, st_label := label, st_starts := starts, st_ends := ends,
                      st_order := order, st_targets := targets\<rparr>) h)
       (\<lambda>(h', hit). Inr (h', if hit then template_by_id tn i h' else None))"

definition soft_delete_template :: "uuid \<Rightarrow> uuid \<Rightarrow> house \<Rightarrow> error + house \<times> bool" where
  "soft_delete_template tn i =
     change_rows h_templates h_templates_update templates_ok (template_named tn i) (\<lambda>r. r\<lparr>st_deleted := True\<rparr>)"

section \<open>Availability rows\<close>

definition live_for_week :: "uuid \<Rightarrow> date \<Rightarrow> uuid option \<Rightarrow> house \<Rightarrow> availability list" where
  "live_for_week tn week staff h =
     filter (\<lambda>r. av_tenant r = tn \<and> av_week r = week \<and> \<not> av_deleted r
       \<and> (case staff of None \<Rightarrow> True | Some s \<Rightarrow> av_staff r = s)) (h_availabilities h)"

definition set_state ::
  "uuid \<Rightarrow> uuid \<Rightarrow> uuid \<Rightarrow> date \<Rightarrow> availability_state \<Rightarrow> uuid option \<Rightarrow> house \<Rightarrow> error + house \<times> unit" where
  "set_state tn staff template week state by h =
     andthen (change_rows h_availabilities h_availabilities_update availabilities_ok
                (\<lambda>r. av_tenant r = tn \<and> av_staff r = staff \<and> av_template r = template \<and> av_week r = week
                   \<and> \<not> av_deleted r)
                (\<lambda>r. r\<lparr>av_state := state, av_recorded_by := by\<rparr>) h) (\<lambda>(h', hit).
     if hit then Inr (h', ())
     else andthen (add_row h_availabilities h_availabilities_update availabilities_ok
                     (\<lambda>i. \<lparr>av_id = i, av_tenant = tn, av_staff = staff, av_template = template,
                           av_week = week, av_state = state, av_recorded_by = by, av_deleted = False\<rparr>) h')
            (\<lambda>(h'', _). Inr (h'', ())))"

definition soft_delete_pairs :: "uuid \<Rightarrow> uuid \<Rightarrow> date \<Rightarrow> uuid list \<Rightarrow> house \<Rightarrow> error + house \<times> bool" where
  "soft_delete_pairs tn staff week templates h =
     (if templates = [] then Inr (h, False)
      else change_rows h_availabilities h_availabilities_update availabilities_ok
             (\<lambda>r. av_tenant r = tn \<and> av_staff r = staff \<and> av_week r = week \<and> av_template r \<in> set templates
                \<and> \<not> av_deleted r) (\<lambda>r. r\<lparr>av_deleted := True\<rparr>) h)"

definition after_for_template :: "uuid \<Rightarrow> uuid \<Rightarrow> date \<Rightarrow> availability \<Rightarrow> bool" where
  "after_for_template tn template week r \<longleftrightarrow>
     av_tenant r = tn \<and> av_template r = template \<and> av_week r > week \<and> \<not> av_deleted r"

definition soft_delete_future :: "uuid \<Rightarrow> uuid \<Rightarrow> date \<Rightarrow> house \<Rightarrow> error + house \<times> nat" where
  "soft_delete_future tn template week h =
     andthen (change_rows h_availabilities h_availabilities_update availabilities_ok
                (after_for_template tn template week) (\<lambda>r. r\<lparr>av_deleted := True\<rparr>) h)
       (\<lambda>(h', _). Inr (h', length (filter (after_for_template tn template week) (h_availabilities h))))"

definition future_count :: "uuid \<Rightarrow> date \<Rightarrow> house \<Rightarrow> uuid \<Rightarrow> nat" where
  "future_count tn week h template =
     length (filter (after_for_template tn template week) (h_availabilities h))"

section \<open>The template handlers\<close>

text \<open>A template as it is shown: with the count of later submissions for managers, without for others.\<close>

definition list_templates_view ::
  "env \<Rightarrow> uuid \<Rightarrow> staff_context \<Rightarrow> instant \<Rightarrow> house \<Rightarrow> (shift_template \<times> nat option) list" where
  "list_templates_view e tn actor now h =
     (let current = current_week_start (today_jerusalem (e_zone e) now) in
      map (\<lambda>r. (r, if elevated actor then Some (future_count tn current h (st_id r)) else None))
        (list_templates tn h))"

definition create_template :: "uuid \<Rightarrow> template_input \<Rightarrow> house \<Rightarrow> error + house \<times> shift_template" where
  "create_template tn b h =
     andthen (validate_template (ti_day b) (ti_label b) (ti_starts b) (ti_ends b)) (\<lambda>label.
     andthen (validate_coverage_targets (ti_targets b)) (\<lambda>targets.
     andthen (assert_template_capacity (count_on_day tn (ti_day b) h) (count_templates tn h)) (\<lambda>_.
     andthen (insert_template tn (ti_day b) label (ti_starts b) (ti_ends b) (ti_order b) targets h) (\<lambda>(h', r).
     Inr (log tn (Shift_action Template_created) (Some (st_id r)) h', r)))))"

definition is_material_edit :: "shift_template \<Rightarrow> template_input \<Rightarrow> bool" where
  "is_material_edit before b \<longleftrightarrow>
     st_day before \<noteq> ti_day b \<or> st_starts before \<noteq> ti_starts b \<or> st_ends before \<noteq> ti_ends b"

definition update_template ::
  "env \<Rightarrow> uuid \<Rightarrow> uuid \<Rightarrow> template_input \<Rightarrow> instant \<Rightarrow> house \<Rightarrow> error + house \<times> shift_template \<times> nat" where
  "update_template e tn i b now h =
     andthen (validate_template (ti_day b) (ti_label b) (ti_starts b) (ti_ends b)) (\<lambda>label.
     andthen (validate_coverage_targets (ti_targets b)) (\<lambda>targets.
     let current = current_week_start (today_jerusalem (e_zone e) now) in
     andthen (need (Shift_error Shift_not_found) (template_by_id tn i h)) (\<lambda>before.
     andthen (replace_template tn i (ti_day b) label (ti_starts b) (ti_ends b) (ti_order b) targets h) (\<lambda>(h1, row).
     andthen (need (Shift_error Shift_not_found) row) (\<lambda>r.
     andthen (if is_material_edit before b then soft_delete_future tn i current h1 else Inr (h1, 0)) (\<lambda>(h2, invalidated).
     Inr (log tn (Shift_action Template_updated) (Some i) h2, r, invalidated)))))))"

definition delete_template :: "env \<Rightarrow> uuid \<Rightarrow> uuid \<Rightarrow> instant \<Rightarrow> house \<Rightarrow> error + house \<times> nat" where
  "delete_template e tn i now h =
     (let current = current_week_start (today_jerusalem (e_zone e) now) in
      andthen (soft_delete_template tn i h) (\<lambda>(h1, hit).
      andthen (ensure (Shift_error Shift_not_found) hit) (\<lambda>_.
      andthen (soft_delete_future tn i current h1) (\<lambda>(h2, invalidated).
      Inr (log tn (Shift_action Template_deleted) (Some i) h2, invalidated)))))"

text \<open>The auto-label: the Hebrew name of the day and the hours around an en dash. A rule's day is between
  0 and 6 (its CHECK), which is where the tuple is indexed.\<close>

definition HEBREW_DAY_NAMES :: "utext list" where
  "HEBREW_DAY_NAMES =
     [[1512, 1488, 1513, 1493, 1503],
      [1513, 1504, 1497],
      [1513, 1500, 1497, 1513, 1497],
      [1512, 1489, 1497, 1506, 1497],
      [1495, 1502, 1497, 1513, 1497],
      [1513, 1497, 1513, 1497],
      [1513, 1489, 1514]]"

definition two_digits :: "int \<Rightarrow> utext" where
  "two_digits n = [48 + nat (n div 10), 48 + nat (n mod 10)]"

definition hh_mm :: "wall \<Rightarrow> utext" where
  "hh_mm w = two_digits (w div hours 1) @ 58 # two_digits (w mod hours 1 div minutes 1)"

definition seed_label :: "int \<Rightarrow> wall \<Rightarrow> wall \<Rightarrow> utext" where
  "seed_label day starts ends = HEBREW_DAY_NAMES ! nat day @ 32 # hh_mm starts @ 8211 # hh_mm ends"

fun seed_rows ::
  "uuid \<Rightarrow> int \<Rightarrow> availability_rule list \<Rightarrow> house \<Rightarrow> error + house \<times> nat" where
  "seed_rows tn n [] h = Inr (h, 0)"
| "seed_rows tn n (rule # rules) h =
     andthen (insert_template tn (r_day_of_week rule)
                (seed_label (r_day_of_week rule) (r_open rule) (r_close rule)) (r_open rule) (r_close rule) n [] h)
       (\<lambda>(h', _). andthen (seed_rows tn (n + 1) rules h') (\<lambda>(h'', k). Inr (h'', k + 1)))"

definition seed_templates ::
  "uuid \<Rightarrow> house \<Rightarrow> error + house \<times> nat" where
  "seed_templates tn h =
     andthen (ensure (Shift_error Templates_already_seeded) (list_templates tn h = [])) (\<lambda>_.
     let rules = list_active_rules tn (h_db h) in
     andthen (ensure (Shift_error No_opening_hours) (rules \<noteq> [])) (\<lambda>_.
     andthen (seed_rows tn 0 (sort_key (\<lambda>r. (r_day_of_week r, r_open r)) rules) h) (\<lambda>(h', k).
     Inr (log tn (Shift_action Templates_seeded) (Some tn) h', k))))"
section \<open>Submitting availability\<close>

definition is_available_for_week :: "staff_user \<Rightarrow> date \<Rightarrow> bool" where
  "is_available_for_week s ends \<longleftrightarrow>
     \<not> su_deleted s \<and> (case su_last_day s of None \<Rightarrow> True | Some d \<Rightarrow> d \<ge> ends)"

text \<open>A request is a list of (template, state) pairs; a later pair for a template replaces an earlier
  one, in the place of the first (Python's dict).\<close>

definition requested_of :: "(uuid \<times> availability_state) list \<Rightarrow> (uuid \<times> availability_state) list" where
  "requested_of entries = foldl (\<lambda>d (k, v). AList.update k v d) [] entries"

definition plan_week_write ::
  "(uuid \<times> availability_state \<times> uuid option) list \<Rightarrow> (uuid \<times> availability_state) list \<Rightarrow> uuid option
   \<Rightarrow> uuid list \<times> uuid list" where
  "plan_week_write existing requested by =
     (map fst (filter (\<lambda>(t, st). map_of existing t \<noteq> Some (st, by)) requested),
      filter (\<lambda>t. t \<notin> fst ` set requested) (map fst existing))"

fun write_states ::
  "uuid \<Rightarrow> uuid \<Rightarrow> date \<Rightarrow> (uuid \<times> availability_state) list \<Rightarrow> uuid option \<Rightarrow> uuid list \<Rightarrow> house
   \<Rightarrow> error + house \<times> unit" where
  "write_states tn staff week requested by [] h = Inr (h, ())"
| "write_states tn staff week requested by (t # ts) h =
     andthen (need (Runtime_error ''KeyError'') (map_of requested t)) (\<lambda>st.
     andthen (set_state tn staff t week st by h) (\<lambda>(h', _).
     write_states tn staff week requested by ts h'))"

definition existing_entries :: "uuid \<Rightarrow> date \<Rightarrow> uuid \<Rightarrow> house \<Rightarrow> (uuid \<times> availability_state \<times> uuid option) list" where
  "existing_entries tn week staff h =
     map (\<lambda>r. (av_template r, av_state r, av_recorded_by r)) (live_for_week tn week (Some staff) h)"

definition apply_submission ::
  "uuid \<Rightarrow> staff_context \<Rightarrow> uuid \<Rightarrow> date \<Rightarrow> (uuid \<times> availability_state) list \<Rightarrow> house \<Rightarrow> error + house \<times> unit" where
  "apply_submission tn actor target week entries h =
     (let by = (if target \<noteq> sc_id actor then Some (sc_id actor) else None) in
      andthen (case staff_by_id tn target h of
                 None \<Rightarrow> Inl (Shift_error Shift_not_found)
               | Some s \<Rightarrow> ensure (Shift_error Shift_not_found) (is_available_for_week s (week_end week))) (\<lambda>_.
      let requested = requested_of entries;
          live = map st_id (list_templates tn h) in
      andthen (ensure (Shift_error Shift_not_found) (fst ` set requested \<subseteq> set live)) (\<lambda>_.
      let (changed, cleared) = plan_week_write (existing_entries tn week target h) requested by in
      if changed = [] \<and> cleared = [] then Inr (h, ())
      else
        andthen (write_states tn target week requested by changed h) (\<lambda>(h1, _).
        andthen (soft_delete_pairs tn target week cleared h1) (\<lambda>(h2, _).
        Inr (log tn (Shift_action Availability_submitted) (Some target) h2, ()))))))"

definition authorize_shift :: "uuid \<Rightarrow> staff_context \<Rightarrow> error + unit" where
  "authorize_shift staff actor =
     ensure (Staff_error Not_authorized) (\<not> (staff \<noteq> sc_id actor \<and> \<not> elevated actor))"

text \<open>The write is tried once more, on what the database has become (\<open>between\<close>), when a constraint
  refused it the first time.\<close>

definition submit_availability ::
  "env \<Rightarrow> (json \<Rightarrow> wall option) \<Rightarrow> (string \<times> json) list \<Rightarrow> uuid \<Rightarrow> staff_context \<Rightarrow> uuid option \<Rightarrow> date
   \<Rightarrow> (uuid \<times> availability_state) list \<Rightarrow> instant \<Rightarrow> (house \<Rightarrow> house) \<Rightarrow> house \<Rightarrow> error + house \<times> unit" where
  "submit_availability e parse settings tn actor staff week entries now between h =
     (let target = given staff (sc_id actor);
          current = current_week_start (today_jerusalem (e_zone e) now) in
      andthen (authorize_shift target actor) (\<lambda>_.
      andthen (assert_writable_week week current) (\<lambda>_.
      andthen (deadline (e_zone e) parse settings week) (\<lambda>closes.
      andthen (ensure (Shift_error Submission_closed) (\<not> (now \<ge> closes \<and> \<not> elevated actor))) (\<lambda>_.
      case apply_submission tn actor target week entries h of
        Inr done \<Rightarrow> Inr done
      | Inl err \<Rightarrow>
          if is_integrity err then apply_submission tn actor target week entries (between h)
          else Inl err)))))"

definition week_locked ::
  "env \<Rightarrow> date \<Rightarrow> date \<Rightarrow> staff_context \<Rightarrow> instant \<Rightarrow> instant \<Rightarrow> bool" where
  "week_locked e week current actor closes now \<longleftrightarrow>
     (case assert_writable_week week current of
        Inl _ \<Rightarrow> True
      | Inr _ \<Rightarrow> if elevated actor then False else now \<ge> closes)"

section \<open>Rosters\<close>

definition roster_by_week :: "uuid \<Rightarrow> date \<Rightarrow> house \<Rightarrow> roster option" where
  "roster_by_week tn week h = find (\<lambda>r. ro_tenant r = tn \<and> ro_week r = week \<and> \<not> ro_deleted r) (h_rosters h)"

definition roster_named :: "uuid \<Rightarrow> uuid \<Rightarrow> roster \<Rightarrow> bool" where
  "roster_named tn i r \<longleftrightarrow> ro_tenant r = tn \<and> ro_id r = i \<and> \<not> ro_deleted r"

definition roster_by_id :: "uuid \<Rightarrow> uuid \<Rightarrow> house \<Rightarrow> roster option" where
  "roster_by_id tn i h = find (roster_named tn i) (h_rosters h)"

definition create_roster :: "uuid \<Rightarrow> date \<Rightarrow> house \<Rightarrow> error + house \<times> roster" where
  "create_roster tn week =
     add_row h_rosters h_rosters_update rosters_ok
       (\<lambda>i. \<lparr>ro_id = i, ro_tenant = tn, ro_week = week, ro_published_at = None, ro_published_by = None,
             ro_deleted = False\<rparr>)"

definition roster_for_week :: "uuid \<Rightarrow> date \<Rightarrow> house \<Rightarrow> error + house \<times> roster" where
  "roster_for_week tn week h =
     (case roster_by_week tn week h of Some r \<Rightarrow> Inr (h, r) | None \<Rightarrow> create_roster tn week h)"

definition stamp_published :: "uuid \<Rightarrow> uuid \<Rightarrow> uuid \<Rightarrow> house \<Rightarrow> error + house \<times> bool" where
  "stamp_published tn i by h =
     change_rows h_rosters h_rosters_update rosters_ok (roster_named tn i)
       (\<lambda>r. r\<lparr>ro_published_at := Some (h_now h), ro_published_by := Some by\<rparr>) h"

definition rows_of_roster :: "uuid \<Rightarrow> uuid \<Rightarrow> house \<Rightarrow> roster_row list" where
  "rows_of_roster tn roster h =
     filter (\<lambda>r. ra_tenant r = tn \<and> ra_roster r = roster \<and> \<not> ra_deleted r) (h_roster_rows h)"

definition rows_of_staff :: "uuid \<Rightarrow> uuid \<Rightarrow> uuid \<Rightarrow> house \<Rightarrow> roster_row list" where
  "rows_of_staff tn roster staff h = filter (\<lambda>r. ra_staff r = staff) (rows_of_roster tn roster h)"

definition roster_row_named :: "uuid \<Rightarrow> uuid \<Rightarrow> roster_row \<Rightarrow> bool" where
  "roster_row_named tn i r \<longleftrightarrow> ra_tenant r = tn \<and> ra_id r = i \<and> \<not> ra_deleted r"

definition roster_row_by_id :: "uuid \<Rightarrow> uuid \<Rightarrow> house \<Rightarrow> roster_row option" where
  "roster_row_by_id tn i h = find (roster_row_named tn i) (h_roster_rows h)"

definition live_for_triple :: "uuid \<Rightarrow> uuid \<Rightarrow> uuid \<Rightarrow> uuid \<Rightarrow> house \<Rightarrow> roster_row option" where
  "live_for_triple tn roster template staff h =
     find (\<lambda>r. ra_template r = template \<and> ra_staff r = staff) (rows_of_roster tn roster h)"

definition ASSIGNMENT_INDEX :: string where "ASSIGNMENT_INDEX = ''idx_roster_assignments_unique''"
definition MANAGER_INDEX :: string where "MANAGER_INDEX = ''idx_roster_assignments_manager_unique''"

definition roster_indexes :: "(string \<times> (roster_row list \<Rightarrow> bool)) list" where
  "roster_indexes =
     [(ASSIGNMENT_INDEX, unique_on (\<lambda>r. \<not> ra_deleted r)
         (\<lambda>r. (ra_tenant r, ra_roster r, ra_template r, ra_staff r))),
      (MANAGER_INDEX, unique_on (\<lambda>r. \<not> ra_deleted r \<and> ra_manager r)
         (\<lambda>r. (ra_tenant r, ra_roster r, ra_template r)))]"

definition insert_roster_row ::
  "uuid \<Rightarrow> uuid \<Rightarrow> uuid \<Rightarrow> uuid \<Rightarrow> uuid \<Rightarrow> bool \<Rightarrow> availability_state option \<Rightarrow> house
   \<Rightarrow> error + house \<times> roster_row" where
  "insert_roster_row tn roster template staff by manager override h =
     (let mk = (\<lambda>i. \<lparr>ra_id = i, ra_tenant = tn, ra_roster = roster, ra_template = template, ra_staff = staff,
                     ra_manager = manager, ra_assigned_by = by, ra_override = override,
                     ra_created_at = h_now h, ra_updated_at = None, ra_deleted = False\<rparr>) in
      blame roster_indexes (h_roster_rows h @ [mk (h_next h)])
        (add_row h_roster_rows h_roster_rows_update roster_rows_ok mk h))"

text \<open>The table's trigger stamps \<open>updated_at\<close> on every UPDATE.\<close>

definition change_roster_row ::
  "uuid \<Rightarrow> uuid \<Rightarrow> (roster_row \<Rightarrow> roster_row) \<Rightarrow> house \<Rightarrow> error + house \<times> bool" where
  "change_roster_row tn i f h =
     (let g = (\<lambda>r. (f r)\<lparr>ra_updated_at := Some (h_now h)\<rparr>) in
      blame roster_indexes (update_where (roster_row_named tn i) g (h_roster_rows h))
        (change_rows h_roster_rows h_roster_rows_update roster_rows_ok (roster_row_named tn i) g h))"

definition set_manager_flag :: "uuid \<Rightarrow> uuid \<Rightarrow> bool \<Rightarrow> house \<Rightarrow> error + house \<times> bool" where
  "set_manager_flag tn i manager = change_roster_row tn i (\<lambda>r. r\<lparr>ra_manager := manager\<rparr>)"

definition delete_roster_row :: "uuid \<Rightarrow> uuid \<Rightarrow> house \<Rightarrow> error + house \<times> roster_row option" where
  "delete_roster_row tn i h =
     (case roster_row_by_id tn i h of
        None \<Rightarrow> Inr (h, None)
      | Some before \<Rightarrow>
          andthen (change_roster_row tn i (\<lambda>r. r\<lparr>ra_deleted := True\<rparr>) h)
            (\<lambda>(h', hit). Inr (h', if hit then Some before else None)))"

definition changed_since :: "uuid \<Rightarrow> uuid \<Rightarrow> instant \<Rightarrow> house \<Rightarrow> bool" where
  "changed_since tn roster since h \<longleftrightarrow>
     list_ex (\<lambda>r. ra_tenant r = tn \<and> ra_roster r = roster
       \<and> (ra_created_at r > since \<or> (case ra_updated_at r of None \<Rightarrow> False | Some upd \<Rightarrow> upd > since)))
       (h_roster_rows h)"

definition template_covers :: "shift_template \<Rightarrow> wall \<Rightarrow> int \<Rightarrow> bool" where
  "template_covers t local_time day \<longleftrightarrow>
     st_day t = day \<and> st_starts t \<le> local_time \<and> local_time < st_ends t"

text \<open>The join of roster rows with their published roster and their template, on this moment's week,
  day and time.\<close>

definition on_shift_staff_ids :: "zone \<Rightarrow> uuid \<Rightarrow> instant \<Rightarrow> house \<Rightarrow> uuid list" where
  "on_shift_staff_ids z tn at h =
     (let (local_date, local_time, day) = jerusalem_moment z at; week = current_week_start local_date in
      map ra_staff (filter (\<lambda>a. ra_tenant a = tn \<and> \<not> ra_deleted a
        \<and> list_ex (\<lambda>r. ro_id r = ra_roster a \<and> ro_tenant r = tn \<and> \<not> ro_deleted r \<and> ro_week r = week
                      \<and> ro_published_at r \<noteq> None) (h_rosters h)
        \<and> list_ex (\<lambda>t. st_id t = ra_template a \<and> st_tenant t = tn \<and> \<not> st_deleted t
                      \<and> template_covers t local_time day) (h_templates h)) (h_roster_rows h)))"

datatype on_shift_source = Manual_today | From_roster | Fallback

definition on_shift_at ::
  "date option \<Rightarrow> bool option \<Rightarrow> bool \<Rightarrow> bool \<Rightarrow> date \<Rightarrow> bool \<times> on_shift_source" where
  "on_shift_at overridden_day override_value published rostered_now local_date =
     (case (override_value, overridden_day = Some local_date) of
        (Some v, True) \<Rightarrow> (v, Manual_today)
      | _ \<Rightarrow> if published then (rostered_now, From_roster) else (True, Fallback))"

definition her_published_shifts :: "uuid \<Rightarrow> date \<Rightarrow> uuid \<Rightarrow> house \<Rightarrow> bool \<times> uuid list" where
  "her_published_shifts tn week staff h =
     (case roster_by_week tn week h of
        None \<Rightarrow> (False, [])
      | Some r \<Rightarrow>
          if ro_published_at r = None then (False, [])
          else (True, map ra_template (rows_of_staff tn (ro_id r) staff h)))"

section \<open>The roster handlers\<close>

record shift_view =
  sv_template :: shift_template
  sv_rows :: "(roster_row \<times> utext \<times> staff_role \<times> availability_state option) list"
  sv_by_role :: "staff_role \<Rightarrow> nat"

text \<open>Only rows of live members are shown and counted; the override is shown to managers alone.\<close>

definition shift_response ::
  "uuid \<Rightarrow> shift_template \<Rightarrow> roster_row list \<Rightarrow> (uuid \<Rightarrow> staff_user option) \<Rightarrow> bool \<Rightarrow> shift_view" where
  "shift_response tn template rows staff reveal =
     (let shown = filter (\<lambda>r. ra_template r = st_id template \<and> staff (ra_staff r) \<noteq> None) rows in
      \<lparr>sv_template = template,
       sv_rows = map (\<lambda>r. (r, su_name (the (staff (ra_staff r))), su_role (the (staff (ra_staff r))),
                         if reveal then ra_override r else None)) shown,
       sv_by_role = (\<lambda>role. length (filter (\<lambda>r. su_role (the (staff (ra_staff r))) = role) shown))\<rparr>)"

definition shift_payload :: "uuid \<Rightarrow> shift_template \<Rightarrow> uuid \<Rightarrow> house \<Rightarrow> shift_view" where
  "shift_payload tn template roster h =
     shift_response tn template (rows_of_roster tn roster h) (\<lambda>i. staff_by_id tn i h) True"

text \<open>A shift is short when some role has fewer people than its target; a role without a target never is.\<close>

definition short_shift :: "shift_view \<Rightarrow> bool" where
  "short_shift v \<longleftrightarrow> list_ex (\<lambda>(role, target). int (sv_by_role v role) < target) (st_targets (sv_template v))"

definition shortage_count :: "shift_view list \<Rightarrow> nat" where
  "shortage_count shifts = length (filter short_shift shifts)"

record assignment_request =
  aq_week :: date
  aq_template :: uuid
  aq_staff :: uuid
  aq_manager :: bool
  aq_acknowledge :: bool

definition override_stamp :: "availability_state option \<Rightarrow> bool \<Rightarrow> error + availability_state option" where
  "override_stamp submitted acknowledged =
     (if submitted \<noteq> Some Unavailable then Inr None
      else if \<not> acknowledged then Inl (Shift_error Availability_conflict)
      else Inr submitted)"

definition submitted_state :: "uuid \<Rightarrow> date \<Rightarrow> uuid \<Rightarrow> uuid \<Rightarrow> house \<Rightarrow> availability_state option" where
  "submitted_state tn week staff template h =
     map_option av_state (find (\<lambda>r. av_template r = template) (live_for_week tn week (Some staff) h))"

definition apply_assignment ::
  "uuid \<Rightarrow> staff_context \<Rightarrow> assignment_request \<Rightarrow> house \<Rightarrow> error + house \<times> shift_view" where
  "apply_assignment tn actor q h =
     andthen (need (Shift_error Shift_not_found) (template_by_id tn (aq_template q) h)) (\<lambda>template.
     andthen (need (Shift_error Shift_not_found) (staff_by_id tn (aq_staff q) h)) (\<lambda>staffer.
     andthen (ensure (Shift_error Shift_not_found) (is_available_for_week staffer (week_end (aq_week q)))) (\<lambda>_.
     andthen (ensure (Shift_error Not_shift_manager_eligible) (\<not> (aq_manager q \<and> \<not> su_eligible staffer))) (\<lambda>_.
     andthen (roster_for_week tn (aq_week q) h) (\<lambda>(h1, roster).
     (case live_for_triple tn (ro_id roster) (aq_template q) (aq_staff q) h1 of
        Some live \<Rightarrow>
          if ra_manager live = aq_manager q then Inr (h1, shift_payload tn template (ro_id roster) h1)
          else andthen (set_manager_flag tn (ra_id live) (aq_manager q) h1) (\<lambda>(h2, _).
               let h3 = log tn (Shift_action Roster_assigned) (Some (ra_id live)) h2 in
               Inr (h3, shift_payload tn template (ro_id roster) h3))
      | None \<Rightarrow>
          andthen (override_stamp (submitted_state tn (aq_week q) (aq_staff q) (aq_template q) h1)
                     (aq_acknowledge q)) (\<lambda>override.
          andthen (insert_roster_row tn (ro_id roster) (aq_template q) (aq_staff q) (sc_id actor)
                     (aq_manager q) override h1) (\<lambda>(h2, r).
          let h3 = log tn (Shift_action Roster_assigned) (Some (ra_id r)) h2 in
          Inr (h3, shift_payload tn template (ro_id roster) h3)))))))))"

definition manager_conflict :: "error \<Rightarrow> error" where
  "manager_conflict err = (if err = Unique_violation MANAGER_INDEX then Shift_error Shift_manager_slot_taken else err)"

definition assert_elevated :: "staff_context \<Rightarrow> error + unit" where
  "assert_elevated actor = ensure (Staff_error Not_authorized) (elevated actor)"

definition assign_shift ::
  "env \<Rightarrow> uuid \<Rightarrow> staff_context \<Rightarrow> assignment_request \<Rightarrow> instant \<Rightarrow> (house \<Rightarrow> house) \<Rightarrow> house
   \<Rightarrow> error + house \<times> shift_view" where
  "assign_shift e tn actor q now between h =
     andthen (assert_elevated actor) (\<lambda>_.
     andthen (assert_readable_week (aq_week q) (current_week_start (today_jerusalem (e_zone e) now))) (\<lambda>_.
     case apply_assignment tn actor q h of
       Inr done \<Rightarrow> Inr done
     | Inl err \<Rightarrow>
         if \<not> is_integrity err \<or> err = Unique_violation MANAGER_INDEX then Inl (manager_conflict err)
         else (case apply_assignment tn actor q (between h) of
                 Inr done \<Rightarrow> Inr done | Inl err' \<Rightarrow> Inl (manager_conflict err'))))"

definition unassign_shift :: "uuid \<Rightarrow> staff_context \<Rightarrow> uuid \<Rightarrow> house \<Rightarrow> error + house \<times> shift_view" where
  "unassign_shift tn actor i h =
     andthen (assert_elevated actor) (\<lambda>_.
     andthen (delete_roster_row tn i h) (\<lambda>(h1, removed).
     andthen (need (Shift_error Shift_not_found) removed) (\<lambda>gone.
     andthen (need (Shift_error Shift_not_found) (roster_by_id tn (ra_roster gone) h1)) (\<lambda>roster.
     andthen (need (Shift_error Shift_not_found) (template_by_id tn (ra_template gone) h1)) (\<lambda>template.
     let h2 = log tn (Shift_action Roster_unassigned) (Some i) h1 in
     Inr (h2, shift_payload tn template (ro_id roster) h2))))))"

record roster_view =
  rv_week :: date
  rv_published_at :: "instant option"
  rv_published_by :: "utext option"
  rv_edited :: bool
  rv_shifts :: "shift_view list"
  rv_staff :: "(staff_user \<times> (uuid \<times> availability_state) list) list"

definition roster_week ::
  "env \<Rightarrow> uuid \<Rightarrow> staff_context \<Rightarrow> date option \<Rightarrow> instant \<Rightarrow> house \<Rightarrow> error + roster_view" where
  "roster_week e tn actor week now h =
     andthen (assert_elevated actor) (\<lambda>_.
     andthen (target_week week (today_jerusalem (e_zone e) now)) (\<lambda>target.
     let staff = filter (\<lambda>s. is_available_for_week s (week_end target)) (list_live_staff tn h);
         entries = live_for_week tn target None h;
         roster = roster_by_week tn target h;
         rows = (case roster of None \<Rightarrow> [] | Some r \<Rightarrow> rows_of_roster tn (ro_id r) h);
         published = (case roster of None \<Rightarrow> None | Some r \<Rightarrow> ro_published_at r) in
     Inr \<lparr>rv_week = target,
          rv_published_at = published,
          rv_published_by = (case roster of None \<Rightarrow> None
             | Some r \<Rightarrow> if published = None then None
                 else (case ro_published_by r of None \<Rightarrow> None
                       | Some i \<Rightarrow> map_option su_name (staff_by_id tn i h))),
          rv_edited = (case (roster, published) of
             (Some r, Some at) \<Rightarrow> changed_since tn (ro_id r) at h | _ \<Rightarrow> False),
          rv_shifts = map (\<lambda>t. shift_response tn t rows (\<lambda>i. find (\<lambda>s. su_id s = i) staff) True) (list_templates tn h),
          rv_staff = map (\<lambda>s. (s, map (\<lambda>a. (av_template a, av_state a))
                                 (filter (\<lambda>a. av_staff a = su_id s) entries))) staff\<rparr>))"

text \<open>Publishing what has not changed since it was published writes nothing; the answer is read in a
  transaction of its own.\<close>

definition publish_roster ::
  "env \<Rightarrow> uuid \<Rightarrow> staff_context \<Rightarrow> date \<Rightarrow> instant \<Rightarrow> house \<Rightarrow> error + house \<times> roster_view" where
  "publish_roster e tn actor week now h =
     andthen (assert_elevated actor) (\<lambda>_.
     andthen (assert_readable_week week (current_week_start (today_jerusalem (e_zone e) now))) (\<lambda>_.
     andthen (roster_for_week tn week h) (\<lambda>(h1, roster).
     andthen (if (case ro_published_at roster of None \<Rightarrow> False | Some at \<Rightarrow> \<not> changed_since tn (ro_id roster) at h1)
              then Inr h1
              else andthen (stamp_published tn (ro_id roster) (sc_id actor) h1) (\<lambda>(h2, _).
                   Inr (log tn (Shift_action Roster_published) (Some (ro_id roster)) h2))) (\<lambda>h3.
     andthen (roster_week e tn actor (Some week) now h3) (\<lambda>view. Inr (h3, view))))))"

definition published_roster ::
  "env \<Rightarrow> uuid \<Rightarrow> date option \<Rightarrow> instant \<Rightarrow> house \<Rightarrow> error + (instant \<times> shift_view list) option" where
  "published_roster e tn week now h =
     andthen (target_week week (today_jerusalem (e_zone e) now)) (\<lambda>target.
     Inr (case roster_by_week tn target h of
            None \<Rightarrow> None
          | Some r \<Rightarrow>
              (case ro_published_at r of
                 None \<Rightarrow> None
               | Some at \<Rightarrow> Some (at,
                   map (\<lambda>t. shift_response tn t (rows_of_roster tn (ro_id r) h) (\<lambda>i. staff_by_id tn i h) False)
                     (list_templates tn h)))))"

text \<open>\<open>week\<close> and the answer of \<open>submit\<close>: one member's week; \<open>submissions\<close>: everybody's.\<close>

record week_view =
  wv_week :: date
  wv_deadline :: instant
  wv_locked :: bool
  wv_templates :: "shift_template list"
  wv_entries :: "(availability \<times> utext option) list"
  wv_published :: bool
  wv_rostered :: "uuid list"

definition entry_response :: "uuid \<Rightarrow> house \<Rightarrow> availability \<Rightarrow> availability \<times> utext option" where
  "entry_response tn h r =
     (r, case av_recorded_by r of None \<Rightarrow> None | Some i \<Rightarrow> map_option su_name (staff_by_id tn i h))"

definition week_of_member ::
  "env \<Rightarrow> uuid \<Rightarrow> staff_context \<Rightarrow> uuid \<Rightarrow> date \<Rightarrow> date \<Rightarrow> instant \<Rightarrow> instant \<Rightarrow> house \<Rightarrow> week_view" where
  "week_of_member e tn actor staff target current closes now h =
     \<lparr>wv_week = target, wv_deadline = closes, wv_locked = week_locked e target current actor closes now,
      wv_templates = list_templates tn h,
      wv_entries = map (entry_response tn h) (live_for_week tn target (Some staff) h),
      wv_published = fst (her_published_shifts tn target staff h),
      wv_rostered = snd (her_published_shifts tn target staff h)\<rparr>"

definition shift_week ::
  "env \<Rightarrow> (json \<Rightarrow> wall option) \<Rightarrow> (string \<times> json) list \<Rightarrow> uuid \<Rightarrow> staff_context \<Rightarrow> date option \<Rightarrow> instant
   \<Rightarrow> house \<Rightarrow> error + week_view" where
  "shift_week e parse settings tn actor week now h =
     (let today = today_jerusalem (e_zone e) now in
      andthen (target_week week today) (\<lambda>target.
      andthen (deadline (e_zone e) parse settings target) (\<lambda>closes.
      Inr (week_of_member e tn actor (sc_id actor) target (current_week_start today) closes now h))))"

definition submissions ::
  "env \<Rightarrow> uuid \<Rightarrow> date option \<Rightarrow> instant \<Rightarrow> house \<Rightarrow> error + (staff_user \<times> bool \<times> (availability \<times> utext option) list) list \<times> nat" where
  "submissions e tn week now h =
     andthen (target_week week (today_jerusalem (e_zone e) now)) (\<lambda>target.
     let staff = filter (\<lambda>s. is_available_for_week s (week_end target)) (list_live_staff tn h);
         rows = map (\<lambda>s. let es = filter (\<lambda>a. av_staff a = su_id s) (live_for_week tn target None h) in
                         (s, es \<noteq> [], map (entry_response tn h) es)) staff in
     Inr (rows, length (filter (\<lambda>(s, done, es). done) rows)))"

section \<open>A submitted week is the stored week\<close>

text \<open>One cell of a member's week, and the week as the map the rows stand for.\<close>

definition cell :: "uuid \<Rightarrow> uuid \<Rightarrow> date \<Rightarrow> uuid \<Rightarrow> availability \<Rightarrow> bool" where
  "cell tn staff week template r \<longleftrightarrow>
     av_tenant r = tn \<and> av_staff r = staff \<and> av_template r = template \<and> av_week r = week \<and> \<not> av_deleted r"

definition stored_week :: "uuid \<Rightarrow> date \<Rightarrow> uuid \<Rightarrow> house \<Rightarrow> uuid \<rightharpoonup> availability_state \<times> uuid option" where
  "stored_week tn week staff h = map_of (existing_entries tn week staff h)"

lemma map_of_filtered: "map_of (map (\<lambda>r. (k r, v r)) (filter P rows)) x = map_option v (find (\<lambda>r. P r \<and> k r = x) rows)"
  by (induction rows) auto

lemma stored_week_find:
  "stored_week tn week staff h t =
     map_option (\<lambda>r. (av_state r, av_recorded_by r)) (find (cell tn staff week t) (h_availabilities h))"
  by (simp add: stored_week_def existing_entries_def live_for_week_def map_of_filtered cell_def [abs_def]
      conj_commute conj_left_commute)

lemma find_update_hit:
  "(\<And>r. P r \<Longrightarrow> P (f r)) \<Longrightarrow> find P (update_where P f rows) = map_option f (find P rows)"
  by (induction rows) auto

lemma find_list_ex: "find P rows = None \<longleftrightarrow> \<not> list_ex P rows"
  by (simp add: find_None_Ball list_ex_iff)

lemma set_state_stored:
  assumes "set_state tn staff t week st by h = Inr (h', z)"
  shows "stored_week tn week staff h' = (stored_week tn week staff h)(t \<mapsto> (st, by))"
proof
  fix x
  let ?P = "cell tn staff week t" and ?f = "\<lambda>r. r\<lparr>av_state := st, av_recorded_by := by\<rparr>"
  have P: "(\<lambda>r. av_tenant r = tn \<and> av_staff r = staff \<and> av_template r = t \<and> av_week r = week \<and> \<not> av_deleted r) = ?P"
    by (simp add: cell_def [abs_def])
  have other: "find (cell tn staff week x) (update_where ?P ?f rows) = find (cell tn staff week x) rows" if "x \<noteq> t" for rows
    using that by (intro find_update_where_other) (auto simp: cell_def)
  have hit: "find ?P (update_where ?P ?f rows) = map_option ?f (find ?P rows)" for rows
    by (rule find_update_hit) (simp add: cell_def)
  show "stored_week tn week staff h' x = ((stored_week tn week staff h)(t \<mapsto> (st, by))) x"
  proof (cases "list_ex ?P (h_availabilities h)")
    case True
    then obtain r where "find ?P (h_availabilities h) = Some r" by (cases "find ?P (h_availabilities h)") (auto simp: find_list_ex)
    with True assms other hit show ?thesis
      by (cases "x = t") (auto simp: set_state_def P andthen_eq_Inr change_rows_Inr stored_week_find)
  next
    case False
    with assms have "h_availabilities h' = h_availabilities h @
      [\<lparr>av_id = h_next h, av_tenant = tn, av_staff = staff, av_template = t, av_week = week, av_state = st,
        av_recorded_by = by, av_deleted = False\<rparr>]"
      by (auto simp: set_state_def P andthen_eq_Inr change_rows_Inr add_row_Inr update_where_none h_next_def)
    with False show ?thesis
      by (cases "x = t") (auto simp: stored_week_find find_append find_list_ex [symmetric] cell_def split: option.splits)
  qed
qed

lemma write_states_stored:
  assumes "write_states tn staff week requested by ts h = Inr (h', z)"
  shows "set ts \<subseteq> dom (map_of requested)
    \<and> stored_week tn week staff h' = (\<lambda>t. if t \<in> set ts then map_option (\<lambda>st. (st, by)) (map_of requested t)
        else stored_week tn week staff h t)"
  using assms
proof (induction ts arbitrary: h)
  case (Cons t ts)
  then obtain st h1 where st: "map_of requested t = Some st"
    and w: "set_state tn staff t week st by h = Inr (h1, ())"
    and rest: "write_states tn staff week requested by ts h1 = Inr (h', z)"
    by (auto simp: andthen_eq_Inr)
  from Cons.IH [OF rest] set_state_stored [OF w] st show ?case by (auto intro!: ext)
qed simp

lemma soft_delete_pairs_stored:
  assumes "soft_delete_pairs tn staff week ts h = Inr (h', z)"
  shows "stored_week tn week staff h' = (\<lambda>t. if t \<in> set ts then None else stored_week tn week staff h t)"
proof
  fix t
  let ?Q = "\<lambda>r. av_tenant r = tn \<and> av_staff r = staff \<and> av_week r = week \<and> av_template r \<in> set ts \<and> \<not> av_deleted r"
  have "h_availabilities h' = update_where ?Q (\<lambda>r. r\<lparr>av_deleted := True\<rparr>) (h_availabilities h)"
    using assms by (auto simp: soft_delete_pairs_def change_rows_Inr update_where_def split: if_splits)
  moreover have "find (cell tn staff week t) (update_where ?Q (\<lambda>r. r\<lparr>av_deleted := True\<rparr>) rows)
      = (if t \<in> set ts then None else find (cell tn staff week t) rows)" for rows
  proof (cases "t \<in> set ts")
    case True
    then have "\<not> cell tn staff week t (if ?Q r then r\<lparr>av_deleted := True\<rparr> else r)" for r
      by (simp add: cell_def)
    then have "find (cell tn staff week t) (update_where ?Q (\<lambda>r. r\<lparr>av_deleted := True\<rparr>) rows) = None"
      unfolding find_None_Ball set_update_where by blast
    with True show ?thesis by simp
  next
    case False
    then show ?thesis by simp (rule find_update_where_other, auto simp: cell_def)
  qed
  ultimately show "stored_week tn week staff h' t = (if t \<in> set ts then None else stored_week tn week staff h t)"
    by (simp add: stored_week_find)
qed

lemma map_of_requested: "map_of (requested_of entries) = map_of (rev entries)"
proof -
  have "map_of (foldl (\<lambda>d (k, v). AList.update k v d) d es) = map_of d ++ map_of (rev es)" for d :: "(uuid \<times> availability_state) list" and es
    by (induction es arbitrary: d) (auto simp: update_conv' map_add_def fun_eq_iff split: option.splits)
  then show ?thesis by (simp add: requested_of_def)
qed

lemma apply_submission_stored:
  assumes "apply_submission tn actor target week entries h = Inr (h', z)"
  shows "stored_week tn week target h' = (\<lambda>t. map_option
    (\<lambda>st. (st, if target \<noteq> sc_id actor then Some (sc_id actor) else None)) (map_of (rev entries) t))"
proof -
  let ?by = "if target \<noteq> sc_id actor then Some (sc_id actor) else None"
  let ?req = "requested_of entries" and ?old = "existing_entries tn week target h"
  define changed where "changed = fst (plan_week_write ?old ?req ?by)"
  define cleared where "cleared = snd (plan_week_write ?old ?req ?by)"
  have kept: "stored_week tn week target h t = map_option (\<lambda>st. (st, ?by)) (map_of ?req t)"
    if "t \<notin> set changed" "t \<notin> set cleared" for t
  proof (cases "map_of ?req t")
    case None
    with that(2) have "map_of ?old t = None"
      by (auto simp: cleared_def plan_week_write_def map_of_eq_None_iff)
    with None show ?thesis by (simp add: stored_week_def)
  next
    case (Some st)
    from map_of_SomeD [OF Some] that(1) have "map_of ?old t = Some (st, ?by)"
      by (force simp: changed_def plan_week_write_def)
    with Some show ?thesis by (simp add: stored_week_def)
  qed
  have gone: "map_of ?req t = None" if "t \<in> set cleared" for t
    using that by (auto simp: cleared_def plan_week_write_def map_of_eq_None_iff)
  have "stored_week tn week target h' = (\<lambda>t. map_option (\<lambda>st. (st, ?by)) (map_of ?req t))"
  proof (cases "changed = [] \<and> cleared = []")
    case True
    with assms have "h' = h"
      by (auto simp: apply_submission_def andthen_eq_Inr Let_def changed_def cleared_def split: prod.splits)
    with True kept show ?thesis by (auto intro!: ext)
  next
    case False
    with assms obtain h1 h2 v w where w1: "write_states tn target week ?req ?by changed h = Inr (h1, v)"
      and w2: "soft_delete_pairs tn target week cleared h1 = Inr (h2, w)"
      and h': "h_availabilities h' = h_availabilities h2"
      by (auto simp: apply_submission_def andthen_eq_Inr Let_def changed_def cleared_def split: prod.splits)
    have "stored_week tn week target h' = stored_week tn week target h2"
      by (rule ext) (simp add: stored_week_find h')
    with write_states_stored [OF w1] soft_delete_pairs_stored [OF w2] kept gone show ?thesis
      by (auto intro!: ext)
  qed
  then show ?thesis by (simp add: map_of_requested)
qed

text \<open>C36. What a member submits is what her week then holds: after an accepted submission the stored states of the
  week are exactly the last state named for each template, stamped with who recorded them when it was
  not herself; and only a manager submits for somebody else or past the deadline, and nobody for a week that has begun.\<close>

theorem submitted_week_is_stored:
  assumes "submit_availability e parse settings tn actor staff week entries now between h = Inr (h', z)"
  shows "map_of (existing_entries tn week (given staff (sc_id actor)) h') =
      (\<lambda>t. map_option (\<lambda>st. (st, if given staff (sc_id actor) \<noteq> sc_id actor then Some (sc_id actor) else None))
         (map_of (rev entries) t))
    \<and> (elevated actor \<or> given staff (sc_id actor) = sc_id actor
        \<and> (\<exists>closes. deadline (e_zone e) parse settings week = Inr closes \<and> now < closes))
    \<and> current_week_start (today_jerusalem (e_zone e) now) < week"
proof -
  let ?target = "given staff (sc_id actor)"
  from assms have guards: "(elevated actor \<or> ?target = sc_id actor
        \<and> (\<exists>closes. deadline (e_zone e) parse settings week = Inr closes \<and> now < closes))
    \<and> current_week_start (today_jerusalem (e_zone e) now) < week"
    by (auto simp: submit_availability_def authorize_shift_def assert_writable_week_def andthen_eq_Inr Let_def)
  from assms obtain h0 where "apply_submission tn actor ?target week entries h0 = Inr (h', z)"
    by (auto simp: submit_availability_def andthen_eq_Inr Let_def split: sum.splits if_splits)
  from apply_submission_stored [OF this] guards show ?thesis by (simp add: stored_week_def)
qed

definition sample_template :: shift_template where
  "sample_template = \<lparr>st_id = 31, st_tenant = 7, st_day = 1, st_label = [65], st_starts = hours 9, st_ends = hours 17,
     st_order = 0, st_targets = [(Seamstress, 1)], st_deleted = False\<rparr>"

definition rota :: house where
  "rota = front_desk\<lparr>h_templates := [sample_template, sample_template\<lparr>st_id := 32, st_day := 2\<rparr>]\<rparr>"

definition half_past_six :: "json \<Rightarrow> wall option" where
  "half_past_six = (\<lambda>v. Some (hours 18 + minutes 30))"

theorem submitted_week_is_stored_witness:
  "\<exists>h'. submit_availability plain_env half_past_six [] 7 seamstress_ctx None 719173
        [(31, Available), (32, Preferred), (31, Unavailable)] 0 id rota = Inr (h', ())
     \<and> map_of (existing_entries 7 719173 2 h') = [31 \<mapsto> (Unavailable, None), 32 \<mapsto> (Preferred, None)]"
proof -
  let ?run = "submit_availability plain_env half_past_six [] 7 seamstress_ctx None 719173
        [(31, Available), (32, Preferred), (31, Unavailable)] 0 id rota"
  have r: "?run = Inr (fst (projr ?run), ())" by code_simp
  have "map_of (existing_entries 7 719173 2 (fst (projr ?run))) = [31 \<mapsto> (Unavailable, None), 32 \<mapsto> (Preferred, None)]"
    using submitted_week_is_stored [OF r] by (auto simp: given_def seamstress_ctx_def)
  with r show ?thesis by blast
qed

section \<open>Publishing\<close>

lemma roster_for_week_found:
  assumes "roster_for_week tn week h = Inr (h1, r)"
  shows "roster_by_week tn week h1 = Some r \<and> roster_named tn (ro_id r) r
    \<and> h_roster_rows h1 = h_roster_rows h \<and> h_now h1 = h_now h"
  using assms
  by (auto simp: roster_for_week_def create_roster_def add_row_Inr roster_by_week_def find_append roster_named_def
      h_now_def split: option.splits dest: find_SomeD)

definition settled :: "uuid \<Rightarrow> date \<Rightarrow> house \<Rightarrow> bool" where
  "settled tn week h \<longleftrightarrow>
     (case roster_by_week tn week h of None \<Rightarrow> False
      | Some r \<Rightarrow> (case ro_published_at r of None \<Rightarrow> False | Some at \<Rightarrow> \<not> changed_since tn (ro_id r) at h))"

lemma publish_settles:
  assumes "\<forall>r\<in>set (h_roster_rows h). ra_created_at r \<le> h_now h \<and> given (ra_updated_at r) (ra_created_at r) \<le> h_now h"
    and "publish_roster e tn actor week now h = Inr (h1, v)"
  shows "settled tn week h1 \<and> roster_week e tn actor (Some week) now h1 = Inr v"
proof -
  from assms(2) obtain h2 r where rf: "roster_for_week tn week h = Inr (h2, r)"
    and run: "(if (case ro_published_at r of None \<Rightarrow> False | Some at \<Rightarrow> \<not> changed_since tn (ro_id r) at h2)
        then Inr h2
        else andthen (stamp_published tn (ro_id r) (sc_id actor) h2) (\<lambda>(h', _).
             Inr (log tn (Shift_action Roster_published) (Some (ro_id r)) h'))) = (Inr h1 :: error + house)"
    and view: "roster_week e tn actor (Some week) now h1 = Inr v"
    by (auto simp: publish_roster_def andthen_eq_Inr Let_def)
  from roster_for_week_found [OF rf] have f: "roster_by_week tn week h2 = Some r" "roster_named tn (ro_id r) r"
    "h_roster_rows h2 = h_roster_rows h" "h_now h2 = h_now h" by auto
  have quiet: "\<not> changed_since tn i (h_now h) h" for i
    using assms(1) by (fastforce simp: changed_since_def list_ex_iff given_def split: option.splits)
  have "settled tn week h1"
  proof (cases "case ro_published_at r of None \<Rightarrow> False | Some at \<Rightarrow> \<not> changed_since tn (ro_id r) at h2")
    case True
    with run f(1) show ?thesis by (auto simp: settled_def split: option.splits)
  next
    case False
    let ?f = "\<lambda>r. r\<lparr>ro_published_at := Some (h_now h), ro_published_by := Some (sc_id actor)\<rparr>"
    from False run f(3,4) have h1: "h_rosters h1 = update_where (roster_named tn (ro_id r)) ?f (h_rosters h2)"
      "h_roster_rows h1 = h_roster_rows h"
      by (auto simp: andthen_eq_Inr stamp_published_def change_rows_Inr)
    have "roster_by_week tn week h1 = Some (?f r)"
      using f(1,2) by (simp add: roster_by_week_def h1 find_update_where_stable)
    moreover have "\<not> changed_since tn (ro_id r) (h_now h) h1"
      using quiet [of "ro_id r"] by (simp add: changed_since_def h1)
    ultimately show ?thesis by (simp add: settled_def)
  qed
  with view show ?thesis by simp
qed

lemma publish_settled:
  assumes "settled tn week h" "roster_week e tn actor (Some week) now h = Inr v"
  shows "publish_roster e tn actor week now h = Inr (h, v)"
proof -
  from assms(1) obtain r at where r: "roster_by_week tn week h = Some r" "ro_published_at r = Some at"
    "\<not> changed_since tn (ro_id r) at h" by (auto simp: settled_def split: option.splits)
  from assms(2) have "assert_elevated actor = Inr ()"
    "assert_readable_week week (current_week_start (today_jerusalem (e_zone e) now)) = Inr ()"
    by (auto simp: roster_week_def target_week_def assert_elevated_def validate_week_start_def andthen_eq_Inr)
  with r assms(2) show ?thesis by (simp add: publish_roster_def roster_for_week_def)
qed

lemma settled_view:
  assumes "settled tn week h" "roster_week e tn actor (Some week) now h = Inr v"
  shows "rv_published_at v \<noteq> None \<and> \<not> rv_edited v"
  using assms by (auto simp: settled_def roster_week_def target_week_def validate_week_start_def andthen_eq_Inr Let_def
      split: option.splits)

text \<open>C. Publishing twice is publishing once: when no row of the roster carries a time still to come, the second
  publish leaves the whole database as the first left it and shows the same week, published and not marked as edited since.\<close>

theorem publish_is_idempotent:
  assumes "\<forall>r\<in>set (h_roster_rows h). ra_created_at r \<le> h_now h \<and> given (ra_updated_at r) (ra_created_at r) \<le> h_now h"
    and "publish_roster e tn actor week now h = Inr (h1, v)"
  shows "publish_roster e tn actor week now h1 = Inr (h1, v) \<and> rv_published_at v \<noteq> None \<and> \<not> rv_edited v"
proof -
  note s = publish_settles [OF assms]
  from publish_settled [of tn week h1 e actor now v] settled_view [of tn week h1 e actor now v] s show ?thesis by blast
qed

definition sample_row :: roster_row where
  "sample_row = \<lparr>ra_id = 41, ra_tenant = 7, ra_roster = 40, ra_template = 31, ra_staff = 2, ra_manager = False,
     ra_assigned_by = 1, ra_override = None, ra_created_at = 0, ra_updated_at = None, ra_deleted = False\<rparr>"

definition rostered :: house where
  "rostered = rota\<lparr>h_rosters := [\<lparr>ro_id = 40, ro_tenant = 7, ro_week = 719166, ro_published_at = None,
     ro_published_by = None, ro_deleted = False\<rparr>], h_roster_rows := [sample_row]\<rparr>"

theorem publish_is_idempotent_witness:
  "\<exists>h1 v. publish_roster plain_env 7 boss 719166 0 rostered = Inr (h1, v) \<and> h_rosters h1 \<noteq> h_rosters rostered
     \<and> publish_roster plain_env 7 boss 719166 0 h1 = Inr (h1, v)"
proof -
  let ?run = "publish_roster plain_env 7 boss 719166 0 rostered"
  have "\<not> isl ?run" by code_simp
  then have r: "?run = Inr (fst (projr ?run), snd (projr ?run))" by (cases ?run) auto
  have ne: "h_rosters (fst (projr ?run)) \<noteq> h_rosters rostered" by code_simp
  have q: "\<forall>r\<in>set (h_roster_rows rostered). ra_created_at r \<le> h_now rostered
      \<and> given (ra_updated_at r) (ra_created_at r) \<le> h_now rostered" by code_simp
  from publish_is_idempotent [OF q r] r ne show ?thesis by blast
qed

section \<open>Assigning\<close>

text \<open>The row a request asks for: this member on this shift of this week, as manager or not.\<close>

definition assigned_row :: "uuid \<Rightarrow> assignment_request \<Rightarrow> house \<Rightarrow> roster_row \<Rightarrow> bool" where
  "assigned_row tn q h r \<longleftrightarrow>
     (\<exists>roster. roster_by_week tn (aq_week q) h = Some roster
        \<and> live_for_triple tn (ro_id roster) (aq_template q) (aq_staff q) h = Some r)"

definition assigns :: "uuid \<Rightarrow> uuid \<Rightarrow> assignment_request \<Rightarrow> roster_row \<Rightarrow> bool" where
  "assigns tn roster q r \<longleftrightarrow>
     ra_tenant r = tn \<and> ra_roster r = roster \<and> ra_template r = aq_template q \<and> ra_staff r = aq_staff q \<and> \<not> ra_deleted r"

lemma live_for_triple_find:
  "live_for_triple tn roster template staff h =
     find (\<lambda>r. ra_tenant r = tn \<and> ra_roster r = roster \<and> ra_template r = template \<and> ra_staff r = staff \<and> \<not> ra_deleted r)
       (h_roster_rows h)"
proof -
  have "find P (filter Q xs) = find (\<lambda>x. Q x \<and> P x) xs" for P Q and xs :: "roster_row list"
    by (induction xs) auto
  then show ?thesis by (simp add: live_for_triple_def rows_of_roster_def conj_ac)
qed

lemma live_for_triple_assigns:
  "live_for_triple tn roster (aq_template q) (aq_staff q) h = Some r \<Longrightarrow>
     r \<in> set (h_roster_rows h) \<and> assigns tn roster q r \<and> ra_roster r = roster"
  by (auto simp: live_for_triple_find assigns_def dest!: find_SomeD)

text \<open>The roster rows afterwards: this row, and all others as they were.\<close>

definition only_row :: "roster_row \<Rightarrow> house \<Rightarrow> house \<Rightarrow> bool" where
  "only_row r h h' \<longleftrightarrow> (\<forall>x. x \<in> set (h_roster_rows h') \<longleftrightarrow>
     x = r \<or> x \<in> set (h_roster_rows h) \<and> ra_id x \<noteq> ra_id r)"

lemma only_row_same:
  "roster_rows_ok (h_roster_rows h) \<Longrightarrow> h_roster_rows h' = h_roster_rows h \<Longrightarrow> r \<in> set (h_roster_rows h) \<Longrightarrow>
   only_row r h h'"
  by (auto simp: only_row_def roster_rows_ok_def distinct_map dest: inj_onD)

lemma set_manager_flag_run:
  assumes "set_manager_flag tn (ra_id live) manager h = Inr (h', hit)"
    and "live_for_triple tn roster template staff h = Some live" "roster_rows_ok (h_roster_rows h)"
  shows "\<exists>r. live_for_triple tn roster template staff h' = Some r \<and> ra_manager r = manager
    \<and> h_rosters h' = h_rosters h \<and> roster_rows_ok (h_roster_rows h') \<and> only_row r h h'
    \<and> ra_override r = ra_override live"
proof -
  let ?g = "\<lambda>r. r\<lparr>ra_manager := manager, ra_updated_at := Some (h_now h)\<rparr>"
  let ?P = "roster_row_named tn (ra_id live)"
  have named: "?P live" and live: "live \<in> set (h_roster_rows h)"
    using assms(2) by (auto simp: live_for_triple_find roster_row_named_def dest: find_SomeD)
  have h': "h_roster_rows h' = update_where ?P ?g (h_roster_rows h)"
    and rs: "h_rosters h' = h_rosters h" and ok: "hit \<longrightarrow> roster_rows_ok (h_roster_rows h')"
    and hit: "hit = list_ex ?P (h_roster_rows h)"
    using assms(1) by (auto simp: set_manager_flag_def change_roster_row_def Let_def change_rows_Inr)
  have "live_for_triple tn roster template staff h' = Some (?g live)"
    using assms(2) named unfolding live_for_triple_find h'
    by (subst find_update_where_stable) auto
  moreover have "roster_rows_ok (h_roster_rows h')"
    using ok hit assms(3) h' by (cases hit) (simp_all add: update_where_none)
  moreover have "only_row (?g live) h h'"
  proof -
    have one: "x = live" if "x \<in> set (h_roster_rows h)" "ra_id x = ra_id live" for x
      using that live assms(3) by (auto simp: roster_rows_ok_def distinct_map dest: inj_onD)
    have "x \<in> set (h_roster_rows h') \<longleftrightarrow> x = ?g live \<or> x \<in> set (h_roster_rows h) \<and> ra_id x \<noteq> ra_id live" for x
    proof
      assume "x \<in> set (h_roster_rows h')"
      then obtain y where y: "y \<in> set (h_roster_rows h)" "x = (if ?P y then ?g y else y)"
        unfolding h' set_update_where by blast
      show "x = ?g live \<or> x \<in> set (h_roster_rows h) \<and> ra_id x \<noteq> ra_id live"
      proof (cases "ra_id y = ra_id live")
        case True
        with one [OF y(1)] y(2) named show ?thesis by simp
      next
        case False
        with y show ?thesis by (simp add: roster_row_named_def)
      qed
    next
      assume "x = ?g live \<or> x \<in> set (h_roster_rows h) \<and> ra_id x \<noteq> ra_id live"
      then show "x \<in> set (h_roster_rows h')"
      proof
        assume "x = ?g live"
        with live named show ?thesis unfolding h' set_update_where by (intro image_eqI [of _ _ live]) simp_all
      next
        assume "x \<in> set (h_roster_rows h) \<and> ra_id x \<noteq> ra_id live"
        then show ?thesis unfolding h' set_update_where
          by (intro image_eqI [of _ _ x]) (simp_all add: roster_row_named_def)
      qed
    qed
    then show ?thesis by (simp add: only_row_def)
  qed
  ultimately show ?thesis using rs by (intro exI [of _ "?g live"]) simp
qed

text \<open>The rules a request has to meet: a live shift of the shop, a member who is still here at the end of
  that week, an eligible one for the manager's slot.\<close>

definition may_be_rostered :: "uuid \<Rightarrow> assignment_request \<Rightarrow> house \<Rightarrow> bool" where
  "may_be_rostered tn q h \<longleftrightarrow> template_by_id tn (aq_template q) h \<noteq> None
     \<and> (\<exists>s. staff_by_id tn (aq_staff q) h = Some s \<and> \<not> su_deleted s
          \<and> (\<forall>d. su_last_day s = Some d \<longrightarrow> aq_week q + 6 \<le> d) \<and> (aq_manager q \<longrightarrow> su_eligible s))"

lemma apply_assignment_row:
  assumes "roster_rows_ok (h_roster_rows h)" "apply_assignment tn actor q h = Inr (h', v)"
  shows "\<exists>r. assigned_row tn q h' r \<and> ra_manager r = aq_manager q \<and> roster_rows_ok (h_roster_rows h')
    \<and> may_be_rostered tn q h \<and> only_row r h h'
    \<and> ((\<exists>r0\<in>set (h_roster_rows h). assigns tn (ra_roster r) q r0 \<and> ra_override r = ra_override r0)
       \<or> (if submitted_state tn (aq_week q) (aq_staff q) (aq_template q) h = Some Unavailable
          then aq_acknowledge q \<and> ra_override r = Some Unavailable else ra_override r = None))"
proof -
  from assms(2) obtain template s h1 roster where
    st: "staff_by_id tn (aq_staff q) h = Some s" "aq_manager q \<longrightarrow> su_eligible s"
      "is_available_for_week s (week_end (aq_week q))" "template_by_id tn (aq_template q) h = Some template"
    and rf: "roster_for_week tn (aq_week q) h = Inr (h1, roster)"
    and run: "(case live_for_triple tn (ro_id roster) (aq_template q) (aq_staff q) h1 of
        Some live \<Rightarrow>
          if ra_manager live = aq_manager q then Inr (h1, shift_payload tn template (ro_id roster) h1)
          else andthen (set_manager_flag tn (ra_id live) (aq_manager q) h1) (\<lambda>(h2, _).
               let h3 = log tn (Shift_action Roster_assigned) (Some (ra_id live)) h2 in
               Inr (h3, shift_payload tn template (ro_id roster) h3))
      | None \<Rightarrow>
          andthen (override_stamp (submitted_state tn (aq_week q) (aq_staff q) (aq_template q) h1)
                     (aq_acknowledge q)) (\<lambda>override.
          andthen (insert_roster_row tn (ro_id roster) (aq_template q) (aq_staff q) (sc_id actor)
                     (aq_manager q) override h1) (\<lambda>(h2, r).
          let h3 = log tn (Shift_action Roster_assigned) (Some (ra_id r)) h2 in
          Inr (h3, shift_payload tn template (ro_id roster) h3)))) = (Inr (h', v) :: error + house \<times> shift_view)"
    by (auto simp: apply_assignment_def andthen_eq_Inr)
  have may: "may_be_rostered tn q h"
    using st by (auto simp: may_be_rostered_def is_available_for_week_def week_end_def split: option.splits)
  note f = roster_for_week_found [OF rf]
  have only1: "only_row r h = only_row r h1" for r using f by (simp add: only_row_def fun_eq_iff)
  have av: "h_availabilities h1 = h_availabilities h"
    using rf by (auto simp: roster_for_week_def create_roster_def add_row_Inr split: option.splits)
  have same: "roster_by_week tn (aq_week q) hx = roster_by_week tn (aq_week q) h1" if "h_rosters hx = h_rosters h1" for hx
    by (simp add: roster_by_week_def that)
  have ok1: "roster_rows_ok (h_roster_rows h1)" using assms(1) f by simp
  show ?thesis
  proof (cases "live_for_triple tn (ro_id roster) (aq_template q) (aq_staff q) h1")
    case None
    let ?r = "\<lambda>x. \<lparr>ra_id = h_next h1, ra_tenant = tn, ra_roster = ro_id roster, ra_template = aq_template q,
      ra_staff = aq_staff q, ra_manager = aq_manager q, ra_assigned_by = sc_id actor, ra_override = x,
      ra_created_at = h_now h1, ra_updated_at = None, ra_deleted = False\<rparr>"
    from None run obtain x h2 where
      x: "override_stamp (submitted_state tn (aq_week q) (aq_staff q) (aq_template q) h1) (aq_acknowledge q) = Inr x"
      and h2: "h_roster_rows h' = h_roster_rows h1 @ [?r x]" "h_rosters h' = h_rosters h1" "roster_rows_ok (h_roster_rows h')"
      by (auto simp: andthen_eq_Inr insert_roster_row_def Let_def add_row_Inr)
    have "live_for_triple tn (ro_id roster) (aq_template q) (aq_staff q) h' = Some (?r x)"
      using None by (simp add: live_for_triple_find h2(1) find_append)
    then have "assigned_row tn q h' (?r x)" using f same [OF h2(2)] by (simp add: assigned_row_def)
    moreover have "only_row (?r x) h h'"
    proof -
      have "ra_id y \<noteq> h_next h1" if "y \<in> set (h_roster_rows h1)" for y
        using h2(3) that unfolding h2(1) roster_rows_ok_def by force
      then show ?thesis unfolding only1 by (auto simp: only_row_def h2(1))
    qed
    moreover have "submitted_state tn (aq_week q) (aq_staff q) (aq_template q) h1
        = submitted_state tn (aq_week q) (aq_staff q) (aq_template q) h"
      by (simp add: submitted_state_def live_for_week_def av)
    ultimately show ?thesis using x may h2(3)
      by (intro exI [of _ "?r x"]) (auto simp: override_stamp_def split: if_splits)
  next
    case (Some live)
    note l = live_for_triple_assigns [OF this]
    have "\<exists>r. assigned_row tn q h' r \<and> ra_manager r = aq_manager q \<and> roster_rows_ok (h_roster_rows h')
      \<and> only_row r h h' \<and> ra_roster r = ro_id roster \<and> ra_override r = ra_override live"
    proof (cases "ra_manager live = aq_manager q")
      case True
      with Some run have h': "h' = h1" by simp
      with True Some f ok1 l only_row_same [OF ok1, of h1] show ?thesis unfolding only1
        by (intro exI [of _ live]) (auto simp: assigned_row_def)
    next
      case False
      with Some run obtain h2 hit where m: "set_manager_flag tn (ra_id live) (aq_manager q) h1 = Inr (h2, hit)"
        and h': "h_roster_rows h' = h_roster_rows h2" "h_rosters h' = h_rosters h2"
        by (auto simp: andthen_eq_Inr Let_def)
      from set_manager_flag_run [OF m Some ok1] obtain r where
        r: "live_for_triple tn (ro_id roster) (aq_template q) (aq_staff q) h2 = Some r" "ra_manager r = aq_manager q"
        "h_rosters h2 = h_rosters h1" "roster_rows_ok (h_roster_rows h2)" "only_row r h1 h2"
        "ra_override r = ra_override live" by auto
      have "live_for_triple tn (ro_id roster) (aq_template q) (aq_staff q) h' = Some r"
        using r(1) by (simp add: live_for_triple_find h')
      moreover have "only_row r h h'" using r(5) unfolding only1 by (simp add: only_row_def h')
      ultimately show ?thesis
        using r live_for_triple_assigns [OF r(1)] h' f same [of h'] by (auto simp: assigned_row_def)
    qed
    then obtain r where r: "assigned_row tn q h' r" "ra_manager r = aq_manager q" "roster_rows_ok (h_roster_rows h')"
      "only_row r h h'" "ra_roster r = ro_id roster" "ra_override r = ra_override live" by blast
    moreover have "\<exists>r0\<in>set (h_roster_rows h). assigns tn (ra_roster r) q r0 \<and> ra_override r = ra_override r0"
      using l f r(5,6) by (intro bexI [of _ live]) simp_all
    ultimately show ?thesis using may by blast
  qed
qed

lemma readable_week_bounds:
  assumes "assert_readable_week week (current_week_start today) = Inr ()"
  shows "jerusalem_day_index week = 0 \<and> \<bar>week - current_week_start today\<bar> \<le> 28"
proof -
  let ?c = "current_week_start today"
  have d: "jerusalem_day_index week = 0" "jerusalem_day_index ?c = 0" "\<bar>(week - ?c) div 7\<bar> \<le> 4"
    using assms by (auto simp: assert_readable_week_def validate_week_start_def andthen_eq_Inr
        SUBMISSION_WEEK_WINDOW_WEEKS_def ensure_def split: if_splits)
  have "jerusalem_day_index x = x mod 7" for x
    by (simp add: jerusalem_day_index_def weekday_def mod_simps)
  with d have "(week - ?c) mod 7 = 0" by (simp add: mod_eq_0_iff_dvd dvd_diff)
  then obtain k where "week - ?c = 7 * k" by auto
  with d(1,3) show ?thesis by simp
qed

text \<open>C37. An accepted assignment is what was asked for and breaks no rule of the roster. A manager made it, for
  a Sunday week at most four weeks away; the shift is a live one of the shop, and the member works there and
  will still at the end of that week, all this as the database stood when the accepted attempt read it (the
  first, or the retry after others had written). Afterwards she is on that shift of that week with the role
  asked for, and no other row of any roster has changed. The manager's slot goes to an eligible member only,
  and nobody else holds it. A new row of somebody who submitted that she cannot come needs an explicit
  acknowledgement and keeps it; any other new row is stamped with no override, and a row she already had keeps
  its stamp.\<close>

theorem assignment_is_sound:
  assumes "roster_rows_ok (h_roster_rows h)" "roster_rows_ok (h_roster_rows (between h))"
    and "assign_shift e tn actor q now between h = Inr (h', v)"
  shows "elevated actor \<and> jerusalem_day_index (aq_week q) = 0
    \<and> \<bar>aq_week q - current_week_start (today_jerusalem (e_zone e) now)\<bar> \<le> 28
    \<and> (\<exists>h0\<in>{h, between h}. may_be_rostered tn q h0 \<and> (\<exists>r. assigned_row tn q h' r \<and> ra_manager r = aq_manager q
      \<and> only_row r h0 h'
      \<and> (aq_manager q \<longrightarrow> (\<forall>r2\<in>set (rows_of_roster tn (ra_roster r) h').
           ra_template r2 = aq_template q \<longrightarrow> ra_manager r2 \<longrightarrow> r2 = r))
      \<and> ((\<exists>r0\<in>set (h_roster_rows h0). assigns tn (ra_roster r) q r0 \<and> ra_override r = ra_override r0)
         \<or> (if submitted_state tn (aq_week q) (aq_staff q) (aq_template q) h0 = Some Unavailable
            then aq_acknowledge q \<and> ra_override r = Some Unavailable else ra_override r = None))))"
proof -
  have el: "elevated actor" using assms(3) by (auto simp: assign_shift_def assert_elevated_def andthen_eq_Inr)
  from assms(3) obtain h0 where h0: "h0 \<in> {h, between h}" and run: "apply_assignment tn actor q h0 = Inr (h', v)"
    and week: "assert_readable_week (aq_week q) (current_week_start (today_jerusalem (e_zone e) now)) = Inr ()"
    by (auto simp: assign_shift_def andthen_eq_Inr split: sum.splits if_splits)
  have ok: "roster_rows_ok (h_roster_rows h0)" using h0 assms(1,2) by auto
  from apply_assignment_row [OF ok run] obtain r where r: "assigned_row tn q h' r" "ra_manager r = aq_manager q"
    "roster_rows_ok (h_roster_rows h')" "may_be_rostered tn q h0" "only_row r h0 h'"
    "(\<exists>r0\<in>set (h_roster_rows h0). assigns tn (ra_roster r) q r0 \<and> ra_override r = ra_override r0)
       \<or> (if submitted_state tn (aq_week q) (aq_staff q) (aq_template q) h0 = Some Unavailable
          then aq_acknowledge q \<and> ra_override r = Some Unavailable else ra_override r = None)"
    by blast
  then obtain roster where a: "r \<in> set (h_roster_rows h')" "assigns tn roster q r" "ra_roster r = roster"
    unfolding assigned_row_def using live_for_triple_assigns by blast
  have "r2 = r" if "aq_manager q" "r2 \<in> set (rows_of_roster tn (ra_roster r) h')" "ra_template r2 = aq_template q" "ra_manager r2" for r2
    using r(3) a that r(2)
    by (intro unique_onD [of "\<lambda>r. \<not> ra_deleted r \<and> ra_manager r" "\<lambda>r. (ra_tenant r, ra_roster r, ra_template r)" "h_roster_rows h'"])
      (auto simp: roster_rows_ok_def rows_of_roster_def assigns_def)
  with r(1,2,4-6) el h0 readable_week_bounds [OF week] show ?thesis by blast
qed

definition take_the_shift :: assignment_request where
  "take_the_shift = \<lparr>aq_week = 719166, aq_template = 31, aq_staff = 2, aq_manager = False, aq_acknowledge = True\<rparr>"

definition reluctant :: house where
  "reluctant = rota\<lparr>h_availabilities := [\<lparr>av_id = 50, av_tenant = 7, av_staff = 2, av_template = 31, av_week = 719166,
     av_state = Unavailable, av_recorded_by = None, av_deleted = False\<rparr>]\<rparr>"

theorem assignment_is_sound_witness:
  "\<exists>h' v r. assign_shift plain_env 7 boss take_the_shift 0 id reluctant = Inr (h', v)
     \<and> assigned_row 7 take_the_shift h' r \<and> ra_override r = Some Unavailable
     \<and> assign_shift plain_env 7 boss (take_the_shift\<lparr>aq_acknowledge := False\<rparr>) 0 id reluctant = Inl (Shift_error Availability_conflict)"
proof -
  let ?run = "assign_shift plain_env 7 boss take_the_shift 0 id reluctant"
  have "\<not> isl ?run" by code_simp
  then have r: "?run = Inr (fst (projr ?run), snd (projr ?run))" by (cases ?run) auto
  have ok: "roster_rows_ok (h_roster_rows reluctant)" "roster_rows_ok (h_roster_rows (id reluctant))" by code_simp+
  have un: "submitted_state 7 719166 2 31 reluctant = Some Unavailable" "h_roster_rows reluctant = []" by code_simp+
  have "case assign_shift plain_env 7 boss (take_the_shift\<lparr>aq_acknowledge := False\<rparr>) 0 id reluctant of
      Inl err \<Rightarrow> err = Shift_error Availability_conflict | Inr _ \<Rightarrow> False" by code_simp
  then have no: "assign_shift plain_env 7 boss (take_the_shift\<lparr>aq_acknowledge := False\<rparr>) 0 id reluctant
      = Inl (Shift_error Availability_conflict)" by (simp split: sum.splits)
  have q: "aq_week take_the_shift = 719166" "aq_staff take_the_shift = 2" "aq_template take_the_shift = 31"
    by (simp_all add: take_the_shift_def)
  from assignment_is_sound [OF ok r] un obtain x where "assigned_row 7 take_the_shift (fst (projr ?run)) x"
    "ra_override x = Some Unavailable" by (auto simp: q)
  with r no show ?thesis by blast
qed

end
