(* ===== verification/Floor_Repo.thy ===== *)
theory Floor_Repo
  imports Walk_Ins Shifts
begin

text \<open>
  The fitting rooms' tables: \<open>FittingRoomsRepository\<close>, \<open>FittingRoomAssignmentsRepository\<close>,
  \<open>FittingAssignmentDressesRepository\<close>, \<open>SosAlertsRepository\<close> and \<open>StaffNotificationsRepository\<close>
  (\<open>app/db/repositories\<close>), with the interface each table provides. A \<open>fitting\<close> is a
  \<open>fitting_room_assignments\<close> row: it is running until it is released, and the two partial unique
  indexes allow one running fitting per room and one per holder.
\<close>

section \<open>Rooms\<close>

definition room_named :: "uuid \<Rightarrow> uuid \<Rightarrow> room \<Rightarrow> bool" where
  "room_named tn i r \<longleftrightarrow> rm_tenant r = tn \<and> rm_id r = i \<and> \<not> rm_deleted r"

definition room_by_id :: "uuid \<Rightarrow> uuid \<Rightarrow> house \<Rightarrow> room option" where
  "room_by_id tn i h = find (room_named tn i) (h_rooms h)"

text \<open>\<open>SELECT .. FOR UPDATE\<close>: the same row, and no other transaction changes it before this one ends.\<close>

definition room_by_id_for_update :: "uuid \<Rightarrow> uuid \<Rightarrow> house \<Rightarrow> room option" where
  "room_by_id_for_update tn i h = find (room_named tn i) (h_rooms h)"

definition list_live_rooms :: "uuid \<Rightarrow> house \<Rightarrow> room list" where
  "list_live_rooms tn h =
     sort_key (\<lambda>r. (rm_order r, rm_created_at r)) (filter (\<lambda>r. rm_tenant r = tn \<and> \<not> rm_deleted r) (h_rooms h))"

definition insert_room :: "uuid \<Rightarrow> utext \<Rightarrow> int \<Rightarrow> bool \<Rightarrow> house \<Rightarrow> error + house \<times> room" where
  "insert_room tn label order active h =
     add_row h_rooms h_rooms_update rooms_ok
       (\<lambda>i. \<lparr>rm_id = i, rm_tenant = tn, rm_label = label, rm_order = order, rm_active = active,
             rm_created_at = h_now h, rm_deleted = False\<rparr>) h"

definition change_room :: "uuid \<Rightarrow> uuid \<Rightarrow> (room \<Rightarrow> room) \<Rightarrow> house \<Rightarrow> error + house \<times> bool" where
  "change_room tn i f = change_rows h_rooms h_rooms_update rooms_ok (room_named tn i) f"

definition update_room_row ::
  "uuid \<Rightarrow> uuid \<Rightarrow> utext option \<Rightarrow> int option \<Rightarrow> bool option \<Rightarrow> house \<Rightarrow> error + house \<times> room option" where
  "update_room_row tn i label order active h =
     (case room_by_id tn i h of
        None \<Rightarrow> Inr (h, None)
      | Some r \<Rightarrow>
          andthen (change_room tn i (\<lambda>r. r\<lparr>rm_label := given label (rm_label r), rm_order := given order (rm_order r),
                                          rm_active := given active (rm_active r)\<rparr>) h)
            (\<lambda>(h', _). Inr (h', room_by_id tn i h')))"

definition soft_delete_room :: "uuid \<Rightarrow> uuid \<Rightarrow> house \<Rightarrow> error + house \<times> bool" where
  "soft_delete_room tn i = change_room tn i (\<lambda>r. r\<lparr>rm_deleted := True\<rparr>)"

text \<open>A room beside who is in it. The join does not ask whether the member is still on the staff: a
  room held by a leaver still names her. The client is the booking's customer, or else the walk-in.\<close>

record room_row =
  rr_room :: room
  rr_fitting :: "fitting option"
  rr_staff :: "(utext \<times> staff_role) option"
  rr_client :: "utext option"

definition client_of_fitting :: "uuid \<Rightarrow> fitting \<Rightarrow> house \<Rightarrow> utext option" where
  "client_of_fitting tn f h =
     (let booked =
        (case f_booking f of
           None \<Rightarrow> None
         | Some i \<Rightarrow>
             (case find (\<lambda>b. b_tenant b = tn \<and> b_id b = i \<and> \<not> b_deleted b \<and> b_status b \<noteq> Cancelled)
                     (d_bookings (h_db h)) of
                None \<Rightarrow> None
              | Some b \<Rightarrow> map_option c_name (customer_by_id tn (b_customer b) (h_db h)))) in
      case booked of
        Some name \<Rightarrow> Some name
      | None \<Rightarrow> (case f_ticket f of None \<Rightarrow> None | Some i \<Rightarrow> map_option tk_name (ticket_by_id tn i h)))"

definition occupied_row :: "uuid \<Rightarrow> house \<Rightarrow> room \<Rightarrow> fitting \<Rightarrow> room_row" where
  "occupied_row tn h r f =
     \<lparr>rr_room = r, rr_fitting = Some f,
      rr_staff = map_option (\<lambda>s. (su_name s, su_role s))
        (find (\<lambda>s. su_tenant s = tn \<and> su_id s = f_staff f) (h_staff h)),
      rr_client = client_of_fitting tn f h\<rparr>"

definition runs_in :: "uuid \<Rightarrow> uuid \<Rightarrow> fitting \<Rightarrow> bool" where
  "runs_in tn i f \<longleftrightarrow> f_tenant f = tn \<and> f_room f = i \<and> running f"

definition occupancy_rows :: "uuid \<Rightarrow> uuid option \<Rightarrow> uuid option \<Rightarrow> house \<Rightarrow> room_row list" where
  "occupancy_rows tn room staff h =
     filter (\<lambda>row. (case room of None \<Rightarrow> True | Some i \<Rightarrow> rm_id (rr_room row) = i)
        \<and> (case staff of None \<Rightarrow> True | Some s \<Rightarrow> map_option f_staff (rr_fitting row) = Some s))
      (concat (map (\<lambda>r. case filter (runs_in tn (rm_id r)) (h_fittings h) of
           [] \<Rightarrow> [\<lparr>rr_room = r, rr_fitting = None, rr_staff = None, rr_client = None\<rparr>]
         | fs \<Rightarrow> map (occupied_row tn h r) fs) (list_live_rooms tn h)))"

definition first_of :: "'a list \<Rightarrow> 'a option" where
  "first_of xs = (case xs of [] \<Rightarrow> None | x # _ \<Rightarrow> Some x)"

definition list_with_occupancy :: "uuid \<Rightarrow> house \<Rightarrow> room_row list" where
  "list_with_occupancy tn h = occupancy_rows tn None None h"

definition room_with_occupancy :: "uuid \<Rightarrow> uuid \<Rightarrow> house \<Rightarrow> room_row option" where
  "room_with_occupancy tn i h = first_of (occupancy_rows tn (Some i) None h)"

definition occupancy_for_staff :: "uuid \<Rightarrow> uuid \<Rightarrow> house \<Rightarrow> room_row option" where
  "occupancy_for_staff tn s h = first_of (occupancy_rows tn None (Some s) h)"

section \<open>Fittings\<close>

definition ROOM_ACTIVE_INDEX :: string where "ROOM_ACTIVE_INDEX = ''idx_fitting_room_assignments_room_active''"
definition STAFF_ACTIVE_INDEX :: string where "STAFF_ACTIVE_INDEX = ''idx_fitting_room_assignments_staff_active''"

definition fitting_indexes :: "(string \<times> (fitting list \<Rightarrow> bool)) list" where
  "fitting_indexes =
     [(ROOM_ACTIVE_INDEX, unique_on running room_key), (STAFF_ACTIVE_INDEX, unique_on running holder_key)]"

definition new_fitting ::
  "uuid \<Rightarrow> uuid \<Rightarrow> uuid \<Rightarrow> uuid option \<Rightarrow> uuid option \<Rightarrow> instant \<Rightarrow> uuid \<Rightarrow> fitting" where
  "new_fitting tn room staff booking ticket at i =
     \<lparr>f_id = i, f_tenant = tn, f_room = room, f_staff = staff, f_booking = booking, f_ticket = ticket,
      f_released_at = None, f_created_at = at, f_deleted = False\<rparr>"

definition claim_row ::
  "uuid \<Rightarrow> uuid \<Rightarrow> uuid \<Rightarrow> uuid option \<Rightarrow> uuid option \<Rightarrow> house \<Rightarrow> error + house \<times> fitting" where
  "claim_row tn room staff booking ticket h =
     (let mk = new_fitting tn room staff booking ticket (h_now h) in
      blame fitting_indexes (h_fittings h @ [mk (h_next h)])
        (add_row h_fittings h_fittings_update fittings_ok mk h))"

definition fitting_named :: "uuid \<Rightarrow> uuid \<Rightarrow> fitting \<Rightarrow> bool" where
  "fitting_named tn i r \<longleftrightarrow> f_tenant r = tn \<and> f_id r = i \<and> \<not> f_deleted r"

definition fitting_by_id :: "uuid \<Rightarrow> uuid \<Rightarrow> house \<Rightarrow> fitting option" where
  "fitting_by_id tn i h = find (fitting_named tn i) (h_fittings h)"

definition active_fitting_by_id :: "uuid \<Rightarrow> uuid \<Rightarrow> house \<Rightarrow> fitting option" where
  "active_fitting_by_id tn i h = find (\<lambda>r. f_tenant r = tn \<and> f_id r = i \<and> running r) (h_fittings h)"

definition active_for :: "uuid \<Rightarrow> uuid \<Rightarrow> uuid \<Rightarrow> house \<Rightarrow> fitting option" where
  "active_for tn room staff h = find (\<lambda>r. runs_in tn room r \<and> f_staff r = staff) (h_fittings h)"

definition occupant_of_room :: "uuid \<Rightarrow> uuid \<Rightarrow> house \<Rightarrow> fitting option" where
  "occupant_of_room tn room h = find (runs_in tn room) (h_fittings h)"

definition room_of_staff :: "uuid \<Rightarrow> uuid \<Rightarrow> house \<Rightarrow> fitting option" where
  "room_of_staff tn staff h = find (\<lambda>r. f_tenant r = tn \<and> f_staff r = staff \<and> running r) (h_fittings h)"

definition has_active_for_room :: "uuid \<Rightarrow> uuid \<Rightarrow> house \<Rightarrow> bool" where
  "has_active_for_room tn room h \<longleftrightarrow> list_ex (runs_in tn room) (h_fittings h)"

definition change_fitting :: "uuid \<Rightarrow> uuid \<Rightarrow> (fitting \<Rightarrow> fitting) \<Rightarrow> house \<Rightarrow> error + house \<times> bool" where
  "change_fitting tn i f h =
     (let P = (\<lambda>r. fitting_named tn i r \<and> running r) in
      blame fitting_indexes (update_where P f (h_fittings h))
        (change_rows h_fittings h_fittings_update fittings_ok P f h))"

definition release_row :: "uuid \<Rightarrow> uuid \<Rightarrow> instant \<Rightarrow> house \<Rightarrow> error + house \<times> bool \<times> fitting option" where
  "release_row tn i at h =
     andthen (change_fitting tn i (\<lambda>r. r\<lparr>f_released_at := Some at\<rparr>) h)
       (\<lambda>(h', wrote). Inr (h', wrote, fitting_by_id tn i h'))"

definition handover_row :: "uuid \<Rightarrow> uuid \<Rightarrow> uuid \<Rightarrow> house \<Rightarrow> error + house \<times> bool \<times> fitting option" where
  "handover_row tn i staff h =
     andthen (change_fitting tn i (\<lambda>r. r\<lparr>f_staff := staff\<rparr>) h)
       (\<lambda>(h', wrote). Inr (h', wrote, if wrote then fitting_by_id tn i h' else None))"

section \<open>Dresses in a fitting\<close>

text \<open>INSERT .. ON CONFLICT on the partial unique index: a live binding of the dress to the fitting is
  touched and keeps its snapshot, otherwise a row is added.\<close>

definition add_binding ::
  "uuid \<Rightarrow> uuid \<Rightarrow> uuid \<Rightarrow> utext \<Rightarrow> utext option \<Rightarrow> house \<Rightarrow> error + house \<times> bool \<times> binding" where
  "add_binding tn fitting gid name dress_size h =
     (case find (\<lambda>r. \<not> bd_deleted r \<and> binding_key r = (tn, fitting, gid)) (h_bindings h) of
        Some r \<Rightarrow> Inr (h, False, r)
      | None \<Rightarrow>
          andthen (add_row h_bindings h_bindings_update bindings_ok
                     (\<lambda>i. \<lparr>bd_id = i, bd_tenant = tn, bd_fitting = fitting, bd_dress = gid, bd_dress_name = name,
                           bd_dress_size = dress_size, bd_removed_by = None, bd_created_at = h_now h,
                           bd_deleted = False\<rparr>) h)
            (\<lambda>(h', r). Inr (h', True, r)))"

definition remove_binding :: "uuid \<Rightarrow> uuid \<Rightarrow> uuid \<Rightarrow> uuid \<Rightarrow> house \<Rightarrow> error + house \<times> bool" where
  "remove_binding tn fitting i by =
     change_rows h_bindings h_bindings_update bindings_ok
       (\<lambda>r. bd_tenant r = tn \<and> bd_id r = i \<and> bd_fitting r = fitting \<and> \<not> bd_deleted r)
       (\<lambda>r. r\<lparr>bd_deleted := True, bd_removed_by := Some by\<rparr>)"

definition binding_by_id_any_state :: "uuid \<Rightarrow> uuid \<Rightarrow> house \<Rightarrow> binding option" where
  "binding_by_id_any_state tn i h = find (\<lambda>r. bd_tenant r = tn \<and> bd_id r = i) (h_bindings h)"

definition bindings_of :: "uuid \<Rightarrow> uuid \<Rightarrow> house \<Rightarrow> binding list" where
  "bindings_of tn fitting h =
     sort_key (\<lambda>r. (bd_created_at r, bd_id r))
       (filter (\<lambda>r. bd_tenant r = tn \<and> bd_fitting r = fitting \<and> \<not> bd_deleted r) (h_bindings h))"

section \<open>Alerts\<close>

definition LIVE_STATUSES :: "sos_status list" where
  "LIVE_STATUSES = [Sos_open, Sos_accepted]"

definition insert_alert ::
  "uuid \<Rightarrow> uuid \<Rightarrow> uuid option \<Rightarrow> uuid option \<Rightarrow> utext option \<Rightarrow> house \<Rightarrow> error + house \<times> alert" where
  "insert_alert tn by target fitting text h =
     add_row h_alerts h_alerts_update alerts_ok
       (\<lambda>i. \<lparr>sa_id = i, sa_tenant = tn, sa_raised_by = by, sa_target = target, sa_fitting = fitting,
             sa_note = text, sa_status = Sos_open, sa_accepted_by = None, sa_acknowledged_at = None,
             sa_created_at = h_now h, sa_deleted = False\<rparr>) h"

definition alert_named :: "uuid \<Rightarrow> uuid \<Rightarrow> alert \<Rightarrow> bool" where
  "alert_named tn i r \<longleftrightarrow> sa_tenant r = tn \<and> sa_id r = i \<and> \<not> sa_deleted r"

definition alert_by_id :: "uuid \<Rightarrow> uuid \<Rightarrow> house \<Rightarrow> alert option" where
  "alert_by_id tn i h = find (alert_named tn i) (h_alerts h)"

definition change_alert ::
  "uuid \<Rightarrow> uuid \<Rightarrow> sos_status list \<Rightarrow> (alert \<Rightarrow> alert) \<Rightarrow> house \<Rightarrow> error + house \<times> bool \<times> alert option" where
  "change_alert tn i allowed f h =
     andthen (change_rows h_alerts h_alerts_update alerts_ok
                (\<lambda>r. alert_named tn i r \<and> sa_status r \<in> set allowed) f h)
       (\<lambda>(h', wrote). Inr (h', wrote, alert_by_id tn i h'))"

definition accept_alert :: "uuid \<Rightarrow> uuid \<Rightarrow> uuid \<Rightarrow> instant \<Rightarrow> house \<Rightarrow> error + house \<times> bool \<times> alert option" where
  "accept_alert tn i by at =
     change_alert tn i [Sos_open]
       (\<lambda>r. r\<lparr>sa_status := Sos_accepted, sa_accepted_by := Some by, sa_acknowledged_at := Some at\<rparr>)"

definition close_alert :: "uuid \<Rightarrow> uuid \<Rightarrow> sos_status \<Rightarrow> house \<Rightarrow> error + house \<times> bool \<times> alert option" where
  "close_alert tn i to =
     change_alert tn i (if to = Sos_resolved then LIVE_STATUSES else [Sos_open]) (\<lambda>r. r\<lparr>sa_status := to\<rparr>)"

definition resolve_alert :: "uuid \<Rightarrow> uuid \<Rightarrow> house \<Rightarrow> error + house \<times> bool \<times> alert option" where
  "resolve_alert tn i = close_alert tn i Sos_resolved"

definition cancel_alert :: "uuid \<Rightarrow> uuid \<Rightarrow> house \<Rightarrow> error + house \<times> bool \<times> alert option" where
  "cancel_alert tn i = close_alert tn i Sos_cancelled"

text \<open>An alert beside the names its identifiers stand for, leavers and removed rooms included.\<close>

record alert_row =
  ar_alert :: alert
  ar_raised_by :: "utext option"
  ar_target :: "utext option"
  ar_accepted_by :: "utext option"
  ar_room :: "utext option"

definition name_of_any :: "uuid \<Rightarrow> house \<Rightarrow> uuid \<Rightarrow> utext option" where
  "name_of_any tn h i = map_option su_name (find (\<lambda>s. su_tenant s = tn \<and> su_id s = i) (h_staff h))"

definition alert_row_of :: "uuid \<Rightarrow> house \<Rightarrow> alert \<Rightarrow> alert_row" where
  "alert_row_of tn h r =
     \<lparr>ar_alert = r, ar_raised_by = name_of_any tn h (sa_raised_by r),
      ar_target = Option.bind (sa_target r) (name_of_any tn h),
      ar_accepted_by = Option.bind (sa_accepted_by r) (name_of_any tn h),
      ar_room = Option.bind (sa_fitting r) (\<lambda>i.
        Option.bind (fitting_by_id tn i h) (\<lambda>f.
        map_option rm_label (find (\<lambda>m. rm_tenant m = tn \<and> rm_id m = f_room f) (h_rooms h))))\<rparr>"

definition live_alerts_for :: "uuid \<Rightarrow> uuid option \<Rightarrow> house \<Rightarrow> alert_row list" where
  "live_alerts_for tn actor h =
     map (alert_row_of tn h) (sort_key sa_created_at
       (filter (\<lambda>r. sa_tenant r = tn \<and> \<not> sa_deleted r \<and> sa_status r \<in> set LIVE_STATUSES
          \<and> (case actor of None \<Rightarrow> True
             | Some a \<Rightarrow> sa_raised_by r = a \<or> sa_target r = Some a \<or> sa_accepted_by r = Some a)) (h_alerts h)))"

definition alert_view_of :: "uuid \<Rightarrow> uuid \<Rightarrow> house \<Rightarrow> alert_row option" where
  "alert_view_of tn i h = map_option (alert_row_of tn h) (alert_by_id tn i h)"

definition fitting_of_staff :: "uuid \<Rightarrow> uuid \<Rightarrow> uuid \<Rightarrow> house \<Rightarrow> fitting option" where
  "fitting_of_staff tn i staff h = find (\<lambda>r. fitting_named tn i r \<and> f_staff r = staff) (h_fittings h)"

section \<open>Notifications\<close>

definition RECENT_LIMIT :: nat where "RECENT_LIMIT = 20"

definition insert_notice ::
  "uuid \<Rightarrow> uuid \<Rightarrow> uuid \<Rightarrow> notice_kind \<Rightarrow> uuid \<Rightarrow> house \<Rightarrow> error + house \<times> notice" where
  "insert_notice tn staff actor kind entity h =
     add_row h_notices h_notices_update notices_ok
       (\<lambda>i. \<lparr>sn_id = i, sn_tenant = tn, sn_staff = staff, sn_actor = actor, sn_kind = kind, sn_entity = entity,
             sn_read_at = None, sn_created_at = h_now h, sn_deleted = False\<rparr>) h"

definition notice_of :: "uuid \<Rightarrow> uuid \<Rightarrow> notice \<Rightarrow> bool" where
  "notice_of tn staff r \<longleftrightarrow> sn_tenant r = tn \<and> sn_staff r = staff \<and> \<not> sn_deleted r"

definition unread_count :: "uuid \<Rightarrow> uuid \<Rightarrow> house \<Rightarrow> nat" where
  "unread_count tn staff h = length (filter (\<lambda>r. notice_of tn staff r \<and> sn_read_at r = None) (h_notices h))"

definition recent_notices :: "uuid \<Rightarrow> uuid \<Rightarrow> nat \<Rightarrow> house \<Rightarrow> (notice \<times> utext option) list" where
  "recent_notices tn staff limit h =
     map (\<lambda>r. (r, name_of_any tn h (sn_actor r)))
       (take limit (sort_key (\<lambda>r. - sn_created_at r) (filter (notice_of tn staff) (h_notices h))))"

definition mark_read :: "uuid \<Rightarrow> uuid \<Rightarrow> uuid list \<Rightarrow> instant \<Rightarrow> house \<Rightarrow> error + house \<times> nat" where
  "mark_read tn staff ids at h =
     andthen (if ids = [] then Inr (h, False)
              else change_rows h_notices h_notices_update notices_ok
                     (\<lambda>r. notice_of tn staff r \<and> sn_id r \<in> set ids \<and> sn_read_at r = None)
                     (\<lambda>r. r\<lparr>sn_read_at := Some at\<rparr>) h)
       (\<lambda>(h', _). Inr (h', unread_count tn staff h'))"

section \<open>The tables\<close>

interpretation rm: house_table rm_id rm_tenant rm_deleted rooms_ok h_rooms h_rooms_update
  by unfold_locales (simp_all add: rooms_ok_def)

interpretation ft: house_table f_id f_tenant f_deleted fittings_ok h_fittings h_fittings_update
  by unfold_locales (simp_all add: fittings_ok_def)

interpretation sa: house_table sa_id sa_tenant sa_deleted alerts_ok h_alerts h_alerts_update
  by unfold_locales (simp_all add: alerts_ok_def)

lemma fitting_named_named: "fitting_named = ft.named"
  by (auto simp: fitting_named_def ft.named_def fun_eq_iff)

lemma fitting_by_id_row: "fitting_by_id = ft.row"
  by (simp add: fitting_by_id_def ft.row_def ft.fetch_def fitting_named_named fun_eq_iff)

lemma alert_named_named: "alert_named = sa.named"
  by (auto simp: alert_named_def sa.named_def fun_eq_iff)

lemma alert_by_id_row: "alert_by_id = sa.row"
  by (simp add: alert_by_id_def sa.row_def sa.fetch_def alert_named_named fun_eq_iff)

end
