(* ===== verification/Floor.thy ===== *)
theory Floor
  imports Floor_Repo
begin

text \<open>
  The floor: \<open>app/floor/service.py\<close> without its alerts (theory \<open>Sos\<close>), \<open>validation.py\<close> and
  \<open>notifications.py\<close>. A room is claimed for a booking, or dispatched a walk-in from the queue; the two
  partial unique indexes decide every race, and a refusal is explained by reading who holds what,
  for a dispatch in a transaction of its own (\<open>between\<close> is what others did before it).
\<close>

definition MAX_ROOM_LABEL_LENGTH :: nat where "MAX_ROOM_LABEL_LENGTH = 40"
definition DRESS_PICKER_LIMIT :: nat where "DRESS_PICKER_LIMIT = 500"
definition CLIENT_PICKER_LIMIT :: nat where "CLIENT_PICKER_LIMIT = 200"

definition normalize_room_label :: "utext \<Rightarrow> error + utext" where
  "normalize_room_label label =
     andthen (ensure (Domain_validation ''label is required'') (ustrip label \<noteq> [])) (\<lambda>_.
     andthen (ensure (Domain_validation ''label must be at most 40 characters'')
                (\<not> length (ustrip label) > MAX_ROOM_LABEL_LENGTH)) (\<lambda>_.
     Inr (ustrip label)))"

definition authorize_floor :: "uuid \<Rightarrow> staff_context \<Rightarrow> error + unit" where
  "authorize_floor staff actor =
     ensure (Staff_error Not_authorized) (\<not> (staff \<noteq> sc_id actor \<and> \<not> elevated actor))"

section \<open>Reading the floor\<close>

datatype card_state = Card_occupied | Card_break | Card_available

definition card_status :: "staff_user \<Rightarrow> bool \<Rightarrow> card_state" where
  "card_status row occupied =
     (if occupied then Card_occupied else if su_break_at row \<noteq> None then Card_break else Card_available)"

record staff_card =
  cr_row :: staff_user
  cr_occupancy :: "room_row option"
  cr_on_shift :: bool
  cr_source :: on_shift_source

record room_view =
  vw_row :: room_row
  vw_bindings :: "binding list"

record waiting_view =
  wn_id :: uuid
  wn_name :: utext
  wn_visit :: visit_type
  wn_arrived_at :: instant
  wn_called :: bool
  wn_skips :: int
  wn_duplicate :: bool

type_synonym waitlist_view = "waiting_view list \<times> bool"

definition on_shift_of :: "zone \<Rightarrow> uuid \<Rightarrow> instant \<Rightarrow> house \<Rightarrow> staff_user \<Rightarrow> bool \<times> on_shift_source" where
  "on_shift_of z tn at h row =
     (let (local_date, _, _) = jerusalem_moment z at;
          published = (case roster_by_week tn (current_week_start local_date) h of
                         None \<Rightarrow> False | Some r \<Rightarrow> ro_published_at r \<noteq> None);
          rostered = (if published then on_shift_staff_ids z tn at h else []) in
      on_shift_at (su_shift_on row) (su_shift_override row) published (su_id row \<in> set rostered) local_date)"

text \<open>A phone that waits twice, or waits while it is being served, is marked as a duplicate.\<close>

definition waitlist_read :: "env \<Rightarrow> uuid \<Rightarrow> instant \<Rightarrow> house \<Rightarrow> waitlist_view" where
  "waitlist_read e tn now h =
     (let day = today_jerusalem (e_zone e) now;
          rows = waiting_for_panel tn day WAITLIST_LIMIT h;
          served = in_service_phones tn day h in
      (map (\<lambda>r. \<lparr>wn_id = tk_id r, wn_name = tk_name r, wn_visit = tk_visit r, wn_arrived_at = tk_created_at r,
                 wn_called = (tk_called_at r \<noteq> None), wn_skips = tk_skips r,
                 wn_duplicate = (count_list (map tk_phone rows) (tk_phone r) > 1 \<or> tk_phone r \<in> set served)\<rparr>) rows,
       length rows = WAITLIST_LIMIT))"

definition room_read :: "uuid \<Rightarrow> uuid \<Rightarrow> house \<Rightarrow> error + room_view" where
  "room_read tn i h =
     andthen (need (Domain_not_found ''fitting_room'') (room_with_occupancy tn i h)) (\<lambda>row.
     Inr \<lparr>vw_row = row,
          vw_bindings = (case rr_fitting row of None \<Rightarrow> [] | Some f \<Rightarrow> bindings_of tn (f_id f) h)\<rparr>)"

definition read_room :: "uuid \<Rightarrow> uuid \<Rightarrow> house \<Rightarrow> error + house \<times> room_view" where
  "read_room tn i h = andthen (room_read tn i h) (\<lambda>v. Inr (h, v))"

definition card_read :: "env \<Rightarrow> uuid \<Rightarrow> staff_user \<Rightarrow> instant \<Rightarrow> house \<Rightarrow> staff_card" where
  "card_read e tn row at h =
     \<lparr>cr_row = row, cr_occupancy = occupancy_for_staff tn (su_id row) h,
      cr_on_shift = fst (on_shift_of (e_zone e) tn at h row), cr_source = snd (on_shift_of (e_zone e) tn at h row)\<rparr>"

record floor_view =
  fv_staff :: "staff_user list"
  fv_occupancy :: "uuid \<Rightarrow> room_row option"
  fv_on_shift :: "uuid \<Rightarrow> (bool \<times> on_shift_source) option"
  fv_rooms :: "room_row list"
  fv_bindings :: "uuid \<Rightarrow> binding list"
  fv_now :: instant
  fv_waitlist :: waitlist_view

text \<open>The dictionaries of the read: a later room of the same holder would replace an earlier one.\<close>

definition floor_read :: "env \<Rightarrow> uuid \<Rightarrow> instant \<Rightarrow> house \<Rightarrow> floor_view" where
  "floor_read e tn now h =
     (let staff = list_live_staff tn h; rooms = list_with_occupancy tn h in
      \<lparr>fv_staff = staff,
       fv_occupancy = (\<lambda>i. find (\<lambda>row. map_option f_staff (rr_fitting row) = Some i) (rev rooms)),
       fv_on_shift = (\<lambda>i. map_option (on_shift_of (e_zone e) tn now h) (find (\<lambda>r. su_id r = i) (rev staff))),
       fv_rooms = rooms,
       fv_bindings = (\<lambda>i. if list_ex (\<lambda>row. map_option f_id (rr_fitting row) = Some i) rooms
                          then bindings_of tn i h else []),
       fv_now = now,
       fv_waitlist = waitlist_read e tn now h\<rparr>)"

section \<open>Breaks and the override\<close>

definition floor_start_break ::
  "env \<Rightarrow> uuid \<Rightarrow> uuid \<Rightarrow> staff_context \<Rightarrow> instant \<Rightarrow> house \<Rightarrow> error + house \<times> staff_card" where
  "floor_start_break e tn staff actor at h =
     andthen (authorize_floor staff actor) (\<lambda>_.
     andthen (start_break tn staff at h) (\<lambda>(h1, wrote, found).
     andthen (need (Domain_not_found ''staff_user'') found) (\<lambda>row.
     let h2 = log_when wrote tn (Floor_action Break_started) (Some staff) h1 in
     Inr (h2, card_read e tn row at h2))))"

definition floor_end_break ::
  "env \<Rightarrow> uuid \<Rightarrow> uuid \<Rightarrow> staff_context \<Rightarrow> instant \<Rightarrow> house \<Rightarrow> error + house \<times> staff_card" where
  "floor_end_break e tn staff actor at h =
     andthen (authorize_floor staff actor) (\<lambda>_.
     andthen (end_break tn staff h) (\<lambda>(h1, wrote, found).
     andthen (need (Domain_not_found ''staff_user'') found) (\<lambda>row.
     let h2 = log_when wrote tn (Floor_action Break_ended) (Some staff) h1 in
     Inr (h2, card_read e tn row at h2))))"

definition set_on_shift ::
  "env \<Rightarrow> uuid \<Rightarrow> uuid \<Rightarrow> bool \<Rightarrow> staff_context \<Rightarrow> instant \<Rightarrow> house \<Rightarrow> error + house \<times> staff_card" where
  "set_on_shift e tn staff on_shift actor at h =
     andthen (assert_elevated actor) (\<lambda>_.
     andthen (set_on_shift_override tn staff (Some (today_jerusalem (e_zone e) at)) (Some on_shift) h) (\<lambda>(h1, found).
     andthen (need (Domain_not_found ''staff_user'') found) (\<lambda>row.
     let h2 = log tn (Floor_action Shift_override_set) (Some staff) h1 in
     Inr (h2, card_read e tn row at h2))))"

definition clear_on_shift ::
  "env \<Rightarrow> uuid \<Rightarrow> uuid \<Rightarrow> staff_context \<Rightarrow> instant \<Rightarrow> house \<Rightarrow> error + house \<times> staff_card" where
  "clear_on_shift e tn staff actor at h =
     andthen (assert_elevated actor) (\<lambda>_.
     andthen (set_on_shift_override tn staff None None h) (\<lambda>(h1, found).
     andthen (need (Domain_not_found ''staff_user'') found) (\<lambda>row.
     let h2 = log tn (Floor_action Shift_override_cleared) (Some staff) h1 in
     Inr (h2, card_read e tn row at h2))))"

section \<open>Claiming a room\<close>

definition occupant_details :: "uuid \<Rightarrow> fitting option \<Rightarrow> house \<Rightarrow> utext option" where
  "occupant_details tn occupant h =
     Option.bind occupant (\<lambda>f. map_option su_name (staff_by_id tn (f_staff f) h))"

definition held_room_details :: "uuid \<Rightarrow> uuid \<Rightarrow> house \<Rightarrow> utext option" where
  "held_room_details tn staff h =
     Option.bind (room_of_staff tn staff h) (\<lambda>f. map_option rm_label (room_by_id tn (f_room f) h))"

definition is_claimable :: "env \<Rightarrow> instant \<Rightarrow> booking \<Rightarrow> bool" where
  "is_claimable e now b \<longleftrightarrow>
     \<not> (b_checked_in_at b = None \<or> b_status b = Cancelled)
     \<and> midnight (e_zone e) (today_jerusalem (e_zone e) now) \<le> b_starts_at b
     \<and> b_starts_at b < midnight (e_zone e) (today_jerusalem (e_zone e) now + 1)"

definition usable_room :: "uuid \<Rightarrow> uuid \<Rightarrow> house \<Rightarrow> error + unit" where
  "usable_room tn i h =
     (case room_by_id_for_update tn i h of
        None \<Rightarrow> Inl (Domain_not_found ''fitting_room'')
      | Some r \<Rightarrow> ensure (Domain_not_found ''fitting_room'') (rm_active r))"

text \<open>A claim that an index refused: her own claim, already there, is a success; otherwise the index
  says whether the room or she is taken.\<close>

definition resolve_claim_conflict ::
  "uuid \<Rightarrow> uuid \<Rightarrow> uuid \<Rightarrow> error \<Rightarrow> house \<Rightarrow> error + house \<times> room_view" where
  "resolve_claim_conflict tn room target err h =
     (if active_for tn room target h \<noteq> None then read_room tn room h
      else if err = Unique_violation ROOM_ACTIVE_INDEX
      then Inl (Floor_error (Room_occupied (occupant_details tn (occupant_of_room tn room h) h)))
      else if err = Unique_violation STAFF_ACTIVE_INDEX
      then Inl (Floor_error (Staff_occupied (held_room_details tn target h)))
      else Inl err)"

definition claim_room ::
  "env \<Rightarrow> uuid \<Rightarrow> uuid \<Rightarrow> uuid option \<Rightarrow> uuid option \<Rightarrow> staff_context \<Rightarrow> instant \<Rightarrow> house
   \<Rightarrow> error + house \<times> room_view" where
  "claim_room e tn room staff booking actor now h =
     (let target = given staff (sc_id actor) in
      andthen (authorize_floor target actor) (\<lambda>_.
      andthen (usable_room tn room h) (\<lambda>_.
      andthen (case booking of
                 None \<Rightarrow> Inr ()
               | Some i \<Rightarrow>
                   (case booking_by_id tn i (h_db h) of
                      None \<Rightarrow> Inl (Domain_not_found ''booking'')
                    | Some b \<Rightarrow> ensure (Domain_not_found ''booking'') (is_claimable e now b))) (\<lambda>_.
      case claim_row tn room target booking None h of
        Inl err \<Rightarrow> if is_integrity err then resolve_claim_conflict tn room target err h else Inl err
      | Inr (h1, f) \<Rightarrow> read_room tn room (log tn (Floor_action Room_claimed) (Some room) h1)))))"

section \<open>Dispatching the queue\<close>

definition notify_when ::
  "bool \<Rightarrow> uuid \<Rightarrow> uuid \<Rightarrow> uuid \<Rightarrow> notice_kind \<Rightarrow> uuid \<Rightarrow> house \<Rightarrow> error + house \<times> unit" where
  "notify_when c tn staff actor kind entity h =
     (if c then andthen (insert_notice tn staff actor kind entity h) (\<lambda>(h', _). Inr (h', ())) else Inr (h, ()))"

definition dispatch_read :: "env \<Rightarrow> uuid \<Rightarrow> uuid \<Rightarrow> instant \<Rightarrow> house \<Rightarrow> error + house \<times> room_view \<times> waitlist_view" where
  "dispatch_read e tn room now h =
     andthen (room_read tn room h) (\<lambda>v. Inr (h, v, waitlist_read e tn now h))"

text \<open>The transaction both dispatches share after the room was found: the ticket is taken by \<open>take\<close>,
  which also says with what error a missing ticket is refused.\<close>

definition seat_ticket ::
  "env \<Rightarrow> uuid \<Rightarrow> uuid \<Rightarrow> uuid \<Rightarrow> staff_context \<Rightarrow> instant \<Rightarrow> (house \<Rightarrow> error + house \<times> ticket) \<Rightarrow> house
   \<Rightarrow> error + house \<times> room_view \<times> waitlist_view" where
  "seat_ticket e tn room target actor now pick h =
     andthen (usable_room tn room h) (\<lambda>_.
     andthen (case occupant_of_room tn room h of
                None \<Rightarrow> Inr ()
              | Some f \<Rightarrow> Inl (Floor_error (Room_occupied (occupant_details tn (Some f) h)))) (\<lambda>_.
     andthen (pick h) (\<lambda>(h1, t).
     andthen (claim_row tn room target None (Some (tk_id t)) h1) (\<lambda>(h2, f).
     let h3 = log tn (Floor_action Ticket_dispatched) (Some (tk_id t)) h2 in
     andthen (notify_when (target \<noteq> sc_id actor) tn target (sc_id actor) Dispatch_assigned (f_id f) h3) (\<lambda>(h4, _).
     dispatch_read e tn room now h4)))))"

definition occupied_error :: "uuid \<Rightarrow> uuid \<Rightarrow> uuid \<Rightarrow> error \<Rightarrow> house \<Rightarrow> error" where
  "occupied_error tn room target err h =
     (case occupant_of_room tn room h of
        Some f \<Rightarrow> Floor_error (Room_occupied (occupant_details tn (Some f) h))
      | None \<Rightarrow>
          (case room_of_staff tn target h of
             Some _ \<Rightarrow> Floor_error (Staff_occupied (held_room_details tn target h))
           | None \<Rightarrow>
               if err \<notin> {Unique_violation ROOM_ACTIVE_INDEX, Unique_violation STAFF_ACTIVE_INDEX} then err
               else Floor_error (Room_occupied None)))"

definition explained ::
  "uuid \<Rightarrow> uuid \<Rightarrow> uuid \<Rightarrow> house \<Rightarrow> error + 'a \<Rightarrow> error + 'a" where
  "explained tn room target later r =
     (case r of
        Inr x \<Rightarrow> Inr x
      | Inl err \<Rightarrow> if is_integrity err then Inl (occupied_error tn room target err later) else Inl err)"

definition take_next ::
  "env \<Rightarrow> uuid \<Rightarrow> uuid \<Rightarrow> uuid option \<Rightarrow> staff_context \<Rightarrow> instant \<Rightarrow> (house \<Rightarrow> house) \<Rightarrow> house
   \<Rightarrow> error + house \<times> room_view \<times> waitlist_view" where
  "take_next e tn room staff actor now between h =
     (let target = given staff (sc_id actor) in
      andthen (authorize_floor target actor) (\<lambda>_.
      explained tn room target (between h)
        (seat_ticket e tn room target actor now
           (\<lambda>h. andthen (claim_next tn (today_jerusalem (e_zone e) now) h) (\<lambda>(h1, t).
                andthen (need (Floor_error Queue_empty) t) (\<lambda>t. Inr (h1, t)))) h)))"

text \<open>Why a ticket was not there to take: gone, no longer waiting, or changed since it was shown.\<close>

definition ticket_refusal :: "uuid \<Rightarrow> uuid \<Rightarrow> house \<Rightarrow> error + int" where
  "ticket_refusal tn i h =
     (case status_of tn i h of
        None \<Rightarrow> Inl (Floor_error Queue_ticket_not_found)
      | Some (status, skips) \<Rightarrow>
          if status \<noteq> Q_waiting then Inl (Floor_error (Queue_ticket_not_waiting status)) else Inr skips)"

definition refused :: "uuid \<Rightarrow> uuid \<Rightarrow> house \<Rightarrow> error + 'a" where
  "refused tn i h = andthen (ticket_refusal tn i h) (\<lambda>skips. Inl (Floor_error (Queue_ticket_changed skips)))"

definition or_refused :: "uuid \<Rightarrow> uuid \<Rightarrow> house \<times> ticket option \<Rightarrow> error + house \<times> ticket" where
  "or_refused tn i p = (case snd p of None \<Rightarrow> refused tn i (fst p) | Some t \<Rightarrow> Inr (fst p, t))"

definition assign_ticket ::
  "env \<Rightarrow> uuid \<Rightarrow> uuid \<Rightarrow> uuid \<Rightarrow> uuid option \<Rightarrow> staff_context \<Rightarrow> instant \<Rightarrow> (house \<Rightarrow> house) \<Rightarrow> house
   \<Rightarrow> error + house \<times> room_view \<times> waitlist_view" where
  "assign_ticket e tn room ticket staff actor now between h =
     (let target = given staff (sc_id actor) in
      andthen (authorize_floor target actor) (\<lambda>_.
      explained tn room target (between h)
        (seat_ticket e tn room target actor now
           (\<lambda>h. andthen (claim_by_id tn ticket h) (or_refused tn ticket)) h)))"

definition floor_call ::
  "env \<Rightarrow> uuid \<Rightarrow> uuid \<Rightarrow> instant \<Rightarrow> house \<Rightarrow> error + house \<times> waitlist_view" where
  "floor_call e tn i now h =
     andthen (call_ticket tn i now h) (\<lambda>(h1, row).
     case row of
       None \<Rightarrow> andthen (ticket_refusal tn i h1) (\<lambda>_. Inr (h1, waitlist_read e tn now h1))
     | Some _ \<Rightarrow> let h2 = log tn (Floor_action Ticket_called) (Some i) h1 in Inr (h2, waitlist_read e tn now h2))"

definition floor_skip ::
  "env \<Rightarrow> uuid \<Rightarrow> uuid \<Rightarrow> int \<Rightarrow> instant \<Rightarrow> house \<Rightarrow> error + house \<times> waitlist_view" where
  "floor_skip e tn i seen now h =
     andthen (andthen (skip_ticket tn i now seen h) (or_refused tn i)) (\<lambda>(h1, _).
     let h2 = log tn (Floor_action Ticket_skipped) (Some i) h1 in Inr (h2, waitlist_read e tn now h2))"

definition floor_remove ::
  "env \<Rightarrow> uuid \<Rightarrow> uuid \<Rightarrow> instant \<Rightarrow> house \<Rightarrow> error + house \<times> waitlist_view" where
  "floor_remove e tn i now h =
     andthen (andthen (remove_ticket tn i h) (or_refused tn i)) (\<lambda>(h1, _).
     let h2 = log tn (Floor_action Ticket_removed) (Some i) h1 in Inr (h2, waitlist_read e tn now h2))"

section \<open>Release and handover\<close>

text \<open>Only the holder or a manager releases; the first release of a walk-in's fitting closes her ticket.\<close>

definition release_room ::
  "uuid \<Rightarrow> uuid \<Rightarrow> staff_context \<Rightarrow> instant \<Rightarrow> house \<Rightarrow> error + house \<times> room_view" where
  "release_room tn i actor at h =
     andthen (need (Domain_not_found ''fitting_room_assignment'') (fitting_by_id tn i h)) (\<lambda>before.
     andthen (ensure (Domain_not_found ''fitting_room_assignment'')
                (\<not> (f_staff before \<noteq> sc_id actor \<and> \<not> elevated actor))) (\<lambda>_.
     andthen (release_row tn i at h) (\<lambda>(h1, wrote, found).
     andthen (need (Domain_not_found ''fitting_room_assignment'') found) (\<lambda>row.
     andthen (if \<not> wrote then Inr h1
              else andthen (case f_ticket row of
                              None \<Rightarrow> Inr (h1, None) | Some t \<Rightarrow> close_ticket tn t h1) (\<lambda>(h2, _).
                   Inr (log tn (Floor_action Room_released) (Some i) h2))) (\<lambda>h3.
     read_room tn (f_room row) h3)))))"

definition handover_room ::
  "uuid \<Rightarrow> uuid \<Rightarrow> uuid \<Rightarrow> staff_context \<Rightarrow> house \<Rightarrow> error + house \<times> room_view" where
  "handover_room tn i new_staff actor h =
     (case handover_row tn i new_staff h of
        Inl err \<Rightarrow>
          Inl (if err = Unique_violation STAFF_ACTIVE_INDEX
               then Floor_error (Staff_occupied (held_room_details tn new_staff h)) else err)
      | Inr (h1, wrote, found) \<Rightarrow>
          andthen (ensure (Domain_not_found ''fitting_room_assignment'') (\<not> (\<not> wrote \<or> found = None))) (\<lambda>_.
          let h2 = log tn (Floor_action Room_handed_over) (Some i) h1 in
          andthen (notify_when (new_staff \<noteq> sc_id actor) tn new_staff (sc_id actor) Room_was_handed_over i h2) (\<lambda>(h3, _).
          read_room tn (f_room (the found)) h3)))"

section \<open>Dresses in the room\<close>

definition add_dress ::
  "uuid \<Rightarrow> uuid \<Rightarrow> uuid \<Rightarrow> utext option \<Rightarrow> house \<Rightarrow> error + house \<times> room_view" where
  "add_dress tn i gid size_label h =
     andthen (need (Domain_not_found ''fitting_room_assignment'') (active_fitting_by_id tn i h)) (\<lambda>f.
     andthen (need (Domain_not_found ''dress'') (dress_by_id tn gid (h_db h))) (\<lambda>g.
     andthen (add_binding tn i gid (g_name g) size_label h) (\<lambda>(h1, _, _).
     read_room tn (f_room f) h1)))"

definition remove_dress ::
  "uuid \<Rightarrow> uuid \<Rightarrow> uuid \<Rightarrow> staff_context \<Rightarrow> house \<Rightarrow> error + house \<times> room_view" where
  "remove_dress tn i binding_id actor h =
     andthen (need (Domain_not_found ''fitting_room_assignment'') (active_fitting_by_id tn i h)) (\<lambda>f.
     andthen (remove_binding tn i binding_id (sc_id actor) h) (\<lambda>(h1, removed).
     andthen (ensure (Domain_not_found ''fitting_assignment_dress'') removed) (\<lambda>_.
     read_room tn (f_room f) h1)))"

section \<open>The registry of rooms\<close>

definition create_room :: "uuid \<Rightarrow> utext \<Rightarrow> int \<Rightarrow> house \<Rightarrow> error + house \<times> room_view" where
  "create_room tn label order h =
     andthen (normalize_room_label label) (\<lambda>normalized.
     andthen (insert_room tn normalized order True h) (\<lambda>(h1, r).
     read_room tn (rm_id r) h1))"

definition update_room ::
  "uuid \<Rightarrow> uuid \<Rightarrow> utext option \<Rightarrow> int option \<Rightarrow> bool option \<Rightarrow> house \<Rightarrow> error + house \<times> room_view" where
  "update_room tn i label order active h =
     andthen (case label of None \<Rightarrow> Inr None
              | Some l \<Rightarrow> andthen (normalize_room_label l) (\<lambda>n. Inr (Some n))) (\<lambda>normalized.
     andthen (update_room_row tn i normalized order active h) (\<lambda>(h1, row).
     andthen (need (Domain_not_found ''fitting_room'') row) (\<lambda>_.
     read_room tn i h1)))"

definition delete_room :: "uuid \<Rightarrow> uuid \<Rightarrow> house \<Rightarrow> error + house \<times> unit" where
  "delete_room tn i h =
     andthen (need (Domain_not_found ''fitting_room'') (room_by_id_for_update tn i h)) (\<lambda>_.
     andthen (ensure (Floor_error (Room_occupied (occupant_details tn (occupant_of_room tn i h) h)))
                (\<not> has_active_for_room tn i h)) (\<lambda>_.
     andthen (soft_delete_room tn i h) (\<lambda>(h1, _).
     Inr (log tn (Floor_action Room_deleted) (Some i) h1, ()))))"

section \<open>Pickers and the notification list\<close>

text \<open>Postgres orders names by the database's collation, here \<open>collation\<close>.\<close>

definition list_for_picker :: "(utext \<Rightarrow> nat) \<Rightarrow> uuid \<Rightarrow> nat \<Rightarrow> db \<Rightarrow> dress list" where
  "list_for_picker collation tn limit s =
     take limit (sort_key (\<lambda>g. (g_order g, collation (g_name g), g_id g))
       (filter (\<lambda>g. g_tenant g = tn \<and> \<not> g_deleted g) (d_dresses s)))"

definition picker_dresses :: "(utext \<Rightarrow> nat) \<Rightarrow> uuid \<Rightarrow> house \<Rightarrow> (dress \<times> utext list) list \<times> bool" where
  "picker_dresses collation tn h =
     (let rows = list_for_picker collation tn DRESS_PICKER_LIMIT (h_db h) in
      (map (\<lambda>g. (g, map gv_size_label (list_variants tn (g_id g) (h_db h)))) rows,
       length rows = DRESS_PICKER_LIMIT))"

definition picker_clients :: "env \<Rightarrow> uuid \<Rightarrow> instant \<Rightarrow> house \<Rightarrow> (booking \<times> utext option) list \<times> bool" where
  "picker_clients e tn now h =
     (let today = today_jerusalem (e_zone e) now;
          rows = list_checked_in_between tn (midnight (e_zone e) today) (midnight (e_zone e) (today + 1))
                   CLIENT_PICKER_LIMIT (h_db h) in
      (map (\<lambda>b. (b, map_option c_name (customer_by_id tn (b_customer b) (h_db h)))) rows,
       length rows = CLIENT_PICKER_LIMIT))"

definition notifications_recent :: "uuid \<Rightarrow> uuid \<Rightarrow> house \<Rightarrow> (notice \<times> utext option) list" where
  "notifications_recent tn actor h = recent_notices tn actor RECENT_LIMIT h"

definition notifications_mark_read :: "uuid \<Rightarrow> uuid list \<Rightarrow> uuid \<Rightarrow> instant \<Rightarrow> house \<Rightarrow> error + house \<times> nat" where
  "notifications_mark_read tn ids actor at h = mark_read tn actor ids at h"

end
