(* ===== verification/Floor_Laws.thy ===== *)
theory Floor_Laws
  imports Floor
begin

text \<open>
  What the floor guarantees: which of its four outcomes a claim has, that a release ends the visit once,
  and that the tickets in service are exactly the tickets running fittings carry. The last is stated
  as \<open>floor_ok\<close> and proved of every statement that touches tickets or fittings; theory \<open>Backoffice\<close>
  shows that it holds in every state the back office reaches.
\<close>

section \<open>Statements on the assignments\<close>

definition write_fitting :: "uuid \<Rightarrow> uuid \<Rightarrow> (fitting \<Rightarrow> fitting) \<Rightarrow> house \<Rightarrow> house" where
  "write_fitting tn i f h = h\<lparr>h_fittings := update_where (fitting_named tn i) f (h_fittings h)\<rparr>"

lemma write_fitting_put: "write_fitting = ft.put"
  by (simp add: fun_eq_iff write_fitting_def ft.put_def fitting_named_named)

lemma write_fitting_sel [simp]:
  "h_fittings (write_fitting tn i f h) = update_where (fitting_named tn i) f (h_fittings h)"
  "h_tickets (write_fitting tn i f h) = h_tickets h" "h_rooms (write_fitting tn i f h) = h_rooms h"
  "h_staff (write_fitting tn i f h) = h_staff h" "h_db (write_fitting tn i f h) = h_db h"
  by (simp_all add: write_fitting_def)

lemma fitting_by_id_write:
  "ft.keeps_name f \<Longrightarrow> fitting_by_id tn' i' (write_fitting tn i f h) =
     (if tn' = tn \<and> i' = i then map_option f (fitting_by_id tn i h) else fitting_by_id tn' i' h)"
  unfolding fitting_by_id_row write_fitting_put by (rule ft.row_put)

lemma change_fitting_run:
  assumes "fittings_ok (h_fittings h)"
  shows "change_fitting tn i f h =
    (case fitting_by_id tn i h of
       None \<Rightarrow> Inr (h, False)
     | Some r \<Rightarrow>
         if \<not> running r then Inr (h, False)
         else if fittings_ok (h_fittings (write_fitting tn i f h)) then Inr (write_fitting tn i f h, True)
         else Inl (violation fitting_indexes
                     (update_where (\<lambda>r. fitting_named tn i r \<and> running r) f (h_fittings h))))"
  unfolding change_fitting_def Let_def fitting_named_named ft.change_run [OF assms] fitting_by_id_row write_fitting_put
  by (auto split: option.splits)

lemma fittings_ok_release:
  "fittings_ok rows \<Longrightarrow> fittings_ok (update_where P (\<lambda>r. r\<lparr>f_released_at := Some at\<rparr>) rows)"
  unfolding fittings_ok_def
  by (auto simp: map_update_where running_def room_key_def holder_key_def intro!: unique_on_update_shrink)

lemma release_row_run:
  assumes "fittings_ok (h_fittings h)"
  shows "release_row tn i at h =
    (case fitting_by_id tn i h of
       None \<Rightarrow> Inr (h, False, None)
     | Some r \<Rightarrow>
         if running r then Inr (write_fitting tn i (\<lambda>r. r\<lparr>f_released_at := Some at\<rparr>) h, True, Some (r\<lparr>f_released_at := Some at\<rparr>))
         else Inr (h, False, Some r))"
proof -
  have "ft.keeps_name (\<lambda>r. r\<lparr>f_released_at := Some at\<rparr>)" by (simp add: ft.keeps_name_def)
  then show ?thesis
    using fittings_ok_release [OF assms]
    by (auto simp: release_row_def change_fitting_run [OF assms] fitting_by_id_write split: option.splits)
qed

text \<open>Adding a running fitting: the first index speaks of its room, the second of its holder.\<close>

lemma runs_in_key: "runs_in tn i f \<longleftrightarrow> running f \<and> room_key f = (tn, i)"
  by (auto simp: runs_in_def room_key_def)

lemma claim_row_run:
  assumes "fittings_ok (h_fittings h)" "h_next h \<notin> f_id ` set (h_fittings h)"
  shows "claim_row tn room staff booking ticket h =
    (if occupant_of_room tn room h \<noteq> None then Inl (Unique_violation ROOM_ACTIVE_INDEX)
     else if room_of_staff tn staff h \<noteq> None then Inl (Unique_violation STAFF_ACTIVE_INDEX)
     else let f = new_fitting tn room staff booking ticket (h_now h) (h_next h) in
          Inr (bump (h\<lparr>h_fittings := h_fittings h @ [f]\<rparr>), f))"
proof -
  let ?f = "new_fitting tn room staff booking ticket (h_now h) (h_next h)"
  have run: "running ?f" "room_key ?f = (tn, room)" "holder_key ?f = (tn, staff)" "f_id ?f = h_next h"
    by (simp_all add: new_fitting_def running_def room_key_def holder_key_def)
  have room: "unique_on running room_key (h_fittings h @ [?f]) \<longleftrightarrow> occupant_of_room tn room h = None"
    using assms(1) run by (auto simp: fittings_ok_def occupant_of_room_def find_None_Ball runs_in_key)
  have staff: "unique_on running holder_key (h_fittings h @ [?f]) \<longleftrightarrow> room_of_staff tn staff h = None"
    using assms(1) run by (auto simp: fittings_ok_def room_of_staff_def find_None_Ball holder_key_def)
  have ids: "distinct (map f_id (h_fittings h @ [?f]))"
    using assms run(4) by (auto simp: fittings_ok_def)
  show ?thesis
  proof (cases "occupant_of_room tn room h = None \<and> room_of_staff tn staff h = None")
    case True
    with room staff ids have "fittings_ok (h_fittings h @ [?f])" by (simp add: fittings_ok_def)
    then have "add_row h_fittings h_fittings_update fittings_ok (new_fitting tn room staff booking ticket (h_now h)) h
        = Inr (bump (h_fittings_update (\<lambda>_. h_fittings h @ [?f]) h), ?f)"
      by (simp add: add_row_Inr)
    with True show ?thesis by (simp add: claim_row_def Let_def)
  next
    case False
    with room staff have "\<not> fittings_ok (h_fittings h @ [?f])" by (auto simp: fittings_ok_def)
    then have "add_row h_fittings h_fittings_update fittings_ok (new_fitting tn room staff booking ticket (h_now h)) h
        = Inl Integrity_error"
      by (simp add: add_row_Inl)
    with False room staff show ?thesis
      by (auto simp: claim_row_def Let_def violation_def fitting_indexes_def)
  qed
qed

section \<open>The outcomes of a claim\<close>

text \<open>A visit a room can be claimed for: checked in, not cancelled, of today by the shop's calendar.\<close>

definition visiting_today :: "env \<Rightarrow> uuid \<Rightarrow> uuid \<Rightarrow> instant \<Rightarrow> db \<Rightarrow> bool" where
  "visiting_today e tn i now s \<longleftrightarrow>
     (\<exists>b. booking_by_id tn i s = Some b \<and> b_checked_in_at b \<noteq> None \<and> b_status b \<noteq> Cancelled
        \<and> midnight (e_zone e) (today_jerusalem (e_zone e) now) \<le> b_starts_at b
        \<and> b_starts_at b < midnight (e_zone e) (today_jerusalem (e_zone e) now + 1))"

text \<open>C38. A claim decides, and these are all its outcomes. Only a manager claims for somebody else; a room
  that is not there or not in use, and then a visit that is not checked in today, are not found. Otherwise,
  asking again for the room she already holds answers the room and changes nothing; a room somebody else is
  in is refused with the holder's name, and a holder who is elsewhere with the label of the room she is in;
  and else the room is hers, for that visit if one was named, and the only rows written are her fitting and
  the audit of the claim.\<close>

theorem claim_decides:
  assumes "fittings_ok (h_fittings h)" "h_next h \<notin> f_id ` set (h_fittings h)"
  shows "claim_room e tn room staff booking actor now h =
    (let target = (case staff of None \<Rightarrow> sc_id actor | Some i \<Rightarrow> i) in
     if target \<noteq> sc_id actor \<and> \<not> elevated actor then Inl (Staff_error Not_authorized)
     else if \<not> (\<exists>r. room_by_id_for_update tn room h = Some r \<and> rm_active r)
     then Inl (Domain_not_found ''fitting_room'')
     else if \<exists>i. booking = Some i \<and> \<not> visiting_today e tn i now (h_db h)
     then Inl (Domain_not_found ''booking'')
     else if active_for tn room target h \<noteq> None then read_room tn room h
     else if occupant_of_room tn room h \<noteq> None
     then Inl (Floor_error (Room_occupied (occupant_details tn (occupant_of_room tn room h) h)))
     else if room_of_staff tn target h \<noteq> None
     then Inl (Floor_error (Staff_occupied (held_room_details tn target h)))
     else read_room tn room (log tn (Floor_action Room_claimed) (Some room) (bump (h\<lparr>h_fittings :=
            h_fittings h @ [new_fitting tn room target booking None (h_now h) (h_next h)]\<rparr>))))"
proof -
  define target where "target = (case staff of None \<Rightarrow> sc_id actor | Some i \<Rightarrow> i)"
  have t: "given staff (sc_id actor) = target" by (simp add: given_def target_def)
  have occ: "occupant_of_room tn room h \<noteq> None" if "active_for tn room target h \<noteq> None"
    using that by (auto simp: active_for_def occupant_of_room_def find_None_Ball dest!: find_SomeD)
  define visit where "visit = (case booking of None \<Rightarrow> Inr ()
     | Some i \<Rightarrow> (case booking_by_id tn i (h_db h) of
                    None \<Rightarrow> Inl (Domain_not_found ''booking'')
                  | Some b \<Rightarrow> ensure (Domain_not_found ''booking'') (is_claimable e now b)))"
  have visit: "visit = (if \<exists>i. booking = Some i \<and> \<not> visiting_today e tn i now (h_db h)
      then Inl (Domain_not_found ''booking'') else Inr ())"
    by (auto simp: visit_def visiting_today_def is_claimable_def split: option.splits)
  have room: "usable_room tn room h = (if \<exists>r. room_by_id_for_update tn room h = Some r \<and> rm_active r
      then Inr () else Inl (Domain_not_found ''fitting_room''))"
    by (auto simp: usable_room_def split: option.splits)
  show ?thesis
    unfolding claim_room_def Let_def t visit_def [symmetric] target_def [symmetric] visit room authorize_floor_def
    using occ by (auto simp: claim_row_run [OF assms] resolve_claim_conflict_def Let_def
        ROOM_ACTIVE_INDEX_def STAFF_ACTIVE_INDEX_def)
qed

definition salon :: house where
  "salon = front_desk\<lparr>h_rooms :=
     [\<lparr>rm_id = 61, rm_tenant = 7, rm_label = [49], rm_order = 0, rm_active = True, rm_created_at = 0, rm_deleted = False\<rparr>,
      \<lparr>rm_id = 62, rm_tenant = 7, rm_label = [50], rm_order = 1, rm_active = True, rm_created_at = 0, rm_deleted = False\<rparr>],
     h_fittings := [new_fitting 7 61 1 None None 0 63], h_db := (h_db front_desk)\<lparr>d_next := 100\<rparr>\<rparr>"

theorem claim_decides_witness:
  "claim_room plain_env 7 62 None None boss 0 salon = Inl (Floor_error (Staff_occupied (Some [49])))
   \<and> claim_room plain_env 7 61 (Some 2) None boss 0 salon = Inl (Floor_error (Room_occupied (Some [65])))
   \<and> claim_room plain_env 7 62 (Some 2) (Some 5) boss 0 salon = Inl (Domain_not_found ''booking'')"
proof -
  have ok: "fittings_ok (h_fittings salon)" "h_next salon \<notin> f_id ` set (h_fittings salon)" by code_simp+
  have "list_ex rm_active (case room_by_id_for_update 7 62 salon of None \<Rightarrow> [] | Some r \<Rightarrow> [r])"
    "list_ex rm_active (case room_by_id_for_update 7 61 salon of None \<Rightarrow> [] | Some r \<Rightarrow> [r])" by code_simp+
  then have rooms: "\<exists>r. room_by_id_for_update 7 62 salon = Some r \<and> rm_active r"
    "\<exists>r. room_by_id_for_update 7 61 salon = Some r \<and> rm_active r"
    by (auto split: option.splits)
  have who: "elevated boss" "sc_id boss = 1" by code_simp+
  have reads: "active_for 7 62 1 salon = None" "occupant_of_room 7 62 salon = None" "room_of_staff 7 1 salon \<noteq> None"
    "held_room_details 7 1 salon = Some [49]" "active_for 7 61 2 salon = None" "occupant_of_room 7 61 salon \<noteq> None"
    "occupant_details 7 (occupant_of_room 7 61 salon) salon = Some [65]" by code_simp+
  have "booking_by_id 7 5 (h_db salon) = None" by code_simp
  then have "\<not> visiting_today plain_env 7 5 0 (h_db salon)" by (simp add: visiting_today_def)
  then show ?thesis
    using claim_decides [OF ok, of plain_env 7 62 None None boss 0]
      claim_decides [OF ok, of plain_env 7 61 "Some 2" None boss 0]
      claim_decides [OF ok, of plain_env 7 62 "Some 2" "Some 5" boss 0] reads rooms who
    by (simp add: Let_def)
qed

section \<open>Tickets in service\<close>

definition carries :: "uuid \<Rightarrow> uuid \<Rightarrow> fitting \<Rightarrow> bool" where
  "carries tn i f \<longleftrightarrow> running f \<and> f_tenant f = tn \<and> f_ticket f = Some i"

definition ticket_found :: "house \<Rightarrow> fitting \<Rightarrow> bool" where
  "ticket_found h f \<longleftrightarrow> f_ticket f = None \<or> ticket_by_id (f_tenant f) (the (f_ticket f)) h \<noteq> None"

text \<open>A live ticket is carried by one running fitting while it is in service and by none otherwise, and
  the ticket a running fitting carries is there.\<close>

definition floor_ok :: "house \<Rightarrow> bool" where
  "floor_ok h \<longleftrightarrow>
     (\<forall>t\<in>set (h_tickets h). \<not> tk_deleted t \<longrightarrow>
        length (filter (carries (tk_tenant t) (tk_id t)) (h_fittings h)) = (if tk_status t = Q_in_service then 1 else 0))
     \<and> (\<forall>f\<in>set (h_fittings h). running f \<longrightarrow> ticket_found h f)"

lemma find_update_None: "(\<And>r. Q (f r) = Q r) \<Longrightarrow> find Q (update_where P f rows) = None \<longleftrightarrow> find Q rows = None"
  by (simp add: find_update_where_stable)

lemma ticket_found_cong:
  "(\<And>tn i. ticket_by_id tn i h' = None \<longleftrightarrow> ticket_by_id tn i h = None) \<Longrightarrow> ticket_found h' = ticket_found h"
  by (auto simp: ticket_found_def fun_eq_iff split: option.splits)

lemma floor_ok_same:
  "h_tickets h' = h_tickets h \<Longrightarrow> h_fittings h' = h_fittings h \<Longrightarrow> floor_ok h' = floor_ok h"
  using ticket_found_cong [of h h'] by (simp add: floor_ok_def ticket_by_id_def)

lemma floor_ok_bump_log [simp]: "floor_ok (bump h) = floor_ok h" "floor_ok (log tn a i h) = floor_ok h"
  by (rule floor_ok_same; simp)+

text \<open>A change of a ticket that neither names it anew nor moves it into or out of service.\<close>

lemma floor_ok_tickets:
  assumes "floor_ok h" "h_fittings h' = h_fittings h" "h_tickets h' = update_where P f (h_tickets h)" "qt.keeps_name f"
    and "\<And>r. r \<in> set (h_tickets h) \<Longrightarrow> P r \<Longrightarrow> (tk_status (f r) = Q_in_service) = (tk_status r = Q_in_service)"
  shows "floor_ok h'"
proof -
  have k: "tk_id (f r) = tk_id r" "tk_tenant (f r) = tk_tenant r" "tk_deleted (f r) = tk_deleted r" for r
    using assms(4) by (simp_all add: qt.keeps_name_def)
  have "ticket_by_id tn i h' = None \<longleftrightarrow> ticket_by_id tn i h = None" for tn i
    unfolding ticket_by_id_def assms(3) by (rule find_update_None) (simp add: ticket_named_def k)
  then show ?thesis
    using assms(1,2,5) ticket_found_cong [of h h'] by (auto simp: floor_ok_def assms(3) set_update_where k)
qed

lemma floor_ok_new_ticket:
  assumes "floor_ok h" "tickets_ok (h_tickets h @ [t])" "h_fittings h' = h_fittings h" "h_tickets h' = h_tickets h @ [t]"
    and "tk_status t \<noteq> Q_in_service"
  shows "floor_ok h'"
proof -
  have fresh: "tk_id t \<notin> tk_id ` set (h_tickets h)" using assms(2) by (simp add: tickets_ok_def)
  have none: "\<not> carries (tk_tenant t) (tk_id t) f" if f: "f \<in> set (h_fittings h)" for f
  proof
    assume c: "carries (tk_tenant t) (tk_id t) f"
    with assms(1) f have "ticket_by_id (tk_tenant t) (tk_id t) h \<noteq> None"
      by (auto simp: floor_ok_def carries_def ticket_found_def)
    then obtain r where "ticket_by_id (tk_tenant t) (tk_id t) h = Some r" by blast
    then have "r \<in> set (h_tickets h) \<and> tk_id r = tk_id t" by (auto simp: ticket_by_id_row dest: qt.row_SomeD)
    with fresh show False by (metis imageI)
  qed
  have "filter (carries (tk_tenant t) (tk_id t)) (h_fittings h) = []" using none by (simp add: filter_empty_conv)
  moreover have "ticket_by_id tn i h \<noteq> None \<Longrightarrow> ticket_by_id tn i h' \<noteq> None" for tn i
    by (auto simp: ticket_by_id_def assms(4) find_append)
  ultimately show ?thesis
    using assms(1,5) by (auto simp: floor_ok_def ticket_found_def assms(3,4) split: option.splits)
qed

lemma floor_ok_fittings:
  assumes "floor_ok h" "h_tickets h' = h_tickets h" "h_fittings h' = update_where P f (h_fittings h)"
    and "\<And>r. f_ticket (f r) = f_ticket r \<and> f_tenant (f r) = f_tenant r \<and> running (f r) = running r"
  shows "floor_ok h'"
proof -
  have len: "length (filter (carries tn i) (update_where P f rows)) = length (filter (carries tn i) rows)" for tn i rows
    by (induction rows) (simp_all add: carries_def assms(4))
  have found: "ticket_found h' (f r) = ticket_found h r" "ticket_found h' r = ticket_found h r" for r
    by (simp_all add: ticket_found_def ticket_by_id_def assms(2,4))
  show ?thesis
    using assms(1) found by (auto simp: floor_ok_def assms(2-4) set_update_where len)
qed

lemma floor_ok_claim:
  assumes "floor_ok h" "h_tickets h' = h_tickets h" "h_fittings h' = h_fittings h @ [f]" "f_ticket f = None"
  shows "floor_ok h'"
proof -
  have "ticket_found h' r = ticket_found h r" "ticket_found h' f" "\<not> carries tn i f" for r tn i
    by (simp_all add: ticket_found_def ticket_by_id_def assms(2,4) carries_def)
  with assms(1) show ?thesis by (auto simp: floor_ok_def assms(2,3))
qed

text \<open>The two statements that move a ticket into and out of service, each with the fitting that carries it.\<close>

lemma floor_ok_seat:
  assumes "floor_ok h" "tickets_ok (h_tickets h)" "ticket_by_id tn i h = Some t" "waiting t"
    and "h_tickets h' = update_where (ticket_named tn i) (\<lambda>r. r\<lparr>tk_status := Q_in_service\<rparr>) (h_tickets h)"
    and "h_fittings h' = h_fittings h @ [f]" "running f" "f_tenant f = tn" "f_ticket f = Some i"
  shows "floor_ok h'"
proof -
  have t: "t \<in> set (h_tickets h)" "tk_tenant t = tn" "tk_id t = i" "\<not> tk_deleted t"
    using qt.row_SomeD assms(3) by (auto simp: ticket_by_id_row)
  have one: "r = t" if "r \<in> set (h_tickets h)" "tk_id r = i" for r
    using qt.same_row [OF assms(2) that(1) t(1)] that(2) t(3) by simp
  have zero: "length (filter (carries tn i) (h_fittings h)) = 0"
    using assms(1,4) t by (auto simp: floor_ok_def waiting_def)
  have c: "carries tn' i' f \<longleftrightarrow> tn' = tn \<and> i' = i" for tn' i' using assms(7-9) by (auto simp: carries_def)
  have "ticket_by_id tn' i' h' = None \<longleftrightarrow> ticket_by_id tn' i' h = None" for tn' i'
    unfolding ticket_by_id_def assms(5) by (rule find_update_None) (simp add: ticket_named_def)
  then have same: "ticket_found h' = ticket_found h" by (rule ticket_found_cong)
  have "ticket_found h f" using assms(3,8,9) by (simp add: ticket_found_def)
  moreover have "length (filter (carries (tk_tenant r) (tk_id r)) (h_fittings h'))
      = (if tk_status r = Q_in_service then 1 else 0)" if r: "r \<in> set (h_tickets h')" "\<not> tk_deleted r" for r
  proof -
    from r(1) obtain r0 where r0: "r0 \<in> set (h_tickets h)"
      "r = (if ticket_named tn i r0 then r0\<lparr>tk_status := Q_in_service\<rparr> else r0)"
      by (auto simp: assms(5) set_update_where)
    show ?thesis
    proof (cases "ticket_named tn i r0")
      case True
      with r0 zero show ?thesis by (simp add: assms(6) c ticket_named_def)
    next
      case False
      then have "r = r0" using r0(2) by simp
      with False r(2) have "\<not> (tk_tenant r = tn \<and> tk_id r = i)" by (auto simp: ticket_named_def)
      with \<open>r = r0\<close> r0(1) r(2) assms(1) show ?thesis by (auto simp: assms(6) c floor_ok_def)
    qed
  qed
  ultimately show ?thesis
    using assms(1) by (auto simp: floor_ok_def same assms(6))
qed

text \<open>Ending the fitting that carries a ticket, and the ticket with it.\<close>

lemma length_filter_one: "length (filter P xs) = 1 \<Longrightarrow> x \<in> set xs \<Longrightarrow> y \<in> set xs \<Longrightarrow> P x \<Longrightarrow> P y \<Longrightarrow> x = y"
  by (induction xs) (auto simp: filter_empty_conv split: if_splits)

lemma filter_update_gone:
  "(\<And>r. \<not> P (g r)) \<Longrightarrow> filter P (update_where Q g rows) = filter (\<lambda>r. P r \<and> \<not> Q r) rows"
  by (induction rows) auto

lemma floor_ok_release:
  assumes "floor_ok h" "fittings_ok (h_fittings h)" "fitting_by_id tn i h = Some f" "running f"
    and "h_fittings h' = update_where (fitting_named tn i) (\<lambda>r. r\<lparr>f_released_at := Some at\<rparr>) (h_fittings h)"
    and "h_tickets h' = (case f_ticket f of None \<Rightarrow> h_tickets h
       | Some k \<Rightarrow> update_where (ticket_named tn k) (\<lambda>r. r\<lparr>tk_status := Q_done\<rparr>) (h_tickets h))"
  shows "floor_ok h'"
proof -
  have f: "f \<in> set (h_fittings h)" "f_tenant f = tn" "f_id f = i" "\<not> f_deleted f"
    using ft.row_SomeD assms(3) by (auto simp: fitting_by_id_row)
  have named: "fitting_named tn i r \<longleftrightarrow> r = f" if "r \<in> set (h_fittings h)" for r
    using ft.same_row [OF assms(2) that f(1)] f by (auto simp: fitting_named_def)
  have off: "carries tn' i' (r\<lparr>f_released_at := Some at\<rparr>) = False" for tn' i' r
    by (simp add: carries_def running_def)
  have filters: "filter (carries tn' i') (h_fittings h')
      = filter (\<lambda>r. carries tn' i' r \<and> \<not> fitting_named tn i r) (h_fittings h)" for tn' i'
    unfolding assms(5) by (rule filter_update_gone) (simp add: off)
  have same: "ticket_found h' = ticket_found h"
  proof (rule ticket_found_cong)
    show "ticket_by_id tn' i' h' = None \<longleftrightarrow> ticket_by_id tn' i' h = None" for tn' i'
      unfolding ticket_by_id_def assms(6)
      by (cases "f_ticket f") (simp_all add: find_update_None ticket_named_def)
  qed
  have "length (filter (carries (tk_tenant r) (tk_id r)) (h_fittings h')) = (if tk_status r = Q_in_service then 1 else 0)"
    if r: "r \<in> set (h_tickets h')" "\<not> tk_deleted r" for r
  proof (cases "f_ticket f = Some (tk_id r) \<and> tk_tenant r = tn")
    case True
    with r obtain r0 where r0: "r0 \<in> set (h_tickets h)" "ticket_named tn (tk_id r) r0" "r = r0\<lparr>tk_status := Q_done\<rparr>"
      by (auto simp: assms(6) set_update_where ticket_named_def split: if_splits)
    have c: "carries (tk_tenant r) (tk_id r) f" using True f assms(4) by (simp add: carries_def)
    then have "filter (carries (tk_tenant r) (tk_id r)) (h_fittings h) \<noteq> []" using f(1) by (auto simp: filter_empty_conv)
    then have one: "length (filter (carries (tk_tenant r) (tk_id r)) (h_fittings h)) = 1"
      using assms(1) r0 by (auto simp: floor_ok_def ticket_named_def split: if_splits)
    have "\<not> (carries (tk_tenant r) (tk_id r) g \<and> \<not> fitting_named tn i g)" if "g \<in> set (h_fittings h)" for g
      using length_filter_one [OF one that f(1)] c named [OF that] by blast
    then have "filter (carries (tk_tenant r) (tk_id r)) (h_fittings h') = []"
      unfolding filters by (simp add: filter_empty_conv)
    then show ?thesis using r0(3) by simp
  next
    case False
    then have not_f: "\<not> carries (tk_tenant r) (tk_id r) f" using f by (auto simp: carries_def)
    have "filter (carries (tk_tenant r) (tk_id r)) (h_fittings h') = filter (carries (tk_tenant r) (tk_id r)) (h_fittings h)"
      unfolding filters by (rule filter_cong) (use named not_f in auto)
    moreover from r False have "r \<in> set (h_tickets h)"
      by (auto simp: assms(6) set_update_where ticket_named_def split: option.splits if_splits)
    ultimately show ?thesis using assms(1) r(2) by (auto simp: floor_ok_def)
  qed
  moreover have "ticket_found h g" if "g \<in> set (h_fittings h')" "running g" for g
  proof -
    from that have "g \<in> set (h_fittings h)" by (auto simp: assms(5) set_update_where running_def split: if_splits)
    with that(2) assms(1) show ?thesis by (auto simp: floor_ok_def)
  qed
  ultimately show ?thesis by (auto simp: floor_ok_def same)
qed

section \<open>The end of a visit\<close>

lemma close_ticket_carried:
  assumes "floor_ok h" "tickets_ok (h_tickets h)" "f \<in> set (h_fittings h)" "carries tn k f"
    and "h_tickets h1 = h_tickets h"
  shows "\<exists>t. close_ticket tn k h1 = Inr (write_ticket tn k (\<lambda>r. r\<lparr>tk_status := Q_done\<rparr>) h1, Some (t\<lparr>tk_status := Q_done\<rparr>))
    \<and> ticket_by_id tn k h1 = Some t"
proof -
  have "ticket_by_id tn k h1 = ticket_by_id tn k h" by (simp add: ticket_by_id_def assms(5))
  moreover from assms(1,3,4) have "ticket_by_id tn k h \<noteq> None"
    by (auto simp: floor_ok_def ticket_found_def carries_def)
  ultimately obtain t where t: "ticket_by_id tn k h1 = Some t" "ticket_by_id tn k h = Some t" by auto
  then have mem: "t \<in> set (h_tickets h)" "tk_tenant t = tn" "tk_id t = k" "\<not> tk_deleted t"
    using qt.row_SomeD by (auto simp: ticket_by_id_row)
  have "filter (carries tn k) (h_fittings h) \<noteq> []" using assms(3,4) by (auto simp: filter_empty_conv)
  then have "tk_status t = Q_in_service" using assms(1) mem by (auto simp: floor_ok_def split: if_splits)
  then show ?thesis using t(1) assms(2,5) by (simp add: close_ticket_def change_ticket_run)
qed

lemma release_room_run:
  assumes "fittings_ok (h_fittings h)" "tickets_ok (h_tickets h)" "floor_ok h" "fitting_by_id tn i h = Some f"
    and "release_room tn i actor at h = Inr (h', v)"
  shows "(f_staff f = sc_id actor \<or> elevated actor) \<and> room_read tn (f_room f) h' = Inr v \<and>
    h' = (if \<not> running f then h
      else log tn (Floor_action Room_released) (Some i) (case f_ticket f of
          None \<Rightarrow> write_fitting tn i (\<lambda>r. r\<lparr>f_released_at := Some at\<rparr>) h
        | Some k \<Rightarrow> write_ticket tn k (\<lambda>r. r\<lparr>tk_status := Q_done\<rparr>)
            (write_fitting tn i (\<lambda>r. r\<lparr>f_released_at := Some at\<rparr>) h)))"
proof -
  have auth: "f_staff f = sc_id actor \<or> elevated actor"
    using assms(4,5) by (auto simp: release_room_def andthen_eq_Inr)
  show ?thesis
  proof (cases "running f")
    case False
    with assms(4,5) auth show ?thesis
      by (auto simp: release_room_def release_row_run [OF assms(1)] read_room_def andthen_eq_Inr)
  next
    case True
    let ?h1 = "write_fitting tn i (\<lambda>r. r\<lparr>f_released_at := Some at\<rparr>) h"
    have f: "f \<in> set (h_fittings h)" "f_tenant f = tn" using ft.row_SomeD assms(4) by (auto simp: fitting_by_id_row)
    show ?thesis
    proof (cases "f_ticket f")
      case None
      with True assms(4,5) auth show ?thesis
        by (auto simp: release_room_def release_row_run [OF assms(1)] read_room_def andthen_eq_Inr)
    next
      case (Some k)
      with True f have "carries tn k f" by (simp add: carries_def)
      from close_ticket_carried [OF assms(3,2) f(1) this, of ?h1] obtain t where
        "close_ticket tn k ?h1 = Inr (write_ticket tn k (\<lambda>r. r\<lparr>tk_status := Q_done\<rparr>) ?h1, Some (t\<lparr>tk_status := Q_done\<rparr>))"
        by auto
      with True Some assms(4,5) auth show ?thesis
        by (auto simp: release_room_def release_row_run [OF assms(1)] read_room_def andthen_eq_Inr)
    qed
  qed
qed

text \<open>C39. A release ends the visit once: it is the holder's or a manager's; afterwards the fitting runs no
  longer, its room is free and the ticket it carried is done; and releasing it again answers the same
  room and changes nothing, so a second tap closes nobody else's visit.\<close>

theorem release_closes_the_visit:
  assumes "fittings_ok (h_fittings h)" "tickets_ok (h_tickets h)" "floor_ok h" "fitting_by_id tn i h = Some f" "running f"
    and "release_room tn i actor at h = Inr (h', v)"
  shows "(f_staff f = sc_id actor \<or> elevated actor) \<and> active_fitting_by_id tn i h' = None
    \<and> occupant_of_room tn (f_room f) h' = None
    \<and> (\<forall>k. f_ticket f = Some k \<longrightarrow> (\<exists>t. ticket_by_id tn k h' = Some t \<and> tk_status t = Q_done))
    \<and> release_room tn i actor later h' = Inr (h', v)"
proof -
  let ?off = "\<lambda>r. r\<lparr>f_released_at := Some at\<rparr>"
  note run = release_room_run [OF assms(1-4,6)]
  then have auth: "f_staff f = sc_id actor \<or> elevated actor" and v: "room_read tn (f_room f) h' = Inr v" by blast+
  have h': "h' = log tn (Floor_action Room_released) (Some i) (case f_ticket f of
          None \<Rightarrow> write_fitting tn i ?off h
        | Some k \<Rightarrow> write_ticket tn k (\<lambda>r. r\<lparr>tk_status := Q_done\<rparr>) (write_fitting tn i ?off h))"
    using run assms(5) by simp
  have fit: "h_fittings h' = update_where (fitting_named tn i) ?off (h_fittings h)"
    and tick: "h_tickets h' = (case f_ticket f of None \<Rightarrow> h_tickets h
            | Some k \<Rightarrow> update_where (ticket_named tn k) (\<lambda>r. r\<lparr>tk_status := Q_done\<rparr>) (h_tickets h))"
    unfolding h' by (simp_all split: option.split)
  have ok': "fittings_ok (h_fittings h')" unfolding fit by (rule fittings_ok_release [OF assms(1)])
  have f: "f \<in> set (h_fittings h)" "f_tenant f = tn" "f_id f = i" "\<not> f_deleted f"
    using ft.row_SomeD assms(4) by (auto simp: fitting_by_id_row)
  have read': "fitting_by_id tn i h' = Some (?off f)"
    using assms(4) unfolding fitting_by_id_def fit by (subst find_update_where_stable) (auto simp: fitting_named_def dest: find_SomeD)
  have off: "\<not> running (?off r)" for r by (simp add: running_def)
  have gone: "active_fitting_by_id tn i h' = None"
  proof -
    have "\<not> (f_tenant (if fitting_named tn i r then ?off r else r) = tn
        \<and> f_id (if fitting_named tn i r then ?off r else r) = i
        \<and> running (if fitting_named tn i r then ?off r else r))" for r
      using off by (cases "fitting_named tn i r") (simp_all add: fitting_named_def running_def)
    then show ?thesis unfolding active_fitting_by_id_def fit find_None_Ball set_update_where ball_simps by simp
  qed
  have free: "occupant_of_room tn (f_room f) h' = None"
    unfolding occupant_of_room_def fit find_None_Ball
  proof
    fix r assume "r \<in> set (update_where (fitting_named tn i) ?off (h_fittings h))"
    then obtain r0 where r0: "r0 \<in> set (h_fittings h)" "r = (if fitting_named tn i r0 then ?off r0 else r0)"
      by (auto simp: set_update_where)
    show "\<not> runs_in tn (f_room f) r"
    proof (cases "fitting_named tn i r0")
      case True
      with r0 off show ?thesis by (simp add: runs_in_key)
    next
      case False
      have "r0 \<noteq> f" using False f by (auto simp: fitting_named_def)
      moreover have "r0 = f" if "runs_in tn (f_room f) r0"
        using that f r0(1) assms(1,5) unique_onD [of running room_key "h_fittings h" r0 f]
        by (auto simp: fittings_ok_def runs_in_key room_key_def)
      ultimately show ?thesis using False r0(2) by auto
    qed
  qed
  have closed: "\<exists>t. ticket_by_id tn k h' = Some t \<and> tk_status t = Q_done" if k: "f_ticket f = Some k" for k
  proof -
    have "ticket_found h f" using assms(3,5) f(1) by (auto simp: floor_ok_def)
    then obtain t where "ticket_by_id tn k h = Some t" using k f(2) by (auto simp: ticket_found_def)
    then show ?thesis
      unfolding ticket_by_id_def tick by (auto simp: k find_update_where_stable ticket_named_def dest: find_SomeD)
  qed
  have "release_room tn i actor later h' = Inr (h', v)"
    using auth v off by (auto simp: release_room_def read' release_row_run [OF ok'] read_room_def)
  with auth gone free closed show ?thesis by blast
qed

definition visit :: house where
  "visit = salon\<lparr>h_tickets := [(walk_in 22 10)\<lparr>tk_status := Q_in_service\<rparr>],
     h_fittings := [new_fitting 7 61 2 None (Some 22) 0 63]\<rparr>"

theorem release_closes_the_visit_witness:
  "\<exists>h' v. release_room 7 63 seamstress_ctx 50 visit = Inr (h', v) \<and> occupant_of_room 7 61 h' = None
     \<and> (\<exists>t. ticket_by_id 7 22 h' = Some t \<and> tk_status t = Q_done)
     \<and> release_room 7 63 seamstress_ctx 90 h' = Inr (h', v)"
proof -
  let ?run = "release_room 7 63 seamstress_ctx 50 visit" and ?f = "new_fitting 7 61 2 None (Some 22) 0 63"
  have r: "?run = Inr (fst (projr ?run), snd (projr ?run))" by code_simp
  have ok: "fittings_ok (h_fittings visit)" "tickets_ok (h_tickets visit)" "floor_ok visit"
    "fitting_by_id 7 63 visit = Some ?f" "running ?f" by code_simp+
  have sel: "f_room ?f = 61" "f_ticket ?f = Some 22" by (simp_all add: new_fitting_def)
  from release_closes_the_visit [OF ok r, of 90] r show ?thesis unfolding sel by blast
qed

end
