(* ===== verification/Sos.thy ===== *)
theory Sos
  imports Floor
begin

text \<open>
  Calling for help: the SOS handlers of \<open>app/floor/service.py\<close>. A member pages a colleague or, with no
  target, the managers; a target who is not on the staff or not signed in is replaced by the managers
  there and then. An alert is open, then accepted, then resolved, or it is cancelled while open; the
  conditional UPDATE of each step decides who was first.
\<close>

definition MAX_SOS_NOTE_LENGTH :: nat where "MAX_SOS_NOTE_LENGTH = 120"
definition ESCALATION_AFTER :: int where "ESCALATION_AFTER = seconds 30"
definition STALLED_AFTER :: int where "STALLED_AFTER = minutes 2"

definition normalize_sos_note :: "utext option \<Rightarrow> error + utext option" where
  "normalize_sos_note text =
     (case text of
        None \<Rightarrow> Inr None
      | Some t \<Rightarrow>
          if ustrip t = [] then Inr None
          else andthen (ensure (Domain_validation ''note must be at most 120 characters'')
                          (\<not> length (ustrip t) > MAX_SOS_NOTE_LENGTH)) (\<lambda>_. Inr (Some (ustrip t))))"

section \<open>What an alert asks of whom\<close>

definition escalated :: "alert \<Rightarrow> instant \<Rightarrow> bool" where
  "escalated r now \<longleftrightarrow>
     (if sa_status r \<noteq> Sos_open \<or> sa_acknowledged_at r \<noteq> None then False
      else now - sa_created_at r \<ge> ESCALATION_AFTER)"

definition stalled :: "alert \<Rightarrow> instant \<Rightarrow> bool" where
  "stalled r now \<longleftrightarrow>
     (case sa_acknowledged_at r of
        None \<Rightarrow> False
      | Some at \<Rightarrow> if sa_status r \<noteq> Sos_accepted then False else now - at \<ge> STALLED_AFTER)"

definition for_me :: "alert \<Rightarrow> staff_context \<Rightarrow> bool \<Rightarrow> bool \<Rightarrow> bool" where
  "for_me r actor esc sta \<longleftrightarrow>
     (if sa_raised_by r = sc_id actor then False
      else if sa_status r = Sos_accepted then sta \<and> elevated actor
      else if sa_status r \<noteq> Sos_open then False
      else if sa_target r = Some (sc_id actor) then True
      else if elevated actor then sa_target r = None \<or> esc
      else False)"

record sos_view =
  sx_row :: alert_row
  sx_escalated :: bool
  sx_stalled :: bool
  sx_for_me :: bool

definition sos_read :: "alert_row \<Rightarrow> staff_context \<Rightarrow> instant \<Rightarrow> sos_view" where
  "sos_read row actor now =
     (let esc = escalated (ar_alert row) now; sta = stalled (ar_alert row) now in
      \<lparr>sx_row = row, sx_escalated = esc, sx_stalled = sta, sx_for_me = for_me (ar_alert row) actor esc sta\<rparr>)"

definition visible_to :: "alert \<Rightarrow> staff_context \<Rightarrow> bool" where
  "visible_to r actor \<longleftrightarrow>
     elevated actor \<or> sa_raised_by r = sc_id actor \<or> sa_target r = Some (sc_id actor)
     \<or> sa_accepted_by r = Some (sc_id actor)"

definition sos_list :: "uuid \<Rightarrow> staff_context \<Rightarrow> instant \<Rightarrow> house \<Rightarrow> sos_view list \<times> nat" where
  "sos_list tn actor now h =
     (map (\<lambda>row. sos_read row actor now)
        (live_alerts_for tn (if elevated actor then None else Some (sc_id actor)) h),
      unread_count tn (sc_id actor) h)"

section \<open>The handlers\<close>

definition sos_view_of :: "uuid \<Rightarrow> uuid \<Rightarrow> staff_context \<Rightarrow> instant \<Rightarrow> house \<Rightarrow> error + house \<times> sos_view" where
  "sos_view_of tn i actor at h =
     andthen (need (Runtime_error ''sos alert cannot be read back'') (alert_view_of tn i h)) (\<lambda>row.
     Inr (h, sos_read row actor at))"

definition reachable_target :: "uuid \<Rightarrow> uuid option \<Rightarrow> instant \<Rightarrow> house \<Rightarrow> uuid option" where
  "reachable_target tn requested at h =
     (case requested of
        None \<Rightarrow> None
      | Some t \<Rightarrow> if staff_by_id tn t h \<noteq> None \<and> has_live_session tn t at h then Some t else None)"

text \<open>The answer says beside the alert whether it was rerouted to the managers.\<close>

definition raise_sos ::
  "uuid \<Rightarrow> uuid option \<Rightarrow> uuid option \<Rightarrow> utext option \<Rightarrow> staff_context \<Rightarrow> instant \<Rightarrow> house
   \<Rightarrow> error + house \<times> sos_view \<times> bool" where
  "raise_sos tn requested fitting raw_text actor at h =
     andthen (normalize_sos_note raw_text) (\<lambda>text.
     andthen (ensure (Domain_validation ''cannot page yourself'') (requested \<noteq> Some (sc_id actor))) (\<lambda>_.
     let own_fitting = (case fitting of None \<Rightarrow> None
           | Some i \<Rightarrow> map_option f_id (fitting_of_staff tn i (sc_id actor) h));
         target = reachable_target tn requested at h in
     andthen (insert_alert tn (sc_id actor) target own_fitting text h) (\<lambda>(h1, r).
     let h2 = log tn (Floor_action Sos_was_raised) (Some (sa_id r)) h1 in
     andthen (case target of None \<Rightarrow> Inr (h2, ())
              | Some t \<Rightarrow> notify_when True tn t (sc_id actor) Sos_targeted (sa_id r) h2) (\<lambda>(h3, _).
     andthen (sos_view_of tn (sa_id r) actor at h3) (\<lambda>(_, v).
     Inr (h3, v, requested \<noteq> None \<and> target = None))))))"

definition name_of :: "uuid \<Rightarrow> uuid option \<Rightarrow> house \<Rightarrow> utext option" where
  "name_of tn staff h = Option.bind staff (\<lambda>i. map_option su_name (staff_by_id tn i h))"

definition refuse_accept :: "uuid \<Rightarrow> alert \<Rightarrow> house \<Rightarrow> error" where
  "refuse_accept tn r h =
     (if sa_status r \<in> {Sos_resolved, Sos_cancelled} then Floor_error Sos_closed
      else if sa_status r = Sos_accepted then Floor_error (Sos_already_accepted (name_of tn (sa_accepted_by r) h))
      else Runtime_error ''sos accept matched no row'')"

definition found_alert :: "uuid \<Rightarrow> uuid \<Rightarrow> (alert \<Rightarrow> bool) \<Rightarrow> house \<Rightarrow> error + alert" where
  "found_alert tn i allowed h =
     andthen (need (Domain_not_found ''sos_alert'') (alert_by_id tn i h)) (\<lambda>r.
     andthen (ensure (Domain_not_found ''sos_alert'') (allowed r)) (\<lambda>_. Inr r))"

definition accept_sos ::
  "uuid \<Rightarrow> uuid \<Rightarrow> staff_context \<Rightarrow> instant \<Rightarrow> house \<Rightarrow> error + house \<times> sos_view" where
  "accept_sos tn i actor at h =
     andthen (found_alert tn i (\<lambda>r. visible_to r actor
       \<and> \<not> (sa_raised_by r = sc_id actor \<or> \<not> (sa_target r = Some (sc_id actor) \<or> elevated actor))) h) (\<lambda>r.
     if sa_status r = Sos_accepted \<and> sa_accepted_by r = Some (sc_id actor) then sos_view_of tn i actor at h
     else andthen (accept_alert tn i (sc_id actor) at h) (\<lambda>(h1, wrote, after).
          if wrote then
            let h2 = log tn (Floor_action Sos_was_accepted) (Some i) h1 in
            andthen (need (Runtime_error ''sos accept wrote a row it cannot read back'') after) (\<lambda>_.
            sos_view_of tn i actor at h2)
          else andthen (need (Domain_not_found ''sos_alert'') after) (\<lambda>now_row. Inl (refuse_accept tn now_row h1))))"

definition resolve_sos ::
  "uuid \<Rightarrow> uuid \<Rightarrow> staff_context \<Rightarrow> instant \<Rightarrow> house \<Rightarrow> error + house \<times> sos_view" where
  "resolve_sos tn i actor at h =
     andthen (found_alert tn i (\<lambda>r. visible_to r actor
       \<and> (sa_raised_by r = sc_id actor \<or> sa_accepted_by r = Some (sc_id actor) \<or> elevated actor)) h) (\<lambda>_.
     andthen (resolve_alert tn i h) (\<lambda>(h1, wrote, after).
     if wrote then sos_view_of tn i actor at (log tn (Floor_action Sos_was_resolved) (Some i) h1)
     else andthen (need (Domain_not_found ''sos_alert'') after) (\<lambda>r.
          if sa_status r \<in> {Sos_resolved, Sos_cancelled} then sos_view_of tn i actor at h1
          else Inl (Runtime_error ''sos resolve matched no row''))))"

definition cancel_sos ::
  "uuid \<Rightarrow> uuid \<Rightarrow> staff_context \<Rightarrow> instant \<Rightarrow> house \<Rightarrow> error + house \<times> sos_view" where
  "cancel_sos tn i actor at h =
     andthen (found_alert tn i (\<lambda>r. visible_to r actor \<and> (sa_raised_by r = sc_id actor \<or> elevated actor)) h) (\<lambda>_.
     andthen (cancel_alert tn i h) (\<lambda>(h1, wrote, after).
     if wrote then sos_view_of tn i actor at (log tn (Floor_action Sos_was_cancelled) (Some i) h1)
     else andthen (need (Domain_not_found ''sos_alert'') after) (\<lambda>r.
          if sa_status r = Sos_accepted
          then Inl (Floor_error (Sos_already_accepted (name_of tn (sa_accepted_by r) h1)))
          else if sa_status r \<in> {Sos_resolved, Sos_cancelled} then sos_view_of tn i actor at h1
          else Inl (Runtime_error ''sos cancel matched no row''))))"

section \<open>The conditional update\<close>

definition write_alert :: "uuid \<Rightarrow> uuid \<Rightarrow> (alert \<Rightarrow> alert) \<Rightarrow> house \<Rightarrow> house" where
  "write_alert tn i f h = h\<lparr>h_alerts := update_where (alert_named tn i) f (h_alerts h)\<rparr>"

lemma write_alert_put: "write_alert = sa.put"
  by (simp add: fun_eq_iff write_alert_def sa.put_def alert_named_named)

lemma write_alert_sel [simp]:
  "h_alerts (write_alert tn i f h) = update_where (alert_named tn i) f (h_alerts h)"
  "h_staff (write_alert tn i f h) = h_staff h" "h_db (write_alert tn i f h) = h_db h"
  by (simp_all add: write_alert_def)

lemma alert_keeps [simp]:
  "sa.keeps_name (\<lambda>r. r\<lparr>sa_status := st, sa_accepted_by := by, sa_acknowledged_at := at\<rparr>)"
  "sa.keeps_name (\<lambda>r. r\<lparr>sa_status := st\<rparr>)"
  by (simp_all add: sa.keeps_name_def)

lemma alerts_ok_write: "alerts_ok rows \<Longrightarrow> sa.keeps_name f \<Longrightarrow> alerts_ok (update_where P f rows)"
  by (simp add: alerts_ok_def sa.keeps_name_def map_update_where)

lemma alert_by_id_write:
  "sa.keeps_name f \<Longrightarrow> alert_by_id tn' i' (write_alert tn i f h) =
     (if tn' = tn \<and> i' = i then map_option f (alert_by_id tn i h) else alert_by_id tn' i' h)"
  unfolding alert_by_id_row write_alert_put by (rule sa.row_put)

lemma change_alert_run:
  assumes "alerts_ok (h_alerts h)" "sa.keeps_name f"
  shows "change_alert tn i allowed f h =
    (case alert_by_id tn i h of
       None \<Rightarrow> Inr (h, False, None)
     | Some r \<Rightarrow>
         if sa_status r \<in> set allowed then Inr (write_alert tn i f h, True, Some (f r))
         else Inr (h, False, Some r))"
proof -
  have ok: "alerts_ok (h_alerts (sa.put tn i f h))"
    using alerts_ok_write [OF assms] unfolding sa.get_put by blast
  have again: "sa.row tn i (sa.put tn i f h) = map_option f (sa.row tn i h)"
    using alert_by_id_write [OF assms(2), of tn i tn i h] by (simp add: alert_by_id_row write_alert_put)
  show ?thesis
    unfolding change_alert_def alert_named_named sa.change_run [OF assms(1)] alert_by_id_row write_alert_put
    using ok again by (auto split: option.splits)
qed


section \<open>Nobody calls in vain\<close>

lemma for_me_manager:
  assumes "elevated actor" "sa_raised_by r \<noteq> sc_id actor" "sa_status r = Sos_open" "sa_acknowledged_at r = None"
    and "sa_target r = None \<or> now - sa_created_at r \<ge> ESCALATION_AFTER"
  shows "for_me r actor (escalated r now) (stalled r now)"
  using assms by (auto simp: for_me_def escalated_def)

text \<open>C40. Nobody calls in vain: an accepted call leaves an open alert that at once rings for a live, signed-in
  colleague, who has a notice of it, or for every manager but the caller; from half a minute
  later, as long as nobody has accepted it, it rings for every such manager whoever was asked.\<close>

theorem call_reaches_somebody:
  assumes "raise_sos tn requested fitting raw_text actor at h = Inr (h', v, rerouted)"
  shows "\<exists>r. r \<in> set (h_alerts h') \<and> ar_alert (sx_row v) = r \<and> sa_status r = Sos_open \<and> sa_raised_by r = sc_id actor
    \<and> (rerouted \<longleftrightarrow> requested \<noteq> None \<and> sa_target r = None)
    \<and> (\<forall>other now. elevated other \<longrightarrow> sc_id other \<noteq> sc_id actor \<longrightarrow>
         (sa_target r = None \<or> now \<ge> h_now h + ESCALATION_AFTER) \<longrightarrow> for_me r other (escalated r now) (stalled r now))
    \<and> (\<forall>t. sa_target r = Some t \<longrightarrow> requested = Some t \<and> staff_by_id tn t h \<noteq> None \<and> has_live_session tn t at h
         \<and> (\<forall>other now. sc_id other = t \<longrightarrow> for_me r other (escalated r now) (stalled r now))
         \<and> (\<exists>n\<in>set (h_notices h'). notice_of tn t n \<and> sn_read_at n = None \<and> sn_kind n = Sos_targeted \<and> sn_entity n = sa_id r))"
proof -
  let ?target = "reachable_target tn requested at h"
  have rer: "rerouted \<longleftrightarrow> requested \<noteq> None \<and> ?target = None" and self: "requested \<noteq> Some (sc_id actor)"
    using assms by (auto simp: raise_sos_def andthen_eq_Inr Let_def)
  from assms obtain words h1 r hv where ins: "insert_alert tn (sc_id actor) ?target
        (case fitting of None \<Rightarrow> None | Some i \<Rightarrow> map_option f_id (fitting_of_staff tn i (sc_id actor) h)) words h = Inr (h1, r)"
    and told: "(case ?target of None \<Rightarrow> Inr (log tn (Floor_action Sos_was_raised) (Some (sa_id r)) h1, ())
               | Some t \<Rightarrow> notify_when True tn t (sc_id actor) Sos_targeted (sa_id r)
                   (log tn (Floor_action Sos_was_raised) (Some (sa_id r)) h1)) = Inr (h', ())"
    and read: "sos_view_of tn (sa_id r) actor at h' = Inr (hv, v)"
    by (clarsimp simp: raise_sos_def andthen_eq_Inr Let_def)
  from ins have r: "sa_tenant r = tn" "sa_raised_by r = sc_id actor" "sa_target r = ?target" "sa_status r = Sos_open"
      "sa_acknowledged_at r = None" "sa_created_at r = h_now h" "\<not> sa_deleted r"
    and al: "h_alerts h1 = h_alerts h @ [r]" "alerts_ok (h_alerts h1)"
    by (auto simp: insert_alert_def add_row_Inr)
  have kept: "h_alerts h' = h_alerts h1"
    using told by (cases ?target) (auto simp: andthen_eq_Inr notify_when_def insert_notice_def add_row_Inr)
  have view: "alert_view_of tn (sa_id r) h' = Some (sx_row v)"
    using read by (auto simp: andthen_eq_Inr sos_view_of_def sos_read_def Let_def)
  have notice: "\<exists>n\<in>set (h_notices h'). notice_of tn t n \<and> sn_read_at n = None \<and> sn_kind n = Sos_targeted \<and> sn_entity n = sa_id r"
    if "?target = Some t" for t
    using told that by (auto simp: andthen_eq_Inr notify_when_def insert_notice_def add_row_Inr notice_of_def)
  have "alert_by_id tn (sa_id r) h' = Some r"
    using sa.fetch_mem [OF al(2), of r] al(1) r(1,7) by (simp add: alert_by_id_row sa.row_def kept)
  with view have "sx_row v = alert_row_of tn h' r" by (simp add: alert_view_of_def)
  then have shown: "ar_alert (sx_row v) = r" by (simp add: alert_row_of_def)
  have target: "requested = Some t \<and> staff_by_id tn t h \<noteq> None \<and> has_live_session tn t at h" if "?target = Some t" for t
    using that by (auto simp: reachable_target_def split: option.splits if_splits)
  have asked: "for_me r other (escalated r now) (stalled r now)" if "?target = Some (sc_id other)" for other now
  proof -
    have "sc_id other \<noteq> sc_id actor" using target [OF that] self by auto
    moreover have "sa_target r = Some (sc_id other)" using r(3) that by simp
    ultimately show ?thesis using r(2,4) by (simp add: for_me_def)
  qed
  have managers: "for_me r other (escalated r now) (stalled r now)"
    if "elevated other" "sc_id other \<noteq> sc_id actor" "sa_target r = None \<or> now \<ge> h_now h + ESCALATION_AFTER" for other now
    using that r by (intro for_me_manager) auto
  show ?thesis
  proof (rule exI [of _ r], intro conjI)
    show "\<forall>t. sa_target r = Some t \<longrightarrow> requested = Some t \<and> staff_by_id tn t h \<noteq> None \<and> has_live_session tn t at h
         \<and> (\<forall>other now. sc_id other = t \<longrightarrow> for_me r other (escalated r now) (stalled r now))
         \<and> (\<exists>n\<in>set (h_notices h'). notice_of tn t n \<and> sn_read_at n = None \<and> sn_kind n = Sos_targeted \<and> sn_entity n = sa_id r)"
      using target asked notice unfolding r(3) by blast
    show "\<forall>other now. elevated other \<longrightarrow> sc_id other \<noteq> sc_id actor \<longrightarrow>
         (sa_target r = None \<or> now \<ge> h_now h + ESCALATION_AFTER) \<longrightarrow> for_me r other (escalated r now) (stalled r now)"
      using managers by blast
  qed (simp_all add: al(1) kept shown r rer)
qed

theorem call_reaches_somebody_witness:
  "\<exists>h' v r. raise_sos 7 (Some 2) None None boss 60 front_desk = Inr (h', v, False)
     \<and> r \<in> set (h_alerts h') \<and> sa_target r = Some 2 \<and> for_me r seamstress_ctx (escalated r 60) (stalled r 60)"
proof -
  let ?run = "raise_sos 7 (Some 2) None None boss 60 front_desk"
  have "\<not> isl ?run" "\<not> snd (snd (projr ?run))" by code_simp+
  then have r: "?run = Inr (fst (projr ?run), fst (snd (projr ?run)), False)" by (cases ?run) auto
  have id: "sc_id seamstress_ctx = 2" by code_simp
  obtain h' v where run: "?run = Inr (h', v, False)" using r by blast
  from call_reaches_somebody [OF run] obtain x where x: "x \<in> set (h_alerts h')" "sa_target x \<noteq> None"
    "\<forall>t. sa_target x = Some t \<longrightarrow> Some (2::uuid) = Some t
       \<and> (\<forall>other now. sc_id other = t \<longrightarrow> for_me x other (escalated x now) (stalled x now))"
    by blast
  then have "sa_target x = Some 2" by (cases "sa_target x") auto
  with x(1,3) run id show ?thesis by blast
qed

section \<open>One answer\<close>

text \<open>C. One answer per call: when a colleague's accept is written, the alert is hers; she may repeat it
  and nothing changes, and every other accept that is allowed to see the alert is refused, naming
  her while she is on the staff; nobody can cancel it any more.\<close>

theorem call_is_answered_once:
  assumes "alerts_ok (h_alerts h)" "alert_by_id tn i h = Some r" "sa_status r = Sos_open"
    and "accept_sos tn i actor at h = Inr (h', v)"
  shows "(\<exists>w. accept_sos tn i actor later h' = Inr (h', w))
    \<and> (\<forall>other. sc_id other \<noteq> sc_id actor \<longrightarrow> elevated other \<longrightarrow> sc_id other \<noteq> sa_raised_by r \<longrightarrow>
         accept_sos tn i other later h' = Inl (Floor_error (Sos_already_accepted (name_of tn (Some (sc_id actor)) h))))
    \<and> (\<forall>other. elevated other \<or> sc_id other = sa_raised_by r \<longrightarrow>
         cancel_sos tn i other later h' = Inl (Floor_error (Sos_already_accepted (name_of tn (Some (sc_id actor)) h))))"
proof -
  let ?f = "\<lambda>r. r\<lparr>sa_status := Sos_accepted, sa_accepted_by := Some (sc_id actor), sa_acknowledged_at := Some at\<rparr>"
  from assms have h': "h' = log tn (Floor_action Sos_was_accepted) (Some i) (write_alert tn i ?f h)"
    and may: "visible_to r actor" "sa_raised_by r \<noteq> sc_id actor" "sa_target r = Some (sc_id actor) \<or> elevated actor"
    by (auto simp: accept_sos_def found_alert_def accept_alert_def change_alert_run andthen_eq_Inr sos_view_of_def Let_def)
  have alerts: "h_alerts h' = h_alerts (write_alert tn i ?f h)" and staff: "h_staff h' = h_staff h" by (simp_all add: h')
  have ok': "alerts_ok (h_alerts h')"
    using alerts_ok_write [OF assms(1), of ?f "alert_named tn i"] by (simp add: alerts)
  have read': "alert_by_id tn i h' = Some (?f r)"
    using alert_by_id_write [of ?f tn i tn i h] assms(2) by (simp add: alert_by_id_def alerts)
  have view': "alert_view_of tn i h' = Some (alert_row_of tn h' (?f r))" by (simp add: alert_view_of_def read')
  have name: "name_of tn who h' = name_of tn who h" for who
    by (simp add: name_of_def staff_by_id_def staff)
  show ?thesis
    using may
    by (auto simp: accept_sos_def cancel_sos_def found_alert_def read' view' sos_view_of_def visible_to_def refuse_accept_def
        accept_alert_def cancel_alert_def close_alert_def change_alert_run [OF ok'] name)
qed

definition calling :: house where
  "calling = front_desk\<lparr>h_alerts := [\<lparr>sa_id = 71, sa_tenant = 7, sa_raised_by = 2, sa_target = None, sa_fitting = None,
     sa_note = None, sa_status = Sos_open, sa_accepted_by = None, sa_acknowledged_at = None, sa_created_at = 0,
     sa_deleted = False\<rparr>]\<rparr>"

theorem call_is_answered_once_witness:
  "\<exists>h' v. accept_sos 7 71 boss 10 calling = Inr (h', v)
     \<and> cancel_sos 7 71 seamstress_ctx 20 h' = Inl (Floor_error (Sos_already_accepted (Some [65])))"
proof -
  let ?run = "accept_sos 7 71 boss 10 calling" and ?r = "hd (h_alerts calling)"
  have "\<not> isl ?run" by code_simp
  then obtain h' v where run: "?run = Inr (h', v)" by (cases ?run) auto
  have r: "alerts_ok (h_alerts calling)" "alert_by_id 7 71 calling = Some ?r" "sa_status ?r = Sos_open" by code_simp+
  have "name_of 7 (Some (sc_id boss)) calling = Some [65]" "sc_id seamstress_ctx = sa_raised_by ?r" by code_simp+
  with call_is_answered_once [OF r run, of 20] run show ?thesis by metis
qed

end
