(* ===== verification/Catalog.thy ===== *)
theory Catalog
  imports Staff Booking_Service
begin

text \<open>
  The dress catalogue: \<open>app/catalog/service.py\<close>, \<open>validation.py\<close>, \<open>keys.py\<close> and the repositories
  \<open>dresses\<close>, \<open>dress_variants\<close>, \<open>dress_media\<close> and \<open>dress_reservations\<close>. Archiving a dress archives its sizes
  and photographs with the same timestamp, which is how restoring finds them again. The sizes are unique
  up to case by an index on the database's \<open>lower\<close>, which is the argument \<open>casefold\<close>; the code compares with
  Python's own first. ILIKE and the signing of links are arguments too.

  A handler's write and the read of its answer are two transactions: it answers the committed house beside
  the answer (\<open>with_detail\<close>), read here with nobody in between.
\<close>

definition MAX_DRESS_NAME_LENGTH :: nat where "MAX_DRESS_NAME_LENGTH = 200"
definition MAX_DRESS_DESCRIPTION_LENGTH :: nat where "MAX_DRESS_DESCRIPTION_LENGTH = 4000"
definition MAX_PRICE_AGOROT :: int where "MAX_PRICE_AGOROT = 100000000"
definition MAX_VARIANTS_PER_DRESS :: nat where "MAX_VARIANTS_PER_DRESS = 60"
definition MAX_SIZE_LABEL_LENGTH :: nat where "MAX_SIZE_LABEL_LENGTH = 32"
definition MAX_VARIANT_QUANTITY :: int where "MAX_VARIANT_QUANTITY = 1000"
definition MAX_MEDIA_PER_DRESS :: nat where "MAX_MEDIA_PER_DRESS = 12"
definition MAX_UPLOAD_BYTES :: int where "MAX_UPLOAD_BYTES = 10485760"
definition MAX_SEARCH_LENGTH :: nat where "MAX_SEARCH_LENGTH = 100"
definition MAX_SORT_ORDER :: int where "MAX_SORT_ORDER = 1000000"
definition MAX_RESERVATION_SPAN_DAYS :: int where "MAX_RESERVATION_SPAN_DAYS = 365"
definition MAX_RESERVATION_NOTES_LENGTH :: nat where "MAX_RESERVATION_NOTES_LENGTH = 500"
definition DRESS_LIST_MAX_LIMIT :: int where "DRESS_LIST_MAX_LIMIT = 100"
definition MAX_LIST_OFFSET :: int where "MAX_LIST_OFFSET = 1000000"
definition SIGNED_GET_TTL_SECONDS :: int where "SIGNED_GET_TTL_SECONDS = 900"

section \<open>Validation\<close>

record variant_input =
  vi_label :: utext
  vi_quantity :: int
  vi_order :: int

record dress_input =
  di_name :: utext
  di_description :: "utext option"
  di_price :: "int option"
  di_visible :: bool
  di_reserved :: bool
  di_order :: int

definition validate_dress :: "dress_input \<Rightarrow> error + unit" where
  "validate_dress d =
     andthen (ensure (Domain_validation ''name must not be blank'') (ustrip (di_name d) \<noteq> [])) (\<lambda>_.
     andthen (ensure (Domain_validation ''name is too long'') (length (di_name d) \<le> MAX_DRESS_NAME_LENGTH)) (\<lambda>_.
     andthen (ensure (Domain_validation ''description is too long'')
                (case di_description d of None \<Rightarrow> True | Some x \<Rightarrow> length x \<le> MAX_DRESS_DESCRIPTION_LENGTH)) (\<lambda>_.
     andthen (ensure (Domain_validation ''price_agorot is out of bounds'')
                (case di_price d of None \<Rightarrow> True | Some p \<Rightarrow> 0 < p \<and> p \<le> MAX_PRICE_AGOROT)) (\<lambda>_.
     ensure (Domain_validation ''sort_order is out of bounds'') (\<bar>di_order d\<bar> \<le> MAX_SORT_ORDER)))))"

definition validate_variant :: "variant_input \<Rightarrow> error + unit" where
  "validate_variant v =
     andthen (ensure (Domain_validation ''size_label must not be blank'') (ustrip (vi_label v) \<noteq> [])) (\<lambda>_.
     andthen (ensure (Domain_validation ''size_label is too long'') (length (vi_label v) \<le> MAX_SIZE_LABEL_LENGTH)) (\<lambda>_.
     andthen (ensure (Domain_validation ''quantity must be between 0 and 1000'')
                (0 \<le> vi_quantity v \<and> vi_quantity v \<le> MAX_VARIANT_QUANTITY)) (\<lambda>_.
     ensure (Domain_validation ''sort_order is out of bounds'') (\<bar>vi_order v\<bar> \<le> MAX_SORT_ORDER))))"

fun each_ok :: "('a \<Rightarrow> error + unit) \<Rightarrow> 'a list \<Rightarrow> error + unit" where
  "each_ok chk [] = Inr ()"
| "each_ok chk (x # xs) = andthen (chk x) (\<lambda>_. each_ok chk xs)"

definition validate_variants :: "variant_input list \<Rightarrow> error + unit" where
  "validate_variants vs =
     andthen (ensure (Domain_validation ''at most 60 sizes are allowed'') (\<not> length vs > MAX_VARIANTS_PER_DRESS)) (\<lambda>_.
     each_ok validate_variant vs)"

definition validate_presign :: "string \<Rightarrow> int \<Rightarrow> error + string" where
  "validate_presign ctype nbytes =
     andthen (need (Domain_validation ''content_type must be one of the accepted types'')
                (map_of accepted_content_types ctype)) (\<lambda>ext.
     andthen (ensure (Domain_validation ''byte_size is out of bounds'')
                (MIN_UPLOAD_BYTES \<le> nbytes \<and> nbytes \<le> MAX_UPLOAD_BYTES)) (\<lambda>_.
     Inr ext))"

definition validate_search :: "utext option \<Rightarrow> error + unit" where
  "validate_search search =
     ensure (Domain_validation ''search is too long'')
       (case search of None \<Rightarrow> True | Some x \<Rightarrow> length x \<le> MAX_SEARCH_LENGTH)"

definition validate_reservation :: "date \<Rightarrow> date \<Rightarrow> utext option \<Rightarrow> error + unit" where
  "validate_reservation starts ends notes =
     andthen (ensure (Domain_validation ''ends_on must not be before starts_on'') (\<not> ends < starts)) (\<lambda>_.
     andthen (ensure (Domain_validation ''a reservation may not span more than 365 days'')
                (\<not> ends - starts > MAX_RESERVATION_SPAN_DAYS)) (\<lambda>_.
     ensure (Domain_validation ''notes is too long'')
       (case notes of None \<Rightarrow> True | Some x \<Rightarrow> length x \<le> MAX_RESERVATION_NOTES_LENGTH)))"

fun reject_duplicate_sizes :: "(utext \<Rightarrow> utext) \<Rightarrow> utext list \<Rightarrow> variant_input list \<Rightarrow> error + unit" where
  "reject_duplicate_sizes lower seen [] = Inr ()"
| "reject_duplicate_sizes lower seen (v # vs) =
     (let key = lower (vi_label v) in
      if key \<in> set seen then Inl (Catalog_error Duplicate_size)
      else reject_duplicate_sizes lower (key # seen) vs)"

section \<open>The tables\<close>

definition dresses_ok :: "dress list \<Rightarrow> bool" where
  "dresses_ok rows \<longleftrightarrow>
     distinct (map g_id rows)
     \<and> list_all (\<lambda>r. case g_price r of None \<Rightarrow> True | Some p \<Rightarrow> 0 < p \<and> p \<le> 1000000000) rows"

definition variants_ok :: "(utext \<Rightarrow> utext) \<Rightarrow> dress_variant list \<Rightarrow> bool" where
  "variants_ok casefold rows \<longleftrightarrow>
     distinct (map gv_id rows) \<and> list_all (\<lambda>r. 0 \<le> gv_quantity r \<and> gv_quantity r \<le> 10000) rows
     \<and> unique_on (\<lambda>r. \<not> gv_deleted r) (\<lambda>r. (gv_tenant r, gv_dress r, casefold (gv_size_label r))) rows"

definition reservations_ok :: "dress_reservation list \<Rightarrow> bool" where
  "reservations_ok rows \<longleftrightarrow>
     distinct (map gr_id rows)
     \<and> list_all (\<lambda>r. gr_starts_on r \<le> gr_ends_on r \<and> gr_ends_on r - gr_starts_on r \<le> 3650) rows"

definition dresses_of :: "house \<Rightarrow> dress list" where "dresses_of h = d_dresses (h_db h)"
definition variants_of :: "house \<Rightarrow> dress_variant list" where "variants_of h = d_variants (h_db h)"
definition reservations_of :: "house \<Rightarrow> dress_reservation list" where "reservations_of h = d_reservations (h_db h)"

definition put_dresses :: "(dress list \<Rightarrow> dress list) \<Rightarrow> house \<Rightarrow> house" where
  "put_dresses f h = h\<lparr>h_db := (h_db h)\<lparr>d_dresses := f (d_dresses (h_db h))\<rparr>\<rparr>"

definition put_variants :: "(dress_variant list \<Rightarrow> dress_variant list) \<Rightarrow> house \<Rightarrow> house" where
  "put_variants f h = h\<lparr>h_db := (h_db h)\<lparr>d_variants := f (d_variants (h_db h))\<rparr>\<rparr>"

definition put_reservations :: "(dress_reservation list \<Rightarrow> dress_reservation list) \<Rightarrow> house \<Rightarrow> house" where
  "put_reservations f h = h\<lparr>h_db := (h_db h)\<lparr>d_reservations := f (d_reservations (h_db h))\<rparr>\<rparr>"

section \<open>The dresses repository\<close>

definition dress_named :: "uuid \<Rightarrow> uuid \<Rightarrow> dress \<Rightarrow> bool" where
  "dress_named tn i r \<longleftrightarrow> g_tenant r = tn \<and> g_id r = i"

definition dress_any_state :: "uuid \<Rightarrow> uuid \<Rightarrow> house \<Rightarrow> dress option" where
  "dress_any_state tn i h = find (dress_named tn i) (dresses_of h)"

definition live_dress :: "uuid \<Rightarrow> uuid \<Rightarrow> house \<Rightarrow> error + dress" where
  "live_dress tn i h = need (Catalog_error Catalog_not_found) (dress_by_id tn i (h_db h))"

text \<open>\<open>_escape_like\<close>: backslash, percent and underscore lose their meaning in a pattern.\<close>

definition escape_like :: "utext \<Rightarrow> utext" where
  "escape_like v = concat (map (\<lambda>c. if c = 92 \<or> c = 37 \<or> c = 95 then [92, c] else [c]) v)"

definition in_scope :: "(utext \<Rightarrow> utext \<Rightarrow> bool) \<Rightarrow> uuid \<Rightarrow> bool \<Rightarrow> utext option \<Rightarrow> dress \<Rightarrow> bool" where
  "in_scope ilike tn archived search r \<longleftrightarrow>
     g_tenant r = tn \<and> g_deleted r = archived
     \<and> (case search of None \<Rightarrow> True | Some x \<Rightarrow> x = [] \<or> ilike (37 # escape_like x @ [37]) (g_name r))"

definition list_page ::
  "(utext \<Rightarrow> utext \<Rightarrow> bool) \<Rightarrow> uuid \<Rightarrow> bool \<Rightarrow> utext option \<Rightarrow> nat \<Rightarrow> nat \<Rightarrow> house \<Rightarrow> dress list" where
  "list_page ilike tn archived search offset limit h =
     take limit (drop offset (sort_key (\<lambda>r. (g_order r, - g_created_at r, g_id r))
       (filter (in_scope ilike tn archived search) (dresses_of h))))"

definition count_dresses :: "(utext \<Rightarrow> utext \<Rightarrow> bool) \<Rightarrow> uuid \<Rightarrow> bool \<Rightarrow> utext option \<Rightarrow> house \<Rightarrow> nat" where
  "count_dresses ilike tn archived search h = length (filter (in_scope ilike tn archived search) (dresses_of h))"

definition insert_dress :: "uuid \<Rightarrow> dress_input \<Rightarrow> house \<Rightarrow> error + house \<times> dress" where
  "insert_dress tn d h =
     add_row dresses_of put_dresses dresses_ok
       (\<lambda>i. \<lparr>g_id = i, g_tenant = tn, g_name = di_name d, g_description = di_description d, g_price = di_price d,
             g_price_visible = di_visible d, g_reserved = di_reserved d, g_order = di_order d,
             g_created_at = h_now h, g_deleted_at = None\<rparr>) h"

definition rewritten :: "dress_input \<Rightarrow> dress \<Rightarrow> dress" where
  "rewritten d r =
     r\<lparr>g_name := di_name d, g_description := di_description d, g_price := di_price d,
       g_price_visible := di_visible d, g_reserved := di_reserved d, g_order := di_order d\<rparr>"

definition update_fields :: "uuid \<Rightarrow> uuid \<Rightarrow> dress_input \<Rightarrow> house \<Rightarrow> error + house \<times> bool" where
  "update_fields tn i d =
     change_rows dresses_of put_dresses dresses_ok (\<lambda>r. dress_named tn i r \<and> \<not> g_deleted r) (rewritten d)"

definition soft_delete_dress :: "uuid \<Rightarrow> uuid \<Rightarrow> house \<Rightarrow> error + house \<times> bool" where
  "soft_delete_dress tn i h =
     change_rows dresses_of put_dresses dresses_ok (\<lambda>r. dress_named tn i r \<and> \<not> g_deleted r)
       (\<lambda>r. r\<lparr>g_deleted_at := Some (h_now h)\<rparr>) h"

definition restore_dress_row :: "uuid \<Rightarrow> uuid \<Rightarrow> house \<Rightarrow> error + house \<times> bool" where
  "restore_dress_row tn i =
     change_rows dresses_of put_dresses dresses_ok (\<lambda>r. dress_named tn i r \<and> g_deleted r)
       (\<lambda>r. r\<lparr>g_deleted_at := None\<rparr>)"

section \<open>The sizes repository\<close>

definition of_dress :: "uuid \<Rightarrow> uuid \<Rightarrow> dress_variant \<Rightarrow> bool" where
  "of_dress tn gid r \<longleftrightarrow> gv_tenant r = tn \<and> gv_dress r = gid"

text \<open>\<open>aggregate_by_dress\<close> for one dress; a dress without a group reads as zeros.\<close>

definition aggregate :: "uuid \<Rightarrow> uuid \<Rightarrow> house \<Rightarrow> nat \<times> int" where
  "aggregate tn gid h =
     (let rows = filter (\<lambda>r. of_dress tn gid r \<and> \<not> gv_deleted r) (variants_of h) in
      (length rows, sum_list (map gv_quantity rows)))"

definition insert_variant ::
  "(utext \<Rightarrow> utext) \<Rightarrow> uuid \<Rightarrow> uuid \<Rightarrow> variant_input \<Rightarrow> house \<Rightarrow> error + house \<times> dress_variant" where
  "insert_variant casefold tn gid v =
     add_row variants_of put_variants (variants_ok casefold)
       (\<lambda>i. \<lparr>gv_id = i, gv_tenant = tn, gv_dress = gid, gv_size_label = vi_label v, gv_quantity = vi_quantity v,
             gv_sort_order = vi_order v, gv_deleted_at = None\<rparr>)"

definition drop_variants :: "(utext \<Rightarrow> utext) \<Rightarrow> uuid \<Rightarrow> uuid \<Rightarrow> house \<Rightarrow> error + house \<times> bool" where
  "drop_variants casefold tn gid h =
     change_rows variants_of put_variants (variants_ok casefold) (\<lambda>r. of_dress tn gid r \<and> \<not> gv_deleted r)
       (\<lambda>r. r\<lparr>gv_deleted_at := Some (h_now h)\<rparr>) h"

definition restore_variants :: "(utext \<Rightarrow> utext) \<Rightarrow> uuid \<Rightarrow> uuid \<Rightarrow> instant \<Rightarrow> house \<Rightarrow> error + house \<times> bool" where
  "restore_variants casefold tn gid at =
     change_rows variants_of put_variants (variants_ok casefold) (\<lambda>r. of_dress tn gid r \<and> gv_deleted_at r = Some at)
       (\<lambda>r. r\<lparr>gv_deleted_at := None\<rparr>)"

section \<open>The photographs repository\<close>

definition media_of :: "uuid \<Rightarrow> uuid \<Rightarrow> media \<Rightarrow> bool" where
  "media_of tn gid r \<longleftrightarrow> dm_tenant r = tn \<and> dm_dress r = gid"

definition live_media :: "uuid \<Rightarrow> uuid \<Rightarrow> uuid \<Rightarrow> media \<Rightarrow> bool" where
  "live_media tn gid i r \<longleftrightarrow> media_of tn gid r \<and> dm_id r = i \<and> dm_deleted_at r = None"

definition media_by_id :: "uuid \<Rightarrow> uuid \<Rightarrow> uuid \<Rightarrow> house \<Rightarrow> media option" where
  "media_by_id tn gid i h = find (live_media tn gid i) (h_media h)"

definition list_ready :: "uuid \<Rightarrow> uuid \<Rightarrow> house \<Rightarrow> media list" where
  "list_ready tn gid h =
     sort_key (\<lambda>r. (dm_order r, dm_id r))
       (filter (\<lambda>r. media_of tn gid r \<and> dm_deleted_at r = None \<and> dm_ready r) (h_media h))"

text \<open>\<open>covers_by_dress\<close> for one dress: the first ready photograph and how many there are.\<close>

definition cover_of :: "uuid \<Rightarrow> uuid \<Rightarrow> house \<Rightarrow> (media \<times> nat) option" where
  "cover_of tn gid h = (case list_ready tn gid h of [] \<Rightarrow> None | r # rs \<Rightarrow> Some (r, length rs + 1))"

definition stale_before :: "int \<Rightarrow> house \<Rightarrow> instant" where
  "stale_before ttl h = h_now h - seconds ttl"

definition count_active :: "uuid \<Rightarrow> uuid \<Rightarrow> int \<Rightarrow> house \<Rightarrow> nat" where
  "count_active tn gid ttl h =
     length (filter (\<lambda>r. media_of tn gid r \<and> dm_deleted_at r = None
       \<and> (dm_ready r \<or> dm_created_at r \<ge> stale_before ttl h)) (h_media h))"

definition max_ready_sort_order :: "uuid \<Rightarrow> uuid \<Rightarrow> house \<Rightarrow> int" where
  "max_ready_sort_order tn gid h =
     (case map dm_order (list_ready tn gid h) of [] \<Rightarrow> - 1 | n # ns \<Rightarrow> foldl max n ns)"

text \<open>The row's identifier comes with the request, not from the counter.\<close>

definition insert_pending ::
  "uuid \<Rightarrow> uuid \<Rightarrow> uuid \<Rightarrow> photo_key \<Rightarrow> string \<Rightarrow> int \<Rightarrow> house \<Rightarrow> error + house \<times> unit" where
  "insert_pending tn gid i key ctype nbytes h =
     andthen (insert_row media_ok
        \<lparr>dm_id = i, dm_tenant = tn, dm_dress = gid, dm_key = key, dm_type = ctype, dm_bytes = nbytes,
         dm_ready = False, dm_order = 0, dm_created_at = h_now h, dm_deleted_at = None\<rparr> (h_media h))
       (\<lambda>rows. Inr (h\<lparr>h_media := rows\<rparr>, ()))"

definition change_media :: "(media \<Rightarrow> bool) \<Rightarrow> (media \<Rightarrow> media) \<Rightarrow> house \<Rightarrow> error + house \<times> bool" where
  "change_media P f = change_rows h_media h_media_update media_ok P f"

definition is_stale :: "uuid \<Rightarrow> uuid \<Rightarrow> int \<Rightarrow> house \<Rightarrow> media \<Rightarrow> bool" where
  "is_stale tn gid ttl h r \<longleftrightarrow>
     media_of tn gid r \<and> dm_deleted_at r = None \<and> \<not> dm_ready r \<and> dm_created_at r < stale_before ttl h"

definition sweep_stale_pendings :: "uuid \<Rightarrow> uuid \<Rightarrow> int \<Rightarrow> house \<Rightarrow> error + house \<times> (uuid \<times> photo_key) list" where
  "sweep_stale_pendings tn gid ttl h =
     andthen (change_media (is_stale tn gid ttl h) (\<lambda>r. r\<lparr>dm_deleted_at := Some (h_now h)\<rparr>) h) (\<lambda>(h', _).
     Inr (h', map (\<lambda>r. (dm_id r, dm_key r)) (filter (is_stale tn gid ttl h) (h_media h))))"

definition promote_to_ready :: "uuid \<Rightarrow> uuid \<Rightarrow> uuid \<Rightarrow> int \<Rightarrow> house \<Rightarrow> error + house \<times> bool" where
  "promote_to_ready tn gid i order =
     change_media (\<lambda>r. live_media tn gid i r \<and> \<not> dm_ready r) (\<lambda>r. r\<lparr>dm_ready := True, dm_order := order\<rparr>)"

definition set_sort_order :: "uuid \<Rightarrow> uuid \<Rightarrow> uuid \<Rightarrow> int \<Rightarrow> house \<Rightarrow> error + house \<times> bool" where
  "set_sort_order tn gid i order =
     change_media (\<lambda>r. live_media tn gid i r \<and> dm_ready r) (\<lambda>r. r\<lparr>dm_order := order\<rparr>)"

definition drop_one_media :: "uuid \<Rightarrow> uuid \<Rightarrow> uuid \<Rightarrow> house \<Rightarrow> error + house \<times> bool" where
  "drop_one_media tn gid i h = change_media (live_media tn gid i) (\<lambda>r. r\<lparr>dm_deleted_at := Some (h_now h)\<rparr>) h"

definition drop_media :: "uuid \<Rightarrow> uuid \<Rightarrow> house \<Rightarrow> error + house \<times> bool" where
  "drop_media tn gid h =
     change_media (\<lambda>r. media_of tn gid r \<and> dm_deleted_at r = None) (\<lambda>r. r\<lparr>dm_deleted_at := Some (h_now h)\<rparr>) h"

definition restore_media :: "uuid \<Rightarrow> uuid \<Rightarrow> instant \<Rightarrow> house \<Rightarrow> error + house \<times> bool" where
  "restore_media tn gid at =
     change_media (\<lambda>r. media_of tn gid r \<and> dm_deleted_at r = Some at) (\<lambda>r. r\<lparr>dm_deleted_at := None\<rparr>)"

section \<open>The reservations repository\<close>

definition live_reservation :: "uuid \<Rightarrow> uuid \<Rightarrow> dress_reservation \<Rightarrow> bool" where
  "live_reservation tn gid r \<longleftrightarrow> gr_tenant r = tn \<and> gr_dress r = gid \<and> \<not> gr_deleted r"

definition insert_reservation ::
  "uuid \<Rightarrow> uuid \<Rightarrow> date \<Rightarrow> date \<Rightarrow> uuid option \<Rightarrow> utext option \<Rightarrow> house \<Rightarrow> error + house \<times> dress_reservation" where
  "insert_reservation tn gid starts ends cust notes =
     add_row reservations_of put_reservations reservations_ok
       (\<lambda>i. \<lparr>gr_id = i, gr_tenant = tn, gr_dress = gid, gr_starts_on = starts, gr_ends_on = ends,
             gr_customer = cust, gr_notes = notes, gr_deleted = False\<rparr>)"

definition overlapping :: "uuid \<Rightarrow> uuid \<Rightarrow> date \<Rightarrow> date \<Rightarrow> house \<Rightarrow> dress_reservation list" where
  "overlapping tn gid starts ends h =
     sort_key gr_starts_on (filter (\<lambda>r. live_reservation tn gid r
       \<and> gr_starts_on r \<le> ends \<and> gr_ends_on r \<ge> starts) (reservations_of h))"

definition live_by_dress :: "uuid \<Rightarrow> uuid \<Rightarrow> house \<Rightarrow> dress_reservation list" where
  "live_by_dress tn gid h =
     sort_key (\<lambda>r. (- gr_starts_on r, gr_id r)) (filter (live_reservation tn gid) (reservations_of h))"

definition current_or_future_by_dress :: "uuid \<Rightarrow> uuid \<Rightarrow> date \<Rightarrow> house \<Rightarrow> dress_reservation list" where
  "current_or_future_by_dress tn gid today h =
     sort_key (\<lambda>r. (gr_starts_on r, gr_id r))
       (filter (\<lambda>r. live_reservation tn gid r \<and> gr_ends_on r \<ge> today) (reservations_of h))"

definition drop_reservation :: "uuid \<Rightarrow> uuid \<Rightarrow> uuid \<Rightarrow> house \<Rightarrow> error + house \<times> bool" where
  "drop_reservation tn gid i =
     change_rows reservations_of put_reservations reservations_ok (\<lambda>r. live_reservation tn gid r \<and> gr_id r = i)
       (\<lambda>r. r\<lparr>gr_deleted := True\<rparr>)"

section \<open>Views\<close>

text \<open>What the service is built with: the object store, how it signs a link (\<open>None\<close> when it cannot), the
  clock the expiry is counted from, and how long an unconfirmed upload holds its place.\<close>

record gallery =
  ga_store :: storage
  ga_sign :: "media \<Rightarrow> utext option"
  ga_clock :: instant
  ga_ttl :: int

type_synonym media_view = "media \<times> (utext \<times> instant) option"

definition sign_media :: "gallery \<Rightarrow> media \<Rightarrow> media_view" where
  "sign_media ga r =
     (if \<not> so_configured (ga_store ga) then (r, None)
      else (r, map_option (\<lambda>url. (url, ga_clock ga + seconds SIGNED_GET_TTL_SECONDS)) (ga_sign ga r)))"

record dress_view =
  dv_row :: dress
  dv_sizes :: nat
  dv_stock :: int
  dv_out_of_stock :: bool
  dv_media_count :: nat
  dv_cover :: "media_view option"
  dv_uploads :: bool
  dv_slots :: nat
  dv_variants :: "dress_variant list"
  dv_media :: "media_view list"

text \<open>Subtraction of naturals stops at zero, which is the code's \<open>max(.., 0)\<close>.\<close>

definition dress_item :: "gallery \<Rightarrow> dress \<Rightarrow> nat \<times> int \<Rightarrow> nat \<Rightarrow> nat \<Rightarrow> media option \<Rightarrow> dress_view" where
  "dress_item ga row agg count active cover =
     \<lparr>dv_row = row, dv_sizes = fst agg, dv_stock = snd agg, dv_out_of_stock = (snd agg = 0), dv_media_count = count,
      dv_cover = map_option (sign_media ga) cover, dv_uploads = so_configured (ga_store ga),
      dv_slots = MAX_MEDIA_PER_DRESS - active, dv_variants = [], dv_media = []\<rparr>"

definition list_dresses ::
  "gallery \<Rightarrow> (utext \<Rightarrow> utext \<Rightarrow> bool) \<Rightarrow> uuid \<Rightarrow> bool \<Rightarrow> utext option \<Rightarrow> int \<Rightarrow> int \<Rightarrow> house
   \<Rightarrow> error + dress_view list \<times> nat \<times> int \<times> int" where
  "list_dresses ga ilike tn archived search raw_offset raw_limit h =
     (let offset = min (max raw_offset 0) MAX_LIST_OFFSET;
          limit = min (max raw_limit 1) DRESS_LIST_MAX_LIMIT in
      andthen (validate_search search) (\<lambda>_.
      Inr (map (\<lambda>r. let cover = cover_of tn (g_id r) h; n = (case cover of None \<Rightarrow> 0 | Some (_, k) \<Rightarrow> k) in
                    dress_item ga r (aggregate tn (g_id r) h) n n (map_option fst cover))
             (list_page ilike tn archived search (nat offset) (nat limit) h),
           count_dresses ilike tn archived search h, offset, limit)))"

definition detail_view :: "gallery \<Rightarrow> uuid \<Rightarrow> uuid \<Rightarrow> bool \<Rightarrow> house \<Rightarrow> error + dress_view" where
  "detail_view ga tn gid include_archived h =
     andthen (need (Catalog_error Catalog_not_found)
                (if include_archived then dress_any_state tn gid h else dress_by_id tn gid (h_db h))) (\<lambda>row.
     let ready = list_ready tn gid h in
     Inr ((dress_item ga row (aggregate tn gid h) (length ready) (count_active tn gid (ga_ttl ga) h)
             (case ready of [] \<Rightarrow> None | m # _ \<Rightarrow> Some m))
          \<lparr>dv_variants := list_variants tn gid (h_db h), dv_media := map (sign_media ga) ready\<rparr>))"

definition get_dress :: "gallery \<Rightarrow> uuid \<Rightarrow> uuid \<Rightarrow> house \<Rightarrow> error + dress_view" where
  "get_dress ga tn gid h = detail_view ga tn gid True h"

definition with_detail :: "gallery \<Rightarrow> uuid \<Rightarrow> uuid \<Rightarrow> house \<Rightarrow> error + house \<times> 'a \<Rightarrow> house \<times> (error + dress_view)" where
  "with_detail ga tn gid h r =
     (case r of Inl err \<Rightarrow> (h, Inl err) | Inr (h', _) \<Rightarrow> (h', detail_view ga tn gid False h'))"

section \<open>Dresses\<close>

definition create_dress :: "gallery \<Rightarrow> uuid \<Rightarrow> dress_input \<Rightarrow> house \<Rightarrow> error + house \<times> dress_view" where
  "create_dress ga tn d h =
     andthen (validate_dress d) (\<lambda>_.
     andthen (insert_dress tn d h) (\<lambda>(h', row).
     Inr (log tn (Catalog_action Dress_created) (Some (g_id row)) h', dress_item ga row (0, 0) 0 0 None)))"

definition update_dress ::
  "gallery \<Rightarrow> uuid \<Rightarrow> uuid \<Rightarrow> dress_input \<Rightarrow> house \<Rightarrow> house \<times> (error + dress_view)" where
  "update_dress ga tn gid d h =
     with_detail ga tn gid h
       (andthen (validate_dress d) (\<lambda>_.
        andthen (update_fields tn gid d h) (\<lambda>(h', hit).
        andthen (ensure (Catalog_error Catalog_not_found) hit) (\<lambda>_.
        Inr (log tn (Catalog_action Dress_updated) (Some gid) h', ())))))"

definition archive_dress :: "(utext \<Rightarrow> utext) \<Rightarrow> uuid \<Rightarrow> uuid \<Rightarrow> house \<Rightarrow> error + house \<times> unit" where
  "archive_dress casefold tn gid h =
     andthen (live_dress tn gid h) (\<lambda>_.
     andthen (drop_media tn gid h) (\<lambda>(h1, _).
     andthen (drop_variants casefold tn gid h1) (\<lambda>(h2, _).
     andthen (soft_delete_dress tn gid h2) (\<lambda>(h3, _).
     Inr (log tn (Catalog_action Dress_archived) (Some gid) h3, ())))))"

definition restore_in_session :: "(utext \<Rightarrow> utext) \<Rightarrow> uuid \<Rightarrow> uuid \<Rightarrow> house \<Rightarrow> error + house \<times> unit" where
  "restore_in_session casefold tn gid h =
     andthen (need (Catalog_error Catalog_not_found) (dress_any_state tn gid h)) (\<lambda>row.
     andthen (need (Catalog_error Catalog_not_found) (g_deleted_at row)) (\<lambda>at.
     andthen (restore_variants casefold tn gid at h) (\<lambda>(h1, _).
     andthen (restore_media tn gid at h1) (\<lambda>(h2, _).
     andthen (restore_dress_row tn gid h2) (\<lambda>(h3, _).
     Inr (log tn (Catalog_action Dress_restored) (Some gid) h3, ()))))))"

definition restore_dress ::
  "gallery \<Rightarrow> (utext \<Rightarrow> utext) \<Rightarrow> uuid \<Rightarrow> uuid \<Rightarrow> house \<Rightarrow> house \<times> (error + dress_view)" where
  "restore_dress ga casefold tn gid h = with_detail ga tn gid h (restore_in_session casefold tn gid h)"

section \<open>Sizes\<close>

fun insert_variants ::
  "(utext \<Rightarrow> utext) \<Rightarrow> uuid \<Rightarrow> uuid \<Rightarrow> variant_input list \<Rightarrow> house \<Rightarrow> error + house \<times> unit" where
  "insert_variants casefold tn gid [] h = Inr (h, ())"
| "insert_variants casefold tn gid (v # vs) h =
     andthen (insert_variant casefold tn gid v h) (\<lambda>(h', _). insert_variants casefold tn gid vs h')"

definition normalized_variants :: "variant_input list \<Rightarrow> variant_input list" where
  "normalized_variants vs = map (\<lambda>v. v\<lparr>vi_label := normalize_size_label (vi_label v)\<rparr>) vs"

definition replace_in_session ::
  "env \<Rightarrow> (utext \<Rightarrow> utext) \<Rightarrow> uuid \<Rightarrow> uuid \<Rightarrow> variant_input list \<Rightarrow> house \<Rightarrow> error + house \<times> unit" where
  "replace_in_session e casefold tn gid vs h =
     (let normalized = normalized_variants vs in
      andthen (validate_variants normalized) (\<lambda>_.
      andthen (reject_duplicate_sizes (e_lower e) [] normalized) (\<lambda>_.
      (case andthen (live_dress tn gid h) (\<lambda>_.
            andthen (drop_variants casefold tn gid h) (\<lambda>(h1, _).
            andthen (insert_variants casefold tn gid normalized h1) (\<lambda>(h2, _).
            Inr (log tn (Catalog_action Dress_variants_replaced) (Some gid) h2, ())))) of
         Inl err \<Rightarrow> Inl (if is_integrity err then Catalog_error Duplicate_size else err)
       | Inr out \<Rightarrow> Inr out))))"

definition replace_variants ::
  "gallery \<Rightarrow> env \<Rightarrow> (utext \<Rightarrow> utext) \<Rightarrow> uuid \<Rightarrow> uuid \<Rightarrow> variant_input list \<Rightarrow> house
   \<Rightarrow> house \<times> (error + dress_view)" where
  "replace_variants ga e casefold tn gid vs h = with_detail ga tn gid h (replace_in_session e casefold tn gid vs h)"

section \<open>Photographs\<close>

text \<open>The transaction of a presign, with the keys of the stale uploads it swept.\<close>

definition presign_in_session ::
  "uuid \<Rightarrow> uuid \<Rightarrow> uuid \<Rightarrow> string \<Rightarrow> string \<Rightarrow> int \<Rightarrow> int \<Rightarrow> house \<Rightarrow> error + house \<times> photo_key \<times> photo_key list" where
  "presign_in_session tn gid i ext ctype nbytes ttl h =
     andthen (live_dress tn gid h) (\<lambda>_.
     andthen (sweep_stale_pendings tn gid ttl h) (\<lambda>(h1, swept).
     andthen (ensure (Media_error Media_limit_reached) (\<not> count_active tn gid ttl h1 \<ge> MAX_MEDIA_PER_DRESS)) (\<lambda>_.
     let key = (tn, gid, i, ext) in
     andthen (insert_pending tn gid i key ctype nbytes h1) (\<lambda>(h2, _).
     Inr (log tn (Catalog_action Dress_media_presigned) (Some i) h2, key, map snd swept)))))"

text \<open>A refusal the request could have caused is charged like a success; the charge for a success precedes
  the object store's answer. If the store cannot give a form the pending row is given back in a
  transaction of its own (\<open>between\<close> is what others committed in the meantime).\<close>

definition presign_media ::
  "limiter_cfg \<Rightarrow> gallery \<Rightarrow> uuid \<Rightarrow> uuid \<Rightarrow> string \<Rightarrow> int \<Rightarrow> uuid \<Rightarrow> int \<Rightarrow> (house \<Rightarrow> house)
   \<Rightarrow> uuid limiter \<times> house \<Rightarrow> (uuid limiter \<times> house) \<times> (error + photo_key \<times> photo_key list)" where
  "presign_media cfg ga tn gid ctype nbytes i tick between lh =
     (if is_blocked cfg (fst lh) tick tn then (lh, Inl (Media_error Media_presign_throttled))
      else
        (case andthen (validate_presign ctype nbytes) (\<lambda>ext.
              andthen (ensure (Media_error Media_not_configured) (so_configured (ga_store ga))) (\<lambda>_. Inr ext)) of
           Inl err \<Rightarrow> (lh, Inl err)
         | Inr ext \<Rightarrow>
             let charged = record_failure cfg (fst lh) tick tick tn in
             (case presign_in_session tn gid i ext ctype nbytes (ga_ttl ga) (snd lh) of
                Inl err \<Rightarrow>
                  ((if err \<in> {Catalog_error Catalog_not_found, Media_error Media_limit_reached} then charged
                    else fst lh, snd lh), Inl err)
              | Inr (h1, key, dropped) \<Rightarrow>
                  (case so_presign (ga_store ga) key of
                     Inr _ \<Rightarrow> ((charged, h1), Inr (key, dropped))
                   | Inl err \<Rightarrow>
                       (case drop_one_media tn gid i (between h1) of
                          Inl err' \<Rightarrow> ((charged, between h1), Inl err')
                        | Inr (h2, _) \<Rightarrow> ((charged, h2), Inl err))))))"

definition confirm_in_session :: "uuid \<Rightarrow> uuid \<Rightarrow> uuid \<Rightarrow> house \<Rightarrow> error + house \<times> unit" where
  "confirm_in_session tn gid i h =
     andthen (need (Catalog_error Catalog_not_found) (media_by_id tn gid i h)) (\<lambda>row.
     if dm_ready row then Inr (h, ())
     else andthen (promote_to_ready tn gid i (max_ready_sort_order tn gid h + 1) h) (\<lambda>(h', _).
          Inr (log tn (Catalog_action Dress_media_confirmed) (Some i) h', ())))"

text \<open>Read the row, look at the object, write what holds then: a mismatch deletes the object and leaves the row.\<close>

definition confirm_media ::
  "gallery \<Rightarrow> uuid \<Rightarrow> uuid \<Rightarrow> uuid \<Rightarrow> (house \<Rightarrow> house) \<Rightarrow> house \<Rightarrow> house \<times> (error + dress_view)" where
  "confirm_media ga tn gid i between h =
     (if \<not> so_configured (ga_store ga) then (h, Inl (Media_error Media_not_configured))
      else
        (case andthen (live_dress tn gid h) (\<lambda>_. need (Catalog_error Catalog_not_found) (media_by_id tn gid i h)) of
           Inl err \<Rightarrow> (h, Inl err)
         | Inr row \<Rightarrow>
             if dm_ready row then (h, detail_view ga tn gid False h)
             else
               (case so_head (ga_store ga) (dm_key row) of
                  Inl err \<Rightarrow> (between h, Inl err)
                | Inr None \<Rightarrow> (between h, Inl (Media_error Media_not_uploaded))
                | Inr (Some actual) \<Rightarrow>
                    if actual \<noteq> dm_type row then (between h, Inl (Media_error Media_mismatch))
                    else
                      (case so_prefix (ga_store ga) (dm_key row) of
                         Inl err \<Rightarrow> (between h, Inl err)
                       | Inr bytes \<Rightarrow>
                           if \<not> matches_magic_prefix (dm_type row) bytes
                           then (between h, Inl (Media_error Media_mismatch))
                           else with_detail ga tn gid (between h) (confirm_in_session tn gid i (between h))))))"

definition delete_in_session :: "uuid \<Rightarrow> uuid \<Rightarrow> uuid \<Rightarrow> house \<Rightarrow> error + house \<times> photo_key" where
  "delete_in_session tn gid i h =
     andthen (live_dress tn gid h) (\<lambda>_.
     andthen (need (Catalog_error Catalog_not_found) (media_by_id tn gid i h)) (\<lambda>row.
     andthen (drop_one_media tn gid i h) (\<lambda>(h', _).
     Inr (log tn (Catalog_action Dress_media_deleted) (Some i) h', dm_key row))))"

definition delete_media :: "gallery \<Rightarrow> uuid \<Rightarrow> uuid \<Rightarrow> uuid \<Rightarrow> house \<Rightarrow> house \<times> (error + dress_view)" where
  "delete_media ga tn gid i h =
     (if \<not> so_configured (ga_store ga) then (h, Inl (Media_error Media_not_configured))
      else with_detail ga tn gid h (delete_in_session tn gid i h))"

fun number_media :: "uuid \<Rightarrow> uuid \<Rightarrow> int \<Rightarrow> uuid list \<Rightarrow> house \<Rightarrow> error + house \<times> unit" where
  "number_media tn gid n [] h = Inr (h, ())"
| "number_media tn gid n (i # is) h =
     andthen (set_sort_order tn gid i n h) (\<lambda>(h', _). number_media tn gid (n + 1) is h')"

definition reorder_in_session :: "uuid \<Rightarrow> uuid \<Rightarrow> uuid list \<Rightarrow> house \<Rightarrow> error + house \<times> unit" where
  "reorder_in_session tn gid is h =
     andthen (live_dress tn gid h) (\<lambda>_.
     andthen (ensure (Media_error Media_order_mismatch) (sort is = sort (map dm_id (list_ready tn gid h)))) (\<lambda>_.
     andthen (number_media tn gid 0 is h) (\<lambda>(h', _).
     Inr (log tn (Catalog_action Dress_media_reordered) (Some gid) h', ()))))"

definition reorder_media :: "gallery \<Rightarrow> uuid \<Rightarrow> uuid \<Rightarrow> uuid list \<Rightarrow> house \<Rightarrow> house \<times> (error + dress_view)" where
  "reorder_media ga tn gid is h = with_detail ga tn gid h (reorder_in_session tn gid is h)"

section \<open>Reservations\<close>

definition customer_named :: "uuid \<Rightarrow> house \<Rightarrow> uuid option \<Rightarrow> utext option" where
  "customer_named tn h cust = Option.bind cust (\<lambda>c. map_option c_name (customer_by_id tn c (h_db h)))"

definition with_names :: "uuid \<Rightarrow> house \<Rightarrow> dress_reservation list \<Rightarrow> (dress_reservation \<times> utext option) list" where
  "with_names tn h rows = map (\<lambda>r. (r, customer_named tn h (gr_customer r))) rows"

definition list_reservations ::
  "uuid \<Rightarrow> uuid \<Rightarrow> house \<Rightarrow> error + (dress_reservation \<times> utext option) list" where
  "list_reservations tn gid h =
     andthen (live_dress tn gid h) (\<lambda>_. Inr (with_names tn h (live_by_dress tn gid h)))"

definition create_reservation ::
  "uuid \<Rightarrow> uuid \<Rightarrow> date \<Rightarrow> date \<Rightarrow> uuid option \<Rightarrow> utext option \<Rightarrow> house
   \<Rightarrow> error + house \<times> dress_reservation \<times> utext option" where
  "create_reservation tn gid starts ends cust notes h =
     andthen (validate_reservation starts ends notes) (\<lambda>_.
     andthen (live_dress tn gid h) (\<lambda>_.
     andthen (case cust of
                None \<Rightarrow> Inr ()
              | Some c \<Rightarrow>
                  (case customer_by_id tn c (h_db h) of
                     None \<Rightarrow> Inl (Catalog_error Catalog_not_found)
                   | Some row \<Rightarrow> ensure (Catalog_error Catalog_not_found) (c_erased_at row = None))) (\<lambda>_.
     andthen (case overlapping tn gid starts ends h of
                [] \<Rightarrow> Inr ()
              | r # _ \<Rightarrow> Inl (Catalog_error (Reservation_overlap (gr_starts_on r) (gr_ends_on r)))) (\<lambda>_.
     andthen (insert_reservation tn gid starts ends cust notes h) (\<lambda>(h', r).
     Inr (log tn (Catalog_action Dress_reservation_created) (Some (gr_id r)) h', r,
          customer_named tn h' (gr_customer r)))))))"

definition delete_reservation :: "uuid \<Rightarrow> uuid \<Rightarrow> uuid \<Rightarrow> house \<Rightarrow> error + house \<times> unit" where
  "delete_reservation tn gid i h =
     andthen (live_dress tn gid h) (\<lambda>_.
     andthen (drop_reservation tn gid i h) (\<lambda>(h', hit).
     andthen (ensure (Catalog_error Catalog_not_found) hit) (\<lambda>_.
     Inr (log tn (Catalog_action Dress_reservation_deleted) (Some i) h', ()))))"

end
