(* ===== verification/Catalog_Laws.thy ===== *)
theory Catalog_Laws
  imports Catalog "HOL-Library.Multiset"
begin

section \<open>The tables\<close>

lemma catalog_sel [simp]:
  "dresses_of (put_dresses f h) = f (dresses_of h)" "variants_of (put_dresses f h) = variants_of h"
  "reservations_of (put_dresses f h) = reservations_of h" "h_media (put_dresses f h) = h_media h"
  "dresses_of (put_variants g h) = dresses_of h" "variants_of (put_variants g h) = g (variants_of h)"
  "reservations_of (put_variants g h) = reservations_of h" "h_media (put_variants g h) = h_media h"
  "dresses_of (put_reservations k h) = dresses_of h" "variants_of (put_reservations k h) = variants_of h"
  "reservations_of (put_reservations k h) = k (reservations_of h)" "h_media (put_reservations k h) = h_media h"
  "h_now (put_dresses f h) = h_now h" "h_now (put_variants g h) = h_now h" "h_now (put_reservations k h) = h_now h"
  "h_next (put_dresses f h) = h_next h" "h_next (put_variants g h) = h_next h" "h_next (put_reservations k h) = h_next h"
  "d_customers (h_db (put_dresses f h)) = d_customers (h_db h)"
  by (simp_all add: put_dresses_def put_variants_def put_reservations_def dresses_of_def variants_of_def
      reservations_of_def h_now_def h_next_def)

lemma catalog_frame [simp]:
  "dresses_of (log tn a i h) = dresses_of h" "variants_of (log tn a i h) = variants_of h"
  "reservations_of (log tn a i h) = reservations_of h"
  "dresses_of (bump h) = dresses_of h" "variants_of (bump h) = variants_of h" "reservations_of (bump h) = reservations_of h"
  "dresses_of (h\<lparr>h_media := ms\<rparr>) = dresses_of h" "variants_of (h\<lparr>h_media := ms\<rparr>) = variants_of h"
  "reservations_of (h\<lparr>h_media := ms\<rparr>) = reservations_of h" "h_now (h\<lparr>h_media := ms\<rparr>) = h_now h"
  by (simp_all add: dresses_of_def variants_of_def reservations_of_def record_audit_def h_now_def)

interpretation gr: house_table gr_id gr_tenant gr_deleted reservations_ok reservations_of put_reservations
  by unfold_locales (simp_all add: reservations_ok_def reservations_of_def put_reservations_def)

interpretation gd: house_table g_id g_tenant g_deleted dresses_ok dresses_of put_dresses
  by unfold_locales (simp_all add: dresses_ok_def dresses_of_def put_dresses_def)

interpretation gv: house_table gv_id gv_tenant gv_deleted "variants_ok casefold" variants_of put_variants for casefold
  by unfold_locales (simp_all add: variants_ok_def variants_of_def put_variants_def)

interpretation dm: house_table dm_id dm_tenant "\<lambda>r. dm_deleted_at r \<noteq> None" media_ok h_media h_media_update
  by unfold_locales (simp_all add: media_ok_def)

section \<open>Archiving and restoring\<close>

lemma update_back:
  assumes "\<And>r. r \<in> set rows \<Longrightarrow> P r \<Longrightarrow> Q (f r) \<and> g (f r) = r" "\<And>r. r \<in> set rows \<Longrightarrow> \<not> P r \<Longrightarrow> \<not> Q r"
  shows "update_where Q g (update_where P f rows) = rows"
  using assms by (induction rows) auto

lemma all_updated:
  assumes "\<And>r. Q r \<Longrightarrow> P r" "\<And>r. P r \<Longrightarrow> \<not> Q (f r)"
  shows "find Q (update_where P f rows) = None" "filter Q (update_where P f rows) = []"
  using assms by (induction rows) auto

lemma find_updated: "find P rows = Some r \<Longrightarrow> (\<And>x. P (f x) = P x) \<Longrightarrow> Q r \<Longrightarrow> find P (update_where Q f rows) = Some (f r)"
  by (induction rows) (auto split: if_splits)

definition a_gown :: dress where
  "a_gown = \<lparr>g_id = 31, g_tenant = 7, g_name = [65], g_description = None, g_price = Some 500000, g_price_visible = True,
     g_reserved = False, g_order = 0, g_created_at = 0, g_deleted_at = None\<rparr>"

definition a_photo :: "uuid \<Rightarrow> int \<Rightarrow> bool \<Rightarrow> media" where
  "a_photo i order ready = \<lparr>dm_id = i, dm_tenant = 7, dm_dress = 31, dm_key = (7, 31, i, ''.jpg''), dm_type = ''image/jpeg'',
     dm_bytes = 2048, dm_ready = ready, dm_order = order, dm_created_at = 0, dm_deleted_at = None\<rparr>"

definition a_shelf :: house where
  "a_shelf = front_desk\<lparr>h_db := (h_db front_desk)\<lparr>d_now := 5, d_dresses := [a_gown], d_variants :=
       [\<lparr>gv_id = 32, gv_tenant = 7, gv_dress = 31, gv_size_label = [51, 56], gv_quantity = 2, gv_sort_order = 0, gv_deleted_at = None\<rparr>]\<rparr>,
     h_media := [a_photo 33 0 True, a_photo 34 1 True, a_photo 35 0 False]\<rparr>"

lemma shelf_ok: "dresses_ok (dresses_of a_shelf)" "variants_ok (\<lambda>x. x) (variants_of a_shelf)" "media_ok (h_media a_shelf)"
  by code_simp+

text \<open>C33. Archiving loses nothing: an archived dress is off the shelf with its sizes and photographs, and
  restoring it, whatever happened to other tables in between, gives back the dress, its sizes and its
  photographs exactly as they were, including uploads still waiting for confirmation; what had been
  removed before stays removed.\<close>

theorem restore_undoes_archive:
  assumes "archive_dress casefold tn gid h = Inr (h1, z)"
    and "dresses_ok (dresses_of h)" "variants_ok casefold (variants_of h)" "media_ok (h_media h)"
    and "\<forall>v\<in>set (variants_of h). of_dress tn gid v \<longrightarrow> gv_deleted_at v \<noteq> Some (h_now h)"
    and "\<forall>m\<in>set (h_media h). media_of tn gid m \<longrightarrow> dm_deleted_at m \<noteq> Some (h_now h)"
    and "dresses_of h2 = dresses_of h1" "variants_of h2 = variants_of h1" "h_media h2 = h_media h1"
  shows "dress_by_id tn gid (h_db h1) = None \<and> list_variants tn gid (h_db h1) = [] \<and> list_ready tn gid h1 = []
    \<and> (\<exists>h3. restore_in_session casefold tn gid h2 = Inr (h3, ())
         \<and> dresses_of h3 = dresses_of h \<and> variants_of h3 = variants_of h \<and> h_media h3 = h_media h)"
proof -
  let ?P = "\<lambda>r. dress_named tn gid r \<and> \<not> g_deleted r" and ?f = "\<lambda>r. r\<lparr>g_deleted_at := Some (h_now h)\<rparr>"
  let ?V = "\<lambda>r. of_dress tn gid r \<and> \<not> gv_deleted r" and ?v = "\<lambda>r. r\<lparr>gv_deleted_at := Some (h_now h)\<rparr>"
  let ?M = "\<lambda>r. media_of tn gid r \<and> dm_deleted_at r = None" and ?m = "\<lambda>r. r\<lparr>dm_deleted_at := Some (h_now h)\<rparr>"
  obtain row where row: "find ?P (dresses_of h) = Some row"
    using assms(1) by (auto simp: archive_dress_def andthen_eq_Inr live_dress_def dress_by_id_def dresses_of_def dress_named_def)
  have h1: "dresses_of h1 = update_where ?P ?f (dresses_of h)" "variants_of h1 = update_where ?V ?v (variants_of h)"
    "h_media h1 = update_where ?M ?m (h_media h)"
    using assms(1)
    by (auto simp: archive_dress_def andthen_eq_Inr drop_media_def drop_variants_def soft_delete_dress_def change_media_def
        change_rows_Inr)
  have in_row: "row \<in> set (dresses_of h)" "dress_named tn gid row" "\<not> g_deleted row" using row by (auto dest: find_SomeD)
  have only: "r = row" if "r \<in> set (dresses_of h)" "dress_named tn gid r" for r
    using gd.same_row [OF assms(2) that(1) in_row(1)] that(2) in_row(2) by (simp add: dress_named_def)
  have undone: "update_where (\<lambda>r. dress_named tn gid r \<and> g_deleted r) (\<lambda>r. r\<lparr>g_deleted_at := None\<rparr>) (dresses_of h1) = dresses_of h"
    unfolding h1
  proof (rule update_back)
    fix r assume r: "r \<in> set (dresses_of h)"
    show "(dress_named tn gid (?f r) \<and> g_deleted (?f r)) \<and> (?f r)\<lparr>g_deleted_at := None\<rparr> = r" if "?P r"
      using that by (cases r) (simp add: dress_named_def g_deleted_def)
    show "\<not> (dress_named tn gid r \<and> g_deleted r)" if "\<not> ?P r" using that only [OF r] in_row(3) by blast
  qed
  have backv: "update_where (\<lambda>r. of_dress tn gid r \<and> gv_deleted_at r = Some (h_now h)) (\<lambda>r. r\<lparr>gv_deleted_at := None\<rparr>)
      (variants_of h1) = variants_of h"
    unfolding h1
  proof (rule update_back)
    fix r assume r: "r \<in> set (variants_of h)"
    show "(of_dress tn gid (?v r) \<and> gv_deleted_at (?v r) = Some (h_now h)) \<and> (?v r)\<lparr>gv_deleted_at := None\<rparr> = r" if "?V r"
      using that by (cases r) (simp add: of_dress_def gv_deleted_def)
    show "\<not> (of_dress tn gid r \<and> gv_deleted_at r = Some (h_now h))" using assms(5) r by blast
  qed
  have backm: "update_where (\<lambda>r. media_of tn gid r \<and> dm_deleted_at r = Some (h_now h)) (\<lambda>r. r\<lparr>dm_deleted_at := None\<rparr>)
      (h_media h1) = h_media h"
    unfolding h1
  proof (rule update_back)
    fix r assume r: "r \<in> set (h_media h)"
    show "(media_of tn gid (?m r) \<and> dm_deleted_at (?m r) = Some (h_now h)) \<and> (?m r)\<lparr>dm_deleted_at := None\<rparr> = r" if "?M r"
      using that by (cases r) (simp add: media_of_def)
    show "\<not> (media_of tn gid r \<and> dm_deleted_at r = Some (h_now h))" using assms(6) r by blast
  qed
  have any: "dress_any_state tn gid h2 = Some (?f row)"
  proof -
    have "find (dress_named tn gid) (dresses_of h) = Some row"
    proof (cases "find (dress_named tn gid) (dresses_of h)")
      case None
      with in_row(1,2) show ?thesis unfolding find_None_Ball by blast
    next
      case (Some x)
      from find_SomeD [OF this] have "x = row" by (intro only) auto
      with Some show ?thesis by simp
    qed
    then show ?thesis
      unfolding dress_any_state_def assms(7) h1
      by (rule find_updated) (use in_row in \<open>auto simp: dress_named_def\<close>)
  qed
  have run: "restore_in_session casefold tn gid h2 = Inr (log tn (Catalog_action Dress_restored) (Some gid)
      (put_dresses (\<lambda>_. dresses_of h) ((put_variants (\<lambda>_. variants_of h) h2)\<lparr>h_media := h_media h\<rparr>)), ())"
    unfolding restore_in_session_def any restore_variants_def restore_media_def restore_dress_row_def change_media_def
    using assms(2-4) undone backv backm assms(7-9)
    by (simp add: change_rows_free)
  show ?thesis
  proof (intro conjI)
    show "dress_by_id tn gid (h_db h1) = None"
      unfolding dress_by_id_def dresses_of_def [symmetric] h1
      by (rule all_updated) (auto simp: dress_named_def g_deleted_def)
    have "filter (\<lambda>v. gv_tenant v = tn \<and> gv_dress v = gid \<and> \<not> gv_deleted v) (variants_of h1) = []"
      unfolding h1 by (rule all_updated) (auto simp: of_dress_def gv_deleted_def)
    then show "list_variants tn gid (h_db h1) = []" by (simp add: list_variants_def variants_of_def)
    have "filter (\<lambda>r. media_of tn gid r \<and> dm_deleted_at r = None \<and> dm_ready r) (h_media h1) = []"
      unfolding h1 by (rule all_updated) auto
    then show "list_ready tn gid h1 = []" by (simp add: list_ready_def)
    show "\<exists>h3. restore_in_session casefold tn gid h2 = Inr (h3, ())
         \<and> dresses_of h3 = dresses_of h \<and> variants_of h3 = variants_of h \<and> h_media h3 = h_media h"
      using run by auto
  qed
qed

theorem restore_undoes_archive_witness:
  "\<exists>h1 h3. archive_dress (\<lambda>x. x) 7 31 a_shelf = Inr (h1, ()) \<and> restore_in_session (\<lambda>x. x) 7 31 h1 = Inr (h3, ())
     \<and> list_ready 7 31 h1 = [] \<and> dresses_of h3 = [a_gown] \<and> h_media h3 = [a_photo 33 0 True, a_photo 34 1 True, a_photo 35 0 False]"
proof -
  let ?run = "archive_dress (\<lambda>x. x) 7 31 a_shelf"
  have r: "?run = Inr (fst (projr ?run), ())" by code_simp
  have fresh: "\<forall>v\<in>set (variants_of a_shelf). of_dress 7 31 v \<longrightarrow> gv_deleted_at v \<noteq> Some (h_now a_shelf)"
    "\<forall>m\<in>set (h_media a_shelf). media_of 7 31 m \<longrightarrow> dm_deleted_at m \<noteq> Some (h_now a_shelf)" by code_simp+
  have rows: "dresses_of a_shelf = [a_gown]" "h_media a_shelf = [a_photo 33 0 True, a_photo 34 1 True, a_photo 35 0 False]" by code_simp+
  from restore_undoes_archive [OF r shelf_ok fresh refl refl refl] r show ?thesis unfolding rows by blast
qed

section \<open>The sizes\<close>

text \<open>Identifiers grow, so breaking ties by identifier is stability.\<close>

lemma sort_key_ties:
  fixes ident :: "'a \<Rightarrow> nat" and ord :: "'a \<Rightarrow> int"
  assumes "sorted (map ident xs)"
  shows "sort_key (\<lambda>x. (ord x, ident x)) xs = sort_key ord xs"
proof (rule properties_for_sort_key [symmetric])
  let ?ys = "sort_key (\<lambda>x. (ord x, ident x)) xs"
  show "mset ?ys = mset xs" by simp
  have "sorted (map (\<lambda>x. (ord x, ident x)) ?ys)" by simp
  then show "sorted (map ord ?ys)"
    unfolding sorted_map by (rule sorted_wrt_mono_rel [rotated]) (auto simp: less_eq_prod_def)
  show "filter (\<lambda>x. ord k = ord x) ?ys = filter (\<lambda>x. ord k = ord x) xs" if "k \<in> set ?ys" for k
  proof -
    let ?same = "filter (\<lambda>x. ord k = ord x) xs"
    have "sorted_wrt (\<lambda>a b. ident a \<le> ident b) xs" using assms by (simp add: sorted_map)
    then have "sorted_wrt (\<lambda>a b. ident a \<le> ident b) ?same" by (rule sorted_wrt_filter)
    then have "sorted (map (\<lambda>x. (ord x, ident x)) ?same)"
      unfolding sorted_map
      by (rule sorted_wrt_mono_rel [rotated]) (auto simp: less_eq_prod_def)
    then have "sort_key (\<lambda>x. (ord x, ident x)) ?same = ?same" by (rule sort_key_id_if_sorted)
    then show ?thesis by (simp add: filter_sort)
  qed
qed

lemma insort_key_map: "insort_key f (g x) (map g xs) = map g (insort_key (\<lambda>x. f (g x)) x xs)"
  by (induction xs) auto

lemma sort_key_map: "sort_key f (map g xs) = map g (sort_key (\<lambda>x. f (g x)) xs)"
  by (induction xs) (auto simp: insort_key_map)

fun rows_from :: "uuid \<Rightarrow> uuid \<Rightarrow> uuid \<Rightarrow> variant_input list \<Rightarrow> dress_variant list" where
  "rows_from tn gid n [] = []"
| "rows_from tn gid n (v # vs) =
     \<lparr>gv_id = n, gv_tenant = tn, gv_dress = gid, gv_size_label = vi_label v, gv_quantity = vi_quantity v,
      gv_sort_order = vi_order v, gv_deleted_at = None\<rparr> # rows_from tn gid (n + 1) vs"

definition size_of_row :: "dress_variant \<Rightarrow> variant_input" where
  "size_of_row r = \<lparr>vi_label = gv_size_label r, vi_quantity = gv_quantity r, vi_order = gv_sort_order r\<rparr>"

lemma rows_from_facts:
  "map size_of_row (rows_from tn gid n vs) = vs"
  "\<forall>r\<in>set (rows_from tn gid n vs). n \<le> gv_id r \<and> of_dress tn gid r \<and> \<not> gv_deleted r"
  "sorted (map gv_id (rows_from tn gid n vs))"
  by (induction vs arbitrary: n) (fastforce simp: size_of_row_def of_dress_def gv_deleted_def)+

lemma insert_variants_run:
  "insert_variants casefold tn gid vs h = Inr (h', z) \<Longrightarrow>
   variants_of h' = variants_of h @ rows_from tn gid (h_next h) vs
   \<and> dresses_of h' = dresses_of h \<and> h_media h' = h_media h
   \<and> (vs \<noteq> [] \<longrightarrow> variants_ok casefold (variants_of h'))"
proof (induction vs arbitrary: h)
  case (Cons v vs)
  then obtain h1 r where one: "insert_variant casefold tn gid v h = Inr (h1, r)" and rest: "insert_variants casefold tn gid vs h1 = Inr (h', z)"
    by (auto simp: andthen_eq_Inr)
  from one have h1: "variants_of h1 = variants_of h @ rows_from tn gid (h_next h) [v]" "h_next h1 = h_next h + 1"
    "dresses_of h1 = dresses_of h" "h_media h1 = h_media h" "variants_ok casefold (variants_of h1)"
    by (auto simp: insert_variant_def add_row_Inr)
  with Cons.IH [OF rest] rest show ?case by (cases vs) auto
qed simp

lemma rejects_duplicates:
  "reject_duplicate_sizes lower seen vs = Inr z \<Longrightarrow>
   distinct (map (\<lambda>v. lower (vi_label v)) vs) \<and> (\<forall>v\<in>set vs. lower (vi_label v) \<notin> set seen)"
proof (induction vs arbitrary: seen)
  case (Cons v vs)
  then have new: "lower (vi_label v) \<notin> set seen"
    and rest: "reject_duplicate_sizes lower (lower (vi_label v) # seen) vs = Inr z"
    by (auto simp: Let_def split: if_splits)
  from Cons.IH [OF rest] new show ?case by force
qed simp

lemma each_ok_iff: "each_ok chk xs = Inr z \<longleftrightarrow> (\<forall>x\<in>set xs. chk x = Inr ())"
  by (induction xs) (auto simp: andthen_eq_Inr)

text \<open>The sizes of a dress are exactly the request: when replacing them succeeds, what the shelf shows of the
  dress is the request with its labels normalised, in the requested order, ties as they came; no two are
  the same size under Python's or the database's lower case; and every other dress keeps its sizes.\<close>

theorem sizes_are_the_request:
  assumes "replace_in_session e casefold tn gid vs h = Inr (h', z)" "variants_ok casefold (variants_of h)"
  shows "map size_of_row (list_variants tn gid (h_db h')) = sort_key vi_order (normalized_variants vs)
    \<and> distinct (map (\<lambda>v. e_lower e (vi_label v)) (normalized_variants vs))
    \<and> distinct (map (\<lambda>v. casefold (vi_label v)) (normalized_variants vs))
    \<and> (\<forall>other. other \<noteq> gid \<longrightarrow> list_variants tn other (h_db h') = list_variants tn other (h_db h))"
proof -
  let ?vs = "normalized_variants vs"
  let ?V = "\<lambda>r. of_dress tn gid r \<and> \<not> gv_deleted r" and ?v = "\<lambda>r. r\<lparr>gv_deleted_at := Some (h_now h)\<rparr>"
  from assms(1) obtain h1 b h2 y where d: "drop_variants casefold tn gid h = Inr (h1, b)"
    and i: "insert_variants casefold tn gid ?vs h1 = Inr (h2, y)" and h': "variants_of h' = variants_of h2"
    and dup: "reject_duplicate_sizes (e_lower e) [] ?vs = Inr ()"
    by (auto simp: replace_in_session_def Let_def andthen_eq_Inr split: sum.splits)
  have h1: "variants_of h1 = update_where ?V ?v (variants_of h)" "h_next h1 = h_next h"
    using d by (auto simp: drop_variants_def change_rows_Inr)
  note run = insert_variants_run [OF i]
  let ?new = "rows_from tn gid (h_next h1) ?vs"
  have all: "variants_of h' = update_where ?V ?v (variants_of h) @ ?new" using run h1 h' by simp
  have shown_rows: "list_variants tn g (h_db h') = sort_key (\<lambda>v. (gv_sort_order v, gv_id v))
      (filter (\<lambda>v. of_dress tn g v \<and> \<not> gv_deleted v) (variants_of h'))" for g h'
    by (simp add: list_variants_def variants_of_def of_dress_def conj_assoc)
  have old: "filter ?V (update_where ?V ?v (variants_of h)) = []"
    by (rule all_updated) (auto simp: gv_deleted_def)
  have new: "filter ?V ?new = ?new" using rows_from_facts(2) by (intro filter_True) blast
  have live: "filter ?V (variants_of h') = ?new" by (simp add: all old new)
  have "map size_of_row (list_variants tn gid (h_db h')) = map size_of_row (sort_key gv_sort_order ?new)"
    unfolding shown_rows live sort_key_ties [OF rows_from_facts(3)] ..
  also have "\<dots> = sort_key vi_order (map size_of_row ?new)"
    unfolding sort_key_map by (simp add: size_of_row_def)
  finally have shown: "map size_of_row (list_variants tn gid (h_db h')) = sort_key vi_order ?vs"
    by (simp add: rows_from_facts(1))
  have folded: "distinct (map (\<lambda>v. casefold (vi_label v)) ?vs)"
  proof (cases "?vs = []")
    case False
    then have "unique_on (\<lambda>r. \<not> gv_deleted r) (\<lambda>r. (gv_tenant r, gv_dress r, casefold (gv_size_label r))) ?new"
      using run h' by (auto simp: variants_ok_def unique_on_append)
    then have "distinct (map (\<lambda>r. (gv_tenant r, gv_dress r, casefold (gv_size_label r))) ?new)"
      using rows_from_facts(2) [of tn gid "h_next h1" ?vs] by (simp add: unique_on_def filter_True)
    also have "map (\<lambda>r. (gv_tenant r, gv_dress r, casefold (gv_size_label r))) ?new
        = map (\<lambda>v. (tn, gid, casefold (vi_label v))) (map size_of_row ?new)"
      using rows_from_facts(2) [of tn gid "h_next h1" ?vs] by (auto simp: of_dress_def size_of_row_def)
    finally show ?thesis by (simp add: rows_from_facts(1) distinct_map inj_on_def)
  qed simp
  have others: "list_variants tn other (h_db h') = list_variants tn other (h_db h)" if "other \<noteq> gid" for other
  proof -
    have "filter (\<lambda>v. of_dress tn other v \<and> \<not> gv_deleted v) ?new = []"
      using rows_from_facts(2) [of tn gid "h_next h1" ?vs] that by (auto simp: filter_empty_conv of_dress_def)
    moreover have "filter (\<lambda>v. of_dress tn other v \<and> \<not> gv_deleted v) (update_where ?V ?v rows)
        = filter (\<lambda>v. of_dress tn other v \<and> \<not> gv_deleted v) rows" for rows
      using that by (induction rows) (auto simp: of_dress_def)
    ultimately show ?thesis unfolding shown_rows by (simp add: all)
  qed
  show ?thesis using shown rejects_duplicates [OF dup] folded others by blast
qed

theorem sizes_are_the_request_witness:
  "\<exists>h'. replace_in_session plain_env (\<lambda>x. x) 7 31 [\<lparr>vi_label = [52, 48], vi_quantity = 1, vi_order = 1\<rparr>,
       \<lparr>vi_label = [32, 51, 56], vi_quantity = 0, vi_order = 0\<rparr>] a_shelf = Inr (h', ())
     \<and> map size_of_row (list_variants 7 31 (h_db h')) = [\<lparr>vi_label = [51, 56], vi_quantity = 0, vi_order = 0\<rparr>,
       \<lparr>vi_label = [52, 48], vi_quantity = 1, vi_order = 1\<rparr>]"
proof -
  let ?vs = "[\<lparr>vi_label = [52, 48], vi_quantity = 1, vi_order = 1\<rparr>, \<lparr>vi_label = [32, 51, 56], vi_quantity = 0, vi_order = 0\<rparr>]"
  let ?run = "replace_in_session plain_env (\<lambda>x. x) 7 31 ?vs a_shelf"
  let ?norm = "[\<lparr>vi_label = [52, 48], vi_quantity = 1, vi_order = 1\<rparr>, \<lparr>vi_label = [51, 56], vi_quantity = 0, vi_order = 0\<rparr>]"
  have n: "normalized_variants ?vs = ?norm" by (simp add: normalized_variants_def normalize_size_label_def is_uspace_def usplit.simps)
  have v: "validate_variants ?norm = Inr ()"
    by (simp add: validate_variants_def validate_variant_def MAX_VARIANTS_PER_DRESS_def MAX_SIZE_LABEL_LENGTH_def
        MAX_VARIANT_QUANTITY_def MAX_SORT_ORDER_def ustrip_def is_uspace_def)
  have "\<not> isl ?run" unfolding replace_in_session_def n v Let_def by code_simp
  then obtain h' where r: "?run = Inr (h', ())" by (cases ?run) auto
  have "sort_key vi_order (normalized_variants ?vs)
      = [\<lparr>vi_label = [51, 56], vi_quantity = 0, vi_order = 0\<rparr>, \<lparr>vi_label = [52, 48], vi_quantity = 1, vi_order = 1\<rparr>]"
    unfolding n by code_simp
  with sizes_are_the_request [OF r shelf_ok(2), THEN conjunct1] have "map size_of_row (list_variants 7 31 (h_db h'))
      = [\<lparr>vi_label = [51, 56], vi_quantity = 0, vi_order = 0\<rparr>, \<lparr>vi_label = [52, 48], vi_quantity = 1, vi_order = 1\<rparr>]" by (rule trans)
  with r show ?thesis by (intro exI conjI)
qed

section \<open>The order of the photographs\<close>

fun place :: "uuid list \<Rightarrow> uuid \<Rightarrow> int" where
  "place [] i = 0"
| "place (x # xs) i = (if x = i then 0 else place xs i + 1)"

lemma place_bounds: "0 \<le> place is i"
  by (induction "is") auto

lemma place_inj: "i \<in> set is \<Longrightarrow> j \<in> set is \<Longrightarrow> place is i = place is j \<Longrightarrow> i = j"
proof (induction "is")
  case (Cons x xs)
  then show ?case using place_bounds [of xs i] place_bounds [of xs j] by (auto split: if_splits)
qed simp

lemma place_sorted: "distinct is \<Longrightarrow> sorted (map (place is) is)"
proof (induction "is")
  case (Cons x xs)
  then have m: "map (place (x # xs)) (x # xs) = 0 # map (\<lambda>i. place xs i + 1) xs" by auto
  have "sorted (map (\<lambda>i. place xs i + 1) xs)" using Cons by (simp add: sorted_map)
  then show ?case unfolding m using place_bounds [of xs] by (simp add: add_nonneg_nonneg)
qed simp

lemma filter_map_same: "(\<And>x. P (f x) = P x) \<Longrightarrow> filter P (map f xs) = map f (filter P xs)"
  by (induction xs) auto

definition shown :: "uuid \<Rightarrow> uuid \<Rightarrow> media \<Rightarrow> bool" where
  "shown tn gid r \<longleftrightarrow> media_of tn gid r \<and> dm_deleted_at r = None \<and> dm_ready r"

lemma list_ready_shown: "list_ready tn gid h = sort_key (\<lambda>r. (dm_order r, dm_id r)) (filter (shown tn gid) (h_media h))"
  by (simp add: list_ready_def shown_def [abs_def])

lemma number_media_run:
  "number_media tn gid n is h = Inr (h', z) \<Longrightarrow> distinct is \<Longrightarrow>
   h_media h' = map (\<lambda>r. if shown tn gid r \<and> dm_id r \<in> set is then r\<lparr>dm_order := n + place is (dm_id r)\<rparr> else r) (h_media h)"
proof (induction "is" arbitrary: n h)
  case (Cons i "is")
  then obtain h1 b where one: "set_sort_order tn gid i n h = Inr (h1, b)" and rest: "number_media tn gid (n + 1) is h1 = Inr (h', z)"
    by (auto simp: andthen_eq_Inr)
  have h1: "h_media h1 = update_where (\<lambda>r. shown tn gid r \<and> dm_id r = i) (\<lambda>r. r\<lparr>dm_order := n\<rparr>) (h_media h)"
  proof -
    have "(\<lambda>r. live_media tn gid i r \<and> dm_ready r) = (\<lambda>r. shown tn gid r \<and> dm_id r = i)"
      by (auto simp: live_media_def shown_def)
    then show ?thesis using one by (auto simp: set_sort_order_def change_media_def change_rows_Inr)
  qed
  have "i \<notin> set is" using Cons.prems(2) by simp
  then show ?case
    unfolding Cons.IH [OF rest distinct_tl [OF Cons.prems(2), simplified]] h1 update_where_def map_map
    by (intro map_cong) (auto simp: shown_def media_of_def)
qed simp

text \<open>C. The photographs stand in the order asked for: a reordering that is accepted named each photograph shown
  exactly once, and afterwards they are shown in that order, the first one as the cover; no other
  dress's photographs move.\<close>

theorem reorder_is_the_request:
  assumes "reorder_in_session tn gid is h = Inr (h', z)" "media_ok (h_media h)"
  shows "map dm_id (list_ready tn gid h') = is \<and> map_option (dm_id \<circ> fst) (cover_of tn gid h') = (case is of [] \<Rightarrow> None | i # _ \<Rightarrow> Some i)
    \<and> mset is = mset (map dm_id (list_ready tn gid h))
    \<and> (\<forall>other. other \<noteq> gid \<longrightarrow> list_ready tn other h' = list_ready tn other h)"
proof -
  from assms(1) obtain h1 y where n: "number_media tn gid 0 is h = Inr (h1, y)" and h': "h_media h' = h_media h1"
    and same: "sort is = sort (map dm_id (list_ready tn gid h))"
    by (auto simp: reorder_in_session_def andthen_eq_Inr)
  have ids: "mset is = mset (map dm_id (filter (shown tn gid) (h_media h)))"
    using arg_cong [OF same, of mset] by (simp add: list_ready_shown)
  have "distinct (map dm_id (filter (shown tn gid) (h_media h)))"
    using assms(2) by (simp add: media_ok_def distinct_map_filter)
  then have dist: "distinct is" using mset_eq_imp_distinct_iff [OF ids] by simp
  note run = number_media_run [OF n dist]
  let ?f = "\<lambda>r. if shown tn gid r \<and> dm_id r \<in> set is then r\<lparr>dm_order := 0 + place is (dm_id r)\<rparr> else r"
  have f: "shown t g (?f r) = shown t g r" for t g r by (simp add: shown_def media_of_def)
  have rows: "filter (shown tn g) (h_media h') = map ?f (filter (shown tn g) (h_media h))" for g
    unfolding h' run by (rule filter_map_same) (rule f)
  let ?rows = "filter (shown tn gid) (h_media h')"
  have mset: "mset (map dm_id ?rows) = mset is"
  proof -
    have "map dm_id ?rows = map dm_id (filter (shown tn gid) (h_media h))" unfolding rows by simp
    with ids show ?thesis by simp
  qed
  have order: "dm_order r = place is (dm_id r)" if "r \<in> set ?rows" for r
  proof -
    from that obtain r0 where r0: "r0 \<in> set (filter (shown tn gid) (h_media h))" "r = ?f r0" unfolding rows by auto
    then have "dm_id r0 \<in> set is" using arg_cong [OF ids, of set_mset] by auto
    with r0 show ?thesis by simp
  qed
  have "map dm_id (list_ready tn gid h') = is"
  proof -
    let ?ids = "map dm_id (list_ready tn gid h')"
    have m: "mset ?ids = mset is" using mset by (simp add: list_ready_shown)
    have "sorted (map (\<lambda>r. (dm_order r, dm_id r)) (list_ready tn gid h'))" by (simp add: list_ready_shown)
    then have "sorted (map dm_order (list_ready tn gid h'))"
      unfolding sorted_map by (rule sorted_wrt_mono_rel [rotated]) (auto simp: less_eq_prod_def)
    moreover have "map dm_order (list_ready tn gid h') = map (place is) ?ids"
      using order by (auto simp: list_ready_shown)
    ultimately have "sorted (map (place is) ?ids)" by simp
    moreover have "inj_on (place is) (set is)" by (auto intro: inj_onI place_inj)
    ultimately show ?thesis
      using sort_key_inj_key_eq [of "is" ?ids "place is"] sort_key_inj_key_eq [of "is" "is" "place is"] m place_sorted [OF dist]
      by simp
  qed
  moreover have "map_option (dm_id \<circ> fst) (cover_of tn gid h') = (case is of [] \<Rightarrow> None | i # _ \<Rightarrow> Some i)"
    using calculation by (auto simp: cover_of_def split: list.splits)
  moreover have "list_ready tn other h' = list_ready tn other h" if "other \<noteq> gid" for other
  proof -
    have "map ?f (filter (shown tn other) (h_media h)) = filter (shown tn other) (h_media h)"
      using that by (intro map_idI) (auto simp: shown_def media_of_def)
    then show ?thesis by (simp add: list_ready_shown rows)
  qed
  ultimately show ?thesis using ids by (simp add: list_ready_shown)
qed

theorem reorder_is_the_request_witness:
  "\<exists>h'. reorder_in_session 7 31 [34, 33] a_shelf = Inr (h', ()) \<and> map dm_id (list_ready 7 31 a_shelf) = [33, 34]
     \<and> map dm_id (list_ready 7 31 h') = [34, 33]"
proof -
  let ?run = "reorder_in_session 7 31 [34, 33] a_shelf"
  have "\<not> isl ?run" by code_simp
  then obtain h' where r: "?run = Inr (h', ())" by (cases ?run) auto
  have "map dm_id (list_ready 7 31 a_shelf) = [33, 34]" by code_simp
  with reorder_is_the_request [OF r shelf_ok(3), THEN conjunct1] r show ?thesis by (intro exI conjI)
qed

section \<open>Twelve photographs\<close>

text \<open>An upload is only begun for one of twelve places: after a presign the dress has at most twelve
  photographs that are not deleted, whether shown or pending; a place held by an upload nobody confirmed in
  time is given up first, and what was swept is exactly those uploads.\<close>

theorem presign_keeps_twelve:
  assumes "presign_in_session tn gid i ext ctype nbytes ttl h = Inr (h', key, dropped)"
  shows "length (filter (\<lambda>r. media_of tn gid r \<and> dm_deleted_at r = None) (h_media h')) \<le> 12
    \<and> dropped = map dm_key (filter (is_stale tn gid ttl h) (h_media h))
    \<and> (\<exists>r\<in>set (h_media h'). live_media tn gid i r \<and> \<not> dm_ready r \<and> dm_key r = key \<and> dm_created_at r = h_now h)"
proof -
  let ?stale = "is_stale tn gid ttl h" and ?rm = "\<lambda>r. r\<lparr>dm_deleted_at := Some (h_now h)\<rparr>"
  let ?row = "\<lparr>dm_id = i, dm_tenant = tn, dm_dress = gid, dm_key = (tn, gid, i, ext), dm_type = ctype, dm_bytes = nbytes,
         dm_ready = False, dm_order = 0, dm_created_at = h_now h, dm_deleted_at = None\<rparr>"
  from assms obtain h1 swept h2 z where sw: "sweep_stale_pendings tn gid ttl h = Inr (h1, swept)"
    and few: "\<not> count_active tn gid ttl h1 \<ge> MAX_MEDIA_PER_DRESS"
    and ins: "insert_pending tn gid i (tn, gid, i, ext) ctype nbytes h1 = Inr (h2, z)"
    and out: "h' = log tn (Catalog_action Dress_media_presigned) (Some i) h2" "key = (tn, gid, i, ext)" "dropped = map snd swept"
    by (auto simp: presign_in_session_def andthen_eq_Inr Let_def)
  have h1: "h1 = h\<lparr>h_media := update_where ?stale ?rm (h_media h)\<rparr>"
    and swept: "swept = map (\<lambda>r. (dm_id r, dm_key r)) (filter ?stale (h_media h))"
    using sw by (simp_all add: sweep_stale_pendings_def change_media_def andthen_eq_Inr change_rows_Inr)
  have "h_now h1 = h_now h" by (simp add: h1 h_now_def)
  then have h': "h_media h' = h_media h1 @ [?row]"
    using ins out(1) by (auto simp: insert_pending_def andthen_eq_Inr)
  have dropped: "dropped = map dm_key (filter ?stale (h_media h))" by (simp add: out(3) swept comp_def)
  note key = out(2)
  have none_stale: "\<not> (media_of tn gid r \<and> dm_deleted_at r = None \<and> \<not> dm_ready r \<and> dm_created_at r < stale_before ttl h)"
    if "r \<in> set (h_media h1)" for r
  proof -
    have "r \<in> set (update_where ?stale ?rm (h_media h))" using that by (simp add: h1)
    then obtain r0 where "r = (if ?stale r0 then ?rm r0 else r0)" unfolding set_update_where by blast
    then show ?thesis by (cases "?stale r0") (simp_all add: is_stale_def)
  qed
  have "filter (\<lambda>r. media_of tn gid r \<and> dm_deleted_at r = None) (h_media h1)
      = filter (\<lambda>r. media_of tn gid r \<and> dm_deleted_at r = None \<and> (dm_ready r \<or> dm_created_at r \<ge> stale_before ttl h1)) (h_media h1)"
  proof (rule filter_cong [OF refl])
    fix r assume "r \<in> set (h_media h1)"
    moreover have "stale_before ttl h1 = stale_before ttl h" by (simp add: h1 stale_before_def h_now_def)
    ultimately show "(media_of tn gid r \<and> dm_deleted_at r = None)
      = (media_of tn gid r \<and> dm_deleted_at r = None \<and> (dm_ready r \<or> dm_created_at r \<ge> stale_before ttl h1))"
      using none_stale [of r] by auto
  qed
  then have "length (filter (\<lambda>r. media_of tn gid r \<and> dm_deleted_at r = None) (h_media h1)) = count_active tn gid ttl h1"
    by (simp add: count_active_def)
  with few have "length (filter (\<lambda>r. media_of tn gid r \<and> dm_deleted_at r = None) (h_media h')) \<le> 12"
    by (simp add: h' MAX_MEDIA_PER_DRESS_def)
  moreover have "?row \<in> set (h_media h')" "live_media tn gid i ?row" by (simp_all add: h' live_media_def media_of_def)
  ultimately show ?thesis using dropped key by (intro conjI bexI [of _ ?row]) auto
qed

theorem presign_keeps_twelve_witness:
  "\<exists>h' key dropped. presign_in_session 7 31 36 ''.png'' ''image/png'' 4096 (- 1) a_shelf = Inr (h', key, dropped)
     \<and> dropped = [(7, 31, 35, ''.jpg'')]
     \<and> length (filter (\<lambda>r. media_of 7 31 r \<and> dm_deleted_at r = None) (h_media h')) \<le> 12"
proof -
  let ?run = "presign_in_session 7 31 36 ''.png'' ''image/png'' 4096 (- 1) a_shelf"
  have "\<not> isl ?run" by code_simp
  then obtain h' key dropped where r: "?run = Inr (h', key, dropped)" by (cases ?run) auto
  have "map dm_key (filter (is_stale 7 31 (- 1) a_shelf) (h_media a_shelf)) = [(7, 31, 35, ''.jpg'')]" by code_simp
  with presign_keeps_twelve [OF r] have "dropped = [(7, 31, 35, ''.jpg'')]"
    "length (filter (\<lambda>r. media_of 7 31 r \<and> dm_deleted_at r = None) (h_media h')) \<le> 12" by (simp_all only:)
  with r show ?thesis by (intro exI conjI)
qed

section \<open>Reservations\<close>

definition clash :: "dress_reservation \<Rightarrow> dress_reservation \<Rightarrow> bool" where
  "clash r s \<longleftrightarrow>
     \<not> gr_deleted r \<and> \<not> gr_deleted s \<and> gr_tenant r = gr_tenant s \<and> gr_dress r = gr_dress s
     \<and> gr_starts_on r \<le> gr_ends_on s \<and> gr_starts_on s \<le> gr_ends_on r"

definition no_overlap :: "dress_reservation list \<Rightarrow> bool" where
  "no_overlap rows \<longleftrightarrow> (\<forall>r\<in>set rows. \<forall>s\<in>set rows. r \<noteq> s \<longrightarrow> \<not> clash r s)"

lemma create_reservation_Inr:
  assumes "create_reservation tn gid starts ends cust notes h = Inr (h', r, who)" "no_overlap (reservations_of h)"
  shows "reservations_of h' = reservations_of h @ [r] \<and> reservations_ok (reservations_of h') \<and> no_overlap (reservations_of h')
    \<and> dresses_of h' = dresses_of h \<and> variants_of h' = variants_of h \<and> h_media h' = h_media h
    \<and> gr_starts_on r = starts \<and> gr_ends_on r = ends"
proof -
  from assms(1) have o: "overlapping tn gid starts ends h = []"
    by (auto simp: create_reservation_def andthen_eq_Inr split: list.splits)
  from assms(1) obtain h1 where "insert_reservation tn gid starts ends cust notes h = Inr (h1, r)"
    "h' = log tn (Catalog_action Dress_reservation_created) (Some (gr_id r)) h1"
    by (auto simp: create_reservation_def andthen_eq_Inr)
  then have r: "r = \<lparr>gr_id = h_next h, gr_tenant = tn, gr_dress = gid, gr_starts_on = starts, gr_ends_on = ends,
             gr_customer = cust, gr_notes = notes, gr_deleted = False\<rparr>"
    and rows: "reservations_of h' = reservations_of h @ [r]" "reservations_ok (reservations_of h')"
    "dresses_of h' = dresses_of h" "variants_of h' = variants_of h" "h_media h' = h_media h"
    by (auto simp: insert_reservation_def add_row_Inr)
  have "\<not> (live_reservation tn gid s \<and> gr_starts_on s \<le> ends \<and> gr_ends_on s \<ge> starts)"
    if "s \<in> set (reservations_of h)" for s
    using o that unfolding overlapping_def by (metis (mono_tags, lifting) filter_empty_conv set_empty set_sort)
  then have "\<not> clash r s \<and> \<not> clash s r" if "s \<in> set (reservations_of h)" for s
    using that by (auto simp: r clash_def live_reservation_def)
  with assms(2) have "no_overlap (reservations_of h')" by (auto simp: no_overlap_def rows(1))
  with rows r show ?thesis by simp
qed

lemma drop_reservation_Inr:
  assumes "drop_reservation tn gid i h = Inr (h', b)" "no_overlap (reservations_of h)"
  shows "no_overlap (reservations_of h')"
proof -
  let ?f = "\<lambda>r. r\<lparr>gr_deleted := True\<rparr>" and ?P = "\<lambda>r. live_reservation tn gid r \<and> gr_id r = i"
  have rows: "reservations_of h' = update_where ?P ?f (reservations_of h)"
    using assms(1) by (auto simp: drop_reservation_def change_rows_Inr)
  show ?thesis
    unfolding no_overlap_def rows
  proof (intro ballI impI)
    fix r s assume "r \<in> set (update_where ?P ?f (reservations_of h))" "s \<in> set (update_where ?P ?f (reservations_of h))" "r \<noteq> s"
    then obtain r0 s0 where "r0 \<in> set (reservations_of h)" "s0 \<in> set (reservations_of h)"
      "r = (if ?P r0 then ?f r0 else r0)" "s = (if ?P s0 then ?f s0 else s0)"
      unfolding set_update_where by blast
    with \<open>r \<noteq> s\<close> assms(2) show "\<not> clash r s"
      by (cases "?P r0"; cases "?P s0") (auto simp: no_overlap_def clash_def)
  qed
qed

end
