(* ===== verification/House_Keeping.thy ===== *)
theory House_Keeping
  imports Floor_Laws Sos Safety Catalog_Laws
begin

text \<open>
  What every back-office handler keeps. A house is \<open>good\<close> when its booking database is \<open>healthy\<close>, its own
  tables satisfy their constraints, the tickets in service are the ones running fittings carry
  (\<open>floor_ok\<close>), and a given shop has a live owner. One lemma per statement, then one per handler, by the
  rules of \<open>leaves\<close>. Most tables are \<open>neutral\<close>: nothing but their own constraints is at stake in a write
  to them, which the locale states once.
\<close>

definition catalog_good :: "(utext \<Rightarrow> utext) \<Rightarrow> db \<Rightarrow> bool" where
  "catalog_good cf s \<longleftrightarrow>
     dresses_ok (d_dresses s) \<and> variants_ok cf (d_variants s)
     \<and> reservations_ok (d_reservations s) \<and> no_overlap (d_reservations s)"

lemma catalog_good_same:
  "d_dresses s' = d_dresses s \<Longrightarrow> d_variants s' = d_variants s \<Longrightarrow> d_reservations s' = d_reservations s \<Longrightarrow>
   catalog_good cf s' = catalog_good cf s"
  by (simp add: catalog_good_def)

lemma catalog_good_frame [simp]: "catalog_good cf (s\<lparr>d_next := n\<rparr>) = catalog_good cf s"
  "catalog_good cf (record_audit tn a i s) = catalog_good cf s"
  by (simp_all add: catalog_good_def record_audit_def)

definition good :: "env \<Rightarrow> (utext \<Rightarrow> utext) \<Rightarrow> uuid \<Rightarrow> house \<Rightarrow> bool" where
  "good e cf own h \<longleftrightarrow>
     healthy e (h_db h) \<and> catalog_good cf (h_db h) \<and> house_ok h \<and> floor_ok h \<and> owned own h"

lemma goodD: "good e cf own h \<Longrightarrow> healthy e (h_db h)" "good e cf own h \<Longrightarrow> house_ok h" "good e cf own h \<Longrightarrow> floor_ok h"
  "good e cf own h \<Longrightarrow> owned own h" "good e cf own h \<Longrightarrow> staff_ok (h_staff h)" "good e cf own h \<Longrightarrow> tickets_ok (h_tickets h)"
  "good e cf own h \<Longrightarrow> fittings_ok (h_fittings h)" "good e cf own h \<Longrightarrow> catalog_good cf (h_db h)"
  by (simp_all add: good_def house_ok_def)

lemma healthy_bump [simp]: "healthy e s \<Longrightarrow> healthy e (s\<lparr>d_next := Suc (d_next s)\<rparr>)"
proof (rule healthy_frame)
  assume "healthy e s"
  then show "db_ok (s\<lparr>d_next := Suc (d_next s)\<rparr>)"
    using db_okD [OF healthyD(1)] ids_below_mono [of "d_next s" _ "Suc (d_next s)"]
      subjects_below_mono [of "d_next s" _ "Suc (d_next s)"]
    by (auto simp: db_ok_def)
qed auto

lemma good_bump [simp, keep_rules]: "good e cf own h \<Longrightarrow> good e cf own (bump h)"
  by (simp add: good_def owned_same [of "bump h" h])

lemma good_log [simp]: "good e cf own (log tn a i h) = good e cf own h"
  by (simp add: good_def owned_same [of "log tn a i h" h])

lemma good_log_when [simp]: "good e cf own (log_when c tn a i h) = good e cf own h"
  by (simp add: log_when_def)

lemma good_leave:
  assumes "good e cf own h" "h_db h' = h_db h" "h_staff h' = h_staff h" "h_tickets h' = h_tickets h"
    "h_fittings h' = h_fittings h" "house_ok h'"
  shows "good e cf own h'"
  using assms floor_ok_same [of h' h] owned_same [of h' h own] by (simp add: good_def)

lemma good_db:
  "good e cf own h \<Longrightarrow> healthy e s \<Longrightarrow> catalog_good cf s \<Longrightarrow> good e cf own (h\<lparr>h_db := s\<rparr>)"
  using floor_ok_same [of "h\<lparr>h_db := s\<rparr>" h] owned_same [of "h\<lparr>h_db := s\<rparr>" h own] by (simp add: good_def house_ok_def)

section \<open>Neutral tables\<close>

locale neutral_table =
  fixes get :: "house \<Rightarrow> 'r list"
    and upd :: "('r list \<Rightarrow> 'r list) \<Rightarrow> house \<Rightarrow> house"
    and checks :: "'r list \<Rightarrow> bool"
  assumes apart: "h_db (upd f h) = h_db h" "h_staff (upd f h) = h_staff h" "h_tickets (upd f h) = h_tickets h"
      "h_fittings (upd f h) = h_fittings h"
    and constrained: "house_ok h \<Longrightarrow> checks rows \<Longrightarrow> house_ok (upd (\<lambda>_. rows) h)"
    and put_back: "upd (\<lambda>_. get h) h = h"
begin

lemma good_upd: "good e cf own h \<Longrightarrow> checks rows \<Longrightarrow> good e cf own (upd (\<lambda>_. rows) h)"
  by (rule good_leave) (auto simp: apart dest: goodD intro: constrained)

lemma add_keeps [keep_rules]: "good e cf own h \<Longrightarrow> leaves (good e cf own) (add_row get upd checks mk h)"
  by (rule add_row_leaves) (simp add: good_upd)

lemma change_keeps [keep_rules]: "good e cf own h \<Longrightarrow> leaves (good e cf own) (change_rows get upd checks P f h)"
  by (rule change_rows_leaves) (simp_all add: good_upd put_back)

end

interpretation n_sessions: neutral_table h_sessions h_sessions_update sessions_ok
  by unfold_locales (simp_all add: house_ok_def)
interpretation n_alterations: neutral_table h_alterations h_alterations_update alterations_ok
  by unfold_locales (simp_all add: house_ok_def)
interpretation n_rooms: neutral_table h_rooms h_rooms_update rooms_ok
  by unfold_locales (simp_all add: house_ok_def)
interpretation n_bindings: neutral_table h_bindings h_bindings_update bindings_ok
  by unfold_locales (simp_all add: house_ok_def)
interpretation n_alerts: neutral_table h_alerts h_alerts_update alerts_ok
  by unfold_locales (simp_all add: house_ok_def)
interpretation n_notices: neutral_table h_notices h_notices_update notices_ok
  by unfold_locales (simp_all add: house_ok_def)
interpretation n_templates: neutral_table h_templates h_templates_update templates_ok
  by unfold_locales (simp_all add: house_ok_def)
interpretation n_rosters: neutral_table h_rosters h_rosters_update rosters_ok
  by unfold_locales (simp_all add: house_ok_def)
interpretation n_roster_rows: neutral_table h_roster_rows h_roster_rows_update roster_rows_ok
  by unfold_locales (simp_all add: house_ok_def)
interpretation n_availabilities: neutral_table h_availabilities h_availabilities_update availabilities_ok
  by unfold_locales (simp_all add: house_ok_def)
interpretation n_media: neutral_table h_media h_media_update media_ok
  by unfold_locales (simp_all add: house_ok_def)

section \<open>Staff\<close>

lemma good_staff:
  assumes "good e cf own h" "staff_ok rows" "owned own (h\<lparr>h_staff := rows\<rparr>)"
  shows "good e cf own (h\<lparr>h_staff := rows\<rparr>)"
  using assms floor_ok_same [of "h\<lparr>h_staff := rows\<rparr>" h] by (simp add: good_def house_ok_def)

lemma add_staff_keeps [keep_rules]:
  assumes "good e cf own h"
  shows "leaves (good e cf own) (add_row h_staff h_staff_update staff_ok mk h)"
proof (rule add_row_leaves)
  assume "staff_ok (h_staff h @ [mk (h_next h)])"
  moreover have "owned own (h\<lparr>h_staff := h_staff h @ [mk (h_next h)]\<rparr>)"
    using goodD(4) [OF assms] by (simp add: owned_def list_ex_iff)
  ultimately show "good e cf own (bump (h\<lparr>h_staff := h_staff h @ [mk (h_next h)]\<rparr>))"
    using good_staff [OF assms] by simp
qed

lemma insert_staff_keeps [keep_rules]:
  "good e cf own h \<Longrightarrow> leaves (good e cf own) (insert_staff tn email pw_h name role phone start eligible h)"
  unfolding insert_staff_def by (rule add_staff_keeps)

lemma list_ex_update_where: "list_ex Q (update_where P f rows) = list_ex (\<lambda>r. Q (if P r then f r else r)) rows"
  by (induction rows) auto

text \<open>A change that unseats no owner.\<close>

lemma change_staff_keeps:
  assumes "good e cf own h" "\<And>r. su_tenant (f r) = su_tenant r \<and> su_role (f r) = su_role r \<and> su_deleted (f r) = su_deleted r"
  shows "leaves (good e cf own) (change_staff tn i g f h)"
  unfolding change_staff_def
proof (rule change_rows_leaves)
  have "live_owner own (if P r then f r else r) = live_owner own r" for P r by (simp add: live_owner_def assms(2))
  then have "owned own (h\<lparr>h_staff := update_where P f (h_staff h)\<rparr>)" for P
    using goodD(4) [OF assms(1)] by (simp add: owned_def list_ex_update_where)
  then show "good e cf own (h\<lparr>h_staff := update_where P f (h_staff h)\<rparr>)" if "staff_ok (update_where P f (h_staff h))" for P
    using good_staff [OF assms(1) that] by simp
qed (simp add: assms(1))

lemma change_staff_read_keeps:
  assumes "good e cf own h" "\<And>r. su_tenant (f r) = su_tenant r \<and> su_role (f r) = su_role r \<and> su_deleted (f r) = su_deleted r"
  shows "leaves (good e cf own) (change_staff_read tn i g f h)"
  unfolding change_staff_read_def
  by (rule leaves_then [OF change_staff_keeps [OF assms]]) (auto intro: leaves_Inr)

lemma small_staff_keeps [keep_rules]:
  assumes "good e cf own h"
  shows "leaves (good e cf own) (start_break tn i at h)" "leaves (good e cf own) (end_break tn i h)"
    "leaves (good e cf own) (set_weekly_capacity tn i hrs h)" "leaves (good e cf own) (set_on_shift_override tn i on_day val h)"
    "leaves (good e cf own) (set_pending_photo tn i key ctype pat h)" "leaves (good e cf own) (promote_pending_photo tn i at h)"
    "leaves (good e cf own) (clear_photo tn i h)"
  unfolding start_break_def end_break_def set_weekly_capacity_def set_on_shift_override_def set_pending_photo_def
    promote_pending_photo_def clear_photo_def
  by (auto intro!: change_staff_read_keeps change_staff_keeps leaves_then [OF change_staff_keeps] leaves_Inr assms
      simp: no_photo_def)

text \<open>A change of a member who is not the last owner, or stays one.\<close>

lemma good_write_staff:
  assumes "good e cf own h" "staff_ok (update_where (staff_named tn i) f (h_staff h))"
    and "\<And>r. staff_by_id tn i h = Some r \<Longrightarrow> su_role r = Owner \<Longrightarrow> live_owner tn (f r) \<or> \<not> count_live_owners tn h \<le> 1"
  shows "good e cf own (write_staff tn i f h)"
  using good_staff [OF assms(1,2)] owned_write [OF goodD(5) [OF assms(1)] goodD(4) [OF assms(1)] assms(3)]
  by (simp add: write_staff_def)

lemma revoke_keeps [keep_rules]:
  assumes "good e cf own h"
  shows "leaves (good e cf own) (revoke_for_staff tn sid keep h)" "leaves (good e cf own) (revoke_by_token_hash tn hash h)"
    "leaves (good e cf own) (insert_session tn sid hash until h)"
  unfolding revoke_for_staff_def revoke_by_token_hash_def insert_session_def Let_def
  by (rule n_sessions.change_keeps n_sessions.add_keeps leaves_pure assms)+

lemma write_member_keeps:
  assumes "good e cf own h"
    and "\<And>r. staff_by_id tn sid h = Some r \<Longrightarrow> su_role r = Owner \<Longrightarrow> role \<noteq> None \<Longrightarrow> \<not> count_live_owners tn h \<le> 1"
  shows "leaves (good e cf own) (write_member tn sid name role hash phone start el acting h)"
proof -
  have upd: "leaves (good e cf own) (update_staff tn sid name role hash phone start el h)"
  proof (rule leavesI)
    fix h1 res assume "update_staff tn sid name role hash phone start el h = Inr (h1, res)"
    from update_staff_Inr [OF this goodD(5) [OF assms(1)]]
    have "h1 = h \<or> h1 = write_staff tn sid (patched name role hash phone start el) h" by auto
    moreover have "good e cf own (write_staff tn sid (patched name role hash phone start el) h)"
    proof (rule good_write_staff [OF assms(1) staff_ok_write [OF goodD(5) [OF assms(1)] keeps_patched]])
      fix r assume r: "staff_by_id tn sid h = Some r" "su_role r = Owner"
      then have "su_tenant r = tn" "\<not> su_deleted r" by (auto dest: staff_by_id_SomeD)
      with r assms(2) show "live_owner tn (patched name role hash phone start el r) \<or> \<not> count_live_owners tn h \<le> 1"
        by (cases role) (auto simp: live_owner_def patched_def given_def)
    qed
    ultimately show "good e cf own h1" using assms(1) by auto
  qed
  show ?thesis
    unfolding write_member_def Let_def
    by (rule leaves_then [OF upd]) (auto intro!: keep_rules leaves_then [OF revoke_keeps(1)])
qed

lemma update_member_keeps:
  assumes "good e cf own h"
  shows "leaves (good e cf own) (update_member pw tn sid p acting actor h)"
  unfolding update_member_def
proof (rule leaves_pure, intro leaves_need leaves_let leaves_ensure leaves_if)
  fix stored target
  assume "staff_by_id tn sid h = Some target"
    and "\<not> (changed_to (mp_role p) (su_role target) \<noteq> None \<and> su_role target = Owner \<and> count_live_owners tn h \<le> 1)"
  then show "leaves (good e cf own) (write_member tn sid n (changed_to (mp_role p) (su_role target)) hash ph st el acting h)" for n hash ph st el
    by (intro write_member_keeps [OF assms]) auto
qed (auto intro: leaves_Inr assms)

lemma create_staff_keeps:
  assumes "good e cf own h"
  shows "leaves (good e cf own) (create_staff ev pw tn email name role password phone start el h)"
  unfolding create_staff_def Let_def
  by (intro leaves_pure leaves_ensure leaves_try [OF insert_staff_keeps]) (auto intro!: keep_rules assms)

lemma deactivate_keeps:
  assumes "good e cf own h"
  shows "leaves (good e cf own) (deactivate ev tn sid last_day actor now h)"
  unfolding deactivate_def
proof (intro leaves_need leaves_ensure, rule leaves_pure, rule leaves_then [where I = "good e cf own"])
  fix target leaving
  assume t: "staff_by_id tn sid h = Some target" "\<not> (su_role target = Owner \<and> count_live_owners tn h \<le> 1)"
  let ?f = "\<lambda>r. (no_photo r)\<lparr>su_deleted := True, su_last_day := Some leaving\<rparr>"
  have k: "keeps_staff ?f" by (auto simp: keeps_staff_def no_photo_def staff_row_ok_def photo_type_ok_def)
  have "good e cf own (write_staff tn sid ?f h)"
    by (rule good_write_staff [OF assms staff_ok_write [OF goodD(5) [OF assms] k]]) (use t in auto)
  then show "leaves (good e cf own) (soft_delete_staff tn sid leaving h)"
    unfolding soft_delete_staff_def change_staff_holds [OF goodD(5) [OF assms] k]
    by (auto intro: leaves_Inr simp: t(1))
qed (auto intro: leaves_Inr)

lemma login_keeps:
  assumes "good e cf own h" "login ev pw ttl tn email password now token h = (h', r)"
  shows "good e cf own h'"
  using assms leavesD [OF revoke_keeps(3) [OF assms(1)]]
  by (auto simp: login_def split: option.splits if_splits sum.splits prod.splits)

lemma logout_keeps: "good e cf own h \<Longrightarrow> leaves (good e cf own) (logout ev tn token h)"
  unfolding logout_def by (rule leaves_then [OF revoke_keeps(2)]) (auto intro: leaves_Inr)

lemma delete_photo_keeps: "good e cf own h \<Longrightarrow> leaves (good e cf own) (delete_photo so tn sid h)"
  unfolding delete_photo_def
  by (intro leaves_ensure leaves_need leaves_then [OF small_staff_keeps(7)]) (auto intro!: keep_rules)

lemma confirm_photo_keeps:
  assumes "good e cf own h" "\<And>x. good e cf own x \<Longrightarrow> good e cf own (between x)"
    and "confirm_photo so tn sid now between h = (h', r)"
  shows "good e cf own h'"
proof -
  have reject: "good e cf own h2" if "reject_photo tn sid key h1 = (h2, res)" "good e cf own h1"
    for key h1 h2 and res :: "error + staff_user \<times> photo_key list"
    using that leavesD [OF small_staff_keeps(5) [OF that(2)]]
    by (auto simp: reject_photo_def split: option.splits if_splits sum.splits prod.splits)
  have finish: "good e cf own h2" if "finish_confirm tn sid key now h1 = (h2, res)" "good e cf own h1" for key h1 h2 res
    using that leavesD [OF small_staff_keeps(6) [OF that(2)]]
    by (auto simp: finish_confirm_def split: option.splits if_splits sum.splits prod.splits)
  from assms show ?thesis
    by (auto simp: confirm_photo_def split: option.splits if_splits sum.splits elim: reject finish)
qed

lemma presign_photo_keeps:
  assumes "good e cf own h" "\<And>x. good e cf own x \<Longrightarrow> good e cf own (between x)"
    and "presign_photo cfg so tn sid ctype nbytes photo tick now between (l, h) = ((l', h'), r)"
  shows "good e cf own h'"
proof -
  note pend = leavesD [OF small_staff_keeps(5)]
  have first: "good e cf own h1" if "andthen (validate_staff_photo ctype nbytes) (\<lambda>ext.
              andthen (ensure (Media_error Media_not_configured) (so_configured so)) (\<lambda>_.
              andthen (need (Staff_error Staff_not_found) (staff_by_id tn sid h)) (\<lambda>target.
              let key = (tn, sid, photo, ext) in
              andthen (set_pending_photo tn sid (Some key) (Some ctype) (Some now) h) (\<lambda>(h', _).
              Inr (log tn (Staff_action Staff_photo_presigned) (Some sid) h', key, su_pending target))))) = Inr (h1, out)"
    for h1 out
    using that pend [OF assms(1)] by (auto simp: andthen_eq_Inr Let_def)
  have last: "good e cf own h2" if "set_pending_photo tn sid None None None (between h1) = Inr (h2, b)" "good e cf own h1" for h1 h2 b
    using that pend [OF assms(2)] by blast
  from assms(3) assms(1,2) show ?thesis
    by (auto simp: presign_photo_def Let_def split: if_splits sum.splits prod.splits
        dest!: first [unfolded Let_def] intro: last)
qed

section \<open>The atelier\<close>

lemma change_alteration_keeps [keep_rules]: "good e cf own h \<Longrightarrow> leaves (good e cf own) (change_alteration tn i g f h)"
  unfolding change_alteration_def by (rule leaves_then [OF n_alterations.change_keeps]) (auto intro: leaves_Inr)

lemma alteration_statements_keep [keep_rules]:
  assumes "good e cf own h"
  shows "leaves (good e cf own) (insert_alteration tn cust due effort at assignee dress_id dname dsize notes h)"
    "leaves (good e cf own) (advance_stage tn i target at h)" "leaves (good e cf own) (undo_stage tn i target h)"
    "leaves (good e cf own) (claim_alteration tn i who h)" "leaves (good e cf own) (release_alteration tn i who h)"
    "leaves (good e cf own) (assign_alteration tn i whom h)" "leaves (good e cf own) (delete_alteration_row tn i h)"
    "leaves (good e cf own) (update_alteration tn i due effort dress_id dname dsize notes h)"
  unfolding insert_alteration_def advance_stage_def undo_stage_def claim_alteration_def release_alteration_def
    assign_alteration_def delete_alteration_row_def update_alteration_def
  by (auto intro!: keep_rules leaves_then [OF change_alteration_keeps] assms)

lemma resolve_customer_keeps [keep_rules]:
  assumes "good e cf own h"
  shows "leaves (good e cf own) (resolve_customer tn phone name h)"
proof -
  have "good e cf own (h\<lparr>h_db := s\<rparr>)" if "upsert_customer tn phone name (h_db h) = Inr (s, c)" for s c
  proof (rule good_db [OF assms leavesD [OF upsert_customer_keeps [OF goodD(1) [OF assms]] that]])
    have "d_dresses s = d_dresses (h_db h) \<and> d_variants s = d_variants (h_db h) \<and> d_reservations s = d_reservations (h_db h)"
      using that by (auto simp: upsert_customer_def update_customer_def andthen_eq_Inr Let_def split: option.splits if_splits prod.splits)
    then show "catalog_good cf s" using goodD(8) [OF assms] catalog_good_same by blast
  qed
  then show ?thesis
    by (auto simp: resolve_customer_def Let_def leaves_def assms split: sum.splits option.splits if_splits prod.splits)
qed

lemma create_alteration_keeps:
  assumes "good e cf own h"
  shows "leaves (good e cf own) (create_alteration ev tn q bands now h)"
  unfolding create_alteration_def Let_def
  by (intro leaves_pure [of "validate_customer_name _"] leaves_need leaves_pure [of "validate_ticket_fields _ _ _ _ _ _"]
      leaves_pure [of "resolve_dress_name _ _ _ _"] leaves_pure [of "case_option _ _ _"]
      leaves_then [OF resolve_customer_keeps [OF assms]])
    (auto intro!: leaves_then [OF alteration_statements_keep(1)] leaves_Inr)

lemma alteration_handlers_keep:
  assumes "good e cf own h"
  shows "leaves (good e cf own) (edit_alteration ev tn i q bands actor now h)"
    "leaves (good e cf own) (advance ev tn i target actor now h)" "leaves (good e cf own) (undo ev tn i target actor now h)"
    "leaves (good e cf own) (delete_alteration tn i h)" "leaves (good e cf own) (set_capacity tn sid hrs dflt h)"
proof -
  show "leaves (good e cf own) (edit_alteration ev tn i q bands actor now h)"
    unfolding edit_alteration_def Let_def
    by (intro leaves_pure [of "validate_ticket_fields _ _ _ _ _ _"] leaves_need leaves_ensure
        leaves_pure [of "resolve_dress_name _ _ _ _"] leaves_then [OF alteration_statements_keep(8)] assms)
      (auto intro!: keep_rules assms)
  show "leaves (good e cf own) (advance ev tn i target actor now h)"
    unfolding advance_def Let_def
    by (intro leaves_need leaves_pure [of "authorize_work _ _"] leaves_then [OF alteration_statements_keep(2)] assms)
      (auto intro!: keep_rules assms)
  show "leaves (good e cf own) (undo ev tn i target actor now h)"
    unfolding undo_def Let_def
    by (intro leaves_ensure leaves_need leaves_pure [of "authorize_work _ _"] leaves_then [OF alteration_statements_keep(3)] assms)
      (auto intro!: keep_rules assms)
  show "leaves (good e cf own) (delete_alteration tn i h)"
    unfolding delete_alteration_def
    by (intro leaves_need leaves_then [OF alteration_statements_keep(7)] assms) (auto intro!: keep_rules assms)
  show "leaves (good e cf own) (set_capacity tn sid hrs dflt h)"
    unfolding set_capacity_def
    by (intro leaves_pure [of "require_seamstress _ _ _"] leaves_then [OF small_staff_keeps(3)] assms) (auto intro!: keep_rules assms)
qed

lemma assign_work_keeps:
  assumes "good e cf own h"
  shows "leaves (good e cf own) (assign_work ev tn i target actor now h)"
proof -
  have which: "leaves (good e cf own) (if elevated actor then assign_alteration tn i target h
              else if target = None then release_alteration tn i (sc_id actor) h
              else claim_alteration tn i (sc_id actor) h)"
    by (intro leaves_if alteration_statements_keep assms)
  show ?thesis
    unfolding assign_work_def Let_def
    by (intro leaves_ensure leaves_pure [of "case_option _ _ _"] leaves_need leaves_then [OF which]) (auto intro!: keep_rules assms)
qed

section \<open>The queue\<close>

lemma good_tickets:
  assumes "good e cf own h" "tickets_ok rows" "floor_ok (h\<lparr>h_tickets := rows\<rparr>)"
  shows "good e cf own (h\<lparr>h_tickets := rows\<rparr>)"
  using assms owned_same [of "h\<lparr>h_tickets := rows\<rparr>" h own] by (simp add: good_def house_ok_def)

lemma insert_ticket_keeps [keep_rules]:
  assumes "good e cf own h"
  shows "leaves (good e cf own) (insert_ticket tn day name phone kind opt_in h)"
  unfolding insert_ticket_def
proof (rule add_row_leaves)
  let ?t = "\<lparr>tk_id = h_next h, tk_tenant = tn, tk_day = day, tk_name = name, tk_phone = phone, tk_visit = kind,
             tk_status = Q_waiting, tk_called_at = None, tk_requeued_at = None, tk_skips = 0,
             tk_opt_in_at = opt_in, tk_created_at = h_now h, tk_deleted = False\<rparr>"
  assume ok: "tickets_ok (h_tickets h @ [?t])"
  have "floor_ok (h\<lparr>h_tickets := h_tickets h @ [?t]\<rparr>)"
    by (rule floor_ok_new_ticket [OF goodD(3) [OF assms] ok]) simp_all
  then show "good e cf own (bump (h\<lparr>h_tickets := h_tickets h @ [?t]\<rparr>))"
    using good_tickets [OF assms ok] by simp
qed

lemma change_tickets_keeps:
  assumes "good e cf own h" "qt.keeps_name f"
    and "\<And>r. r \<in> set (h_tickets h) \<Longrightarrow> P r \<Longrightarrow> (tk_status (f r) = Q_in_service) = (tk_status r = Q_in_service)"
  shows "leaves (good e cf own) (change_rows h_tickets h_tickets_update tickets_ok P f h)"
proof (rule change_rows_leaves)
  assume ok: "tickets_ok (update_where P f (h_tickets h))"
  have "floor_ok (h\<lparr>h_tickets := update_where P f (h_tickets h)\<rparr>)"
    by (rule floor_ok_tickets [OF goodD(3) [OF assms(1)], of _ P f]) (use assms(2,3) in simp_all)
  with ok show "good e cf own (h\<lparr>h_tickets := update_where P f (h_tickets h)\<rparr>)" by (rule good_tickets [OF assms(1)])
qed (simp add: assms(1))

lemma ticket_statements_keep [keep_rules]:
  assumes "good e cf own h"
  shows "leaves (good e cf own) (withdraw_opt_in tn phone h)" "leaves (good e cf own) (skip_ticket tn i now seen h)"
    "leaves (good e cf own) (call_ticket tn i now h)" "leaves (good e cf own) (remove_ticket tn i h)"
  unfolding withdraw_opt_in_def skip_ticket_def call_ticket_def remove_ticket_def change_ticket_def Let_def
  by (auto intro!: leaves_then [OF change_tickets_keeps [OF assms]] leaves_Inr
      simp: qt.keeps_name_def waiting_def skipped_def split: if_splits)

lemma check_in_walk_in_keeps:
  assumes "good e cf own h" "check_in_walk_in ev cfg tn name raw kind opt_in tick now (l, h) = (l', Inr (h', v))"
  shows "good e cf own h'"
  using assms leavesD [OF insert_ticket_keeps [OF assms(1)]]
  by (auto simp: check_in_walk_in_def andthen_eq_Inr split: sum.splits if_splits)

section \<open>Shifts\<close>

lemma template_statements_keep [keep_rules]:
  assumes "good e cf own h"
  shows "leaves (good e cf own) (insert_template tn day label starts ends order targets h)"
    "leaves (good e cf own) (replace_template tn i day label starts ends order targets h)"
    "leaves (good e cf own) (soft_delete_template tn i h)"
    "leaves (good e cf own) (soft_delete_future tn template week h)"
    "leaves (good e cf own) (soft_delete_pairs tn staff week templates h)"
    "leaves (good e cf own) (set_state tn staff template week state who h)"
  unfolding insert_template_def replace_template_def soft_delete_template_def soft_delete_future_def
    soft_delete_pairs_def set_state_def
  by (auto intro!: leaves_then [OF n_templates.change_keeps] leaves_then [OF n_availabilities.change_keeps]
      leaves_then [OF n_availabilities.add_keeps] keep_rules assms)

lemma template_handlers_keep:
  assumes "good e cf own h"
  shows "leaves (good e cf own) (create_template tn b h)" "leaves (good e cf own) (update_template ev tn i b now h)"
    "leaves (good e cf own) (delete_template ev tn i now h)"
proof -
  show "leaves (good e cf own) (create_template tn b h)"
    unfolding create_template_def
    by (intro leaves_pure [of "validate_template _ _ _ _"] leaves_pure [of "validate_coverage_targets _"]
        leaves_pure [of "assert_template_capacity _ _"] leaves_then [OF template_statements_keep(1)] assms)
      (auto intro!: keep_rules assms)
  show "leaves (good e cf own) (update_template ev tn i b now h)"
    unfolding update_template_def Let_def
    by (intro leaves_pure [of "validate_template _ _ _ _"] leaves_pure [of "validate_coverage_targets _"]
        leaves_need leaves_then [OF template_statements_keep(2)] assms)
      (auto intro!: leaves_need leaves_then [OF template_statements_keep(4)] leaves_Inr assms)
  show "leaves (good e cf own) (delete_template ev tn i now h)"
    unfolding delete_template_def Let_def
    by (intro leaves_then [OF template_statements_keep(3)] assms)
      (auto intro!: leaves_ensure leaves_then [OF template_statements_keep(4)] leaves_Inr assms)
qed

lemma seed_rows_keeps: "good e cf own h \<Longrightarrow> leaves (good e cf own) (seed_rows tn n rules h)"
proof (induction rules arbitrary: n h)
  case (Cons rule rules)
  show ?case
    unfolding seed_rows.simps
    by (rule leaves_then [OF template_statements_keep(1) [OF Cons.prems]])
      (auto intro!: leaves_then [OF Cons.IH] leaves_Inr)
qed (auto intro: leaves_Inr)

lemma seed_templates_keeps: "good e cf own h \<Longrightarrow> leaves (good e cf own) (seed_templates tn h)"
  unfolding seed_templates_def Let_def
  by (intro leaves_ensure leaves_then [OF seed_rows_keeps]) (auto intro: leaves_Inr)

lemma write_states_keeps: "good e cf own h \<Longrightarrow> leaves (good e cf own) (write_states tn staff week requested who ts h)"
proof (induction ts arbitrary: h)
  case (Cons t ts)
  show ?case
    unfolding write_states.simps
    by (intro leaves_need leaves_then [OF template_statements_keep(6) [OF Cons.prems]]) (auto intro!: Cons.IH)
qed (auto intro: leaves_Inr)

lemma apply_submission_keeps:
  assumes "good e cf own h"
  shows "leaves (good e cf own) (apply_submission tn actor target week entries h)"
proof -
  have "leaves (good e cf own)
      (if changed = [] \<and> cleared = [] then Inr (h, ())
       else andthen (write_states tn target week requested who changed h) (\<lambda>(h1, _).
            andthen (soft_delete_pairs tn target week cleared h1) (\<lambda>(h2, _).
            Inr (log tn (Shift_action Availability_submitted) (Some target) h2, ()))))" for changed cleared requested who
    by (intro leaves_if leaves_then [OF write_states_keeps [OF assms]])
      (auto intro!: leaves_then [OF template_statements_keep(5)] leaves_Inr assms)
  then show ?thesis
    unfolding apply_submission_def Let_def
    by (intro leaves_pure [of "case_option _ _ _"] leaves_ensure) (auto split: prod.split)
qed

lemma submit_availability_keeps:
  assumes "good e cf own h" "\<And>x. good e cf own x \<Longrightarrow> good e cf own (between x)"
  shows "leaves (good e cf own) (submit_availability ev parse settings tn actor staff week entries now between h)"
  unfolding submit_availability_def Let_def
  using apply_submission_keeps [OF assms(1)] apply_submission_keeps [OF assms(2) [OF assms(1)]]
  by (intro leaves_pure leaves_ensure) (auto split: sum.split simp: leaves_def)

lemma roster_statements_keep [keep_rules]:
  assumes "good e cf own h"
  shows "leaves (good e cf own) (roster_for_week tn week h)" "leaves (good e cf own) (stamp_published tn i who h)"
    "leaves (good e cf own) (insert_roster_row tn roster template staff who manager override h)"
    "leaves (good e cf own) (set_manager_flag tn i manager h)" "leaves (good e cf own) (delete_roster_row tn i h)"
  unfolding roster_for_week_def create_roster_def stamp_published_def insert_roster_row_def set_manager_flag_def
    delete_roster_row_def change_roster_row_def Let_def
  by (auto intro!: leaves_blame leaves_then [OF leaves_blame] keep_rules assms split: option.split)

lemma apply_assignment_keeps:
  assumes "good e cf own h"
  shows "leaves (good e cf own) (apply_assignment tn actor q h)"
  unfolding apply_assignment_def Let_def
  by (intro leaves_need leaves_ensure leaves_then [OF roster_statements_keep(1)] assms)
    (auto intro!: leaves_then [OF roster_statements_keep(3)] leaves_then [OF roster_statements_keep(4)]
      leaves_pure [of "override_stamp _ _"] leaves_Inr assms split: option.split)

lemma assign_shift_keeps:
  assumes "good e cf own h" "\<And>x. good e cf own x \<Longrightarrow> good e cf own (between x)"
  shows "leaves (good e cf own) (assign_shift ev tn actor q now between h)"
  unfolding assign_shift_def
  using apply_assignment_keeps [OF assms(1)] apply_assignment_keeps [OF assms(2) [OF assms(1)]]
  by (intro leaves_pure) (auto split: sum.split simp: leaves_def)

lemma roster_handlers_keep:
  assumes "good e cf own h"
  shows "leaves (good e cf own) (unassign_shift tn actor i h)" "leaves (good e cf own) (publish_roster ev tn actor week now h)"
proof -
  show "leaves (good e cf own) (unassign_shift tn actor i h)"
    unfolding unassign_shift_def Let_def
    by (intro leaves_pure [of "assert_elevated _"] leaves_then [OF roster_statements_keep(5)] assms) (auto intro!: keep_rules assms)
  note ready = leavesD [OF roster_statements_keep(1) [OF assms]]
  show "leaves (good e cf own) (publish_roster ev tn actor week now h)"
    by (rule leavesI)
      (auto simp: publish_roster_def andthen_eq_Inr split: if_splits option.splits
        intro: ready leavesD [OF roster_statements_keep(2) [OF ready]])
qed

section \<open>The floor\<close>

lemma insert_notice_keeps [keep_rules]: "good e cf own h \<Longrightarrow> leaves (good e cf own) (insert_notice tn staff actor kind entity h)"
  unfolding insert_notice_def by (rule n_notices.add_keeps)

lemma notify_when_keeps [keep_rules]: "good e cf own h \<Longrightarrow> leaves (good e cf own) (notify_when c tn staff actor kind entity h)"
  unfolding notify_when_def by (auto intro!: leaves_then [OF insert_notice_keeps] leaves_Inr)

lemma read_room_keeps [keep_rules]: "good e cf own h \<Longrightarrow> leaves (good e cf own) (read_room tn i h)"
  unfolding read_room_def by (auto intro!: leaves_pure leaves_Inr)

lemma dispatch_read_keeps [keep_rules]: "good e cf own h \<Longrightarrow> leaves (good e cf own) (dispatch_read ev tn i now h)"
  unfolding dispatch_read_def by (auto intro!: leaves_pure leaves_Inr)

lemma good_fittings:
  assumes "good e cf own h" "fittings_ok rows" "floor_ok (h\<lparr>h_fittings := rows\<rparr>)"
  shows "good e cf own (h\<lparr>h_fittings := rows\<rparr>)"
  using assms owned_same [of "h\<lparr>h_fittings := rows\<rparr>" h own] by (simp add: good_def house_ok_def)

lemma claim_row_keeps [keep_rules]:
  assumes "good e cf own h"
  shows "leaves (good e cf own) (claim_row tn room staff booking None h)"
  unfolding claim_row_def Let_def
proof (rule leaves_blame, rule add_row_leaves)
  let ?f = "new_fitting tn room staff booking None (h_now h) (h_next h)"
  assume ok: "fittings_ok (h_fittings h @ [?f])"
  have "floor_ok (h\<lparr>h_fittings := h_fittings h @ [?f]\<rparr>)"
    by (rule floor_ok_claim [OF goodD(3) [OF assms], where f = ?f]) (simp_all add: new_fitting_def)
  with ok show "good e cf own (bump (h\<lparr>h_fittings := h_fittings h @ [?f]\<rparr>))"
    using good_fittings [OF assms] by simp
qed

lemma handover_row_keeps [keep_rules]:
  assumes "good e cf own h"
  shows "leaves (good e cf own) (handover_row tn i staff h)"
proof -
  let ?f = "\<lambda>r. r\<lparr>f_staff := staff\<rparr>"
  have "leaves (good e cf own) (change_rows h_fittings h_fittings_update fittings_ok P ?f h)" for P
  proof (rule change_rows_leaves)
    assume ok: "fittings_ok (update_where P ?f (h_fittings h))"
    have "floor_ok (h\<lparr>h_fittings := update_where P ?f (h_fittings h)\<rparr>)"
      by (rule floor_ok_fittings [OF goodD(3) [OF assms], of _ P ?f]) (simp_all add: running_def)
    with ok show "good e cf own (h\<lparr>h_fittings := update_where P ?f (h_fittings h)\<rparr>)" by (rule good_fittings [OF assms])
  qed (simp add: assms)
  then have "leaves (good e cf own) (change_fitting tn i ?f h)" unfolding change_fitting_def Let_def by (rule leaves_blame)
  then show ?thesis unfolding handover_row_def by (rule leaves_then) (auto intro: leaves_Inr)
qed

text \<open>The two statements of a dispatch together keep what neither keeps alone.\<close>

lemma good_seat:
  assumes "good e cf own h" "claim_by_id tn i h = Inr (h1, Some t)"
    and "claim_row tn room staff None (Some (tk_id t)) h1 = Inr (h2, f)"
  shows "good e cf own h2"
proof -
  note ok = goodD(6) [OF assms(1)]
  obtain r where r: "ticket_by_id tn i h = Some r" "waiting r"
    and h1: "h1 = write_ticket tn i (\<lambda>r. r\<lparr>tk_status := Q_in_service\<rparr>) h" and t: "t = r\<lparr>tk_status := Q_in_service\<rparr>"
    using assms(2) by (auto simp: claim_by_id_def change_ticket_run [OF ok] split: option.splits if_splits)
  have i: "tk_id t = i" using r(1) t by (auto simp: ticket_by_id_row dest: qt.row_SomeD)
  let ?f = "new_fitting tn room staff None (Some i) (h_now h1) (h_next h1)"
  from assms(3) have f: "fittings_ok (h_fittings h1 @ [?f])" "h2 = bump (h1\<lparr>h_fittings := h_fittings h1 @ [?f]\<rparr>)"
    by (auto simp: claim_row_def Let_def add_row_Inr i)
  have "floor_ok (h1\<lparr>h_fittings := h_fittings h1 @ [?f]\<rparr>)"
    by (rule floor_ok_seat [OF goodD(3) [OF assms(1)] ok r, of _ ?f])
      (simp_all add: h1 new_fitting_def running_def)
  moreover have "tickets_ok (h_tickets h1)" unfolding h1 by (simp add: tickets_ok_write [OF ok])
  moreover have "healthy e (h_db h1) \<and> catalog_good cf (h_db h1) \<and> owned own h1" using goodD(1,4,8) [OF assms(1)] owned_same [of h1 h own] by (simp add: h1)
  ultimately have "good e cf own (h1\<lparr>h_fittings := h_fittings h1 @ [?f]\<rparr>)"
    using f(1) goodD(2) [OF assms(1)] owned_same [of "h1\<lparr>h_fittings := h_fittings h1 @ [?f]\<rparr>" h1 own]
    by (simp add: good_def house_ok_def h1 write_ticket_def)
  then show ?thesis by (simp add: f(2))
qed

lemma seat_ticket_keeps:
  assumes "good e cf own h" "\<And>h1 t. pick h = Inr (h1, t) \<Longrightarrow> \<exists>i. claim_by_id tn i h = Inr (h1, Some t)"
  shows "leaves (good e cf own) (seat_ticket ev tn room target actor now pick h)"
proof (rule leavesI)
  fix h' v assume "seat_ticket ev tn room target actor now pick h = Inr (h', v)"
  then obtain h1 t h2 f h4 where p: "pick h = Inr (h1, t)" "claim_row tn room target None (Some (tk_id t)) h1 = Inr (h2, f)"
    and told: "notify_when (target \<noteq> sc_id actor) tn target (sc_id actor) Dispatch_assigned (f_id f)
        (log tn (Floor_action Ticket_dispatched) (Some (tk_id t)) h2) = Inr (h4, ())" "dispatch_read ev tn room now h4 = Inr (h', v)"
    by (auto simp: seat_ticket_def andthen_eq_Inr Let_def)
  obtain i where "claim_by_id tn i h = Inr (h1, Some t)" using assms(2) [OF p(1)] by blast
  from good_seat [OF assms(1) this p(2)] have "good e cf own (log tn (Floor_action Ticket_dispatched) (Some (tk_id t)) h2)" by simp
  from leavesD [OF notify_when_keeps [OF this] told(1)] show "good e cf own h'"
    by (rule leavesD [OF dispatch_read_keeps told(2)])
qed

lemma explained_keeps: "leaves I r \<Longrightarrow> leaves I (explained tn room target later r)"
  by (cases r) (auto simp: explained_def leaves_def split: if_splits)

lemma dispatches_keep:
  assumes "good e cf own h"
  shows "leaves (good e cf own) (take_next ev tn room staff actor now between h)"
    "leaves (good e cf own) (assign_ticket ev tn room i staff actor now between h)"
proof -
  show "leaves (good e cf own) (take_next ev tn room staff actor now between h)"
    unfolding take_next_def Let_def
    by (intro leaves_pure explained_keeps seat_ticket_keeps [OF assms])
      (auto simp: andthen_eq_Inr claim_next_def split: list.splits)
  show "leaves (good e cf own) (assign_ticket ev tn room i staff actor now between h)"
    unfolding assign_ticket_def Let_def
    by (intro leaves_pure explained_keeps seat_ticket_keeps [OF assms])
      (auto simp: andthen_eq_Inr or_refused_def refused_def split: option.splits)
qed

lemma release_room_keeps:
  assumes "good e cf own h"
  shows "leaves (good e cf own) (release_room tn i actor at h)"
proof (rule leavesI)
  fix h' v assume run: "release_room tn i actor at h = Inr (h', v)"
  then obtain f where f: "fitting_by_id tn i h = Some f" by (auto simp: release_room_def andthen_eq_Inr)
  note ok = goodD(6,7) [OF assms]
  note h' = release_room_run [OF ok(2,1) goodD(3) [OF assms] f run, THEN conjunct2, THEN conjunct2]
  show "good e cf own h'"
  proof (cases "running f")
    case True
    let ?h1 = "write_fitting tn i (\<lambda>r. r\<lparr>f_released_at := Some at\<rparr>) h"
    let ?h2 = "case f_ticket f of None \<Rightarrow> ?h1 | Some k \<Rightarrow> write_ticket tn k (\<lambda>r. r\<lparr>tk_status := Q_done\<rparr>) ?h1"
    have "floor_ok ?h2"
      by (rule floor_ok_release [OF goodD(3) [OF assms] ok(2) f True, where at = at]) (simp_all split: option.split)
    moreover have "healthy e (h_db ?h2)" "catalog_good cf (h_db ?h2)" "owned own ?h2"
      using goodD(1,4,8) [OF assms] owned_same [of ?h2 h own] by (simp_all split: option.splits)
    moreover have "house_ok ?h2"
      using goodD(2) [OF assms] fittings_ok_release [OF ok(2)] tickets_ok_write [OF ok(1)]
      by (simp add: house_ok_def write_fitting_def write_ticket_def split: option.split)
    ultimately show ?thesis using True by (simp add: h' good_def [of e cf own ?h2])
  qed (simp add: h' assms)
qed

lemma break_handlers_keep:
  assumes "good e cf own h"
  shows "leaves (good e cf own) (floor_start_break ev tn staff actor at h)"
    "leaves (good e cf own) (floor_end_break ev tn staff actor at h)"
    "leaves (good e cf own) (set_on_shift ev tn staff val actor at h)"
    "leaves (good e cf own) (clear_on_shift ev tn staff actor at h)"
  unfolding floor_start_break_def floor_end_break_def set_on_shift_def clear_on_shift_def Let_def
  by (rule leaves_pure, rule leaves_then, rule small_staff_keeps, rule assms, auto intro!: leaves_need leaves_Inr)+

lemma resolve_claim_conflict_keeps: "good e cf own h \<Longrightarrow> leaves (good e cf own) (resolve_claim_conflict tn room target err h)"
  unfolding resolve_claim_conflict_def by (intro keep_rules)

lemma claim_room_keeps:
  assumes "good e cf own h"
  shows "leaves (good e cf own) (claim_room ev tn room staff booking actor now h)"
proof -
  have "leaves (good e cf own) (case claim_row tn room target booking None h of
        Inl err \<Rightarrow> if is_integrity err then resolve_claim_conflict tn room target err h else Inl err
      | Inr (h1, f) \<Rightarrow> read_room tn room (log tn (Floor_action Room_claimed) (Some room) h1))" for target
    by (intro leaves_try [where I = "good e cf own"] claim_row_keeps assms) (auto intro!: keep_rules resolve_claim_conflict_keeps assms)
  then show ?thesis unfolding claim_room_def Let_def by (intro leaves_pure)
qed

lemma queue_handlers_keep:
  assumes "good e cf own h"
  shows "leaves (good e cf own) (floor_call ev tn i now h)" "leaves (good e cf own) (floor_skip ev tn i seen now h)"
    "leaves (good e cf own) (floor_remove ev tn i now h)"
proof -
  show "leaves (good e cf own) (floor_call ev tn i now h)"
    unfolding floor_call_def Let_def
    by (rule leaves_then [OF ticket_statements_keep(3) [OF assms]])
      (auto intro!: leaves_Inr leaves_pure split: option.split)
  have taken: "leaves (good e cf own) (andthen m (or_refused tn i))" if "leaves (good e cf own) m" for m
    by (rule leaves_then [OF that]) (auto simp: or_refused_def refused_def andthen_eq_Inr intro!: leaves_pure keep_rules)
  show "leaves (good e cf own) (floor_skip ev tn i seen now h)"
    unfolding floor_skip_def Let_def
    by (rule leaves_then [OF taken [OF ticket_statements_keep(2) [OF assms]]]) (auto intro: leaves_Inr)
  show "leaves (good e cf own) (floor_remove ev tn i now h)"
    unfolding floor_remove_def Let_def
    by (rule leaves_then [OF taken [OF ticket_statements_keep(4) [OF assms]]]) (auto intro: leaves_Inr)
qed

lemma handover_room_keeps:
  assumes "good e cf own h"
  shows "leaves (good e cf own) (handover_room tn i staff actor h)"
  unfolding handover_room_def Let_def
  by (intro leaves_try [where I = "good e cf own"] handover_row_keeps assms)
    (auto intro!: leaves_ensure leaves_then [OF notify_when_keeps] keep_rules)

lemma dress_handlers_keep:
  assumes "good e cf own h"
  shows "leaves (good e cf own) (add_dress tn i gid size_label h)" "leaves (good e cf own) (remove_dress tn i bid actor h)"
proof -
  have "leaves (good e cf own) (add_binding tn i gid name dsize h)" for name dsize
    unfolding add_binding_def by (auto intro!: leaves_then [OF n_bindings.add_keeps] leaves_Inr assms split: option.split)
  then show "leaves (good e cf own) (add_dress tn i gid size_label h)"
    unfolding add_dress_def by (intro leaves_need leaves_then [where I = "good e cf own"]) (auto intro!: keep_rules)
  have "leaves (good e cf own) (remove_binding tn i bid (sc_id actor) h)"
    unfolding remove_binding_def by (rule n_bindings.change_keeps [OF assms])
  then show "leaves (good e cf own) (remove_dress tn i bid actor h)"
    unfolding remove_dress_def by (intro leaves_need leaves_then [where I = "good e cf own"]) (auto intro!: keep_rules)
qed

lemma room_handlers_keep:
  assumes "good e cf own h"
  shows "leaves (good e cf own) (create_room tn label order h)" "leaves (good e cf own) (update_room tn i lbl ord act h)"
    "leaves (good e cf own) (delete_room tn i h)"
proof -
  have change: "leaves (good e cf own) (change_room tn i f h)" for f
    unfolding change_room_def by (rule n_rooms.change_keeps [OF assms])
  have insert: "leaves (good e cf own) (insert_room tn l order act h)" for l act
    unfolding insert_room_def by (rule n_rooms.add_keeps [OF assms])
  show "leaves (good e cf own) (create_room tn label order h)"
    unfolding create_room_def by (intro leaves_pure [of "normalize_room_label _"] leaves_then [OF insert]) (auto intro!: keep_rules)
  have "leaves (good e cf own) (update_room_row tn i n ord act h)" for n
    unfolding update_room_row_def by (intro leaves_option leaves_then [OF change]) (auto intro!: leaves_Inr assms)
  then show "leaves (good e cf own) (update_room tn i lbl ord act h)"
    unfolding update_room_def by (intro leaves_pure [of "case_option _ _ _"] leaves_then [where I = "good e cf own"]) (auto intro!: keep_rules)
  have "leaves (good e cf own) (soft_delete_room tn i h)" unfolding soft_delete_room_def by (rule change)
  then show "leaves (good e cf own) (delete_room tn i h)"
    unfolding delete_room_def by (intro leaves_need leaves_ensure leaves_then [where I = "good e cf own"]) (auto intro!: keep_rules)
qed

lemma mark_read_keeps:
  assumes "good e cf own h"
  shows "leaves (good e cf own) (notifications_mark_read tn ids actor at h)"
proof -
  have "leaves (good e cf own) (if ids = [] then Inr (h, False)
              else change_rows h_notices h_notices_update notices_ok
                     (\<lambda>r. notice_of tn actor r \<and> sn_id r \<in> set ids \<and> sn_read_at r = None)
                     (\<lambda>r. r\<lparr>sn_read_at := Some at\<rparr>) h)"
    by (intro keep_rules assms)
  then show ?thesis
    unfolding notifications_mark_read_def mark_read_def by (rule leaves_then) (auto intro: leaves_Inr)
qed

section \<open>Calls for help\<close>

lemma alert_statements_keep [keep_rules]:
  assumes "good e cf own h"
  shows "leaves (good e cf own) (insert_alert tn who target fitting words h)"
    "leaves (good e cf own) (change_alert tn i allowed f h)"
  unfolding insert_alert_def change_alert_def
  by (auto intro!: leaves_then [OF n_alerts.change_keeps] keep_rules assms)

lemma sos_view_of_keeps [keep_rules]: "good e cf own h \<Longrightarrow> leaves (good e cf own) (sos_view_of tn i actor at h)"
  unfolding sos_view_of_def by (intro keep_rules)

lemma raise_sos_keeps:
  assumes "good e cf own h"
  shows "leaves (good e cf own) (raise_sos tn requested fitting raw_text actor at h)"
proof (rule leavesI)
  fix h' v assume "raise_sos tn requested fitting raw_text actor at h = Inr (h', v)"
  then obtain fit words h1 r where "insert_alert tn (sc_id actor) (reachable_target tn requested at h) fit words h = Inr (h1, r)"
    and told: "(case reachable_target tn requested at h of
        None \<Rightarrow> Inr (log tn (Floor_action Sos_was_raised) (Some (sa_id r)) h1, ())
      | Some t \<Rightarrow> notify_when True tn t (sc_id actor) Sos_targeted (sa_id r)
          (log tn (Floor_action Sos_was_raised) (Some (sa_id r)) h1)) = Inr (h', ())"
    by (clarsimp simp: raise_sos_def andthen_eq_Inr Let_def)
  from leavesD [OF alert_statements_keep(1) [OF assms] this(1)]
  have "good e cf own (log tn (Floor_action Sos_was_raised) (Some (sa_id r)) h1)" by simp
  then show "good e cf own h'"
    using told by (auto split: option.splits intro: leavesD [OF notify_when_keeps, rotated])
qed

lemma sos_handlers_keep:
  assumes "good e cf own h"
  shows "leaves (good e cf own) (accept_sos tn i actor at h)" "leaves (good e cf own) (resolve_sos tn i actor at h)"
    "leaves (good e cf own) (cancel_sos tn i actor at h)"
proof -
  note change = leaves_then [OF alert_statements_keep(2) [OF assms]]
  show "leaves (good e cf own) (accept_sos tn i actor at h)"
    unfolding accept_sos_def accept_alert_def Let_def
    by (intro leaves_pure [of "found_alert _ _ _ _"] leaves_if sos_view_of_keeps assms change) (auto intro!: keep_rules)
  show "leaves (good e cf own) (resolve_sos tn i actor at h)"
    unfolding resolve_sos_def resolve_alert_def close_alert_def Let_def
    by (intro leaves_pure [of "found_alert _ _ _ _"] change) (auto intro!: keep_rules)
  show "leaves (good e cf own) (cancel_sos tn i actor at h)"
    unfolding cancel_sos_def cancel_alert_def close_alert_def Let_def
    by (intro leaves_pure [of "found_alert _ _ _ _"] change) (auto intro!: keep_rules)
qed

end
