(* ===== verification/Catalog_Keeping.thy ===== *)
theory Catalog_Keeping
  imports House_Keeping
begin

text \<open>
  What every catalogue handler keeps: the house stays \<open>good\<close>, in particular the constraints of the
  catalogue tables hold and no two live reservations of a dress share a day. One lemma per statement of
  the repositories, then one per handler.
\<close>

section \<open>The statements\<close>

lemma good_catalog:
  assumes "good e cf own h" "dresses_ok gs" "variants_ok cf vs" "reservations_ok rs" "no_overlap rs"
  shows "good e cf own (h\<lparr>h_db := (h_db h)\<lparr>d_dresses := gs, d_variants := vs, d_reservations := rs\<rparr>\<rparr>)"
proof (rule good_db [OF assms(1)])
  show "healthy e ((h_db h)\<lparr>d_dresses := gs, d_variants := vs, d_reservations := rs\<rparr>)"
    by (rule healthy_frame [OF goodD(1) [OF assms(1)]])
      (use healthyD(1) [OF goodD(1) [OF assms(1)]] in \<open>simp_all add: db_ok_def\<close>)
qed (simp add: catalog_good_def assms)

lemma shelfD: "good e cf own h \<Longrightarrow> dresses_ok (dresses_of h)" "good e cf own h \<Longrightarrow> variants_ok cf (variants_of h)"
  "good e cf own h \<Longrightarrow> reservations_ok (reservations_of h)" "good e cf own h \<Longrightarrow> no_overlap (reservations_of h)"
  by (auto simp: dresses_of_def variants_of_def reservations_of_def catalog_good_def dest: goodD(8))

lemma good_put:
  assumes "good e cf own h"
  shows "dresses_ok gs \<Longrightarrow> good e cf own (put_dresses (\<lambda>_. gs) h)"
    "variants_ok cf vs \<Longrightarrow> good e cf own (put_variants (\<lambda>_. vs) h)"
    "reservations_ok rs \<Longrightarrow> no_overlap rs \<Longrightarrow> good e cf own (put_reservations (\<lambda>_. rs) h)"
  using good_catalog [OF assms, of gs "variants_of h" "reservations_of h"]
    good_catalog [OF assms, of "dresses_of h" vs "reservations_of h"]
    good_catalog [OF assms, of "dresses_of h" "variants_of h" rs] shelfD [OF assms]
  by (simp_all add: put_dresses_def put_variants_def put_reservations_def dresses_of_def variants_of_def reservations_of_def)

lemma put_back_catalog [simp]: "put_dresses (\<lambda>_. dresses_of h) h = h" "put_variants (\<lambda>_. variants_of h) h = h"
  "put_reservations (\<lambda>_. reservations_of h) h = h"
  by (simp_all add: put_dresses_def put_variants_def put_reservations_def dresses_of_def variants_of_def reservations_of_def)

lemma catalog_statements_keep [keep_rules]:
  assumes "good e cf own h"
  shows "leaves (good e cf own) (insert_dress tn d h)" "leaves (good e cf own) (update_fields tn i d h)"
    "leaves (good e cf own) (soft_delete_dress tn i h)" "leaves (good e cf own) (restore_dress_row tn i h)"
    "leaves (good e cf own) (insert_variant cf tn gid v h)" "leaves (good e cf own) (drop_variants cf tn gid h)"
    "leaves (good e cf own) (restore_variants cf tn gid at h)"
  unfolding insert_dress_def update_fields_def soft_delete_dress_def restore_dress_row_def insert_variant_def
    drop_variants_def restore_variants_def
  by (auto intro!: add_row_leaves change_rows_leaves good_bump good_put assms simp: shelfD [OF assms])

lemma media_statements_keep [keep_rules]:
  assumes "good e cf own h"
  shows "leaves (good e cf own) (insert_pending tn gid i key ctype nbytes h)"
    "leaves (good e cf own) (sweep_stale_pendings tn gid ttl h)" "leaves (good e cf own) (promote_to_ready tn gid i order h)"
    "leaves (good e cf own) (set_sort_order tn gid i order h)" "leaves (good e cf own) (drop_one_media tn gid i h)"
    "leaves (good e cf own) (drop_media tn gid h)" "leaves (good e cf own) (restore_media tn gid at h)"
proof -
  show "leaves (good e cf own) (insert_pending tn gid i key ctype nbytes h)"
    unfolding insert_pending_def by (auto simp: leaves_def andthen_eq_Inr n_media.good_upd [OF assms])
qed (auto simp: sweep_stale_pendings_def promote_to_ready_def set_sort_order_def drop_one_media_def drop_media_def
    restore_media_def change_media_def intro!: leaves_then [OF n_media.change_keeps] n_media.change_keeps leaves_Inr assms)

section \<open>The handlers\<close>

lemma with_detail_keeps:
  "good e cf own h \<Longrightarrow> leaves (good e cf own) r \<Longrightarrow> with_detail ga tn gid h r = (h', v) \<Longrightarrow> good e cf own h'"
  by (auto simp: with_detail_def leaves_def split: sum.splits)

lemma insert_variants_keeps: "good e cf own h \<Longrightarrow> leaves (good e cf own) (insert_variants cf tn gid vs h)"
proof (induction vs arbitrary: h)
  case (Cons v vs)
  show ?case
    unfolding insert_variants.simps
    by (rule leaves_then [OF catalog_statements_keep(5) [OF Cons.prems]]) (auto intro: Cons.IH)
qed (auto intro: leaves_Inr)

lemma number_media_keeps: "good e cf own h \<Longrightarrow> leaves (good e cf own) (number_media tn gid n is h)"
proof (induction "is" arbitrary: n h)
  case (Cons i "is")
  show ?case
    unfolding number_media.simps
    by (rule leaves_then [OF media_statements_keep(4) [OF Cons.prems]]) (auto intro: Cons.IH)
qed (auto intro: leaves_Inr)

lemma dress_writes_keep:
  assumes "good e cf own h"
  shows "leaves (good e cf own) (create_dress ga tn d h)" "leaves (good e cf own) (archive_dress cf tn gid h)"
    "leaves (good e cf own) (restore_in_session cf tn gid h)"
    "leaves (good e cf own) (replace_in_session ev cf tn gid inputs h)"
proof -
  show "leaves (good e cf own) (create_dress ga tn d h)"
    unfolding create_dress_def
    by (intro leaves_pure [of "validate_dress _"] leaves_then [OF catalog_statements_keep(1)] assms) (auto intro!: keep_rules assms)
  show "leaves (good e cf own) (archive_dress cf tn gid h)"
    unfolding archive_dress_def
    by (intro leaves_pure [of "live_dress _ _ _"] leaves_then [OF media_statements_keep(6)] assms)
      (auto intro!: leaves_then [OF catalog_statements_keep(6)] leaves_then [OF catalog_statements_keep(3)] leaves_Inr assms)
  show "leaves (good e cf own) (restore_in_session cf tn gid h)"
    unfolding restore_in_session_def
    by (intro leaves_need leaves_then [OF catalog_statements_keep(7)] assms)
      (auto intro!: leaves_then [OF media_statements_keep(7)] leaves_then [OF catalog_statements_keep(4)] leaves_Inr assms)
  have "leaves (good e cf own) (andthen (live_dress tn gid h) (\<lambda>_.
            andthen (drop_variants cf tn gid h) (\<lambda>(h1, _).
            andthen (insert_variants cf tn gid vs h1) (\<lambda>(h2, _).
            Inr (log tn (Catalog_action Dress_variants_replaced) (Some gid) h2, ())))))" for vs
    by (intro leaves_pure [of "live_dress _ _ _"] leaves_then [OF catalog_statements_keep(6)] assms)
      (auto intro!: leaves_then [OF insert_variants_keeps] leaves_Inr assms)
  then show "leaves (good e cf own) (replace_in_session ev cf tn gid inputs h)"
    unfolding replace_in_session_def Let_def
    by (intro leaves_pure) (auto simp: leaves_def split: sum.splits)
qed

lemma update_dress_keeps:
  assumes "good e cf own h" "update_dress ga tn gid d h = (h', v)"
  shows "good e cf own h'"
proof (rule with_detail_keeps [OF assms(1) _ assms(2) [unfolded update_dress_def]])
  show "leaves (good e cf own) (andthen (validate_dress d) (\<lambda>_.
        andthen (update_fields tn gid d h) (\<lambda>(h', hit).
        andthen (ensure (Catalog_error Catalog_not_found) hit) (\<lambda>_.
        Inr (log tn (Catalog_action Dress_updated) (Some gid) h', ())))))"
    by (intro leaves_pure [of "validate_dress _"] leaves_then [OF catalog_statements_keep(2)] assms(1)) (auto intro!: keep_rules assms(1))
qed

lemma media_sessions_keep:
  assumes "good e cf own h"
  shows "leaves (good e cf own) (presign_in_session tn gid i ext ctype nbytes ttl h)"
    "leaves (good e cf own) (confirm_in_session tn gid i h)" "leaves (good e cf own) (delete_in_session tn gid i h)"
    "leaves (good e cf own) (reorder_in_session tn gid order h)"
proof -
  show "leaves (good e cf own) (presign_in_session tn gid i ext ctype nbytes ttl h)"
    unfolding presign_in_session_def Let_def
    by (intro leaves_pure [of "live_dress _ _ _"] leaves_then [OF media_statements_keep(2)] assms)
      (auto intro!: leaves_ensure leaves_then [OF media_statements_keep(1)] leaves_Inr assms)
  show "leaves (good e cf own) (confirm_in_session tn gid i h)"
    unfolding confirm_in_session_def
    by (intro leaves_need leaves_if leaves_then [OF media_statements_keep(3)] assms) (auto intro!: leaves_Inr assms)
  show "leaves (good e cf own) (delete_in_session tn gid i h)"
    unfolding delete_in_session_def
    by (intro leaves_pure [of "live_dress _ _ _"] leaves_need leaves_then [OF media_statements_keep(5)] assms)
      (auto intro!: leaves_Inr assms)
  show "leaves (good e cf own) (reorder_in_session tn gid order h)"
    unfolding reorder_in_session_def
    by (intro leaves_pure [of "live_dress _ _ _"] leaves_ensure leaves_then [OF number_media_keeps] assms)
      (auto intro!: leaves_Inr assms)
qed

lemma presign_media_keeps:
  assumes "good e cf own h" "\<And>x. good e cf own x \<Longrightarrow> good e cf own (between x)"
    and "presign_media cfg ga tn gid ctype nbytes i tick between (l, h) = ((l', h'), v)"
  shows "good e cf own h'"
proof -
  note begun = leavesD [OF media_sessions_keep(1) [OF assms(1)]]
  note undone = leavesD [OF media_statements_keep(5) [OF assms(2) [OF begun]]]
  from assms(1,3) show ?thesis
    by (auto simp: presign_media_def Let_def split: if_splits sum.splits prod.splits intro: begun assms(2) undone)
qed

lemma confirm_media_keeps:
  assumes "good e cf own h" "\<And>x. good e cf own x \<Longrightarrow> good e cf own (between x)"
    and "confirm_media ga tn gid i between h = (h', v)"
  shows "good e cf own h'"
proof -
  note after = assms(2) [OF assms(1)]
  from assms(1,3) after show ?thesis
    by (auto simp: confirm_media_def split: if_splits sum.splits option.splits
        intro: with_detail_keeps [OF after media_sessions_keep(2) [OF after]])
qed

lemma delete_media_keeps: "good e cf own h \<Longrightarrow> delete_media ga tn gid i h = (h', v) \<Longrightarrow> good e cf own h'"
  by (auto simp: delete_media_def split: if_splits intro: with_detail_keeps [OF _ media_sessions_keep(3)])

lemma reservation_handlers_keep:
  assumes "good e cf own h"
  shows "leaves (good e cf own) (create_reservation tn gid starts ends cust notes h)"
    "leaves (good e cf own) (delete_reservation tn gid i h)"
proof -
  show "leaves (good e cf own) (create_reservation tn gid starts ends cust notes h)"
  proof (rule leavesI)
    fix h' and v :: "dress_reservation \<times> utext option"
    assume "create_reservation tn gid starts ends cust notes h = Inr (h', v)"
    then have run: "create_reservation tn gid starts ends cust notes h = Inr (h', fst v, snd v)" by simp
    then obtain r where r: "insert_reservation tn gid starts ends cust notes h = Inr (r, fst v)"
      "h' = log tn (Catalog_action Dress_reservation_created) (Some (gr_id (fst v))) r"
      by (auto simp: create_reservation_def andthen_eq_Inr)
    from create_reservation_Inr [OF run shelfD(4) [OF assms]] r
    have rows: "reservations_of r = reservations_of h @ [fst v]" "reservations_ok (reservations_of r)" "no_overlap (reservations_of r)"
      by auto
    then have "r = bump (put_reservations (\<lambda>_. reservations_of h @ [fst v]) h)"
      using r(1) by (auto simp: insert_reservation_def add_row_Inr)
    moreover have "good e cf own (put_reservations (\<lambda>_. reservations_of h @ [fst v]) h)"
      using good_put(3) [OF assms] rows by simp
    ultimately show "good e cf own h'" by (simp add: r(2))
  qed
  have "leaves (good e cf own) (drop_reservation tn gid i h)"
  proof (rule leavesI)
    fix h' b assume run: "drop_reservation tn gid i h = Inr (h', b)"
    from drop_reservation_Inr [OF run shelfD(4) [OF assms]]
    have no: "no_overlap (reservations_of h')" .
    from run have "h' = h \<or> (\<exists>rs. h' = put_reservations (\<lambda>_. rs) h \<and> reservations_ok rs)"
      by (auto simp: drop_reservation_def change_rows_Inr update_where_none)
    with no show "good e cf own h'" using assms good_put(3) [OF assms] by auto
  qed
  then show "leaves (good e cf own) (delete_reservation tn gid i h)"
    unfolding delete_reservation_def
    by (intro leaves_pure [of "live_dress _ _ _"] leaves_then [where I = "good e cf own"]) (auto intro!: leaves_ensure leaves_Inr)
qed

end
