(* ===== verification/Backoffice.thy ===== *)
theory Backoffice
  imports Catalog_Keeping Protocol
begin

text \<open>
  The back office running. \<open>house_step\<close> has one rule per handler of the back office, its arguments free,
  and one for any step of the booking side on the shared database. A handler that opens a second
  transaction takes what others commit before it as a function; \<open>house_later\<close>, the runs of the same
  relation, says which functions those are. \<open>good\<close> is an invariant of the relation, so what it says holds
  in every state the two programs reach together.
\<close>

definition furnished :: "(utext \<Rightarrow> utext) \<Rightarrow> uuid \<Rightarrow> house \<Rightarrow> bool" where
  "furnished cf own h \<longleftrightarrow>
     opened (h_db h) \<and> catalog_good cf (h_db h) \<and> house_ok h \<and> h_tickets h = [] \<and> h_fittings h = [] \<and> list_ex (live_owner own) (h_staff h)"

inductive house_step :: "env \<Rightarrow> (utext \<Rightarrow> utext) \<Rightarrow> house \<Rightarrow> house \<Rightarrow> bool"
  and house_later :: "env \<Rightarrow> (utext \<Rightarrow> utext) \<Rightarrow> house \<Rightarrow> house \<Rightarrow> bool" for e cf where
  same: "house_later e cf h h"
| later: "house_later e cf h h1 \<Longrightarrow> house_step e cf h1 h2 \<Longrightarrow> house_later e cf h h2"
| shop: "shop_step e (h_db h) s \<Longrightarrow> d_dresses s = d_dresses (h_db h) \<Longrightarrow> d_variants s = d_variants (h_db h) \<Longrightarrow>
    d_reservations s = d_reservations (h_db h) \<Longrightarrow> house_step e cf h (h\<lparr>h_db := s\<rparr>)"
| signed_in: "login e pw ttl tn email password now token h = (h', r) \<Longrightarrow> house_step e cf h h'"
| signed_out: "logout e tn token h = Inr (h', r1) \<Longrightarrow> house_step e cf h h'"
| hired: "create_staff e pw tn email name role password phone start el h = Inr (h', r2) \<Longrightarrow> house_step e cf h h'"
| member_updated: "update_member pw tn sid p acting actor h = Inr (h', r3) \<Longrightarrow> house_step e cf h h'"
| offboarded: "deactivate e tn sid last_day actor now h = Inr (h', r4) \<Longrightarrow> house_step e cf h h'"
| photo_presigned: "(\<And>x. house_later e cf x (between x)) \<Longrightarrow>
    presign_photo cfg so tn sid ctype nbytes photo tick now between (l, h) = ((l', h'), r5) \<Longrightarrow> house_step e cf h h'"
| photo_confirmed: "(\<And>x. house_later e cf x (between x)) \<Longrightarrow>
    confirm_photo so tn sid now between h = (h', r6) \<Longrightarrow> house_step e cf h h'"
| photo_deleted: "delete_photo so tn sid h = Inr (h', r7) \<Longrightarrow> house_step e cf h h'"
| alteration_created: "create_alteration e tn q bands now h = Inr (h', r8) \<Longrightarrow> house_step e cf h h'"
| alteration_edited: "edit_alteration e tn i q bands actor now h = Inr (h', r9) \<Longrightarrow> house_step e cf h h'"
| stage_advanced: "advance e tn i target actor now h = Inr (h', r10) \<Longrightarrow> house_step e cf h h'"
| stage_undone: "undo e tn i target actor now h = Inr (h', r11) \<Longrightarrow> house_step e cf h h'"
| work_assigned: "assign_work e tn i whom actor now h = Inr (h', r12) \<Longrightarrow> house_step e cf h h'"
| alteration_deleted: "delete_alteration tn i h = Inr (h', r13) \<Longrightarrow> house_step e cf h h'"
| capacity_set: "set_capacity tn sid hrs dflt h = Inr (h', r14) \<Longrightarrow> house_step e cf h h'"
| queued: "check_in_walk_in e qcfg tn name raw kind opt_in tick now (ql, h) = (ql', Inr (h', r15)) \<Longrightarrow> house_step e cf h h'"
| opt_in_withdrawn: "withdraw_opt_in tn phone h = Inr (h', r16) \<Longrightarrow> house_step e cf h h'"
| template_created: "create_template tn tb h = Inr (h', r17) \<Longrightarrow> house_step e cf h h'"
| template_updated: "update_template e tn i tb now h = Inr (h', r18) \<Longrightarrow> house_step e cf h h'"
| template_deleted: "delete_template e tn i now h = Inr (h', r19) \<Longrightarrow> house_step e cf h h'"
| templates_seeded: "seed_templates tn h = Inr (h', r20) \<Longrightarrow> house_step e cf h h'"
| availability_submitted: "(\<And>x. house_later e cf x (between x)) \<Longrightarrow>
    submit_availability e parse settings tn actor who week entries now between h = Inr (h', r21) \<Longrightarrow> house_step e cf h h'"
| shift_assigned: "(\<And>x. house_later e cf x (between x)) \<Longrightarrow>
    assign_shift e tn actor aq now between h = Inr (h', r22) \<Longrightarrow> house_step e cf h h'"
| shift_unassigned: "unassign_shift tn actor i h = Inr (h', r23) \<Longrightarrow> house_step e cf h h'"
| roster_published: "publish_roster e tn actor week now h = Inr (h', r24) \<Longrightarrow> house_step e cf h h'"
| break_started: "floor_start_break e tn staff actor at h = Inr (h', r25) \<Longrightarrow> house_step e cf h h'"
| break_ended: "floor_end_break e tn staff actor at h = Inr (h', r26) \<Longrightarrow> house_step e cf h h'"
| on_shift_set: "set_on_shift e tn staff val actor at h = Inr (h', r27) \<Longrightarrow> house_step e cf h h'"
| on_shift_cleared: "clear_on_shift e tn staff actor at h = Inr (h', r28) \<Longrightarrow> house_step e cf h h'"
| room_claimed: "claim_room e tn room holder booking actor now h = Inr (h', r29) \<Longrightarrow> house_step e cf h h'"
| next_taken: "take_next e tn room holder actor now between h = Inr (h', r30) \<Longrightarrow> house_step e cf h h'"
| ticket_assigned: "assign_ticket e tn room i holder actor now between h = Inr (h', r31) \<Longrightarrow> house_step e cf h h'"
| ticket_called: "floor_call e tn i now h = Inr (h', r32) \<Longrightarrow> house_step e cf h h'"
| ticket_skipped: "floor_skip e tn i seen now h = Inr (h', r33) \<Longrightarrow> house_step e cf h h'"
| ticket_removed: "floor_remove e tn i now h = Inr (h', r34) \<Longrightarrow> house_step e cf h h'"
| room_released: "release_room tn i actor at h = Inr (h', r35) \<Longrightarrow> house_step e cf h h'"
| room_handed_over: "handover_room tn i staff actor h = Inr (h', r36) \<Longrightarrow> house_step e cf h h'"
| dress_added: "add_dress tn i gid size_label h = Inr (h', r37) \<Longrightarrow> house_step e cf h h'"
| dress_removed: "remove_dress tn i gid actor h = Inr (h', r38) \<Longrightarrow> house_step e cf h h'"
| room_created: "create_room tn label order h = Inr (h', r39) \<Longrightarrow> house_step e cf h h'"
| room_updated: "update_room tn i lbl ord act h = Inr (h', r40) \<Longrightarrow> house_step e cf h h'"
| room_deleted: "delete_room tn i h = Inr (h', r41) \<Longrightarrow> house_step e cf h h'"
| notices_read: "notifications_mark_read tn ids who_reads at h = Inr (h', r42) \<Longrightarrow> house_step e cf h h'"
| sos_raised: "raise_sos tn requested fitting raw_text actor at h = Inr (h', r43) \<Longrightarrow> house_step e cf h h'"
| sos_accepted: "accept_sos tn i actor at h = Inr (h', r44) \<Longrightarrow> house_step e cf h h'"
| sos_resolved: "resolve_sos tn i actor at h = Inr (h', r45) \<Longrightarrow> house_step e cf h h'"
| sos_cancelled: "cancel_sos tn i actor at h = Inr (h', r46) \<Longrightarrow> house_step e cf h h'"
| dress_created: "create_dress ga tn d h = Inr (h', r47) \<Longrightarrow> house_step e cf h h'"
| dress_updated: "update_dress ga tn gid d h = (h', r48) \<Longrightarrow> house_step e cf h h'"
| dress_archived: "archive_dress cf tn gid h = Inr (h', r49) \<Longrightarrow> house_step e cf h h'"
| dress_restored: "restore_dress ga cf tn gid h = (h', r50) \<Longrightarrow> house_step e cf h h'"
| sizes_replaced: "replace_variants ga e cf tn gid sizes h = (h', r51) \<Longrightarrow> house_step e cf h h'"
| upload_presigned: "(\<And>x. house_later e cf x (between x)) \<Longrightarrow>
    presign_media pcfg ga tn gid ctype nbytes i tick between (pl, h) = ((pl', h'), r52) \<Longrightarrow> house_step e cf h h'"
| upload_confirmed: "(\<And>x. house_later e cf x (between x)) \<Longrightarrow>
    confirm_media ga tn gid i between h = (h', r53) \<Longrightarrow> house_step e cf h h'"
| upload_deleted: "delete_media ga tn gid i h = (h', r54) \<Longrightarrow> house_step e cf h h'"
| uploads_reordered: "reorder_media ga tn gid order h = (h', r55) \<Longrightarrow> house_step e cf h h'"
| dress_reserved: "create_reservation tn gid starts ends cust notes h = Inr (h', r56) \<Longrightarrow> house_step e cf h h'"
| dress_given_back: "delete_reservation tn gid i h = Inr (h', r57) \<Longrightarrow> house_step e cf h h'"

section \<open>The invariant\<close>

lemmas handler_keeps =
  login_keeps check_in_walk_in_keeps update_dress_keeps delete_media_keeps leavesD [OF dress_writes_keep(1)]
  leavesD [OF dress_writes_keep(2)] leavesD [OF reservation_handlers_keep(1)]
  leavesD [OF reservation_handlers_keep(2)] leavesD [OF logout_keeps] leavesD [OF create_staff_keeps]
  leavesD [OF update_member_keeps] leavesD [OF deactivate_keeps] leavesD [OF delete_photo_keeps]
  leavesD [OF create_alteration_keeps] leavesD [OF alteration_handlers_keep(1)]
  leavesD [OF alteration_handlers_keep(2)] leavesD [OF alteration_handlers_keep(3)]
  leavesD [OF alteration_handlers_keep(4)] leavesD [OF alteration_handlers_keep(5)]
  leavesD [OF assign_work_keeps] leavesD [OF ticket_statements_keep(1)]
  leavesD [OF template_handlers_keep(1)] leavesD [OF template_handlers_keep(2)]
  leavesD [OF template_handlers_keep(3)] leavesD [OF seed_templates_keeps]
  leavesD [OF roster_handlers_keep(1)] leavesD [OF roster_handlers_keep(2)]
  leavesD [OF break_handlers_keep(1)] leavesD [OF break_handlers_keep(2)]
  leavesD [OF break_handlers_keep(3)] leavesD [OF break_handlers_keep(4)] leavesD [OF claim_room_keeps]
  leavesD [OF dispatches_keep(1)] leavesD [OF dispatches_keep(2)] leavesD [OF queue_handlers_keep(1)]
  leavesD [OF queue_handlers_keep(2)] leavesD [OF queue_handlers_keep(3)] leavesD [OF release_room_keeps]
  leavesD [OF handover_room_keeps] leavesD [OF dress_handlers_keep(1)] leavesD [OF dress_handlers_keep(2)]
  leavesD [OF room_handlers_keep(1)] leavesD [OF room_handlers_keep(2)] leavesD [OF room_handlers_keep(3)]
  leavesD [OF mark_read_keeps] leavesD [OF raise_sos_keeps] leavesD [OF sos_handlers_keep(1)]
  leavesD [OF sos_handlers_keep(2)] leavesD [OF sos_handlers_keep(3)]

lemma house_step_keeps:
  "house_step e cf h h' \<Longrightarrow> good e cf own h \<Longrightarrow> good e cf own h'"
  "house_later e cf h h' \<Longrightarrow> good e cf own h \<Longrightarrow> good e cf own h'"
proof (induction rule: house_step_house_later.inducts)
  case (shop h s)
  then have "catalog_good cf s" using goodD(8) [OF shop.prems] catalog_good_same by blast
  with shop show ?case using good_db [OF shop.prems shop_step_keeps [OF goodD(1) [OF shop.prems]]] by blast
next
  case later
  then show ?case by blast
next
  case (photo_presigned between)
  then show ?case by (blast intro: presign_photo_keeps)
next
  case (photo_confirmed between)
  then show ?case by (blast intro: confirm_photo_keeps)
next
  case (dress_restored ga tn gid h h' r50)
  then show ?case unfolding restore_dress_def by (blast intro: with_detail_keeps [OF _ dress_writes_keep(3)])
next
  case (sizes_replaced ga tn gid sizes h h' r51)
  then show ?case unfolding replace_variants_def by (blast intro: with_detail_keeps [OF _ dress_writes_keep(4)])
next
  case (uploads_reordered ga tn gid order h h' r55)
  then show ?case unfolding reorder_media_def by (blast intro: with_detail_keeps [OF _ media_sessions_keep(4)])
next
  case (upload_presigned between)
  then show ?case by (blast intro: presign_media_keeps)
next
  case (upload_confirmed between)
  then show ?case by (blast intro: confirm_media_keeps)
next
  case (availability_submitted between)
  then show ?case by (blast intro: leavesD [OF submit_availability_keeps, rotated -1])
next
  case (shift_assigned between)
  then show ?case by (blast intro: leavesD [OF assign_shift_keeps, rotated -1])
qed (erule (1) handler_keeps | assumption)+

lemma furnished_good: "furnished cf own h \<Longrightarrow> good e cf own h"
  by (auto simp: furnished_def good_def opened_def healthy_def links_agree_def offers_agree_def one_offer_per_queue_def
      floor_ok_def owned_def)

interpretation bo: invariant_system "furnished cf own" "house_step e cf" "good e cf own" for cf own e
  by unfold_locales (auto intro: furnished_good house_step_keeps(1))

section \<open>Properties\<close>

text \<open>A shop with one room; a walk-in checks in and the owner takes her.\<close>

definition first_morning :: house where
  "first_morning = salon\<lparr>h_fittings := []\<rparr>"

definition quiet_limits :: limiter_cfg where
  "quiet_limits = \<lparr>max_attempts = 9, window_length = 60\<rparr>"

definition her_number :: utext where
  "her_number = [43, 57, 55, 50, 53, 50, 49, 50, 51, 52, 53, 54, 55]"

lemma first_morning_furnished: "furnished (\<lambda>x. x) 7 first_morning"
  by code_simp

lemma walk_in_parses: "andthen (validate_checkin [65] ''bride'') (\<lambda>v.
    andthen (need Phone_invalid (normalize_israeli_mobile her_number)) (\<lambda>phone. Inr (v, phone))) = Inr (Bride, her_number)"
proof -
  have "normalize_israeli_mobile her_number = Some her_number"
    by (rule normalized_mobile_fixed) (simp add: her_number_def normalized_mobile_def is_digit_def)
  moreover have "validate_checkin [65] ''bride'' = Inr Bride" by code_simp
  ultimately show ?thesis by simp
qed

lemma a_visit_begins:
  obtains h t where "reach (furnished (\<lambda>x. x) 7) (house_step plain_env (\<lambda>x. x)) h" "t \<in> set (h_tickets h)" "\<not> tk_deleted t"
    "tk_status t = Q_in_service" "length (h_fittings h) = 1"
proof -
  let ?queued = "insert_ticket 7 (today_jerusalem (e_zone plain_env) 0) [65] her_number Bride None first_morning"
  define h1 v where "h1 = fst (projr ?queued)" and "v = snd (projr ?queued)"
  have q: "?queued = Inr (h1, v)" unfolding h1_def v_def by code_simp
  have free: "\<not> is_blocked quiet_limits new_limiter 0 (7::uuid)" by code_simp
  have "check_in_walk_in plain_env quiet_limits 7 [65] her_number ''bride'' False 0 0 (new_limiter, first_morning)
      = (record_failure quiet_limits new_limiter 0 0 7, Inr (h1, ticket_view_of v (position_of 7 v h1)))"
    unfolding check_in_walk_in_def walk_in_parses fst_conv snd_conv using free by (simp add: q)
  then have s1: "house_step plain_env (\<lambda>x. x) first_morning h1" by (rule house_step_house_later.queued)
  let ?taken = "take_next plain_env 7 61 None boss 0 (\<lambda>h. h) h1"
  define h2 where "h2 = fst (projr ?taken)"
  have "?taken = Inr (h2, snd (projr ?taken))" "list_ex (\<lambda>t. \<not> tk_deleted t \<and> tk_status t = Q_in_service) (h_tickets h2)"
    "length (h_fittings h2) = 1"
    unfolding h2_def h1_def by code_simp+
  moreover from this(1) have "house_step plain_env (\<lambda>x. x) h1 h2" by (rule house_step_house_later.next_taken)
  then have "reach (furnished (\<lambda>x. x) 7) (house_step plain_env (\<lambda>x. x)) h2" by (blast intro: reach.intros first_morning_furnished s1)
  ultimately show thesis using that by (auto simp: list_ex_iff)
qed

text \<open>C1. The queue and the rooms agree: in every reachable state a live ticket is in service exactly while a
  running fitting carries it, and then only one does; no running fitting carries a ticket that is gone.\<close>

theorem queue_and_rooms_agree:
  assumes "reach (furnished cf own) (house_step e cf) h" "t \<in> set (h_tickets h)" "\<not> tk_deleted t"
  shows "length (filter (\<lambda>f. running f \<and> f_tenant f = tk_tenant t \<and> f_ticket f = Some (tk_id t)) (h_fittings h))
      = (if tk_status t = Q_in_service then 1 else 0)"
  using goodD(3) [OF bo.reach_inv [OF assms(1)]] assms(2,3) by (simp add: floor_ok_def carries_def [abs_def])

theorem queue_and_rooms_agree_witness:
  "\<exists>h t. reach (furnished (\<lambda>x. x) 7) (house_step plain_env (\<lambda>x. x)) h \<and> t \<in> set (h_tickets h)
     \<and> length (filter (\<lambda>f. running f \<and> f_tenant f = tk_tenant t \<and> f_ticket f = Some (tk_id t)) (h_fittings h)) = 1"
proof -
  obtain h t where h: "reach (furnished (\<lambda>x. x) 7) (house_step plain_env (\<lambda>x. x)) h" "t \<in> set (h_tickets h)" "\<not> tk_deleted t"
    "tk_status t = Q_in_service" "length (h_fittings h) = 1" by (rule a_visit_begins)
  from queue_and_rooms_agree [OF h(1-3)] h show ?thesis by auto
qed

text \<open>C9. Nobody locks a shop out: a shop that opened with a live owner has one in every reachable state, whatever
  is demoted or offboarded, by whom and in what order.\<close>

theorem shop_keeps_an_owner:
  assumes "reach (furnished cf own) (house_step e cf) h"
  shows "\<exists>r\<in>set (h_staff h). su_tenant r = own \<and> su_role r = Owner \<and> \<not> su_deleted r"
  using goodD(4) [OF bo.reach_inv [OF assms]] by (auto simp: owned_def live_owner_def list_ex_iff)

theorem shop_keeps_an_owner_witness:
  "\<exists>r\<in>set (h_staff (fst (projr (deactivate plain_env 7 2 None boss 0 first_morning)))).
     su_tenant r = 7 \<and> su_role r = Owner \<and> \<not> su_deleted r"
proof -
  let ?run = "deactivate plain_env 7 2 None boss 0 first_morning"
  have "?run = Inr (fst (projr ?run), snd (projr ?run))" by code_simp
  then have "house_step plain_env (\<lambda>x. x) first_morning (fst (projr ?run))" by (rule house_step_house_later.offboarded)
  then have "reach (furnished (\<lambda>x. x) 7) (house_step plain_env (\<lambda>x. x)) (fst (projr ?run))"
    by (blast intro: reach.intros first_morning_furnished)
  then show ?thesis by (rule shop_keeps_an_owner)
qed

text \<open>C10. A dress is never promised twice for one day: in every reachable state two live reservations of a dress are
  apart, one ending before the other starts, whoever asked for them and in what order.\<close>

theorem reservations_stay_apart:
  assumes "reach (furnished cf own) (house_step e cf) h"
    and "r \<in> set (reservations_of h)" "s \<in> set (reservations_of h)" "r \<noteq> s" "\<not> gr_deleted r" "\<not> gr_deleted s"
    and "gr_tenant r = gr_tenant s" "gr_dress r = gr_dress s"
  shows "gr_ends_on r < gr_starts_on s \<or> gr_ends_on s < gr_starts_on r"
  using shelfD(4) [OF bo.reach_inv [OF assms(1)]] assms(2-8) by (fastforce simp: no_overlap_def clash_def)

definition stocked :: house where
  "stocked = first_morning\<lparr>h_db := (h_db first_morning)\<lparr>d_dresses := [a_gown]\<rparr>\<rparr>"

lemma stocked_furnished: "furnished (\<lambda>x. x) 7 stocked"
  by code_simp

theorem reservations_stay_apart_witness:
  "\<exists>h r s. reach (furnished (\<lambda>x. x) 7) (house_step plain_env (\<lambda>x. x)) h \<and> r \<in> set (reservations_of h) \<and> s \<in> set (reservations_of h)
     \<and> gr_dress r = gr_dress s \<and> gr_starts_on r = 10 \<and> gr_starts_on s = 15 \<and> gr_ends_on r < gr_starts_on s"
proof -
  let ?first = "create_reservation 7 31 10 14 None None stocked"
  let ?second = "create_reservation 7 31 15 20 None None (fst (projr ?first))"
  define h2 h3 where "h2 = fst (projr ?first)" and "h3 = fst (projr ?second)"
  have "\<not> isl ?first" "\<not> isl ?second" by code_simp+
  then have "?first = Inr (h2, snd (projr ?first))" "?second = Inr (h3, snd (projr ?second))"
    by (simp_all add: h2_def h3_def)
  then have s2: "house_step plain_env (\<lambda>x. x) stocked h2" and s3: "house_step plain_env (\<lambda>x. x) h2 h3"
    unfolding h2_def [symmetric] by (blast intro: house_step_house_later.dress_reserved)+
  have h: "reach (furnished (\<lambda>x. x) 7) (house_step plain_env (\<lambda>x. x)) h3"
    by (blast intro: reach.intros stocked_furnished s2 s3)
  have "map (\<lambda>r. (gr_dress r, gr_starts_on r, gr_ends_on r, gr_deleted r, gr_tenant r)) (reservations_of h3)
      = [(31, 10, 14, False, 7), (31, 15, 20, False, 7)]"
    unfolding h3_def by code_simp
  then obtain r s where rows: "reservations_of h3 = [r, s]" "gr_dress r = 31" "gr_starts_on r = 10" "gr_ends_on r = 14" "\<not> gr_deleted r"
    "gr_tenant r = 7" "gr_dress s = 31" "gr_starts_on s = 15" "gr_ends_on s = 20" "\<not> gr_deleted s" "gr_tenant s = 7"
    by (auto simp: map_eq_Cons_conv)
  from rows have "r \<noteq> s" by auto
  with rows reservations_stay_apart [OF h, of r s] have "gr_ends_on r < gr_starts_on s" by auto
  with h rows show ?thesis by (intro exI [of _ h3] exI [of _ r] exI [of _ s]) simp
qed

end
