(* ===== verification/Registry.thy ===== *)
theory Registry
  imports Walk_Ins Booking_Manage Otp
begin

text \<open>
  What the shop keeps about its customers beside their bookings: the message log and the portal sessions
  (\<open>app/db/repositories/message_log.py\<close>, \<open>customer_sessions.py\<close>), the columns of a customer's row that only the
  consoles read (her \<open>dossier\<close>), when a member's row was anonymised, and the rest of \<open>customers.py\<close>. A
  \<open>registry\<close> puts them beside the house. The text of a UUID is the argument \<open>show_id\<close>, ILIKE's containment is
  \<open>icontains\<close>, and \<open>collate\<close> is where the
  database's collation puts a name.
\<close>

section \<open>The tables\<close>

datatype log_kind =
    Log_otp | Log_confirmation | Log_reminder | Log_owner_cancel | Log_owner_reschedule
  | Log_payment_no_slot | Log_waitlist_offer

datatype log_status = Log_queued | Log_sent | Log_failed

record log_row =
  ml_id :: uuid
  ml_tenant :: uuid
  ml_booking :: "uuid option"
  ml_phone :: utext
  ml_kind :: log_kind
  ml_body :: utext
  ml_status :: log_status
  ml_provider_id :: "utext option"
  ml_error :: "utext option"
  ml_created_at :: instant
  ml_deleted :: bool

record portal_session =
  cs_id :: uuid
  cs_tenant :: uuid
  cs_customer :: uuid
  cs_token_hash :: utext
  cs_expires_at :: instant
  cs_deleted :: bool

record dossier =
  cd_notes :: "utext option"
  cd_tags :: "utext list"
  cd_created_at :: instant
  cd_bell_seen_at :: "instant option"

record registry =
  rg_house :: house
  rg_log :: "log_row list"
  rg_sessions :: "portal_session list"
  rg_dossier :: "uuid \<Rightarrow> dossier"
  rg_scrubbed :: "uuid \<Rightarrow> instant option"

definition rg_db :: "registry \<Rightarrow> db" where
  "rg_db r = h_db (rg_house r)"

definition put_db :: "db \<Rightarrow> registry \<Rightarrow> registry" where
  "put_db s r = r\<lparr>rg_house := (rg_house r)\<lparr>h_db := s\<rparr>\<rparr>"

definition rg_record :: "uuid \<Rightarrow> audit_action \<Rightarrow> uuid option \<Rightarrow> registry \<Rightarrow> registry" where
  "rg_record tn act subj r = put_db (record_audit tn act subj (rg_db r)) r"

text \<open>The primary key; the index on the token hash is not a unique one.\<close>

definition portal_sessions_ok :: "portal_session list \<Rightarrow> bool" where
  "portal_sessions_ok rows \<longleftrightarrow> distinct (map cs_id rows)"

section \<open>The message log\<close>

definition insert_log ::
  "uuid \<Rightarrow> utext \<Rightarrow> log_kind \<Rightarrow> utext \<Rightarrow> uuid option \<Rightarrow> registry \<Rightarrow> registry \<times> log_row" where
  "insert_log tn phone kind body bid r =
     (let row = \<lparr>ml_id = d_next (rg_db r), ml_tenant = tn, ml_booking = bid, ml_phone = phone, ml_kind = kind,
                 ml_body = body, ml_status = Log_queued, ml_provider_id = None, ml_error = None,
                 ml_created_at = d_now (rg_db r), ml_deleted = False\<rparr> in
      (put_db ((rg_db r)\<lparr>d_next := d_next (rg_db r) + 1\<rparr>) (r\<lparr>rg_log := rg_log r @ [row]\<rparr>), row))"

definition log_named :: "uuid \<Rightarrow> uuid \<Rightarrow> log_row \<Rightarrow> bool" where
  "log_named tn i m \<longleftrightarrow> ml_tenant m = tn \<and> ml_id m = i \<and> \<not> ml_deleted m"

definition update_log_status ::
  "uuid \<Rightarrow> uuid \<Rightarrow> log_status \<Rightarrow> utext option \<Rightarrow> utext option \<Rightarrow> registry \<Rightarrow> registry \<times> log_row option" where
  "update_log_status tn i status provider_id err r =
     (let rows = update_where (log_named tn i)
                   (\<lambda>m. m\<lparr>ml_status := status, ml_provider_id := provider_id, ml_error := err\<rparr>) (rg_log r) in
      (r\<lparr>rg_log := rows\<rparr>, find (log_named tn i) rows))"

definition log_by_phone :: "uuid \<Rightarrow> utext \<Rightarrow> registry \<Rightarrow> log_row list" where
  "log_by_phone tn phone r =
     sort_key ml_created_at (filter (\<lambda>m. ml_tenant m = tn \<and> ml_phone m = phone \<and> \<not> ml_deleted m) (rg_log r))"

definition SMS_LOG_LIMIT :: nat where "SMS_LOG_LIMIT = 50"
definition BELL_LIMIT :: nat where "BELL_LIMIT = 20"

definition bookings_of :: "uuid \<Rightarrow> uuid \<Rightarrow> db \<Rightarrow> booking list" where
  "bookings_of tn cid s =
     filter (\<lambda>b. b_tenant b = tn \<and> b_customer b = cid \<and> \<not> b_deleted b) (d_bookings s)"

text \<open>Hers by booking, or by number when the row names no booking.\<close>

definition customer_log_where :: "uuid \<Rightarrow> uuid \<Rightarrow> utext \<Rightarrow> db \<Rightarrow> log_row \<Rightarrow> bool" where
  "customer_log_where tn cid phone s m \<longleftrightarrow>
     ml_tenant m = tn \<and> \<not> ml_deleted m
     \<and> (case ml_booking m of
          Some b \<Rightarrow> b \<in> b_id ` set (bookings_of tn cid s)
        | None \<Rightarrow> ml_phone m = phone)"

definition newest_first :: "log_row list \<Rightarrow> log_row list" where
  "newest_first rows = rev (sort_key (\<lambda>m. (ml_created_at m, ml_id m)) rows)"

definition log_for_customer :: "uuid \<Rightarrow> uuid \<Rightarrow> utext \<Rightarrow> registry \<Rightarrow> log_row list" where
  "log_for_customer tn cid phone r =
     take SMS_LOG_LIMIT (newest_first (filter (customer_log_where tn cid phone (rg_db r)) (rg_log r)))"

definition count_log_for_customer :: "uuid \<Rightarrow> uuid \<Rightarrow> utext \<Rightarrow> registry \<Rightarrow> nat" where
  "count_log_for_customer tn cid phone r =
     length (filter (customer_log_where tn cid phone (rg_db r)) (rg_log r))"

text \<open>The bell joins the log to her bookings; a row whose booking is not hers has no place in it.\<close>

definition bell_booking :: "uuid \<Rightarrow> uuid \<Rightarrow> db \<Rightarrow> log_row \<Rightarrow> booking option" where
  "bell_booking tn cid s m =
     (if ml_tenant m = tn \<and> \<not> ml_deleted m \<and> ml_kind m \<noteq> Log_otp \<and> ml_status m = Log_sent
      then Option.bind (ml_booking m) (\<lambda>i. find (\<lambda>b. b_id b = i) (bookings_of tn cid s)) else None)"

definition bell_for_customer :: "uuid \<Rightarrow> uuid \<Rightarrow> registry \<Rightarrow> (log_row \<times> booking) list" where
  "bell_for_customer tn cid r =
     take BELL_LIMIT (List.map_filter (\<lambda>m. map_option (Pair m) (bell_booking tn cid (rg_db r) m))
       (newest_first (rg_log r)))"

section \<open>Portal sessions\<close>

definition insert_portal_session ::
  "uuid \<Rightarrow> uuid \<Rightarrow> utext \<Rightarrow> instant \<Rightarrow> registry \<Rightarrow> error + registry \<times> portal_session" where
  "insert_portal_session tn cid hash until r =
     (let row = \<lparr>cs_id = d_next (rg_db r), cs_tenant = tn, cs_customer = cid, cs_token_hash = hash,
                 cs_expires_at = until, cs_deleted = False\<rparr> in
      andthen (insert_row portal_sessions_ok row (rg_sessions r)) (\<lambda>rows.
      Inr (put_db ((rg_db r)\<lparr>d_next := d_next (rg_db r) + 1\<rparr>) (r\<lparr>rg_sessions := rows\<rparr>), row)))"

definition active_session :: "uuid \<Rightarrow> utext \<Rightarrow> instant \<Rightarrow> registry \<Rightarrow> error + portal_session option" where
  "active_session tn hash now r =
     one_or_none (\<lambda>c. cs_tenant c = tn \<and> cs_token_hash c = hash \<and> \<not> cs_deleted c \<and> cs_expires_at c > now)
       (rg_sessions r)"

definition revoke_session :: "uuid \<Rightarrow> utext \<Rightarrow> registry \<Rightarrow> registry \<times> bool" where
  "revoke_session tn hash r =
     (let P = (\<lambda>c. cs_tenant c = tn \<and> cs_token_hash c = hash \<and> \<not> cs_deleted c) in
      (r\<lparr>rg_sessions := update_where P (\<lambda>c. c\<lparr>cs_deleted := True\<rparr>) (rg_sessions r)\<rparr>, list_ex P (rg_sessions r)))"

definition revoke_all_for_customer :: "uuid \<Rightarrow> uuid \<Rightarrow> registry \<Rightarrow> registry \<times> nat" where
  "revoke_all_for_customer tn cid r =
     (let P = (\<lambda>c. cs_tenant c = tn \<and> cs_customer c = cid \<and> \<not> cs_deleted c) in
      (r\<lparr>rg_sessions := update_where P (\<lambda>c. c\<lparr>cs_deleted := True\<rparr>) (rg_sessions r)\<rparr>,
       length (filter P (rg_sessions r))))"

section \<open>Customers\<close>

definition customers_by_ids :: "uuid \<Rightarrow> uuid list \<Rightarrow> db \<Rightarrow> customer list" where
  "customers_by_ids tn ids s =
     filter (\<lambda>c. c_tenant c = tn \<and> c_id c \<in> set ids \<and> \<not> c_deleted c) (d_customers s)"

definition set_bell_seen :: "uuid \<Rightarrow> uuid \<Rightarrow> instant \<Rightarrow> registry \<Rightarrow> registry \<times> bool" where
  "set_bell_seen tn cid at r =
     (if customer_by_id tn cid (rg_db r) = None then (r, False)
      else (r\<lparr>rg_dossier := (rg_dossier r)(cid := (rg_dossier r cid)\<lparr>cd_bell_seen_at := Some at\<rparr>)\<rparr>, True))"

text \<open>\<open>phone_search_term\<close>: \<open>is_dec\<close> is what the regular expression's \<open>\\d\<close> accepts.\<close>

definition phone_search_term :: "(nat \<Rightarrow> bool) \<Rightarrow> utext \<Rightarrow> utext option" where
  "phone_search_term is_dec term =
     (let digits = filter is_dec term in
      if digits = [] then None
      else if take 2 digits = [48, 53] then Some ([57, 55, 50] @ drop 1 digits)
      else Some digits)"

definition search_where ::
  "(utext \<Rightarrow> utext \<Rightarrow> bool) \<Rightarrow> (nat \<Rightarrow> bool) \<Rightarrow> uuid \<Rightarrow> utext option \<Rightarrow> customer \<Rightarrow> bool" where
  "search_where icontains is_dec tn q c \<longleftrightarrow>
     c_tenant c = tn \<and> \<not> c_deleted c
     \<and> (let term = ustrip (given q []) in
        term = [] \<or> icontains term (c_name c)
        \<or> (case phone_search_term is_dec term of None \<Rightarrow> False | Some p \<Rightarrow> icontains p (c_phone c)))"

definition search_customers ::
  "(utext \<Rightarrow> nat) \<Rightarrow> (utext \<Rightarrow> utext \<Rightarrow> bool) \<Rightarrow> (nat \<Rightarrow> bool) \<Rightarrow> uuid \<Rightarrow> utext option \<Rightarrow> nat \<Rightarrow> nat \<Rightarrow> db
   \<Rightarrow> customer list" where
  "search_customers collate icontains is_dec tn q offset limit s =
     take limit (drop offset (sort_key (\<lambda>c. (collate (c_name c), c_id c))
       (filter (search_where icontains is_dec tn q) (d_customers s))))"

definition count_search ::
  "(utext \<Rightarrow> utext \<Rightarrow> bool) \<Rightarrow> (nat \<Rightarrow> bool) \<Rightarrow> uuid \<Rightarrow> utext option \<Rightarrow> db \<Rightarrow> nat" where
  "count_search icontains is_dec tn q s = length (filter (search_where icontains is_dec tn q) (d_customers s))"

text \<open>A column that is not given stays; the write reads the row back.\<close>

definition set_notes_and_tags ::
  "uuid \<Rightarrow> uuid \<Rightarrow> utext option \<Rightarrow> utext list option \<Rightarrow> registry \<Rightarrow> registry \<times> customer option" where
  "set_notes_and_tags tn cid notes tags r =
     (case customer_by_id tn cid (rg_db r) of
        None \<Rightarrow> (r, None)
      | Some c \<Rightarrow>
          (r\<lparr>rg_dossier := (rg_dossier r)(cid := (rg_dossier r cid)
               \<lparr>cd_notes := (case notes of None \<Rightarrow> cd_notes (rg_dossier r cid) | Some n \<Rightarrow> Some n),
                cd_tags := given tags (cd_tags (rg_dossier r cid))\<rparr>)\<rparr>, Some c))"

definition recent_bookings :: "uuid \<Rightarrow> uuid \<Rightarrow> nat \<Rightarrow> db \<Rightarrow> booking list" where
  "recent_bookings tn cid limit s =
     take limit (rev (sort_key (\<lambda>b. (b_starts_at b, b_id b)) (bookings_of tn cid s)))"

section \<open>Reading the registry\<close>

lemma put_db_sel [simp]:
  "rg_db (put_db s r) = s" "rg_log (put_db s r) = rg_log r" "rg_sessions (put_db s r) = rg_sessions r"
  "rg_dossier (put_db s r) = rg_dossier r" "rg_scrubbed (put_db s r) = rg_scrubbed r"
  "h_tickets (rg_house (put_db s r)) = h_tickets (rg_house r)" "h_staff (rg_house (put_db s r)) = h_staff (rg_house r)"
  "h_sessions (rg_house (put_db s r)) = h_sessions (rg_house r)"
  by (simp_all add: put_db_def rg_db_def)

lemma rg_record_sel [simp]:
  "rg_db (rg_record tn a i r) = record_audit tn a i (rg_db r)" "rg_log (rg_record tn a i r) = rg_log r"
  "rg_sessions (rg_record tn a i r) = rg_sessions r" "rg_dossier (rg_record tn a i r) = rg_dossier r"
  "rg_scrubbed (rg_record tn a i r) = rg_scrubbed r" "h_tickets (rg_house (rg_record tn a i r)) = h_tickets (rg_house r)"
  "h_staff (rg_house (rg_record tn a i r)) = h_staff (rg_house r)"
  "h_sessions (rg_house (rg_record tn a i r)) = h_sessions (rg_house r)"
  by (simp_all add: rg_record_def)

lemma rg_db_frame [simp]:
  "rg_db (r\<lparr>rg_log := ms\<rparr>) = rg_db r" "rg_db (r\<lparr>rg_sessions := cs\<rparr>) = rg_db r" "rg_db (r\<lparr>rg_dossier := d\<rparr>) = rg_db r"
  "rg_db (r\<lparr>rg_scrubbed := z\<rparr>) = rg_db r" "rg_db (r\<lparr>rg_house := h\<rparr>) = h_db h"
  by (simp_all add: rg_db_def)

end
