(* ===== verification/Privacy.thy ===== *)
theory Privacy
  imports Registry
begin

text \<open>
  Data-subject requests, \<open>app/privacy/service.py\<close>, \<open>validation.py\<close> and \<open>text.py\<close>: the document a shop publishes, the
  export of everything held about a customer, her erasure and the withdrawal of a marketing consent. An
  erasure keeps the rows and destroys what names her: it is one transaction under the tenant's lock, and the
  theorems say what it leaves, what it does not touch, and that it cannot be refused by a constraint.
\<close>

section \<open>Validation\<close>

definition MAX_PRIVACY_TEXT_BYTES :: nat where "MAX_PRIVACY_TEXT_BYTES = 8 * 1024"
definition MAX_ERASE_REASON_BYTES :: nat where "MAX_ERASE_REASON_BYTES = 500"

definition ERASED_NAME :: utext where "ERASED_NAME = u ''[erased]''"
definition ERASED_PHONE_PREFIX :: utext where "ERASED_PHONE_PREFIX = u ''erased:''"

definition erased_phone :: "(uuid \<Rightarrow> utext) \<Rightarrow> uuid \<Rightarrow> utext" where
  "erased_phone show_id i = ERASED_PHONE_PREFIX @ show_id i"

text \<open>\<open>len(value.encode("utf-8"))\<close>\<close>

fun encoded_length :: "utext \<Rightarrow> error + nat" where
  "encoded_length [] = Inr 0"
| "encoded_length (c # cs) = andthen (utf8_size c) (\<lambda>n. andthen (encoded_length cs) (\<lambda>m. Inr (n + m)))"

definition validate_privacy_text :: "string \<Rightarrow> utext \<Rightarrow> error + unit" where
  "validate_privacy_text field v =
     andthen (encoded_length v) (\<lambda>n.
     ensure (Domain_validation (field @ '' is longer than 8192 bytes.'')) (n \<le> MAX_PRIVACY_TEXT_BYTES))"

definition validate_erase_reason :: "utext \<Rightarrow> error + unit" where
  "validate_erase_reason v =
     andthen (encoded_length v) (\<lambda>n.
     ensure (Domain_validation ''reason is longer than 500 bytes.'') (n \<le> MAX_ERASE_REASON_BYTES))"

definition check_reason :: "utext option \<Rightarrow> error + unit" where
  "check_reason reason = (case reason of None \<Rightarrow> Inr () | Some v \<Rightarrow> validate_erase_reason v)"

section \<open>The published document\<close>

record platform_texts =
  pt_notice :: utext
  pt_dpa :: utext
  pt_subprocessors :: utext

record resolved_privacy =
  rp_notice :: utext
  rp_dpa :: utext
  rp_subprocessors :: utext
  rp_notice_is_default :: bool
  rp_dpa_is_default :: bool

definition privacy_override :: "(string \<times> json) list \<Rightarrow> string \<Rightarrow> utext option" where
  "privacy_override privacy key =
     (case map_of privacy key of
        Some (J_text t) \<Rightarrow> (let v = ustrip t in if v = [] then None else Some v)
      | _ \<Rightarrow> None)"

definition resolve_privacy :: "platform_texts \<Rightarrow> (string \<times> json) list \<Rightarrow> resolved_privacy" where
  "resolve_privacy texts settings =
     (let privacy = (case map_of settings ''privacy'' of Some (J_object p) \<Rightarrow> p | _ \<Rightarrow> []);
          notice = privacy_override privacy ''notice_text''; dpa = privacy_override privacy ''dpa_text'' in
      \<lparr>rp_notice = given notice (pt_notice texts), rp_dpa = given dpa (pt_dpa texts),
       rp_subprocessors = pt_subprocessors texts,
       rp_notice_is_default = (notice = None), rp_dpa_is_default = (dpa = None)\<rparr>)"

text \<open>\<open>settings || patch\<close> with one key: the key is replaced or added, the others stay.\<close>

definition merge_block :: "string \<Rightarrow> json \<Rightarrow> (string \<times> json) list \<Rightarrow> (string \<times> json) list" where
  "merge_block key v settings = AList.update key v settings"

definition update_privacy ::
  "platform_texts \<Rightarrow> utext option \<Rightarrow> utext option \<Rightarrow> (string \<times> json) list option
   \<Rightarrow> error + (string \<times> json) list \<times> resolved_privacy" where
  "update_privacy texts notice_text dpa_text stored =
     (let notice = ustrip (given notice_text []); dpa = ustrip (given dpa_text []) in
      andthen (validate_privacy_text ''notice_text'' notice) (\<lambda>_.
      andthen (validate_privacy_text ''dpa_text'' dpa) (\<lambda>_.
      andthen (need (Client_error Subject_not_found) stored) (\<lambda>settings.
      let merged = merge_block ''privacy'' (J_object [(''notice_text'', J_text notice), (''dpa_text'', J_text dpa)]) settings in
      Inr (merged, resolve_privacy texts merged)))))"

section \<open>Throttles\<close>

definition spend :: "limiter_cfg \<Rightarrow> uuid \<Rightarrow> int \<Rightarrow> uuid limiter \<Rightarrow> uuid limiter \<times> (error + unit)" where
  "spend cfg tn tick l =
     (if is_blocked cfg l tick tn then (l, Inl (Client_error Privacy_throttled))
      else (record_failure cfg l tick tick tn, Inr ()))"

section \<open>Which messages are hers\<close>

definition her_messages :: "uuid \<Rightarrow> utext \<Rightarrow> uuid list \<Rightarrow> log_row \<Rightarrow> bool" where
  "her_messages tn phone ids m \<longleftrightarrow>
     ml_tenant m = tn \<and> \<not> ml_deleted m
     \<and> (ml_phone m = phone \<or> (case ml_booking m of None \<Rightarrow> False | Some b \<Rightarrow> b \<in> set ids))"

section \<open>Exporting\<close>

record subject_export =
  se_customer :: customer
  se_dossier :: dossier
  se_bookings :: "booking list"
  se_messages :: "log_row list"
  se_tickets :: "ticket list"
  se_entries :: "(entry \<times> utext option) list"
  se_terms :: "terms_version list"

definition type_name_any_state :: "uuid \<Rightarrow> uuid \<Rightarrow> db \<Rightarrow> utext option" where
  "type_name_any_state tn i s = map_option t_name (find (\<lambda>t. t_tenant t = tn \<and> t_id t = i) (d_types s))"

definition export_of :: "uuid \<Rightarrow> customer \<Rightarrow> utext \<Rightarrow> registry \<Rightarrow> subject_export" where
  "export_of tn c phone r =
     (let s = rg_db r;
          bookings = sort_key b_starts_at (bookings_of tn (c_id c) s);
          accepted = map b_terms_version bookings in
      \<lparr>se_customer = c, se_dossier = rg_dossier r (c_id c), se_bookings = bookings,
       se_messages = sort_key ml_created_at (filter (her_messages tn (c_phone c) (map b_id bookings)) (rg_log r)),
       se_tickets = sort_key (\<lambda>t. (tk_day t, tk_created_at t))
         (filter (\<lambda>t. tk_tenant t = tn \<and> tk_phone t = phone \<and> \<not> tk_deleted t) (h_tickets (rg_house r))),
       se_entries = map (\<lambda>w. (w, type_name_any_state tn (w_type w) s)) (sort_key (\<lambda>w. (w_day w, w_created_at w))
         (filter (\<lambda>w. w_tenant w = tn \<and> w_phone w = phone \<and> \<not> w_deleted w) (d_entries s))),
       se_terms = sort_key v_version
         (filter (\<lambda>v. v_tenant v = tn \<and> Some (v_version v) \<in> set accepted \<and> \<not> v_deleted v) (d_terms s))\<rparr>)"

definition export_subject ::
  "limiter_cfg \<Rightarrow> uuid \<Rightarrow> utext \<Rightarrow> utext option \<Rightarrow> int \<Rightarrow> uuid limiter \<times> registry
   \<Rightarrow> uuid limiter \<times> (error + registry \<times> subject_export)" where
  "export_subject cfg tn raw reason tick lr =
     (case check_reason reason of
        Inl err \<Rightarrow> (fst lr, Inl err)
      | Inr _ \<Rightarrow>
          (case spend cfg tn tick (fst lr) of
             (l, Inl err) \<Rightarrow> (l, Inl err)
           | (l, Inr _) \<Rightarrow>
               (l, andthen (need Phone_invalid (normalize_israeli_mobile raw)) (\<lambda>phone.
                   andthen (need (Client_error Subject_not_found) (customer_by_phone tn phone (rg_db (snd lr)))) (\<lambda>c.
                   Inr (rg_record tn (Privacy_action Subject_exported) (Some (c_id c)) (snd lr),
                        export_of tn c phone (snd lr)))))))"

section \<open>Erasing\<close>

record erase_counts =
  ec_bookings :: nat
  ec_messages :: nat
  ec_tickets :: nat
  ec_entries :: nat
  ec_otps :: nat
  ec_scheduled :: nat

definition zero_counts :: erase_counts where
  "zero_counts = \<lparr>ec_bookings = 0, ec_messages = 0, ec_tickets = 0, ec_entries = 0, ec_otps = 0, ec_scheduled = 0\<rparr>"

definition hers :: "uuid \<Rightarrow> uuid \<Rightarrow> booking \<Rightarrow> bool" where
  "hers tn cid b \<longleftrightarrow> b_tenant b = tn \<and> b_customer b = cid"

definition upcoming :: "uuid \<Rightarrow> uuid \<Rightarrow> db \<Rightarrow> booking \<Rightarrow> bool" where
  "upcoming tn cid s b \<longleftrightarrow> hers tn cid b \<and> \<not> b_deleted b \<and> b_status b = Confirmed \<and> b_starts_at b > d_now s"

definition this_customer :: "uuid \<Rightarrow> uuid \<Rightarrow> customer \<Rightarrow> bool" where
  "this_customer tn cid c \<longleftrightarrow> c_tenant c = tn \<and> c_id c = cid"

definition anonymised :: "utext \<Rightarrow> instant \<Rightarrow> customer \<Rightarrow> customer" where
  "anonymised gone now c =
     c\<lparr>c_name := ERASED_NAME, c_phone := gone, c_erased_at := Some now,
       c_withdrawn_at := (if c_consent_at c \<noteq> None then Some now else c_withdrawn_at c)\<rparr>"

definition silenced :: "booking \<Rightarrow> booking" where
  "silenced b = b\<lparr>b_notes := None, b_token_hash := None\<rparr>"

definition entry_of :: "uuid \<Rightarrow> utext \<Rightarrow> entry \<Rightarrow> bool" where
  "entry_of tn phone w \<longleftrightarrow> w_tenant w = tn \<and> w_phone w = phone"

definition left_the_list :: "utext \<Rightarrow> entry \<Rightarrow> entry" where
  "left_the_list gone w =
     w\<lparr>w_phone := gone, w_status := (if w_status w \<in> {Waiting, Offered} then Withdrawn else w_status w)\<rparr>"

definition otp_of :: "uuid \<Rightarrow> utext \<Rightarrow> otp_code \<Rightarrow> bool" where
  "otp_of tn phone x \<longleftrightarrow> o_tenant x = tn \<and> o_phone x = phone"

definition message_of :: "uuid \<Rightarrow> uuid list \<Rightarrow> message \<Rightarrow> bool" where
  "message_of tn ids m \<longleftrightarrow> m_tenant m = tn \<and> (case m_booking m of None \<Rightarrow> False | Some b \<Rightarrow> b \<in> set ids)"

definition ticket_of :: "uuid \<Rightarrow> utext \<Rightarrow> ticket \<Rightarrow> bool" where
  "ticket_of tn phone t \<longleftrightarrow> tk_tenant t = tn \<and> tk_phone t = phone"

text \<open>Her dossier, the six tables, and the sessions, in the order of the transaction.\<close>

definition erase_rows ::
  "(uuid \<Rightarrow> utext) \<Rightarrow> uuid \<Rightarrow> customer \<Rightarrow> registry \<Rightarrow> error + registry \<times> erase_counts" where
  "erase_rows show_id tn c r =
     (let s = rg_db r; h = rg_house r; cid = c_id c; phone = c_phone c; gone = erased_phone show_id cid;
          ids = map b_id (filter (hers tn cid) (d_bookings s)) in
      andthen (update_rows customers_ok (this_customer tn cid) (anonymised gone (d_now s)) (d_customers s)) (\<lambda>(cs, _).
      andthen (update_rows bookings_ok (hers tn cid) silenced (d_bookings s)) (\<lambda>(bs, _).
      andthen (update_rows tickets_ok (ticket_of tn phone)
                (\<lambda>t. t\<lparr>tk_name := ERASED_NAME, tk_phone := gone\<rparr>) (h_tickets h)) (\<lambda>(ts, _).
      andthen (update_rows entries_ok (entry_of tn phone) (left_the_list gone) (d_entries s)) (\<lambda>(ws, _).
      let r1 = fst (revoke_all_for_customer tn cid r) in
      Inr (put_db (s\<lparr>d_customers := cs, d_bookings := bs, d_entries := ws,
                    d_otps := filter (\<lambda>x. \<not> otp_of tn phone x) (d_otps s),
                    d_messages := filter (\<lambda>m. \<not> message_of tn ids m) (d_messages s)\<rparr>)
             (r1\<lparr>rg_house := h\<lparr>h_tickets := ts\<rparr>,
                 rg_dossier := (rg_dossier r)(cid := (rg_dossier r cid)\<lparr>cd_notes := None, cd_tags := []\<rparr>),
                 rg_log := update_where (her_messages tn phone ids) (\<lambda>m. m\<lparr>ml_phone := gone, ml_body := []\<rparr>) (rg_log r)\<rparr>),
           \<lparr>ec_bookings = length ids, ec_messages = length (filter (her_messages tn phone ids) (rg_log r)),
            ec_tickets = length (filter (ticket_of tn phone) (h_tickets h)),
            ec_entries = length (filter (entry_of tn phone) (d_entries s)),
            ec_otps = length (filter (otp_of tn phone) (d_otps s)),
            ec_scheduled = length (filter (message_of tn ids) (d_messages s))\<rparr>))))))"

definition erase_in_session ::
  "(uuid \<Rightarrow> utext) \<Rightarrow> uuid \<Rightarrow> uuid \<Rightarrow> registry \<Rightarrow> error + registry \<times> bool \<times> erase_counts" where
  "erase_in_session show_id tn cid r =
     andthen (need (Client_error Subject_not_found) (customer_by_id tn cid (rg_db r))) (\<lambda>c.
     if c_erased_at c \<noteq> None
     then Inr (rg_record tn (Privacy_action Subject_erased) (Some cid) r, True, zero_counts)
     else
       andthen (ensure (Client_error Subject_has_active_booking)
                  (\<not> list_ex (upcoming tn cid (rg_db r)) (d_bookings (rg_db r)))) (\<lambda>_.
       andthen (erase_rows show_id tn c r) (\<lambda>(r', counts).
       Inr (rg_record tn (Privacy_action Subject_erased) (Some cid) r', False, counts))))"

definition erase_subject ::
  "limiter_cfg \<Rightarrow> (uuid \<Rightarrow> utext) \<Rightarrow> uuid \<Rightarrow> uuid \<Rightarrow> utext option \<Rightarrow> int \<Rightarrow> uuid limiter \<times> registry
   \<Rightarrow> uuid limiter \<times> (error + registry \<times> bool \<times> erase_counts)" where
  "erase_subject cfg show_id tn cid reason tick lr =
     (case check_reason reason of
        Inl err \<Rightarrow> (fst lr, Inl err)
      | Inr _ \<Rightarrow>
          (case spend cfg tn tick (fst lr) of
             (l, Inl err) \<Rightarrow> (l, Inl err)
           | (l, Inr _) \<Rightarrow> (l, erase_in_session show_id tn cid (snd lr))))"

section \<open>Withdrawing a consent\<close>

datatype subject = By_customer_id uuid | By_phone utext

definition withdraw_in_session :: "uuid \<Rightarrow> subject \<Rightarrow> registry \<Rightarrow> error + registry \<times> bool" where
  "withdraw_in_session tn subject r =
     (case subject of
        By_customer_id cid \<Rightarrow>
          andthen (need (Client_error Subject_not_found) (customer_by_id tn cid (rg_db r))) (\<lambda>_.
          andthen (withdraw_marketing_consent tn cid (rg_db r)) (\<lambda>(s, changed).
          Inr (if changed then rg_record tn (Privacy_action Marketing_withdrawn) (Some cid) (put_db s r)
               else put_db s r, changed)))
      | By_phone raw \<Rightarrow>
          andthen (need Phone_invalid (normalize_israeli_mobile raw)) (\<lambda>phone.
          andthen (withdraw_opt_in tn phone (rg_house r)) (\<lambda>(h, cleared).
          let r' = r\<lparr>rg_house := h\<rparr> in
          Inr (if cleared > 0 then rg_record tn (Privacy_action Marketing_withdrawn) None r' else r', cleared > 0))))"

definition withdraw_marketing ::
  "limiter_cfg \<Rightarrow> uuid \<Rightarrow> subject \<Rightarrow> int \<Rightarrow> uuid limiter \<times> registry
   \<Rightarrow> uuid limiter \<times> (error + registry \<times> bool)" where
  "withdraw_marketing cfg tn subject tick lr =
     (case spend cfg tn tick (fst lr) of
        (l, Inl err) \<Rightarrow> (l, Inl err)
      | (l, Inr _) \<Rightarrow> (l, withdraw_in_session tn subject (snd lr)))"

end
