(* ===== verification/Retention.thy ===== *)
theory Retention
  imports Privacy
begin

text \<open>
  Rows that are too old, \<open>app/privacy/retention.py\<close> and the worker's \<open>retention_tick\<close>: eight policies, each a
  predicate of the rows that are due and a statement that deletes or anonymises at most a chunk of them. A
  tenant's run drains every policy in the order of \<open>POLICIES\<close>, one transaction per chunk and at most fifty of
  them, and a failure ends that tenant's run and nobody else's. A dry run only counts.
\<close>

definition CHUNK_SIZE :: nat where "CHUNK_SIZE = 500"
definition MAX_CHUNKS :: nat where "MAX_CHUNKS = 50"

record retention_settings =
  rs_otp_seconds :: int
  rs_ticket_seconds :: int
  rs_waitlist_days :: int
  rs_log_seconds :: int
  rs_booking_seconds :: int
  rs_orphan_seconds :: int
  rs_staff_days :: int

text \<open>What a run of one tenant fixes.\<close>

record retention_run =
  rr_zone :: zone
  rr_show_id :: "uuid \<Rightarrow> utext"
  rr_settings :: retention_settings
  rr_now :: instant
  rr_tenant :: uuid

definition cutoff :: "instant \<Rightarrow> int \<Rightarrow> instant" where
  "cutoff now secs = now - seconds secs"

section \<open>What is due\<close>

definition due_otp :: "retention_run \<Rightarrow> otp_code \<Rightarrow> bool" where
  "due_otp c x \<longleftrightarrow> o_tenant x = rr_tenant c \<and> o_created_at x \<le> cutoff (rr_now c) (rs_otp_seconds (rr_settings c))"

definition due_session :: "retention_run \<Rightarrow> session \<Rightarrow> bool" where
  "due_session c x \<longleftrightarrow> ss_tenant x = rr_tenant c \<and> (ss_expires_at x \<le> rr_now c \<or> ss_deleted x)"

definition due_ticket :: "retention_run \<Rightarrow> ticket \<Rightarrow> bool" where
  "due_ticket c x \<longleftrightarrow>
     tk_tenant x = rr_tenant c
     \<and> tk_day x \<le> today_jerusalem (rr_zone c) (cutoff (rr_now c) (rs_ticket_seconds (rr_settings c)))
     \<and> tk_name x \<noteq> ERASED_NAME"

definition due_entry :: "retention_run \<Rightarrow> entry \<Rightarrow> bool" where
  "due_entry c x \<longleftrightarrow>
     w_tenant x = rr_tenant c \<and> w_day x < today_jerusalem (rr_zone c) (rr_now c) - rs_waitlist_days (rr_settings c)"

definition due_log :: "retention_run \<Rightarrow> log_row \<Rightarrow> bool" where
  "due_log c x \<longleftrightarrow> ml_tenant x = rr_tenant c \<and> ml_created_at x \<le> cutoff (rr_now c) (rs_log_seconds (rr_settings c))"

definition due_booking :: "retention_run \<Rightarrow> booking \<Rightarrow> bool" where
  "due_booking c x \<longleftrightarrow>
     b_tenant x = rr_tenant c \<and> b_starts_at x \<le> cutoff (rr_now c) (rs_booking_seconds (rr_settings c))"

definition due_customer :: "retention_run \<Rightarrow> registry \<Rightarrow> customer \<Rightarrow> bool" where
  "due_customer c r x \<longleftrightarrow>
     c_tenant x = rr_tenant c \<and> c_erased_at x = None
     \<and> cd_created_at (rg_dossier r (c_id x)) \<le> cutoff (rr_now c) (rs_orphan_seconds (rr_settings c))
     \<and> \<not> list_ex (\<lambda>b. b_customer b = c_id x) (d_bookings (rg_db r))"

definition due_staff :: "retention_run \<Rightarrow> registry \<Rightarrow> staff_user \<Rightarrow> bool" where
  "due_staff c r x \<longleftrightarrow>
     su_tenant x = rr_tenant c \<and> su_deleted x \<and> rg_scrubbed r (su_id x) = None
     \<and> (case su_last_day x of
          None \<Rightarrow> False
        | Some d \<Rightarrow> d \<le> today_jerusalem (rr_zone c) (rr_now c) - rs_staff_days (rr_settings c))"

definition due_count :: "retention_run \<Rightarrow> row_class \<Rightarrow> registry \<Rightarrow> nat" where
  "due_count c cls r =
     (case cls of
        Otp_codes \<Rightarrow> length (filter (due_otp c) (d_otps (rg_db r)))
      | Staff_sessions \<Rightarrow> length (filter (due_session c) (h_sessions (rg_house r)))
      | Queue_tickets \<Rightarrow> length (filter (due_ticket c) (h_tickets (rg_house r)))
      | Waitlist_entries \<Rightarrow> length (filter (due_entry c) (d_entries (rg_db r)))
      | Message_log \<Rightarrow> length (filter (due_log c) (rg_log r))
      | Old_bookings \<Rightarrow> length (filter (due_booking c) (d_bookings (rg_db r)))
      | Orphan_customers \<Rightarrow> length (filter (due_customer c r) (d_customers (rg_db r)))
      | Left_staff \<Rightarrow> length (filter (due_staff c r) (h_staff (rg_house r))))"

section \<open>The statements\<close>

text \<open>\<open>_page\<close>: the identifiers of the first due rows. \<open>_purge\<close> deletes them, \<open>_scrub\<close> rewrites them; both count
  the rows they hit.\<close>

definition page :: "('r \<Rightarrow> uuid) \<Rightarrow> ('r \<Rightarrow> bool) \<Rightarrow> nat \<Rightarrow> 'r list \<Rightarrow> uuid list" where
  "page key P limit rows = take limit (sort (map key (filter P rows)))"

definition purge_rows :: "('r \<Rightarrow> uuid) \<Rightarrow> ('r \<Rightarrow> bool) \<Rightarrow> nat \<Rightarrow> 'r list \<Rightarrow> 'r list \<times> nat" where
  "purge_rows key P limit rows =
     (let ids = page key P limit rows in
      (filter (\<lambda>x. key x \<notin> set ids) rows, length (filter (\<lambda>x. key x \<in> set ids) rows)))"

definition scrub_rows ::
  "('r list \<Rightarrow> bool) \<Rightarrow> ('r \<Rightarrow> uuid) \<Rightarrow> ('r \<Rightarrow> bool) \<Rightarrow> ('r \<Rightarrow> 'r) \<Rightarrow> nat \<Rightarrow> 'r list \<Rightarrow> error + 'r list \<times> nat" where
  "scrub_rows ok key P f limit rows =
     (let ids = page key P limit rows in
      andthen (update_rows ok (\<lambda>x. key x \<in> set ids) f rows) (\<lambda>(rows', _).
      Inr (rows', length (filter (\<lambda>x. key x \<in> set ids) rows))))"

definition nameless_ticket :: "retention_run \<Rightarrow> ticket \<Rightarrow> ticket" where
  "nameless_ticket c x = x\<lparr>tk_name := ERASED_NAME, tk_phone := erased_phone (rr_show_id c) (tk_id x)\<rparr>"

definition nameless_customer :: "retention_run \<Rightarrow> customer \<Rightarrow> customer" where
  "nameless_customer c x =
     x\<lparr>c_name := ERASED_NAME, c_phone := erased_phone (rr_show_id c) (c_id x), c_erased_at := Some (rr_now c)\<rparr>"

definition nameless_staff :: "retention_run \<Rightarrow> staff_user \<Rightarrow> staff_user" where
  "nameless_staff c x =
     x\<lparr>su_name := ERASED_NAME, su_email := erased_phone (rr_show_id c) (su_id x), su_phone := None\<rparr>"

definition purge_bookings :: "retention_run \<Rightarrow> nat \<Rightarrow> registry \<Rightarrow> registry \<times> nat" where
  "purge_bookings c limit r =
     (let s = rg_db r; doomed = page b_id (due_booking c) limit (d_bookings s) in
      if doomed = [] then (r, 0)
      else (put_db (s\<lparr>d_messages := filter (\<lambda>m. \<not> message_of (rr_tenant c) doomed m) (d_messages s),
                      d_bookings := filter (\<lambda>b. b_id b \<notin> set doomed) (d_bookings s)\<rparr>) r,
            length (filter (\<lambda>b. b_id b \<in> set doomed) (d_bookings s))))"

definition scrub_customers :: "retention_run \<Rightarrow> nat \<Rightarrow> registry \<Rightarrow> error + registry \<times> nat" where
  "scrub_customers c limit r =
     (let s = rg_db r; ids = page c_id (due_customer c r) limit (d_customers s) in
      andthen (scrub_rows customers_ok c_id (due_customer c r) (nameless_customer c) limit (d_customers s)) (\<lambda>(rows, n).
      Inr (put_db (s\<lparr>d_customers := rows\<rparr>)
             (r\<lparr>rg_dossier := (\<lambda>i. if i \<in> set ids then (rg_dossier r i)\<lparr>cd_notes := None, cd_tags := []\<rparr> else rg_dossier r i)\<rparr>), n)))"

definition scrub_staff :: "retention_run \<Rightarrow> nat \<Rightarrow> registry \<Rightarrow> error + registry \<times> nat" where
  "scrub_staff c limit r =
     (let h = rg_house r; ids = page su_id (due_staff c r) limit (h_staff h) in
      andthen (scrub_rows staff_ok su_id (due_staff c r) (nameless_staff c) limit (h_staff h)) (\<lambda>(rows, n).
      Inr (r\<lparr>rg_house := h\<lparr>h_staff := rows\<rparr>,
             rg_scrubbed := (\<lambda>i. if i \<in> set ids then Some (rr_now c) else rg_scrubbed r i)\<rparr>, n)))"

definition run_policy :: "retention_run \<Rightarrow> row_class \<Rightarrow> nat \<Rightarrow> registry \<Rightarrow> error + registry \<times> nat" where
  "run_policy c cls limit r =
     (let s = rg_db r; h = rg_house r in
      case cls of
        Otp_codes \<Rightarrow> (let (rows, n) = purge_rows o_id (due_otp c) limit (d_otps s) in Inr (put_db (s\<lparr>d_otps := rows\<rparr>) r, n))
      | Staff_sessions \<Rightarrow>
          (let (rows, n) = purge_rows ss_id (due_session c) limit (h_sessions h) in
           Inr (r\<lparr>rg_house := h\<lparr>h_sessions := rows\<rparr>\<rparr>, n))
      | Queue_tickets \<Rightarrow>
          andthen (scrub_rows tickets_ok tk_id (due_ticket c) (nameless_ticket c) limit (h_tickets h)) (\<lambda>(rows, n).
          Inr (r\<lparr>rg_house := h\<lparr>h_tickets := rows\<rparr>\<rparr>, n))
      | Waitlist_entries \<Rightarrow>
          (let (rows, n) = purge_rows w_id (due_entry c) limit (d_entries s) in Inr (put_db (s\<lparr>d_entries := rows\<rparr>) r, n))
      | Message_log \<Rightarrow>
          (let (rows, n) = purge_rows ml_id (due_log c) limit (rg_log r) in Inr (r\<lparr>rg_log := rows\<rparr>, n))
      | Old_bookings \<Rightarrow> Inr (purge_bookings c limit r)
      | Orphan_customers \<Rightarrow> scrub_customers c limit r
      | Left_staff \<Rightarrow> scrub_staff c limit r)"

section \<open>The runner\<close>

definition POLICIES :: "row_class list" where
  "POLICIES = [Otp_codes, Staff_sessions, Queue_tickets, Waitlist_entries, Message_log, Old_bookings, Orphan_customers, Left_staff]"

text \<open>\<open>_drain\<close>: each chunk commits before the next begins.\<close>

fun drain_policy ::
  "nat \<Rightarrow> (nat \<Rightarrow> 's \<Rightarrow> error + 's \<times> nat) \<Rightarrow> 's \<Rightarrow> nat \<Rightarrow> 's \<times> (error + nat)" where
  "drain_policy 0 run s tally = (s, Inr tally)"
| "drain_policy (Suc fuel) run s tally =
     (case run CHUNK_SIZE s of
        Inl err \<Rightarrow> (s, Inl err)
      | Inr (s', n) \<Rightarrow> if n < CHUNK_SIZE then (s', Inr (tally + n)) else drain_policy fuel run s' (tally + n))"

fun run_policies ::
  "retention_run \<Rightarrow> row_class list \<Rightarrow> registry \<Rightarrow> (row_class \<times> nat) list \<Rightarrow> registry \<times> (error + (row_class \<times> nat) list)" where
  "run_policies c [] r touched = (r, Inr touched)"
| "run_policies c (p # ps) r touched =
     (case drain_policy MAX_CHUNKS (run_policy c p) r 0 of
        (r', Inl err) \<Rightarrow> (r', Inl err)
      | (r', Inr n) \<Rightarrow>
          if n = 0 then run_policies c ps r' touched
          else run_policies c ps (rg_record (rr_tenant c) (Privacy_action (Retention p)) None r') (touched @ [(p, n)]))"

definition dry_counts :: "retention_run \<Rightarrow> registry \<Rightarrow> (row_class \<times> nat) list" where
  "dry_counts c r = filter (\<lambda>(p, n). n \<noteq> 0) (map (\<lambda>p. (p, due_count c p r)) POLICIES)"

definition run_for_tenant ::
  "retention_run \<Rightarrow> bool \<Rightarrow> registry \<Rightarrow> registry \<times> (error + (row_class \<times> nat) list)" where
  "run_for_tenant c dry r = (if dry then (r, Inr (dry_counts c r)) else run_policies c POLICIES r [])"

record retention_result =
  rt_tenants :: nat
  rt_failed :: nat
  rt_rows :: "(row_class \<times> nat) list"

definition add_counts :: "(row_class \<times> nat) list \<Rightarrow> (row_class \<times> nat) list \<Rightarrow> (row_class \<times> nat) list" where
  "add_counts rows touched =
     foldl (\<lambda>acc (p, n). AList.update p (given (map_of acc p) 0 + n) acc) rows touched"

fun run_tenants ::
  "retention_run \<Rightarrow> bool \<Rightarrow> uuid list \<Rightarrow> registry \<Rightarrow> nat \<Rightarrow> (row_class \<times> nat) list
   \<Rightarrow> registry \<times> nat \<times> (row_class \<times> nat) list" where
  "run_tenants c dry [] r failed rows = (r, failed, rows)"
| "run_tenants c dry (tn # tns) r failed rows =
     (case run_for_tenant (c\<lparr>rr_tenant := tn\<rparr>) dry r of
        (r', Inl _) \<Rightarrow> run_tenants c dry tns r' (failed + 1) rows
      | (r', Inr touched) \<Rightarrow> run_tenants c dry tns r' failed (add_counts rows touched))"

definition run_retention :: "retention_run \<Rightarrow> bool \<Rightarrow> uuid list \<Rightarrow> registry \<Rightarrow> registry \<times> retention_result" where
  "run_retention c dry tenants r =
     (let (r', failed, rows) = run_tenants c dry tenants r 0 [] in
      (r', \<lparr>rt_tenants = length tenants, rt_failed = failed, rt_rows = rows\<rparr>))"

text \<open>The worker's tick: due when enabled and its time has come; a failing run waits for its next turn too.\<close>

definition retention_tick ::
  "retention_run \<Rightarrow> uuid list \<Rightarrow> instant \<Rightarrow> bool \<Rightarrow> int \<Rightarrow> registry \<Rightarrow> registry \<times> instant" where
  "retention_tick c tenants next_at enabled interval r =
     (if \<not> enabled \<or> rr_now c < next_at then (r, next_at)
      else (fst (run_retention c False tenants r), rr_now c + seconds interval))"

end
