(* ===== verification/Privacy_Laws.thy ===== *)
theory Privacy_Laws
  imports Privacy
begin

text \<open>
  What an erasure does: the lemma \<open>erase_rows_Inr\<close> reads off the tables it leaves, the theorems say that no
  trace of the customer is left in them, that nothing of anybody else's is touched, that it cannot be refused
  by a constraint and that a second request changes nothing.
\<close>

section \<open>The tables an erasure leaves\<close>

lemma filter_update_other: "(\<And>x. P x \<Longrightarrow> \<not> Q x \<and> \<not> Q (f x)) \<Longrightarrow> filter Q (update_where P f rows) = filter Q rows"
  by (induction rows) auto

lemma ball_update_where: "(\<forall>y\<in>set (update_where P f rows). Q y) \<longleftrightarrow> (\<forall>x\<in>set rows. Q (if P x then f x else x))"
  by (induction rows) auto

definition her_bookings :: "uuid \<Rightarrow> uuid \<Rightarrow> registry \<Rightarrow> uuid list" where
  "her_bookings tn cid r = map b_id (filter (hers tn cid) (d_bookings (rg_db r)))"

lemma erase_rows_run:
  assumes "erase_rows show_id tn c r = Inr (r', counts)"
  defines "s \<equiv> rg_db r" and "cid \<equiv> c_id c" and "phone \<equiv> c_phone c" and "gone \<equiv> erased_phone show_id (c_id c)"
    and "ids \<equiv> her_bookings tn (c_id c) r"
  shows "r' = put_db (s\<lparr>d_customers := update_where (this_customer tn cid) (anonymised gone (d_now s)) (d_customers s),
        d_bookings := update_where (hers tn cid) silenced (d_bookings s),
        d_entries := update_where (entry_of tn phone) (left_the_list gone) (d_entries s),
        d_otps := filter (\<lambda>x. \<not> otp_of tn phone x) (d_otps s),
        d_messages := filter (\<lambda>m. \<not> message_of tn ids m) (d_messages s)\<rparr>)
      ((fst (revoke_all_for_customer tn cid r))\<lparr>rg_house := (rg_house r)\<lparr>h_tickets :=
          update_where (ticket_of tn phone) (\<lambda>t. t\<lparr>tk_name := ERASED_NAME, tk_phone := gone\<rparr>) (h_tickets (rg_house r))\<rparr>,
        rg_dossier := (rg_dossier r)(cid := (rg_dossier r cid)\<lparr>cd_notes := None, cd_tags := []\<rparr>),
        rg_log := update_where (her_messages tn phone ids) (\<lambda>m. m\<lparr>ml_phone := gone, ml_body := []\<rparr>) (rg_log r)\<rparr>)"
proof -
  from assms(1) obtain cs h1 bs h2 ts h3 ws h4 where u: "update_rows customers_ok (this_customer tn cid) (anonymised gone (d_now s)) (d_customers s) = Inr (cs, h1)"
    "update_rows bookings_ok (hers tn cid) silenced (d_bookings s) = Inr (bs, h2)"
    "update_rows tickets_ok (ticket_of tn phone) (\<lambda>t. t\<lparr>tk_name := ERASED_NAME, tk_phone := gone\<rparr>) (h_tickets (rg_house r)) = Inr (ts, h3)"
    "update_rows entries_ok (entry_of tn phone) (left_the_list gone) (d_entries s) = Inr (ws, h4)"
    and r': "r' = put_db (s\<lparr>d_customers := cs, d_bookings := bs, d_entries := ws,
                    d_otps := filter (\<lambda>x. \<not> otp_of tn phone x) (d_otps s),
                    d_messages := filter (\<lambda>m. \<not> message_of tn ids m) (d_messages s)\<rparr>)
             ((fst (revoke_all_for_customer tn cid r))\<lparr>rg_house := (rg_house r)\<lparr>h_tickets := ts\<rparr>,
                 rg_dossier := (rg_dossier r)(cid := (rg_dossier r cid)\<lparr>cd_notes := None, cd_tags := []\<rparr>),
                 rg_log := update_where (her_messages tn phone ids) (\<lambda>m. m\<lparr>ml_phone := gone, ml_body := []\<rparr>) (rg_log r)\<rparr>)"
    unfolding erase_rows_def Let_def andthen_eq_Inr s_def cid_def phone_def gone_def ids_def her_bookings_def by (clarsimp simp: andthen_eq_Inr)
  show ?thesis using u unfolding r' update_rows_Inr by simp
qed

lemma erase_rows_Inr:
  assumes "erase_rows show_id tn c r = Inr (r', counts)"
  defines "gone \<equiv> erased_phone show_id (c_id c)" and "ids \<equiv> her_bookings tn (c_id c) r"
  shows "d_customers (rg_db r') = update_where (this_customer tn (c_id c)) (anonymised gone (d_now (rg_db r))) (d_customers (rg_db r))"
    "d_bookings (rg_db r') = update_where (hers tn (c_id c)) silenced (d_bookings (rg_db r))"
    "h_tickets (rg_house r') = update_where (ticket_of tn (c_phone c)) (\<lambda>t. t\<lparr>tk_name := ERASED_NAME, tk_phone := gone\<rparr>)
       (h_tickets (rg_house r))"
    "d_entries (rg_db r') = update_where (entry_of tn (c_phone c)) (left_the_list gone) (d_entries (rg_db r))"
    "d_otps (rg_db r') = filter (\<lambda>x. \<not> otp_of tn (c_phone c) x) (d_otps (rg_db r))"
    "d_messages (rg_db r') = filter (\<lambda>m. \<not> message_of tn ids m) (d_messages (rg_db r))"
    "rg_log r' = update_where (her_messages tn (c_phone c) ids) (\<lambda>m. m\<lparr>ml_phone := gone, ml_body := []\<rparr>) (rg_log r)"
    "rg_sessions r' = update_where (\<lambda>x. cs_tenant x = tn \<and> cs_customer x = c_id c \<and> \<not> cs_deleted x)
       (\<lambda>x. x\<lparr>cs_deleted := True\<rparr>) (rg_sessions r)"
    "rg_dossier r' = (rg_dossier r)(c_id c := (rg_dossier r (c_id c))\<lparr>cd_notes := None, cd_tags := []\<rparr>)"
    "d_payments (rg_db r') = d_payments (rg_db r)" "d_next (rg_db r') = d_next (rg_db r)"
  by (simp_all add: erase_rows_run [OF assms(1)] revoke_all_for_customer_def gone_def ids_def Let_def)

lemma erase_in_session_Inr:
  assumes "erase_in_session show_id tn cid r = Inr (r', False, counts)" "customer_by_id tn cid (rg_db r) = Some c"
  obtains r1 where "erase_rows show_id tn c r = Inr (r1, counts)" "r' = rg_record tn (Privacy_action Subject_erased) (Some cid) r1"
    "\<forall>b\<in>set (d_bookings (rg_db r)). \<not> upcoming tn cid (rg_db r) b" "c_id c = cid" "c_erased_at c = None"
proof -
  have "c_id c = cid" using assms(2) by (auto simp: customer_by_id_def names_customer_def dest: find_SomeD)
  with that assms show thesis by (auto simp: erase_in_session_def andthen_eq_Inr list_ex_iff split: if_splits)
qed

section \<open>No trace\<close>

text \<open>What became of the rows of a table: \<open>P\<close> picks the ones concerned, \<open>R\<close> relates what they were to what they
  are, and every other row is as it was.\<close>

definition rows_became :: "('r \<Rightarrow> bool) \<Rightarrow> ('r \<Rightarrow> 'r \<Rightarrow> bool) \<Rightarrow> 'r list \<Rightarrow> 'r list \<Rightarrow> bool" where
  "rows_became P R rows rows' \<longleftrightarrow> list_all2 (\<lambda>x x'. if P x then R x x' else x' = x) rows rows'"

lemma rows_became_update: "(\<And>x. P x \<Longrightarrow> R x (f x)) \<Longrightarrow> rows_became P R rows (update_where P f rows)"
  unfolding rows_became_def by (induction rows) auto

text \<open>C2. What an erasure that is carried out leaves. Her row has the placeholder name and number and the moment of the
  erasure, her notes and tags are gone; each booking of hers lost its notes and its link, and none is still to
  come; each text of the log that went to her number or spoke of a booking of hers has the placeholder and no
  words; each queue ticket under her number has the placeholder name and number; each waiting entry under
  her number has the placeholder and waits and is offered no more; her codes and the texts queued about
  her bookings are deleted, her sessions are closed. No row of those tables is under her number any more (a text
  deleted from the log apart), no row that was not hers has changed. It also says what the erasure leaves
  alone: the tickets of the workshop, and the offer texts, which name no booking, even those addressed to her
  entries.\<close>

theorem erase_leaves_no_trace:
  assumes "erase_in_session show_id tn cid r = Inr (r', False, counts)"
    and "customer_by_id tn cid (rg_db r) = Some c" "c_phone c \<noteq> erased_phone show_id cid"
  shows "rows_became (this_customer tn cid)
           (\<lambda>x x'. c_name x' = ERASED_NAME \<and> c_phone x' = erased_phone show_id cid \<and> c_erased_at x' = Some (d_now (rg_db r)))
           (d_customers (rg_db r)) (d_customers (rg_db r'))
    \<and> cd_notes (rg_dossier r' cid) = None \<and> cd_tags (rg_dossier r' cid) = []
    \<and> rows_became (hers tn cid) (\<lambda>b b'. b' = b\<lparr>b_notes := None, b_token_hash := None\<rparr> \<and> \<not> upcoming tn cid (rg_db r) b)
        (d_bookings (rg_db r)) (d_bookings (rg_db r'))
    \<and> rows_became (\<lambda>m. ml_tenant m = tn \<and> \<not> ml_deleted m \<and> (ml_phone m = c_phone c \<or> ml_booking m \<in> Some ` set (her_bookings tn cid r)))
        (\<lambda>m m'. m' = m\<lparr>ml_phone := erased_phone show_id cid, ml_body := []\<rparr>) (rg_log r) (rg_log r')
    \<and> rows_became (\<lambda>t. tk_tenant t = tn \<and> tk_phone t = c_phone c)
        (\<lambda>t t'. t' = t\<lparr>tk_name := ERASED_NAME, tk_phone := erased_phone show_id cid\<rparr>)
        (h_tickets (rg_house r)) (h_tickets (rg_house r'))
    \<and> rows_became (\<lambda>w. w_tenant w = tn \<and> w_phone w = c_phone c)
        (\<lambda>w w'. w_phone w' = erased_phone show_id cid \<and> w_status w' \<notin> {Waiting, Offered} \<and> \<not> active_entry w')
        (d_entries (rg_db r)) (d_entries (rg_db r'))
    \<and> d_otps (rg_db r') = filter (\<lambda>x. \<not> (o_tenant x = tn \<and> o_phone x = c_phone c)) (d_otps (rg_db r))
    \<and> d_messages (rg_db r') = filter (\<lambda>m. \<not> (m_tenant m = tn \<and> m_booking m \<in> Some ` set (her_bookings tn cid r))) (d_messages (rg_db r))
    \<and> rows_became (\<lambda>x. cs_tenant x = tn \<and> cs_customer x = cid \<and> \<not> cs_deleted x) (\<lambda>x x'. x' = x\<lparr>cs_deleted := True\<rparr>)
        (rg_sessions r) (rg_sessions r')
    \<and> (\<forall>m\<in>set (rg_log r'). ml_tenant m = tn \<and> ml_phone m = c_phone c \<longrightarrow> ml_deleted m)
    \<and> (\<forall>t\<in>set (h_tickets (rg_house r')). tk_tenant t = tn \<longrightarrow> tk_phone t \<noteq> c_phone c)
    \<and> (\<forall>w\<in>set (d_entries (rg_db r')). w_tenant w = tn \<longrightarrow> w_phone w \<noteq> c_phone c)
    \<and> (\<forall>x\<in>set (rg_sessions r'). cs_tenant x = tn \<and> cs_customer x = cid \<longrightarrow> cs_deleted x)
    \<and> h_alterations (rg_house r') = h_alterations (rg_house r)
    \<and> filter (\<lambda>m. m_booking m = None) (d_messages (rg_db r')) = filter (\<lambda>m. m_booking m = None) (d_messages (rg_db r))"
proof -
  obtain r1 where run: "erase_rows show_id tn c r = Inr (r1, counts)"
    and r': "r' = rg_record tn (Privacy_action Subject_erased) (Some cid) r1"
    and none: "\<forall>b\<in>set (d_bookings (rg_db r)). \<not> upcoming tn cid (rg_db r) b" and cid: "c_id c = cid"
    using erase_in_session_Inr [OF assms(1,2)] by metis
  note rows = erase_rows_Inr [OF run, unfolded cid]
  let ?gone = "erased_phone show_id cid" and ?ids = "her_bookings tn cid r"
  have about: "her_messages tn (c_phone c) ?ids
      = (\<lambda>m. ml_tenant m = tn \<and> \<not> ml_deleted m \<and> (ml_phone m = c_phone c \<or> ml_booking m \<in> Some ` set ?ids))"
    "message_of tn ?ids = (\<lambda>m. m_tenant m = tn \<and> m_booking m \<in> Some ` set ?ids)"
    by (auto simp: her_messages_def message_of_def fun_eq_iff split: option.splits)
  have 1: "rows_became (this_customer tn cid)
           (\<lambda>x x'. c_name x' = ERASED_NAME \<and> c_phone x' = ?gone \<and> c_erased_at x' = Some (d_now (rg_db r)))
           (d_customers (rg_db r)) (d_customers (rg_db r'))"
    unfolding r' rg_record_sel record_audit_sel rows by (rule rows_became_update) (simp add: anonymised_def)
  have 2: "cd_notes (rg_dossier r' cid) = None" "cd_tags (rg_dossier r' cid) = []" by (simp_all add: r' rows(9))
  have 3: "rows_became (hers tn cid) (\<lambda>b b'. b' = b\<lparr>b_notes := None, b_token_hash := None\<rparr> \<and> \<not> upcoming tn cid (rg_db r) b)
        (d_bookings (rg_db r)) (d_bookings (rg_db r'))"
    using none unfolding r' rg_record_sel record_audit_sel rows rows_became_def update_where_def
    by (simp add: list.rel_map silenced_def list.rel_refl_strong)
  have 4: "rows_became (\<lambda>m. ml_tenant m = tn \<and> \<not> ml_deleted m \<and> (ml_phone m = c_phone c \<or> ml_booking m \<in> Some ` set ?ids))
        (\<lambda>m m'. m' = m\<lparr>ml_phone := ?gone, ml_body := []\<rparr>) (rg_log r) (rg_log r')"
    unfolding r' rg_record_sel rows about by (rule rows_became_update) simp
  have 5: "rows_became (\<lambda>t. tk_tenant t = tn \<and> tk_phone t = c_phone c)
        (\<lambda>t t'. t' = t\<lparr>tk_name := ERASED_NAME, tk_phone := ?gone\<rparr>) (h_tickets (rg_house r)) (h_tickets (rg_house r'))"
    unfolding r' rg_record_sel rows ticket_of_def by (rule rows_became_update) simp
  have 6: "rows_became (\<lambda>w. w_tenant w = tn \<and> w_phone w = c_phone c)
        (\<lambda>w w'. w_phone w' = ?gone \<and> w_status w' \<notin> {Waiting, Offered} \<and> \<not> active_entry w')
        (d_entries (rg_db r)) (d_entries (rg_db r'))"
    unfolding r' rg_record_sel record_audit_sel rows entry_of_def
    by (rule rows_became_update) (auto simp: left_the_list_def active_entry_def)
  have 7: "d_otps (rg_db r') = filter (\<lambda>x. \<not> (o_tenant x = tn \<and> o_phone x = c_phone c)) (d_otps (rg_db r))"
    "d_messages (rg_db r') = filter (\<lambda>m. \<not> (m_tenant m = tn \<and> m_booking m \<in> Some ` set ?ids)) (d_messages (rg_db r))"
    by (simp_all add: r' rows otp_of_def about)
  have 8: "rows_became (\<lambda>x. cs_tenant x = tn \<and> cs_customer x = cid \<and> \<not> cs_deleted x) (\<lambda>x x'. x' = x\<lparr>cs_deleted := True\<rparr>)
        (rg_sessions r) (rg_sessions r')"
    unfolding r' rg_record_sel rows by (rule rows_became_update) simp
  have 9: "\<forall>m\<in>set (rg_log r'). ml_tenant m = tn \<and> ml_phone m = c_phone c \<longrightarrow> ml_deleted m"
    "\<forall>t\<in>set (h_tickets (rg_house r')). tk_tenant t = tn \<longrightarrow> tk_phone t \<noteq> c_phone c"
    "\<forall>x\<in>set (rg_sessions r'). cs_tenant x = tn \<and> cs_customer x = cid \<longrightarrow> cs_deleted x"
    unfolding r' rg_record_sel rows ball_update_where using assms(3) by (auto simp: ticket_of_def her_messages_def)
  have 10: "\<forall>w\<in>set (d_entries (rg_db r')). w_tenant w = tn \<longrightarrow> w_phone w \<noteq> c_phone c"
    unfolding r' rg_record_sel record_audit_sel rows ball_update_where using assms(3) by (auto simp: entry_of_def left_the_list_def)
  have "h_alterations (rg_house r1) = h_alterations (rg_house r)"
    by (simp add: erase_rows_run [OF run] put_db_def revoke_all_for_customer_def Let_def)
  then have 11: "h_alterations (rg_house r') = h_alterations (rg_house r)" by (simp add: r' rg_record_def put_db_def)
  have "filter (\<lambda>m. m_booking m = None) (filter (\<lambda>m. \<not> message_of tn ?ids m) (d_messages (rg_db r)))
      = filter (\<lambda>m. m_booking m = None) (d_messages (rg_db r))"
    unfolding filter_filter by (rule filter_cong) (auto simp: message_of_def)
  then have 12: "filter (\<lambda>m. m_booking m = None) (d_messages (rg_db r')) = filter (\<lambda>m. m_booking m = None) (d_messages (rg_db r))"
    by (simp only: r' rg_record_sel record_audit_sel rows)
  show ?thesis by (intro conjI 1 2 3 4 5 6 7 8 9 10 11 12)
qed

text \<open>A customer after her visit: a reminder still queued, a check-in, a text in the log and a session.\<close>

definition remembered :: registry where
  "remembered =
     \<lparr>rg_house = empty_house\<lparr>
        h_db := link_shop\<lparr>d_now := hours 8, d_customers :=
          [\<lparr>c_id = 5, c_tenant = 4, c_phone = [43, 57], c_name = [65], c_consent_at = None, c_withdrawn_at = None,
            c_erased_at = None, c_deleted = False\<rparr>]\<rparr>,
        h_tickets :=
          [\<lparr>tk_id = 70, tk_tenant = 4, tk_day = 3, tk_name = [65], tk_phone = [43, 57], tk_visit = Bride,
            tk_status = Q_done, tk_called_at = None, tk_requeued_at = None, tk_skips = 0, tk_opt_in_at = None,
            tk_created_at = 0, tk_deleted = False\<rparr>]\<rparr>,
      rg_log =
        [\<lparr>ml_id = 71, ml_tenant = 4, ml_booking = Some 6, ml_phone = [43, 58], ml_kind = Log_reminder, ml_body = [66],
          ml_status = Log_sent, ml_provider_id = None, ml_error = None, ml_created_at = 0, ml_deleted = False\<rparr>],
      rg_sessions = [\<lparr>cs_id = 72, cs_tenant = 4, cs_customer = 5, cs_token_hash = [1], cs_expires_at = hours 9, cs_deleted = False\<rparr>],
      rg_dossier = (\<lambda>_. \<lparr>cd_notes = Some [67], cd_tags = [[68]], cd_created_at = 0, cd_bell_seen_at = None\<rparr>),
      rg_scrubbed = (\<lambda>_. None)\<rparr>"

definition her_row :: customer where
  "her_row = hd (d_customers (rg_db remembered))"

lemma she_is_known: "customer_by_id 4 5 (rg_db remembered) = Some her_row" "c_phone her_row = [43, 57]" "c_erased_at her_row = None"
  by code_simp+

theorem erase_leaves_no_trace_witness:
  "\<exists>r' counts. erase_in_session (\<lambda>i. [i]) 4 5 remembered = Inr (r', False, counts) \<and> ec_messages counts = 1 \<and> ec_tickets counts = 1
     \<and> ec_scheduled counts = 1 \<and> (\<forall>x\<in>set (rg_sessions r'). cs_tenant x = 4 \<and> cs_customer x = 5 \<longrightarrow> cs_deleted x)
     \<and> (\<forall>t\<in>set (h_tickets (rg_house r')). tk_tenant t = 4 \<longrightarrow> tk_phone t \<noteq> [43, 57])
     \<and> rows_became (\<lambda>t. tk_tenant t = 4 \<and> tk_phone t = [43, 57])
         (\<lambda>t t'. t' = t\<lparr>tk_name := ERASED_NAME, tk_phone := erased_phone (\<lambda>i. [i]) 5\<rparr>)
         (h_tickets (rg_house remembered)) (h_tickets (rg_house r'))"
proof -
  let ?run = "erase_in_session (\<lambda>i. [i]) 4 5 remembered"
  let ?c = "snd (snd (projr ?run))"
  have "\<not> isl ?run" "\<not> fst (snd (projr ?run))" by code_simp+
  then obtain r' counts where r: "?run = Inr (r', False, counts)" by (cases ?run) auto
  have "ec_messages ?c = 1 \<and> ec_tickets ?c = 1 \<and> ec_scheduled ?c = 1" by code_simp
  then have n: "ec_messages counts = 1" "ec_tickets counts = 1" "ec_scheduled counts = 1" by (simp_all add: r)
  have "c_phone her_row \<noteq> erased_phone (\<lambda>i. [i]) 5" by code_simp
  note all = erase_leaves_no_trace [OF r she_is_known(1) this, unfolded she_is_known(2)]
  with r n show ?thesis by (intro exI conjI) (assumption | blast)+
qed

section \<open>Nothing else\<close>

text \<open>Nobody else's rows are touched.\<close>

lemma erase_spares_the_rest:
  assumes "erase_in_session show_id tn cid r = Inr (r', False, counts)" "customer_by_id tn cid (rg_db r) = Some c"
  shows "filter (\<lambda>x. \<not> this_customer tn cid x) (d_customers (rg_db r')) = filter (\<lambda>x. \<not> this_customer tn cid x) (d_customers (rg_db r))"
    "filter (\<lambda>b. \<not> hers tn cid b) (d_bookings (rg_db r')) = filter (\<lambda>b. \<not> hers tn cid b) (d_bookings (rg_db r))"
    "filter (\<lambda>t. tk_tenant t \<noteq> tn) (h_tickets (rg_house r')) = filter (\<lambda>t. tk_tenant t \<noteq> tn) (h_tickets (rg_house r))"
    "filter (\<lambda>w. w_tenant w \<noteq> tn) (d_entries (rg_db r')) = filter (\<lambda>w. w_tenant w \<noteq> tn) (d_entries (rg_db r))"
    "filter (\<lambda>m. ml_tenant m \<noteq> tn) (rg_log r') = filter (\<lambda>m. ml_tenant m \<noteq> tn) (rg_log r)"
    "\<And>i. i \<noteq> cid \<Longrightarrow> rg_dossier r' i = rg_dossier r i"
proof -
  obtain r1 where run: "erase_rows show_id tn c r = Inr (r1, counts)"
    and r': "r' = rg_record tn (Privacy_action Subject_erased) (Some cid) r1" and cid: "c_id c = cid"
    using erase_in_session_Inr [OF assms] by metis
  note rows = erase_rows_Inr [OF run, unfolded cid]
  show "filter (\<lambda>x. \<not> this_customer tn cid x) (d_customers (rg_db r')) = filter (\<lambda>x. \<not> this_customer tn cid x) (d_customers (rg_db r))"
    "filter (\<lambda>b. \<not> hers tn cid b) (d_bookings (rg_db r')) = filter (\<lambda>b. \<not> hers tn cid b) (d_bookings (rg_db r))"
    "filter (\<lambda>t. tk_tenant t \<noteq> tn) (h_tickets (rg_house r')) = filter (\<lambda>t. tk_tenant t \<noteq> tn) (h_tickets (rg_house r))"
    "filter (\<lambda>w. w_tenant w \<noteq> tn) (d_entries (rg_db r')) = filter (\<lambda>w. w_tenant w \<noteq> tn) (d_entries (rg_db r))"
    "filter (\<lambda>m. ml_tenant m \<noteq> tn) (rg_log r') = filter (\<lambda>m. ml_tenant m \<noteq> tn) (rg_log r)"
    by (auto simp: r' rows this_customer_def anonymised_def hers_def silenced_def ticket_of_def entry_of_def left_the_list_def
        her_messages_def intro!: filter_update_other)
  show "\<And>i. i \<noteq> cid \<Longrightarrow> rg_dossier r' i = rg_dossier r i" by (simp add: r' rows)
qed

section \<open>No constraint is in the way\<close>

lemma list_all_update_where: "list_all Q rows \<Longrightarrow> (\<And>x. Q x \<Longrightarrow> Q (f x)) \<Longrightarrow> list_all Q (update_where P f rows)"
  by (induction rows) auto

lemma unique_on_same_keys:
  "(\<And>x. Q (f x) = Q x \<and> key (f x) = key x) \<Longrightarrow> unique_on Q key rows \<Longrightarrow> unique_on Q key (update_where P f rows)"
  by (rule unique_on_update_shrink) auto

lemma unique_on_filter: "unique_on Q key rows \<Longrightarrow> unique_on Q key (filter P rows)"
  by (induction rows) auto

lemma messages_ok_filter: "messages_ok rows \<Longrightarrow> messages_ok (filter P rows)"
  by (auto simp: messages_ok_def distinct_map_filter list_all_iff unique_on_filter)

lemma below_filter: "ids_below n (map f rows) \<Longrightarrow> ids_below n (map f (filter P rows))"
  "subjects_below n ms \<Longrightarrow> subjects_below n (filter Q ms)"
  by (auto simp: ids_below_def subjects_below_def list_all_iff)

lemma bookings_ok_silenced: "bookings_ok rows \<Longrightarrow> bookings_ok (update_where P silenced rows)"
  unfolding bookings_ok_def
  by (auto intro!: unique_on_same_keys list_all_update_where simp: map_update_where silenced_def occupies_def seat_key_def
      visit_key_def booking_row_ok_def)

lemma tickets_ok_anonymous: "tickets_ok rows \<Longrightarrow> tickets_ok (update_where P (\<lambda>t. t\<lparr>tk_name := n, tk_phone := p\<rparr>) rows)"
  unfolding tickets_ok_def by (auto intro!: list_all_update_where simp: map_update_where)

lemma entries_ok_left: "entries_ok rows \<Longrightarrow> entries_ok (update_where P (left_the_list gone) rows)"
  unfolding entries_ok_def
proof (elim conjE, intro conjI)
  assume "unique_on active_entry entry_key rows"
  then show "unique_on active_entry entry_key (update_where P (left_the_list gone) rows)"
  proof (induction rows)
    case (Cons w rows)
    have "\<not> active_entry (left_the_list gone x)" for x by (auto simp: active_entry_def left_the_list_def)
    with Cons show ?case by (auto simp: set_update_where)
  qed simp
qed (auto intro!: unique_on_same_keys simp: map_update_where left_the_list_def)

lemma customers_ok_anonymised:
  assumes "customers_ok rows" "\<forall>x\<in>set rows. \<not> c_deleted x \<and> c_tenant x = tn \<and> c_id x \<noteq> cid \<longrightarrow> c_phone x \<noteq> gone"
  shows "customers_ok (update_where (this_customer tn cid) (anonymised gone now) rows)"
proof -
  have d: "distinct (map c_id rows)" and q: "unique_on (\<lambda>c. \<not> c_deleted c) (\<lambda>c. (c_tenant c, c_phone c)) rows"
    and w: "list_all (\<lambda>c. c_withdrawn_at c = None \<or> c_consent_at c \<noteq> None) rows"
    using assms(1) by (simp_all add: customers_ok_def)
  have "unique_on (\<lambda>c. \<not> c_deleted c) (\<lambda>c. (c_tenant c, c_phone c)) (update_where (this_customer tn cid) (anonymised gone now) rows)"
    using d q assms(2)
    by (induction rows) (force simp: set_update_where this_customer_def anonymised_def image_iff)+
  moreover have "list_all (\<lambda>c. c_withdrawn_at c = None \<or> c_consent_at c \<noteq> None) (update_where (this_customer tn cid) (anonymised gone now) rows)"
    by (rule list_all_update_where [OF w]) (auto simp: anonymised_def)
  moreover have "distinct (map c_id (update_where (this_customer tn cid) (anonymised gone now) rows))"
    using d by (simp add: map_update_where anonymised_def)
  ultimately show ?thesis by (simp add: customers_ok_def)
qed

text \<open>C3. An erasure is never refused by the database: whoever is found, has not been erased before and has no confirmed
  appointment still to come is erased, whatever her rows look like, provided the placeholder is nobody else's number.\<close>

theorem erase_is_never_refused:
  assumes "db_ok (rg_db r)" "tickets_ok (h_tickets (rg_house r))"
    and "customer_by_id tn cid (rg_db r) = Some c" "c_erased_at c = None"
    and "\<not> list_ex (upcoming tn cid (rg_db r)) (d_bookings (rg_db r))"
    and "\<forall>x\<in>set (d_customers (rg_db r)). \<not> c_deleted x \<and> c_tenant x = tn \<and> c_id x \<noteq> cid \<longrightarrow> c_phone x \<noteq> erased_phone show_id cid"
  shows "\<exists>r' counts. erase_in_session show_id tn cid r = Inr (r', False, counts) \<and> db_ok (rg_db r') \<and> tickets_ok (h_tickets (rg_house r'))"
proof -
  have cid: "c_id c = cid" using assms(3) by (auto simp: customer_by_id_def names_customer_def dest: find_SomeD)
  let ?ids = "map b_id (filter (hers tn cid) (d_bookings (rg_db r)))" and ?gone = "erased_phone show_id cid"
  let ?cs = "update_where (this_customer tn cid) (anonymised ?gone (d_now (rg_db r))) (d_customers (rg_db r))"
  let ?ws = "update_where (entry_of tn (c_phone c)) (left_the_list ?gone) (d_entries (rg_db r))"
  let ?bs = "update_where (hers tn cid) silenced (d_bookings (rg_db r))"
  let ?ts = "update_where (ticket_of tn (c_phone c)) (\<lambda>t. t\<lparr>tk_name := ERASED_NAME, tk_phone := ?gone\<rparr>) (h_tickets (rg_house r))"
  note ok = db_okD [OF assms(1)]
  have oks: "customers_ok ?cs" "bookings_ok ?bs" "entries_ok ?ws" "tickets_ok ?ts"
    by (rule customers_ok_anonymised [OF ok(5) assms(6)] bookings_ok_silenced [OF ok(1)] entries_ok_left [OF ok(4)]
        tickets_ok_anonymous [OF assms(2)])+
  have run: "update_rows chk P f rows = Inr (update_where P f rows, list_ex P rows)" if "chk (update_where P f rows)"
    for chk P and f :: "'a \<Rightarrow> 'a" and rows
    using that by (simp add: update_rows_Inr)
  obtain r1 counts where e: "erase_rows show_id tn c r = Inr (r1, counts)"
    unfolding erase_rows_def Let_def cid run [of customers_ok, OF oks(1)] run [of bookings_ok, OF oks(2)]
      run [of tickets_ok, OF oks(4)] run [of entries_ok, OF oks(3)] by simp
  note rows = erase_rows_Inr [OF e, unfolded cid]
  have "map b_id ?bs = map b_id (d_bookings (rg_db r))" "map w_id ?ws = map w_id (d_entries (rg_db r))"
    "map c_id ?cs = map c_id (d_customers (rg_db r))"
    by (simp_all add: map_update_where silenced_def left_the_list_def anonymised_def)
  with ok oks rows have "db_ok (rg_db r1)" by (simp add: db_ok_def messages_ok_filter below_filter)
  with e oks(4) show ?thesis
    using assms(3-5) by (simp add: erase_in_session_def rows)
qed


theorem erase_is_never_refused_witness:
  "\<exists>r' counts. erase_in_session (\<lambda>i. [i]) 4 5 remembered = Inr (r', False, counts) \<and> db_ok (rg_db r') \<and> tickets_ok (h_tickets (rg_house r'))"
proof -
  have "db_ok (rg_db remembered)" "tickets_ok (h_tickets (rg_house remembered))"
    "\<not> list_ex (upcoming 4 5 (rg_db remembered)) (d_bookings (rg_db remembered))"
    "\<forall>x\<in>set (d_customers (rg_db remembered)). \<not> c_deleted x \<and> c_tenant x = 4 \<and> c_id x \<noteq> 5 \<longrightarrow> c_phone x \<noteq> erased_phone (\<lambda>i. [i]) 5"
    by code_simp+
  from erase_is_never_refused [OF this(1,2) she_is_known(1,3) this(3,4)] show ?thesis .
qed

section \<open>Asking twice\<close>

lemma erase_twice:
  assumes "erase_in_session show_id tn cid r = Inr (r', False, counts)" "customer_by_id tn cid (rg_db r) = Some c"
  shows "erase_in_session show_id tn cid r' = Inr (rg_record tn (Privacy_action Subject_erased) (Some cid) r', True, zero_counts)"
proof -
  obtain r1 where run: "erase_rows show_id tn c r = Inr (r1, counts)"
    and r': "r' = rg_record tn (Privacy_action Subject_erased) (Some cid) r1" and cid: "c_id c = cid"
    using erase_in_session_Inr [OF assms] by metis
  let ?f = "anonymised (erased_phone show_id cid) (d_now (rg_db r))"
  have "names_customer tn cid (?f x) = names_customer tn cid x" for x by (simp add: names_customer_def anonymised_def)
  then have "customer_by_id tn cid (rg_db r') = map_option (\<lambda>x. if this_customer tn cid x then ?f x else x) (customer_by_id tn cid (rg_db r))"
    unfolding customer_by_id_def r' rg_record_sel record_audit_sel erase_rows_Inr(1) [OF run, unfolded cid]
    by (rule find_update_where_stable)
  moreover have "this_customer tn cid c" using assms(2) by (auto simp: customer_by_id_def names_customer_def this_customer_def dest: find_SomeD)
  ultimately have "customer_by_id tn cid (rg_db r') = Some (?f c)" using assms(2) by simp
  then show ?thesis by (simp add: erase_in_session_def anonymised_def)
qed

end
