(* ===== verification/Retention_Laws.thy ===== *)
theory Retention_Laws
  imports Retention Privacy_Laws
begin

text \<open>
  A policy that hits at most a chunk of the due rows and leaves the others due is a \<open>paged_policy\<close>; draining one
  then takes away everything up to fifty chunks. The eight policies are instances, which is where the counting
  is done, and a tenant's run is never refused and leaves nothing due.
\<close>

section \<open>Pages\<close>

lemma length_keys_in:
  assumes "distinct (map key rows)" "set ids \<subseteq> key ` set rows" "distinct ids"
  shows "length (filter (\<lambda>x. key x \<in> set ids) rows) = length ids"
proof -
  have "length (filter (\<lambda>x. key x \<in> set ids) rows) = card (key ` set (filter (\<lambda>x. key x \<in> set ids) rows))"
    using assms(1) distinct_card [of "map key (filter (\<lambda>x. key x \<in> set ids) rows)"] by (simp add: distinct_map_filter)
  also have "key ` set (filter (\<lambda>x. key x \<in> set ids) rows) = set ids" using assms(2) by auto
  finally show ?thesis using assms(3) by (simp add: distinct_card)
qed

lemma page_facts:
  assumes "distinct (map key rows)"
  shows "distinct (page key P n rows)" "length (page key P n rows) = min n (length (filter P rows))"
    "x \<in> set rows \<Longrightarrow> key x \<in> set (page key P n rows) \<Longrightarrow> P x"
proof -
  show "distinct (page key P n rows)" using assms by (simp add: page_def distinct_map_filter)
  show "length (page key P n rows) = min n (length (filter P rows))" by (simp add: page_def min.commute)
  assume "x \<in> set rows" "key x \<in> set (page key P n rows)"
  then obtain y where "y \<in> set rows" "P y" "key y = key x" by (auto simp: page_def dest!: in_set_takeD)
  with \<open>x \<in> set rows\<close> assms show "P x" by (auto simp: distinct_map dest: inj_onD)
qed

lemma page_hits:
  assumes "distinct (map key rows)"
  shows "length (filter (\<lambda>x. key x \<in> set (page key P n rows)) rows) = min n (length (filter P rows))"
proof -
  have "set (page key P n rows) \<subseteq> key ` set rows" by (auto simp: page_def dest!: in_set_takeD)
  then show ?thesis using length_keys_in [OF assms _ page_facts(1) [OF assms]] page_facts(2) [OF assms] by simp
qed

lemma page_rest:
  assumes "distinct (map key rows)"
  shows "length (filter (\<lambda>x. P x \<and> key x \<notin> set (page key P n rows)) rows) = length (filter P rows) - min n (length (filter P rows))"
proof -
  have "filter (\<lambda>x. P x \<and> key x \<in> set (page key P n rows)) rows = filter (\<lambda>x. key x \<in> set (page key P n rows)) rows"
    using page_facts(3) [OF assms] by (auto intro: filter_cong)
  moreover have "length (filter P rows) = length (filter (\<lambda>x. P x \<and> Q x) rows) + length (filter (\<lambda>x. P x \<and> \<not> Q x) rows)" for Q
    by (induction rows) auto
  ultimately show ?thesis using page_hits [OF assms, of P n] by (metis add_diff_cancel_left')
qed

lemma purge_rows_run:
  assumes "distinct (map key rows)" "purge_rows key P n rows = (rows', k)"
  shows "k = min n (length (filter P rows))" "length (filter P rows') = length (filter P rows) - k"
    "rows' = filter (\<lambda>x. key x \<notin> set (page key P n rows)) rows"
  using assms(2) page_hits [OF assms(1), of P n] page_rest [OF assms(1), of P n]
  by (auto simp: purge_rows_def Let_def filter_filter conj_commute)

lemma scrub_rows_run:
  assumes "distinct (map key rows)" "scrub_rows ok key P f n rows = Inr (rows', k)"
  shows "k = min n (length (filter P rows))" "rows' = update_where (\<lambda>x. key x \<in> set (page key P n rows)) f rows"
    "ok rows \<Longrightarrow> ok rows'"
proof -
  let ?hit = "\<lambda>x. key x \<in> set (page key P n rows)"
  from assms(2) show "k = min n (length (filter P rows))" "rows' = update_where ?hit f rows"
    using page_hits [OF assms(1), of P n] by (auto simp: scrub_rows_def Let_def andthen_eq_Inr update_rows_Inr)
  from assms(2) show "ok rows'" if "ok rows"
    using that by (auto simp: scrub_rows_def Let_def andthen_eq_Inr update_rows_Inr update_where_none)
qed

text \<open>What is due afterwards, when an anonymised row is not and the others are as before.\<close>

lemma length_filter_update:
  assumes "\<And>x. x \<in> set rows \<Longrightarrow> H x \<Longrightarrow> \<not> Q (f x)" "\<And>x. x \<in> set rows \<Longrightarrow> \<not> H x \<Longrightarrow> Q x = P x"
  shows "length (filter Q (update_where H f rows)) = length (filter (\<lambda>x. P x \<and> \<not> H x) rows)"
  using assms by (induction rows) auto

section \<open>The interface of a policy\<close>

locale paged_policy =
  fixes due :: "'s \<Rightarrow> nat"
    and run :: "nat \<Rightarrow> 's \<Rightarrow> error + 's \<times> nat"
    and sane :: "'s \<Rightarrow> bool"
  assumes hits: "sane s \<Longrightarrow> run n s = Inr (s', k) \<Longrightarrow> k = min n (due s)"
    and rest: "sane s \<Longrightarrow> run n s = Inr (s', k) \<Longrightarrow> due s' = due s - k"
    and stays_sane: "sane s \<Longrightarrow> run n s = Inr (s', k) \<Longrightarrow> sane s'"
begin

lemma drain:
  "sane s \<Longrightarrow> drain_policy fuel run s t = (s', Inr t') \<Longrightarrow>
   t' = t + min (fuel * CHUNK_SIZE) (due s) \<and> due s' = due s - min (fuel * CHUNK_SIZE) (due s) \<and> sane s'"
proof (induction fuel arbitrary: s t)
  case (Suc fuel)
  then obtain s1 k where r: "run CHUNK_SIZE s = Inr (s1, k)" by (auto split: sum.splits)
  note k = hits [OF Suc.prems(1) r] and d = rest [OF Suc.prems(1) r] and sane = stays_sane [OF Suc.prems(1) r]
  show ?case
  proof (cases "k < CHUNK_SIZE")
    case True
    then have "k = due s" using k by auto
    then show ?thesis using True Suc.prems r d sane by auto
  next
    case False
    then have "k = CHUNK_SIZE" "CHUNK_SIZE \<le> due s" using k by (auto simp: min_def split: if_splits)
    moreover have "drain_policy fuel run s1 (t + k) = (s', Inr t')" using False Suc.prems(2) r by simp
    from Suc.IH [OF sane this] have "t' = t + k + min (fuel * CHUNK_SIZE) (due s1)"
      "due s' = due s1 - min (fuel * CHUNK_SIZE) (due s1)" "sane s'" by simp_all
    ultimately show ?thesis using d by (auto simp: min_def)
  qed
qed simp

lemma drain_all:
  assumes "sane s" "drain_policy MAX_CHUNKS run s 0 = (s', Inr t)" "due s \<le> 25000"
  shows "t = due s" "due s' = 0" "sane s'"
  using drain [OF assms(1,2)] assms(3) by (auto simp: MAX_CHUNKS_def CHUNK_SIZE_def)

end

section \<open>The eight policies\<close>

definition tables_ok :: "registry \<Rightarrow> bool" where
  "tables_ok r \<longleftrightarrow>
     otps_ok (d_otps (rg_db r)) \<and> sessions_ok (h_sessions (rg_house r)) \<and> tickets_ok (h_tickets (rg_house r))
     \<and> entries_ok (d_entries (rg_db r)) \<and> distinct (map ml_id (rg_log r)) \<and> bookings_ok (d_bookings (rg_db r))
     \<and> customers_ok (d_customers (rg_db r)) \<and> staff_ok (h_staff (rg_house r))"

lemma tables_distinct:
  assumes "tables_ok r"
  shows "distinct (map o_id (d_otps (rg_db r)))" "distinct (map ss_id (h_sessions (rg_house r)))"
    "distinct (map tk_id (h_tickets (rg_house r)))" "distinct (map w_id (d_entries (rg_db r)))"
    "distinct (map ml_id (rg_log r))" "distinct (map b_id (d_bookings (rg_db r)))"
    "distinct (map c_id (d_customers (rg_db r)))" "distinct (map su_id (h_staff (rg_house r)))"
  using assms by (simp_all add: tables_ok_def otps_ok_def sessions_ok_def tickets_ok_def entries_ok_def bookings_ok_def
      customers_ok_def staff_ok_def)

lemma ok_filter:
  "otps_ok os \<Longrightarrow> otps_ok (filter P1 os)" "sessions_ok ss \<Longrightarrow> sessions_ok (filter P2 ss)"
  "entries_ok ws \<Longrightarrow> entries_ok (filter P3 ws)" "bookings_ok bs \<Longrightarrow> bookings_ok (filter P4 bs)"
  by (auto simp: otps_ok_def sessions_ok_def entries_ok_def bookings_ok_def distinct_map_filter list_all_iff unique_on_filter)

lemma rg_frame [simp]: "rg_house (put_db s r) = (rg_house r)\<lparr>h_db := s\<rparr>" "h_db (rg_house r) = rg_db r"
  by (simp_all add: put_db_def rg_db_def)

text \<open>What each statement writes: its own rows, and nothing the other classes read.\<close>

definition other_tables :: "row_class \<Rightarrow> registry \<Rightarrow> registry \<Rightarrow> bool" where
  "other_tables cls r r' \<longleftrightarrow>
     (cls \<noteq> Otp_codes \<longrightarrow> d_otps (rg_db r') = d_otps (rg_db r))
     \<and> (cls \<noteq> Staff_sessions \<longrightarrow> h_sessions (rg_house r') = h_sessions (rg_house r))
     \<and> (cls \<noteq> Queue_tickets \<longrightarrow> h_tickets (rg_house r') = h_tickets (rg_house r))
     \<and> (cls \<noteq> Waitlist_entries \<longrightarrow> d_entries (rg_db r') = d_entries (rg_db r))
     \<and> (cls \<noteq> Message_log \<longrightarrow> rg_log r' = rg_log r)
     \<and> (cls \<noteq> Old_bookings \<longrightarrow> d_bookings (rg_db r') = d_bookings (rg_db r))
     \<and> (cls \<noteq> Orphan_customers \<longrightarrow> d_customers (rg_db r') = d_customers (rg_db r))
     \<and> (cls \<noteq> Left_staff \<longrightarrow> h_staff (rg_house r') = h_staff (rg_house r) \<and> rg_scrubbed r' = rg_scrubbed r)
     \<and> (\<forall>i. cd_created_at (rg_dossier r' i) = cd_created_at (rg_dossier r i))"

lemma run_policy_frame: "run_policy c cls n r = Inr (r', k) \<Longrightarrow> other_tables cls r r'"
  by (cases cls) (auto simp: run_policy_def Let_def other_tables_def andthen_eq_Inr purge_bookings_def scrub_customers_def
      scrub_staff_def split: prod.splits if_splits)

lemma due_count_other:
  assumes "other_tables cls r r'" "cls' \<noteq> cls" "\<not> (cls = Old_bookings \<and> cls' = Orphan_customers)"
  shows "due_count c cls' r' = due_count c cls' r"
  using assms by (cases cls') (auto simp: due_count_def other_tables_def due_customer_def [abs_def] due_staff_def [abs_def])


lemma purge_bookings_run:
  assumes "distinct (map b_id (d_bookings (rg_db r)))" "purge_bookings c n r = (r', k)"
  shows "k = min n (length (filter (due_booking c) (d_bookings (rg_db r))))"
    "d_bookings (rg_db r') = filter (\<lambda>b. b_id b \<notin> set (page b_id (due_booking c) n (d_bookings (rg_db r)))) (d_bookings (rg_db r))"
  using assms(2) page_hits [OF assms(1), of "due_booking c" n]
  by (auto simp: purge_bookings_def Let_def split: if_splits)

lemma run_policy_counts:
  assumes "tables_ok r" "run_policy c cls n r = Inr (r', k)"
  shows "k = min n (due_count c cls r)" "due_count c cls r' = due_count c cls r - k" "tables_ok r'"
proof -
  note d = tables_distinct [OF assms(1)]
  have "k = min n (due_count c cls r) \<and> due_count c cls r' = due_count c cls r - k"
  proof (cases cls)
    case Otp_codes
    with assms(2) purge_rows_run [OF d(1), of "due_otp c" n] show ?thesis
      by (auto simp: run_policy_def Let_def due_count_def split: prod.splits)
  next
    case Staff_sessions
    with assms(2) purge_rows_run [OF d(2), of "due_session c" n] show ?thesis
      by (auto simp: run_policy_def Let_def due_count_def split: prod.splits)
  next
    case Queue_tickets
    then obtain rows where s: "scrub_rows tickets_ok tk_id (due_ticket c) (nameless_ticket c) n (h_tickets (rg_house r)) = Inr (rows, k)"
      "h_tickets (rg_house r') = rows"
      using assms(2) by (auto simp: run_policy_def Let_def andthen_eq_Inr)
    have "length (filter (due_ticket c) rows) = length (filter (due_ticket c) (h_tickets (rg_house r))) - k"
      unfolding scrub_rows_run(1,2) [OF d(3) s(1)] page_rest [OF d(3), symmetric]
      by (rule length_filter_update) (auto simp: due_ticket_def nameless_ticket_def)
    then show ?thesis using scrub_rows_run(1) [OF d(3) s(1)] Queue_tickets s(2) by (simp add: due_count_def)
  next
    case Waitlist_entries
    with assms(2) purge_rows_run [OF d(4), of "due_entry c" n] show ?thesis
      by (auto simp: run_policy_def Let_def due_count_def split: prod.splits)
  next
    case Message_log
    with assms(2) purge_rows_run [OF d(5), of "due_log c" n] show ?thesis
      by (auto simp: run_policy_def Let_def due_count_def split: prod.splits)
  next
    case Old_bookings
    with assms(2) have "purge_bookings c n r = (r', k)" by (simp add: run_policy_def)
    from purge_bookings_run [OF d(6) this] page_rest [OF d(6), of "due_booking c" n] Old_bookings
    show ?thesis by (simp add: due_count_def filter_filter conj_commute)
  next
    case Orphan_customers
    let ?ids = "page c_id (due_customer c r) n (d_customers (rg_db r))"
    obtain rows where s: "scrub_rows customers_ok c_id (due_customer c r) (nameless_customer c) n (d_customers (rg_db r)) = Inr (rows, k)"
      "d_customers (rg_db r') = rows" "d_bookings (rg_db r') = d_bookings (rg_db r)"
      "\<And>i. cd_created_at (rg_dossier r' i) = cd_created_at (rg_dossier r i)"
      using assms(2) Orphan_customers by (auto simp: run_policy_def Let_def andthen_eq_Inr scrub_customers_def)
    have "length (filter (due_customer c r') rows) = length (filter (due_customer c r) (d_customers (rg_db r))) - k"
      unfolding scrub_rows_run(1,2) [OF d(7) s(1)] page_rest [OF d(7), symmetric]
      by (rule length_filter_update) (auto simp: due_customer_def nameless_customer_def s(3,4))
    then show ?thesis using scrub_rows_run(1) [OF d(7) s(1)] Orphan_customers s(2) by (simp add: due_count_def)
  next
    case Left_staff
    let ?ids = "page su_id (due_staff c r) n (h_staff (rg_house r))"
    obtain rows where s: "scrub_rows staff_ok su_id (due_staff c r) (nameless_staff c) n (h_staff (rg_house r)) = Inr (rows, k)"
      "h_staff (rg_house r') = rows" "rg_scrubbed r' = (\<lambda>i. if i \<in> set ?ids then Some (rr_now c) else rg_scrubbed r i)"
      using assms(2) Left_staff by (auto simp: run_policy_def Let_def andthen_eq_Inr scrub_staff_def)
    have "length (filter (due_staff c r') rows) = length (filter (due_staff c r) (h_staff (rg_house r))) - k"
      unfolding scrub_rows_run(1,2) [OF d(8) s(1)] page_rest [OF d(8), symmetric]
      by (rule length_filter_update) (auto simp: due_staff_def nameless_staff_def s(3))
    then show ?thesis using scrub_rows_run(1) [OF d(8) s(1)] Left_staff s(2) by (simp add: due_count_def)
  qed
  then show "k = min n (due_count c cls r)" "due_count c cls r' = due_count c cls r - k" by auto
  note f = run_policy_frame [OF assms(2), unfolded other_tables_def] and ok = assms(1) [unfolded tables_ok_def]
  show "tables_ok r'"
  proof (cases cls)
    case Otp_codes
    then have "otps_ok (d_otps (rg_db r'))"
      using assms(2) ok by (auto simp: run_policy_def Let_def purge_rows_def ok_filter)
    with f ok Otp_codes show ?thesis by (simp add: tables_ok_def)
  next
    case Staff_sessions
    then have "sessions_ok (h_sessions (rg_house r'))"
      using assms(2) ok by (auto simp: run_policy_def Let_def purge_rows_def ok_filter)
    with f ok Staff_sessions show ?thesis by (simp add: tables_ok_def)
  next
    case Queue_tickets
    then obtain rows where s: "scrub_rows tickets_ok tk_id (due_ticket c) (nameless_ticket c) n (h_tickets (rg_house r)) = Inr (rows, k)"
      "h_tickets (rg_house r') = rows"
      using assms(2) by (auto simp: run_policy_def Let_def andthen_eq_Inr)
    from scrub_rows_run(3) [OF d(3) s(1)] f ok Queue_tickets s(2) show ?thesis by (simp add: tables_ok_def)
  next
    case Waitlist_entries
    then have "entries_ok (d_entries (rg_db r'))"
      using assms(2) ok by (auto simp: run_policy_def Let_def purge_rows_def ok_filter)
    with f ok Waitlist_entries show ?thesis by (simp add: tables_ok_def)
  next
    case Message_log
    then have "distinct (map ml_id (rg_log r'))"
      using assms(2) ok by (auto simp: run_policy_def Let_def purge_rows_def distinct_map_filter)
    with f ok Message_log show ?thesis by (simp add: tables_ok_def)
  next
    case Old_bookings
    with assms(2) have "purge_bookings c n r = (r', k)" by (simp add: run_policy_def)
    from purge_bookings_run(2) [OF d(6) this] ok have "bookings_ok (d_bookings (rg_db r'))" by (simp add: ok_filter)
    with f ok Old_bookings show ?thesis by (simp add: tables_ok_def)
  next
    case Orphan_customers
    then obtain rows where s: "scrub_rows customers_ok c_id (due_customer c r) (nameless_customer c) n (d_customers (rg_db r)) = Inr (rows, k)"
      "d_customers (rg_db r') = rows"
      using assms(2) by (auto simp: run_policy_def Let_def andthen_eq_Inr scrub_customers_def)
    from scrub_rows_run(3) [OF d(7) s(1)] f ok Orphan_customers s(2) show ?thesis by (simp add: tables_ok_def)
  next
    case Left_staff
    then obtain rows where s: "scrub_rows staff_ok su_id (due_staff c r) (nameless_staff c) n (h_staff (rg_house r)) = Inr (rows, k)"
      "h_staff (rg_house r') = rows"
      using assms(2) by (auto simp: run_policy_def Let_def andthen_eq_Inr scrub_staff_def)
    from scrub_rows_run(3) [OF d(8) s(1)] f ok Left_staff s(2) show ?thesis by (simp add: tables_ok_def)
  qed
qed

interpretation rp: paged_policy "due_count c cls" "run_policy c cls" tables_ok for c cls
  by unfold_locales (rule run_policy_counts, assumption+)+

section \<open>A tenant's run\<close>

text \<open>Draining one class leaves every other class as it was, but that deleting bookings can orphan customers.\<close>

lemma due_count_record [simp]: "due_count c cls (rg_record tn a i r) = due_count c cls r" "tables_ok (rg_record tn a i r) = tables_ok r"
  by (cases cls) (simp_all add: due_count_def due_customer_def [abs_def] due_staff_def [abs_def] tables_ok_def)

lemma drain_other:
  "drain_policy fuel (run_policy c cls) r t = (r', Inr t') \<Longrightarrow> cls' \<noteq> cls \<Longrightarrow> \<not> (cls = Old_bookings \<and> cls' = Orphan_customers)
   \<Longrightarrow> due_count c cls' r' = due_count c cls' r"
proof (induction fuel arbitrary: r t)
  case (Suc fuel)
  then obtain r1 k where r: "run_policy c cls CHUNK_SIZE r = Inr (r1, k)" by (auto split: sum.splits)
  have "due_count c cls' r1 = due_count c cls' r" by (rule due_count_other [OF run_policy_frame [OF r] Suc.prems(2,3)])
  with Suc r show ?case by (auto split: if_splits)
qed simp

lemma due_count_size:
  "due_count c cls r \<le> length (d_otps (rg_db r)) + length (h_sessions (rg_house r)) + length (h_tickets (rg_house r))
     + length (d_entries (rg_db r)) + length (rg_log r) + length (d_bookings (rg_db r)) + length (d_customers (rg_db r))
     + length (h_staff (rg_house r))"
  by (cases cls) (simp_all add: due_count_def trans_le_add1 trans_le_add2)

lemma customers_due: "due_count c Orphan_customers r \<le> length (d_customers (rg_db r))"
  by (simp add: due_count_def)

lemma drain_customers_size:
  "drain_policy fuel (run_policy c cls) r t = (r', Inr t') \<Longrightarrow> tables_ok r \<Longrightarrow> length (d_customers (rg_db r')) = length (d_customers (rg_db r))"
proof (induction fuel arbitrary: r t)
  case (Suc fuel)
  then obtain r1 k where r: "run_policy c cls CHUNK_SIZE r = Inr (r1, k)" by (auto split: sum.splits)
  have "length (d_customers (rg_db r1)) = length (d_customers (rg_db r))"
  proof (cases "cls = Orphan_customers")
    case True
    then obtain rows where s: "scrub_rows customers_ok c_id (due_customer c r) (nameless_customer c) CHUNK_SIZE (d_customers (rg_db r)) = Inr (rows, k)"
      "d_customers (rg_db r1) = rows"
      using r by (auto simp: run_policy_def Let_def andthen_eq_Inr scrub_customers_def)
    show ?thesis unfolding s(2) scrub_rows_run(2) [OF tables_distinct(7) [OF Suc.prems(2)] s(1)] by simp
  next
    case False
    with run_policy_frame [OF r] show ?thesis by (simp add: other_tables_def)
  qed
  with Suc.IH [of r1] Suc.prems r run_policy_counts(3) [OF Suc.prems(2) r] show ?case by (auto split: if_splits)
qed simp


section \<open>A run is never refused\<close>

text \<open>A placeholder is worn by nobody but the row it was made for.\<close>

definition own_placeholders :: "retention_run \<Rightarrow> registry \<Rightarrow> bool" where
  "own_placeholders c r \<longleftrightarrow>
     (\<forall>x\<in>set (d_customers (rg_db r)). \<forall>i. c_phone x = erased_phone (rr_show_id c) i \<longrightarrow> i = c_id x)"

lemma own_placeholders_record [simp]: "own_placeholders c (rg_record tn a i r) = own_placeholders c r"
  by (simp add: own_placeholders_def)

lemma erased_phone_inj: "inj show_id \<Longrightarrow> erased_phone show_id i = erased_phone show_id j \<longleftrightarrow> i = j"
  by (auto simp: erased_phone_def dest: injD)

lemma unique_onI:
  assumes "distinct (map ident rows)"
    "\<forall>x\<in>set rows. \<forall>y\<in>set rows. P x \<longrightarrow> P y \<longrightarrow> key x = key y \<longrightarrow> ident x = ident y"
  shows "unique_on P key rows"
  using assms by (induction rows) (auto simp: image_iff)

lemma customers_ok_nameless:
  assumes "customers_ok rows" "inj (rr_show_id c)"
    "\<forall>x\<in>set rows. \<forall>i. c_phone x = erased_phone (rr_show_id c) i \<longrightarrow> i = c_id x"
  shows "customers_ok (update_where (\<lambda>x. c_id x \<in> ids) (nameless_customer c) rows)"
proof -
  have d: "distinct (map c_id rows)" and q: "unique_on (\<lambda>c. \<not> c_deleted c) (\<lambda>c. (c_tenant c, c_phone c)) rows"
    and w: "list_all (\<lambda>c. c_withdrawn_at c = None \<or> c_consent_at c \<noteq> None) rows"
    using assms(1) by (simp_all add: customers_ok_def)
  have d': "distinct (map c_id (update_where (\<lambda>x. c_id x \<in> ids) (nameless_customer c) rows))"
    using d by (simp add: map_update_where nameless_customer_def)
  let ?g = "\<lambda>x. if c_id x \<in> ids then nameless_customer c x else x"
  have "unique_on (\<lambda>c. \<not> c_deleted c) (\<lambda>c. (c_tenant c, c_phone c)) (update_where (\<lambda>x. c_id x \<in> ids) (nameless_customer c) rows)"
  proof (rule unique_onI [OF d'], unfold ball_update_where, intro ballI impI)
    fix x y assume xy: "x \<in> set rows" "y \<in> set rows" "\<not> c_deleted (?g x)" "\<not> c_deleted (?g y)"
      "(c_tenant (?g x), c_phone (?g x)) = (c_tenant (?g y), c_phone (?g y))"
    have same: "x = y" if "c_tenant x = c_tenant y" "c_phone x = c_phone y" "\<not> c_deleted x" "\<not> c_deleted y"
      using unique_onD [OF q xy(1,2)] that by simp
    have own: "c_phone z = erased_phone (rr_show_id c) i \<Longrightarrow> i = c_id z" if "z \<in> set rows" for z i using assms(3) that by blast
    show "c_id (?g x) = c_id (?g y)"
    proof (cases "c_id x \<in> ids"; cases "c_id y \<in> ids")
      assume "c_id x \<in> ids" "c_id y \<in> ids"
      then show ?thesis using xy(5) by (simp add: nameless_customer_def erased_phone_inj [OF assms(2)])
    next
      assume "c_id x \<in> ids" "c_id y \<notin> ids"
      then show ?thesis using xy(5) own [OF xy(2), of "c_id x"] by (simp add: nameless_customer_def)
    next
      assume "c_id x \<notin> ids" "c_id y \<in> ids"
      then show ?thesis using xy(5) own [OF xy(1), of "c_id y"] by (simp add: nameless_customer_def)
    next
      assume "c_id x \<notin> ids" "c_id y \<notin> ids"
      then show ?thesis using xy same by simp
    qed
  qed
  moreover have "list_all (\<lambda>c. c_withdrawn_at c = None \<or> c_consent_at c \<noteq> None) (update_where (\<lambda>x. c_id x \<in> ids) (nameless_customer c) rows)"
    by (rule list_all_update_where [OF w]) (auto simp: nameless_customer_def)
  ultimately show ?thesis using d' by (simp add: customers_ok_def)
qed

lemma staff_ok_nameless:
  assumes "staff_ok rows" "\<forall>x\<in>set rows. su_id x \<in> ids \<longrightarrow> su_deleted x"
  shows "staff_ok (update_where (\<lambda>x. su_id x \<in> ids) (nameless_staff c) rows)"
proof -
  have "unique_on (\<lambda>r. \<not> su_deleted r) (\<lambda>r. (su_tenant r, su_email r)) (update_where (\<lambda>x. su_id x \<in> ids) (nameless_staff c) rows)"
    if "unique_on (\<lambda>r. \<not> su_deleted r) (\<lambda>r. (su_tenant r, su_email r)) rows"
    using that assms(2) by (induction rows) (auto simp: ball_update_where nameless_staff_def)
  with assms(1) show ?thesis
    by (auto simp: staff_ok_def map_update_where nameless_staff_def staff_row_ok_def intro!: list_all_update_where)
qed

lemma scrub_rows_ok:
  assumes "ok (update_where (\<lambda>x. key x \<in> set (page key P n rows)) f rows)"
  shows "\<exists>rows' k. scrub_rows ok key P f n rows = Inr (rows', k)"
  using assms by (auto simp: scrub_rows_def Let_def andthen_eq_Inr update_rows_Inr)

lemma policy_commits:
  assumes "tables_ok r" "inj (rr_show_id c)" "own_placeholders c r"
  shows "\<exists>r' k. run_policy c cls n r = Inr (r', k) \<and> own_placeholders c r'"
proof -
  note d = tables_distinct [OF assms(1)] and ok = assms(1) [unfolded tables_ok_def]
  consider "cls = Queue_tickets" | "cls = Orphan_customers" | "cls = Left_staff"
    | "cls \<notin> {Queue_tickets, Orphan_customers, Left_staff}" by blast
  then show ?thesis
  proof cases
    case 1
    have "tickets_ok (update_where P (nameless_ticket c) (h_tickets (rg_house r)))" for P
      using ok by (auto simp: tickets_ok_def map_update_where nameless_ticket_def intro!: list_all_update_where)
    then obtain rows k where s: "scrub_rows tickets_ok tk_id (due_ticket c) (nameless_ticket c) n (h_tickets (rg_house r)) = Inr (rows, k)"
      using scrub_rows_ok by metis
    from s 1 assms(3) show ?thesis by (simp add: run_policy_def Let_def own_placeholders_def)
  next
    case 2
    obtain rows k where s: "scrub_rows customers_ok c_id (due_customer c r) (nameless_customer c) n (d_customers (rg_db r)) = Inr (rows, k)"
      using scrub_rows_ok customers_ok_nameless [OF _ assms(2) assms(3) [unfolded own_placeholders_def]] ok by metis
    have "\<forall>x\<in>set rows. \<forall>i. c_phone x = erased_phone (rr_show_id c) i \<longrightarrow> i = c_id x"
      unfolding scrub_rows_run(2) [OF d(7) s] ball_update_where
      using assms(3) erased_phone_inj [OF assms(2)] by (auto simp: own_placeholders_def nameless_customer_def)
    with s 2 show ?thesis by (simp add: run_policy_def Let_def scrub_customers_def own_placeholders_def)
  next
    case 3
    have "staff_ok (update_where (\<lambda>x. su_id x \<in> set (page su_id (due_staff c r) n (h_staff (rg_house r)))) (nameless_staff c) (h_staff (rg_house r)))"
    proof (rule staff_ok_nameless, use ok in blast, intro ballI impI)
      fix x assume "x \<in> set (h_staff (rg_house r))" "su_id x \<in> set (page su_id (due_staff c r) n (h_staff (rg_house r)))"
      then have "due_staff c r x" by (rule page_facts(3) [OF d(8)])
      then show "su_deleted x" by (simp add: due_staff_def)
    qed
    then obtain rows k where s: "scrub_rows staff_ok su_id (due_staff c r) (nameless_staff c) n (h_staff (rg_house r)) = Inr (rows, k)"
      using scrub_rows_ok by metis
    from s 3 assms(3) show ?thesis by (simp add: run_policy_def Let_def scrub_staff_def own_placeholders_def)
  next
    case 4
    then obtain r' k where run: "run_policy c cls n r = Inr (r', k)"
      by (cases cls; cases "purge_bookings c n r") (auto simp: run_policy_def Let_def purge_rows_def)
    with run_policy_frame [OF run] 4 assms(3) show ?thesis by (simp add: other_tables_def own_placeholders_def)
  qed
qed

lemma drain_commits:
  "tables_ok r \<Longrightarrow> inj (rr_show_id c) \<Longrightarrow> own_placeholders c r \<Longrightarrow>
   \<exists>r' k. drain_policy fuel (run_policy c cls) r t = (r', Inr k) \<and> own_placeholders c r'"
proof (induction fuel arbitrary: r t)
  case (Suc fuel)
  obtain r1 k where r: "run_policy c cls CHUNK_SIZE r = Inr (r1, k)" "own_placeholders c r1"
    using policy_commits [OF Suc.prems] by blast
  show ?case using Suc.IH [OF run_policy_counts(3) [OF Suc.prems(1) r(1)] Suc.prems(2) r(2)] r by simp
qed simp

section \<open>Nothing is left\<close>

fun ordered_policies :: "row_class list \<Rightarrow> bool" where
  "ordered_policies [] = True"
| "ordered_policies (p # ps) \<longleftrightarrow> p \<notin> set ps \<and> (p = Orphan_customers \<longrightarrow> Old_bookings \<notin> set ps) \<and> ordered_policies ps"

lemma run_policies_done:
  assumes "ordered_policies ps" "tables_ok r" "inj (rr_show_id c)" "own_placeholders c r"
    "\<forall>cls\<in>set ps. cls \<noteq> Orphan_customers \<longrightarrow> due_count c cls r \<le> 25000" "length (d_customers (rg_db r)) \<le> 25000"
  shows "\<exists>r' out. run_policies c ps r touched = (r', Inr out) \<and> tables_ok r' \<and> (\<forall>cls\<in>set ps. due_count c cls r' = 0)
    \<and> (\<forall>cls. cls \<notin> set ps \<longrightarrow> \<not> (cls = Orphan_customers \<and> Old_bookings \<in> set ps) \<longrightarrow> due_count c cls r' = due_count c cls r)"
  using assms
proof (induction ps arbitrary: r touched)
  case (Cons p ps)
  obtain r1 k where dr: "drain_policy MAX_CHUNKS (run_policy c p) r 0 = (r1, Inr k)" and own: "own_placeholders c r1"
    using drain_commits [OF Cons.prems(2-4)] by blast
  have small: "due_count c p r \<le> 25000"
  proof (cases "p = Orphan_customers")
    case True
    then show ?thesis using customers_due [of c r] Cons.prems(6) by simp
  qed (use Cons.prems(5) in simp)
  note one = rp.drain_all [OF Cons.prems(2) dr small]
  let ?r2 = "if k = 0 then r1 else rg_record (rr_tenant c) (Privacy_action (Retention p)) None r1"
  have step: "run_policies c (p # ps) r touched = run_policies c ps ?r2 (if k = 0 then touched else touched @ [(p, k)])"
    by (simp add: dr)
  have same: "due_count c cls r1 = due_count c cls r" if "cls \<noteq> p" "\<not> (p = Old_bookings \<and> cls = Orphan_customers)" for cls
    by (rule drain_other [OF dr that])
  have "due_count c cls ?r2 \<le> 25000" if "cls \<in> set ps" "cls \<noteq> Orphan_customers" for cls
  proof -
    have "cls \<noteq> p" using Cons.prems(1) that(1) by auto
    then show ?thesis using Cons.prems(5) same [of cls] that by simp
  qed
  then have "\<forall>cls\<in>set ps. cls \<noteq> Orphan_customers \<longrightarrow> due_count c cls ?r2 \<le> 25000" by blast
  moreover have "length (d_customers (rg_db ?r2)) \<le> 25000" using drain_customers_size [OF dr Cons.prems(2)] Cons.prems(6) by simp
  moreover have "tables_ok ?r2" "own_placeholders c ?r2" using one(3) own by simp_all
  ultimately obtain r' out where rest: "run_policies c ps ?r2 (if k = 0 then touched else touched @ [(p, k)]) = (r', Inr out)"
    "tables_ok r'" "\<forall>cls\<in>set ps. due_count c cls r' = 0"
    "\<forall>cls. cls \<notin> set ps \<longrightarrow> \<not> (cls = Orphan_customers \<and> Old_bookings \<in> set ps) \<longrightarrow> due_count c cls r' = due_count c cls ?r2"
    using Cons.IH [of ?r2 "if k = 0 then touched else touched @ [(p, k)]"] Cons.prems(1,3) by auto
  have "due_count c p r' = 0"
    using rest(4) Cons.prems(1) one(2) by auto
  moreover have "due_count c cls r' = due_count c cls r" if "cls \<notin> set (p # ps)"
    "\<not> (cls = Orphan_customers \<and> Old_bookings \<in> set (p # ps))" for cls
    using rest(4) same [of cls] that by auto
  ultimately show ?case using step rest(1-3) by auto
qed simp

text \<open>C4. A tenant's retention run is never refused by a constraint and leaves nothing due: whatever the tables hold, as long as
  no class has a backlog beyond fifty chunks, afterwards no code, session, ticket, entry, text, booking, customer or
  member of the tenant that is due is left, customers orphaned by the same run included.\<close>

theorem retention_leaves_nothing_due:
  assumes "tables_ok r" "inj (rr_show_id c)" "own_placeholders c r"
    and "\<forall>cls. cls \<noteq> Orphan_customers \<longrightarrow> due_count c cls r \<le> 25000" "length (d_customers (rg_db r)) \<le> 25000"
  shows "\<exists>r' touched. run_for_tenant c False r = (r', Inr touched) \<and> tables_ok r' \<and> (\<forall>cls. due_count c cls r' = 0)"
proof -
  have "ordered_policies POLICIES" by (simp add: POLICIES_def)
  from run_policies_done [OF this assms(1-3) _ assms(5), of "[]"] assms(4) obtain r' out where
    r: "run_policies c POLICIES r [] = (r', Inr out)" "tables_ok r'" "\<forall>cls\<in>set POLICIES. due_count c cls r' = 0" by blast
  have "cls \<in> set POLICIES" for cls by (cases cls) (simp_all add: POLICIES_def)
  with r show ?thesis by (simp add: run_for_tenant_def)
qed


text \<open>A shop with a customer whose one visit is long past.\<close>

definition yearly :: retention_run where
  "yearly =
     \<lparr>rr_zone = e_zone sample_env, rr_show_id = (\<lambda>i. [i]),
      rr_settings = \<lparr>rs_otp_seconds = 1, rs_ticket_seconds = 1, rs_waitlist_days = 1, rs_log_seconds = 1,
        rs_booking_seconds = 1, rs_orphan_seconds = 1, rs_staff_days = 1\<rparr>,
      rr_now = hours 8, rr_tenant = 4\<rparr>"

theorem retention_leaves_nothing_due_witness:
  "due_count yearly Old_bookings remembered = 1 \<and> due_count yearly Orphan_customers remembered = 0
   \<and> (\<exists>r' touched. run_for_tenant yearly False remembered = (r', Inr touched) \<and> (\<forall>cls. due_count yearly cls r' = 0))"
proof -
  have due: "due_count yearly Old_bookings remembered = 1" "due_count yearly Orphan_customers remembered = 0" by code_simp+
  have sizes: "length (d_otps (rg_db remembered)) + length (h_sessions (rg_house remembered)) + length (h_tickets (rg_house remembered))
     + length (d_entries (rg_db remembered)) + length (rg_log remembered) + length (d_bookings (rg_db remembered))
     + length (d_customers (rg_db remembered)) + length (h_staff (rg_house remembered)) \<le> 20" by code_simp
  have small: "due_count yearly cls remembered \<le> 25000" for cls
    by (rule order.trans [OF due_count_size order.trans [OF sizes]]) simp
  have one: "inj (rr_show_id yearly)" by (simp add: yearly_def inj_def)
  have "\<forall>i. c_phone her_row = erased_phone (rr_show_id yearly) i \<longrightarrow> i = c_id her_row"
  proof -
    have "take 7 (c_phone her_row) \<noteq> ERASED_PHONE_PREFIX" by code_simp
    moreover have "length ERASED_PHONE_PREFIX = 7" by code_simp
    ultimately show ?thesis by (metis append_eq_conv_conj erased_phone_def)
  qed
  moreover have "set (d_customers (rg_db remembered)) = {her_row}" by (simp add: remembered_def her_row_def rg_db_def)
  ultimately have own: "own_placeholders yearly remembered" by (simp add: own_placeholders_def)
  have ok: "tables_ok remembered" by code_simp
  have "length (d_customers (rg_db remembered)) \<le> 25000" by (simp add: remembered_def rg_db_def)
  from retention_leaves_nothing_due [OF ok one own _ this] small due show ?thesis by blast
qed

end
