(* ===== verification/Boutique.thy ===== *)
theory Boutique
  imports Protocol Privacy
begin

text \<open>
  What an owner sets up: appointment types, weekly hours and exception days, the cancellation terms, and the
  blocks of \<open>tenants.settings\<close> (\<open>app/boutique/service.py\<close>, \<open>validation.py\<close>, \<open>toggles.py\<close> and the repositories
  \<open>appointment_types.py\<close>, \<open>availability.py\<close>, \<open>terms.py\<close>, \<open>tenants.py\<close>). The constraints are those of
  migration 0005. \<open>urlsplit\<close> (a URL's scheme and host) and what a regular expression's \<open>\\d\<close> accepts are
  arguments. A stored block is an object: \<open>merge_settings\<close> is its only writer.
\<close>

section \<open>Constraints\<close>

definition type_row_ok :: "appointment_type \<Rightarrow> bool" where
  "type_row_ok t \<longleftrightarrow> 0 < t_duration t \<and> (case t_deposit_amount t of None \<Rightarrow> True | Some a \<Rightarrow> 0 < a)"

definition types_ok :: "appointment_type list \<Rightarrow> bool" where
  "types_ok rows \<longleftrightarrow>
     distinct (map t_id rows) \<and> list_all type_row_ok rows
     \<and> unique_on (\<lambda>t. \<not> t_deleted t) (\<lambda>t. (t_tenant t, t_name t)) rows"

definition rule_row_ok :: "availability_rule \<Rightarrow> bool" where
  "rule_row_ok r \<longleftrightarrow> 0 \<le> r_day_of_week r \<and> r_day_of_week r \<le> 6 \<and> 0 < r_capacity r \<and> r_close r > r_open r"

definition rules_ok :: "availability_rule list \<Rightarrow> bool" where
  "rules_ok rows \<longleftrightarrow> list_all rule_row_ok rows"

definition exceptions_ok :: "availability_exception list \<Rightarrow> bool" where
  "exceptions_ok rows \<longleftrightarrow>
     distinct (map x_id rows) \<and> unique_on (\<lambda>x. \<not> x_deleted x) (\<lambda>x. (x_tenant x, x_date x)) rows"

definition terms_row_ok :: "terms_version \<Rightarrow> bool" where
  "terms_row_ok v \<longleftrightarrow>
     0 < v_version v \<and> 0 \<le> v_refundable_until_hours v \<and> 0 \<le> v_forfeit_percent v \<and> v_forfeit_percent v \<le> 100"

definition terms_ok :: "terms_version list \<Rightarrow> bool" where
  "terms_ok rows \<longleftrightarrow>
     list_all terms_row_ok rows \<and> unique_on (\<lambda>_. True) (\<lambda>v. (v_tenant v, v_version v)) rows"

section \<open>Appointment types\<close>

definition MAX_APPOINTMENT_TYPE_NAME_LENGTH :: nat where "MAX_APPOINTMENT_TYPE_NAME_LENGTH = 200"
definition MAX_DURATION_MINUTES :: int where "MAX_DURATION_MINUTES = 24 * 60"
definition MAX_DEPOSIT_AMOUNT_AGOROT :: int where "MAX_DEPOSIT_AMOUNT_AGOROT = 100000000"
definition MAX_TYPE_SORT_ORDER :: int where "MAX_TYPE_SORT_ORDER = 1000000"

definition AUDIENCE_VALUES :: "string list" where "AUDIENCE_VALUES = [''all'', ''brides_only'']"

record type_form =
  tf_name :: utext
  tf_duration :: int
  tf_audience :: string
  tf_deposit_required :: bool
  tf_deposit_amount :: "int option"
  tf_sort_order :: int

definition validate_appointment_type :: "type_form \<Rightarrow> error + unit" where
  "validate_appointment_type f =
     andthen (ensure (Domain_validation ''name must not be blank'') (ustrip (tf_name f) \<noteq> [])) (\<lambda>_.
     andthen (ensure (Domain_validation ''name is too long'')
                (\<not> length (tf_name f) > MAX_APPOINTMENT_TYPE_NAME_LENGTH)) (\<lambda>_.
     andthen (ensure (Domain_validation ''duration_minutes must be between 1 and 1440'')
                (0 < tf_duration f \<and> tf_duration f \<le> MAX_DURATION_MINUTES)) (\<lambda>_.
     andthen (ensure (Domain_validation ''audience must be one of: all, brides_only'')
                (tf_audience f \<in> set AUDIENCE_VALUES)) (\<lambda>_.
     andthen (ensure (Domain_validation ''deposit_amount_agorot is required when deposit_required'')
                (\<not> (tf_deposit_required f \<and> (case tf_deposit_amount f of None \<Rightarrow> True | Some a \<Rightarrow> a \<le> 0)))) (\<lambda>_.
     andthen (ensure (Domain_validation ''deposit_amount_agorot is out of bounds'')
                (case tf_deposit_amount f of None \<Rightarrow> True | Some a \<Rightarrow> 0 < a \<and> a \<le> MAX_DEPOSIT_AMOUNT_AGOROT)) (\<lambda>_.
     ensure (Domain_validation ''sort_order is out of bounds'') (\<bar>tf_sort_order f\<bar> \<le> MAX_TYPE_SORT_ORDER)))))))"

text \<open>\<open>except IntegrityError\<close>.\<close>

definition on_integrity :: "error \<Rightarrow> error + 'a \<Rightarrow> error + 'a" where
  "on_integrity err res = (case res of Inl Integrity_error \<Rightarrow> Inl err | _ \<Rightarrow> res)"

definition list_active_types :: "uuid \<Rightarrow> db \<Rightarrow> appointment_type list" where
  "list_active_types tn s =
     sort_key (\<lambda>t. (t_sort_order t, t_created_at t)) (filter (\<lambda>t. t_tenant t = tn \<and> \<not> t_deleted t) (d_types s))"

definition insert_type :: "uuid \<Rightarrow> type_form \<Rightarrow> db \<Rightarrow> error + db \<times> appointment_type" where
  "insert_type tn f s =
     (let row = \<lparr>t_id = d_next s, t_tenant = tn, t_name = tf_name f, t_duration = tf_duration f,
                 t_deposit_required = tf_deposit_required f, t_deposit_amount = tf_deposit_amount f,
                 t_audience = tf_audience f, t_sort_order = tf_sort_order f, t_created_at = d_now s, t_deleted = False\<rparr> in
      andthen (insert_row types_ok row (d_types s)) (\<lambda>rows.
      Inr (s\<lparr>d_types := rows, d_next := d_next s + 1\<rparr>, row)))"

definition type_named :: "uuid \<Rightarrow> uuid \<Rightarrow> appointment_type \<Rightarrow> bool" where
  "type_named tn i t \<longleftrightarrow> t_tenant t = tn \<and> t_id t = i \<and> \<not> t_deleted t"

definition fill_type :: "type_form \<Rightarrow> appointment_type \<Rightarrow> appointment_type" where
  "fill_type f t =
     t\<lparr>t_name := tf_name f, t_duration := tf_duration f, t_audience := tf_audience f,
       t_deposit_required := tf_deposit_required f, t_deposit_amount := tf_deposit_amount f,
       t_sort_order := tf_sort_order f\<rparr>"

definition update_type_fields :: "uuid \<Rightarrow> uuid \<Rightarrow> type_form \<Rightarrow> db \<Rightarrow> error + db \<times> appointment_type option" where
  "update_type_fields tn i f s =
     (case find (type_named tn i) (d_types s) of
        None \<Rightarrow> Inr (s, None)
      | Some t \<Rightarrow>
          andthen (update_rows types_ok (type_named tn i) (fill_type f) (d_types s)) (\<lambda>(rows, _).
          Inr (s\<lparr>d_types := rows\<rparr>, Some (fill_type f t))))"

definition drop_type :: "uuid \<Rightarrow> uuid \<Rightarrow> db \<Rightarrow> error + db \<times> bool" where
  "drop_type tn i s =
     andthen (update_rows types_ok (type_named tn i) (\<lambda>t. t\<lparr>t_deleted := True\<rparr>) (d_types s)) (\<lambda>(rows, hit).
     Inr (s\<lparr>d_types := rows\<rparr>, hit))"

definition create_appointment_type :: "uuid \<Rightarrow> type_form \<Rightarrow> db \<Rightarrow> error + db \<times> appointment_type" where
  "create_appointment_type tn f s =
     andthen (validate_appointment_type f) (\<lambda>_.
     on_integrity (Boutique_error Duplicate_name) (insert_type tn f s))"

definition update_appointment_type :: "uuid \<Rightarrow> uuid \<Rightarrow> type_form \<Rightarrow> db \<Rightarrow> error + db \<times> appointment_type" where
  "update_appointment_type tn i f s =
     andthen (validate_appointment_type f) (\<lambda>_.
     andthen (on_integrity (Boutique_error Duplicate_name) (update_type_fields tn i f s)) (\<lambda>(s', updated).
     andthen (need (Boutique_error Boutique_not_found) updated) (\<lambda>t. Inr (s', t))))"

definition archive_appointment_type :: "uuid \<Rightarrow> uuid \<Rightarrow> db \<Rightarrow> error + db \<times> unit" where
  "archive_appointment_type tn i s =
     andthen (drop_type tn i s) (\<lambda>(s', archived).
     andthen (ensure (Boutique_error Boutique_not_found) archived) (\<lambda>_. Inr (s', ())))"

section \<open>Weekly hours\<close>

definition MAX_WEEKLY_RULES :: nat where "MAX_WEEKLY_RULES = 50"
definition MAX_RULE_CAPACITY :: int where "MAX_RULE_CAPACITY = 1000"

record weekly_rule =
  wr_day :: int
  wr_open :: wall
  wr_close :: wall
  wr_capacity :: int

fun each_rule_ok :: "weekly_rule list \<Rightarrow> error + unit" where
  "each_rule_ok [] = Inr ()"
| "each_rule_ok (r # rs) =
     andthen (ensure (Domain_validation ''day_of_week must be between 0 and 6'') (0 \<le> wr_day r \<and> wr_day r \<le> 6)) (\<lambda>_.
     andthen (ensure (Domain_validation ''close_time must be after open_time'') (\<not> wr_close r \<le> wr_open r)) (\<lambda>_.
     andthen (ensure (Domain_validation ''capacity must be between 1 and 1000'')
                (0 < wr_capacity r \<and> wr_capacity r \<le> MAX_RULE_CAPACITY)) (\<lambda>_.
     each_rule_ok rs)))"

text \<open>\<open>itertools.pairwise\<close> over the windows of one day, in order.\<close>

fun windows_apart :: "weekly_rule list \<Rightarrow> bool" where
  "windows_apart (a # b # rs) \<longleftrightarrow> \<not> wr_open b < wr_close a \<and> windows_apart (b # rs)"
| "windows_apart _ \<longleftrightarrow> True"

definition day_ordered :: "int \<Rightarrow> weekly_rule list \<Rightarrow> weekly_rule list" where
  "day_ordered day rules = sort_key (\<lambda>r. (wr_open r, wr_close r)) (filter (\<lambda>r. wr_day r = day) rules)"

definition validate_weekly_rules :: "weekly_rule list \<Rightarrow> error + unit" where
  "validate_weekly_rules rules =
     andthen (ensure (Domain_validation ''at most 50 weekly windows are allowed'') (\<not> length rules > MAX_WEEKLY_RULES)) (\<lambda>_.
     andthen (each_rule_ok rules) (\<lambda>_.
     ensure (Domain_validation ''windows on the same day must not overlap'')
       (list_all (\<lambda>day. windows_apart (day_ordered day rules)) (remdups (map wr_day rules)))))"

definition rule_row :: "uuid \<Rightarrow> weekly_rule \<Rightarrow> availability_rule" where
  "rule_row tn r =
     \<lparr>r_tenant = tn, r_day_of_week = wr_day r, r_open = wr_open r, r_close = wr_close r, r_capacity = wr_capacity r,
      r_deleted = False\<rparr>"

fun insert_rules :: "uuid \<Rightarrow> weekly_rule list \<Rightarrow> db \<Rightarrow> error + db \<times> availability_rule list" where
  "insert_rules tn [] s = Inr (s, [])"
| "insert_rules tn (r # rs) s =
     andthen (insert_row rules_ok (rule_row tn r) (d_rules s)) (\<lambda>rows.
     andthen (insert_rules tn rs (s\<lparr>d_rules := rows\<rparr>)) (\<lambda>(s', done).
     Inr (s', rule_row tn r # done)))"

definition drop_rules :: "uuid \<Rightarrow> db \<Rightarrow> db" where
  "drop_rules tn s =
     s\<lparr>d_rules := update_where (\<lambda>r. r_tenant r = tn \<and> \<not> r_deleted r) (\<lambda>r. r\<lparr>r_deleted := True\<rparr>) (d_rules s)\<rparr>"

definition replace_weekly_rules :: "uuid \<Rightarrow> weekly_rule list \<Rightarrow> db \<Rightarrow> error + db \<times> availability_rule list" where
  "replace_weekly_rules tn rules s =
     andthen (validate_weekly_rules rules) (\<lambda>_. insert_rules tn rules (drop_rules tn s))"

section \<open>Exception days\<close>

definition MAX_EXCEPTION_NOTE_LENGTH :: nat where "MAX_EXCEPTION_NOTE_LENGTH = 500"

definition validate_exception_times :: "wall option \<Rightarrow> wall option \<Rightarrow> error + unit" where
  "validate_exception_times opens closes =
     andthen (ensure (Domain_validation
                ''open_time and close_time must both be set (special hours) or both be empty (closed all day)'')
                ((opens = None) = (closes = None))) (\<lambda>_.
     ensure (Domain_validation ''close_time must be after open_time'')
       (\<not> (case (opens, closes) of (Some o', Some c) \<Rightarrow> c \<le> o' | _ \<Rightarrow> False)))"

definition validate_exception_note :: "utext option \<Rightarrow> error + unit" where
  "validate_exception_note note =
     ensure (Domain_validation ''note is too long'')
       (\<not> (case note of None \<Rightarrow> False | Some n \<Rightarrow> length n > MAX_EXCEPTION_NOTE_LENGTH))"

definition insert_exception ::
  "uuid \<Rightarrow> date \<Rightarrow> wall option \<Rightarrow> wall option \<Rightarrow> utext option \<Rightarrow> db \<Rightarrow> error + db \<times> availability_exception" where
  "insert_exception tn day opens closes note s =
     (let row = \<lparr>x_id = d_next s, x_tenant = tn, x_date = day, x_open = opens, x_close = closes, x_note = note,
                 x_deleted = False\<rparr> in
      andthen (insert_row exceptions_ok row (d_exceptions s)) (\<lambda>rows.
      Inr (s\<lparr>d_exceptions := rows, d_next := d_next s + 1\<rparr>, row)))"

definition exception_named :: "uuid \<Rightarrow> uuid \<Rightarrow> availability_exception \<Rightarrow> bool" where
  "exception_named tn i x \<longleftrightarrow> x_tenant x = tn \<and> x_id x = i \<and> \<not> x_deleted x"

definition drop_exception :: "uuid \<Rightarrow> uuid \<Rightarrow> db \<Rightarrow> error + db \<times> bool" where
  "drop_exception tn i s =
     andthen (update_rows exceptions_ok (exception_named tn i) (\<lambda>x. x\<lparr>x_deleted := True\<rparr>) (d_exceptions s)) (\<lambda>(rows, hit).
     Inr (s\<lparr>d_exceptions := rows\<rparr>, hit))"

definition add_availability_exception ::
  "uuid \<Rightarrow> date \<Rightarrow> wall option \<Rightarrow> wall option \<Rightarrow> utext option \<Rightarrow> db \<Rightarrow> error + db \<times> availability_exception" where
  "add_availability_exception tn day opens closes note s =
     andthen (validate_exception_times opens closes) (\<lambda>_.
     andthen (validate_exception_note note) (\<lambda>_.
     on_integrity (Boutique_error Duplicate_date) (insert_exception tn day opens closes note s)))"

definition remove_availability_exception :: "uuid \<Rightarrow> uuid \<Rightarrow> db \<Rightarrow> error + db \<times> unit" where
  "remove_availability_exception tn i s =
     andthen (drop_exception tn i s) (\<lambda>(s', removed).
     andthen (ensure (Boutique_error Boutique_not_found) removed) (\<lambda>_. Inr (s', ())))"

definition get_availability :: "uuid \<Rightarrow> db \<Rightarrow> availability_rule list \<times> availability_exception list" where
  "get_availability tn s =
     (list_active_rules tn s, sort_key x_date (filter (\<lambda>x. x_tenant x = tn \<and> \<not> x_deleted x) (d_exceptions s)))"

section \<open>Terms\<close>

definition MAX_TERMS_TEXT_BYTES :: nat where "MAX_TERMS_TEXT_BYTES = 50 * 1024"
definition MAX_REFUNDABLE_HOURS :: int where "MAX_REFUNDABLE_HOURS = 24 * 365 * 10"
definition TERMS_HISTORY_DEFAULT_LIMIT :: int where "TERMS_HISTORY_DEFAULT_LIMIT = 50"

record terms_form =
  vf_text :: utext
  vf_hours :: int
  vf_forfeit :: int

definition validate_terms :: "terms_form \<Rightarrow> error + unit" where
  "validate_terms f =
     andthen (ensure (Domain_validation ''terms_text must not be blank'') (ustrip (vf_text f) \<noteq> [])) (\<lambda>_.
     andthen (encoded_length (vf_text f)) (\<lambda>n.
     andthen (ensure (Domain_validation ''terms_text exceeds 50 KB'') (\<not> n > MAX_TERMS_TEXT_BYTES)) (\<lambda>_.
     andthen (ensure (Domain_validation ''refundable_until_hours_before must be between 0 and 87600'')
                (0 \<le> vf_hours f \<and> vf_hours f \<le> MAX_REFUNDABLE_HOURS)) (\<lambda>_.
     ensure (Domain_validation ''forfeit_percent must be between 0 and 100'') (0 \<le> vf_forfeit f \<and> vf_forfeit f \<le> 100)))))"

definition live_terms :: "uuid \<Rightarrow> db \<Rightarrow> terms_version list" where
  "live_terms tn s = filter (\<lambda>v. v_tenant v = tn \<and> \<not> v_deleted v) (d_terms s)"

definition max_version :: "uuid \<Rightarrow> db \<Rightarrow> int" where
  "max_version tn s = (case map v_version (live_terms tn s) of [] \<Rightarrow> 0 | v # vs \<Rightarrow> foldl max v vs)"

definition insert_terms :: "uuid \<Rightarrow> int \<Rightarrow> terms_form \<Rightarrow> uuid \<Rightarrow> db \<Rightarrow> error + db \<times> terms_version" where
  "insert_terms tn version f by_whom s =
     (let row = \<lparr>v_tenant = tn, v_version = version, v_refundable_until_hours = vf_hours f,
                 v_forfeit_percent = vf_forfeit f, v_text = vf_text f, v_created_by = by_whom, v_deleted = False\<rparr> in
      andthen (insert_row terms_ok row (d_terms s)) (\<lambda>rows. Inr (s\<lparr>d_terms := rows\<rparr>, row)))"

definition list_versions :: "uuid \<Rightarrow> nat \<Rightarrow> nat \<Rightarrow> db \<Rightarrow> terms_version list" where
  "list_versions tn offset limit s = take limit (drop offset (rev (sort_key v_version (live_terms tn s))))"

text \<open>The highest version is read, then the row is inserted; \<open>meanwhile\<close> is what others commit between the two.\<close>

definition insert_next_terms_version ::
  "uuid \<Rightarrow> terms_form \<Rightarrow> uuid \<Rightarrow> (db \<Rightarrow> db) \<Rightarrow> db \<Rightarrow> error + db \<times> terms_version" where
  "insert_next_terms_version tn f by_whom meanwhile s =
     insert_terms tn (max_version tn s + 1) f by_whom (meanwhile s)"

definition create_terms_version ::
  "limiter_cfg \<Rightarrow> uuid \<Rightarrow> terms_form \<Rightarrow> uuid \<Rightarrow> int \<Rightarrow> (db \<Rightarrow> db) \<Rightarrow> (db \<Rightarrow> db) \<Rightarrow> (db \<Rightarrow> db) \<Rightarrow> uuid limiter \<times> db
   \<Rightarrow> (uuid limiter \<times> db) \<times> (error + terms_version)" where
  "create_terms_version cfg tn f by_whom tick b1 b2 b3 ls =
     (let (l, s) = ls; counted = record_failure cfg l tick tick tn in
      case validate_terms f of
        Inl err \<Rightarrow> ((l, s), Inl err)
      | Inr _ \<Rightarrow>
          if is_blocked cfg l tick tn then ((l, s), Inl (Boutique_error Terms_throttled))
          else
            (case insert_next_terms_version tn f by_whom b1 s of
               Inr (s', row) \<Rightarrow> ((counted, s'), Inr row)
             | Inl _ \<Rightarrow>
                 (case insert_next_terms_version tn f by_whom b3 (b2 (b1 s)) of
                    Inr (s', row) \<Rightarrow> ((counted, s'), Inr row)
                  | Inl _ \<Rightarrow> ((l, b3 (b2 (b1 s))), Inl (Boutique_error Terms_version_conflict)))))"

record terms_history =
  th_current :: "terms_version option"
  th_versions :: "terms_version list"
  th_total :: nat
  th_offset :: int
  th_limit :: int

definition get_terms_history :: "uuid \<Rightarrow> int \<Rightarrow> int \<Rightarrow> db \<Rightarrow> terms_history" where
  "get_terms_history tn offset limit s =
     (let offset' = max offset 0; limit' = min (max limit 1) TERMS_HISTORY_DEFAULT_LIMIT in
      \<lparr>th_current = current_terms tn s, th_versions = list_versions tn (nat offset') (nat limit') s,
       th_total = length (live_terms tn s), th_offset = offset', th_limit = limit'\<rparr>)"

section \<open>Settings blocks\<close>

text \<open>The toggles that exist, with their defaults.\<close>

definition TOGGLES :: "(string \<times> bool) list" where "TOGGLES = [(''deposits_enabled'', False), (''brides_only'', False)]"

definition MAX_PROFILE_PHONE_LENGTH :: nat where "MAX_PROFILE_PHONE_LENGTH = 32"
definition MAX_PROFILE_ADDRESS_LENGTH :: nat where "MAX_PROFILE_ADDRESS_LENGTH = 500"
definition MAX_PROFILE_DESCRIPTION_LENGTH :: nat where "MAX_PROFILE_DESCRIPTION_LENGTH = 2000"
definition MAX_PROFILE_MAPS_URL_LENGTH :: nat where "MAX_PROFILE_MAPS_URL_LENGTH = 1000"
definition MAX_PROFILE_ESSENCE_LENGTH :: nat where "MAX_PROFILE_ESSENCE_LENGTH = 120"

definition PROFILE_FIELDS :: "string list" where
  "PROFILE_FIELDS = [''phone'', ''address'', ''description'', ''maps_url'', ''essence'', ''instagram'']"

definition SCHEDULING_DEFAULTS :: "(string \<times> json) list" where
  "SCHEDULING_DEFAULTS = [(''submission_deadline_day_of_week'', J_int 3), (''submission_deadline_time'', J_text (u ''18:00''))]"

definition invalid :: "string \<Rightarrow> error" where "invalid msg = Domain_validation msg"

definition validate_maps_url :: "(utext \<Rightarrow> string \<times> utext) \<Rightarrow> utext \<Rightarrow> error + unit" where
  "validate_maps_url urlsplit url =
     andthen (ensure (invalid ''maps_url is too long'') (\<not> length url > MAX_PROFILE_MAPS_URL_LENGTH)) (\<lambda>_.
     ensure (invalid ''maps_url must be an absolute http(s) URL'')
       (fst (urlsplit url) \<in> {''http'', ''https''} \<and> snd (urlsplit url) \<noteq> []))"

definition phone_safe_char :: "nat \<Rightarrow> bool" where
  "phone_safe_char c \<longleftrightarrow> 48 \<le> c \<and> c \<le> 57 \<or> c \<in> {32, 40, 41, 45}"

definition validate_phone :: "utext \<Rightarrow> error + unit" where
  "validate_phone phone =
     (let digits = (case phone of c # cs \<Rightarrow> if c = 43 then cs else phone | [] \<Rightarrow> phone) in
      andthen (ensure (invalid ''phone is too long'') (\<not> length phone > MAX_PROFILE_PHONE_LENGTH)) (\<lambda>_.
      ensure (invalid ''phone contains invalid characters'')
        (\<not> (43 \<in> set digits \<or> \<not> list_all phone_safe_char digits \<or> \<not> list_ex (\<lambda>c. 48 \<le> c \<and> c \<le> 57) digits))))"

definition handle_char :: "nat \<Rightarrow> bool" where
  "handle_char c \<longleftrightarrow> 65 \<le> c \<and> c \<le> 90 \<or> 97 \<le> c \<and> c \<le> 122 \<or> 48 \<le> c \<and> c \<le> 57 \<or> c = 46 \<or> c = 95"

definition validate_instagram_handle :: "utext \<Rightarrow> error + unit" where
  "validate_instagram_handle handle =
     ensure (invalid ''instagram must be a handle'') (1 \<le> length handle \<and> length handle \<le> 30 \<and> list_all handle_char handle)"

definition text_at :: "(string \<times> json) list \<Rightarrow> string \<Rightarrow> utext" where
  "text_at kvs key = (case map_of kvs key of Some (J_text t) \<Rightarrow> t | _ \<Rightarrow> [])"

definition at_most :: "string \<Rightarrow> nat \<Rightarrow> (string \<times> json) list \<Rightarrow> error + unit" where
  "at_most key n kvs = ensure (invalid (key @ '' is too long'')) (\<not> length (text_at kvs key) > n)"

definition when_given :: "(utext \<Rightarrow> error + unit) \<Rightarrow> utext \<Rightarrow> error + unit" where
  "when_given chk t = (if t = [] then Inr () else chk t)"

definition validate_profile :: "(utext \<Rightarrow> string \<times> utext) \<Rightarrow> (string \<times> json) list \<Rightarrow> error + unit" where
  "validate_profile urlsplit profile =
     andthen (ensure (invalid ''unknown profile fields'') (list_all (\<lambda>(k, _). k \<in> set PROFILE_FIELDS) profile)) (\<lambda>_.
     andthen (ensure (invalid ''must be a string'') (list_all (\<lambda>(_, v). case v of J_text _ \<Rightarrow> True | _ \<Rightarrow> False) profile)) (\<lambda>_.
     andthen (when_given validate_phone (text_at profile ''phone'')) (\<lambda>_.
     andthen (when_given (validate_maps_url urlsplit) (text_at profile ''maps_url'')) (\<lambda>_.
     andthen (at_most ''address'' MAX_PROFILE_ADDRESS_LENGTH profile) (\<lambda>_.
     andthen (at_most ''description'' MAX_PROFILE_DESCRIPTION_LENGTH profile) (\<lambda>_.
     andthen (at_most ''essence'' MAX_PROFILE_ESSENCE_LENGTH profile) (\<lambda>_.
     when_given validate_instagram_handle (text_at profile ''instagram''))))))))"

definition validate_toggles :: "(string \<times> json) list \<Rightarrow> error + unit" where
  "validate_toggles toggles =
     andthen (ensure (invalid ''unknown toggles'') (list_all (\<lambda>(k, _). k \<in> set (map fst TOGGLES)) toggles)) (\<lambda>_.
     ensure (invalid ''must be a boolean'') (list_all (\<lambda>(_, v). case v of J_bool _ \<Rightarrow> True | _ \<Rightarrow> False) toggles))"

text \<open>\<open>isinstance(v, int)\<close>: a bool is one.\<close>

definition int_of_json :: "json \<Rightarrow> int option" where
  "int_of_json v = (case v of J_int n \<Rightarrow> Some n | J_bool b \<Rightarrow> Some (of_bool b) | _ \<Rightarrow> None)"

definition int_between :: "int \<Rightarrow> int \<Rightarrow> json \<Rightarrow> bool" where
  "int_between lo hi v \<longleftrightarrow> (case int_of_json v of None \<Rightarrow> False | Some n \<Rightarrow> lo \<le> n \<and> n \<le> hi)"

definition BAND_KEYS :: "string list" where
  "BAND_KEYS = [''thirty_min'', ''one_hour'', ''two_hours'', ''half_day'', ''full_day'']"

definition BAND_MINUTES_CAP :: int where "BAND_MINUTES_CAP = 1440"
definition CAPACITY_HOURS_CAP :: int where "CAPACITY_HOURS_CAP = 168"

definition validate_atelier_settings :: "(string \<times> json) list \<Rightarrow> error + unit" where
  "validate_atelier_settings atelier =
     andthen (ensure (invalid ''unknown atelier keys'')
       (list_all (\<lambda>(k, _). k \<in> {''effort_bands'', ''default_weekly_capacity_hours''}) atelier)) (\<lambda>_.
     andthen (need (invalid ''effort_bands must name exactly the bands'')
       (case map_of atelier ''effort_bands'' of
          Some (J_object bands) \<Rightarrow> if set (map fst bands) = set BAND_KEYS then Some bands else None
        | _ \<Rightarrow> None)) (\<lambda>bands.
     andthen (ensure (invalid ''a band is out of bounds'') (list_all (\<lambda>(_, v). int_between 1 BAND_MINUTES_CAP v) bands)) (\<lambda>_.
     ensure (invalid ''default_weekly_capacity_hours is out of bounds'')
       (case map_of atelier ''default_weekly_capacity_hours'' of
          None \<Rightarrow> True | Some J_null \<Rightarrow> True | Some v \<Rightarrow> int_between 0 CAPACITY_HOURS_CAP v))))"

text \<open>\<open>^([01]\\d|2[0-3]):[0-5]\\d\\Z\<close>.\<close>

definition deadline_shape :: "(nat \<Rightarrow> bool) \<Rightarrow> utext \<Rightarrow> bool" where
  "deadline_shape is_dec t \<longleftrightarrow>
     (case t of
        [a, b, c, d, e] \<Rightarrow> (a \<in> {48, 49} \<and> is_dec b \<or> a = 50 \<and> 48 \<le> b \<and> b \<le> 51) \<and> c = 58 \<and> 48 \<le> d \<and> d \<le> 53 \<and> is_dec e
      | _ \<Rightarrow> False)"

definition validate_scheduling_settings :: "(nat \<Rightarrow> bool) \<Rightarrow> (string \<times> json) list \<Rightarrow> error + unit" where
  "validate_scheduling_settings is_dec scheduling =
     andthen (ensure (invalid ''unknown scheduling keys'')
       (list_all (\<lambda>(k, _). k \<in> set (map fst SCHEDULING_DEFAULTS)) scheduling)) (\<lambda>_.
     andthen (ensure (invalid ''submission_deadline_day_of_week must be between 0 and 6'')
       (case map_of scheduling ''submission_deadline_day_of_week'' of Some (J_int d) \<Rightarrow> 0 \<le> d \<and> d \<le> 6 | _ \<Rightarrow> False)) (\<lambda>_.
     ensure (invalid ''submission_deadline_time must be HH:MM'')
       (case map_of scheduling ''submission_deadline_time'' of Some (J_text t) \<Rightarrow> deadline_shape is_dec t | _ \<Rightarrow> False)))"

record settings_patch =
  sp_profile :: "(string \<times> json) list option"
  sp_toggles :: "(string \<times> json) list option"
  sp_atelier :: "(string \<times> json) list option"
  sp_scheduling :: "(string \<times> json) list option"

definition stored_block :: "string \<Rightarrow> (string \<times> json) list \<Rightarrow> (string \<times> json) list" where
  "stored_block key settings = (case map_of settings key of Some (J_object kvs) \<Rightarrow> kvs | _ \<Rightarrow> [])"

text \<open>\<open>||\<close> on objects: the right side's keys win.\<close>

definition overlay :: "(string \<times> json) list \<Rightarrow> (string \<times> json) list \<Rightarrow> (string \<times> json) list" where
  "overlay patch base = foldl (\<lambda>acc (k, v). AList.update k v acc) base patch"

definition put_block :: "string \<Rightarrow> (string \<times> json) list option \<Rightarrow> (string \<times> json) list \<Rightarrow> (string \<times> json) list" where
  "put_block key b settings = (case b of None \<Rightarrow> settings | Some kvs \<Rightarrow> merge_block key (J_object kvs) settings)"

definition merge_settings :: "settings_patch \<Rightarrow> (string \<times> json) list \<Rightarrow> (string \<times> json) list" where
  "merge_settings p settings =
     put_block ''toggles'' (map_option (\<lambda>t. overlay t (stored_block ''toggles'' settings)) (sp_toggles p))
       (put_block ''scheduling'' (sp_scheduling p) (put_block ''atelier'' (sp_atelier p) (put_block ''profile'' (sp_profile p) settings)))"

record settings_result =
  sr_profile :: "(string \<times> json) list"
  sr_toggles :: "(string \<times> bool) list"
  sr_atelier :: "(string \<times> json) list"
  sr_scheduling :: "(string \<times> json) list"

definition settings_view :: "(string \<times> json) list \<Rightarrow> settings_result" where
  "settings_view settings =
     \<lparr>sr_profile = stored_block ''profile'' settings,
      sr_toggles = map (\<lambda>(key, d). (key, case map_of (stored_block ''toggles'' settings) key of None \<Rightarrow> d | Some v \<Rightarrow> truthy v)) TOGGLES,
      sr_atelier = stored_block ''atelier'' settings,
      sr_scheduling = overlay (stored_block ''scheduling'' settings) SCHEDULING_DEFAULTS\<rparr>"

definition check_block :: "((string \<times> json) list \<Rightarrow> error + unit) \<Rightarrow> (string \<times> json) list option \<Rightarrow> error + unit" where
  "check_block chk b = (case b of None \<Rightarrow> Inr () | Some kvs \<Rightarrow> chk kvs)"

definition validate_patch ::
  "(utext \<Rightarrow> string \<times> utext) \<Rightarrow> (nat \<Rightarrow> bool) \<Rightarrow> settings_patch \<Rightarrow> error + unit" where
  "validate_patch urlsplit is_dec p =
     andthen (check_block (validate_profile urlsplit) (sp_profile p)) (\<lambda>_.
     andthen (check_block validate_toggles (sp_toggles p)) (\<lambda>_.
     andthen (check_block validate_atelier_settings (sp_atelier p)) (\<lambda>_.
     check_block (validate_scheduling_settings is_dec) (sp_scheduling p))))"

definition note_block :: "uuid \<Rightarrow> settings_action \<Rightarrow> 'a option \<Rightarrow> db \<Rightarrow> db" where
  "note_block tn act b s = (if b = None then s else record_audit tn (Settings_action act) (Some tn) s)"

text \<open>The tenants' settings and the tables; each audit row is a transaction of its own, after the merge.\<close>

type_synonym tenants = "uuid \<Rightarrow> (string \<times> json) list option"

definition get_settings :: "uuid \<Rightarrow> tenants \<Rightarrow> error + settings_result" where
  "get_settings tn ts = andthen (need (Boutique_error Boutique_not_found) (ts tn)) (\<lambda>settings. Inr (settings_view settings))"

definition update_settings ::
  "(utext \<Rightarrow> string \<times> utext) \<Rightarrow> (nat \<Rightarrow> bool) \<Rightarrow> uuid \<Rightarrow> settings_patch \<Rightarrow> tenants \<times> db
   \<Rightarrow> error + (tenants \<times> db) \<times> settings_result" where
  "update_settings urlsplit is_dec tn p tss =
     andthen (validate_patch urlsplit is_dec p) (\<lambda>_.
     andthen (need (Boutique_error Boutique_not_found) (fst tss tn)) (\<lambda>settings.
     let merged = merge_settings p settings in
     Inr (((fst tss)(tn \<mapsto> merged),
           note_block tn Scheduling_settings_updated (sp_scheduling p)
             (note_block tn Toggles_updated (sp_toggles p)
               (note_block tn Atelier_settings_updated (sp_atelier p) (snd tss)))),
          settings_view merged)))"

end
