(* ===== verification/Boutique_Laws.thy ===== *)
theory Boutique_Laws
  imports Boutique Privacy_Laws Catalog_Laws "HOL-Library.Multiset"
begin

text \<open>
  What an owner's settings promise: weekly hours are exactly the request and never overlap on the grid, a name
  clash is the only reason a valid type is refused, saving a block leaves the others alone, and the terms are an
  append-only numbered history whatever else commits in between.
\<close>

section \<open>Weekly hours\<close>

lemma each_rule_ok_iff:
  "each_rule_ok rs = Inr () \<longleftrightarrow> (\<forall>r\<in>set rs. rule_row_ok (rule_row tn r) \<and> wr_capacity r \<le> MAX_RULE_CAPACITY)"
  by (induction rs) (auto simp: andthen_eq_Inr ensure_eq_Inr rule_row_ok_def rule_row_def)

lemma insert_rules_run:
  "rules_ok (d_rules s) \<Longrightarrow> \<forall>r\<in>set rs. rule_row_ok (rule_row tn r) \<Longrightarrow>
   insert_rules tn rs s = Inr (s\<lparr>d_rules := d_rules s @ map (rule_row tn) rs\<rparr>, map (rule_row tn) rs)"
  by (induction rs arbitrary: s) (simp_all add: insert_row_def rules_ok_def)

lemma windows_apart_sorted:
  "windows_apart ws \<Longrightarrow> \<forall>w\<in>set ws. wr_open w < wr_close w \<Longrightarrow> sorted_wrt (\<lambda>a b. wr_close a \<le> wr_open b) ws"
proof (induction ws rule: windows_apart.induct)
  case (1 a b rs)
  then have s: "sorted_wrt (\<lambda>a b. wr_close a \<le> wr_open b) (b # rs)" by simp
  have "wr_close a \<le> wr_open w" if "w \<in> set (b # rs)" for w
  proof (cases "w = b")
    case False
    with that s have "wr_close b \<le> wr_open w" by simp
    moreover have "wr_open b < wr_close b" "wr_close a \<le> wr_open b" using 1(2,3) by auto
    ultimately show ?thesis by linarith
  qed (use 1(2) in simp)
  with s show ?case by simp
qed simp_all

lemma strict_keys: "sorted_wrt (\<lambda>a b. f a < f b) xs \<Longrightarrow> inj_on f (set xs) \<and> sorted (map f xs)"
  by (auto simp: sorted_wrt_map [symmetric] strict_sorted_iff distinct_map)

text \<open>Accepted windows of a day are apart, so every way of sorting them by their opening is the same.\<close>

lemma day_ordered_open:
  assumes "sorted_wrt (\<lambda>a b. wr_close a \<le> wr_open b) (day_ordered day rules)" "\<forall>r\<in>set rules. wr_open r < wr_close r"
  shows "filter (\<lambda>r. wr_day r = day) (sort_key (\<lambda>r. (wr_day r, wr_open r)) rules) = day_ordered day rules"
proof -
  have mem: "set (day_ordered day rules) = {r \<in> set rules. wr_day r = day}" by (auto simp: day_ordered_def)
  have "sorted_wrt (\<lambda>a b. (wr_day a, wr_open a) < (wr_day b, wr_open b)) (day_ordered day rules)"
    by (rule sorted_wrt_mono_rel [OF _ assms(1)]) (use assms(2) mem in fastforce)
  note k = strict_keys [OF this]
  have "sort_key (\<lambda>r. (wr_day r, wr_open r)) (filter (\<lambda>r. wr_day r = day) rules) = day_ordered day rules"
    by (rule sort_key_inj_key_eq) (use k in \<open>simp_all add: day_ordered_def\<close>)
  then show ?thesis by (simp add: filter_sort)
qed

definition weekly_window :: "weekly_rule \<Rightarrow> open_window" where
  "weekly_window r = \<lparr>w_open = wr_open r, w_close = wr_close r, w_capacity = wr_capacity r\<rparr>"

lemma live_dropped:
  "filter (\<lambda>r. r_tenant r = tn' \<and> \<not> r_deleted r)
     (update_where (\<lambda>r. r_tenant r = tn \<and> \<not> r_deleted r) (\<lambda>r. r\<lparr>r_deleted := True\<rparr>) rows)
   = (if tn' = tn then [] else filter (\<lambda>r. r_tenant r = tn' \<and> \<not> r_deleted r) rows)"
  by (induction rows) auto

lemma live_rules_replaced:
  "filter (\<lambda>r. r_tenant r = tn' \<and> \<not> r_deleted r) (d_rules (drop_rules tn s) @ map (rule_row tn) rules)
   = (if tn' = tn then map (rule_row tn) rules else filter (\<lambda>r. r_tenant r = tn' \<and> \<not> r_deleted r) (d_rules s))"
  by (auto simp: drop_rules_def live_dropped rule_row_def filter_empty_conv)

text \<open>C6. The hours are the request. A valid week of hours is never refused: it replaces the tenant's hours
  and nobody else's, and on a day without an exception the grid opens exactly the windows asked for on that
  weekday, in order, each closed before the next one opens.\<close>

theorem hours_are_the_request:
  assumes "validate_weekly_rules rules = Inr ()" "rules_ok (d_rules s)"
  shows "\<exists>s' rows. replace_weekly_rules tn rules s = Inr (s', rows) \<and> rules_ok (d_rules s')
    \<and> list_active_rules tn s' = map (rule_row tn) (sort_key (\<lambda>r. (wr_day r, wr_open r)) rules)
    \<and> (\<forall>tn'. tn' \<noteq> tn \<longrightarrow> list_active_rules tn' s' = list_active_rules tn' s)
    \<and> (\<forall>d exs. exceptions_by_date exs d = None \<longrightarrow>
         windows_for d (list_active_rules tn s') exs = map weekly_window (day_ordered (jerusalem_day_index d) rules)
         \<and> sorted_wrt (\<lambda>a b. w_close a \<le> w_open b) (windows_for d (list_active_rules tn s') exs))"
proof -
  from assms(1) have each: "\<forall>r\<in>set rules. rule_row_ok (rule_row tn r)" and pos: "\<forall>r\<in>set rules. wr_open r < wr_close r"
    and apart: "\<forall>day\<in>set (map wr_day rules). windows_apart (day_ordered day rules)"
    by (auto simp: validate_weekly_rules_def andthen_eq_Inr ensure_eq_Inr each_rule_ok_iff [of _ tn] list_all_iff
        rule_row_ok_def rule_row_def)
  let ?s = "drop_rules tn s"
  let ?s' = "?s\<lparr>d_rules := d_rules ?s @ map (rule_row tn) rules\<rparr>"
  have ok: "rules_ok (d_rules ?s)"
    using assms(2) by (auto simp: rules_ok_def drop_rules_def list_all_iff ball_update_where rule_row_ok_def)
  have run: "replace_weekly_rules tn rules s = Inr (?s', map (rule_row tn) rules)"
    using insert_rules_run [OF ok each] assms(1) by (simp add: replace_weekly_rules_def)
  have hers: "list_active_rules tn ?s' = map (rule_row tn) (sort_key (\<lambda>r. (wr_day r, wr_open r)) rules)"
    by (simp add: list_active_rules_def live_rules_replaced [of tn tn s rules, simplified] sort_key_map) (simp add: rule_row_def)
  have others: "list_active_rules tn' ?s' = list_active_rules tn' s" if "tn' \<noteq> tn" for tn'
    using that live_rules_replaced [of tn' tn s rules] by (simp add: list_active_rules_def)
  have sorted: "sorted_wrt (\<lambda>a b. wr_close a \<le> wr_open b) (day_ordered day rules)" for day
  proof (cases "day \<in> wr_day ` set rules")
    case True
    with apart have "windows_apart (day_ordered day rules)" by auto
    then show ?thesis by (rule windows_apart_sorted) (use pos in \<open>auto simp: day_ordered_def\<close>)
  next
    case False
    then have "filter (\<lambda>r. wr_day r = day) rules = []" by (auto simp: filter_empty_conv)
    then show ?thesis by (simp add: day_ordered_def)
  qed
  have grid: "windows_for d (list_active_rules tn ?s') exs = map weekly_window (day_ordered (jerusalem_day_index d) rules)"
    if "exceptions_by_date exs d = None" for d exs
    using that day_ordered_open [OF sorted pos, of "jerusalem_day_index d"]
    by (simp add: windows_for_def hers rules_by_day_def filter_map o_def rule_row_def weekly_window_def)
  have "sorted_wrt (\<lambda>a b. w_close a \<le> w_open b) (map weekly_window (day_ordered day rules))" for day
    using sorted [of day] by (simp add: sorted_wrt_map weekly_window_def)
  moreover have "rules_ok (d_rules ?s')" using ok each by (auto simp: rules_ok_def list_all_iff)
  ultimately show ?thesis using run hers others grid by (intro exI conjI) (assumption | simp)+
qed

text \<open>Two windows on Thursday, given late one first.\<close>

definition thursdays :: "weekly_rule list" where
  "thursdays =
     [\<lparr>wr_day = 4, wr_open = hours 14, wr_close = hours 16, wr_capacity = 1\<rparr>,
      \<lparr>wr_day = 4, wr_open = hours 9, wr_close = hours 12, wr_capacity = 2\<rparr>]"

theorem hours_are_the_request_witness:
  "\<exists>s' rows. replace_weekly_rules 4 thursdays shop_db = Inr (s', rows)
    \<and> list_active_rules 4 s' = map (rule_row 4) (sort_key (\<lambda>r. (wr_day r, wr_open r)) thursdays)"
proof -
  have "validate_weekly_rules thursdays = Inr ()" "rules_ok (d_rules shop_db)" by code_simp+
  from hours_are_the_request [OF this, of 4] show ?thesis by blast
qed

section \<open>Appointment types\<close>

text \<open>A row that satisfies its CHECKs is refused by the name index alone.\<close>

lemma validated_type_row:
  "validate_appointment_type f = Inr () \<Longrightarrow> 0 < tf_duration f \<and> (case tf_deposit_amount f of None \<Rightarrow> True | Some a \<Rightarrow> 0 < a)"
  by (auto simp: validate_appointment_type_def andthen_eq_Inr ensure_eq_Inr split: option.splits)

text \<open>A name clash is the only refusal. In a database that satisfies its constraints, an owner's valid
  appointment type is refused exactly when a live type of the shop has that name; otherwise it is stored as
  asked for, under a new identifier, and nothing else changes.\<close>

theorem only_a_name_clash_refuses:
  assumes "validate_appointment_type f = Inr ()" "types_ok (d_types s)" "ids_below (d_next s) (map t_id (d_types s))"
  shows "if \<exists>t\<in>set (d_types s). t_tenant t = tn \<and> t_name t = tf_name f \<and> \<not> t_deleted t
         then create_appointment_type tn f s = Inl (Boutique_error Duplicate_name)
         else \<exists>row. create_appointment_type tn f s = Inr (s\<lparr>d_types := d_types s @ [row], d_next := d_next s + 1\<rparr>, row)
           \<and> t_id row = d_next s \<and> fill_type f row = row \<and> t_tenant row = tn \<and> \<not> t_deleted row"
proof -
  note v = validated_type_row [OF assms(1)]
  have "types_ok (d_types s @ [row]) \<longleftrightarrow> (\<forall>t\<in>set (d_types s). \<not> t_deleted t \<longrightarrow> (t_tenant t, t_name t) \<noteq> (t_tenant row, t_name row))"
    if "t_id row = d_next s" "type_row_ok row" "\<not> t_deleted row" for row
    using assms(2) ids_below_notin [OF assms(3)] that by (auto simp: types_ok_def)
  with v show ?thesis
    by (auto simp: create_appointment_type_def assms(1) insert_type_def Let_def insert_row_def on_integrity_def
        type_row_ok_def fill_type_def)
qed

definition tasting :: type_form where
  "tasting = \<lparr>tf_name = [70], tf_duration = 30, tf_audience = ''all'', tf_deposit_required = False,
     tf_deposit_amount = None, tf_sort_order = 0\<rparr>"

theorem only_a_name_clash_refuses_witness:
  "create_appointment_type 4 tasting shop_full = Inl (Boutique_error Duplicate_name)
   \<and> (\<exists>row. create_appointment_type 5 tasting shop_full
        = Inr (shop_full\<lparr>d_types := d_types shop_full @ [row], d_next := d_next shop_full + 1\<rparr>, row))"
proof -
  have pre: "validate_appointment_type tasting = Inr ()" "types_ok (d_types shop_full)"
    "ids_below (d_next shop_full) (map t_id (d_types shop_full))" by code_simp+
  have "\<exists>t\<in>set (d_types shop_full). t_tenant t = 4 \<and> t_name t = tf_name tasting \<and> \<not> t_deleted t"
    "\<not> (\<exists>t\<in>set (d_types shop_full). t_tenant t = 5 \<and> t_name t = tf_name tasting \<and> \<not> t_deleted t)" by code_simp+
  with only_a_name_clash_refuses [OF pre, of 4] only_a_name_clash_refuses [OF pre, of 5] show ?thesis by auto
qed

section \<open>The history of terms\<close>

definition terms_grow :: "db \<Rightarrow> db \<Rightarrow> bool" where
  "terms_grow s s' \<longleftrightarrow> (\<exists>new. d_terms s' = d_terms s @ new)"

lemma terms_grow_refl [simp]: "d_terms s' = d_terms s \<Longrightarrow> terms_grow s s'"
  by (simp add: terms_grow_def)

lemma terms_grow_trans: "terms_grow a b \<Longrightarrow> terms_grow b c \<Longrightarrow> terms_grow a c"
  by (auto simp: terms_grow_def)

text \<open>The versions of a tenant are 1, 2, 3, .. in the order they were published.\<close>

definition numbered :: "uuid \<Rightarrow> db \<Rightarrow> bool" where
  "numbered tn s \<longleftrightarrow>
     map v_version (live_terms tn s) = [1..int (length (live_terms tn s))] \<and> (\<forall>v\<in>set (d_terms s). \<not> v_deleted v)"

lemma numbered_same: "d_terms s' = d_terms s \<Longrightarrow> numbered tn s' = numbered tn s"
  by (simp add: numbered_def live_terms_def)

lemma foldl_max_sorted: "sorted (v # vs) \<Longrightarrow> foldl max v vs = last (v # vs)" for v :: "'a :: linorder"
  by (induction vs arbitrary: v) (auto simp: max_def)

lemma numbers_snoc: "[1..int n] @ [int n + 1] = [1..1 + int n]"
  by (simp add: upto_rec2 [of 1 "1 + int n"])

lemma last_numbers: "0 < n \<Longrightarrow> last [1..int n] = int n"
  by (cases n) (simp_all add: numbers_snoc [symmetric])

lemma max_version_numbered:
  assumes "numbered tn s"
  shows "max_version tn s = int (length (live_terms tn s))"
proof (cases "live_terms tn s")
  case (Cons v vs)
  let ?n = "int (length (live_terms tn s))"
  have "map v_version (v # vs) = [1..?n]" "1 \<le> ?n" using assms Cons by (simp_all add: numbered_def)
  moreover have "[1..?n] = [1..?n - 1] @ [?n]" using \<open>1 \<le> ?n\<close> by (simp add: upto_rec2)
  moreover have "sorted [1..?n]" by simp
  ultimately have "sorted (v_version v # map v_version vs)" "last (v_version v # map v_version vs) = ?n" by (metis list.simps(9), simp)
  then show ?thesis using foldl_max_sorted [of "v_version v" "map v_version vs"] by (simp add: max_version_def Cons)
qed (simp add: max_version_def)

lemma live_terms_grow:
  "terms_grow s s' \<Longrightarrow> length (live_terms tn s) \<le> length (live_terms tn s')"
  by (auto simp: terms_grow_def live_terms_def)

text \<open>A version chosen from an earlier reading is stored only when nobody else has published since.\<close>

lemma insert_next_numbered:
  assumes "insert_next_terms_version tn f by_whom (\<lambda>_. s2) s = Inr (s', row)"
    and "terms_grow s s2" "\<forall>tn. numbered tn s" "\<forall>tn. numbered tn s2"
  shows "terms_grow s2 s' \<and> (\<forall>tn. numbered tn s')"
proof -
  let ?n = "length (live_terms tn s)" and ?m = "length (live_terms tn s2)"
  from assms(1) have ok: "terms_ok (d_terms s2 @ [row])" and s': "s' = s2\<lparr>d_terms := d_terms s2 @ [row]\<rparr>"
    and row: "v_tenant row = tn" "v_version row = int ?n + 1" "\<not> v_deleted row"
    using max_version_numbered [OF assms(3) [rule_format, of tn]]
    by (auto simp: insert_next_terms_version_def insert_terms_def Let_def andthen_eq_Inr insert_row_def split: if_splits)
  have "int ?n + 1 \<notin> v_version ` set (live_terms tn s2)"
    using ok row by (auto simp: terms_ok_def live_terms_def)
  moreover have "v_version ` set (live_terms tn s2) = {1..int ?m}"
    using assms(4) [rule_format, of tn] by (metis list.set_map numbered_def set_upto)
  ultimately have "?m = ?n" using live_terms_grow [OF assms(2), of tn] by auto
  have "numbered tn' s'" for tn'
  proof (cases "tn' = tn")
    case True
    then have "live_terms tn' s' = live_terms tn s2 @ [row]" using row by (simp add: live_terms_def s')
    with True assms(4) [rule_format, of tn] row \<open>?m = ?n\<close> show ?thesis
      by (auto simp: numbered_def s' numbers_snoc)
  next
    case False
    then have "live_terms tn' s' = live_terms tn' s2" using row by (simp add: live_terms_def s')
    with assms(4) [rule_format, of tn'] row show ?thesis by (simp add: numbered_def s')
  qed
  then show ?thesis by (simp add: terms_grow_def s')
qed

section \<open>The owner's desk\<close>

text \<open>
  Every handler of the desk, in any order and beside everything the shop does. While the terms are
  published three readings of the database are taken, and anything may commit between them.
\<close>

inductive desk_run :: "env \<Rightarrow> db \<Rightarrow> db \<Rightarrow> bool" for e where
  idle: "desk_run e s s"
| type_created: "desk_run e s s1 \<Longrightarrow> create_appointment_type tn f s1 = Inr (s2, t) \<Longrightarrow> desk_run e s s2"
| type_updated: "desk_run e s s1 \<Longrightarrow> update_appointment_type tn i f s1 = Inr (s2, t) \<Longrightarrow> desk_run e s s2"
| type_archived: "desk_run e s s1 \<Longrightarrow> archive_appointment_type tn i s1 = Inr (s2, un) \<Longrightarrow> desk_run e s s2"
| hours_replaced: "desk_run e s s1 \<Longrightarrow> replace_weekly_rules tn rules s1 = Inr (s2, rows) \<Longrightarrow> desk_run e s s2"
| exception_added: "desk_run e s s1 \<Longrightarrow> add_availability_exception tn day opens closes note s1 = Inr (s2, x) \<Longrightarrow> desk_run e s s2"
| exception_removed: "desk_run e s s1 \<Longrightarrow> remove_availability_exception tn i s1 = Inr (s2, un) \<Longrightarrow> desk_run e s s2"
| terms_published: "desk_run e s s1 \<Longrightarrow> desk_run e s1 s2 \<Longrightarrow> desk_run e s2 s3 \<Longrightarrow> desk_run e s3 s4 \<Longrightarrow>
    create_terms_version cfg tn vf by_whom tick (\<lambda>_. s2) (\<lambda>_. s3) (\<lambda>_. s4) (l, s1) = ((l', s5), r) \<Longrightarrow> desk_run e s s5"
| settings_saved: "desk_run e s s1 \<Longrightarrow> update_settings urlsplit is_dec tn p (ts, s1) = Inr ((ts', s2), sr) \<Longrightarrow> desk_run e s s2"
| elsewhere: "desk_run e s s1 \<Longrightarrow> shop_step e s1 s2 \<Longrightarrow> d_types s2 = d_types s1 \<Longrightarrow> d_rules s2 = d_rules s1
    \<Longrightarrow> d_exceptions s2 = d_exceptions s1 \<Longrightarrow> d_terms s2 = d_terms s1 \<Longrightarrow> desk_run e s s2"

definition desk_ok :: "db \<Rightarrow> bool" where
  "desk_ok s \<longleftrightarrow> types_ok (d_types s) \<and> rules_ok (d_rules s) \<and> exceptions_ok (d_exceptions s) \<and> terms_ok (d_terms s)"

text \<open>A commit at the desk: its own four tables, audit rows, and fresh identifiers.\<close>

definition at_the_desk :: "db \<Rightarrow> db \<Rightarrow> bool" where
  "at_the_desk s s' \<longleftrightarrow>
     d_bookings s' = d_bookings s \<and> d_payments s' = d_payments s \<and> d_messages s' = d_messages s
     \<and> d_entries s' = d_entries s \<and> d_customers s' = d_customers s \<and> d_next s \<le> d_next s' \<and> (desk_ok s \<longrightarrow> desk_ok s')"

lemma desk_commit_healthy: "at_the_desk s s' \<Longrightarrow> healthy e s \<Longrightarrow> healthy e s'"
  by (rule healthy_frame)
    (auto simp: at_the_desk_def healthy_def db_ok_def intro: ids_below_mono subjects_below_mono)

lemma on_integrity_Inr [simp]: "on_integrity err res = Inr x \<longleftrightarrow> res = Inr x"
  by (auto simp: on_integrity_def split: sum.splits error.splits)

lemma insert_rules_frame:
  "insert_rules tn rs s = Inr (s', rows) \<Longrightarrow> s' = s\<lparr>d_rules := d_rules s'\<rparr> \<and> (rules_ok (d_rules s) \<longrightarrow> rules_ok (d_rules s'))"
proof (induction rs arbitrary: s rows)
  case (Cons r rs)
  then obtain rows' made where i: "insert_row rules_ok (rule_row tn r) (d_rules s) = Inr rows'"
    "insert_rules tn rs (s\<lparr>d_rules := rows'\<rparr>) = Inr (s', made)"
    by (auto simp: andthen_eq_Inr)
  from Cons.IH [OF i(2)] i(1) show ?case by (simp add: insert_row_def split: if_splits)
qed simp

lemma drop_rules_ok: "rules_ok (d_rules s) \<Longrightarrow> rules_ok (d_rules (drop_rules tn s))"
  by (auto simp: rules_ok_def drop_rules_def list_all_iff ball_update_where rule_row_ok_def)

lemma desk_commits:
  "create_appointment_type tn f s = Inr (s', t) \<Longrightarrow> at_the_desk s s'"
  "update_appointment_type tn i f s = Inr (s', t) \<Longrightarrow> at_the_desk s s'"
  "archive_appointment_type tn i s = Inr (s', un) \<Longrightarrow> at_the_desk s s'"
  "add_availability_exception tn day opens closes note s = Inr (s', x) \<Longrightarrow> at_the_desk s s'"
  "remove_availability_exception tn i s = Inr (s', un) \<Longrightarrow> at_the_desk s s'"
  "insert_terms tn v vf by_whom s = Inr (s', row) \<Longrightarrow> at_the_desk s s'"
  by (auto simp: create_appointment_type_def insert_type_def update_appointment_type_def update_type_fields_def
      archive_appointment_type_def drop_type_def add_availability_exception_def insert_exception_def
      remove_availability_exception_def drop_exception_def insert_terms_def andthen_eq_Inr Let_def insert_row_Inr
      update_rows_Inr at_the_desk_def desk_ok_def update_where_none split: option.splits)

lemma desk_commits_hours:
  assumes "replace_weekly_rules tn rules s = Inr (s', rows)"
  shows "at_the_desk s s'" "d_terms s' = d_terms s"
proof -
  from assms have "insert_rules tn rules (drop_rules tn s) = Inr (s', rows)" by (simp add: replace_weekly_rules_def andthen_eq_Inr)
  note f = insert_rules_frame [OF this]
  have "s' = s\<lparr>d_rules := d_rules s'\<rparr>" by (rule trans [OF conjunct1 [OF f]]) (simp add: drop_rules_def)
  then obtain rs' where s': "s' = s\<lparr>d_rules := rs'\<rparr>" by (rule that)
  from conjunct2 [OF f] drop_rules_ok [of s tn] show "at_the_desk s s'" by (simp add: at_the_desk_def desk_ok_def s')
  show "d_terms s' = d_terms s" by (simp add: s')
qed

lemma desk_commits_settings:
  "update_settings urlsplit is_dec tn p (ts, s) = Inr ((ts', s'), sr) \<Longrightarrow> at_the_desk s s' \<and> d_terms s' = d_terms s"
  by (auto simp: update_settings_def andthen_eq_Inr Let_def note_block_def at_the_desk_def desk_ok_def record_audit_def)

lemma desk_keeps_terms:
  "create_appointment_type tn f s = Inr (s', t) \<Longrightarrow> d_terms s' = d_terms s"
  "update_appointment_type tn i f s = Inr (s', t) \<Longrightarrow> d_terms s' = d_terms s"
  "archive_appointment_type tn i s = Inr (s', un) \<Longrightarrow> d_terms s' = d_terms s"
  "add_availability_exception tn day opens closes note s = Inr (s', x) \<Longrightarrow> d_terms s' = d_terms s"
  "remove_availability_exception tn i s = Inr (s', un) \<Longrightarrow> d_terms s' = d_terms s"
  by (auto simp: create_appointment_type_def insert_type_def update_appointment_type_def update_type_fields_def
      archive_appointment_type_def drop_type_def add_availability_exception_def insert_exception_def
      remove_availability_exception_def drop_exception_def andthen_eq_Inr Let_def split: option.splits)

lemma create_terms_cases:
  assumes "create_terms_version cfg tn vf by_whom tick (\<lambda>_. s2) (\<lambda>_. s3) (\<lambda>_. s4) (l, s1) = ((l', s5), r)"
  obtains "s5 = s1" | row where "insert_next_terms_version tn vf by_whom (\<lambda>_. s2) s1 = Inr (s5, row)"
    | row where "insert_next_terms_version tn vf by_whom (\<lambda>_. s4) s3 = Inr (s5, row)" | "s5 = s4"
  using assms by (auto simp: create_terms_version_def Let_def split: sum.splits if_splits)

text \<open>What holds between the start of a run and its end.\<close>

definition desk_kept :: "env \<Rightarrow> db \<Rightarrow> db \<Rightarrow> bool" where
  "desk_kept e s s' \<longleftrightarrow>
     terms_grow s s' \<and> ((\<forall>tn. numbered tn s) \<longrightarrow> (\<forall>tn. numbered tn s')) \<and> (desk_ok s \<longrightarrow> desk_ok s')
     \<and> (healthy e s \<longrightarrow> healthy e s')"

lemma desk_kept_trans: "desk_kept e a b \<Longrightarrow> desk_kept e b c \<Longrightarrow> desk_kept e a c"
  by (auto simp: desk_kept_def intro: terms_grow_trans)

lemma desk_kept_same: "at_the_desk s s' \<Longrightarrow> d_terms s' = d_terms s \<Longrightarrow> desk_kept e s s'"
  by (auto simp: desk_kept_def numbered_same [of s' s] desk_commit_healthy) (simp add: at_the_desk_def)

lemma desk_handlers_keep:
  "create_appointment_type tn f s = Inr (s', t) \<Longrightarrow> desk_kept e s s'"
  "update_appointment_type tn i f s = Inr (s', t) \<Longrightarrow> desk_kept e s s'"
  "archive_appointment_type tn i s = Inr (s', un) \<Longrightarrow> desk_kept e s s'"
  "add_availability_exception tn day opens closes note s = Inr (s', x) \<Longrightarrow> desk_kept e s s'"
  "remove_availability_exception tn i s = Inr (s', un) \<Longrightarrow> desk_kept e s s'"
  "replace_weekly_rules tn rules s = Inr (s', rows) \<Longrightarrow> desk_kept e s s'"
  "update_settings urlsplit is_dec tn p (ts, s) = Inr ((ts', s'), sr) \<Longrightarrow> desk_kept e s s'"
  using desk_commits(1-5) desk_keeps_terms desk_commits_hours desk_commits_settings by (metis desk_kept_same)+

lemma desk_kept_next:
  assumes "desk_kept e s1 s2" "insert_next_terms_version tn vf by_whom (\<lambda>_. s2) s1 = Inr (s', row)"
  shows "desk_kept e s1 s'"
proof -
  have "at_the_desk s2 s'" using assms(2) desk_commits(6) by (simp add: insert_next_terms_version_def)
  moreover have "terms_grow s2 s'"
    using assms(2) by (auto simp: insert_next_terms_version_def insert_terms_def Let_def andthen_eq_Inr insert_row_Inr terms_grow_def)
  moreover have "healthy e s2 \<longrightarrow> healthy e s'" "desk_ok s2 \<longrightarrow> desk_ok s'"
    using calculation(1) by (simp_all add: desk_commit_healthy) (simp add: at_the_desk_def)
  moreover have "(\<forall>tn. numbered tn s1) \<longrightarrow> (\<forall>tn. numbered tn s')"
    using assms(1) insert_next_numbered [OF assms(2)] by (simp add: desk_kept_def)
  ultimately show ?thesis using assms(1) unfolding desk_kept_def by (blast intro: terms_grow_trans)
qed

lemma desk_run_kept: "desk_run e s s' \<Longrightarrow> desk_kept e s s'"
proof (induction rule: desk_run.induct)
  case (terms_published s s1 s2 s3 s4 cfg tn vf by_whom tick l l' s5 r)
  from terms_published.hyps(5) have "desk_kept e s1 s5"
  proof (cases rule: create_terms_cases)
    case 1
    then show ?thesis by (simp add: desk_kept_def)
  next
    case 2
    then show ?thesis by (rule desk_kept_next [OF terms_published.IH(2)])
  next
    case 3
    from desk_kept_next [OF terms_published.IH(4) this] terms_published.IH(2,3) show ?thesis by (blast intro: desk_kept_trans)
  next
    case 4
    with terms_published.IH(2,3,4) show ?thesis by (blast intro: desk_kept_trans)
  qed
  with terms_published.IH(1) show ?case by (rule desk_kept_trans)
next
  case (elsewhere s s1 s2)
  have "desk_kept e s1 s2"
    using elsewhere.hyps(2-6) shop_step_keeps [of e s1 s2] numbered_same [of s2 s1]
    by (auto simp: desk_kept_def desk_ok_def)
  with elsewhere.IH show ?case by (rule desk_kept_trans)
qed (simp add: desk_kept_def, (erule desk_kept_trans, erule desk_handlers_keep)+)

text \<open>C5. The terms are an append-only, gapless history. Whatever the owners and the shop do, in any order and with
  commits between the steps of a publication, the terms once published are never touched, each tenant's versions stay 1, 2, 3, ..
  in the order of publication, the one in force is the last, and a version a booking accepted is found as it was. Beside it
  every constraint of the desk's tables and the health of the bookings survive.\<close>

theorem terms_history_is_gapless:
  assumes "desk_run e s s'" "\<forall>tn. numbered tn s" "desk_ok s" "healthy e s"
  shows "(\<exists>new. d_terms s' = d_terms s @ new)
    \<and> (\<forall>tn. map v_version (live_terms tn s') = [1..int (length (live_terms tn s'))])
    \<and> (\<forall>tn v. current_terms tn s' = Some v \<longrightarrow> v_version v = int (length (live_terms tn s')))
    \<and> (\<forall>tn n v. terms_by_version tn n s = Some v \<longrightarrow> terms_by_version tn n s' = Some v)
    \<and> desk_ok s' \<and> healthy e s'"
proof -
  from desk_run_kept [OF assms(1)] assms(2-4) have grow: "terms_grow s s'" and num: "\<forall>tn. numbered tn s'"
    and ok: "desk_ok s'" "healthy e s'" by (auto simp: desk_kept_def)
  have last: "v_version v = int (length (live_terms tn s'))" if "current_terms tn s' = Some v" for tn v
  proof -
    have versions: "map v_version (live_terms tn s') = [1..int (length (live_terms tn s'))]" using num by (simp add: numbered_def)
    then have "sorted (map v_version (live_terms tn s'))" by simp
    then have "sort_key v_version (live_terms tn s') = live_terms tn s'" by (simp add: sort_key_id_if_sorted)
    with that have "live_terms tn s' \<noteq> []" "v = last (live_terms tn s')"
      by (auto simp: current_terms_def live_terms_def [symmetric] hd_rev [symmetric] split: list.splits)
    then have "v_version v = last [1..int (length (live_terms tn s'))]" by (metis versions last_map)
    then show ?thesis using \<open>live_terms tn s' \<noteq> []\<close> by (simp add: last_numbers)
  qed
  moreover have "terms_by_version tn n s' = Some v" if "terms_by_version tn n s = Some v" for tn n v
    using that grow by (auto simp: terms_by_version_def terms_grow_def find_append)
  ultimately show ?thesis using num grow ok by (auto simp: numbered_def terms_grow_def)
qed

text \<open>Two owners publish at once: the second one's version is chosen from a reading the first has overtaken, and is chosen again.\<close>

definition policy :: terms_form where
  "policy = \<lparr>vf_text = [70], vf_hours = 48, vf_forfeit = 50\<rparr>"

definition desk_limits :: limiter_cfg where
  "desk_limits = \<lparr>max_attempts = 5, window_length = 60\<rparr>"

definition raced :: "db" where
  "raced = snd (fst (create_terms_version desk_limits 4 policy 1 0 (\<lambda>_. shop_db) (\<lambda>_. shop_db) (\<lambda>_. shop_db) (new_limiter, shop_db)))"

theorem terms_history_is_gapless_witness:
  "\<exists>s'. desk_run sample_env shop_db s' \<and> (\<forall>tn. map v_version (live_terms tn s') = [1..int (length (live_terms tn s'))])
    \<and> length (live_terms 4 s') = 2"
proof -
  obtain l1 s1 r1 where "create_terms_version desk_limits 4 policy 1 0 (\<lambda>_. shop_db) (\<lambda>_. shop_db) (\<lambda>_. shop_db)
      (new_limiter, shop_db) = ((l1, s1), r1)" by (metis prod.exhaust)
  then have one: "create_terms_version desk_limits 4 policy 1 0 (\<lambda>_. shop_db) (\<lambda>_. shop_db) (\<lambda>_. shop_db)
      (new_limiter, shop_db) = ((l1, raced), r1)" by (simp add: raced_def)
  note i = desk_run.idle [of sample_env]
  have first: "desk_run sample_env shop_db raced" by (rule desk_run.terms_published [OF i i i i one])
  obtain l' s' r where two: "create_terms_version desk_limits 4 policy 1 0 (\<lambda>_. raced) (\<lambda>_. raced) (\<lambda>_. raced) (new_limiter, shop_db)
      = ((l', s'), r)" by (metis prod.exhaust)
  have run: "desk_run sample_env shop_db s'" by (rule desk_run.terms_published [OF i first i i two])
  have v: "validate_terms policy = Inr ()"
  proof -
    have "ustrip [70] \<noteq> []" "encoded_length [70] = Inr 1" by code_simp+
    then show ?thesis by (simp add: validate_terms_def policy_def MAX_TERMS_TEXT_BYTES_def MAX_REFUNDABLE_HOURS_def)
  qed
  have free: "\<not> is_blocked desk_limits (new_limiter :: uuid limiter) 0 4" by code_simp
  note eval = create_terms_version_def insert_next_terms_version_def insert_terms_def insert_row_def Let_def max_version_def
    live_terms_def terms_ok_def terms_row_ok_def policy_def
  have empty: "d_terms shop_db = []" by (simp add: shop_db_def empty_db_def)
  have "length (live_terms 4 (snd (fst (create_terms_version desk_limits 4 policy 1 0 (\<lambda>_. raced) (\<lambda>_. raced) (\<lambda>_. raced)
      (new_limiter, shop_db))))) = 2"
    using v [unfolded policy_def] free by (simp add: eval raced_def empty)
  then have two_rows: "length (live_terms 4 s') = 2" unfolding two by simp
  have "numbered tn shop_db" for tn by (simp add: numbered_def live_terms_def shop_db_def empty_db_def)
  moreover have "desk_ok shop_db" by code_simp
  moreover have "healthy sample_env shop_db"
    by (simp add: healthy_def links_agree_def offers_agree_def one_offer_per_queue_def shop_db_def empty_db_def db_ok_def
        bookings_ok_def payments_ok_def messages_ok_def entries_ok_def customers_ok_def ids_below_def subjects_below_def)
  ultimately have "\<forall>tn. map v_version (live_terms tn s') = [1..int (length (live_terms tn s'))]"
    using terms_history_is_gapless [OF run] by simp
  with run two_rows show ?thesis by blast
qed

section \<open>Settings\<close>

lemma map_of_overlay: "map_of (overlay patch base) k = (case map_of (rev patch) k of None \<Rightarrow> map_of base k | Some v \<Rightarrow> Some v)"
proof (induction patch arbitrary: base)
  case (Cons kv patch)
  obtain k' v where "kv = (k', v)" by fastforce
  with Cons [of "AList.update k' v base"] show ?case
    by (auto simp: overlay_def update_conv' map_add_def split: option.splits)
qed (simp add: overlay_def)

lemma map_of_put_block:
  "map_of (put_block key b settings) k = (if k = key then (case b of None \<Rightarrow> map_of settings k | Some kvs \<Rightarrow> Some (J_object kvs)) else map_of settings k)"
  by (auto simp: put_block_def merge_block_def update_conv' split: option.splits)

definition saved_keys :: "settings_patch \<Rightarrow> string set" where
  "saved_keys p =
     (if sp_profile p = None then {} else {''profile''}) \<union> (if sp_toggles p = None then {} else {''toggles''})
     \<union> (if sp_atelier p = None then {} else {''atelier''}) \<union> (if sp_scheduling p = None then {} else {''scheduling''})"

definition saved_actions :: "settings_patch \<Rightarrow> audit_action list" where
  "saved_actions p =
     (if sp_atelier p = None then [] else [Settings_action Atelier_settings_updated])
     @ (if sp_toggles p = None then [] else [Settings_action Toggles_updated])
     @ (if sp_scheduling p = None then [] else [Settings_action Scheduling_settings_updated])"

text \<open>C8. Saving settings touches what was sent. A save stores the profile, the atelier block and the scheduling
  block whole when they are in the request, the last with a weekday and a time of day that are in bounds, and
  answers them back (the schedule over its defaults), and merges the switches one by one; every other key, every
  switch not named, and every other shop stay as they were, the deposit gate follows its switch, and each of the
  three audited blocks leaves exactly one audit row.\<close>

theorem a_save_touches_what_was_sent:
  assumes "update_settings urlsplit is_dec tn p (ts, s) = Inr ((ts', s'), view)" "ts tn = Some old"
    "\<forall>t. sp_toggles p = Some t \<longrightarrow> distinct (map fst t)" "\<forall>b. sp_scheduling p = Some b \<longrightarrow> distinct (map fst b)"
  shows "\<exists>new. ts' = ts(tn \<mapsto> new)
    \<and> (\<forall>k. k \<notin> saved_keys p \<longrightarrow> map_of new k = map_of old k)
    \<and> (\<forall>b. sp_profile p = Some b \<longrightarrow> map_of new ''profile'' = Some (J_object b) \<and> sr_profile view = b)
    \<and> (\<forall>b. sp_atelier p = Some b \<longrightarrow> map_of new ''atelier'' = Some (J_object b) \<and> sr_atelier view = b)
    \<and> (\<forall>b. sp_scheduling p = Some b \<longrightarrow> map_of new ''scheduling'' = Some (J_object b)
         \<and> (\<forall>k. map_of (sr_scheduling view) k
              = (case map_of b k of None \<Rightarrow> map_of SCHEDULING_DEFAULTS k | Some v \<Rightarrow> Some v))
         \<and> (\<exists>d t. map_of b ''submission_deadline_day_of_week'' = Some (J_int d) \<and> 0 \<le> d \<and> d \<le> 6
              \<and> map_of b ''submission_deadline_time'' = Some (J_text t) \<and> deadline_shape is_dec t))
    \<and> (\<forall>t k. sp_toggles p = Some t \<longrightarrow> map_of (stored_block ''toggles'' new) k
         = (case map_of t k of None \<Rightarrow> map_of (stored_block ''toggles'' old) k | Some v \<Rightarrow> Some v))
    \<and> (\<forall>t on. sp_toggles p = Some t \<longrightarrow> map_of t ''deposits_enabled'' = Some (J_bool on) \<longrightarrow> deposits_enabled (Some new) = on)
    \<and> map au_action (d_audit s') = map au_action (d_audit s) @ saved_actions p"
proof -
  let ?new = "merge_settings p old"
  from assms(1,2) have out: "ts' = ts(tn \<mapsto> ?new)" "view = settings_view ?new"
    "map au_action (d_audit s') = map au_action (d_audit s) @ saved_actions p"
    by (auto simp: update_settings_def andthen_eq_Inr Let_def note_block_def record_audit_def saved_actions_def)
  have keys: "map_of ?new k = map_of old k" if "k \<notin> saved_keys p" for k
    using that by (auto simp: merge_settings_def map_of_put_block saved_keys_def split: option.splits if_splits)
  have blocks: "sp_profile p = Some b \<Longrightarrow> map_of ?new ''profile'' = Some (J_object b) \<and> sr_profile view = b"
    "sp_atelier p = Some b \<Longrightarrow> map_of ?new ''atelier'' = Some (J_object b) \<and> sr_atelier view = b"
    "sp_scheduling p = Some b \<Longrightarrow> map_of ?new ''scheduling'' = Some (J_object b)" for b
    by (simp_all add: out(2) settings_view_def stored_block_def merge_settings_def map_of_put_block)
  have named: "map_of (overlay t base) k = (case map_of t k of None \<Rightarrow> map_of base k | Some v \<Rightarrow> Some v)"
    if "distinct (map fst t)" for t base k
  proof -
    have "map_of (rev t) = map_of t" using that by (simp add: map_of_inject_set rev_map [symmetric])
    then show ?thesis by (simp add: map_of_overlay)
  qed
  have schedule: "map_of (sr_scheduling view) k
      = (case map_of b k of None \<Rightarrow> map_of SCHEDULING_DEFAULTS k | Some v \<Rightarrow> Some v)" if "sp_scheduling p = Some b" for b k
    using named [of b SCHEDULING_DEFAULTS k] assms(4) that blocks(3) [OF that]
    by (simp add: out(2) settings_view_def stored_block_def)
  have bounds: "\<exists>d t. map_of b ''submission_deadline_day_of_week'' = Some (J_int d) \<and> 0 \<le> d \<and> d \<le> 6
      \<and> map_of b ''submission_deadline_time'' = Some (J_text t) \<and> deadline_shape is_dec t"
    if "sp_scheduling p = Some b" for b
  proof -
    have "validate_scheduling_settings is_dec b = Inr ()"
      using assms(1) that by (auto simp: update_settings_def validate_patch_def andthen_eq_Inr check_block_def)
    then show ?thesis
      by (auto simp: validate_scheduling_settings_def andthen_eq_Inr ensure_def
          split: option.splits json.splits if_splits)
  qed
  have switches: "map_of (stored_block ''toggles'' ?new) k
      = (case map_of t k of None \<Rightarrow> map_of (stored_block ''toggles'' old) k | Some v \<Rightarrow> Some v)" if "sp_toggles p = Some t" for t k
  proof -
    have "stored_block ''toggles'' ?new = overlay t (stored_block ''toggles'' old)"
      using that by (simp add: stored_block_def merge_settings_def map_of_put_block)
    with named assms(3) that show ?thesis by simp
  qed
  have "deposits_enabled (Some ?new) = on" if sent: "sp_toggles p = Some t" "map_of t ''deposits_enabled'' = Some (J_bool on)" for t on
  proof -
    obtain kvs where kvs: "map_of ?new ''toggles'' = Some (J_object kvs)" using sent(1) by (simp add: merge_settings_def map_of_put_block)
    then have "map_of kvs ''deposits_enabled'' = Some (J_bool on)"
      using switches [OF sent(1), of "''deposits_enabled''"] sent(2) by (simp add: stored_block_def)
    with kvs show ?thesis by (simp add: deposits_enabled_def truthy_def)
  qed
  with out(1,3) keys blocks schedule bounds switches show ?thesis by (intro exI conjI) (assumption | blast)+
qed

text \<open>Deposits are switched on; the stored address and the other switch stay.\<close>

theorem a_save_touches_what_was_sent_witness:
  "\<exists>ts' s' view new.
     update_settings (\<lambda>_. ([], [])) (\<lambda>_. False) 4
       \<lparr>sp_profile = None, sp_toggles = Some [(''deposits_enabled'', J_bool True)], sp_atelier = None, sp_scheduling = None\<rparr>
       ((\<lambda>_. Some [(''profile'', J_object [(''address'', J_text [70])]), (''toggles'', J_object [(''brides_only'', J_bool True)])]), shop_db)
       = Inr ((ts', s'), view)
     \<and> ts' 4 = Some new \<and> deposits_enabled (Some new) \<and> map_of (stored_block ''toggles'' new) ''brides_only'' = Some (J_bool True)
     \<and> map_of new ''profile'' = Some (J_object [(''address'', J_text [70])])"
proof -
  let ?p = "\<lparr>sp_profile = None, sp_toggles = Some [(''deposits_enabled'', J_bool True)], sp_atelier = None, sp_scheduling = None\<rparr>"
  let ?old = "[(''profile'', J_object [(''address'', J_text [70])]), (''toggles'', J_object [(''brides_only'', J_bool True)])]"
  let ?ts = "\<lambda>_. Some ?old"
  have "validate_patch (\<lambda>_. ([], [])) (\<lambda>_. False) ?p = Inr ()" by code_simp
  then obtain ts' s' view where run: "update_settings (\<lambda>_. ([], [])) (\<lambda>_. False) 4 ?p (?ts, shop_db) = Inr ((ts', s'), view)"
    by (simp add: update_settings_def Let_def)
  have d: "\<forall>t. sp_toggles ?p = Some t \<longrightarrow> distinct (map fst t)" by simp
  have d': "\<forall>b. sp_scheduling ?p = Some b \<longrightarrow> distinct (map fst b)" by simp
  from a_save_touches_what_was_sent [OF run _ d d', of ?old] obtain new where new: "ts' = ?ts(4 \<mapsto> new)"
    "\<forall>k. k \<notin> saved_keys ?p \<longrightarrow> map_of new k = map_of ?old k"
    "\<forall>t k. sp_toggles ?p = Some t \<longrightarrow> map_of (stored_block ''toggles'' new) k
       = (case map_of t k of None \<Rightarrow> map_of (stored_block ''toggles'' ?old) k | Some v \<Rightarrow> Some v)"
    "\<forall>t on. sp_toggles ?p = Some t \<longrightarrow> map_of t ''deposits_enabled'' = Some (J_bool on) \<longrightarrow> deposits_enabled (Some new) = on"
    by auto
  have "deposits_enabled (Some new)" using new(4) [rule_format, of _ True] by simp
  moreover have "map_of (stored_block ''toggles'' new) ''brides_only'' = Some (J_bool True)"
    using new(3) [rule_format, of _ "''brides_only''"] by (simp add: stored_block_def)
  moreover have "map_of new ''profile'' = Some (J_object [(''address'', J_text [70])])"
    using new(2) by (simp add: saved_keys_def)
  ultimately show ?thesis using run new(1) by (intro exI conjI) (assumption | simp)+
qed

end
