(* ===== verification/Portal.thy ===== *)
theory Portal
  imports Boutique Privacy_Laws
begin

text \<open>
  The customer's portal (\<open>app/portal/service.py\<close>, \<open>dependencies.py\<close>) and the owner's customer console
  (\<open>app/customers/service.py\<close>, \<open>validation.py\<close>). A portal session is minted from a spent phone verification and
  names a customer by identifier; every page fetches a booking through it. \<open>casefold\<close> is \<open>str.casefold\<close>.
\<close>

section \<open>Sessions\<close>

record customer_context =
  cc_id :: uuid
  cc_tenant :: uuid
  cc_name :: utext
  cc_phone :: utext

text \<open>An answer without a session commits too: the verification is spent.\<close>

definition create_portal_session ::
  "env \<Rightarrow> limiter_cfg \<Rightarrow> uuid \<Rightarrow> utext \<Rightarrow> utext \<Rightarrow> utext \<Rightarrow> int \<Rightarrow> int \<Rightarrow> instant \<Rightarrow> instant \<Rightarrow> uuid limiter \<times> registry
   \<Rightarrow> (uuid limiter \<times> registry) \<times> (error + utext \<times> utext)" where
  "create_portal_session e cfg tn raw verification minted ttl tick now otp_now lr =
     (let (l, r) = lr; counted = record_failure cfg l tick tick tn in
      if is_blocked cfg l tick tn then ((l, r), Inl (Client_error Portal_throttled))
      else
        (case normalize_israeli_mobile raw of
           None \<Rightarrow> ((counted, r), Inl Phone_invalid)
         | Some phone \<Rightarrow>
             (case consume_verification e tn raw verification otp_now (rg_db r) of
                Inl err \<Rightarrow> ((counted, r), Inl err)
              | Inr (s, verified) \<Rightarrow>
                  if \<not> verified then ((counted, r), Inl Phone_not_verified)
                  else
                    (case customer_by_phone tn phone s of
                       None \<Rightarrow> ((counted, put_db s r), Inl (Client_error Portal_no_bookings))
                     | Some c \<Rightarrow>
                         (case insert_portal_session tn (c_id c) (e_hash e minted) (now + seconds ttl) (put_db s r) of
                            Inl err \<Rightarrow> ((counted, r), Inl err)
                          | Inr (r', _) \<Rightarrow> ((counted, r'), Inr (c_name c, minted)))))))"

definition resolve_customer_session :: "env \<Rightarrow> uuid \<Rightarrow> utext \<Rightarrow> instant \<Rightarrow> registry \<Rightarrow> error + customer_context option" where
  "resolve_customer_session e tn token now r =
     andthen (active_session tn (e_hash e token) now r) (\<lambda>row.
     Inr (case row of
            None \<Rightarrow> None
          | Some c \<Rightarrow> map_option (\<lambda>p. \<lparr>cc_id = c_id p, cc_tenant = tn, cc_name = c_name p, cc_phone = c_phone p\<rparr>)
                        (customer_by_id tn (cs_customer c) (rg_db r))))"

definition current_customer :: "env \<Rightarrow> uuid \<Rightarrow> utext option \<Rightarrow> instant \<Rightarrow> registry \<Rightarrow> error + customer_context" where
  "current_customer e tn cookie now r =
     (case cookie of
        None \<Rightarrow> Inl (Staff_error Not_authenticated)
      | Some token \<Rightarrow>
          if token = [] then Inl (Staff_error Not_authenticated)
          else andthen (resolve_customer_session e tn token now r) (need (Staff_error Not_authenticated)))"

definition portal_logout :: "env \<Rightarrow> uuid \<Rightarrow> utext \<Rightarrow> registry \<Rightarrow> registry" where
  "portal_logout e tn token r = fst (revoke_session tn (e_hash e token) r)"

section \<open>Her pages\<close>

definition PORTAL_BOOKING_LIMIT :: nat where "PORTAL_BOOKING_LIMIT = 100"

definition portal_bookings :: "uuid \<Rightarrow> customer_context \<Rightarrow> instant \<Rightarrow> db \<Rightarrow> booking list \<times> booking list" where
  "portal_bookings tn who now s =
     (let rows = recent_bookings tn (cc_id who) PORTAL_BOOKING_LIMIT s in
      (rev (filter (\<lambda>b. b_starts_at b > now) rows), filter (\<lambda>b. b_starts_at b \<le> now) rows))"

definition her_booking :: "uuid \<Rightarrow> customer_context \<Rightarrow> uuid \<Rightarrow> db \<Rightarrow> error + booking" where
  "her_booking tn who bid s =
     (case booking_by_id tn bid s of
        None \<Rightarrow> Inl Booking_not_found
      | Some b \<Rightarrow> if b_customer b \<noteq> cc_id who then Inl Booking_not_found else Inr b)"

definition portal_booking :: "manage_tenant \<Rightarrow> customer_context \<Rightarrow> uuid \<Rightarrow> db \<Rightarrow> error + manage_response" where
  "portal_booking tenant who bid s =
     andthen (her_booking (mt_id tenant) who bid s) (\<lambda>b. Inr (manage_render tenant b s))"

definition portal_confirm :: "manage_tenant \<Rightarrow> customer_context \<Rightarrow> uuid \<Rightarrow> instant \<Rightarrow> db \<Rightarrow> error + db \<times> manage_response" where
  "portal_confirm tenant who bid now s =
     andthen (her_booking (mt_id tenant) who bid s) (\<lambda>b. manage_confirm tenant b now s)"

definition portal_cancel :: "manage_tenant \<Rightarrow> customer_context \<Rightarrow> uuid \<Rightarrow> instant \<Rightarrow> db \<Rightarrow> error + db \<times> manage_response" where
  "portal_cancel tenant who bid now s =
     andthen (her_booking (mt_id tenant) who bid s) (\<lambda>b. manage_cancel tenant b now s)"

definition portal_ics ::
  "(uuid \<Rightarrow> utext) \<Rightarrow> manage_tenant \<Rightarrow> customer_context \<Rightarrow> uuid \<Rightarrow> utext \<Rightarrow> utext \<Rightarrow> instant \<Rightarrow> db \<Rightarrow> error + utext" where
  "portal_ics show_id tenant who bid slug base_domain now s =
     andthen (her_booking (mt_id tenant) who bid s) (\<lambda>b. manage_ics show_id tenant b slug base_domain now s)"

definition portal_bell :: "uuid \<Rightarrow> customer_context \<Rightarrow> registry \<Rightarrow> nat \<times> (log_row \<times> booking) list" where
  "portal_bell tn who r =
     (let items = bell_for_customer tn (cc_id who) r;
          seen = (if customer_by_id tn (cc_id who) (rg_db r) = None then None else cd_bell_seen_at (rg_dossier r (cc_id who))) in
      (case seen of None \<Rightarrow> length items | Some at \<Rightarrow> length (filter (\<lambda>(m, _). ml_created_at m > at) items), items))"

definition mark_bell_seen :: "uuid \<Rightarrow> customer_context \<Rightarrow> instant \<Rightarrow> registry \<Rightarrow> registry" where
  "mark_bell_seen tn who now r = fst (set_bell_seen tn (cc_id who) now r)"

section \<open>The console\<close>

definition MAX_TAG_LENGTH :: nat where "MAX_TAG_LENGTH = 24"
definition MAX_TAGS :: nat where "MAX_TAGS = 10"
definition MAX_CUSTOMER_NOTES_LENGTH :: nat where "MAX_CUSTOMER_NOTES_LENGTH = 2000"
definition BOOKING_HISTORY_LIMIT :: nat where "BOOKING_HISTORY_LIMIT = 50"
definition MAX_CUSTOMER_OFFSET :: int where "MAX_CUSTOMER_OFFSET = 1000000"
definition CUSTOMER_LIST_MAX_LIMIT :: int where "CUSTOMER_LIST_MAX_LIMIT = 200"

text \<open>The loop over the tags: what is kept so far and the folded forms seen.\<close>

fun keep_tags :: "(utext \<Rightarrow> utext) \<Rightarrow> utext list \<Rightarrow> utext list \<Rightarrow> utext list \<Rightarrow> error + utext list" where
  "keep_tags casefold [] seen kept = Inr kept"
| "keep_tags casefold (raw # raws) seen kept =
     (let tag = ustrip raw in
      if tag = [] then keep_tags casefold raws seen kept
      else
        andthen (ensure (Domain_validation ''tags: a tag contains invalid characters'') (\<not> list_ex control_char tag)) (\<lambda>_.
        andthen (ensure (Domain_validation ''tags: a tag is too long'') (\<not> length tag > MAX_TAG_LENGTH)) (\<lambda>_.
        if casefold tag \<in> set seen then keep_tags casefold raws seen kept
        else keep_tags casefold raws (casefold tag # seen) (kept @ [tag]))))"

definition normalize_tags :: "(utext \<Rightarrow> utext) \<Rightarrow> utext list \<Rightarrow> error + utext list" where
  "normalize_tags casefold tags =
     andthen (keep_tags casefold tags [] []) (\<lambda>kept.
     andthen (ensure (Domain_validation ''tags: at most 10 tags are allowed'') (\<not> length kept > MAX_TAGS)) (\<lambda>_. Inr kept))"

definition validate_customer_notes :: "utext \<Rightarrow> error + unit" where
  "validate_customer_notes notes =
     andthen (ensure (Domain_validation ''notes is too long'') (\<not> length notes > MAX_CUSTOMER_NOTES_LENGTH)) (\<lambda>_.
     ensure (Domain_validation ''notes contains invalid characters'') (\<not> list_ex control_char_except_ws notes))"

record customer_detail =
  dt_customer :: customer
  dt_notes :: "utext option"
  dt_tags :: "utext list"
  dt_bookings :: "booking list"
  dt_messages :: "log_row list"
  dt_messages_total :: nat

definition build_detail :: "uuid \<Rightarrow> customer \<Rightarrow> registry \<Rightarrow> customer_detail" where
  "build_detail tn c r =
     \<lparr>dt_customer = c, dt_notes = cd_notes (rg_dossier r (c_id c)), dt_tags = cd_tags (rg_dossier r (c_id c)),
      dt_bookings = recent_bookings tn (c_id c) BOOKING_HISTORY_LIMIT (rg_db r),
      dt_messages = log_for_customer tn (c_id c) (c_phone c) r,
      dt_messages_total = count_log_for_customer tn (c_id c) (c_phone c) r\<rparr>"

definition list_customers ::
  "(utext \<Rightarrow> nat) \<Rightarrow> (utext \<Rightarrow> utext \<Rightarrow> bool) \<Rightarrow> (nat \<Rightarrow> bool) \<Rightarrow> uuid \<Rightarrow> utext option \<Rightarrow> int \<Rightarrow> int \<Rightarrow> db
   \<Rightarrow> customer list \<times> nat \<times> int \<times> int" where
  "list_customers collate icontains is_dec tn q offset limit s =
     (let off = min (max offset 0) MAX_CUSTOMER_OFFSET; lim = min (max limit 1) CUSTOMER_LIST_MAX_LIMIT in
      (search_customers collate icontains is_dec tn q (nat off) (nat lim) s, count_search icontains is_dec tn q s, off, lim))"

definition customer_detail_of :: "uuid \<Rightarrow> uuid \<Rightarrow> registry \<Rightarrow> error + customer_detail" where
  "customer_detail_of tn cid r =
     andthen (need (Client_error Customer_not_found) (customer_by_id tn cid (rg_db r))) (\<lambda>c. Inr (build_detail tn c r))"

text \<open>\<open>_moved\<close>: a field that is sent and differs from what is stored.\<close>

definition moved :: "'a option \<Rightarrow> 'a \<Rightarrow> 'a option" where
  "moved sent stored = (case sent of None \<Rightarrow> None | Some v \<Rightarrow> if v = stored then None else Some v)"

definition moved_notes :: "utext option \<Rightarrow> utext option \<Rightarrow> utext option" where
  "moved_notes sent stored = (case sent of None \<Rightarrow> None | Some v \<Rightarrow> if stored = Some v then None else Some v)"

definition update_customer_record ::
  "(utext \<Rightarrow> utext) \<Rightarrow> uuid \<Rightarrow> uuid \<Rightarrow> utext option \<Rightarrow> utext list option \<Rightarrow> registry \<Rightarrow> error + registry \<times> customer_detail" where
  "update_customer_record casefold tn cid notes tags r =
     andthen (case notes of None \<Rightarrow> Inr () | Some n \<Rightarrow> validate_customer_notes n) (\<lambda>_.
     andthen (case tags of None \<Rightarrow> Inr None | Some ts \<Rightarrow> andthen (normalize_tags casefold ts) (\<lambda>kept. Inr (Some kept))) (\<lambda>normalized.
     andthen (need (Client_error Customer_not_found) (customer_by_id tn cid (rg_db r))) (\<lambda>c.
     let d = rg_dossier r cid; n = moved_notes notes (cd_notes d); ts = moved normalized (cd_tags d);
         r' = (if n = None \<and> ts = None then r
               else rg_record tn Customer_updated (Some cid) (fst (set_notes_and_tags tn cid n ts r))) in
     Inr (r', build_detail tn c r'))))"

end
