(* ===== verification/Portal_Laws.thy ===== *)
theory Portal_Laws
  imports Portal Privacy_Laws "HOL-Library.Multiset"
begin

text \<open>
  A portal session opens for the customer whose number was verified, until it expires, is closed, or she is
  erased; its pages reach her own bookings only; and saving in the console what it shows writes nothing.
\<close>

section \<open>Sessions\<close>

lemma find_keyed:
  "distinct (map key rows) \<Longrightarrow> c \<in> set rows \<Longrightarrow> P c \<Longrightarrow> \<forall>x. P x \<longrightarrow> key x = key c \<Longrightarrow> find P rows = Some c"
proof (induction rows)
  case (Cons r rows)
  show ?case
  proof (cases "P r")
    case True
    then have "key r = key c" using Cons.prems(4) by blast
    then have "r = c" using Cons.prems(1,2) by (auto simp: image_iff)
    with True show ?thesis by simp
  next
    case False
    then have "c \<noteq> r" using Cons.prems(3) by blast
    then have "distinct (map key rows)" "c \<in> set rows" using Cons.prems(1,2) by simp_all
    then have "find P rows = Some c" by (rule Cons.IH [OF _ _ Cons.prems(3,4)])
    with False show ?thesis by simp
  qed
qed simp

lemma customer_by_id_of_row:
  assumes "customers_ok (d_customers s)" "customer_by_phone tn phone s = Some c"
  shows "customer_by_id tn (c_id c) s = Some c"
  unfolding customer_by_id_def names_customer_def
proof (rule find_keyed [where key = c_id])
  show "distinct (map c_id (d_customers s))" using assms(1) by (simp add: customers_ok_def)
qed (use customer_by_phone_SomeD [OF assms(2)] in simp_all)

lemma consume_verification_sessions:
  assumes "consume_verification e tn raw token now s = Inr (s', ok)"
  shows "d_customers s' = d_customers s"
  using assms by (auto simp: consume_verification_def consume_token_def andthen_eq_Inr)

lemma create_portal_session_Inr:
  assumes "create_portal_session e cfg tn raw verification minted ttl tick now otp_now (l, r) = ((l', r'), Inr (name, token))"
  obtains phone s c where "normalize_israeli_mobile raw = Some phone"
    "consume_verification e tn raw verification otp_now (rg_db r) = Inr (s, True)" "customer_by_phone tn phone s = Some c"
    "token = minted" "name = c_name c" "rg_db r' = s\<lparr>d_next := d_next s + 1\<rparr>"
    "rg_sessions r' = rg_sessions r @ [\<lparr>cs_id = d_next s, cs_tenant = tn, cs_customer = c_id c, cs_token_hash = e_hash e minted,
       cs_expires_at = now + seconds ttl, cs_deleted = False\<rparr>]"
  using assms
  by (auto simp: create_portal_session_def Let_def insert_portal_session_def andthen_eq_Inr insert_row_Inr split: if_splits option.splits sum.splits)

lemma no_session:
  assumes "\<forall>x\<in>set (rg_sessions r). cs_token_hash x = e_hash e token \<longrightarrow> cs_deleted x"
  shows "resolve_customer_session e tn token t r = Inr None"
proof -
  have "filter (\<lambda>c. cs_tenant c = tn \<and> cs_token_hash c = e_hash e token \<and> \<not> cs_deleted c \<and> t < cs_expires_at c) (rg_sessions r) = []"
    using assms by (auto simp: filter_empty_conv)
  then show ?thesis by (simp add: resolve_customer_session_def active_session_def one_or_none_def)
qed

text \<open>C7. A session is hers and ends with her. A sign-in that succeeds has spent the verification of a number and opens, until it
  expires, exactly the customer of that number; signing out closes it at once, and so does the erasure of that
  customer, whatever else the erasure does.\<close>

theorem portal_session_is_hers:
  assumes "create_portal_session e cfg tn raw verification minted ttl tick now otp_now (l, r) = ((l', r'), Inr (name, token))"
    and "customers_ok (d_customers (rg_db r))" "\<forall>x\<in>set (rg_sessions r). cs_token_hash x \<noteq> e_hash e minted"
  shows "\<exists>phone s c. normalize_israeli_mobile raw = Some phone
    \<and> consume_verification e tn raw verification otp_now (rg_db r) = Inr (s, True)
    \<and> customer_by_phone tn phone (rg_db r) = Some c
    \<and> (\<forall>t. resolve_customer_session e tn token t r' = Inr (if t < now + seconds ttl
         then Some \<lparr>cc_id = c_id c, cc_tenant = tn, cc_name = name, cc_phone = phone\<rparr> else None))
    \<and> (\<forall>t. resolve_customer_session e tn token t (portal_logout e tn token r') = Inr None)
    \<and> (\<forall>show_id r'' counts t. erase_in_session show_id tn (c_id c) r' = Inr (r'', False, counts)
         \<longrightarrow> resolve_customer_session e tn token t r'' = Inr None)"
proof -
  from create_portal_session_Inr [OF assms(1)] obtain phone s c where
    ph: "normalize_israeli_mobile raw = Some phone" and spent: "consume_verification e tn raw verification otp_now (rg_db r) = Inr (s, True)"
    and c: "customer_by_phone tn phone s = Some c" and names: "token = minted" "name = c_name c"
    and db: "rg_db r' = s\<lparr>d_next := d_next s + 1\<rparr>"
    and rows: "rg_sessions r' = rg_sessions r @ [\<lparr>cs_id = d_next s, cs_tenant = tn, cs_customer = c_id c, cs_token_hash = e_hash e minted,
       cs_expires_at = now + seconds ttl, cs_deleted = False\<rparr>]" .
  have same: "d_customers s = d_customers (rg_db r)" by (rule consume_verification_sessions [OF spent])
  have her: "customer_by_phone tn phone (rg_db r) = Some c" using c by (simp add: customer_by_phone_def same)
  have "customer_by_id tn (c_id c) (rg_db r) = Some c" by (rule customer_by_id_of_row [OF assms(2) her])
  then have row: "customer_by_id tn (c_id c) (rg_db r') = Some c" by (simp add: customer_by_id_def db same)
  have "c_phone c = phone" using customer_by_phone_SomeD [OF her] by simp
  have none: "filter (\<lambda>x. cs_tenant x = tn \<and> cs_token_hash x = e_hash e minted \<and> \<not> cs_deleted x \<and> t < cs_expires_at x) (rg_sessions r) = []" for t
    using assms(3) by (auto simp: filter_empty_conv)
  have opens: "resolve_customer_session e tn token t r' = Inr (if t < now + seconds ttl
      then Some \<lparr>cc_id = c_id c, cc_tenant = tn, cc_name = name, cc_phone = phone\<rparr> else None)" for t
    using row \<open>c_phone c = phone\<close> by (simp add: resolve_customer_session_def active_session_def one_or_none_def rows none names)
  have "resolve_customer_session e tn token t (portal_logout e tn token r') = Inr None" for t
    by (rule no_session) (use assms(3) in \<open>auto simp: portal_logout_def revoke_session_def rows names ball_update_where\<close>)
  moreover have "resolve_customer_session e tn token t r'' = Inr None"
    if "erase_in_session show_id tn (c_id c) r' = Inr (r'', False, counts)" for show_id r'' counts t
  proof (rule no_session)
    from erase_in_session_Inr [OF that row] obtain r1 where "erase_rows show_id tn c r' = Inr (r1, counts)"
      "r'' = rg_record tn (Privacy_action Subject_erased) (Some (c_id c)) r1" by blast
    then have "rg_sessions r'' = update_where (\<lambda>x. cs_tenant x = tn \<and> cs_customer x = c_id c \<and> \<not> cs_deleted x)
       (\<lambda>x. x\<lparr>cs_deleted := True\<rparr>) (rg_sessions r')" using erase_rows_Inr(8) by simp
    then show "\<forall>x\<in>set (rg_sessions r''). cs_token_hash x = e_hash e token \<longrightarrow> cs_deleted x"
      using assms(3) by (auto simp: rows names ball_update_where)
  qed
  ultimately show ?thesis using ph spent her opens by blast
qed

text \<open>She verified her number and signs in; the shop later erases her.\<close>

definition signing_in :: registry where
  "signing_in =
     remembered\<lparr>rg_house := (rg_house remembered)\<lparr>h_db := verified_shop\<lparr>d_customers :=
       [\<lparr>c_id = 5, c_tenant = 4, c_phone = o_phone sample_code, c_name = [65], c_consent_at = None, c_withdrawn_at = None,
         c_erased_at = None, c_deleted = False\<rparr>]\<rparr>\<rparr>, rg_sessions := []\<rparr>"

definition portal_limits :: limiter_cfg where "portal_limits = \<lparr>max_attempts = 3, window_length = 60\<rparr>"

theorem portal_session_is_hers_witness:
  "\<exists>l' r'. create_portal_session sample_env portal_limits 4 (o_phone sample_code) [9] [7] 60 0 0 0 (new_limiter, signing_in)
       = ((l', r'), Inr ([65], [7]))
     \<and> resolve_customer_session sample_env 4 [7] 1 r'
       = Inr (Some \<lparr>cc_id = 5, cc_tenant = 4, cc_name = [65], cc_phone = o_phone sample_code\<rparr>)
     \<and> resolve_customer_session sample_env 4 [7] 1 (portal_logout sample_env 4 [7] r') = Inr None"
proof -
  let ?run = "create_portal_session sample_env portal_limits 4 (o_phone sample_code) [9] [7] 60 0 0 0 (new_limiter, signing_in)"
  have n: "normalize_israeli_mobile (o_phone sample_code) = Some (o_phone sample_code)"
    by (rule normalized_mobile_fixed) (simp add: sample_code_def normalized_mobile_def is_digit_def)
  have "\<exists>s. consume_verification sample_env 4 (o_phone sample_code) [9] 0 (rg_db signing_in) = Inr (s, True)"
  proof -
    have "(case consume_token 4 (o_phone sample_code) (e_hash sample_env [9]) 0 (rg_db signing_in) of Inl _ \<Rightarrow> False | Inr (_, b) \<Rightarrow> b)"
      by code_simp
    then show ?thesis by (auto simp: consume_verification_def n split: sum.splits)
  qed
  then obtain s where s: "consume_verification sample_env 4 (o_phone sample_code) [9] 0 (rg_db signing_in) = Inr (s, True)" by blast
  have cs: "d_customers s = d_customers (rg_db signing_in)" by (rule consume_verification_sessions [OF s])
  have her: "customer_by_phone 4 (o_phone sample_code) (rg_db signing_in) =
      Some \<lparr>c_id = 5, c_tenant = 4, c_phone = o_phone sample_code, c_name = [65], c_consent_at = None, c_withdrawn_at = None,
         c_erased_at = None, c_deleted = False\<rparr>"
    by (simp add: customer_by_phone_def signing_in_def)
  have free: "\<not> is_blocked portal_limits (new_limiter :: uuid limiter) 0 4" by code_simp
  have none: "rg_sessions signing_in = []" by (simp add: signing_in_def)
  obtain l' r' where run: "?run = ((l', r'), Inr ([65], [7]))"
    using her cs none by (simp add: create_portal_session_def free n s insert_portal_session_def insert_row_def portal_sessions_ok_def
        Let_def customer_by_phone_def)
  have ok: "customers_ok (d_customers (rg_db signing_in))" by (simp add: signing_in_def customers_ok_def)
  have "\<forall>x\<in>set (rg_sessions signing_in). cs_token_hash x \<noteq> e_hash sample_env [7]" by (simp add: none)
  from portal_session_is_hers [OF run ok this] her have
    "resolve_customer_session sample_env 4 [7] 1 r' = Inr (if 1 < 0 + seconds 60
        then Some \<lparr>cc_id = 5, cc_tenant = 4, cc_name = [65], cc_phone = o_phone sample_code\<rparr> else None)"
    "resolve_customer_session sample_env 4 [7] 1 (portal_logout sample_env 4 [7] r') = Inr None"
    by (auto simp: n)
  with run show ?thesis by (simp add: seconds_def)
qed

section \<open>Her pages reach her bookings only\<close>

lemma her_booking_Inr: "her_booking tn who bid s = Inr b \<longleftrightarrow> booking_by_id tn bid s = Some b \<and> b_customer b = cc_id who"
  by (auto simp: her_booking_def split: option.splits)

lemma foreign_booking_refused:
  assumes "booking_by_id (mt_id tenant) bid s = None \<or> (\<exists>b. booking_by_id (mt_id tenant) bid s = Some b \<and> b_customer b \<noteq> cc_id who)"
  shows "portal_booking tenant who bid s = Inl Booking_not_found" "portal_confirm tenant who bid now s = Inl Booking_not_found"
    "portal_cancel tenant who bid now s = Inl Booking_not_found" "portal_ics show_id tenant who bid slug base now s = Inl Booking_not_found"
  using assms by (auto simp: portal_booking_def portal_confirm_def portal_cancel_def portal_ics_def her_booking_def)

lemma portal_handlers_keep:
  assumes "healthy e s"
  shows "leaves (healthy e) (portal_confirm tenant who bid now s)" "leaves (healthy e) (portal_cancel tenant who bid now s)"
  unfolding portal_confirm_def manage_confirm_def portal_cancel_def manage_cancel_def
  by (intro leaves_pure [where m = "her_booking _ _ _ _"] leaves_if leaves_ensure leaves_then [OF confirm_attendance_keeps]
      leaves_then [OF cancel_booking_keeps] leaves_then [OF cancel_pending_keeps] leaves_pair leaves_Inr; simp add: assms)+

text \<open>The lists show every recent booking once, the coming ones soonest first.\<close>

lemma mset_parts: "mset (filter P xs) + mset (filter (\<lambda>x. \<not> P x) xs) = mset xs"
  by (induction xs) auto

lemma portal_bookings_partition:
  "portal_bookings tn who now s = (upcoming_rows, past) \<Longrightarrow>
   mset upcoming_rows + mset past = mset (recent_bookings tn (cc_id who) PORTAL_BOOKING_LIMIT s)"
  using mset_parts [of "\<lambda>b. b_starts_at b > now" "recent_bookings tn (cc_id who) PORTAL_BOOKING_LIMIT s"]
  by (auto simp: portal_bookings_def Let_def not_less)

text \<open>Once seen, the bell is silent until something later is sent.\<close>

lemma seen_bell_is_silent:
  assumes "\<forall>m\<in>set (rg_log r). ml_created_at m \<le> now" "customer_by_id tn (cc_id who) (rg_db r) \<noteq> None"
  shows "fst (portal_bell tn who (mark_bell_seen tn who now r)) = 0"
proof -
  have items: "ml_created_at m \<le> now" if "(m, b) \<in> set (bell_for_customer tn (cc_id who) r')" "rg_log r' = rg_log r" for m b r'
    using that assms(1) by (auto simp: bell_for_customer_def newest_first_def List.map_filter_def dest!: in_set_takeD split: option.splits)
  have "filter (\<lambda>(m, _). now < ml_created_at m) (bell_for_customer tn (cc_id who) (mark_bell_seen tn who now r)) = []"
    using items by (force simp: filter_empty_conv mark_bell_seen_def set_bell_seen_def)
  moreover obtain c where "customer_by_id tn (cc_id who) (rg_db r) = Some c" using assms(2) by blast
  ultimately show ?thesis by (simp add: portal_bell_def Let_def mark_bell_seen_def set_bell_seen_def)
qed

section \<open>Saving what is view\<close>

lemma ustrip_twice: "ustrip (ustrip t) = ustrip t"
proof (cases "ustrip t = []")
  case False
  define a b where "a = dropWhile is_uspace t" and "b = dropWhile is_uspace (rev a)"
  have b: "b \<noteq> []" "ustrip t = rev b" using False by (simp_all add: ustrip_def a_def b_def)
  then have "\<not> is_uspace (hd b)" unfolding b_def by (metis hd_dropWhile dropWhile_eq_Nil_conv)
  then have last: "\<not> is_uspace (last (ustrip t))" by (simp add: b last_rev)
  have "rev a = takeWhile is_uspace (rev a) @ b" by (simp add: b_def)
  then have a: "a = rev b @ rev (takeWhile is_uspace (rev a))" by (metis rev_append rev_rev_ident)
  then have "a \<noteq> []" "hd a = hd (ustrip t)" using b by (metis append_is_Nil_conv rev_is_Nil_conv, metis b hd_append2 rev_is_Nil_conv)
  then have "\<not> is_uspace (hd (ustrip t))" unfolding a_def by (metis hd_dropWhile dropWhile_eq_Nil_conv)
  with False last show ?thesis by (simp add: ustrip_id)
next
  case True
  have "ustrip [] = []" by (simp add: ustrip_def)
  with True show ?thesis by simp
qed

definition clean_tag :: "utext \<Rightarrow> bool" where
  "clean_tag t \<longleftrightarrow> ustrip t = t \<and> t \<noteq> [] \<and> \<not> list_ex control_char t \<and> \<not> length t > MAX_TAG_LENGTH"

lemma keep_tags_clean:
  "keep_tags cf raws seen kept = Inr out \<Longrightarrow> set seen = cf ` set kept \<Longrightarrow> \<forall>t\<in>set kept. clean_tag t \<Longrightarrow> distinct (map cf kept) \<Longrightarrow>
   (\<forall>t\<in>set out. clean_tag t) \<and> distinct (map cf out)"
proof (induction raws arbitrary: seen kept)
  case (Cons raw raws)
  let ?tag = "ustrip raw"
  show ?case
  proof (cases "?tag = [] \<or> cf ?tag \<in> set seen")
    case True
    with Cons show ?thesis by (auto simp: Let_def andthen_eq_Inr ensure_eq_Inr split: if_splits)
  next
    case False
    with Cons.prems(1) have "keep_tags cf raws (cf ?tag # seen) (kept @ [?tag]) = Inr out" "clean_tag ?tag"
      by (auto simp: Let_def andthen_eq_Inr ensure_eq_Inr clean_tag_def ustrip_twice split: if_splits)
    with Cons.IH [OF this(1)] Cons.prems(2-4) False show ?thesis by auto
  qed
qed simp

lemma keep_tags_fixed:
  "\<forall>t\<in>set ts. clean_tag t \<Longrightarrow> distinct (map cf (kept @ ts)) \<Longrightarrow> set seen = cf ` set kept \<Longrightarrow> keep_tags cf ts seen kept = Inr (kept @ ts)"
  by (induction ts arbitrary: seen kept) (auto simp: Let_def clean_tag_def)

lemma normalize_tags_twice:
  assumes "normalize_tags cf tags = Inr kept"
  shows "normalize_tags cf kept = Inr kept"
proof -
  from assms have "keep_tags cf tags [] [] = Inr kept" "\<not> length kept > MAX_TAGS"
    by (auto simp: normalize_tags_def andthen_eq_Inr ensure_eq_Inr)
  with keep_tags_clean [OF this(1)] show ?thesis
    using keep_tags_fixed [of kept cf "[]" "[]"] by (simp add: normalize_tags_def)
qed

text \<open>Saving again what the console shows after a save writes nothing: the same answer, no audit row.\<close>

theorem resaving_writes_nothing:
  assumes "update_customer_record casefold tn cid (Some n) (Some tags) r = Inr (r', view)"
  shows "update_customer_record casefold tn cid (dt_notes view) (Some (dt_tags view)) r' = Inr (r', view)"
proof -
  from assms obtain c kept where n: "validate_customer_notes n = Inr ()" and kept: "normalize_tags casefold tags = Inr kept"
    and c: "customer_by_id tn cid (rg_db r) = Some c"
    and r': "r' = (if moved_notes (Some n) (cd_notes (rg_dossier r cid)) = None \<and> moved (Some kept) (cd_tags (rg_dossier r cid)) = None
       then r else rg_record tn Customer_updated (Some cid) (fst (set_notes_and_tags tn cid
         (moved_notes (Some n) (cd_notes (rg_dossier r cid))) (moved (Some kept) (cd_tags (rg_dossier r cid))) r)))"
    and view: "view = build_detail tn c r'"
    by (auto simp: update_customer_record_def andthen_eq_Inr need_eq_Inr Let_def)
  have "c_id c = cid" using c by (auto simp: customer_by_id_def names_customer_def dest: find_SomeD)
  have d: "cd_notes (rg_dossier r' cid) = Some n" "cd_tags (rg_dossier r' cid) = kept"
    using c by (auto simp: r' moved_notes_def moved_def given_def set_notes_and_tags_def split: if_splits)
  have "customer_by_id tn cid (rg_db r') = Some c"
    using c by (auto simp: r' set_notes_and_tags_def customer_by_id_def)
  then show ?thesis
    using d n normalize_tags_twice [OF kept] \<open>c_id c = cid\<close>
    by (simp add: update_customer_record_def view build_detail_def moved_notes_def moved_def)
qed

end
