(* ===== verification/Spec2Isabelle.thy ===== *)
theory Spec2Isabelle
  imports Tenancy Slots Rate_Limit Bookings_Repo Waitlist_Repo Customers_Repo Messages Booking_Writes Otp Booking_Service Payments_Repo Payments Sweeper Booking_Owner Booking_Manage Waitlist_Cascade Protocol Atelier Walk_Ins Shifts Backoffice Catalog_Laws Retention_Laws Boutique_Laws Portal_Laws
begin

text \<open>
  \<^bold>\<open>What this is\<close>

  A model of the backend of a multi-tenant booking platform for bridal boutiques (the Python code under
  \<open>src/backend/app\<close>), with the theorems that make it correct. The program is a FastAPI service and a
  worker over one Postgres database. Every request is dispatched to one tenant by its host name, runs in
  one or a few transactions, and talks to the outside through adapters (SMS, a payment provider, an
  object store). Two state records follow that: \<open>db\<close> (theory \<open>Store\<close>) is the booking side's tables,
  \<open>house\<close> (theory \<open>House\<close>) puts the back office's tables beside it. A handler is a function from its
  arguments and the state to \<open>error + state \<times> answer\<close>: \<open>Inl\<close> is the exception the code raises, which
  rolls the transaction back, so the caller keeps the state it had. A handler that commits before it
  raises answers the state beside the error instead. Where a handler of the back office uses two transactions
  (uploads and their confirmation, availability, shift assignment, seating the next ticket, publishing terms), what
  others commit in between is an argument (\<open>between\<close>). A provider's delivery is two definitions, \<open>settle_from_webhook\<close> and \<open>react\<close>,
  which \<open>money_run\<close> and \<open>shop_step\<close> interleave freely; \<open>settle_deposit\<close> runs them back to back, as \<open>honour\<close> and
  \<open>open_deposit\<close> run theirs.

  \<^bold>\<open>Theories and the code they model\<close>

  \<^item> \<open>Prelude\<close>: scalars, errors as values (\<open>andthen\<close>, \<open>need\<close>, \<open>ensure\<close>), tables as lists
    (\<open>update_where\<close>, \<open>unique_on\<close>), the rules of \<open>leaves\<close> for what a run leaves behind, and the locale of
    a guarded table; \<open>Text\<close>: Python's string operations; \<open>Json\<close>: settings.
  \<^item> \<open>Calendar\<close>, \<open>Slots\<close>: wall clock and bookable grid (\<open>booking/slots.py\<close>, \<open>slots_io.py\<close>,
    \<open>booking/validation.py\<close>, \<open>waitlist/schedule.py\<close>).
  \<^item> \<open>Tenancy\<close> (\<open>tenancy/\<close>), \<open>Rate_Limit\<close> (\<open>auth/rate_limit.py\<close>).
  \<^item> \<open>Store\<close>: \<open>app/models\<close> and the constraints of \<open>migrations/versions\<close> for the booking side;
    \<open>Bookings_Repo\<close>, \<open>Waitlist_Repo\<close>, \<open>Customers_Repo\<close>, \<open>Payments_Repo\<close>: the repositories of
    \<open>db/repositories\<close>, one definition per method.
  \<^item> \<open>Otp\<close>, \<open>Booking_Service\<close>, \<open>Booking_Owner\<close>, \<open>Booking_Manage\<close>, \<open>Ics\<close>: \<open>app/booking\<close>;
    \<open>Messages\<close>: the scheduled messages and the worker's drain; \<open>Payments\<close>, \<open>Sweeper\<close>: \<open>app/payments\<close>;
    \<open>Waitlist_Service\<close>, \<open>Waitlist_Cascade\<close>: \<open>app/waitlist\<close>.
  \<^item> \<open>Booking_Writes\<close>, \<open>Safety\<close>, \<open>Handlers\<close>: every statement and every handler of the booking side
    keeps the constraints and the agreement between messages, bookings and waitlist entries (\<open>healthy\<close>);
    \<open>Transitions\<close> states the invariant rule as a locale and \<open>Protocol\<close> interprets it on the relation
    \<open>shop_step\<close>, one rule per handler modelled. Writers of the same rows that have no rule: the notices of
    \<open>booking/comms.py\<close> that run in a session of their own (\<open>notify_owner_reschedule\<close> rotates a link there), the
    backfill of links, the erasure and the retention purge.
  \<^item> \<open>House\<close>: the back office's tables and the two statements on them; \<open>Staff\<close>: \<open>app/auth\<close>;
    \<open>Atelier\<close>: \<open>app/atelier\<close>; \<open>Walk_Ins\<close>: \<open>app/queue\<close>; \<open>Shifts\<close>: \<open>app/shifts\<close>; \<open>Floor_Repo\<close>,
    \<open>Floor\<close>, \<open>Floor_Laws\<close>, \<open>Sos\<close>: \<open>app/floor\<close>; \<open>Catalog\<close>, \<open>Catalog_Laws\<close>: \<open>app/catalog\<close>.
  \<^item> \<open>House_Keeping\<close>, \<open>Catalog_Keeping\<close>, \<open>Backoffice\<close>: the constraints of the back office and of the
    catalogue are kept by each of their operations; the relation \<open>house_step\<close> has one rule per operation
    and takes the booking side's steps along, and its reachable states satisfy the invariants.
  \<^item> \<open>Registry\<close>: the message log, the portal sessions and the console's queries on customers;
    \<open>Privacy\<close>, \<open>Privacy_Laws\<close>: \<open>privacy/service.py\<close> (export, erasure, withdrawal);
    \<open>Retention\<close>, \<open>Retention_Laws\<close>: \<open>privacy/retention.py\<close> and the worker's hourly tick.
  \<^item> \<open>Boutique\<close>, \<open>Boutique_Laws\<close>: \<open>app/boutique\<close> and its repositories; \<open>Portal\<close>, \<open>Portal_Laws\<close>:
    \<open>app/portal\<close> and \<open>app/customers\<close>.

  \<^bold>\<open>What the groups of lemmas show\<close>

  \<^item> Constraints: a table's predicate (\<open>bookings_ok\<close>, \<open>fittings_ok\<close>, ..) is its unique indexes and CHECKs;
    a statement that would break it raises. The \<open>_run\<close> lemmas turn a guarded UPDATE into a case
    distinction on the one row it names; they come from the interface of a table (\<open>guarded_table\<close>,
    \<open>house_table\<close>), interpreted on every table.
  \<^item> Keeping: \<open>healthy\<close> is kept by every rule of \<open>shop_step\<close>, \<open>good\<close> by every rule of \<open>house_step\<close>, hence they hold
    in the states those relations reach; what no single index gives follows from them (the queue agrees with
    the rooms, a shop keeps an owner, reservations stay apart).
  \<^item> Money: over any interleaving of deliveries, reactions and sweeps each payment's row either stays or moves as
    \<open>evolved\<close> allows; late money takes a free seat within the capacity of the day or leaves everything alone.
  \<^item> Limits: a window admits exactly its budget, a stretch that straddles two windows at most twice as many.
  \<^item> Behaviour: what each important operation does on each branch, against a reference (the grid against
    its set of starts, the stages of a ticket against a stack, the bench's load against the sum).
  \<^item> Erasure: what each table holds after an erasure, row by row, what it leaves alone (workshop tickets, queued
    offers), and that a customer without a coming visit is never refused. Retention: each policy is an instance of the locale
    \<open>paged_policy\<close>; a tenant's run commits and leaves no row due, up to the bound of the drain.
  \<^item> The owner's desk: \<open>desk_run\<close> interleaves its handlers with the steps of the shop and with commits between the
    two statements of a publication; terms stay an append-only numbered history, hours become what the grid opens.
  \<^item> Once-only: second deliveries and repeated requests change nothing (settlements, releases, publishing).

  \<^bold>\<open>Bounds and fuel\<close>

  The retention drain runs on the code's own bound, at most 50 chunks of 500 rows for a class and a tenant.
  No other definition runs on fuel. The loops are structural recursions over the list they walk: the worker's drain
  and cascade take at most their batch, which is an argument; the wait of a ticket ends by a measure on
  its status and skips. Integers are unbounded, as in Python; columns with a CHECK carry it in the table's predicate.

  \<^bold>\<open>Parameters\<close>

  Code outside the repository is an argument: the timezone database (\<open>zone\<close>), the token hash and
  \<open>str.lower\<close> (\<open>env\<close>), Argon2 (\<open>passwords\<close>), the object store (\<open>storage\<close>), the payment provider
  (\<open>gateway\<close>), SMS delivery, the collation names sort by, ILIKE, \<open>str.casefold\<close>, \<open>urlsplit\<close> and \<open>time.fromisoformat\<close>. Randomness (tokens,
  codes, upload names) and clocks are arguments too, so a theorem holds for any of their values. Identifiers come
  from a counter of the database.

  \<^bold>\<open>Not modelled\<close>

  Locks are not represented: a transaction is one step, which is what the row and advisory locks give the
  handlers that take them; where the code relies on a unique index instead, the index is in the model and
  the refusal is a branch. HTTP routing, request schemas, the text of messages, the frontends, migrations as
  programs, and the adapters themselves are not modelled; nor are the services that only read for display
  (dashboard, storefront) and the platform console.
\<close>

end
